(* ===== verification/Keep_Prelude.thy ===== *)
theory Keep_Prelude
  imports Main "HOL-Library.Char_ord" "HOL-Library.AList"
begin

text \<open>
  What the other theories share: results with errors as values (\<open>rbind\<close>, \<open>traverse\<close>), the
  Python string operations the gateway calls (\<open>lower\<close>, \<open>replace\<close>, \<open>split\<close>, \<open>strip\<close>,
  \<open>splitlines\<close>, \<open>int\<close>, \<open>str\<close>) and Python's insertion-ordered dict as an association
  list.  A Python \<open>str\<close> is a HOL \<open>string\<close>: one \<open>char\<close> per code point, for code points
  below 256; the character classes below are Python's on that range.
\<close>

section \<open>Results: a raised exception is an \<open>Inl\<close>\<close>

definition rbind :: "'e + 'a \<Rightarrow> ('a \<Rightarrow> 'e + 'b) \<Rightarrow> 'e + 'b" where
  "rbind r f = (case r of Inl e \<Rightarrow> Inl e | Inr a \<Rightarrow> f a)"

lemma rbind_Inl [simp]: "rbind (Inl e) f = Inl e"
  by (simp add: rbind_def)

lemma rbind_Inr [simp]: "rbind (Inr a) f = f a"
  by (simp add: rbind_def)

lemma rbind_eq_Inr [simp]: "rbind r f = Inr b \<longleftrightarrow> (\<exists>a. r = Inr a \<and> f a = Inr b)"
  by (cases r) auto

lemma rbind_eq_Inl: "rbind r f = Inl e \<longleftrightarrow> r = Inl e \<or> (\<exists>a. r = Inr a \<and> f a = Inl e)"
  by (cases r) auto

lemma rbind_cong [fundef_cong]:
  assumes "r = r'" and "\<And>a. r' = Inr a \<Longrightarrow> f a = g a"
  shows "rbind r f = rbind r' g"
  using assms by (cases r') auto

lemma rbind_assoc: "rbind (rbind r f) g = rbind r (\<lambda>x. rbind (f x) g)"
  by (cases r) auto

definition is_ok :: "'e + 'a \<Rightarrow> bool" where
  "is_ok r = (case r of Inl _ \<Rightarrow> False | Inr _ \<Rightarrow> True)"

lemma is_ok_simps [simp]: "is_ok (Inr a)" "\<not> is_ok (Inl e)"
  by (simp_all add: is_ok_def)

lemma is_ok_iff: "is_ok r \<longleftrightarrow> (\<exists>a. r = Inr a)"
  by (cases r) auto

fun traverse :: "('a \<Rightarrow> 'e + 'b) \<Rightarrow> 'a list \<Rightarrow> 'e + 'b list" where
  "traverse f [] = Inr []"
| "traverse f (x # xs) = rbind (f x) (\<lambda>y. rbind (traverse f xs) (\<lambda>ys. Inr (y # ys)))"

lemma traverse_cong [fundef_cong]:
  assumes "xs = ys" and "\<And>x. x \<in> set ys \<Longrightarrow> f x = g x"
  shows "traverse f xs = traverse g ys"
  using assms(2) unfolding assms(1) by (induction ys) auto

lemma traverse_length: "traverse f xs = Inr ys \<Longrightarrow> length ys = length xs"
  by (induction xs arbitrary: ys) auto

lemma traverse_list_all2: "traverse f xs = Inr ys \<longleftrightarrow> list_all2 (\<lambda>x y. f x = Inr y) xs ys"
  by (induction xs arbitrary: ys) (auto simp: list_all2_Cons1)

lemma traverse_map_Inr: "(\<And>x. x \<in> set xs \<Longrightarrow> f x = Inr (g x)) \<Longrightarrow> traverse f xs = Inr (map g xs)"
  by (induction xs) auto

definition option_res :: "'e \<Rightarrow> 'a option \<Rightarrow> 'e + 'a" where
  "option_res e x = (case x of None \<Rightarrow> Inl e | Some a \<Rightarrow> Inr a)"

lemma option_res_simps [simp]: "option_res e None = Inl e" "option_res e (Some a) = Inr a"
  by (simp_all add: option_res_def)

lemma option_res_Inr [simp]: "option_res e x = Inr a \<longleftrightarrow> x = Some a"
  by (cases x) auto

section \<open>Python strings\<close>

definition lower_char :: "char \<Rightarrow> char" where
  "lower_char c = (let n = (of_char c :: nat) in
     if 65 \<le> n \<and> n \<le> 90 \<or> 192 \<le> n \<and> n \<le> 222 \<and> n \<noteq> 215 then char_of (n + 32) else c)"

definition py_lower :: "string \<Rightarrow> string" where
  "py_lower s = map lower_char s"

definition is_space :: "char \<Rightarrow> bool" where
  "is_space c = (let n = (of_char c :: nat) in
     9 \<le> n \<and> n \<le> 13 \<or> 28 \<le> n \<and> n \<le> 32 \<or> n = 133 \<or> n = 160)"

definition py_strip :: "string \<Rightarrow> string" where
  "py_strip s = rev (dropWhile is_space (rev (dropWhile is_space s)))"

definition strip_chars :: "string \<Rightarrow> string \<Rightarrow> string" where
  "strip_chars cs s = rev (dropWhile (\<lambda>c. c \<in> set cs) (rev (dropWhile (\<lambda>c. c \<in> set cs) s)))"

fun prefixed :: "string \<Rightarrow> string \<Rightarrow> bool" where
  "prefixed [] s = True"
| "prefixed (p # ps) [] = False"
| "prefixed (p # ps) (c # cs) = (p = c \<and> prefixed ps cs)"

text \<open>Python's \<open>in\<close> on strings.\<close>

fun py_in :: "string \<Rightarrow> string \<Rightarrow> bool" where
  "py_in p [] = (p = [])"
| "py_in p (c # s) = (prefixed p (c # s) \<or> py_in p s)"

definition suffixed :: "string \<Rightarrow> string \<Rightarrow> bool" where
  "suffixed p s = prefixed (rev p) (rev s)"

lemma prefixed_iff: "prefixed p s \<longleftrightarrow> (\<exists>t. s = p @ t)"
  by (induction p s rule: prefixed.induct) auto

lemma prefixed_append [simp]: "prefixed p (p @ t)"
  by (auto simp: prefixed_iff)

text \<open>\<open>s.replace(old, new)\<close> for a non-empty \<open>old\<close>: leftmost, non-overlapping.\<close>

function replace_go :: "string \<Rightarrow> string \<Rightarrow> string \<Rightarrow> string" where
  "replace_go old new s =
     (case s of [] \<Rightarrow> []
      | c # cs \<Rightarrow> if old \<noteq> [] \<and> prefixed old s then new @ replace_go old new (drop (length old) s)
                  else c # replace_go old new cs)"
  by pat_completeness auto
termination
  by (relation "measure (\<lambda>(old, new, s). length s)") (auto split: list.splits)

declare replace_go.simps [simp del]

lemma replace_go_Nil [simp]: "replace_go old new [] = []"
  by (subst replace_go.simps) simp

definition py_replace :: "string \<Rightarrow> string \<Rightarrow> string \<Rightarrow> string" where
  "py_replace old new s =
     (if old = [] then new @ concat (map (\<lambda>c. c # new) s) else replace_go old new s)"

lemma replace_go_absent:
  assumes "c \<in> set old" and "c \<notin> set s"
  shows "replace_go old new s = s"
  using assms(2)
proof (induction s)
  case Nil
  then show ?case by simp
next
  case (Cons d ds)
  have "\<not> prefixed old (d # ds)"
  proof
    assume "prefixed old (d # ds)"
    then obtain t where "d # ds = old @ t" by (auto simp: prefixed_iff)
    then have "set old \<subseteq> set (d # ds)" by (metis set_append sup_ge1)
    with assms(1) Cons.prems show False by auto
  qed
  with Cons show ?case by (subst replace_go.simps) simp
qed

text \<open>\<open>s.split(c)\<close> for a one-character separator and \<open>sep.join(xs)\<close>.\<close>

fun py_split :: "char \<Rightarrow> string \<Rightarrow> string list" where
  "py_split c [] = [[]]"
| "py_split c (x # xs) =
     (if x = c then [] # py_split c xs
      else case py_split c xs of [] \<Rightarrow> [[x]] | w # ws \<Rightarrow> (x # w) # ws)"

fun py_join :: "string \<Rightarrow> string list \<Rightarrow> string" where
  "py_join sep [] = []"
| "py_join sep [x] = x"
| "py_join sep (x # y # ys) = x @ sep @ py_join sep (y # ys)"

lemma py_split_nonempty [simp]: "py_split c s \<noteq> []"
  by (induction s) (auto split: list.splits)

lemma py_split_join: "py_join [c] (py_split c s) = s"
proof (induction s)
  case Nil
  then show ?case by simp
next
  case (Cons x xs)
  then show ?case
    by (cases "py_split c xs"; cases "tl (py_split c xs)") auto
qed

lemma py_split_no_sep: "c \<notin> set s \<Longrightarrow> py_split c s = [s]"
  by (induction s) auto

lemma py_split_append: "c \<notin> set w \<Longrightarrow> py_split c (w @ c # s) = w # py_split c s"
  by (induction w) auto

lemma py_split_of_join:
  assumes "xs \<noteq> []" and "\<forall>x \<in> set xs. c \<notin> set x"
  shows "py_split c (py_join [c] xs) = xs"
  using assms by (induction "[c]" xs rule: py_join.induct) (auto simp: py_split_no_sep py_split_append)

lemma py_join_Cons: "xs \<noteq> [] \<Longrightarrow> py_join sep (x # xs) = x @ sep @ py_join sep xs"
  by (cases xs) auto

lemma py_join_eq_Nil: "py_join sep xs = [] \<Longrightarrow> sep \<noteq> [] \<Longrightarrow> xs = [] \<or> xs = [[]]"
  by (induction sep xs rule: py_join.induct) auto

definition newline :: char where "newline = CHR 0x0A"

text \<open>\<open>s.splitlines()\<close>: the line boundaries of Python below code point 256.\<close>

definition is_linebreak :: "char \<Rightarrow> bool" where
  "is_linebreak c = (let n = (of_char c :: nat) in
     10 \<le> n \<and> n \<le> 13 \<or> 28 \<le> n \<and> n \<le> 30 \<or> n = 133)"

fun splitlines_go :: "string \<Rightarrow> string \<Rightarrow> string list" where
  "splitlines_go acc [] = (if acc = [] then [] else [rev acc])"
| "splitlines_go acc (c # cs) =
     (if is_linebreak c
      then rev acc # (if c = CHR 0x0D then
             (case cs of [] \<Rightarrow> [] | d # ds \<Rightarrow>
                if d = CHR 0x0A then splitlines_go [] ds else splitlines_go [] cs)
           else splitlines_go [] cs)
      else splitlines_go (c # acc) cs)"

definition py_splitlines :: "string \<Rightarrow> string list" where
  "py_splitlines s = splitlines_go [] s"

section \<open>Numbers and strings\<close>

definition digit_char :: "nat \<Rightarrow> char" where
  "digit_char d = (if d < 10 then char_of (48 + d) else char_of (87 + d))"

fun nat_str :: "nat \<Rightarrow> string" where
  "nat_str n = (if n < 10 then [digit_char n] else nat_str (n div 10) @ [digit_char (n mod 10)])"

declare nat_str.simps [simp del]

definition int_str :: "int \<Rightarrow> string" where
  "int_str i = (if i < 0 then CHR ''-'' # nat_str (nat (- i)) else nat_str (nat i))"

definition digit_val :: "nat \<Rightarrow> char \<Rightarrow> nat option" where
  "digit_val b c = (let n = of_char c;
     v = (if 48 \<le> n \<and> n \<le> 57 then n - 48
          else if 97 \<le> n \<and> n \<le> 122 then n - 87
          else if 65 \<le> n \<and> n \<le> 90 then n - 55 else b)
     in if v < b then Some v else None)"

text \<open>The digits of \<open>int(s, b)\<close>: one underscore is allowed between two digits.\<close>

fun digits_of :: "nat \<Rightarrow> string \<Rightarrow> nat list option" where
  "digits_of b [] = None"
| "digits_of b [c] = map_option (\<lambda>d. [d]) (digit_val b c)"
| "digits_of b (c # d # s) =
     (case digit_val b c of None \<Rightarrow> None
      | Some v \<Rightarrow> map_option (Cons v) (digits_of b (if d = CHR ''_'' then s else d # s)))"

definition digits_value :: "nat \<Rightarrow> nat list \<Rightarrow> nat" where
  "digits_value b ds = foldl (\<lambda>n d. n * b + d) 0 ds"

fun sign_of :: "string \<Rightarrow> int \<times> string" where
  "sign_of (c # s) = (if c = CHR ''-'' then (- 1, s) else if c = CHR ''+'' then (1, s) else (1, c # s))"
| "sign_of [] = (1, [])"

text \<open>\<open>int(s)\<close>; conversions of more than 4300 digits raise \<open>ValueError\<close> as well.\<close>

definition py_int :: "string \<Rightarrow> int option" where
  "py_int s = (case sign_of (py_strip s) of (sg, t) \<Rightarrow>
     (case digits_of 10 t of None \<Rightarrow> None
      | Some ds \<Rightarrow> if length ds > 4300 then None else Some (sg * int (digits_value 10 ds))))"

text \<open>\<open>int(s, 16)\<close>: an optional \<open>0x\<close> prefix, which one underscore may follow.\<close>

definition py_int16 :: "string \<Rightarrow> int option" where
  "py_int16 s = (case sign_of (py_strip s) of (sg, t) \<Rightarrow>
     let u = (if prefixed ''0x'' t \<or> prefixed ''0X'' t
              then (if prefixed ''_'' (drop 2 t) then drop 3 t else drop 2 t) else t)
     in map_option (\<lambda>ds. sg * int (digits_value 16 ds)) (digits_of 16 u))"

section \<open>Python's dict, insertion-ordered\<close>

type_synonym ('k, 'v) pydict = "('k \<times> 'v) list"

definition dict_set :: "'k \<Rightarrow> 'v \<Rightarrow> ('k, 'v) pydict \<Rightarrow> ('k, 'v) pydict" where
  "dict_set k v d = AList.update k v d"

definition dict_get :: "('k, 'v) pydict \<Rightarrow> 'k \<Rightarrow> 'v option" where
  "dict_get d k = map_of d k"

definition dict_del :: "'k \<Rightarrow> ('k, 'v) pydict \<Rightarrow> ('k, 'v) pydict" where
  "dict_del k d = filter (\<lambda>(k', _). k' \<noteq> k) d"

definition dict_keys :: "('k, 'v) pydict \<Rightarrow> 'k list" where
  "dict_keys d = map fst d"

definition dict_ok :: "('k, 'v) pydict \<Rightarrow> bool" where
  "dict_ok d = distinct (map fst d)"

text \<open>The contract every client of a dict relies on.\<close>

locale ordered_dict =
  fixes getd :: "'d \<Rightarrow> 'k \<Rightarrow> 'v option"
    and setd :: "'k \<Rightarrow> 'v \<Rightarrow> 'd \<Rightarrow> 'd"
    and deld :: "'k \<Rightarrow> 'd \<Rightarrow> 'd"
    and keysd :: "'d \<Rightarrow> 'k list"
    and okd :: "'d \<Rightarrow> bool"
  assumes get_set: "getd (setd k v d) k' = (if k' = k then Some v else getd d k')"
    and get_del: "okd d \<Longrightarrow> getd (deld k d) k' = (if k' = k then None else getd d k')"
    and ok_set: "okd d \<Longrightarrow> okd (setd k v d)"
    and ok_del: "okd d \<Longrightarrow> okd (deld k d)"
    and keys_set: "keysd (setd k v d) = (if k \<in> set (keysd d) then keysd d else keysd d @ [k])"
    and keys_get: "k \<in> set (keysd d) \<longleftrightarrow> getd d k \<noteq> None"
begin

lemma get_set_same: "getd (setd k v d) k = Some v"
  by (simp add: get_set)

lemma set_twice: "getd (setd k w (setd k v d)) k' = getd (setd k w d) k'"
  by (simp add: get_set)

lemma set_keeps_order: "k \<in> set (keysd d) \<Longrightarrow> keysd (setd k v d) = keysd d"
  by (simp add: keys_set)

lemma fold_set_keys:
  "set (keysd (fold (\<lambda>x. setd (f x) (g x)) xs d)) = set (keysd d) \<union> f ` set xs"
  by (induction xs arbitrary: d) (auto simp: keys_set)

lemma fold_set_ok: "okd d \<Longrightarrow> okd (fold (\<lambda>x. setd (f x) (g x)) xs d)"
  by (induction xs arbitrary: d) (auto simp: ok_set)

lemma fold_set_other:
  "k \<notin> f ` set xs \<Longrightarrow> getd (fold (\<lambda>x. setd (f x) (g x)) xs d) k = getd d k"
  by (induction xs arbitrary: d) (auto simp: get_set)

lemma fold_set_distinct:
  "distinct (map f xs) \<Longrightarrow> x \<in> set xs \<Longrightarrow> getd (fold (\<lambda>x. setd (f x) (g x)) xs d) (f x) = Some (g x)"
  by (induction xs arbitrary: d) (auto simp: get_set fold_set_other)

end

lemma dict_get_set: "dict_get (dict_set k v d) k' = (if k' = k then Some v else dict_get d k')"
  by (simp add: dict_get_def dict_set_def update_conv')

lemma dict_get_del: "dict_get (dict_del k d) k' = (if k' = k then None else dict_get d k')"
  by (induction d) (auto simp: dict_get_def dict_del_def)

lemma dict_keys_set: "dict_keys (dict_set k v d) = (if k \<in> set (dict_keys d) then dict_keys d else dict_keys d @ [k])"
  by (induction d) (auto simp: dict_set_def dict_keys_def)

lemma dict_ok_del: "dict_ok d \<Longrightarrow> dict_ok (dict_del k d)"
  by (induction d) (auto simp: dict_ok_def dict_del_def)

lemma dict_ok_set: "dict_ok d \<Longrightarrow> dict_ok (dict_set k v d)"
  by (simp add: dict_ok_def dict_set_def distinct_update)

lemma dict_keys_get: "k \<in> set (dict_keys d) \<longleftrightarrow> dict_get d k \<noteq> None"
  by (simp add: dict_keys_def dict_get_def map_of_eq_None_iff)

interpretation pd: ordered_dict dict_get dict_set dict_del dict_keys dict_ok
  by unfold_locales
    (simp_all only: dict_get_set dict_get_del dict_ok_set dict_ok_del dict_keys_set dict_keys_get)

section \<open>Tenants\<close>

text \<open>
  The contract of components that tenants share: a step changes what a tenant sees only if it touches that
  tenant.
\<close>

locale confined_steps =
  fixes step :: "'q \<Rightarrow> 's \<Rightarrow> 's"
    and touches :: "'q \<Rightarrow> 't \<Rightarrow> bool"
    and view :: "'s \<Rightarrow> 't \<Rightarrow> 'v"
    and sane :: "'s \<Rightarrow> bool"
  assumes step_sane: "sane s \<Longrightarrow> sane (step q s)"
    and step_confined: "sane s \<Longrightarrow> \<not> touches q t \<Longrightarrow> view (step q s) t = view s t"
begin

lemma steps_sane: "sane s \<Longrightarrow> sane (fold step qs s)"
  by (induction qs arbitrary: s) (simp_all add: step_sane)

lemma steps_confined: "sane s \<Longrightarrow> \<forall>q \<in> set qs. \<not> touches q t \<Longrightarrow> view (fold step qs s) t = view s t"
  by (induction qs arbitrary: s) (simp_all add: step_sane step_confined)

end

end
