(* ===== verification/Cel_Ast.thy ===== *)
theory Cel_Ast
  imports Keep_Prelude
begin

text \<open>
  \<^verbatim>\<open>src/repositories/cel_to_sql/ast_nodes.py\<close>: the values a CEL literal can have, the AST node
  classes (one constructor per class), the pydantic coercions their constructors perform, their
  \<open>__str__\<close>, the data types and the boolean-filter check.
\<close>

section \<open>Python values and exceptions\<close>

text \<open>
  A \<open>datetime\<close> keeps what \<open>strftime("%Y-%m-%d %H:%M:%S")\<close> prints, and the rest of its \<open>str\<close>
  (microseconds and offset) as text; whether \<open>%Y\<close> pads a year before 1000 depends on the platform,
  here it does.  A float is the text \<open>repr\<close> gives it.
\<close>

record py_datetime =
  dt_year :: nat
  dt_month :: nat
  dt_day :: nat
  dt_hour :: nat
  dt_minute :: nat
  dt_second :: nat
  dt_suffix :: string

datatype pyval =
    PyNone
  | PyBool bool
  | PyInt int
  | PyFloat string
  | PyStr string
  | PyDate py_datetime

datatype pyexc =
    CELParseError "nat option" "nat option"
  | PropertiesMappingException string
  | NotImplementedError
  | ValueError
  | TypeError
  | AttributeError
  | IndexError
  | KeyError
  | ValidationError

definition pad2 :: "nat \<Rightarrow> string" where
  "pad2 n = (if n < 10 then CHR ''0'' # nat_str n else nat_str n)"

definition pad4 :: "nat \<Rightarrow> string" where
  "pad4 n = replicate (4 - length (nat_str n)) (CHR ''0'') @ nat_str n"

definition strftime_seconds :: "py_datetime \<Rightarrow> string" where
  "strftime_seconds d = pad4 (dt_year d) @ ''-'' @ pad2 (dt_month d) @ ''-'' @ pad2 (dt_day d) @ '' ''
     @ pad2 (dt_hour d) @ '':'' @ pad2 (dt_minute d) @ '':'' @ pad2 (dt_second d)"

fun py_str :: "pyval \<Rightarrow> string" where
  "py_str PyNone = ''None''"
| "py_str (PyBool b) = (if b then ''True'' else ''False'')"
| "py_str (PyInt i) = int_str i"
| "py_str (PyFloat r) = r"
| "py_str (PyStr s) = s"
| "py_str (PyDate d) = strftime_seconds d @ dt_suffix d"

datatype pytype = TStr | TInt | TFloat | TBool | TNoneType | TDict | TList | TDatetime | TOther string

fun type_of :: "pyval \<Rightarrow> pytype" where
  "type_of PyNone = TNoneType"
| "type_of (PyBool b) = TBool"
| "type_of (PyInt i) = TInt"
| "type_of (PyFloat r) = TFloat"
| "type_of (PyStr s) = TStr"
| "type_of (PyDate d) = TDatetime"

text \<open>\<open>isinstance(v, t)\<close>: \<open>bool\<close> is a subclass of \<open>int\<close>.\<close>

definition isinstance :: "pyval \<Rightarrow> pytype \<Rightarrow> bool" where
  "isinstance v t \<longleftrightarrow> type_of v = t \<or> (type_of v = TBool \<and> t = TInt)"

section \<open>Operators and data types\<close>

datatype logical_op = LAnd | LOr

datatype comparison_op = LT | LE | GT | GE | EQ | NE | IN_OP | CONTAINS | STARTS_WITH | ENDS_WITH

datatype unary_op = UNot | UNeg | UHas

datatype data_type =
  DString | DUuid | DInteger | DFloat | DDatetime | DBoolean | DObject | DArray | DNull

fun comparison_op_value :: "comparison_op \<Rightarrow> string" where
  "comparison_op_value LT = ''<''"
| "comparison_op_value LE = ''<=''"
| "comparison_op_value GT = ''>''"
| "comparison_op_value GE = ''>=''"
| "comparison_op_value EQ = ''==''"
| "comparison_op_value NE = ''!=''"
| "comparison_op_value IN_OP = ''in''"
| "comparison_op_value CONTAINS = ''contains''"
| "comparison_op_value STARTS_WITH = ''startsWith''"
| "comparison_op_value ENDS_WITH = ''endsWith''"

definition comparison_ops :: "comparison_op list" where
  "comparison_ops = [LT, LE, GT, GE, EQ, NE, IN_OP, CONTAINS, STARTS_WITH, ENDS_WITH]"

text \<open>\<open>ComparisonNodeOperator(value)\<close>: an exact match, or a validation error.\<close>

definition comparison_op_of :: "string \<Rightarrow> pyexc + comparison_op" where
  "comparison_op_of s = option_res ValidationError (find (\<lambda>p. comparison_op_value p = s) comparison_ops)"

fun from_type_to_data_type :: "pytype \<Rightarrow> pyexc + data_type" where
  "from_type_to_data_type TStr = Inr DString"
| "from_type_to_data_type TInt = Inr DInteger"
| "from_type_to_data_type TFloat = Inr DFloat"
| "from_type_to_data_type TBool = Inr DBoolean"
| "from_type_to_data_type TNoneType = Inr DNull"
| "from_type_to_data_type TDict = Inr DObject"
| "from_type_to_data_type TList = Inr DArray"
| "from_type_to_data_type TDatetime = Inr DDatetime"
| "from_type_to_data_type (TOther n) = Inl ValueError"

section \<open>Nodes\<close>

text \<open>
  \<open>item\<close> is what the converter's stack and a comparison's second operand can hold: a node, a
  plain string, a list, or the dict an arithmetic visitor builds; a unary node's operand is
  assigned without validation too.  \<open>BaseNode\<close> is an instance of \<open>Node\<close> itself, which pydantic makes
  of a dict.
\<close>

datatype node =
    BaseNode
  | ConstantNode pyval
  | ParenthesisNode node
  | LogicalNode node logical_op node
  | ComparisonNode "node option" comparison_op "item option"
  | UnaryNode unary_op "item option"
  | MemberAccessNode "string option"
  | MethodAccessNode string "node list option"
  | PropertyAccessNode "string list" "data_type option"
  | JsonPropertyAccessNode string "string list" "data_type option"
  | MultipleFieldsNode "node list" "data_type option"
and item =
    INode node
  | IStr string
  | IList "item list"
  | IArith item string "item option"

text \<open>\<open>f"{op}"\<close> of a plain \<open>Enum\<close> member is \<open>Class.MEMBER\<close>.\<close>

fun logical_op_str :: "logical_op \<Rightarrow> string" where
  "logical_op_str LAnd = ''LogicalNodeOperator.AND''"
| "logical_op_str LOr = ''LogicalNodeOperator.OR''"

fun comparison_op_str :: "comparison_op \<Rightarrow> string" where
  "comparison_op_str LT = ''ComparisonNodeOperator.LT''"
| "comparison_op_str LE = ''ComparisonNodeOperator.LE''"
| "comparison_op_str GT = ''ComparisonNodeOperator.GT''"
| "comparison_op_str GE = ''ComparisonNodeOperator.GE''"
| "comparison_op_str EQ = ''ComparisonNodeOperator.EQ''"
| "comparison_op_str NE = ''ComparisonNodeOperator.NE''"
| "comparison_op_str IN_OP = ''ComparisonNodeOperator.IN''"
| "comparison_op_str CONTAINS = ''ComparisonNodeOperator.CONTAINS''"
| "comparison_op_str STARTS_WITH = ''ComparisonNodeOperator.STARTS_WITH''"
| "comparison_op_str ENDS_WITH = ''ComparisonNodeOperator.ENDS_WITH''"

fun unary_op_str :: "unary_op \<Rightarrow> string" where
  "unary_op_str UNot = ''UnaryNodeOperator.NOT''"
| "unary_op_str UNeg = ''UnaryNodeOperator.NEG''"
| "unary_op_str UHas = ''UnaryNodeOperator.HAS''"

text \<open>
  \<open>str(node)\<close>.  A constant whose value is not a string makes \<open>__str__\<close> raise \<open>TypeError\<close>; a
  property access reads the missing attribute \<open>value\<close>.  \<open>rp\<close> is pydantic's and Python's \<open>repr\<close>
  of a list or dict, which the source does not define.
\<close>

fun node_str :: "(item \<Rightarrow> string) \<Rightarrow> node \<Rightarrow> pyexc + string"
  and item_str :: "(item \<Rightarrow> string) \<Rightarrow> item \<Rightarrow> pyexc + string" where
  "node_str rp BaseNode = Inr (rp (INode BaseNode))"
| "node_str rp (ConstantNode v) = (case v of PyStr s \<Rightarrow> Inr s | _ \<Rightarrow> Inl TypeError)"
| "node_str rp (ParenthesisNode e) = rbind (node_str rp e) (\<lambda>s. Inr (''('' @ s @ '')''))"
| "node_str rp (LogicalNode l p r) = rbind (node_str rp l) (\<lambda>a. rbind (node_str rp r)
     (\<lambda>b. Inr (a @ '' '' @ logical_op_str p @ '' '' @ b)))"
| "node_str rp (ComparisonNode f p s) =
     rbind (case f of None \<Rightarrow> Inr ''None'' | Some n \<Rightarrow> node_str rp n)
       (\<lambda>a. rbind (case s of None \<Rightarrow> Inr ''None'' | Some i \<Rightarrow> item_str rp i)
         (\<lambda>b. Inr (a @ '' '' @ comparison_op_str p @ '' '' @ b)))"
| "node_str rp (UnaryNode p m) =
     rbind (case m of None \<Rightarrow> Inr ''None'' | Some i \<Rightarrow> item_str rp i)
       (\<lambda>a. Inr (if p = UHas then a @ ''('' @ unary_op_str p @ '')'' else unary_op_str p @ a))"
| "node_str rp (MemberAccessNode m) = (case m of None \<Rightarrow> Inl TypeError | Some s \<Rightarrow> Inr s)"
| "node_str rp (MethodAccessNode m args) =
     rbind (traverse (node_str rp) (case args of None \<Rightarrow> [] | Some ns \<Rightarrow> ns))
       (\<lambda>ss. Inr (m @ ''('' @ py_join '', '' ss @ '')''))"
| "node_str rp (PropertyAccessNode p d) = Inl AttributeError"
| "node_str rp (JsonPropertyAccessNode j p d) = Inl AttributeError"
| "node_str rp (MultipleFieldsNode fs d) = Inr (rp (INode (MultipleFieldsNode fs d)))"
| "item_str rp (INode n) = node_str rp n"
| "item_str rp (IStr s) = Inr s"
| "item_str rp (IList xs) = Inr (rp (IList xs))"
| "item_str rp (IArith l p r) = Inr (rp (IArith l p r))"

text \<open>
  What pydantic's \<open>Node.validate\<close> makes of a value for a field of type \<open>Node\<close>: a node is copied,
  a mapping becomes a bare \<open>Node\<close> (unknown fields are ignored), anything else goes through
  \<open>dict(value)\<close>.  Of a list that succeeds with keyword names only when every element is a pair
  whose first part is a string: a two-character string, a two-key dict, a two-element list.  An
  element that is a node iterates over tuples, which are no keyword names.
\<close>

fun keyword_pair :: "item \<Rightarrow> bool" where
  "keyword_pair (IStr s) = (length s = 2)"
| "keyword_pair (IArith l p r) = (r = None)"
| "keyword_pair (IList xs) = (case xs of [IStr k, _] \<Rightarrow> True | _ \<Rightarrow> False)"
| "keyword_pair (INode n) = False"

fun coerce_node :: "item \<Rightarrow> node option" where
  "coerce_node (INode n) = Some n"
| "coerce_node (IArith l p r) = Some BaseNode"
| "coerce_node (IStr s) = (if s = [] then Some BaseNode else None)"
| "coerce_node (IList xs) = (if list_all keyword_pair xs then Some BaseNode else None)"

definition node_field :: "item \<Rightarrow> pyexc + node" where
  "node_field i = option_res ValidationError (coerce_node i)"

text \<open>A field of type \<open>Optional[Node | Any]\<close>: a \<open>Node\<close> where that validates, else as it is.\<close>

definition node_or_any :: "item \<Rightarrow> item" where
  "node_or_any i = (case coerce_node i of Some n \<Rightarrow> INode n | None \<Rightarrow> i)"

lemma coerce_node_INode [simp]: "node_field (INode n) = Inr n" "node_or_any (INode n) = INode n"
  by (simp_all add: node_field_def node_or_any_def)

lemma coerce_nodes_list [simp]: "coerce_node (IList (INode n # xs)) = None"
  by simp

lemma node_or_any_nodes: "ns \<noteq> [] \<Longrightarrow> node_or_any (IList (map INode ns)) = IList (map INode ns)"
  by (cases ns) (simp_all add: node_or_any_def)

text \<open>
  \<open>node.path\<close>: only property accesses have one; the path of a JSON access is \<open>None\<close>, whose use as
  a list is a \<open>TypeError\<close>.
\<close>

fun path_of :: "node \<Rightarrow> pyexc + string list" where
  "path_of (PropertyAccessNode p d) = Inr p"
| "path_of (JsonPropertyAccessNode j p d) = Inl TypeError"
| "path_of _ = Inl AttributeError"

fun is_property_access :: "node \<Rightarrow> bool" where
  "is_property_access (PropertyAccessNode p d) = True"
| "is_property_access (JsonPropertyAccessNode j p d) = True"
| "is_property_access _ = False"

fun is_json_access :: "node \<Rightarrow> bool" where
  "is_json_access (JsonPropertyAccessNode j p d) = True"
| "is_json_access _ = False"

section \<open>The boolean-filter check\<close>

fun is_boolean_filter_node :: "node \<Rightarrow> bool" where
  "is_boolean_filter_node (ParenthesisNode e) = is_boolean_filter_node e"
| "is_boolean_filter_node (LogicalNode l p r) = (is_boolean_filter_node l \<and> is_boolean_filter_node r)"
| "is_boolean_filter_node (UnaryNode p m) =
     (case p of UNot \<Rightarrow> (case m of Some (INode n) \<Rightarrow> is_boolean_filter_node n | _ \<Rightarrow> False)
      | UHas \<Rightarrow> True | UNeg \<Rightarrow> False)"
| "is_boolean_filter_node (ComparisonNode f p s) = True"
| "is_boolean_filter_node (ConstantNode v) = (type_of v = TBool)"
| "is_boolean_filter_node (MemberAccessNode m) = True"
| "is_boolean_filter_node (MethodAccessNode m a) = True"
| "is_boolean_filter_node (PropertyAccessNode p d) = True"
| "is_boolean_filter_node (JsonPropertyAccessNode j p d) = True"
| "is_boolean_filter_node BaseNode = False"
| "is_boolean_filter_node (MultipleFieldsNode fs d) = False"

text \<open>What the stack's bottom holds need not be a node; nothing else is a filter.\<close>

fun is_boolean_filter_item :: "item \<Rightarrow> bool" where
  "is_boolean_filter_item (INode n) = is_boolean_filter_node n"
| "is_boolean_filter_item _ = False"

end
