(* ===== verification/Cel_Metadata.thy ===== *)
theory Cel_Metadata
  imports Cel_Ast
begin

text \<open>
  \<^verbatim>\<open>src/repositories/cel_to_sql/properties_metadata.py\<close>: which database columns, and which paths
  inside JSON columns, a CEL property path stands for.  The two regular expressions of the path
  syntax, the wildcard expression built from a mapping key, and \<open>fnmatch\<close> are written out as
  recursive matchers.
\<close>

section \<open>Configurations\<close>

datatype field_mapping =
    SimpleFieldMapping string
  | JsonFieldMapping string "string list"

record property_metadata_info =
  md_field_name :: string
  md_field_mappings :: "field_mapping list"
  md_enum_values :: "string list option"
  md_data_type :: "data_type option"

record field_mapping_configuration =
  cfg_map_from_pattern :: string
  cfg_map_to :: "string list"
  cfg_data_type :: "data_type option"
  cfg_enum_values :: "string list option"

text \<open>One mapping rule rewrites the targets of every copied configuration, in the dict's order.\<close>

definition apply_mapping_rule ::
  "string \<times> string \<Rightarrow> field_mapping_configuration list \<Rightarrow> field_mapping_configuration list" where
  "apply_mapping_rule r cs =
     map (\<lambda>c. c\<lparr>cfg_map_to := map (py_replace (fst r) (snd r)) (cfg_map_to c)\<rparr>) cs"

definition remap_fields_configurations ::
  "(string, string) pydict \<Rightarrow> field_mapping_configuration list \<Rightarrow> field_mapping_configuration list" where
  "remap_fields_configurations rules cs = fold apply_mapping_rule rules cs"

section \<open>Property paths as strings\<close>

definition path_char :: "char \<Rightarrow> bool" where
  "path_char c = (let n = (of_char c :: nat) in
     97 \<le> n \<and> n \<le> 122 \<or> 65 \<le> n \<and> n \<le> 90 \<or> 48 \<le> n \<and> n \<le> 57 \<or> n = 42)"

definition path_item_str :: "string \<Rightarrow> string" where
  "path_item_str item = (if list_all path_char item then item else CHR ''['' # item @ '']'')"

definition get_property_path_str :: "string list \<Rightarrow> string" where
  "get_property_path_str prop_path = py_join ''.'' (map path_item_str prop_path)"

text \<open>\<open>findall(r"\[([^\[\]]+)\]|([^.]+)")\<close>\<close>

definition not_bracket :: "char \<Rightarrow> bool" where
  "not_bracket c \<longleftrightarrow> c \<noteq> CHR ''['' \<and> c \<noteq> CHR '']''"

function extract_fields :: "string \<Rightarrow> string list" where
  "extract_fields s = (case s of [] \<Rightarrow> []
     | c # cs \<Rightarrow>
         let body = takeWhile not_bracket cs; rest = dropWhile not_bracket cs in
         if c = CHR ''['' \<and> body \<noteq> [] \<and> prefixed '']'' rest then body # extract_fields (tl rest)
         else if c \<noteq> CHR ''.'' then
           (c # takeWhile (\<lambda>x. x \<noteq> CHR ''.'') cs) # extract_fields (dropWhile (\<lambda>x. x \<noteq> CHR ''.'') cs)
         else extract_fields cs)"
  by pat_completeness auto
termination
proof (relation "measure length")
  fix s c cs body rest
  assume "s = c # cs" "rest = dropWhile not_bracket cs"
  moreover have "length (dropWhile not_bracket cs) \<le> length cs"
    by (rule length_dropWhile_le)
  ultimately show "(tl rest, s) \<in> measure length" by simp
next
  fix s and c and cs :: string
  assume "s = c # cs"
  moreover have "length (dropWhile (\<lambda>x. x \<noteq> CHR ''.'') cs) \<le> length cs"
    by (rule length_dropWhile_le)
  ultimately show "(dropWhile (\<lambda>x. x \<noteq> CHR ''.'') cs, s) \<in> measure length" by simp
qed auto

declare extract_fields.simps [simp del]

section \<open>Wildcards\<close>

text \<open>
  \<open>re.compile("^" + re.escape(key).replace("\\*", "(.*)") + "$").match(s)\<close>: the groups, or \<open>None\<close>.
  A group is greedy, does not cross a newline, and \<open>$\<close> also matches before a final newline.
\<close>

fun wild_match :: "string \<Rightarrow> string \<Rightarrow> string list option" where
  "wild_match [] s = (if s = [] \<or> s = [newline] then Some [] else None)"
| "wild_match (p # ps) [] =
     (if p = CHR ''*'' then map_option (Cons []) (wild_match ps []) else None)"
| "wild_match (p # ps) (c # cs) =
     (if p = CHR ''*'' then
        (case (if c = newline then None else wild_match (p # ps) cs) of
           Some (g # gs) \<Rightarrow> Some ((c # g) # gs)
         | _ \<Rightarrow> map_option (Cons []) (wild_match ps (c # cs)))
      else if p = c then wild_match ps cs else None)"

text \<open>\<open>fnmatch.fnmatch(s, pattern)\<close> on POSIX: \<open>*\<close>, \<open>?\<close> and bracketed character classes.\<close>

definition split_class :: "string \<Rightarrow> (string \<times> string) option" where
  "split_class s =
     (let p1 = (if prefixed ''!'' s then ''!'' else []); r1 = drop (length p1) s;
          p2 = (if prefixed '']'' r1 then '']'' else []); r2 = drop (length p2) r1;
          body = takeWhile (\<lambda>x. x \<noteq> CHR '']'') r2; rest = dropWhile (\<lambda>x. x \<noteq> CHR '']'') r2
      in if rest = [] then None else Some (p1 @ p2 @ body, tl rest))"

fun class_ranges :: "string \<Rightarrow> (char \<times> char) list" where
  "class_ranges (a # d # b # s) =
     (if d = CHR ''-'' then (a, b) # class_ranges s else (a, a) # class_ranges (d # b # s))"
| "class_ranges (a # s) = (a, a) # class_ranges s"
| "class_ranges [] = []"

definition in_class :: "string \<Rightarrow> char \<Rightarrow> bool" where
  "in_class stuff c =
     (let neg = prefixed ''!'' stuff; rs = class_ranges (if neg then tl stuff else stuff)
      in neg \<noteq> list_ex (\<lambda>(lo, hi). lo \<le> c \<and> c \<le> hi) rs)"

lemma split_class_length:
  assumes "split_class s = Some (stuff, rest)"
  shows "length rest < length s"
proof -
  obtain n where n: "rest = tl (dropWhile (\<lambda>x. x \<noteq> CHR '']'') (drop n s))"
    and ne: "dropWhile (\<lambda>x. x \<noteq> CHR '']'') (drop n s) \<noteq> []"
    using assms that [of 0] that [of 1] that [of 2]
    unfolding split_class_def Let_def drop_drop by (auto split: if_splits)
  have "length (dropWhile (\<lambda>x. x \<noteq> CHR '']'') (drop n s)) \<le> length s"
    using length_dropWhile_le [of "\<lambda>x. x \<noteq> CHR '']''" "drop n s"] by simp
  with n ne show ?thesis by (cases "dropWhile (\<lambda>x. x \<noteq> CHR '']'') (drop n s)") auto
qed

function fnmatch :: "string \<Rightarrow> string \<Rightarrow> bool" where
  "fnmatch [] s = (s = [])"
| "fnmatch (p # ps) s =
     (if p = CHR ''*'' then
        (if fnmatch ps s then True else case s of [] \<Rightarrow> False | _ # cs \<Rightarrow> fnmatch (p # ps) cs)
      else case s of [] \<Rightarrow> False
        | c # cs \<Rightarrow>
          if p = CHR ''?'' then fnmatch ps cs
          else if p = CHR ''['' then
            (case split_class ps of
               None \<Rightarrow> if c = p then fnmatch ps cs else False
             | Some (stuff, rest) \<Rightarrow> if in_class stuff c then fnmatch rest cs else False)
          else if c = p then fnmatch ps cs else False)"
  by pat_completeness auto
termination
  by (relation "measures [\<lambda>(p, s). length p, \<lambda>(p, s). length s]")
    (auto dest: split_class_length)

declare fnmatch.simps [simp del]

section \<open>\<open>PropertiesMetadata\<close>\<close>

record properties_metadata =
  wildcard_configurations :: "(string, field_mapping_configuration) pydict"
  known_configurations :: "(string, field_mapping_configuration) pydict"

definition normalised :: "field_mapping_configuration \<Rightarrow> field_mapping_configuration" where
  "normalised c = c\<lparr>cfg_map_from_pattern := get_property_path_str (extract_fields (cfg_map_from_pattern c))\<rparr>"

definition is_wildcard :: "field_mapping_configuration \<Rightarrow> bool" where
  "is_wildcard c \<longleftrightarrow> CHR ''*'' \<in> set (cfg_map_from_pattern c)"

definition add_configuration ::
  "field_mapping_configuration \<Rightarrow> properties_metadata \<Rightarrow> properties_metadata" where
  "add_configuration c m =
     (let n = normalised c in
      if is_wildcard c
      then m\<lparr>wildcard_configurations := dict_set (cfg_map_from_pattern n) n (wildcard_configurations m)\<rparr>
      else m\<lparr>known_configurations := dict_set (cfg_map_from_pattern n) n (known_configurations m)\<rparr>)"

definition properties_metadata_init :: "field_mapping_configuration list \<Rightarrow> properties_metadata" where
  "properties_metadata_init cs =
     fold add_configuration cs \<lparr>wildcard_configurations = [], known_configurations = []\<rparr>"

definition find_mapping_configuration ::
  "properties_metadata \<Rightarrow> string \<Rightarrow> (field_mapping_configuration \<times> string) option" where
  "find_mapping_configuration m prop =
     (case dict_get (known_configurations m) prop of
        Some c \<Rightarrow> Some (c, prop)
      | None \<Rightarrow> map_option (\<lambda>(p, c). (c, p))
          (find (\<lambda>(p, c). fnmatch p prop) (wildcard_configurations m)))"

text \<open>\<open>re.match(r"JSON\(([^)]+)\)", item)\<close>, its group.\<close>

definition json_column :: "string \<Rightarrow> string option" where
  "json_column item =
     (if prefixed ''JSON('' item then
        let r = drop 5 item; j = takeWhile (\<lambda>x. x \<noteq> CHR '')'') r in
        if j \<noteq> [] \<and> length j < length r then Some j else None
      else None)"

fun replace_first :: "'a \<Rightarrow> 'a \<Rightarrow> 'a list \<Rightarrow> 'a list" where
  "replace_first x y [] = []"
| "replace_first x y (z # zs) = (if z = x then y # zs else z # replace_first x y zs)"

definition map_target :: "string \<Rightarrow> string \<Rightarrow> field_mapping" where
  "map_target template item =
     (case json_column item of
        Some j \<Rightarrow>
          (let splitted = py_split (CHR ''.'') (py_replace (''JSON('' @ j @ '')'') [] item);
               parts = (if ''*'' \<in> set splitted then replace_first ''*'' template splitted
                        else splitted @ [template])
           in JsonFieldMapping j (extract_fields (py_join ''.'' (tl parts))))
      | None \<Rightarrow> SimpleFieldMapping item)"

definition template_of :: "string \<Rightarrow> string \<Rightarrow> pyexc + string" where
  "template_of key prop =
     (if CHR ''*'' \<in> set key then
        (case wild_match key prop of
           None \<Rightarrow> Inl AttributeError
         | Some [] \<Rightarrow> Inl IndexError
         | Some (g # _) \<Rightarrow> Inr g)
      else Inr prop)"

definition get_property_metadata ::
  "properties_metadata \<Rightarrow> string list \<Rightarrow> pyexc + property_metadata_info option" where
  "get_property_metadata m prop_path =
     (let prop = get_property_path_str prop_path in
      case find_mapping_configuration m prop of
        None \<Rightarrow> Inr None
      | Some (c, key) \<Rightarrow> rbind (template_of key prop) (\<lambda>template.
          Inr (Some \<lparr>md_field_name = prop, md_field_mappings = map (map_target template) (cfg_map_to c),
            md_enum_values = cfg_enum_values c, md_data_type = cfg_data_type c\<rparr>)))"

definition get_property_metadata_for_str ::
  "properties_metadata \<Rightarrow> string \<Rightarrow> pyexc + property_metadata_info option" where
  "get_property_metadata_for_str m s = get_property_metadata m (extract_fields s)"

section \<open>Lemmas\<close>

lemma extract_fields_Nil [simp]: "extract_fields [] = []"
  by (subst extract_fields.simps) simp

lemma extract_fields_dot [simp]: "extract_fields (CHR ''.'' # s) = extract_fields s"
  by (subst extract_fields.simps) (simp add: Let_def)

lemma takeWhile_stop: "\<forall>x \<in> set xs. P x \<Longrightarrow> ys = [] \<or> \<not> P (hd ys) \<Longrightarrow> takeWhile P (xs @ ys) = xs \<and> dropWhile P (xs @ ys) = ys"
  by (induction xs) (cases ys, auto)+

lemma extract_fields_bracket:
  assumes "x \<noteq> []" and "\<forall>c \<in> set x. not_bracket c"
  shows "extract_fields (CHR ''['' # x @ CHR '']'' # r) = x # extract_fields r"
proof -
  have "takeWhile not_bracket (x @ CHR '']'' # r) = x" "dropWhile not_bracket (x @ CHR '']'' # r) = CHR '']'' # r"
    using takeWhile_stop [of x not_bracket "CHR '']'' # r"] assms(2) by (auto simp: not_bracket_def)
  with assms(1) show ?thesis by (subst extract_fields.simps) (simp add: Let_def)
qed

lemma extract_fields_word:
  assumes "x \<noteq> []" and "\<forall>c \<in> set x. c \<noteq> CHR ''.'' \<and> c \<noteq> CHR ''[''" and "r = [] \<or> hd r = CHR ''.''"
  shows "extract_fields (x @ r) = x # extract_fields r"
proof -
  obtain c cs where x: "x = c # cs" using assms(1) by (cases x) auto
  with assms(2) have c: "c \<noteq> CHR ''.''" "c \<noteq> CHR ''[''" by auto
  have "takeWhile (\<lambda>y. y \<noteq> CHR ''.'') (cs @ r) = cs" "dropWhile (\<lambda>y. y \<noteq> CHR ''.'') (cs @ r) = r"
    using takeWhile_stop [of cs "\<lambda>y. y \<noteq> CHR ''.''" r] assms(2,3) x by auto
  with x c show ?thesis by (simp add: extract_fields.simps [of "c # cs @ r"] Let_def)
qed

lemma path_char_ne: "path_char c \<Longrightarrow> c \<noteq> CHR ''.'' \<and> c \<noteq> CHR ''['' \<and> c \<noteq> CHR '']''"
  by (auto simp: path_char_def Let_def)

text \<open>The paths the syntax can express: no empty component, no bracket inside one.\<close>

definition plain_path :: "string list \<Rightarrow> bool" where
  "plain_path p = list_all (\<lambda>x. x \<noteq> [] \<and> list_all not_bracket x) p"

lemma extract_fields_item:
  assumes "x \<noteq> []" and "list_all not_bracket x" and "r = [] \<or> hd r = CHR ''.''"
  shows "extract_fields (path_item_str x @ r) = x # extract_fields r"
proof (cases "list_all path_char x")
  case True
  then have "\<forall>c \<in> set x. c \<noteq> CHR ''.'' \<and> c \<noteq> CHR ''[''"
    by (auto simp: list_all_iff dest: path_char_ne)
  with extract_fields_word [OF assms(1) this assms(3)] True show ?thesis by (simp add: path_item_str_def)
next
  case False
  then have "path_item_str x @ r = CHR ''['' # x @ CHR '']'' # r" by (simp add: path_item_str_def)
  with extract_fields_bracket [OF assms(1), of r] assms(2) show ?thesis by (simp add: list_all_iff)
qed

lemma path_roundtrip: "plain_path p \<Longrightarrow> extract_fields (get_property_path_str p) = p"
proof (induction p)
  case Nil
  then show ?case by (simp add: get_property_path_str_def)
next
  case (Cons x p)
  then have x: "x \<noteq> []" "list_all not_bracket x" and IH: "extract_fields (get_property_path_str p) = p"
    by (auto simp: plain_path_def)
  show ?case
  proof (cases p)
    case Nil
    with extract_fields_item [OF x, of "[]"] show ?thesis by (simp add: get_property_path_str_def)
  next
    case (Cons y q)
    with extract_fields_item [OF x, of "CHR ''.'' # get_property_path_str p"] IH
    show ?thesis by (simp add: get_property_path_str_def)
  qed
qed

lemma path_str_inj:
  "plain_path p \<Longrightarrow> plain_path q \<Longrightarrow> get_property_path_str p = get_property_path_str q \<Longrightarrow> p = q"
  by (metis path_roundtrip)

text \<open>The wildcard expression.\<close>

fun fill :: "string \<Rightarrow> string list \<Rightarrow> string" where
  "fill [] gs = []"
| "fill (p # ps) gs = (if p = CHR ''*'' then (case gs of [] \<Rightarrow> fill ps [] | g # gs \<Rightarrow> g @ fill ps gs)
                       else p # fill ps gs)"

lemma wild_match_sound:
  "wild_match p s = Some gs \<Longrightarrow>
     (s = fill p gs \<or> s = fill p gs @ [newline]) \<and> length gs = count_list p (CHR ''*'')"
proof (induction p s arbitrary: gs rule: wild_match.induct)
  case (1 s)
  then show ?case by (auto split: if_splits)
next
  case (2 p ps)
  then show ?case by (auto split: if_splits)
next
  case (3 p ps c cs)
  show ?case
  proof (cases "p = CHR ''*''")
    case True
    let ?r = "if c = newline then None else wild_match (p # ps) cs"
    show ?thesis
    proof (cases "\<exists>g gs. ?r = Some (g # gs)")
      case longer: True
      then obtain g gs' where r: "?r = Some (g # gs')" by blast
      then have "c \<noteq> newline" "wild_match (p # ps) cs = Some (g # gs')" by (auto split: if_splits)
      moreover have "gs = (c # g) # gs'" using "3.prems" True r [unfolded True] by simp
      ultimately show ?thesis using "3.IH"(1) [OF True] True by auto
    next
      case False
      then have "?r = None \<or> ?r = Some []" by (metis list.exhaust option.exhaust)
      then have "?r = None \<and> (if c = newline then None else wild_match (CHR ''*'' # ps) cs) = None
          \<or> ?r = Some [] \<and> (if c = newline then None else wild_match (CHR ''*'' # ps) cs) = Some []"
        unfolding True by blast
      moreover from this obtain gs' where "wild_match ps (c # cs) = Some gs'" "gs = [] # gs'"
        using "3.prems" True by (elim disjE) auto
      ultimately show ?thesis using "3.IH"(2,3) [OF True] True by (elim disjE) auto
    qed
  next
    case False
    with 3 show ?thesis by (auto split: if_splits)
  qed
qed

lemma wild_match_star: "newline \<notin> set s \<Longrightarrow> wild_match ''*'' s = Some [s]"
  by (induction s) (auto simp: newline_def)

lemma fnmatch_star: "fnmatch ''*'' s"
  by (induction s) (simp_all add: fnmatch.simps)


lemma wild_match_star_newline:
  assumes "newline \<in> set s" and "last s \<noteq> newline"
  shows "wild_match ''*'' s = None"
proof (cases "wild_match ''*'' s")
  case (Some gs)
  have noline: "newline \<notin> set g" if "wild_match ''*'' t = Some (g # gs)" for t g gs
    using that
  proof (induction t arbitrary: g gs)
    case (Cons c t)
    then show ?case by (auto split: if_splits option.splits list.splits simp: newline_def)
  qed auto
  from wild_match_sound [OF Some] obtain g where "gs = [g]" "s = g \<or> s = g @ [newline]"
    by (cases gs) auto
  with noline [of s g "[]"] Some assms show ?thesis by auto
qed

lemma set_extract_fields: "x \<in> set (extract_fields s) \<Longrightarrow> set x \<subseteq> set s"
proof (induction s arbitrary: x rule: extract_fields.induct)
  case (1 s)
  have sub: "set (takeWhile P cs) \<subseteq> set cs" "set (dropWhile P cs) \<subseteq> set cs" for P and cs :: string
    by (auto dest: set_takeWhileD set_dropWhileD)
  have tl: "set (tl cs) \<subseteq> set cs" for cs :: string by (cases cs) auto
  show ?case
  proof (cases s)
    case (Cons c cs)
    let ?b = "takeWhile not_bracket cs" and ?r = "dropWhile not_bracket cs"
    show ?thesis
    proof (cases "c = CHR ''['' \<and> ?b \<noteq> [] \<and> prefixed '']'' ?r")
      case True
      then have "extract_fields s = ?b # extract_fields (tl ?r)"
        unfolding Cons extract_fields.simps [of "c # cs"] list.case Let_def by (rule if_P)
      with "1.prems" have "x = ?b \<or> x \<in> set (extract_fields (tl ?r))" by simp
      moreover have "set (tl ?r) \<subseteq> set s" "set ?b \<subseteq> set s"
        using Cons sub [of not_bracket cs] tl [of ?r] by auto
      ultimately show ?thesis using "1.IH"(1) [OF Cons refl refl True] by blast
    next
      case alt: False
      show ?thesis
      proof (cases "c = CHR ''.''")
        case True
        with "1.prems" Cons alt have "x \<in> set (extract_fields cs)"
          by (simp add: extract_fields.simps [of "c # cs"])
        with "1.IH"(3) [OF Cons refl refl alt] True Cons show ?thesis by auto
      next
        case False
        let ?w = "takeWhile (\<lambda>x. x \<noteq> CHR ''.'') cs" and ?d = "dropWhile (\<lambda>x. x \<noteq> CHR ''.'') cs"
        have "extract_fields s = (c # ?w) # extract_fields ?d"
          using Cons alt False by (simp only: extract_fields.simps [of "c # cs"] list.case Let_def if_False if_True not_False_eq_True)
        with "1.prems" have "x = c # ?w \<or> x \<in> set (extract_fields ?d)" by auto
        moreover have "set ?d \<subseteq> set s" "set (c # ?w) \<subseteq> set s"
          using Cons sub [of "\<lambda>x. x \<noteq> CHR ''.''" cs] by auto
        ultimately show ?thesis using "1.IH"(2) [OF Cons refl refl alt False] by blast
      qed
    qed
  qed (use "1.prems" in simp)
qed

lemma set_path_str: "set (get_property_path_str p) \<subseteq> \<Union> (set ` set p) \<union> set ''[].''"
proof (induction p)
  case (Cons x p)
  have "set (path_item_str x) \<subseteq> set x \<union> set ''[].''" by (auto simp: path_item_str_def)
  with Cons show ?case by (cases p) (auto simp: get_property_path_str_def)
qed (simp add: get_property_path_str_def)

definition config_key :: "field_mapping_configuration \<Rightarrow> string" where
  "config_key c = get_property_path_str (extract_fields (cfg_map_from_pattern c))"

lemma config_key_no_star: "\<not> is_wildcard c \<Longrightarrow> CHR ''*'' \<notin> set (config_key c)"
  using set_path_str [of "extract_fields (cfg_map_from_pattern c)"]
  by (fastforce simp: is_wildcard_def config_key_def dest: set_extract_fields)

lemma known_of_fold:
  "known_configurations (fold add_configuration cs m)
     = fold (\<lambda>c. dict_set (config_key c) (normalised c)) (filter (\<lambda>c. \<not> is_wildcard c) cs) (known_configurations m)"
  by (induction cs arbitrary: m) (auto simp: add_configuration_def Let_def config_key_def normalised_def)

lemma wildcards_of_fold:
  "wildcard_configurations (fold add_configuration cs m)
     = fold (\<lambda>c. dict_set (config_key c) (normalised c)) (filter is_wildcard cs) (wildcard_configurations m)"
  by (induction cs arbitrary: m) (auto simp: add_configuration_def Let_def config_key_def normalised_def)

lemma known_configuration_found:
  assumes "c \<in> set cs" and "\<not> is_wildcard c" and "distinct (map config_key (filter (\<lambda>c. \<not> is_wildcard c) cs))"
  shows "dict_get (known_configurations (properties_metadata_init cs)) (config_key c) = Some (normalised c)"
  unfolding properties_metadata_init_def known_of_fold
  by (rule pd.fold_set_distinct) (use assms in auto)

lemma known_configuration_absent:
  assumes "k \<notin> config_key ` {c \<in> set cs. \<not> is_wildcard c}"
  shows "dict_get (known_configurations (properties_metadata_init cs)) k = None"
  unfolding properties_metadata_init_def known_of_fold
  using assms by (subst pd.fold_set_other) (auto simp: dict_get_def)

lemma replace_go_prefix:
  "old \<noteq> [] \<Longrightarrow> replace_go old new (old @ s) = new @ replace_go old new s"
  by (cases old) (simp_all add: replace_go.simps [of _ _ "_ # _"] prefixed_iff)

lemma json_column_eq:
  assumes "col \<noteq> []" and "CHR '')'' \<notin> set col"
  shows "json_column (''JSON('' @ col @ '')'' @ r) = Some col"
proof -
  have "takeWhile (\<lambda>x. x \<noteq> CHR '')'') (col @ CHR '')'' # r) = col"
    by (rule takeWhile_stop [THEN conjunct1]) (use assms in auto)
  with assms(1) show ?thesis by (simp add: json_column_def Let_def)
qed

lemma map_target_json_star:
  assumes "col \<noteq> []" and "CHR '')'' \<notin> set col"
  shows "map_target t (''JSON('' @ col @ '').*'') = JsonFieldMapping col (extract_fields t)"
proof -
  let ?old = "''JSON('' @ col @ '')''"
  have "replace_go ?old [] (?old @ ''.*'') = replace_go ?old [] ''.*''"
    by (subst replace_go_prefix) simp_all
  also have "\<dots> = ''.*''"
    by (rule replace_go_absent [of "CHR ''J''"]) simp_all
  finally have "py_replace ?old [] (''JSON('' @ col @ '').*'') = ''.*''"
    by (simp add: py_replace_def)
  with json_column_eq [OF assms, of "''.*''"] show ?thesis
    by (simp add: map_target_def Let_def)
qed

lemma path_item_last: "last (path_item_str x) \<noteq> newline" if "x \<noteq> []"
  using that by (auto simp: path_item_str_def list_all_iff path_char_def newline_def Let_def dest!: last_in_set)

lemma path_str_last: "plain_path p \<Longrightarrow> p \<noteq> [] \<Longrightarrow> last (get_property_path_str p) \<noteq> newline"
proof (induction p)
  case (Cons x p)
  show ?case
  proof (cases p)
    case Nil
    with Cons.prems path_item_last [of x] show ?thesis by (simp add: get_property_path_str_def plain_path_def)
  next
    case (Cons y q)
    with Cons.prems Cons.IH show ?thesis
      by (auto simp: get_property_path_str_def plain_path_def newline_def last_append)
  qed
qed simp

section \<open>Properties\<close>

text \<open>
  The bracket notation loses nothing.  Every path without empty components and without
  brackets inside one is recovered from its string, so two such paths never share a string.
\<close>

theorem property_path_roundtrip:
  assumes "plain_path p"
  shows "extract_fields (get_property_path_str p) = p \<and>
    (plain_path q \<and> get_property_path_str q = get_property_path_str p \<longrightarrow> q = p)"
  using assms path_roundtrip path_str_inj by blast

theorem property_path_roundtrip_witness:
  "extract_fields (get_property_path_str [''labels'', ''app.kubernetes.io/name'', ''a b'']) =
     [''labels'', ''app.kubernetes.io/name'', ''a b'']"
  by (rule property_path_roundtrip [THEN conjunct1]) code_simp

text \<open>
  An exact configuration is what its path resolves to, whatever the other exact and wildcard
  configurations of the list are, provided no other exact pattern names the same path.
\<close>

theorem exact_configuration_resolves:
  assumes "c \<in> set cs" and "\<not> is_wildcard c"
    and "distinct (map config_key (filter (\<lambda>c. \<not> is_wildcard c) cs))"
    and "extract_fields (cfg_map_from_pattern c) = p"
  shows "get_property_metadata (properties_metadata_init cs) p =
    Inr (Some \<lparr>md_field_name = get_property_path_str p,
      md_field_mappings = map (map_target (get_property_path_str p)) (cfg_map_to c),
      md_enum_values = cfg_enum_values c, md_data_type = cfg_data_type c\<rparr>)"
proof -
  have key: "config_key c = get_property_path_str p"
    using assms(4) by (simp add: config_key_def)
  with known_configuration_found [OF assms(1,2,3)] config_key_no_star [OF assms(2)] show ?thesis
    by (simp add: get_property_metadata_def find_mapping_configuration_def template_of_def normalised_def Let_def)
qed

definition sample_configurations :: "field_mapping_configuration list" where
  "sample_configurations =
     [\<lparr>cfg_map_from_pattern = ''*'', cfg_map_to = [''JSON(event).*''], cfg_data_type = None, cfg_enum_values = None\<rparr>,
      \<lparr>cfg_map_from_pattern = ''incident.is_visible'', cfg_map_to = [''incident.is_visible''],
        cfg_data_type = Some DBoolean, cfg_enum_values = None\<rparr>,
      \<lparr>cfg_map_from_pattern = ''status'', cfg_map_to = [''lastalert.status'', ''alert.status''],
        cfg_data_type = Some DString, cfg_enum_values = Some [''resolved'', ''firing'']\<rparr>]"

theorem exact_configuration_resolves_witness:
  "get_property_metadata (properties_metadata_init sample_configurations) [''incident'', ''is_visible''] =
    Inr (Some \<lparr>md_field_name = ''incident.[is_visible]'',
      md_field_mappings = [SimpleFieldMapping ''incident.is_visible''],
      md_enum_values = None, md_data_type = Some DBoolean\<rparr>)"
proof -
  let ?c = "sample_configurations ! 1"
  have "?c \<in> set sample_configurations" "\<not> is_wildcard ?c"
    "distinct (map config_key (filter (\<lambda>c. \<not> is_wildcard c) sample_configurations))"
    "extract_fields (cfg_map_from_pattern ?c) = [''incident'', ''is_visible'']" by code_simp+
  from exact_configuration_resolves [OF this]
  have "get_property_metadata (properties_metadata_init sample_configurations) [''incident'', ''is_visible''] =
    Inr (Some \<lparr>md_field_name = get_property_path_str [''incident'', ''is_visible''],
      md_field_mappings = map (map_target (get_property_path_str [''incident'', ''is_visible''])) (cfg_map_to ?c),
      md_enum_values = cfg_enum_values ?c, md_data_type = cfg_data_type ?c\<rparr>)" .
  moreover have "get_property_path_str [''incident'', ''is_visible''] = ''incident.[is_visible]''" by code_simp
  moreover have "map (map_target ''incident.[is_visible]'') (cfg_map_to ?c) = [SimpleFieldMapping ''incident.is_visible'']"
    by code_simp
  moreover have "cfg_enum_values ?c = None" "cfg_data_type ?c = Some DBoolean" by code_simp+
  ultimately show ?thesis by simp
qed

text \<open>
  the catch-all configuration \<open>* -> JSON(col).*\<close> addresses exactly the queried path inside the
  JSON column, for every path that no exact configuration names; but a newline in the path makes
  the group lookup fail with \<open>AttributeError\<close>, because the dot of the wildcard expression does not
  match it.
\<close>

theorem catch_all_addresses_path:
  assumes "wildcard_configurations m = [(''*'', c)]" and "cfg_map_to c = [''JSON('' @ col @ '').*'']"
    and "dict_get (known_configurations m) (get_property_path_str p) = None"
    and "plain_path p" and "p \<noteq> []" and "col \<noteq> []" and "CHR '')'' \<notin> set col"
  shows "get_property_metadata m p =
    (if newline \<in> set (get_property_path_str p) then Inl AttributeError
     else Inr (Some \<lparr>md_field_name = get_property_path_str p, md_field_mappings = [JsonFieldMapping col p],
       md_enum_values = cfg_enum_values c, md_data_type = cfg_data_type c\<rparr>))"
  using assms wild_match_star_newline [OF _ path_str_last [OF assms(4,5)]]
  by (simp add: get_property_metadata_def find_mapping_configuration_def template_of_def fnmatch_star
      wild_match_star map_target_json_star [simplified] path_roundtrip Let_def)

theorem catch_all_addresses_path_witness:
  "get_property_metadata (properties_metadata_init sample_configurations) [''labels'', ''app name''] =
    Inr (Some \<lparr>md_field_name = ''labels.[app name]'', md_field_mappings = [JsonFieldMapping ''event'' [''labels'', ''app name'']],
      md_enum_values = None, md_data_type = None\<rparr>)"
proof -
  let ?m = "properties_metadata_init sample_configurations" and ?c = "normalised (hd sample_configurations)"
  have s: "get_property_path_str [''labels'', ''app name''] = ''labels.[app name]''" by code_simp
  have "get_property_metadata ?m [''labels'', ''app name''] =
    (if newline \<in> set (get_property_path_str [''labels'', ''app name'']) then Inl AttributeError
     else Inr (Some \<lparr>md_field_name = get_property_path_str [''labels'', ''app name''],
       md_field_mappings = [JsonFieldMapping ''event'' [''labels'', ''app name'']],
       md_enum_values = cfg_enum_values ?c, md_data_type = cfg_data_type ?c\<rparr>))"
  proof (rule catch_all_addresses_path)
    show "wildcard_configurations ?m = [(''*'', ?c)]" by code_simp
    show "cfg_map_to ?c = [''JSON('' @ ''event'' @ '').*'']" by code_simp
    show "dict_get (known_configurations ?m) (get_property_path_str [''labels'', ''app name'']) = None"
      by code_simp
    show "plain_path [''labels'', ''app name'']" by code_simp
  qed simp_all
  moreover have "newline \<notin> set ''labels.[app name]''" "cfg_enum_values ?c = None" "cfg_data_type ?c = None"
    by code_simp+
  ultimately show ?thesis by (simp add: s)
qed

end
