(* ===== verification/Py_Uuid.thy ===== *)
theory Py_Uuid
  imports Keep_Prelude
begin

text \<open>
  Python's \<open>uuid.UUID\<close>: the constructor on a string, which ignores dashes, braces and the \<open>urn:\<close> and
  \<open>uuid:\<close> prefixes, and the two ways the code prints one, \<open>str\<close> and \<open>hex\<close>.  What is printed is read
  back as the same UUID.
\<close>

section \<open>Reading and printing\<close>

text \<open>\<open>UUID(s)\<close>: its 128-bit value, or \<open>None\<close> where the constructor raises \<open>ValueError\<close>.\<close>

definition uuid_int :: "string \<Rightarrow> nat option" where
  "uuid_int s =
     (let h = py_replace ''-'' [] (strip_chars ''{}'' (py_replace ''uuid:'' [] (py_replace ''urn:'' [] s))) in
      if length h \<noteq> 32 then None
      else case py_int16 h of None \<Rightarrow> None
        | Some i \<Rightarrow> if 0 \<le> i \<and> i < 2 ^ 128 then Some (nat i) else None)"

fun hex_digits :: "nat \<Rightarrow> nat \<Rightarrow> string" where
  "hex_digits 0 n = []"
| "hex_digits (Suc k) n = hex_digits k (n div 16) @ [digit_char (n mod 16)]"

definition uuid_hex :: "nat \<Rightarrow> string" where
  "uuid_hex n = hex_digits 32 n"

definition uuid_str :: "nat \<Rightarrow> string" where
  "uuid_str n = (let h = uuid_hex n in
     take 8 h @ ''-'' @ take 4 (drop 8 h) @ ''-'' @ take 4 (drop 12 h) @ ''-'' @ take 4 (drop 16 h) @ ''-'' @ drop 20 h)"

section \<open>What is printed is read back\<close>

definition hex_chars :: string where "hex_chars = ''0123456789abcdef''"

lemma digit_char_hex: "d < 16 \<Longrightarrow> digit_char d \<in> set hex_chars \<and> digit_val 16 (digit_char d) = Some d"
proof -
  have "\<forall>d \<in> set [0..<16]. digit_char d \<in> set hex_chars \<and> digit_val 16 (digit_char d) = Some d" by code_simp
  then show "d < 16 \<Longrightarrow> digit_char d \<in> set hex_chars \<and> digit_val 16 (digit_char d) = Some d" by simp
qed

lemma hex_char_facts:
  assumes "c \<in> set hex_chars"
  shows "c \<noteq> CHR ''-''" "c \<noteq> CHR '':''" "c \<notin> set ''{}''" "c \<noteq> CHR ''+''" "c \<noteq> CHR ''x''" "c \<noteq> CHR ''X''"
    "c \<noteq> CHR ''_''" "\<not> is_space c"
proof -
  have "\<forall>c \<in> set hex_chars. c \<noteq> CHR ''-'' \<and> c \<noteq> CHR '':'' \<and> c \<notin> set ''{}'' \<and> c \<noteq> CHR ''+'' \<and> c \<noteq> CHR ''x'' \<and>
    c \<noteq> CHR ''X'' \<and> c \<noteq> CHR ''_'' \<and> \<not> is_space c" by code_simp
  with assms show "c \<noteq> CHR ''-''" "c \<noteq> CHR '':''" "c \<notin> set ''{}''" "c \<noteq> CHR ''+''" "c \<noteq> CHR ''x''" "c \<noteq> CHR ''X''"
    "c \<noteq> CHR ''_''" "\<not> is_space c" by blast+
qed

lemma hex_digits_facts: "length (hex_digits k n) = k \<and> set (hex_digits k n) \<subseteq> set hex_chars"
  by (induction k n rule: hex_digits.induct) (auto simp: digit_char_hex)

lemma digits_of_append:
  assumes "set s \<subseteq> set hex_chars" and "s \<noteq> []" and "digits_of 16 s = Some ds" and "d < 16"
  shows "digits_of 16 (s @ [digit_char d]) = Some (ds @ [d])"
  using assms
proof (induction s arbitrary: ds rule: induct_list012)
  case (2 c)
  with digit_char_hex [of d] hex_char_facts(7) [of "digit_char d"] show ?case by auto
next
  case (3 c e s)
  from "3.prems"(1) have "e \<noteq> CHR ''_''" using hex_char_facts(7) by auto
  with 3 show ?case by (auto split: option.splits)
qed simp

lemma digits_of_hex:
  "0 < k \<Longrightarrow> \<exists>ds. digits_of 16 (hex_digits k n) = Some ds \<and> digits_value 16 ds = n mod 16 ^ k"
proof (induction k arbitrary: n)
  case (Suc k)
  show ?case
  proof (cases "k = 0")
    case True
    with digit_char_hex [of "n mod 16"] show ?thesis by (simp add: digits_value_def)
  next
    case False
    with Suc.IH obtain ds where ds: "digits_of 16 (hex_digits k (n div 16)) = Some ds"
      "digits_value 16 ds = n div 16 mod 16 ^ k" by blast
    have "hex_digits k (n div 16) \<noteq> []" using hex_digits_facts [of k "n div 16"] False by auto
    then have "digits_of 16 (hex_digits (Suc k) n) = Some (ds @ [n mod 16])"
      using digits_of_append [OF _ _ ds(1), of "n mod 16"] hex_digits_facts [of k "n div 16"] by simp
    moreover have "digits_value 16 (ds @ [n mod 16]) = n mod 16 ^ Suc k"
      using ds(2) by (simp add: digits_value_def mod_mult2_eq)
    ultimately show ?thesis by blast
  qed
qed simp

lemma replace_go_char: "replace_go [c] [] s = filter (\<lambda>x. x \<noteq> c) s"
proof (induction s)
  case (Cons x s)
  then show ?case by (subst replace_go.simps) auto
qed simp

lemma dropWhile_none: "(\<forall>c \<in> set s. \<not> P c) \<Longrightarrow> dropWhile P s = s"
  by (cases s) auto

text \<open>Any arrangement of dashes around the digits is read back as the number.\<close>

lemma uuid_int_spelling:
  assumes "filter (\<lambda>x. x \<noteq> CHR ''-'') s = hex_digits 32 n" and "set s \<subseteq> insert (CHR ''-'') (set hex_chars)" and "n < 2 ^ 128"
  shows "uuid_int s = Some n"
proof -
  let ?h = "hex_digits 32 n"
  have set_h: "set ?h \<subseteq> set hex_chars" and len: "length ?h = 32" using hex_digits_facts [of 32 n] by auto
  have no_colon: "CHR '':'' \<notin> set s" and no_brace: "\<forall>c \<in> set s. c \<notin> set ''{}''"
    using assms(2) hex_char_facts(2,3) by auto
  have "py_replace ''urn:'' [] s = s" "py_replace ''uuid:'' [] s = s"
    using no_colon by (simp_all add: py_replace_def replace_go_absent [of "CHR '':''"])
  moreover have "strip_chars ''{}'' s = s"
    using no_brace by (simp add: strip_chars_def dropWhile_none del: set_simps)
  moreover have "py_replace ''-'' [] s = ?h" by (simp add: py_replace_def replace_go_char assms(1))
  moreover have "py_int16 ?h = Some (int n)"
  proof -
    obtain a b t where h: "?h = a # b # t" using len by (cases ?h; cases "tl ?h") auto
    have "a \<in> set hex_chars" "b \<in> set hex_chars" using set_h h by auto
    note ab = this [THEN hex_char_facts(1)] this [THEN hex_char_facts(4)] this [THEN hex_char_facts(5)] this [THEN hex_char_facts(6)]
    have "\<forall>c \<in> set ?h. \<not> is_space c" using set_h hex_char_facts(8) by blast
    then have strip: "py_strip ?h = ?h" by (simp add: py_strip_def dropWhile_none)
    obtain ds where "digits_of 16 ?h = Some ds" "digits_value 16 ds = n mod 16 ^ 32" using digits_of_hex [of 32 n] by auto
    then show ?thesis unfolding py_int16_def strip unfolding h using ab assms(3) by (simp add: Let_def)
  qed
  ultimately show ?thesis using len assms(3) by (simp add: uuid_int_def Let_def)
qed

lemma uuid_int_hex: "n < 2 ^ 128 \<Longrightarrow> uuid_int (uuid_hex n) = Some n"
proof -
  have "set (uuid_hex n) \<subseteq> set hex_chars" using hex_digits_facts [of 32 n] by (auto simp: uuid_hex_def)
  then have "filter (\<lambda>x. x \<noteq> CHR ''-'') (uuid_hex n) = uuid_hex n" using hex_char_facts(1) by (auto simp: filter_id_conv)
  then show "n < 2 ^ 128 \<Longrightarrow> uuid_int (uuid_hex n) = Some n"
    using \<open>set (uuid_hex n) \<subseteq> set hex_chars\<close> by (intro uuid_int_spelling) (auto simp: uuid_hex_def)
qed

lemma uuid_int_str: "n < 2 ^ 128 \<Longrightarrow> uuid_int (uuid_str n) = Some n"
proof -
  define h where "h = uuid_hex n"
  have h: "set h \<subseteq> set hex_chars" using hex_digits_facts [of 32 n] by (auto simp: h_def uuid_hex_def)
  define a b c d e where "a = take 8 h" and "b = take 4 (drop 8 h)" and "c = take 4 (drop 12 h)"
    and "d = take 4 (drop 16 h)" and "e = drop 20 h"
  note parts = a_def b_def c_def d_def e_def
  have "h = a @ drop 8 h" by (simp add: a_def)
  moreover have "drop 8 h = b @ drop 12 h" using append_take_drop_id [of 4 "drop 8 h"] by (simp add: b_def)
  moreover have "drop 12 h = c @ drop 16 h" using append_take_drop_id [of 4 "drop 12 h"] by (simp add: c_def)
  moreover have "drop 16 h = d @ e" using append_take_drop_id [of 4 "drop 16 h"] by (simp add: d_def e_def)
  ultimately have hs: "h = a @ b @ c @ d @ e" by simp
  have str: "uuid_str n = a @ ''-'' @ b @ ''-'' @ c @ ''-'' @ d @ ''-'' @ e"
    by (simp only: uuid_str_def Let_def parts h_def)
  have "x \<noteq> CHR ''-''" if "x \<in> set h" for x using that h hex_char_facts(1) by blast
  then have keep: "filter (\<lambda>x. x \<noteq> CHR ''-'') t = t" if "set t \<subseteq> set h" for t
    using that by (auto simp: filter_id_conv)
  have "set a \<subseteq> set h" "set b \<subseteq> set h" "set c \<subseteq> set h" "set d \<subseteq> set h" "set e \<subseteq> set h"
    unfolding hs by auto
  then have "filter (\<lambda>x. x \<noteq> CHR ''-'') (uuid_str n) = h" "set (uuid_str n) \<subseteq> insert (CHR ''-'') (set hex_chars)"
    using h keep unfolding str hs [symmetric] by (simp_all add: hs) blast
  then show "n < 2 ^ 128 \<Longrightarrow> uuid_int (uuid_str n) = Some n"
    by (intro uuid_int_spelling) (simp_all add: h_def uuid_hex_def)
qed

end
