(* ===== verification/Cel_Dialects.thy ===== *)
theory Cel_Dialects
  imports Cel_Metadata Py_Uuid
begin

text \<open>
  The three dialect classes of \<^verbatim>\<open>src/repositories/cel_to_sql/sql_providers/\<close> (\<^verbatim>\<open>sqlite.py\<close>,
  \<^verbatim>\<open>mysql.py\<close>, \<^verbatim>\<open>postgresql.py\<close>) and the methods of \<^verbatim>\<open>base.py\<close> they override or call.  A class is
  a record of its methods (\<open>sql_dialect\<close> in \<open>Cel_Sql\<close>), so the builder calls them as the code does, through
  \<open>self\<close>.  SQLAlchemy's string literal processor is the parameter \<open>lit\<close>.
\<close>

section \<open>Text\<close>

definition sq :: string where "sq = [CHR 0x27]"

definition dq :: string where "dq = [CHR 0x22]"

definition quoted :: "string \<Rightarrow> string" where
  "quoted s = sq @ s @ sq"

definition unquoted :: "string \<Rightarrow> string" where
  "unquoted s = butlast (tl s)"

definition json_path :: "string list \<Rightarrow> string" where
  "json_path path = py_join ''.'' (map (\<lambda>i. dq @ i @ dq) path)"

definition literal_proc :: "(string \<Rightarrow> string) \<Rightarrow> pyval \<Rightarrow> string" where
  "literal_proc lit v = (case v of PyStr s \<Rightarrow> lit s | _ \<Rightarrow> quoted (py_str v))"

definition when_case :: "(string \<times> string) list \<Rightarrow> string \<Rightarrow> string" where
  "when_case conds els =
     ''CASE '' @ py_join '' '' (map (\<lambda>(c, v). ''WHEN '' @ c @ '' THEN '' @ v) conds) @ '' ELSE '' @ els @ '' END''"

section \<open>UUID constants\<close>

definition as_uuid :: "(nat \<Rightarrow> string) \<Rightarrow> data_type option \<Rightarrow> pyval \<Rightarrow> pyval" where
  "as_uuid render expected v =
     (if expected = Some DUuid
      then (case uuid_int (py_str v) of None \<Rightarrow> v | Some n \<Rightarrow> PyStr (render n)) else v)"

section \<open>Constants\<close>

definition base_constant :: "(string \<Rightarrow> string) \<Rightarrow> pyval \<Rightarrow> pyexc + string" where
  "base_constant lit v =
     (case v of
        PyNone \<Rightarrow> Inr ''NULL''
      | PyStr s \<Rightarrow> Inr (literal_proc lit v)
      | PyBool b \<Rightarrow> Inr (py_lower (py_str v))
      | PyFloat r \<Rightarrow> Inr (py_str v)
      | PyInt i \<Rightarrow> Inr (py_str v)
      | PyDate d \<Rightarrow> Inl NotImplementedError)"

definition sqlite_constant :: "(string \<Rightarrow> string) \<Rightarrow> pyval \<Rightarrow> data_type option \<Rightarrow> pyexc + string" where
  "sqlite_constant lit v expected =
     (let v = as_uuid uuid_hex expected v in
      case v of
        PyDate d \<Rightarrow> Inr (''datetime('' @ literal_proc lit (PyStr (strftime_seconds d)) @ '')'')
      | _ \<Rightarrow> base_constant lit v)"

definition mysql_constant :: "(string \<Rightarrow> string) \<Rightarrow> pyval \<Rightarrow> data_type option \<Rightarrow> pyexc + string" where
  "mysql_constant lit v expected =
     (let v = as_uuid uuid_hex expected v in
      case v of
        PyDate d \<Rightarrow> Inr (''CAST('' @ literal_proc lit (PyStr (strftime_seconds d)) @ '' as DATETIME)'')
      | PyBool b \<Rightarrow> Inr (if b then ''TRUE'' else ''FALSE'')
      | _ \<Rightarrow> base_constant lit v)"

definition postgres_constant :: "(string \<Rightarrow> string) \<Rightarrow> pyval \<Rightarrow> data_type option \<Rightarrow> pyexc + string" where
  "postgres_constant lit v expected =
     (let v = as_uuid uuid_str expected v in
      case v of
        PyDate d \<Rightarrow> Inr (''CAST('' @ literal_proc lit (PyStr (strftime_seconds d)) @ '' as TIMESTAMP)'')
      | _ \<Rightarrow> base_constant lit v)"

section \<open>JSON columns\<close>

definition sqlite_json_extract_as_text :: "string \<Rightarrow> string list \<Rightarrow> string" where
  "sqlite_json_extract_as_text column path =
     ''json_extract('' @ column @ '', '' @ quoted (''$.'' @ json_path path) @ '')''"

definition sqlite_json_contains_path :: "string \<Rightarrow> string list \<Rightarrow> pyexc + string" where
  "sqlite_json_contains_path column path =
     (if path = [] then Inl IndexError
      else if length path = 1
      then Inr (''EXISTS (SELECT 1 FROM json_each('' @ column @ '') WHERE json_each.key = '' @ quoted (hd path) @ '')'')
      else Inr (''EXISTS (SELECT 1 FROM json_each('' @ sqlite_json_extract_as_text column (butlast path)
        @ '') WHERE json_each.key = '' @ quoted (last path) @ '')''))"

definition mysql_json_extract :: "string \<Rightarrow> string list \<Rightarrow> string" where
  "mysql_json_extract column path = ''JSON_EXTRACT('' @ column @ '', '' @ quoted (''$.'' @ json_path path) @ '')''"

definition mysql_json_extract_as_text :: "string \<Rightarrow> string list \<Rightarrow> string" where
  "mysql_json_extract_as_text column path = ''JSON_UNQUOTE('' @ mysql_json_extract column path @ '')''"

definition mysql_json_contains_path :: "string \<Rightarrow> string list \<Rightarrow> pyexc + string" where
  "mysql_json_contains_path column path =
     Inr (''JSON_CONTAINS_PATH('' @ column @ '', '' @ quoted ''one'' @ '', '' @ quoted (''$.'' @ json_path path) @ '')'')"

definition postgres_json_extract_as_text :: "string \<Rightarrow> string list \<Rightarrow> string" where
  "postgres_json_extract_as_text column path =
     (let all_columns = column # map quoted path in
      ''('' @ py_join '' -> '' (butlast all_columns) @ '') ->> '' @ last all_columns)"

definition postgres_json_contains_path :: "string \<Rightarrow> string list \<Rightarrow> pyexc + string" where
  "postgres_json_contains_path column path =
     Inr (''JSONB_PATH_EXISTS('' @ column @ ''::JSONB, '' @ quoted (''$.'' @ json_path path) @ '')'')"

section \<open>Casts\<close>

definition boolean_case :: "string \<Rightarrow> string" where
  "boolean_case e = when_case
     [(''LOWER('' @ e @ '') = '' @ quoted ''true'', ''TRUE''),
      (''LOWER('' @ e @ '') = '' @ quoted ''false'', ''FALSE''),
      (''CAST('' @ e @ '' AS SIGNED) >= 1'', ''TRUE''),
      (''CAST('' @ e @ '' AS SIGNED) <= 1'', ''FALSE''),
      (e @ '' != '' @ quoted [], ''TRUE'')] ''FALSE''"

definition sqlite_cast :: "string \<Rightarrow> data_type option \<Rightarrow> pyexc + string" where
  "sqlite_cast e to_type =
     (case to_type of
        Some DString \<Rightarrow> Inr (''CAST('' @ e @ '' as TEXT)'')
      | Some DNull \<Rightarrow> Inr e
      | Some DInteger \<Rightarrow> Inr (''CAST('' @ e @ '' as REAL)'')
      | Some DFloat \<Rightarrow> Inr (''CAST('' @ e @ '' as REAL)'')
      | Some DDatetime \<Rightarrow> Inr e
      | Some DBoolean \<Rightarrow> Inr (boolean_case e)
      | _ \<Rightarrow> Inl ValueError)"

text \<open>The builder never asks for \<open>force\<close>; without it MySQL casts booleans only.\<close>

definition mysql_cast :: "bool \<Rightarrow> string \<Rightarrow> data_type option \<Rightarrow> pyexc + string" where
  "mysql_cast force e to_type =
     (if to_type = Some DBoolean then Inr (boolean_case e)
      else if \<not> force then Inr e
      else if to_type = Some DInteger then Inr (''CAST('' @ e @ '' AS SIGNED)'')
      else if to_type = Some DFloat then Inr (''CAST('' @ e @ '' AS DOUBLE)'')
      else Inr e)"

definition postgres_number_pattern :: string where
  "postgres_number_pattern = quoted (''^[-+]?[0-9]*'' @ [CHR 0x5C] @ ''.?[0-9]+$'')"

definition postgres_boolean_case :: "string \<Rightarrow> string" where
  "postgres_boolean_case e = when_case
     [(''LOWER('' @ e @ '') = '' @ quoted ''true'', ''true''),
      (''LOWER('' @ e @ '') = '' @ quoted ''false'', ''false''),
      (e @ '' ~ '' @ postgres_number_pattern, ''CAST('' @ e @ '' AS FLOAT) >= 1''),
      (''LOWER('' @ e @ '') != '' @ quoted [], ''true'')] ''false''"

definition postgres_cast :: "string \<Rightarrow> data_type option \<Rightarrow> pyexc + string" where
  "postgres_cast e to_type =
     (case to_type of
        Some DString \<Rightarrow> Inr (''('' @ e @ '')::TEXT'')
      | Some DInteger \<Rightarrow> Inr (''('' @ e @ '')::FLOAT'')
      | Some DFloat \<Rightarrow> Inr (''('' @ e @ '')::FLOAT'')
      | Some DNull \<Rightarrow> Inr e
      | Some DDatetime \<Rightarrow> Inr (''('' @ e @ '')::TIMESTAMP'')
      | Some DBoolean \<Rightarrow> Inr (postgres_boolean_case e)
      | _ \<Rightarrow> Inl ValueError)"

section \<open>String methods\<close>

fun item_value :: "item \<Rightarrow> pyexc + pyval" where
  "item_value (INode (ConstantNode v)) = Inr v"
| "item_value i = Inl AttributeError"

text \<open>\<open>method_args[0].value\<close> of the single argument, which may be missing.\<close>

definition arg_value :: "item option \<Rightarrow> pyexc + pyval" where
  "arg_value a = (case a of None \<Rightarrow> Inl AttributeError | Some i \<Rightarrow> item_value i)"

definition like :: "string \<Rightarrow> string \<Rightarrow> string \<Rightarrow> string \<Rightarrow> string \<Rightarrow> string \<Rightarrow> string" where
  "like prop subject operator pre body post =
     prop @ '' IS NOT NULL AND '' @ subject @ operator @ quoted (pre @ body @ post)"

definition sqlite_contains :: "(string \<Rightarrow> string) \<Rightarrow> string \<Rightarrow> item option \<Rightarrow> pyexc + string" where
  "sqlite_contains lit p a = rbind (arg_value a) (\<lambda>v.
     Inr (like p p '' LIKE '' ''%'' (unquoted (literal_proc lit v)) ''%''))"

definition sqlite_starts_with :: "(string \<Rightarrow> string) \<Rightarrow> string \<Rightarrow> item option \<Rightarrow> pyexc + string" where
  "sqlite_starts_with lit p a = rbind (arg_value a) (\<lambda>v.
     Inr (like p p '' LIKE '' [] (unquoted (literal_proc lit v)) ''%''))"

definition sqlite_ends_with :: "(string \<Rightarrow> string) \<Rightarrow> string \<Rightarrow> item option \<Rightarrow> pyexc + string" where
  "sqlite_ends_with lit p a = rbind (arg_value a) (\<lambda>v.
     Inr (like p p '' LIKE '' ''%'' (unquoted (literal_proc lit v)) []))"

definition lowered :: "pyval \<Rightarrow> pyval" where
  "lowered v = (case v of PyStr s \<Rightarrow> PyStr (py_lower s) | _ \<Rightarrow> v)"

definition mysql_contains :: "(string \<Rightarrow> string) \<Rightarrow> string \<Rightarrow> item option \<Rightarrow> pyexc + string" where
  "mysql_contains lit p a = rbind (arg_value a) (\<lambda>v.
     Inr (like p (''LOWER('' @ p @ '')'') '' LIKE '' ''%'' (unquoted (literal_proc lit (lowered v))) ''%''))"

definition mysql_starts_with :: "(string \<Rightarrow> string) \<Rightarrow> string \<Rightarrow> item option \<Rightarrow> pyexc + string" where
  "mysql_starts_with lit p a = rbind (arg_value a) (\<lambda>v.
     Inr (like p (''LOWER('' @ p @ '')'') '' LIKE '' [] (unquoted (literal_proc lit (lowered v))) ''%''))"

definition mysql_ends_with :: "(string \<Rightarrow> string) \<Rightarrow> string \<Rightarrow> item option \<Rightarrow> pyexc + string" where
  "mysql_ends_with lit p a = rbind (arg_value a) (\<lambda>v.
     Inr (like p (''LOWER('' @ p @ '')'') '' LIKE '' ''%'' (unquoted (literal_proc lit (lowered v))) []))"

definition postgres_contains :: "(string \<Rightarrow> string) \<Rightarrow> string \<Rightarrow> item option \<Rightarrow> pyexc + string" where
  "postgres_contains lit p a = rbind (arg_value a) (\<lambda>v.
     Inr (like p p '' ILIKE '' ''%'' (unquoted (literal_proc lit v)) ''%''))"

definition postgres_starts_with :: "(string \<Rightarrow> string) \<Rightarrow> string \<Rightarrow> item option \<Rightarrow> pyexc + string" where
  "postgres_starts_with lit p a = rbind (arg_value a) (\<lambda>v.
     Inr (like p p '' ILIKE '' [] (unquoted (literal_proc lit v)) ''%''))"

definition postgres_ends_with :: "(string \<Rightarrow> string) \<Rightarrow> string \<Rightarrow> item option \<Rightarrow> pyexc + string" where
  "postgres_ends_with lit p a = rbind (arg_value a) (\<lambda>v.
     Inr (like p p '' ILIKE '' ''%'' (unquoted (literal_proc lit v)) []))"

end
