(* ===== verification/Cel_Mapper.thy ===== *)
theory Cel_Mapper
  imports Cel_Metadata
begin

text \<open>
  \<^verbatim>\<open>src/repositories/cel_to_sql/properties_mapper.py\<close>: the pass that replaces property paths by
  columns, resolves enum literals case-insensitively and turns order comparisons on enums into
  membership tests.  A result \<open>None\<close> is the mapper's "no filtering needed".
\<close>

section \<open>Enum literals\<close>

definition enum_canonicalization_operators :: "comparison_op list" where
  "enum_canonicalization_operators = [EQ, NE, IN_OP, GT, GE, LT, LE]"

definition canonicalize_enum_value :: "pyval \<Rightarrow> string list \<Rightarrow> pyval" where
  "canonicalize_enum_value value enum_values =
     (case value of
        PyStr s \<Rightarrow> (case find (\<lambda>e. py_lower e = py_lower s) enum_values of
                     Some e \<Rightarrow> PyStr e | None \<Rightarrow> value)
      | _ \<Rightarrow> value)"

fun canonicalize_item :: "string list \<Rightarrow> item \<Rightarrow> item" where
  "canonicalize_item es (INode (ConstantNode v)) = INode (ConstantNode (canonicalize_enum_value v es))"
| "canonicalize_item es i = i"

fun canonicalize_enum_operand :: "item option \<Rightarrow> string list \<Rightarrow> item option" where
  "canonicalize_enum_operand (Some (INode n)) es = Some (canonicalize_item es (INode n))"
| "canonicalize_enum_operand (Some (IList xs)) es = Some (IList (map (canonicalize_item es) xs))"
| "canonicalize_enum_operand s es = s"

text \<open>\<open>ComparisonNode(...)\<close> validates its second operand again.\<close>

definition new_comparison :: "node \<Rightarrow> comparison_op \<Rightarrow> item option \<Rightarrow> node" where
  "new_comparison f p s = ComparisonNode (Some f) p (map_option node_or_any s)"

definition constants :: "string list \<Rightarrow> item" where
  "constants es = IList (map (\<lambda>e. INode (ConstantNode (PyStr e))) es)"

fun index_of :: "'a list \<Rightarrow> 'a \<Rightarrow> nat" where
  "index_of [] x = 0"
| "index_of (y # ys) x = (if y = x then 0 else Suc (index_of ys x))"

definition enum_member :: "pyval \<Rightarrow> string list \<Rightarrow> bool" where
  "enum_member v es = (case v of PyStr s \<Rightarrow> s \<in> set es | _ \<Rightarrow> False)"

definition enum_start_index :: "comparison_op \<Rightarrow> nat \<Rightarrow> nat" where
  "enum_start_index p index = (if p = GT \<or> p = LE then index + 1 else index)"

text \<open>The comparison against one constant, for a property with enum values \<open>es\<close>.\<close>

definition enum_range_comparison :: "node \<Rightarrow> comparison_op \<Rightarrow> pyval \<Rightarrow> string list \<Rightarrow> node option" where
  "enum_range_comparison f p v es =
     (if \<not> enum_member v es then
        (if p = LT \<or> p = LE
         then Some (UnaryNode UNot (Some (INode (new_comparison f IN_OP (Some (constants es))))))
         else Some (new_comparison f IN_OP (Some (constants es))))
      else
        let start = enum_start_index p (index_of es (py_str v)) in
        if p = LE \<and> start \<ge> length es then None
        else if p = GT \<and> start \<ge> length es then Some (ConstantNode (PyBool False))
        else
          let result = new_comparison f IN_OP (Some (constants (drop start es))) in
          if p = LT \<or> p = LE then Some (UnaryNode UNot (Some (INode result))) else Some result)"

definition enums_of :: "property_metadata_info \<Rightarrow> string list" where
  "enums_of md = (case md_enum_values md of None \<Rightarrow> [] | Some es \<Rightarrow> es)"

definition modify_comparison_node_based_on_mapping ::
  "node \<Rightarrow> comparison_op \<Rightarrow> item option \<Rightarrow> property_metadata_info \<Rightarrow> node option" where
  "modify_comparison_node_based_on_mapping f p s md =
     (let es = enums_of md;
          s = (if es \<noteq> [] \<and> p \<in> set enum_canonicalization_operators
               then map_option node_or_any (canonicalize_enum_operand s es) else s)
      in case s of
           Some (INode (ConstantNode v)) \<Rightarrow>
             (if es \<noteq> [] \<and> p \<in> {GE, GT, LE, LT} then enum_range_comparison f p v es
              else Some (ComparisonNode (Some f) p s))
         | _ \<Rightarrow> Some (ComparisonNode (Some f) p s))"

section \<open>Columns\<close>

definition create_property_access_node :: "field_mapping \<Rightarrow> data_type option \<Rightarrow> node" where
  "create_property_access_node mapping dt =
     (case mapping of
        JsonFieldMapping j p \<Rightarrow> JsonPropertyAccessNode j p dt
      | SimpleFieldMapping c \<Rightarrow> PropertyAccessNode [c] dt)"

definition map_property ::
  "properties_metadata \<Rightarrow> node \<Rightarrow> bool \<Rightarrow> pyexc + node \<times> property_metadata_info" where
  "map_property m n throw_mapping_error =
     rbind (path_of n) (\<lambda>path. rbind (get_property_metadata m path) (\<lambda>r.
       case r of
         None \<Rightarrow>
           (let joined = py_join ''.'' path in
            if \<not> throw_mapping_error then
              Inr (n, \<lparr>md_field_name = joined, md_field_mappings = [SimpleFieldMapping joined],
                        md_enum_values = None, md_data_type = None\<rparr>)
            else Inl (PropertiesMappingException joined))
       | Some md \<Rightarrow>
           (case map (\<lambda>f. create_property_access_node f (md_data_type md)) (md_field_mappings md) of
              [] \<Rightarrow> Inl IndexError
            | [x] \<Rightarrow> Inr (x, md)
            | xs \<Rightarrow> Inr (MultipleFieldsNode xs (md_data_type md), md))))"

section \<open>The visitor\<close>

definition falsy_values :: "data_type option \<Rightarrow> pyval list" where
  "falsy_values dt =
     (if dt = Some DBoolean then [PyBool False]
      else if dt = Some DInteger \<or> dt = Some DFloat then [PyInt 0]
      else [PyStr ''0'', PyStr []])"

definition not_equal :: "node \<Rightarrow> pyval \<Rightarrow> node" where
  "not_equal f v = new_comparison f NE (Some (INode (ConstantNode v)))"

definition truthiness_node :: "node \<Rightarrow> data_type option \<Rightarrow> node" where
  "truthiness_node f dt =
     foldl (\<lambda>n v. LogicalNode n LAnd (not_equal f v)) (not_equal f PyNone) (falsy_values dt)"

definition visit_member_access_node ::
  "properties_metadata \<Rightarrow> node \<Rightarrow> pyexc + node option \<times> property_metadata_info list" where
  "visit_member_access_node m n =
     rbind (map_property m n True) (\<lambda>(f, md). Inr (Some (truthiness_node f (md_data_type md)), [md]))"

definition visit_comparison_node ::
  "properties_metadata \<Rightarrow> node option \<Rightarrow> comparison_op \<Rightarrow> item option
     \<Rightarrow> pyexc + node option \<times> property_metadata_info list" where
  "visit_comparison_node m f p s =
     (case f of
        Some n \<Rightarrow>
          if is_property_access n then
            rbind (map_property m n True) (\<lambda>(x, md).
              Inr (modify_comparison_node_based_on_mapping x p (map_option node_or_any s) md, [md]))
          else Inr (Some (ComparisonNode f p s), [])
      | None \<Rightarrow> Inr (Some (ComparisonNode f p s), []))"

text \<open>
  The involved fields, which the code appends to a shared list, are returned in the order they are
  appended; a negation visits its operand twice, as the code does.
\<close>

fun visit_nodes :: "properties_metadata \<Rightarrow> node \<Rightarrow> pyexc + node option \<times> property_metadata_info list" where
  "visit_nodes m (ParenthesisNode e) = visit_nodes m e"
| "visit_nodes m (LogicalNode l p r) =
     rbind (visit_nodes m l) (\<lambda>(left, fs). rbind (visit_nodes m r) (\<lambda>(right, gs).
       Inr (case left of None \<Rightarrow> right
            | Some a \<Rightarrow> (case right of None \<Rightarrow> left | Some b \<Rightarrow> Some (LogicalNode a p b)), fs @ gs)))"
| "visit_nodes m (ComparisonNode f p s) = visit_comparison_node m f p s"
| "visit_nodes m (MemberAccessNode n) = visit_member_access_node m (MemberAccessNode n)"
| "visit_nodes m (MethodAccessNode n a) = visit_member_access_node m (MethodAccessNode n a)"
| "visit_nodes m (PropertyAccessNode p d) = visit_member_access_node m (PropertyAccessNode p d)"
| "visit_nodes m (JsonPropertyAccessNode j p d) = visit_member_access_node m (JsonPropertyAccessNode j p d)"
| "visit_nodes m (UnaryNode p x) =
     (case x of
        Some (INode n) \<Rightarrow>
          if p = UHas \<and> is_property_access n then
            rbind (map_property m n False) (\<lambda>(f, md). Inr (Some (UnaryNode UHas (Some (INode f))), [md]))
          else
            rbind (visit_nodes m n) (\<lambda>(operand, fs). case operand of
                None \<Rightarrow> Inr (Some (UnaryNode p (Some (INode (ConstantNode (PyBool True))))), fs)
              | Some _ \<Rightarrow> rbind (visit_nodes m n) (\<lambda>(again, gs).
                  Inr (Some (UnaryNode p (map_option INode again)), fs @ gs)))
      | _ \<Rightarrow> Inl NotImplementedError)"
| "visit_nodes m (ConstantNode v) = Inr (Some (ConstantNode v), [])"
| "visit_nodes m BaseNode = Inl NotImplementedError"
| "visit_nodes m (MultipleFieldsNode fs d) = Inl NotImplementedError"

definition distinct_fields :: "property_metadata_info list \<Rightarrow> property_metadata_info list" where
  "distinct_fields fs = map snd (fold (\<lambda>f. dict_set (md_field_name f) f) fs [])"

definition map_props_in_ast ::
  "properties_metadata \<Rightarrow> node \<Rightarrow> pyexc + node option \<times> property_metadata_info list" where
  "map_props_in_ast m n = rbind (visit_nodes m n) (\<lambda>(r, fs). Inr (r, distinct_fields fs))"

section \<open>What a mapped filter means on a row\<close>

text \<open>
  A row gives every column expression a value.  Comparisons outside the mapper's concern are an
  arbitrary relation \<open>R\<close>, the same before and after mapping.
\<close>

fun item_constant :: "item \<Rightarrow> pyval option" where
  "item_constant (INode (ConstantNode v)) = Some v"
| "item_constant i = None"

fun holds :: "(comparison_op \<Rightarrow> pyval \<Rightarrow> pyval \<Rightarrow> bool) \<Rightarrow> (node \<Rightarrow> pyval) \<Rightarrow> node \<Rightarrow> bool" where
  "holds R row (ConstantNode v) = (v = PyBool True)"
| "holds R row (ParenthesisNode n) = holds R row n"
| "holds R row (LogicalNode l p r) =
     (case p of LAnd \<Rightarrow> holds R row l \<and> holds R row r | LOr \<Rightarrow> holds R row l \<or> holds R row r)"
| "holds R row (ComparisonNode f p s) =
     (case f of None \<Rightarrow> False | Some c \<Rightarrow>
       (case s of
          Some (INode (ConstantNode v)) \<Rightarrow> R p (row c) v
        | Some (IList xs) \<Rightarrow> p = IN_OP \<and> Some (row c) \<in> set (map item_constant xs)
        | _ \<Rightarrow> False))"
| "holds R row (UnaryNode p x) =
     (case x of Some (INode n) \<Rightarrow> p = UNot \<and> \<not> holds R row n | _ \<Rightarrow> False)"
| "holds R row n = False"

text \<open>
  The meaning of a comparison on a property: on an enum, the order operators compare positions in
  the declared list, and literals are read case-insensitively.
\<close>

definition order_op :: "comparison_op \<Rightarrow> bool" where
  "order_op p \<longleftrightarrow> p \<in> {LT, LE, GT, GE}"

fun rank_compare :: "comparison_op \<Rightarrow> nat \<Rightarrow> nat \<Rightarrow> bool" where
  "rank_compare LT i j = (i < j)"
| "rank_compare LE i j = (i \<le> j)"
| "rank_compare GT i j = (i > j)"
| "rank_compare GE i j = (i \<ge> j)"
| "rank_compare _ i j = False"

definition property_compare ::
  "(comparison_op \<Rightarrow> pyval \<Rightarrow> pyval \<Rightarrow> bool) \<Rightarrow> string list \<Rightarrow> pyval \<Rightarrow> comparison_op \<Rightarrow> pyval \<Rightarrow> bool" where
  "property_compare R es v p c =
     (if es = [] then R p v c
      else if order_op p then
        rank_compare p (index_of es (py_str v)) (index_of es (py_str (canonicalize_enum_value c es)))
      else if p \<in> set enum_canonicalization_operators then R p v (canonicalize_enum_value c es)
      else R p v c)"

fun source_holds ::
  "properties_metadata \<Rightarrow> (comparison_op \<Rightarrow> pyval \<Rightarrow> pyval \<Rightarrow> bool) \<Rightarrow> (node \<Rightarrow> pyval) \<Rightarrow> node \<Rightarrow> bool" where
  "source_holds m R row (ParenthesisNode n) = source_holds m R row n"
| "source_holds m R row (LogicalNode l p r) =
     (case p of LAnd \<Rightarrow> source_holds m R row l \<and> source_holds m R row r
      | LOr \<Rightarrow> source_holds m R row l \<or> source_holds m R row r)"
| "source_holds m R row (ComparisonNode f p s) =
     (case (f, s) of
        (Some n, Some (INode (ConstantNode c))) \<Rightarrow>
          (case map_property m n True of
             Inl e \<Rightarrow> False
           | Inr (x, md) \<Rightarrow> property_compare R (enums_of md) (row x) p c)
      | _ \<Rightarrow> False)"
| "source_holds m R row (UnaryNode p x) =
     (case x of Some (INode n) \<Rightarrow> p = UNot \<and> \<not> source_holds m R row n | _ \<Rightarrow> False)"
| "source_holds m R row (ConstantNode v) = (v = PyBool True)"
| "source_holds m R row n = False"

text \<open>
  The filters the refinement speaks about: comparisons of known properties with constants, where
  an enum column holds one of its declared values and an ordered literal names one of them, and
  disjunctions none of whose operands the mapper drops.
\<close>

definition enum_row_ok :: "string list \<Rightarrow> pyval \<Rightarrow> comparison_op \<Rightarrow> pyval \<Rightarrow> bool" where
  "enum_row_ok es v p c \<longleftrightarrow> es \<noteq> [] \<and> order_op p \<longrightarrow>
     distinct es \<and> enum_member v es \<and> enum_member (canonicalize_enum_value c es) es"

definition dropped :: "properties_metadata \<Rightarrow> node \<Rightarrow> bool" where
  "dropped m n = (case visit_nodes m n of Inr (None, _) \<Rightarrow> True | _ \<Rightarrow> False)"

fun mappable :: "properties_metadata \<Rightarrow> (node \<Rightarrow> pyval) \<Rightarrow> node \<Rightarrow> bool" where
  "mappable m row (ParenthesisNode n) = mappable m row n"
| "mappable m row (LogicalNode l p r) =
     (mappable m row l \<and> mappable m row r
      \<and> (p = LOr \<longrightarrow> \<not> dropped m l \<and> \<not> dropped m r))"
| "mappable m row (ComparisonNode f p s) =
     (case (f, s) of
        (Some n, Some (INode (ConstantNode c))) \<Rightarrow>
          is_property_access n \<and>
          (case map_property m n True of
             Inl e \<Rightarrow> False
           | Inr (x, md) \<Rightarrow> enum_row_ok (enums_of md) (row x) p c)
      | _ \<Rightarrow> False)"
| "mappable m row (UnaryNode p x) =
     (case x of Some (INode n) \<Rightarrow> p = UNot \<and> mappable m row n | _ \<Rightarrow> False)"
| "mappable m row (ConstantNode v) = True"
| "mappable m row n = False"

section \<open>Lemmas\<close>

lemma node_or_any_constants: "es \<noteq> [] \<Longrightarrow> node_or_any (constants es) = constants es"
  using node_or_any_nodes [of "map (\<lambda>e. ConstantNode (PyStr e)) es"]
  by (simp add: constants_def comp_def)

lemma holds_in_constants:
  assumes "es \<noteq> []"
  shows "holds R row (new_comparison f IN_OP (Some (constants es))) \<longleftrightarrow> enum_member (row f) es"
  using node_or_any_constants [OF assms]
  by (auto simp: new_comparison_def constants_def enum_member_def image_iff split: pyval.splits)

lemma index_of_less: "x \<in> set xs \<Longrightarrow> index_of xs x < length xs"
  by (induction xs) auto

lemma nth_index_of: "x \<in> set xs \<Longrightarrow> xs ! index_of xs x = x"
  by (induction xs) auto

lemma in_drop_iff:
  assumes "distinct xs" and "x \<in> set xs"
  shows "x \<in> set (drop n xs) \<longleftrightarrow> n \<le> index_of xs x"
  using assms
proof (induction xs arbitrary: n)
  case (Cons y ys)
  then show ?case
    by (cases n) (auto dest: in_set_dropD)
qed simp

lemma enum_member_drop:
  assumes "distinct es" and "enum_member v es"
  shows "enum_member v (drop n es) \<longleftrightarrow> n \<le> index_of es (py_str v)"
  using assms by (auto simp: enum_member_def in_drop_iff split: pyval.splits)

lemma enum_range_refines:
  assumes "es \<noteq> []" and "distinct es" and "enum_member (row f) es" and "enum_member c es" and "order_op p"
  shows "(case enum_range_comparison f p c es of None \<Rightarrow> True | Some n \<Rightarrow> holds R row n)
    = rank_compare p (index_of es (py_str (row f))) (index_of es (py_str c))"
proof -
  let ?i = "index_of es (py_str (row f))" and ?j = "index_of es (py_str c)"
  have i: "?i < length es" and j: "?j < length es"
    using assms(3,4) by (auto simp: enum_member_def index_of_less split: pyval.splits)
  have mem: "holds R row (new_comparison f IN_OP (Some (constants (drop k es)))) \<longleftrightarrow> k \<le> ?i" if "k < length es" for k
    using holds_in_constants [of "drop k es" R row f] enum_member_drop [OF assms(2,3), of k] that by simp
  show ?thesis
    using assms(5) i j mem [of ?j] mem [of "Suc ?j"] assms(4)
    by (auto simp: order_op_def enum_range_comparison_def enum_start_index_def Let_def)
qed

lemma modify_order:
  assumes "enums_of md \<noteq> []" and "order_op p"
  shows "modify_comparison_node_based_on_mapping f p (Some (INode (ConstantNode c))) md
    = enum_range_comparison f p (canonicalize_enum_value c (enums_of md)) (enums_of md)"
  using assms by (auto simp: modify_comparison_node_based_on_mapping_def order_op_def
      enum_canonicalization_operators_def Let_def)

lemma modify_other:
  assumes "enums_of md = [] \<or> \<not> order_op p"
  shows "modify_comparison_node_based_on_mapping f p (Some (INode (ConstantNode c))) md
    = Some (ComparisonNode (Some f) p (Some (INode (ConstantNode
        (if enums_of md \<noteq> [] \<and> p \<in> set enum_canonicalization_operators
         then canonicalize_enum_value c (enums_of md) else c)))))"
  using assms by (auto simp: modify_comparison_node_based_on_mapping_def order_op_def Let_def)

lemma modify_refines:
  assumes "enum_row_ok (enums_of md) (row f) p c"
  shows "(case modify_comparison_node_based_on_mapping f p (Some (INode (ConstantNode c))) md of
      None \<Rightarrow> True | Some n \<Rightarrow> holds R row n)
    = property_compare R (enums_of md) (row f) p c"
proof (cases "enums_of md \<noteq> [] \<and> order_op p")
  case True
  with assms enum_range_refines [of "enums_of md" row f "canonicalize_enum_value c (enums_of md)" p R]
  show ?thesis by (simp add: modify_order property_compare_def enum_row_ok_def)
next
  case False
  then show ?thesis by (auto simp: modify_other property_compare_def)
qed

lemma mapping_refines:
  "mappable m row n \<Longrightarrow> \<exists>r fs. visit_nodes m n = Inr (r, fs) \<and>
     (case r of None \<Rightarrow> True | Some n' \<Rightarrow> holds R row n') = source_holds m R row n"
proof (induction m n rule: visit_nodes.induct)
  case (2 m l p r)
  then have m: "mappable m row l" "mappable m row r" by auto
  obtain a fs where a: "visit_nodes m l = Inr (a, fs)"
    and la: "(case a of None \<Rightarrow> True | Some n' \<Rightarrow> holds R row n') = source_holds m R row l"
    using "2.IH"(1) [OF m(1)] by blast
  obtain b gs where b: "visit_nodes m r = Inr (b, gs)"
    and rb: "(case b of None \<Rightarrow> True | Some n' \<Rightarrow> holds R row n') = source_holds m R row r"
    using "2.IH"(2) [OF a refl m(2)] by blast
  have "p = LOr \<longrightarrow> a \<noteq> None \<and> b \<noteq> None" using "2.prems" a b by (auto simp: dropped_def split: option.splits)
  with a b la rb show ?case by (cases p) (auto split: option.splits)
next
  case (3 m f p s)
  then obtain n c x md where eq: "f = Some n" "s = Some (INode (ConstantNode c))"
    and n: "is_property_access n" "map_property m n True = Inr (x, md)"
    and ok: "enum_row_ok (enums_of md) (row x) p c"
    by (auto split: option.splits item.splits node.splits sum.splits)
  with modify_refines [of md row x p c R] show ?case by (simp add: visit_comparison_node_def)
next
  case (8 m p x)
  then obtain n where x: "x = Some (INode n)" and p: "p = UNot" and n: "mappable m row n"
    by (auto split: option.splits item.splits)
  with "8.IH"(1) [OF x refl] obtain a fs where v: "visit_nodes m n = Inr (a, fs)"
    and h: "(case a of None \<Rightarrow> True | Some n' \<Rightarrow> holds R row n') = source_holds m R row n" by auto
  then show ?case using x p by (cases a) auto
qed auto

lemma find_ext: "(\<And>x. P x = Q x) \<Longrightarrow> find P xs = find Q xs"
  by (induction xs) auto

lemma canonical_same_case:
  assumes "py_lower s = py_lower t" and "\<exists>e \<in> set es. py_lower e = py_lower s"
  shows "canonicalize_enum_value (PyStr s) es = canonicalize_enum_value (PyStr t) es"
proof -
  obtain e where "find (\<lambda>e. py_lower e = py_lower t) es = Some e"
    using assms by (cases "find (\<lambda>e. py_lower e = py_lower t) es") (auto simp: find_None_iff)
  with assms(1) show ?thesis by (simp add: canonicalize_enum_value_def)
qed

lemma canonical_member: "py_lower e = py_lower s \<Longrightarrow> e \<in> set es \<Longrightarrow> enum_member (canonicalize_enum_value (PyStr s) es) es"
  by (auto simp: canonicalize_enum_value_def enum_member_def find_None_iff find_Some_iff split: option.splits)

lemma names_of_fold:
  "set (dict_keys (fold (\<lambda>f. dict_set (md_field_name f) f) fs d)) = set (dict_keys d) \<union> md_field_name ` set fs"
  by (rule pd.fold_set_keys)

lemma set_dict_set: "set (dict_set k v d) \<subseteq> insert (k, v) (set d)"
  by (induction d) (auto simp: dict_set_def)

lemma fold_values:
  assumes "\<And>k f. (k, f) \<in> set d \<Longrightarrow> md_field_name f = k"
    and "(k, f) \<in> set (fold (\<lambda>f. dict_set (md_field_name f) f) fs d)"
  shows "md_field_name f = k \<and> (f \<in> set fs \<or> (k, f) \<in> set d)"
  using assms
proof (induction fs arbitrary: d)
  case (Cons g gs)
  note sub = set_dict_set [of "md_field_name g" g d]
  have "md_field_name f = k \<and> (f \<in> set gs \<or> (k, f) \<in> set (dict_set (md_field_name g) g d))"
    using Cons.prems sub by (intro Cons.IH) auto
  with sub show ?case by auto
qed auto

lemma distinct_fields_facts:
  "distinct (map md_field_name (distinct_fields fs))"
  "md_field_name ` set (distinct_fields fs) = md_field_name ` set fs"
  "set (distinct_fields fs) \<subseteq> set fs"
proof -
  let ?d = "fold (\<lambda>f. dict_set (md_field_name f) f) fs []"
  have vals: "md_field_name f = k \<and> f \<in> set fs" if "(k, f) \<in> set ?d" for k f
    using fold_values [of "[]", OF _ that] by auto
  then have names: "map md_field_name (map snd ?d) = map fst ?d" by auto
  have "dict_ok ?d" by (rule pd.fold_set_ok) (simp add: dict_ok_def)
  with names show "distinct (map md_field_name (distinct_fields fs))"
    unfolding distinct_fields_def names by (simp add: dict_ok_def)
  show "md_field_name ` set (distinct_fields fs) = md_field_name ` set fs"
    using names_of_fold [of fs "[]"] arg_cong [OF names, of set]
    by (simp add: distinct_fields_def dict_keys_def image_image)
  show "set (distinct_fields fs) \<subseteq> set fs"
    using vals by (auto simp: distinct_fields_def)
qed

section \<open>Properties\<close>

text \<open>
  C6: the mapper keeps the meaning of a mappable filter: one built from comparisons of known properties with
  constants and from constants, in which every enum column compared by order holds one of its declared
  values and is compared with one of them, and no operand of a disjunction is dropped.  On such a filter
  the mapped tree holds on a row exactly when the filter does, where order comparisons on an enum compare
  positions in its declared list; the result "no filtering" stands for a filter that holds.
\<close>

theorem mapping_preserves_meaning:
  assumes "mappable m row n"
  shows "\<exists>r fs. map_props_in_ast m n = Inr (r, fs) \<and>
     (case r of None \<Rightarrow> True | Some n' \<Rightarrow> holds R row n') = source_holds m R row n"
  using mapping_refines [OF assms, of R] by (auto simp: map_props_in_ast_def)

definition severity_configurations :: "field_mapping_configuration list" where
  "severity_configurations =
     [\<lparr>cfg_map_from_pattern = ''severity'', cfg_map_to = [''alert.severity''], cfg_data_type = Some DString,
        cfg_enum_values = Some [''low'', ''info'', ''warning'', ''high'', ''critical'']\<rparr>,
      \<lparr>cfg_map_from_pattern = ''name'', cfg_map_to = [''alert.name''], cfg_data_type = Some DString,
        cfg_enum_values = None\<rparr>]"

definition severity_metadata :: properties_metadata where
  "severity_metadata = properties_metadata_init severity_configurations"

definition compare_property :: "string \<Rightarrow> comparison_op \<Rightarrow> string \<Rightarrow> node" where
  "compare_property x p v =
     ComparisonNode (Some (PropertyAccessNode [x] None)) p (Some (INode (ConstantNode (PyStr v))))"

definition row_with :: "string \<Rightarrow> node \<Rightarrow> pyval" where
  "row_with sev n = (case n of PropertyAccessNode [c] d \<Rightarrow>
     if c = ''alert.severity'' then PyStr sev else PyStr ''cpu'' | _ \<Rightarrow> PyNone)"

theorem mapping_preserves_meaning_witness:
  "\<exists>r fs. map_props_in_ast severity_metadata (compare_property ''severity'' GT ''Warning'') = Inr (r, fs) \<and>
     (case r of None \<Rightarrow> True | Some n' \<Rightarrow> holds (\<lambda>p v c. v = c) (row_with ''high'') n')
       = source_holds severity_metadata (\<lambda>p v c. v = c) (row_with ''high'') (compare_property ''severity'' GT ''Warning'')"
  by (rule mapping_preserves_meaning) code_simp

text \<open>
  Enum literals are read case-insensitively: two spellings of a declared value give the same
  mapped node for every operator that canonicalises.
\<close>

theorem enum_literal_case_insensitive:
  assumes "map_property m f True = Inr (x, md)" and "is_property_access f"
    and "p \<in> set enum_canonicalization_operators"
    and "py_lower s = py_lower t" and "e \<in> set (enums_of md)" and "py_lower e = py_lower s"
  shows "visit_comparison_node m (Some f) p (Some (INode (ConstantNode (PyStr s))))
    = visit_comparison_node m (Some f) p (Some (INode (ConstantNode (PyStr t))))"
proof -
  have "canonicalize_enum_value (PyStr s) (enums_of md) = canonicalize_enum_value (PyStr t) (enums_of md)"
    using assms(4-6) by (intro canonical_same_case) auto
  with assms(1,2,3,5) show ?thesis
    by (auto simp: visit_comparison_node_def modify_comparison_node_based_on_mapping_def Let_def)
qed

theorem enum_literal_case_insensitive_witness:
  "visit_comparison_node severity_metadata (Some (PropertyAccessNode [''severity''] None)) EQ
      (Some (INode (ConstantNode (PyStr ''CRITICAL''))))
    = visit_comparison_node severity_metadata (Some (PropertyAccessNode [''severity''] None)) EQ
      (Some (INode (ConstantNode (PyStr ''critical''))))"
proof -
  obtain x md where h: "map_property severity_metadata (PropertyAccessNode [''severity''] None) True = Inr (x, md)"
    and e: "''critical'' \<in> set (enums_of md)"
  proof -
    have "case map_property severity_metadata (PropertyAccessNode [''severity''] None) True of
        Inl _ \<Rightarrow> False | Inr (x, md) \<Rightarrow> ''critical'' \<in> set (enums_of md)" by code_simp
    with that show thesis by (auto split: sum.splits)
  qed
  show ?thesis
    by (rule enum_literal_case_insensitive [OF h _ _ _ e]) code_simp+
qed

text \<open>
  An order comparison with a literal that names no declared value does not fail: above
  (\<open>GT\<close>, \<open>GE\<close>) it selects every row whose column holds a declared value, below (\<open>LT\<close>, \<open>LE\<close>)
  every other row.
\<close>

theorem unknown_literal_selects_all_or_none:
  assumes "enums_of md \<noteq> []" and "order_op p"
    and "\<not> enum_member (canonicalize_enum_value c (enums_of md)) (enums_of md)"
  shows "\<exists>n. modify_comparison_node_based_on_mapping f p (Some (INode (ConstantNode c))) md = Some n \<and>
    holds R row n = (if p = GT \<or> p = GE then enum_member (row f) (enums_of md)
                     else \<not> enum_member (row f) (enums_of md))"
  using assms holds_in_constants [OF assms(1), of R row f]
  by (auto simp: modify_order enum_range_comparison_def order_op_def)

theorem unknown_literal_selects_all_or_none_witness:
  "\<exists>n. modify_comparison_node_based_on_mapping (PropertyAccessNode [''alert.severity''] None) GE
      (Some (INode (ConstantNode (PyStr ''sev1'')))) \<lparr>md_field_name = ''severity'', md_field_mappings = [],
        md_enum_values = Some [''low'', ''high''], md_data_type = None\<rparr> = Some n \<and>
    holds (\<lambda>p v c. v = c) (row_with ''low'') n"
proof -
  let ?md = "\<lparr>md_field_name = ''severity'', md_field_mappings = [],
    md_enum_values = Some [''low'', ''high''], md_data_type = None\<rparr>"
  have h: "enums_of ?md \<noteq> []" "order_op GE"
    "\<not> enum_member (canonicalize_enum_value (PyStr ''sev1'') (enums_of ?md)) (enums_of ?md)" by code_simp+
  have "enum_member (row_with ''low'' (PropertyAccessNode [''alert.severity''] None)) (enums_of ?md)" by code_simp
  with unknown_literal_selects_all_or_none [OF h, of "PropertyAccessNode [''alert.severity''] None"
      "\<lambda>p v c. v = c" "row_with ''low''"] show ?thesis by simp
qed

text \<open>
  A disjunct that the mapper drops as always true disappears, and with it the rows only it
  selects.  \<open>severity <= 'critical' || name == 'disk'\<close> holds on every row with a declared
  severity, but is mapped to \<open>name == 'disk'\<close> alone.
\<close>

theorem always_true_disjunct_is_lost:
  "dropped severity_metadata (compare_property ''severity'' LE ''critical'') \<and>
   (case map_props_in_ast severity_metadata
      (LogicalNode (compare_property ''severity'' LE ''critical'') LOr (compare_property ''name'' EQ ''disk'')) of
      Inr (Some n, _) \<Rightarrow> n = ComparisonNode (Some (PropertyAccessNode [''alert.name''] (Some DString))) EQ
          (Some (INode (ConstantNode (PyStr ''disk'')))) \<and> \<not> holds (\<lambda>p v c. v = c) (row_with ''low'') n
    | _ \<Rightarrow> False) \<and>
   source_holds severity_metadata (\<lambda>p v c. v = c) (row_with ''low'')
      (LogicalNode (compare_property ''severity'' LE ''critical'') LOr (compare_property ''name'' EQ ''disk''))"
  by code_simp

text \<open>
  An unknown property is an error where its value is compared, and none under \<open>has()\<close>,
  where it is kept as it is and reported under its dotted name.
\<close>

theorem unknown_property_outcome:
  assumes "get_property_metadata m path = Inr None"
  shows "visit_nodes m (ComparisonNode (Some (PropertyAccessNode path d)) p s)
      = Inl (PropertiesMappingException (py_join ''.'' path)) \<and>
    visit_nodes m (PropertyAccessNode path d) = Inl (PropertiesMappingException (py_join ''.'' path)) \<and>
    visit_nodes m (UnaryNode UHas (Some (INode (PropertyAccessNode path d)))) =
      Inr (Some (UnaryNode UHas (Some (INode (PropertyAccessNode path d)))),
        [\<lparr>md_field_name = py_join ''.'' path, md_field_mappings = [SimpleFieldMapping (py_join ''.'' path)],
          md_enum_values = None, md_data_type = None\<rparr>])"
  using assms by (simp add: visit_comparison_node_def visit_member_access_node_def map_property_def Let_def)

theorem unknown_property_outcome_witness:
  "visit_nodes severity_metadata (PropertyAccessNode [''x'', ''y''] None) = Inl (PropertiesMappingException ''x.y'')"
proof -
  have "get_property_metadata severity_metadata [''x'', ''y''] = Inr None" by code_simp
  from unknown_property_outcome [OF this, THEN conjunct2, THEN conjunct1] show ?thesis by simp
qed

text \<open>
  the fields reported as involved are, name by name and once each, those the visitor met:
  mapping a filter never reports a field twice or one it did not resolve.
\<close>

theorem involved_fields_distinct:
  assumes "map_props_in_ast m n = Inr (r, fs)"
  shows "distinct (map md_field_name fs) \<and>
    (\<exists>gs. visit_nodes m n = Inr (r, gs) \<and> set fs \<subseteq> set gs \<and> md_field_name ` set fs = md_field_name ` set gs)"
  using assms distinct_fields_facts by (auto simp: map_props_in_ast_def)

theorem involved_fields_distinct_witness:
  "\<exists>r fs. map_props_in_ast severity_metadata (UnaryNode UNot (Some (INode (compare_property ''name'' EQ ''x''))))
      = Inr (r, fs) \<and> distinct (map md_field_name fs) \<and> length fs = 1"
proof -
  have "case map_props_in_ast severity_metadata (UnaryNode UNot (Some (INode (compare_property ''name'' EQ ''x''))))
    of Inl _ \<Rightarrow> False | Inr (r, fs) \<Rightarrow> length fs = 1" by code_simp
  then obtain r fs where h: "map_props_in_ast severity_metadata
      (UnaryNode UNot (Some (INode (compare_property ''name'' EQ ''x'')))) = Inr (r, fs)" "length fs = 1"
    by (auto split: sum.splits)
  with involved_fields_distinct [OF h(1)] show ?thesis by auto
qed

end
