(* ===== verification/Cel_Sql.thy ===== *)
theory Cel_Sql
  imports Cel_Dialects Cel_Mapper
begin

text \<open>
  \<^verbatim>\<open>src/repositories/cel_to_sql/sql_providers/base.py\<close>: the SQL text of a mapped filter.  A dialect
  class is the record of the methods the base class calls through \<open>self\<close>; the recursion of
  \<open>_build_sql_filter\<close> hands the methods that visit a node the results for its operands.  The
  \<open>stack\<close> argument of the code is bookkeeping that nothing reads, and is left out.
\<close>

section \<open>A dialect class\<close>

record sql_methods =
  json_extract_as_text :: "string \<Rightarrow> string list \<Rightarrow> string"
  json_contains_path :: "string \<Rightarrow> string list \<Rightarrow> pyexc + string"
  sql_cast :: "string \<Rightarrow> data_type option \<Rightarrow> pyexc + string"
  visit_constant :: "pyval \<Rightarrow> data_type option \<Rightarrow> pyexc + string"
  visit_contains :: "string \<Rightarrow> item option \<Rightarrow> pyexc + string"
  visit_starts_with :: "string \<Rightarrow> item option \<Rightarrow> pyexc + string"
  visit_ends_with :: "string \<Rightarrow> item option \<Rightarrow> pyexc + string"

record sql_dialect = sql_methods +
  visit_equal_array :: "node \<Rightarrow> item option \<Rightarrow> pyexc + string"
  visit_in_array :: "node \<Rightarrow> item option list \<Rightarrow> pyexc + string"
  field_expression :: "property_metadata_info \<Rightarrow> pyexc + string"
  order_by_field :: "property_metadata_info \<Rightarrow> pyexc + string"

section \<open>Methods of the base class\<close>

definition coalesce :: "string list \<Rightarrow> string" where
  "coalesce args = (case args of [a] \<Rightarrow> a | _ \<Rightarrow> ''COALESCE('' @ py_join '', '' args @ '')'')"

definition visit_parentheses :: "string \<Rightarrow> string" where
  "visit_parentheses s = ''('' @ s @ '')''"

definition visit_logical_and :: "string \<Rightarrow> string \<Rightarrow> string" where
  "visit_logical_and l r = ''('' @ l @ '' AND '' @ r @ '')''"

definition visit_logical_or :: "string \<Rightarrow> string \<Rightarrow> string" where
  "visit_logical_or l r = ''('' @ l @ '' OR '' @ r @ '')''"

definition visit_logical_node :: "logical_op \<Rightarrow> string \<Rightarrow> string \<Rightarrow> string" where
  "visit_logical_node p l r = (if p = LAnd then visit_logical_and l r else visit_logical_or l r)"

definition visit_equal :: "string \<Rightarrow> string \<Rightarrow> string" where
  "visit_equal a b = (if b = ''NULL'' then a @ '' IS NULL'' else a @ '' = '' @ b)"

definition visit_not_equal :: "string \<Rightarrow> string \<Rightarrow> string" where
  "visit_not_equal a b = (if b = ''NULL'' then a @ '' IS NOT NULL'' else a @ '' != '' @ b)"

definition visit_greater_than :: "string \<Rightarrow> string \<Rightarrow> string" where
  "visit_greater_than a b = a @ '' > '' @ b"

definition visit_greater_than_or_equal :: "string \<Rightarrow> string \<Rightarrow> string" where
  "visit_greater_than_or_equal a b = a @ '' >= '' @ b"

definition visit_less_than :: "string \<Rightarrow> string \<Rightarrow> string" where
  "visit_less_than a b = a @ '' < '' @ b"

definition visit_less_than_or_equal :: "string \<Rightarrow> string \<Rightarrow> string" where
  "visit_less_than_or_equal a b = a @ '' <= '' @ b"

fun data_type_of :: "node \<Rightarrow> data_type option" where
  "data_type_of (PropertyAccessNode p d) = d"
| "data_type_of (JsonPropertyAccessNode j p d) = d"
| "data_type_of (MultipleFieldsNode fs d) = d"
| "data_type_of _ = None"

fun get_data_type_to_convert :: "node option \<Rightarrow> pyexc + data_type option" where
  "get_data_type_to_convert (Some (PropertyAccessNode p d)) = Inr d"
| "get_data_type_to_convert (Some (JsonPropertyAccessNode j p d)) = Inr d"
| "get_data_type_to_convert (Some (MultipleFieldsNode fs d)) = Inr d"
| "get_data_type_to_convert (Some (ComparisonNode f p s)) = get_data_type_to_convert f"
| "get_data_type_to_convert _ = Inl NotImplementedError"

definition visit_property_access_node :: "'x sql_methods_scheme \<Rightarrow> node \<Rightarrow> pyexc + string" where
  "visit_property_access_node d n =
     (case n of
        JsonPropertyAccessNode j p t \<Rightarrow> Inr (json_extract_as_text d j p)
      | _ \<Rightarrow> rbind (path_of n) (\<lambda>p. Inr (py_join ''.'' p)))"

definition sql_member_access_node :: "'x sql_methods_scheme \<Rightarrow> node \<Rightarrow> pyexc + string" where
  "sql_member_access_node d n =
     (if is_property_access n then visit_property_access_node d n else Inl NotImplementedError)"

text \<open>Simple fields next to JSON fields are cast to \<open>TEXT\<close>; the builder passes no \<open>cast_to\<close>.\<close>

definition multiple_fields_arg ::
  "'x sql_methods_scheme \<Rightarrow> bool \<Rightarrow> data_type option \<Rightarrow> node \<Rightarrow> pyexc + string" where
  "multiple_fields_arg d has_json_field cast_to n =
     rbind (visit_property_access_node d n) (\<lambda>arg.
       if is_json_access n \<and> cast_to \<noteq> None then sql_cast d arg cast_to
       else if has_json_field \<and> \<not> is_json_access n then Inr (''CAST('' @ arg @ '' AS TEXT)'')
       else Inr arg)"

definition visit_multiple_fields_node ::
  "'x sql_methods_scheme \<Rightarrow> node list \<Rightarrow> data_type option \<Rightarrow> pyexc + string" where
  "visit_multiple_fields_node d fs cast_to =
     rbind (traverse (multiple_fields_arg d (list_ex is_json_access fs) cast_to) fs)
       (\<lambda>args. Inr (coalesce args))"

section \<open>IN\<close>

fun all_instances :: "pytype \<Rightarrow> item option list \<Rightarrow> pyexc + bool" where
  "all_instances t [] = Inr True"
| "all_instances t (i # is) =
     rbind (arg_value i) (\<lambda>v. if isinstance v t then all_instances t is else Inr False)"

fun constant_values :: "item option list \<Rightarrow> pyval list" where
  "constant_values [] = []"
| "constant_values (Some (INode (ConstantNode v)) # is) = v # constant_values is"
| "constant_values (i # is) = constant_values is"

text \<open>\<open>built\<close> is what \<open>_build_sql_filter(first_operand, stack)\<close> gives, should it be needed.\<close>

definition in_first_operand ::
  "'x sql_methods_scheme \<Rightarrow> node option \<Rightarrow> pyexc + string \<Rightarrow> bool \<Rightarrow> pyexc + string" where
  "in_first_operand d f built same_type =
     (case f of
        Some (JsonPropertyAccessNode j p t) \<Rightarrow>
          rbind (visit_property_access_node d (JsonPropertyAccessNode j p t))
            (\<lambda>s. if t \<noteq> None then sql_cast d s t else Inr s)
      | Some (PropertyAccessNode p t) \<Rightarrow>
          rbind (visit_property_access_node d (PropertyAccessNode p t))
            (\<lambda>s. if same_type then Inr s else sql_cast d s (Some DString))
      | Some (MultipleFieldsNode fs t) \<Rightarrow>
          rbind (visit_multiple_fields_node d fs None)
            (\<lambda>s. if list_ex is_json_access fs \<and> t \<noteq> None then sql_cast d s t else Inr s)
      | _ \<Rightarrow> built)"

definition in_query ::
  "'x sql_methods_scheme \<Rightarrow> node option \<Rightarrow> string \<Rightarrow> pyval list \<Rightarrow> bool \<Rightarrow> pyexc + string" where
  "in_query d f first vs is_none_found =
     rbind (if vs = [] then Inr []
            else rbind (traverse (\<lambda>v. rbind (get_data_type_to_convert f) (visit_constant d v)) vs)
              (\<lambda>cs. Inr [first @ '' in ('' @ py_join '', '' cs @ '')'']))
       (\<lambda>or_queries.
         case or_queries @ (if is_none_found then [visit_equal first ''NULL''] else []) of
           [] \<Rightarrow> visit_constant d (PyBool False) None
         | q # qs \<Rightarrow> Inr (foldl visit_logical_or q qs))"

definition visit_in ::
  "'x sql_methods_scheme \<Rightarrow> node option \<Rightarrow> pyexc + string \<Rightarrow> item option list \<Rightarrow> pyexc + string" where
  "visit_in d f built array =
     (if array = [] then Inl IndexError
      else
        rbind (arg_value (hd array)) (\<lambda>v0. rbind (all_instances (type_of v0) array) (\<lambda>same_type.
        rbind (in_first_operand d f built same_type) (\<lambda>first.
          in_query d f first (filter (\<lambda>v. v \<noteq> PyNone) (constant_values array))
            (PyNone \<in> set (constant_values array))))))"

section \<open>Comparisons\<close>

definition is_array_access :: "node option \<Rightarrow> bool" where
  "is_array_access f = (case f of None \<Rightarrow> False
     | Some n \<Rightarrow> is_property_access n \<and> data_type_of n = Some DArray)"

definition as_array :: "item option \<Rightarrow> item option list" where
  "as_array s = (case s of Some (IList xs) \<Rightarrow> map Some xs | _ \<Rightarrow> [s])"

definition forces_cast :: "node option \<Rightarrow> pyexc + bool" where
  "forces_cast f = (case f of
     Some (JsonPropertyAccessNode j p t) \<Rightarrow> Inr True
   | Some (MultipleFieldsNode fs t) \<Rightarrow> (case fs of [] \<Rightarrow> Inl IndexError | n # _ \<Rightarrow> Inr (is_json_access n))
   | _ \<Rightarrow> Inr False)"

definition apply_operator ::
  "'x sql_methods_scheme \<Rightarrow> comparison_op \<Rightarrow> string \<Rightarrow> string \<Rightarrow> item option \<Rightarrow> pyexc + string" where
  "apply_operator d p a b s =
     (case p of
        EQ \<Rightarrow> Inr (visit_equal a b)
      | NE \<Rightarrow> Inr (visit_not_equal a b)
      | GT \<Rightarrow> Inr (visit_greater_than a b)
      | GE \<Rightarrow> Inr (visit_greater_than_or_equal a b)
      | LT \<Rightarrow> Inr (visit_less_than a b)
      | LE \<Rightarrow> Inr (visit_less_than_or_equal a b)
      | CONTAINS \<Rightarrow> visit_contains d a s
      | STARTS_WITH \<Rightarrow> visit_starts_with d a s
      | ENDS_WITH \<Rightarrow> visit_ends_with d a s
      | IN_OP \<Rightarrow> Inl NotImplementedError)"

definition string_operator :: "comparison_op \<Rightarrow> bool" where
  "string_operator p \<longleftrightarrow> p = CONTAINS \<or> p = STARTS_WITH \<or> p = ENDS_WITH"

text \<open>No cast is considered for the string methods.\<close>

definition first_operand_data_type :: "comparison_op \<Rightarrow> node option \<Rightarrow> data_type option" where
  "first_operand_data_type p f =
     (if string_operator p then None else case f of None \<Rightarrow> None | Some n \<Rightarrow> data_type_of n)"

definition force_cast :: "comparison_op \<Rightarrow> node option \<Rightarrow> pyexc + bool" where
  "force_cast p f = (if string_operator p then Inr False else forces_cast f)"

text \<open>The second operand's text and data type, where it is a constant that decides a cast.\<close>

definition second_constant ::
  "'x sql_methods_scheme \<Rightarrow> comparison_op \<Rightarrow> data_type option \<Rightarrow> item option
     \<Rightarrow> pyexc + (string option \<times> data_type option)" where
  "second_constant d p first_type s =
     (case s of
        Some (INode (ConstantNode v)) \<Rightarrow>
          if string_operator p then Inr (None, None)
          else rbind (from_type_to_data_type (type_of v)) (\<lambda>t. rbind (visit_constant d v first_type)
              (\<lambda>x. Inr (Some x, Some t)))
      | _ \<Rightarrow> Inr (None, None))"

definition cast_first_operand ::
  "'x sql_methods_scheme \<Rightarrow> bool \<Rightarrow> data_type option \<Rightarrow> data_type option \<Rightarrow> string \<Rightarrow> pyexc + string" where
  "cast_first_operand d force first_type second_type first =
     (if force \<or> (first_type = None \<and> second_type \<noteq> None) then sql_cast d first second_type else Inr first)"

definition compare_operands ::
  "'x sql_methods_scheme \<Rightarrow> node option \<Rightarrow> pyexc + string \<Rightarrow> comparison_op \<Rightarrow> item option \<Rightarrow> pyexc + string
     \<Rightarrow> pyexc + string" where
  "compare_operands d f fbuilt p s sbuilt =
     rbind (force_cast p f) (\<lambda>force.
     rbind (second_constant d p (first_operand_data_type p f) s) (\<lambda>(second, second_type).
     rbind fbuilt (\<lambda>first.
     rbind (case second of Some x \<Rightarrow> Inr x | None \<Rightarrow> sbuilt) (\<lambda>second.
     rbind (cast_first_operand d force (first_operand_data_type p f) second_type first) (\<lambda>first.
       apply_operator d p first second s)))))"

definition visit_comparison ::
  "'x sql_dialect_scheme \<Rightarrow> node option \<Rightarrow> pyexc + string \<Rightarrow> comparison_op \<Rightarrow> item option \<Rightarrow> pyexc + string
     \<Rightarrow> pyexc + string" where
  "visit_comparison d f fbuilt p s sbuilt =
     (if p = IN_OP then
        (if is_array_access f then visit_in_array d (the f) (as_array s) else visit_in d f fbuilt (as_array s))
      else if p = EQ \<and> is_array_access f then visit_equal_array d (the f) s
      else compare_operands d f fbuilt p s sbuilt)"

section \<open>Unary nodes\<close>

text \<open>\<open>_build_sql_filter\<close> takes an empty text for no result.\<close>

definition non_empty :: "pyexc + string \<Rightarrow> pyexc + string" where
  "non_empty r = rbind r (\<lambda>s. if s = [] then Inl NotImplementedError else Inr s)"

definition or_chain :: "string list \<Rightarrow> pyexc + string" where
  "or_chain qs = (case qs of [] \<Rightarrow> Inl NotImplementedError | q # qs \<Rightarrow> Inr (foldl visit_logical_or q qs))"

fun visit_unary_has :: "'x sql_methods_scheme \<Rightarrow> properties_metadata \<Rightarrow> node \<Rightarrow> pyexc + string" where
  "visit_unary_has d m (JsonPropertyAccessNode j p t) = json_contains_path d j p"
| "visit_unary_has d m (PropertyAccessNode p t) =
     rbind (get_property_metadata m p) (\<lambda>r. Inr (if r \<noteq> None then ''TRUE'' else ''FALSE''))"
| "visit_unary_has d m (MultipleFieldsNode fs t) = rbind (traverse (\<lambda>n. non_empty (visit_unary_has d m n)) fs) or_chain"
| "visit_unary_has d m _ = Inr ''FALSE''"

section \<open>\<open>_build_sql_filter\<close>\<close>

fun build_sql_filter :: "'x sql_dialect_scheme \<Rightarrow> properties_metadata \<Rightarrow> node \<Rightarrow> pyexc + string"
  and build_operand :: "'x sql_dialect_scheme \<Rightarrow> properties_metadata \<Rightarrow> item option \<Rightarrow> pyexc + string" where
  "build_sql_filter d m (ParenthesisNode e) =
     non_empty (rbind (build_sql_filter d m e) (\<lambda>s. Inr (visit_parentheses s)))"
| "build_sql_filter d m (LogicalNode l p r) =
     non_empty (rbind (build_sql_filter d m l) (\<lambda>a. rbind (build_sql_filter d m r)
       (\<lambda>b. Inr (visit_logical_node p a b))))"
| "build_sql_filter d m (ComparisonNode f p s) =
     non_empty (visit_comparison d f
       (case f of None \<Rightarrow> Inl NotImplementedError | Some n \<Rightarrow> build_sql_filter d m n)
       p s (build_operand d m s))"
| "build_sql_filter d m (MemberAccessNode n) = non_empty (sql_member_access_node d (MemberAccessNode n))"
| "build_sql_filter d m (MethodAccessNode n a) = non_empty (sql_member_access_node d (MethodAccessNode n a))"
| "build_sql_filter d m (PropertyAccessNode p t) = non_empty (sql_member_access_node d (PropertyAccessNode p t))"
| "build_sql_filter d m (JsonPropertyAccessNode j p t) =
     non_empty (sql_member_access_node d (JsonPropertyAccessNode j p t))"
| "build_sql_filter d m (UnaryNode p x) =
     non_empty (case p of
        UNot \<Rightarrow> rbind (build_operand d m x) (\<lambda>s. Inr (''NOT ('' @ s @ '')''))
      | UHas \<Rightarrow> (case x of Some (INode n) \<Rightarrow> visit_unary_has d m n | _ \<Rightarrow> Inr ''FALSE'')
      | UNeg \<Rightarrow> Inl NotImplementedError)"
| "build_sql_filter d m (ConstantNode v) = non_empty (visit_constant d v None)"
| "build_sql_filter d m (MultipleFieldsNode fs t) = non_empty (visit_multiple_fields_node d fs None)"
| "build_sql_filter d m BaseNode = Inl NotImplementedError"
| "build_operand d m x = (case x of Some (INode n) \<Rightarrow> build_sql_filter d m n | _ \<Rightarrow> Inl NotImplementedError)"

end
