(* ===== verification/Cel_Shape.thy ===== *)
theory Cel_Shape
  imports Cel_Sql
begin

text \<open>
  The lexical shape of SQL text and the contract of a dialect class.  \<open>lex\<close> reads a text as a
  database does and keeps what stands outside string literals; \<open>erase\<close> blanks the string constants
  of a filter.  The locales state what a dialect class has to guarantee for the shape of the text not
  to depend on those constants, and derive it for the whole builder; the classes themselves are
  treated in \<open>Cel_Injection\<close>.
\<close>

section \<open>The lexical shape of SQL text\<close>

datatype lex_state = Outside | InString | AfterQuote | Escaped

fun lex_step :: "bool \<Rightarrow> lex_state \<Rightarrow> char \<Rightarrow> lex_state \<times> string" where
  "lex_step esc Outside c = (if c = CHR 0x27 then (InString, ''?'') else (Outside, [c]))"
| "lex_step esc InString c =
     (if c = CHR 0x27 then (AfterQuote, []) else if esc \<and> c = CHR 0x5C then (Escaped, []) else (InString, []))"
| "lex_step esc AfterQuote c = (if c = CHR 0x27 then (InString, []) else (Outside, [c]))"
| "lex_step esc Escaped c = (InString, [])"

fun lex :: "bool \<Rightarrow> lex_state \<Rightarrow> string \<Rightarrow> lex_state \<times> string" where
  "lex esc st [] = (st, [])"
| "lex esc st (c # s) =
     (case lex_step esc st c of (st1, o1) \<Rightarrow> case lex esc st1 s of (st2, o2) \<Rightarrow> (st2, o1 @ o2))"

definition closed_state :: "lex_state \<Rightarrow> bool" where
  "closed_state st \<longleftrightarrow> st = Outside \<or> st = AfterQuote"

definition shape :: "bool \<Rightarrow> string \<Rightarrow> string option" where
  "shape esc s = (case lex esc Outside s of (st, out) \<Rightarrow> if closed_state st then Some out else None)"

definition same_shape :: "bool \<Rightarrow> string \<Rightarrow> string \<Rightarrow> bool" where
  "same_shape esc a b \<longleftrightarrow> shape esc a \<noteq> None \<and> shape esc a = shape esc b"

text \<open>Text without quotes, and a text that stays inside a string literal.\<close>

definition quote_free :: "string \<Rightarrow> bool" where
  "quote_free s \<longleftrightarrow> CHR 0x27 \<notin> set s \<and> CHR 0x5C \<notin> set s"

definition inert :: "bool \<Rightarrow> string \<Rightarrow> bool" where
  "inert esc s \<longleftrightarrow> (\<forall>t. lex esc InString (s @ t) = lex esc InString t)"

lemma lex_append: "lex esc st (a @ b) =
    (case lex esc st a of (st1, o1) \<Rightarrow> case lex esc st1 b of (st2, o2) \<Rightarrow> (st2, o1 @ o2))"
  by (induction a arbitrary: st) (auto split: prod.splits)

lemma lex_quote_free:
  assumes "CHR 0x27 \<notin> set s"
  shows "lex esc Outside s = (Outside, s)" and "s \<noteq> [] \<Longrightarrow> lex esc AfterQuote s = (Outside, s)"
proof -
  have *: "lex esc Outside t = (Outside, t)" if "CHR 0x27 \<notin> set t" for t
    using that by (induction t) auto
  show "lex esc Outside s = (Outside, s)" using assms by (rule *)
  show "lex esc AfterQuote s = (Outside, s)" if "s \<noteq> []"
    using that assms * by (cases s) auto
qed

lemma lex_closed: "closed_state st \<Longrightarrow> s \<noteq> [] \<Longrightarrow> hd s \<noteq> CHR 0x27 \<Longrightarrow> lex esc st s = lex esc Outside s"
  by (cases s) (auto simp: closed_state_def)

lemma lex_literal: "inert esc b \<Longrightarrow> lex esc Outside (quoted b) = (AfterQuote, ''?'')"
  by (auto simp: quoted_def sq_def inert_def split: prod.splits)

lemma inert_append: "inert esc a \<Longrightarrow> inert esc b \<Longrightarrow> inert esc (a @ b)"
  by (simp add: inert_def)

lemma inert_quote_free: "quote_free s \<Longrightarrow> inert esc s"
  by (induction s) (auto simp: inert_def quote_free_def)

section \<open>Composing texts of the same shape\<close>

lemma shape_Some: "shape esc s = Some out \<longleftrightarrow> (\<exists>st. lex esc Outside s = (st, out) \<and> closed_state st)"
  by (auto simp: shape_def split: prod.splits)

lemma same_shapeE:
  assumes "same_shape esc a b"
  obtains s t out where "lex esc Outside a = (s, out)" "lex esc Outside b = (t, out)" "closed_state s" "closed_state t"
proof -
  from assms obtain out where "shape esc a = Some out" "shape esc b = Some out"
    unfolding same_shape_def by (metis option.exhaust)
  with that show thesis by (auto simp: shape_Some)
qed

lemma same_shapeI:
  "lex esc Outside a = (s, out) \<Longrightarrow> lex esc Outside b = (t, out) \<Longrightarrow> closed_state s \<Longrightarrow> closed_state t
    \<Longrightarrow> same_shape esc a b"
  by (auto simp: same_shape_def shape_def)

lemma same_shape_text: "CHR 0x27 \<notin> set s \<Longrightarrow> same_shape esc s s"
  by (rule same_shapeI [OF lex_quote_free(1) lex_quote_free(1)]) (simp_all add: closed_state_def)

text \<open>Quote-free text on the left, and a text that starts without a quote on the right.\<close>

lemma same_shape_left:
  assumes "CHR 0x27 \<notin> set s" and "same_shape esc a b"
  shows "same_shape esc (s @ a) (s @ b)"
  using assms by (auto elim!: same_shapeE intro!: same_shapeI simp: lex_append lex_quote_free)

definition starts_plain :: "string \<Rightarrow> bool" where
  "starts_plain s \<longleftrightarrow> s = [] \<or> hd s \<noteq> CHR 0x27"

lemma same_shape_app:
  assumes "same_shape esc a b" and "same_shape esc c d" and "starts_plain c" and "starts_plain d"
  shows "same_shape esc (a @ c) (b @ d)"
proof -
  from assms(1) obtain s t out where a: "lex esc Outside a = (s, out)" "lex esc Outside b = (t, out)"
    "closed_state s" "closed_state t" by (rule same_shapeE)
  from assms(2) obtain s' t' out' where c: "lex esc Outside c = (s', out')" "lex esc Outside d = (t', out')"
    "closed_state s'" "closed_state t'" by (rule same_shapeE)
  have "\<exists>u. lex esc s c = (u, out') \<and> closed_state u"
    using a(3) c assms(3) lex_closed [OF a(3), of c esc] by (cases "c = []") (auto simp: starts_plain_def)
  moreover have "\<exists>u. lex esc t d = (u, out') \<and> closed_state u"
    using a(4) c assms(4) lex_closed [OF a(4), of d esc] by (cases "d = []") (auto simp: starts_plain_def)
  ultimately show ?thesis using a by (auto intro!: same_shapeI simp: lex_append)
qed

lemma same_shape_literal: "inert esc a \<Longrightarrow> inert esc b \<Longrightarrow> same_shape esc (quoted a) (quoted b)"
  by (rule same_shapeI [OF lex_literal lex_literal]) (simp_all add: closed_state_def)

lemma same_shape_sym: "same_shape esc a b \<Longrightarrow> same_shape esc b a"
  unfolding same_shape_def by metis

lemma same_shape_refl_left: "same_shape esc a b \<Longrightarrow> same_shape esc a a"
  unfolding same_shape_def by metis

lemma lex_out_Nil: "lex esc Outside s = (st, []) \<Longrightarrow> s = []"
  by (cases s) (auto split: if_splits prod.splits)

lemma same_shape_Nil: "same_shape esc a b \<Longrightarrow> a = [] \<longleftrightarrow> b = []"
  by (auto elim!: same_shapeE dest: lex_out_Nil)

lemma lex_no_mark: "lex esc Outside s = (st, out) \<Longrightarrow> CHR ''?'' \<notin> set out \<Longrightarrow> out = s"
proof (induction s arbitrary: out)
  case (Cons c s)
  then show ?case by (cases "c = CHR 0x27") (auto split: prod.splits)
qed simp

lemma same_shape_NULL: "same_shape esc a b \<Longrightarrow> a = ''NULL'' \<longleftrightarrow> b = ''NULL''"
proof -
  have "b = ''NULL''" if h: "same_shape esc ''NULL'' b" for b
  proof -
    from h obtain t where "lex esc Outside b = (t, ''NULL'')" by (rule same_shapeE) auto
    from lex_no_mark [OF this] show ?thesis by simp
  qed
  then show "same_shape esc a b \<Longrightarrow> a = ''NULL'' \<longleftrightarrow> b = ''NULL''" using same_shape_sym by blast
qed

section \<open>Erasing the string constants of a filter\<close>

definition erase_value :: "pyval \<Rightarrow> pyval" where
  "erase_value v = (case v of PyStr s \<Rightarrow> PyStr [] | _ \<Rightarrow> v)"

fun erase :: "node \<Rightarrow> node" and erase_item :: "item \<Rightarrow> item" where
  "erase (ConstantNode v) = ConstantNode (erase_value v)"
| "erase (ParenthesisNode e) = ParenthesisNode (erase e)"
| "erase (LogicalNode l p r) = LogicalNode (erase l) p (erase r)"
| "erase (ComparisonNode f p s) = ComparisonNode (map_option erase f) p (map_option erase_item s)"
| "erase (UnaryNode p x) = UnaryNode p (map_option erase_item x)"
| "erase n = n"
| "erase_item (INode n) = INode (erase n)"
| "erase_item (IList xs) = IList (map erase_item xs)"
| "erase_item i = i"

text \<open>Names of columns and JSON keys without quotes, and no quotes in what other values print.\<close>

definition safe_value :: "pyval \<Rightarrow> bool" where
  "safe_value v = (case v of PyStr s \<Rightarrow> True | _ \<Rightarrow> quote_free (py_str v))"

fun safe_names :: "node \<Rightarrow> bool" where
  "safe_names (PropertyAccessNode p t) = list_all quote_free p"
| "safe_names (JsonPropertyAccessNode j p t) = (quote_free j \<and> list_all quote_free p)"
| "safe_names (MultipleFieldsNode fs t) = list_all safe_names fs"
| "safe_names n = True"

text \<open>
  A date compared with an array column is excluded: its text is embedded in another literal
  (\<open>array_date_malformed\<close>).
\<close>

fun date_free :: "item option \<Rightarrow> bool" where
  "date_free (Some (INode (ConstantNode (PyDate d)))) = False"
| "date_free s = True"

fun safe :: "node \<Rightarrow> bool" and safe_item :: "item \<Rightarrow> bool" where
  "safe (ConstantNode v) = safe_value v"
| "safe (ParenthesisNode e) = safe e"
| "safe (LogicalNode l p r) = (safe l \<and> safe r)"
| "safe (ComparisonNode f p s) =
     ((case f of None \<Rightarrow> True | Some n \<Rightarrow> safe n) \<and> (case s of None \<Rightarrow> True | Some i \<Rightarrow> safe_item i)
     \<and> (is_array_access f \<longrightarrow> list_all date_free (as_array s)))"
| "safe (UnaryNode p x) = (case x of None \<Rightarrow> True | Some i \<Rightarrow> safe_item i)"
| "safe (PropertyAccessNode p t) = safe_names (PropertyAccessNode p t)"
| "safe (JsonPropertyAccessNode j p t) = safe_names (JsonPropertyAccessNode j p t)"
| "safe (MultipleFieldsNode fs t) = safe_names (MultipleFieldsNode fs t)"
| "safe n = True"
| "safe_item (INode n) = safe n"
| "safe_item (IList xs) = list_all safe_item xs"
| "safe_item i = True"

definition erase_operand :: "item option \<Rightarrow> item option" where
  "erase_operand s = map_option erase_item s"

definition safe_operand :: "item option \<Rightarrow> bool" where
  "safe_operand s = (case s of None \<Rightarrow> True | Some i \<Rightarrow> safe_item i)"

text \<open>Two results that fail with the same error or give texts of the same shape.\<close>

definition same_result :: "bool \<Rightarrow> pyexc + string \<Rightarrow> pyexc + string \<Rightarrow> bool" where
  "same_result esc r r' = (case r of Inl e \<Rightarrow> r' = Inl e
     | Inr a \<Rightarrow> (case r' of Inl _ \<Rightarrow> False | Inr b \<Rightarrow> same_shape esc a b))"

lemma same_result_simps [simp]:
  "same_result esc (Inl e) r' \<longleftrightarrow> r' = Inl e"
  "same_result esc (Inr a) (Inr b) \<longleftrightarrow> same_shape esc a b"
  "same_result esc (Inr a) (Inl e) \<longleftrightarrow> False"
  by (auto simp: same_result_def)

lemma self_result:
  "(\<And>s. r = Inr s \<Longrightarrow> same_shape esc s s) \<Longrightarrow> same_result esc r r"
  by (cases r) auto

lemma same_result_bind:
  assumes "same_result esc r r'" and "\<And>a b. same_shape esc a b \<Longrightarrow> same_result esc (f a) (g b)"
  shows "same_result esc (rbind r f) (rbind r' g)"
  using assms by (cases r; cases r') auto

lemma same_result_bind_eq:
  "(\<And>a. r = Inr a \<Longrightarrow> same_result esc (f a) (g a)) \<Longrightarrow> same_result esc (rbind r f) (rbind r g)"
  by (cases r) auto

lemma non_empty_Inl [simp]: "non_empty (Inl e) = Inl e"
  by (simp add: non_empty_def)

lemma same_result_non_empty: "same_result esc r r' \<Longrightarrow> same_result esc (non_empty r) (non_empty r')"
  unfolding non_empty_def by (rule same_result_bind) (auto dest: same_shape_Nil)

lemma starts_plain_append: "s \<noteq> [] \<Longrightarrow> hd s \<noteq> CHR 0x27 \<Longrightarrow> starts_plain (s @ t)"
  by (cases s) (auto simp: starts_plain_def)

lemma starts_plain_Cons: "starts_plain (c # s) \<longleftrightarrow> c \<noteq> CHR 0x27"
  by (simp add: starts_plain_def)

text \<open>Text of the code around an expression, in the normal form \<open>simp\<close> gives string literals.\<close>

lemma same_shape_Cons: "x \<noteq> CHR 0x27 \<Longrightarrow> same_shape esc a b \<Longrightarrow> same_shape esc (x # a) (x # b)"
  using same_shape_left [of "[x]" esc a b] by simp

lemma same_shape_app_Cons:
  assumes "same_shape esc a b" and "x \<noteq> CHR 0x27" and "same_shape esc c d"
  shows "same_shape esc (a @ x # c) (b @ x # d)"
  by (rule same_shape_app [OF assms(1) same_shape_Cons [OF assms(2,3)]])
    (use assms(2) in \<open>simp_all add: starts_plain_Cons\<close>)

lemma same_shape_Nil_Nil: "same_shape esc [] []"
  by (rule same_shape_text) simp

lemma quote_free_shape: "quote_free s \<Longrightarrow> same_shape esc s s"
  by (rule same_shape_text) (simp add: quote_free_def)

lemmas shape_intros = same_shape_Cons same_shape_app_Cons same_shape_Nil_Nil same_shape_literal

lemma same_shape_equal:
  "same_shape esc a b \<Longrightarrow> same_shape esc c d \<Longrightarrow> same_shape esc (visit_equal a c) (visit_equal b d)"
  using same_shape_NULL [of esc c d] by (auto simp: visit_equal_def intro!: shape_intros)

lemma same_shape_not_equal:
  "same_shape esc a b \<Longrightarrow> same_shape esc c d \<Longrightarrow> same_shape esc (visit_not_equal a c) (visit_not_equal b d)"
  using same_shape_NULL [of esc c d] by (auto simp: visit_not_equal_def intro!: shape_intros)

lemma same_shape_order:
  assumes "same_shape esc a b" and "same_shape esc c d"
  shows "same_shape esc (visit_greater_than a c) (visit_greater_than b d)"
    and "same_shape esc (visit_greater_than_or_equal a c) (visit_greater_than_or_equal b d)"
    and "same_shape esc (visit_less_than a c) (visit_less_than b d)"
    and "same_shape esc (visit_less_than_or_equal a c) (visit_less_than_or_equal b d)"
    and "same_shape esc (visit_logical_node p a c) (visit_logical_node p b d)"
    and "same_shape esc (visit_logical_or a c) (visit_logical_or b d)"
    and "same_shape esc (visit_parentheses a) (visit_parentheses b)"
  using assms by (auto simp: visit_greater_than_def visit_greater_than_or_equal_def visit_less_than_def
      visit_less_than_or_equal_def visit_logical_node_def visit_logical_and_def visit_logical_or_def
      visit_parentheses_def intro!: shape_intros)

lemma same_shape_join:
  assumes "list_all2 (same_shape esc) xs ys" and "CHR 0x27 \<notin> set sep" and "sep \<noteq> []"
  shows "same_shape esc (py_join sep xs) (py_join sep ys)"
  using assms(1)
proof (induction xs ys rule: list_all2_induct)
  case Nil
  then show ?case by (simp add: same_shape_Nil_Nil)
next
  case (Cons x xs y ys)
  obtain c s where "sep = c # s" using assms(3) by (cases sep) auto
  with Cons assms(2) show ?case
    by (cases xs; cases ys) (auto intro!: same_shape_app_Cons same_shape_left)
qed

lemma same_shape_foldl_or:
  "list_all2 (same_shape esc) xs ys \<Longrightarrow> same_shape esc a b \<Longrightarrow>
    same_shape esc (foldl visit_logical_or a xs) (foldl visit_logical_or b ys)"
  by (induction xs ys arbitrary: a b rule: list_all2_induct) (auto intro!: same_shape_order)

lemma coalesce_alt:
  "coalesce xs = (if length xs = 1 then hd xs else ''COALESCE('' @ py_join '', '' xs @ '')'')"
  by (cases xs; cases "tl xs") (auto simp: coalesce_def)

lemma same_shape_coalesce:
  assumes "list_all2 (same_shape esc) xs ys"
  shows "same_shape esc (coalesce xs) (coalesce ys)"
proof (cases "length xs = 1")
  case True
  then obtain x where "xs = [x]" by (cases xs) auto
  with assms show ?thesis by (auto simp: coalesce_def list_all2_Cons1)
next
  case False
  with list_all2_lengthD [OF assms] same_shape_join [OF assms, of "'', ''"] show ?thesis
    by (auto simp: coalesce_alt intro!: shape_intros)
qed

section \<open>Erasing does not change which way the builder goes\<close>

lemma erase_value_simps [simp]:
  "type_of (erase_value v) = type_of v"
  "erase_value v = PyNone \<longleftrightarrow> v = PyNone"
  "isinstance (erase_value v) t = isinstance v t"
  by (cases v; simp add: erase_value_def isinstance_def)+

lemma erase_property [simp]: "is_property_access n \<Longrightarrow> erase n = n"
  by (cases n) auto

lemma erase_kind [simp]:
  "is_property_access (erase n) = is_property_access n"
  "data_type_of (erase n) = data_type_of n"
  "is_json_access (erase n) = is_json_access n"
  by (cases n; simp)+

lemma arg_value_erase: "arg_value (erase_operand i) = rbind (arg_value i) (\<lambda>v. Inr (erase_value v))"
proof (cases i)
  case (Some x)
  then show ?thesis
  proof (cases x)
    case (INode n)
    with Some show ?thesis by (cases n) (simp_all add: erase_operand_def arg_value_def)
  qed (simp_all add: erase_operand_def arg_value_def)
qed (simp add: erase_operand_def arg_value_def)

lemma all_instances_erase: "all_instances t (map erase_operand is) = all_instances t is"
proof (induction "is")
  case (Cons i "is")
  then show ?case by (cases "arg_value i") (simp_all add: arg_value_erase)
qed simp

lemma constant_values_Cons:
  "constant_values (i # is) = (case arg_value i of Inr v \<Rightarrow> v # constant_values is | Inl e \<Rightarrow> constant_values is)"
proof (cases i)
  case (Some x)
  then show ?thesis
  proof (cases x)
    case (INode n)
    with Some show ?thesis by (cases n) (simp_all add: arg_value_def)
  qed (simp_all add: arg_value_def)
qed (simp add: arg_value_def)

lemma constant_values_erase: "constant_values (map erase_operand is) = map erase_value (constant_values is)"
proof (induction "is")
  case (Cons i "is")
  then show ?case by (cases "arg_value i") (simp_all add: constant_values_Cons arg_value_erase del: constant_values.simps)
qed simp

lemma safe_constant_values:
  "list_all safe_operand is \<Longrightarrow> list_all safe_value (constant_values is)"
  by (induction "is" rule: constant_values.induct) (auto simp: safe_operand_def)

lemma get_data_type_erase: "get_data_type_to_convert (map_option erase f) = get_data_type_to_convert f"
  by (induction f rule: get_data_type_to_convert.induct) auto

lemma as_array_erase: "as_array (erase_operand s) = map erase_operand (as_array s)"
proof (cases s)
  case (Some x)
  then show ?thesis by (cases x) (simp_all add: as_array_def erase_operand_def)
qed (simp add: as_array_def erase_operand_def)

lemma safe_as_array: "safe_operand s \<Longrightarrow> list_all safe_operand (as_array s)"
proof (cases s)
  case (Some x)
  then show "safe_operand s \<Longrightarrow> list_all safe_operand (as_array s)"
    by (cases x) (simp_all add: as_array_def safe_operand_def list.pred_map comp_def)
qed (simp add: as_array_def safe_operand_def)

lemma is_array_access_erase: "is_array_access (map_option erase f) = is_array_access f"
  by (cases f) (simp_all add: is_array_access_def)

lemma forces_cast_erase: "forces_cast (map_option erase f) = forces_cast f"
proof (cases f)
  case (Some n)
  then show ?thesis by (cases n) (simp_all add: forces_cast_def)
qed (simp add: forces_cast_def)

lemma visit_unary_has_erase: "visit_unary_has d m (erase n) = visit_unary_has d m n"
  by (cases n) simp_all

section \<open>The contract of a dialect class\<close>

text \<open>
  What the builder needs of the methods, under the condition \<open>lawful\<close> on the string literal
  processor: texts of the same shape are taken to texts of the same shape.
\<close>

locale shape_keeping_methods =
  fixes esc :: bool and lawful :: bool and d :: "'x sql_methods_scheme"
  assumes json_text: "lawful \<Longrightarrow> quote_free c \<Longrightarrow> list_all quote_free p \<Longrightarrow>
      same_shape esc (json_extract_as_text d c p) (json_extract_as_text d c p)"
    and json_contains: "lawful \<Longrightarrow> quote_free c \<Longrightarrow> list_all quote_free p \<Longrightarrow>
      same_result esc (json_contains_path d c p) (json_contains_path d c p)"
    and cast_shape: "lawful \<Longrightarrow> same_shape esc a b \<Longrightarrow> same_result esc (sql_cast d a t) (sql_cast d b t)"
    and constant_shape: "lawful \<Longrightarrow> safe_value v \<Longrightarrow>
      same_result esc (visit_constant d v t) (visit_constant d (erase_value v) t)"
    and contains_shape: "lawful \<Longrightarrow> same_shape esc a b \<Longrightarrow> safe_operand s \<Longrightarrow>
      same_result esc (visit_contains d a s) (visit_contains d b (erase_operand s))"
    and starts_with_shape: "lawful \<Longrightarrow> same_shape esc a b \<Longrightarrow> safe_operand s \<Longrightarrow>
      same_result esc (visit_starts_with d a s) (visit_starts_with d b (erase_operand s))"
    and ends_with_shape: "lawful \<Longrightarrow> same_shape esc a b \<Longrightarrow> safe_operand s \<Longrightarrow>
      same_result esc (visit_ends_with d a s) (visit_ends_with d b (erase_operand s))"
begin

lemma property_shape:
  assumes "lawful" and "safe_names n" and "visit_property_access_node d n = Inr s"
  shows "same_shape esc s s"
proof -
  have "same_shape esc (py_join ''.'' p) (py_join ''.'' p)" if "list_all quote_free p" for p
    using that by (intro same_shape_join) (auto simp: list_all_iff list_all2_same quote_free_shape)
  with assms json_text show ?thesis
    by (cases n) (auto simp: visit_property_access_node_def)
qed

lemma cast_self:
  "lawful \<Longrightarrow> same_shape esc a a \<Longrightarrow> sql_cast d a t = Inr b \<Longrightarrow> same_shape esc b b"
  using cast_shape [of a a t] by simp

lemma multiple_fields_shape:
  assumes "lawful" and "list_all safe_names fs" and "visit_multiple_fields_node d fs None = Inr s"
  shows "same_shape esc s s"
proof -
  have arg: "same_shape esc a a" if "safe_names n" and "multiple_fields_arg d h None n = Inr a" for n h a
    using that property_shape [OF assms(1), of n]
    by (auto simp: multiple_fields_arg_def split: if_splits intro!: shape_intros)
  from assms(3) obtain args where args: "s = coalesce args"
    "list_all2 (\<lambda>n a. multiple_fields_arg d (list_ex is_json_access fs) None n = Inr a) fs args"
    by (auto simp: visit_multiple_fields_node_def traverse_list_all2)
  have "same_shape esc a a" if "a \<in> set args" for a
    using that args(2) assms(2) arg unfolding list_all2_conv_all_nth in_set_conv_nth list_all_iff
    by (metis nth_mem)
  with args(1) show ?thesis by (auto intro!: same_shape_coalesce simp: list_all2_same)
qed

lemma in_first_operand_shape:
  assumes "lawful" and "\<And>n. f = Some n \<Longrightarrow> safe_names n" and "same_result esc built built'"
  shows "same_result esc (in_first_operand d f built st) (in_first_operand d (map_option erase f) built' st)"
proof (cases f)
  case (Some n)
  note shapes = property_shape [OF assms(1)] multiple_fields_shape [OF assms(1)] cast_self [OF assms(1)]
  show ?thesis
  proof (cases "is_property_access n \<or> (\<exists>fs t. n = MultipleFieldsNode fs t)")
    case True
    then have "in_first_operand d (map_option erase f) built' st = in_first_operand d f built st"
      using Some by (cases n) (auto simp: in_first_operand_def)
    moreover have "same_shape esc s s" if "in_first_operand d f built st = Inr s" for s
    proof -
      have one: "same_shape esc a a" if "visit_property_access_node d n = Inr a" for a
        using shapes(1) [OF assms(2) [OF Some] that] .
      have many: "same_shape esc a a" if "n = MultipleFieldsNode fs t" and "visit_multiple_fields_node d fs None = Inr a"
        for fs t a
        using shapes(2) [OF _ that(2)] assms(2) [OF Some] that(1) by simp
      show ?thesis
        using that True Some one many shapes(3)
        by (cases n) (auto simp: in_first_operand_def split: if_splits intro: shapes(3) [rotated])
    qed
    ultimately show ?thesis by (auto intro: self_result)
  next
    case False
    with Some assms(3) show ?thesis by (cases n) (auto simp: in_first_operand_def)
  qed
qed (use assms(3) in \<open>simp add: in_first_operand_def\<close>)

text \<open>The constants of an \<open>IN\<close> list.\<close>

lemma constants_shape:
  assumes "lawful" and "list_all safe_value vs"
  shows "case traverse (\<lambda>v. rbind t (visit_constant d v)) vs of
      Inl e \<Rightarrow> traverse (\<lambda>v. rbind t (visit_constant d v)) (map erase_value vs) = Inl e
    | Inr cs \<Rightarrow> \<exists>cs'. traverse (\<lambda>v. rbind t (visit_constant d v)) (map erase_value vs) = Inr cs' \<and>
        list_all2 (same_shape esc) cs cs'"
  using assms(2)
proof (induction vs)
  case (Cons v vs)
  from Cons.prems have IH: "case traverse (\<lambda>v. rbind t (visit_constant d v)) vs of
      Inl e \<Rightarrow> traverse (\<lambda>v. rbind t (visit_constant d v)) (map erase_value vs) = Inl e
    | Inr cs \<Rightarrow> \<exists>cs'. traverse (\<lambda>v. rbind t (visit_constant d v)) (map erase_value vs) = Inr cs' \<and>
        list_all2 (same_shape esc) cs cs'" by (intro Cons.IH) simp
  have "same_result esc (rbind t (visit_constant d v)) (rbind t (visit_constant d (erase_value v)))"
    using Cons.prems constant_shape [OF assms(1)] by (auto intro: same_result_bind_eq)
  with IH show ?case
    by (cases "rbind t (visit_constant d v)"; cases "rbind t (visit_constant d (erase_value v))")
      (auto split: sum.splits)
qed simp

lemma in_query_shape:
  assumes "lawful" and "list_all safe_value vs" and "same_shape esc a b"
  shows "same_result esc (in_query d f a vs n) (in_query d f b (map erase_value vs) n)"
proof -
  note null = same_shape_equal [OF assms(3) same_shape_text [of "''NULL''" esc]]
  show ?thesis
  proof (cases "vs = []")
    case True
    with null constant_shape [OF assms(1), of "PyBool False" None] show ?thesis
      by (simp add: in_query_def safe_value_def erase_value_def quote_free_def)
  next
    case False
    let ?tr = "\<lambda>vs. traverse (\<lambda>v. rbind (get_data_type_to_convert f) (visit_constant d v)) vs"
    show ?thesis
    proof (cases "?tr vs")
      case (Inl e)
      with constants_shape [OF assms(1,2), of "get_data_type_to_convert f"] False show ?thesis
        by (simp add: in_query_def)
    next
      case (Inr cs)
      with constants_shape [OF assms(1,2), of "get_data_type_to_convert f"]
      obtain cs' where cs': "?tr (map erase_value vs) = Inr cs'" "list_all2 (same_shape esc) cs cs'" by auto
      have "same_shape esc (a @ '' in ('' @ py_join '', '' cs @ '')'') (b @ '' in ('' @ py_join '', '' cs' @ '')'')"
        using assms(3) same_shape_join [OF cs'(2), of "'', ''"] by (auto intro!: shape_intros)
      with Inr cs'(1) False null show ?thesis by (auto simp: in_query_def intro!: same_shape_order)
    qed
  qed
qed

lemma visit_in_shape:
  assumes "lawful" and "\<And>n. f = Some n \<Longrightarrow> safe_names n" and "same_result esc built built'"
    and "list_all safe_operand is"
  shows "same_result esc (visit_in d f built is) (visit_in d (map_option erase f) built' (map erase_operand is))"
proof (cases "is = []")
  case False
  let ?vs = "filter (\<lambda>v. v \<noteq> PyNone) (constant_values is)"
  have none: "PyNone \<in> set (constant_values (map erase_operand is)) \<longleftrightarrow> PyNone \<in> set (constant_values is)"
    unfolding constant_values_erase by (metis erase_value_simps(2) image_iff list.set_map)
  have vs: "filter (\<lambda>v. v \<noteq> PyNone) (constant_values (map erase_operand is)) = map erase_value ?vs"
    by (simp add: constant_values_erase filter_map comp_def)
  have safe: "list_all safe_value ?vs"
    using safe_constant_values [OF assms(4)] by (simp add: list_all_iff)
  have query: "in_query d (map_option erase f) = in_query d f"
    by (intro ext) (simp add: in_query_def get_data_type_erase)
  show ?thesis
    unfolding visit_in_def none vs query using False
    by (auto simp: hd_map arg_value_erase all_instances_erase rbind_assoc
        intro!: same_result_bind_eq same_result_bind in_first_operand_shape in_query_shape assms(1-3) safe)
qed (simp add: visit_in_def)

end

lemma safe_safe_names: "safe n \<Longrightarrow> safe_names n"
  by (cases n) auto

locale shape_keeping_dialect = shape_keeping_methods esc lawful d
  for esc :: bool and lawful :: bool and d :: sql_dialect +
  assumes equal_array_shape: "lawful \<Longrightarrow> is_property_access f \<Longrightarrow> safe_names f \<Longrightarrow> safe_operand s \<Longrightarrow> date_free s \<Longrightarrow>
      same_result esc (visit_equal_array d f s) (visit_equal_array d f (erase_operand s))"
    and in_array_shape: "lawful \<Longrightarrow> is_property_access f \<Longrightarrow> safe_names f \<Longrightarrow> list_all safe_operand is \<Longrightarrow>
      list_all date_free is \<Longrightarrow>
      same_result esc (visit_in_array d f is) (visit_in_array d f (map erase_operand is))"
begin

lemma apply_operator_shape:
  assumes "lawful" and "same_shape esc a a'" and "same_shape esc b b'" and "safe_operand s"
  shows "same_result esc (apply_operator d p a b s) (apply_operator d p a' b' (erase_operand s))"
  using assms contains_shape starts_with_shape ends_with_shape
  by (cases p) (auto simp: apply_operator_def intro: same_shape_equal same_shape_not_equal same_shape_order)

lemma second_constant_shape:
  assumes "lawful" and "safe_operand s"
  shows "case second_constant d p t s of
      Inl e \<Rightarrow> second_constant d p t (erase_operand s) = Inl e
    | Inr (x, y) \<Rightarrow> \<exists>x'. second_constant d p t (erase_operand s) = Inr (x', y) \<and> rel_option (same_shape esc) x x'"
proof (cases "\<exists>v. s = Some (INode (ConstantNode v))")
  case True
  then obtain v where s: "s = Some (INode (ConstantNode v))" by blast
  with assms(2) have "safe_value v" by (simp add: safe_operand_def)
  from constant_shape [OF assms(1) this, of t]
  have c: "same_result esc (visit_constant d v t) (visit_constant d (erase_value v) t)" .
  obtain k where k: "from_type_to_data_type (type_of v) = Inr k" by (cases v) auto
  have eqs: "second_constant d p t s = (if string_operator p then Inr (None, None)
      else rbind (visit_constant d v t) (\<lambda>x. Inr (Some x, Some k)))"
    "second_constant d p t (erase_operand s) = (if string_operator p then Inr (None, None)
      else rbind (visit_constant d (erase_value v) t) (\<lambda>x. Inr (Some x, Some k)))"
    by (simp_all add: s second_constant_def erase_operand_def k)
  show ?thesis
  proof (cases "visit_constant d v t")
    case (Inl e)
    with c show ?thesis unfolding eqs by simp
  next
    case (Inr x)
    with c obtain y where "visit_constant d (erase_value v) t = Inr y" "same_shape esc x y"
      by (cases "visit_constant d (erase_value v) t") simp_all
    with Inr show ?thesis unfolding eqs by simp
  qed
next
  case False
  have "second_constant d p t s = Inr (None, None) \<and> second_constant d p t (erase_operand s) = Inr (None, None)"
  proof (cases s)
    case (Some x)
    show ?thesis
    proof (cases x)
      case (INode n)
      with Some False show ?thesis by (cases n) (simp_all add: second_constant_def erase_operand_def)
    qed (use Some in \<open>simp_all add: second_constant_def erase_operand_def\<close>)
  qed (simp add: second_constant_def erase_operand_def)
  then show ?thesis by simp
qed

lemma operand_type_erase:
  "first_operand_data_type p (map_option erase f) = first_operand_data_type p f"
  "force_cast p (map_option erase f) = force_cast p f"
proof -
  show "first_operand_data_type p (map_option erase f) = first_operand_data_type p f"
    unfolding first_operand_data_type_def by (cases f) simp_all
  show "force_cast p (map_option erase f) = force_cast p f"
    unfolding force_cast_def forces_cast_erase ..
qed

lemma compare_operands_shape:
  assumes "lawful" and "safe_operand s" and "same_result esc fb fb'" and "same_result esc sb sb'"
  shows "same_result esc (compare_operands d f fb p s sb)
    (compare_operands d (map_option erase f) fb' p (erase_operand s) sb')"
proof (cases "second_constant d p (first_operand_data_type p f) s")
  case (Inl e)
  with second_constant_shape [OF assms(1,2), of p "first_operand_data_type p f"] show ?thesis
    by (cases "force_cast p f") (simp_all add: compare_operands_def operand_type_erase)
next
  case (Inr r)
  obtain x y where r: "r = (x, y)" by (cases r)
  with Inr second_constant_shape [OF assms(1,2), of p "first_operand_data_type p f"]
  obtain x' where x': "second_constant d p (first_operand_data_type p f) (erase_operand s) = Inr (x', y)"
    "rel_option (same_shape esc) x x'" by auto
  have second: "same_result esc (case x of Some z \<Rightarrow> Inr z | None \<Rightarrow> sb) (case x' of Some z \<Rightarrow> Inr z | None \<Rightarrow> sb')"
    using x'(2) assms(4) by (cases x; cases x') auto
  have cast: "same_result esc (cast_first_operand d k t y a) (cast_first_operand d k t y a')"
    if "same_shape esc a a'" for k t a a'
    using that cast_shape [OF assms(1) that]
    by (cases "k \<or> (t = None \<and> y \<noteq> None)") (simp_all only: cast_first_operand_def if_True if_False same_result_simps)
  show ?thesis
    unfolding compare_operands_def operand_type_erase Inr r x'(1) rbind_Inr prod.case
    by (intro same_result_bind_eq same_result_bind [OF assms(3)] same_result_bind [OF second]
        same_result_bind [OF cast] apply_operator_shape [OF assms(1)] assms(2))
qed

lemma comparison_shape:
  assumes "lawful" and "\<And>n. f = Some n \<Longrightarrow> safe_names n" and "safe_operand s"
    and "same_result esc fb fb'" and "same_result esc sb sb'"
    and "is_array_access f \<Longrightarrow> list_all date_free (as_array s)"
  shows "same_result esc (visit_comparison d f fb p s sb)
    (visit_comparison d (map_option erase f) fb' p (erase_operand s) sb')"
proof -
  have array: "the (map_option erase f) = the f" "is_property_access (the f)" "safe_names (the f)"
    if "is_array_access f"
    using that assms(2) by (cases f; simp add: is_array_access_def)+
  have "date_free s" if "is_array_access f"
    using assms(6) [OF that] by (cases s rule: date_free.cases) (auto simp: as_array_def)
  then show ?thesis
    using array in_array_shape [OF assms(1) _ _ safe_as_array [OF assms(3)]]
      visit_in_shape [OF assms(1,2,4) safe_as_array [OF assms(3)]] equal_array_shape [OF assms(1) _ _ assms(3)] assms(6)
      compare_operands_shape [OF assms(1,3,4,5)]
    by (simp add: visit_comparison_def is_array_access_erase as_array_erase)
qed

lemma unary_has_shape:
  assumes "lawful" and "visit_unary_has d m n = Inr s" and "safe_names n"
  shows "same_shape esc s s"
  using assms(2,3)
proof (induction n arbitrary: s rule: measure_induct_rule [of size])
  case (less n)
  show ?case
  proof (cases n)
    case (MultipleFieldsNode fs t)
    with less.prems(1) obtain qs where qs: "list_all2 (\<lambda>k q. non_empty (visit_unary_has d m k) = Inr q) fs qs"
      "or_chain qs = Inr s" by (auto simp: traverse_list_all2)
    have "same_shape esc q q" if "q \<in> set qs" for q
    proof -
      from that qs(1) obtain k where k: "k \<in> set fs" "visit_unary_has d m k = Inr q"
        by (auto simp: list_all2_conv_all_nth in_set_conv_nth non_empty_def split: if_splits)
      then have "size k < size n" using MultipleFieldsNode by (simp add: less_Suc_eq_le size_list_estimation')
      with less.IH k less.prems(2) MultipleFieldsNode show ?thesis by (auto simp: list_all_iff)
    qed
    with qs(2) show ?thesis
      by (cases qs) (auto simp: or_chain_def list_all2_same intro!: same_shape_foldl_or)
  next
    case (JsonPropertyAccessNode j p t)
    with less.prems json_contains [OF assms(1), of j p] show ?thesis by simp
  qed (use less.prems in \<open>auto intro: same_shape_text split: if_splits\<close>)
qed

lemma member_access_shape:
  "lawful \<Longrightarrow> safe_names n \<Longrightarrow> same_result esc (sql_member_access_node d n) (sql_member_access_node d n)"
  by (auto simp: sql_member_access_node_def intro: self_result property_shape)

lemma build_shape:
  assumes "lawful"
  shows "safe n \<Longrightarrow> same_result esc (build_sql_filter d m n) (build_sql_filter d m (erase n))"
    and "safe_item i \<Longrightarrow> same_result esc (build_operand d m (Some i)) (build_operand d m (Some (erase_item i)))"
proof (induction n and i)
  case (ParenthesisNode e)
  then show ?case by (auto intro!: same_result_non_empty same_result_bind same_shape_order)
next
  case (LogicalNode l p r)
  then show ?case by (auto intro!: same_result_non_empty same_result_bind same_shape_order)
next
  case (ComparisonNode f p s)
  have "safe_names n" if "f = Some n" for n using ComparisonNode.prems that by (auto intro: safe_safe_names)
  moreover have "same_result esc
      (case f of None \<Rightarrow> Inl NotImplementedError | Some n \<Rightarrow> build_sql_filter d m n)
      (case map_option erase f of None \<Rightarrow> Inl NotImplementedError | Some n \<Rightarrow> build_sql_filter d m n)"
    using ComparisonNode by (cases f) auto
  moreover have "same_result esc (build_operand d m s) (build_operand d m (erase_operand s))"
    using ComparisonNode by (cases s) (auto simp: erase_operand_def)
  moreover have "safe_operand s" using ComparisonNode.prems by (simp add: safe_operand_def)
  moreover have "is_array_access f \<Longrightarrow> list_all date_free (as_array s)" using ComparisonNode.prems by simp
  ultimately show ?case
    using comparison_shape [OF assms, of f s] by (auto simp: erase_operand_def intro!: same_result_non_empty)
next
  case (UnaryNode p x)
  show ?case
  proof (cases p)
    case UNot
    with UnaryNode show ?thesis
      by (cases x) (auto intro!: same_result_non_empty same_result_bind shape_intros)
  next
    case UHas
    show ?thesis
    proof (cases "\<exists>n. x = Some (INode n)")
      case True
      then obtain n where n: "x = Some (INode n)" by blast
      have "same_result esc (visit_unary_has d m n) (visit_unary_has d m n)"
        using UnaryNode.prems n safe_safe_names [of n] unary_has_shape [OF assms]
        by (intro self_result) auto
      with UHas n show ?thesis by (auto simp: visit_unary_has_erase intro!: same_result_non_empty)
    next
      case False
      with UHas show ?thesis
        by (cases x; cases "the x") (auto intro!: same_result_non_empty shape_intros)
    qed
  qed simp
next
  case (MultipleFieldsNode fs t)
  then show ?case using multiple_fields_shape [OF assms] by (auto intro!: same_result_non_empty [OF self_result])
next
  case (ConstantNode v)
  then show ?case using constant_shape [OF assms] by (auto intro!: same_result_non_empty)
qed (use member_access_shape [OF assms] in \<open>auto intro!: same_result_non_empty\<close>)

end

end
