(* ===== verification/Cel_Converter.thy ===== *)
theory Cel_Converter
  imports Cel_Ast
begin

text \<open>
  \<^verbatim>\<open>src/repositories/cel_to_sql/cel_ast_converter.py\<close>: the visitor that turns the parse tree of
  cel-python into an AST with two stacks.  The parser, \<open>dateutil\<close>, CPython's float conversion and
  pydantic's \<open>repr\<close> are parameters (\<open>runtime\<close>).  One definition per visitor method, dispatched by
  the tree's rule name in the order the Lark visitor calls them: children first, left to right.
\<close>

section \<open>Parse trees and the runtime the converter calls\<close>

datatype lark = Tree string "lark list" | Token string

record runtime =
  rt_parse :: "string \<Rightarrow> pyexc + lark"
  rt_dateutil :: "string \<Rightarrow> py_datetime option"
  rt_float :: "string \<Rightarrow> string option"
  rt_repr :: "item \<Rightarrow> string"

fun token_value :: "lark \<Rightarrow> pyexc + string" where
  "token_value (Token v) = Inr v"
| "token_value (Tree d ts) = Inl AttributeError"

definition child_token :: "nat \<Rightarrow> lark list \<Rightarrow> pyexc + string" where
  "child_token i ts = (if i < length ts then token_value (ts ! i) else Inl IndexError)"

section \<open>Literals\<close>

definition is_digit :: "char \<Rightarrow> bool" where
  "is_digit c = (let n = (of_char c :: nat) in 48 \<le> n \<and> n \<le> 57)"

text \<open>The two date patterns; \<open>$\<close> also matches before a final newline.\<close>

definition take_digits :: "nat \<Rightarrow> string \<Rightarrow> string option" where
  "take_digits n s = (if n \<le> length s \<and> list_all is_digit (take n s) then Some (drop n s) else None)"

fun take_lit :: "char \<Rightarrow> string \<Rightarrow> string option" where
  "take_lit c [] = None"
| "take_lit c (x # xs) = (if x = c then Some xs else None)"

definition at_end :: "string \<Rightarrow> bool" where
  "at_end s \<longleftrightarrow> s = [] \<or> s = [newline]"

definition match_date :: "string \<Rightarrow> string option" where
  "match_date s = Option.bind (take_digits 4 s) (\<lambda>s. Option.bind (take_lit (CHR ''-'') s)
     (\<lambda>s. Option.bind (take_digits 2 s) (\<lambda>s. Option.bind (take_lit (CHR ''-'') s) (take_digits 2))))"

definition match_time :: "string \<Rightarrow> string option" where
  "match_time s = Option.bind (take_digits 2 s) (\<lambda>s. Option.bind (take_lit (CHR '':'') s)
     (\<lambda>s. Option.bind (take_digits 2 s) (\<lambda>s. Option.bind (take_lit (CHR '':'') s) (take_digits 2))))"

definition match_fraction :: "string \<Rightarrow> string" where
  "match_fraction s = (case s of c # d # r \<Rightarrow>
     if c = CHR ''.'' \<and> is_digit d then dropWhile is_digit (d # r) else s | _ \<Rightarrow> s)"

definition match_offset :: "string \<Rightarrow> string option" where
  "match_offset s = Option.bind (take_digits 2 s)
     (\<lambda>s. Option.bind (take_lit (CHR '':'') s) (take_digits 2))"

definition match_zone :: "string \<Rightarrow> bool" where
  "match_zone s = (at_end s \<or> (case s of [] \<Rightarrow> False | c # r \<Rightarrow>
     c = CHR ''Z'' \<and> at_end r
     \<or> (c = CHR ''+'' \<or> c = CHR ''-'') \<and> (case match_offset r of None \<Rightarrow> False | Some t \<Rightarrow> at_end t)))"

definition iso_regex :: "string \<Rightarrow> bool" where
  "iso_regex s = (case Option.bind (match_date s) (\<lambda>s. Option.bind (take_lit (CHR ''T'') s) match_time) of
     None \<Rightarrow> False | Some r \<Rightarrow> match_zone (match_fraction r))"

definition datetime_regex :: "string \<Rightarrow> bool" where
  "datetime_regex s = (case match_date s of None \<Rightarrow> False | Some r \<Rightarrow>
     at_end r \<or> (case r of [] \<Rightarrow> False | c # t \<Rightarrow>
       is_space c \<and> (case match_time t of None \<Rightarrow> False | Some u \<Rightarrow> at_end u)))"

definition is_number :: "string \<Rightarrow> bool" where
  "is_number s \<longleftrightarrow> py_int s \<noteq> None"

definition is_float :: "runtime \<Rightarrow> string \<Rightarrow> bool" where
  "is_float rt s \<longleftrightarrow> rt_float rt s \<noteq> None"

definition is_date :: "string \<Rightarrow> bool" where
  "is_date s \<longleftrightarrow> iso_regex s \<or> datetime_regex s"

text \<open>\<open>re.sub(r'\\(["\'])', r"\1", value)\<close>\<close>

fun unescape_quotes :: "string \<Rightarrow> string" where
  "unescape_quotes [] = []"
| "unescape_quotes [c] = [c]"
| "unescape_quotes (c # d # s) =
     (if c = CHR 0x5C \<and> (d = CHR 0x22 \<or> d = CHR 0x27) then d # unescape_quotes s
      else c # unescape_quotes (d # s))"

definition quoted_by :: "char \<Rightarrow> string \<Rightarrow> bool" where
  "quoted_by q v \<longleftrightarrow> prefixed [q] v \<and> suffixed [q] v"

definition inner :: "string \<Rightarrow> string" where
  "inner v = butlast (tl v)"

definition to_constant_node :: "runtime \<Rightarrow> string \<Rightarrow> pyexc + node" where
  "to_constant_node rt value =
     (if value = ''null'' \<or> value = ''NULL'' then Inr (ConstantNode PyNone)
      else if quoted_by (CHR 0x22) value \<or> quoted_by (CHR 0x27) value then
        (let v = inner value in
         if \<not> is_number v \<and> is_date v
         then rbind (option_res ValueError (rt_dateutil rt v)) (\<lambda>d. Inr (ConstantNode (PyDate d)))
         else Inr (ConstantNode (PyStr (unescape_quotes v))))
      else if value = ''true'' \<or> value = ''false'' then Inr (ConstantNode (PyBool (value = ''true'')))
      else if CHR ''.'' \<in> set value \<and> is_float rt value
        then rbind (option_res ValueError (rt_float rt value)) (\<lambda>r. Inr (ConstantNode (PyFloat r)))
      else if is_number value
        then rbind (option_res ValueError (py_int value)) (\<lambda>i. Inr (ConstantNode (PyInt i)))
      else Inl ValueError)"

section \<open>The stacks\<close>

text \<open>Both stacks keep their top first.\<close>

record conv =
  stack :: "item list"
  member_access_stack :: "node list"

definition conv_init :: conv where
  "conv_init = \<lparr>stack = [], member_access_stack = []\<rparr>"

definition push :: "item \<Rightarrow> conv \<Rightarrow> conv" where
  "push i c = c\<lparr>stack := i # stack c\<rparr>"

definition pop :: "conv \<Rightarrow> pyexc + item \<times> conv" where
  "pop c = (case stack c of [] \<Rightarrow> Inl IndexError | i # is \<Rightarrow> Inr (i, c\<lparr>stack := is\<rparr>))"

definition pop_node :: "conv \<Rightarrow> pyexc + node \<times> conv" where
  "pop_node c = rbind (pop c) (\<lambda>(i, c). rbind (node_field i) (\<lambda>n. Inr (n, c)))"

lemma push_simps [simp]:
  "stack (push i c) = i # stack c"
  "member_access_stack (push i c) = member_access_stack c"
  by (simp_all add: push_def)

lemma pop_push [simp]: "pop (push i c) = Inr (i, c)"
  by (simp add: pop_def push_def)

lemma pop_node_push [simp]: "pop_node (push (INode n) c) = Inr (n, c)"
  by (simp add: pop_node_def)

section \<open>Visitor methods\<close>

definition visit_expr :: "runtime \<Rightarrow> lark list \<Rightarrow> conv \<Rightarrow> pyexc + conv" where
  "visit_expr rt ts c =
     (if length ts = 1 then Inr c
      else rbind (pop c) (\<lambda>(right, c). rbind (pop c) (\<lambda>(left, c). rbind (pop c) (\<lambda>(cond, c).
        rbind (item_str (rt_repr rt) cond) (\<lambda>a. rbind (item_str (rt_repr rt) left) (\<lambda>b.
        rbind (item_str (rt_repr rt) right) (\<lambda>d.
          Inr (push (IStr (a @ '' ? '' @ b @ '' : '' @ d)) c))))))))"

definition logical_visit :: "logical_op \<Rightarrow> lark list \<Rightarrow> conv \<Rightarrow> pyexc + conv" where
  "logical_visit p ts c =
     (if length ts = 1 then Inr c
      else rbind (pop c) (\<lambda>(right, c). rbind (pop c) (\<lambda>(left, c).
        rbind (node_field left) (\<lambda>l. rbind (node_field right) (\<lambda>r.
          Inr (push (INode (LogicalNode l p r)) c))))))"

definition visit_conditionalor :: "lark list \<Rightarrow> conv \<Rightarrow> pyexc + conv" where
  "visit_conditionalor ts c = logical_visit LOr ts c"

definition visit_conditionaland :: "lark list \<Rightarrow> conv \<Rightarrow> pyexc + conv" where
  "visit_conditionaland ts c = logical_visit LAnd ts c"

text \<open>\<open>node.second_operand = x\<close> assigns without validation; only a comparison has that field.\<close>

fun set_second_operand :: "item \<Rightarrow> item \<Rightarrow> pyexc + item" where
  "set_second_operand x (INode (ComparisonNode f p s)) = Inr (INode (ComparisonNode f p (Some x)))"
| "set_second_operand x (INode _) = Inl ValueError"
| "set_second_operand x _ = Inl AttributeError"

definition visit_relation :: "lark list \<Rightarrow> conv \<Rightarrow> pyexc + conv" where
  "visit_relation ts c =
     (if length ts = 1 then Inr c
      else rbind (pop c) (\<lambda>(second, c). rbind (pop c) (\<lambda>(comparison, c).
        rbind (set_second_operand second comparison) (\<lambda>i. Inr (push i c)))))"

definition visit_relation_op :: "comparison_op \<Rightarrow> conv \<Rightarrow> pyexc + conv" where
  "visit_relation_op p c =
     rbind (pop_node c) (\<lambda>(n, c). Inr (push (INode (ComparisonNode (Some n) p None)) c))"

definition visit_relation_lt :: "conv \<Rightarrow> pyexc + conv" where
  "visit_relation_lt = visit_relation_op LT"

definition visit_relation_le :: "conv \<Rightarrow> pyexc + conv" where
  "visit_relation_le = visit_relation_op LE"

definition visit_relation_gt :: "conv \<Rightarrow> pyexc + conv" where
  "visit_relation_gt = visit_relation_op GT"

definition visit_relation_ge :: "conv \<Rightarrow> pyexc + conv" where
  "visit_relation_ge = visit_relation_op GE"

definition visit_relation_eq :: "conv \<Rightarrow> pyexc + conv" where
  "visit_relation_eq = visit_relation_op EQ"

definition visit_relation_ne :: "conv \<Rightarrow> pyexc + conv" where
  "visit_relation_ne = visit_relation_op NE"

definition visit_relation_in :: "conv \<Rightarrow> pyexc + conv" where
  "visit_relation_in = visit_relation_op IN_OP"

text \<open>\<open>left["right"] = right\<close>: a dict takes it; a list wants an integer index, a string no assignment.\<close>

fun set_right :: "item \<Rightarrow> item \<Rightarrow> pyexc + item" where
  "set_right x (IArith l p r) = Inr (IArith l p (Some x))"
| "set_right x _ = Inl TypeError"

definition arith_visit :: "lark list \<Rightarrow> conv \<Rightarrow> pyexc + conv" where
  "arith_visit ts c =
     (if length ts = 1 then Inr c
      else rbind (pop c) (\<lambda>(right, c). rbind (pop c) (\<lambda>(left, c).
        rbind (set_right right left) (\<lambda>i. Inr (push i c)))))"

definition arith_op :: "string \<Rightarrow> conv \<Rightarrow> pyexc + conv" where
  "arith_op p c = rbind (pop c) (\<lambda>(left, c). Inr (push (IArith left p None) c))"

definition visit_addition :: "lark list \<Rightarrow> conv \<Rightarrow> pyexc + conv" where
  "visit_addition = arith_visit"

definition visit_addition_add :: "conv \<Rightarrow> pyexc + conv" where
  "visit_addition_add = arith_op ''ADD''"

definition visit_addition_sub :: "conv \<Rightarrow> pyexc + conv" where
  "visit_addition_sub = arith_op ''SUB''"

definition visit_multiplication :: "lark list \<Rightarrow> conv \<Rightarrow> pyexc + conv" where
  "visit_multiplication = arith_visit"

definition visit_multiplication_mul :: "conv \<Rightarrow> pyexc + conv" where
  "visit_multiplication_mul = arith_op ''MUL''"

definition visit_multiplication_div :: "conv \<Rightarrow> pyexc + conv" where
  "visit_multiplication_div = arith_op ''DIV''"

definition visit_multiplication_mod :: "conv \<Rightarrow> pyexc + conv" where
  "visit_multiplication_mod = arith_op ''MOD''"

fun set_operand :: "item \<Rightarrow> item \<Rightarrow> pyexc + item" where
  "set_operand x (INode (UnaryNode p m)) = Inr (INode (UnaryNode p (Some x)))"
| "set_operand x (INode _) = Inl ValueError"
| "set_operand x _ = Inl AttributeError"

definition visit_unary :: "lark list \<Rightarrow> conv \<Rightarrow> pyexc + conv" where
  "visit_unary ts c =
     (if length ts = 1 then Inr c
      else rbind (pop c) (\<lambda>(operand, c). rbind (pop c) (\<lambda>(u, c).
        rbind (set_operand operand u) (\<lambda>i. Inr (push i c)))))"

definition visit_unary_not :: "conv \<Rightarrow> pyexc + conv" where
  "visit_unary_not c = Inr (push (INode (UnaryNode UNot None)) c)"

definition visit_unary_neg :: "conv \<Rightarrow> pyexc + conv" where
  "visit_unary_neg c = Inr (push (INode (UnaryNode UNeg None)) c)"

fun item_path :: "item \<Rightarrow> pyexc + string list" where
  "item_path (INode n) = path_of n"
| "item_path _ = Inl AttributeError"

definition visit_member_dot :: "lark list \<Rightarrow> conv \<Rightarrow> pyexc + conv" where
  "visit_member_dot ts c =
     rbind (child_token 1 ts) (\<lambda>right.
       case member_access_stack c of [] \<Rightarrow> Inr c
       | m # ms \<Rightarrow> rbind (path_of m) (\<lambda>p. rbind (pop c) (\<lambda>(_, c).
           let n = PropertyAccessNode (p @ [right]) None
           in Inr (push (INode n) (c\<lparr>member_access_stack := n # ms\<rparr>)))))"

text \<open>\<open>exprlist[0]\<close> on whatever the stack held.\<close>

fun subscript0 :: "item \<Rightarrow> pyexc + item" where
  "subscript0 (IList xs) = (case xs of [] \<Rightarrow> Inl IndexError | x # _ \<Rightarrow> Inr x)"
| "subscript0 (IStr s) = (case s of [] \<Rightarrow> Inl IndexError | x # _ \<Rightarrow> Inr (IStr [x]))"
| "subscript0 (IArith l p r) = Inl KeyError"
| "subscript0 (INode n) = Inl TypeError"

definition string_methods :: "string list" where
  "string_methods = map (\<lambda>p. py_lower (comparison_op_value p)) [CONTAINS, STARTS_WITH, ENDS_WITH]"

definition visit_member_dot_arg :: "lark list \<Rightarrow> conv \<Rightarrow> pyexc + conv" where
  "visit_member_dot_arg ts c =
     rbind (if length ts = 3 then pop c else Inr (IList [], c)) (\<lambda>(exprlist, c).
     rbind (child_token 1 ts) (\<lambda>right.
       if member_access_stack c \<noteq> [] then
         if py_lower right \<in> set string_methods then
           rbind (pop c) (\<lambda>(first, c). rbind (subscript0 exprlist) (\<lambda>second.
           rbind (node_field first) (\<lambda>f. rbind (comparison_op_of right) (\<lambda>p.
             Inr (push (INode (ComparisonNode (Some f) p (Some (node_or_any second)))) c)))))
         else Inl NotImplementedError
       else Inl ValueError))"

definition index_str :: "runtime \<Rightarrow> item \<Rightarrow> pyexc + string" where
  "index_str rt i = (case i of INode (ConstantNode v) \<Rightarrow> Inr (py_str v) | _ \<Rightarrow> item_str (rt_repr rt) i)"

definition visit_member_index :: "runtime \<Rightarrow> conv \<Rightarrow> pyexc + conv" where
  "visit_member_index rt c =
     rbind (pop c) (\<lambda>(right, c). rbind (pop c) (\<lambda>(left, c).
       rbind (item_path left) (\<lambda>p. rbind (index_str rt right) (\<lambda>r.
         let n = PropertyAccessNode (p @ [r]) None
         in Inr (push (INode n) (c\<lparr>member_access_stack := n # member_access_stack c\<rparr>))))))"

definition visit_member_object :: "conv \<Rightarrow> pyexc + conv" where
  "visit_member_object c = Inl NotImplementedError"

definition visit_dot_ident_arg :: "conv \<Rightarrow> pyexc + conv" where
  "visit_dot_ident_arg c = Inl NotImplementedError"

definition visit_dot_ident :: "conv \<Rightarrow> pyexc + conv" where
  "visit_dot_ident c = Inl NotImplementedError"

definition visit_ident_arg :: "lark list \<Rightarrow> conv \<Rightarrow> pyexc + conv" where
  "visit_ident_arg ts c =
     rbind (child_token 0 ts) (\<lambda>t.
       if t = ''has'' then
         rbind (pop c) (\<lambda>(args, c). rbind (subscript0 args) (\<lambda>x. rbind (node_field x) (\<lambda>n.
           Inr (push (INode (UnaryNode UHas (Some (INode n)))) c))))
       else Inl NotImplementedError)"

definition visit_ident :: "lark list \<Rightarrow> conv \<Rightarrow> pyexc + conv" where
  "visit_ident ts c =
     rbind (child_token 0 ts) (\<lambda>t.
       let n = PropertyAccessNode [t] None
       in Inr (push (INode n) (c\<lparr>member_access_stack := [n]\<rparr>)))"

definition visit_paren_expr :: "conv \<Rightarrow> pyexc + conv" where
  "visit_paren_expr c =
     (if stack c = [] then Inl ValueError
      else rbind (pop_node c) (\<lambda>(n, c). Inr (push (INode (ParenthesisNode n)) c)))"

fun reversed_items :: "item \<Rightarrow> pyexc + item list" where
  "reversed_items (IList xs) = Inr (rev xs)"
| "reversed_items (IStr s) = Inr (map (\<lambda>x. IStr [x]) (rev s))"
| "reversed_items (IArith l p r) =
     Inr ((if r = None then [] else [IStr ''right'']) @ [IStr ''operator'', IStr ''left''])"
| "reversed_items (INode n) = Inl TypeError"

definition visit_list_lit :: "conv \<Rightarrow> pyexc + conv" where
  "visit_list_lit c =
     (if stack c = [] then Inr c
      else rbind (pop c) (\<lambda>(left, c). rbind (reversed_items left) (\<lambda>xs. Inr (push (IList xs) c))))"

definition visit_map_lit :: "conv \<Rightarrow> pyexc + conv" where
  "visit_map_lit c = Inl NotImplementedError"

fun pop_n :: "nat \<Rightarrow> conv \<Rightarrow> pyexc + item list \<times> conv" where
  "pop_n 0 c = Inr ([], c)"
| "pop_n (Suc n) c = rbind (pop c) (\<lambda>(i, c). rbind (pop_n n c) (\<lambda>(is, c). Inr (i # is, c)))"

definition visit_exprlist :: "lark list \<Rightarrow> conv \<Rightarrow> pyexc + conv" where
  "visit_exprlist ts c = rbind (pop_n (length ts) c) (\<lambda>(xs, c). Inr (push (IList xs) c))"

definition visit_fieldinits :: "conv \<Rightarrow> pyexc + conv" where
  "visit_fieldinits c = Inl NotImplementedError"

definition visit_mapinits :: "conv \<Rightarrow> pyexc + conv" where
  "visit_mapinits c = Inl NotImplementedError"

definition visit_literal :: "runtime \<Rightarrow> lark list \<Rightarrow> conv \<Rightarrow> pyexc + conv" where
  "visit_literal rt ts c =
     (if ts = [] then Inr c
      else rbind (child_token 0 ts) (\<lambda>v. rbind (to_constant_node rt v) (\<lambda>n. Inr (push (INode n) c))))"

section \<open>The visitor\<close>

text \<open>
  Lark calls the method named after the tree's rule, and does nothing where the class has none
  (\<open>member\<close>, \<open>primary\<close>).
\<close>

definition call_userfunc :: "runtime \<Rightarrow> string \<Rightarrow> lark list \<Rightarrow> conv \<Rightarrow> pyexc + conv" where
  "call_userfunc rt d ts c =
    (if d = ''expr'' then visit_expr rt ts c
     else if d = ''conditionalor'' then visit_conditionalor ts c
     else if d = ''conditionaland'' then visit_conditionaland ts c
     else if d = ''relation'' then visit_relation ts c
     else if d = ''relation_lt'' then visit_relation_lt c
     else if d = ''relation_le'' then visit_relation_le c
     else if d = ''relation_gt'' then visit_relation_gt c
     else if d = ''relation_ge'' then visit_relation_ge c
     else if d = ''relation_eq'' then visit_relation_eq c
     else if d = ''relation_ne'' then visit_relation_ne c
     else if d = ''relation_in'' then visit_relation_in c
     else if d = ''addition'' then visit_addition ts c
     else if d = ''addition_add'' then visit_addition_add c
     else if d = ''addition_sub'' then visit_addition_sub c
     else if d = ''multiplication'' then visit_multiplication ts c
     else if d = ''multiplication_mul'' then visit_multiplication_mul c
     else if d = ''multiplication_div'' then visit_multiplication_div c
     else if d = ''multiplication_mod'' then visit_multiplication_mod c
     else if d = ''unary'' then visit_unary ts c
     else if d = ''unary_not'' then visit_unary_not c
     else if d = ''unary_neg'' then visit_unary_neg c
     else if d = ''member_dot'' then visit_member_dot ts c
     else if d = ''member_dot_arg'' then visit_member_dot_arg ts c
     else if d = ''member_index'' then visit_member_index rt c
     else if d = ''member_object'' then visit_member_object c
     else if d = ''dot_ident_arg'' then visit_dot_ident_arg c
     else if d = ''dot_ident'' then visit_dot_ident c
     else if d = ''ident_arg'' then visit_ident_arg ts c
     else if d = ''ident'' then visit_ident ts c
     else if d = ''paren_expr'' then visit_paren_expr c
     else if d = ''list_lit'' then visit_list_lit c
     else if d = ''map_lit'' then visit_map_lit c
     else if d = ''exprlist'' then visit_exprlist ts c
     else if d = ''fieldinits'' then visit_fieldinits c
     else if d = ''mapinits'' then visit_mapinits c
     else if d = ''literal'' then visit_literal rt ts c
     else Inr c)"

fun visit :: "runtime \<Rightarrow> lark \<Rightarrow> conv \<Rightarrow> pyexc + conv"
  and visit_children :: "runtime \<Rightarrow> lark list \<Rightarrow> conv \<Rightarrow> pyexc + conv" where
  "visit rt (Token v) c = Inr c"
| "visit rt (Tree d ts) c = rbind (visit_children rt ts c) (\<lambda>c. call_userfunc rt d ts c)"
| "visit_children rt [] c = Inr c"
| "visit_children rt (t # ts) c = rbind (visit rt t c) (\<lambda>c. visit_children rt ts c)"

text \<open>\<open>d.stack[0]\<close> is the bottom of the stack.\<close>

definition convert_to_ast :: "runtime \<Rightarrow> string \<Rightarrow> pyexc + item" where
  "convert_to_ast rt cel =
     rbind (rt_parse rt cel) (\<lambda>t. rbind (visit rt t conv_init) (\<lambda>c.
       if stack c = [] then Inl IndexError else Inr (last (stack c))))"

section \<open>The supported language and its meaning without stacks\<close>

text \<open>
  The expressions the visitor supports, and what each is meant to become, written
  compositionally.  \<open>parses e t\<close>: \<open>t\<close> is a parse tree of \<open>e\<close>, with any number of the grammar's
  single-child precedence levels in between.
\<close>

datatype surface =
    SLit string
  | SIdent string
  | SDot surface string
  | SIndex surface surface
  | SMethod surface string surface
  | SHas surface
  | SParen surface
  | SList "surface list"
  | SNot surface
  | SNeg surface
  | SCompare surface comparison_op surface
  | SLogical surface logical_op surface

fun access_chain :: "surface \<Rightarrow> bool" where
  "access_chain (SIdent x) = True"
| "access_chain (SDot e x) = access_chain e"
| "access_chain (SIndex e i) = access_chain e"
| "access_chain _ = False"

fun relation_rule :: "comparison_op \<Rightarrow> string option" where
  "relation_rule LT = Some ''relation_lt''"
| "relation_rule LE = Some ''relation_le''"
| "relation_rule GT = Some ''relation_gt''"
| "relation_rule GE = Some ''relation_ge''"
| "relation_rule EQ = Some ''relation_eq''"
| "relation_rule NE = Some ''relation_ne''"
| "relation_rule IN_OP = Some ''relation_in''"
| "relation_rule _ = None"

fun logical_rule :: "logical_op \<Rightarrow> string" where
  "logical_rule LAnd = ''conditionaland''"
| "logical_rule LOr = ''conditionalor''"

definition level_rules :: "string list" where
  "level_rules = [''expr'', ''conditionalor'', ''conditionaland'', ''relation'', ''addition'',
     ''multiplication'', ''unary'', ''member'', ''primary'']"

inductive parses :: "surface \<Rightarrow> lark \<Rightarrow> bool" where
  level: "parses e t \<Longrightarrow> d \<in> set level_rules \<Longrightarrow> parses e (Tree d [t])"
| lit: "parses (SLit v) (Tree ''literal'' [Token v])"
| ident: "parses (SIdent x) (Tree ''ident'' [Token x])"
| dot: "parses e t \<Longrightarrow> access_chain e \<Longrightarrow> parses (SDot e x) (Tree ''member_dot'' [t, Token x])"
| index: "parses e t \<Longrightarrow> access_chain e \<Longrightarrow> parses i u \<Longrightarrow>
    parses (SIndex e i) (Tree ''member_index'' [t, u])"
| call: "parses e t \<Longrightarrow> access_chain e \<Longrightarrow> parses a u \<Longrightarrow>
    parses (SMethod e m a) (Tree ''member_dot_arg'' [t, Token m, Tree ''exprlist'' [u]])"
| has: "parses e t \<Longrightarrow> parses (SHas e) (Tree ''ident_arg'' [Token ''has'', Tree ''exprlist'' [t]])"
| paren: "parses e t \<Longrightarrow> parses (SParen e) (Tree ''paren_expr'' [t])"
| list: "list_all2 parses es ts \<Longrightarrow> es \<noteq> [] \<Longrightarrow>
    parses (SList es) (Tree ''list_lit'' [Tree ''exprlist'' ts])"
| negation: "parses e t \<Longrightarrow> parses (SNot e) (Tree ''unary'' [Tree ''unary_not'' [], t])"
| minus: "parses e t \<Longrightarrow> parses (SNeg e) (Tree ''unary'' [Tree ''unary_neg'' [], t])"
| compare: "parses e t \<Longrightarrow> parses f u \<Longrightarrow> relation_rule p = Some d \<Longrightarrow>
    parses (SCompare e p f) (Tree ''relation'' [Tree d [t], u])"
| logical: "parses e t \<Longrightarrow> parses f u \<Longrightarrow>
    parses (SLogical e p f) (Tree (logical_rule p) [t, u])"

fun denote :: "runtime \<Rightarrow> surface \<Rightarrow> pyexc + item" where
  "denote rt (SLit v) = rbind (to_constant_node rt v) (\<lambda>n. Inr (INode n))"
| "denote rt (SIdent x) = Inr (INode (PropertyAccessNode [x] None))"
| "denote rt (SDot e x) = rbind (denote rt e) (\<lambda>i. rbind (item_path i)
     (\<lambda>p. Inr (INode (PropertyAccessNode (p @ [x]) None))))"
| "denote rt (SIndex e i) = rbind (denote rt e) (\<lambda>l. rbind (denote rt i) (\<lambda>r.
     rbind (item_path l) (\<lambda>p. rbind (index_str rt r)
       (\<lambda>x. Inr (INode (PropertyAccessNode (p @ [x]) None))))))"
| "denote rt (SMethod e m a) = rbind (denote rt e) (\<lambda>f. rbind (denote rt a) (\<lambda>x.
     if py_lower m \<in> set string_methods then
       rbind (node_field f) (\<lambda>n. rbind (comparison_op_of m) (\<lambda>p.
         Inr (INode (ComparisonNode (Some n) p (Some (node_or_any x))))))
     else Inl NotImplementedError))"
| "denote rt (SHas e) = rbind (denote rt e) (\<lambda>i. rbind (node_field i)
     (\<lambda>n. Inr (INode (UnaryNode UHas (Some (INode n))))))"
| "denote rt (SParen e) = rbind (denote rt e) (\<lambda>i. rbind (node_field i)
     (\<lambda>n. Inr (INode (ParenthesisNode n))))"
| "denote rt (SList es) = rbind (traverse (denote rt) es) (\<lambda>is. Inr (IList is))"
| "denote rt (SNot e) = rbind (denote rt e) (\<lambda>i. Inr (INode (UnaryNode UNot (Some i))))"
| "denote rt (SNeg e) = rbind (denote rt e) (\<lambda>i. Inr (INode (UnaryNode UNeg (Some i))))"
| "denote rt (SCompare e p f) = rbind (denote rt e) (\<lambda>i. rbind (node_field i) (\<lambda>n.
     rbind (denote rt f) (\<lambda>x. Inr (INode (ComparisonNode (Some n) p (Some x))))))"
| "denote rt (SLogical e p f) = rbind (denote rt e) (\<lambda>i. rbind (denote rt f) (\<lambda>j.
     rbind (node_field i) (\<lambda>l. rbind (node_field j) (\<lambda>r. Inr (INode (LogicalNode l p r))))))"

text \<open>
  What visiting a subtree does to the stacks: it pushes the meaning, or fails with its error;
  it never empties the member stack, and after an access chain that stack's top is the chain.
\<close>

definition lands :: "surface \<Rightarrow> pyexc + item \<Rightarrow> conv \<Rightarrow> pyexc + conv \<Rightarrow> bool" where
  "lands e d c r = (case d of Inl x \<Rightarrow> r = Inl x
     | Inr i \<Rightarrow> (\<exists>ms. r = Inr \<lparr>stack = i # stack c, member_access_stack = ms\<rparr>
         \<and> (member_access_stack c \<noteq> [] \<longrightarrow> ms \<noteq> [])
         \<and> (access_chain e \<longrightarrow> (\<exists>p ms'. i = INode (PropertyAccessNode p None)
              \<and> ms = PropertyAccessNode p None # ms'))))"

text \<open>Rules whose visitor method only raises.\<close>

definition unsupported_rules :: "string list" where
  "unsupported_rules = [''member_object'', ''dot_ident_arg'', ''dot_ident'', ''map_lit'', ''fieldinits'', ''mapinits'']"

fun uses_rule :: "string list \<Rightarrow> lark \<Rightarrow> bool" where
  "uses_rule rs (Token v) = False"
| "uses_rule rs (Tree d ts) = (d \<in> set rs \<or> list_ex (uses_rule rs) ts)"

section \<open>The stack discipline\<close>


lemma dispatch:
  "call_userfunc rt ''expr'' ts c = visit_expr rt ts c"
  "call_userfunc rt ''conditionalor'' ts c = logical_visit LOr ts c"
  "call_userfunc rt ''conditionaland'' ts c = logical_visit LAnd ts c"
  "call_userfunc rt ''relation'' ts c = visit_relation ts c"
  "call_userfunc rt ''addition'' ts c = arith_visit ts c"
  "call_userfunc rt ''multiplication'' ts c = arith_visit ts c"
  "call_userfunc rt ''unary'' ts c = visit_unary ts c"
  "call_userfunc rt ''unary_not'' ts c = visit_unary_not c"
  "call_userfunc rt ''unary_neg'' ts c = visit_unary_neg c"
  "call_userfunc rt ''member'' ts c = Inr c"
  "call_userfunc rt ''primary'' ts c = Inr c"
  "call_userfunc rt ''member_dot'' ts c = visit_member_dot ts c"
  "call_userfunc rt ''member_dot_arg'' ts c = visit_member_dot_arg ts c"
  "call_userfunc rt ''member_index'' ts c = visit_member_index rt c"
  "call_userfunc rt ''ident_arg'' ts c = visit_ident_arg ts c"
  "call_userfunc rt ''ident'' ts c = visit_ident ts c"
  "call_userfunc rt ''paren_expr'' ts c = visit_paren_expr c"
  "call_userfunc rt ''list_lit'' ts c = visit_list_lit c"
  "call_userfunc rt ''exprlist'' ts c = visit_exprlist ts c"
  "call_userfunc rt ''literal'' ts c = visit_literal rt ts c"
  unfolding call_userfunc_def
  by (simp_all add: visit_conditionalor_def visit_conditionaland_def visit_addition_def
      visit_multiplication_def)

lemma dispatch_relation: "relation_rule p = Some d \<Longrightarrow> call_userfunc rt d ts c = visit_relation_op p c"
  by (cases p) (auto simp: call_userfunc_def visit_relation_lt_def visit_relation_le_def
      visit_relation_gt_def visit_relation_ge_def visit_relation_eq_def visit_relation_ne_def
      visit_relation_in_def)

lemma dispatch_logical: "call_userfunc rt (logical_rule p) ts c = logical_visit p ts c"
  by (cases p) (simp_all add: dispatch)

lemma level_visit: "d \<in> set level_rules \<Longrightarrow> call_userfunc rt d [t] c = Inr c"
  unfolding level_rules_def
  by (simp, elim disjE; simp add: dispatch visit_expr_def logical_visit_def visit_relation_def
      arith_visit_def visit_unary_def)

lemma visit_children2:
  "visit_children rt [t] c = visit rt t c"
  "visit_children rt (Token x # ts) c = visit_children rt ts c"
  by (simp_all add: rbind_def split: sum.splits)

lemma landsI [intro]:
  "r = Inl x \<Longrightarrow> d = Inl x \<Longrightarrow> lands e d c r"
  by (simp add: lands_def)

lemma lands_cases:
  assumes "lands e d c r"
  obtains (err) x where "d = Inl x" and "r = Inl x"
    | (ok) i ms where "d = Inr i" and "r = Inr \<lparr>stack = i # stack c, member_access_stack = ms\<rparr>"
        and "member_access_stack c \<noteq> [] \<Longrightarrow> ms \<noteq> []"
        and "access_chain e \<Longrightarrow> \<exists>p ms'. i = INode (PropertyAccessNode p None) \<and> ms = PropertyAccessNode p None # ms'"
  using assms by (cases d) (auto simp: lands_def)

lemma pop_mk [simp]: "pop \<lparr>stack = i # s, member_access_stack = m\<rparr> = Inr (i, \<lparr>stack = s, member_access_stack = m\<rparr>)"
  by (simp add: pop_def)

lemma push_mk [simp]: "push i \<lparr>stack = s, member_access_stack = m\<rparr> = \<lparr>stack = i # s, member_access_stack = m\<rparr>"
  by (simp add: push_def)

lemma lands_list:
  assumes "list_all2 (\<lambda>e t. \<forall>c. lands e (denote rt e) c (visit rt t c)) es ts"
  shows "(case traverse (denote rt) es of Inl x \<Rightarrow> visit_children rt ts c = Inl x
     | Inr is \<Rightarrow> \<exists>ms. visit_children rt ts c = Inr \<lparr>stack = rev is @ stack c, member_access_stack = ms\<rparr>
         \<and> (member_access_stack c \<noteq> [] \<longrightarrow> ms \<noteq> []))"
  using assms
proof (induction es ts arbitrary: c rule: list_all2_induct)
  case Nil
  show ?case by (cases c) simp
next
  case (Cons e es t ts)
  from Cons.hyps(1) have "lands e (denote rt e) c (visit rt t c)" by blast
  then show ?case
  proof (cases rule: lands_cases)
    case (err x)
    then show ?thesis by simp
  next
    case (ok i ms)
    with Cons.IH [of "\<lparr>stack = i # stack c, member_access_stack = ms\<rparr>"]
    show ?thesis by (auto split: sum.splits)
  qed
qed

lemma pop_n_rev:
  "pop_n (length is) \<lparr>stack = is @ s, member_access_stack = ms\<rparr> = Inr (is, \<lparr>stack = s, member_access_stack = ms\<rparr>)"
  by (induction "is") auto

lemma visit_lands: "parses e t \<Longrightarrow> lands e (denote rt e) c (visit rt t c)"
proof (induction arbitrary: c rule: parses.induct)
  case (level e t d)
  from level.IH [of c] show ?case
    by (cases rule: lands_cases) (auto simp: visit_children2 level_visit[OF level.hyps(2)] lands_def)
next
  case (lit v)
  show ?case
    by (cases c; cases "to_constant_node rt v")
      (auto simp: lands_def Let_def visit_children2 dispatch visit_literal_def child_token_def push_def)
next
  case (ident x)
  show ?case
    by (cases c) (auto simp: Let_def lands_def Let_def visit_children2 dispatch visit_ident_def child_token_def push_def)
next
  case (dot e t x)
  from dot.IH [of c] show ?case
  proof (cases rule: lands_cases)
    case (ok i ms)
    with dot.hyps(2) obtain p ms' where "i = INode (PropertyAccessNode p None)"
      and "ms = PropertyAccessNode p None # ms'" by blast
    with ok show ?thesis
      by (auto simp: lands_def Let_def visit_children2 dispatch visit_member_dot_def child_token_def)
  qed (auto simp: lands_def Let_def visit_children2)
next
  case (index e t i u)
  from index.IH(1) [of c] show ?case
  proof (cases rule: lands_cases)
    case (ok l ms)
    from index.IH(2) [of "\<lparr>stack = l # stack c, member_access_stack = ms\<rparr>"] show ?thesis
    proof (cases rule: lands_cases)
      case ok': (ok r ms')
      with ok show ?thesis
        by (cases "index_str rt r"; cases "item_path l")
          (auto simp: lands_def Let_def visit_children2 dispatch visit_member_index_def)
    qed (use ok in \<open>auto simp: lands_def Let_def visit_children2\<close>)
  qed (auto simp: lands_def)
next
  case (call e t a u m)
  from call.IH(1) [of c] show ?case
  proof (cases rule: lands_cases)
    case (ok f ms)
    with call.hyps(2) have ne: "ms \<noteq> []" by blast
    from call.IH(2) [of "\<lparr>stack = f # stack c, member_access_stack = ms\<rparr>"] show ?thesis
    proof (cases rule: lands_cases)
      case ok': (ok x ms')
      with ne have "ms' \<noteq> []" by simp
      with ok ok' show ?thesis
        by (cases "node_field f"; cases "comparison_op_of m")
          (auto simp: lands_def Let_def visit_children2 dispatch visit_member_dot_arg_def visit_exprlist_def
            child_token_def)
    qed (use ok in \<open>auto simp: lands_def Let_def visit_children2\<close>)
  qed (auto simp: lands_def)
next
  case (has e t)
  from has.IH [of c] show ?case
  proof (cases rule: lands_cases)
    case (ok i ms)
    then show ?thesis
      by (cases "node_field i")
        (auto simp: lands_def Let_def visit_children2 dispatch visit_ident_arg_def visit_exprlist_def child_token_def)
  qed (auto simp: lands_def Let_def visit_children2)
next
  case (paren e t)
  from paren.IH [of c] show ?case
  proof (cases rule: lands_cases)
    case (ok i ms)
    then show ?thesis
      by (cases "node_field i") (auto simp: lands_def Let_def visit_children2 dispatch visit_paren_expr_def pop_node_def)
  qed (auto simp: lands_def Let_def visit_children2)
next
  case (list es ts)
  have children: "list_all2 (\<lambda>e t. \<forall>c. lands e (denote rt e) c (visit rt t c)) es ts"
    using list.IH by (auto elim: list_all2_mono)
  show ?case
  proof (cases "traverse (denote rt) es")
    case (Inl x)
    with lands_list [OF children, of c] show ?thesis by (simp add: lands_def)
  next
    case (Inr "is")
    have "length (rev is) = length ts"
      using traverse_length [OF Inr] list_all2_lengthD [OF list.IH] by simp
    from lands_list [OF children, of c] Inr obtain ms where
      v: "visit_children rt ts c = Inr \<lparr>stack = rev is @ stack c, member_access_stack = ms\<rparr>"
      and ne: "member_access_stack c \<noteq> [] \<longrightarrow> ms \<noteq> []" by auto
    have "pop_n (length ts) \<lparr>stack = rev is @ stack c, member_access_stack = ms\<rparr>
        = Inr (rev is, \<lparr>stack = stack c, member_access_stack = ms\<rparr>)"
      using pop_n_rev [of "rev is" "stack c" ms] \<open>length (rev is) = length ts\<close> by simp
    with v have "visit rt (Tree ''list_lit'' [Tree ''exprlist'' ts]) c
        = Inr \<lparr>stack = IList is # stack c, member_access_stack = ms\<rparr>"
      by (simp add: dispatch visit_list_lit_def visit_exprlist_def)
    with Inr ne show ?thesis by (auto simp: lands_def)
  qed
next
  case (negation e t)
  from negation.IH [of "push (INode (UnaryNode UNot None)) c"] show ?case
    by (cases rule: lands_cases)
      (auto simp: lands_def Let_def visit_children2 dispatch visit_unary_def visit_unary_not_def)
next
  case (minus e t)
  from minus.IH [of "push (INode (UnaryNode UNeg None)) c"] show ?case
    by (cases rule: lands_cases)
      (auto simp: lands_def Let_def visit_children2 dispatch visit_unary_def visit_unary_neg_def)
next
  case (compare e t f u p d)
  from compare.IH(1) [of c] show ?case
  proof (cases rule: lands_cases)
    case (ok i ms)
    show ?thesis
    proof (cases "node_field i")
      case (Inl x)
      with ok compare.hyps(3) show ?thesis
        by (auto simp: lands_def Let_def visit_children2 dispatch dispatch_relation visit_relation_op_def pop_node_def)
    next
      case (Inr n)
      from compare.IH(2) [of "\<lparr>stack = INode (ComparisonNode (Some n) p None) # stack c, member_access_stack = ms\<rparr>"]
      show ?thesis
        using ok Inr compare.hyps(3)
        by (cases rule: lands_cases)
          (auto simp: lands_def Let_def visit_children2 dispatch dispatch_relation visit_relation_op_def
            visit_relation_def pop_node_def)
    qed
  qed (auto simp: lands_def Let_def visit_children2)
next
  case (logical e t f u p)
  from logical.IH(1) [of c] show ?case
  proof (cases rule: lands_cases)
    case (ok i ms)
    from logical.IH(2) [of "\<lparr>stack = i # stack c, member_access_stack = ms\<rparr>"] show ?thesis
    proof (cases rule: lands_cases)
      case ok': (ok j ms')
      with ok show ?thesis
        by (cases "node_field i"; cases "node_field j")
          (auto simp: lands_def Let_def visit_children2 dispatch_logical logical_visit_def)
    qed (use ok in \<open>auto simp: lands_def Let_def visit_children2\<close>)
  qed (auto simp: lands_def)
qed
lemma parsed_root:
  assumes "parses e t"
  shows "rbind (visit rt t conv_init) (\<lambda>c. if stack c = [] then Inl IndexError else Inr (last (stack c)))
     = denote rt e"
  using visit_lands [OF assms, of rt conv_init]
  by (cases rule: lands_cases) (auto simp: conv_init_def)

lemma convert_to_ast_denote:
  assumes "rt_parse rt cel = Inr t" and "parses e t"
  shows "convert_to_ast rt cel = denote rt e"
  using parsed_root [OF assms(2), of rt] assms(1) by (simp add: convert_to_ast_def)

lemma call_unsupported: "d \<in> set unsupported_rules \<Longrightarrow> call_userfunc rt d ts c = Inl NotImplementedError"
  unfolding unsupported_rules_def call_userfunc_def
  by (simp, elim disjE; simp add: visit_member_object_def visit_dot_ident_arg_def visit_dot_ident_def
      visit_map_lit_def visit_fieldinits_def visit_mapinits_def)

lemma visit_unsupported:
  "uses_rule unsupported_rules t \<Longrightarrow> \<not> is_ok (visit rt t c)"
  "list_ex (uses_rule unsupported_rules) ts \<Longrightarrow> \<not> is_ok (visit_children rt ts c)"
proof (induction rt t c and rt ts c rule: visit_visit_children.induct)
  case (2 rt d ts c)
  show ?case
  proof (cases "visit_children rt ts c")
    case (Inr c')
    with 2 show ?thesis by (auto simp: call_unsupported is_ok_iff)
  qed (simp add: is_ok_iff)
next
  case (4 rt t ts c)
  show ?case
  proof (cases "visit rt t c")
    case (Inr c')
    with 4 show ?thesis by (auto simp: is_ok_iff)
  qed (simp add: is_ok_iff)
qed auto

section \<open>Properties\<close>

definition sample_runtime :: "lark \<Rightarrow> runtime" where
  "sample_runtime t = \<lparr>rt_parse = (\<lambda>_. Inr t), rt_dateutil = (\<lambda>_. None), rt_float = (\<lambda>_. None), rt_repr = (\<lambda>_. [])\<rparr>"

text \<open>
  C5: the two-stack visitor is correct.  On every parse tree of the supported language, however
  deep and through any number of precedence levels, \<open>convert_to_ast\<close> returns the meaning the
  expression has by structural recursion, or fails with the same exception.
\<close>

theorem converter_correct:
  assumes "rt_parse rt cel = Inr t" and "parses e t"
  shows "convert_to_ast rt cel = denote rt e"
  using parsed_root [OF assms(2), of rt] assms(1) by (simp add: convert_to_ast_def)

text \<open>A witness: \<open>labels.env == "prod" && !has(x)\<close>.\<close>

theorem converter_correct_witness:
  "\<exists>rt cel e. convert_to_ast rt cel = denote rt e \<and>
     denote rt e = Inr (INode (LogicalNode
       (ComparisonNode (Some (PropertyAccessNode [''labels'', ''env''] None)) EQ
          (Some (INode (ConstantNode (PyStr ''prod'')))))
       LAnd (UnaryNode UNot (Some (INode (UnaryNode UHas (Some (INode (PropertyAccessNode [''x''] None)))))))))"
proof -
  let ?l = "Tree ''member_dot'' [Tree ''ident'' [Token ''labels''], Token ''env'']"
  let ?q = "CHR 0x22 # ''prod'' @ [CHR 0x22]"
  let ?t = "Tree ''conditionaland'' [Tree ''relation'' [Tree ''relation_eq'' [?l], Tree ''literal'' [Token ?q]],
     Tree ''unary'' [Tree ''unary_not'' [], Tree ''ident_arg'' [Token ''has'', Tree ''exprlist'' [Tree ''ident'' [Token ''x'']]]]]"
  let ?e = "SLogical (SCompare (SDot (SIdent ''labels'') ''env'') EQ (SLit ?q)) LAnd (SNot (SHas (SIdent ''x'')))"
  let ?rt = "sample_runtime ?t"
  have p: "parses ?e ?t"
    by (rule parses.logical [where p = LAnd, simplified])
      (rule parses.compare parses.dot parses.ident parses.lit parses.negation parses.has | simp)+
  have "convert_to_ast ?rt ''q'' = denote ?rt ?e"
    by (rule converter_correct [OF _ p]) (simp add: sample_runtime_def)
  moreover have "denote ?rt ?e = Inr (INode (LogicalNode
       (ComparisonNode (Some (PropertyAccessNode [''labels'', ''env''] None)) EQ
          (Some (INode (ConstantNode (PyStr ''prod'')))))
       LAnd (UnaryNode UNot (Some (INode (UnaryNode UHas (Some (INode (PropertyAccessNode [''x''] None)))))))))"
    by code_simp
  ultimately show ?thesis by blast
qed

text \<open>
  An expression that uses a map or message literal, a leading-dot name or field
  initialisers, anywhere, is never converted.
\<close>

theorem converter_rejects_unsupported:
  assumes "rt_parse rt cel = Inr t" and "uses_rule unsupported_rules t"
  shows "\<not> is_ok (convert_to_ast rt cel)"
  using visit_unsupported(1) [OF assms(2), of rt conv_init] assms(1)
  by (auto simp: convert_to_ast_def is_ok_iff)

theorem converter_rejects_unsupported_witness:
  "\<not> is_ok (convert_to_ast (sample_runtime (Tree ''expr'' [Tree ''map_lit'' []])) ''{}'')"
  by (rule converter_rejects_unsupported [of _ _ "Tree ''expr'' [Tree ''map_lit'' []]"])
    (simp_all add: sample_runtime_def unsupported_rules_def)

end
