(* ===== verification/Cel_Providers.thy ===== *)
theory Cel_Providers
  imports Cel_Sql Cel_Converter
begin

text \<open>
  The provider classes as records (\<open>CelToSqliteProvider\<close>, \<open>CelToMySqlProvider\<close>,
  \<open>CelToPostgreSqlProvider\<close>), the choice of one by dialect name, the ordering expressions and the
  driver \<open>convert_to_sql_str_v2\<close> with its classification of errors.
\<close>

section \<open>Array columns\<close>

definition sqlite_methods :: "(string \<Rightarrow> string) \<Rightarrow> sql_methods" where
  "sqlite_methods lit =
     \<lparr>json_extract_as_text = sqlite_json_extract_as_text, json_contains_path = sqlite_json_contains_path,
      sql_cast = sqlite_cast, visit_constant = sqlite_constant lit, visit_contains = sqlite_contains lit,
      visit_starts_with = sqlite_starts_with lit, visit_ends_with = sqlite_ends_with lit\<rparr>"

definition mysql_methods :: "(string \<Rightarrow> string) \<Rightarrow> sql_methods" where
  "mysql_methods lit =
     \<lparr>json_extract_as_text = mysql_json_extract_as_text, json_contains_path = mysql_json_contains_path,
      sql_cast = mysql_cast False, visit_constant = mysql_constant lit, visit_contains = mysql_contains lit,
      visit_starts_with = mysql_starts_with lit, visit_ends_with = mysql_ends_with lit\<rparr>"

definition postgres_methods :: "(string \<Rightarrow> string) \<Rightarrow> sql_methods" where
  "postgres_methods lit =
     \<lparr>json_extract_as_text = postgres_json_extract_as_text, json_contains_path = postgres_json_contains_path,
      sql_cast = postgres_cast, visit_constant = postgres_constant lit, visit_contains = postgres_contains lit,
      visit_starts_with = postgres_starts_with lit, visit_ends_with = postgres_ends_with lit\<rparr>"

text \<open>The two checks every \<open>_visit_equal_for_array_datatype\<close> starts with.\<close>

definition array_operands :: "sql_methods \<Rightarrow> node \<Rightarrow> item option \<Rightarrow> (string \<Rightarrow> pyval \<Rightarrow> pyexc + string) \<Rightarrow> pyexc + string" where
  "array_operands d f s body =
     (if \<not> is_property_access f then Inl NotImplementedError
      else case s of
        Some (INode (ConstantNode v)) \<Rightarrow> rbind (visit_property_access_node d f) (\<lambda>prop. body prop v)
      | _ \<Rightarrow> Inl NotImplementedError)"

definition sqlite_array_null :: "string \<Rightarrow> string" where
  "sqlite_array_null prop = ''('' @ prop @ '' IS NULL OR '' @ prop @ '' = '' @ quoted ''[]'' @ '')''"

definition sqlite_array_filter :: "string \<Rightarrow> string \<Rightarrow> string" where
  "sqlite_array_filter prop condition = ''(SELECT 1 FROM json_each('' @ prop @ '') as json_array WHERE '' @ condition @ '')''"

definition sqlite_equal_array :: "(string \<Rightarrow> string) \<Rightarrow> node \<Rightarrow> item option \<Rightarrow> pyexc + string" where
  "sqlite_equal_array lit f s =
     array_operands (sqlite_methods lit) f s (\<lambda>prop v.
       if v = PyNone then Inr (sqlite_array_null prop)
       else rbind (sqlite_constant lit v None) (\<lambda>c.
         Inr (sqlite_array_filter prop (''json_array.value = '' @ quoted (unquoted c)))))"

definition strip_quotes :: "string \<Rightarrow> string" where
  "strip_quotes c = (if prefixed sq c \<and> suffixed sq c then unquoted c else c)"

definition json_list_literal :: "string \<Rightarrow> string" where
  "json_list_literal c = quoted (''['' @ dq @ strip_quotes c @ dq @ '']'')"

definition mysql_array_null :: "string \<Rightarrow> string" where
  "mysql_array_null prop = ''(JSON_CONTAINS('' @ prop @ '', '' @ quoted ''[null]'' @ '') OR '' @ prop
     @ '' IS NULL OR JSON_LENGTH('' @ prop @ '') = 0)''"

definition mysql_array_item :: "string \<Rightarrow> string \<Rightarrow> string" where
  "mysql_array_item prop c = ''JSON_CONTAINS('' @ prop @ '', '' @ json_list_literal c @ '')''"

definition mysql_equal_array :: "(string \<Rightarrow> string) \<Rightarrow> node \<Rightarrow> item option \<Rightarrow> pyexc + string" where
  "mysql_equal_array lit f s =
     array_operands (mysql_methods lit) f s (\<lambda>prop v. rbind (mysql_constant lit v None) (\<lambda>c.
       Inr (if c = ''NULL'' then mysql_array_null prop else mysql_array_item prop c)))"

definition postgres_array_null :: "string \<Rightarrow> string" where
  "postgres_array_null prop = ''('' @ prop @ ''::jsonb @> '' @ quoted ''[null]'' @ '' OR '' @ prop
     @ '' IS NULL OR jsonb_array_length('' @ prop @ ''::jsonb) = 0)''"

definition postgres_array_item :: "string \<Rightarrow> string \<Rightarrow> string" where
  "postgres_array_item prop c = prop @ ''::jsonb @> '' @ json_list_literal c"

definition postgres_equal_array :: "(string \<Rightarrow> string) \<Rightarrow> node \<Rightarrow> item option \<Rightarrow> pyexc + string" where
  "postgres_equal_array lit f s =
     array_operands (postgres_methods lit) f s (\<lambda>prop v. rbind (postgres_constant lit v None) (\<lambda>c.
       Inr (if c = ''NULL'' then postgres_array_null prop else postgres_array_item prop c)))"

text \<open>\<open>next((True for item in array if item.value is None), False)\<close>\<close>

fun any_none :: "item option list \<Rightarrow> pyexc + bool" where
  "any_none [] = Inr False"
| "any_none (i # is) = rbind (arg_value i) (\<lambda>v. if v = PyNone then Inr True else any_none is)"

definition sqlite_in_array :: "(string \<Rightarrow> string) \<Rightarrow> node \<Rightarrow> item option list \<Rightarrow> pyexc + string" where
  "sqlite_in_array lit f array =
     rbind (visit_in (sqlite_methods lit) (Some (PropertyAccessNode [''json_array'', ''value''] None))
         (Inl NotImplementedError) array) (\<lambda>in_operation.
     rbind (visit_property_access_node (sqlite_methods lit) f) (\<lambda>column.
     rbind (any_none array) (\<lambda>is_none_in_list.
       let array_filter = sqlite_array_filter column in_operation
       in Inr (if is_none_in_list
          then ''('' @ column @ '' = '' @ quoted ''[]'' @ '' OR '' @ column @ '' IS NULL OR '' @ array_filter @ '')''
          else array_filter))))"

text \<open>
  MySQL and PostgreSQL build the disjunction of the comparisons \<open>array == item\<close> and hand it to
  \<open>_build_sql_filter\<close>; each comparison is answered by \<open>eq\<close>, the class's
  \<open>_visit_equal_for_array_datatype\<close>.  That this is what the builder does is
  \<open>in_array_is_disjunction\<close> below.
\<close>

definition in_array_disjunction ::
  "(node \<Rightarrow> item option \<Rightarrow> pyexc + string) \<Rightarrow> node \<Rightarrow> item option list \<Rightarrow> pyexc + string" where
  "in_array_disjunction eq f array =
     rbind (traverse (\<lambda>i. non_empty (eq f (map_option node_or_any i))) array) or_chain"

definition array_comparison :: "node \<Rightarrow> item option \<Rightarrow> node" where
  "array_comparison f i = ComparisonNode (Some f) EQ (map_option node_or_any i)"

definition array_disjunction :: "node \<Rightarrow> item option list \<Rightarrow> node option" where
  "array_disjunction f array = (case map (array_comparison f) array of [] \<Rightarrow> None
     | n # ns \<Rightarrow> Some (foldl (\<lambda>l r. LogicalNode l LOr r) n ns))"

section \<open>Field and ordering expressions\<close>

definition field_expressions :: "(string \<Rightarrow> string list \<Rightarrow> string) \<Rightarrow> field_mapping list \<Rightarrow> string list" where
  "field_expressions json fs =
     map (\<lambda>f. case f of JsonFieldMapping j p \<Rightarrow> json j p | SimpleFieldMapping c \<Rightarrow> c) fs"

definition one_or_coalesce :: "string list \<Rightarrow> pyexc + string" where
  "one_or_coalesce xs = (case xs of [] \<Rightarrow> Inl IndexError | [x] \<Rightarrow> Inr x | _ \<Rightarrow> Inr (coalesce xs))"

definition base_field_expression ::
  "(string \<Rightarrow> string list \<Rightarrow> string) \<Rightarrow> property_metadata_info \<Rightarrow> pyexc + string" where
  "base_field_expression json md = one_or_coalesce (field_expressions json (md_field_mappings md))"

definition is_json_mapping :: "field_mapping \<Rightarrow> bool" where
  "is_json_mapping f = (case f of JsonFieldMapping j p \<Rightarrow> True | _ \<Rightarrow> False)"

definition postgres_field_expression :: "property_metadata_info \<Rightarrow> pyexc + string" where
  "postgres_field_expression md =
     rbind (traverse (\<lambda>f. case f of
         JsonFieldMapping j p \<Rightarrow>
           (let e = postgres_json_extract_as_text j p in
            if md_data_type md \<noteq> Some DString \<and> md_data_type md \<noteq> None
            then postgres_cast e (md_data_type md) else Inr e)
       | SimpleFieldMapping c \<Rightarrow> Inr c) (md_field_mappings md))
     (\<lambda>es. one_or_coalesce
        (if list_ex is_json_mapping (md_field_mappings md) \<and> length es > 1
         then map (\<lambda>(e, f). if is_json_mapping f then e else ''CAST('' @ e @ '' AS TEXT)'')
                (zip es (md_field_mappings md))
         else es))"

definition mysql_order_by_field :: "property_metadata_info \<Rightarrow> pyexc + string" where
  "mysql_order_by_field md = base_field_expression mysql_json_extract md"

section \<open>The provider classes\<close>

definition sqlite_dialect :: "(string \<Rightarrow> string) \<Rightarrow> sql_dialect" where
  "sqlite_dialect lit = sql_methods.extend (sqlite_methods lit)
     (sql_dialect.fields (sqlite_equal_array lit) (sqlite_in_array lit)
       (base_field_expression sqlite_json_extract_as_text) (base_field_expression sqlite_json_extract_as_text))"

definition mysql_dialect :: "(string \<Rightarrow> string) \<Rightarrow> sql_dialect" where
  "mysql_dialect lit = sql_methods.extend (mysql_methods lit)
     (sql_dialect.fields (mysql_equal_array lit) (in_array_disjunction (mysql_equal_array lit))
       (base_field_expression mysql_json_extract_as_text) mysql_order_by_field)"

definition postgres_dialect :: "(string \<Rightarrow> string) \<Rightarrow> sql_dialect" where
  "postgres_dialect lit = sql_methods.extend (postgres_methods lit)
     (sql_dialect.fields (postgres_equal_array lit) (in_array_disjunction (postgres_equal_array lit))
       postgres_field_expression postgres_field_expression)"

definition get_cel_to_sql_provider_for_dialect :: "(string \<Rightarrow> string) \<Rightarrow> string \<Rightarrow> pyexc + sql_dialect" where
  "get_cel_to_sql_provider_for_dialect lit dialect_name =
     (if dialect_name = ''sqlite'' then Inr (sqlite_dialect lit)
      else if dialect_name = ''mysql'' then Inr (mysql_dialect lit)
      else if dialect_name = ''postgresql'' then Inr (postgres_dialect lit)
      else Inl ValueError)"

section \<open>The driver\<close>

datatype cel_diagnostic_code = SYNTAX_ERROR | EXPECTED_BOOLEAN | UNKNOWN_FIELD | UNSUPPORTED_EXPRESSION

text \<open>\<open>CelToSqlException\<close>, without its message.\<close>

record cel_to_sql_exception =
  exc_code :: cel_diagnostic_code
  exc_line :: "nat option"
  exc_column :: "nat option"
  exc_end_line :: "nat option"
  exc_end_column :: "nat option"

datatype sql_failure = CelToSqlException cel_to_sql_exception | Uncaught pyexc

definition cel_to_sql_exception_init ::
  "cel_diagnostic_code \<Rightarrow> nat option \<Rightarrow> nat option \<Rightarrow> nat option \<Rightarrow> nat option \<Rightarrow> cel_to_sql_exception" where
  "cel_to_sql_exception_init code line column end_line end_column =
     \<lparr>exc_code = code, exc_line = line, exc_column = column,
      exc_end_line = (if end_line \<noteq> None then end_line else line),
      exc_end_column = (if end_column \<noteq> None then end_column
        else case column of Some c \<Rightarrow> if c \<noteq> 0 then Some (c + 1) else None | None \<Rightarrow> None)\<rparr>"

definition rejected :: "cel_diagnostic_code \<Rightarrow> sql_failure" where
  "rejected code = CelToSqlException (cel_to_sql_exception_init code None None None None)"

definition whole_expression_span :: "string \<Rightarrow> cel_diagnostic_code \<Rightarrow> cel_to_sql_exception" where
  "whole_expression_span cel code =
     (let lines = (if py_splitlines cel = [] then [[]] else py_splitlines cel) in
      cel_to_sql_exception_init code (Some 1) (Some 1) (Some (length lines)) (Some (length (last lines) + 1)))"

fun is_logical_item :: "item \<Rightarrow> bool" where
  "is_logical_item (INode (LogicalNode l p r)) = True"
| "is_logical_item _ = False"

definition parse_stage :: "runtime \<Rightarrow> string \<Rightarrow> sql_failure + item" where
  "parse_stage rt cel =
     (case convert_to_ast rt cel of
        Inr i \<Rightarrow> Inr i
      | Inl (CELParseError line column) \<Rightarrow>
          Inl (CelToSqlException (cel_to_sql_exception_init SYNTAX_ERROR line column None None))
      | Inl _ \<Rightarrow> Inl (rejected UNSUPPORTED_EXPRESSION))"

definition boolean_stage :: "string \<Rightarrow> item \<Rightarrow> sql_failure + node" where
  "boolean_stage cel i =
     (case i of
        INode n \<Rightarrow> if is_boolean_filter_node n then Inr n
          else Inl (if is_logical_item i then rejected EXPECTED_BOOLEAN
                    else CelToSqlException (whole_expression_span cel EXPECTED_BOOLEAN))
      | _ \<Rightarrow> Inl (CelToSqlException (whole_expression_span cel EXPECTED_BOOLEAN)))"

definition mapping_stage ::
  "properties_metadata \<Rightarrow> node \<Rightarrow> sql_failure + (node option \<times> property_metadata_info list)" where
  "mapping_stage m n =
     (case map_props_in_ast m n of
        Inr r \<Rightarrow> Inr r
      | Inl (PropertiesMappingException x) \<Rightarrow> Inl (rejected UNKNOWN_FIELD)
      | Inl e \<Rightarrow> Inl (Uncaught e))"

definition building_stage :: "sql_dialect \<Rightarrow> properties_metadata \<Rightarrow> node \<Rightarrow> sql_failure + string" where
  "building_stage d m n =
     (case build_sql_filter d m n of
        Inr s \<Rightarrow> Inr s
      | Inl NotImplementedError \<Rightarrow> Inl (rejected UNSUPPORTED_EXPRESSION)
      | Inl e \<Rightarrow> Inl (Uncaught e))"

definition convert_to_sql_str_v2 ::
  "runtime \<Rightarrow> sql_dialect \<Rightarrow> properties_metadata \<Rightarrow> string
     \<Rightarrow> sql_failure + (string \<times> property_metadata_info list)" where
  "convert_to_sql_str_v2 rt d m cel =
     (if cel = [] then Inr ([], [])
      else rbind (parse_stage rt cel) (\<lambda>i.
           rbind (boolean_stage cel i) (\<lambda>n.
           rbind (mapping_stage m n) (\<lambda>(r, involved_fields).
             case r of None \<Rightarrow> Inr ([], [])
             | Some n' \<Rightarrow> rbind (building_stage d m n') (\<lambda>sql. Inr (sql, involved_fields))))))"

definition convert_to_sql_str ::
  "runtime \<Rightarrow> sql_dialect \<Rightarrow> properties_metadata \<Rightarrow> string \<Rightarrow> sql_failure + string" where
  "convert_to_sql_str rt d m cel = rbind (convert_to_sql_str_v2 rt d m cel) (\<lambda>r. Inr (fst r))"

section \<open>Ordering\<close>

definition get_field_metadata_or_raise ::
  "properties_metadata \<Rightarrow> string \<Rightarrow> sql_failure + property_metadata_info" where
  "get_field_metadata_or_raise m cel_field =
     (case get_property_metadata_for_str m cel_field of
        Inl e \<Rightarrow> Inl (Uncaught e)
      | Inr None \<Rightarrow> Inl (rejected UNKNOWN_FIELD)
      | Inr (Some md) \<Rightarrow> Inr md)"

definition uncaught :: "pyexc + 'a \<Rightarrow> sql_failure + 'a" where
  "uncaught r = (case r of Inl e \<Rightarrow> Inl (Uncaught e) | Inr a \<Rightarrow> Inr a)"

definition get_field_expression ::
  "sql_dialect \<Rightarrow> properties_metadata \<Rightarrow> string \<Rightarrow> sql_failure + string" where
  "get_field_expression d m cel_field =
     rbind (get_field_metadata_or_raise m cel_field) (\<lambda>md. uncaught (field_expression d md))"

definition get_order_by_field ::
  "sql_dialect \<Rightarrow> properties_metadata \<Rightarrow> string \<Rightarrow> sql_failure + string" where
  "get_order_by_field d m cel_sort_by =
     rbind (get_field_metadata_or_raise m cel_sort_by) (\<lambda>md. uncaught (order_by_field d md))"

definition sort_direction :: "string \<Rightarrow> string" where
  "sort_direction sort_dir = (if py_lower sort_dir = ''asc'' then ''ASC'' else ''DESC'')"

definition get_order_by_expression ::
  "sql_dialect \<Rightarrow> properties_metadata \<Rightarrow> (string \<times> string) list \<Rightarrow> sql_failure + string" where
  "get_order_by_expression d m sort_options =
     rbind (traverse (\<lambda>(sort_by, sort_dir). rbind (get_order_by_field d m sort_by)
         (\<lambda>e. Inr (e @ '' '' @ sort_direction sort_dir))) sort_options)
       (\<lambda>es. Inr (py_join '', '' es))"

end
