(* ===== verification/Cel_Injection.thy ===== *)
theory Cel_Injection
  imports Cel_Shape Cel_Providers
begin

text \<open>
  The three provider classes keep the contract of \<open>Cel_Shape\<close> (the interpretations), so no string
  constant of a filter reaches the SQL outside a literal; and the two places where other text of a
  filter does.
\<close>

section \<open>The three dialects keep the contract\<close>

text \<open>
  A literal processor suits the lexer of a database when every literal it renders is read back as
  one string, whatever the value.  \<open>esc\<close> tells how the lexer reads a backslash inside a literal: as a
  character (\<open>False\<close>: SQLite, PostgreSQL with \<open>standard_conforming_strings\<close>, its default, and MySQL
  in the mode \<open>NO_BACKSLASH_ESCAPES\<close>) or as an escape (\<open>True\<close>: MySQL by default).  The processor the
  providers ask SQLAlchemy for (\<open>String("").literal_processor\<close>) doubles quotes and knows nothing of
  backslashes: it suits the first kind of lexer (\<open>doubling_quotes\<close>) and not the second
  (\<open>doubling_does_not_escape\<close>).
\<close>

definition quotes_literals :: "bool \<Rightarrow> (string \<Rightarrow> string) \<Rightarrow> bool" where
  "quotes_literals esc lit \<longleftrightarrow> (\<forall>s. \<exists>b. lit s = quoted b \<and> inert esc b)"

lemma quote_free_simps [simp]:
  "quote_free []"
  "quote_free (c # s) \<longleftrightarrow> c \<noteq> CHR 0x27 \<and> c \<noteq> CHR 0x5C \<and> quote_free s"
  "quote_free (a @ b) \<longleftrightarrow> quote_free a \<and> quote_free b"
  by (auto simp: quote_free_def)

lemma unquoted_quoted [simp]: "unquoted (quoted b) = b"
  by (simp add: unquoted_def quoted_def sq_def)

lemma literal_proc_inert:
  assumes "quotes_literals esc lit" and "safe_value v"
  obtains b where "literal_proc lit v = quoted b" and "inert esc b"
proof -
  show thesis
  proof (cases "\<exists>s. v = PyStr s")
    case True
    then obtain s where "v = PyStr s" by blast
    moreover obtain b where "lit s = quoted b" "inert esc b"
      using assms(1) unfolding quotes_literals_def by blast
    ultimately show thesis by (intro that [of b]) (simp_all add: literal_proc_def)
  next
    case False
    then have "literal_proc lit v = quoted (py_str v)" "quote_free (py_str v)"
      using assms(2) by (cases v; simp add: literal_proc_def safe_value_def)+
    with that inert_quote_free show thesis by blast
  qed
qed

lemma literal_shape:
  assumes "quotes_literals esc lit" and "safe_value v" and "safe_value w"
  shows "same_shape esc (literal_proc lit v) (literal_proc lit w)"
  using literal_proc_inert [OF assms(1,2)] literal_proc_inert [OF assms(1,3)] by (metis same_shape_literal)

lemma safe_str [simp]: "safe_value (PyStr s)"
  by (simp add: safe_value_def)

lemma safe_erase [simp]: "safe_value v \<Longrightarrow> safe_value (erase_value v)"
  by (cases v) (simp_all add: erase_value_def safe_value_def)

lemma quote_free_bool [simp]: "quote_free (py_lower ''True'')" "quote_free (py_lower ''False'')"
  by code_simp+

lemma base_constant_shape:
  assumes "quotes_literals esc lit" and "safe_value v"
  shows "same_result esc (base_constant lit v) (base_constant lit (erase_value v))"
proof (cases v)
  case (PyBool b)
  then show ?thesis by (simp add: base_constant_def erase_value_def quote_free_shape)
qed (use assms literal_shape [OF assms(1)] in
    \<open>auto simp: base_constant_def erase_value_def safe_value_def intro!: quote_free_shape shape_intros\<close>)

text \<open>A \<open>datetime\<close> literal: the time as a string between fixed text.\<close>

lemma date_shape:
  "quotes_literals esc lit \<Longrightarrow> same_shape esc (literal_proc lit (PyStr s)) (literal_proc lit (PyStr s))"
  by (rule literal_shape) simp_all

lemma as_uuid_cases:
  "as_uuid r t v = v \<or> (\<exists>u. as_uuid r t v = PyStr u)"
  by (auto simp: as_uuid_def split: option.splits)

lemma as_uuid_erase:
  "as_uuid r t (erase_value v) = as_uuid r t v \<or> (\<exists>u w. as_uuid r t v = PyStr u \<and> as_uuid r t (erase_value v) = PyStr w)"
  by (cases v) (auto simp: erase_value_def as_uuid_def split: option.splits)

text \<open>A dialect's rendering after the UUID step is enough.\<close>

lemma constant_after_uuid:
  assumes "safe_value v"
    and "\<And>u. safe_value u \<Longrightarrow> same_result esc (f u) (f u)"
    and "\<And>u w. same_result esc (f (PyStr u)) (f (PyStr w))"
  shows "same_result esc (f (as_uuid r t v)) (f (as_uuid r t (erase_value v)))"
proof -
  have "safe_value (as_uuid r t v)" using as_uuid_cases [of r t v] assms(1) by auto
  with as_uuid_erase [of r t v] assms(2,3) show ?thesis by auto
qed

lemma sqlite_constant_shape:
  assumes "quotes_literals esc lit" and "safe_value v"
  shows "same_result esc (sqlite_constant lit v t) (sqlite_constant lit (erase_value v) t)"
  unfolding sqlite_constant_def Let_def
  by (rule constant_after_uuid [OF assms(2)])
    (auto simp: base_constant_def safe_value_def split: pyval.splits
      intro!: shape_intros literal_shape [OF assms(1)] intro: quote_free_shape)

lemma mysql_constant_shape:
  assumes "quotes_literals esc lit" and "safe_value v"
  shows "same_result esc (mysql_constant lit v t) (mysql_constant lit (erase_value v) t)"
  unfolding mysql_constant_def Let_def
  by (rule constant_after_uuid [OF assms(2)])
    (auto simp: base_constant_def safe_value_def split: pyval.splits
      intro!: shape_intros literal_shape [OF assms(1)] intro: quote_free_shape)

lemma postgres_constant_shape:
  assumes "quotes_literals esc lit" and "safe_value v"
  shows "same_result esc (postgres_constant lit v t) (postgres_constant lit (erase_value v) t)"
  unfolding postgres_constant_def Let_def
  by (rule constant_after_uuid [OF assms(2)])
    (auto simp: base_constant_def safe_value_def split: pyval.splits
      intro!: shape_intros literal_shape [OF assms(1)] intro: quote_free_shape)

section \<open>Casts, JSON columns and string methods\<close>

lemma quoted_text_shape: "quote_free s \<Longrightarrow> same_shape esc (quoted s) (quoted s)"
  by (intro same_shape_literal inert_quote_free)

lemma when_case_shape:
  assumes "list_all2 (\<lambda>(c, v) (c', v'). same_shape esc c c' \<and> same_shape esc v v') cs cs'" and "quote_free e"
  shows "same_shape esc (when_case cs e) (when_case cs' e)"
proof -
  have "list_all2 (same_shape esc) (map (\<lambda>(c, v). ''WHEN '' @ c @ '' THEN '' @ v) cs)
    (map (\<lambda>(c, v). ''WHEN '' @ c @ '' THEN '' @ v) cs')"
    unfolding list_all2_map1 list_all2_map2 using assms(1)
    by (rule list_all2_mono) (auto intro!: shape_intros)
  from same_shape_join [OF this, of "'' ''"] assms(2) show ?thesis
    unfolding when_case_def by (auto intro!: shape_intros intro: quote_free_shape)
qed

lemma boolean_case_shape: "same_shape esc a b \<Longrightarrow> same_shape esc (boolean_case a) (boolean_case b)"
  unfolding boolean_case_def
  by (intro when_case_shape) (auto intro!: shape_intros quoted_text_shape inert_quote_free)

lemma postgres_boolean_case_shape:
  "same_shape esc a b \<Longrightarrow> same_shape esc (postgres_boolean_case a) (postgres_boolean_case b)"
proof -
  have "inert esc (''^[-+]?[0-9]*'' @ [CHR 0x5C] @ ''.?[0-9]+$'')" by (simp add: inert_def)
  then have "same_shape esc postgres_number_pattern postgres_number_pattern"
    unfolding postgres_number_pattern_def by (intro same_shape_literal)
  then show "same_shape esc a b \<Longrightarrow> same_shape esc (postgres_boolean_case a) (postgres_boolean_case b)"
    unfolding postgres_boolean_case_def
    by (intro when_case_shape) (auto intro!: shape_intros quoted_text_shape inert_quote_free)
qed

lemma cast_shapes:
  assumes "same_shape esc a b"
  shows "same_result esc (sqlite_cast a t) (sqlite_cast b t)"
    and "same_result esc (mysql_cast k a t) (mysql_cast k b t)"
    and "same_result esc (postgres_cast a t) (postgres_cast b t)"
  using assms boolean_case_shape [OF assms] postgres_boolean_case_shape [OF assms]
  by (auto simp: sqlite_cast_def mysql_cast_def postgres_cast_def split: option.splits data_type.splits
      intro!: shape_intros)

lemma quote_free_join: "quote_free sep \<Longrightarrow> list_all quote_free xs \<Longrightarrow> quote_free (py_join sep xs)"
  by (induction sep xs rule: py_join.induct) auto

lemma quote_free_json_path: "list_all quote_free p \<Longrightarrow> quote_free (json_path p)"
  unfolding json_path_def by (intro quote_free_join) (auto simp: list_all_iff dq_def)

lemma sqlite_json_shape:
  assumes "quote_free c" and "list_all quote_free p"
  shows "same_shape esc (sqlite_json_extract_as_text c p) (sqlite_json_extract_as_text c p)"
  using assms quote_free_json_path [OF assms(2)]
  by (auto simp: sqlite_json_extract_as_text_def intro!: shape_intros quoted_text_shape intro: quote_free_shape)

lemma sqlite_contains_path_shape:
  assumes "quote_free c" and "list_all quote_free p"
  shows "same_result esc (sqlite_json_contains_path c p) (sqlite_json_contains_path c p)"
proof (cases "p = []")
  case False
  then have p: "quote_free (hd p)" "quote_free (last p)" "list_all quote_free (butlast p)"
    using assms(2) by (auto simp: list_all_iff dest: in_set_butlastD)
  from sqlite_json_shape [OF assms(1) p(3), of esc] p(1,2) assms(1) show ?thesis
    by (auto simp: sqlite_json_contains_path_def intro!: shape_intros quoted_text_shape intro: quote_free_shape)
qed (simp add: sqlite_json_contains_path_def)

lemma mysql_json_shape:
  assumes "quote_free c" and "list_all quote_free p"
  shows "same_shape esc (mysql_json_extract_as_text c p) (mysql_json_extract_as_text c p)"
    and "same_result esc (mysql_json_contains_path c p) (mysql_json_contains_path c p)"
  using assms quote_free_json_path [OF assms(2)]
  by (auto simp: mysql_json_extract_as_text_def mysql_json_extract_def mysql_json_contains_path_def
      intro!: shape_intros quoted_text_shape intro: quote_free_shape)

lemma postgres_json_shape:
  assumes "quote_free c" and "list_all quote_free p"
  shows "same_shape esc (postgres_json_extract_as_text c p) (postgres_json_extract_as_text c p)"
    and "same_result esc (postgres_json_contains_path c p) (postgres_json_contains_path c p)"
proof -
  let ?cols = "c # map quoted p"
  have cols: "same_shape esc x x" if "x \<in> set ?cols" for x
    using that assms by (auto simp: list_all_iff intro: quote_free_shape quoted_text_shape)
  have "same_shape esc (py_join '' -> '' (butlast ?cols)) (py_join '' -> '' (butlast ?cols))"
    using cols in_set_butlastD [of _ ?cols] by (intro same_shape_join) (simp_all add: list_all2_same del: butlast.simps)
  moreover have "same_shape esc (last ?cols) (last ?cols)" by (intro cols last_in_set) simp
  ultimately show "same_shape esc (postgres_json_extract_as_text c p) (postgres_json_extract_as_text c p)"
    unfolding postgres_json_extract_as_text_def Let_def by (auto intro!: shape_intros simp del: last.simps butlast.simps)
  show "same_result esc (postgres_json_contains_path c p) (postgres_json_contains_path c p)"
    using assms quote_free_json_path [OF assms(2)]
    by (auto simp: postgres_json_contains_path_def intro!: shape_intros quoted_text_shape intro: quote_free_shape)
qed

lemma like_shape:
  assumes "same_shape esc p p'" and "same_shape esc s s'" and "inert esc b" and "inert esc b'"
    and "quote_free pre" and "quote_free post" and "quote_free opr" and "opr \<noteq> []"
  shows "same_shape esc (like p s opr pre b post) (like p' s' opr pre b' post)"
proof -
  have lit: "same_shape esc (quoted (pre @ b @ post)) (quoted (pre @ b' @ post))"
    using assms(3-6) by (intro same_shape_literal inert_append) (auto intro: inert_quote_free)
  from assms(7,8) obtain x y where opr: "opr = x # y" "x \<noteq> CHR 0x27" "CHR 0x27 \<notin> set y"
    by (cases opr) (auto simp: quote_free_def)
  have "same_shape esc (y @ quoted (pre @ b @ post)) (y @ quoted (pre @ b' @ post))"
    using opr(3) lit by (rule same_shape_left)
  with assms(1,2) opr show ?thesis unfolding like_def by (auto intro!: shape_intros)
qed

lemma string_method_shape:
  assumes "quotes_literals esc lit" and "safe_operand a" and "same_shape esc p p'" and "same_shape esc s s'"
    and "quote_free pre" and "quote_free post" and "quote_free opr" and "opr \<noteq> []"
    and "\<And>v. safe_value v \<Longrightarrow> safe_value (g v)"
  shows "same_result esc
    (rbind (arg_value a) (\<lambda>v. Inr (like p s opr pre (unquoted (literal_proc lit (g v))) post)))
    (rbind (arg_value (erase_operand a)) (\<lambda>v. Inr (like p' s' opr pre (unquoted (literal_proc lit (g v))) post)))"
proof (cases "arg_value a")
  case (Inr v)
  then have v: "safe_value v" using assms(2)
    by (cases a; cases "the a") (auto simp: arg_value_def safe_operand_def elim!: item_value.elims)
  obtain b where b: "literal_proc lit (g v) = quoted b" "inert esc b"
    using assms(1) assms(9) [OF v] by (rule literal_proc_inert)
  obtain c where c: "literal_proc lit (g (erase_value v)) = quoted c" "inert esc c"
    using assms(1) assms(9) [OF safe_erase [OF v]] by (rule literal_proc_inert)
  from Inr b c show ?thesis by (simp add: arg_value_erase like_shape [OF assms(3,4) b(2) c(2) assms(5-8)])
qed (simp add: arg_value_erase)

lemma safe_lowered: "safe_value v \<Longrightarrow> safe_value (lowered v)"
  by (cases v) (simp_all add: lowered_def safe_value_def)

lemma lower_call_shape: "same_shape esc a b \<Longrightarrow> same_shape esc (''LOWER('' @ a @ '')'') (''LOWER('' @ b @ '')'')"
  by (auto intro!: shape_intros)

lemma method_shapes:
  assumes "quotes_literals esc lit" and "same_shape esc a b" and "safe_operand s"
  shows "same_result esc (sqlite_contains lit a s) (sqlite_contains lit b (erase_operand s))"
    and "same_result esc (sqlite_starts_with lit a s) (sqlite_starts_with lit b (erase_operand s))"
    and "same_result esc (sqlite_ends_with lit a s) (sqlite_ends_with lit b (erase_operand s))"
    and "same_result esc (mysql_contains lit a s) (mysql_contains lit b (erase_operand s))"
    and "same_result esc (mysql_starts_with lit a s) (mysql_starts_with lit b (erase_operand s))"
    and "same_result esc (mysql_ends_with lit a s) (mysql_ends_with lit b (erase_operand s))"
    and "same_result esc (postgres_contains lit a s) (postgres_contains lit b (erase_operand s))"
    and "same_result esc (postgres_starts_with lit a s) (postgres_starts_with lit b (erase_operand s))"
    and "same_result esc (postgres_ends_with lit a s) (postgres_ends_with lit b (erase_operand s))"
  unfolding sqlite_contains_def sqlite_starts_with_def sqlite_ends_with_def mysql_contains_def
    mysql_starts_with_def mysql_ends_with_def postgres_contains_def postgres_starts_with_def postgres_ends_with_def
  by (rule string_method_shape [OF assms(1,3,2)]; simp add: assms(2) safe_lowered lower_call_shape [simplified])+

text \<open>Constants a dialect renders, seen from the array methods.\<close>

lemma strip_quotes_quoted [simp]: "strip_quotes (quoted b) = b"
  by (simp add: strip_quotes_def quoted_def sq_def suffixed_def unquoted_def)

lemma quoted_not_null [simp]: "quoted b \<noteq> ''NULL''"
  by (simp add: quoted_def sq_def)

lemma unquoted_quote_free: "quote_free c \<Longrightarrow> inert esc (unquoted c)"
  unfolding unquoted_def by (intro inert_quote_free) (cases c, auto simp: quote_free_def dest: in_set_butlastD)

interpretation sqlite_methods_shape: shape_keeping_methods esc "quotes_literals esc lit" "sqlite_methods lit"
  for esc lit
  by unfold_locales (simp_all add: sqlite_methods_def sqlite_json_shape sqlite_contains_path_shape cast_shapes
      sqlite_constant_shape method_shapes)

interpretation mysql_methods_shape: shape_keeping_methods esc "quotes_literals esc lit" "mysql_methods lit"
  for esc lit
  by unfold_locales (simp_all add: mysql_methods_def mysql_json_shape cast_shapes mysql_constant_shape method_shapes)

interpretation postgres_methods_shape: shape_keeping_methods esc "quotes_literals esc lit" "postgres_methods lit"
  for esc lit
  by unfold_locales (simp_all add: postgres_methods_def postgres_json_shape cast_shapes postgres_constant_shape method_shapes)

text \<open>What a constant's text is in an array comparison: a literal, or text without quotes.\<close>

definition rendering :: "bool \<Rightarrow> string \<Rightarrow> bool" where
  "rendering esc c \<longleftrightarrow> (\<exists>b. inert esc b \<and> c = quoted b) \<or> quote_free c"

lemma rendering_inside:
  assumes "rendering esc c"
  shows "inert esc (unquoted c)" and "inert esc (strip_quotes c)"
proof -
  consider b where "inert esc b" "c = quoted b" | "quote_free c" using assms unfolding rendering_def by blast
  then have "inert esc (unquoted c) \<and> inert esc (strip_quotes c)"
    by cases (auto simp: strip_quotes_def [of c] intro: unquoted_quote_free inert_quote_free)
  then show "inert esc (unquoted c)" and "inert esc (strip_quotes c)" by simp_all
qed

lemma base_rendering:
  assumes "quotes_literals esc lit" and "safe_value v" and "\<And>d. v \<noteq> PyDate d"
  obtains c where "base_constant lit v = Inr c" and "rendering esc c"
proof (cases v)
  case PyNone
  then show thesis by (intro that [of "''NULL''"]) (auto simp: base_constant_def rendering_def)
next
  case (PyStr s)
  obtain b where "literal_proc lit v = quoted b" "inert esc b" using assms(1,2) by (rule literal_proc_inert)
  with PyStr show thesis by (intro that [of "quoted b"]) (auto simp: base_constant_def rendering_def)
next
  case (PyBool b)
  have "quote_free (py_lower (py_str (PyBool b)))" by (cases b) simp_all
  with PyBool show thesis by (intro that [of "py_lower (py_str v)"]) (simp_all add: base_constant_def rendering_def)
next
  case (PyInt i)
  with assms(2) show thesis by (intro that [of "py_str v"]) (simp_all add: base_constant_def rendering_def safe_value_def)
next
  case (PyFloat r)
  with assms(2) show thesis by (intro that [of "py_str v"]) (simp_all add: base_constant_def rendering_def safe_value_def)
qed (use assms(3) in auto)

text \<open>It suffices to treat string constants, and to show the text of every constant well-formed.\<close>

lemma erase_pairs:
  assumes "safe_value v" and "\<And>s. same_result esc (f (PyStr s)) (f (PyStr []))"
    and "\<And>s. f v = Inr s \<Longrightarrow> same_shape esc s s"
  shows "same_result esc (f v) (f (erase_value v))"
  using assms(2) self_result [OF assms(3)] by (cases v) (simp_all add: erase_value_def)

lemma array_operands_shape:
  assumes "safe_operand s" and "date_free s" and "\<And>prop. visit_property_access_node d f = Inr prop \<Longrightarrow> same_shape esc prop prop"
    and "\<And>prop v. same_shape esc prop prop \<Longrightarrow> safe_value v \<Longrightarrow> (\<And>d. v \<noteq> PyDate d) \<Longrightarrow>
      same_result esc (body prop v) (body prop (erase_value v))"
  shows "same_result esc (array_operands d f s body) (array_operands d f (erase_operand s) body)"
proof (cases "\<exists>v. s = Some (INode (ConstantNode v))")
  case True
  then obtain v where s: "s = Some (INode (ConstantNode v))" by blast
  with assms(2) have "v \<noteq> PyDate d" for d by auto
  with s assms(1,3,4) show ?thesis
    by (auto simp: array_operands_def erase_operand_def safe_operand_def intro!: same_result_bind_eq)
next
  case False
  have "array_operands d f s body = Inl NotImplementedError \<and>
    array_operands d f (erase_operand s) body = Inl NotImplementedError"
  proof (cases s)
    case (Some x)
    show ?thesis
    proof (cases x)
      case (INode n)
      with Some False show ?thesis by (cases n) (simp_all add: array_operands_def erase_operand_def)
    qed (use Some in \<open>simp_all add: array_operands_def erase_operand_def\<close>)
  qed (simp add: array_operands_def erase_operand_def)
  then show ?thesis by simp
qed

lemma null_array_shape:
  assumes "same_shape esc p p"
  shows "same_shape esc (sqlite_array_null p) (sqlite_array_null p)"
    and "same_shape esc (mysql_array_null p) (mysql_array_null p)"
    and "same_shape esc (postgres_array_null p) (postgres_array_null p)"
  using assms by (auto simp: sqlite_array_null_def mysql_array_null_def postgres_array_null_def
      intro!: shape_intros quoted_text_shape)

lemma sqlite_filter_shape:
  "same_shape esc p p \<Longrightarrow> same_shape esc a b \<Longrightarrow> same_shape esc (sqlite_array_filter p a) (sqlite_array_filter p b)"
  by (auto simp: sqlite_array_filter_def intro!: shape_intros)

lemma item_array_shape:
  assumes "same_shape esc p p" and "inert esc (strip_quotes b)" and "inert esc (strip_quotes c)"
  shows "same_shape esc (mysql_array_item p b) (mysql_array_item p c)"
    and "same_shape esc (postgres_array_item p b) (postgres_array_item p c)"
proof -
  have "same_shape esc (json_list_literal b) (json_list_literal c)" unfolding json_list_literal_def
    using assms(2,3) by (intro same_shape_literal inert_append) (auto simp: dq_def intro: inert_quote_free)
  with assms(1) show "same_shape esc (mysql_array_item p b) (mysql_array_item p c)"
    and "same_shape esc (postgres_array_item p b) (postgres_array_item p c)"
    by (auto simp: mysql_array_item_def postgres_array_item_def intro!: shape_intros)
qed

lemma dialect_base_constant:
  assumes "\<And>d. v \<noteq> PyDate d" and "\<And>b. v \<noteq> PyBool b"
  shows "sqlite_constant lit v None = base_constant lit v" "mysql_constant lit v None = base_constant lit v"
    "postgres_constant lit v None = base_constant lit v"
  using assms by (cases v; simp add: sqlite_constant_def mysql_constant_def postgres_constant_def as_uuid_def)+

lemma constant_rendering:
  assumes "quotes_literals esc lit" and "safe_value v" and "\<And>d. v \<noteq> PyDate d"
  obtains c where "sqlite_constant lit v None = Inr c" and "rendering esc c"
    and "postgres_constant lit v None = Inr c"
proof -
  obtain c where "base_constant lit v = Inr c" "rendering esc c" using assms by (rule base_rendering)
  moreover have "sqlite_constant lit v None = base_constant lit v" "postgres_constant lit v None = base_constant lit v"
    using assms(3) by (cases v; simp add: sqlite_constant_def postgres_constant_def as_uuid_def)+
  ultimately show thesis using that by simp
qed

lemma mysql_rendering:
  assumes "quotes_literals esc lit" and "safe_value v" and "\<And>d. v \<noteq> PyDate d"
  obtains c where "mysql_constant lit v None = Inr c" and "rendering esc c"
proof (cases "\<exists>b. v = PyBool b")
  case True
  then show thesis
    by (intro that [of "if v = PyBool True then ''TRUE'' else ''FALSE''"])
      (auto simp: mysql_constant_def as_uuid_def rendering_def split: if_splits)
next
  case False
  obtain c where "base_constant lit v = Inr c" "rendering esc c" using assms by (rule base_rendering)
  with False assms(3) show thesis using dialect_base_constant(2) [of v lit] that by auto
qed

lemma string_rendering:
  assumes "quotes_literals esc lit"
  obtains b where "inert esc b" and "sqlite_constant lit (PyStr s) None = Inr (quoted b)"
    and "mysql_constant lit (PyStr s) None = Inr (quoted b)" and "postgres_constant lit (PyStr s) None = Inr (quoted b)"
proof -
  obtain b where "literal_proc lit (PyStr s) = quoted b" "inert esc b"
    using assms safe_str by (rule literal_proc_inert)
  then show thesis using that by (simp add: dialect_base_constant base_constant_def)
qed

lemma sqlite_equal_array_shape:
  assumes "quotes_literals esc lit" and "safe_names f" and "safe_operand s" and "date_free s"
  shows "same_result esc (sqlite_equal_array lit f s) (sqlite_equal_array lit f (erase_operand s))"
  unfolding sqlite_equal_array_def
proof (rule array_operands_shape [OF assms(3,4) sqlite_methods_shape.property_shape [OF assms(1,2)]])
  fix p v
  assume p: "same_shape esc p p" and v: "safe_value v" "\<And>d. v \<noteq> PyDate d"
  have eq: "same_shape esc (sqlite_array_filter p (''json_array.value = '' @ quoted b))
      (sqlite_array_filter p (''json_array.value = '' @ quoted c))" if "inert esc b" "inert esc c" for b c
    using that p by (intro sqlite_filter_shape) (auto intro!: shape_intros)
  let ?f = "\<lambda>v. if v = PyNone then Inr (sqlite_array_null p) else rbind (sqlite_constant lit v None)
      (\<lambda>c. Inr (sqlite_array_filter p (''json_array.value = '' @ quoted (unquoted c))))"
  show "same_result esc (?f v) (?f (erase_value v))"
  proof (rule erase_pairs [OF v(1)])
    fix s
    obtain b where b: "inert esc b" "sqlite_constant lit (PyStr s) None = Inr (quoted b)"
      using assms(1) by (rule string_rendering)
    obtain c where c: "inert esc c" "sqlite_constant lit (PyStr []) None = Inr (quoted c)"
      using assms(1) by (rule string_rendering)
    from b c eq show "same_result esc (?f (PyStr s)) (?f (PyStr []))" by simp
  next
    fix s
    obtain c where "sqlite_constant lit v None = Inr c" "rendering esc c" "postgres_constant lit v None = Inr c"
      using assms(1) v by (rule constant_rendering)
    moreover assume "?f v = Inr s"
    ultimately show "same_shape esc s s"
      using eq rendering_inside null_array_shape [OF p] by (auto split: if_splits)
  qed
qed


lemma mysql_equal_array_shape:
  assumes "quotes_literals esc lit" and "safe_names f" and "safe_operand s" and "date_free s"
  shows "same_result esc (mysql_equal_array lit f s) (mysql_equal_array lit f (erase_operand s))"
  unfolding mysql_equal_array_def
proof (rule array_operands_shape [OF assms(3,4) mysql_methods_shape.property_shape [OF assms(1,2)]])
  fix p v
  assume p: "same_shape esc p p" and v: "safe_value v" "\<And>d. v \<noteq> PyDate d"
  let ?f = "\<lambda>v. rbind (mysql_constant lit v None)
      (\<lambda>c. Inr (if c = ''NULL'' then mysql_array_null p else mysql_array_item p c))"
  show "same_result esc (?f v) (?f (erase_value v))"
  proof (rule erase_pairs [OF v(1)])
    fix s
    obtain b where b: "inert esc b" "mysql_constant lit (PyStr s) None = Inr (quoted b)"
      using assms(1) by (rule string_rendering)
    obtain c where c: "inert esc c" "mysql_constant lit (PyStr []) None = Inr (quoted c)"
      using assms(1) by (rule string_rendering)
    from b c show "same_result esc (?f (PyStr s)) (?f (PyStr []))" by (simp add: item_array_shape [OF p])
  next
    fix s
    obtain c where "mysql_constant lit v None = Inr c" "rendering esc c"
      using assms(1) v by (rule mysql_rendering)
    moreover assume "?f v = Inr s"
    ultimately show "same_shape esc s s"
      using rendering_inside(2) null_array_shape [OF p] item_array_shape [OF p] by (auto split: if_splits)
  qed
qed

lemma postgres_equal_array_shape:
  assumes "quotes_literals esc lit" and "safe_names f" and "safe_operand s" and "date_free s"
  shows "same_result esc (postgres_equal_array lit f s) (postgres_equal_array lit f (erase_operand s))"
  unfolding postgres_equal_array_def
proof (rule array_operands_shape [OF assms(3,4) postgres_methods_shape.property_shape [OF assms(1,2)]])
  fix p v
  assume p: "same_shape esc p p" and v: "safe_value v" "\<And>d. v \<noteq> PyDate d"
  let ?f = "\<lambda>v. rbind (postgres_constant lit v None)
      (\<lambda>c. Inr (if c = ''NULL'' then postgres_array_null p else postgres_array_item p c))"
  show "same_result esc (?f v) (?f (erase_value v))"
  proof (rule erase_pairs [OF v(1)])
    fix s
    obtain b where b: "inert esc b" "postgres_constant lit (PyStr s) None = Inr (quoted b)"
      using assms(1) by (rule string_rendering)
    obtain c where c: "inert esc c" "postgres_constant lit (PyStr []) None = Inr (quoted c)"
      using assms(1) by (rule string_rendering)
    from b c show "same_result esc (?f (PyStr s)) (?f (PyStr []))" by (simp add: item_array_shape [OF p])
  next
    fix s
    obtain c where "postgres_constant lit v None = Inr c" "rendering esc c"
      using assms(1) v by (rule constant_rendering)
    moreover assume "?f v = Inr s"
    ultimately show "same_shape esc s s"
      using rendering_inside(2) null_array_shape [OF p] item_array_shape [OF p] by (auto split: if_splits)
  qed
qed

lemma any_none_erase: "any_none (map erase_operand is) = any_none is"
proof (induction "is")
  case (Cons i "is")
  then show ?case by (cases "arg_value i") (simp_all add: arg_value_erase)
qed simp

lemma sqlite_in_array_shape:
  assumes "quotes_literals esc lit" and "safe_names f" and "list_all safe_operand is"
  shows "same_result esc (sqlite_in_array lit f is) (sqlite_in_array lit f (map erase_operand is))"
proof -
  let ?p = "PropertyAccessNode [''json_array'', ''value''] None"
  have "same_result esc (visit_in (sqlite_methods lit) (Some ?p) (Inl NotImplementedError) is)
    (visit_in (sqlite_methods lit) (map_option erase (Some ?p)) (Inl NotImplementedError) (map erase_operand is))"
    using assms(1,3) by (intro sqlite_methods_shape.visit_in_shape) auto
  moreover have "same_result esc (visit_property_access_node (sqlite_methods lit) f) (visit_property_access_node (sqlite_methods lit) f)"
    using sqlite_methods_shape.property_shape [OF assms(1,2)] by (rule self_result)
  ultimately show ?thesis unfolding sqlite_in_array_def any_none_erase
    by (auto simp: Let_def intro!: same_result_bind same_result_bind_eq sqlite_filter_shape shape_intros quoted_text_shape)
qed

text \<open>An item of the list is a constant, or an operand no array method accepts.\<close>

lemma node_or_any_erase:
  assumes "\<And>s. \<nexists>v. s = Some (INode (ConstantNode v)) \<Longrightarrow> eq f s = Inl NotImplementedError"
    and "safe_operand i" and "date_free i"
    and "\<And>s. safe_operand s \<Longrightarrow> date_free s \<Longrightarrow> same_result esc (eq f s) (eq f (erase_operand s))"
  shows "same_result esc (eq f (map_option node_or_any i)) (eq f (map_option node_or_any (erase_operand i)))"
proof (cases "\<exists>v. i = Some (INode (ConstantNode v))")
  case True
  then obtain v where "i = Some (INode (ConstantNode v))" by blast
  with assms(4) [OF assms(2,3)] show ?thesis by (simp add: erase_operand_def)
next
  case False
  have "\<nexists>v. map_option node_or_any i = Some (INode (ConstantNode v))"
    using False by (cases i; cases "the i") (auto simp: node_or_any_def split: if_splits option.splits)
  moreover have "\<nexists>v. map_option node_or_any (erase_operand i) = Some (INode (ConstantNode v))"
  proof (cases i)
    case (Some x)
    show ?thesis
    proof (cases x)
      case (INode n)
      with Some False show ?thesis by (cases n) (auto simp: erase_operand_def)
    qed (use Some in \<open>auto simp: erase_operand_def node_or_any_def split: if_splits option.splits\<close>)
  qed (simp add: erase_operand_def)
  ultimately show ?thesis using assms(1) by simp
qed

lemma or_chain_shape: "list_all2 (same_shape esc) xs ys \<Longrightarrow> same_result esc (or_chain xs) (or_chain ys)"
  by (cases xs; cases ys) (auto simp: or_chain_def intro!: same_shape_foldl_or)

lemma traverse_shape:
  assumes "\<And>i. i \<in> set is \<Longrightarrow> same_result esc (g i) (h i)"
    and "\<And>xs ys. list_all2 (same_shape esc) xs ys \<Longrightarrow> same_result esc (k xs) (l ys)"
  shows "same_result esc (rbind (traverse g is) k) (rbind (traverse h is) l)"
  using assms
proof (induction "is" arbitrary: k l)
  case (Cons i "is")
  have "same_result esc (rbind (traverse g is) (\<lambda>xs. k (a # xs))) (rbind (traverse h is) (\<lambda>xs. l (b # xs)))"
    if ab: "same_shape esc a b" for a b
    by (rule Cons.IH) (use Cons.prems ab in auto)
  with Cons.prems(1) [of i] show ?case by (auto simp: rbind_assoc intro: same_result_bind)
qed simp

lemma disjunction_shape:
  assumes "\<And>s. \<nexists>v. s = Some (INode (ConstantNode v)) \<Longrightarrow> eq f s = Inl NotImplementedError"
    and "\<And>s. safe_operand s \<Longrightarrow> date_free s \<Longrightarrow> same_result esc (eq f s) (eq f (erase_operand s))"
    and "list_all safe_operand is" and "list_all date_free is"
  shows "same_result esc (in_array_disjunction eq f is) (in_array_disjunction eq f (map erase_operand is))"
proof -
  have "traverse (\<lambda>i. non_empty (eq f (map_option node_or_any i))) (map erase_operand is)
      = traverse (\<lambda>i. non_empty (eq f (map_option node_or_any (erase_operand i)))) is" by (induction "is") simp_all
  moreover have "same_result esc (rbind (traverse (\<lambda>i. non_empty (eq f (map_option node_or_any i))) is) or_chain)
    (rbind (traverse (\<lambda>i. non_empty (eq f (map_option node_or_any (erase_operand i)))) is) or_chain)"
    using assms(3,4) node_or_any_erase [of eq f _ esc, OF assms(1) _ _ assms(2)]
    by (intro traverse_shape or_chain_shape same_result_non_empty) (auto simp: list_all_iff)
  ultimately show ?thesis unfolding in_array_disjunction_def by simp
qed

lemma array_not_constant:
  assumes "\<nexists>v. s = Some (INode (ConstantNode v))"
  shows "mysql_equal_array lit f s = Inl NotImplementedError" "postgres_equal_array lit f s = Inl NotImplementedError"
proof -
  have "array_operands d f s body = Inl NotImplementedError" for d body
    using assms by (cases s; cases "the s") (auto simp: array_operands_def split: node.splits)
  then show "mysql_equal_array lit f s = Inl NotImplementedError" "postgres_equal_array lit f s = Inl NotImplementedError"
    by (simp_all add: mysql_equal_array_def postgres_equal_array_def)
qed

interpretation sqlite_shape: shape_keeping_dialect esc "quotes_literals esc lit" "sqlite_dialect lit" for esc lit
  by unfold_locales (simp_all add: sqlite_dialect_def sql_methods.defs sql_dialect.defs sqlite_methods_def
      sqlite_json_shape sqlite_contains_path_shape cast_shapes sqlite_constant_shape method_shapes
      sqlite_equal_array_shape sqlite_in_array_shape)

interpretation mysql_shape: shape_keeping_dialect esc "quotes_literals esc lit" "mysql_dialect lit" for esc lit
  by unfold_locales (simp_all add: mysql_dialect_def sql_methods.defs sql_dialect.defs mysql_methods_def
      mysql_json_shape cast_shapes mysql_constant_shape method_shapes mysql_equal_array_shape
      disjunction_shape array_not_constant)

interpretation postgres_shape: shape_keeping_dialect esc "quotes_literals esc lit" "postgres_dialect lit" for esc lit
  by unfold_locales (simp_all add: postgres_dialect_def sql_methods.defs sql_dialect.defs postgres_methods_def
      postgres_json_shape cast_shapes postgres_constant_shape method_shapes postgres_equal_array_shape
      disjunction_shape array_not_constant)

section \<open>String constants cannot change the structure of the SQL\<close>

text \<open>
  SQLAlchemy's processor: quotes are doubled and, for a driver whose parameter style is \<open>format\<close> or
  \<open>pyformat\<close>, percent signs too.
\<close>

definition doubling_literal :: "string \<Rightarrow> string" where
  "doubling_literal s = quoted (concat (map (\<lambda>c. if c = CHR 0x27 then [c, c] else [c]) s))"

definition percent_doubling_literal :: "string \<Rightarrow> string" where
  "percent_doubling_literal s = doubling_literal (concat (map (\<lambda>c. if c = CHR ''%'' then [c, c] else [c]) s))"

lemma doubling_quotes: "quotes_literals False doubling_literal"
proof -
  have "inert False (concat (map (\<lambda>c. if c = CHR 0x27 then [c, c] else [c]) s))" for s
    by (induction s) (simp_all add: inert_def)
  then show ?thesis by (auto simp: quotes_literals_def doubling_literal_def)
qed

lemma percent_doubling_quotes: "quotes_literals False percent_doubling_literal"
  using doubling_quotes by (auto simp: quotes_literals_def percent_doubling_literal_def)

text \<open>A backslash before a quote makes the doubled quote an escaped one and the end of the literal.\<close>

lemma doubling_does_not_escape: "\<not> quotes_literals True doubling_literal"
proof
  assume "quotes_literals True doubling_literal"
  then obtain b where b: "doubling_literal [CHR 0x5C, CHR 0x27] = quoted b" "inert True b"
    unfolding quotes_literals_def by blast
  then have "b = [CHR 0x5C, CHR 0x27, CHR 0x27]" by (simp add: doubling_literal_def quoted_def)
  with b(2) have "\<forall>t. lex True AfterQuote t = lex True InString t" by (simp add: inert_def)
  then have "lex True AfterQuote [] = lex True InString []" by (rule spec)
  then show False by simp
qed

lemma provider_shape:
  assumes "get_cel_to_sql_provider_for_dialect lit name = Inr d" and "quotes_literals esc lit" and "safe n"
  shows "same_result esc (build_sql_filter d m n) (build_sql_filter d m (erase n))"
  using assms sqlite_shape.build_shape(1) mysql_shape.build_shape(1) postgres_shape.build_shape(1)
  by (auto simp: get_cel_to_sql_provider_for_dialect_def split: if_splits)

lemma same_shape_trans: "same_shape esc a b \<Longrightarrow> same_shape esc c b \<Longrightarrow> same_shape esc a c"
  unfolding same_shape_def by metis

lemma same_result_trans:
  "same_result esc r s \<Longrightarrow> same_result esc t s \<Longrightarrow> same_result esc r t"
  by (cases r; cases s; cases t) (auto intro: same_shape_trans)

text \<open>
  C1: where a doubled quote is the only escape in a string literal (SQLite, PostgreSQL with
  \<open>standard_conforming_strings\<close>, MySQL with \<open>NO_BACKSLASH_ESCAPES\<close>), two filters that differ only in
  their string constants give texts with the same structure outside string literals (or fail with
  the same error), and every literal is closed: no value a user writes in a filter can add to, end or
  comment out any part of the SQL.  What is asked for: the literal processor suits such a lexer, as
  SQLAlchemy's does, and the column and JSON key names of the filter are free of quotes and
  backslashes.  MySQL's default lexing is excluded: there a value does change the SQL
  (\<open>backslash_ends_the_literal_in_mysql\<close>).
\<close>

theorem string_constants_keep_sql_structure:
  assumes "get_cel_to_sql_provider_for_dialect lit name = Inr d" and "quotes_literals False lit"
    and "safe n" and "safe n'" and "erase n = erase n'"
  shows "case build_sql_filter d m n of
      Inl e \<Rightarrow> build_sql_filter d m n' = Inl e
    | Inr sql \<Rightarrow> \<exists>sql' skeleton. build_sql_filter d m n' = Inr sql' \<and>
        shape False sql = Some skeleton \<and> shape False sql' = Some skeleton"
proof -
  have "same_result False (build_sql_filter d m n) (build_sql_filter d m n')"
    using provider_shape [OF assms(1,2,3), of m] provider_shape [OF assms(1,2,4), of m] assms(5)
    by (auto intro: same_result_trans)
  then show ?thesis
    by (cases "build_sql_filter d m n"; cases "build_sql_filter d m n'") (auto simp: same_shape_def)
qed

definition name_equals :: "string \<Rightarrow> node" where
  "name_equals v = ComparisonNode (Some (PropertyAccessNode [''alert.name''] (Some DString))) EQ
     (Some (INode (ConstantNode (PyStr v))))"

definition quote_value :: string where
  "quote_value = sq @ '' OR 1=1 --''"

theorem string_constants_keep_sql_structure_witness:
  "\<exists>sql sql' psql psql' skeleton.
     build_sql_filter (sqlite_dialect doubling_literal) severity_metadata (name_equals quote_value) = Inr sql \<and>
     build_sql_filter (sqlite_dialect doubling_literal) severity_metadata (name_equals ''cpu'') = Inr sql' \<and>
     shape False sql = Some skeleton \<and> shape False sql' = Some skeleton \<and>
     build_sql_filter (postgres_dialect doubling_literal) severity_metadata (name_equals quote_value) = Inr psql \<and>
     build_sql_filter (postgres_dialect doubling_literal) severity_metadata (name_equals ''cpu'') = Inr psql' \<and>
     shape False psql = Some skeleton \<and> shape False psql' = Some skeleton \<and> skeleton = ''alert.name = ?''"
proof -
  have d: "get_cel_to_sql_provider_for_dialect doubling_literal ''sqlite'' = Inr (sqlite_dialect doubling_literal)"
    "get_cel_to_sql_provider_for_dialect doubling_literal ''postgresql'' = Inr (postgres_dialect doubling_literal)"
    by (simp_all add: get_cel_to_sql_provider_for_dialect_def)
  have safe: "safe (name_equals quote_value)" "safe (name_equals ''cpu'')"
    "erase (name_equals quote_value) = erase (name_equals ''cpu'')" by code_simp+
  have one: "\<exists>sql sql'. build_sql_filter d severity_metadata (name_equals quote_value) = Inr sql \<and>
      build_sql_filter d severity_metadata (name_equals ''cpu'') = Inr sql' \<and>
      shape False sql = Some ''alert.name = ?'' \<and> shape False sql' = Some ''alert.name = ?''"
    if p: "get_cel_to_sql_provider_for_dialect doubling_literal name = Inr d"
      and c: "case build_sql_filter d severity_metadata (name_equals quote_value) of
        Inl _ \<Rightarrow> False | Inr sql \<Rightarrow> shape False sql = Some ''alert.name = ?''" for name d
  proof -
    from c obtain sql where sql: "build_sql_filter d severity_metadata (name_equals quote_value) = Inr sql"
      "shape False sql = Some ''alert.name = ?''" by (auto split: sum.splits)
    from string_constants_keep_sql_structure [OF p doubling_quotes safe, of severity_metadata] sql show ?thesis
      by auto
  qed
  have "case build_sql_filter (sqlite_dialect doubling_literal) severity_metadata (name_equals quote_value) of
      Inl _ \<Rightarrow> False | Inr sql \<Rightarrow> shape False sql = Some ''alert.name = ?''" by code_simp
  from one [OF d(1) this] obtain a b where ab:
    "build_sql_filter (sqlite_dialect doubling_literal) severity_metadata (name_equals quote_value) = Inr a"
    "build_sql_filter (sqlite_dialect doubling_literal) severity_metadata (name_equals ''cpu'') = Inr b"
    "shape False a = Some ''alert.name = ?''" "shape False b = Some ''alert.name = ?''" by blast
  have "case build_sql_filter (postgres_dialect doubling_literal) severity_metadata (name_equals quote_value) of
      Inl _ \<Rightarrow> False | Inr sql \<Rightarrow> shape False sql = Some ''alert.name = ?''" by code_simp
  from one [OF d(2) this] ab show ?thesis by blast
qed

text \<open>
  In MySQL's default lexing the same processor lets a value out of its literal: for
  \<open>name == "\\' OR 1=1 -- "\<close> the literal ends after the escaped quote, what follows is read as SQL and
  the rest of the statement as a comment.
\<close>

definition backslash_value :: string where
  "backslash_value = [CHR 0x5C] @ sq @ '' OR 1=1 -- ''"

theorem backslash_ends_the_literal_in_mysql:
  "get_cel_to_sql_provider_for_dialect doubling_literal ''mysql'' = Inr (mysql_dialect doubling_literal)"
  "case build_sql_filter (mysql_dialect doubling_literal) severity_metadata (name_equals backslash_value) of
      Inl _ \<Rightarrow> False
    | Inr sql \<Rightarrow> sql = ''alert.name = '' @ quoted ([CHR 0x5C] @ sq) @ '' OR 1=1 -- '' @ sq"
  "shape True (''alert.name = '' @ quoted ([CHR 0x5C] @ sq) @ '' OR 1=1 -- '') = Some ''alert.name = ? OR 1=1 -- ''"
  by (simp add: get_cel_to_sql_provider_for_dialect_def, code_simp+)

text \<open>
  Column and key names are not covered by that.  A catch-all mapping copies the keys of a filter
  into the JSON path unescaped, so a quote in an index expression ends the path literal.  For
  \<open>labels["a') as TEXT) OR 1=1 --"] == "v"\<close> the text continues with \<open>OR 1=1\<close> outside every literal
  and comments out the rest, which leaves a literal open.
\<close>

definition quote_key :: string where
  "quote_key = ''a'' @ sq @ '') as TEXT) OR 1=1 --''"

definition index_equals :: "string \<Rightarrow> lark" where
  "index_equals key = Tree ''relation'' [Tree ''relation_eq'' [Tree ''member_index''
     [Tree ''ident'' [Token ''labels''], Tree ''literal'' [Token (dq @ key @ dq)]]],
       Tree ''literal'' [Token (dq @ ''v'' @ dq)]]"

theorem json_key_escapes_its_literal:
  "(case convert_to_sql_str (sample_runtime (index_equals quote_key)) (sqlite_dialect doubling_literal)
       (properties_metadata_init sample_configurations) ''labels[k] == v'' of
      Inl _ \<Rightarrow> False
    | Inr sql \<Rightarrow>
        prefixed (''CAST(json_extract(event, '' @ quoted (''$.'' @ dq @ ''labels'' @ dq @ ''.'' @ dq @ ''a'')
          @ '') as TEXT) OR 1=1 --'') sql \<and> shape False sql = None)"
  by code_simp

text \<open>
  A date compared with an array column is embedded, with its own quotes, in the literal of the
  array item: in SQLite the \<open>[1:-1]\<close> that is meant to strip quotes strips the first letter of
  \<open>datetime\<close> and the closing parenthesis instead, and the digits of the date end up outside every literal.
\<close>

definition new_year :: pyval where
  "new_year = PyDate \<lparr>dt_year = 2025, dt_month = 1, dt_day = 1, dt_hour = 0, dt_minute = 0, dt_second = 0, dt_suffix = []\<rparr>"

theorem array_date_malformed:
  "build_sql_filter (sqlite_dialect doubling_literal) severity_metadata
     (ComparisonNode (Some (PropertyAccessNode [''tags''] (Some DArray))) EQ (Some (INode (ConstantNode new_year)))) =
   Inr (''(SELECT 1 FROM json_each(tags) as json_array WHERE json_array.value = '' @ quoted ''atetime(''
     @ ''2025-01-01 00:00:00'' @ quoted [] @ '')'')"
  by code_simp

end
