(* ===== verification/Cel_Totality.thy ===== *)
theory Cel_Totality
  imports Cel_Injection
begin

text \<open>
  The builder is total on the filters the mapper makes of supported expressions: a second contract
  for the dialect classes (\<open>total_methods\<close>, \<open>total_dialect\<close>), interpreted for the three of them, and
  the mapping of \<open>supported\<close> filters to \<open>buildable\<close> ones.
\<close>

section \<open>Totality of the builder\<close>

text \<open>A result that the builder accepts: some text, and not the empty one.\<close>

definition builds :: "pyexc + string \<Rightarrow> bool" where
  "builds r \<longleftrightarrow> (\<exists>s. r = Inr s \<and> s \<noteq> [])"

lemma builds_Inr [simp]: "builds (Inr s) \<longleftrightarrow> s \<noteq> []" "\<not> builds (Inl e)"
  by (simp_all add: builds_def)

lemma builds_non_empty [simp]: "builds (non_empty r) \<longleftrightarrow> builds r"
  by (cases r) (auto simp: non_empty_def)

lemma builds_bind: "builds r \<Longrightarrow> (\<And>s. s \<noteq> [] \<Longrightarrow> builds (f s)) \<Longrightarrow> builds (rbind r f)"
  by (auto simp: builds_def)

lemma builds_ok: "builds r \<Longrightarrow> is_ok r"
  by (auto simp: builds_def)

lemma is_ok_bind: "is_ok r \<Longrightarrow> (\<And>a. r = Inr a \<Longrightarrow> builds (f a)) \<Longrightarrow> builds (rbind r f)"
  by (auto simp: is_ok_iff)

lemma is_ok_rbind [simp]: "is_ok (rbind r f) \<longleftrightarrow> (\<exists>a. r = Inr a \<and> is_ok (f a))"
  by (cases r) auto

lemma is_ok_traverse: "is_ok (traverse f xs) \<longleftrightarrow> (\<forall>x \<in> set xs. is_ok (f x))"
  by (induction xs) (auto simp: is_ok_iff)

lemma foldl_or_total: "q \<noteq> [] \<Longrightarrow> foldl visit_logical_or q qs \<noteq> []"
  by (induction qs arbitrary: q) (simp_all add: visit_logical_or_def)

lemma or_chain_total: "qs \<noteq> [] \<Longrightarrow> \<forall>q \<in> set qs. q \<noteq> [] \<Longrightarrow> builds (or_chain qs)"
  by (cases qs) (simp_all add: or_chain_def foldl_or_total)

definition castable :: "data_type option \<Rightarrow> bool" where
  "castable t \<longleftrightarrow> t \<notin> {Some DUuid, Some DObject, Some DArray}"

definition constant_item :: "pyval \<Rightarrow> item option" where
  "constant_item v = Some (INode (ConstantNode v))"

text \<open>What a property is mapped to: a column, a JSON path, or several of these.\<close>

definition named_access :: "node \<Rightarrow> bool" where
  "named_access n = (case n of
     PropertyAccessNode p t \<Rightarrow> py_join ''.'' p \<noteq> [] | JsonPropertyAccessNode j p t \<Rightarrow> True | _ \<Rightarrow> False)"

definition mapped_property :: "node \<Rightarrow> bool" where
  "mapped_property n = (case n of
     MultipleFieldsNode fs t \<Rightarrow> fs \<noteq> [] \<and> list_all named_access fs | _ \<Rightarrow> named_access n)"

lemma named_access_property: "named_access n \<Longrightarrow> is_property_access n"
  by (cases n) (simp_all add: named_access_def)

lemma mapped_property_simps [simp]:
  "mapped_property (MultipleFieldsNode fs t) \<longleftrightarrow> fs \<noteq> [] \<and> list_all named_access fs"
  "mapped_property (PropertyAccessNode p t) \<longleftrightarrow> py_join ''.'' p \<noteq> []"
  "mapped_property (JsonPropertyAccessNode j p t)"
  by (simp_all add: mapped_property_def named_access_def)

lemma mapped_property_cases:
  assumes "mapped_property x"
  obtains (column) p t where "x = PropertyAccessNode p t" "py_join ''.'' p \<noteq> []"
  | (json) j p t where "x = JsonPropertyAccessNode j p t"
  | (multiple) fs t where "x = MultipleFieldsNode fs t" "fs \<noteq> []" "list_all named_access fs"
  using assms by (cases x) (auto simp: mapped_property_def named_access_def)

text \<open>In a membership test the JSON operand is cast to the property's type.\<close>

definition in_castable :: "node \<Rightarrow> bool" where
  "in_castable x = (case x of
     JsonPropertyAccessNode j p t \<Rightarrow> castable t
   | MultipleFieldsNode fs t \<Rightarrow> list_ex is_json_access fs \<longrightarrow> castable t
   | _ \<Rightarrow> True)"

locale total_methods =
  fixes lawful :: bool and d :: "'x sql_methods_scheme"
  assumes json_total: "json_extract_as_text d c path \<noteq> []"
    and json_contains_total: "path \<noteq> [] \<Longrightarrow> builds (json_contains_path d c path)"
    and cast_total: "t \<noteq> None \<Longrightarrow> castable t \<Longrightarrow> is_ok (sql_cast d e t)"
    and constant_total: "is_ok (visit_constant d v t)"
    and string_total: "lawful \<Longrightarrow> builds (visit_constant d (PyStr s) t)"
    and boolean_total: "builds (visit_constant d (PyBool b) t)"
    and contains_total: "builds (visit_contains d a (constant_item v))"
    and starts_with_total: "builds (visit_starts_with d a (constant_item v))"
    and ends_with_total: "builds (visit_ends_with d a (constant_item v))"
begin

lemma property_total: "named_access n \<Longrightarrow> builds (visit_property_access_node d n)"
  using json_total by (cases n) (simp_all add: visit_property_access_node_def named_access_def)

lemma multiple_total:
  assumes "fs \<noteq> []" and "list_all named_access fs"
  shows "builds (visit_multiple_fields_node d fs None)"
proof -
  have arg: "builds (multiple_fields_arg d h None n)" if "named_access n" for h n
    unfolding multiple_fields_arg_def using property_total [OF that] by (rule builds_bind) simp
  have "is_ok (traverse (multiple_fields_arg d (list_ex is_json_access fs) None) fs)"
    using builds_ok [OF arg] assms(2) by (simp add: is_ok_traverse list_all_iff)
  then obtain args where args: "traverse (multiple_fields_arg d (list_ex is_json_access fs) None) fs = Inr args"
    by (auto simp: is_ok_iff)
  then have all2: "list_all2 (\<lambda>n a. multiple_fields_arg d (list_ex is_json_access fs) None n = Inr a) fs args"
    by (simp add: traverse_list_all2)
  have "a \<noteq> []" if "a \<in> set args" for a
    using that all2 arg assms(2)
    by (auto simp: list_all2_conv_all_nth in_set_conv_nth list_all_iff builds_def) (metis nth_mem sum.inject(2))
  moreover have "args \<noteq> []" using assms(1) all2 by auto
  ultimately have "coalesce args \<noteq> []" by (cases args) (auto simp: coalesce_alt)
  with args show ?thesis by (simp add: visit_multiple_fields_node_def)
qed

lemma all_instances_total: "is_ok (all_instances t (map constant_item vs))"
  by (induction vs) (auto simp: constant_item_def arg_value_def)

lemma constant_values_items: "constant_values (map constant_item vs) = vs"
  by (induction vs) (simp_all add: constant_item_def)

lemma first_operand_total:
  assumes "mapped_property x" and "in_castable x"
  shows "is_ok (in_first_operand d (Some x) built st)"
proof -
  have cast: "is_ok (sql_cast d e (Some DString))" "t \<noteq> None \<Longrightarrow> castable t \<Longrightarrow> is_ok (sql_cast d e t)" for e t
    using cast_total by (simp_all add: castable_def)
  from assms(1) show ?thesis
  proof (cases rule: mapped_property_cases)
    case (column p t)
    then have "is_ok (visit_property_access_node d x)" by (simp add: visit_property_access_node_def)
    with column cast show ?thesis by (cases st) (auto simp: in_first_operand_def is_ok_iff)
  next
    case (json j p t)
    then have "is_ok (visit_property_access_node d x)" by (simp add: visit_property_access_node_def)
    with json cast assms(2) show ?thesis by (cases t) (auto simp: in_first_operand_def in_castable_def is_ok_iff)
  next
    case (multiple fs t)
    then obtain a where "visit_multiple_fields_node d fs None = Inr a" using multiple_total by (auto simp: builds_def)
    with multiple cast assms(2) show ?thesis
      by (cases "list_ex is_json_access fs \<and> t \<noteq> None") (auto simp: in_first_operand_def in_castable_def simp flip: is_ok_iff)
  qed
qed

lemma get_data_type_total: "mapped_property x \<Longrightarrow> is_ok (get_data_type_to_convert (Some x))"
  by (cases rule: mapped_property_cases) auto

lemma in_query_total:
  assumes "mapped_property x" and "vs \<noteq> [] \<or> n"
  shows "builds (in_query d (Some x) a vs n)"
proof -
  obtain t where "get_data_type_to_convert (Some x) = Inr t" using get_data_type_total [OF assms(1)] by (auto simp: is_ok_iff)
  then have "is_ok (traverse (\<lambda>v. rbind (get_data_type_to_convert (Some x)) (visit_constant d v)) vs)"
    using constant_total by (simp add: is_ok_traverse)
  with assms(2) show ?thesis
    by (auto simp: in_query_def is_ok_iff visit_equal_def visit_logical_or_def)
qed

lemma visit_in_total:
  assumes "mapped_property x" and "in_castable x" and "vs \<noteq> []"
  shows "builds (visit_in d (Some x) built (map constant_item vs))"
proof -
  obtain v ws where vs: "vs = v # ws" using assms(3) by (cases vs) auto
  have "arg_value (hd (map constant_item vs)) = Inr v" by (simp add: vs constant_item_def arg_value_def)
  moreover have "filter (\<lambda>v. v \<noteq> PyNone) vs \<noteq> [] \<or> PyNone \<in> set vs" using vs by (auto simp: filter_empty_conv)
  ultimately show ?thesis
    using assms(1,3) first_operand_total [OF assms(1,2)] all_instances_total
    by (auto simp: visit_in_def constant_values_items intro!: is_ok_bind in_query_total)
qed

text \<open>Comparisons with a constant.\<close>

lemma second_constant_total:
  "\<not> string_operator p \<Longrightarrow> \<exists>y k. second_constant d p t (constant_item v) = Inr (Some y, Some k) \<and> castable (Some k)"
  using constant_total [of v t]
  by (cases v) (auto simp: second_constant_def constant_item_def is_ok_iff castable_def)

lemma apply_operator_total:
  "p \<noteq> IN_OP \<Longrightarrow> builds (apply_operator d p a b (constant_item v))"
  using contains_total starts_with_total ends_with_total
  by (cases p) (simp_all add: apply_operator_def visit_equal_def visit_not_equal_def visit_greater_than_def
      visit_greater_than_or_equal_def visit_less_than_def visit_less_than_or_equal_def)

lemma compare_total:
  assumes "mapped_property x" and "p \<noteq> IN_OP" and "is_ok fb" and "string_operator p \<Longrightarrow> is_ok sb"
  shows "builds (compare_operands d (Some x) fb p (constant_item v) sb)"
proof -
  obtain a where a: "fb = Inr a" using assms(3) by (auto simp: is_ok_iff)
  note last = apply_operator_total [OF assms(2)]
  show ?thesis
  proof (cases "string_operator p")
    case True
    then obtain b where "sb = Inr b" using assms(4) by (auto simp: is_ok_iff)
    with True show ?thesis using last
      by (simp add: compare_operands_def a force_cast_def second_constant_def constant_item_def
          first_operand_data_type_def cast_first_operand_def)
  next
    case False
    have "is_ok (force_cast p (Some x))"
      using assms(1) by (cases rule: mapped_property_cases) (auto simp: force_cast_def forces_cast_def split: list.splits)
    then obtain k where k: "force_cast p (Some x) = Inr k" by (auto simp: is_ok_iff)
    obtain y t where y: "second_constant d p (first_operand_data_type p (Some x)) (constant_item v) = Inr (Some y, Some t)"
      "castable (Some t)" using second_constant_total [OF False] by blast
    have "is_ok (cast_first_operand d k (first_operand_data_type p (Some x)) (Some t) a)"
      using cast_total [OF _ y(2)] by (simp add: cast_first_operand_def)
    with last show ?thesis by (auto simp: compare_operands_def a k y(1) is_ok_iff)
  qed
qed

end

locale total_dialect = total_methods lawful d for lawful :: bool and d :: sql_dialect +
  assumes equal_array_total: "is_property_access f \<Longrightarrow> builds (visit_equal_array d f (constant_item v))"
    and in_array_total: "is_property_access f \<Longrightarrow> vs \<noteq> [] \<Longrightarrow> builds (visit_in_array d f (map constant_item vs))"
begin

lemma comparison_total:
  assumes "mapped_property x" and "is_ok fb" and "string_operator p \<Longrightarrow> is_ok sb"
    and "if p = IN_OP then (is_array_access (Some x) \<or> in_castable x) \<and> vs \<noteq> [] \<and> as_array s = map constant_item vs
         else s = constant_item v"
  shows "builds (visit_comparison d (Some x) fb p s sb)"
proof -
  have property: "is_property_access x" if "is_array_access (Some x)" using that by (simp add: is_array_access_def)
  show ?thesis
    using assms property in_array_total visit_in_total equal_array_total compare_total
    by (cases "p = IN_OP"; cases "is_array_access (Some x)") (auto simp: visit_comparison_def)
qed

lemma build_property_total:
  assumes "mapped_property x"
  shows "builds (build_sql_filter d m x)"
  using assms
proof (cases rule: mapped_property_cases)
  case (multiple fs t)
  then show ?thesis using multiple_total by simp
qed (use property_total [of x] in \<open>simp_all add: sql_member_access_node_def named_access_def\<close>)

end

section \<open>Which filters are supported\<close>

fun constants_list :: "item list \<Rightarrow> pyval list option" where
  "constants_list [] = Some []"
| "constants_list (INode (ConstantNode v) # is) = map_option (Cons v) (constants_list is)"
| "constants_list (i # is) = None"

text \<open>
  A constant operand; a list of constants for \<open>in\<close>, and a string for the string methods.
\<close>

definition supported_operand :: "comparison_op \<Rightarrow> item option \<Rightarrow> bool" where
  "supported_operand p s = (case s of
     Some (INode (ConstantNode v)) \<Rightarrow> string_operator p \<longrightarrow> type_of v = TStr
   | Some (IList is) \<Rightarrow> p = IN_OP \<and> is \<noteq> [] \<and> constants_list is \<noteq> None
   | _ \<Rightarrow> False)"

definition has_buildable :: "properties_metadata \<Rightarrow> node \<Rightarrow> bool" where
  "has_buildable m n = (case n of
     PropertyAccessNode p t \<Rightarrow> is_ok (get_property_metadata m p)
   | JsonPropertyAccessNode j p t \<Rightarrow> p \<noteq> []
   | _ \<Rightarrow> False)"

fun buildable :: "properties_metadata \<Rightarrow> node \<Rightarrow> bool" where
  "buildable m (ParenthesisNode e) = buildable m e"
| "buildable m (LogicalNode l p r) = (buildable m l \<and> buildable m r)"
| "buildable m (ComparisonNode f p s) = (case f of None \<Rightarrow> False
     | Some x \<Rightarrow> mapped_property x \<and> supported_operand p s \<and>
         (p = IN_OP \<longrightarrow> is_array_access f \<or> in_castable x))"
| "buildable m (UnaryNode p x) = (case x of
     Some (INode n) \<Rightarrow> (case p of UNot \<Rightarrow> buildable m n | UNeg \<Rightarrow> False
       | UHas \<Rightarrow> (case n of MultipleFieldsNode fs t \<Rightarrow> fs \<noteq> [] \<and> list_all (has_buildable m) fs | _ \<Rightarrow> has_buildable m n))
   | _ \<Rightarrow> False)"
| "buildable m (ConstantNode v) = (type_of v = TBool)"
| "buildable m n = False"


lemma constants_list_map: "constants_list is = Some vs \<Longrightarrow> is = map (\<lambda>v. INode (ConstantNode v)) vs"
  by (induction "is" arbitrary: vs rule: constants_list.induct) auto

lemma as_array_supported:
  assumes "supported_operand p s" and "p = IN_OP"
  obtains vs where "vs \<noteq> []" and "as_array s = map constant_item vs"
proof (cases "\<exists>is. s = Some (IList is)")
  case True
  then obtain "is" vs where "s = Some (IList is)" "is \<noteq> []" "constants_list is = Some vs"
    using assms by (auto simp: supported_operand_def)
  then show thesis using constants_list_map [of "is" vs]
    by (intro that [of vs]) (auto simp: as_array_def constant_item_def)
next
  case False
  then obtain v where "s = Some (INode (ConstantNode v))"
    using assms(1) by (auto simp: supported_operand_def split: option.splits item.splits node.splits)
  then show thesis by (intro that [of "[v]"]) (simp_all add: as_array_def constant_item_def)
qed

lemma constant_supported:
  assumes "supported_operand p s" and "p \<noteq> IN_OP"
  obtains v where "s = constant_item v" and "string_operator p \<longrightarrow> type_of v = TStr"
  using assms by (auto simp: supported_operand_def constant_item_def split: option.splits item.splits node.splits)

context total_dialect
begin

lemma has_total: "has_buildable m n \<Longrightarrow> builds (visit_unary_has d m n)"
  using json_contains_total by (cases n) (auto simp: has_buildable_def is_ok_iff)

lemma has_multiple_total:
  assumes "fs \<noteq> []" and "list_all (has_buildable m) fs"
  shows "builds (visit_unary_has d m (MultipleFieldsNode fs t))"
proof -
  have "is_ok (traverse (\<lambda>n. non_empty (visit_unary_has d m n)) fs)"
    using assms(2) has_total by (auto simp: is_ok_traverse list_all_iff intro: builds_ok)
  then obtain qs where qs: "traverse (\<lambda>n. non_empty (visit_unary_has d m n)) fs = Inr qs" by (auto simp: is_ok_iff)
  then have "list_all2 (\<lambda>n q. non_empty (visit_unary_has d m n) = Inr q) fs qs" by (simp add: traverse_list_all2)
  then have "qs \<noteq> []" and "\<forall>q \<in> set qs. q \<noteq> []" using assms(1)
    by (auto simp: list_all2_conv_all_nth in_set_conv_nth non_empty_def split: if_splits)
  then have "builds (or_chain qs)" by (rule or_chain_total)
  with qs show ?thesis by simp
qed

lemma build_comparison_total:
  assumes "lawful" and "buildable m (ComparisonNode f p s)"
  shows "builds (build_sql_filter d m (ComparisonNode f p s))"
proof -
  from assms(2) obtain x where x: "f = Some x" "mapped_property x" "supported_operand p s"
    "p = IN_OP \<longrightarrow> is_array_access f \<or> in_castable x" by (cases f) auto
  have fb: "is_ok (build_sql_filter d m x)" using build_property_total [OF x(2)] by (rule builds_ok)
  show ?thesis
  proof (cases "p = IN_OP")
    case True
    with x(3) obtain vs where "vs \<noteq> []" "as_array s = map constant_item vs" by (rule as_array_supported)
    with True x fb comparison_total [of x "build_sql_filter d m x" p "build_operand d m s" vs s] show ?thesis
      by (simp add: string_operator_def)
  next
    case False
    with x(3) obtain v where v: "s = constant_item v" "string_operator p \<longrightarrow> type_of v = TStr" by (rule constant_supported)
    have "is_ok (build_operand d m s)" if "string_operator p"
      using that v string_total [OF assms(1)] by (cases v) (auto simp: constant_item_def intro: builds_ok)
    with False x fb v(1) comparison_total [of x "build_sql_filter d m x" p "build_operand d m s" "[]" s v] show ?thesis
      by simp
  qed
qed

lemma build_total: "lawful \<Longrightarrow> buildable m n \<Longrightarrow> builds (build_sql_filter d m n)"
proof (induction n rule: buildable.induct)
  case (1 m e)
  then show ?case by (auto intro!: builds_bind simp: visit_parentheses_def)
next
  case (2 m l p r)
  then show ?case
    by (auto intro!: builds_bind simp: visit_logical_node_def visit_logical_and_def visit_logical_or_def)
next
  case (3 m f p s)
  then show ?case using build_comparison_total by blast
next
  case (4 m p x)
  then obtain n where n: "x = Some (INode n)" by (auto split: option.splits item.splits)
  show ?case
  proof (cases p)
    case UNot
    with 4 n show ?thesis by (auto intro!: builds_bind)
  next
    case UHas
    with 4 n show ?thesis using has_total has_multiple_total by (cases n) (auto simp del: visit_unary_has.simps)
  next
    case UNeg
    with 4 n show ?thesis by simp
  qed
next
  case (5 m v)
  then show ?case using boolean_total by (cases v) simp_all
qed simp_all

end

section \<open>The dialects are total\<close>

definition non_empty_literals :: "(string \<Rightarrow> string) \<Rightarrow> bool" where
  "non_empty_literals lit \<longleftrightarrow> (\<forall>s. lit s \<noteq> [])"

lemma dialect_constant_total:
  "is_ok (sqlite_constant lit v t)" "is_ok (mysql_constant lit v t)" "is_ok (postgres_constant lit v t)"
  by (simp_all add: sqlite_constant_def mysql_constant_def postgres_constant_def base_constant_def Let_def
      split: pyval.splits)

lemma dialect_cast_total:
  assumes "t \<noteq> None" and "castable t"
  shows "is_ok (sqlite_cast e t)" "is_ok (mysql_cast k e t)" "is_ok (postgres_cast e t)"
proof -
  obtain x where "t = Some x" using assms(1) by blast
  with assms(2) show "is_ok (sqlite_cast e t)" "is_ok (mysql_cast k e t)" "is_ok (postgres_cast e t)"
    by (cases x; simp add: castable_def sqlite_cast_def mysql_cast_def postgres_cast_def)+
qed

lemma dialect_boolean_total:
  "builds (sqlite_constant lit (PyBool b) t)" "builds (mysql_constant lit (PyBool b) t)"
  "builds (postgres_constant lit (PyBool b) t)"
proof -
  have nonempty: "py_lower (py_str (PyBool b)) \<noteq> []" by (cases b) (simp_all add: py_lower_def)
  have u: "as_uuid r t (PyBool b) = PyBool b" for r
  proof -
    have "uuid_int (py_str (PyBool True)) = None" "uuid_int (py_str (PyBool False)) = None" by code_simp+
    then show ?thesis by (cases b) (simp_all add: as_uuid_def)
  qed
  show "builds (sqlite_constant lit (PyBool b) t)" "builds (mysql_constant lit (PyBool b) t)"
    "builds (postgres_constant lit (PyBool b) t)"
    using nonempty by (simp_all add: sqlite_constant_def mysql_constant_def postgres_constant_def u base_constant_def)
qed

lemma dialect_string_total:
  assumes "non_empty_literals lit"
  shows "builds (sqlite_constant lit (PyStr s) t)" "builds (mysql_constant lit (PyStr s) t)"
    "builds (postgres_constant lit (PyStr s) t)"
proof -
  have "\<exists>u. as_uuid r t (PyStr s) = PyStr u" for r by (auto simp: as_uuid_def split: option.splits)
  then obtain u w where "as_uuid uuid_hex t (PyStr s) = PyStr u" "as_uuid uuid_str t (PyStr s) = PyStr w" by blast
  with assms show "builds (sqlite_constant lit (PyStr s) t)" "builds (mysql_constant lit (PyStr s) t)"
    "builds (postgres_constant lit (PyStr s) t)"
    by (simp_all add: sqlite_constant_def mysql_constant_def postgres_constant_def base_constant_def literal_proc_def
        non_empty_literals_def)
qed

lemma like_total: "like p s opr pre b post \<noteq> []"
  by (simp add: like_def)

lemma dialect_methods_total:
  "builds (sqlite_contains lit a (constant_item v))" "builds (sqlite_starts_with lit a (constant_item v))"
  "builds (sqlite_ends_with lit a (constant_item v))" "builds (mysql_contains lit a (constant_item v))"
  "builds (mysql_starts_with lit a (constant_item v))" "builds (mysql_ends_with lit a (constant_item v))"
  "builds (postgres_contains lit a (constant_item v))" "builds (postgres_starts_with lit a (constant_item v))"
  "builds (postgres_ends_with lit a (constant_item v))"
  by (simp_all add: sqlite_contains_def sqlite_starts_with_def sqlite_ends_with_def mysql_contains_def
      mysql_starts_with_def mysql_ends_with_def postgres_contains_def postgres_starts_with_def
      postgres_ends_with_def constant_item_def arg_value_def like_total)

lemma dialect_equal_array_total:
  assumes "is_property_access f"
  shows "builds (sqlite_equal_array lit f (constant_item v))" "builds (mysql_equal_array lit f (constant_item v))"
    "builds (postgres_equal_array lit f (constant_item v))"
proof -
  have p: "\<exists>s. visit_property_access_node d f = Inr s" for d :: sql_methods
    using assms by (cases f) (simp_all add: visit_property_access_node_def)
  have "\<exists>c. sqlite_constant lit v None = Inr c" "\<exists>c. mysql_constant lit v None = Inr c"
    "\<exists>c. postgres_constant lit v None = Inr c" using dialect_constant_total by (simp_all add: is_ok_iff)
  with p [of "sqlite_methods lit"] p [of "mysql_methods lit"] p [of "postgres_methods lit"] assms
  show "builds (sqlite_equal_array lit f (constant_item v))" "builds (mysql_equal_array lit f (constant_item v))"
    "builds (postgres_equal_array lit f (constant_item v))"
    by (auto simp: sqlite_equal_array_def mysql_equal_array_def postgres_equal_array_def array_operands_def
        constant_item_def sqlite_array_null_def sqlite_array_filter_def mysql_array_null_def mysql_array_item_def
        postgres_array_null_def postgres_array_item_def)
qed

lemma disjunction_total:
  assumes "\<And>v. builds (eq f (constant_item v))" and "vs \<noteq> []"
  shows "builds (in_array_disjunction eq f (map constant_item vs))"
proof -
  have "map_option node_or_any (constant_item v) = constant_item v" for v by (simp add: constant_item_def)
  then have "is_ok (traverse (\<lambda>i. non_empty (eq f (map_option node_or_any i))) (map constant_item vs))"
    using assms(1) by (auto simp: is_ok_traverse intro: builds_ok)
  then obtain qs where qs: "traverse (\<lambda>i. non_empty (eq f (map_option node_or_any i))) (map constant_item vs) = Inr qs"
    by (auto simp: is_ok_iff)
  then have all2: "list_all2 (\<lambda>i q. non_empty (eq f (map_option node_or_any i)) = Inr q) (map constant_item vs) qs"
    by (simp add: traverse_list_all2)
  then have "qs \<noteq> []" and "\<forall>q \<in> set qs. q \<noteq> []" using assms(2)
    by (auto simp: list_all2_conv_all_nth in_set_conv_nth non_empty_def split: if_splits)
  then have "builds (or_chain qs)" by (rule or_chain_total)
  with qs show ?thesis by (simp add: in_array_disjunction_def)
qed

lemma any_none_total: "is_ok (any_none (map constant_item vs))"
  by (induction vs) (auto simp: constant_item_def arg_value_def)


lemma dialect_json_total:
  "sqlite_json_extract_as_text c p \<noteq> []" "mysql_json_extract_as_text c p \<noteq> []" "postgres_json_extract_as_text c p \<noteq> []"
  "p \<noteq> [] \<Longrightarrow> builds (sqlite_json_contains_path c p)" "builds (mysql_json_contains_path c p)"
  "builds (postgres_json_contains_path c p)"
  by (simp_all add: sqlite_json_extract_as_text_def mysql_json_extract_as_text_def postgres_json_extract_as_text_def
      sqlite_json_contains_path_def mysql_json_contains_path_def postgres_json_contains_path_def Let_def)

lemmas dialect_total = dialect_constant_total dialect_cast_total dialect_boolean_total dialect_string_total
  dialect_methods_total dialect_json_total dialect_equal_array_total disjunction_total

interpretation sqlite_methods_total: total_methods "non_empty_literals lit" "sqlite_methods lit" for lit
  by unfold_locales (simp_all add: sqlite_methods_def dialect_total)

lemma sqlite_in_array_total:
  assumes "is_property_access f" and "vs \<noteq> []"
  shows "builds (sqlite_in_array lit f (map constant_item vs))"
proof -
  have "builds (visit_in (sqlite_methods lit) (Some (PropertyAccessNode [''json_array'', ''value''] None))
      (Inl NotImplementedError) (map constant_item vs))"
    using assms(2) by (intro sqlite_methods_total.visit_in_total) (simp_all add: in_castable_def)
  moreover have "is_ok (visit_property_access_node (sqlite_methods lit) f)"
    using assms(1) by (cases f) (simp_all add: visit_property_access_node_def)
  ultimately obtain s c b where "visit_in (sqlite_methods lit) (Some (PropertyAccessNode [''json_array'', ''value''] None))
      (Inl NotImplementedError) (map constant_item vs) = Inr s"
    "visit_property_access_node (sqlite_methods lit) f = Inr c" "any_none (map constant_item vs) = Inr b"
    using any_none_total [of vs] by (auto simp: builds_def is_ok_iff)
  then show ?thesis by (cases b) (simp_all add: sqlite_in_array_def Let_def sqlite_array_filter_def)
qed

interpretation sqlite_total: total_dialect "non_empty_literals lit" "sqlite_dialect lit" for lit
  by unfold_locales (simp_all add: sqlite_dialect_def sql_methods.defs sql_dialect.defs sqlite_methods_def
      dialect_total sqlite_in_array_total)

interpretation mysql_total: total_dialect "non_empty_literals lit" "mysql_dialect lit" for lit
  by unfold_locales (simp_all add: mysql_dialect_def sql_methods.defs sql_dialect.defs mysql_methods_def dialect_total)

interpretation postgres_total: total_dialect "non_empty_literals lit" "postgres_dialect lit" for lit
  by unfold_locales (simp_all add: postgres_dialect_def sql_methods.defs sql_dialect.defs postgres_methods_def dialect_total)

lemma provider_total:
  assumes "get_cel_to_sql_provider_for_dialect lit name = Inr d" and "non_empty_literals lit" and "buildable m n"
  shows "builds (build_sql_filter d m n)"
  using assms sqlite_total.build_total mysql_total.build_total postgres_total.build_total
  by (auto simp: get_cel_to_sql_provider_for_dialect_def split: if_splits)

section \<open>From a supported filter to a buildable one\<close>

definition targets_ok :: "property_metadata_info \<Rightarrow> bool" where
  "targets_ok md \<longleftrightarrow> md_field_mappings md \<noteq> [] \<and> SimpleFieldMapping [] \<notin> set (md_field_mappings md)"

definition membership_ok :: "property_metadata_info \<Rightarrow> bool" where
  "membership_ok md \<longleftrightarrow> \<not> list_ex is_json_mapping (md_field_mappings md) \<or> castable (md_data_type md)
     \<or> (md_data_type md = Some DArray \<and> length (md_field_mappings md) = 1)"

definition supported_property :: "properties_metadata \<Rightarrow> string list \<Rightarrow> bool \<Rightarrow> bool" where
  "supported_property m path membership = (case get_property_metadata m path of
     Inr (Some md) \<Rightarrow> targets_ok md \<and> (membership \<longrightarrow> membership_ok md) | _ \<Rightarrow> False)"

definition supported_has :: "properties_metadata \<Rightarrow> string list \<Rightarrow> bool" where
  "supported_has m path = (case get_property_metadata m path of
     Inl e \<Rightarrow> False
   | Inr None \<Rightarrow> True
   | Inr (Some md) \<Rightarrow> md_field_mappings md \<noteq> [] \<and>
       list_all (\<lambda>f. case f of JsonFieldMapping j p \<Rightarrow> p \<noteq> []
                  | SimpleFieldMapping c \<Rightarrow> is_ok (get_property_metadata m [c])) (md_field_mappings md))"

fun supported :: "properties_metadata \<Rightarrow> node \<Rightarrow> bool" where
  "supported m (ParenthesisNode e) = supported m e"
| "supported m (LogicalNode l p r) = (supported m l \<and> supported m r)"
| "supported m (ComparisonNode f p s) = (case f of
     Some (PropertyAccessNode path t) \<Rightarrow>
       supported_property m path (p = IN_OP \<or> p \<in> {GT, GE, LT, LE}) \<and> supported_operand p s
   | _ \<Rightarrow> False)"
| "supported m (UnaryNode p x) = (case x of
     Some (INode n) \<Rightarrow> (case p of UNot \<Rightarrow> supported m n | UNeg \<Rightarrow> False
       | UHas \<Rightarrow> (case n of PropertyAccessNode path t \<Rightarrow> supported_has m path | _ \<Rightarrow> False))
   | _ \<Rightarrow> False)"
| "supported m (PropertyAccessNode path t) = supported_property m path False"
| "supported m (ConstantNode v) = (type_of v = TBool)"
| "supported m n = False"

lemma supported_boolean: "supported m n \<Longrightarrow> is_boolean_filter_node n"
  by (induction m n rule: supported.induct) (auto split: option.splits item.splits unary_op.splits)

lemma supported_operand_kept: "supported_operand p s \<Longrightarrow> map_option node_or_any s = s"
proof -
  assume s: "supported_operand p s"
  show ?thesis
  proof (cases "\<exists>is. s = Some (IList is)")
    case True
    then obtain "is" where eq: "s = Some (IList is)" by blast
    with s obtain vs where "constants_list is = Some vs" "is \<noteq> []" by (auto simp: supported_operand_def)
    with constants_list_map [of "is" vs] eq node_or_any_nodes [of "map ConstantNode vs"] show ?thesis
      by (simp add: comp_def)
  next
    case False
    with s show ?thesis by (auto simp: supported_operand_def split: option.splits item.splits node.splits)
  qed
qed

lemma canonical_type [simp]: "type_of (canonicalize_enum_value v es) = type_of v"
  by (cases v) (auto simp: canonicalize_enum_value_def split: option.splits)

lemma constants_list_consts [simp]: "constants_list (map (\<lambda>v. INode (ConstantNode v)) vs) = Some vs"
  by (induction vs) simp_all

lemma canonical_supported: "supported_operand p s \<Longrightarrow> supported_operand p (canonicalize_enum_operand s es)"
proof -
  assume s: "supported_operand p s"
  show ?thesis
  proof (cases "\<exists>is. s = Some (IList is)")
    case True
    then obtain "is" where eq: "s = Some (IList is)" by blast
    with s obtain vs where vs: "constants_list is = Some vs" "is \<noteq> []" "p = IN_OP" by (auto simp: supported_operand_def)
    have "map (canonicalize_item es) is = map (\<lambda>v. INode (ConstantNode v)) (map (\<lambda>v. canonicalize_enum_value v es) vs)"
      using constants_list_map [OF vs(1)] by simp
    with eq vs constants_list_map [OF vs(1)] show ?thesis by (simp add: supported_operand_def del: map_map)
  next
    case False
    with s show ?thesis
      by (auto simp: supported_operand_def split: option.splits item.splits node.splits)
  qed
qed

lemma in_constants_buildable:
  assumes "mapped_property x" and "is_array_access (Some x) \<or> in_castable x" and "es \<noteq> []"
  shows "buildable m (new_comparison x IN_OP (Some (constants es)))"
proof -
  have c: "constants es = IList (map (\<lambda>v. INode (ConstantNode v)) (map PyStr es))" by (simp add: constants_def comp_def)
  with assms(3) have "supported_operand IN_OP (Some (constants es))" by (simp add: supported_operand_def del: map_map)
  with assms supported_operand_kept [OF this] show ?thesis by (simp add: new_comparison_def)
qed

lemma modify_buildable:
  assumes "mapped_property x" and "p = IN_OP \<or> p \<in> {GT, GE, LT, LE} \<Longrightarrow> is_array_access (Some x) \<or> in_castable x"
    and "supported_operand p s"
  shows "case modify_comparison_node_based_on_mapping x p s md of None \<Rightarrow> True | Some n \<Rightarrow> buildable m n"
proof -
  define t where "t = (if enums_of md \<noteq> [] \<and> p \<in> set enum_canonicalization_operators
    then map_option node_or_any (canonicalize_enum_operand s (enums_of md)) else s)"
  have t: "supported_operand p t"
    using assms(3) canonical_supported [OF assms(3), of "enums_of md"] supported_operand_kept [of p "canonicalize_enum_operand s (enums_of md)"]
    by (simp add: t_def)
  have plain: "buildable m (ComparisonNode (Some x) p t)" using assms(1,2) t by auto
  have modify: "modify_comparison_node_based_on_mapping x p s md = (case t of
      Some (INode (ConstantNode v)) \<Rightarrow> (if enums_of md \<noteq> [] \<and> p \<in> {GE, GT, LE, LT}
        then enum_range_comparison x p v (enums_of md) else Some (ComparisonNode (Some x) p t))
    | _ \<Rightarrow> Some (ComparisonNode (Some x) p t))"
    unfolding modify_comparison_node_based_on_mapping_def Let_def t_def by (rule refl)
  show ?thesis
  proof (cases "\<exists>v. t = Some (INode (ConstantNode v)) \<and> enums_of md \<noteq> [] \<and> p \<in> {GE, GT, LE, LT}")
    case False
    then have "modify_comparison_node_based_on_mapping x p s md = Some (ComparisonNode (Some x) p t)"
      unfolding modify by (cases t; cases "the t") (auto split: node.splits)
    with plain show ?thesis by simp
  next
    case True
    then obtain v where v: "t = Some (INode (ConstantNode v))" "enums_of md \<noteq> []" "p \<in> {GE, GT, LE, LT}" by blast
    then have "modify_comparison_node_based_on_mapping x p s md = enum_range_comparison x p v (enums_of md)"
      unfolding modify by auto
    moreover have "is_array_access (Some x) \<or> in_castable x" using assms(2) v(3) by blast
    note in_constants_buildable [OF assms(1) this]
    moreover have "index_of (enums_of md) (py_str v) < length (enums_of md)" if "enum_member v (enums_of md)"
      using that by (intro index_of_less) (auto simp: enum_member_def split: pyval.splits)
    ultimately show ?thesis using v(2,3)
      by (auto simp: enum_range_comparison_def enum_start_index_def Let_def)
  qed
qed


lemma json_accesses: "list_ex is_json_access (map (\<lambda>f. create_property_access_node f t) ms) = list_ex is_json_mapping ms"
  by (induction ms) (auto simp: create_property_access_node_def is_json_mapping_def split: field_mapping.splits)

lemma named_accesses:
  "SimpleFieldMapping [] \<notin> set ms \<Longrightarrow> list_all named_access (map (\<lambda>f. create_property_access_node f t) ms)"
  by (induction ms) (auto simp: create_property_access_node_def named_access_def split: field_mapping.splits)

lemma map_property_supported:
  assumes "supported_property m path b"
  obtains x md where "map_property m (PropertyAccessNode path t) th = Inr (x, md)" and "mapped_property x"
    and "b \<longrightarrow> is_array_access (Some x) \<or> in_castable x"
proof -
  from assms obtain md where md: "get_property_metadata m path = Inr (Some md)" "targets_ok md" "b \<longrightarrow> membership_ok md"
    by (auto simp: supported_property_def split: sum.splits option.splits)
  let ?ms = "md_field_mappings md" and ?ns = "map (\<lambda>f. create_property_access_node f (md_data_type md)) (md_field_mappings md)"
  have ne: "?ms \<noteq> []" and named: "list_all named_access ?ns"
    using md(2) named_accesses by (auto simp: targets_ok_def)
  show thesis
  proof (cases "length ?ms = 1")
    case True
    then obtain f where f: "?ms = [f]" by (cases ?ms) auto
    let ?x = "create_property_access_node f (md_data_type md)"
    have "map_property m (PropertyAccessNode path t) th = Inr (?x, md)" by (simp add: map_property_def md(1) f)
    moreover have "mapped_property ?x"
      using named f by (cases f) (auto simp: create_property_access_node_def named_access_def)
    moreover have "b \<longrightarrow> is_array_access (Some ?x) \<or> in_castable ?x"
      using md(3) f by (cases f) (auto simp: create_property_access_node_def in_castable_def is_array_access_def
          membership_ok_def is_json_mapping_def)
    ultimately show thesis by (rule that)
  next
    case False
    with ne obtain f g ms where f: "?ms = f # g # ms" by (cases ?ms; cases "tl ?ms") auto
    have "map_property m (PropertyAccessNode path t) th = Inr (MultipleFieldsNode ?ns (md_data_type md), md)"
      by (simp add: map_property_def md(1) f)
    moreover have "mapped_property (MultipleFieldsNode ?ns (md_data_type md))" using named ne by simp
    moreover have "b \<longrightarrow> is_array_access (Some (MultipleFieldsNode ?ns (md_data_type md))) \<or>
        in_castable (MultipleFieldsNode ?ns (md_data_type md))"
      using md(3) f by (auto simp: in_castable_def membership_ok_def json_accesses simp del: list.map)
    ultimately show thesis by (rule that)
  qed
qed

lemma truthiness_buildable:
  assumes "mapped_property x"
  shows "buildable m (truthiness_node x dt)"
proof -
  have ne: "buildable m (not_equal x v)" for v
    using assms by (simp add: not_equal_def new_comparison_def supported_operand_def string_operator_def)
  have "buildable m (foldl (\<lambda>n v. LogicalNode n LAnd (not_equal x v)) n vs)" if "buildable m n" for n vs
    using that ne by (induction vs arbitrary: n) auto
  with ne show ?thesis by (simp add: truthiness_node_def)
qed

lemma has_mapped_buildable:
  assumes "supported_has m path"
  shows "\<exists>x md. map_property m (PropertyAccessNode path t) False = Inr (x, md) \<and> buildable m (UnaryNode UHas (Some (INode x)))"
proof (cases "get_property_metadata m path")
  case (Inr r)
  show ?thesis
  proof (cases r)
    case None
    with Inr show ?thesis by (simp add: map_property_def has_buildable_def Let_def)
  next
    case (Some md)
    let ?c = "\<lambda>f. create_property_access_node f (md_data_type md)"
    have ne: "md_field_mappings md \<noteq> []" and all: "list_all (has_buildable m) (map ?c (md_field_mappings md))"
      using assms Inr Some
      by (auto simp: supported_has_def list_all_iff has_buildable_def create_property_access_node_def split: field_mapping.splits)
    show ?thesis
    proof (cases "length (md_field_mappings md) = 1")
      case True
      then obtain f where f: "md_field_mappings md = [f]" by (cases "md_field_mappings md") auto
      with Inr Some all show ?thesis
        by (cases f) (auto simp: map_property_def create_property_access_node_def)
    next
      case False
      with ne obtain f g ms where f: "md_field_mappings md = f # g # ms"
        by (cases "md_field_mappings md"; cases "tl (md_field_mappings md)") auto
      with Inr Some all show ?thesis by (simp add: map_property_def)
    qed
  qed
qed (use assms in \<open>simp add: supported_has_def\<close>)

lemma supported_maps:
  "supported m n \<Longrightarrow> \<exists>r fs. visit_nodes m n = Inr (r, fs) \<and> (case r of None \<Rightarrow> True | Some n' \<Rightarrow> buildable m n')"
proof (induction m n rule: supported.induct)
  case (2 m l p r)
  then obtain a fs b gs where l: "visit_nodes m l = Inr (a, fs)" "case a of None \<Rightarrow> True | Some n' \<Rightarrow> buildable m n'"
    and r: "visit_nodes m r = Inr (b, gs)" "case b of None \<Rightarrow> True | Some n' \<Rightarrow> buildable m n'" by auto
  then show ?case by (cases a; cases b) simp_all
next
  case (3 m f p s)
  then obtain path t where f: "f = Some (PropertyAccessNode path t)"
    and sup: "supported_property m path (p = IN_OP \<or> p \<in> {GT, GE, LT, LE})" "supported_operand p s"
    by (auto split: option.splits node.splits)
  obtain x md where x: "map_property m (PropertyAccessNode path t) True = Inr (x, md)" "mapped_property x"
    "(p = IN_OP \<or> p \<in> {GT, GE, LT, LE}) \<longrightarrow> is_array_access (Some x) \<or> in_castable x"
    using sup(1) by (rule map_property_supported)
  with modify_buildable [where x = x and p = p and s = s and m = m and md = md] sup(2) f show ?case
    by (simp add: visit_comparison_node_def supported_operand_kept)
next
  case (4 m p x)
  then obtain n where n: "x = Some (INode n)" by (auto split: option.splits item.splits)
  show ?case
  proof (cases p)
    case UNot
    with 4 n obtain r fs where r: "visit_nodes m n = Inr (r, fs)" "case r of None \<Rightarrow> True | Some n' \<Rightarrow> buildable m n'" by auto
    with UNot n show ?thesis by (cases r) auto
  next
    case UHas
    with 4 n obtain path t where "n = PropertyAccessNode path t" "supported_has m path" by (auto split: node.splits)
    with UHas n has_mapped_buildable [of m path t] show ?thesis by (auto simp del: buildable.simps)
  next
    case UNeg
    with 4 n show ?thesis by simp
  qed
next
  case (5 m path t)
  then have "supported_property m path False" by simp
  then obtain x md where "map_property m (PropertyAccessNode path t) True = Inr (x, md)" "mapped_property x"
    by (rule map_property_supported)
  then show ?case by (simp add: visit_member_access_node_def truthiness_buildable)
qed auto

end
