(* ===== verification/Cel_Outcomes.thy ===== *)
theory Cel_Outcomes
  imports Cel_Totality
begin

text \<open>
  What the callers of the providers see: conversion of supported filters, the meaning of the error
  codes, membership lists, UUID constants, \<open>has()\<close> and orderings.
\<close>

section \<open>What a caller of the converter sees\<close>

text \<open>
  C4: every supported filter is converted, in every dialect.  Comparisons of known properties with
  constants, \<open>in\<close> lists, string methods, \<open>has()\<close>, bare properties, \<open>!\<close>, \<open>&&\<close>, \<open>||\<close> and parentheses
  never fail, whatever the properties are mapped to; the outcome is SQL, or the empty text for "no
  filtering" where the mapper dropped the whole filter.
\<close>

theorem supported_filters_convert:
  assumes "get_cel_to_sql_provider_for_dialect lit name = Inr d" and "non_empty_literals lit"
    and "convert_to_ast rt cel = Inr (INode n)" and "supported m n"
  shows "\<exists>sql fs. convert_to_sql_str_v2 rt d m cel = Inr (sql, fs) \<and>
    (sql = [] \<longrightarrow> cel = [] \<or> (\<exists>gs. map_props_in_ast m n = Inr (None, gs)))"
proof (cases "cel = []")
  case False
  from supported_maps [OF assms(4)] obtain r gs where r: "visit_nodes m n = Inr (r, gs)"
    "case r of None \<Rightarrow> True | Some n' \<Rightarrow> buildable m n'" by blast
  then have mapped: "map_props_in_ast m n = Inr (r, distinct_fields gs)" by (simp add: map_props_in_ast_def)
  have front: "convert_to_sql_str_v2 rt d m cel = (case r of None \<Rightarrow> Inr ([], [])
      | Some n' \<Rightarrow> rbind (building_stage d m n') (\<lambda>sql. Inr (sql, distinct_fields gs)))"
    using False assms(3) supported_boolean [OF assms(4)] mapped
    by (simp add: convert_to_sql_str_v2_def parse_stage_def boolean_stage_def mapping_stage_def)
  show ?thesis
  proof (cases r)
    case None
    with front mapped show ?thesis by simp
  next
    case (Some n')
    with r(2) provider_total [OF assms(1,2), of m n'] obtain sql where "build_sql_filter d m n' = Inr sql" "sql \<noteq> []"
      by (auto simp: builds_def)
    with front Some show ?thesis by (simp add: building_stage_def)
  qed
qed (simp add: convert_to_sql_str_v2_def)

definition sample_filter :: node where
  "sample_filter = LogicalNode (compare_property ''severity'' GT ''warning'') LAnd
     (LogicalNode (UnaryNode UNot (Some (INode (compare_property ''name'' CONTAINS ''cpu'')))) LOr
       (PropertyAccessNode [''name''] None))"

definition sample_tree :: lark where
  "sample_tree = Tree ''conditionaland''
     [Tree ''relation'' [Tree ''relation_gt'' [Tree ''ident'' [Token ''severity'']], Tree ''literal'' [Token (dq @ ''warning'' @ dq)]],
      Tree ''conditionalor'' [Tree ''unary'' [Tree ''unary_not'' [], Tree ''member_dot_arg''
        [Tree ''ident'' [Token ''name''], Token ''contains'', Tree ''exprlist'' [Tree ''literal'' [Token (dq @ ''cpu'' @ dq)]]]],
        Tree ''ident'' [Token ''name'']]]"

theorem supported_filters_convert_witness:
  "\<exists>sql fs. convert_to_sql_str_v2 (sample_runtime sample_tree) (postgres_dialect doubling_literal) severity_metadata ''q''
     = Inr (sql, fs) \<and> sql \<noteq> []"
proof -
  have d: "get_cel_to_sql_provider_for_dialect doubling_literal ''postgresql'' = Inr (postgres_dialect doubling_literal)"
    by (simp add: get_cel_to_sql_provider_for_dialect_def)
  have lit: "non_empty_literals doubling_literal" by (simp add: non_empty_literals_def doubling_literal_def quoted_def sq_def)
  have ast: "convert_to_ast (sample_runtime sample_tree) ''q'' = Inr (INode sample_filter)" by code_simp
  have sup: "supported severity_metadata sample_filter" by code_simp
  have "case map_props_in_ast severity_metadata sample_filter of Inr (Some n, _) \<Rightarrow> True | _ \<Rightarrow> False" by code_simp
  then have "\<nexists>gs. map_props_in_ast severity_metadata sample_filter = Inr (None, gs)" by auto
  with supported_filters_convert [OF d lit ast sup] show ?thesis by auto
qed

text \<open>
  C20: the code of a rejection names the stage that failed: \<open>SYNTAX_ERROR\<close> exactly the parser's own
  error, with its position; \<open>EXPECTED_BOOLEAN\<close> a converted expression that is no filter;
  \<open>UNKNOWN_FIELD\<close> a property the mapper does not know; \<open>UNSUPPORTED_EXPRESSION\<close> any other failure of
  the conversion to a tree, or a builder that has no SQL for the mapped filter.
\<close>

theorem rejection_code_names_stage:
  assumes "convert_to_sql_str_v2 rt d m cel = Inl (CelToSqlException x)"
  shows "case exc_code x of
      SYNTAX_ERROR \<Rightarrow> convert_to_ast rt cel = Inl (CELParseError (exc_line x) (exc_column x))
    | EXPECTED_BOOLEAN \<Rightarrow> \<exists>i. convert_to_ast rt cel = Inr i \<and> \<not> is_boolean_filter_item i
    | UNKNOWN_FIELD \<Rightarrow> \<exists>n name. convert_to_ast rt cel = Inr (INode n) \<and> is_boolean_filter_node n \<and>
        map_props_in_ast m n = Inl (PropertiesMappingException name)
    | UNSUPPORTED_EXPRESSION \<Rightarrow>
        (\<exists>e. convert_to_ast rt cel = Inl e \<and> (\<nexists>l c. e = CELParseError l c)) \<or>
        (\<exists>n n' fs. convert_to_ast rt cel = Inr (INode n) \<and> is_boolean_filter_node n \<and>
           map_props_in_ast m n = Inr (Some n', fs) \<and> build_sql_filter d m n' = Inl NotImplementedError)"
proof -
  note stages = convert_to_sql_str_v2_def parse_stage_def boolean_stage_def mapping_stage_def building_stage_def
    rejected_def whole_expression_span_def cel_to_sql_exception_init_def Let_def
  show ?thesis
  proof (cases "convert_to_ast rt cel")
    case (Inl e)
    with assms show ?thesis by (cases e) (auto simp: stages split: if_splits)
  next
    case (Inr i)
    show ?thesis
    proof (cases "is_boolean_filter_item i")
      case False
      with Inr assms show ?thesis by (cases i) (auto simp: stages split: if_splits)
    next
      case True
      then obtain n where n: "i = INode n" "is_boolean_filter_node n" by (cases i) auto
      show ?thesis
      proof (cases "map_props_in_ast m n")
        case (Inl e)
        with Inr n assms show ?thesis by (cases e) (auto simp: stages split: if_splits)
      next
        case (Inr r)
        obtain n' fs where "r = (n', fs)" by (cases r)
        with Inr \<open>convert_to_ast rt cel = Inr i\<close> n assms show ?thesis
          by (auto simp: stages rbind_def split: if_splits option.splits sum.splits pyexc.splits)
      qed
    qed
  qed
qed

theorem rejection_code_names_stage_witness:
  "\<exists>x. convert_to_sql_str_v2 (sample_runtime (Tree ''literal'' [Token ''12''])) (sqlite_dialect doubling_literal)
      severity_metadata ''12'' = Inl (CelToSqlException x) \<and>
    exc_code x = EXPECTED_BOOLEAN \<and> exc_end_column x = Some 3 \<and>
    (\<exists>i. convert_to_ast (sample_runtime (Tree ''literal'' [Token ''12''])) ''12'' = Inr i \<and> \<not> is_boolean_filter_item i)"
proof -
  let ?r = "convert_to_sql_str_v2 (sample_runtime (Tree ''literal'' [Token ''12''])) (sqlite_dialect doubling_literal)
      severity_metadata ''12''"
  have "case ?r of Inl (CelToSqlException x) \<Rightarrow> exc_code x = EXPECTED_BOOLEAN \<and> exc_end_column x = Some 3 | _ \<Rightarrow> False"
    by code_simp
  then obtain x where x: "?r = Inl (CelToSqlException x)" "exc_code x = EXPECTED_BOOLEAN" "exc_end_column x = Some 3"
    by (auto split: sum.splits sql_failure.splits)
  from rejection_code_names_stage [OF x(1)] x show ?thesis by simp
qed

section \<open>Array membership, NULL in lists, ordering\<close>

lemma build_array_comparison:
  assumes "is_property_access f" and "data_type_of f = Some DArray"
  shows "build_sql_filter d m (array_comparison f i) = non_empty (visit_equal_array d f (map_option node_or_any i))"
  using assms by (simp add: array_comparison_def visit_comparison_def is_array_access_def)

lemma build_or_chain:
  assumes "\<And>n. n \<in> set ns \<Longrightarrow> build_sql_filter d m n = non_empty (g n)"
  shows "build_sql_filter d m (foldl (\<lambda>l r. LogicalNode l LOr r) n ns) =
    rbind (build_sql_filter d m n) (\<lambda>q. rbind (traverse (\<lambda>n. non_empty (g n)) ns) (\<lambda>qs. Inr (foldl visit_logical_or q qs)))"
  using assms
proof (induction ns arbitrary: n)
  case Nil
  then show ?case by (cases "build_sql_filter d m n") simp_all
next
  case (Cons k ns)
  have "visit_logical_node LOr a b \<noteq> []" for a b by (simp add: visit_logical_node_def visit_logical_or_def)
  with Cons show ?case
    by (cases "build_sql_filter d m n"; cases "non_empty (g k)")
      (simp_all add: non_empty_def visit_logical_node_def rbind_assoc)
qed

text \<open>
  MySQL and PostgreSQL answer \<open>array in [c1, c2, ...]\<close> by building the disjunction of the
  comparisons \<open>array == ci\<close>: the model's direct definition is what \<open>_build_sql_filter\<close> makes of that
  tree, for every list, the empty one (no tree, hence an error) included.
\<close>

theorem in_array_is_disjunction:
  assumes "is_property_access f" and "data_type_of f = Some DArray" and "d = mysql_dialect lit \<or> d = postgres_dialect lit"
  shows "visit_in_array d f array = (case array_disjunction f array of
     None \<Rightarrow> Inl NotImplementedError | Some n \<Rightarrow> build_sql_filter d m n)"
proof -
  have disjunction: "visit_in_array d f xs = in_array_disjunction (visit_equal_array d) f xs" for xs
    using assms(3) by (auto simp: mysql_dialect_def postgres_dialect_def sql_methods.defs sql_dialect.defs)
  show ?thesis
  proof (cases array)
    case Nil
    then show ?thesis by (simp add: disjunction in_array_disjunction_def array_disjunction_def or_chain_def)
  next
    case (Cons i rest)
    let ?g = "\<lambda>n. case n of ComparisonNode x p s \<Rightarrow> visit_equal_array d f s | _ \<Rightarrow> Inl NotImplementedError"
    have g: "build_sql_filter d m (array_comparison f j) = non_empty (visit_equal_array d f (map_option node_or_any j))" for j
      using assms(1,2) by (rule build_array_comparison)
    have "traverse (\<lambda>n. non_empty (?g n)) (map (array_comparison f) rest)
        = traverse (\<lambda>j. non_empty (visit_equal_array d f (map_option node_or_any j))) rest"
      by (induction rest) (simp_all add: array_comparison_def)
    moreover have "build_sql_filter d m (foldl (\<lambda>l r. LogicalNode l LOr r) (array_comparison f i) (map (array_comparison f) rest)) =
      rbind (build_sql_filter d m (array_comparison f i)) (\<lambda>q. rbind (traverse (\<lambda>n. non_empty (?g n)) (map (array_comparison f) rest))
        (\<lambda>qs. Inr (foldl visit_logical_or q qs)))"
    proof (rule build_or_chain)
      fix n
      assume "n \<in> set (map (array_comparison f) rest)"
      then obtain j where n: "n = array_comparison f j" by auto
      show "build_sql_filter d m n = non_empty (?g n)" unfolding n g by (simp add: array_comparison_def)
    qed
    ultimately show ?thesis using Cons
      by (simp add: disjunction in_array_disjunction_def array_disjunction_def g rbind_assoc or_chain_def)
  qed
qed

theorem in_array_is_disjunction_witness:
  "visit_in_array (mysql_dialect doubling_literal) (PropertyAccessNode [''tags''] (Some DArray))
      [constant_item (PyStr ''a''), constant_item (PyStr ''b'')] =
    Inr (''(JSON_CONTAINS(tags, '' @ quoted (''['' @ dq @ ''a'' @ dq @ '']'') @ '') OR JSON_CONTAINS(tags, ''
      @ quoted (''['' @ dq @ ''b'' @ dq @ '']'') @ ''))'')"
proof -
  let ?f = "PropertyAccessNode [''tags''] (Some DArray)" and ?a = "[constant_item (PyStr ''a''), constant_item (PyStr ''b'')]"
  have "visit_in_array (mysql_dialect doubling_literal) ?f ?a = (case array_disjunction ?f ?a of
     None \<Rightarrow> Inl NotImplementedError | Some n \<Rightarrow> build_sql_filter (mysql_dialect doubling_literal) severity_metadata n)"
    by (rule in_array_is_disjunction [where lit = doubling_literal]) simp_all
  also have "\<dots> = Inr (''(JSON_CONTAINS(tags, '' @ quoted (''['' @ dq @ ''a'' @ dq @ '']'') @ '') OR JSON_CONTAINS(tags, ''
      @ quoted (''['' @ dq @ ''b'' @ dq @ '']'') @ ''))'')" by code_simp
  finally show ?thesis .
qed

text \<open>
  membership of a column in a list of constants.  \<open>null\<close> never reaches the \<open>in (...)\<close> list: it is
  an \<open>IS NULL\<close> disjunct, or the whole condition when the list has nothing else, so there is no empty
  \<open>in ()\<close> either.  When the constants are not all instances of the first one's type (as with a
  \<open>null\<close> among strings) the column is cast to text first.
\<close>

definition membership_text :: "string \<Rightarrow> string list \<Rightarrow> bool \<Rightarrow> string" where
  "membership_text x cs is_none_found =
     (let q = x @ '' in ('' @ py_join '', '' cs @ '')'' in
      if cs = [] then x @ '' IS NULL''
      else if is_none_found then ''('' @ q @ '' OR '' @ x @ '' IS NULL)'' else q)"

lemma all_instances_constants:
  "all_instances t (map constant_item vs) = Inr (\<forall>v \<in> set vs. isinstance v t)"
  by (induction vs) (simp_all add: constant_item_def arg_value_def)

theorem null_in_membership_list:
  assumes "traverse (\<lambda>v. visit_constant d v t) (filter (\<lambda>v. v \<noteq> PyNone) vs) = Inr cs" and "vs \<noteq> []"
    and "t \<noteq> Some DArray"
    and "(if \<forall>v \<in> set vs. isinstance v (type_of (hd vs)) then Inr c else sql_cast d c (Some DString)) = Inr x"
  shows "build_sql_filter d m (ComparisonNode (Some (PropertyAccessNode [c] t)) IN_OP
      (Some (IList (map (\<lambda>v. INode (ConstantNode v)) vs)))) =
    Inr (membership_text x cs (PyNone \<in> set vs))"
proof -
  let ?f = "Some (PropertyAccessNode [c] t)" and ?is = "map constant_item vs"
  obtain v ws where vs: "vs = v # ws" using assms(2) by (cases vs) auto
  have arr: "as_array (Some (IList (map (\<lambda>v. INode (ConstantNode v)) vs))) = ?is"
    by (simp add: as_array_def constant_item_def comp_def)
  have first: "in_first_operand d ?f b (\<forall>v \<in> set vs. isinstance v (type_of (hd vs))) = Inr x" for b
    using assms(4) by (auto simp: in_first_operand_def visit_property_access_node_def split: if_splits)
  have "?is \<noteq> []" "arg_value (hd ?is) = Inr (hd vs)" using vs by (simp_all add: constant_item_def arg_value_def)
  then have visit: "visit_in d ?f b ?is = in_query d ?f x (filter (\<lambda>v. v \<noteq> PyNone) vs) (PyNone \<in> set vs)" for b
    by (simp only: visit_in_def if_False rbind_Inr all_instances_constants first sqlite_methods_total.constant_values_items)
  have "length cs = length (filter (\<lambda>v. v \<noteq> PyNone) vs)" using traverse_length [OF assms(1)] .
  then have empty: "cs = [] \<longleftrightarrow> filter (\<lambda>v. v \<noteq> PyNone) vs = []" by auto
  then have "PyNone \<in> set vs" if "cs = []" 
  proof -
    have "hd vs = PyNone" using empty that vs unfolding filter_empty_conv by simp
    with vs show ?thesis by simp
  qed
  then have "in_query d ?f x (filter (\<lambda>v. v \<noteq> PyNone) vs) (PyNone \<in> set vs) = Inr (membership_text x cs (PyNone \<in> set vs))"
    using assms(1) empty
    by (cases "cs = []") (auto simp: in_query_def membership_text_def visit_equal_def visit_logical_or_def Let_def)
  moreover have "membership_text x cs b \<noteq> []" for b by (simp add: membership_text_def Let_def)
  ultimately show ?thesis
    using assms(3) by (simp add: visit_comparison_def is_array_access_def arr visit non_empty_def)
qed

theorem null_in_membership_list_witness:
  "build_sql_filter (postgres_dialect doubling_literal) severity_metadata
     (ComparisonNode (Some (PropertyAccessNode [''assignee''] (Some DString))) IN_OP
       (Some (IList (map (\<lambda>v. INode (ConstantNode v)) [PyNone, PyStr ''ann''])))) =
   Inr (''((assignee)::TEXT in ('' @ quoted ''ann'' @ '') OR (assignee)::TEXT IS NULL)'')"
proof -
  let ?d = "postgres_dialect doubling_literal" and ?vs = "[PyNone, PyStr ''ann'']"
  have "traverse (\<lambda>v. visit_constant ?d v (Some DString)) (filter (\<lambda>v. v \<noteq> PyNone) ?vs) = Inr [quoted ''ann'']"
    by code_simp
  moreover have "?vs \<noteq> []" "Some DString \<noteq> Some DArray" by simp_all
  moreover have "(if \<forall>v \<in> set ?vs. isinstance v (type_of (hd ?vs)) then Inr ''assignee''
      else sql_cast ?d ''assignee'' (Some DString)) = Inr ''(assignee)::TEXT''" by code_simp
  ultimately have "build_sql_filter ?d severity_metadata
     (ComparisonNode (Some (PropertyAccessNode [''assignee''] (Some DString))) IN_OP
       (Some (IList (map (\<lambda>v. INode (ConstantNode v)) ?vs)))) =
    Inr (membership_text ''(assignee)::TEXT'' [quoted ''ann''] (PyNone \<in> set ?vs))"
    by (rule null_in_membership_list)
  then show ?thesis by (simp add: membership_text_def)
qed

section \<open>\<open>has()\<close> on a mapped column\<close>

text \<open>
  \<open>has(name)\<close> of a property that is mapped to a differently named column is \<open>FALSE\<close>, for every
  row: the builder looks the column name up as if it were a property.  It is \<open>TRUE\<close> only where the
  column name is itself a known property.
\<close>

theorem has_looks_up_the_column:
  assumes "get_property_metadata m path = Inr (Some md)" and "md_field_mappings md = [SimpleFieldMapping c]"
    and "get_property_metadata m [c] = Inr None"
  shows "\<exists>n fs. map_props_in_ast m (UnaryNode UHas (Some (INode (PropertyAccessNode path t)))) = Inr (Some n, fs) \<and>
    build_sql_filter d m n = Inr ''FALSE''"
  using assms by (simp add: map_props_in_ast_def map_property_def create_property_access_node_def non_empty_def)

theorem has_looks_up_the_column_witness:
  "\<exists>n fs. map_props_in_ast severity_metadata (UnaryNode UHas (Some (INode (PropertyAccessNode [''name''] None)))) = Inr (Some n, fs) \<and>
    build_sql_filter (sqlite_dialect doubling_literal) severity_metadata n = Inr ''FALSE''"
proof -
  have "case get_property_metadata severity_metadata [''name''] of Inr (Some md) \<Rightarrow> md_field_mappings md = [SimpleFieldMapping ''alert.name'']
    | _ \<Rightarrow> False" by code_simp
  then obtain md where "get_property_metadata severity_metadata [''name''] = Inr (Some md)"
    "md_field_mappings md = [SimpleFieldMapping ''alert.name'']" by (auto split: sum.splits option.splits)
  moreover have "get_property_metadata severity_metadata [''alert.name''] = Inr None" by code_simp
  ultimately show ?thesis by (rule has_looks_up_the_column)
qed

section \<open>Ordering\<close>

text \<open>
  an ordering has one term per sort option, in order, each the field's own expression followed by
  \<open>ASC\<close> or \<open>DESC\<close>: the direction text a client sends never reaches the SQL, and the first field
  without a mapping rejects the whole ordering with \<open>UNKNOWN_FIELD\<close>.
\<close>

theorem ordering_terms:
  "case get_order_by_expression d m options of
     Inr s \<Rightarrow> \<exists>es. s = py_join '', '' es \<and> list_all2 (\<lambda>(field, dir) e.
         \<exists>x. get_order_by_field d m field = Inr x \<and> (e = x @ '' ASC'' \<or> e = x @ '' DESC'')) options es
   | Inl e \<Rightarrow> \<exists>pre field dir post. options = pre @ (field, dir) # post \<and>
         (\<forall>(f, _) \<in> set pre. is_ok (get_order_by_field d m f)) \<and> get_order_by_field d m field = Inl e \<and>
         (get_property_metadata_for_str m field = Inr None \<longrightarrow> e = rejected UNKNOWN_FIELD)"
proof -
  let ?g = "\<lambda>(sort_by, sort_dir). rbind (get_order_by_field d m sort_by) (\<lambda>e. Inr (e @ '' '' @ sort_direction sort_dir))"
  have fails: "\<exists>pre x post. xs = pre @ x # post \<and> (\<forall>y \<in> set pre. is_ok (?g y)) \<and> ?g x = Inl e"
    if "traverse ?g xs = Inl e" for xs e
    using that
  proof (induction xs)
    case (Cons x xs)
    show ?case
    proof (cases "?g x")
      case (Inl f)
      with Cons.prems have "?g x = Inl e" by simp
      then show ?thesis by (intro exI [of _ "[]"] exI [of _ x] exI [of _ xs]) simp
    next
      case (Inr y)
      with Cons.prems have "traverse ?g xs = Inl e" by (cases "traverse ?g xs") simp_all
      from Cons.IH [OF this] obtain pre z post where "xs = pre @ z # post" "\<forall>y \<in> set pre. is_ok (?g y)" "?g z = Inl e" by blast
      with Inr show ?thesis by (intro exI [of _ "x # pre"] exI [of _ z] exI [of _ post]) simp
    qed
  qed simp
  show ?thesis
  proof (cases "traverse ?g options")
    case (Inl e)
    from fails [OF this] obtain pre x post where x: "options = pre @ x # post" "\<forall>y \<in> set pre. is_ok (?g y)" "?g x = Inl e"
      by blast
    obtain field dir where f: "x = (field, dir)" by (cases x)
    from x(3) f have "get_order_by_field d m field = Inl e" by (cases "get_order_by_field d m field") simp_all
    moreover from this have "e = rejected UNKNOWN_FIELD" if "get_property_metadata_for_str m field = Inr None"
      using that by (simp add: get_order_by_field_def get_field_metadata_or_raise_def)
    moreover have "\<forall>(f, _) \<in> set pre. is_ok (get_order_by_field d m f)"
      using x(2) by (fastforce simp: is_ok_iff)
    ultimately show ?thesis using Inl x(1) f by (auto simp: get_order_by_expression_def)
  next
    case (Inr es)
    then have "list_all2 (\<lambda>x e. ?g x = Inr e) options es" by (simp add: traverse_list_all2)
    then have "list_all2 (\<lambda>(field, dir) e. \<exists>x. get_order_by_field d m field = Inr x \<and> (e = x @ '' ASC'' \<or> e = x @ '' DESC'')) options es"
      by (rule list_all2_mono) (auto simp: sort_direction_def split: if_splits)
    with Inr show ?thesis by (auto simp: get_order_by_expression_def)
  qed
qed

section \<open>UUIDs\<close>

text \<open>
  A UUID constant is normalised.  Every spelling of the same UUID that differs in its dashes gives
  the same literal: 32 digits in SQLite and MySQL, the dashed form in PostgreSQL; and both normal
  forms read back as the UUID.
\<close>

theorem uuid_constants_normalised:
  assumes "filter (\<lambda>x. x \<noteq> CHR ''-'') s = uuid_hex n" and "set s \<subseteq> insert (CHR ''-'') (set hex_chars)" and "n < 2 ^ 128"
  shows "sqlite_constant lit (PyStr s) (Some DUuid) = Inr (lit (uuid_hex n)) \<and>
    mysql_constant lit (PyStr s) (Some DUuid) = Inr (lit (uuid_hex n)) \<and>
    postgres_constant lit (PyStr s) (Some DUuid) = Inr (lit (uuid_str n)) \<and>
    uuid_int (uuid_hex n) = Some n \<and> uuid_int (uuid_str n) = Some n"
proof -
  have "uuid_int s = Some n" using assms by (intro uuid_int_spelling) (simp_all add: uuid_hex_def)
  then have "as_uuid r (Some DUuid) (PyStr s) = PyStr (r n)" for r by (simp add: as_uuid_def)
  then show ?thesis using uuid_int_hex [OF assms(3)] uuid_int_str [OF assms(3)]
    by (simp add: sqlite_constant_def mysql_constant_def postgres_constant_def base_constant_def literal_proc_def)
qed

theorem uuid_constants_normalised_witness:
  "postgres_constant doubling_literal (PyStr ''0000000000000000000000000000002a'') (Some DUuid) =
     Inr (quoted ''00000000-0000-0000-0000-00000000002a'') \<and>
   sqlite_constant doubling_literal (PyStr ''00000000-0000-0000-0000-00000000002a'') (Some DUuid) =
     Inr (quoted ''0000000000000000000000000000002a'')"
proof -
  define n :: nat where "n = 42"
  have zeros: "hex_digits k 0 = replicate k (CHR ''0'')" for k
  proof (induction k)
    case (Suc k)
    have "digit_char 0 = CHR ''0''" by code_simp
    with Suc show ?case by (simp add: replicate_append_same)
  qed simp
  have "uuid_hex n = hex_digits (Suc (Suc 30)) n" by (simp add: uuid_hex_def del: hex_digits.simps)
  also have "\<dots> = hex_digits 30 0 @ ''2a''"
  proof -
    have "digit_char 2 = CHR ''2''" "digit_char 10 = CHR ''a''" by code_simp+
    then show ?thesis unfolding n_def hex_digits.simps by simp
  qed
  also have "\<dots> = ''0000000000000000000000000000002a''" unfolding zeros by (simp add: numeral_eq_Suc)
  finally have hex: "uuid_hex n = ''0000000000000000000000000000002a''" .
  have n: "n < 2 ^ 128" by (simp add: n_def)
  have str: "uuid_str n = ''00000000-0000-0000-0000-00000000002a''" unfolding uuid_str_def hex Let_def by simp
  have lits: "doubling_literal ''00000000-0000-0000-0000-00000000002a'' = quoted ''00000000-0000-0000-0000-00000000002a''"
    "doubling_literal ''0000000000000000000000000000002a'' = quoted ''0000000000000000000000000000002a''"
    by (simp_all add: doubling_literal_def)
  have "set ''0000000000000000000000000000002a'' \<subseteq> insert (CHR ''-'') (set hex_chars)"
    "set ''00000000-0000-0000-0000-00000000002a'' \<subseteq> insert (CHR ''-'') (set hex_chars)" by code_simp+
  from uuid_constants_normalised [OF _ this(1) n, of doubling_literal]
    uuid_constants_normalised [OF _ this(2) n, of doubling_literal] show ?thesis
    unfolding hex str lits by simp
qed

theorem ordering_terms_witness:
  "\<exists>es. get_order_by_expression (sqlite_dialect doubling_literal) severity_metadata [(''name'', ''ASC''), (''severity'', ''; drop'')]
       = Inr (py_join '', '' es) \<and> length es = 2 \<and> hd es = ''alert.name ASC''"
proof -
  let ?d = "sqlite_dialect doubling_literal" and ?o = "[(''name'', ''ASC''), (''severity'', ''; drop'')]"
  have s: "get_order_by_expression ?d severity_metadata ?o = Inr ''alert.name ASC, alert.severity DESC''" by code_simp
  from ordering_terms [where d = ?d and m = severity_metadata and options = ?o] obtain es where es: "''alert.name ASC, alert.severity DESC'' = py_join '', '' es"
    "list_all2 (\<lambda>(field, dir) e. \<exists>x. get_order_by_field ?d severity_metadata field = Inr x \<and>
       (e = x @ '' ASC'' \<or> e = x @ '' DESC'')) ?o es"
    unfolding s by auto
  have "get_order_by_field ?d severity_metadata ''name'' = Inr ''alert.name''" by code_simp
  with es show ?thesis unfolding s by (auto simp: list_all2_Cons1 list_all2_Nil)
qed

end
