(* ===== verification/Cel_Validation.thy ===== *)
theory Cel_Validation
  imports Cel_Outcomes
begin

text \<open>
  \<^verbatim>\<open>src/services/cel_validation.py\<close>, \<^verbatim>\<open>src/models/cel.py\<close> and the route \<^verbatim>\<open>src/routes/cel.py\<close>: preflight
  validation of CEL filters per execution context, the diagnostics it reports, and the 400 answer
  of the endpoints that execute a filter.
\<close>

section \<open>Diagnostics\<close>

record cel_diagnostic_range =
  start_line :: nat
  start_column :: nat
  end_line :: nat
  end_column :: nat

text \<open>A message is the converter's own text (\<open>str(exc)\<close>, left out) or one of the standard ones.\<close>

datatype diagnostic_message = ConverterMessage | StandardMessage string

record cel_diagnostic =
  diag_code :: cel_diagnostic_code
  diag_message :: diagnostic_message
  diag_range :: "cel_diagnostic_range option"

record cel_validation_result =
  valid :: bool
  diagnostics :: "cel_diagnostic list"

fun standard_messages :: "cel_diagnostic_code \<Rightarrow> string" where
  "standard_messages SYNTAX_ERROR = ''The expression could not be parsed.''"
| "standard_messages EXPECTED_BOOLEAN = ''A CEL filter must evaluate to true or false.''"
| "standard_messages UNKNOWN_FIELD = ''Unknown field in the expression.''"
| "standard_messages UNSUPPORTED_EXPRESSION = ''This expression is not supported by the alert filter.''"

definition whole_expression_range :: "string \<Rightarrow> cel_diagnostic_range" where
  "whole_expression_range cel =
     (let lines = py_split newline cel in
      \<lparr>start_line = 1, start_column = 1, end_line = length lines, end_column = length (last lines) + 1\<rparr>)"

definition point_range :: "nat option \<Rightarrow> nat option \<Rightarrow> cel_diagnostic_range option" where
  "point_range line column = (case (line, column) of
     (Some l, Some c) \<Rightarrow> Some \<lparr>start_line = l, start_column = c, end_line = l, end_column = c + 1\<rparr>
   | _ \<Rightarrow> None)"

text \<open>Python's \<open>x or y\<close> on an optional number: zero counts as missing.\<close>

definition or_else :: "nat option \<Rightarrow> nat \<Rightarrow> nat" where
  "or_else x y = (case x of Some n \<Rightarrow> if n \<noteq> 0 then n else y | None \<Rightarrow> y)"

definition range_from_converter_error :: "cel_to_sql_exception \<Rightarrow> cel_diagnostic_range option" where
  "range_from_converter_error x = (case (exc_line x, exc_column x) of
     (Some l, Some c) \<Rightarrow> Some \<lparr>start_line = l, start_column = c,
        end_line = or_else (exc_end_line x) l, end_column = or_else (exc_end_column x) (c + 1)\<rparr>
   | _ \<Rightarrow> None)"

definition diagnostic :: "cel_diagnostic_code \<Rightarrow> cel_diagnostic_range option \<Rightarrow> cel_diagnostic" where
  "diagnostic code r = \<lparr>diag_code = code, diag_message = StandardMessage (standard_messages code), diag_range = r\<rparr>"

definition diagnostics_from_converter_error :: "cel_to_sql_exception \<Rightarrow> cel_diagnostic list" where
  "diagnostics_from_converter_error x =
     [\<lparr>diag_code = exc_code x, diag_message = ConverterMessage, diag_range = range_from_converter_error x\<rparr>]"

section \<open>Validators\<close>

definition no_filter :: "string option \<Rightarrow> bool" where
  "no_filter cel = (case cel of None \<Rightarrow> True | Some s \<Rightarrow> s = [] \<or> py_strip s = [])"

definition valid_result :: cel_validation_result where
  "valid_result = \<lparr>valid = True, diagnostics = []\<rparr>"

definition validate_alert_filter_cel ::
  "runtime \<Rightarrow> sql_dialect \<Rightarrow> properties_metadata \<Rightarrow> string option \<Rightarrow> pyexc + cel_validation_result" where
  "validate_alert_filter_cel rt d m cel =
     (if no_filter cel then Inr valid_result
      else case convert_to_sql_str_v2 rt d m (the cel) of
        Inl (CelToSqlException x) \<Rightarrow>
          Inr \<lparr>valid = False, diagnostics = diagnostics_from_converter_error x\<rparr>
      | Inl (Uncaught e) \<Rightarrow> Inl e
      | Inr _ \<Rightarrow> Inr valid_result)"

definition exception_position :: "pyexc \<Rightarrow> nat option \<times> nat option" where
  "exception_position e = (case e of CELParseError l c \<Rightarrow> (l, c) | _ \<Rightarrow> (None, None))"

definition validate_event_filter_cel :: "runtime \<Rightarrow> string option \<Rightarrow> cel_validation_result" where
  "validate_event_filter_cel rt cel =
     (if no_filter cel then valid_result
      else case convert_to_ast rt (the cel) of
        Inl e \<Rightarrow>
          (case exception_position e of (l, c) \<Rightarrow>
             \<lparr>valid = False, diagnostics =
               [diagnostic (if l \<noteq> None \<or> c \<noteq> None then SYNTAX_ERROR else UNSUPPORTED_EXPRESSION) (point_range l c)]\<rparr>)
      | Inr i \<Rightarrow>
          if \<not> is_boolean_filter_item i
          then \<lparr>valid = False, diagnostics = [diagnostic EXPECTED_BOOLEAN
                 (if is_logical_item i then None else Some (whole_expression_range (the cel)))]\<rparr>
          else valid_result)"

definition event_contexts :: "string list" where
  "event_contexts = [''maintenance'', ''extraction'', ''rules'', ''workflows'']"

definition validate_cel ::
  "runtime \<Rightarrow> sql_dialect \<Rightarrow> properties_metadata \<Rightarrow> string option \<Rightarrow> string \<Rightarrow> pyexc + cel_validation_result" where
  "validate_cel rt d m cel ctx =
     (if ctx = ''alerts'' then validate_alert_filter_cel rt d m cel
      else if ctx \<in> set event_contexts then Inr (validate_event_filter_cel rt cel)
      else Inl NotImplementedError)"

text \<open>An \<open>InvalidCelException\<close>, or what the validator lets through.\<close>

datatype cel_refusal = InvalidCelException "cel_diagnostic list" string | RaisedInstead pyexc

definition ensure_valid_cel ::
  "runtime \<Rightarrow> sql_dialect \<Rightarrow> properties_metadata \<Rightarrow> string option \<Rightarrow> string \<Rightarrow> cel_refusal + unit" where
  "ensure_valid_cel rt d m cel ctx =
     (case validate_cel rt d m cel ctx of
        Inl e \<Rightarrow> Inl (RaisedInstead e)
      | Inr r \<Rightarrow> if valid r then Inr ()
          else Inl (InvalidCelException (diagnostics r) (case cel of None \<Rightarrow> [] | Some s \<Rightarrow> s)))"

definition ensure_valid_alert_filter_cel ::
  "runtime \<Rightarrow> sql_dialect \<Rightarrow> properties_metadata \<Rightarrow> string option \<Rightarrow> cel_refusal + unit" where
  "ensure_valid_alert_filter_cel rt d m cel = ensure_valid_cel rt d m cel ''alerts''"

section \<open>The 400 answer\<close>

record invalid_cel_detail =
  detail_code :: string
  detail_message :: string
  detail_diagnostics :: "cel_diagnostic list"

record http_exception =
  status_code :: nat
  detail :: invalid_cel_detail

definition invalid_cel_detail_of :: "cel_diagnostic list \<Rightarrow> invalid_cel_detail" where
  "invalid_cel_detail_of ds =
     \<lparr>detail_code = ''INVALID_CEL'', detail_message = ''The CEL filter is invalid.'', detail_diagnostics = ds\<rparr>"

definition invalid_cel_http_exception :: "cel_diagnostic list \<Rightarrow> http_exception" where
  "invalid_cel_http_exception ds = \<lparr>status_code = 400, detail = invalid_cel_detail_of ds\<rparr>"

definition http_exception_from_converter_error :: "cel_to_sql_exception \<Rightarrow> http_exception" where
  "http_exception_from_converter_error x = invalid_cel_http_exception (diagnostics_from_converter_error x)"

definition http_exception_from_invalid_cel :: "cel_diagnostic list \<Rightarrow> http_exception" where
  "http_exception_from_invalid_cel ds = invalid_cel_http_exception ds"

text \<open>The route: FastAPI answers 422 for a context outside the \<open>Literal\<close>, before the handler runs.\<close>

definition validate_route ::
  "runtime \<Rightarrow> sql_dialect \<Rightarrow> properties_metadata \<Rightarrow> string \<Rightarrow> string \<Rightarrow> nat + (pyexc + cel_validation_result)" where
  "validate_route rt d m cel ctx =
     (if ctx \<noteq> ''alerts'' \<and> ctx \<notin> set event_contexts then Inl 422
      else Inr (validate_cel rt d m (Some cel) ctx))"

text \<open>A maintenance rule needs a condition; \<open>None\<close> stands for the plain 400 of a missing one.\<close>

definition validate_maintenance_cel_query ::
  "runtime \<Rightarrow> sql_dialect \<Rightarrow> properties_metadata \<Rightarrow> string \<Rightarrow> (http_exception option + pyexc) + unit" where
  "validate_maintenance_cel_query rt d m cel_query =
     (if no_filter (Some cel_query) then Inl (Inl None)
      else case ensure_valid_cel rt d m (Some cel_query) ''maintenance'' of
        Inr u \<Rightarrow> Inr u
      | Inl (InvalidCelException ds c) \<Rightarrow> Inl (Inl (Some (http_exception_from_invalid_cel ds)))
      | Inl (RaisedInstead e) \<Rightarrow> Inl (Inr e))"

section \<open>Lemmas\<close>

lemma alert_valid_iff:
  assumes "validate_alert_filter_cel rt d m cel = Inr r"
  shows "valid r \<longleftrightarrow> no_filter cel \<or> is_ok (convert_to_sql_str_v2 rt d m (the cel))"
  using assms by (auto simp: validate_alert_filter_cel_def valid_result_def split: if_splits sum.splits sql_failure.splits)

text \<open>A conversion that succeeds came from a tree that is a filter.\<close>

lemma conversion_ok_boolean:
  assumes "convert_to_sql_str_v2 rt d m cel = Inr r" and "cel \<noteq> []"
  shows "\<exists>n. convert_to_ast rt cel = Inr (INode n) \<and> is_boolean_filter_node n"
  using assms
  by (auto simp: convert_to_sql_str_v2_def parse_stage_def boolean_stage_def
      split: if_splits sum.splits pyexc.splits item.splits)

text \<open>Every character that is no line boundary is in some line.\<close>

lemma splitlines_covers:
  "c \<in> set acc \<union> set s \<Longrightarrow> \<not> is_linebreak c \<Longrightarrow> \<exists>l \<in> set (splitlines_go acc s). c \<in> set l"
proof (induction acc s rule: splitlines_go.induct)
  case (2 acc d cs)
  show ?case
  proof (cases "c \<in> set acc \<and> is_linebreak d")
    case True
    then show ?thesis by auto
  next
    case False
    show ?thesis
    proof (cases "d = CHR 0x0D")
      case True
      then have "is_linebreak d" "is_linebreak (CHR 0x0A)" by (simp_all add: is_linebreak_def Let_def)
      with False "2.prems" True have c: "c \<in> set cs" by auto
      have eq: "splitlines_go acc (d # cs) = rev acc # (case cs of [] \<Rightarrow> [] | e # es \<Rightarrow>
          if e = CHR 0x0A then splitlines_go [] es else splitlines_go [] cs)"
        unfolding splitlines_go.simps using True \<open>is_linebreak d\<close> by simp
      show ?thesis
      proof (cases cs)
        case (Cons e es)
        show ?thesis
        proof (cases "e = CHR 0x0A")
          case lf: True
          with c Cons "2.prems"(2) \<open>is_linebreak (CHR 0x0A)\<close> have "c \<in> set [] \<union> set es" by auto
          with "2.IH"(1) [OF \<open>is_linebreak d\<close> True Cons lf] "2.prems"(2) lf Cons show ?thesis unfolding eq by auto
        next
          case other: False
          with "2.IH"(2) [OF \<open>is_linebreak d\<close> True Cons other] "2.prems"(2) Cons c show ?thesis unfolding eq
            by (auto simp del: splitlines_go.simps)
        qed
      qed (use c in simp)
    next
      case other: False
      with False "2.prems" "2.IH" show ?thesis by auto
    qed
  qed
qed auto

lemma split_covers: "c \<in> set s \<Longrightarrow> c \<noteq> x \<Longrightarrow> \<exists>l \<in> set (py_split x s). c \<in> set l"
  by (induction s) (auto split: list.splits)

lemma linebreak_space: "is_linebreak c \<Longrightarrow> is_space c"
  by (auto simp: is_linebreak_def is_space_def Let_def)

lemma strip_non_empty: "py_strip s \<noteq> [] \<Longrightarrow> \<exists>c \<in> set s. \<not> is_space c"
proof (rule ccontr)
  assume "py_strip s \<noteq> []" "\<not> (\<exists>c \<in> set s. \<not> is_space c)"
  then have "dropWhile is_space s = []" by (simp add: dropWhile_eq_Nil_conv)
  with \<open>py_strip s \<noteq> []\<close> show False by (simp add: py_strip_def)
qed

definition range_ok :: "cel_diagnostic_range \<Rightarrow> bool" where
  "range_ok r \<longleftrightarrow> 1 \<le> start_line r \<and> 1 \<le> start_column r \<and> 1 \<le> end_column r \<and>
     (start_line r < end_line r \<or> start_line r = end_line r \<and> start_column r < end_column r)"

text \<open>A list of lines of which one is not empty spans at least one character.\<close>

lemma lines_span:
  assumes "l \<in> set ls" and "l \<noteq> []"
  shows "1 < length ls \<or> length ls = 1 \<and> last ls \<noteq> []"
  using assms by (cases ls; cases "tl ls") auto

lemma split_span:
  assumes "py_strip s \<noteq> []"
  shows "range_ok (whole_expression_range s)"
proof -
  obtain c where c: "c \<in> set s" "\<not> is_space c" using strip_non_empty [OF assms] by blast
  have "is_space newline" by code_simp
  with c have "c \<noteq> newline" by auto
  with c(1) obtain l where "l \<in> set (py_split newline s)" "l \<noteq> []" using split_covers by fastforce
  from lines_span [OF this] show ?thesis
    by (cases "length (py_split newline s) = 1") (auto simp: range_ok_def whole_expression_range_def Let_def)
qed

lemma splitlines_span:
  assumes "py_strip s \<noteq> []"
  shows "\<exists>r. range_from_converter_error (whole_expression_span s code) = Some r \<and> range_ok r"
proof -
  obtain c where c: "c \<in> set s" "\<not> is_space c" using strip_non_empty [OF assms] by blast
  then have "\<not> is_linebreak c" using linebreak_space by blast
  with c(1) obtain l where l: "l \<in> set (py_splitlines s)" "l \<noteq> []"
    using splitlines_covers [of c "[]" s] by (fastforce simp: py_splitlines_def)
  then have "py_splitlines s \<noteq> []" by auto
  with lines_span [OF l] show ?thesis
    by (cases "length (py_splitlines s) = 1")
      (auto simp: range_from_converter_error_def whole_expression_span_def cel_to_sql_exception_init_def or_else_def
        range_ok_def Let_def)
qed

text \<open>
  The preflight verdict of an alert filter is the verdict of the conversion the query runs on, and
  a refusal carries the same structured 400 as the endpoint that executes the filter.
\<close>

theorem validation_agrees_with_conversion:
  assumes "py_strip cel \<noteq> []"
  shows "case convert_to_sql_str_v2 rt d m cel of
      Inr _ \<Rightarrow> validate_cel rt d m (Some cel) ''alerts'' = Inr valid_result \<and>
        ensure_valid_alert_filter_cel rt d m (Some cel) = Inr ()
    | Inl (CelToSqlException x) \<Rightarrow> \<exists>ds. ensure_valid_alert_filter_cel rt d m (Some cel) = Inl (InvalidCelException ds cel) \<and>
        validate_cel rt d m (Some cel) ''alerts'' = Inr \<lparr>valid = False, diagnostics = ds\<rparr> \<and>
        http_exception_from_invalid_cel ds = http_exception_from_converter_error x \<and> map diag_code ds = [exc_code x]
    | Inl (Uncaught e) \<Rightarrow> validate_cel rt d m (Some cel) ''alerts'' = Inl e"
proof -
  have "\<not> no_filter (Some cel)" using assms by (auto simp: no_filter_def py_strip_def)
  then show ?thesis
    by (auto simp: validate_cel_def validate_alert_filter_cel_def ensure_valid_alert_filter_cel_def ensure_valid_cel_def
        valid_result_def http_exception_from_invalid_cel_def http_exception_from_converter_error_def
        diagnostics_from_converter_error_def split: sum.splits sql_failure.splits)
qed

definition literal_runtime :: runtime where
  "literal_runtime = sample_runtime (Tree ''literal'' [Token ''12''])"

theorem validation_agrees_with_conversion_witness:
  "\<exists>ds. validate_cel literal_runtime (sqlite_dialect doubling_literal) severity_metadata (Some ''12'') ''alerts'' =
     Inr \<lparr>valid = False, diagnostics = ds\<rparr> \<and> map diag_code ds = [EXPECTED_BOOLEAN]"
proof -
  let ?d = "sqlite_dialect doubling_literal"
  have "case convert_to_sql_str_v2 literal_runtime ?d severity_metadata ''12'' of
      Inl (CelToSqlException x) \<Rightarrow> exc_code x = EXPECTED_BOOLEAN | _ \<Rightarrow> False" by code_simp
  then obtain x where x: "convert_to_sql_str_v2 literal_runtime ?d severity_metadata ''12'' = Inl (CelToSqlException x)"
    "exc_code x = EXPECTED_BOOLEAN" by (auto split: sum.splits sql_failure.splits)
  have "py_strip ''12'' \<noteq> []" by code_simp
  from validation_agrees_with_conversion [OF this, of literal_runtime ?d severity_metadata] x show ?thesis by auto
qed

text \<open>
  The contexts are ordered: an expression that is valid as an alert filter is valid in every
  context that evaluates it in process (maintenance, extraction, rules, workflows), which check a part
  of what the conversion checks.
\<close>

theorem alert_valid_is_valid_everywhere:
  assumes "validate_cel rt d m cel ''alerts'' = Inr r" and "valid r" and "ctx \<in> set event_contexts"
  shows "validate_cel rt d m cel ctx = Inr valid_result"
proof (cases "no_filter cel")
  case True
  with assms(3) show ?thesis by (auto simp: validate_cel_def validate_event_filter_cel_def event_contexts_def)
next
  case False
  then obtain s where s: "cel = Some s" "s \<noteq> []" by (auto simp: no_filter_def split: option.splits)
  have "is_ok (convert_to_sql_str_v2 rt d m s)"
    using assms(1,2) False s alert_valid_iff by (auto simp: validate_cel_def)
  then obtain n where "convert_to_ast rt s = Inr (INode n)" "is_boolean_filter_node n"
    using conversion_ok_boolean s(2) by (fastforce simp: is_ok_iff)
  with False s assms(3) show ?thesis
    by (auto simp: validate_cel_def validate_event_filter_cel_def event_contexts_def)
qed

theorem alert_valid_is_valid_everywhere_witness:
  "validate_cel (sample_runtime sample_tree) (mysql_dialect doubling_literal) severity_metadata (Some ''q'') ''workflows''
     = Inr valid_result"
proof -
  let ?v = "validate_cel (sample_runtime sample_tree) (mysql_dialect doubling_literal) severity_metadata (Some ''q'') ''alerts''"
  have "case ?v of Inr r \<Rightarrow> valid r | Inl _ \<Rightarrow> False" by code_simp
  then obtain r where "?v = Inr r" "valid r" by (auto split: sum.splits)
  moreover have "''workflows'' \<in> set event_contexts" by code_simp
  ultimately show ?thesis by (rule alert_valid_is_valid_everywhere)
qed

text \<open>
  every range a diagnostic reports is one-based and not empty, in every context, provided the
  parser's own positions are one-based.  (The converter measures lines by \<open>splitlines\<close>, the event
  validator by \<open>split("\n")\<close>.)
\<close>

theorem diagnostic_ranges_not_empty:
  assumes "validate_cel rt d m (Some cel) ctx = Inr r" and "g \<in> set (diagnostics r)" and "diag_range g = Some x"
    and "\<forall>l c. convert_to_ast rt cel = Inl (CELParseError l c) \<longrightarrow> l \<noteq> Some 0 \<and> c \<noteq> Some 0"
  shows "range_ok x"
proof -
  have cel: "py_strip cel \<noteq> []" "cel \<noteq> []"
    using assms(1,2) by (auto simp: validate_cel_def validate_alert_filter_cel_def validate_event_filter_cel_def
        no_filter_def valid_result_def split: if_splits)
  show ?thesis
  proof (cases "ctx = ''alerts''")
    case True
    with assms(1,2) cel obtain e where e: "convert_to_sql_str_v2 rt d m cel = Inl (CelToSqlException e)"
      and g: "g = \<lparr>diag_code = exc_code e, diag_message = ConverterMessage, diag_range = range_from_converter_error e\<rparr>"
      by (auto simp: validate_cel_def validate_alert_filter_cel_def valid_result_def diagnostics_from_converter_error_def
          split: if_splits sum.splits sql_failure.splits)
    have located: "(\<exists>l c. convert_to_ast rt cel = Inl (CELParseError l c) \<and>
        e = cel_to_sql_exception_init SYNTAX_ERROR l c None None) \<or>
      e = whole_expression_span cel EXPECTED_BOOLEAN \<or> exc_line e = None"
      using e cel(2) by (auto simp: convert_to_sql_str_v2_def parse_stage_def boolean_stage_def mapping_stage_def
          building_stage_def rejected_def cel_to_sql_exception_init_def rbind_def
          split: if_splits option.splits sum.splits pyexc.splits item.splits)
    with g assms(3) splitlines_span [OF cel(1), of EXPECTED_BOOLEAN] assms(4) show ?thesis
      by (auto simp: range_from_converter_error_def cel_to_sql_exception_init_def or_else_def range_ok_def
          split: option.splits)
  next
    case False
    with assms(1) have r: "r = validate_event_filter_cel rt (Some cel)" by (auto simp: validate_cel_def split: if_splits)
    show ?thesis
    proof (cases "convert_to_ast rt cel")
      case (Inl e)
      with r assms(2-4) show ?thesis
        by (cases e) (auto simp: validate_event_filter_cel_def valid_result_def exception_position_def diagnostic_def
            point_range_def range_ok_def split: if_splits option.splits)
    next
      case (Inr i)
      with r assms(2,3) split_span [OF cel(1)] show ?thesis
        by (auto simp: validate_event_filter_cel_def valid_result_def diagnostic_def split: if_splits)
    qed
  qed
qed

theorem diagnostic_ranges_not_empty_witness:
  "\<exists>r g x. validate_cel literal_runtime (sqlite_dialect doubling_literal) severity_metadata (Some ''12'') ''rules'' = Inr r \<and>
     g \<in> set (diagnostics r) \<and> diag_range g = Some x \<and> range_ok x \<and> end_column x = 3"
proof -
  let ?v = "validate_cel literal_runtime (sqlite_dialect doubling_literal) severity_metadata (Some ''12'') ''rules''"
  have "case ?v of Inr r \<Rightarrow> (case diagnostics r of [g] \<Rightarrow> (case diag_range g of Some x \<Rightarrow> end_column x = 3 | None \<Rightarrow> False) | _ \<Rightarrow> False)
    | Inl _ \<Rightarrow> False" by code_simp
  then obtain r g x where v: "?v = Inr r" "g \<in> set (diagnostics r)" "diag_range g = Some x" "end_column x = 3"
    by (auto split: sum.splits list.splits option.splits)
  have "case convert_to_ast literal_runtime ''12'' of Inr _ \<Rightarrow> True | Inl _ \<Rightarrow> False" by code_simp
  then have "\<forall>l c. convert_to_ast literal_runtime ''12'' = Inl (CELParseError l c) \<longrightarrow> l \<noteq> Some 0 \<and> c \<noteq> Some 0"
    by (auto split: sum.splits)
  from diagnostic_ranges_not_empty [OF v(1,2,3) this] v show ?thesis by blast
qed

text \<open>
  A filter of white space only is the one case where preflight and execution disagree.  The
  validator strips it and calls it valid; the converter tests only for the empty string, hands it to the
  parser and refuses it with the parser's error.
\<close>

theorem blank_filter_verdicts_differ:
  assumes "py_strip cel = []" and "cel \<noteq> []" and "rt_parse rt cel = Inl (CELParseError l c)"
  shows "validate_cel rt d m (Some cel) ''alerts'' = Inr valid_result \<and>
    convert_to_sql_str_v2 rt d m cel =
      Inl (CelToSqlException (cel_to_sql_exception_init SYNTAX_ERROR l c None None))"
  using assms by (simp add: validate_cel_def validate_alert_filter_cel_def no_filter_def convert_to_sql_str_v2_def
      parse_stage_def convert_to_ast_def)

definition rejecting_runtime :: runtime where
  "rejecting_runtime = (sample_runtime (Token []))\<lparr>rt_parse := \<lambda>_. Inl (CELParseError (Some 1) (Some 3))\<rparr>"

theorem blank_filter_verdicts_differ_witness:
  "validate_cel rejecting_runtime (sqlite_dialect doubling_literal) severity_metadata (Some ''  '') ''alerts'' = Inr valid_result \<and>
   \<not> is_ok (convert_to_sql_str_v2 rejecting_runtime (sqlite_dialect doubling_literal) severity_metadata ''  '')"
proof -
  have "py_strip ''  '' = []" by code_simp
  moreover have "rt_parse rejecting_runtime ''  '' = Inl (CELParseError (Some 1) (Some 3))" by (simp add: rejecting_runtime_def)
  ultimately show ?thesis using blank_filter_verdicts_differ [of "''  ''" rejecting_runtime "Some 1" "Some 3"] by simp
qed

text \<open>
  A maintenance condition is accepted exactly when it is there, converts to a tree and is a
  filter; every other one is answered with a 400, never with an unhandled error, whatever the alert
  fields and the database are.
\<close>

theorem maintenance_condition_outcome:
  "validate_maintenance_cel_query rt d m q =
    (if py_strip q = [] then Inl (Inl None)
     else if \<exists>n. convert_to_ast rt q = Inr (INode n) \<and> is_boolean_filter_node n then Inr ()
     else Inl (Inl (Some (http_exception_from_invalid_cel (diagnostics (validate_event_filter_cel rt (Some q))))))) \<and>
   status_code (http_exception_from_invalid_cel ds) = 400"
proof -
  have filter: "is_boolean_filter_item i \<longleftrightarrow> (\<exists>n. i = INode n \<and> is_boolean_filter_node n)" for i
    by (cases i) auto
  have "no_filter (Some q) \<longleftrightarrow> py_strip q = []" by (auto simp: no_filter_def py_strip_def)
  moreover have "valid (validate_event_filter_cel rt (Some q)) \<longleftrightarrow>
      no_filter (Some q) \<or> (\<exists>n. convert_to_ast rt q = Inr (INode n) \<and> is_boolean_filter_node n)"
    by (auto simp: validate_event_filter_cel_def valid_result_def filter split: sum.splits prod.splits)
  ultimately show ?thesis
    by (auto simp: validate_maintenance_cel_query_def ensure_valid_cel_def validate_cel_def event_contexts_def
        http_exception_from_invalid_cel_def invalid_cel_http_exception_def)
qed

end
