(* ===== verification/Py_Json.thy ===== *)
theory Py_Json
  imports Keep_Prelude
begin

text \<open>
  Python's \<open>json.dumps\<close> with its default separators and \<open>default=str\<close>, and \<open>json.loads\<close>: what the
  notification services put into a frame and read back from the channel.  A float is kept as the
  text of its literal; \<open>JOther s\<close> is a value the encoder does not know, whose \<open>str\<close> is \<open>s\<close>.
  As for strings in general, code points stop at 255: \<open>loads\<close> has no value for an escape above.
\<close>

section \<open>Encoding\<close>

datatype json = JNull | JBool bool | JInt int | JFloat string | JStr string
  | JList "json list" | JObj "(string \<times> json) list" | JOther string

definition hex4 :: "nat \<Rightarrow> string" where
  "hex4 n = [digit_char (n div 4096 mod 16), digit_char (n div 256 mod 16),
     digit_char (n div 16 mod 16), digit_char (n mod 16)]"

definition json_escape :: "char \<Rightarrow> string" where
  "json_escape c =
     (if c = CHR 0x22 \<or> c = CHR 0x5C then [CHR 0x5C, c]
      else if c = CHR 0x0A then [CHR 0x5C, CHR ''n'']
      else if c = CHR 0x0D then [CHR 0x5C, CHR ''r'']
      else if c = CHR 0x09 then [CHR 0x5C, CHR ''t'']
      else if c = CHR 0x0C then [CHR 0x5C, CHR ''f'']
      else if c = CHR 0x08 then [CHR 0x5C, CHR ''b'']
      else if of_char c < (32::nat) \<or> 126 < (of_char c::nat) then CHR 0x5C # CHR ''u'' # hex4 (of_char c)
      else [c])"

definition json_string :: "string \<Rightarrow> string" where
  "json_string s = CHR 0x22 # concat (map json_escape s) @ [CHR 0x22]"

fun json_dumps :: "json \<Rightarrow> string" where
  "json_dumps JNull = ''null''"
| "json_dumps (JBool b) = (if b then ''true'' else ''false'')"
| "json_dumps (JInt i) = int_str i"
| "json_dumps (JFloat t) = t"
| "json_dumps (JStr s) = json_string s"
| "json_dumps (JOther s) = json_string s"
| "json_dumps (JList vs) = ''['' @ py_join '', '' (map json_dumps vs) @ '']''"
| "json_dumps (JObj kvs) = ''{'' @ py_join '', '' (map (\<lambda>(k, v). json_string k @ '': '' @ json_dumps v) kvs) @ ''}''"

section \<open>Decoding\<close>

definition json_ws :: "char \<Rightarrow> bool" where
  "json_ws c = (c = CHR '' '' \<or> c = CHR 0x09 \<or> c = CHR 0x0A \<or> c = CHR 0x0D)"

definition skip_ws :: "string \<Rightarrow> string" where
  "skip_ws s = dropWhile json_ws s"

text \<open>The four digits of \<open>\uXXXX\<close>.\<close>

definition unhex4 :: "char \<Rightarrow> char \<Rightarrow> char \<Rightarrow> char \<Rightarrow> nat option" where
  "unhex4 a b c d = (case (digit_val 16 a, digit_val 16 b, digit_val 16 c, digit_val 16 d) of
     (Some i, Some j, Some k, Some l) \<Rightarrow> Some (4096 * i + 256 * j + 16 * k + l)
   | _ \<Rightarrow> None)"

definition json_unescape :: "char \<Rightarrow> char option" where
  "json_unescape c =
     (if c = CHR 0x22 \<or> c = CHR 0x5C \<or> c = CHR ''/'' then Some c
      else if c = CHR ''n'' then Some (CHR 0x0A)
      else if c = CHR ''r'' then Some (CHR 0x0D)
      else if c = CHR ''t'' then Some (CHR 0x09)
      else if c = CHR ''f'' then Some (CHR 0x0C)
      else if c = CHR ''b'' then Some (CHR 0x08)
      else None)"

text \<open>\<open>scanstring\<close>, strict: after the opening quote, up to the closing one.\<close>

fun scan_string :: "string \<Rightarrow> (string \<times> string) option" where
  "scan_string [] = None"
| "scan_string (c # s) =
     (if c = CHR 0x22 then Some ([], s)
      else if c = CHR 0x5C then
        (case s of [] \<Rightarrow> None
         | e # s' \<Rightarrow>
             if e = CHR ''u'' then
               (case s' of w # x # y # z # s'' \<Rightarrow>
                  (case unhex4 w x y z of
                     Some n \<Rightarrow> if n < 256 then map_option (apfst (Cons (char_of n))) (scan_string s'') else None
                   | None \<Rightarrow> None)
                | _ \<Rightarrow> None)
             else
               (case json_unescape e of
                  Some d \<Rightarrow> map_option (apfst (Cons d)) (scan_string s')
                | None \<Rightarrow> None))
      else if of_char c < (32::nat) then None
      else map_option (apfst (Cons c)) (scan_string s))"

text \<open>The number grammar \<open>-?(0|[1-9][0-9]*)(.[0-9]+)?([eE][-+]?[0-9]+)?\<close>.\<close>

definition is_digit :: "char \<Rightarrow> bool" where
  "is_digit c = (let n = (of_char c :: nat) in 48 \<le> n \<and> n \<le> 57)"

definition scan_int :: "string \<Rightarrow> (string \<times> string) option" where
  "scan_int s = (case s of [] \<Rightarrow> None
     | c # r \<Rightarrow> if c = CHR ''0'' then Some (''0'', r)
               else if is_digit c then Some (c # takeWhile is_digit r, dropWhile is_digit r)
               else None)"

definition scan_frac :: "string \<Rightarrow> string \<times> string" where
  "scan_frac s = (case s of [] \<Rightarrow> ([], [])
     | c # r \<Rightarrow> if c = CHR ''.'' \<and> takeWhile is_digit r \<noteq> []
               then (c # takeWhile is_digit r, dropWhile is_digit r) else ([], s))"

fun exp_sign :: "string \<Rightarrow> string \<times> string" where
  "exp_sign [] = ([], [])"
| "exp_sign (d # r) = (if d = CHR ''-'' \<or> d = CHR ''+'' then ([d], r) else ([], d # r))"

definition scan_exp :: "string \<Rightarrow> string \<times> string" where
  "scan_exp s = (case s of [] \<Rightarrow> ([], [])
     | c # r \<Rightarrow>
         let (sg, t) = exp_sign r
         in if (c = CHR ''e'' \<or> c = CHR ''E'') \<and> takeWhile is_digit t \<noteq> []
            then (c # sg @ takeWhile is_digit t, dropWhile is_digit t) else ([], s))"

definition scan_number :: "string \<Rightarrow> (json \<times> string) option" where
  "scan_number s =
     (let (neg, s1) = (case s of c # r \<Rightarrow> if c = CHR ''-'' then (True, r) else (False, s) | [] \<Rightarrow> (False, []))
      in case scan_int s1 of None \<Rightarrow> None
         | Some (ip, s2) \<Rightarrow>
             let (fp, s3) = scan_frac s2; (ep, s4) = scan_exp s3 in
             if fp = [] \<and> ep = [] then
               map_option (\<lambda>ds. (JInt ((if neg then -1 else 1) * int (digits_value 10 ds)), s2)) (digits_of 10 ip)
             else Some (JFloat ((if neg then ''-'' else []) @ ip @ fp @ ep), s4))"

definition scan_word :: "string \<Rightarrow> json \<Rightarrow> string \<Rightarrow> (json \<times> string) option" where
  "scan_word w v s = (if prefixed w s then Some (v, drop (length w) s) else None)"

text \<open>
  \<open>scan_once\<close> and the loops of \<open>JSONArray\<close> and \<open>JSONObject\<close>.  A call consumes a character before
  the next one, so the length of the text is fuel enough.
\<close>

fun scan_once :: "nat \<Rightarrow> string \<Rightarrow> (json \<times> string) option"
and scan_items :: "nat \<Rightarrow> string \<Rightarrow> (json list \<times> string) option"
and scan_pairs :: "nat \<Rightarrow> string \<Rightarrow> ((string \<times> json) list \<times> string) option" where
  "scan_once 0 s = None"
| "scan_once (Suc n) s =
     (case s of [] \<Rightarrow> None
      | c # r \<Rightarrow>
          if c = CHR 0x22 then map_option (apfst JStr) (scan_string r)
          else if c = CHR ''{'' then
            (case skip_ws r of [] \<Rightarrow> None
             | d # r' \<Rightarrow> if d = CHR ''}'' then Some (JObj [], r')
                        else map_option (apfst (\<lambda>ps. JObj (fold (\<lambda>(k, v). dict_set k v) ps [])))
                               (scan_pairs n (d # r')))
          else if c = CHR ''['' then
            (case skip_ws r of [] \<Rightarrow> None
             | d # r' \<Rightarrow> if d = CHR '']'' then Some (JList [], r')
                        else map_option (apfst JList) (scan_items n (d # r')))
          else if c = CHR ''n'' then scan_word ''null'' JNull s
          else if c = CHR ''t'' then scan_word ''true'' (JBool True) s
          else if c = CHR ''f'' then scan_word ''false'' (JBool False) s
          else if c = CHR ''N'' then scan_word ''NaN'' (JFloat ''NaN'') s
          else if c = CHR ''I'' then scan_word ''Infinity'' (JFloat ''Infinity'') s
          else if prefixed ''-Infinity'' s then scan_word ''-Infinity'' (JFloat ''-Infinity'') s
          else scan_number s)"
| "scan_items 0 s = None"
| "scan_items (Suc n) s =
     (case scan_once n s of None \<Rightarrow> None
      | Some (v, r) \<Rightarrow>
          (case skip_ws r of [] \<Rightarrow> None
           | d # r' \<Rightarrow> if d = CHR '']'' then Some ([v], r')
                      else if d = CHR '','' then map_option (apfst (Cons v)) (scan_items n (skip_ws r'))
                      else None))"
| "scan_pairs 0 s = None"
| "scan_pairs (Suc n) s =
     (case s of [] \<Rightarrow> None
      | q # t \<Rightarrow>
          if q \<noteq> CHR 0x22 then None
          else (case scan_string t of None \<Rightarrow> None
            | Some (k, r) \<Rightarrow>
                (case skip_ws r of [] \<Rightarrow> None
                 | c # r1 \<Rightarrow>
                     if c \<noteq> CHR '':'' then None
                     else (case scan_once n (skip_ws r1) of None \<Rightarrow> None
                       | Some (v, r2) \<Rightarrow>
                           (case skip_ws r2 of [] \<Rightarrow> None
                            | d # r3 \<Rightarrow> if d = CHR ''}'' then Some ([(k, v)], r3)
                                       else if d = CHR '','' then map_option (apfst (Cons (k, v))) (scan_pairs n (skip_ws r3))
                                       else None)))))"

definition json_loads :: "string \<Rightarrow> json option" where
  "json_loads s = (case scan_once (Suc (length s)) (skip_ws s) of
     Some (v, r) \<Rightarrow> if skip_ws r = [] then Some v else None
   | None \<Rightarrow> None)"

lemma json_loads_examples:
  "json_loads ''{''  = None"
  "json_loads ''{ }'' = Some (JObj [])"
  "json_loads ''[1, -2.5e3, null,true]'' = Some (JList [JInt 1, JFloat ''-2.5e3'', JNull, JBool True])"
  "json_loads (json_dumps (JObj [(''a'', JList []), (''b'', JStr ''x'')])) = Some (JObj [(''a'', JList []), (''b'', JStr ''x'')])"
  by code_simp+

section \<open>Round trip\<close>

lemma digit_val_digit_char: "d < 16 \<Longrightarrow> digit_val 16 (digit_char d) = Some d"
  by (simp add: digit_val_def digit_char_def Let_def)

lemma unhex4_hex4: "n < 256 \<Longrightarrow> hex4 n = [a, b, c, d] \<Longrightarrow> unhex4 a b c d = Some n"
  by (auto simp: hex4_def unhex4_def digit_val_digit_char)

lemma char_code_bound: "of_char (c::char) < (256::nat)"
  using nat_of_char_less_256 [of c] by simp

lemma scan_string_escape:
  "scan_string (json_escape c @ s) = map_option (apfst (Cons c)) (scan_string s)"
proof -
  obtain w x y z where h: "hex4 (of_char c) = [w, x, y, z]"
    by (simp add: hex4_def)
  have "unhex4 w x y z = Some (of_char c)"
    using char_code_bound [of c] h by (rule unhex4_hex4)
  then show ?thesis
    using h char_code_bound [of c] by (simp add: json_escape_def json_unescape_def)
qed

lemma scan_string_dumped:
  "scan_string (concat (map json_escape s) @ CHR 0x22 # rest) = Some (s, rest)"
  by (induction s) (simp_all add: scan_string_escape)

lemma digit_char_digit: "d < 10 \<Longrightarrow> is_digit (digit_char d)"
  by (simp add: is_digit_def digit_char_def)

lemma nat_str_digits: "\<forall>c \<in> set (nat_str n). is_digit c"
  by (induction n rule: nat_str.induct) (subst nat_str.simps, auto simp: digit_char_digit)

lemma nat_str_not_Nil [simp]: "nat_str n \<noteq> []"
  by (subst nat_str.simps) simp

lemma digit_char_not_zero: "d < 10 \<Longrightarrow> 0 < d \<Longrightarrow> digit_char d \<noteq> CHR ''0''"
proof -
  assume d: "d < 10" "0 < d"
  then have "of_char (digit_char d) = 48 + d" by (simp add: digit_char_def)
  then show ?thesis using d by auto
qed

lemma nat_str_first: "0 < n \<Longrightarrow> \<exists>c t. nat_str n = c # t \<and> c \<noteq> CHR ''0'' \<and> is_digit c"
proof (induction n rule: nat_str.induct)
  case (1 n)
  show ?case
  proof (cases "n < 10")
    case True
    then show ?thesis
      using "1.prems" digit_char_not_zero [of n] by (subst nat_str.simps) (simp add: digit_char_digit)
  next
    case False
    then have "0 < n div 10" by (simp add: div_greater_zero_iff)
    with 1 False obtain c t where "nat_str (n div 10) = c # t \<and> c \<noteq> CHR ''0'' \<and> is_digit c" by blast
    then show ?thesis using False by (subst nat_str.simps) simp
  qed
qed

lemma digit_val_10: "d < 10 \<Longrightarrow> digit_val 10 (digit_char d) = Some d"
  by (simp add: digit_val_def digit_char_def Let_def)

lemma digit_not_underscore: "is_digit c \<Longrightarrow> c \<noteq> CHR ''_''"
  by (auto simp: is_digit_def)

lemma digits_of_10_append:
  "\<forall>c \<in> set s. is_digit c \<Longrightarrow> digits_of 10 s = Some ds \<Longrightarrow> d < 10 \<Longrightarrow>
   digits_of 10 (s @ [digit_char d]) = Some (ds @ [d])"
proof (induction s arbitrary: ds)
  case Nil
  then show ?case by simp
next
  case (Cons c s)
  have u: "digit_char d \<noteq> CHR ''_''"
    using Cons.prems(3) by (intro digit_not_underscore digit_char_digit)
  show ?case
  proof (cases s)
    case Nil
    then show ?thesis using Cons.prems u by (auto simp: digit_val_10)
  next
    case (Cons e t)
    then show ?thesis using Cons.prems Cons.IH digit_not_underscore [of e] 
      by (auto split: option.splits)
  qed
qed

lemma digits_of_nat_str: "\<exists>ds. digits_of 10 (nat_str n) = Some ds \<and> digits_value 10 ds = n"
proof (induction n rule: nat_str.induct)
  case (1 n)
  show ?case
  proof (cases "n < 10")
    case True
    then show ?thesis by (subst nat_str.simps) (simp add: digit_val_10 digits_value_def)
  next
    case False
    then obtain ds where ds: "digits_of 10 (nat_str (n div 10)) = Some ds" "digits_value 10 ds = n div 10"
      using 1 by auto
    have "digits_of 10 (nat_str n) = Some (ds @ [n mod 10])"
      using False by (subst nat_str.simps) (simp add: digits_of_10_append [OF nat_str_digits ds(1)])
    then show ?thesis using ds(2) by (simp add: digits_value_def)
  qed
qed

definition json_stop :: "string \<Rightarrow> bool" where
  "json_stop s = (case s of [] \<Rightarrow> True | c # _ \<Rightarrow> c = CHR '','' \<or> c = CHR '']'' \<or> c = CHR ''}'')"

lemma json_stop_simps [simp]:
  "json_stop []" "json_stop (CHR '','' # s)" "json_stop (CHR '']'' # s)" "json_stop (CHR ''}'' # s)"
  by (simp_all add: json_stop_def)

lemma json_stop_no_digit: "json_stop s \<Longrightarrow> s = [] \<or> \<not> is_digit (hd s)"
  by (auto simp: json_stop_def is_digit_def split: list.splits)

lemma json_stop_frac: "json_stop s \<Longrightarrow> scan_frac s = ([], s)"
  by (auto simp: json_stop_def scan_frac_def split: list.splits)

lemma json_stop_exp: "json_stop s \<Longrightarrow> scan_exp s = ([], s)"
  by (auto simp: json_stop_def scan_exp_def split: list.splits prod.splits)

lemma takeWhile_digits:
  "\<forall>c \<in> set t. is_digit c \<Longrightarrow> s = [] \<or> \<not> is_digit (hd s) \<Longrightarrow>
   takeWhile is_digit (t @ s) = t \<and> dropWhile is_digit (t @ s) = s"
  by (induction t) (cases s; auto)+

lemma scan_int_nat_str: "json_stop s \<Longrightarrow> scan_int (nat_str n @ s) = Some (nat_str n, s)"
proof (cases "n = 0")
  case True
  have "nat_str 0 = ''0''" by code_simp
  with True show ?thesis by (simp add: scan_int_def)
next
  case False
  assume st: "json_stop s"
  from False obtain c t where ct: "nat_str n = c # t" "c \<noteq> CHR ''0''" "is_digit c"
    using nat_str_first by blast
  have "\<forall>x \<in> set t. is_digit x" using nat_str_digits [of n] ct by simp
  then show ?thesis
    using ct takeWhile_digits [of t s] json_stop_no_digit [OF st] by (simp add: scan_int_def)
qed

lemma scan_number_int: "json_stop s \<Longrightarrow> scan_number (int_str i @ s) = Some (JInt i, s)"
proof -
  assume st: "json_stop s"
  have pos: "scan_number (nat_str n @ s) = Some (JInt (int n), s)" for n
  proof -
    obtain c t where ct: "nat_str n = c # t" using nat_str_not_Nil [of n] by (cases "nat_str n") auto
    then have "is_digit c" using nat_str_digits [of n] by simp
    then have "c \<noteq> CHR ''-''" by (auto simp: is_digit_def)
    then have "(case nat_str n @ s of c # r \<Rightarrow> if c = CHR ''-'' then (True, r) else (False, nat_str n @ s) | [] \<Rightarrow> (False, []))
       = (False, nat_str n @ s)" using ct by simp
    then show ?thesis
      using digits_of_nat_str [of n] st
      by (auto simp: scan_number_def scan_int_nat_str json_stop_frac json_stop_exp)
  qed
  have neg: "scan_number (CHR ''-'' # nat_str n @ s) = Some (JInt (- int n), s)" for n
    using digits_of_nat_str [of n] st
    by (auto simp: scan_number_def scan_int_nat_str json_stop_frac json_stop_exp)
  show ?thesis using pos [of "nat i"] neg [of "nat (- i)"] by (simp add: int_str_def)
qed


text \<open>What a dumped value comes back as: an unknown value comes back as its \<open>str\<close>.\<close>

fun json_norm :: "json \<Rightarrow> json" where
  "json_norm (JOther s) = JStr s"
| "json_norm (JList vs) = JList (map json_norm vs)"
| "json_norm (JObj kvs) = JObj (map (\<lambda>(k, v). (k, json_norm v)) kvs)"
| "json_norm v = v"

text \<open>The text of a number is read the same way in front of whatever may follow a value.\<close>

lemma number_chars_stop:
  "json_stop s \<Longrightarrow> takeWhile is_digit (t @ s) = takeWhile is_digit t
    \<and> dropWhile is_digit (t @ s) = dropWhile is_digit t @ s"
proof (induction t)
  case Nil
  then show ?case using json_stop_no_digit [of s] by (cases s) auto
qed auto

lemma scan_int_stop: "json_stop s \<Longrightarrow> scan_int a = Some (x, r) \<Longrightarrow> scan_int (a @ s) = Some (x, r @ s)"
  by (auto simp: scan_int_def number_chars_stop split: list.splits if_splits)

lemma scan_frac_stop: "json_stop s \<Longrightarrow> scan_frac a = (x, r) \<Longrightarrow> scan_frac (a @ s) = (x, r @ s)"
  by (cases a) (auto simp: scan_frac_def number_chars_stop json_stop_frac [unfolded scan_frac_def] split: if_splits)

lemma exp_sign_stop: "json_stop s \<Longrightarrow> exp_sign (t @ s) = apsnd (\<lambda>r. r @ s) (exp_sign t)"
  by (cases t; cases s) (auto simp: json_stop_def)

lemma scan_exp_stop: "json_stop s \<Longrightarrow> scan_exp a = (x, r) \<Longrightarrow> scan_exp (a @ s) = (x, r @ s)"
  by (cases a) (auto simp: scan_exp_def number_chars_stop exp_sign_stop json_stop_exp [unfolded scan_exp_def]
    split: if_splits prod.splits)

text \<open>The values Python can hold: the keys of a dict are distinct, and a float prints as a float.\<close>

fun json_ok :: "json \<Rightarrow> bool" where
  "json_ok (JFloat t) = (t = ''NaN'' \<or> t = ''Infinity'' \<or> t = ''-Infinity'' \<or> scan_number t = Some (JFloat t, []))"
| "json_ok (JList vs) = (\<forall>v \<in> set vs. json_ok v)"
| "json_ok (JObj kvs) = (dict_ok kvs \<and> (\<forall>kv \<in> set kvs. json_ok (snd kv)))"
| "json_ok v = True"

lemma scan_number_float:
  assumes st: "json_stop s" and t: "scan_number t = Some (JFloat t, [])"
  shows "scan_number (t @ s) = Some (JFloat t, s)"
proof (cases t)
  case Nil
  then show ?thesis using t by (simp add: scan_number_def scan_int_def)
next
  case (Cons c r)
  define u where "u = (if c = CHR ''-'' then r else t)"
  have u: "(case t of c # r \<Rightarrow> if c = CHR ''-'' then (True, r) else (False, t) | [] \<Rightarrow> (False, [])) = (c = CHR ''-'', u)"
    "(case t @ s of c # r \<Rightarrow> if c = CHR ''-'' then (True, r) else (False, t @ s) | [] \<Rightarrow> (False, [])) = (c = CHR ''-'', u @ s)"
    using Cons by (simp_all add: u_def)
  from t u(1) obtain ip s2 where i: "scan_int u = Some (ip, s2)"
    by (auto simp: scan_number_def split: option.splits)
  obtain fp s3 where f: "scan_frac s2 = (fp, s3)" by force
  obtain ep s4 where e: "scan_exp s3 = (ep, s4)" by force
  show ?thesis
    using t scan_int_stop [OF st i] scan_frac_stop [OF st f] scan_exp_stop [OF st e] i f e
    unfolding scan_number_def u by (auto split: if_splits)
qed


lemma scan_number_first:
  assumes "scan_number s = Some x"
  shows "\<exists>c r. s = c # r \<and> (is_digit c \<or> c = CHR ''-'') \<and> \<not> prefixed ''-Infinity'' s"
proof (cases s)
  case Nil
  then show ?thesis using assms by (simp add: scan_number_def scan_int_def)
next
  case (Cons c r)
  have d0: "is_digit CHR ''0''" and dI: "\<not> is_digit CHR ''I''" by code_simp+
  show ?thesis
  proof (cases "c = CHR ''-''")
    case True
    then have "scan_int r \<noteq> None" using assms Cons by (cases "scan_int r") (auto simp: scan_number_def)
    then have "r \<noteq> [] \<and> is_digit (hd r)" using d0 by (auto simp: scan_int_def split: list.splits if_splits)
    then show ?thesis using True Cons dI by (cases r) auto
  next
    case False
    then have "scan_int s \<noteq> None" using assms Cons by (cases "scan_int s") (auto simp: scan_number_def)
    then have "is_digit c" using d0 Cons by (auto simp: scan_int_def split: list.splits if_splits)
    then show ?thesis using False Cons by simp
  qed
qed

lemma scan_once_number: "scan_number s = Some x \<Longrightarrow> scan_once (Suc n) s = Some x"
proof -
  assume a: "scan_number s = Some x"
  then obtain c r where s: "s = c # r" "is_digit c \<or> c = CHR ''-''" "\<not> prefixed ''-Infinity'' s"
    using scan_number_first by blast
  have "\<not> is_digit d" if "d \<in> set [CHR 0x22, CHR ''{'', CHR ''['', CHR ''n'', CHR ''t'', CHR ''f'', CHR ''N'', CHR ''I'']" for d
    using that by (auto simp: is_digit_def)
  with s(2) have "c \<notin> set [CHR 0x22, CHR ''{'', CHR ''['', CHR ''n'', CHR ''t'', CHR ''f'', CHR ''N'', CHR ''I'']"
    by auto
  with a s show ?thesis by (simp del: prefixed.simps)
qed

definition opener :: "string \<Rightarrow> bool" where
  "opener s = (case s of [] \<Rightarrow> False | c # _ \<Rightarrow> \<not> json_ws c \<and> c \<noteq> CHR '']'' \<and> c \<noteq> CHR ''}'')"

lemma opener_number: "scan_number s = Some x \<Longrightarrow> opener s"
  using scan_number_first [of s x]
  by (auto simp: opener_def json_ws_def is_digit_def)

lemma opener_append: "opener s \<Longrightarrow> opener (s @ t)"
  by (cases s) (auto simp: opener_def)

lemma opener_skip: "opener s \<Longrightarrow> skip_ws s = s"
  by (cases s) (auto simp: opener_def skip_ws_def)

lemma opener_dumps: "json_ok v \<Longrightarrow> opener (json_dumps v)"
proof (cases v)
  case (JInt i)
  then show ?thesis using scan_number_int [of "[]" i] by (simp add: opener_number)
next
  case (JFloat t)
  assume "json_ok v"
  then show ?thesis using JFloat by (auto simp: opener_number) (simp_all add: opener_def json_ws_def)
qed (simp_all add: opener_def json_ws_def json_string_def)

lemma opener_string: "opener (json_string s)"
  by (simp add: opener_def json_ws_def json_string_def)

lemma skip_ws_stop [simp]:
  "skip_ws (CHR '','' # s) = CHR '','' # s" "skip_ws (CHR '']'' # s) = CHR '']'' # s"
  "skip_ws (CHR ''}'' # s) = CHR ''}'' # s" "skip_ws (CHR '':'' # s) = CHR '':'' # s"
  "skip_ws (CHR '' '' # s) = skip_ws s"
  by (simp_all add: skip_ws_def json_ws_def)

definition reads_back :: "json \<Rightarrow> bool" where
  "reads_back v \<longleftrightarrow> (\<forall>n rest. length (json_dumps v) \<le> n \<longrightarrow> json_stop rest \<longrightarrow>
     scan_once n (json_dumps v @ rest) = Some (json_norm v, rest))"

lemma reads_backD:
  "reads_back v \<Longrightarrow> length (json_dumps v) \<le> n \<Longrightarrow> json_stop rest \<Longrightarrow>
   scan_once n (json_dumps v @ rest) = Some (json_norm v, rest)"
  by (simp add: reads_back_def)

lemma scan_items_dumped:
  assumes "vs \<noteq> []" and "\<forall>v \<in> set vs. reads_back v \<and> json_ok v"
    and "length (py_join '', '' (map json_dumps vs)) < n"
  shows "scan_items n (py_join '', '' (map json_dumps vs) @ CHR '']'' # rest) = Some (map json_norm vs, rest)"
  using assms
proof (induction vs arbitrary: n)
  case Nil
  then show ?case by simp
next
  case (Cons v vs)
  then obtain m where n: "n = Suc m" by (cases n) auto
  show ?case
  proof (cases vs)
    case Nil
    then show ?thesis using Cons.prems n by (simp add: reads_backD)
  next
    case (Cons w ws)
    let ?r = "py_join '', '' (map json_dumps vs)"
    have j: "py_join '', '' (map json_dumps (v # vs)) = json_dumps v @ '', '' @ ?r"
      using Cons by simp
    have op: "opener (?r @ CHR '']'' # rest)"
      using Cons Cons.prems(2) by (cases ws) (auto intro!: opener_append opener_dumps simp: append_assoc [symmetric] simp del: append_assoc)
    have sc: "scan_once m (json_dumps v @ CHR '','' # CHR '' '' # ?r @ CHR '']'' # rest)
        = Some (json_norm v, CHR '','' # CHR '' '' # ?r @ CHR '']'' # rest)"
      using Cons.prems n j by (intro reads_backD) auto
    have "scan_items m (?r @ CHR '']'' # rest) = Some (map json_norm vs, rest)"
      using Cons.IH [of m] Cons.prems n j Cons by simp
    then show ?thesis
      unfolding n j using sc op by (simp add: opener_skip)
  qed
qed


lemma scan_string_json_string:
  "json_string k @ r = CHR 0x22 # concat (map json_escape k) @ CHR 0x22 # r"
  by (simp add: json_string_def)

abbreviation pair_text :: "string \<times> json \<Rightarrow> string" where
  "pair_text kv \<equiv> (case kv of (k, v) \<Rightarrow> json_string k @ '': '' @ json_dumps v)"

lemma scan_pairs_one:
  assumes "reads_back v" and "json_ok v" and "length (json_dumps v) \<le> m" and "json_stop rest"
  shows "scan_pairs (Suc m) (pair_text (k, v) @ rest)
    = (case skip_ws rest of [] \<Rightarrow> None
       | d # r3 \<Rightarrow> if d = CHR ''}'' then Some ([(k, json_norm v)], r3)
                  else if d = CHR '','' then map_option (apfst (Cons (k, json_norm v))) (scan_pairs m (skip_ws r3))
                  else None)"
proof -
  have "skip_ws (json_dumps v @ rest) = json_dumps v @ rest"
    using opener_append [OF opener_dumps [OF assms(2)]] by (rule opener_skip)
  then show ?thesis
    using reads_backD [OF assms(1,3,4)]
    by (simp add: scan_string_json_string [of k, simplified] scan_string_dumped json_string_def)
qed

lemma scan_pairs_dumped:
  assumes "kvs \<noteq> []" and "\<forall>kv \<in> set kvs. reads_back (snd kv) \<and> json_ok (snd kv)"
    and "length (py_join '', '' (map pair_text kvs)) < n"
  shows "scan_pairs n (py_join '', '' (map pair_text kvs) @ CHR ''}'' # rest)
    = Some (map (\<lambda>(k, v). (k, json_norm v)) kvs, rest)"
  using assms
proof (induction kvs arbitrary: n)
  case Nil
  then show ?case by simp
next
  case (Cons kv kvs)
  obtain k v where kv: "kv = (k, v)" by force
  from Cons.prems(3) obtain m where n: "n = Suc m" by (cases n) auto
  from Cons.prems(2) kv have v: "reads_back v" "json_ok v" by auto
  show ?case
  proof (cases kvs)
    case Nil
    then show ?thesis using Cons.prems n kv scan_pairs_one [OF v, of m "CHR ''}'' # rest" k] by simp
  next
    case (Cons w ws)
    let ?r = "py_join '', '' (map pair_text kvs)"
    have j: "py_join '', '' (map pair_text (kv # kvs)) = pair_text (k, v) @ '', '' @ ?r"
      using Cons kv by simp
    have op: "opener (?r @ CHR ''}'' # rest)"
      using Cons by (cases ws; cases w) (auto simp: opener_def json_ws_def json_string_def)
    have len: "length (json_dumps v) \<le> m" "length ?r < m"
      using Cons.prems(3) unfolding n j by auto
    have "scan_pairs m (?r @ CHR ''}'' # rest) = Some (map (\<lambda>(k, v). (k, json_norm v)) kvs, rest)"
      using Cons.IH [of m] Cons.prems(2) len(2) Cons by simp
    then show ?thesis
      unfolding n j using op scan_pairs_one [OF v len(1), of "CHR '','' # CHR '' '' # ?r @ CHR ''}'' # rest" k] kv
      by (simp add: opener_skip)
  qed
qed

lemma fold_dict_set_distinct:
  "distinct (map fst (d @ kvs)) \<Longrightarrow> fold (\<lambda>(k, v). dict_set k v) kvs d = d @ kvs"
proof (induction kvs arbitrary: d)
  case (Cons kv kvs)
  obtain k v where kv: "kv = (k, v)" by force
  have "dict_set k v d = d @ [(k, v)]"
    using Cons.prems kv unfolding dict_set_def by (induction d) auto
  then show ?case using Cons kv by simp
qed simp

lemma json_reads_back: "json_ok v \<Longrightarrow> reads_back v"
proof (induction v)
  case (JFloat t)
  show ?case unfolding reads_back_def
  proof (intro allI impI)
    fix n rest assume n: "length (json_dumps (JFloat t)) \<le> n" and st: "json_stop rest"
    show "scan_once n (json_dumps (JFloat t) @ rest) = Some (json_norm (JFloat t), rest)"
    proof (cases "scan_number t = Some (JFloat t, [])")
      case True
      then obtain m where "n = Suc m" using n scan_number_first [OF True] by (cases n) auto
      then show ?thesis using scan_once_number [OF scan_number_float [OF st True], of m] by simp
    next
      case False
      then have t: "t = ''NaN'' \<or> t = ''Infinity'' \<or> t = ''-Infinity''" using JFloat by simp
      then obtain m where "n = Suc m" using n by (cases n) auto
      then show ?thesis using t by (auto simp: scan_word_def)
    qed
  qed
next
  case (JInt i)
  show ?case unfolding reads_back_def
  proof (intro allI impI)
    fix n rest assume n: "length (json_dumps (JInt i)) \<le> n" and st: "json_stop rest"
    from scan_number_first [OF scan_number_int [OF json_stop_simps(1), of i]]
    obtain m where "n = Suc m" using n by (cases n) auto
    then show "scan_once n (json_dumps (JInt i) @ rest) = Some (json_norm (JInt i), rest)"
      using scan_once_number [OF scan_number_int [OF st, of i], of m] by simp
  qed
next
  case (JList vs)
  show ?case unfolding reads_back_def
  proof (intro allI impI)
    fix n rest assume n: "length (json_dumps (JList vs)) \<le> n" and st: "json_stop rest"
    from n obtain m where m: "n = Suc m" by (cases n) auto
    show "scan_once n (json_dumps (JList vs) @ rest) = Some (json_norm (JList vs), rest)"
    proof (cases vs)
      case Nil
      then show ?thesis using m by simp
    next
      case (Cons w ws)
      let ?r = "py_join '', '' (map json_dumps vs)"
      have "opener (?r @ CHR '']'' # rest)"
        using Cons JList.prems by (cases ws) (auto intro!: opener_append opener_dumps simp: append_assoc [symmetric] simp del: append_assoc)
      moreover have "scan_items m (?r @ CHR '']'' # rest) = Some (map json_norm vs, rest)"
        using JList n m Cons by (intro scan_items_dumped) auto
      ultimately show ?thesis
        using m by (simp add: opener_skip opener_def split: list.splits)
    qed
  qed
next
  case (JObj kvs)
  show ?case unfolding reads_back_def
  proof (intro allI impI)
    fix n rest assume n: "length (json_dumps (JObj kvs)) \<le> n" and st: "json_stop rest"
    from n obtain m where m: "n = Suc m" by (cases n) auto
    show "scan_once n (json_dumps (JObj kvs) @ rest) = Some (json_norm (JObj kvs), rest)"
    proof (cases kvs)
      case Nil
      then show ?thesis using m by simp
    next
      case (Cons w ws)
      let ?r = "py_join '', '' (map pair_text kvs)"
      have op: "opener (?r @ CHR ''}'' # rest)"
        using Cons by (cases ws; cases w) (auto simp: opener_def json_ws_def json_string_def)
      have rb: "\<forall>kv \<in> set kvs. reads_back (snd kv) \<and> json_ok (snd kv)"
        using JObj by (auto simp: snds.simps)
      have "scan_pairs m (?r @ CHR ''}'' # rest) = Some (map (\<lambda>(k, v). (k, json_norm v)) kvs, rest)"
        using rb n m Cons by (intro scan_pairs_dumped) auto
      moreover have "fold (\<lambda>(k, v). dict_set k v) (map (\<lambda>(k, v). (k, json_norm v)) kvs) [] = map (\<lambda>(k, v). (k, json_norm v)) kvs"
        using JObj.prems by (subst fold_dict_set_distinct) (auto simp: dict_ok_def comp_def case_prod_unfold)
      ultimately show ?thesis
        using m op by (simp add: opener_skip opener_def split: list.splits)
    qed
  qed
qed (auto simp: reads_back_def scan_word_def json_string_def scan_string_dumped dest!: Suc_le_D)

theorem json_roundtrip: "json_ok v \<Longrightarrow> json_loads (json_dumps v) = Some (json_norm v)"
  using reads_backD [OF json_reads_back, of v "Suc (length (json_dumps v))" "[]"]
  by (simp add: json_loads_def opener_skip [OF opener_dumps] skip_ws_def [of "[]"] del: scan_once.simps)

text \<open>A dumped value is one line of printable characters.\<close>

definition printable :: "char \<Rightarrow> bool" where
  "printable c = (let n = (of_char c :: nat) in 32 \<le> n \<and> n \<le> 126)"


lemma printable_digit_char: "d < 16 \<Longrightarrow> printable (digit_char d)"
  by (simp add: printable_def digit_char_def Let_def)

lemma printable_digit: "is_digit c \<Longrightarrow> printable c"
  by (simp add: is_digit_def printable_def Let_def)

lemma printable_escape: "\<forall>d \<in> set (json_escape c). printable d"
proof -
  have "\<forall>d \<in> set (hex4 n). printable d" for n
    by (simp add: hex4_def printable_digit_char)
  then show ?thesis
    by (auto simp: json_escape_def printable_def Let_def)
qed

lemma printable_string: "\<forall>d \<in> set (json_string s). printable d"
  using printable_escape by (auto simp: json_string_def) (simp_all add: printable_def)

lemma set_py_join: "c \<in> set (py_join sep xs) \<Longrightarrow> c \<in> set sep \<or> (\<exists>x \<in> set xs. c \<in> set x)"
  by (induction sep xs rule: py_join.induct) auto


lemma printable_scan_int: "scan_int s = Some (x, r) \<Longrightarrow> c \<in> set x \<Longrightarrow> printable c"
  by (auto simp: scan_int_def split: list.splits if_splits dest!: set_takeWhileD intro: printable_digit)
     (simp add: printable_def)

lemma printable_scan_frac: "scan_frac s = (x, r) \<Longrightarrow> c \<in> set x \<Longrightarrow> printable c"
proof -
  have "printable CHR ''.''" by (simp add: printable_def)
  then show "scan_frac s = (x, r) \<Longrightarrow> c \<in> set x \<Longrightarrow> printable c"
    by (auto simp: scan_frac_def split: list.splits if_splits dest!: set_takeWhileD intro: printable_digit)
qed

lemma printable_scan_exp: "scan_exp s = (x, r) \<Longrightarrow> c \<in> set x \<Longrightarrow> printable c"
proof -
  have sg: "exp_sign t = (y, z) \<Longrightarrow> c \<in> set y \<Longrightarrow> printable c" for t y z
    by (cases t) (auto simp: printable_def split: if_splits)
  have e: "printable CHR ''e''" "printable CHR ''E''" by (simp_all add: printable_def)
  show "scan_exp s = (x, r) \<Longrightarrow> c \<in> set x \<Longrightarrow> printable c"
    by (auto simp: scan_exp_def e split: list.splits if_splits prod.splits dest!: set_takeWhileD intro: printable_digit sg)
qed

lemma printable_scan_number:
  assumes "scan_number t = Some (JFloat f, r)" and "c \<in> set f"
  shows "printable c"
proof -
  obtain neg s1 where d: "(case t of c # r \<Rightarrow> if c = CHR ''-'' then (True, r) else (False, t) | [] \<Rightarrow> (False, [])) = (neg, s1)"
    by force
  from assms(1) d obtain ip s2 where i: "scan_int s1 = Some (ip, s2)"
    by (auto simp: scan_number_def split: option.splits)
  obtain fp s3 where f: "scan_frac s2 = (fp, s3)" by force
  obtain ep s4 where e: "scan_exp s3 = (ep, s4)" by force
  have "f = (if neg then ''-'' else []) @ ip @ fp @ ep"
    using assms(1) unfolding scan_number_def d using i f e by (auto split: if_splits)
  then have "c = CHR ''-'' \<or> c \<in> set ip \<or> c \<in> set fp \<or> c \<in> set ep"
    using assms(2) by (auto split: if_splits)
  then show ?thesis
    using printable_scan_int [OF i] printable_scan_frac [OF f] printable_scan_exp [OF e]
    by (auto simp: printable_def)
qed

lemma printable_int: "c \<in> set (int_str i) \<Longrightarrow> printable c"
  using nat_str_digits [of "nat i"] nat_str_digits [of "nat (- i)"]
  by (auto simp: int_str_def intro: printable_digit split: if_splits) (simp add: printable_def)

lemma printable_list: "\<forall>c \<in> set w. printable c \<Longrightarrow> c \<in> set w \<Longrightarrow> printable c"
  by blast

theorem json_dumps_printable: "json_ok v \<Longrightarrow> c \<in> set (json_dumps v) \<Longrightarrow> printable c"
proof (induction v arbitrary: c)
  case (JFloat t)
  have "\<forall>c \<in> set ''NaN''. printable c" "\<forall>c \<in> set ''-Infinity''. printable c" "\<forall>c \<in> set ''Infinity''. printable c"
    by code_simp+
  then show ?case using JFloat printable_scan_number by fastforce
next
  case (JList vs)
  have "\<forall>c \<in> set ''[, ]''. printable c" by code_simp
  with JList show ?case by (auto dest!: set_py_join)
next
  case (JObj kvs)
  have "\<forall>c \<in> set ''{, :}''. printable c" by code_simp
  with JObj printable_string show ?case by (fastforce dest!: set_py_join)
next
  case JNull
  have "\<forall>c \<in> set ''null''. printable c" by code_simp
  with JNull show ?case by auto
next
  case (JBool b)
  have "\<forall>c \<in> set ''true''. printable c" "\<forall>c \<in> set ''false''. printable c" by code_simp+
  with JBool show ?case by (auto split: if_splits)
qed (simp_all add: printable_int printable_list [OF printable_string])

lemma json_dumps_one_line: "json_ok v \<Longrightarrow> CHR 0x0A \<notin> set (json_dumps v) \<and> CHR 0x0D \<notin> set (json_dumps v)"
  using json_dumps_printable [of v "CHR 0x0A"] json_dumps_printable [of v "CHR 0x0D"]
  by (auto simp: printable_def)

section \<open>Equality\<close>

text \<open>Python's equality of JSON values; a float is its text, the text of a whole one ends in \<open>.0\<close>.\<close>

function (sequential) py_eq :: "json \<Rightarrow> json \<Rightarrow> bool" where
  "py_eq (JObj d) w = (case w of JObj d' \<Rightarrow> length d = length d' \<and>
       list_all (\<lambda>(k, v). case dict_get d' k of None \<Rightarrow> False | Some v' \<Rightarrow> py_eq v v') d | _ \<Rightarrow> False)"
| "py_eq (JList vs) w = (case w of JList ws \<Rightarrow> length vs = length ws \<and> list_all (\<lambda>(v, w). py_eq v w) (zip vs ws) | _ \<Rightarrow> False)"
| "py_eq (JBool b) w = (case w of JBool c \<Rightarrow> b = c | JInt i \<Rightarrow> i = of_bool b | JFloat f \<Rightarrow> f = int_str (of_bool b) @ ''.0'' | _ \<Rightarrow> False)"
| "py_eq (JInt i) w = (case w of JBool c \<Rightarrow> i = of_bool c | JInt j \<Rightarrow> i = j | JFloat f \<Rightarrow> f = int_str i @ ''.0'' | _ \<Rightarrow> False)"
| "py_eq (JFloat f) w = (case w of JBool c \<Rightarrow> f = int_str (of_bool c) @ ''.0'' | JInt j \<Rightarrow> f = int_str j @ ''.0'' | JFloat g \<Rightarrow> f = g | _ \<Rightarrow> False)"
| "py_eq v w = (v = w)"
  by pat_completeness auto
termination
  by (relation "measure (size o fst)")
    (auto simp: less_Suc_eq_le dest!: set_zip_leftD intro!: size_list_estimation')

end
