(* ===== verification/Sse_Broadcaster.thy ===== *)
theory Sse_Broadcaster
  imports Py_Json
begin

text \<open>
  \<open>src/src/services/sse.py\<close>: the broadcaster of one process.  A queue is a number; the store
  \<open>queues\<close> holds what each one contains.  A suspended \<open>subscribe()\<close> generator is its queue and
  its tenant.  Every critical section of the source runs without an \<open>await\<close>, so the lock is
  never found taken and each section is one step.  The keepalive interval is a Python float, given
  by the text it prints as.
\<close>

section \<open>State\<close>

datatype queue_entry = Frame string | Close_marker

datatype close_reason = Reason_client | Reason_shutdown | Reason_error

datatype notify_outcome = No_subscriber | Delivered

record broadcaster =
  connections :: "(string, nat list) pydict"
  draining :: bool
  queues :: "nat \<Rightarrow> queue_entry list"
  next_queue :: nat
  open_streams :: "nat \<Rightarrow> string option"
  connected_users :: "string \<Rightarrow> int"
  streams_closed :: "close_reason \<Rightarrow> nat"
  notifications :: "string \<Rightarrow> notify_outcome \<Rightarrow> nat"

definition new_broadcaster :: broadcaster where
  "new_broadcaster = \<lparr>connections = [], draining = False, queues = (\<lambda>_. []), next_queue = 0,
     open_streams = (\<lambda>_. None), connected_users = (\<lambda>_. 0), streams_closed = (\<lambda>_. 0),
     notifications = (\<lambda>_ _. 0)\<rparr>"

definition sse_event_names :: "string list" where
  "sse_event_names = [''connected'', ''poll-alerts'', ''incident-change'', ''incident-comment'',
     ''poll-presets'', ''topology-update'', ''ai-logs-change'', ''alert-update'']"

text \<open>What a generator hands to its response: a frame, a keepalive comment, or its end.\<close>

datatype stream_out = Sent string | Kept_alive | Finished

definition wire :: "stream_out \<Rightarrow> string" where
  "wire s = (case s of Sent f \<Rightarrow> f | Kept_alive \<Rightarrow> '': keepalive'' @ [newline, newline] | Finished \<Rightarrow> [])"

section \<open>Operations\<close>

definition format_sse :: "string \<Rightarrow> json \<Rightarrow> string" where
  "format_sse event data =
     ''event: '' @ event @ [newline] @ ''data: '' @ json_dumps data @ [newline, newline]"

definition count_closed :: "close_reason \<Rightarrow> broadcaster \<Rightarrow> broadcaster" where
  "count_closed r b = b\<lparr>streams_closed := (streams_closed b)(r := Suc (streams_closed b r))\<rparr>"

definition members :: "broadcaster \<Rightarrow> string \<Rightarrow> nat list" where
  "members b t = (case dict_get (connections b) t of None \<Rightarrow> [] | Some qs \<Rightarrow> qs)"

definition connected_frame :: "string \<Rightarrow> string" where
  "connected_frame k = format_sse ''connected''
     (JObj [(''status'', JStr ''connected''), (''keepalive_seconds'', JFloat k)])"

text \<open>\<open>subscribe()\<close> up to its first \<open>yield\<close>.\<close>

definition subscribe_start :: "string \<Rightarrow> string \<Rightarrow> broadcaster \<Rightarrow> stream_out \<times> broadcaster" where
  "subscribe_start k t b =
     (if draining b then (Finished, count_closed Reason_shutdown b)
      else let q = next_queue b in
        (Sent (connected_frame k),
         b\<lparr>connections := dict_set t (members b t @ [q]) (connections b),
           queues := (queues b)(q := []),
           next_queue := Suc q,
           open_streams := (open_streams b)(q := Some t),
           connected_users := (connected_users b)(t := connected_users b t + 1)\<rparr>))"

text \<open>The \<open>finally\<close> block: metrics, then the queue leaves the tenant's list, an empty list the dict.\<close>

definition unregister :: "string \<Rightarrow> nat \<Rightarrow> broadcaster \<Rightarrow> broadcaster" where
  "unregister t q b =
     (case dict_get (connections b) t of None \<Rightarrow> b
      | Some qs \<Rightarrow>
          if q \<in> set qs
          then (if remove1 q qs = [] then b\<lparr>connections := dict_del t (connections b)\<rparr>
                else b\<lparr>connections := dict_set t (remove1 q qs) (connections b)\<rparr>)
          else b)"

definition stream_leave :: "nat \<Rightarrow> close_reason \<Rightarrow> broadcaster \<Rightarrow> broadcaster" where
  "stream_leave q r b =
     (case open_streams b q of None \<Rightarrow> b
      | Some t \<Rightarrow>
          unregister t q (count_closed r
            (b\<lparr>connected_users := (connected_users b)(t := connected_users b t - 1),
               open_streams := (open_streams b)(q := None)\<rparr>)))"

text \<open>
  One round of the loop: \<open>queue.get()\<close> under \<open>wait_for\<close>.  A queued entry is taken at once; with
  an empty queue what ends the wait, when nothing is queued first, is the timeout.
\<close>

definition stream_next :: "nat \<Rightarrow> broadcaster \<Rightarrow> stream_out \<times> broadcaster" where
  "stream_next q b =
     (case queues b q of
        [] \<Rightarrow> (Kept_alive, b)
      | Frame f # es \<Rightarrow> (Sent f, b\<lparr>queues := (queues b)(q := es)\<rparr>)
      | Close_marker # es \<Rightarrow> (Finished, stream_leave q Reason_shutdown (b\<lparr>queues := (queues b)(q := es)\<rparr>)))"

definition put_all :: "nat list \<Rightarrow> queue_entry \<Rightarrow> broadcaster \<Rightarrow> broadcaster" where
  "put_all qs e b = b\<lparr>queues := fold (\<lambda>q s. s(q := s q @ [e])) qs (queues b)\<rparr>"

definition metric_event :: "string \<Rightarrow> string" where
  "metric_event event = (if event \<in> set sse_event_names then event else ''other'')"

definition count_notification :: "string \<Rightarrow> notify_outcome \<Rightarrow> broadcaster \<Rightarrow> broadcaster" where
  "count_notification e r b = b\<lparr>notifications := (notifications b)(e := (notifications b e)(r := Suc (notifications b e r)))\<rparr>"

definition notify :: "string \<Rightarrow> string \<Rightarrow> json \<Rightarrow> broadcaster \<Rightarrow> broadcaster" where
  "notify t event data b =
     (if members b t = [] then count_notification (metric_event event) No_subscriber b
      else put_all (members b t) (Frame (format_sse event data))
             (count_notification (metric_event event) Delivered b))"

definition close_all :: "broadcaster \<Rightarrow> broadcaster" where
  "close_all b = put_all (concat (map snd (connections b))) Close_marker (b\<lparr>draining := True\<rparr>)"

definition reopen :: "broadcaster \<Rightarrow> broadcaster" where
  "reopen b = b\<lparr>draining := False\<rparr>"

section \<open>Runs\<close>

text \<open>
  What happens to a broadcaster: requests subscribe, generators resume, clients disconnect or a
  generator fails, notifications arrive, the process is told to stop or starts again.
\<close>

datatype sse_op = Subscribe string | Resume nat | Disconnect nat | Fail nat
  | Notify string string json | Close_all | Reopen

fun sse_step :: "string \<Rightarrow> sse_op \<Rightarrow> broadcaster \<Rightarrow> stream_out option \<times> broadcaster" where
  "sse_step k (Subscribe t) b = apfst Some (subscribe_start k t b)"
| "sse_step k (Resume q) b =
     (if open_streams b q = None then (None, b) else apfst Some (stream_next q b))"
| "sse_step k (Disconnect q) b = (None, stream_leave q Reason_client b)"
| "sse_step k (Fail q) b = (None, stream_leave q Reason_error b)"
| "sse_step k (Notify t e d) b = (None, notify t e d b)"
| "sse_step k Close_all b = (None, close_all b)"
| "sse_step k Reopen b = (None, reopen b)"

fun sse_run :: "string \<Rightarrow> sse_op list \<Rightarrow> broadcaster \<Rightarrow> broadcaster" where
  "sse_run k [] b = b"
| "sse_run k (x # xs) b = sse_run k xs (snd (sse_step k x b))"

text \<open>What the response of stream \<open>q\<close> receives during a run.\<close>

fun stream_outs :: "string \<Rightarrow> nat \<Rightarrow> sse_op list \<Rightarrow> broadcaster \<Rightarrow> stream_out list" where
  "stream_outs k q [] b = []"
| "stream_outs k q (x # xs) b =
     (if x = Resume q then (case fst (sse_step k x b) of None \<Rightarrow> [] | Some s \<Rightarrow> [s]) else [])
     @ stream_outs k q xs (snd (sse_step k x b))"

inductive sse_reachable :: "string \<Rightarrow> broadcaster \<Rightarrow> bool" for k where
  start: "sse_reachable k new_broadcaster"
| step: "sse_reachable k b \<Longrightarrow> sse_reachable k (snd (sse_step k x b))"

inductive_cases sse_reachable_cases: "sse_reachable k b"

lemma run_reachable: "sse_reachable k b \<Longrightarrow> sse_reachable k (sse_run k xs b)"
  by (induction xs arbitrary: b) (auto intro: sse_reachable.step)

section \<open>What each operation does to a queue\<close>

lemma put_all_queue:
  "distinct qs \<Longrightarrow> queues (put_all qs e b) q = (if q \<in> set qs then queues b q @ [e] else queues b q)"
proof -
  have "distinct qs \<Longrightarrow> fold (\<lambda>q s. s(q := s q @ [e])) qs f q = (if q \<in> set qs then f q @ [e] else f q)" for f
    by (induction qs arbitrary: f) auto
  then show "distinct qs \<Longrightarrow> ?thesis" by (simp add: put_all_def)
qed

lemma put_all_fields [simp]:
  "connections (put_all qs e b) = connections b" "draining (put_all qs e b) = draining b"
  "next_queue (put_all qs e b) = next_queue b" "open_streams (put_all qs e b) = open_streams b"
  "connected_users (put_all qs e b) = connected_users b" "streams_closed (put_all qs e b) = streams_closed b"
  "notifications (put_all qs e b) = notifications b"
  by (simp_all add: put_all_def)

lemma count_notification_fields [simp]:
  "connections (count_notification e r b) = connections b" "draining (count_notification e r b) = draining b"
  "next_queue (count_notification e r b) = next_queue b" "open_streams (count_notification e r b) = open_streams b"
  "connected_users (count_notification e r b) = connected_users b" "queues (count_notification e r b) = queues b"
  by (simp_all add: count_notification_def)

lemma count_closed_fields [simp]:
  "connections (count_closed r b) = connections b" "draining (count_closed r b) = draining b"
  "next_queue (count_closed r b) = next_queue b" "open_streams (count_closed r b) = open_streams b"
  "connected_users (count_closed r b) = connected_users b" "queues (count_closed r b) = queues b"
  "notifications (count_closed r b) = notifications b"
  by (simp_all add: count_closed_def)

lemma unregister_fields [simp]:
  "draining (unregister t q b) = draining b" "queues (unregister t q b) = queues b"
  "next_queue (unregister t q b) = next_queue b" "open_streams (unregister t q b) = open_streams b"
  "connected_users (unregister t q b) = connected_users b" "streams_closed (unregister t q b) = streams_closed b"
  "notifications (unregister t q b) = notifications b"
  by (simp_all add: unregister_def split: option.splits)

lemma stream_leave_fields [simp]:
  "draining (stream_leave q r b) = draining b" "queues (stream_leave q r b) = queues b"
  "next_queue (stream_leave q r b) = next_queue b" "open_streams (stream_leave q r b) = (open_streams b)(q := None)"
  "notifications (stream_leave q r b) = notifications b"
  by (auto simp: stream_leave_def split: option.splits)

section \<open>The invariant\<close>

definition sse_inv :: "broadcaster \<Rightarrow> bool" where
  "sse_inv b \<longleftrightarrow> dict_ok (connections b)
     \<and> (\<forall>t. dict_get (connections b) t \<noteq> Some [])
     \<and> (\<forall>t. distinct (members b t))
     \<and> (\<forall>t q. q \<in> set (members b t) \<longleftrightarrow> open_streams b q = Some t)
     \<and> (\<forall>q. open_streams b q \<noteq> None \<longrightarrow> q < next_queue b)
     \<and> (\<forall>t. connected_users b t = int (length (members b t)))
     \<and> (draining b \<longrightarrow> (\<forall>q. open_streams b q \<noteq> None \<longrightarrow> Close_marker \<in> set (queues b q)))
     \<and> (\<forall>e. e \<notin> set (''other'' # sse_event_names) \<longrightarrow> notifications b e = (\<lambda>_. 0))"

lemma sse_invD:
  assumes "sse_inv b"
  shows "dict_ok (connections b)" and "dict_get (connections b) t \<noteq> Some []"
    and "distinct (members b t)" and "q \<in> set (members b t) \<longleftrightarrow> open_streams b q = Some t"
    and "open_streams b q = Some t \<Longrightarrow> q < next_queue b"
    and "connected_users b t = int (length (members b t))"
    and "draining b \<Longrightarrow> open_streams b q = Some t \<Longrightarrow> Close_marker \<in> set (queues b q)"
  using assms unfolding sse_inv_def by blast+

lemma members_cong: "connections b = connections b' \<Longrightarrow> members b = members b'"
  by (simp add: members_def fun_eq_iff)

lemma members_simps [simp]:
  "members (put_all qs e b) = members b" "members (count_notification c r b) = members b"
  "members (count_closed cr b) = members b" "members (b\<lparr>draining := x\<rparr>) = members b"
  "members (b\<lparr>queues := f\<rparr>) = members b"
  "members (b\<lparr>connected_users := g, open_streams := h\<rparr>) = members b"
  by (rule members_cong; simp)+

lemma members_empty: "sse_inv b \<Longrightarrow> members b t = [] \<longleftrightarrow> dict_get (connections b) t = None"
  using sse_invD(2) [of b t] by (auto simp: members_def split: option.splits)

lemma unregister_members:
  assumes "dict_ok (connections b)"
  shows "members (unregister t q b) t' = (if t' = t then remove1 q (members b t) else members b t')"
  by (auto simp: unregister_def members_def remove1_idem pd.get_set pd.get_del [OF assms] split: option.splits)

lemma unregister_no_empty:
  assumes "dict_ok (connections b)" and "\<forall>t. dict_get (connections b) t \<noteq> Some []"
  shows "dict_get (connections (unregister t q b)) t' \<noteq> Some []"
  using assms by (auto simp: unregister_def pd.get_set pd.get_del split: option.splits)

lemma unregister_ok: "dict_ok (connections b) \<Longrightarrow> dict_ok (connections (unregister t q b))"
  by (auto simp: unregister_def pd.ok_set pd.ok_del split: option.splits)

lemma registered_distinct:
  assumes "dict_ok d" and "\<forall>(t, qs) \<in> set d. distinct qs \<and> (\<forall>q \<in> set qs. owner q = Some t)"
  shows "distinct (concat (map snd d))"
  using assms
proof (induction d)
  case (Cons p d)
  obtain t qs where p: "p = (t, qs)" by force
  have "set qs \<inter> set (concat (map snd d)) = {}"
  proof (rule ccontr)
    assume "set qs \<inter> set (concat (map snd d)) \<noteq> {}"
    then obtain q t' qs' where "q \<in> set qs" "(t', qs') \<in> set d" "q \<in> set qs'" by auto
    moreover from this have "t' \<noteq> t" using Cons.prems(1) p by (force simp: dict_ok_def)
    ultimately show False using Cons.prems(2) p by fastforce
  qed
  then show ?case using Cons p by (simp add: dict_ok_def)
qed simp

lemma connections_members: "dict_ok (connections b) \<Longrightarrow> (t, qs) \<in> set (connections b) \<Longrightarrow> members b t = qs"
  by (simp add: members_def dict_get_def dict_ok_def)

lemma all_queues:
  assumes "sse_inv b"
  shows "distinct (concat (map snd (connections b)))"
    and "q \<in> set (concat (map snd (connections b))) \<longleftrightarrow> open_streams b q \<noteq> None"
proof -
  note ok = sse_invD(1) [OF assms]
  have own: "\<forall>(t, qs) \<in> set (connections b). distinct qs \<and> (\<forall>q \<in> set qs. open_streams b q = Some t)"
    using connections_members [OF ok] sse_invD(3,4) [OF assms] by fastforce
  from ok own show "distinct (concat (map snd (connections b)))" by (rule registered_distinct)
  show "q \<in> set (concat (map snd (connections b))) \<longleftrightarrow> open_streams b q \<noteq> None"
  proof
    assume "q \<in> set (concat (map snd (connections b)))"
    then show "open_streams b q \<noteq> None" using own by fastforce
  next
    assume "open_streams b q \<noteq> None"
    then obtain t where "q \<in> set (members b t)" using sse_invD(4) [OF assms] by auto
    then obtain qs where "dict_get (connections b) t = Some qs" "q \<in> set qs"
      by (cases "dict_get (connections b) t") (auto simp: members_def)
    then have "(t, qs) \<in> set (connections b)" by (simp add: dict_get_def map_of_SomeD)
    with \<open>q \<in> set qs\<close> show "q \<in> set (concat (map snd (connections b)))" by force
  qed
qed

lemma close_all_queue:
  "sse_inv b \<Longrightarrow> queues (close_all b) q = (if open_streams b q \<noteq> None then queues b q @ [Close_marker] else queues b q)"
  using all_queues [of b] by (simp add: close_all_def put_all_queue del: set_concat set_map)

lemma notify_queue:
  "sse_inv b \<Longrightarrow> queues (notify t e d b) q
     = (if open_streams b q = Some t then queues b q @ [Frame (format_sse e d)] else queues b q)"
  using sse_invD(4) [of b q t] by (auto simp: notify_def put_all_queue sse_invD(3))

lemma notify_fields [simp]:
  "connections (notify t e d b) = connections b" "draining (notify t e d b) = draining b"
  "next_queue (notify t e d b) = next_queue b" "open_streams (notify t e d b) = open_streams b"
  "connected_users (notify t e d b) = connected_users b"
  by (simp_all add: notify_def)

lemma notify_members [simp]: "members (notify t e d b) = members b"
  by (rule members_cong) simp

lemma close_all_fields [simp]:
  "connections (close_all b) = connections b" "draining (close_all b) = True"
  "next_queue (close_all b) = next_queue b" "open_streams (close_all b) = open_streams b"
  "connected_users (close_all b) = connected_users b" "notifications (close_all b) = notifications b"
  by (simp_all add: close_all_def)

lemma close_all_members [simp]: "members (close_all b) = members b"
  by (rule members_cong) simp

lemma metric_event_bounded: "metric_event e \<in> set (''other'' # sse_event_names)"
  by (simp add: metric_event_def)

lemma inv_notify: "sse_inv b \<Longrightarrow> sse_inv (notify t e d b)"
proof -
  assume i: "sse_inv b"
  have n: "notifications (notify t e d b) x = (\<lambda>_. 0)" if "x \<notin> set (''other'' # sse_event_names)" for x
    using i that metric_event_bounded [of e]
    by (auto simp: sse_inv_def notify_def count_notification_def simp del: list.set)
  have c: "Close_marker \<in> set (queues (notify t e d b) q)" if "draining b" "open_streams b q \<noteq> None" for q
    using i that by (auto simp: notify_queue dest: sse_invD(7))
  show ?thesis using i n c unfolding sse_inv_def by simp
qed

lemma inv_close_all: "sse_inv b \<Longrightarrow> sse_inv (close_all b)"
proof -
  assume i: "sse_inv b"
  have c: "Close_marker \<in> set (queues (close_all b) q)" if "open_streams b q \<noteq> None" for q
    using i that by (simp add: close_all_queue)
  show ?thesis using i c unfolding sse_inv_def by simp
qed

lemma inv_subscribe: "sse_inv b \<Longrightarrow> sse_inv (snd (subscribe_start k t b))"
proof (cases "draining b")
  case True
  assume "sse_inv b"
  then show ?thesis using True by (simp add: subscribe_start_def sse_inv_def)
next
  case False
  assume i: "sse_inv b"
  let ?b = "snd (subscribe_start k t b)" and ?q = "next_queue b"
  have m: "members ?b t' = (if t' = t then members b t @ [?q] else members b t')" for t'
    using False by (simp add: subscribe_start_def Let_def members_def pd.get_set)
  have fresh: "?q \<notin> set (members b t')" for t'
    using sse_invD(4,5) [OF i, of ?q t'] by auto
  have o: "open_streams ?b = (open_streams b)(?q := Some t)"
    using False by (simp add: subscribe_start_def Let_def)
  have "dict_ok (connections ?b)" "\<forall>t'. dict_get (connections ?b) t' \<noteq> Some []"
    using False sse_invD(1,2) [OF i] by (simp_all add: subscribe_start_def Let_def pd.get_set pd.ok_set)
  moreover have "\<forall>t'. distinct (members ?b t')"
    using sse_invD(3) [OF i] fresh by (simp add: m)
  moreover have "\<forall>t' q. q \<in> set (members ?b t') \<longleftrightarrow> open_streams ?b q = Some t'"
    using sse_invD(4) [OF i] fresh by (auto simp: m o)
  moreover have "\<forall>q. open_streams ?b q \<noteq> None \<longrightarrow> q < next_queue ?b"
    using False sse_invD(5) [OF i] by (auto simp: subscribe_start_def Let_def intro: less_SucI)
  moreover have "\<forall>t'. connected_users ?b t' = int (length (members ?b t'))"
    unfolding m using False sse_invD(6) [OF i] by (simp add: subscribe_start_def Let_def)
  moreover have "\<not> draining ?b" and "notifications ?b = notifications b"
    using False by (simp_all add: subscribe_start_def Let_def)
  ultimately show ?thesis using i unfolding sse_inv_def by simp
qed

lemma inv_leave: "sse_inv b \<Longrightarrow> sse_inv (stream_leave q r b)"
proof (cases "open_streams b q")
  case None
  assume "sse_inv b"
  then show ?thesis using None by (simp add: stream_leave_def)
next
  case (Some t)
  assume i: "sse_inv b"
  let ?b = "stream_leave q r b"
  note ok = sse_invD(1) [OF i]
  have m: "members ?b t' = (if t' = t then remove1 q (members b t) else members b t')" for t'
    using Some ok by (simp add: stream_leave_def unregister_members)
  have mem: "q \<in> set (members b t)" using sse_invD(4) [OF i] Some by simp
  have "dict_ok (connections ?b)" "\<forall>t'. dict_get (connections ?b) t' \<noteq> Some []"
    using Some ok sse_invD(2) [OF i] by (simp_all add: stream_leave_def unregister_ok unregister_no_empty)
  moreover have "\<forall>t'. distinct (members ?b t')"
    using sse_invD(3) [OF i] by (simp add: m)
  moreover have "\<forall>t' x. x \<in> set (members ?b t') \<longleftrightarrow> open_streams ?b x = Some t'"
    using sse_invD(3,4) [OF i] Some by (auto simp: m)
  moreover have "connected_users ?b = (connected_users b)(t := connected_users b t - 1)"
    using Some by (simp add: stream_leave_def)
  then have "\<forall>t'. connected_users ?b t' = int (length (members ?b t'))"
    unfolding m using sse_invD(6) [OF i] mem length_pos_if_in_set [OF mem]
    by (simp add: length_remove1 of_nat_diff [OF Suc_leI])
  ultimately show ?thesis using i unfolding sse_inv_def by simp
qed

lemma inv_pop_frame: "sse_inv b \<Longrightarrow> queues b q = Frame f # es \<Longrightarrow> sse_inv (b\<lparr>queues := (queues b)(q := es)\<rparr>)"
  unfolding sse_inv_def by fastforce

lemma leave_queues_irrelevant:
  "stream_leave q r (b\<lparr>queues := f\<rparr>) = (stream_leave q r b)\<lparr>queues := f\<rparr>"
  by (simp add: stream_leave_def unregister_def count_closed_def split: option.splits)

lemma inv_next: "sse_inv b \<Longrightarrow> open_streams b q \<noteq> None \<Longrightarrow> sse_inv (snd (stream_next q b))"
proof -
  assume i: "sse_inv b" and o: "open_streams b q \<noteq> None"
  have "sse_inv ((stream_leave q r b)\<lparr>queues := (queues b)(q := es)\<rparr>)" for r es
    using inv_leave [OF i, of q r] unfolding sse_inv_def by simp
  then show ?thesis using i
    by (auto simp: stream_next_def leave_queues_irrelevant inv_pop_frame split: list.splits queue_entry.splits)
qed

lemma inv_step: "sse_inv b \<Longrightarrow> sse_inv (snd (sse_step k x b))"
proof (cases x)
  case Reopen
  assume "sse_inv b"
  then show ?thesis using Reopen by (simp add: sse_inv_def reopen_def)
qed (simp_all add: inv_notify inv_close_all inv_subscribe inv_leave inv_next)

lemma reachable_inv: "sse_reachable k b \<Longrightarrow> sse_inv b"
proof (induction rule: sse_reachable.induct)
  case start
  then show ?case
    by (simp add: sse_inv_def new_broadcaster_def members_def dict_get_def dict_ok_def)
next
  case (step b x)
  then show ?case by (simp add: inv_step)
qed

lemma inv_run: "sse_inv b \<Longrightarrow> sse_inv (sse_run k xs b)"
  by (induction xs arbitrary: b) (simp_all add: inv_step)

section \<open>What a stream receives\<close>

fun owed :: "string \<Rightarrow> sse_op list \<Rightarrow> queue_entry list" where
  "owed t [] = []"
| "owed t (x # xs) =
     (case x of Notify t' e d \<Rightarrow> if t' = t then [Frame (format_sse e d)] else []
              | Close_all \<Rightarrow> [Close_marker] | _ \<Rightarrow> []) @ owed t xs"

definition entry_out :: "queue_entry \<Rightarrow> stream_out" where
  "entry_out e = (case e of Frame f \<Rightarrow> Sent f | Close_marker \<Rightarrow> Finished)"

abbreviation news :: "stream_out list \<Rightarrow> stream_out list" where
  "news \<equiv> filter (\<lambda>s. s \<noteq> Kept_alive)"

lemma step_next_queue: "next_queue b \<le> next_queue (snd (sse_step k x b))"
  by (cases x) (auto simp: subscribe_start_def stream_next_def reopen_def Let_def split: list.splits queue_entry.splits)

lemma closed_stays:
  assumes "open_streams b q = None" and "q < next_queue b"
  shows "open_streams (snd (sse_step k x b)) q = None"
  using assms
  by (cases x) (auto simp: subscribe_start_def stream_next_def reopen_def Let_def split: list.splits queue_entry.splits)

lemma closed_silent:
  assumes "open_streams b q = None" and "q < next_queue b"
  shows "stream_outs k q xs b = [] \<and> open_streams (sse_run k xs b) q = None"
  using assms
proof (induction xs arbitrary: b)
  case (Cons x xs)
  have "open_streams (snd (sse_step k x b)) q = None" "q < next_queue (snd (sse_step k x b))"
    using closed_stays [OF Cons.prems] step_next_queue [of b k x] Cons.prems(2) by auto
  then show ?case using Cons.IH Cons.prems by simp
qed simp

lemma open_tenant_stays:
  assumes "sse_inv b" and "open_streams b q = Some t"
  shows "open_streams (snd (sse_step k x b)) q = Some t \<or> open_streams (snd (sse_step k x b)) q = None"
  using assms sse_invD(5) [OF assms]
  by (cases x) (auto simp: subscribe_start_def stream_next_def reopen_def Let_def split: list.splits queue_entry.splits)

abbreviation outs_of :: "string \<Rightarrow> nat \<Rightarrow> sse_op \<Rightarrow> broadcaster \<Rightarrow> stream_out list" where
  "outs_of k q x b \<equiv> (if x = Resume q then (case fst (sse_step k x b) of None \<Rightarrow> [] | Some s \<Rightarrow> [s]) else [])"

lemma subscribe_queue: "q < next_queue b \<Longrightarrow> queues (snd (subscribe_start k t b)) q = queues b q"
  by (simp add: subscribe_start_def Let_def)

lemma next_other_queue: "q' \<noteq> q \<Longrightarrow> queues (snd (stream_next q' b)) q = queues b q"
  by (simp add: stream_next_def split: list.splits queue_entry.splits)

lemma step_in_order:
  assumes i: "sse_inv b" and o: "open_streams b q = Some t"
  shows "\<exists>rest. map entry_out (queues b q @ owed t [x]) = news (outs_of k q x b) @ rest
     \<and> (open_streams (snd (sse_step k x b)) q \<noteq> None \<longrightarrow> rest = map entry_out (queues (snd (sse_step k x b)) q))"
proof (cases x)
  case (Subscribe t')
  then show ?thesis using subscribe_queue [OF sse_invD(5) [OF i o]] by simp
next
  case (Resume q')
  show ?thesis
  proof (cases "q' = q")
    case True
    then show ?thesis using Resume o
      by (auto simp: stream_next_def entry_out_def split: list.splits queue_entry.splits)
  next
    case False
    then show ?thesis using Resume next_other_queue [OF False] by simp
  qed
next
  case (Disconnect q')
  then show ?thesis by simp
next
  case (Fail q')
  then show ?thesis by simp
next
  case (Notify t' e d)
  then show ?thesis using i o by (simp add: notify_queue entry_out_def)
next
  case Close_all
  then show ?thesis using i o by (simp add: close_all_queue entry_out_def)
next
  case Reopen
  then show ?thesis by (simp add: reopen_def)
qed

lemma run_in_order:
  assumes "sse_inv b" and "open_streams b q = Some t"
  shows "\<exists>rest. map entry_out (queues b q @ owed t xs) = news (stream_outs k q xs b) @ rest
     \<and> (open_streams (sse_run k xs b) q \<noteq> None \<longrightarrow> rest = map entry_out (queues (sse_run k xs b) q))"
  using assms
proof (induction xs arbitrary: b)
  case Nil
  then show ?case by simp
next
  case (Cons x xs)
  let ?b = "snd (sse_step k x b)"
  obtain r where r: "map entry_out (queues b q @ owed t [x]) = news (outs_of k q x b) @ r"
    "open_streams ?b q \<noteq> None \<longrightarrow> r = map entry_out (queues ?b q)"
    using step_in_order [OF Cons.prems] by blast
  have i: "sse_inv ?b" using Cons.prems(1) by (rule inv_step)
  have split: "map entry_out (queues b q @ owed t (x # xs)) = news (outs_of k q x b) @ r @ map entry_out (owed t xs)"
  proof -
    have "owed t (x # xs) = owed t [x] @ owed t xs" by simp
    then show ?thesis using r(1) by (metis append.assoc map_append)
  qed
  show ?case
  proof (cases "open_streams ?b q")
    case None
    have "q < next_queue ?b" using sse_invD(5) [OF Cons.prems] step_next_queue [of b k x] by simp
    then have "stream_outs k q xs ?b = []" "open_streams (sse_run k xs ?b) q = None"
      using closed_silent [OF None] by auto
    then have e: "stream_outs k q (x # xs) b = outs_of k q x b" and o: "open_streams (sse_run k (x # xs) b) q = None"
      by simp_all
    show ?thesis unfolding split e using o by blast
  next
    case (Some t')
    then have "open_streams ?b q = Some t" using open_tenant_stays [OF Cons.prems, of k x] by auto
    then obtain rest where "map entry_out (queues ?b q @ owed t xs) = news (stream_outs k q xs ?b) @ rest"
      and rest: "open_streams (sse_run k xs ?b) q \<noteq> None \<longrightarrow> rest = map entry_out (queues (sse_run k xs ?b) q)"
      using Cons.IH [OF i] by blast
    moreover have "r @ map entry_out (owed t xs) = map entry_out (queues ?b q @ owed t xs)"
      using r(2) Some by (simp only: map_append) simp
    ultimately have m: "map entry_out (queues b q @ owed t (x # xs)) = news (stream_outs k q (x # xs) b) @ rest"
      unfolding split by (simp only: stream_outs.simps filter_append append_assoc)
    show ?thesis
      by (intro exI [of _ rest] conjI m) (use rest in simp)
  qed
qed

section \<open>Shutdown\<close>

definition frames_ahead :: "broadcaster \<Rightarrow> nat \<Rightarrow> nat" where
  "frames_ahead b q = length (takeWhile (\<lambda>e. e \<noteq> Close_marker) (queues b q))"

lemma frames_ahead_less: "Close_marker \<in> set (queues b q) \<Longrightarrow> frames_ahead b q < length (queues b q)"
proof -
  assume "Close_marker \<in> set (queues b q)"
  moreover have "e \<in> set es \<Longrightarrow> length (takeWhile (\<lambda>x. x \<noteq> e) es) < length es" for e :: queue_entry and es
    by (induction es) auto
  ultimately show ?thesis by (simp add: frames_ahead_def)
qed

lemma frames_ahead_append: "Close_marker \<in> set es \<Longrightarrow>
    takeWhile (\<lambda>e. e \<noteq> Close_marker) (es @ r) = takeWhile (\<lambda>e. e \<noteq> Close_marker) es"
  by (induction es) auto

lemma draining_step:
  assumes i: "sse_inv b" and d: "draining b" and o: "open_streams b q = Some t" and x: "x \<noteq> Reopen"
    and still: "open_streams (snd (sse_step k x b)) q \<noteq> None"
  shows "frames_ahead (snd (sse_step k x b)) q + (if x = Resume q then 1 else 0) = frames_ahead b q"
proof -
  note cm = sse_invD(7) [OF i d o]
  show ?thesis
  proof (cases x)
    case (Subscribe t')
    then show ?thesis using subscribe_queue [OF sse_invD(5) [OF i o]] by (simp add: frames_ahead_def)
  next
    case (Resume q')
    show ?thesis
    proof (cases "q' = q")
      case True
      then show ?thesis using Resume o cm still
        by (auto simp: stream_next_def frames_ahead_def split: list.splits queue_entry.splits)
    next
      case False
      then show ?thesis using Resume next_other_queue [OF False] by (simp add: frames_ahead_def)
    qed
  qed (use i o x cm in \<open>simp_all add: frames_ahead_def notify_queue close_all_queue frames_ahead_append\<close>)
qed

lemma draining_stays: "draining b \<Longrightarrow> x \<noteq> Reopen \<Longrightarrow> draining (snd (sse_step k x b))"
  by (cases x) (auto simp: subscribe_start_def stream_next_def split: list.splits queue_entry.splits)

lemma draining_ends:
  assumes "sse_inv b" and "draining b" and "Reopen \<notin> set xs"
    and "open_streams b q = Some t" and "frames_ahead b q < count_list xs (Resume q)"
  shows "open_streams (sse_run k xs b) q = None"
  using assms
proof (induction xs arbitrary: b)
  case (Cons x xs)
  let ?b = "snd (sse_step k x b)"
  have x: "x \<noteq> Reopen" using Cons.prems(3) by auto
  show ?case
  proof (cases "open_streams ?b q")
    case None
    have "q < next_queue ?b" using sse_invD(5) [OF Cons.prems(1,4)] step_next_queue [of b k x] by simp
    then show ?thesis using closed_silent [OF None] by simp
  next
    case (Some t')
    then have "open_streams ?b q = Some t" using open_tenant_stays [OF Cons.prems(1,4), of k x] by auto
    moreover have "frames_ahead ?b q < count_list xs (Resume q)"
      using draining_step [OF Cons.prems(1,2,4) x, of k] Some Cons.prems(5) by (auto split: if_splits)
    ultimately show ?thesis
      using Cons.IH [OF inv_step [OF Cons.prems(1)] draining_stays [OF Cons.prems(2) x]] Cons.prems(3) by simp
  qed
qed simp

lemma draining_admits_none:
  assumes "draining b" and "Reopen \<notin> set xs" and "open_streams b q = None"
  shows "open_streams (sse_run k xs b) q = None \<and> draining (sse_run k xs b)"
  using assms
proof (induction xs arbitrary: b)
  case (Cons x xs)
  have x: "x \<noteq> Reopen" using Cons.prems(2) by auto
  have "open_streams (snd (sse_step k x b)) q = None"
    using Cons.prems x
    by (cases x) (auto simp: subscribe_start_def stream_next_def split: list.splits queue_entry.splits)
  then show ?case using Cons.IH [OF draining_stays [OF Cons.prems(1) x]] Cons.prems by simp
qed simp

lemma no_streams_no_connections:
  assumes "sse_inv b" and "\<forall>q. open_streams b q = None"
  shows "connections b = []"
proof (cases "connections b")
  case (Cons p d)
  obtain t qs where p: "p = (t, qs)" by force
  then have "dict_get (connections b) t = Some qs" using Cons by (simp add: dict_get_def)
  then have "qs \<noteq> []" "members b t = qs" using sse_invD(2) [OF assms(1)] by (auto simp: members_def)
  then show ?thesis using sse_invD(4) [OF assms(1), of "hd qs" t] assms(2) by auto
qed simp

section \<open>What the browser reads\<close>

text \<open>
  The specification side: how an EventSource interprets the bytes of a stream.  Lines end at a
  line feed, a carriage return or both; a line that starts with a colon is a comment; an empty
  line dispatches the event, unless no data line came.
\<close>

fun es_newlines :: "string \<Rightarrow> string" where
  "es_newlines [] = []"
| "es_newlines (c # s) =
     (if c = CHR 0x0D then newline # (case s of d # s' \<Rightarrow> if d = CHR 0x0A then es_newlines s' else es_newlines s | [] \<Rightarrow> [])
      else c # es_newlines s)"

definition es_field :: "string \<Rightarrow> string \<times> string" where
  "es_field l = (takeWhile (\<lambda>c. c \<noteq> CHR '':'') l,
     (case dropWhile (\<lambda>c. c \<noteq> CHR '':'') l of
        _ # d # v \<Rightarrow> if d = CHR '' '' then v else d # v
      | _ \<Rightarrow> []))"

fun es_go :: "string \<Rightarrow> string option \<Rightarrow> string list \<Rightarrow> (string \<times> string) list" where
  "es_go ev da [] = []"
| "es_go ev da (l # ls) =
     (if l = [] then
        (case da of None \<Rightarrow> es_go [] None ls
         | Some d \<Rightarrow> (if ev = [] then ''message'' else ev, d) # es_go [] None ls)
      else if hd l = CHR '':'' then es_go ev da ls
      else (case es_field l of (f, v) \<Rightarrow>
        if f = ''event'' then es_go v da ls
        else if f = ''data'' then es_go ev (Some (case da of None \<Rightarrow> v | Some d \<Rightarrow> d @ newline # v)) ls
        else es_go ev da ls))"

definition es_events :: "string \<Rightarrow> (string \<times> string) list" where
  "es_events s = es_go [] None (butlast (py_split newline (es_newlines s)))"

text \<open>The client hands the data of each event to \<open>JSON.parse\<close>.\<close>

definition es_messages :: "string \<Rightarrow> (string \<times> json option) list" where
  "es_messages s = map (\<lambda>(e, d). (e, json_loads d)) (es_events s)"

definition event_name :: "string \<Rightarrow> bool" where
  "event_name e \<longleftrightarrow> e \<noteq> [] \<and> CHR 0x0A \<notin> set e \<and> CHR 0x0D \<notin> set e"

lemma es_newlines_id: "CHR 0x0D \<notin> set s \<Longrightarrow> es_newlines s = s"
  by (induction s) auto

lemma es_newlines_append: "CHR 0x0D \<notin> set s \<Longrightarrow> es_newlines (s @ r) = s @ es_newlines r"
  by (induction s) auto

lemma py_split_line: "newline \<notin> set l \<Longrightarrow> py_split newline (l @ newline # r) = l # py_split newline r"
  by (rule py_split_append)

lemma es_lines_cons:
  assumes "newline \<notin> set l" and "CHR 0x0D \<notin> set l"
  shows "butlast (py_split newline (es_newlines (l @ newline # r))) = l # butlast (py_split newline (es_newlines r))"
proof -
  have "es_newlines (l @ newline # r) = l @ newline # es_newlines r"
    using assms(2) by (simp add: es_newlines_append newline_def)
  then show ?thesis by (simp add: py_split_line [OF assms(1)])
qed

lemma es_empty_line: "butlast (py_split newline (es_newlines (newline # r))) = [] # butlast (py_split newline (es_newlines r))"
  using es_lines_cons [of "[]" r] by simp

lemma es_keepalive: "es_events (wire Kept_alive @ r) = es_events r"
proof -
  have "newline \<notin> set '': keepalive''" "CHR 0x0D \<notin> set '': keepalive''" by code_simp+
  from es_lines_cons [OF this, of "newline # r"]
  have "butlast (py_split newline (es_newlines (wire Kept_alive @ r)))
     = '': keepalive'' # [] # butlast (py_split newline (es_newlines r))"
    unfolding es_empty_line by (simp add: wire_def)
  then show ?thesis by (simp add: es_events_def)
qed

lemma es_frame:
  assumes "event_name e" and "json_ok d"
  shows "es_events (format_sse e d @ r) = (e, json_dumps d) # es_events r"
proof -
  have c: "newline \<notin> set ''event: ''" "CHR 0x0D \<notin> set ''event: ''" "newline \<notin> set ''data: ''" "CHR 0x0D \<notin> set ''data: ''"
    by code_simp+
  then have l: "newline \<notin> set (''event: '' @ e)" "CHR 0x0D \<notin> set (''event: '' @ e)"
    "newline \<notin> set (''data: '' @ json_dumps d)" "CHR 0x0D \<notin> set (''data: '' @ json_dumps d)"
    using assms(1) json_dumps_one_line [OF assms(2)] by (auto simp: event_name_def newline_def)
  have "format_sse e d @ r = (''event: '' @ e) @ newline # (''data: '' @ json_dumps d) @ newline # [] @ newline # r"
    by (simp add: format_sse_def)
  then have "butlast (py_split newline (es_newlines (format_sse e d @ r)))
     = (''event: '' @ e) # (''data: '' @ json_dumps d) # [] # butlast (py_split newline (es_newlines r))"
    using es_lines_cons [OF l(1,2)] es_lines_cons [OF l(3,4)] es_empty_line by simp
  then show ?thesis
    using assms(1) by (simp add: es_events_def es_field_def event_name_def)
qed

definition shows_frame :: "stream_out \<Rightarrow> string \<times> json \<Rightarrow> bool" where
  "shows_frame s m \<longleftrightarrow> s = Sent (format_sse (fst m) (snd m)) \<and> event_name (fst m) \<and> json_ok (snd m)"

lemma es_stream:
  assumes "list_all2 shows_frame (filter (\<lambda>s. s \<noteq> Kept_alive \<and> s \<noteq> Finished) ss) ms"
  shows "es_messages (concat (map wire ss)) = map (\<lambda>(e, d). (e, Some (json_norm d))) ms"
  using assms
proof (induction ss arbitrary: ms)
  case Nil
  then show ?case by (simp add: es_messages_def es_events_def)
next
  case (Cons s ss)
  show ?case
  proof (cases s)
    case (Sent f)
    then obtain m ms' where m: "ms = m # ms'" "shows_frame (Sent f) m"
      "list_all2 shows_frame (filter (\<lambda>s. s \<noteq> Kept_alive \<and> s \<noteq> Finished) ss) ms'"
      using Cons.prems by (auto simp: list_all2_Cons1)
    then show ?thesis
      using Cons.IH [OF m(3)] Sent
      by (auto simp: es_messages_def shows_frame_def wire_def es_frame json_roundtrip split: prod.splits)
  next
    case Kept_alive
    then show ?thesis using Cons by (simp add: es_messages_def es_keepalive)
  next
    case Finished
    then show ?thesis using Cons by (simp add: wire_def)
  qed
qed

fun sent_to :: "string \<Rightarrow> sse_op list \<Rightarrow> (string \<times> json) list" where
  "sent_to t [] = []"
| "sent_to t (x # xs) = (case x of Notify t' e d \<Rightarrow> if t' = t then [(e, d)] else [] | _ \<Rightarrow> []) @ sent_to t xs"

lemma owed_sent:
  "filter (\<lambda>s. s \<noteq> Finished) (map entry_out (owed t xs)) = map (\<lambda>(e, d). Sent (format_sse e d)) (sent_to t xs)"
  by (induction t xs rule: owed.induct) (auto simp: entry_out_def split: sse_op.splits)

lemma shows_frames:
  "\<forall>m \<in> set ms. event_name (fst m) \<and> json_ok (snd m) \<Longrightarrow>
   list_all2 shows_frame (map (\<lambda>(e, d). Sent (format_sse e d)) ms) ms"
  by (induction ms) (auto simp: shows_frame_def)

lemma subscribed_stream:
  assumes "\<not> draining b"
  shows "fst (subscribe_start k t b) = Sent (connected_frame k)"
    and "open_streams (snd (subscribe_start k t b)) (next_queue b) = Some t"
    and "queues (snd (subscribe_start k t b)) (next_queue b) = []"
  using assms by (simp_all add: subscribe_start_def Let_def)

lemma stream_text:
  assumes "sse_inv b" and "open_streams b q = Some t" and "queues b q = []"
    and "\<forall>m \<in> set (sent_to t xs). event_name (fst m) \<and> json_ok (snd m)"
  shows "\<exists>n. es_messages (concat (map wire (stream_outs k q xs b)))
       = take n (map (\<lambda>(e, d). (e, Some (json_norm d))) (sent_to t xs))
     \<and> (open_streams (sse_run k xs b) q \<noteq> None \<and> queues (sse_run k xs b) q = [] \<longrightarrow> length (sent_to t xs) \<le> n)"
proof -
  let ?outs = "stream_outs k q xs b" and ?no = "\<lambda>s. s \<noteq> Finished"
  obtain rest where r: "map entry_out (owed t xs) = news ?outs @ rest"
    "open_streams (sse_run k xs b) q \<noteq> None \<longrightarrow> rest = map entry_out (queues (sse_run k xs b) q)"
    using run_in_order [OF assms(1,2), of xs k] assms(3) by auto
  define n where "n = length (filter ?no (news ?outs))"
  have e: "map (\<lambda>(e, d). Sent (format_sse e d)) (sent_to t xs) = filter ?no (news ?outs) @ filter ?no rest"
    using arg_cong [OF r(1), of "filter ?no"] owed_sent [of t xs] by simp
  then have "filter ?no (news ?outs) = take n (map (\<lambda>(e, d). Sent (format_sse e d)) (sent_to t xs))"
    by (simp add: n_def)
  then have "filter (\<lambda>s. s \<noteq> Kept_alive \<and> s \<noteq> Finished) ?outs = map (\<lambda>(e, d). Sent (format_sse e d)) (take n (sent_to t xs))"
    by (simp add: take_map conj_commute)
  moreover have "\<forall>m \<in> set (take n (sent_to t xs)). event_name (fst m) \<and> json_ok (snd m)"
    using assms(4) by (meson in_set_takeD)
  ultimately have "es_messages (concat (map wire ?outs)) = map (\<lambda>(e, d). (e, Some (json_norm d))) (take n (sent_to t xs))"
    by (intro es_stream) (simp only: shows_frames)
  moreover have "length (sent_to t xs) \<le> n"
    if "open_streams (sse_run k xs b) q \<noteq> None" "queues (sse_run k xs b) q = []"
    using arg_cong [OF e, of length] r(2) that by (simp add: n_def)
  ultimately show ?thesis by (auto simp: take_map)
qed

section \<open>Properties\<close>

text \<open>
  Whatever subscribes, resumes, disconnects, notifies or shuts down, the registry stays
  consistent: no tenant has an empty list, a queue is listed exactly for the tenant of its open
  stream and once, the connected-users gauge of a tenant is its number of streams, while the
  broadcaster drains every open stream has a close marker waiting, and the notification counter
  has series for the protocol's event names and \<open>other\<close> only.
\<close>

theorem registry_stays_consistent:
  assumes "sse_reachable k b"
  shows "sse_inv b"
  using assms by (rule reachable_inv)

theorem registry_stays_consistent_witness:
  "sse_inv (sse_run ''15.0'' [Subscribe ''a'', Subscribe ''a'', Notify ''a'' ''x'' JNull, Resume 0, Disconnect 1, Close_all]
     new_broadcaster)"
  by (rule registry_stays_consistent [OF run_reachable [OF sse_reachable.start]])

text \<open>
  C2: A stream receives the notifications of its tenant and the close marker in the order they
  happened, each once, and nothing else but keepalives; as long as it is open, what it has not
  received is waiting in its queue.
\<close>

theorem stream_receives_in_order:
  assumes "sse_reachable k b" and "open_streams b q = Some t"
  shows "\<exists>rest. map entry_out (queues b q @ owed t xs) = filter (\<lambda>s. s \<noteq> Kept_alive) (stream_outs k q xs b) @ rest
     \<and> (open_streams (sse_run k xs b) q \<noteq> None \<longrightarrow> rest = map entry_out (queues (sse_run k xs b) q))"
  using run_in_order [OF reachable_inv [OF assms(1)] assms(2)] .

theorem stream_receives_in_order_witness:
  "\<exists>rest. map entry_out ([] @ owed ''a'' [Notify ''b'' ''x'' JNull, Notify ''a'' ''y'' (JInt 1), Resume 0, Close_all])
     = filter (\<lambda>s. s \<noteq> Kept_alive) [Sent (format_sse ''y'' (JInt 1))] @ rest \<and> rest = [Finished]"
proof -
  let ?b = "sse_run ''15.0'' [Subscribe ''a''] new_broadcaster"
  let ?xs = "[Notify ''b'' ''x'' JNull, Notify ''a'' ''y'' (JInt 1), Resume 0, Close_all]"
  have f: "open_streams ?b 0 = Some ''a''" "queues ?b 0 = []"
    "stream_outs ''15.0'' 0 ?xs ?b = [Sent (format_sse ''y'' (JInt 1))]"
    "open_streams (sse_run ''15.0'' ?xs ?b) 0 = Some ''a''"
    "map entry_out (queues (sse_run ''15.0'' ?xs ?b) 0) = [Finished]"
    by code_simp+
  show ?thesis
    using stream_receives_in_order [OF run_reachable [OF sse_reachable.start] f(1), of ?xs]
    unfolding f by simp
qed

text \<open>
  C9: What the browser's EventSource parses from the bytes of a response is the connected event
  and then the tenant's notifications with their data decoded, in order and up to the point the
  stream was read; when the stream is open with nothing queued, all of them.  It takes event names that are
  not empty and hold no line break (\<open>event_name\<close>; otherwise \<open>line_breaks_forge_events\<close>) and data
  that JSON can carry.
\<close>

theorem browser_reads_notifications:
  assumes "sse_reachable k b" and "\<not> draining b" and "json_ok (JFloat k)"
    and "\<forall>m \<in> set (sent_to t xs). event_name (fst m) \<and> json_ok (snd m)"
  shows "\<exists>n. es_messages (concat (map wire (fst (subscribe_start k t b)
           # stream_outs k (next_queue b) xs (snd (subscribe_start k t b)))))
       = (''connected'', Some (JObj [(''status'', JStr ''connected''), (''keepalive_seconds'', JFloat k)]))
           # take n (map (\<lambda>(e, d). (e, Some (json_norm d))) (sent_to t xs))
     \<and> (open_streams (sse_run k xs (snd (subscribe_start k t b))) (next_queue b) \<noteq> None
          \<and> queues (sse_run k xs (snd (subscribe_start k t b))) (next_queue b) = []
        \<longrightarrow> length (sent_to t xs) \<le> n)"
proof -
  let ?d = "JObj [(''status'', JStr ''connected''), (''keepalive_seconds'', JFloat k)]"
  have d: "json_ok ?d" using assms(3) by (simp add: dict_ok_def)
  have c: "event_name ''connected''" by (simp add: event_name_def)
  have "es_messages (connected_frame k @ r) = (''connected'', Some ?d) # es_messages r" for r
    using es_frame [OF c d, of r] json_roundtrip [OF d] by (simp add: es_messages_def connected_frame_def)
  then show ?thesis
    using stream_text [OF inv_subscribe [OF reachable_inv [OF assms(1)]] subscribed_stream(2,3) [OF assms(2)] assms(4)]
    by (simp add: subscribed_stream(1) [OF assms(2)] wire_def)
qed

theorem browser_reads_notifications_witness:
  "es_messages (concat (map wire [Sent (connected_frame ''15.0''), Kept_alive, Sent (format_sse ''poll-alerts'' (JObj []))]))
     = [(''connected'', Some (JObj [(''status'', JStr ''connected''), (''keepalive_seconds'', JFloat ''15.0'')])),
        (''poll-alerts'', Some (JObj []))]"
proof -
  let ?xs = "[Resume 0, Notify ''a'' ''poll-alerts'' (JObj []), Resume 0]"
  let ?s = "subscribe_start ''15.0'' ''a'' new_broadcaster"
  have f: "\<not> draining new_broadcaster" "next_queue new_broadcaster = 0" "fst ?s = Sent (connected_frame ''15.0'')"
    "stream_outs ''15.0'' 0 ?xs (snd ?s) = [Kept_alive, Sent (format_sse ''poll-alerts'' (JObj []))]"
    "open_streams (sse_run ''15.0'' ?xs (snd ?s)) 0 = Some ''a''" "queues (sse_run ''15.0'' ?xs (snd ?s)) 0 = []"
    "json_ok (JFloat ''15.0'')" "sent_to ''a'' ?xs = [(''poll-alerts'', JObj [])]" "event_name ''poll-alerts''"
    "json_ok (JObj [])"
    by code_simp+
  have "\<forall>m \<in> set (sent_to ''a'' ?xs). event_name (fst m) \<and> json_ok (snd m)"
    unfolding f(8) using f(9,10) by simp
  from browser_reads_notifications [OF sse_reachable.start f(1,7) this] obtain n where
    "es_messages (concat (map wire [Sent (connected_frame ''15.0''), Kept_alive, Sent (format_sse ''poll-alerts'' (JObj []))]))
     = (''connected'', Some (JObj [(''status'', JStr ''connected''), (''keepalive_seconds'', JFloat ''15.0'')]))
        # take n [(''poll-alerts'', Some (JObj []))]" and "1 \<le> n"
    unfolding f by (auto simp: f(8))
  then show ?thesis by (cases n) auto
qed

text \<open>
  C8: Once \<open>close_all\<close> ran and until \<open>reopen\<close>, every stream ends after it has been resumed as
  often as its queue was long, however other operations interleave; nobody new is registered,
  so when all streams had their turns the registry is empty.
\<close>

theorem shutdown_ends_every_stream:
  assumes "sse_reachable k b" and "draining b" and "Reopen \<notin> set xs"
    and "\<forall>q. open_streams b q \<noteq> None \<longrightarrow> length (queues b q) \<le> count_list xs (Resume q)"
  shows "connections (sse_run k xs b) = []"
proof (rule no_streams_no_connections)
  note i = reachable_inv [OF assms(1)]
  show "sse_inv (sse_run k xs b)" using i by (rule inv_run)
  show "\<forall>q. open_streams (sse_run k xs b) q = None"
  proof
    fix q
    show "open_streams (sse_run k xs b) q = None"
    proof (cases "open_streams b q")
      case None
      then show ?thesis using draining_admits_none [OF assms(2,3)] by simp
    next
      case (Some t)
      then have "frames_ahead b q < count_list xs (Resume q)"
        using frames_ahead_less [OF sse_invD(7) [OF i assms(2)]] assms(4) by (metis less_le_trans option.distinct(1))
      then show ?thesis using draining_ends [OF i assms(2,3) Some] by simp
    qed
  qed
qed

theorem shutdown_ends_every_stream_witness:
  "connections (sse_run ''15.0'' [Resume 0, Subscribe ''b'', Notify ''a'' ''x'' JNull, Resume 0]
     (sse_run ''15.0'' [Subscribe ''a'', Notify ''a'' ''x'' JNull, Close_all] new_broadcaster)) = []"
proof -
  let ?b = "sse_run ''15.0'' [Subscribe ''a'', Notify ''a'' ''x'' JNull, Close_all] new_broadcaster"
  let ?xs = "[Resume 0, Subscribe ''b'', Notify ''a'' ''x'' JNull, Resume 0]"
  have f: "draining ?b" "length (queues ?b 0) = 2" "count_list ?xs (Resume 0) = 2" "Reopen \<notin> set ?xs"
    by (code_simp | simp)+
  have "next_queue ?b = 1" by code_simp
  then have q: "q = 0" if "open_streams ?b q \<noteq> None" for q
    using that sse_invD(5) [OF reachable_inv [OF run_reachable [OF sse_reachable.start]], of "''15.0''" "[Subscribe ''a'', Notify ''a'' ''x'' JNull, Close_all]" q]
    by auto
  have "length (queues ?b 0) \<le> count_list ?xs (Resume 0)"
    by (simp only: f(2,3))
  then have "\<forall>q. open_streams ?b q \<noteq> None \<longrightarrow> length (queues ?b q) \<le> count_list ?xs (Resume q)"
    using q by blast
  then show ?thesis
    by (rule shutdown_ends_every_stream [OF run_reachable [OF sse_reachable.start] f(1,4)])
qed

text \<open>
  The event name of a notification is put into the frame as it is: a name that holds line
  breaks makes the browsers dispatch a first event of the sender's choosing before the second.
\<close>

theorem line_breaks_forge_events:
  assumes "event_name e" and "event_name e'" and "json_ok d" and "json_ok d'"
  shows "es_messages (format_sse (e @ [newline] @ ''data: '' @ json_dumps d @ [newline, newline] @ ''event: '' @ e') d')
    = [(e, Some (json_norm d)), (e', Some (json_norm d'))]"
proof -
  have "format_sse (e @ [newline] @ ''data: '' @ json_dumps d @ [newline, newline] @ ''event: '' @ e') d'
      = format_sse e d @ format_sse e' d' @ []"
    by (simp add: format_sse_def)
  moreover have "es_events [] = []" by (simp add: es_events_def)
  ultimately show ?thesis
    using assms by (simp only: es_messages_def es_frame) (simp add: json_roundtrip)
qed

theorem line_breaks_forge_events_witness:
  "es_messages (format_sse (''x'' @ [newline] @ ''data: '' @ json_dumps (JInt 1) @ [newline, newline] @ ''event: '' @ ''poll-alerts'') JNull)
    = [(''x'', Some (JInt 1)), (''poll-alerts'', Some JNull)]"
  using line_breaks_forge_events [of "''x''" "''poll-alerts''" "JInt 1" JNull] by (simp add: event_name_def)

end
