(* ===== verification/Sse_Fanout.thy ===== *)
theory Sse_Fanout
  imports Sse_Broadcaster
begin

text \<open>
  \<open>src/src/services/sse_fanout.py\<close>, the fan-out of notifications over a Redis channel, and the
  module functions of \<open>src/src/services/sse.py\<close> that start it and notify through it.  Redis is not
  part of the repository: what a connection attempt, a publish or a poll gives is an input of the
  steps.  Times are whole milliseconds.  The broadcaster is a parameter of \<open>RedisFanout\<close>,
  as in the source.
\<close>

section \<open>State\<close>

record fanout_config =
  channel :: string
  origin :: string
  reconnect_delay :: int
  max_reconnect_delay :: int
  ping_interval :: int
  pong_timeout :: int

text \<open>The defaults of the constructor and of the module constants, in milliseconds.\<close>

definition fanout_defaults :: "string \<Rightarrow> string \<Rightarrow> fanout_config" where
  "fanout_defaults ch o1 = \<lparr>channel = ch, origin = o1, reconnect_delay = 1000, max_reconnect_delay = 30000,
     ping_interval = 15000, pong_timeout = 5000\<rparr>"

text \<open>Where the subscriber loop is suspended.\<close>

datatype loop_phase = Not_started | Connecting | Awaiting int | Listening int bool | Backing_off | Ended

datatype fanout_error = Err_publish | Err_subscribe | Err_decode | Err_schema

record fanout =
  subscribed :: bool
  subscription :: nat
  publisher :: bool
  stopping :: bool
  phase :: loop_phase
  delay :: int
  fanout_connected :: bool
  published_total :: nat
  received_total :: nat
  fanout_errors :: "fanout_error \<Rightarrow> nat"

definition new_fanout :: "fanout_config \<Rightarrow> fanout" where
  "new_fanout cfg = \<lparr>subscribed = False, subscription = 0, publisher = False, stopping = False,
     phase = Not_started, delay = reconnect_delay cfg, fanout_connected = False,
     published_total = 0, received_total = 0, fanout_errors = (\<lambda>_. 0)\<rparr>"

definition count_error :: "fanout_error \<Rightarrow> fanout \<Rightarrow> fanout" where
  "count_error e f = f\<lparr>fanout_errors := (fanout_errors f)(e := Suc (fanout_errors f e))\<rparr>"

definition refetch_events :: "string list" where
  "refetch_events = [''poll-alerts'', ''incident-change'', ''incident-comment'']"

section \<open>Publishing\<close>

definition publish_message :: "fanout_config \<Rightarrow> string \<Rightarrow> string \<Rightarrow> json \<Rightarrow> string" where
  "publish_message cfg t event data = json_dumps (JObj [(''origin'', JStr (origin cfg)),
     (''tenant_id'', JStr t), (''event'', JStr event), (''data'', data)])"

text \<open>\<open>_publish\<close> once its attempt is over: \<open>ok\<close> unless a client, the publish or its timeout failed.\<close>

definition publish_done :: "bool \<Rightarrow> fanout \<Rightarrow> bool \<times> fanout" where
  "publish_done ok f =
     (if ok then (True, f\<lparr>publisher := True, published_total := Suc (published_total f)\<rparr>)
      else (False, count_error Err_publish (f\<lparr>publisher := False\<rparr>)))"

text \<open>\<open>broadcast()\<close> before and after the publish it waits for.\<close>

definition broadcast_begin :: "fanout \<Rightarrow> nat option" where
  "broadcast_begin f = (if subscribed f then Some (subscription f) else None)"

definition broadcast_finish ::
  "(string \<Rightarrow> string \<Rightarrow> json \<Rightarrow> 'b \<Rightarrow> 'b) \<Rightarrow> nat option \<Rightarrow> bool \<Rightarrow> string \<Rightarrow> string \<Rightarrow> json \<Rightarrow> fanout \<times> 'b \<Rightarrow> fanout \<times> 'b" where
  "broadcast_finish notif snapshot ok t event data fb =
     (let (published, f) = publish_done ok (fst fb) in
      if published \<and> snapshot \<noteq> None \<and> subscribed f \<and> snapshot = Some (subscription f) then (f, snd fb)
      else (f, notif t event (if event \<in> set refetch_events then JObj [] else data) (snd fb)))"

section \<open>Receiving\<close>

definition deliver ::
  "(string \<Rightarrow> string \<Rightarrow> json \<Rightarrow> 'b \<Rightarrow> 'b) \<Rightarrow> fanout_config \<Rightarrow> string \<Rightarrow> fanout \<times> 'b \<Rightarrow> fanout \<times> 'b" where
  "deliver notif cfg text fb =
     (case json_loads text of
        None \<Rightarrow> (count_error Err_decode (fst fb), snd fb)
      | Some payload \<Rightarrow>
          (case payload of
             JObj kvs \<Rightarrow>
               (case (dict_get kvs ''tenant_id'', dict_get kvs ''event'') of
                  (Some (JStr t), Some (JStr event)) \<Rightarrow>
                    (let f = fst fb in
                     (if dict_get kvs ''origin'' \<noteq> Some (JStr (origin cfg))
                      then f\<lparr>received_total := Suc (received_total f)\<rparr> else f,
                      notif t event (case dict_get kvs ''data'' of None \<Rightarrow> JObj [] | Some d \<Rightarrow> d) (snd fb)))
                | _ \<Rightarrow> (count_error Err_schema (fst fb), snd fb))
           | _ \<Rightarrow> (count_error Err_schema (fst fb), snd fb)))"

section \<open>The subscriber loop\<close>

text \<open>
  What the loop meets at its next suspension point: the outcome of a connection attempt, a poll
  for the acknowledgement or for a message (the time it starts, and the next message with the time
  it takes to arrive, if one ever does; for a message poll also the time a ping that is due takes, if it
  ever ends), a connection error, the end of a back-off sleep, or its cancellation.
\<close>

datatype loop_event = Attempt bool int
  | Ack_poll int "(int \<times> string) option"
  | Poll int "int option" "(int \<times> string \<times> string) option"
  | Connection_error
  | Woken
  | Cancelled

definition loop_failed :: "fanout \<Rightarrow> fanout" where
  "loop_failed f = count_error Err_subscribe (f\<lparr>subscribed := False, fanout_connected := False, phase := Backing_off\<rparr>)"

definition loop_ended :: "fanout \<Rightarrow> fanout" where
  "loop_ended f = f\<lparr>subscribed := False, fanout_connected := False, phase := Ended\<rparr>"

text \<open>
  The waits: \<open>get_message\<close> of the Redis client and \<open>asyncio.wait_for\<close> take a timeout and no longer than
  that.  Each gives the time it took, with the message or whether it was in time.
\<close>

definition get_message :: "int \<Rightarrow> (int \<times> 'm) option \<Rightarrow> int \<times> 'm option" where
  "get_message timeout arrival =
     (case arrival of None \<Rightarrow> (timeout, None)
      | Some (after, m) \<Rightarrow> if after \<le> timeout then (max 0 after, Some m) else (timeout, None))"

definition wait_for :: "int \<Rightarrow> int option \<Rightarrow> int \<times> bool" where
  "wait_for timeout completes =
     (case completes of None \<Rightarrow> (timeout, False)
      | Some after \<Rightarrow> if after \<le> timeout then (max 0 after, True) else (timeout, False))"

definition await_acknowledgement :: "fanout_config \<Rightarrow> int \<Rightarrow> int \<Rightarrow> (int \<times> string) option \<Rightarrow> fanout \<Rightarrow> fanout" where
  "await_acknowledgement cfg deadline now arrival f =
     (let remaining = deadline - now in
      if remaining \<le> 0 then loop_failed f
      else let (waited, msg) = get_message (min 1000 remaining) arrival in
        if msg = Some ''subscribe''
        then f\<lparr>subscription := Suc (subscription f), subscribed := True, fanout_connected := True,
               delay := reconnect_delay cfg, phase := Listening (now + waited) False\<rparr>
        else f)"

text \<open>The ping of a poll: the time it takes and whether the connection passed it.\<close>

definition ping_due :: "fanout_config \<Rightarrow> int \<Rightarrow> bool \<Rightarrow> int \<Rightarrow> bool" where
  "ping_due cfg last_heard pinged now \<longleftrightarrow> now - last_heard > ping_interval cfg \<and> \<not> pinged"

definition ping :: "fanout_config \<Rightarrow> int \<Rightarrow> bool \<Rightarrow> int \<Rightarrow> int option \<Rightarrow> int \<times> bool" where
  "ping cfg last_heard pinged now pong =
     (if ping_due cfg last_heard pinged now then wait_for (pong_timeout cfg) pong else (0, True))"

definition listen ::
  "(string \<Rightarrow> string \<Rightarrow> json \<Rightarrow> 'b \<Rightarrow> 'b) \<Rightarrow> fanout_config \<Rightarrow> int \<Rightarrow> bool \<Rightarrow> int \<Rightarrow> int option \<Rightarrow> (int \<times> string \<times> string) option
     \<Rightarrow> fanout \<times> 'b \<Rightarrow> fanout \<times> 'b" where
  "listen notif cfg last_heard pinged now pong arrival fb =
     (if now - last_heard > ping_interval cfg + pong_timeout cfg then (loop_failed (fst fb), snd fb)
      else let (pinging, ping_ok) = ping cfg last_heard pinged now pong;
               (waited, msg) = get_message (min 1000 (ping_interval cfg)) arrival in
        if \<not> ping_ok then (loop_failed (fst fb), snd fb)
        else (case msg of
            None \<Rightarrow> ((fst fb)\<lparr>phase := Listening last_heard (pinged \<or> ping_due cfg last_heard pinged now)\<rparr>, snd fb)
          | Some (type, text) \<Rightarrow>
              let f = (fst fb)\<lparr>phase := Listening (now + pinging + waited) False\<rparr> in
              if type = ''message'' then deliver notif cfg text (f, snd fb) else (f, snd fb)))"

fun subscribe_loop ::
  "(string \<Rightarrow> string \<Rightarrow> json \<Rightarrow> 'b \<Rightarrow> 'b) \<Rightarrow> fanout_config \<Rightarrow> loop_event \<Rightarrow> fanout \<times> 'b \<Rightarrow> fanout \<times> 'b" where
  "subscribe_loop notif cfg ev (f, b) =
     (if ev = Cancelled
      then (if phase f = Not_started \<or> phase f = Ended then (f, b)
            else (f\<lparr>subscribed := False, phase := Ended\<rparr>, b))
      else case phase f of
        Connecting \<Rightarrow>
          if stopping f then (loop_ended f, b)
          else (case ev of Attempt ok now \<Rightarrow>
              (if ok then f\<lparr>phase := Awaiting (now + pong_timeout cfg)\<rparr> else loop_failed f, b)
            | _ \<Rightarrow> (f, b))
      | Awaiting deadline \<Rightarrow>
          (case ev of Ack_poll now arrival \<Rightarrow> (await_acknowledgement cfg deadline now arrival f, b)
            | Connection_error \<Rightarrow> (loop_failed f, b) | _ \<Rightarrow> (f, b))
      | Listening last_heard pinged \<Rightarrow>
          if stopping f then (loop_ended f, b)
          else (case ev of Poll now pong arrival \<Rightarrow> listen notif cfg last_heard pinged now pong arrival (f, b)
            | Connection_error \<Rightarrow> (loop_failed f, b) | _ \<Rightarrow> (f, b))
      | Backing_off \<Rightarrow>
          (case ev of Woken \<Rightarrow> (f\<lparr>delay := min (delay f * 2) (max_reconnect_delay cfg), phase := Connecting\<rparr>, b)
            | _ \<Rightarrow> (f, b))
      | _ \<Rightarrow> (f, b))"

definition fanout_start :: "fanout_config \<Rightarrow> fanout \<Rightarrow> fanout" where
  "fanout_start cfg f = f\<lparr>stopping := False, phase := Connecting, delay := reconnect_delay cfg\<rparr>"

definition fanout_stop :: "fanout_config \<Rightarrow> fanout \<Rightarrow> fanout" where
  "fanout_stop cfg f =
     (fst (subscribe_loop (\<lambda>_ _ _ b. b) cfg Cancelled (f\<lparr>stopping := True\<rparr>, ())))\<lparr>publisher := False\<rparr>"

text \<open>A process with its fan-out: the loop moves, and broadcasts begin and end around it.\<close>

datatype fan_op = Loop loop_event | Finish "nat option" bool string string json | Stop

fun fan_step :: "(string \<Rightarrow> string \<Rightarrow> json \<Rightarrow> 'b \<Rightarrow> 'b) \<Rightarrow> fanout_config \<Rightarrow> fan_op \<Rightarrow> fanout \<times> 'b \<Rightarrow> fanout \<times> 'b" where
  "fan_step notif cfg (Loop ev) fb = subscribe_loop notif cfg ev fb"
| "fan_step notif cfg (Finish s ok t e d) fb = broadcast_finish notif s ok t e d fb"
| "fan_step notif cfg Stop fb = (fanout_stop cfg (fst fb), snd fb)"

fun fan_run :: "(string \<Rightarrow> string \<Rightarrow> json \<Rightarrow> 'b \<Rightarrow> 'b) \<Rightarrow> fanout_config \<Rightarrow> fan_op list \<Rightarrow> fanout \<times> 'b \<Rightarrow> fanout \<times> 'b" where
  "fan_run notif cfg [] fb = fb"
| "fan_run notif cfg (x # xs) fb = fan_run notif cfg xs (fan_step notif cfg x fb)"

section \<open>The subscription\<close>

definition fan_inv :: "fanout_config \<Rightarrow> fanout \<Rightarrow> bool" where
  "fan_inv cfg f \<longleftrightarrow> (subscribed f \<longleftrightarrow> (\<exists>l p. phase f = Listening l p))
     \<and> (subscribed f \<longrightarrow> fanout_connected f)
     \<and> (fanout_connected f \<longrightarrow> subscribed f \<or> phase f = Ended)
     \<and> reconnect_delay cfg \<le> delay f \<and> delay f \<le> max_reconnect_delay cfg"

definition config_ok :: "fanout_config \<Rightarrow> bool" where
  "config_ok cfg \<longleftrightarrow> 0 \<le> reconnect_delay cfg \<and> reconnect_delay cfg \<le> max_reconnect_delay cfg"

lemma count_error_fields [simp]:
  "subscribed (count_error e f) = subscribed f" "subscription (count_error e f) = subscription f"
  "phase (count_error e f) = phase f" "delay (count_error e f) = delay f"
  "fanout_connected (count_error e f) = fanout_connected f" "stopping (count_error e f) = stopping f"
  "received_total (count_error e f) = received_total f" "published_total (count_error e f) = published_total f"
  by (simp_all add: count_error_def)

lemma deliver_fields [simp]:
  "subscribed (fst (deliver nt cfg s fb)) = subscribed (fst fb)" "subscription (fst (deliver nt cfg s fb)) = subscription (fst fb)"
  "phase (fst (deliver nt cfg s fb)) = phase (fst fb)" "delay (fst (deliver nt cfg s fb)) = delay (fst fb)"
  "fanout_connected (fst (deliver nt cfg s fb)) = fanout_connected (fst fb)" "stopping (fst (deliver nt cfg s fb)) = stopping (fst fb)"
  by (auto simp: deliver_def Let_def split: option.splits json.splits)

lemma publish_done_fields [simp]:
  "subscribed (snd (publish_done ok f)) = subscribed f" "subscription (snd (publish_done ok f)) = subscription f"
  "phase (snd (publish_done ok f)) = phase f" "delay (snd (publish_done ok f)) = delay f"
  "fanout_connected (snd (publish_done ok f)) = fanout_connected f" "stopping (snd (publish_done ok f)) = stopping f"
  by (simp_all add: publish_done_def)

lemma broadcast_finish_state: "fst (broadcast_finish nt s ok t e d fb) = snd (publish_done ok (fst fb))"
  by (simp add: broadcast_finish_def Let_def case_prod_unfold)

lemma finish_fields [simp]:
  "subscribed (fst (broadcast_finish nt s ok t e d fb)) = subscribed (fst fb)"
  "subscription (fst (broadcast_finish nt s ok t e d fb)) = subscription (fst fb)"
  "phase (fst (broadcast_finish nt s ok t e d fb)) = phase (fst fb)"
  "delay (fst (broadcast_finish nt s ok t e d fb)) = delay (fst fb)"
  "fanout_connected (fst (broadcast_finish nt s ok t e d fb)) = fanout_connected (fst fb)"
  by (simp_all add: broadcast_finish_state)

lemma cancelled_loop:
  "subscribe_loop nt cfg Cancelled (f, b) =
     (if phase f = Not_started \<or> phase f = Ended then f else f\<lparr>subscribed := False, phase := Ended\<rparr>, b)"
  by simp

lemma stop_fields:
  assumes "fan_inv cfg f"
  shows "\<not> subscribed (fanout_stop cfg f)" and "subscription (fanout_stop cfg f) = subscription f"
    and "fanout_connected (fanout_stop cfg f) = fanout_connected f" and "delay (fanout_stop cfg f) = delay f"
    and "phase (fanout_stop cfg f) = (if phase f = Not_started then Not_started else Ended)"
  using assms by (auto simp: fanout_stop_def fan_inv_def)

lemma loop_inv:
  assumes "config_ok cfg" and "fan_inv cfg f"
  shows "fan_inv cfg (fst (subscribe_loop nt cfg ev (f, b)))"
proof (cases ev)
  case Cancelled
  then show ?thesis using assms by (auto simp: fan_inv_def)
qed (use assms in \<open>auto simp: fan_inv_def config_ok_def loop_ended_def loop_failed_def await_acknowledgement_def
    listen_def Let_def case_prod_unfold split: loop_phase.splits option.splits\<close>)

lemma loop_subscription:
  assumes "fan_inv cfg f"
  shows "subscription f \<le> subscription (fst (subscribe_loop nt cfg ev (f, b)))"
    and "\<not> subscribed f \<Longrightarrow> subscribed (fst (subscribe_loop nt cfg ev (f, b))) \<Longrightarrow>
         subscription f < subscription (fst (subscribe_loop nt cfg ev (f, b)))"
  using assms
  by (cases ev; auto simp: fan_inv_def loop_ended_def loop_failed_def await_acknowledgement_def
    listen_def Let_def case_prod_unfold split: loop_phase.splits option.splits if_splits)+

lemma fan_inv_finish: "fan_inv cfg (fst (broadcast_finish nt s ok t e d fb)) = fan_inv cfg (fst fb)"
  by (simp add: fan_inv_def)

lemma step_inv: "config_ok cfg \<Longrightarrow> fan_inv cfg (fst fb) \<Longrightarrow> fan_inv cfg (fst (fan_step nt cfg x fb))"
proof (cases x)
  case (Loop ev)
  then show "config_ok cfg \<Longrightarrow> fan_inv cfg (fst fb) \<Longrightarrow> ?thesis"
    using loop_inv [of cfg "fst fb" nt ev "snd fb"] by simp
next
  case (Finish s ok t e d)
  then show "config_ok cfg \<Longrightarrow> fan_inv cfg (fst fb) \<Longrightarrow> ?thesis" by (simp add: fan_inv_finish)
next
  case Stop
  assume i: "fan_inv cfg (fst fb)"
  show ?thesis using Stop stop_fields [OF i] i by (auto simp: fan_inv_def)
qed

lemma step_subscription:
  assumes "fan_inv cfg (fst fb)"
  shows "subscription (fst fb) \<le> subscription (fst (fan_step nt cfg x fb))"
    and "\<not> subscribed (fst fb) \<Longrightarrow> subscribed (fst (fan_step nt cfg x fb)) \<Longrightarrow>
         subscription (fst fb) < subscription (fst (fan_step nt cfg x fb))"
  using loop_subscription [OF assms, of nt _ "snd fb"] stop_fields [OF assms]
  by (cases x; simp)+

lemma run_inv: "config_ok cfg \<Longrightarrow> fan_inv cfg (fst fb) \<Longrightarrow> fan_inv cfg (fst (fan_run nt cfg xs fb))"
  by (induction xs arbitrary: fb) (simp_all add: step_inv)

lemma run_subscription:
  assumes "config_ok cfg" and "fan_inv cfg (fst fb)"
  shows "subscription (fst fb) \<le> subscription (fst (fan_run nt cfg xs fb))
    \<and> (\<not> subscribed (fst fb) \<longrightarrow> subscribed (fst (fan_run nt cfg xs fb)) \<longrightarrow>
         subscription (fst fb) < subscription (fst (fan_run nt cfg xs fb)))"
  using assms(2)
proof (induction xs arbitrary: fb)
  case (Cons x xs)
  show ?case
    using Cons.IH [OF step_inv [OF assms(1) Cons.prems, of nt x]] step_subscription [OF Cons.prems, of nt x]
    by (cases "subscribed (fst (fan_step nt cfg x fb))") auto
qed simp

lemma run_append: "fan_run nt cfg (xs @ ys) fb = fan_run nt cfg ys (fan_run nt cfg xs fb)"
  by (induction xs arbitrary: fb) simp_all

text \<open>
  The subscription number tells two subscriptions apart: the same number at both ends of a run
  means the subscription was there all the time.
\<close>

lemma same_subscription_held:
  assumes "config_ok cfg" and "fan_inv cfg (fst fb)"
    and "subscribed (fst (fan_run nt cfg xs fb))"
    and "subscription (fst (fan_run nt cfg xs fb)) = subscription (fst fb)"
  shows "subscribed (fst (fan_run nt cfg (take n xs) fb))"
proof (rule ccontr)
  let ?m = "fan_run nt cfg (take n xs) fb"
  assume "\<not> subscribed (fst ?m)"
  moreover have "fan_run nt cfg xs fb = fan_run nt cfg (drop n xs) ?m"
    using run_append [of nt cfg "take n xs" "drop n xs" fb] by simp
  ultimately have "subscription (fst ?m) < subscription (fst (fan_run nt cfg xs fb))"
    using run_subscription [OF assms(1) run_inv [OF assms(1,2), of nt "take n xs"], of nt "drop n xs"] assms(3) by simp
  moreover have "subscription (fst fb) \<le> subscription (fst ?m)"
    using run_subscription [OF assms(1,2)] by blast
  ultimately show False using assms(4) by simp
qed

section \<open>Delivery\<close>

text \<open>The notification a channel message carries, if it is one.\<close>

definition decoded :: "string \<Rightarrow> (string \<times> string \<times> json) option" where
  "decoded text = (case json_loads text of
     Some (JObj kvs) \<Rightarrow>
       (case (dict_get kvs ''tenant_id'', dict_get kvs ''event'') of
          (Some (JStr t), Some (JStr e)) \<Rightarrow>
            Some (t, e, case dict_get kvs ''data'' of None \<Rightarrow> JObj [] | Some d \<Rightarrow> d)
        | _ \<Rightarrow> None)
   | _ \<Rightarrow> None)"

lemma deliver_decoded:
  "snd (deliver nt cfg text fb) = (case decoded text of None \<Rightarrow> snd fb | Some (t, e, d) \<Rightarrow> nt t e d (snd fb))"
  by (auto simp: deliver_def decoded_def Let_def split: option.splits json.splits)

fun deliver_all ::
  "(string \<Rightarrow> string \<Rightarrow> json \<Rightarrow> 'b \<Rightarrow> 'b) \<Rightarrow> fanout_config \<Rightarrow> string list \<Rightarrow> fanout \<times> 'b \<Rightarrow> fanout \<times> 'b" where
  "deliver_all notif cfg [] fb = fb"
| "deliver_all notif cfg (x # xs) fb = deliver_all notif cfg xs (deliver notif cfg x fb)"

fun addressed :: "string \<Rightarrow> string list \<Rightarrow> (string \<times> json) list" where
  "addressed t [] = []"
| "addressed t (x # xs) =
     (case decoded x of None \<Rightarrow> [] | Some (t', e, d) \<Rightarrow> if t' = t then [(e, d)] else []) @ addressed t xs"

text \<open>What the fan-out needs of the broadcaster it is given.\<close>

locale local_delivery =
  fixes notif :: "string \<Rightarrow> string \<Rightarrow> json \<Rightarrow> 'b \<Rightarrow> 'b"
    and pending :: "'b \<Rightarrow> nat \<Rightarrow> 'e list"
    and audience :: "'b \<Rightarrow> nat \<Rightarrow> string option"
    and entry :: "string \<Rightarrow> json \<Rightarrow> 'e"
    and okb :: "'b \<Rightarrow> bool"
  assumes pending_notif: "okb b \<Longrightarrow> pending (notif t e d b) q
      = (if audience b q = Some t then pending b q @ [entry e d] else pending b q)"
    and audience_notif: "okb b \<Longrightarrow> audience (notif t e d b) = audience b"
    and ok_notif: "okb b \<Longrightarrow> okb (notif t e d b)"
begin

lemma deliver_keeps: "okb (snd fb) \<Longrightarrow> okb (snd (deliver notif cfg x fb)) \<and> audience (snd (deliver notif cfg x fb)) = audience (snd fb)"
  by (auto simp: deliver_decoded ok_notif audience_notif split: option.splits)

lemma deliver_pending:
  "okb (snd fb) \<Longrightarrow> audience (snd fb) q = Some t \<Longrightarrow>
   pending (snd (deliver notif cfg x fb)) q = pending (snd fb) q @ map (\<lambda>(e, d). entry e d) (addressed t [x])"
  by (auto simp: deliver_decoded pending_notif split: option.splits)

lemma deliver_all_pending:
  "okb (snd fb) \<Longrightarrow> audience (snd fb) q = Some t \<Longrightarrow>
   pending (snd (deliver_all notif cfg xs fb)) q = pending (snd fb) q @ map (\<lambda>(e, d). entry e d) (addressed t xs)"
proof (induction xs arbitrary: fb)
  case (Cons x xs)
  then show ?case
    using deliver_keeps [OF Cons.prems(1), of cfg x] deliver_pending [OF Cons.prems, of cfg x] by simp
qed simp

lemma finish_pending:
  assumes "okb b" and "audience b q = Some t"
  shows "pending (snd (broadcast_finish notif s ok t e d (f, b))) q \<in>
     {pending b q, pending b q @ [entry e (if e \<in> set refetch_events then JObj [] else d)]}"
  using assms by (simp add: broadcast_finish_def Let_def pending_notif case_prod_unfold)

lemma finish_other_tenant:
  "okb b \<Longrightarrow> audience b q \<noteq> Some t \<Longrightarrow> pending (snd (broadcast_finish notif s ok t e d (f, b))) q = pending b q"
  by (simp add: broadcast_finish_def Let_def pending_notif case_prod_unfold)

end

interpretation sse_local: local_delivery notify queues open_streams "\<lambda>e d. Frame (format_sse e d)" sse_inv
  by unfold_locales (simp_all add: notify_queue inv_notify)

lemma addressed_append: "addressed t (xs @ ys) = addressed t xs @ addressed t ys"
  by (induction xs) auto

section \<open>Properties of the fan-out\<close>

lemma message_ok: "json_ok d \<Longrightarrow> json_ok (JObj [(''origin'', JStr o1), (''tenant_id'', JStr t), (''event'', JStr e), (''data'', d)])"
  by (simp add: dict_ok_def)

text \<open>
  A published notification is what every subscriber of the channel reads: its delivery is a
  local notification of the same tenant and event with the same data, counted as received only
  where it comes from another process.
\<close>

theorem channel_roundtrip:
  assumes "json_ok d"
  shows "deliver notif cfg' (publish_message cfg t e d) (f, b) =
     (if origin cfg = origin cfg' then f else f\<lparr>received_total := Suc (received_total f)\<rparr>, notif t e (json_norm d) b)"
proof -
  have "json_loads (publish_message cfg t e d) = Some (JObj [(''origin'', JStr (origin cfg)), (''tenant_id'', JStr t),
      (''event'', JStr e), (''data'', json_norm d)])"
    using json_roundtrip [OF message_ok [OF assms]] by (simp add: publish_message_def)
  then show ?thesis by (simp add: deliver_def dict_get_def Let_def)
qed

definition sample_config :: "string \<Rightarrow> fanout_config" where
  "sample_config o1 = fanout_defaults ''keep:sse'' o1"

theorem channel_roundtrip_witness:
  "deliver (\<lambda>t e d b. (t, e, d) # b) (sample_config ''p2'')
     (publish_message (sample_config ''p1'') ''a'' ''poll-alerts'' (JObj [(''n'', JInt (- 3))]))
     (new_fanout (sample_config ''p2''), [])
   = ((new_fanout (sample_config ''p2''))\<lparr>received_total := 1\<rparr>, [(''a'', ''poll-alerts'', JObj [(''n'', JInt (- 3))])])"
  using channel_roundtrip [of "JObj [(''n'', JInt (- 3))]" "\<lambda>t e d b. (t, e, d) # b" "sample_config ''p2''" "sample_config ''p1''" "''a''"
      "''poll-alerts''" "new_fanout (sample_config ''p2'')" "[]"]
  by (simp add: dict_ok_def sample_config_def fanout_defaults_def new_fanout_def)

text \<open>
  C19: All processes deliver in the same order: whatever the origins, two streams of a tenant in
  two processes that read the same channel messages get the same frames in the channel's order,
  malformed messages and those of other tenants left out.
\<close>

theorem replicas_deliver_in_channel_order:
  assumes "sse_inv b1" and "sse_inv b2" and "open_streams b1 q1 = Some t" and "open_streams b2 q2 = Some t"
  shows "\<exists>frames. queues (snd (deliver_all notify cfg1 texts (f1, b1))) q1 = queues b1 q1 @ frames
     \<and> queues (snd (deliver_all notify cfg2 texts (f2, b2))) q2 = queues b2 q2 @ frames
     \<and> frames = map (\<lambda>(e, d). Frame (format_sse e d)) (addressed t texts)"
  using sse_local.deliver_all_pending [of "(f1, b1)" q1 t cfg1 texts]
    sse_local.deliver_all_pending [of "(f2, b2)" q2 t cfg2 texts] assms by simp

theorem replicas_deliver_in_channel_order_witness:
  "\<exists>frames. queues (snd (deliver_all notify (sample_config ''p1'')
       [publish_message (sample_config ''p1'') ''a'' ''x'' (JInt 1), ''junk'']
       (new_fanout (sample_config ''p1''), sse_run ''15.0'' [Subscribe ''a''] new_broadcaster))) 0 = frames
     \<and> queues (snd (deliver_all notify (sample_config ''p2'')
       [publish_message (sample_config ''p1'') ''a'' ''x'' (JInt 1), ''junk'']
       (new_fanout (sample_config ''p2''), sse_run ''15.0'' [Subscribe ''b'', Subscribe ''a''] new_broadcaster))) 1 = frames
     \<and> frames = [Frame (format_sse ''x'' (JInt 1))]"
proof -
  let ?b1 = "sse_run ''15.0'' [Subscribe ''a''] new_broadcaster"
  let ?b2 = "sse_run ''15.0'' [Subscribe ''b'', Subscribe ''a''] new_broadcaster"
  have i: "sse_inv ?b1" "sse_inv ?b2"
    by (rule reachable_inv [OF run_reachable [OF sse_reachable.start]])+
  have f: "open_streams ?b1 0 = Some ''a''" "open_streams ?b2 1 = Some ''a''" "queues ?b1 0 = []" "queues ?b2 1 = []"
    by code_simp+
  have d: "decoded (publish_message (sample_config ''p1'') ''a'' ''x'' (JInt 1)) = Some (''a'', ''x'', JInt 1)" "decoded ''junk'' = None"
    by code_simp+
  have "addressed ''a'' [publish_message (sample_config ''p1'') ''a'' ''x'' (JInt 1), ''junk''] = [(''x'', JInt 1)]"
    by (simp add: d del: json_dumps.simps)
  then show ?thesis
    using replicas_deliver_in_channel_order [OF i f(1,2), of "sample_config ''p1''"
      "[publish_message (sample_config ''p1'') ''a'' ''x'' (JInt 1), ''junk'']" "new_fanout (sample_config ''p1'')"
      "sample_config ''p2''" "new_fanout (sample_config ''p2'')"]
    unfolding f by simp
qed

text \<open>
  C7: A broadcast is never lost to this process: when it returns it has notified the local
  streams, or it was published while one and the same acknowledged subscription was held from
  its start to its end, on which the channel hands the message back.
\<close>

theorem broadcast_reaches_local_streams:
  assumes "config_ok cfg" and "fan_inv cfg f"
    and "fan_run notif cfg xs (f, b) = (g, c)"
    and "broadcast_finish notif (broadcast_begin f) ok t e d (g, c) = (h, r)"
  shows "r = notif t e (if e \<in> set refetch_events then JObj [] else d) c
     \<or> ok \<and> r = c \<and> (\<forall>n. subscribed (fst (fan_run notif cfg (take n xs) (f, b))))"
proof (cases "ok \<and> broadcast_begin f \<noteq> None \<and> subscribed g \<and> broadcast_begin f = Some (subscription g)")
  case True
  then have "subscribed (fst (fan_run notif cfg xs (f, b)))"
    "subscription (fst (fan_run notif cfg xs (f, b))) = subscription (fst (f, b))"
    using assms(3) by (auto simp: broadcast_begin_def split: if_splits)
  then have "subscribed (fst (fan_run notif cfg (take n xs) (f, b)))" for n
    using same_subscription_held [OF assms(1), of "(f, b)"] assms(2) by simp
  moreover have "r = c"
    using assms(4) True by (auto simp: broadcast_finish_def publish_done_def Let_def split: if_splits)
  ultimately show ?thesis using True by simp
next
  case False
  then show ?thesis
    using assms(4) by (auto simp: broadcast_finish_def publish_done_def Let_def split: if_splits)
qed

lemma start_inv: "config_ok cfg \<Longrightarrow> fan_inv cfg (fanout_start cfg (new_fanout cfg))"
  by (simp add: fan_inv_def config_ok_def fanout_start_def new_fanout_def)

definition sample_started :: "fanout \<times> broadcaster" where
  "sample_started = fan_run notify (sample_config ''p1'')
     [Loop (Attempt True 0), Loop (Ack_poll 10 (Some (10, ''subscribe'')))]
     (fanout_start (sample_config ''p1'') (new_fanout (sample_config ''p1'')), new_broadcaster)"

lemma sample_inv: "config_ok (sample_config o1)" "fan_inv (sample_config ''p1'') (fst sample_started)"
proof -
  show c: "config_ok (sample_config o1)" for o1 by (simp add: config_ok_def sample_config_def fanout_defaults_def)
  show "fan_inv (sample_config ''p1'') (fst sample_started)"
    unfolding sample_started_def using start_inv [OF c] by (intro run_inv c) simp
qed

theorem broadcast_reaches_local_streams_witness:
  "snd sample_started = notify ''a'' ''x'' (if ''x'' \<in> set refetch_events then JObj [] else JInt 1) (snd sample_started)
   \<or> True \<and> snd sample_started = snd sample_started
     \<and> (\<forall>n. subscribed (fst (fan_run notify (sample_config ''p1'') (take n [Loop (Poll 500 None None)])
              (fst sample_started, snd sample_started))))"
proof -
  let ?run = "fan_run notify (sample_config ''p1'') [Loop (Poll 500 None None)] (fst sample_started, snd sample_started)"
  have s: "subscribed (fst sample_started)" "subscription (fst sample_started) = 1" "\<not> stopping (fst sample_started)"
    "phase (fst sample_started) = Listening 20 False"
    by code_simp+
  then have r: "?run = ((fst sample_started)\<lparr>phase := Listening 20 False\<rparr>, snd sample_started)"
    by (simp add: listen_def sample_config_def fanout_defaults_def ping_def ping_due_def get_message_def Let_def del: prod.collapse)
  show ?thesis
    by (rule broadcast_reaches_local_streams [OF sample_inv r, where ok = True and h = "snd (publish_done True ((fst sample_started)\<lparr>phase := Listening 20 False\<rparr>))"])
       (simp add: broadcast_finish_def broadcast_begin_def publish_done_def s)
qed

fun failures :: "int list \<Rightarrow> fan_op list" where
  "failures [] = []"
| "failures (now # ts) = Loop (Attempt False now) # Loop Woken # failures ts"

lemma failures_append: "failures (ts @ [now]) = failures ts @ [Loop (Attempt False now), Loop Woken]"
  by (induction ts) auto

text \<open>
  While connection attempts keep failing, the delay doubles from the configured one up to the
  cap, the loop goes back to connecting each time, and nothing is subscribed.
\<close>

theorem backoff_doubles_up_to_the_cap:
  assumes "config_ok cfg" and "phase f = Connecting" and "\<not> stopping f" and "delay f = reconnect_delay cfg"
    and "\<not> subscribed f"
  shows "let f' = fst (fan_run notif cfg (failures ts) (f, b)) in
     delay f' = min (reconnect_delay cfg * 2 ^ length ts) (max_reconnect_delay cfg)
     \<and> phase f' = Connecting \<and> \<not> subscribed f' \<and> fanout_errors f' Err_subscribe = fanout_errors f Err_subscribe + length ts"
proof -
  have "delay (fst (fan_run notif cfg (failures ts) (f, b))) = min (reconnect_delay cfg * 2 ^ length ts) (max_reconnect_delay cfg)
     \<and> phase (fst (fan_run notif cfg (failures ts) (f, b))) = Connecting
     \<and> \<not> subscribed (fst (fan_run notif cfg (failures ts) (f, b)))
     \<and> \<not> stopping (fst (fan_run notif cfg (failures ts) (f, b)))
     \<and> fanout_errors (fst (fan_run notif cfg (failures ts) (f, b))) Err_subscribe = fanout_errors f Err_subscribe + length ts"
  proof (induction ts rule: rev_induct)
    case Nil
    then show ?case using assms by (simp add: config_ok_def)
  next
    case (snoc now ts)
    obtain g c where g: "fan_run notif cfg (failures ts) (f, b) = (g, c)" by force
    have m: "min (min x m * 2) m = min (x * 2) m" if "0 \<le> m" for x m :: int
      using that by (auto simp: min_def)
    from assms(1) have "0 \<le> max_reconnect_delay cfg" by (simp add: config_ok_def)
    then show ?case
      using snoc g m [of "max_reconnect_delay cfg" "reconnect_delay cfg * 2 ^ length ts"]
      by (simp add: failures_append run_append loop_failed_def count_error_def mult.commute mult.left_commute)
  qed
  then show ?thesis by (simp add: Let_def)
qed

theorem backoff_doubles_up_to_the_cap_witness:
  "let f' = fst (fan_run notify (sample_config ''p1'') (failures [0, 1000, 3000, 7000, 15000])
        (fanout_start (sample_config ''p1'') (new_fanout (sample_config ''p1'')), new_broadcaster)) in
     delay f' = min (1000 * 2 ^ 5) 30000 \<and> phase f' = Connecting \<and> \<not> subscribed f' \<and> fanout_errors f' Err_subscribe = 5"
  using backoff_doubles_up_to_the_cap [OF sample_inv(1) [of "''p1''"], of "fanout_start (sample_config ''p1'') (new_fanout (sample_config ''p1''))"
      notify "[0, 1000, 3000, 7000, 15000]" new_broadcaster]
  by (simp add: fanout_start_def new_fanout_def sample_config_def fanout_defaults_def Let_def del: failures.simps fan_run.simps)

text \<open>
  The loop while Redis says nothing: a poll begins when the one before it has ended; the list gives the
  times of the pings that are due.
\<close>

definition poll_ends :: "fanout_config \<Rightarrow> int \<Rightarrow> bool \<Rightarrow> int \<Rightarrow> int option \<Rightarrow> int" where
  "poll_ends cfg last_heard pinged now pong =
     (if now - last_heard > ping_interval cfg + pong_timeout cfg then now
      else now + fst (ping cfg last_heard pinged now pong)
        + (if snd (ping cfg last_heard pinged now pong)
           then fst (get_message (min 1000 (ping_interval cfg)) (None :: (int \<times> string \<times> string) option)) else 0))"

definition ack_poll_ends :: "int \<Rightarrow> int \<Rightarrow> int" where
  "ack_poll_ends deadline now =
     (if deadline - now \<le> 0 then now else now + fst (get_message (min 1000 (deadline - now)) (None :: (int \<times> string) option)))"

fun quiet_polls ::
  "(string \<Rightarrow> string \<Rightarrow> json \<Rightarrow> 'b \<Rightarrow> 'b) \<Rightarrow> fanout_config \<Rightarrow> int option list \<Rightarrow> int \<times> fanout \<times> 'b \<Rightarrow> int \<times> fanout \<times> 'b" where
  "quiet_polls notif cfg [] x = x"
| "quiet_polls notif cfg (pong # pongs) (now, f, b) =
     (case phase f of
        Listening l p \<Rightarrow> quiet_polls notif cfg pongs (poll_ends cfg l p now pong, subscribe_loop notif cfg (Poll now pong None) (f, b))
      | Awaiting d \<Rightarrow> quiet_polls notif cfg pongs (ack_poll_ends d now, subscribe_loop notif cfg (Ack_poll now None) (f, b))
      | _ \<Rightarrow> (now, f, b))"

lemma quiet_polls_over: "phase f = Backing_off \<Longrightarrow> quiet_polls nt cfg ps (now, f, b) = (now, f, b)"
  by (cases ps) simp_all

lemma ping_time:
  "0 \<le> pong_timeout cfg \<Longrightarrow> 0 \<le> fst (ping cfg l p now pong) \<and> fst (ping cfg l p now pong) \<le> pong_timeout cfg"
  by (auto simp: ping_def wait_for_def split: option.splits)

lemma loop_failed_fields [simp]: "phase (loop_failed f) = Backing_off"
  by (simp add: loop_failed_def)

lemma quiet_listening:
  assumes "0 < ping_interval cfg" and "0 \<le> pong_timeout cfg" and "\<not> stopping f" and "phase f = Listening l p"
    and "l + ping_interval cfg + pong_timeout cfg - now < int k * min 1000 (ping_interval cfg)" and "length ps = Suc k"
  shows "\<exists>g t. quiet_polls nt cfg ps (now, f, b) = (t, loop_failed g, b) \<and>
    t \<le> max now (l + ping_interval cfg + 2 * pong_timeout cfg + min 1000 (ping_interval cfg))"
  using assms(3-6)
proof (induction k arbitrary: now f p ps)
  case 0
  then obtain pong where ps: "ps = [pong]" by (auto simp: length_Suc_conv)
  from 0 show ?case
    by (intro exI [of _ f] exI [of _ now]) (auto simp: ps listen_def poll_ends_def)
next
  case (Suc k)
  then obtain pong qs where ps: "ps = pong # qs" "length qs = Suc k" by (auto simp: length_Suc_conv)
  let ?P = "ping cfg l p now pong" and ?T = "min 1000 (ping_interval cfg)"
  consider "now - l > ping_interval cfg + pong_timeout cfg"
    | "\<not> now - l > ping_interval cfg + pong_timeout cfg" "\<not> snd ?P"
    | "\<not> now - l > ping_interval cfg + pong_timeout cfg" "snd ?P" by blast
  then show ?case
  proof cases
    case 1
    with Suc.prems(1,2) show ?thesis
      by (intro exI [of _ f] exI [of _ now]) (simp add: ps(1) listen_def poll_ends_def quiet_polls_over)
  next
    case 2
    have "now + fst ?P \<le> l + ping_interval cfg + 2 * pong_timeout cfg + ?T"
      using 2(1) ping_time [OF assms(2), of l p now pong] assms(1) by linarith
    moreover have "quiet_polls nt cfg ps (now, f, b) = (now + fst ?P, loop_failed f, b)"
      using Suc.prems(1,2) 2 by (simp add: ps(1) listen_def poll_ends_def quiet_polls_over case_prod_unfold)
    ultimately show ?thesis by (intro exI [of _ f] exI [of _ "now + fst ?P"]) simp
  next
    case 3
    let ?now = "now + fst ?P + ?T" and ?p = "p \<or> ping_due cfg l p now"
    have step: "quiet_polls nt cfg ps (now, f, b) = quiet_polls nt cfg qs (?now, f\<lparr>phase := Listening l ?p\<rparr>, b)"
      using Suc.prems(1,2) 3 by (simp add: ps(1) listen_def poll_ends_def case_prod_unfold get_message_def)
    have "l + ping_interval cfg + pong_timeout cfg - ?now < int k * ?T"
      using Suc.prems(3) ping_time [OF assms(2), of l p now pong] by (simp add: distrib_right)
    from Suc.IH [OF _ _ this ps(2), of "f\<lparr>phase := Listening l ?p\<rparr>" ?p] Suc.prems(1)
    obtain g t where "quiet_polls nt cfg qs (?now, f\<lparr>phase := Listening l ?p\<rparr>, b) = (t, loop_failed g, b)"
      and t: "t \<le> max ?now (l + ping_interval cfg + 2 * pong_timeout cfg + ?T)" by auto
    moreover have "?now \<le> l + ping_interval cfg + 2 * pong_timeout cfg + ?T"
      using 3(1) ping_time [OF assms(2), of l p now pong] by linarith
    ultimately show ?thesis by (intro exI [of _ g] exI [of _ t]) (simp add: step)
  qed
qed

lemma quiet_awaiting:
  assumes "phase f = Awaiting d" and "d - now \<le> int k * 1000" and "length ps = Suc k"
  shows "\<exists>t. quiet_polls nt cfg ps (now, f, b) = (t, loop_failed f, b) \<and> t \<le> max now d"
  using assms(2,3)
proof (induction k arbitrary: now ps)
  case 0
  then obtain pong where ps: "ps = [pong]" by (auto simp: length_Suc_conv)
  from 0 assms(1) show ?case by (simp add: ps await_acknowledgement_def ack_poll_ends_def)
next
  case (Suc k)
  then obtain pong qs where ps: "ps = pong # qs" "length qs = Suc k" by (auto simp: length_Suc_conv)
  show ?case
  proof (cases "d - now \<le> 0")
    case True
    with assms(1) show ?thesis by (simp add: ps(1) await_acknowledgement_def ack_poll_ends_def quiet_polls_over)
  next
    case False
    let ?now = "now + min 1000 (d - now)"
    have "quiet_polls nt cfg ps (now, f, b) = quiet_polls nt cfg qs (?now, f, b)"
      using assms(1) False by (simp add: ps(1) await_acknowledgement_def ack_poll_ends_def get_message_def Let_def)
    moreover have "d - ?now \<le> int k * 1000" using Suc.prems(1) by (simp add: min_def)
    ultimately show ?thesis using Suc.IH [OF _ ps(2), of ?now] False by (auto simp: min_def max_def split: if_splits)
  qed
qed

text \<open>
  C21: Silence is noticed in bounded time.  When nothing arrives any more, whatever the pings do, the polls of a
  listening process end its connection by the ping interval, twice the pong timeout and one poll after it
  last heard of Redis, and those of a process that awaits its acknowledgement do by the deadline; then the
  process is not subscribed and a broadcast notifies its streams itself.
\<close>

theorem silence_ends_the_connection:
  assumes "0 < ping_interval cfg" and "0 \<le> pong_timeout cfg" and "\<not> stopping f" and "start \<le> limit"
    and "phase f = Listening last_heard pinged \<and> limit = last_heard + ping_interval cfg + 2 * pong_timeout cfg + min 1000 (ping_interval cfg)
       \<or> phase f = Awaiting limit"
    and "limit - start \<le> int k * min 1000 (ping_interval cfg)" and "length pongs = Suc k"
    and "quiet_polls notif cfg pongs (start, f, b) = (now, f', b')"
  shows "phase f' = Backing_off \<and> \<not> subscribed f' \<and> \<not> fanout_connected f' \<and> b' = b \<and> now \<le> limit
     \<and> snd (broadcast_finish notif (broadcast_begin f') ok t e d (f', b'))
       = notif t e (if e \<in> set refetch_events then JObj [] else d) b"
proof -
  have "\<exists>g. f' = loop_failed g \<and> b' = b \<and> now \<le> limit"
    using assms(5)
  proof
    assume l: "phase f = Listening last_heard pinged \<and> limit = last_heard + ping_interval cfg + 2 * pong_timeout cfg + min 1000 (ping_interval cfg)"
    then have "last_heard + ping_interval cfg + pong_timeout cfg - start < int k * min 1000 (ping_interval cfg)"
      using assms(1,2,6) by linarith
    from quiet_listening [OF assms(1-3) _ this assms(7), of pinged notif b] l assms(4,8) show ?thesis by auto
  next
    assume a: "phase f = Awaiting limit"
    have "limit - start \<le> int k * 1000"
      using assms(6) mult_left_mono [of "min 1000 (ping_interval cfg)" 1000 "int k"] by linarith
    from quiet_awaiting [OF a this assms(7), of notif cfg b] assms(4,8) show ?thesis by auto
  qed
  then show ?thesis
    by (auto simp: loop_failed_def broadcast_finish_def broadcast_begin_def case_prod_unfold Let_def)
qed

text \<open>After 26 seconds at most, with the default settings and a ping that never ends.\<close>

theorem silence_ends_the_connection_witness:
  "(case quiet_polls notify (sample_config ''p1'') (replicate 27 None) (20, sample_started) of
      (now, f', b') \<Rightarrow> phase f' = Backing_off \<and> \<not> subscribed f' \<and> b' = snd sample_started \<and> now \<le> 26020)"
proof -
  have s: "phase (fst sample_started) = Listening 20 False" "\<not> stopping (fst sample_started)"
    by code_simp+
  have c: "ping_interval (sample_config ''p1'') = 15000" "pong_timeout (sample_config ''p1'') = 5000"
    by (simp_all add: sample_config_def fanout_defaults_def)
  obtain now f' b' where r: "quiet_polls notify (sample_config ''p1'') (replicate 27 None) (20, fst sample_started, snd sample_started) = (now, f', b')"
    by (metis prod_cases3)
  have "phase f' = Backing_off \<and> \<not> subscribed f' \<and> \<not> fanout_connected f' \<and> b' = snd sample_started \<and> now \<le> 26020
     \<and> snd (broadcast_finish notify (broadcast_begin f') True ''a'' ''x'' JNull (f', b'))
       = notify ''a'' ''x'' (if ''x'' \<in> set refetch_events then JObj [] else JNull) (snd sample_started)"
    by (rule silence_ends_the_connection [OF _ _ s(2) _ _ _ _ r, where last_heard = 20 and pinged = False and k = 26])
      (simp_all add: c s(1))
  with r show ?thesis by (simp del: replicate.simps)
qed

text \<open>
  Stopping the fan-out drops the subscription without telling the connection gauge: the
  cancelled loop leaves before the statement that clears it, so a stopped process that was
  subscribed goes on reporting a connection.
\<close>

theorem stop_leaves_the_gauge:
  assumes "fan_inv cfg f" and "subscribed f"
  shows "\<not> subscribed (fanout_stop cfg f) \<and> phase (fanout_stop cfg f) = Ended \<and> fanout_connected (fanout_stop cfg f)"
proof -
  have "phase f \<noteq> Not_started" "fanout_connected f" using assms by (auto simp: fan_inv_def)
  then show ?thesis using stop_fields [OF assms(1)] by simp
qed

theorem stop_leaves_the_gauge_witness:
  "\<not> subscribed (fanout_stop (sample_config ''p1'') (fst sample_started))
    \<and> phase (fanout_stop (sample_config ''p1'') (fst sample_started)) = Ended
    \<and> fanout_connected (fanout_stop (sample_config ''p1'') (fst sample_started))"
proof -
  have "subscribed (fst sample_started)" by code_simp
  with sample_inv(2) show ?thesis by (rule stop_leaves_the_gauge)
qed

section \<open>The client factory\<close>

text \<open>The calls the factory makes, as data: a direct client or one handed out by Sentinel.\<close>

datatype redis_client =
    Direct string int int bool "string option" "string option" int
  | Master_for "(string \<times> int) list" "(string \<times> string) list" string "string option" "string option" int bool int

definition redis_health_check_seconds :: int where
  "redis_health_check_seconds = 30"

text \<open>\<open>s.partition(c)\<close> without the separator; \<open>x or d\<close> for an optional string.\<close>

definition py_partition :: "char \<Rightarrow> string \<Rightarrow> string \<times> string" where
  "py_partition c s = (takeWhile (\<lambda>x. x \<noteq> c) s, tl (dropWhile (\<lambda>x. x \<noteq> c) s))"

definition truthy :: "string option \<Rightarrow> bool" where
  "truthy s = (s \<noteq> None \<and> s \<noteq> Some [])"

definition sentinel_node :: "string \<Rightarrow> (string \<times> int) option" where
  "sentinel_node host_port =
     (let (h, p) = py_partition (CHR '':'') (py_strip host_port) in
      if p = [] then Some (h, 26379) else map_option (Pair h) (py_int p))"

definition sentinel_nodes :: "string \<Rightarrow> string + (string \<times> int) list" where
  "sentinel_nodes hosts = traverse (\<lambda>hp. option_res ''ValueError'' (sentinel_node hp)) (py_split (CHR '','') hosts)"

definition redis_client_factory ::
  "string \<Rightarrow> int \<Rightarrow> string option \<Rightarrow> string option \<Rightarrow> string option \<Rightarrow> string \<Rightarrow> int \<Rightarrow> bool
    \<Rightarrow> string option \<Rightarrow> string option \<Rightarrow> string + redis_client" where
  "redis_client_factory host port username password sentinel_hosts sentinel_service db ssl s_user s_pass =
     (if truthy sentinel_hosts
      then rbind (sentinel_nodes (the sentinel_hosts)) (\<lambda>nodes.
        Inr (Master_for nodes
          ((if truthy s_user then [(''username'', the s_user)] else [])
           @ (if truthy s_pass then [(''password'', the s_pass)] else []))
          sentinel_service username password db ssl redis_health_check_seconds))
      else Inr (Direct host port db ssl username password redis_health_check_seconds))"

section \<open>The module of the broadcaster\<close>

text \<open>
  The globals of \<open>sse.py\<close>: the broadcaster, the fan-out, the server's event loop with whether it
  runs, what has been scheduled on it, and the process's signal handlers.  A handler of Keep
  remembers the one it replaced.
\<close>

datatype signal_handler = Default_handler | Installed string | Keep_handler signal_handler

record sse_module =
  sse_broadcaster :: broadcaster
  the_fanout :: "fanout option"
  server_loop :: "bool option"
  scheduled :: "(string \<times> string \<times> json) list"
  sigterm :: signal_handler
  sigint :: signal_handler

text \<open>
  \<open>start_fanout\<close>: the exception it leaves with, if any, and the module after it.  \<open>factory\<close> is what
  \<open>redis_client_factory\<close> gave for the settings.
\<close>

definition start_fanout ::
  "string \<Rightarrow> string + redis_client \<Rightarrow> string \<Rightarrow> string \<Rightarrow> string \<Rightarrow> sse_module \<Rightarrow> string option \<times> sse_module" where
  "start_fanout sse_fanout factory key_prefix ch o1 m =
     (let m' = m\<lparr>server_loop := Some True\<rparr>; cfg = fanout_defaults (key_prefix @ ch) o1 in
      if sse_fanout \<noteq> ''redis'' then (None, m')
      else (case factory of
          Inl err \<Rightarrow> (Some err, m')
        | Inr _ \<Rightarrow> (None, m'\<lparr>the_fanout := Some (fanout_start cfg (new_fanout cfg))\<rparr>)))"

lemma start_fanout_can_raise:
  "fst (start_fanout ''redis'' (redis_client_factory ''h'' 6379 None None (Some ''s1:port'') ''mymaster'' 0 False None None)
     ''keep:'' ''keep:sse'' ''p1'' m) = Some ''ValueError''"
proof -
  have "redis_client_factory ''h'' 6379 None None (Some ''s1:port'') ''mymaster'' 0 False None None = Inl ''ValueError''"
    by code_simp
  then show ?thesis by (simp add: start_fanout_def)
qed

definition stop_fanout :: "fanout_config \<Rightarrow> sse_module \<Rightarrow> fanout option \<times> sse_module" where
  "stop_fanout cfg m = (map_option (fanout_stop cfg) (the_fanout m), m\<lparr>the_fanout := None, server_loop := None\<rparr>)"

text \<open>\<open>broadcast()\<close>, with the state of the fan-out when its publish began and how that ended.\<close>

definition broadcast :: "fanout \<Rightarrow> bool \<Rightarrow> string \<Rightarrow> string \<Rightarrow> json \<Rightarrow> sse_module \<Rightarrow> sse_module" where
  "broadcast f0 ok t e d m =
     (case the_fanout m of
        None \<Rightarrow> m\<lparr>sse_broadcaster := notify t e d (sse_broadcaster m)\<rparr>
      | Some f \<Rightarrow>
          (case broadcast_finish notify (broadcast_begin f0) ok t e d (f, sse_broadcaster m) of
             (f', b) \<Rightarrow> m\<lparr>the_fanout := Some f', sse_broadcaster := b\<rparr>))"

text \<open>\<open>on_loop\<close>: the caller runs on an event loop; \<open>accepted\<close>: the loop takes the coroutine.\<close>

definition notify_sse :: "bool \<Rightarrow> bool \<Rightarrow> string \<Rightarrow> string \<Rightarrow> json \<Rightarrow> sse_module \<Rightarrow> sse_module" where
  "notify_sse on_loop accepted t e d m =
     (if on_loop \<or> server_loop m = Some True
      then (if accepted then m\<lparr>scheduled := scheduled m @ [(t, e, d)]\<rparr> else m)
      else m\<lparr>sse_broadcaster := notify t e d (sse_broadcaster m)\<rparr>)"

definition keep_sse_previous :: "signal_handler \<Rightarrow> signal_handler" where
  "keep_sse_previous h = (case h of Keep_handler p \<Rightarrow> p | _ \<Rightarrow> h)"

text \<open>
  What a delivered signal runs: a Keep handler schedules \<open>close_all\<close> when the loop is still there
  and then calls what it replaced, if that is callable.
\<close>

datatype signal_call = Schedule_close_all | Call string

fun run_handler :: "bool \<Rightarrow> signal_handler \<Rightarrow> signal_call list" where
  "run_handler loop_alive Default_handler = []"
| "run_handler loop_alive (Installed h) = [Call h]"
| "run_handler loop_alive (Keep_handler p) = (if loop_alive then [Schedule_close_all] else []) @ run_handler loop_alive p"

definition install_shutdown_handlers :: "bool \<Rightarrow> sse_module \<Rightarrow> sse_module" where
  "install_shutdown_handlers main_thread m =
     (let m' = m\<lparr>server_loop := Some True, sse_broadcaster := reopen (sse_broadcaster m)\<rparr> in
      if \<not> main_thread then m'
      else m'\<lparr>sigterm := Keep_handler (keep_sse_previous (sigterm m)),
              sigint := Keep_handler (keep_sse_previous (sigint m))\<rparr>)"

fun plain_handler :: "signal_handler \<Rightarrow> bool" where
  "plain_handler (Keep_handler h) = False"
| "plain_handler _ = True"

text \<open>
  However often the lifespan starts, a signal closes the streams once and then runs the
  server's own handler once: Keep's handlers never stack, and subscriptions are accepted again.
\<close>

theorem shutdown_handlers_never_stack:
  assumes "plain_handler (sigterm m)" and "plain_handler (sigint m)"
  shows "let m' = (install_shutdown_handlers True ^^ Suc n) m in
     run_handler True (sigterm m') = Schedule_close_all # run_handler True (sigterm m)
     \<and> run_handler True (sigint m') = Schedule_close_all # run_handler True (sigint m)
     \<and> sse_broadcaster m' = reopen (sse_broadcaster m)"
proof -
  have p: "keep_sse_previous h = h" if "plain_handler h" for h
    using that by (cases h) (simp_all add: keep_sse_previous_def)
  have "sigterm ((install_shutdown_handlers True ^^ Suc n) m) = Keep_handler (sigterm m)
     \<and> sigint ((install_shutdown_handlers True ^^ Suc n) m) = Keep_handler (sigint m)
     \<and> sse_broadcaster ((install_shutdown_handlers True ^^ Suc n) m) = reopen (sse_broadcaster m)"
  proof (induction n)
    case 0
    then show ?case using assms by (simp add: install_shutdown_handlers_def Let_def p)
  next
    case (Suc n)
    then show ?case by (simp add: install_shutdown_handlers_def Let_def keep_sse_previous_def reopen_def)
  qed
  then show ?thesis by (simp add: Let_def)
qed

theorem shutdown_handlers_never_stack_witness:
  "let m' = (install_shutdown_handlers True ^^ Suc 1)
        \<lparr>sse_broadcaster = close_all new_broadcaster, the_fanout = None, server_loop = None, scheduled = [],
         sigterm = Installed ''uvicorn'', sigint = Default_handler\<rparr> in
     run_handler True (sigterm m') = [Schedule_close_all, Call ''uvicorn'']
     \<and> run_handler True (sigint m') = [Schedule_close_all]
     \<and> sse_broadcaster m' = reopen (close_all new_broadcaster)"
  using shutdown_handlers_never_stack [of "\<lparr>sse_broadcaster = close_all new_broadcaster, the_fanout = None, server_loop = None,
      scheduled = [], sigterm = Installed ''uvicorn'', sigint = Default_handler\<rparr>" 1]
  by simp

end
