(* ===== verification/Access_Control.thy ===== *)
theory Access_Control
  imports Py_Json
begin

text \<open>
  Who may call what: the roles of \<open>src/src/services/identity_manager/rbac.py\<close> and the verifier of
  \<open>authverifierbase.py\<close> with its database and no-auth variants.  A raised exception is an
  \<open>auth_error\<close>.  The hash of an API key and the decoder of JWT tokens are parameters; the tables
  a verifier reads and writes are lists of rows, the first match being the one a query returns.
\<close>

section \<open>Roles\<close>

datatype auth_error = Http nat string | Other_error string

datatype role_class = SuperAdmin | Admin | Noc | Editor | Viewer | Webhook

fun role_name :: "role_class \<Rightarrow> string" where
  "role_name SuperAdmin = ''superadmin''"
| "role_name Admin = ''admin''"
| "role_name Noc = ''noc''"
| "role_name Editor = ''editor''"
| "role_name Viewer = ''viewer''"
| "role_name Webhook = ''webhook''"

fun role_scopes :: "role_class \<Rightarrow> string list" where
  "role_scopes Noc = [''read:*'']"
| "role_scopes Viewer = [''read:*'']"
| "role_scopes Editor = [''read:*'', ''write:*'', ''delete:*'', ''update:*'', ''execute:*'']"
| "role_scopes Admin = [''read:*'', ''write:*'', ''delete:*'', ''update:*'', ''execute:*'']"
| "role_scopes SuperAdmin = [''read:*'', ''write:*'', ''delete:*'', ''update:*'', ''execute:*'', ''create:*'']"
| "role_scopes Webhook = [''write:alert'', ''write:incident'']"

definition scope_available :: "string list \<Rightarrow> string \<Rightarrow> bool" where
  "scope_available available scope =
     (scope \<in> set available \<or>
      (case py_split (CHR '':'') scope of
         [action, resource] \<Rightarrow> action @ '':*'' \<in> set available
       | _ \<Rightarrow> False))"

definition has_scopes :: "role_class \<Rightarrow> string list \<Rightarrow> bool" where
  "has_scopes r scopes = list_all (scope_available (role_scopes r)) (remdups scopes)"

definition get_role_by_role_name :: "string option \<Rightarrow> auth_error + role_class" where
  "get_role_by_role_name name =
     (if name = Some ''superadmin'' then Inr SuperAdmin
      else if name = Some ''admin'' then Inr Admin
      else if name = Some ''noc'' then Inr Noc
      else if name = Some ''editor'' then Inr Editor
      else if name = Some ''viewer'' then Inr Viewer
      else if name = Some ''webhook'' then Inr Webhook
      else Inl (Http 403 (''Role '' @ (case name of None \<Rightarrow> ''None'' | Some n \<Rightarrow> n) @ '' not found'')))"

lemma role_names: "get_role_by_role_name (Some (role_name r)) = Inr r"
  by (cases r) (simp_all add: get_role_by_role_name_def)

section \<open>The verifier\<close>

record entity =
  tenant_id :: string
  email :: string
  api_key_name :: "string option"
  role :: "string option"

record auth_env =
  env_impersonation_enabled :: string
  env_user_header :: string
  env_role_header :: string
  env_auto_provision :: string
  env_read_only :: string
  env_bypass_key :: string

record verifier =
  scopes :: "string list"
  impersonation_enabled :: bool
  impersonation_user_header :: string
  impersonation_role_header :: string
  impersonation_auto_provision :: bool
  read_only :: bool
  read_only_bypass_keys :: "string list"

record api_key_row =
  row_tenant :: string
  row_reference :: string
  row_hash :: string
  row_deleted :: bool
  row_created_by :: string
  row_role :: string
  row_last_used :: "int option"

text \<open>
  What a request changes: the table of API keys, the verifier's cache of their last updates, the
  users (tenant, name, role and last sign-in), and the resources that all verifiers have named.
\<close>

record auth_state =
  api_keys :: "api_key_row list"
  key_last_used_updates :: "(string, int) pydict"
  users :: "(string \<times> string \<times> string \<times> int option) list"

definition all_resources_update :: "string list \<Rightarrow> string list \<Rightarrow> auth_error + string list" where
  "all_resources_update scs resources =
     rbind (traverse (\<lambda>s. case py_split (CHR '':'') s of _ # r # _ \<Rightarrow> Inr r | _ \<Rightarrow> Inl (Other_error ''IndexError'')) scs)
       (\<lambda>rs. Inr (fold (\<lambda>r acc. if r \<in> set acc then acc else acc @ [r]) rs resources))"

definition get_all_scopes :: "string list \<Rightarrow> string list" where
  "get_all_scopes resources =
     concat (map (\<lambda>r. map (\<lambda>a. a @ CHR '':'' # r) [''read'', ''write'', ''delete'', ''update'']) resources)"

definition verifier_init :: "auth_env \<Rightarrow> string list \<Rightarrow> string list \<Rightarrow> auth_error + verifier \<times> string list" where
  "verifier_init env scs resources =
     rbind (all_resources_update scs resources) (\<lambda>resources'.
       let v = \<lparr>scopes = scs,
            impersonation_enabled = (env_impersonation_enabled env = ''true''),
            impersonation_user_header = env_user_header env,
            impersonation_role_header = env_role_header env,
            impersonation_auto_provision = (env_auto_provision env = ''true''),
            read_only = (env_read_only env = ''true''),
            read_only_bypass_keys = py_split (CHR '','') (env_bypass_key env)\<rparr>
       in if read_only v \<and> read_only_bypass_keys v = []
          then Inl (Other_error ''ValueError'') else Inr (v, resources'))"

text \<open>A request: its headers by lower-case name, its query parameters and its path.\<close>

record http_request =
  headers :: "string \<Rightarrow> string option"
  query_params :: "string \<Rightarrow> string option"
  url_path :: string

definition header :: "http_request \<Rightarrow> string \<Rightarrow> string option" where
  "header rq h = headers rq (py_lower h)"

definition given :: "string option \<Rightarrow> bool" where
  "given s = (s \<noteq> None \<and> s \<noteq> Some [])"

datatype extracted = Key "string option" | Unauthenticated entity

text \<open>\<open>_extract_api_key\<close>; the HTTP basic credentials are given by their password.\<close>

definition extract_api_key ::
  "bool \<Rightarrow> http_request \<Rightarrow> string option \<Rightarrow> string option \<Rightarrow> auth_error + extracted" where
  "extract_api_key disable_cloudwatch_key rq api_key authorization =
     (let k = (if given api_key then api_key else query_params rq ''api_key'') in
      if given k then Inr (Key k)
      else if authorization = None \<and>
         py_in ''Amazon Simple Notification Service Agent'' (case header rq ''user-agent'' of None \<Rightarrow> [] | Some u \<Rightarrow> u)
      then (if disable_cloudwatch_key \<and> suffixed ''/alerts/event/cloudwatch'' (url_path rq)
            then Inr (Unauthenticated \<lparr>tenant_id = (case query_params rq ''tenant_id'' of None \<Rightarrow> ''keep'' | Some t \<Rightarrow> t),
                   email = ''system'', api_key_name = Some ''webhook'', role = Some ''webhook''\<rparr>)
            else Inl (Http 401 ''Missing API Key''))
      else (case header rq ''Authorization'' of
          None \<Rightarrow> Inl (Http 401 ''Missing API Key'')
        | Some h \<Rightarrow>
            let scheme = takeWhile (\<lambda>c. c \<noteq> CHR '' '') h; credentials = tl (dropWhile (\<lambda>c. c \<noteq> CHR '' '') h) in
            if py_lower scheme = ''basic'' then
              (case authorization of None \<Rightarrow> Inl (Other_error ''AttributeError'') | Some p \<Rightarrow> Inr (Key (Some p)))
            else if py_lower scheme = ''digest'' then
              (if credentials = [] then Inl (Http 403 ''Invalid Digest credentials'') else Inr (Key (Some credentials)))
            else Inl (Http 401 ''Missing API Key'')))"

definition get_api_key :: "(string \<Rightarrow> string) \<Rightarrow> string \<Rightarrow> auth_state \<Rightarrow> api_key_row option" where
  "get_api_key digest k st = find (\<lambda>r. row_hash r = digest k \<and> \<not> row_deleted r) (api_keys st)"

fun set_last_used :: "string \<Rightarrow> string \<Rightarrow> int \<Rightarrow> api_key_row list \<Rightarrow> api_key_row list" where
  "set_last_used t ref now [] = []"
| "set_last_used t ref now (r # rs) =
     (if row_reference r = ref \<and> row_tenant r = t then r\<lparr>row_last_used := Some now\<rparr> # rs
      else r # set_last_used t ref now rs)"

definition update_key_last_used :: "string \<Rightarrow> string \<Rightarrow> int \<Rightarrow> auth_state \<Rightarrow> auth_state" where
  "update_key_last_used t ref now st = st\<lparr>api_keys := set_last_used t ref now (api_keys st)\<rparr>"

text \<open>The block of \<open>_verify_api_key\<close> that keeps the time of the last use.\<close>

definition touch_key :: "int \<Rightarrow> api_key_row \<Rightarrow> auth_state \<Rightarrow> auth_state" where
  "touch_key now r st =
     (let k = row_tenant r @ CHR '':'' # row_reference r in
      if dict_get (key_last_used_updates st) k \<noteq> None then st
      else (update_key_last_used (row_tenant r) (row_reference r) now st)
             \<lparr>key_last_used_updates := dict_set k now (key_last_used_updates st)\<rparr>)"

type_synonym provisioner = "string \<Rightarrow> string \<Rightarrow> string \<Rightarrow> auth_state \<Rightarrow> auth_error + auth_state"

definition base_provision_user :: provisioner where
  "base_provision_user t u r st = Inl (Other_error ''NotImplementedError'')"

definition user_exists :: "string \<Rightarrow> string \<Rightarrow> auth_state \<Rightarrow> bool" where
  "user_exists t u st = list_ex (\<lambda>(t', u', _). t' = t \<and> u' = u) (users st)"

text \<open>User names are unique, over all tenants.\<close>

definition create_user :: "string \<Rightarrow> string \<Rightarrow> string \<Rightarrow> auth_state \<Rightarrow> auth_error + auth_state" where
  "create_user t u r st =
     (if u \<in> (fst \<circ> snd) ` set (users st) then Inl (Other_error ''IntegrityError'')
      else Inr (st\<lparr>users := users st @ [(t, u, r, None)]\<rparr>))"

definition db_provision_user :: provisioner where
  "db_provision_user t u r st = (if user_exists t u st then Inr st else create_user t u r st)"

definition row_entity :: "api_key_row \<Rightarrow> entity" where
  "row_entity r = \<lparr>tenant_id = row_tenant r, email = row_created_by r, api_key_name = Some (row_reference r),
     role = Some (row_role r)\<rparr>"

definition verify_api_key ::
  "(string \<Rightarrow> string) \<Rightarrow> provisioner \<Rightarrow> verifier \<Rightarrow> int \<Rightarrow> http_request \<Rightarrow> string \<Rightarrow> auth_state
    \<Rightarrow> (auth_error + entity) \<times> auth_state" where
  "verify_api_key digest provision v now rq k st =
     (case get_api_key digest k st of
        None \<Rightarrow> (Inl (Http 401 ''Invalid API Key''), st)
      | Some r \<Rightarrow>
          let st' = touch_key now r st in
          if \<not> impersonation_enabled v then (Inr (row_entity r), st')
          else (case (header rq (impersonation_user_header v), header rq (impersonation_role_header v)) of
              (Some u, Some rl) \<Rightarrow>
                if u = [] \<or> rl = [] then (Inr (row_entity r), st')
                else if row_role r \<noteq> role_name Admin
                then (Inl (Http 401 ''Impersonation not allowed for non-admin users''), st')
                else
                  (let e = \<lparr>tenant_id = row_tenant r, email = u, api_key_name = None, role = Some rl\<rparr> in
                   if impersonation_auto_provision v
                   then (case provision (row_tenant r) u rl st' of
                       Inl err \<Rightarrow> (Inl err, st') | Inr st'' \<Rightarrow> (Inr e, st''))
                   else (Inr e, st'))
            | _ \<Rightarrow> (Inr (row_entity r), st')))"

text \<open>
  The settings of the two classes that override more than the verification of a token: the OAuth2
  proxy's (headers, roles and whether users are created), which authenticates on its own, and
  Keycloak's, which authorizes on its own.  Keycloak's permission check is a parameter: of a token, a
  resource and a scope, it answers or raises an exception with a text.
\<close>

record oauth2_proxy =
  oauth2_proxy_user_header :: string
  oauth2_proxy_role_header :: string
  auto_create_user :: bool
  proxy_admin_role :: string
  proxy_noc_role :: string
  proxy_webhook_role :: string

record keycloak =
  keycloak_multi_org :: bool
  protected_resource :: "string option"
  permissions_check :: "string \<Rightarrow> string option \<Rightarrow> string \<Rightarrow> string + bool"

text \<open>The operations a verifier class overrides.\<close>

record verifier_class =
  verify_bearer_token :: "verifier \<Rightarrow> string \<Rightarrow> auth_error + entity"
  verify_key :: "verifier \<Rightarrow> int \<Rightarrow> http_request \<Rightarrow> string \<Rightarrow> auth_state \<Rightarrow> (auth_error + entity) \<times> auth_state"
  own_authentication :: "oauth2_proxy option"
  own_authorization :: "keycloak option"

definition base_verifier :: "(string \<Rightarrow> string) \<Rightarrow> verifier_class" where
  "base_verifier digest = \<lparr>verify_bearer_token = (\<lambda>v tok. Inl (Other_error ''NotImplementedError'')),
     verify_key = verify_api_key digest base_provision_user, own_authentication = None, own_authorization = None\<rparr>"

text \<open>The claims of a decoded token that the database verifier reads.\<close>

record jwt_claims =
  claim_tenant :: "string option"
  claim_email :: "string option"
  claim_role :: "string option"

definition db_verify_bearer_token :: "(string \<Rightarrow> jwt_claims option) \<Rightarrow> verifier \<Rightarrow> string \<Rightarrow> auth_error + entity" where
  "db_verify_bearer_token decode v tok =
     (case decode tok of
        None \<Rightarrow> Inl (Http 401 ''Invalid JWT token'')
      | Some c \<Rightarrow>
          let name = (case claim_role c of None \<Rightarrow> role_name Admin | Some n \<Rightarrow> n) in
          (case get_role_by_role_name (Some name) of
             Inl _ \<Rightarrow> Inl (Http 401 ''Invalid JWT token'')
           | Inr r \<Rightarrow>
               if \<not> has_scopes r (scopes v)
               then Inl (Http 403 ''You don't have the required permissions to access this resource'')
               else (case (claim_tenant c, claim_email c) of
                   (Some t, Some em) \<Rightarrow> Inr \<lparr>tenant_id = t, email = em, api_key_name = None, role = Some name\<rparr>
                 | _ \<Rightarrow> Inl (Other_error ''ValidationError''))))"

definition db_verifier :: "(string \<Rightarrow> string) \<Rightarrow> (string \<Rightarrow> jwt_claims option) \<Rightarrow> verifier_class" where
  "db_verifier digest decode = \<lparr>verify_bearer_token = db_verify_bearer_token decode,
     verify_key = verify_api_key digest db_provision_user, own_authentication = None, own_authorization = None\<rparr>"


text \<open>The no-auth verifier: whoever comes is an admin, of the tenant the token or key names.\<close>

definition noauth_entity :: "string \<Rightarrow> string \<Rightarrow> entity" where
  "noauth_entity t em = \<lparr>tenant_id = t, email = em, api_key_name = None, role = Some (role_name Admin)\<rparr>"

definition generic_tenant_uuid :: string where "generic_tenant_uuid = ''keep''"

definition single_tenant_email :: string where "single_tenant_email = ''admin@keephq''"

text \<open>\<open>x or default\<close> on a decoded value, then the string pydantic makes of it.\<close>

fun json_falsy :: "json \<Rightarrow> bool" where
  "json_falsy JNull = True"
| "json_falsy (JBool b) = (\<not> b)"
| "json_falsy (JInt i) = (i = 0)"
| "json_falsy (JFloat t) = list_all (\<lambda>c. c \<in> set ''-0.'') (takeWhile (\<lambda>c. c \<noteq> CHR ''e'' \<and> c \<noteq> CHR ''E'') t)"
| "json_falsy (JStr s) = (s = [])"
| "json_falsy (JList vs) = (vs = [])"
| "json_falsy (JObj kvs) = (kvs = [])"
| "json_falsy (JOther s) = False"

fun json_as_str :: "json \<Rightarrow> string option" where
  "json_as_str (JStr s) = Some s"
| "json_as_str (JInt i) = Some (int_str i)"
| "json_as_str (JBool b) = Some (if b then ''True'' else ''False'')"
| "json_as_str (JFloat t) = Some t"
| "json_as_str _ = None"

definition json_or :: "json \<Rightarrow> string \<Rightarrow> string option" where
  "json_or v d = (if json_falsy v then Some d else json_as_str v)"

definition noauth_parse :: "string \<Rightarrow> entity option" where
  "noauth_parse tok =
     (if prefixed ''keepActiveTenant'' tok then
        (case py_split (CHR ''&'') tok of
           [active, _] \<Rightarrow>
             (case py_split (CHR ''='') active of
                _ # t # _ \<Rightarrow> Some (noauth_entity (if t = [] then generic_tenant_uuid else t) single_tenant_email)
              | _ \<Rightarrow> None)
         | _ \<Rightarrow> None)
      else
        (case json_loads tok of
           Some (JObj kvs) \<Rightarrow>
             (case (dict_get kvs ''tenant_id'', dict_get kvs ''user_id'') of
                (Some t, Some u) \<Rightarrow>
                  (case (json_or t generic_tenant_uuid, json_or u single_tenant_email) of
                     (Some t', Some u') \<Rightarrow> Some (noauth_entity t' u')
                   | _ \<Rightarrow> None)
              | _ \<Rightarrow> None)
         | _ \<Rightarrow> None))"

definition noauth_verify_bearer_token :: "verifier \<Rightarrow> string \<Rightarrow> auth_error + entity" where
  "noauth_verify_bearer_token v tok =
     Inr (case noauth_parse tok of None \<Rightarrow> noauth_entity generic_tenant_uuid single_tenant_email | Some e \<Rightarrow> e)"

definition noauth_verify_api_key ::
  "(string \<Rightarrow> string) \<Rightarrow> verifier \<Rightarrow> int \<Rightarrow> http_request \<Rightarrow> string \<Rightarrow> auth_state \<Rightarrow> (auth_error + entity) \<times> auth_state" where
  "noauth_verify_api_key digest v now rq k st =
     (Inr (noauth_entity (case get_api_key digest k st of None \<Rightarrow> generic_tenant_uuid | Some r \<Rightarrow> row_tenant r)
        single_tenant_email), st)"

definition noauth_verifier :: "(string \<Rightarrow> string) \<Rightarrow> verifier_class" where
  "noauth_verifier digest = \<lparr>verify_bearer_token = noauth_verify_bearer_token, verify_key = noauth_verify_api_key digest,
     own_authentication = None, own_authorization = None\<rparr>"

text \<open>
  The other classes: Okta's and OneLogin's verifiers replace the verification of tokens alone, which
  is a parameter here as theirs and Keycloak's rest on their services.
\<close>

definition token_verifier :: "(string \<Rightarrow> string) \<Rightarrow> (string \<Rightarrow> auth_error + entity) \<Rightarrow> verifier_class" where
  "token_verifier digest bearer = (base_verifier digest)\<lparr>verify_bearer_token := (\<lambda>v. bearer)\<rparr>"

definition keycloak_verifier ::
  "(string \<Rightarrow> string) \<Rightarrow> (string \<Rightarrow> auth_error + entity) \<Rightarrow> keycloak \<Rightarrow> verifier_class" where
  "keycloak_verifier digest bearer k = (token_verifier digest bearer)\<lparr>own_authorization := Some k\<rparr>"

definition oauth2proxy_verifier :: "(string \<Rightarrow> string) \<Rightarrow> oauth2_proxy \<Rightarrow> verifier_class" where
  "oauth2proxy_verifier digest proxy = (base_verifier digest)\<lparr>own_authentication := Some proxy\<rparr>"

text \<open>Anything but an \<open>HTTPException\<close> that a verification raises becomes a 401.\<close>

definition as_unauthorized :: "auth_error + 'a \<Rightarrow> auth_error + 'a" where
  "as_unauthorized r = (case r of Inl (Other_error _) \<Rightarrow> Inl (Http 401 ''Invalid authentication credentials'') | _ \<Rightarrow> r)"

definition authenticate ::
  "verifier_class \<Rightarrow> bool \<Rightarrow> verifier \<Rightarrow> int \<Rightarrow> http_request \<Rightarrow> string option \<Rightarrow> string option \<Rightarrow> string option \<Rightarrow> auth_state
    \<Rightarrow> (auth_error + entity) \<times> auth_state" where
  "authenticate cls disable_cloudwatch_key v now rq api_key authorization tok st =
     (if given tok then (as_unauthorized (verify_bearer_token cls v (the tok)), st)
      else (case extract_api_key disable_cloudwatch_key rq api_key authorization of
          Inl err \<Rightarrow> (Inl err, st)
        | Inr (Unauthenticated e) \<Rightarrow> (Inr e, st)
        | Inr (Key k) \<Rightarrow>
            if given k then apfst as_unauthorized (verify_key cls v now rq (the k) st)
            else (Inl (Http 401 ''Missing authentication credentials''), st)))"

definition authorize :: "verifier \<Rightarrow> entity \<Rightarrow> auth_error + unit" where
  "authorize v e =
     rbind (get_role_by_role_name (role e)) (\<lambda>r.
       if has_scopes r (scopes v) then Inr ()
       else Inl (Http 403 ''You don't have the required scopes to access this resource''))"

text \<open>
  \<open>authenticate\<close> of the OAuth2 proxy's verifier.  A key or an \<open>Authorization\<close> header is tried first and
  whatever it raises is dropped; the cloudwatch entity in place of a key fails there.
  The role is the strongest of those the header names; a new user is created, a known one gets the
  role and the time of the sign-in.
\<close>

definition tried_key :: "(auth_error + extracted) \<Rightarrow> string option" where
  "tried_key r = (case r of Inr (Key k) \<Rightarrow> if given k then k else None | _ \<Rightarrow> None)"

definition role_mapping :: "oauth2_proxy \<Rightarrow> string \<Rightarrow> string" where
  "role_mapping proxy r =
     (if r = proxy_webhook_role proxy then ''webhook'' else if r = proxy_noc_role proxy then ''noc''
      else if r = proxy_admin_role proxy then ''admin'' else r)"

definition proxy_roles :: "string \<Rightarrow> string list" where
  "proxy_roles h = (if CHR '','' \<in> set h then map py_strip (py_split (CHR '','') h) else [h])"

definition proxy_role :: "oauth2_proxy \<Rightarrow> string \<Rightarrow> string option" where
  "proxy_role proxy h =
     find (\<lambda>p. p \<in> role_mapping proxy ` set (proxy_roles h)) [''admin'', ''noc'', ''webhook'']"

definition sign_in ::
  "string \<Rightarrow> string \<Rightarrow> string \<Rightarrow> int \<Rightarrow> string \<times> string \<times> string \<times> int option \<Rightarrow> string \<times> string \<times> string \<times> int option" where
  "sign_in t u r now = (\<lambda>(t', u', r', at). if t' = t \<and> u' = u then (t, u, r, Some now) else (t', u', r', at))"

definition proxy_user ::
  "oauth2_proxy \<Rightarrow> int \<Rightarrow> string \<Rightarrow> string \<Rightarrow> string \<Rightarrow> auth_state \<Rightarrow> auth_error + auth_state" where
  "proxy_user proxy now t u r st =
     (if user_exists t u st then Inr (st\<lparr>users := map (sign_in t u r now) (users st)\<rparr>)
      else if auto_create_user proxy then create_user t u r st
      else Inr st)"

definition oauth2proxy_authenticate ::
  "oauth2_proxy \<Rightarrow> verifier_class \<Rightarrow> bool \<Rightarrow> verifier \<Rightarrow> int \<Rightarrow> http_request \<Rightarrow> string option \<Rightarrow> string option \<Rightarrow> auth_state
    \<Rightarrow> (auth_error + entity) \<times> auth_state" where
  "oauth2proxy_authenticate proxy cls disable_cloudwatch_key v now rq api_key authorization st =
     (let tried = (if given api_key \<or> given (header rq ''Authorization'')
            then map_option (\<lambda>k. verify_key cls v now rq k st)
                   (tried_key (extract_api_key disable_cloudwatch_key rq api_key authorization))
            else None)
      in case tried of
           Some (Inr e, st') \<Rightarrow> (Inr e, st')
         | _ \<Rightarrow>
             let st' = (case tried of Some (_, s) \<Rightarrow> s | None \<Rightarrow> st);
                 user = header rq (oauth2_proxy_user_header proxy); rl = header rq (oauth2_proxy_role_header proxy) in
             if \<not> given user \<or> \<not> given rl then (Inl (Http 401 ''Unauthorized''), st')
             else (case proxy_role proxy (the rl) of
                 None \<Rightarrow> (Inl (Http 403 ''No valid role found''), st')
               | Some r \<Rightarrow>
                   (case proxy_user proxy now generic_tenant_uuid (the user) r st' of
                      Inl err \<Rightarrow> (Inl err, st')
                    | Inr st'' \<Rightarrow>
                        (Inr \<lparr>tenant_id = generic_tenant_uuid, email = the user, api_key_name = None, role = Some r\<rparr>, st''))))"

definition class_authenticate ::
  "verifier_class \<Rightarrow> bool \<Rightarrow> verifier \<Rightarrow> int \<Rightarrow> http_request \<Rightarrow> string option \<Rightarrow> string option \<Rightarrow> string option \<Rightarrow> auth_state
    \<Rightarrow> (auth_error + entity) \<times> auth_state" where
  "class_authenticate cls disable_cloudwatch_key v now rq api_key authorization tok st =
     (case own_authentication cls of
        None \<Rightarrow> authenticate cls disable_cloudwatch_key v now rq api_key authorization tok st
      | Some proxy \<Rightarrow> oauth2proxy_authenticate proxy cls disable_cloudwatch_key v now rq api_key authorization st)"

text \<open>
  \<open>_authorize\<close> of Keycloak's verifier: the roles' scopes when roles come from groups, and otherwise the
  server's permission for the protected resource and the first scope.  The entity carries the token
  of the request without the active tenant; one that came by an API key has none.
\<close>

definition keycloak_token :: "string \<Rightarrow> string" where
  "keycloak_token tok =
     (if prefixed ''keepActiveTenant'' tok
      then (case py_split (CHR ''&'') tok of [_, t] \<Rightarrow> t | _ \<Rightarrow> tok) else tok)"

definition permission_failed :: "string \<Rightarrow> auth_error + unit" where
  "permission_failed e = Inl (Http 403 (''Permission check failed - '' @ e))"

definition keycloak_authorize :: "keycloak \<Rightarrow> verifier \<Rightarrow> string option \<Rightarrow> entity \<Rightarrow> auth_error + unit" where
  "keycloak_authorize k v tok e =
     (if keycloak_multi_org k then authorize v e
      else case scopes v of
          [] \<Rightarrow> permission_failed ''list index out of range''
        | s # _ \<Rightarrow>
            if \<not> given tok then permission_failed ''object has no attribute token''
            else (case permissions_check k (keycloak_token (the tok)) (protected_resource k) s of
                Inl err \<Rightarrow> permission_failed err
              | Inr allowed \<Rightarrow> if allowed then Inr () else permission_failed ''403: Permission check failed''))"

definition class_authorize :: "verifier_class \<Rightarrow> verifier \<Rightarrow> string option \<Rightarrow> entity \<Rightarrow> auth_error + unit" where
  "class_authorize cls v tok e =
     (case own_authorization cls of None \<Rightarrow> authorize v e | Some k \<Rightarrow> keycloak_authorize k v tok e)"

definition read_only_refuses :: "verifier \<Rightarrow> string option \<Rightarrow> bool" where
  "read_only_refuses v api_key =
     (read_only v \<and> (case api_key of None \<Rightarrow> True | Some k \<Rightarrow> k \<notin> set (read_only_bypass_keys v))
      \<and> list_ex (\<lambda>s. hd (py_split (CHR '':'') s) \<noteq> ''read'') (scopes v))"

definition verifier_call ::
  "verifier_class \<Rightarrow> bool \<Rightarrow> verifier \<Rightarrow> int \<Rightarrow> http_request \<Rightarrow> string option \<Rightarrow> string option \<Rightarrow> string option \<Rightarrow> auth_state
    \<Rightarrow> (auth_error + entity) \<times> auth_state" where
  "verifier_call cls disable_cloudwatch_key v now rq api_key authorization tok st =
     (if read_only_refuses v api_key
      then (Inl (Http 403 ''Read only instance, but non-read scopes requested''), st)
      else (case class_authenticate cls disable_cloudwatch_key v now rq api_key authorization tok st of
          (Inl err, st') \<Rightarrow> (Inl err, st')
        | (Inr e, st') \<Rightarrow>
            (case class_authorize cls v tok e of Inl err \<Rightarrow> (Inl err, st') | Inr _ \<Rightarrow> (Inr e, st'))))"

section \<open>Scopes\<close>

definition permits :: "string \<Rightarrow> string \<Rightarrow> bool" where
  "permits p s \<longleftrightarrow> p = s \<or> (\<exists>action resource. p = action @ '':*'' \<and> s = action @ CHR '':'' # resource
     \<and> CHR '':'' \<notin> set action \<and> CHR '':'' \<notin> set resource)"

lemma py_split_chars: "w \<in> set (py_split c s) \<Longrightarrow> c \<notin> set w"
  by (induction s arbitrary: w) (auto split: list.splits if_splits)

lemma split_pair: "py_split c s = [a, b] \<longleftrightarrow> s = a @ c # b \<and> c \<notin> set a \<and> c \<notin> set b"
proof
  assume s: "py_split c s = [a, b]"
  have "s = py_join [c] [a, b]" using py_split_join [of c s] s by simp
  then show "s = a @ c # b \<and> c \<notin> set a \<and> c \<notin> set b" using py_split_chars [of _ c s] s by auto
next
  assume "s = a @ c # b \<and> c \<notin> set a \<and> c \<notin> set b"
  then show "py_split c s = [a, b]" by (simp add: py_split_append py_split_no_sep)
qed

lemma scope_available_permits: "scope_available available s \<longleftrightarrow> (\<exists>p \<in> set available. permits p s)"
proof -
  have "(case py_split (CHR '':'') s of [a, r] \<Rightarrow> a @ '':*'' \<in> set available | _ \<Rightarrow> False)
     \<longleftrightarrow> (\<exists>a r. py_split (CHR '':'') s = [a, r] \<and> a @ '':*'' \<in> set available)"
    by (auto split: list.splits)
  then show ?thesis
    unfolding scope_available_def permits_def split_pair by blast
qed

lemma has_scopes_iff: "has_scopes r ss \<longleftrightarrow> (\<forall>s \<in> set ss. scope_available (role_scopes r) s)"
  by (simp add: has_scopes_def list_all_iff)

lemma editor_scopes: "has_scopes Editor ss = has_scopes Admin ss"
  by (simp add: has_scopes_iff)


lemma role_by_name_Inr: "get_role_by_role_name n = Inr r \<Longrightarrow> n = Some (role_name r)"
  by (auto simp: get_role_by_role_name_def split: if_splits)

lemma authorize_Inr: "authorize v e = Inr u \<longleftrightarrow> (\<exists>r. role e = Some (role_name r) \<and> has_scopes r (scopes v))"
  using role_names role_by_name_Inr by (fastforce simp: authorize_def split: if_splits)

lemma call_admits:
  assumes "verifier_call cls dc v now rq api_key authorization tok st = (Inr e, st')"
  shows "\<not> read_only_refuses v api_key" and "class_authorize cls v tok e = Inr ()"
    and "class_authenticate cls dc v now rq api_key authorization tok st = (Inr e, st')"
  using assms unfolding verifier_call_def by (auto split: if_splits prod.splits sum.splits)

lemma class_authorize_Inr:
  "class_authorize cls v tok e = Inr () \<longleftrightarrow>
     (case own_authorization cls of
        None \<Rightarrow> authorize v e = Inr ()
      | Some k \<Rightarrow> if keycloak_multi_org k then authorize v e = Inr ()
          else \<exists>t s ss. scopes v = s # ss \<and> tok = Some t \<and> t \<noteq> []
            \<and> permissions_check k (keycloak_token t) (protected_resource k) s = Inr True)"
  by (auto simp: class_authorize_def keycloak_authorize_def permission_failed_def given_def
      split: option.splits list.splits sum.splits if_splits)

text \<open>Touching a key changes no row but for the time of its last use.\<close>

definition same_row :: "api_key_row \<Rightarrow> api_key_row \<Rightarrow> bool" where
  "same_row r r' \<longleftrightarrow> r' = r\<lparr>row_last_used := row_last_used r'\<rparr>"

lemma same_row_refl: "same_row r r"
  by (simp add: same_row_def)

lemma same_row_fields:
  assumes "same_row r r'"
  shows "row_tenant r' = row_tenant r" and "row_reference r' = row_reference r" and "row_hash r' = row_hash r"
    and "row_deleted r' = row_deleted r"
  using assms unfolding same_row_def by (cases r; cases r'; simp)+

lemma set_last_used_rows: "list_all2 same_row rs (set_last_used t ref now rs)"
  by (induction rs) (auto simp: same_row_refl same_row_def list.rel_refl)

lemma find_same_row:
  "list_all2 same_row rs rs' \<Longrightarrow> find (\<lambda>r. row_hash r = h \<and> \<not> row_deleted r) rs = Some r \<Longrightarrow>
   \<exists>r'. find (\<lambda>r. row_hash r = h \<and> \<not> row_deleted r) rs' = Some r' \<and> same_row r r'"
proof (induction rule: list_all2_induct)
  case (Cons x xs y ys)
  then show ?case using same_row_fields [OF Cons.hyps(1)] by (auto split: if_splits)
qed simp

lemma touched_key:
  assumes "get_api_key digest k st = Some r"
  shows "\<exists>r'. get_api_key digest k (touch_key now r st) = Some r' \<and> same_row r r'"
proof (cases "dict_get (key_last_used_updates st) (row_tenant r @ CHR '':'' # row_reference r)")
  case None
  then show ?thesis
    using find_same_row [OF set_last_used_rows] assms
    by (auto simp: get_api_key_def touch_key_def update_key_last_used_def)
next
  case (Some t)
  then show ?thesis using assms same_row_refl by (simp add: touch_key_def)
qed

lemma touched_cache: "dict_get (key_last_used_updates (touch_key now r st)) (row_tenant r @ CHR '':'' # row_reference r) \<noteq> None"
  by (simp add: touch_key_def pd.get_set Let_def)

lemma cached_key_untouched:
  "dict_get (key_last_used_updates st) (row_tenant r @ CHR '':'' # row_reference r) \<noteq> None \<Longrightarrow> touch_key now r st = st"
  by (simp add: touch_key_def)

text \<open>What a verification leaves of the keys is what \<open>touch_key\<close> does.\<close>

definition keeps_keys :: "provisioner \<Rightarrow> bool" where
  "keeps_keys pr \<longleftrightarrow> (\<forall>t u r st st'. pr t u r st = Inr st' \<longrightarrow>
     api_keys st' = api_keys st \<and> key_last_used_updates st' = key_last_used_updates st)"

lemma provisioners_keep_keys: "keeps_keys base_provision_user" "keeps_keys db_provision_user"
  by (auto simp: keeps_keys_def base_provision_user_def db_provision_user_def create_user_def)

lemma verified_keys:
  assumes "keeps_keys pr" and "get_api_key digest k st = Some r"
  shows "api_keys (snd (verify_api_key digest pr v now rq k st)) = api_keys (touch_key now r st)"
    and "key_last_used_updates (snd (verify_api_key digest pr v now rq k st)) = key_last_used_updates (touch_key now r st)"
  using assms by (auto simp: verify_api_key_def Let_def keeps_keys_def split: option.splits sum.splits)

section \<open>Properties\<close>

text \<open>
  C3: Whoever a verifier lets through has a known role, and each scope the endpoint asks for is
  one of that role's scopes or covered by its wildcard for the action; this for every verifier class
  but Keycloak's without roles from groups, whose server has granted the token its permission for
  the first of the scopes.  On a read-only instance the endpoint asks for read scopes only, unless
  the API key is a bypass key.
\<close>

theorem admitted_requests_have_their_scopes:
  assumes "verifier_call cls dc v now rq api_key authorization tok st = (Inr e, st')"
  shows "(case own_authorization cls of
       Some k \<Rightarrow>
         if keycloak_multi_org k
         then \<exists>r. role e = Some (role_name r) \<and> (\<forall>s \<in> set (scopes v). \<exists>p \<in> set (role_scopes r). permits p s)
         else \<exists>t s ss. tok = Some t \<and> scopes v = s # ss
           \<and> permissions_check k (keycloak_token t) (protected_resource k) s = Inr True
     | None \<Rightarrow> \<exists>r. role e = Some (role_name r) \<and> (\<forall>s \<in> set (scopes v). \<exists>p \<in> set (role_scopes r). permits p s))
     \<and> (read_only v \<longrightarrow> (\<exists>k. api_key = Some k \<and> k \<in> set (read_only_bypass_keys v))
          \<or> (\<forall>s \<in> set (scopes v). hd (py_split (CHR '':'') s) = ''read''))"
proof (rule conjI)
  have covered: "\<exists>r. role e = Some (role_name r) \<and> (\<forall>s \<in> set (scopes v). \<exists>p \<in> set (role_scopes r). permits p s)"
    if "authorize v e = Inr ()"
    using that unfolding authorize_Inr has_scopes_iff scope_available_permits .
  show "case own_authorization cls of
       Some k \<Rightarrow>
         if keycloak_multi_org k
         then \<exists>r. role e = Some (role_name r) \<and> (\<forall>s \<in> set (scopes v). \<exists>p \<in> set (role_scopes r). permits p s)
         else \<exists>t s ss. tok = Some t \<and> scopes v = s # ss
           \<and> permissions_check k (keycloak_token t) (protected_resource k) s = Inr True
     | None \<Rightarrow> \<exists>r. role e = Some (role_name r) \<and> (\<forall>s \<in> set (scopes v). \<exists>p \<in> set (role_scopes r). permits p s)"
    using call_admits(2) [OF assms] covered unfolding class_authorize_Inr by (auto split: option.splits if_splits)
  from call_admits(1) [OF assms]
  show "read_only v \<longrightarrow> (\<exists>k. api_key = Some k \<and> k \<in> set (read_only_bypass_keys v))
          \<or> (\<forall>s \<in> set (scopes v). hd (py_split (CHR '':'') s) = ''read'')"
    by (auto simp: read_only_refuses_def list_ex_iff split: option.splits)
qed

definition sample_verifier :: "string list \<Rightarrow> verifier" where
  "sample_verifier scs = \<lparr>scopes = scs, impersonation_enabled = True, impersonation_user_header = ''X-KEEP-USER'',
     impersonation_role_header = ''X-KEEP-ROLE'', impersonation_auto_provision = False, read_only = False,
     read_only_bypass_keys = [[]]\<rparr>"

definition sample_request :: "(string \<times> string) list \<Rightarrow> http_request" where
  "sample_request hs = \<lparr>headers = map_of hs, query_params = (\<lambda>_. None), url_path = ''/alerts''\<rparr>"

definition sample_state :: "string \<Rightarrow> auth_state" where
  "sample_state rl = \<lparr>api_keys = [\<lparr>row_tenant = ''t'', row_reference = ''cli'', row_hash = ''H'', row_deleted = False,
     row_created_by = ''me'', row_role = rl, row_last_used = None\<rparr>], key_last_used_updates = [], users = []\<rparr>"

definition sample_keycloak :: keycloak where
  "sample_keycloak = \<lparr>keycloak_multi_org = False, protected_resource = Some ''alerts'',
     permissions_check = (\<lambda>t r s. Inr (t = ''jwt'' \<and> s = ''write:alert''))\<rparr>"

definition sample_token_entity :: "string \<Rightarrow> entity" where
  "sample_token_entity rl = \<lparr>tenant_id = ''t'', email = ''me'', api_key_name = None, role = Some rl\<rparr>"

definition sample_key_entity :: entity where
  "sample_key_entity = \<lparr>tenant_id = ''t'', email = ''me'', api_key_name = Some ''cli'', role = Some ''webhook''\<rparr>"

text \<open>An API key at the base's verifier, and a token at Keycloak's with the second scope unchecked.\<close>

theorem admitted_requests_have_their_scopes_witness:
  "(\<exists>r. role sample_key_entity = Some (role_name r)
     \<and> (\<forall>s \<in> set (scopes (sample_verifier [''write:alert''])). \<exists>p \<in> set (role_scopes r). permits p s))
   \<and> (\<exists>t s ss. Some ''keepActiveTenant=t&jwt'' = Some t \<and> scopes (sample_verifier [''write:alert'', ''delete:alert'']) = s # ss
     \<and> permissions_check sample_keycloak (keycloak_token t) (protected_resource sample_keycloak) s = Inr True)"
proof (rule conjI)
  let ?call = "verifier_call (base_verifier (\<lambda>_. ''H'')) False (sample_verifier [''write:alert'']) 7 (sample_request []) (Some ''secret'') None None
      (sample_state ''webhook'')"
  have "fst ?call = Inr sample_key_entity" by code_simp
  then have call: "?call = (Inr sample_key_entity, snd ?call)" by (simp add: prod_eq_iff)
  show "\<exists>r. role sample_key_entity = Some (role_name r)
     \<and> (\<forall>s \<in> set (scopes (sample_verifier [''write:alert''])). \<exists>p \<in> set (role_scopes r). permits p s)"
    using admitted_requests_have_their_scopes [OF call] by (simp add: base_verifier_def)
next
  let ?call = "verifier_call (keycloak_verifier (\<lambda>_. ''H'') (\<lambda>_. Inr (sample_token_entity ''viewer'')) sample_keycloak) False
      (sample_verifier [''write:alert'', ''delete:alert'']) 7 (sample_request []) None None (Some ''keepActiveTenant=t&jwt'') (sample_state ''webhook'')"
  have "fst ?call = Inr (sample_token_entity ''viewer'')" by code_simp
  then have call: "?call = (Inr (sample_token_entity ''viewer''), snd ?call)" by (simp add: prod_eq_iff)
  show "\<exists>t s ss. Some ''keepActiveTenant=t&jwt'' = Some t \<and> scopes (sample_verifier [''write:alert'', ''delete:alert'']) = s # ss
     \<and> permissions_check sample_keycloak (keycloak_token t) (protected_resource sample_keycloak) s = Inr True"
    using admitted_requests_have_their_scopes [OF call]
    by (simp add: keycloak_verifier_def sample_keycloak_def)
qed

text \<open>
  Keycloak's verifier without roles from groups never looks at the role: an endpoint that asks for
  several scopes is open to a token with a permission for the first one, and an endpoint that asks
  for none, or a caller with an API key, is refused.
\<close>

theorem keycloak_checks_the_first_scope:
  assumes "own_authorization cls = Some k" and "\<not> keycloak_multi_org k"
  shows "scopes v = s # ss \<Longrightarrow> scopes v' = s # ss' \<Longrightarrow> class_authorize cls v tok e = class_authorize cls v' tok e'"
    and "scopes v = [] \<or> tok = None \<Longrightarrow> class_authorize cls v tok e \<noteq> Inr ()"
  using assms by (auto simp: class_authorize_def keycloak_authorize_def permission_failed_def given_def split: list.splits)

theorem keycloak_checks_the_first_scope_witness:
  "class_authorize (keycloak_verifier digest bearer sample_keycloak) (sample_verifier [''write:alert'']) tok (sample_token_entity ''viewer'')
     = class_authorize (keycloak_verifier digest bearer sample_keycloak) (sample_verifier [''write:alert'', ''delete:alert'']) tok (sample_token_entity ''admin'')
   \<and> class_authorize (keycloak_verifier digest bearer sample_keycloak) (sample_verifier []) tok (sample_token_entity ''admin'') \<noteq> Inr ()"
proof -
  have k: "own_authorization (keycloak_verifier digest bearer sample_keycloak) = Some sample_keycloak"
    "\<not> keycloak_multi_org sample_keycloak" by (simp_all add: keycloak_verifier_def sample_keycloak_def)
  show ?thesis
    using keycloak_checks_the_first_scope(1) [OF k, of "sample_verifier [''write:alert'']" "''write:alert''" "[]"
        "sample_verifier [''write:alert'', ''delete:alert'']" "[''delete:alert'']"]
      keycloak_checks_the_first_scope(2) [OF k, of "sample_verifier []"]
    by (simp add: sample_verifier_def)
qed

text \<open>
  Behind an OAuth2 proxy whoever sets the headers is whoever they name: a wrong API key does not
  refuse the request.  A role setting left empty is a role name too: a header that is only a comma
  names it.
\<close>

lemma empty_role_is_webhook:
  "proxy_webhook_role proxy = [] \<Longrightarrow> proxy_role proxy '','' = Some ''webhook''"
  by (simp add: proxy_role_def proxy_roles_def role_mapping_def py_strip_def)

theorem proxy_headers_authenticate:
  assumes "own_authentication cls = Some proxy" and "given (header rq (oauth2_proxy_user_header proxy))"
    and "given (header rq (oauth2_proxy_role_header proxy))"
    and "proxy_role proxy (the (header rq (oauth2_proxy_role_header proxy))) = Some r"
    and "\<And>k. fst (verify_key cls v now rq k st) = Inl (err k) \<and> snd (verify_key cls v now rq k st) = st"
    and "user_exists generic_tenant_uuid (the (header rq (oauth2_proxy_user_header proxy))) st"
  shows "fst (class_authenticate cls dc v now rq api_key authorization tok st)
    = Inr \<lparr>tenant_id = generic_tenant_uuid, email = the (header rq (oauth2_proxy_user_header proxy)),
        api_key_name = None, role = Some r\<rparr>"
proof -
  have failed: "verify_key cls v now rq k st = (Inl (err k), st)" for k using assms(5) [of k] by (simp add: prod_eq_iff)
  show ?thesis
    using assms(1-4,6) by (auto simp: class_authenticate_def oauth2proxy_authenticate_def Let_def failed proxy_user_def split: option.splits)
qed

text \<open>
  The roles are nested: viewers and NOC users have the same scopes, editors have theirs and
  exactly those of admins, and a superadmin has all of an admin's.
\<close>

theorem roles_are_nested:
  "has_scopes Noc ss = has_scopes Viewer ss \<and> (has_scopes Viewer ss \<longrightarrow> has_scopes Editor ss)
   \<and> has_scopes Editor ss = has_scopes Admin ss \<and> (has_scopes Admin ss \<longrightarrow> has_scopes SuperAdmin ss)"
  unfolding has_scopes_iff scope_available_permits by auto

theorem roles_are_nested_witness:
  "has_scopes Editor [''read:alert''] \<and> has_scopes SuperAdmin [''write:alert'', ''read:rules'']"
proof -
  have "has_scopes Viewer [''read:alert'']" "has_scopes Admin [''write:alert'', ''read:rules'']" by code_simp+
  then show ?thesis using roles_are_nested by blast
qed

text \<open>
  The time of an API key's last use is written once: after its first verification no later
  one changes the table of keys again, however much time has passed.
\<close>

theorem last_use_is_written_once:
  assumes "keeps_keys pr" and "get_api_key digest k st = Some r"
    and "st' = snd (verify_api_key digest pr v now rq k st)"
  shows "api_keys (snd (verify_api_key digest pr v later rq' k st')) = api_keys st'"
proof -
  note v = verified_keys [OF assms(1,2), of v now rq, folded assms(3)]
  obtain r' where r': "get_api_key digest k (touch_key now r st) = Some r'" "same_row r r'"
    using touched_key [OF assms(2)] by blast
  then have g: "get_api_key digest k st' = Some r'" using v(1) by (simp add: get_api_key_def)
  have "touch_key later r' st' = st'"
    using touched_cache [of now r st] same_row_fields [OF r'(2)] v(2) by (intro cached_key_untouched) simp
  then show ?thesis using verified_keys(1) [OF assms(1) g] by simp
qed

theorem last_use_is_written_once_witness:
  "api_keys (snd (verify_api_key (\<lambda>_. ''H'') db_provision_user (sample_verifier []) 1000000 (sample_request []) ''secret''
      (snd (verify_api_key (\<lambda>_. ''H'') db_provision_user (sample_verifier []) 5 (sample_request []) ''secret'' (sample_state ''admin'')))))
   = api_keys (snd (verify_api_key (\<lambda>_. ''H'') db_provision_user (sample_verifier []) 5 (sample_request []) ''secret'' (sample_state ''admin'')))"
proof -
  have "get_api_key (\<lambda>_. ''H'') ''secret'' (sample_state ''admin'') = Some (hd (api_keys (sample_state ''admin'')))"
    by (simp add: get_api_key_def sample_state_def)
  from last_use_is_written_once [OF provisioners_keep_keys(2) this refl] show ?thesis .
qed

text \<open>
  With impersonation, the API key of an admin takes whatever role its request names, a
  superadmin's included: what the named role may do is admitted, not what the key may do.
\<close>

theorem impersonation_takes_the_named_role:
  assumes "impersonation_enabled v" and "\<not> impersonation_auto_provision v" and "\<not> read_only v"
    and "header rq (impersonation_user_header v) = Some u" and "u \<noteq> []"
    and "header rq (impersonation_role_header v) = Some (role_name rl)"
    and "get_api_key digest k st = Some r" and "row_role r = role_name Admin" and "k \<noteq> []"
    and "has_scopes rl (scopes v)"
  shows "fst (verifier_call (db_verifier digest decode) dc v now rq (Some k) authorization None st)
    = Inr \<lparr>tenant_id = row_tenant r, email = u, api_key_name = None, role = Some (role_name rl)\<rparr>"
proof -
  have "role_name rl \<noteq> []" by (cases rl) simp_all
  then have "verify_api_key digest db_provision_user v now rq k st =
      (Inr \<lparr>tenant_id = row_tenant r, email = u, api_key_name = None, role = Some (role_name rl)\<rparr>, touch_key now r st)"
    using assms by (simp add: verify_api_key_def Let_def)
  then show ?thesis
    using assms(3,9,10) by (simp add: verifier_call_def read_only_refuses_def class_authenticate_def class_authorize_def authenticate_def given_def extract_api_key_def
      Let_def db_verifier_def as_unauthorized_def authorize_def role_names)
qed

theorem impersonation_takes_the_named_role_witness:
  "fst (verifier_call (db_verifier (\<lambda>_. ''H'') (\<lambda>_. None)) False (sample_verifier [''create:tenants'']) 7
      (sample_request [(''x-keep-user'', ''eve''), (''x-keep-role'', ''superadmin'')]) (Some ''secret'') None None (sample_state ''admin''))
    = Inr \<lparr>tenant_id = ''t'', email = ''eve'', api_key_name = None, role = Some ''superadmin''\<rparr>
   \<and> \<not> has_scopes Admin [''create:tenants'']"
proof -
  let ?rq = "sample_request [(''x-keep-user'', ''eve''), (''x-keep-role'', ''superadmin'')]"
  have h: "header ?rq (impersonation_user_header (sample_verifier [''create:tenants''])) = Some ''eve''"
    "header ?rq (impersonation_role_header (sample_verifier [''create:tenants''])) = Some (role_name SuperAdmin)"
    "has_scopes SuperAdmin (scopes (sample_verifier [''create:tenants'']))" "\<not> has_scopes Admin [''create:tenants'']"
    by code_simp+
  have g: "get_api_key (\<lambda>_. ''H'') ''secret'' (sample_state ''admin'') = Some (hd (api_keys (sample_state ''admin'')))"
    by (simp add: get_api_key_def sample_state_def)
  have "row_tenant (hd (api_keys (sample_state ''admin''))) = ''t''" by (simp add: sample_state_def)
  then show ?thesis
    using impersonation_takes_the_named_role [OF _ _ _ h(1) _ h(2) g _ _ h(3), where decode = "\<lambda>_. None" and dc = False
        and now = 7 and authorization = None] h(4)
    by (simp add: sample_verifier_def sample_state_def)
qed

end
