(* ===== verification/Tenant_Access.thy ===== *)
theory Tenant_Access
  imports Access_Control
begin

text \<open>
  Authorization per tenant: \<open>src/src/services/identity_manager/tenant_access.py\<close> and the role grants
  of \<open>src/src/repositories/db.py\<close> it reads.  The table \<open>tenant_role_grant\<close> is the list of its rows.
\<close>

section \<open>Grants\<close>

record tenant_role_grant =
  grant_tenant :: string
  grant_subject :: string
  grant_subject_type :: string
  grant_role :: string

type_synonym grants = "tenant_role_grant list"

definition role_strength :: "string \<Rightarrow> nat option" where
  "role_strength r = (if r = ''admin'' then Some 3 else if r = ''editor'' then Some 2
     else if r = ''viewer'' then Some 1 else None)"

definition strength_or_0 :: "string \<Rightarrow> nat" where
  "strength_or_0 r = (case role_strength r of None \<Rightarrow> 0 | Some n \<Rightarrow> n)"

text \<open>\<open>max(xs, key=f)\<close>: the first of the largest.\<close>

fun first_max :: "('a \<Rightarrow> nat) \<Rightarrow> 'a \<Rightarrow> 'a list \<Rightarrow> 'a" where
  "first_max f best [] = best"
| "first_max f best (x # xs) = first_max f (if f best < f x then x else best) xs"

definition get_tenant_role_for_subjects :: "grants \<Rightarrow> string \<Rightarrow> string list \<Rightarrow> string option" where
  "get_tenant_role_for_subjects gs t subjects =
     (if subjects = [] then None
      else case map grant_role (filter (\<lambda>g. grant_tenant g = t \<and> grant_subject g \<in> set subjects) gs) of
          [] \<Rightarrow> None
        | r # rs \<Rightarrow> Some (first_max strength_or_0 r rs))"

definition list_grants :: "grants \<Rightarrow> string \<Rightarrow> grants" where
  "list_grants gs t = filter (\<lambda>g. grant_tenant g = t) gs"

fun add_grant :: "string \<Rightarrow> string \<Rightarrow> string \<Rightarrow> string \<Rightarrow> grants \<Rightarrow> grants" where
  "add_grant t s ty r [] = [\<lparr>grant_tenant = t, grant_subject = s, grant_subject_type = ty, grant_role = r\<rparr>]"
| "add_grant t s ty r (g # gs) =
     (if grant_tenant g = t \<and> grant_subject g = s
      then g\<lparr>grant_subject_type := ty, grant_role := r\<rparr> # gs
      else g # add_grant t s ty r gs)"

fun remove_grant :: "string \<Rightarrow> string \<Rightarrow> grants \<Rightarrow> bool \<times> grants" where
  "remove_grant t s [] = (False, [])"
| "remove_grant t s (g # gs) =
     (if grant_tenant g = t \<and> grant_subject g = s then (True, gs)
      else apsnd (Cons g) (remove_grant t s gs))"

section \<open>The check\<close>

text \<open>What the Keycloak verifier adds to an entity: the email claim and the group paths.\<close>

record token_entity = entity +
  user_email :: "string option"
  groups :: "string list option"

definition get_groups :: "token_entity \<Rightarrow> string list" where
  "get_groups e = (case groups e of None \<Rightarrow> [] | Some gs \<Rightarrow> gs)"

definition get_subjects :: "token_entity \<Rightarrow> string list" where
  "get_subjects e =
     (let s = (if email e \<noteq> [] then [email e] else []);
          s' = (case user_email e of None \<Rightarrow> s | Some u \<Rightarrow> if u \<noteq> [] \<and> u \<notin> set s then s @ [u] else s)
      in s' @ get_groups e)"

definition is_superadmin :: "token_entity \<Rightarrow> bool" where
  "is_superadmin e = (role e = Some (role_name SuperAdmin))"

definition resolve_tenant_role :: "grants \<Rightarrow> token_entity \<Rightarrow> string \<Rightarrow> string option" where
  "resolve_tenant_role gs e t =
     (if is_superadmin e then Some ''admin'' else get_tenant_role_for_subjects gs t (get_subjects e))"

definition assert_tenant_role :: "grants \<Rightarrow> token_entity \<Rightarrow> string \<Rightarrow> string \<Rightarrow> auth_error + string" where
  "assert_tenant_role gs e t minimum =
     (let refused = Inl (Http 403 (''Requires '' @ minimum @ '' role on this tenant'')) in
      case resolve_tenant_role gs e t of None \<Rightarrow> refused
      | Some r \<Rightarrow>
          rbind (option_res (Other_error ''KeyError'') (role_strength r)) (\<lambda>n.
          rbind (option_res (Other_error ''KeyError'') (role_strength minimum)) (\<lambda>m.
            if n < m then refused else Inr r)))"

text \<open>The dependency of the tenant routes, after the verifier let the entity in.\<close>

definition require_tenant :: "string \<Rightarrow> grants \<Rightarrow> string \<Rightarrow> token_entity \<Rightarrow> auth_error + token_entity" where
  "require_tenant minimum gs t e = rbind (assert_tenant_role gs e t minimum) (\<lambda>_. Inr e)"

section \<open>Lemmas\<close>

lemma first_max_in: "first_max f best xs \<in> insert best (set xs)"
  by (induction f best xs rule: first_max.induct) (auto split: if_splits)

lemma first_max_ge: "f best \<le> f (first_max f best xs) \<and> (\<forall>x \<in> set xs. f x \<le> f (first_max f best xs))"
proof (induction f best xs rule: first_max.induct)
  case (2 f best y ys)
  show ?case
  proof (cases "f best < f y")
    case True
    then show ?thesis using 2 by (simp add: less_imp_le order.strict_trans2)
  next
    case False
    then show ?thesis using 2 by (simp add: linorder_not_less)
  qed
qed simp

definition roles_held :: "grants \<Rightarrow> string \<Rightarrow> string list \<Rightarrow> string set" where
  "roles_held gs t subjects = {grant_role g | g. g \<in> set gs \<and> grant_tenant g = t \<and> grant_subject g \<in> set subjects}"

lemma roles_held_map:
  "set (map grant_role (filter (\<lambda>g. grant_tenant g = t \<and> grant_subject g \<in> set subjects) gs)) = roles_held gs t subjects"
  by (auto simp: roles_held_def)

lemma tenant_role_None: "get_tenant_role_for_subjects gs t subjects = None \<longleftrightarrow> roles_held gs t subjects = {}"
proof -
  have "subjects = [] \<Longrightarrow> roles_held gs t subjects = {}" by (simp add: roles_held_def)
  then show ?thesis
    using roles_held_map [of t subjects gs]
    by (cases "map grant_role (filter (\<lambda>g. grant_tenant g = t \<and> grant_subject g \<in> set subjects) gs)")
       (auto simp: get_tenant_role_for_subjects_def simp del: set_map)
qed

lemma tenant_role_Some:
  assumes "get_tenant_role_for_subjects gs t subjects = Some r"
  shows "r \<in> roles_held gs t subjects \<and> (\<forall>r' \<in> roles_held gs t subjects. strength_or_0 r' \<le> strength_or_0 r)"
proof -
  from assms obtain x xs where m: "map grant_role (filter (\<lambda>g. grant_tenant g = t \<and> grant_subject g \<in> set subjects) gs) = x # xs"
    "r = first_max strength_or_0 x xs"
    by (auto simp: get_tenant_role_for_subjects_def split: list.splits if_splits)
  have "roles_held gs t subjects = insert x (set xs)"
    using roles_held_map [of t subjects gs] m(1) by simp
  then show ?thesis
    using first_max_in [of strength_or_0 x xs] first_max_ge [of strength_or_0 x xs] unfolding m(2) by simp
qed

definition known_roles :: "grants \<Rightarrow> bool" where
  "known_roles gs = list_all (\<lambda>g. role_strength (grant_role g) \<noteq> None) gs"

definition grant_key :: "tenant_role_grant \<Rightarrow> string \<times> string" where
  "grant_key g = (grant_tenant g, grant_subject g)"

text \<open>The primary key of the table.\<close>

definition grants_ok :: "grants \<Rightarrow> bool" where
  "grants_ok gs = distinct (map grant_key gs)"

lemma add_grant_keys: "map grant_key (add_grant t s ty r gs)
    = (if (t, s) \<in> set (map grant_key gs) then map grant_key gs else map grant_key gs @ [(t, s)])"
  by (induction gs) (auto simp: grant_key_def)

lemma remove_grant_keys: "map grant_key (snd (remove_grant t s gs)) = remove1 (t, s) (map grant_key gs)"
  by (induction gs) (auto simp: grant_key_def)

lemma remove_grant_set: "grants_ok gs \<Longrightarrow> set (snd (remove_grant t s gs)) = {g \<in> set gs. grant_key g \<noteq> (t, s)}"
  by (induction gs) (auto simp: grants_ok_def grant_key_def image_iff)

lemma add_grant_set: "grants_ok gs \<Longrightarrow>
    set (add_grant t s ty r gs) = {g \<in> set gs. grant_key g \<noteq> (t, s)}
      \<union> {\<lparr>grant_tenant = t, grant_subject = s, grant_subject_type = ty, grant_role = r\<rparr>}"
  by (induction gs) (auto simp: grants_ok_def grant_key_def image_iff)

lemma held_one:
  assumes "grants_ok gs" and "g \<in> set gs"
  shows "get_tenant_role_for_subjects gs (grant_tenant g) [grant_subject g] = Some (grant_role g)"
proof -
  have "roles_held gs (grant_tenant g) [grant_subject g] = {grant_role g}"
    using assms unfolding roles_held_def grants_ok_def distinct_map inj_on_def grant_key_def by auto
  then show ?thesis
    using tenant_role_None [of gs] tenant_role_Some [of gs] by (metis insert_not_empty option.exhaust singletonD)
qed

lemma grant_effects:
  assumes "grants_ok gs"
  shows "get_tenant_role_for_subjects (add_grant t s ty r gs) t [s] = Some r"
    and "get_tenant_role_for_subjects (snd (remove_grant t s gs)) t [s] = None"
    and "fst (remove_grant t s gs) \<longleftrightarrow> get_tenant_role_for_subjects gs t [s] \<noteq> None"
    and "t' \<noteq> t \<or> s \<notin> set ss \<Longrightarrow> roles_held (add_grant t s ty r gs) t' ss = roles_held gs t' ss
      \<and> roles_held (snd (remove_grant t s gs)) t' ss = roles_held gs t' ss"
    and "grants_ok (add_grant t s ty r gs) \<and> grants_ok (snd (remove_grant t s gs))"
proof -
  show ok: "grants_ok (add_grant t s ty r gs) \<and> grants_ok (snd (remove_grant t s gs))"
    using assms by (simp add: grants_ok_def add_grant_keys remove_grant_keys)
  show "get_tenant_role_for_subjects (add_grant t s ty r gs) t [s] = Some r"
    using held_one [of "add_grant t s ty r gs" "\<lparr>grant_tenant = t, grant_subject = s, grant_subject_type = ty, grant_role = r\<rparr>"]
      ok add_grant_set [OF assms] by simp
  show "get_tenant_role_for_subjects (snd (remove_grant t s gs)) t [s] = None"
    unfolding tenant_role_None using remove_grant_set [OF assms] by (auto simp: roles_held_def grant_key_def)
  have "fst (remove_grant t s gs) \<longleftrightarrow> (t, s) \<in> set (map grant_key gs)"
    by (induction gs) (auto simp: grant_key_def)
  then show "fst (remove_grant t s gs) \<longleftrightarrow> get_tenant_role_for_subjects gs t [s] \<noteq> None"
    unfolding tenant_role_None by (auto simp: roles_held_def grant_key_def)
  show "t' \<noteq> t \<or> s \<notin> set ss \<Longrightarrow> roles_held (add_grant t s ty r gs) t' ss = roles_held gs t' ss
      \<and> roles_held (snd (remove_grant t s gs)) t' ss = roles_held gs t' ss"
    unfolding roles_held_def add_grant_set [OF assms] remove_grant_set [OF assms] by (auto simp: grant_key_def)
qed

section \<open>Properties\<close>

text \<open>
  C10: On a table that holds known roles only, a caller is let through with their strongest role
  on the tenant exactly when they are a superadmin or some grant of the tenant to one of their
  subjects is at least the minimum; everyone else gets a 403.
\<close>

theorem tenant_role_decision:
  assumes "known_roles gs" and "role_strength minimum = Some m"
  shows "(case assert_tenant_role gs e t minimum of
       Inr r \<Rightarrow> (is_superadmin e \<and> r = ''admin'' \<or> r \<in> roles_held gs t (get_subjects e))
         \<and> m \<le> strength_or_0 r \<and> (\<forall>r' \<in> roles_held gs t (get_subjects e). strength_or_0 r' \<le> strength_or_0 r)
     | Inl err \<Rightarrow> err = Http 403 (''Requires '' @ minimum @ '' role on this tenant'') \<and> \<not> is_superadmin e
         \<and> (\<forall>r' \<in> roles_held gs t (get_subjects e). strength_or_0 r' < m))"
proof (cases "is_superadmin e")
  case True
  have "strength_or_0 r \<le> 3" for r by (simp add: strength_or_0_def role_strength_def)
  moreover have "m \<le> 3" using assms(2) by (auto simp: role_strength_def split: if_splits)
  ultimately show ?thesis
    using True assms(2) by (simp add: assert_tenant_role_def resolve_tenant_role_def role_strength_def strength_or_0_def)
next
  case False
  show ?thesis
  proof (cases "get_tenant_role_for_subjects gs t (get_subjects e)")
    case None
    then show ?thesis using False tenant_role_None [of gs t "get_subjects e"]
      by (simp add: assert_tenant_role_def resolve_tenant_role_def)
  next
    case (Some r)
    note r = tenant_role_Some [OF Some]
    then obtain n where n: "role_strength r = Some n" "strength_or_0 r = n"
      using assms(1) by (auto simp: roles_held_def known_roles_def list_all_iff strength_or_0_def)
    show ?thesis
      using False Some r n assms(2)
      by (cases "n < m") (auto simp: assert_tenant_role_def resolve_tenant_role_def intro: le_less_trans)
  qed
qed

definition sample_caller :: "string \<Rightarrow> string list \<Rightarrow> token_entity" where
  "sample_caller em gps = \<lparr>tenant_id = ''keep'', email = em, api_key_name = None, role = Some ''viewer'',
     user_email = None, groups = Some gps\<rparr>"

theorem tenant_role_decision_witness:
  "assert_tenant_role (add_grant ''t'' ''/ops'' ''group'' ''editor'' (add_grant ''t'' ''ann'' ''user'' ''viewer'' []))
     (sample_caller ''ann'' [''/ops'']) ''t'' ''editor'' = Inr ''editor''
   \<and> strength_or_0 ''viewer'' < 3"
proof -
  let ?gs = "add_grant ''t'' ''/ops'' ''group'' ''editor'' (add_grant ''t'' ''ann'' ''user'' ''viewer'' [])"
  have k: "known_roles ?gs" "role_strength ''editor'' = Some 2" "role_strength ''admin'' = Some 3" by code_simp+
  have e: "assert_tenant_role ?gs (sample_caller ''ann'' [''/ops'']) ''t'' ''editor'' = Inr ''editor''"
    "assert_tenant_role ?gs (sample_caller ''ann'' []) ''t'' ''admin'' = Inl (Http 403 ''Requires admin role on this tenant'')"
    by code_simp+
  have "''viewer'' \<in> roles_held ?gs ''t'' (get_subjects (sample_caller ''ann'' []))"
    by (auto simp: roles_held_def get_subjects_def sample_caller_def get_groups_def
      intro!: exI [of _ "\<lparr>grant_tenant = ''t'', grant_subject = ''ann'', grant_subject_type = ''user'', grant_role = ''viewer''\<rparr>"])
  then show ?thesis
    using tenant_role_decision [OF k(1,3), of "sample_caller ''ann'' []" "''t''"] e by simp
qed

text \<open>
  C11: Granting and revoking take effect at once and on nobody else: after \<open>add_grant\<close> the
  subject's role on the tenant is the granted one, after \<open>remove_grant\<close> there is none, the roles of
  every other subject or tenant are as before, and the primary key stays unique.
\<close>

theorem grants_take_effect:
  assumes "grants_ok gs"
  shows "get_tenant_role_for_subjects (add_grant t s ty r gs) t [s] = Some r
     \<and> get_tenant_role_for_subjects (snd (remove_grant t s gs)) t [s] = None
     \<and> (fst (remove_grant t s gs) \<longleftrightarrow> get_tenant_role_for_subjects gs t [s] \<noteq> None)
     \<and> (\<forall>t' ss. t' \<noteq> t \<or> s \<notin> set ss \<longrightarrow> roles_held (add_grant t s ty r gs) t' ss = roles_held gs t' ss
          \<and> roles_held (snd (remove_grant t s gs)) t' ss = roles_held gs t' ss)
     \<and> grants_ok (add_grant t s ty r gs) \<and> grants_ok (snd (remove_grant t s gs))"
  using grant_effects(5) [OF assms] by (intro conjI allI impI; simp add: grant_effects(1-4) [OF assms])

theorem grants_take_effect_witness:
  "get_tenant_role_for_subjects (add_grant ''t'' ''ann'' ''user'' ''editor'' []) ''t'' [''ann''] = Some ''editor''
   \<and> roles_held (add_grant ''u'' ''ann'' ''user'' ''editor'' []) ''t'' [''ann''] = roles_held [] ''t'' [''ann'']"
proof -
  have "grants_ok []" by (simp add: grants_ok_def)
  then show ?thesis using grants_take_effect [of "[]" "''t''" "''ann''" "''user''" "''editor''"] grants_take_effect [of "[]" "''u''" "''ann''" "''user''" "''editor''"] by simp
qed

text \<open>
  A grant may name any role, and one the strengths do not know makes every check of a
  subject that holds nothing else fail with a key error instead of a 403.
\<close>

theorem unknown_role_breaks_the_check:
  assumes "grants_ok gs" and "get_subjects e = [s]" and "\<not> is_superadmin e" and "role_strength r = None"
  shows "assert_tenant_role (add_grant t s ty r gs) e t minimum = Inl (Other_error ''KeyError'')"
proof -
  have "get_tenant_role_for_subjects (add_grant t s ty r gs) t [s] = Some r"
    using held_one [of "add_grant t s ty r gs" "\<lparr>grant_tenant = t, grant_subject = s, grant_subject_type = ty, grant_role = r\<rparr>"]
      assms(1) add_grant_set [OF assms(1)] by (simp add: grants_ok_def add_grant_keys)
  then show ?thesis using assms(2-4) by (simp add: assert_tenant_role_def resolve_tenant_role_def)
qed

theorem unknown_role_breaks_the_check_witness:
  "assert_tenant_role (add_grant ''t'' ''ann'' ''user'' ''noc'' []) (sample_caller ''ann'' []) ''t'' ''viewer'' = Inl (Other_error ''KeyError'')"
  by (rule unknown_role_breaks_the_check)
     (simp_all add: grants_ok_def get_subjects_def sample_caller_def get_groups_def is_superadmin_def role_strength_def)

end
