(* ===== verification/Alert_Deduplicator.thy ===== *)
theory Alert_Deduplicator
  imports Complex_Main Py_Json Py_Uuid "HOL-Library.List_Lexorder" "HOL-Library.Char_ord"
begin

text \<open>
  Deduplication of incoming alerts: \<open>src/src/services/alert_deduplicator/alert_deduplicator.py\<close>, the
  part that runs on an alert, and the queries of \<open>src/src/repositories/db.py\<close> it makes.  An \<open>AlertDto\<close>
  accepts fields beyond those it declares, and the deduplicator deletes and sets them by name, so an
  alert is its \<open>__dict__\<close>: a dict from names to JSON values (the classes' own attributes, which no rule
  names, are left out).  The tables are the lists of their rows.
\<close>

section \<open>Rows, rules and errors\<close>

datatype dedup_error = AttributeError | KeyError | TypeError | ValueError
  | MultipleResultsFound | IntegrityError | HTTPException nat string

record dedup_row =
  row_id :: nat
  row_tenant :: string
  row_name :: string
  row_description :: string
  row_provider_id :: "string option"
  row_provider_type :: string
  row_last_updated :: string
  row_last_updated_by :: string
  row_created_at :: string
  row_created_by :: string
  row_enabled :: bool
  row_fingerprint_fields :: "string list"
  row_full :: bool
  row_ignore_fields :: "string list"
  row_priority :: int
  row_is_provisioned :: bool

record dedup_event =
  ev_tenant :: string
  ev_timestamp :: int
  ev_rule :: nat
  ev_type :: string
  ev_date_hour :: int
  ev_provider_id :: "string option"
  ev_provider_type :: "string option"

record last_alert =
  la_tenant :: string
  la_fingerprint :: string
  la_hash :: "string option"

record dedup_db =
  db_rules :: "dedup_row list"
  db_events :: "dedup_event list"
  db_last :: "last_alert list"

record dedup_dto =
  dto_id :: string
  dto_name :: string
  dto_description :: string
  dto_default :: bool
  dto_distribution :: "(int \<times> nat) list option"
  dto_provider_id :: "string option"
  dto_provider_type :: string
  dto_last_updated :: "string option"
  dto_last_updated_by :: "string option"
  dto_created_at :: "string option"
  dto_created_by :: "string option"
  dto_ingested :: nat
  dto_dedup_ratio :: rat
  dto_enabled :: bool
  dto_fingerprint_fields :: "string list"
  dto_full :: bool
  dto_ignore_fields :: "string list"
  dto_is_provisioned :: bool

text \<open>The rule that is applied: a row of the tenant's rules, or the default built on the spot.\<close>

datatype applied_rule = Custom dedup_row | Default dedup_dto

fun rule_ignore_fields :: "applied_rule \<Rightarrow> string list" where
  "rule_ignore_fields (Custom r) = row_ignore_fields r"
| "rule_ignore_fields (Default d) = dto_ignore_fields d"

text \<open>The settings of the class, and what comes from outside: SHA-256 and \<open>uuid5\<close> in Keep's namespace.\<close>

record dedup_env =
  distribution_enabled :: bool
  custom_enabled :: bool
  sha256 :: "string \<Rightarrow> string"
  uuid5 :: "string \<Rightarrow> nat"

section \<open>Queries\<close>

definition get_custom_deduplication_rule ::
  "dedup_db \<Rightarrow> string \<Rightarrow> string option \<Rightarrow> string \<Rightarrow> dedup_error + dedup_row option" where
  "get_custom_deduplication_rule db t pid pt =
     (case filter (\<lambda>r. row_tenant r = t \<and> row_provider_id r = pid \<and> row_provider_type r = pt) (db_rules db) of
        [] \<Rightarrow> Inr None
      | [r] \<Rightarrow> Inr (Some r)
      | _ \<Rightarrow> Inl MultipleResultsFound)"

definition get_last_alert_hashes_by_fingerprints ::
  "dedup_db \<Rightarrow> string \<Rightarrow> string option list \<Rightarrow> (string, string) pydict" where
  "get_last_alert_hashes_by_fingerprints db t fps =
     fold (\<lambda>l. case la_hash l of None \<Rightarrow> id | Some h \<Rightarrow> dict_set (la_fingerprint l) h)
       (filter (\<lambda>l. la_tenant l = t \<and> Some (la_fingerprint l) \<in> set fps) (db_last db)) []"

definition create_deduplication_event ::
  "int \<Rightarrow> string \<Rightarrow> string + nat \<Rightarrow> string \<Rightarrow> string option \<Rightarrow> string option \<Rightarrow> dedup_db \<Rightarrow> dedup_db" where
  "create_deduplication_event now t rid ty pid pt db =
     (case (case rid of Inl s \<Rightarrow> uuid_int s | Inr n \<Rightarrow> Some n) of
        None \<Rightarrow> db
      | Some n \<Rightarrow> db\<lparr>db_events := db_events db @
          [\<lparr>ev_tenant = t, ev_timestamp = now, ev_rule = n, ev_type = ty,
            ev_date_hour = now div 3600, ev_provider_id = pid, ev_provider_type = pt\<rparr>]\<rparr>)"

section \<open>The fields that count\<close>

text \<open>\<open>sort_keys=True\<close>\<close>

fun json_sort :: "json \<Rightarrow> json" where
  "json_sort (JList vs) = JList (map json_sort vs)"
| "json_sort (JObj kvs) = JObj (sort_key fst (map (\<lambda>(k, v). (k, json_sort v)) kvs))"
| "json_sort v = v"

text \<open>The walk down \<open>d = d[part]\<close> and the \<open>del\<close> at its end.\<close>

fun remove_at :: "json \<Rightarrow> string list \<Rightarrow> dedup_error + json" where
  "remove_at v [] = Inr v"
| "remove_at v [k] =
     (case v of JObj kvs \<Rightarrow> if k \<in> set (dict_keys kvs) then Inr (JObj (dict_del k kvs)) else Inl KeyError
      | _ \<Rightarrow> Inl TypeError)"
| "remove_at v (k # k' # ks) =
     (case v of JObj kvs \<Rightarrow>
         (case dict_get kvs k of None \<Rightarrow> Inl KeyError
          | Some w \<Rightarrow> rbind (remove_at w (k' # ks)) (\<lambda>w'. Inr (JObj (dict_set k w' kvs))))
      | _ \<Rightarrow> Inl TypeError)"

type_synonym alert = "(string, json) pydict"

definition remove_field :: "string \<Rightarrow> alert \<Rightarrow> dedup_error + alert" where
  "remove_field field a =
     (case py_split (CHR ''.'') field of
        [] \<Rightarrow> Inr a
      | [f] \<Rightarrow> Inr (dict_del f a)
      | f # parts \<Rightarrow>
          (case dict_get a f of None \<Rightarrow> Inl AttributeError
           | Some v \<Rightarrow> rbind (remove_at v parts) (\<lambda>v'. Inr (dict_set f v' a))))"

fun remove_fields :: "string list \<Rightarrow> alert \<Rightarrow> dedup_error + alert" where
  "remove_fields [] a = Inr a"
| "remove_fields (f # fs) a = rbind (remove_field f a) (remove_fields fs)"

definition alert_payload :: "string list \<Rightarrow> alert \<Rightarrow> dedup_error + string" where
  "alert_payload fs a = rbind (remove_fields fs a) (\<lambda>c. Inr (json_dumps (json_sort (JObj c))))"

text \<open>A text field of an alert: pydantic leaves a string or \<open>None\<close> there.\<close>

definition alert_str :: "alert \<Rightarrow> string \<Rightarrow> string option" where
  "alert_str a k = (case dict_get a k of Some (JStr s) \<Rightarrow> Some s | _ \<Rightarrow> None)"

definition alert_flag :: "alert \<Rightarrow> string \<Rightarrow> bool" where
  "alert_flag a k = (dict_get a k = Some (JBool True))"

section \<open>Applying rules\<close>

definition apply_deduplication_rule ::
  "dedup_env \<Rightarrow> dedup_db \<Rightarrow> string \<Rightarrow> alert \<Rightarrow> applied_rule \<Rightarrow> (string, string) pydict option \<Rightarrow> dedup_error + alert" where
  "apply_deduplication_rule env db t a r known =
     rbind (alert_payload (rule_ignore_fields r) a) (\<lambda>p.
       let alert_hash = sha256 env p;
           a = dict_set ''alert_hash'' (JStr alert_hash) a;
           hashes = (case known of Some (kv # kvs) \<Rightarrow> kv # kvs
                     | _ \<Rightarrow> get_last_alert_hashes_by_fingerprints db t [alert_str a ''fingerprint'']);
           old = (case alert_str a ''fingerprint'' of None \<Rightarrow> None | Some f \<Rightarrow> dict_get hashes f)
       in Inr (case old of None \<Rightarrow> a
          | Some h \<Rightarrow> if h = [] then a
              else if h = alert_hash then dict_set ''is_full_duplicate'' (JBool True) a
              else dict_set ''is_partial_duplicate'' (JBool True) a))"

definition generate_uuid :: "dedup_env \<Rightarrow> string option \<Rightarrow> string option \<Rightarrow> string" where
  "generate_uuid env pid pt =
     (let falsy = (pid = None \<or> pid = Some []);
          pt = (case pt of Some s \<Rightarrow> if falsy \<and> py_lower s = ''keep'' then None else pt | None \<Rightarrow> None);
          txt = (\<lambda>x. case x of None \<Rightarrow> ''None'' | Some s \<Rightarrow> s)
      in uuid_str (uuid5 env (txt pid @ ''_'' @ txt pt)))"

definition or_keep :: "string option \<Rightarrow> string" where
  "or_keep pt = (case pt of Some (c # s) \<Rightarrow> c # s | _ \<Rightarrow> ''keep'')"

definition get_default_full_deduplication_rule :: "dedup_env \<Rightarrow> string option \<Rightarrow> string option \<Rightarrow> dedup_dto" where
  "get_default_full_deduplication_rule env pid pt =
     (let generated_uuid = generate_uuid env pid pt; pt = or_keep pt in
      \<lparr>dto_id = generated_uuid, dto_name = pt @ '' default deduplication rule'',
       dto_description = pt @ '' default deduplication rule'', dto_default = True,
       dto_distribution = Some (map (\<lambda>i. (int i, 0)) [0..<24]),
       dto_provider_id = pid, dto_provider_type = pt,
       dto_last_updated = None, dto_last_updated_by = None, dto_created_at = None, dto_created_by = None,
       dto_ingested = 0, dto_dedup_ratio = 0, dto_enabled = True, dto_fingerprint_fields = [],
       dto_full = True, dto_ignore_fields = [''last_received''], dto_is_provisioned = False\<rparr>)"

definition get_deduplication_rules ::
  "dedup_env \<Rightarrow> dedup_db \<Rightarrow> string \<Rightarrow> string option \<Rightarrow> string option \<Rightarrow> dedup_error + applied_rule list" where
  "get_deduplication_rules env db t pid pt0 =
     (let pt = or_keep pt0 in
      rbind (if custom_enabled env then get_custom_deduplication_rule db t pid pt else Inr None) (\<lambda>rule.
        Inr (case rule of
            None \<Rightarrow> [Default (get_default_full_deduplication_rule env pid (Some pt))]
          | Some r \<Rightarrow>
              if row_full r then [Custom r]
              else [Custom (r\<lparr>row_ignore_fields :=
                      dto_ignore_fields (get_default_full_deduplication_rule env pid (Some pt))\<rparr>)])))"

fun rule_ref :: "applied_rule \<Rightarrow> string + nat" where
  "rule_ref (Custom r) = Inr (row_id r)"
| "rule_ref (Default d) = Inl (dto_id d)"

text \<open>The loop: an exception leaves the events of the rules before it in the table.\<close>

fun apply_rules ::
  "dedup_env \<Rightarrow> int \<Rightarrow> string \<Rightarrow> (string, string) pydict option \<Rightarrow> applied_rule list \<Rightarrow> alert \<Rightarrow> dedup_db
   \<Rightarrow> dedup_db \<times> (dedup_error + alert)" where
  "apply_rules env now t known [] a db = (db, Inr a)"
| "apply_rules env now t known (r # rs) a db =
     (case apply_deduplication_rule env db t a r known of
        Inl e \<Rightarrow> (db, Inl e)
      | Inr a \<Rightarrow>
          let event = (\<lambda>ty. create_deduplication_event now t (rule_ref r) ty
                        (alert_str a ''provider_id'') (alert_str a ''provider_type'') db);
              full = alert_flag a ''is_full_duplicate''; partial = alert_flag a ''is_partial_duplicate''
          in if distribution_enabled env then
               if full \<or> partial then (event (if full then ''full'' else ''partial''), Inr a)
               else apply_rules env now t known rs a (event ''none'')
             else apply_rules env now t known rs a db)"

definition apply_deduplication ::
  "dedup_env \<Rightarrow> int \<Rightarrow> string \<Rightarrow> alert \<Rightarrow> applied_rule list option \<Rightarrow> (string, string) pydict option \<Rightarrow> dedup_db
   \<Rightarrow> dedup_db \<times> (dedup_error + alert)" where
  "apply_deduplication env now t a rules known db =
     (case (case rules of Some (r # rs) \<Rightarrow> Inr (r # rs)
            | _ \<Rightarrow> get_deduplication_rules env db t (alert_str a ''provider_id'') (alert_str a ''provider_type'')) of
        Inl e \<Rightarrow> (db, Inl e)
      | Inr rs \<Rightarrow> apply_rules env now t known rs a db)"


section \<open>The hash sees exactly the fields that are not ignored\<close>

text \<open>A value up to the order of the keys of its dicts, with an unknown value as its \<open>str\<close>.\<close>

definition json_canon :: "json \<Rightarrow> json" where
  "json_canon v = json_norm (json_sort v)"

lemma sort_key_map_snd: "sort_key fst (map (apsnd f) kvs) = map (apsnd f) (sort_key fst kvs)"
proof -
  have ins: "insort_key fst (apsnd f kv) (map (apsnd f) xs) = map (apsnd f) (insort_key fst kv xs)" for kv xs
    by (induction xs) auto
  show ?thesis by (induction kvs) (simp_all add: ins)
qed

lemma json_sort_obj: "json_sort (JObj kvs) = JObj (map (apsnd json_sort) (sort_key fst kvs))"
proof -
  have "(\<lambda>(k, v). (k, json_sort v)) = (apsnd json_sort :: string \<times> json \<Rightarrow> _)" by (auto simp: fun_eq_iff)
  then show ?thesis by (simp add: sort_key_map_snd)
qed

lemma sort_key_same_map:
  assumes "dict_ok xs" and "dict_ok ys"
  shows "sort_key fst xs = sort_key fst ys \<longleftrightarrow> map_of xs = map_of ys"
proof
  assume "sort_key fst xs = sort_key fst ys"
  then have "set xs = set ys" by (metis set_sort)
  with assms show "map_of xs = map_of ys" by (simp add: dict_ok_def map_of_inject_set)
next
  assume "map_of xs = map_of ys"
  with assms have same: "set xs = set ys" by (simp add: dict_ok_def map_of_inject_set)
  have inj: "inj_on fst (set xs)" using assms(1) by (simp add: dict_ok_def distinct_map)
  have d: "distinct (map fst (sort_key fst zs))" if "dict_ok zs" for zs :: "(_ \<times> 'b) list"
    using that by (simp add: dict_ok_def distinct_map)
  show "sort_key fst xs = sort_key fst ys"
    using map_sorted_distinct_set_unique [of fst "sort_key fst xs" "sort_key fst ys"] d [OF assms(1)] d [OF assms(2)] inj same
    by simp
qed

lemma dict_ok_sort: "dict_ok xs \<Longrightarrow> dict_ok (sort_key fst xs)"
  by (simp add: dict_ok_def distinct_map)

lemma dict_ok_apsnd: "dict_ok (map (apsnd f) xs) = dict_ok xs"
  by (simp add: dict_ok_def comp_def)

lemma map_of_apsnd: "map_of (map (apsnd f) xs) = map_option f \<circ> map_of xs"
  by (induction xs) auto

lemma json_ok_sort: "json_ok v \<Longrightarrow> json_ok (json_sort v)"
proof (induction v)
  case (JObj kvs)
  have "json_ok (json_sort v)" if "(k, v) \<in> set kvs" for k v
    using JObj that by (metis json_ok.simps(3) snd_conv snds.simps)
  with JObj.prems show ?case unfolding json_sort_obj by (auto simp: dict_ok_apsnd dict_ok_sort)
qed auto

lemma json_norm_obj: "json_norm (JObj kvs) = JObj (map (apsnd json_norm) kvs)"
proof -
  have "(\<lambda>(k, v). (k, json_norm v)) = (apsnd json_norm :: string \<times> json \<Rightarrow> _)" by (auto simp: fun_eq_iff)
  then show ?thesis by simp
qed

lemma json_canon_obj: "json_canon (JObj kvs) = JObj (sort_key fst (map (apsnd json_canon) kvs))"
proof -
  have "apsnd json_norm \<circ> apsnd json_sort = (apsnd json_canon :: string \<times> json \<Rightarrow> _)"
    by (auto simp: fun_eq_iff json_canon_def)
  then show ?thesis
    unfolding json_canon_def json_sort_obj json_norm_obj by (simp add: sort_key_map_snd json_canon_def)
qed

lemma json_canon_obj_iff:
  assumes "dict_ok a" and "dict_ok b"
  shows "json_canon (JObj a) = json_canon (JObj b) \<longleftrightarrow>
    (\<forall>k. map_option json_canon (dict_get a k) = map_option json_canon (dict_get b k))"
  using assms by (simp add: json_canon_obj sort_key_same_map dict_ok_apsnd map_of_apsnd dict_get_def fun_eq_iff)

lemma json_dumps_inject:
  assumes "json_ok v" and "json_ok w" and "json_dumps v = json_dumps w"
  shows "json_norm v = json_norm w"
  using json_roundtrip [OF assms(1)] json_roundtrip [OF assms(2)] assms(3) by simp

lemma json_dumps_norm: "json_dumps (json_norm v) = json_dumps v"
proof (induction v)
  case (JObj kvs)
  have "map (\<lambda>(k, v). json_string k @ '': '' @ json_dumps v) (map (apsnd json_norm) kvs)
      = map (\<lambda>(k, v). json_string k @ '': '' @ json_dumps v) kvs"
    using JObj by (auto simp: snds.simps)
  then show ?case unfolding json_norm_obj json_dumps.simps by (rule arg_cong)
next
  case (JList vs)
  then have "map json_dumps (map json_norm vs) = map json_dumps vs" by simp
  then show ?case unfolding json_norm.simps json_dumps.simps by (rule arg_cong)
qed auto

lemma sorted_dump_iff:
  assumes "json_ok v" and "json_ok w"
  shows "json_dumps (json_sort v) = json_dumps (json_sort w) \<longleftrightarrow> json_canon v = json_canon w"
proof
  assume "json_canon v = json_canon w"
  then show "json_dumps (json_sort v) = json_dumps (json_sort w)"
    unfolding json_canon_def by (metis json_dumps_norm)
qed (use assms in \<open>auto simp: json_canon_def intro: json_dumps_inject json_ok_sort\<close>)

lemma remove_plain_field: "CHR ''.'' \<notin> set f \<Longrightarrow> remove_field f a = Inr (dict_del f a)"
  by (simp add: remove_field_def py_split_no_sep)

lemma remove_plain_fields:
  "\<forall>f \<in> set fs. CHR ''.'' \<notin> set f \<Longrightarrow> remove_fields fs a = Inr (filter (\<lambda>(k, _). k \<notin> set fs) a)"
proof (induction fs arbitrary: a)
  case (Cons f fs)
  have "filter (\<lambda>(k, _). k \<notin> set fs) (dict_del f a) = filter (\<lambda>(k, _). k \<notin> set (f # fs)) a"
    by (auto simp: dict_del_def intro: filter_cong)
  with Cons show ?case by (simp add: remove_plain_field)
qed simp

lemma dict_get_filter: "dict_get (filter (\<lambda>(k, _). P k) a) k = (if P k then dict_get a k else None)"
  by (induction a) (auto simp: dict_get_def)

text \<open>
  The hash depends on exactly the fields a rule does not ignore.  For ignored fields of the alert
  itself, two alerts are reduced to the same text, whatever the order of their fields, iff they
  agree on every field that is not ignored.
\<close>

lemma same_payload_iff:
  assumes "json_ok (JObj a)" and "json_ok (JObj b)" and plain: "\<forall>f \<in> set fs. CHR ''.'' \<notin> set f"
  shows "alert_payload fs a = alert_payload fs b \<longleftrightarrow>
    (\<forall>k. k \<notin> set fs \<longrightarrow> map_option json_canon (dict_get a k) = map_option json_canon (dict_get b k))"
proof -
  define keep where "keep c = filter (\<lambda>(k, _). k \<notin> set fs) c" for c :: alert
  have ok: "json_ok (JObj (keep c))" if "json_ok (JObj c)" for c
    using that by (auto simp: keep_def dict_ok_def distinct_map_filter)
  have p: "alert_payload fs c = Inr (json_dumps (json_sort (JObj (keep c))))" for c
    by (simp add: alert_payload_def remove_plain_fields [OF plain] keep_def)
  have "alert_payload fs a = alert_payload fs b \<longleftrightarrow> json_canon (JObj (keep a)) = json_canon (JObj (keep b))"
    unfolding p using sorted_dump_iff [OF ok [OF assms(1)] ok [OF assms(2)]] by simp
  also have "\<dots> \<longleftrightarrow> (\<forall>k. map_option json_canon (dict_get (keep a) k) = map_option json_canon (dict_get (keep b) k))"
    using ok [OF assms(1)] ok [OF assms(2)] by (intro json_canon_obj_iff) simp_all
  finally show ?thesis by (auto simp: keep_def dict_get_filter)
qed
section \<open>The verdict\<close>

text \<open>The primary key of \<open>lastalert\<close>.\<close>

definition last_alerts_ok :: "dedup_db \<Rightarrow> bool" where
  "last_alerts_ok db = distinct (map (\<lambda>l. (la_tenant l, la_fingerprint l)) (db_last db))"

text \<open>The hash stored for a fingerprint, where there is one that counts.\<close>

definition has_hash :: "dedup_db \<Rightarrow> string \<Rightarrow> string \<Rightarrow> string \<Rightarrow> bool" where
  "has_hash db t f h =
     (h \<noteq> [] \<and> list_ex (\<lambda>l. la_tenant l = t \<and> la_fingerprint l = f \<and> la_hash l = Some h) (db_last db))"

lemma fold_hashes_get:
  assumes "distinct (map la_fingerprint ls)" and "l \<in> set ls"
  shows "dict_get (fold (\<lambda>l. case la_hash l of None \<Rightarrow> id | Some h \<Rightarrow> dict_set (la_fingerprint l) h) ls d) (la_fingerprint l)
    = (case la_hash l of None \<Rightarrow> dict_get d (la_fingerprint l) | Some h \<Rightarrow> Some h)"
proof -
  have other: "f \<notin> la_fingerprint ` set ls \<Longrightarrow>
    dict_get (fold (\<lambda>l. case la_hash l of None \<Rightarrow> id | Some h \<Rightarrow> dict_set (la_fingerprint l) h) ls d) f = dict_get d f" for f ls d
    by (induction ls arbitrary: d) (auto simp: dict_get_set split: option.splits)
  show ?thesis using assms
  proof (induction ls arbitrary: d)
    case (Cons m ls)
    show ?case
    proof (cases "l = m")
      case True
      with Cons.prems show ?thesis by (auto simp: other dict_get_set split: option.splits)
    next
      case False
      with Cons.prems have l: "l \<in> set ls" by simp
      then have "la_fingerprint l \<noteq> la_fingerprint m" using Cons.prems(1) by (metis distinct.simps(2) image_eqI list.map(2) set_map)
      with Cons.IH [OF _ l] Cons.prems(1) show ?thesis by (auto simp: dict_get_set split: option.splits)
    qed
  qed simp
qed

lemma last_hash_get:
  assumes "last_alerts_ok db"
  shows "dict_get (get_last_alert_hashes_by_fingerprints db t [Some f]) f = Some h \<longleftrightarrow>
    (\<exists>l \<in> set (db_last db). la_tenant l = t \<and> la_fingerprint l = f \<and> la_hash l = Some h)"
proof -
  let ?ls = "filter (\<lambda>l. la_tenant l = t \<and> la_fingerprint l = f) (db_last db)"
  let ?d = "get_last_alert_hashes_by_fingerprints db t [Some f]"
  have d: "?d = fold (\<lambda>l. case la_hash l of None \<Rightarrow> id | Some h \<Rightarrow> dict_set (la_fingerprint l) h) ?ls []"
    by (simp add: get_last_alert_hashes_by_fingerprints_def)
  have "inj_on (\<lambda>l. (la_tenant l, la_fingerprint l)) (set (db_last db))" "distinct (db_last db)"
    using assms by (simp_all add: last_alerts_ok_def distinct_map)
  then have dist: "distinct (map la_fingerprint ?ls)"
    by (auto simp: distinct_map inj_on_def)
  have get: "dict_get ?d f = la_hash l" if "l \<in> set ?ls" for l
    using fold_hashes_get [OF dist that, of "[]"] that unfolding d
    by (auto simp: dict_get_def split: option.splits)
  have empty: "?ls = [] \<Longrightarrow> dict_get ?d f = None" unfolding d by (simp add: dict_get_def)
  show ?thesis
  proof (cases ?ls)
    case Nil
    then show ?thesis using empty by (auto simp: filter_empty_conv)
  next
    case (Cons l ls)
    then have l: "l \<in> set ?ls" by simp
    have same: "m = l" if "m \<in> set ?ls" for m
      using dist l that by (auto simp: distinct_map dest: inj_onD)
    have "(\<exists>m \<in> set (db_last db). la_tenant m = t \<and> la_fingerprint m = f \<and> la_hash m = Some h) \<longleftrightarrow>
        (\<exists>m \<in> set ?ls. la_hash m = Some h)" by auto
    also have "\<dots> \<longleftrightarrow> la_hash l = Some h" using l same by blast
    finally show ?thesis using get [OF l] by (simp only:)
  qed
qed

lemma has_hash_get:
  "last_alerts_ok db \<Longrightarrow> has_hash db t f h \<longleftrightarrow>
    h \<noteq> [] \<and> dict_get (get_last_alert_hashes_by_fingerprints db t [Some f]) f = Some h"
  by (auto simp: has_hash_def last_hash_get list_ex_iff)

lemma flag_set: "alert_flag (dict_set k (JBool True) a) k' = (k' = k \<or> alert_flag a k')"
  by (simp add: alert_flag_def dict_get_set)

lemma flag_set_hash: "alert_flag (dict_set k (JStr s) a) k' = (k' \<noteq> k \<and> alert_flag a k')"
  by (simp add: alert_flag_def dict_get_set)

lemma str_set_hash: "k' \<noteq> k \<Longrightarrow> alert_str (dict_set k v a) k' = alert_str a k'"
  by (simp add: alert_str_def dict_get_set)

lemma apply_rule_cases:
  assumes "last_alerts_ok db" and "alert_str a ''fingerprint'' = Some f" and "alert_payload (rule_ignore_fields r) a = Inr p"
  shows "apply_deduplication_rule env db t a r None = Inr (
     let h = sha256 env p; c = dict_set ''alert_hash'' (JStr h) a in
     if has_hash db t f h then dict_set ''is_full_duplicate'' (JBool True) c
     else if \<exists>h'. has_hash db t f h' then dict_set ''is_partial_duplicate'' (JBool True) c else c)"
proof -
  have f: "alert_str (dict_set ''alert_hash'' (JStr (sha256 env p)) a) ''fingerprint'' = Some f" using assms(2) by (simp add: str_set_hash)
  have hh: "has_hash db t f k \<longleftrightarrow> k \<noteq> [] \<and> dict_get (get_last_alert_hashes_by_fingerprints db t [Some f]) f = Some k" for k
    by (rule has_hash_get [OF assms(1)])
  have ex: "(\<exists>h'. has_hash db t f h') \<longleftrightarrow>
      (\<exists>k. k \<noteq> [] \<and> dict_get (get_last_alert_hashes_by_fingerprints db t [Some f]) f = Some k)" by (simp only: hh)
  show ?thesis unfolding ex
    by (cases "dict_get (get_last_alert_hashes_by_fingerprints db t [Some f]) f")
      (use f in \<open>auto simp: apply_deduplication_rule_def assms(3) Let_def hh\<close>)
qed

text \<open>
  The verdict on an alert.  It is a full duplicate iff the row of its fingerprint holds the hash
  of its fields, a partial one iff that row holds another hash, and new otherwise; the alert is
  returned with its hash and at most that flag set, its other fields as they came.
\<close>

theorem deduplication_verdict:
  assumes "last_alerts_ok db" and "alert_str a ''fingerprint'' = Some f" and "alert_payload (rule_ignore_fields r) a = Inr p"
    and "\<not> alert_flag a ''is_full_duplicate''" and "\<not> alert_flag a ''is_partial_duplicate''"
  shows "\<exists>b. apply_deduplication_rule env db t a r None = Inr b \<and>
    dict_get b ''alert_hash'' = Some (JStr (sha256 env p)) \<and>
    (alert_flag b ''is_full_duplicate'' \<longleftrightarrow> has_hash db t f (sha256 env p)) \<and>
    (alert_flag b ''is_partial_duplicate'' \<longleftrightarrow>
      \<not> has_hash db t f (sha256 env p) \<and> (\<exists>h. has_hash db t f h)) \<and>
    (\<forall>k. k \<notin> {''alert_hash'', ''is_full_duplicate'', ''is_partial_duplicate''} \<longrightarrow> dict_get b k = dict_get a k)"
  unfolding apply_rule_cases [OF assms(1-3)] Let_def using assms(4,5)
  by (auto simp: flag_set flag_set_hash dict_get_set)

section \<open>Repeats of an alert\<close>

text \<open>
  C12: a repeat is recognised by a rule whose ignored fields are top-level ones (a name with a dot fails
  on alerts that lack the field, \<open>nested_field_must_exist\<close>).  When the table holds, for a fingerprint, the hash
  of an alert as the deduplicator computed it, a second alert with that fingerprint that differs from the first only in
  ignored fields, or in the order of its fields, is a full duplicate; one that differs in a field that
  counts is a partial duplicate, unless SHA-256 collides on the two texts.
\<close>

theorem repeats_are_recognised:
  assumes "json_ok (JObj a)" and "json_ok (JObj b)" and "\<forall>f \<in> set (rule_ignore_fields r). CHR ''.'' \<notin> set f"
    and "last_alerts_ok db" and "alert_str b ''fingerprint'' = Some f"
    and "\<not> alert_flag b ''is_full_duplicate''" and "\<not> alert_flag b ''is_partial_duplicate''"
    and "apply_deduplication_rule env db' t a r None = Inr a'" and "dict_get a' ''alert_hash'' = Some (JStr h)" and "has_hash db t f h"
    and no_collision: "\<forall>p q. sha256 env p = sha256 env q \<longrightarrow> alert_payload (rule_ignore_fields r) a = Inr p \<longrightarrow>
       alert_payload (rule_ignore_fields r) b = Inr q \<longrightarrow> p = q"
  shows "\<exists>b'. apply_deduplication_rule env db t b r None = Inr b' \<and>
    (if \<forall>k. k \<notin> set (rule_ignore_fields r) \<longrightarrow> map_option json_canon (dict_get a k) = map_option json_canon (dict_get b k)
     then alert_flag b' ''is_full_duplicate'' \<and> \<not> alert_flag b' ''is_partial_duplicate''
     else alert_flag b' ''is_partial_duplicate'' \<and> \<not> alert_flag b' ''is_full_duplicate'')"
proof -
  obtain p where p: "alert_payload (rule_ignore_fields r) a = Inr p"
    using assms(3) by (simp add: alert_payload_def remove_plain_fields)
  obtain q where q: "alert_payload (rule_ignore_fields r) b = Inr q"
    using assms(3) by (simp add: alert_payload_def remove_plain_fields)
  have h: "h = sha256 env p"
    using assms(8,9) p by (auto simp: apply_deduplication_rule_def Let_def dict_get_set split: option.splits if_splits)
  have unique: "has_hash db t f k \<longleftrightarrow> k = h" for k
    using assms(10) by (auto simp: has_hash_get [OF assms(4)])
  have "sha256 env q = h \<longleftrightarrow> p = q" using no_collision p q h by auto
  moreover have "p = q \<longleftrightarrow> (\<forall>k. k \<notin> set (rule_ignore_fields r) \<longrightarrow>
      map_option json_canon (dict_get a k) = map_option json_canon (dict_get b k))"
    using same_payload_iff [OF assms(1-3)] p q by simp
  ultimately show ?thesis
    unfolding apply_rule_cases [OF assms(4,5) q] Let_def unique using assms(6,7) by (auto simp: flag_set flag_set_hash)
qed

section \<open>Events\<close>

definition rule_uuid :: "applied_rule \<Rightarrow> nat option" where
  "rule_uuid r = (case rule_ref r of Inl s \<Rightarrow> uuid_int s | Inr n \<Rightarrow> Some n)"

lemma default_ignores [simp]: "dto_ignore_fields (get_default_full_deduplication_rule env pid pt) = [''last_received'']"
  by (simp add: get_default_full_deduplication_rule_def Let_def)

text \<open>The rule an alert is checked against: the one of its provider, or the default.\<close>

lemma selected_rule:
  assumes "get_deduplication_rules env db t pid pt = Inr rs"
  shows "rs = [Default (get_default_full_deduplication_rule env pid (Some (or_keep pt)))] \<or>
    (\<exists>q. get_custom_deduplication_rule db t pid (or_keep pt) = Inr (Some q) \<and>
      rs = [Custom (if row_full q then q else q\<lparr>row_ignore_fields := [''last_received'']\<rparr>)])"
proof (cases "custom_enabled env")
  case False
  with assms show ?thesis by (simp add: get_deduplication_rules_def)
next
  case True
  show ?thesis
  proof (cases "get_custom_deduplication_rule db t pid (or_keep pt)")
    case (Inr q)
    with assms True show ?thesis by (cases q) (auto simp: get_deduplication_rules_def)
  qed (use assms True in \<open>simp add: get_deduplication_rules_def\<close>)
qed

lemma custom_rule_in_table:
  assumes "get_custom_deduplication_rule db t pid pt = Inr (Some q)"
  shows "q \<in> set (db_rules db) \<and> row_tenant q = t \<and> row_provider_id q = pid \<and> row_provider_type q = pt"
proof -
  let ?P = "\<lambda>r. row_tenant r = t \<and> row_provider_id r = pid \<and> row_provider_type r = pt"
  from assms have "filter ?P (db_rules db) = [q]"
    unfolding get_custom_deduplication_rule_def by (auto split: list.splits)
  then have "q \<in> set (filter ?P (db_rules db))" by (metis list.set_intros(1))
  then show ?thesis by simp
qed

lemma applied_rule_fields:
  assumes "apply_deduplication_rule env db t a r known = Inr b"
    and "k \<notin> {''alert_hash'', ''is_full_duplicate'', ''is_partial_duplicate''}"
  shows "dict_get b k = dict_get a k"
proof -
  obtain p where "alert_payload (rule_ignore_fields r) a = Inr p"
    using assms(1) by (auto simp: apply_deduplication_rule_def)
  with assms show ?thesis
    by (auto simp: apply_deduplication_rule_def Let_def dict_get_set split: option.splits if_splits)
qed

lemma default_rule_uuid:
  assumes "\<forall>s. uuid5 env s < 2 ^ 128"
  shows "rule_uuid (Default (get_default_full_deduplication_rule env pid pt)) = uuid_int (generate_uuid env pid pt) \<and>
    (\<exists>n. uuid_int (generate_uuid env pid pt) = Some n)"
  using assms by (simp add: rule_uuid_def get_default_full_deduplication_rule_def generate_uuid_def Let_def uuid_int_str)

lemma rule_uuid_defined:
  assumes "get_deduplication_rules env db t pid pt = Inr rs" and "r \<in> set rs" and "\<forall>s. uuid5 env s < 2 ^ 128"
  shows "\<exists>n. rule_uuid r = Some n"
proof (cases r)
  case (Custom q) then show ?thesis by (simp add: rule_uuid_def)
next
  case (Default d)
  with assms(2) selected_rule [OF assms(1)] have "d = get_default_full_deduplication_rule env pid (Some (or_keep pt))"
    by auto
  with Default default_rule_uuid [OF assms(3)] show ?thesis by metis
qed

lemma create_event_uuid:
  "rule_uuid r = Some n \<Longrightarrow> create_deduplication_event now t (rule_ref r) ty pid pt db = db\<lparr>db_events := db_events db @
     [\<lparr>ev_tenant = t, ev_timestamp = now, ev_rule = n, ev_type = ty, ev_date_hour = now div 3600,
       ev_provider_id = pid, ev_provider_type = pt\<rparr>]\<rparr>"
  by (simp add: rule_uuid_def create_deduplication_event_def)

text \<open>
  One event per alert.  With the distribution on, applying the tenant's rules to an alert writes
  exactly one event, for the rule that was applied and the alert's provider, whose type is the verdict
  the returned alert carries; no rule and no stored hash changes.
\<close>

lemma one_event:
  assumes "distribution_enabled env" and "\<forall>s. uuid5 env s < 2 ^ 128"
    and "get_deduplication_rules env db t (alert_str a ''provider_id'') (alert_str a ''provider_type'') = Inr rs"
    and "apply_deduplication env now t a None None db = (db', Inr b)"
  shows "\<exists>r n. rs = [r] \<and> rule_uuid r = Some n \<and> apply_deduplication_rule env db t a r None = Inr b \<and>
    db' = db\<lparr>db_events := db_events db @
      [\<lparr>ev_tenant = t, ev_timestamp = now, ev_rule = n,
        ev_type = (if alert_flag b ''is_full_duplicate'' then ''full''
                   else if alert_flag b ''is_partial_duplicate'' then ''partial'' else ''none''),
        ev_date_hour = now div 3600, ev_provider_id = alert_str a ''provider_id'',
        ev_provider_type = alert_str a ''provider_type''\<rparr>]\<rparr>"
proof -
  obtain r where rs: "rs = [r]" using selected_rule [OF assms(3)] by blast
  obtain n where n: "rule_uuid r = Some n" using rule_uuid_defined [OF assms(3) _ assms(2)] rs by auto
  have run: "apply_rules env now t None [r] a db = (db', Inr b)" using assms(3,4) rs by (simp add: apply_deduplication_def)
  then have b: "apply_deduplication_rule env db t a r None = Inr b"
    by (auto simp: Let_def split: sum.splits if_splits)
  have "alert_str b ''provider_id'' = alert_str a ''provider_id''" "alert_str b ''provider_type'' = alert_str a ''provider_type''"
    unfolding alert_str_def using applied_rule_fields [OF b] by simp_all
  with run b assms(1) rs n show ?thesis by (auto simp: Let_def create_event_uuid [OF n] split: if_splits)
qed

text \<open>
  A field the alert does not have is skipped only at the top level.  An ignored field without a
  dot is dropped from the alert where it is there and ignored where it is not; a dotted one
  whose first part the alert lacks raises \<open>AttributeError\<close>, so no alert of that provider is
  deduplicated and no event is written.
\<close>

theorem nested_field_must_exist:
  assumes "CHR ''.'' \<notin> set f" and "dict_get a f = None"
    and "get_deduplication_rules env db t (alert_str a ''provider_id'') (alert_str a ''provider_type'') = Inr [r]"
    and "rule_ignore_fields r = (f @ ''.'' @ g) # fs"
  shows "remove_field f a = Inr (dict_del f a) \<and> dict_get (dict_del f a) = dict_get a \<and>
    apply_deduplication env now t a None known db = (db, Inl AttributeError)"
proof -
  have split: "py_split (CHR ''.'') (f @ ''.'' @ g) = f # py_split (CHR ''.'') g" using py_split_append [OF assms(1), of g] by simp
  have "remove_field (f @ ''.'' @ g) a = Inl AttributeError"
    using assms(2) py_split_nonempty [of "CHR ''.''" g] unfolding remove_field_def split
    by (auto split: list.split)
  then show ?thesis using assms
    by (simp add: remove_plain_field apply_deduplication_def apply_deduplication_rule_def alert_payload_def fun_eq_iff dict_get_del)
qed

section \<open>Concrete runs\<close>

text \<open>An environment and two deliveries of an alert, for the instances of the theorems.\<close>

definition sample_env :: dedup_env where
  "sample_env = \<lparr>distribution_enabled = True, custom_enabled = True, sha256 = (\<lambda>s. s), uuid5 = (\<lambda>s. 42)\<rparr>"

definition sample_alert :: "string \<Rightarrow> alert" where
  "sample_alert received = [(''name'', JStr ''cpu''), (''last_received'', JStr received),
     (''is_full_duplicate'', JBool False), (''is_partial_duplicate'', JBool False),
     (''fingerprint'', JStr ''f''), (''provider_id'', JNull), (''provider_type'', JNull)]"

definition sample_hash :: string where
  "sample_hash = json_dumps (json_sort (JObj (dict_del ''last_received'' (sample_alert ''1''))))"

definition sample_db :: dedup_db where
  "sample_db = \<lparr>db_rules = [], db_events = [],
     db_last = [\<lparr>la_tenant = ''t'', la_fingerprint = ''f'', la_hash = Some sample_hash\<rparr>]\<rparr>"

definition sample_rule :: applied_rule where
  "sample_rule = Default (get_default_full_deduplication_rule sample_env None (Some ''keep''))"

lemma sample_rule_ignores [simp]: "rule_ignore_fields sample_rule = [''last_received'']"
  by (simp add: sample_rule_def)

lemma sample_payload: "alert_payload [''last_received''] (sample_alert x) = Inr sample_hash"
  unfolding alert_payload_def by (subst remove_plain_fields) (code_simp, simp add: sample_hash_def sample_alert_def dict_del_def)

lemma sample_facts:
  fixes x :: string
  shows
  "last_alerts_ok sample_db" "alert_str (sample_alert x) ''fingerprint'' = Some ''f''"
  "\<not> alert_flag (sample_alert x) ''is_full_duplicate''" "\<not> alert_flag (sample_alert x) ''is_partial_duplicate''"
  "alert_str (sample_alert x) ''provider_id'' = None" "alert_str (sample_alert x) ''provider_type'' = None"
  "sha256 sample_env s = s" "has_hash sample_db ''t'' ''f'' sample_hash" "\<forall>s. uuid5 sample_env s < 2 ^ 128"
  "get_deduplication_rules sample_env sample_db ''t'' None None = Inr [sample_rule]"
proof -
  have "sample_hash \<noteq> []" by (simp add: sample_hash_def json_sort_obj)
  then show "has_hash sample_db ''t'' ''f'' sample_hash" by (simp add: has_hash_def sample_db_def)
qed (simp_all add: last_alerts_ok_def sample_db_def alert_str_def alert_flag_def sample_alert_def dict_get_def sample_env_def
  sample_rule_def get_deduplication_rules_def or_keep_def get_custom_deduplication_rule_def)

theorem deduplication_verdict_witness:
  "\<exists>b. apply_deduplication_rule sample_env sample_db ''t'' (sample_alert ''2'') sample_rule None = Inr b \<and>
    alert_flag b ''is_full_duplicate'' \<and> \<not> alert_flag b ''is_partial_duplicate''"
  using deduplication_verdict [where db = sample_db and f = "''f''" and a = "sample_alert ''2''" and r = sample_rule and p = sample_hash and env = sample_env and t = "''t''"]
    sample_payload [of "''2''"] sample_facts by auto

theorem repeats_are_recognised_witness:
  "\<exists>b. apply_deduplication_rule sample_env sample_db ''t'' (sample_alert ''2'') sample_rule None = Inr b \<and>
    alert_flag b ''is_full_duplicate''"
proof -
  obtain a where a: "apply_deduplication_rule sample_env sample_db ''t'' (sample_alert ''1'') sample_rule None = Inr a"
    "dict_get a ''alert_hash'' = Some (JStr sample_hash)"
    using apply_rule_cases [where db = sample_db and f = "''f''" and a = "sample_alert ''1''" and r = sample_rule and p = sample_hash and env = sample_env and t = "''t''"] sample_payload [of "''1''"] sample_facts
    by (auto simp: Let_def dict_get_set)
  have ok: "json_ok (JObj (sample_alert ''1''))" "json_ok (JObj (sample_alert ''2''))" by code_simp+
  have "\<forall>k. k \<notin> set (rule_ignore_fields sample_rule) \<longrightarrow>
      map_option json_canon (dict_get (sample_alert ''1'') k) = map_option json_canon (dict_get (sample_alert ''2'') k)"
    by (auto simp: sample_alert_def dict_get_def)
  then show ?thesis
    using repeats_are_recognised [OF ok _ sample_facts(1,2,3,4) a sample_facts(8)] sample_payload sample_facts(7) by auto
qed

definition nested_rule :: dedup_row where
  "nested_rule = \<lparr>row_id = 7, row_tenant = ''t'', row_name = ''n'', row_description = ''d'', row_provider_id = None,
     row_provider_type = ''keep'', row_last_updated = ''now'', row_last_updated_by = ''u'', row_created_at = ''now'', row_created_by = ''u'',
     row_enabled = True, row_fingerprint_fields = [], row_full = True, row_ignore_fields = [''labels.pod''],
     row_priority = 0, row_is_provisioned = False\<rparr>"

theorem nested_field_must_exist_witness:
  "apply_deduplication sample_env 0 ''t'' (sample_alert ''1'') None None (sample_db\<lparr>db_rules := [nested_rule]\<rparr>)
     = (sample_db\<lparr>db_rules := [nested_rule]\<rparr>, Inl AttributeError)"
proof -
  have "get_deduplication_rules sample_env (sample_db\<lparr>db_rules := [nested_rule]\<rparr>) ''t'' None None = Inr [Custom nested_rule]"
    by (simp add: get_deduplication_rules_def sample_env_def get_custom_deduplication_rule_def nested_rule_def or_keep_def)
  then show ?thesis
    using nested_field_must_exist [of "''labels''" "sample_alert ''1''" sample_env "sample_db\<lparr>db_rules := [nested_rule]\<rparr>" "''t''"
      "Custom nested_rule" "''pod''" "[]"] sample_facts(5,6) [of "''1''"]
    by (simp add: sample_alert_def dict_get_def nested_rule_def)
qed
end
