(* ===== verification/Deduplication_Rules.thy ===== *)
theory Deduplication_Rules
  imports Alert_Deduplicator
begin

text \<open>
  The rules of deduplication: the operations of \<open>alert_deduplicator.py\<close> that create, update, delete and
  list them, the queries of \<open>src/src/repositories/db.py\<close> behind these, the routes of
  \<open>src/src/routes/deduplications.py\<close>, and the provisioning of rules at start-up
  (\<open>deduplication_rules_provisioning.py\<close>).  An operation returns the tables with its result, so what it
  stored before an exception is kept.  A fresh \<open>uuid4\<close> and the text of the clock are arguments.
\<close>

section \<open>Requests and providers\<close>

record rule_request =
  req_name :: string
  req_description :: "string option"
  req_provider_type :: string
  req_provider_id :: "string option"
  req_fingerprint_fields :: "string list"
  req_full :: bool
  req_ignore_fields :: "string list option"

text \<open>What is read of a \<open>Provider\<close>; installed and linked ones come from the providers factory.\<close>

record provider =
  pr_type :: string
  pr_id :: "string option"
  pr_name :: "string option"
  pr_tags :: "string list"

definition py_text :: "string option \<Rightarrow> string" where
  "py_text x = (case x of None \<Rightarrow> ''None'' | Some s \<Rightarrow> s)"

definition provider_key :: "string \<Rightarrow> string option \<Rightarrow> string" where
  "provider_key ty i = ty @ ''_'' @ py_text i"

section \<open>Rows\<close>

definition get_all_deduplication_rules :: "dedup_db \<Rightarrow> string \<Rightarrow> dedup_row list" where
  "get_all_deduplication_rules db t = filter (\<lambda>r. row_tenant r = t) (db_rules db)"

definition get_deduplication_rule_by_id :: "dedup_db \<Rightarrow> string \<Rightarrow> string \<Rightarrow> dedup_row option" where
  "get_deduplication_rule_by_id db t rid =
     (case uuid_int rid of None \<Rightarrow> None
      | Some n \<Rightarrow> find (\<lambda>r. row_tenant r = t \<and> row_id r = n) (db_rules db))"

text \<open>The columns a request sets; the column of the description does not take \<open>NULL\<close>.\<close>

record rule_values =
  v_name :: string
  v_description :: "string option"
  v_provider_id :: "string option"
  v_provider_type :: string
  v_by :: string
  v_enabled :: bool
  v_fingerprint_fields :: "string list"
  v_full :: bool
  v_ignore_fields :: "string list"
  v_priority :: int

definition db_create_deduplication_rule ::
  "nat \<Rightarrow> string \<Rightarrow> string \<Rightarrow> rule_values \<Rightarrow> bool \<Rightarrow> dedup_db \<Rightarrow> dedup_db \<times> (dedup_error + dedup_row)" where
  "db_create_deduplication_rule new now t v provisioned db =
     (case v_description v of
        None \<Rightarrow> (db, Inl IntegrityError)
      | Some d \<Rightarrow>
          let r = \<lparr>row_id = new, row_tenant = t, row_name = v_name v, row_description = d,
                row_provider_id = v_provider_id v, row_provider_type = v_provider_type v,
                row_last_updated = now, row_last_updated_by = v_by v, row_created_at = now, row_created_by = v_by v,
                row_enabled = v_enabled v, row_fingerprint_fields = v_fingerprint_fields v, row_full = v_full v,
                row_ignore_fields = v_ignore_fields v, row_priority = v_priority v, row_is_provisioned = provisioned\<rparr>
          in (db\<lparr>db_rules := db_rules db @ [r]\<rparr>, Inr r))"

definition set_row :: "rule_values \<Rightarrow> string \<Rightarrow> dedup_row \<Rightarrow> dedup_row" where
  "set_row v d r = r\<lparr>row_name := v_name v, row_description := d,
     row_provider_id := v_provider_id v, row_provider_type := v_provider_type v, row_last_updated_by := v_by v,
     row_enabled := v_enabled v, row_fingerprint_fields := v_fingerprint_fields v, row_full := v_full v,
     row_ignore_fields := v_ignore_fields v, row_priority := v_priority v\<rparr>"

fun replace_first :: "('a \<Rightarrow> bool) \<Rightarrow> ('a \<Rightarrow> 'a) \<Rightarrow> 'a list \<Rightarrow> 'a list" where
  "replace_first P f [] = []"
| "replace_first P f (x # xs) = (if P x then f x # xs else x # replace_first P f xs)"

fun remove_first :: "('a \<Rightarrow> bool) \<Rightarrow> 'a list \<Rightarrow> 'a list" where
  "remove_first P [] = []"
| "remove_first P (x # xs) = (if P x then xs else x # remove_first P xs)"

text \<open>The result is \<open>None\<close> for the \<open>False\<close> of an id that is no UUID.\<close>

definition db_update_deduplication_rule ::
  "string \<Rightarrow> string \<Rightarrow> rule_values \<Rightarrow> dedup_db \<Rightarrow> dedup_db \<times> (dedup_error + dedup_row option)" where
  "db_update_deduplication_rule rid t v db =
     (case uuid_int rid of
        None \<Rightarrow> (db, Inr None)
      | Some n \<Rightarrow>
          let P = (\<lambda>r. row_id r = n \<and> row_tenant r = t) in
          case find P (db_rules db) of
            None \<Rightarrow> (db, Inl ValueError)
          | Some r \<Rightarrow>
              case v_description v of
                None \<Rightarrow> (db, Inl IntegrityError)
              | Some d \<Rightarrow> (db\<lparr>db_rules := replace_first P (set_row v d) (db_rules db)\<rparr>, Inr (Some (set_row v d r))))"

definition db_delete_deduplication_rule :: "string \<Rightarrow> string \<Rightarrow> dedup_db \<Rightarrow> dedup_db \<times> bool" where
  "db_delete_deduplication_rule rid t db =
     (case uuid_int rid of
        None \<Rightarrow> (db, False)
      | Some n \<Rightarrow>
          let P = (\<lambda>r. row_id r = n \<and> row_tenant r = t) in
          if list_ex P (db_rules db) then (db\<lparr>db_rules := remove_first P (db_rules db)\<rparr>, True) else (db, False))"

section \<open>The service\<close>

definition request_values :: "rule_request \<Rightarrow> string \<Rightarrow> rule_values" where
  "request_values req who = \<lparr>v_name = req_name req, v_description = req_description req,
     v_provider_id = req_provider_id req, v_provider_type = req_provider_type req, v_by = who,
     v_enabled = True, v_fingerprint_fields = req_fingerprint_fields req, v_full = req_full req,
     v_ignore_fields = (case req_ignore_fields req of None \<Rightarrow> [] | Some fs \<Rightarrow> fs), v_priority = 0\<rparr>"

definition create_deduplication_rule ::
  "provider list \<Rightarrow> nat \<Rightarrow> string \<Rightarrow> string \<Rightarrow> rule_request \<Rightarrow> string \<Rightarrow> dedup_db
   \<Rightarrow> dedup_db \<times> (dedup_error + dedup_row)" where
  "create_deduplication_rule providers new now t req0 who db =
     (let key0 = provider_key (req_provider_type req0) (req_provider_id req0);
          (key, req) = (if py_in ''null'' key0
            then (py_replace ''null'' ''None'' key0, req0\<lparr>req_provider_id := None\<rparr>) else (key0, req0))
      in if \<not> list_ex (\<lambda>p. provider_key (pr_type p) (pr_id p) = key) providers
         then (db, Inl (HTTPException 404 (''Provider '' @ req_provider_type req @ '' not found'' @
                (case req_provider_id req of Some (c # s) \<Rightarrow> '' with id '' @ c # s | _ \<Rightarrow> []))))
         else db_create_deduplication_rule new now t (request_values req who) False db)"

definition update_deduplication_rule ::
  "dedup_env \<Rightarrow> provider list \<Rightarrow> nat \<Rightarrow> string \<Rightarrow> string \<Rightarrow> string \<Rightarrow> rule_request \<Rightarrow> string \<Rightarrow> dedup_db
   \<Rightarrow> dedup_db \<times> (dedup_error + dedup_row option)" where
  "update_deduplication_rule env providers new now t rid req who db =
     (if rid = generate_uuid env (req_provider_id req) (Some (req_provider_type req))
      then apsnd (map_sum id Some) (create_deduplication_rule providers new now t req who db)
      else case get_deduplication_rule_by_id db t rid of
          None \<Rightarrow> (db, Inl (HTTPException 404 ''Deduplication rule not found''))
        | Some r \<Rightarrow>
            if row_is_provisioned r
            then (db, Inl (HTTPException 409 ''Provisioned deduplication rule cannot be updated''))
            else db_update_deduplication_rule rid t (request_values req who) db)"

definition delete_deduplication_rule :: "string \<Rightarrow> string \<Rightarrow> dedup_db \<Rightarrow> dedup_db \<times> (dedup_error + bool)" where
  "delete_deduplication_rule t rid db =
     (case get_deduplication_rule_by_id db t rid of
        None \<Rightarrow> (db, Inl (HTTPException 404 ''Deduplication rule not found''))
      | Some r \<Rightarrow>
          if row_is_provisioned r
          then (db, Inl (HTTPException 409 ''Provisioned deduplication rule cannot be deleted''))
          else apsnd Inr (db_delete_deduplication_rule rid t db))"

section \<open>The routes\<close>

text \<open>A route answers with a value or with the status code of an \<open>HTTPException\<close>.\<close>

fun keep_status :: "dedup_error \<Rightarrow> nat" where
  "keep_status (HTTPException c d) = c"
| "keep_status e = 400"

definition create_rule_route ::
  "provider list \<Rightarrow> nat \<Rightarrow> string \<Rightarrow> string \<Rightarrow> rule_request \<Rightarrow> string \<Rightarrow> dedup_db \<Rightarrow> dedup_db \<times> (nat + dedup_row)" where
  "create_rule_route providers new now t req who db =
     apsnd (map_sum keep_status id) (create_deduplication_rule providers new now t req who db)"

definition update_rule_route ::
  "dedup_env \<Rightarrow> provider list \<Rightarrow> nat \<Rightarrow> string \<Rightarrow> string \<Rightarrow> string \<Rightarrow> rule_request \<Rightarrow> string \<Rightarrow> dedup_db
   \<Rightarrow> dedup_db \<times> (nat + dedup_row option)" where
  "update_rule_route env providers new now t rid req who db =
     apsnd (map_sum (\<lambda>e. 400) id) (update_deduplication_rule env providers new now t rid req who db)"

definition delete_rule_route :: "string \<Rightarrow> string \<Rightarrow> dedup_db \<Rightarrow> dedup_db \<times> (nat + unit)" where
  "delete_rule_route t rid db =
     (if uuid_int rid = None then (db, Inl 400)
      else apsnd (\<lambda>res. case res of Inl e \<Rightarrow> Inl (keep_status e)
             | Inr success \<Rightarrow> if success then Inr () else Inl 404) (delete_deduplication_rule t rid db))"

text \<open>What the callers of the API can send, with the tenant of the caller.\<close>

datatype rules_call =
    Create_Rule rule_request string nat string
  | Update_Rule string rule_request string nat string
  | Delete_Rule string

fun run_call :: "dedup_env \<Rightarrow> provider list \<Rightarrow> string \<times> rules_call \<Rightarrow> dedup_db \<Rightarrow> dedup_db" where
  "run_call env ps (t, Create_Rule req who new now) db = fst (create_rule_route ps new now t req who db)"
| "run_call env ps (t, Update_Rule rid req who new now) db = fst (update_rule_route env ps new now t rid req who db)"
| "run_call env ps (t, Delete_Rule rid) db = fst (delete_rule_route t rid db)"

section \<open>What the API cannot touch\<close>

lemma replace_first_filter:
  "(\<And>x. P x \<Longrightarrow> x \<in> set xs \<Longrightarrow> find P xs = Some x \<Longrightarrow> \<not> Q x \<and> \<not> Q (f x)) \<Longrightarrow> filter Q (replace_first P f xs) = filter Q xs"
  by (induction xs) auto

lemma remove_first_filter:
  "(\<And>x. P x \<Longrightarrow> x \<in> set xs \<Longrightarrow> find P xs = Some x \<Longrightarrow> \<not> Q x) \<Longrightarrow> filter Q (remove_first P xs) = filter Q xs"
  by (induction xs) auto

text \<open>The rows out of reach of a tenant's callers: those of other tenants, and the provisioned ones.\<close>

definition protected_row :: "string set \<Rightarrow> dedup_row \<Rightarrow> bool" where
  "protected_row ts r = (row_is_provisioned r \<or> row_tenant r \<notin> ts)"

definition protects :: "string set \<Rightarrow> dedup_db \<Rightarrow> dedup_db \<Rightarrow> bool" where
  "protects ts db db' = (filter (protected_row ts) (db_rules db') = filter (protected_row ts) (db_rules db) \<and>
     db_events db' = db_events db \<and> db_last db' = db_last db)"

lemma protects_refl [simp]: "protects ts db db"
  by (simp add: protects_def)

lemma create_protects: "t \<in> ts \<Longrightarrow> protects ts db (fst (create_deduplication_rule ps new now t req who db))"
  by (simp add: create_deduplication_rule_def db_create_deduplication_rule_def protects_def protected_row_def Let_def split: option.split prod.split)

lemma found_row:
  assumes "get_deduplication_rule_by_id db t rid = Some r" and "uuid_int rid = Some n"
    and "find (\<lambda>r. row_id r = n \<and> row_tenant r = t) (db_rules db) = Some q"
  shows "q = r"
  using assms by (simp add: get_deduplication_rule_by_id_def conj_commute)

lemma update_protects:
  assumes "t \<in> ts"
  shows "protects ts db (fst (update_deduplication_rule env ps new now t rid req who db))"
proof (cases "rid = generate_uuid env (req_provider_id req) (Some (req_provider_type req))")
  case True
  with create_protects [OF assms] show ?thesis by (simp add: update_deduplication_rule_def)
next
  case False
  note upd = False
  show ?thesis
  proof (cases "get_deduplication_rule_by_id db t rid")
    case (Some r)
    show ?thesis
    proof (cases "row_is_provisioned r")
      case False
      have "protects ts db (fst (db_update_deduplication_rule rid t (request_values req who) db))"
        using assms False found_row [OF Some]
        by (auto simp: db_update_deduplication_rule_def protects_def protected_row_def set_row_def Let_def
          split: option.split intro!: replace_first_filter)
      with upd Some False show ?thesis by (simp add: update_deduplication_rule_def)
    qed (use upd Some in \<open>simp add: update_deduplication_rule_def\<close>)
  qed (use upd in \<open>simp add: update_deduplication_rule_def\<close>)
qed

lemma delete_protects:
  assumes "t \<in> ts"
  shows "protects ts db (fst (delete_deduplication_rule t rid db))"
proof (cases "get_deduplication_rule_by_id db t rid")
  case (Some r)
  show ?thesis
  proof (cases "row_is_provisioned r")
    case False
    have "protects ts db (fst (db_delete_deduplication_rule rid t db))"
      using assms False found_row [OF Some]
      by (auto simp: db_delete_deduplication_rule_def protects_def protected_row_def Let_def
        split: option.split intro!: remove_first_filter)
    with Some False show ?thesis by (simp add: delete_deduplication_rule_def)
  qed (use Some in \<open>simp add: delete_deduplication_rule_def\<close>)
qed (simp add: delete_deduplication_rule_def)

lemma run_call_protects: "t \<in> ts \<Longrightarrow> protects ts db (run_call env ps (t, c) db)"
  using create_protects update_protects delete_protects
  by (cases c) (auto simp: create_rule_route_def update_rule_route_def delete_rule_route_def)

text \<open>
  C14: the API is confined.  Whatever sequence of create, update and delete calls the callers
  of some tenants make, the rows of every other tenant and all provisioned rows stay as they are and
  where they are, and so do the events and the stored hashes.
\<close>

theorem rules_api_is_confined:
  "protects (fst ` set calls) db (fold (run_call env ps) calls db)"
proof -
  have "set cs \<subseteq> set calls \<Longrightarrow> protects (fst ` set calls) db d \<Longrightarrow> protects (fst ` set calls) db (fold (run_call env ps) cs d)" for cs d
  proof (induction cs arbitrary: d)
    case (Cons c cs)
    from Cons.prems(1) have "protects (fst ` set calls) d (run_call env ps c d)"
      using run_call_protects [of "fst c" _ d env ps "snd c"] by auto
    with Cons.prems have "protects (fst ` set calls) db (run_call env ps c d)" by (simp add: protects_def)
    with Cons show ?case by simp
  qed simp
  from this [of calls db] show ?thesis by simp
qed

section \<open>Two rules for one provider\<close>

lemma created_row:
  assumes "create_deduplication_rule ps new now t req who db = (db', Inr r)"
  shows "db' = db\<lparr>db_rules := db_rules db @ [r]\<rparr> \<and> row_tenant r = t \<and> row_provider_type r = req_provider_type req \<and>
    row_provider_id r = (if py_in ''null'' (provider_key (req_provider_type req) (req_provider_id req)) then None else req_provider_id req) \<and>
    row_full r = req_full req \<and> \<not> row_is_provisioned r \<and> row_id r = new \<and> row_last_updated r = now"
  using assms
  by (auto simp: create_deduplication_rule_def db_create_deduplication_rule_def request_values_def Let_def
    split: if_splits option.splits)

text \<open>
  A second rule for a provider stops deduplication.  Nothing keeps two rules apart: after two
  creations for the same provider have been accepted, every alert of that provider ends in
  \<open>MultipleResultsFound\<close> instead of a verdict.
\<close>

theorem second_rule_stops_deduplication:
  assumes "create_deduplication_rule ps m now t req who db = (db', Inr r)"
    and "create_deduplication_rule ps' m' now' t req' who' db' = (db'', Inr r')"
    and "row_provider_id r' = row_provider_id r" and "row_provider_type r' = row_provider_type r"
    and "custom_enabled env"
    and "alert_str a ''provider_id'' = row_provider_id r" and "or_keep (alert_str a ''provider_type'') = row_provider_type r"
  shows "apply_deduplication env clock t a None known db'' = (db'', Inl MultipleResultsFound)"
proof -
  let ?P = "\<lambda>q. row_tenant q = t \<and> row_provider_id q = row_provider_id r \<and> row_provider_type q = row_provider_type r"
  have "db_rules db'' = db_rules db @ [r, r']" "?P r" "?P r'"
    using created_row [OF assms(1)] created_row [OF assms(2)] assms(3,4) by auto
  then have "filter ?P (db_rules db'') = filter ?P (db_rules db) @ [r, r']" by simp
  then have "get_custom_deduplication_rule db'' t (row_provider_id r) (row_provider_type r) = Inl MultipleResultsFound"
    unfolding get_custom_deduplication_rule_def by (auto split: list.split)
  with assms(5-7) show ?thesis by (simp add: apply_deduplication_def get_deduplication_rules_def)
qed

section \<open>Status codes\<close>

text \<open>
  What a client learns of a refused call.  A rule that does not exist or is provisioned is left
  alone by both routes; \<open>DELETE\<close> answers 404 and 409, while \<open>PUT\<close> answers 400 to both, since its handler
  catches the service's \<open>HTTPException\<close> with every other exception.
\<close>

theorem update_hides_the_status:
  assumes "uuid_int rid = Some n" and "rid \<noteq> generate_uuid env (req_provider_id req) (Some (req_provider_type req))"
    and "get_deduplication_rule_by_id db t rid = found" and "case found of None \<Rightarrow> True | Some r \<Rightarrow> row_is_provisioned r"
  shows "update_rule_route env ps new now t rid req who db = (db, Inl 400) \<and>
    delete_rule_route t rid db = (db, Inl (if found = None then 404 else 409))"
  using assms by (auto simp: update_rule_route_def delete_rule_route_def update_deduplication_rule_def
    delete_deduplication_rule_def split: option.splits)

section \<open>Provisioning\<close>

text \<open>
  A rule of the configuration: its keys, \<open>None\<close> where it has none and \<open>.get\<close> gives a default.  A key given as
  null is not among them; for the description the database refuses it.
\<close>

record rule_spec =
  sp_provider_name :: "string option"
  sp_description :: "string option"
  sp_fingerprint_fields :: "string list option"
  sp_full :: "bool option"
  sp_ignore_fields :: "string list option"

definition or_default :: "'a \<Rightarrow> 'a option \<Rightarrow> 'a" where
  "or_default d x = (case x of None \<Rightarrow> d | Some v \<Rightarrow> v)"

definition enrich_with_providers_info ::
  "provider list \<Rightarrow> (string, rule_spec) pydict \<Rightarrow> dedup_error + (string \<times> rule_spec \<times> string option \<times> string) list" where
  "enrich_with_providers_info installed specs =
     (let by_name = fold (\<lambda>p. dict_set (pr_name p) p) installed [] in
      traverse (\<lambda>(name, sp). case dict_get by_name (sp_provider_name sp) of
          None \<Rightarrow> Inl AttributeError
        | Some p \<Rightarrow> Inr (name, sp, pr_id p, pr_type p)) specs)"

fun spec_values :: "string \<times> rule_spec \<times> string option \<times> string \<Rightarrow> rule_values" where
  "spec_values (name, sp, pid, pt) = \<lparr>v_name = name, v_description = Some (or_default [] (sp_description sp)),
     v_provider_id = pid, v_provider_type = pt, v_by = ''system'', v_enabled = True,
     v_fingerprint_fields = or_default [] (sp_fingerprint_fields sp), v_full = or_default False (sp_full sp),
     v_ignore_fields = or_default [] (sp_ignore_fields sp), v_priority = 0\<rparr>"

definition provisioned_rows :: "dedup_db \<Rightarrow> string \<Rightarrow> dedup_row list" where
  "provisioned_rows db t = filter row_is_provisioned (get_all_deduplication_rules db t)"

text \<open>The update of a rule that was just read has nothing to refuse, so its answer is not looked at.\<close>

definition provision_one ::
  "(string \<Rightarrow> nat) \<Rightarrow> string \<Rightarrow> string \<Rightarrow> (string, dedup_row) pydict
   \<Rightarrow> string \<times> rule_spec \<times> string option \<times> string \<Rightarrow> dedup_db \<Rightarrow> dedup_db" where
  "provision_one fresh now t old sp db =
     (case dict_get old (fst sp) of
        Some r \<Rightarrow> fst (db_update_deduplication_rule (uuid_str (row_id r)) t (spec_values sp) db)
      | None \<Rightarrow> fst (db_create_deduplication_rule (fresh (fst sp)) now t (spec_values sp) True db))"

definition provision_deduplication_rules ::
  "provider list \<Rightarrow> (string \<Rightarrow> nat) \<Rightarrow> string \<Rightarrow> string \<Rightarrow> (string, rule_spec) pydict \<Rightarrow> dedup_db
   \<Rightarrow> dedup_db \<times> (dedup_error + unit)" where
  "provision_deduplication_rules installed fresh now t specs db =
     (case enrich_with_providers_info installed specs of
        Inl e \<Rightarrow> (db, Inl e)
      | Inr sps \<Rightarrow>
          let old = provisioned_rows db t;
              by_name = fold (\<lambda>r. dict_set (row_name r) r) old [];
              db1 = fold (\<lambda>r db. if row_name r \<in> set (dict_keys specs) then db
                      else fst (db_delete_deduplication_rule (uuid_str (row_id r)) t db)) old db
          in (fold (provision_one fresh now t by_name) sps db1, Inr ()))"

definition provision_deduplication_rules_from_env ::
  "(string, rule_spec) pydict option \<Rightarrow> provider list \<Rightarrow> (string \<Rightarrow> nat) \<Rightarrow> string \<Rightarrow> string \<Rightarrow> dedup_db
   \<Rightarrow> dedup_db \<times> (dedup_error + unit)" where
  "provision_deduplication_rules_from_env specs installed fresh now t db =
     (case specs of Some (s # ss) \<Rightarrow> provision_deduplication_rules installed fresh now t (s # ss) db
      | _ \<Rightarrow> (db, Inr ()))"

section \<open>Provisioning reconciles the table with the configuration\<close>

text \<open>
  The specification: every provisioned row of the tenant is removed or brought to its entry of the
  configuration in place, the entries without a row are appended in their order, and no other row is
  touched.
\<close>

definition row_of_spec ::
  "(string \<Rightarrow> nat) \<Rightarrow> string \<Rightarrow> string \<Rightarrow> string \<times> rule_spec \<times> string option \<times> string \<Rightarrow> dedup_row" where
  "row_of_spec fresh now t sp = set_row (spec_values sp) (or_default [] (sp_description (fst (snd sp))))
     \<lparr>row_id = fresh (fst sp), row_tenant = t, row_name = [], row_description = [], row_provider_id = None,
      row_provider_type = [], row_last_updated = now, row_last_updated_by = [], row_created_at = now,
      row_created_by = ''system'', row_enabled = True, row_fingerprint_fields = [], row_full = False,
      row_ignore_fields = [], row_priority = 0, row_is_provisioned = True\<rparr>"

definition reconciled ::
  "(string \<Rightarrow> nat) \<Rightarrow> string \<Rightarrow> string \<Rightarrow> (string \<times> rule_spec \<times> string option \<times> string) list \<Rightarrow> dedup_row list \<Rightarrow> dedup_row list" where
  "reconciled fresh now t sps rows =
     (let ours = (\<lambda>r. row_tenant r = t \<and> row_is_provisioned r) in
      map (\<lambda>r. if ours r then (case map_of sps (row_name r) of None \<Rightarrow> r
              | Some s \<Rightarrow> set_row (spec_values (row_name r, s)) (or_default [] (sp_description (fst s))) r) else r)
        (filter (\<lambda>r. ours r \<longrightarrow> row_name r \<in> fst ` set sps) rows)
      @ map (row_of_spec fresh now t) (filter (\<lambda>sp. \<forall>r \<in> set rows. ours r \<longrightarrow> row_name r \<noteq> fst sp) sps))"

text \<open>Keys are unique, below \<open>2 ^ 128\<close>, and a tenant's provisioned rules have distinct names.\<close>

definition rules_ok :: "string \<Rightarrow> dedup_db \<Rightarrow> bool" where
  "rules_ok t db = (distinct (map row_id (db_rules db)) \<and> (\<forall>r \<in> set (db_rules db). row_id r < 2 ^ 128) \<and>
     distinct (map row_name (provisioned_rows db t)))"

lemma find_unique: "x \<in> set xs \<Longrightarrow> P x \<Longrightarrow> (\<And>y. y \<in> set xs \<Longrightarrow> P y \<Longrightarrow> y = x) \<Longrightarrow> find P xs = Some x"
proof (induction xs)
  case (Cons a xs)
  show ?case
  proof (cases "P a")
    case True
    then have "a = x" by (intro Cons.prems(3)) simp_all
    with True show ?thesis by simp
  next
    case False
    with Cons.prems(1,2) have "x \<in> set xs" by auto
    then have "find P xs = Some x" using Cons.prems(2) by (rule Cons.IH) (rule Cons.prems(3), simp_all)
    with False show ?thesis by simp
  qed
qed simp

lemma replace_first_unique:
  "distinct xs \<Longrightarrow> (\<And>x y. x \<in> set xs \<Longrightarrow> y \<in> set xs \<Longrightarrow> P x \<Longrightarrow> P y \<Longrightarrow> x = y) \<Longrightarrow>
    replace_first P f xs = map (\<lambda>x. if P x then f x else x) xs"
proof (induction xs)
  case (Cons x xs)
  show ?case
  proof (cases "P x")
    case True
    with Cons.prems have "\<not> P y" if "y \<in> set xs" for y using that by auto
    with True show ?thesis by (simp add: map_idI)
  qed (use Cons in simp)
qed simp

lemma remove_first_unique:
  "distinct xs \<Longrightarrow> (\<And>x y. x \<in> set xs \<Longrightarrow> y \<in> set xs \<Longrightarrow> P x \<Longrightarrow> P y \<Longrightarrow> x = y) \<Longrightarrow>
    remove_first P xs = filter (\<lambda>x. \<not> P x) xs"
proof (induction xs)
  case (Cons x xs)
  show ?case
  proof (cases "P x")
    case True
    with Cons.prems have "\<not> P y" if "y \<in> set xs" for y using that by auto
    with True show ?thesis by (simp add: filter_id_conv)
  qed (use Cons in simp)
qed simp

lemma ids_unique: "distinct (map row_id rows) \<Longrightarrow> x \<in> set rows \<Longrightarrow> y \<in> set rows \<Longrightarrow> row_id x = row_id y \<Longrightarrow> x = y"
  by (auto simp: distinct_map dest: inj_onD)

lemma delete_row:
  assumes "distinct (map row_id (db_rules db))" and "n < 2 ^ 128"
  shows "fst (db_delete_deduplication_rule (uuid_str n) t db) =
    db\<lparr>db_rules := filter (\<lambda>r. \<not> (row_id r = n \<and> row_tenant r = t)) (db_rules db)\<rparr>"
proof -
  let ?P = "\<lambda>r. row_id r = n \<and> row_tenant r = t"
  have "remove_first ?P (db_rules db) = filter (\<lambda>r. \<not> ?P r) (db_rules db)"
    using assms(1) ids_unique [OF assms(1)] by (intro remove_first_unique) (auto simp: distinct_map)
  moreover have "\<not> list_ex ?P (db_rules db) \<Longrightarrow> filter (\<lambda>r. \<not> ?P r) (db_rules db) = db_rules db"
    by (auto simp: filter_id_conv list_ex_iff)
  ultimately show ?thesis by (simp add: db_delete_deduplication_rule_def uuid_int_str [OF assms(2)] Let_def)
qed

lemma delete_rows:
  assumes "distinct (map row_id (db_rules db))" and "\<forall>r \<in> set rs. row_id r < 2 ^ 128"
  shows "fold (\<lambda>r db. if row_name r \<in> K then db else fst (db_delete_deduplication_rule (uuid_str (row_id r)) t db)) rs db
    = db\<lparr>db_rules := filter (\<lambda>x. \<forall>r \<in> set rs. row_name r \<notin> K \<longrightarrow> \<not> (row_id x = row_id r \<and> row_tenant x = t)) (db_rules db)\<rparr>"
  using assms
proof (induction rs arbitrary: db)
  case (Cons r rs)
  show ?case
  proof (cases "row_name r \<in> K")
    case True
    with Cons show ?thesis by simp
  next
    case False
    have "fst (db_delete_deduplication_rule (uuid_str (row_id r)) t db) =
        db\<lparr>db_rules := filter (\<lambda>x. \<not> (row_id x = row_id r \<and> row_tenant x = t)) (db_rules db)\<rparr>"
      using Cons.prems by (intro delete_row) simp_all
    moreover have "distinct (map row_id (filter (\<lambda>x. \<not> (row_id x = row_id r \<and> row_tenant x = t)) (db_rules db)))"
      using Cons.prems(1) by (rule distinct_map_filter)
    ultimately show ?thesis using False Cons.prems(2) Cons.IH
      by (simp add: conj_commute cong: conj_cong)
  qed
qed simp

lemma by_name_get:
  assumes "distinct (map row_name old)"
  shows "dict_get (fold (\<lambda>r. dict_set (row_name r) r) old []) n = Some r \<longleftrightarrow> r \<in> set old \<and> row_name r = n"
proof (cases "n \<in> row_name ` set old")
  case True
  then obtain q where q: "q \<in> set old" "row_name q = n" by auto
  then have "dict_get (fold (\<lambda>r. dict_set (row_name r) r) old []) n = Some q"
    using pd.fold_set_distinct [of row_name old q "\<lambda>r. r" "[]"] assms by simp
  moreover have "r = q" if "r \<in> set old" "row_name r = n" using that q assms by (auto simp: distinct_map dest: inj_onD)
  ultimately show ?thesis using q by auto
next
  case False
  then show ?thesis using pd.fold_set_other [of n row_name old "\<lambda>r. r" "[]"] by (auto simp: dict_get_def)
qed

text \<open>A row of the tenant's provisioned rules, brought to its entry among those handled so far.\<close>

definition brought :: "string \<Rightarrow> (string \<times> rule_spec \<times> string option \<times> string) list \<Rightarrow> dedup_row \<Rightarrow> dedup_row" where
  "brought t sps r = (if row_tenant r = t \<and> row_is_provisioned r then (case map_of sps (row_name r) of None \<Rightarrow> r
     | Some s \<Rightarrow> set_row (spec_values (row_name r, s)) (or_default [] (sp_description (fst s))) r) else r)"

lemma set_row_keeps [simp]: "row_id (set_row v d r) = row_id r" "row_tenant (set_row v d r) = row_tenant r"
  "row_is_provisioned (set_row v d r) = row_is_provisioned r" "row_name (set_row v d r) = v_name v"
  by (simp_all add: set_row_def)

lemma brought_keeps [simp]: "row_id (brought t sps r) = row_id r" "row_tenant (brought t sps r) = row_tenant r"
  "row_is_provisioned (brought t sps r) = row_is_provisioned r"
  by (simp_all add: brought_def split: option.split)

lemma row_of_spec_keeps [simp]: "row_id (row_of_spec fresh now t sp) = fresh (fst sp)" "row_tenant (row_of_spec fresh now t sp) = t"
  "row_is_provisioned (row_of_spec fresh now t sp)" "row_name (row_of_spec fresh now t sp) = fst sp"
  by (cases sp; simp add: row_of_spec_def)+

lemma provision_new:
  "dict_get old (fst sp) = None \<Longrightarrow>
    provision_one fresh now t old sp db = db\<lparr>db_rules := db_rules db @ [row_of_spec fresh now t sp]\<rparr>"
  by (cases sp) (simp add: provision_one_def db_create_deduplication_rule_def row_of_spec_def set_row_def Let_def)

lemma provision_old:
  assumes "dict_get old (fst sp) = Some r" and "row_id r < 2 ^ 128" and "row_tenant r = t"
    and "x \<in> set (db_rules db)" "row_id x = row_id r" "row_tenant x = t"
    and "distinct (db_rules db)"
    and "\<And>y. y \<in> set (db_rules db) \<Longrightarrow> row_id y = row_id r \<Longrightarrow> row_tenant y = t \<Longrightarrow> y = x"
  shows "provision_one fresh now t old sp db = db\<lparr>db_rules :=
    map (\<lambda>y. if row_id y = row_id r \<and> row_tenant y = t then set_row (spec_values sp) (or_default [] (sp_description (fst (snd sp)))) y else y) (db_rules db)\<rparr>"
proof -
  let ?P = "\<lambda>y. row_id y = row_id r \<and> row_tenant y = t"
  have "find ?P (db_rules db) = Some x" using assms(5,6,8) by (intro find_unique [OF assms(4)]) blast+
  moreover have "replace_first ?P f (db_rules db) = map (\<lambda>y. if ?P y then f y else y) (db_rules db)" for f
    using assms(7,8) by (intro replace_first_unique) blast+
  ultimately show ?thesis
    by (cases sp) (use assms(1) in \<open>simp add: provision_one_def db_update_deduplication_rule_def uuid_int_str [OF assms(2)] Let_def\<close>)
qed

lemma enrich_keys:
  assumes "enrich_with_providers_info installed specs = Inr sps"
  shows "map fst sps = map fst specs"
proof -
  from assms have "list_all2 (\<lambda>x y. fst y = fst x) specs sps"
    unfolding enrich_with_providers_info_def Let_def traverse_list_all2
    by (rule list_all2_mono) (auto split: option.splits)
  then show ?thesis by (induction rule: list_all2_induct) simp_all
qed

lemma distinct_mapD: "distinct (map f xs) \<Longrightarrow> distinct xs"
  by (simp add: distinct_map)

lemma brought_snoc:
  assumes "fst sp \<notin> fst ` set ss"
  shows "brought t (ss @ [sp]) x = (if row_tenant x = t \<and> row_is_provisioned x \<and> row_name x = fst sp
    then set_row (spec_values sp) (or_default [] (sp_description (fst (snd sp)))) (brought t ss x) else brought t ss x)"
proof -
  have "map_of ss (fst sp) = None" using assms by (simp add: map_of_eq_None_iff)
  then show ?thesis by (cases sp) (auto simp: brought_def map_of_append map_add_def split: option.split)
qed

lemma provision_fold:
  assumes ids: "distinct (map row_id base)" and small: "\<forall>r \<in> set base. row_id r < 2 ^ 128"
    and old: "\<And>n r. n \<in> fst ` set ss \<Longrightarrow> dict_get old n = Some r \<longleftrightarrow>
      r \<in> set base \<and> row_tenant r = t \<and> row_is_provisioned r \<and> row_name r = n"
    and fresh: "\<forall>n. fresh n \<notin> row_id ` set base" and names: "distinct (map fst ss)" and "db_rules db = base"
    and inj: "inj_on fresh (fst ` set ss)"
  shows "fold (provision_one fresh now t old) ss db = db\<lparr>db_rules := map (brought t ss) base @
    map (row_of_spec fresh now t) (filter (\<lambda>sp. dict_get old (fst sp) = None) ss)\<rparr>"
  using old names inj
proof (induction ss rule: rev_induct)
  case Nil
  have "map (brought t []) base = base" by (simp add: brought_def map_idI)
  with assms(6) show ?case by simp
next
  case (snoc sp ss)
  define news where "news = map (row_of_spec fresh now t) (filter (\<lambda>sp. dict_get old (fst sp) = None) ss)"
  define d where "d = db\<lparr>db_rules := map (brought t ss) base @ news\<rparr>"
  have IH: "fold (provision_one fresh now t old) ss db = d" unfolding d_def news_def using snoc by simp
  have new: "fst sp \<notin> fst ` set ss" using snoc.prems(2) by auto
  have rules: "db_rules d = map (brought t ss) base @ news" by (simp add: d_def)
  show ?case
  proof (cases "dict_get old (fst sp)")
    case None
    have "map (brought t (ss @ [sp])) base = map (brought t ss) base"
      using None snoc.prems(1) [of "fst sp"] by (auto simp: brought_snoc [OF new])
    with None IH provision_new [OF None] show ?thesis by (simp add: d_def news_def)
  next
    case (Some r)
    then have r: "r \<in> set base" "row_tenant r = t" "row_is_provisioned r" "row_name r = fst sp"
      using snoc.prems(1) [of "fst sp" r] by simp_all
    have id_new: "row_id y \<noteq> row_id r" if "y \<in> set news" for y
    proof -
      from that obtain n where "row_id y = fresh n" by (auto simp: news_def)
      then show ?thesis using fresh r(1) by (metis image_eqI)
    qed
    have only: "y = brought t ss r" if "y \<in> set (db_rules d)" "row_id y = row_id r" for y
    proof -
      from that id_new obtain x where x: "x \<in> set base" "y = brought t ss x" by (auto simp: rules)
      with that(2) ids_unique [OF ids x(1) r(1)] show ?thesis by simp
    qed
    have "distinct (map row_id news)"
      using snoc.prems(2,3) by (auto simp: news_def distinct_map comp_def inj_on_def)
    moreover have "row_id ` set news \<inter> row_id ` set base = {}"
    proof -
      have "row_id ` set news \<subseteq> range fresh" by (auto simp: news_def)
      moreover have "range fresh \<inter> row_id ` set base = {}" using fresh by blast
      ultimately show ?thesis by blast
    qed
    ultimately have dist: "distinct (map row_id (db_rules d))" using ids by (simp add: rules comp_def image_image Int_commute)
    have mem: "brought t ss r \<in> set (db_rules d)" "row_id (brought t ss r) = row_id r" "row_tenant (brought t ss r) = t"
      using r by (simp_all add: rules)
    have "provision_one fresh now t old sp d = d\<lparr>db_rules :=
        map (\<lambda>y. if row_id y = row_id r \<and> row_tenant y = t
          then set_row (spec_values sp) (or_default [] (sp_description (fst (snd sp)))) y else y) (db_rules d)\<rparr>" (is "_ = d\<lparr>db_rules := map ?f _\<rparr>")
      by (rule provision_old [OF Some bspec [OF small r(1)] r(2) mem distinct_mapD [OF dist]]) (rule only)
    moreover have "map ?f (map (brought t ss) base) = map (brought t (ss @ [sp])) base"
    proof -
      have "row_id x = row_id r \<longleftrightarrow> row_tenant x = t \<and> row_is_provisioned x \<and> row_name x = fst sp" if "x \<in> set base" for x
        using r ids_unique [OF ids that r(1)] snoc.prems(1) [of "fst sp" x] Some that by auto
      then show ?thesis using r(2) by (simp add: brought_snoc [OF new])
    qed
    moreover have "map ?f news = news" using id_new by (simp add: map_idI)
    ultimately show ?thesis using Some IH by (simp add: rules) (simp add: d_def news_def)
  qed
qed

lemma provision_result:
  assumes "enrich_with_providers_info installed specs = Inr sps" and "dict_ok specs" and "rules_ok t db"
    and fresh: "inj_on fresh (fst ` set sps)" "\<forall>n. fresh n \<notin> row_id ` set (db_rules db)"
  shows "provision_deduplication_rules installed fresh now t specs db =
    (db\<lparr>db_rules := reconciled fresh now t sps (db_rules db)\<rparr>, Inr ())"
proof -
  define old where "old = provisioned_rows db t"
  define by_name where "by_name = fold (\<lambda>r. dict_set (row_name r) r) old []"
  define base where "base = filter (\<lambda>r. row_tenant r = t \<and> row_is_provisioned r \<longrightarrow> row_name r \<in> fst ` set sps) (db_rules db)"
  have keys: "map fst sps = map fst specs" by (rule enrich_keys [OF assms(1)])
  then have names: "distinct (map fst sps)" and K: "set (dict_keys specs) = fst ` set sps"
    using assms(2) by (simp_all add: dict_ok_def dict_keys_def flip: set_map)
  have ids: "distinct (map row_id (db_rules db))" and small: "\<forall>r \<in> set (db_rules db). row_id r < 2 ^ 128"
    and nm: "distinct (map row_name old)" using assms(3) by (simp_all add: rules_ok_def old_def)
  have mem_old: "r \<in> set old \<longleftrightarrow> r \<in> set (db_rules db) \<and> row_tenant r = t \<and> row_is_provisioned r" for r
    by (auto simp: old_def provisioned_rows_def get_all_deduplication_rules_def)
  have get: "dict_get by_name n = Some r \<longleftrightarrow> r \<in> set old \<and> row_name r = n" for n r
    unfolding by_name_def by (rule by_name_get [OF nm])
  have "fold (\<lambda>r db. if row_name r \<in> set (dict_keys specs) then db
      else fst (db_delete_deduplication_rule (uuid_str (row_id r)) t db)) old db = db\<lparr>db_rules := base\<rparr>"
  proof -
    have "filter (\<lambda>x. \<forall>r \<in> set old. row_name r \<notin> set (dict_keys specs) \<longrightarrow> \<not> (row_id x = row_id r \<and> row_tenant x = t)) (db_rules db) = base"
      unfolding base_def K
    proof (rule filter_cong [OF refl])
      fix x assume x: "x \<in> set (db_rules db)"
      have "row_id x = row_id r \<and> row_tenant x = t \<longleftrightarrow> x = r" if "r \<in> set old" for r
        using that ids_unique [OF ids x, of r] by (auto simp: mem_old)
      then have "(\<forall>r \<in> set old. row_name r \<notin> fst ` set sps \<longrightarrow> \<not> (row_id x = row_id r \<and> row_tenant x = t)) \<longleftrightarrow>
          (x \<in> set old \<longrightarrow> row_name x \<in> fst ` set sps)" by blast
      then show "(\<forall>r \<in> set old. row_name r \<notin> fst ` set sps \<longrightarrow> \<not> (row_id x = row_id r \<and> row_tenant x = t)) =
          (row_tenant x = t \<and> row_is_provisioned x \<longrightarrow> row_name x \<in> fst ` set sps)" using x by (simp add: mem_old)
    qed
    then show ?thesis using delete_rows [OF ids, of old "set (dict_keys specs)" t] small by (simp add: mem_old)
  qed
  moreover have "fold (provision_one fresh now t by_name) sps (db\<lparr>db_rules := base\<rparr>) = db\<lparr>db_rules := map (brought t sps) base @
      map (row_of_spec fresh now t) (filter (\<lambda>sp. dict_get by_name (fst sp) = None) sps)\<rparr>"
    using small fresh names ids
    by (subst provision_fold [where base = base and t = t]) (auto simp: base_def get mem_old distinct_map_filter)
  moreover have "map (brought t sps) base @ map (row_of_spec fresh now t) (filter (\<lambda>sp. dict_get by_name (fst sp) = None) sps)
      = reconciled fresh now t sps (db_rules db)"
  proof -
    have "dict_get by_name n = None \<longleftrightarrow> (\<forall>r \<in> set (db_rules db). row_tenant r = t \<and> row_is_provisioned r \<longrightarrow> row_name r \<noteq> n)" for n
      using get [of n] by (cases "dict_get by_name n") (auto simp: mem_old)
    then show ?thesis by (simp add: reconciled_def Let_def base_def brought_def cong: map_cong)
  qed
  ultimately show ?thesis by (simp add: provision_deduplication_rules_def assms(1) Let_def old_def by_name_def)
qed

lemma set_row_twice [simp]: "set_row v d (set_row v d r) = set_row v d r"
  by (simp add: set_row_def)

lemma brought_name [simp]: "row_name (brought t sps r) = row_name r"
  by (simp add: brought_def split: option.split)

lemma brought_twice: "brought t sps (brought t sps r) = brought t sps r"
  by (cases "row_tenant r = t \<and> row_is_provisioned r"; cases "map_of sps (row_name r)") (auto simp: brought_def)

lemma brought_spec:
  assumes "distinct (map fst sps)" and "sp \<in> set sps"
  shows "brought t sps (row_of_spec fresh now t sp) = row_of_spec fresh now t sp"
proof -
  have "map_of sps (fst sp) = Some (snd sp)" using assms by simp
  then show ?thesis by (simp add: brought_def) (simp add: row_of_spec_def)
qed

lemma reconciled_split:
  "reconciled fresh now t sps rows =
    map (brought t sps) (filter (\<lambda>r. row_tenant r = t \<and> row_is_provisioned r \<longrightarrow> row_name r \<in> fst ` set sps) rows)
    @ map (row_of_spec fresh now t)
      (filter (\<lambda>sp. \<forall>r \<in> set rows. row_tenant r = t \<and> row_is_provisioned r \<longrightarrow> row_name r \<noteq> fst sp) sps)"
  by (simp add: reconciled_def Let_def brought_def cong: map_cong)

lemma reconciled_twice:
  assumes "distinct (map fst sps)"
  shows "reconciled fresh' now' t sps (reconciled fresh now t sps rows) = reconciled fresh now t sps rows"
proof -
  define rows' where "rows' = reconciled fresh now t sps rows"
  have mem: "x \<in> set rows' \<longleftrightarrow>
      (\<exists>r \<in> set rows. (row_tenant r = t \<and> row_is_provisioned r \<longrightarrow> row_name r \<in> fst ` set sps) \<and> x = brought t sps r) \<or>
      (\<exists>sp \<in> set sps. (\<forall>r \<in> set rows. row_tenant r = t \<and> row_is_provisioned r \<longrightarrow> row_name r \<noteq> fst sp) \<and> x = row_of_spec fresh now t sp)" for x
    unfolding rows'_def reconciled_split by auto
  have "brought t sps x = x" if "x \<in> set rows'" for x
    using that brought_spec [OF assms] brought_twice unfolding mem by metis
  then have "map (brought t sps) rows' = rows'" by (simp add: map_idI)
  moreover have "filter (\<lambda>r. row_tenant r = t \<and> row_is_provisioned r \<longrightarrow> row_name r \<in> fst ` set sps) rows' = rows'"
  proof -
    have "row_tenant x = t \<and> row_is_provisioned x \<longrightarrow> row_name x \<in> fst ` set sps" if "x \<in> set rows'" for x
      using that [unfolded mem] by (elim disjE bexE conjE) simp_all
    then show ?thesis by (simp add: filter_id_conv)
  qed
  moreover have "filter (\<lambda>sp. \<forall>r \<in> set rows'. row_tenant r = t \<and> row_is_provisioned r \<longrightarrow> row_name r \<noteq> fst sp) sps = []"
  proof -
    have "\<exists>x \<in> set rows'. row_tenant x = t \<and> row_is_provisioned x \<and> row_name x = fst sp" if sp: "sp \<in> set sps" for sp
    proof (cases "\<forall>r \<in> set rows. row_tenant r = t \<and> row_is_provisioned r \<longrightarrow> row_name r \<noteq> fst sp")
      case True
      with sp have "row_of_spec fresh now t sp \<in> set rows'" by (auto simp: mem)
      then show ?thesis by force
    next
      case False
      then obtain r where "r \<in> set rows" "row_tenant r = t" "row_is_provisioned r" "row_name r = fst sp" by blast
      moreover from this sp have "brought t sps r \<in> set rows'" unfolding mem by auto
      ultimately show ?thesis by (intro bexI [of _ "brought t sps r"]) simp_all
    qed
    then show ?thesis by (simp add: filter_empty_conv)
  qed
  ultimately show ?thesis unfolding rows'_def [symmetric] reconciled_split [of fresh' now' t sps rows'] by simp
qed

lemma reconciled_ok:
  assumes "rules_ok t db" and "distinct (map fst sps)" and "inj_on fresh (fst ` set sps)" "\<forall>n. fresh n \<notin> row_id ` set (db_rules db)" "\<forall>n \<in> fst ` set sps. fresh n < 2 ^ 128"
  shows "rules_ok t (db\<lparr>db_rules := reconciled fresh now t sps (db_rules db)\<rparr>)"
proof -
  let ?keep = "\<lambda>r. row_tenant r = t \<and> row_is_provisioned r \<longrightarrow> row_name r \<in> fst ` set sps"
  let ?ours = "\<lambda>r. row_tenant r = t \<and> row_is_provisioned r"
  let ?missing = "\<lambda>sp. \<forall>r \<in> set (db_rules db). ?ours r \<longrightarrow> row_name r \<noteq> fst sp"
  define base where "base = filter ?keep (db_rules db)"
  define news where "news = map (row_of_spec fresh now t) (filter ?missing sps)"
  have rows: "reconciled fresh now t sps (db_rules db) = map (brought t sps) base @ news"
    by (simp add: reconciled_split base_def news_def)
  have old: "distinct (map row_id (db_rules db))" "\<forall>r \<in> set (db_rules db). row_id r < 2 ^ 128"
    "distinct (map row_name (filter ?ours (db_rules db)))"
    using assms(1) by (simp_all add: rules_ok_def provisioned_rows_def get_all_deduplication_rules_def conj_commute)
  have new_ids: "distinct (map row_id news)" "distinct (map row_name news)"
    using assms(2,3) by (auto simp: news_def distinct_map comp_def inj_on_def)
  have "row_id ` set news \<inter> row_id ` set base = {}"
  proof -
    have "row_id ` set news \<subseteq> range fresh" by (auto simp: news_def)
    moreover have "range fresh \<inter> row_id ` set base = {}" using assms(4) by (auto simp: base_def)
    ultimately show ?thesis by blast
  qed
  with new_ids(1) have ids: "distinct (map row_id (map (brought t sps) base @ news))"
    using distinct_map_filter [OF old(1)] by (simp add: comp_def image_image base_def Int_commute)
  have "filter ?ours (map (brought t sps) base @ news) = map (brought t sps) (filter ?ours base) @ news"
    by (auto simp: filter_map comp_def news_def filter_id_conv)
  moreover have "row_name ` set (filter ?ours base) \<inter> row_name ` set news = {}"
    by (auto simp: base_def news_def)
  moreover have "distinct (map row_name (filter ?ours base))"
    using distinct_map_filter [OF old(3), of ?keep] by (simp add: base_def conj_commute)
  ultimately have "distinct (map row_name (filter ?ours (map (brought t sps) base @ news)))"
    using new_ids(2) by (simp add: comp_def image_image)
  moreover have "\<forall>r \<in> set (map (brought t sps) base @ news). row_id r < 2 ^ 128"
    using old(2) assms(5) by (auto simp: base_def news_def)
  ultimately show ?thesis using ids
    by (simp add: rules_ok_def provisioned_rows_def get_all_deduplication_rules_def rows conj_commute)
qed

text \<open>
  C13: provisioning reconciles the table with the configuration.  It ends with exactly the provisioned
  rules the configuration names, each holding its entry: rows of the table are updated in place or
  deleted, missing ones are added, and the rules of other tenants and those users created stay.  Run
  again at the next start, it changes nothing.
\<close>

theorem provisioning_reconciles:
  assumes "enrich_with_providers_info installed specs = Inr sps" and "dict_ok specs" and "rules_ok t db"
    and fresh: "inj_on fresh (fst ` set sps)" "\<forall>n. fresh n \<notin> row_id ` set (db_rules db)" "\<forall>n \<in> fst ` set sps. fresh n < 2 ^ 128"
    and fresh': "inj_on fresh' (fst ` set sps)" "\<forall>n. fresh' n \<notin> row_id ` set (reconciled fresh now t sps (db_rules db))"
  shows "let db' = db\<lparr>db_rules := reconciled fresh now t sps (db_rules db)\<rparr> in
    provision_deduplication_rules installed fresh now t specs db = (db', Inr ()) \<and>
    provision_deduplication_rules installed fresh' now' t specs db' = (db', Inr ())"
proof -
  have names: "distinct (map fst sps)" using enrich_keys [OF assms(1)] assms(2) by (simp add: dict_ok_def)
  have "rules_ok t (db\<lparr>db_rules := reconciled fresh now t sps (db_rules db)\<rparr>)"
    using reconciled_ok [OF assms(3) names] fresh by blast
  then show ?thesis
    using provision_result [OF assms(1-3) fresh(1,2)] provision_result [OF assms(1,2) _ fresh'(1)] fresh'(2)
    by (simp add: Let_def reconciled_twice [OF names])
qed

section \<open>Concrete runs\<close>

definition sample_request :: rule_request where
  "sample_request = \<lparr>req_name = ''r'', req_description = Some ''d'', req_provider_type = ''keep'', req_provider_id = None,
     req_fingerprint_fields = [''name''], req_full = False, req_ignore_fields = None\<rparr>"

definition sample_provider :: provider where
  "sample_provider = \<lparr>pr_type = ''keep'', pr_id = None, pr_name = Some ''main'', pr_tags = [''alert'']\<rparr>"

definition sample_row :: "nat \<Rightarrow> dedup_row" where
  "sample_row n = \<lparr>row_id = n, row_tenant = ''t'', row_name = ''r'', row_description = ''d'', row_provider_id = None,
     row_provider_type = ''keep'', row_last_updated = ''now'', row_last_updated_by = ''u'', row_created_at = ''now'', row_created_by = ''u'',
     row_enabled = True, row_fingerprint_fields = [''name''], row_full = False, row_ignore_fields = [],
     row_priority = 0, row_is_provisioned = False\<rparr>"

lemma sample_create:
  "create_deduplication_rule [sample_provider] n ''now'' ''t'' sample_request ''u'' db
     = (db\<lparr>db_rules := db_rules db @ [sample_row n]\<rparr>, Inr (sample_row n))"
proof -
  have key: "provider_key ''keep'' None = ''keep_None''" "\<not> py_in ''null'' ''keep_None''"
    by (simp add: provider_key_def py_text_def) code_simp
  show ?thesis
    by (simp add: create_deduplication_rule_def sample_request_def sample_provider_def key
      db_create_deduplication_rule_def request_values_def sample_row_def Let_def)
qed

theorem second_rule_stops_deduplication_witness:
  "apply_deduplication sample_env 0 ''t'' (sample_alert ''1'') None None (sample_db\<lparr>db_rules := [sample_row 1, sample_row 2]\<rparr>)
     = (sample_db\<lparr>db_rules := [sample_row 1, sample_row 2]\<rparr>, Inl MultipleResultsFound)"
  using second_rule_stops_deduplication [OF sample_create [of 1 sample_db] sample_create [of 2],
      of sample_env "sample_alert ''1''" 0 None]
    sample_facts(5,6) [of "''1''"]
  by (simp add: sample_db_def sample_row_def sample_env_def or_keep_def)

theorem update_hides_the_status_witness:
  "update_rule_route sample_env [] 0 ''now'' ''t'' (uuid_str 7) sample_request ''u'' sample_db = (sample_db, Inl 400) \<and>
   delete_rule_route ''t'' (uuid_str 7) sample_db = (sample_db, Inl 404)"
proof -
  have seven: "uuid_int (uuid_str 7) = Some 7" and other: "uuid_int (uuid_str 42) = Some 42" by (simp_all add: uuid_int_str)
  then have "uuid_str 7 \<noteq> uuid_str 42" by (metis numeral_eq_iff option.inject semiring_norm(88) semiring_norm(90))
  then have "uuid_str 7 \<noteq> generate_uuid sample_env (req_provider_id sample_request) (Some (req_provider_type sample_request))"
    by (simp add: generate_uuid_def sample_env_def Let_def)
  moreover have "get_deduplication_rule_by_id sample_db ''t'' (uuid_str 7) = None"
    by (simp add: get_deduplication_rule_by_id_def seven sample_db_def)
  ultimately show ?thesis
    using update_hides_the_status [OF seven, of sample_env sample_request sample_db "''t''" None "[]" 0 "''now''" "''u''"] by simp
qed

definition sample_spec :: rule_spec where
  "sample_spec = \<lparr>sp_provider_name = Some ''main'', sp_description = None, sp_fingerprint_fields = Some [''name''],
     sp_full = Some True, sp_ignore_fields = Some [''last_received'']\<rparr>"

theorem provisioning_reconciles_witness:
  "\<exists>db. provision_deduplication_rules [sample_provider] (\<lambda>n. 5) ''now'' ''t'' [(''a'', sample_spec)] sample_db = (db, Inr ()) \<and>
    provision_deduplication_rules [sample_provider] (\<lambda>n. 6) ''later'' ''t'' [(''a'', sample_spec)] db = (db, Inr ()) \<and>
    length (db_rules db) = 1"
proof -
  let ?sps = "[(''a'', sample_spec, None, ''keep'')]"
  have e: "enrich_with_providers_info [sample_provider] [(''a'', sample_spec)] = Inr ?sps"
    by (simp add: enrich_with_providers_info_def sample_provider_def sample_spec_def dict_get_def dict_set_def)
  have rows: "reconciled (\<lambda>n. 5) ''now'' ''t'' ?sps (db_rules sample_db) = [row_of_spec (\<lambda>n. 5) ''now'' ''t'' (hd ?sps)]"
    by (simp add: reconciled_def sample_db_def)
  have "rules_ok ''t'' sample_db"
    by (simp add: rules_ok_def sample_db_def provisioned_rows_def get_all_deduplication_rules_def)
  then show ?thesis
    using provisioning_reconciles [OF e, of "''t''" sample_db "\<lambda>n. 5" "\<lambda>n. 6" "''now''" "''later''"] rows
    by (auto simp: dict_ok_def Let_def sample_db_def)
qed

end
