(* ===== verification/Deduplication_Stats.thy ===== *)
theory Deduplication_Stats
  imports Deduplication_Rules
begin

text \<open>
  The list of a tenant's rules with their statistics: \<open>get_deduplications\<close> and
  \<open>get_deduplication_fields\<close> of \<open>alert_deduplicator.py\<close>, the default rules of
  \<open>src/src/providers/providers_factory.py\<close> and \<open>get_all_deduplication_stats\<close> of
  \<open>src/src/repositories/db.py\<close>.  The clock is a number of seconds; a \<open>date_hour\<close> is a number of hours.
  Ratios are rationals, where the code has floats.
\<close>

section \<open>Statistics of the events\<close>

text \<open>\<open>GROUP BY\<close> with a count: one row per key, here in the order the keys first appear.\<close>

definition group_count :: "('a \<Rightarrow> 'k) \<Rightarrow> 'a list \<Rightarrow> ('k \<times> nat) list" where
  "group_count f xs = map (\<lambda>k. (k, length (filter (\<lambda>x. f x = k) xs))) (remdups (map f xs))"

record dedup_stats =
  full_dedup_count :: nat
  partial_dedup_count :: nat
  none_dedup_count :: nat
  alerts_last_24_hours :: "(int \<times> nat) list"
  stats_provider_id :: "string option"
  stats_provider_type :: string

definition empty_stats :: "int \<Rightarrow> string option \<Rightarrow> string \<Rightarrow> dedup_stats" where
  "empty_stats cur pid pt = \<lparr>full_dedup_count = 0, partial_dedup_count = 0, none_dedup_count = 0,
     alerts_last_24_hours = map (\<lambda>i. ((cur - int i) mod 24, 0)) [0..<24],
     stats_provider_id = pid, stats_provider_type = pt\<rparr>"

fun add_count :: "string \<Rightarrow> nat \<Rightarrow> dedup_stats \<Rightarrow> dedup_stats" where
  "add_count ty n s =
     (if ty = ''full'' then s\<lparr>full_dedup_count := full_dedup_count s + n\<rparr>
      else if ty = ''partial'' then s\<lparr>partial_dedup_count := partial_dedup_count s + n\<rparr>
      else if ty = ''none'' then s\<lparr>none_dedup_count := none_dedup_count s + n\<rparr>
      else s)"

fun all_time_row :: "int \<Rightarrow> (nat \<times> string option \<times> string option \<times> string) \<times> nat
    \<Rightarrow> (string, dedup_stats) pydict \<Rightarrow> (string, dedup_stats) pydict" where
  "all_time_row cur ((rid, pid, pt, ty), n) d =
     (let key = uuid_str rid;
          s = (case dict_get d key of Some s \<Rightarrow> s | None \<Rightarrow> empty_stats cur pid (or_keep pt))
      in dict_set key (add_count ty n s) d)"

fun hourly_row :: "int \<Rightarrow> (nat \<times> string option \<times> string option \<times> int) \<times> nat
    \<Rightarrow> (string, dedup_stats) pydict \<Rightarrow> (string, dedup_stats) pydict" where
  "hourly_row cur ((rid, pid, pt, hour), n) d =
     (case dict_get d (uuid_str rid) of
        None \<Rightarrow> d
      | Some s \<Rightarrow>
          let hours_ago = cur - hour in
          if 0 \<le> hours_ago \<and> hours_ago < 24
          then let i = nat (23 - hours_ago); xs = alerts_last_24_hours s
               in dict_set (uuid_str rid) (s\<lparr>alerts_last_24_hours := xs[i := (fst (xs ! i), n)]\<rparr>) d
          else d)"

definition get_all_deduplication_stats :: "int \<Rightarrow> dedup_db \<Rightarrow> string \<Rightarrow> (string, dedup_stats) pydict" where
  "get_all_deduplication_stats now db t =
     (let evs = filter (\<lambda>e. ev_tenant e = t) (db_events db);
          all_time = group_count (\<lambda>e. (ev_rule e, ev_provider_id e, ev_provider_type e, ev_type e)) evs;
          recent = filter (\<lambda>e. now - 24 * 3600 \<le> ev_date_hour e * 3600) evs;
          hourly = group_count (\<lambda>e. (ev_rule e, ev_provider_id e, ev_provider_type e, ev_date_hour e)) recent;
          cur = now div 3600
      in fold (hourly_row cur) hourly (fold (all_time_row cur) all_time []))"

section \<open>The list of rules\<close>

text \<open>What the factory reads of a provider class: its type, its display name and its fingerprint fields.\<close>

definition no_alerts :: "(int \<times> nat) list" where
  "no_alerts = map (\<lambda>i. (int i, 0)) [0..<24]"

definition get_default_deduplication_rules :: "(string \<times> string \<times> string list) list \<Rightarrow> dedup_dto list" where
  "get_default_deduplication_rules classes =
     map (\<lambda>(ty, display, fs). \<lparr>dto_id = [], dto_name = ty @ ''_default'',
          dto_description = display @ '' default deduplication rule'', dto_default = True,
          dto_distribution = Some no_alerts, dto_provider_id = None, dto_provider_type = ty,
          dto_last_updated = Some [], dto_last_updated_by = Some [], dto_created_at = Some [], dto_created_by = Some [],
          dto_ingested = 0, dto_dedup_ratio = 0, dto_enabled = True, dto_fingerprint_fields = fs,
          dto_full = False, dto_ignore_fields = [], dto_is_provisioned = False\<rparr>)
       (filter (\<lambda>(ty, display, fs). fs \<noteq> []) classes)"

definition row_to_dto :: "dedup_row \<Rightarrow> dedup_dto" where
  "row_to_dto r = \<lparr>dto_id = uuid_str (row_id r), dto_name = row_name r, dto_description = row_description r,
     dto_default = False, dto_distribution = Some no_alerts, dto_provider_id = row_provider_id r,
     dto_provider_type = row_provider_type r, dto_last_updated = Some (row_last_updated r),
     dto_last_updated_by = Some (row_last_updated_by r), dto_created_at = Some (row_created_at r),
     dto_created_by = Some (row_created_by r), dto_ingested = 0, dto_dedup_ratio = 0, dto_enabled = row_enabled r,
     dto_fingerprint_fields = row_fingerprint_fields r, dto_full = row_full r,
     dto_ignore_fields = row_ignore_fields r, dto_is_provisioned = row_is_provisioned r\<rparr>"

definition custom_key :: "dedup_dto \<Rightarrow> string" where
  "custom_key d = (let key = provider_key (dto_provider_type d) (dto_provider_id d) in
     if py_in ''null'' key then py_replace ''null'' ''None'' key else key)"

definition group_custom :: "dedup_dto list \<Rightarrow> (string, dedup_dto list) pydict" where
  "group_custom ds = fold (\<lambda>d m. dict_set (custom_key d)
     ((case dict_get m (custom_key d) of None \<Rightarrow> [] | Some xs \<Rightarrow> xs) @ [d]) m) ds []"

text \<open>
  One provider in the loop.  The list under \<open>keep_None\<close> is the very list that is extended, so a
  provider with that key extends it by itself.
\<close>

definition add_provider ::
  "dedup_env \<Rightarrow> (string, dedup_dto list) pydict \<Rightarrow> (string, dedup_dto) pydict \<Rightarrow> provider \<Rightarrow> dedup_dto list \<Rightarrow> dedup_dto list" where
  "add_provider env custom defaults p final =
     (let key = provider_key (pr_type p) (pr_id p) in
      case dict_get custom key of
        Some ds \<Rightarrow> if key = ''keep_None'' then final @ final else final @ ds
      | None \<Rightarrow>
          (case dict_get defaults (pr_type p) of
             None \<Rightarrow> final
           | Some d \<Rightarrow>
               let d = d\<lparr>dto_id := generate_uuid env (pr_id p) (Some (pr_type p))\<rparr> in
               final @ [case pr_id p of
                   Some (c # s) \<Rightarrow> d\<lparr>dto_description := dto_description d @ '' - '' @ c # s, dto_provider_id := pr_id p\<rparr>
                 | _ \<Rightarrow> d]))"

definition dedup_statistics :: "(string, dedup_stats) pydict \<Rightarrow> dedup_dto \<Rightarrow> dedup_dto" where
  "dedup_statistics stats d =
     (let s = dict_get stats (dto_id d);
          count = (\<lambda>f. case s of None \<Rightarrow> 0 | Some s \<Rightarrow> f s);
          dups = count full_dedup_count + count partial_dedup_count;
          ingested = dups + count none_dedup_count;
          d = d\<lparr>dto_ingested := ingested\<rparr>
      in if ingested = 0 then d\<lparr>dto_dedup_ratio := 0\<rparr>
         else case s of
             None \<Rightarrow> d\<lparr>dto_dedup_ratio := 0\<rparr>
           | Some s \<Rightarrow>
               if dups = 0 then d\<lparr>dto_dedup_ratio := 0\<rparr>
               else d\<lparr>dto_dedup_ratio := of_nat dups / of_nat ingested * 100,
                      dto_distribution := Some (alerts_last_24_hours s)\<rparr>)"

text \<open>The second loop looks for the provider's key among the rules' ids, and for a key no entry has.\<close>

definition provider_distribution :: "(string, dedup_stats) pydict \<Rightarrow> dedup_dto \<Rightarrow> dedup_dto" where
  "provider_distribution stats d =
     (if py_text (dto_provider_id d) @ ''_'' @ dto_provider_type d \<in> set (dict_keys stats)
      then d\<lparr>dto_distribution := None\<rparr> else d)"

definition get_deduplications ::
  "dedup_env \<Rightarrow> provider list \<Rightarrow> provider list \<Rightarrow> dedup_dto list \<Rightarrow> int \<Rightarrow> string \<Rightarrow> dedup_db \<Rightarrow> dedup_dto list" where
  "get_deduplications env installed linked defaults now t db =
     (let providers = filter (\<lambda>p. ''alert'' \<in> set (pr_tags p)) installed @ linked;
          defaults = fold (\<lambda>d. dict_set (dto_provider_type d)
            (d\<lparr>dto_id := generate_uuid env (dto_provider_id d) (Some (dto_provider_type d))\<rparr>)) defaults [];
          custom = group_custom (map row_to_dto (if custom_enabled env then get_all_deduplication_rules db t else []));
          start = (case dict_get custom ''keep_None'' of Some ds \<Rightarrow> ds
                   | None \<Rightarrow> [get_default_full_deduplication_rule env None None]);
          final = fold (add_provider env custom defaults) providers start;
          stats = get_all_deduplication_stats now db t;
          result = map (dedup_statistics stats) final;
          result = (if distribution_enabled env then map (provider_distribution stats) result else result);
          result = sort_key (\<lambda>d. \<not> dto_default d) result
      in case result of [d] \<Rightarrow> if dto_ingested d = 0 then [] else [d] | _ \<Rightarrow> result)"

record alert_field =
  af_tenant :: string
  af_provider_type :: "string option"
  af_provider_id :: "string option"
  af_name :: string

definition get_deduplication_fields :: "alert_field list \<Rightarrow> string \<Rightarrow> (string, string list) pydict" where
  "get_deduplication_fields rows t =
     (let or_null = (\<lambda>x. case x of Some (c # s) \<Rightarrow> c # s | _ \<Rightarrow> ''null'') in
      fold (\<lambda>f m. let key = or_null (af_provider_type f) @ ''_'' @ or_null (af_provider_id f) in
          dict_set key ((case dict_get m key of None \<Rightarrow> [] | Some xs \<Rightarrow> xs) @ [af_name f]) m)
        (filter (\<lambda>f. af_tenant f = t) rows) [])"

section \<open>The counts\<close>

lemma sum_filter_keys:
  "finite K \<Longrightarrow> (\<Sum>k \<in> K. length (filter (\<lambda>x. f x = k) xs)) = length (filter (\<lambda>x. f x \<in> K) xs)"
proof (induction xs)
  case (Cons x xs)
  have "(\<Sum>k \<in> K. length (filter (\<lambda>x. f x = k) (x # xs))) =
      (\<Sum>k \<in> K. (if f x = k then 1 else 0) + length (filter (\<lambda>x. f x = k) xs))" by (intro sum.cong) auto
  also have "\<dots> = (if f x \<in> K then 1 else 0) + length (filter (\<lambda>x. f x \<in> K) xs)"
    using Cons by (simp add: sum.distrib)
  finally show ?case by simp
qed simp

lemma group_count_sum:
  "sum_list (map snd (filter (\<lambda>kn. P (fst kn)) (group_count f xs))) = length (filter (\<lambda>x. P (f x)) xs)"
proof -
  have "filter (\<lambda>kn. P (fst kn)) (group_count f xs) =
      map (\<lambda>k. (k, length (filter (\<lambda>x. f x = k) xs))) (filter P (remdups (map f xs)))"
    by (simp add: group_count_def filter_map comp_def)
  then have "sum_list (map snd (filter (\<lambda>kn. P (fst kn)) (group_count f xs))) =
      (\<Sum>k \<in> set (filter P (remdups (map f xs))). length (filter (\<lambda>x. f x = k) xs))"
    by (simp add: comp_def sum_list_distinct_conv_sum_set)
  also have "\<dots> = length (filter (\<lambda>x. f x \<in> set (filter P (remdups (map f xs)))) xs)"
    by (rule sum_filter_keys) simp
  also have "filter (\<lambda>x. f x \<in> set (filter P (remdups (map f xs)))) xs = filter (\<lambda>x. P (f x)) xs"
    by (rule filter_cong) auto
  finally show ?thesis .
qed

lemma uuid_str_inject: "m < 2 ^ 128 \<Longrightarrow> n < 2 ^ 128 \<Longrightarrow> uuid_str m = uuid_str n \<longleftrightarrow> m = n"
  by (metis option.inject uuid_int_str)

definition stat :: "(dedup_stats \<Rightarrow> nat) \<Rightarrow> (string, dedup_stats) pydict \<Rightarrow> string \<Rightarrow> nat" where
  "stat f d k = (case dict_get d k of None \<Rightarrow> 0 | Some s \<Rightarrow> f s)"

text \<open>The counter of a type of event.\<close>

definition counter :: "string \<Rightarrow> dedup_stats \<Rightarrow> nat" where
  "counter ty = (if ty = ''full'' then full_dedup_count else if ty = ''partial'' then partial_dedup_count else none_dedup_count)"

definition dedup_types :: "string set" where
  "dedup_types = {''full'', ''partial'', ''none''}"

lemma counter_simps: "counter ''full'' = full_dedup_count" "counter ''partial'' = partial_dedup_count"
  "counter ''none'' = none_dedup_count"
  by (simp_all add: counter_def fun_eq_iff)

lemma counter_empty [simp]: "counter ty (empty_stats cur pid pt) = 0"
  by (simp add: counter_def empty_stats_def)

lemma counter_add: "ty' \<in> dedup_types \<Longrightarrow> counter ty' (add_count ty n s) = counter ty' s + (if ty = ty' then n else 0)"
  by (auto simp: counter_def dedup_types_def)

lemma all_time_stat:
  assumes "ty' \<in> dedup_types" and "r < 2 ^ 128" and "rid < 2 ^ 128"
  shows "stat (counter ty') (all_time_row cur ((rid, pid, pt, ty), n) d) (uuid_str r) =
    stat (counter ty') d (uuid_str r) + (if rid = r \<and> ty = ty' then n else 0)"
  using assms by (auto simp: stat_def Let_def dict_get_set uuid_str_inject counter_add simp del: add_count.simps split: option.split)

lemma all_time_stats:
  assumes "ty' \<in> dedup_types" and "r < 2 ^ 128" and "\<forall>row \<in> set rows. fst (fst row) < 2 ^ 128"
  shows "stat (counter ty') (fold (all_time_row cur) rows d) (uuid_str r) = stat (counter ty') d (uuid_str r) +
    sum_list (map snd (filter (\<lambda>kn. case fst kn of (rid, pid, pt, ty) \<Rightarrow> rid = r \<and> ty = ty') rows))"
  using assms(3)
proof (induction rows arbitrary: d)
  case (Cons row rows)
  obtain rid pid pt ty n where row: "row = ((rid, pid, pt, ty), n)" by (metis surj_pair)
  with Cons.prems have "stat (counter ty') (all_time_row cur row d) (uuid_str r) =
      stat (counter ty') d (uuid_str r) + (if rid = r \<and> ty = ty' then n else 0)"
    using all_time_stat [OF assms(1,2)] by simp
  with Cons row show ?case by (simp del: all_time_row.simps)
qed simp

lemma hourly_stat: "stat (counter ty) (hourly_row cur row d) k = stat (counter ty) d k"
proof -
  obtain rid pid pt hour n where "row = ((rid, pid, pt, hour), n)" by (metis surj_pair)
  then show ?thesis
    by (auto simp: stat_def Let_def dict_get_set counter_def split: option.split)
qed

lemma hourly_stats: "stat (counter ty) (fold (hourly_row cur) rows d) k = stat (counter ty) d k"
  by (induction rows arbitrary: d) (simp_all add: hourly_stat)

definition event_count :: "dedup_db \<Rightarrow> string \<Rightarrow> nat \<Rightarrow> string \<Rightarrow> nat" where
  "event_count db t r ty = length (filter (\<lambda>e. ev_tenant e = t \<and> ev_rule e = r \<and> ev_type e = ty) (db_events db))"

lemma stats_count_events:
  assumes "ty \<in> dedup_types" and "r < 2 ^ 128" and "\<forall>e \<in> set (db_events db). ev_rule e < 2 ^ 128"
  shows "stat (counter ty) (get_all_deduplication_stats now db t) (uuid_str r) = event_count db t r ty"
proof -
  let ?f = "\<lambda>e. (ev_rule e, ev_provider_id e, ev_provider_type e, ev_type e)"
  define evs where "evs = filter (\<lambda>e. ev_tenant e = t) (db_events db)"
  have "\<forall>row \<in> set (group_count ?f evs). fst (fst row) < 2 ^ 128"
    using assms(3) by (auto simp: group_count_def evs_def)
  from all_time_stats [OF assms(1,2) this, of _ "[]"]
  have "stat (counter ty) (get_all_deduplication_stats now db t) (uuid_str r) =
      sum_list (map snd (filter (\<lambda>kn. case fst kn of (rid, pid, pt, ty') \<Rightarrow> rid = r \<and> ty' = ty) (group_count ?f evs)))"
    by (simp add: get_all_deduplication_stats_def Let_def hourly_stats evs_def) (simp add: stat_def dict_get_def)
  also have "\<dots> = length (filter (\<lambda>e. ev_rule e = r \<and> ev_type e = ty) evs)"
    using group_count_sum [of "\<lambda>(rid, pid, pt, ty'). rid = r \<and> ty' = ty" ?f evs] by simp
  also have "\<dots> = event_count db t r ty" by (simp add: event_count_def evs_def conj_commute conj_left_commute)
  finally show ?thesis .
qed

definition duplicates :: "dedup_db \<Rightarrow> string \<Rightarrow> nat \<Rightarrow> nat" where
  "duplicates db t r = event_count db t r ''full'' + event_count db t r ''partial''"

definition ingested :: "dedup_db \<Rightarrow> string \<Rightarrow> nat \<Rightarrow> nat" where
  "ingested db t r = duplicates db t r + event_count db t r ''none''"

lemma statistics_of:
  assumes "dto_id d = uuid_str r" and "r < 2 ^ 128" and "\<forall>e \<in> set (db_events db). ev_rule e < 2 ^ 128"
  shows "let x = dedup_statistics (get_all_deduplication_stats now db t) d in
    dto_ingested x = ingested db t r \<and>
    dto_dedup_ratio x = (if ingested db t r = 0 then 0 else of_nat (duplicates db t r) / of_nat (ingested db t r) * 100)"
proof -
  let ?stats = "get_all_deduplication_stats now db t"
  have c: "(case dict_get ?stats (uuid_str r) of None \<Rightarrow> 0 | Some s \<Rightarrow> counter ty s) = event_count db t r ty"
    if "ty \<in> dedup_types" for ty
    using stats_count_events [OF that assms(2,3), of now t] by (simp add: stat_def)
  have f: "(case dict_get ?stats (uuid_str r) of None \<Rightarrow> 0 | Some s \<Rightarrow> full_dedup_count s) = event_count db t r ''full''"
    "(case dict_get ?stats (uuid_str r) of None \<Rightarrow> 0 | Some s \<Rightarrow> partial_dedup_count s) = event_count db t r ''partial''"
    "(case dict_get ?stats (uuid_str r) of None \<Rightarrow> 0 | Some s \<Rightarrow> none_dedup_count s) = event_count db t r ''none''"
    using c [of "''full''", unfolded counter_simps] c [of "''partial''", unfolded counter_simps] c [of "''none''", unfolded counter_simps]
    by (simp_all add: dedup_types_def)
  show ?thesis
  proof (cases "dict_get ?stats (uuid_str r)")
    case None
    with f show ?thesis by (simp add: dedup_statistics_def Let_def assms(1) ingested_def duplicates_def)
  next
    case (Some s)
    with f show ?thesis
      by (auto simp: dedup_statistics_def Let_def assms(1) ingested_def duplicates_def)
  qed
qed

section \<open>What the list shows\<close>

lemma provider_distribution_keeps [simp]:
  "dto_ingested (provider_distribution stats d) = dto_ingested d"
  "dto_dedup_ratio (provider_distribution stats d) = dto_dedup_ratio d"
  "dto_id (provider_distribution stats d) = dto_id d"
  "dto_default (provider_distribution stats d) = dto_default d"
  by (simp_all add: provider_distribution_def)

lemma dedup_statistics_id [simp]: "dto_id (dedup_statistics stats d) = dto_id d"
  by (simp add: dedup_statistics_def Let_def split: option.split)

lemma listed:
  assumes "x \<in> set (get_deduplications env installed linked defaults now t db)"
  shows "\<exists>d. dto_id x = dto_id d \<and> dto_ingested x = dto_ingested (dedup_statistics (get_all_deduplication_stats now db t) d) \<and>
    dto_dedup_ratio x = dto_dedup_ratio (dedup_statistics (get_all_deduplication_stats now db t) d)"
proof -
  let ?stats = "get_all_deduplication_stats now db t"
  have cut: "x \<in> set (case ds of [d] \<Rightarrow> if dto_ingested d = 0 then [] else [d] | _ \<Rightarrow> ds) \<Longrightarrow> x \<in> set ds" for ds
    by (auto split: list.splits if_splits)
  from assms obtain ds where "x \<in> set (if distribution_enabled env
      then map (provider_distribution ?stats) (map (dedup_statistics ?stats) ds) else map (dedup_statistics ?stats) ds)"
    unfolding get_deduplications_def Let_def by (auto dest!: cut)
  then show ?thesis by (auto split: if_splits)
qed

text \<open>
  The numbers of a listed rule are those of its events.  The ingested count is the number of
  the tenant's events of that rule, the ratio is the percentage of them that were full or partial
  duplicates, and so it lies between 0 and 100.
\<close>

theorem listed_numbers_count_events:
  assumes "x \<in> set (get_deduplications env installed linked defaults now t db)"
    and "dto_id x = uuid_str r" and "r < 2 ^ 128" and "\<forall>e \<in> set (db_events db). ev_rule e < 2 ^ 128"
  shows "dto_ingested x = ingested db t r \<and>
    dto_dedup_ratio x * of_nat (ingested db t r) = 100 * of_nat (duplicates db t r) \<and>
    0 \<le> dto_dedup_ratio x \<and> dto_dedup_ratio x \<le> 100"
proof -
  obtain d where d: "dto_id x = dto_id d" "dto_ingested x = dto_ingested (dedup_statistics (get_all_deduplication_stats now db t) d)"
    "dto_dedup_ratio x = dto_dedup_ratio (dedup_statistics (get_all_deduplication_stats now db t) d)"
    using listed [OF assms(1)] by blast
  then have "dto_id d = uuid_str r" using assms(2) by simp
  note s = statistics_of [OF this assms(3,4), of now t, unfolded Let_def, folded d(2,3)]
  have le: "duplicates db t r \<le> ingested db t r" by (simp add: ingested_def)
  show ?thesis
  proof (cases "ingested db t r = 0")
    case True
    with s le show ?thesis by simp
  next
    case False
    then have pos: "(0 :: rat) < of_nat (ingested db t r)" by simp
    have "of_nat (duplicates db t r) * 100 / of_nat (ingested db t r) \<le> (100 :: rat)"
      using le by (simp add: pos_divide_le_eq [OF pos])
    with s False pos show ?thesis by simp
  qed
qed

text \<open>
  Every alert is counted once, for the rule it was checked against.  Applying the tenant's rules to an
  alert raises the ingested count of that rule in the list by one, its duplicates by one if the alert
  was found to be one, and no other count; the default rule an alert without provider is checked
  against is the one the list opens with.
\<close>

theorem alerts_are_counted_once:
  assumes "distribution_enabled env" and "\<forall>s. uuid5 env s < 2 ^ 128"
    and "get_deduplication_rules env db t (alert_str a ''provider_id'') (alert_str a ''provider_type'') = Inr rs"
    and "apply_deduplication env now t a None None db = (db', Inr b)"
  shows "\<exists>r n. rs = [r] \<and> rule_uuid r = Some n \<and>
    (\<forall>t' m. ingested db' t' m = ingested db t' m + (if t' = t \<and> m = n then 1 else 0) \<and>
      duplicates db' t' m = duplicates db t' m +
        (if t' = t \<and> m = n \<and> (alert_flag b ''is_full_duplicate'' \<or> alert_flag b ''is_partial_duplicate'') then 1 else 0)) \<and>
    (alert_str a ''provider_id'' = None \<and> alert_str a ''provider_type'' = None \<and> \<not> custom_enabled env \<longrightarrow>
      uuid_str n = dto_id (get_default_full_deduplication_rule env None None))"
proof -
  obtain r n where r: "rs = [r]" "rule_uuid r = Some n" and db': "db' = db\<lparr>db_events := db_events db @
      [\<lparr>ev_tenant = t, ev_timestamp = now, ev_rule = n,
        ev_type = (if alert_flag b ''is_full_duplicate'' then ''full''
                   else if alert_flag b ''is_partial_duplicate'' then ''partial'' else ''none''),
        ev_date_hour = now div 3600, ev_provider_id = alert_str a ''provider_id'',
        ev_provider_type = alert_str a ''provider_type''\<rparr>]\<rparr>"
    using one_event [OF assms] by blast
  have def_id: "uuid_str n = dto_id (get_default_full_deduplication_rule env None None)"
    if "alert_str a ''provider_id'' = None" "alert_str a ''provider_type'' = None" "\<not> custom_enabled env"
  proof -
    have "r = Default (get_default_full_deduplication_rule env None (Some ''keep''))"
      using assms(3) that r(1) by (simp add: get_deduplication_rules_def or_keep_def)
    then have "uuid_int (generate_uuid env None None) = Some n"
      using r(2) default_rule_uuid [OF assms(2), of None "Some ''keep''"]
      by (simp add: generate_uuid_def py_lower_def lower_char_def Let_def)
    then show ?thesis using uuid_int_str assms(2)
      by (simp add: generate_uuid_def get_default_full_deduplication_rule_def Let_def)
  qed
  have counts: "ingested db' t' m = ingested db t' m + (if t' = t \<and> m = n then 1 else 0) \<and>
      duplicates db' t' m = duplicates db t' m +
        (if t' = t \<and> m = n \<and> (alert_flag b ''is_full_duplicate'' \<or> alert_flag b ''is_partial_duplicate'') then 1 else 0)" for t' m
    by (auto simp: db' ingested_def duplicates_def event_count_def)
  show ?thesis
    by (rule exI [of _ r], rule exI [of _ n]) (use r def_id counts in simp)
qed

section \<open>The hours of the last day\<close>

definition labels :: "int \<Rightarrow> int list" where
  "labels cur = map (\<lambda>i. (cur - int i) mod 24) [0..<24]"

definition untouched :: "int \<Rightarrow> (int \<times> nat) list \<Rightarrow> bool" where
  "untouched cur xs = (xs = map (\<lambda>l. (l, 0)) (labels cur))"

lemma all_time_untouched:
  assumes "\<forall>k s. dict_get d k = Some s \<longrightarrow> untouched cur (alerts_last_24_hours s)"
  shows "\<forall>k s. dict_get (fold (all_time_row cur) rows d) k = Some s \<longrightarrow> untouched cur (alerts_last_24_hours s)"
  using assms
proof (induction rows arbitrary: d)
  case (Cons row rows)
  obtain rid pid pt ty n where row: "row = ((rid, pid, pt, ty), n)" by (metis surj_pair)
  have "untouched cur (alerts_last_24_hours (empty_stats cur pid (or_keep pt)))"
    by (simp add: untouched_def labels_def empty_stats_def comp_def)
  with Cons.prems have "\<forall>k s. dict_get (all_time_row cur row d) k = Some s \<longrightarrow> untouched cur (alerts_last_24_hours s)"
    by (auto simp: row Let_def dict_get_set split: if_splits option.splits)
  with Cons.IH show ?case by simp
qed simp

text \<open>The rows of a rule, as a map from hours to numbers.\<close>

definition hours_of :: "nat \<Rightarrow> ((nat \<times> string option \<times> string option \<times> int) \<times> nat) list \<Rightarrow> (int \<times> nat) list" where
  "hours_of r rows = map (\<lambda>((rid, pid, pt, hour), n). (hour, n)) (filter (\<lambda>row. fst (fst row) = r) rows)"

definition hourly_stats_ok :: "int \<Rightarrow> (int \<times> nat) list \<Rightarrow> (int \<times> nat) list \<Rightarrow> (int \<times> nat) list \<Rightarrow> bool" where
  "hourly_stats_ok cur hs xs ys = (length ys = 24 \<and> map fst ys = map fst xs \<and>
     (\<forall>i < 24. snd (ys ! i) = (case map_of hs (cur - 23 + int i) of None \<Rightarrow> snd (xs ! i) | Some n \<Rightarrow> n)))"

lemma hourly_row_other:
  "fst (fst row) \<noteq> r \<Longrightarrow> fst (fst row) < 2 ^ 128 \<Longrightarrow> r < 2 ^ 128 \<Longrightarrow>
    dict_get (hourly_row cur row d) (uuid_str r) = dict_get d (uuid_str r)"
proof -
  assume other: "fst (fst row) \<noteq> r" "fst (fst row) < 2 ^ 128" "r < 2 ^ 128"
  obtain rid pid pt hour n where row: "row = ((rid, pid, pt, hour), n)" by (metis surj_pair)
  with other show "dict_get (hourly_row cur row d) (uuid_str r) = dict_get d (uuid_str r)"
    by (auto simp: Let_def dict_get_set uuid_str_inject split: option.split)
qed

lemma hourly_row_same:
  assumes "dict_get d (uuid_str r) = Some s" and "length (alerts_last_24_hours s) = 24"
  shows "\<exists>s'. dict_get (hourly_row cur ((r, pid, pt, hour), n) d) (uuid_str r) = Some s' \<and>
    hourly_stats_ok cur [(hour, n)] (alerts_last_24_hours s) (alerts_last_24_hours s')"
proof (cases "0 \<le> cur - hour \<and> cur - hour < 24")
  case True
  let ?xs = "alerts_last_24_hours s" and ?i = "nat (23 - (cur - hour))"
  have i: "?i < 24" using True by (simp add: nat_less_iff)
  have lab: "map fst (?xs[?i := (fst (?xs ! ?i), n)]) = map fst ?xs"
    using i assms(2) by (simp add: map_update list_update_same_conv)
  have "snd (?xs[?i := (fst (?xs ! ?i), n)] ! j) = (case map_of [(hour, n)] (cur - 23 + int j) of None \<Rightarrow> snd (?xs ! j) | Some n \<Rightarrow> n)"
    if "j < 24" for j
    using that i assms(2) True by (auto simp: nth_list_update)
  with lab assms(2) have "hourly_stats_ok cur [(hour, n)] ?xs (?xs[?i := (fst (?xs ! ?i), n)])" by (simp add: hourly_stats_ok_def)
  with True assms(1) show ?thesis by (simp add: Let_def dict_get_set)
next
  case False
  then have "cur - 23 + int i \<noteq> hour" if "i < 24" for i using that by auto
  with False assms show ?thesis by (auto simp: Let_def hourly_stats_ok_def)
qed

lemma hourly_fold:
  assumes "dict_get d (uuid_str r) = Some s" and "length (alerts_last_24_hours s) = 24"
    and "distinct (map fst (hours_of r rows))" and "r < 2 ^ 128" and "\<forall>row \<in> set rows. fst (fst row) < 2 ^ 128"
  shows "\<exists>s'. dict_get (fold (hourly_row cur) rows d) (uuid_str r) = Some s' \<and>
    hourly_stats_ok cur (hours_of r rows) (alerts_last_24_hours s) (alerts_last_24_hours s')"
  using assms
proof (induction rows arbitrary: d s)
  case Nil
  then show ?case by (simp add: hourly_stats_ok_def hours_of_def)
next
  case (Cons row rows)
  obtain rid pid pt hour n where row: "row = ((rid, pid, pt, hour), n)" by (metis surj_pair)
  show ?case
  proof (cases "rid = r")
    case False
    with Cons.prems row have "dict_get (hourly_row cur row d) (uuid_str r) = Some s" by (subst hourly_row_other) simp_all
    from Cons.IH [OF this Cons.prems(2)] Cons.prems(3-5) row False show ?thesis by (simp add: hours_of_def del: hourly_row.simps)
  next
    case True
    obtain s1 where s1: "dict_get (hourly_row cur row d) (uuid_str r) = Some s1"
      "hourly_stats_ok cur [(hour, n)] (alerts_last_24_hours s) (alerts_last_24_hours s1)"
      using hourly_row_same [OF Cons.prems(1,2)] row True by blast
    have hs: "hours_of r (row # rows) = (hour, n) # hours_of r rows" using row True by (simp add: hours_of_def)
    with Cons.prems(3) have new: "map_of (hours_of r rows) hour = None" and dist: "distinct (map fst (hours_of r rows))"
      by (simp_all add: map_of_eq_None_iff)
    obtain s2 where s2: "dict_get (fold (hourly_row cur) rows (hourly_row cur row d)) (uuid_str r) = Some s2"
      "hourly_stats_ok cur (hours_of r rows) (alerts_last_24_hours s1) (alerts_last_24_hours s2)"
      using Cons.IH [OF s1(1) _ dist] s1(2) Cons.prems(4,5) by (auto simp: hourly_stats_ok_def)
    have "hourly_stats_ok cur ((hour, n) # hours_of r rows) (alerts_last_24_hours s) (alerts_last_24_hours s2)"
      using s1(2) s2(2) new by (auto simp: hourly_stats_ok_def split: option.splits)
    with s2(1) hs show ?thesis by simp
  qed
qed

abbreviation hour_key :: "dedup_event \<Rightarrow> nat \<times> string option \<times> string option \<times> int" where
  "hour_key e \<equiv> (ev_rule e, ev_provider_id e, ev_provider_type e, ev_date_hour e)"

definition one_provider :: "nat \<Rightarrow> dedup_event list \<Rightarrow> bool" where
  "one_provider r evs = (\<forall>e \<in> set evs. \<forall>e' \<in> set evs. ev_rule e = r \<longrightarrow> ev_rule e' = r \<longrightarrow>
     ev_provider_id e = ev_provider_id e' \<and> ev_provider_type e = ev_provider_type e')"

lemma one_providerD:
  "one_provider r evs \<Longrightarrow> e \<in> set evs \<Longrightarrow> e' \<in> set evs \<Longrightarrow> ev_rule e = r \<Longrightarrow> ev_rule e' = r \<Longrightarrow>
    ev_provider_id e = ev_provider_id e' \<and> ev_provider_type e = ev_provider_type e'"
  unfolding one_provider_def by blast

lemma hours_of_group:
  "hours_of r (group_count hour_key xs) = map (\<lambda>k. (snd (snd (snd k)), length (filter (\<lambda>x. hour_key x = k) xs)))
     (filter (\<lambda>k. fst k = r) (remdups (map hour_key xs)))"
  by (simp add: hours_of_def group_count_def filter_map comp_def case_prod_unfold)

lemma hours_of_distinct:
  assumes "one_provider r xs"
  shows "distinct (map fst (hours_of r (group_count hour_key xs)))"
proof -
  have "inj_on (\<lambda>k. snd (snd (snd k))) (set (filter (\<lambda>k. fst k = r) (remdups (map hour_key xs))))"
  proof (rule inj_onI)
    fix k k' assume k: "k \<in> set (filter (\<lambda>k. fst k = r) (remdups (map hour_key xs)))"
      "k' \<in> set (filter (\<lambda>k. fst k = r) (remdups (map hour_key xs)))" "snd (snd (snd k)) = snd (snd (snd k'))"
    then obtain e e' where e: "e \<in> set xs" "k = hour_key e" "e' \<in> set xs" "k' = hour_key e'" by auto
    with k have "ev_rule e = r" "ev_rule e' = r" "ev_date_hour e = ev_date_hour e'" by simp_all
    with one_providerD [OF assms e(1,3)] e(2,4) show "k = k'" by simp
  qed
  then show ?thesis by (simp add: hours_of_group comp_def distinct_map)
qed

lemma hours_of_get:
  assumes "one_provider r xs"
  shows "(case map_of (hours_of r (group_count hour_key xs)) h of None \<Rightarrow> 0 | Some n \<Rightarrow> n) =
    length (filter (\<lambda>x. ev_rule x = r \<and> ev_date_hour x = h) xs)"
proof (cases "\<exists>e \<in> set xs. ev_rule e = r \<and> ev_date_hour e = h")
  case True
  then obtain e where e: "e \<in> set xs" "ev_rule e = r" "ev_date_hour e = h" by blast
  have same: "hour_key x = hour_key e \<longleftrightarrow> ev_rule x = r \<and> ev_date_hour x = h" if "x \<in> set xs" for x
  proof
    assume "ev_rule x = r \<and> ev_date_hour x = h"
    with one_providerD [OF assms that e(1)] e show "hour_key x = hour_key e" by simp
  qed (use e in simp)
  have "(h, length (filter (\<lambda>x. hour_key x = hour_key e) xs)) \<in> set (hours_of r (group_count hour_key xs))"
    unfolding hours_of_group using e by force
  then have "map_of (hours_of r (group_count hour_key xs)) h = Some (length (filter (\<lambda>x. hour_key x = hour_key e) xs))"
    by (intro map_of_is_SomeI hours_of_distinct [OF assms])
  moreover have "filter (\<lambda>x. hour_key x = hour_key e) xs = filter (\<lambda>x. ev_rule x = r \<and> ev_date_hour x = h) xs"
    using same by (intro filter_cong) auto
  ultimately show ?thesis by simp
next
  case False
  then have "h \<notin> fst ` set (hours_of r (group_count hour_key xs))" by (auto simp: hours_of_group)
  then have "map_of (hours_of r (group_count hour_key xs)) h = None" by (simp add: map_of_eq_None_iff)
  moreover have "filter (\<lambda>x. ev_rule x = r \<and> ev_date_hour x = h) xs = []" using False by (simp add: filter_empty_conv)
  ultimately show ?thesis by simp
qed

lemma stats_exist:
  assumes "dict_get (fold (hourly_row cur) rows d) k = Some s"
  shows "\<exists>s0. dict_get d k = Some s0"
  using assms
proof (induction rows arbitrary: d)
  case (Cons row rows)
  obtain rid pid pt hour n where row: "row = ((rid, pid, pt, hour), n)" by (metis surj_pair)
  from Cons.IH Cons.prems obtain s0 where "dict_get (hourly_row cur row d) k = Some s0" by auto
  then show ?case by (auto simp: row Let_def dict_get_set split: option.splits if_splits)
qed simp

text \<open>
  The hours of the distribution run the wrong way.  For a rule whose events share a provider, the
  events of \<open>h\<close> hours ago are counted at position \<open>23 - h\<close>, but the entry there carries the label of
  \<open>23 - h\<close> hours ago, so the number of every hour of the last day stands under another hour.
\<close>

theorem distribution_hours_are_reversed:
  assumes "dict_get (get_all_deduplication_stats now db t) (uuid_str r) = Some s"
    and "r < 2 ^ 128" and "\<forall>e \<in> set (db_events db). ev_rule e < 2 ^ 128"
    and "one_provider r (filter (\<lambda>e. ev_tenant e = t) (db_events db))" and "h < 24"
  defines "hour \<equiv> now div 3600 - int h"
  shows "\<exists>label. alerts_last_24_hours s ! (23 - h) = (label,
      length (filter (\<lambda>e. ev_tenant e = t \<and> ev_rule e = r \<and> ev_date_hour e = hour) (db_events db))) \<and>
    label = (now div 3600 - (23 - int h)) mod 24 \<and> label \<noteq> hour mod 24"
proof -
  define cur where "cur = now div 3600"
  define recent where "recent = filter (\<lambda>e. now - 24 * 3600 \<le> ev_date_hour e * 3600) (filter (\<lambda>e. ev_tenant e = t) (db_events db))"
  define d where "d = fold (all_time_row cur) (group_count (\<lambda>e. (ev_rule e, ev_provider_id e, ev_provider_type e, ev_type e))
    (filter (\<lambda>e. ev_tenant e = t) (db_events db))) []"
  have stats: "get_all_deduplication_stats now db t = fold (hourly_row cur) (group_count hour_key recent) d"
    by (simp add: get_all_deduplication_stats_def cur_def recent_def d_def Let_def)
  obtain s0 where s0: "dict_get d (uuid_str r) = Some s0" using stats_exist assms(1) unfolding stats by blast
  have "\<forall>k s. dict_get d k = Some s \<longrightarrow> untouched cur (alerts_last_24_hours s)"
    unfolding d_def by (rule all_time_untouched) (simp add: dict_get_def)
  with s0 have xs: "alerts_last_24_hours s0 = map (\<lambda>l. (l, 0)) (labels cur)" by (simp add: untouched_def)
  have one: "one_provider r recent" using assms(4) by (simp add: one_provider_def recent_def)
  have "\<forall>row \<in> set (group_count hour_key recent). fst (fst row) < 2 ^ 128"
    using assms(3) by (auto simp: group_count_def recent_def)
  from hourly_fold [OF s0 _ hours_of_distinct [OF one] assms(2) this, of cur] assms(1) xs
  have ok: "hourly_stats_ok cur (hours_of r (group_count hour_key recent)) (map (\<lambda>l. (l, 0)) (labels cur)) (alerts_last_24_hours s)"
    unfolding stats by (simp add: labels_def)
  have i: "23 - h < 24" "cur - 23 + int (23 - h) = hour" using assms(5) by (simp_all add: hour_def cur_def)
  have "snd (alerts_last_24_hours s ! (23 - h)) =
      (case map_of (hours_of r (group_count hour_key recent)) hour of None \<Rightarrow> 0 | Some n \<Rightarrow> n)"
  proof -
    have "snd (map (\<lambda>l. (l, 0)) (labels cur) ! (23 - h)) = (0 :: nat)" using i(1) by (simp add: labels_def)
    then show ?thesis using ok i unfolding hourly_stats_ok_def by (simp cong: option.case_cong)
  qed
  also have "\<dots> = length (filter (\<lambda>x. ev_rule x = r \<and> ev_date_hour x = hour) recent)" by (rule hours_of_get [OF one])
  also have "filter (\<lambda>x. ev_rule x = r \<and> ev_date_hour x = hour) recent =
      filter (\<lambda>e. ev_tenant e = t \<and> ev_rule e = r \<and> ev_date_hour e = hour) (db_events db)"
  proof -
    have "now - 24 * 3600 \<le> hour * 3600" using assms(5) by (simp add: hour_def)
    then show ?thesis unfolding recent_def filter_filter by (intro filter_cong) auto
  qed
  finally have num: "snd (alerts_last_24_hours s ! (23 - h)) = length (filter (\<lambda>e. ev_tenant e = t \<and> ev_rule e = r \<and> ev_date_hour e = hour) (db_events db))" .
  have "map fst (alerts_last_24_hours s) = labels cur" "length (alerts_last_24_hours s) = 24"
    using ok by (simp_all add: hourly_stats_ok_def comp_def)
  then have "fst (alerts_last_24_hours s ! (23 - h)) = labels cur ! (23 - h)" using i(1) by (metis nth_map)
  then have lab: "fst (alerts_last_24_hours s ! (23 - h)) = (now div 3600 - (23 - int h)) mod 24"
    using assms(5) by (simp add: labels_def cur_def)
  have "(now div 3600 - (23 - int h)) mod 24 \<noteq> hour mod 24"
  proof
    assume "(now div 3600 - (23 - int h)) mod 24 = hour mod 24"
    then have "24 dvd (now div 3600 - (23 - int h)) - hour" by (simp add: mod_eq_dvd_iff)
    then have "24 dvd 2 * int h - 23" by (simp add: hour_def)
    then show False by presburger
  qed
  with num lab show ?thesis by (cases "alerts_last_24_hours s ! (23 - h)") simp
qed

section \<open>The list\<close>

text \<open>
  A tenant's rule for alerts without a provider is listed twice once such alerts arrived.  Their type
  then appears among the linked providers, and the loop extends the list of that rule, which is the
  list it builds, by itself.
\<close>

theorem own_catch_all_rule_listed_twice:
  assumes "custom_enabled env" and "get_all_deduplication_rules db t = [r]"
    and "row_provider_type r = ''keep''" and "row_provider_id r = None" and "pr_type p = ''keep''" and "pr_id p = None"
  shows "\<exists>x. dto_id x = uuid_str (row_id r) \<and> get_deduplications env [] [p] defaults now t db = [x, x] \<and>
    get_deduplications env [] [] defaults now t db = (if dto_ingested x = 0 then [] else [x])"
proof -
  let ?stats = "get_all_deduplication_stats now db t"
  define x where "x = (let y = dedup_statistics ?stats (row_to_dto r) in
    if distribution_enabled env then provider_distribution ?stats y else y)"
  have key: "provider_key ''keep'' None = ''keep_None''" "custom_key (row_to_dto r) = ''keep_None''"
  proof -
    show k: "provider_key ''keep'' None = ''keep_None''" by (simp add: provider_key_def py_text_def)
    have "\<not> py_in ''null'' ''keep_None''" by code_simp
    with k show "custom_key (row_to_dto r) = ''keep_None''" by (simp add: custom_key_def row_to_dto_def assms(3,4))
  qed
  have custom: "dict_get (group_custom [row_to_dto r]) ''keep_None'' = Some [row_to_dto r]"
    by (simp add: group_custom_def key dict_get_set) (simp add: dict_get_def)
  have "dto_id x = uuid_str (row_id r)" by (simp add: x_def Let_def row_to_dto_def)
  moreover have "get_deduplications env [] [p] defaults now t db = [x, x]"
    by (simp add: get_deduplications_def assms custom add_provider_def key Let_def x_def)
  moreover have "get_deduplications env [] [] defaults now t db = (if dto_ingested x = 0 then [] else [x])"
    by (simp add: get_deduplications_def assms custom Let_def x_def)
  ultimately show ?thesis by blast
qed

section \<open>Concrete runs\<close>

definition counted_db :: dedup_db where
  "counted_db = sample_db\<lparr>db_rules := [sample_row 5], db_events :=
     [\<lparr>ev_tenant = ''t'', ev_timestamp = 90000, ev_rule = 5, ev_type = ''full'', ev_date_hour = 25,
       ev_provider_id = None, ev_provider_type = None\<rparr>]\<rparr>"

lemma counted_stats: "dict_get (get_all_deduplication_stats 90000 counted_db ''t'') (uuid_str 5) \<noteq> None"
  by code_simp

theorem listed_numbers_count_events_witness:
  "\<exists>x. x \<in> set (get_deduplications sample_env [] [] [] 90000 ''t'' counted_db) \<and> dto_ingested x = 1 \<and> dto_dedup_ratio x = 100"
proof -
  have "list_ex (\<lambda>x. dto_id x = uuid_str 5) (get_deduplications sample_env [] [] [] 90000 ''t'' counted_db)" by code_simp
  then obtain x where x: "x \<in> set (get_deduplications sample_env [] [] [] 90000 ''t'' counted_db)" "dto_id x = uuid_str 5"
    by (auto simp: list_ex_iff)
  have "ingested counted_db ''t'' 5 = 1" "duplicates counted_db ''t'' 5 = 1" by code_simp+
  then show ?thesis using listed_numbers_count_events [OF x] x(1) by (auto simp: counted_db_def)
qed

theorem alerts_are_counted_once_witness:
  "\<exists>db n. fst (apply_deduplication sample_env 7200 ''t'' (sample_alert ''2'') None None sample_db) = db \<and>
    rule_uuid sample_rule = Some n \<and> ingested db ''t'' n = 1 \<and> duplicates db ''t'' n = 1"
proof -
  obtain b where b: "apply_deduplication_rule sample_env sample_db ''t'' (sample_alert ''2'') sample_rule None = Inr b"
    "alert_flag b ''is_full_duplicate''"
    using apply_rule_cases [where db = sample_db and f = "''f''" and a = "sample_alert ''2''" and r = sample_rule and p = sample_hash and env = sample_env and t = "''t''"]
      sample_payload [of "''2''"] sample_facts by (auto simp: Let_def flag_set)
  then obtain db' where run: "apply_deduplication sample_env 7200 ''t'' (sample_alert ''2'') None None sample_db = (db', Inr b)"
    using sample_facts(5,6,10) by (cases "apply_deduplication sample_env 7200 ''t'' (sample_alert ''2'') None None sample_db")
      (auto simp: apply_deduplication_def Let_def split: if_splits)
  have "distribution_enabled sample_env" "ingested sample_db t n = 0" "duplicates sample_db t n = 0" for t n
    by (simp_all add: sample_env_def sample_db_def ingested_def duplicates_def event_count_def)
  then show ?thesis
    using alerts_are_counted_once [OF _ sample_facts(9) _ run, of "[sample_rule]"] sample_facts(5,6,10) run b(2) by auto
qed

theorem distribution_hours_are_reversed_witness:
  "\<exists>s. dict_get (get_all_deduplication_stats 90000 counted_db ''t'') (uuid_str 5) = Some s \<and> alerts_last_24_hours s ! 23 = (2, 1)"
proof -
  obtain s where s: "dict_get (get_all_deduplication_stats 90000 counted_db ''t'') (uuid_str 5) = Some s"
    using counted_stats by blast
  then show ?thesis
    using distribution_hours_are_reversed [OF s, of 0] by (simp add: counted_db_def one_provider_def)
qed

theorem own_catch_all_rule_listed_twice_witness:
  "length (get_deduplications sample_env [] [sample_provider] [] 0 ''t'' (sample_db\<lparr>db_rules := [sample_row 5]\<rparr>)) = 2"
  using own_catch_all_rule_listed_twice [of sample_env "sample_db\<lparr>db_rules := [sample_row 5]\<rparr>" "''t''" "sample_row 5" sample_provider "[]" 0]
  by (auto simp: sample_env_def get_all_deduplication_rules_def sample_row_def sample_provider_def)

end
