(* ===== verification/Alert_Enrichment.thy ===== *)
theory Alert_Enrichment
  imports Alert_Deduplicator
begin

text \<open>
  What users and rules write onto alerts and incidents: the typed columns of \<open>LastAlert\<close>, the free-form
  enrichment of incidents, and the life of both as new occurrences of an alert arrive.  The functions
  are those of \<open>src/src/repositories/db.py\<close>.  The columns a write reaches by name are a function from
  names to JSON values, \<open>JNull\<close> for \<open>NULL\<close>; a write of \<open>NULL\<close> to a column that does not take it is an
  \<open>IntegrityError\<close>, other type errors of the database are left out.  A function returns the tables
  with its result.
\<close>

section \<open>Python's truth of a JSON value\<close>

definition float_nonzero :: "string \<Rightarrow> bool" where
  "float_nonzero t = list_ex (\<lambda>c. c \<in> set ''123456789NI'') (takeWhile (\<lambda>c. c \<noteq> CHR ''e'' \<and> c \<noteq> CHR ''E'') t)"

fun truthy :: "json \<Rightarrow> bool" where
  "truthy JNull = False"
| "truthy (JBool b) = b"
| "truthy (JInt i) = (i \<noteq> 0)"
| "truthy (JFloat t) = float_nonzero t"
| "truthy (JStr s) = (s \<noteq> [])"
| "truthy (JList vs) = (vs \<noteq> [])"
| "truthy (JObj kvs) = (kvs \<noteq> [])"
| "truthy (JOther s) = True"

definition get_or_null :: "(string, json) pydict \<Rightarrow> string \<Rightarrow> json" where
  "get_or_null d k = (case dict_get d k of None \<Rightarrow> JNull | Some v \<Rightarrow> v)"

definition has_key :: "(string, json) pydict \<Rightarrow> string \<Rightarrow> bool" where
  "has_key d k = (dict_get d k \<noteq> None)"

definition setdefault :: "string \<Rightarrow> json \<Rightarrow> (string, json) pydict \<Rightarrow> (string, json) pydict" where
  "setdefault k v d = (if has_key d k then d else dict_set k v d)"

section \<open>Rows\<close>

type_synonym enrichments = "(string, json) pydict"

record last_alert_row = last_alert +
  la_alert_id :: nat
  la_timestamp :: int
  la_first_timestamp :: int
  la_columns :: "string \<Rightarrow> json"

definition enrichment_columns :: "string list" where
  "enrichment_columns = [''status'', ''status_disposable'', ''dismiss_mode'', ''dismissed_until'', ''assignee'', ''note'',
     ''deleted'', ''ticket_type'', ''ticket_url'', ''ticket_provider_id'']"

definition tracking_columns :: "string list" where
  "tracking_columns = [''last_received'', ''firing_counter'', ''unresolved_counter'', ''started_at'', ''firing_start_time'',
     ''firing_start_time_since_last_resolved'']"

definition not_null_columns :: "string list" where
  "not_null_columns = [''status_disposable'', ''deleted'', ''firing_counter'', ''unresolved_counter'']"

definition default_columns :: "string \<Rightarrow> json" where
  "default_columns k = (if k = ''status_disposable'' \<or> k = ''deleted'' then JBool False
     else if k = ''firing_counter'' \<or> k = ''unresolved_counter'' then JInt 0 else JNull)"

record audit =
  au_tenant :: string
  au_fingerprint :: string
  au_user :: string
  au_action :: string
  au_description :: string

record incident_enrichment =
  ie_tenant :: string
  ie_incident :: nat
  ie_enrichments :: enrichments

record enrich_db =
  edb_last :: "last_alert_row list"
  edb_audits :: "audit list"
  edb_incidents :: "incident_enrichment list"

datatype enrich_error = UnknownKeys "string list" | BadUUID | NotNull

text \<open>Who does what: the action, its author and its text, as they enter the audit.\<close>

record action =
  ac_type :: string
  ac_callee :: string
  ac_description :: string

definition audit_of :: "string \<Rightarrow> string \<Rightarrow> action \<Rightarrow> audit" where
  "audit_of t f a = \<lparr>au_tenant = t, au_fingerprint = f, au_user = ac_callee a, au_action = ac_type a,
     au_description = ac_description a\<rparr>"

section \<open>Normalisation\<close>

definition translate_dismissed :: "enrichments \<Rightarrow> enrichments" where
  "translate_dismissed e =
     (if has_key e ''dismissed'' then
        let dismissed = truthy (get_or_null e ''dismissed'');
            n = dict_del ''dismissed'' e;
            ts0 = get_or_null n ''dismissed_until'';
            (ts, n) = (if ts0 = JNull then (get_or_null n ''dismiss_until'', dict_del ''dismiss_until'' n) else (ts0, n))
        in if dismissed then
             let n = setdefault ''status'' (JStr ''suppressed'') n in
             if truthy ts then dict_set ''dismissed_until'' ts (dict_set ''dismiss_mode'' (JStr ''dismiss_until'') n)
             else setdefault ''dismiss_mode'' (JStr ''permanent'') n
           else dict_set ''dismissed_until'' JNull (dict_set ''dismiss_mode'' JNull (setdefault ''status'' JNull n))
      else if has_key e ''dismiss_until'' then
        let ts = get_or_null e ''dismiss_until''; n = dict_del ''dismiss_until'' e
        in if truthy ts
           then dict_set ''dismissed_until'' ts (dict_set ''dismiss_mode'' (JStr ''dismiss_until'')
                  (setdefault ''status'' (JStr ''suppressed'') n))
           else n
      else if has_key e ''dismiss_mode'' then
        if truthy (get_or_null e ''dismiss_mode'') then setdefault ''status'' (JStr ''suppressed'') e
        else setdefault ''dismissed_until'' JNull (setdefault ''status'' JNull e)
      else e)"

definition normalize_enrichments :: "bool \<Rightarrow> enrichments \<Rightarrow> enrich_error + enrichments" where
  "normalize_enrichments strict e =
     (let n = translate_dismissed e;
          unknown = sort (filter (\<lambda>k. k \<notin> set enrichment_columns) (dict_keys n))
      in if unknown = [] then Inr n
         else if strict then Inl (UnknownKeys unknown)
         else Inr (filter (\<lambda>(k, _). k \<in> set enrichment_columns) n))"

section \<open>Writing to alerts\<close>

text \<open>\<open>str.strip()\<close> of a note leaves nothing.\<close>

fun blank_note :: "json \<Rightarrow> bool" where
  "blank_note JNull = True"
| "blank_note (JStr s) = (py_strip s = [])"
| "blank_note v = False"

fun apply_columns :: "bool \<Rightarrow> enrichments \<Rightarrow> (string \<Rightarrow> json) \<Rightarrow> (string \<Rightarrow> json)" where
  "apply_columns force [] c = c"
| "apply_columns force ((k, v) # e) c =
     apply_columns force e (if k = ''note'' \<and> \<not> force \<and> blank_note v then c else c(k := v))"

definition apply_enrichments_to_last_alert :: "bool \<Rightarrow> enrichments \<Rightarrow> last_alert_row \<Rightarrow> last_alert_row" where
  "apply_enrichments_to_last_alert force e r = r\<lparr>la_columns := apply_columns force e (la_columns r)\<rparr>"

definition row_valid :: "last_alert_row \<Rightarrow> bool" where
  "row_valid r = list_all (\<lambda>k. la_columns r k \<noteq> JNull) not_null_columns"

definition row_key :: "string \<Rightarrow> string \<Rightarrow> last_alert_row \<Rightarrow> bool" where
  "row_key t f r = (la_tenant r = t \<and> la_fingerprint r = f)"

definition get_last_alert_by_fingerprint :: "string \<Rightarrow> string \<Rightarrow> enrich_db \<Rightarrow> last_alert_row option" where
  "get_last_alert_by_fingerprint t f db = find (row_key t f) (edb_last db)"

text \<open>The write of a changed row: the primary key names it.\<close>

definition store_row :: "last_alert_row \<Rightarrow> last_alert_row list \<Rightarrow> last_alert_row list" where
  "store_row r rows = map (\<lambda>x. if row_key (la_tenant r) (la_fingerprint r) x then r else x) rows"

definition enrich_alert ::
  "string \<Rightarrow> string \<Rightarrow> enrichments \<Rightarrow> action \<Rightarrow> bool \<Rightarrow> bool \<Rightarrow> bool \<Rightarrow> enrich_db \<Rightarrow> enrich_db \<times> (enrich_error + last_alert_row option)" where
  "enrich_alert t f e act force audit_enabled strict db =
     (case normalize_enrichments strict e of
        Inl err \<Rightarrow> (db, Inl err)
      | Inr n \<Rightarrow>
          let audited = (\<lambda>db. if audit_enabled then db\<lparr>edb_audits := edb_audits db @ [audit_of t f act]\<rparr> else db) in
          case get_last_alert_by_fingerprint t f db of
            None \<Rightarrow> (audited db, Inr None)
          | Some r \<Rightarrow>
              let r' = apply_enrichments_to_last_alert force n r in
              if row_valid r' then (audited (db\<lparr>edb_last := store_row r' (edb_last db)\<rparr>), Inr (Some r'))
              else (db, Inl NotNull))"

section \<open>Writing to incidents\<close>

definition dict_merge :: "enrichments \<Rightarrow> enrichments \<Rightarrow> enrichments" where
  "dict_merge d e = fold (\<lambda>(k, v). dict_set k v) e d"

text \<open>Not provided, \<open>None\<close>, empty or blank: the note a user wrote stays.\<close>

definition no_note :: "enrichments \<Rightarrow> bool" where
  "no_note e = (\<not> truthy (get_or_null e ''note'') \<or> blank_note (get_or_null e ''note''))"

definition merge_incident :: "bool \<Rightarrow> enrichments \<Rightarrow> enrichments \<Rightarrow> enrichments" where
  "merge_incident force old e =
     (let new = (if force then e else dict_merge old e);
          new = (if \<not> force \<and> no_note e \<and> truthy (get_or_null old ''note'')
                 then dict_set ''note'' (get_or_null old ''note'') new else new)
      in fold (\<lambda>(k, v) d. if v = JNull then dict_del k d else d) e new)"

definition incident_row :: "string \<Rightarrow> nat \<Rightarrow> enrich_db \<Rightarrow> incident_enrichment option" where
  "incident_row t i db = find (\<lambda>r. ie_tenant r = t \<and> ie_incident r = i) (edb_incidents db)"

definition enrich_incident ::
  "string \<Rightarrow> string \<Rightarrow> enrichments \<Rightarrow> action \<Rightarrow> bool \<Rightarrow> bool \<Rightarrow> enrich_db \<Rightarrow> enrich_db \<times> (enrich_error + incident_enrichment option)" where
  "enrich_incident t f e act force audit_enabled db =
     (case uuid_int f of
        None \<Rightarrow> (db, Inl BadUUID)
      | Some i \<Rightarrow>
          let audited = (\<lambda>db. if audit_enabled then db\<lparr>edb_audits := edb_audits db @ [audit_of t (uuid_str i) act]\<rparr> else db) in
          case incident_row t i db of
            Some r \<Rightarrow>
              let r' = r\<lparr>ie_enrichments := merge_incident force (ie_enrichments r) e\<rparr> in
              (audited (db\<lparr>edb_incidents := map (\<lambda>x. if ie_incident x = i then r' else x) (edb_incidents db)\<rparr>), Inr (Some r'))
          | None \<Rightarrow>
              if list_ex (\<lambda>x. ie_incident x = i) (edb_incidents db) then (db, Inr None)
              else let r' = \<lparr>ie_tenant = t, ie_incident = i, ie_enrichments = e\<rparr> in
                (audited (db\<lparr>edb_incidents := edb_incidents db @ [r']\<rparr>), Inr (Some r')))"

section \<open>New occurrences\<close>

record occurrence =
  oc_id :: nat
  oc_fingerprint :: string
  oc_timestamp :: int
  oc_hash :: "string option"
  oc_status :: string

definition apply_dismiss_lifecycle :: "last_alert_row \<Rightarrow> string \<Rightarrow> bool \<times> last_alert_row" where
  "apply_dismiss_lifecycle r status =
     (let should_clear = (if status = ''resolved'' then True else truthy (la_columns r ''status_disposable'')) in
      if \<not> should_clear then (False, r)
      else (True, r\<lparr>la_columns := (la_columns r)(''status'' := JStr status, ''status_disposable'' := JBool True,
              ''dismiss_mode'' := JNull, ''dismissed_until'' := JNull)\<rparr>))"

definition write_tracking :: "enrichments option \<Rightarrow> (string \<Rightarrow> json) \<Rightarrow> (string \<Rightarrow> json)" where
  "write_tracking tracking c = (case tracking of None \<Rightarrow> c
     | Some kvs \<Rightarrow> fold (\<lambda>(k, v) c. if k \<in> set tracking_columns then c(k := v) else c) kvs c)"

definition set_last_alert :: "string \<Rightarrow> occurrence \<Rightarrow> enrichments option \<Rightarrow> enrich_db \<Rightarrow> enrich_db \<times> (enrich_error + unit)" where
  "set_last_alert t a tracking db =
     (case get_last_alert_by_fingerprint t (oc_fingerprint a) db of
        Some r \<Rightarrow>
          if la_timestamp r < oc_timestamp a then
            let r = r\<lparr>la_timestamp := oc_timestamp a, la_alert_id := oc_id a, la_hash := oc_hash a\<rparr>;
                r = r\<lparr>la_columns := write_tracking tracking (la_columns r)\<rparr>;
                r = snd (apply_dismiss_lifecycle r (oc_status a))
            in if row_valid r then (db\<lparr>edb_last := store_row r (edb_last db)\<rparr>, Inr ()) else (db, Inl NotNull)
          else (db, Inr ())
      | None \<Rightarrow>
          let r = \<lparr>la_tenant = t, la_fingerprint = oc_fingerprint a, la_hash = oc_hash a,
             la_alert_id = oc_id a, la_timestamp = oc_timestamp a, la_first_timestamp = oc_timestamp a,
             la_columns = write_tracking tracking default_columns\<rparr>
          in if row_valid r then (db\<lparr>edb_last := edb_last db @ [r]\<rparr>, Inr ()) else (db, Inl NotNull))"

text \<open>\<open>COALESCE(lastalert.status, alert.status)\<close>: the status an alert is shown with.\<close>

definition effective_status :: "last_alert_row \<Rightarrow> string \<Rightarrow> json" where
  "effective_status r provider = (if la_columns r ''status'' = JNull then JStr provider else la_columns r ''status'')"

section \<open>Normalisation accepts what it says, and settles\<close>

lemma has_key_set [simp]: "has_key (dict_set k v d) k' = (k' = k \<or> has_key d k')"
  by (simp add: has_key_def dict_get_set)

lemma has_key_del [simp]: "has_key (dict_del k d) k' = (k' \<noteq> k \<and> has_key d k')"
  by (simp add: has_key_def dict_get_del)

lemma has_key_setdefault [simp]: "has_key (setdefault k v d) k' = (k' = k \<or> has_key d k')"
  by (auto simp: setdefault_def)

lemma has_key_keys: "has_key d k \<longleftrightarrow> k \<in> set (dict_keys d)"
  by (simp add: has_key_def dict_keys_get)

lemma get_or_null_del [simp]: "k' \<noteq> k \<Longrightarrow> get_or_null (dict_del k d) k' = get_or_null d k'"
  by (simp add: get_or_null_def dict_get_del)

lemma get_or_null_absent: "\<not> has_key d k \<Longrightarrow> get_or_null d k = JNull"
  by (auto simp: has_key_def get_or_null_def)

lemma setdefault_present: "has_key d k \<Longrightarrow> setdefault k v d = d"
  by (simp add: setdefault_def)

lemma typed_filter: "k \<in> set enrichment_columns \<Longrightarrow> has_key (filter (\<lambda>(k, _). k \<in> set enrichment_columns) d) k = has_key d k"
  by (simp add: has_key_def dict_get_filter)

definition legacy_keys :: "string list" where
  "legacy_keys = [''dismissed'', ''dismiss_until'']"

text \<open>A \<open>dismiss_until\<close> beside a \<open>dismissed\<close> and a \<open>dismissed_until\<close> that takes precedence.\<close>

definition two_dates :: "enrichments \<Rightarrow> bool" where
  "two_dates e = (has_key e ''dismissed'' \<and> has_key e ''dismiss_until'' \<and> get_or_null e ''dismissed_until'' \<noteq> JNull)"

lemma enrichment_columns_simps [simp]:
  "''status'' \<in> set enrichment_columns" "''dismiss_mode'' \<in> set enrichment_columns" "''dismissed_until'' \<in> set enrichment_columns"
  "''dismissed'' \<notin> set enrichment_columns" "''dismiss_until'' \<notin> set enrichment_columns" "''note'' \<in> set enrichment_columns"
  by (simp_all add: enrichment_columns_def)

lemma translated_other:
  assumes "k \<notin> set enrichment_columns"
  shows "has_key (translate_dismissed e) k \<longleftrightarrow> has_key e k \<and> k \<noteq> ''dismissed'' \<and> (k = ''dismiss_until'' \<longrightarrow> two_dates e)"
proof -
  have k: "k \<noteq> ''status''" "k \<noteq> ''dismiss_mode''" "k \<noteq> ''dismissed_until''" using assms by auto
  consider "has_key e ''dismissed''" | "\<not> has_key e ''dismissed''" "has_key e ''dismiss_until''"
    | "\<not> has_key e ''dismissed''" "\<not> has_key e ''dismiss_until''" by blast
  then show ?thesis
  proof cases
    case 1
    show ?thesis
    proof (cases "get_or_null e ''dismissed_until'' = JNull")
      case True
      with 1 k show ?thesis by (auto simp: translate_dismissed_def two_dates_def Let_def)
    next
      case False
      with 1 k show ?thesis by (auto simp: translate_dismissed_def two_dates_def Let_def)
    qed
  next
    case 2
    with k show ?thesis by (auto simp: translate_dismissed_def two_dates_def Let_def)
  next
    case 3
    with k show ?thesis by (auto simp: translate_dismissed_def two_dates_def Let_def)
  qed
qed

lemma translated_keys:
  "(\<forall>k \<in> set (dict_keys (translate_dismissed e)). k \<in> set enrichment_columns) \<longleftrightarrow>
    (\<forall>k \<in> set (dict_keys e). k \<in> set enrichment_columns \<or> k \<in> set legacy_keys) \<and> \<not> two_dates e"
proof -
  have "(\<forall>k. has_key (translate_dismissed e) k \<longrightarrow> k \<in> set enrichment_columns) \<longleftrightarrow>
      (\<forall>k. k \<notin> set enrichment_columns \<longrightarrow> has_key e k \<longrightarrow> k = ''dismissed'' \<or> k = ''dismiss_until'' \<and> \<not> two_dates e)"
    using translated_other by blast
  also have "\<dots> \<longleftrightarrow> (\<forall>k. has_key e k \<longrightarrow> k \<in> set enrichment_columns \<or> k \<in> set legacy_keys) \<and> \<not> two_dates e"
  proof -
    have "two_dates e \<Longrightarrow> has_key e ''dismiss_until''" "''dismiss_until'' \<noteq> ''dismissed''"
      "''dismiss_until'' \<notin> set enrichment_columns" "k \<in> set legacy_keys \<longleftrightarrow> k = ''dismissed'' \<or> k = ''dismiss_until''" for k
      by (simp_all add: two_dates_def legacy_keys_def)
    then show ?thesis by blast
  qed
  finally show ?thesis by (simp add: has_key_keys Ball_def)
qed

lemma normalize_cases:
  "normalize_enrichments strict e =
    (if \<forall>k \<in> set (dict_keys (translate_dismissed e)). k \<in> set enrichment_columns then Inr (translate_dismissed e)
     else if strict then Inl (UnknownKeys (sort (filter (\<lambda>k. k \<notin> set enrichment_columns) (dict_keys (translate_dismissed e)))))
     else Inr (filter (\<lambda>(k, _). k \<in> set enrichment_columns) (translate_dismissed e)))"
proof -
  have "sort (filter (\<lambda>k. k \<notin> set enrichment_columns) (dict_keys (translate_dismissed e))) = [] \<longleftrightarrow>
      (\<forall>k \<in> set (dict_keys (translate_dismissed e)). k \<in> set enrichment_columns)"
    by (metis (no_types, lifting) filter_empty_conv set_empty set_sort)
  then show ?thesis by (simp add: normalize_enrichments_def Let_def)
qed

lemma normalized_typed: "normalize_enrichments strict e = Inr n \<Longrightarrow> set (dict_keys n) \<subseteq> set enrichment_columns"
  by (auto simp: normalize_cases dict_keys_def split: if_splits)

lemma normalized_key: "normalize_enrichments strict e = Inr n \<Longrightarrow> k \<in> set enrichment_columns \<Longrightarrow>
    dict_get n k = dict_get (translate_dismissed e) k"
  by (auto simp: normalize_cases dict_get_filter split: if_splits)

text \<open>
  What a write accepts.  A strict one is refused exactly when it names a key that is neither a typed
  column nor one of the two legacy keys, or gives two dates beside the legacy flag; a lenient one is
  never refused; and what passes names typed columns only.
\<close>

theorem normalize_accepts_typed_keys:
  "(normalize_enrichments True e = Inr (translate_dismissed e) \<longleftrightarrow>
      (\<forall>k \<in> set (dict_keys e). k \<in> set enrichment_columns \<or> k \<in> set legacy_keys) \<and> \<not> two_dates e) \<and>
   (\<exists>n. normalize_enrichments False e = Inr n) \<and>
   (\<forall>n. normalize_enrichments strict e = Inr n \<longrightarrow> set (dict_keys n) \<subseteq> set enrichment_columns)"
  using translated_keys [of e] normalized_typed [of strict e] by (auto simp: normalize_cases)

theorem normalize_accepts_typed_keys_witness:
  "normalize_enrichments True [(''dismissed'', JBool True), (''note'', JStr ''x'')] =
     Inr [(''note'', JStr ''x''), (''status'', JStr ''suppressed''), (''dismiss_mode'', JStr ''permanent'')]"
proof -
  let ?e = "[(''dismissed'', JBool True), (''note'', JStr ''x'')]"
  have "translate_dismissed ?e = [(''note'', JStr ''x''), (''status'', JStr ''suppressed''), (''dismiss_mode'', JStr ''permanent'')]"
    by code_simp
  moreover have "(\<forall>k \<in> set (dict_keys ?e). k \<in> set enrichment_columns \<or> k \<in> set legacy_keys) \<and> \<not> two_dates ?e" by code_simp
  ultimately show ?thesis using normalize_accepts_typed_keys [of ?e True] by simp
qed

text \<open>A dismissal given by a legacy key and by the typed column at once.\<close>

definition mixed_dismissal :: "enrichments \<Rightarrow> bool" where
  "mixed_dismissal e = (has_key e ''dismiss_mode'' \<and> (has_key e ''dismissed'' \<or> has_key e ''dismiss_until''))"

lemma translate_settles:
  assumes "\<not> has_key n ''dismissed''" and "\<not> has_key n ''dismiss_until''"
    and "has_key n ''dismiss_mode'' \<Longrightarrow> has_key n ''status''"
    and "has_key n ''dismiss_mode'' \<Longrightarrow> \<not> truthy (get_or_null n ''dismiss_mode'') \<Longrightarrow> has_key n ''dismissed_until''"
  shows "translate_dismissed n = n"
  using assms by (simp add: translate_dismissed_def setdefault_present)

lemma get_or_null_set [simp]: "get_or_null (dict_set k v d) k' = (if k' = k then v else get_or_null d k')"
  by (simp add: get_or_null_def dict_get_set)

lemma get_or_null_setdefault: "get_or_null (setdefault k v d) k' = (if k' = k \<and> \<not> has_key d k then v else get_or_null d k')"
  by (simp add: setdefault_def)

lemma translated_coupled:
  assumes "\<not> mixed_dismissal e" and "has_key (translate_dismissed e) ''dismiss_mode''"
  shows "has_key (translate_dismissed e) ''status'' \<and>
    (truthy (get_or_null (translate_dismissed e) ''dismiss_mode'') \<or> has_key (translate_dismissed e) ''dismissed_until'')"
proof -
  consider "has_key e ''dismissed''" | "\<not> has_key e ''dismissed''" "has_key e ''dismiss_until''"
    | "\<not> has_key e ''dismissed''" "\<not> has_key e ''dismiss_until''" by blast
  then show ?thesis
  proof cases
    case 1
    with assms(1) have "\<not> has_key e ''dismiss_mode''" by (simp add: mixed_dismissal_def)
    with 1 show ?thesis by (simp add: translate_dismissed_def Let_def get_or_null_setdefault case_prod_unfold)
  next
    case 2
    with assms show ?thesis by (auto simp: translate_dismissed_def Let_def mixed_dismissal_def split: if_splits)
  next
    case 3
    with assms(2) show ?thesis by (auto simp: translate_dismissed_def get_or_null_setdefault split: if_splits)
  qed
qed

text \<open>
  Normalising twice is normalising once, which the service relies on when it normalises for the
  event and the search index and the database layer normalises again.  It holds unless a write
  gives its dismissal by a legacy key and by \<open>dismiss_mode\<close> at once.
\<close>

theorem normalisation_settles:
  assumes "normalize_enrichments strict e = Inr n" and "\<not> mixed_dismissal e"
  shows "normalize_enrichments strict' n = Inr n"
proof -
  have typed: "set (dict_keys n) \<subseteq> set enrichment_columns" by (rule normalized_typed [OF assms(1)])
  then have "\<not> has_key n ''dismissed''" "\<not> has_key n ''dismiss_until''" by (auto simp: has_key_keys)
  moreover have same: "has_key n k = has_key (translate_dismissed e) k" "get_or_null n k = get_or_null (translate_dismissed e) k"
    if "k \<in> set enrichment_columns" for k
    using normalized_key [OF assms(1) that] by (simp_all add: has_key_def get_or_null_def)
  ultimately have "translate_dismissed n = n"
    using translated_coupled [OF assms(2)] by (intro translate_settles) (simp_all add: same)
  with typed show ?thesis by (auto simp: normalize_cases)
qed

theorem normalisation_settles_witness:
  "normalize_enrichments True [(''status'', JStr ''suppressed''), (''dismiss_mode'', JStr ''permanent'')]
     = Inr [(''status'', JStr ''suppressed''), (''dismiss_mode'', JStr ''permanent'')]"
proof -
  have "normalize_enrichments True [(''dismissed'', JBool True)] = Inr [(''status'', JStr ''suppressed''), (''dismiss_mode'', JStr ''permanent'')]"
    "\<not> mixed_dismissal [(''dismissed'', JBool True)]" by code_simp+
  then show ?thesis by (rule normalisation_settles)
qed

text \<open>
  A mixed one does not settle: the first pass leaves a permanent dismissal without a status, the second
  adds the status.
\<close>

lemma mixed_dismissal_does_not_settle:
  "normalize_enrichments True [(''dismiss_until'', JNull), (''dismiss_mode'', JStr ''permanent'')] = Inr [(''dismiss_mode'', JStr ''permanent'')]"
  "normalize_enrichments True [(''dismiss_mode'', JStr ''permanent'')] = Inr [(''dismiss_mode'', JStr ''permanent''), (''status'', JStr ''suppressed'')]"
  by code_simp+

section \<open>The life of a status\<close>

lemma find_store:
  "find (row_key t f) rows = Some r \<Longrightarrow> row_key t f r' \<Longrightarrow> find (row_key t f) (store_row r' rows) = Some r'"
  by (induction rows) (auto simp: store_row_def row_key_def split: if_splits)

lemma find_store_other:
  "\<not> row_key t f r' \<Longrightarrow> find (row_key t f) (store_row r' rows) = find (row_key t f) rows"
  by (induction rows) (auto simp: store_row_def row_key_def split: if_splits)

lemma found_key: "find (row_key t f) rows = Some r \<Longrightarrow> row_key t f r"
  by (auto simp: find_Some_iff)

text \<open>The row after an occurrence that is newer.\<close>

definition receive :: "occurrence \<Rightarrow> last_alert_row \<Rightarrow> last_alert_row" where
  "receive a r = snd (apply_dismiss_lifecycle
     (r\<lparr>la_timestamp := oc_timestamp a, la_alert_id := oc_id a, la_hash := oc_hash a\<rparr>) (oc_status a))"

lemma receive_simps [simp]: "la_timestamp (receive a r) = oc_timestamp a" "la_alert_id (receive a r) = oc_id a"
  "la_hash (receive a r) = oc_hash a" "la_tenant (receive a r) = la_tenant r" "la_fingerprint (receive a r) = la_fingerprint r"
  by (simp_all add: receive_def apply_dismiss_lifecycle_def Let_def)

text \<open>The columns once what the user set has ended.\<close>

definition ended :: "string \<Rightarrow> (string \<Rightarrow> json) \<Rightarrow> (string \<Rightarrow> json)" where
  "ended s c = c(''status'' := JStr s, ''status_disposable'' := JBool True, ''dismiss_mode'' := JNull, ''dismissed_until'' := JNull)"

lemma ended_simps [simp]: "ended s c ''status'' = JStr s" "ended s c ''status_disposable'' = JBool True"
  "ended s c ''dismiss_mode'' = JNull" "ended s c ''dismissed_until'' = JNull" "ended s' (ended s c) = ended s' c"
  by (auto simp: ended_def fun_eq_iff)

lemma receive_columns:
  "la_columns (receive a r) = (if oc_status a = ''resolved'' \<or> truthy (la_columns r ''status_disposable'')
     then ended (oc_status a) (la_columns r) else la_columns r)"
  by (simp add: receive_def apply_dismiss_lifecycle_def ended_def Let_def)

lemma receive_valid: "row_valid r \<Longrightarrow> row_valid (receive a r)"
  by (simp add: row_valid_def receive_columns not_null_columns_def ended_def)

lemma set_last_alert_newer:
  assumes "get_last_alert_by_fingerprint t (oc_fingerprint a) db = Some r" and "la_timestamp r < oc_timestamp a" and "row_valid r"
  shows "set_last_alert t a None db = (db\<lparr>edb_last := store_row (receive a r) (edb_last db)\<rparr>, Inr ())"
  using receive_valid [OF assms(3), of a] assms(1,2)
  by (simp add: set_last_alert_def write_tracking_def receive_def Let_def)

lemma get_after_receive:
  assumes "get_last_alert_by_fingerprint t (oc_fingerprint a) db = Some r" and "la_timestamp r < oc_timestamp a" and "row_valid r"
  shows "get_last_alert_by_fingerprint t (oc_fingerprint a) (fst (set_last_alert t a None db)) = Some (receive a r)"
  using assms found_key [of t "oc_fingerprint a" "edb_last db" r]
  by (simp add: set_last_alert_newer get_last_alert_by_fingerprint_def find_store row_key_def)

abbreviation arrive :: "string \<Rightarrow> occurrence \<Rightarrow> enrich_db \<Rightarrow> enrich_db" where
  "arrive t a db \<equiv> fst (set_last_alert t a None db)"

lemma arrivals:
  assumes "get_last_alert_by_fingerprint t f db = Some r" and "row_valid r"
    and "\<forall>a \<in> set as. oc_fingerprint a = f" and "sorted_wrt (<) (la_timestamp r # map oc_timestamp as)"
  shows "get_last_alert_by_fingerprint t f (fold (arrive t) as db) = Some (fold receive as r)"
  using assms
proof (induction as arbitrary: db r)
  case (Cons a as)
  have "get_last_alert_by_fingerprint t f (arrive t a db) = Some (receive a r)"
    using Cons.prems get_after_receive [of t a db r] by simp
  from Cons.IH [OF this receive_valid [OF Cons.prems(2)]] Cons.prems(3,4) show ?case by simp
qed simp

lemma fold_receive_id: "as \<noteq> [] \<Longrightarrow> la_alert_id (fold receive as r) = oc_id (last as)"
  by (induction as arbitrary: r) auto

lemma fold_receive_disposable:
  "truthy (la_columns r ''status_disposable'') \<Longrightarrow> as \<noteq> [] \<Longrightarrow>
    la_columns (fold receive as r) = ended (oc_status (last as)) (la_columns r)"
proof (induction as arbitrary: r)
  case (Cons a as)
  then show ?case using Cons.IH [of "receive a r"] by (cases "as = []") (simp_all add: receive_columns)
qed simp

lemma fold_receive_kept:
  "\<not> truthy (la_columns r ''status_disposable'') \<Longrightarrow> \<forall>a \<in> set as. oc_status a \<noteq> ''resolved'' \<Longrightarrow>
    la_columns (fold receive as r) = la_columns r"
  by (induction as arbitrary: r) (simp_all add: receive_columns)

lemma fold_receive_ended:
  assumes "\<exists>a \<in> set as. oc_status a = ''resolved''"
  shows "la_columns (fold receive as r) = ended (oc_status (last as)) (la_columns r)"
  using assms
proof (induction as arbitrary: r)
  case (Cons a as)
  show ?case
  proof (cases "as \<noteq> [] \<and> oc_status a \<noteq> ''resolved''")
    case True
    with Cons.prems Cons.IH [of "receive a r"] show ?thesis by (auto simp: receive_columns)
  next
    case False
    then show ?thesis
      using Cons.prems fold_receive_disposable [of "receive a r" as] by (cases "as = []") (auto simp: receive_columns)
  qed
qed simp

text \<open>
  C15: how long what a user set on an alert lasts.  As newer occurrences arrive, a status kept on new
  alerts stays, with its dismissal, until an occurrence is resolved; one disposed on new alerts ends
  with the first; and from the end on the alert is shown with the status of its latest occurrence.
  A resolved occurrence ends a dismissal with a date as well.
\<close>

theorem status_lasts_until_resolved:
  assumes "get_last_alert_by_fingerprint t f db = Some r" and "row_valid r" and "as \<noteq> []"
    and "\<forall>a \<in> set as. oc_fingerprint a = f" and "sorted_wrt (<) (la_timestamp r # map oc_timestamp as)"
  shows "\<exists>r'. get_last_alert_by_fingerprint t f (fold (arrive t) as db) = Some r' \<and> la_alert_id r' = oc_id (last as) \<and>
    (if truthy (la_columns r ''status_disposable'') \<or> (\<exists>a \<in> set as. oc_status a = ''resolved'')
     then effective_status r' (oc_status (last as)) = JStr (oc_status (last as)) \<and>
       la_columns r' ''dismiss_mode'' = JNull \<and> la_columns r' ''dismissed_until'' = JNull \<and>
       truthy (la_columns r' ''status_disposable'')
     else la_columns r' = la_columns r)"
proof -
  have "get_last_alert_by_fingerprint t f (fold (arrive t) as db) = Some (fold receive as r)"
    using arrivals assms(1,2,4,5) by blast
  moreover have "la_alert_id (fold receive as r) = oc_id (last as)" using assms(3) by (rule fold_receive_id)
  ultimately show ?thesis
    using fold_receive_disposable [of r as] fold_receive_ended [of as r] fold_receive_kept [of r as] assms(3)
    by (auto simp: effective_status_def)
qed

definition plain_row :: "int \<Rightarrow> (string \<Rightarrow> json) \<Rightarrow> last_alert_row" where
  "plain_row ts c = \<lparr>la_tenant = ''t'', la_fingerprint = ''f'', la_hash = None, la_alert_id = 1, la_timestamp = ts,
     la_first_timestamp = ts, la_columns = c\<rparr>"

definition dismissed_row :: last_alert_row where
  "dismissed_row = plain_row 10 (default_columns(''status'' := JStr ''suppressed'', ''dismiss_mode'' := JStr ''dismiss_until'',
     ''dismissed_until'' := JStr ''2030-01-01''))"

definition occur :: "int \<Rightarrow> string \<Rightarrow> occurrence" where
  "occur ts s = \<lparr>oc_id = nat ts, oc_fingerprint = ''f'', oc_timestamp = ts, oc_hash = None, oc_status = s\<rparr>"

theorem status_lasts_until_resolved_witness:
  "\<exists>r. get_last_alert_by_fingerprint ''t'' ''f'' (fold (arrive ''t'') [occur 11 ''firing'', occur 12 ''resolved'']
      \<lparr>edb_last = [dismissed_row], edb_audits = [], edb_incidents = []\<rparr>) = Some r \<and>
    effective_status r ''resolved'' = JStr ''resolved'' \<and> la_columns r ''dismissed_until'' = JNull"
proof -
  let ?db = "\<lparr>edb_last = [dismissed_row], edb_audits = [], edb_incidents = []\<rparr>"
  have "get_last_alert_by_fingerprint ''t'' ''f'' ?db = Some dismissed_row" "row_valid dismissed_row"
    by (simp_all add: get_last_alert_by_fingerprint_def row_key_def dismissed_row_def plain_row_def row_valid_def
      not_null_columns_def default_columns_def)
  then show ?thesis
    using status_lasts_until_resolved [of "''t''" "''f''" ?db dismissed_row "[occur 11 ''firing'', occur 12 ''resolved'']"]
    by (auto simp: occur_def dismissed_row_def plain_row_def)
qed

section \<open>Notes\<close>

text \<open>Writes that are not forced, and occurrences, in any order and for any alert.\<close>

datatype alert_step =
    Enrich string string enrichments action bool bool
  | Occur string occurrence "enrichments option"

fun run_step :: "alert_step \<Rightarrow> enrich_db \<Rightarrow> enrich_db" where
  "run_step (Enrich t f e act audit_enabled strict) db = fst (enrich_alert t f e act False audit_enabled strict db)"
| "run_step (Occur t a tracking) db = fst (set_last_alert t a tracking db)"

definition noted :: "string \<Rightarrow> string \<Rightarrow> enrich_db \<Rightarrow> bool" where
  "noted t f db = (case get_last_alert_by_fingerprint t f db of None \<Rightarrow> False
     | Some r \<Rightarrow> \<not> blank_note (la_columns r ''note''))"

lemma apply_columns_note:
  "\<not> blank_note (c ''note'') \<Longrightarrow> \<not> blank_note (apply_columns False e c ''note'')"
proof (induction e arbitrary: c)
  case (Cons kv e)
  obtain k v where kv: "kv = (k, v)" by (cases kv)
  have "\<not> blank_note ((if k = ''note'' \<and> \<not> False \<and> blank_note v then c else c(k := v)) ''note'')"
    using Cons.prems by simp
  from Cons.IH [of "if k = ''note'' \<and> \<not> False \<and> blank_note v then c else c(k := v)"] this show ?case
    by (simp add: kv)
qed simp

lemma write_tracking_other: "k \<notin> set tracking_columns \<Longrightarrow> write_tracking tr c k = c k"
proof -
  have "k \<notin> set tracking_columns \<Longrightarrow> fold (\<lambda>(k, v) c. if k \<in> set tracking_columns then c(k := v) else c) kvs c k = c k" for kvs
    by (induction kvs arbitrary: c) auto
  then show "k \<notin> set tracking_columns \<Longrightarrow> write_tracking tr c k = c k" by (simp add: write_tracking_def split: option.split)
qed

lemma noted_store:
  assumes "noted t f db" and "get_last_alert_by_fingerprint t' f' db = Some r" and "row_key t' f' r'"
    and "\<not> blank_note (la_columns r ''note'') \<Longrightarrow> \<not> blank_note (la_columns r' ''note'')"
  shows "noted t f (db\<lparr>edb_last := store_row r' (edb_last db)\<rparr>)"
proof (cases "t' = t \<and> f' = f")
  case True
  with assms show ?thesis by (simp add: noted_def get_last_alert_by_fingerprint_def find_store)
next
  case False
  with assms(3) have "\<not> row_key t f r'" by (auto simp: row_key_def)
  with assms(1) show ?thesis by (simp add: noted_def get_last_alert_by_fingerprint_def find_store_other)
qed

lemma noted_audits [simp]: "noted t f (db\<lparr>edb_audits := xs\<rparr>) = noted t f db"
  by (simp add: noted_def get_last_alert_by_fingerprint_def)

lemma noted_append: "noted t f db \<Longrightarrow> noted t f (db\<lparr>edb_last := edb_last db @ [r]\<rparr>)"
proof -
  have "find P xs = Some y \<Longrightarrow> find P (xs @ ys) = Some y" for P xs ys and y :: last_alert_row
    by (induction xs) auto
  then show "noted t f db \<Longrightarrow> noted t f (db\<lparr>edb_last := edb_last db @ [r]\<rparr>)"
    by (auto simp: noted_def get_last_alert_by_fingerprint_def split: option.splits)
qed

lemma step_keeps_notes: "noted t f db \<Longrightarrow> noted t f (run_step s db)"
proof (cases s)
  case (Enrich t' f' e act au st)
  assume n: "noted t f db"
  show ?thesis
  proof (cases "get_last_alert_by_fingerprint t' f' db")
    case None
    with n Enrich show ?thesis by (auto simp: enrich_alert_def split: sum.split)
  next
    case (Some r)
    have key: "row_key t' f' (apply_enrichments_to_last_alert False e' r)" for e'
      using found_key Some by (auto simp: get_last_alert_by_fingerprint_def row_key_def apply_enrichments_to_last_alert_def)
    have "noted t f (db\<lparr>edb_last := store_row (apply_enrichments_to_last_alert False e' r) (edb_last db)\<rparr>)" for e'
      using noted_store [OF n Some key] by (simp add: apply_enrichments_to_last_alert_def apply_columns_note)
    with n Enrich Some show ?thesis by (auto simp: enrich_alert_def Let_def split: sum.split)
  qed
next
  case (Occur t' a tr)
  assume n: "noted t f db"
  show ?thesis
  proof (cases "get_last_alert_by_fingerprint t' (oc_fingerprint a) db")
    case None
    with n Occur show ?thesis by (auto simp: set_last_alert_def Let_def noted_append)
  next
    case (Some r)
    define r1 where "r1 = r\<lparr>la_timestamp := oc_timestamp a, la_alert_id := oc_id a, la_hash := oc_hash a,
      la_columns := write_tracking tr (la_columns r)\<rparr>"
    define r2 where "r2 = snd (apply_dismiss_lifecycle r1 (oc_status a))"
    have kept: "la_columns r2 ''note'' = la_columns r ''note''"
      by (simp add: r2_def r1_def apply_dismiss_lifecycle_def Let_def write_tracking_other tracking_columns_def)
    have "row_key t' (oc_fingerprint a) r2"
      using found_key Some by (auto simp: get_last_alert_by_fingerprint_def row_key_def r2_def r1_def apply_dismiss_lifecycle_def Let_def)
    from noted_store [OF n Some this] kept have "noted t f (db\<lparr>edb_last := store_row r2 (edb_last db)\<rparr>)" by simp
    with n Occur Some show ?thesis by (simp add: set_last_alert_def Let_def r2_def r1_def)
  qed
qed

text \<open>
  A note is never erased by accident.  Once an alert has a note, no sequence of writes that are not
  forced and of new occurrences leaves it without one.
\<close>

theorem notes_are_not_erased:
  assumes "noted t f db"
  shows "noted t f (fold run_step steps db)"
  using assms by (induction steps arbitrary: db) (simp_all add: step_keeps_notes)

theorem notes_are_not_erased_witness:
  "noted ''t'' ''f'' (fold run_step [Enrich ''t'' ''f'' [(''note'', JStr '' '')] \<lparr>ac_type = ''a'', ac_callee = ''u'', ac_description = ''d''\<rparr> True True,
      Occur ''t'' (occur 11 ''resolved'') None] \<lparr>edb_last = [plain_row 10 (default_columns(''note'' := JStr ''seen''))], edb_audits = [], edb_incidents = []\<rparr>)"
proof -
  have "\<not> blank_note (JStr ''seen'')" by code_simp
  then have "noted ''t'' ''f'' \<lparr>edb_last = [plain_row 10 (default_columns(''note'' := JStr ''seen''))], edb_audits = [], edb_incidents = []\<rparr>"
    by (simp add: noted_def get_last_alert_by_fingerprint_def row_key_def plain_row_def)
  then show ?thesis by (rule notes_are_not_erased)
qed

section \<open>What deduplication finds\<close>

text \<open>The deduplicator's view of the table of latest alerts.\<close>

definition dedup_view :: "enrich_db \<Rightarrow> dedup_db \<Rightarrow> dedup_db" where
  "dedup_view db d = d\<lparr>db_last := map last_alert.truncate (edb_last db)\<rparr>"

definition last_keys_ok :: "enrich_db \<Rightarrow> bool" where
  "last_keys_ok db = distinct (map (\<lambda>r. (la_tenant r, la_fingerprint r)) (edb_last db))"

lemma find_holds: "find P xs = Some x \<Longrightarrow> x \<in> set xs \<and> P x"
  by (induction xs) (auto split: if_splits)

lemma view_ok: "last_keys_ok db \<Longrightarrow> last_alerts_ok (dedup_view db d)"
  by (simp add: last_keys_ok_def last_alerts_ok_def dedup_view_def comp_def last_alert.truncate_def)

lemma store_row_keys: "map (\<lambda>r. (la_tenant r, la_fingerprint r)) (store_row r' rows) = map (\<lambda>r. (la_tenant r, la_fingerprint r)) rows"
  by (simp add: store_row_def row_key_def)

lemma set_last_alert_keys:
  assumes "last_keys_ok db"
  shows "last_keys_ok (fst (set_last_alert t a tr db))"
proof (cases "get_last_alert_by_fingerprint t (oc_fingerprint a) db")
  case None
  then have "(t, oc_fingerprint a) \<notin> set (map (\<lambda>r. (la_tenant r, la_fingerprint r)) (edb_last db))"
    by (auto simp: get_last_alert_by_fingerprint_def row_key_def find_None_iff)
  with None assms show ?thesis by (auto simp: set_last_alert_def last_keys_ok_def Let_def)
next
  case (Some r)
  with assms show ?thesis by (simp add: set_last_alert_def last_keys_ok_def Let_def store_row_keys)
qed

lemma stored_hash:
  assumes "case get_last_alert_by_fingerprint t (oc_fingerprint a) db of None \<Rightarrow> True | Some r \<Rightarrow> row_valid r \<and> la_timestamp r < oc_timestamp a"
    and "oc_hash a = Some h" and "h \<noteq> []"
  shows "has_hash (dedup_view (arrive t a db) d) t (oc_fingerprint a) h"
proof -
  have "\<exists>r. get_last_alert_by_fingerprint t (oc_fingerprint a) (arrive t a db) = Some r \<and> la_hash r = Some h"
  proof (cases "get_last_alert_by_fingerprint t (oc_fingerprint a) db")
    case None
    have "row_valid \<lparr>la_tenant = t, la_fingerprint = oc_fingerprint a, la_hash = oc_hash a, la_alert_id = oc_id a,
        la_timestamp = oc_timestamp a, la_first_timestamp = oc_timestamp a, la_columns = default_columns\<rparr>"
      by (simp add: row_valid_def not_null_columns_def default_columns_def)
    moreover have "find P xs = None \<Longrightarrow> P y \<Longrightarrow> find P (xs @ [y]) = Some y" for P xs and y :: last_alert_row
      by (induction xs) auto
    ultimately show ?thesis using None assms(2)
      by (simp add: set_last_alert_def write_tracking_def get_last_alert_by_fingerprint_def row_key_def)
  next
    case (Some r)
    with assms(1) get_after_receive [OF Some] show ?thesis by (simp add: assms(2))
  qed
  then obtain r where "r \<in> set (edb_last (arrive t a db))" "row_key t (oc_fingerprint a) r" "la_hash r = Some h"
    using find_holds [of "row_key t (oc_fingerprint a)" "edb_last (arrive t a db)"]
    unfolding get_last_alert_by_fingerprint_def by blast
  then show ?thesis using assms(3)
    by (auto simp: has_hash_def dedup_view_def list_ex_iff row_key_def last_alert.truncate_def)
qed

text \<open>
  What is stored is recognised.  When the occurrence that an alert became is stored with the hash the
  deduplicator gave it, the next alert of that fingerprint whose fields agree, the ignored ones apart,
  is a full duplicate.
\<close>

theorem stored_alerts_are_recognised:
  assumes "json_ok (JObj x)" and "json_ok (JObj y)" and "\<forall>f \<in> set (rule_ignore_fields r). CHR ''.'' \<notin> set f"
    and "last_keys_ok db" and "apply_deduplication_rule env d t x r None = Inr x'"
    and "dict_get x' ''alert_hash'' = Some (JStr h)" and "oc_hash a = Some h" and "h \<noteq> []"
    and "case get_last_alert_by_fingerprint t (oc_fingerprint a) db of None \<Rightarrow> True | Some r \<Rightarrow> row_valid r \<and> la_timestamp r < oc_timestamp a"
    and "alert_str y ''fingerprint'' = Some (oc_fingerprint a)"
    and "\<forall>k. k \<notin> set (rule_ignore_fields r) \<longrightarrow> map_option json_canon (dict_get x k) = map_option json_canon (dict_get y k)"
  shows "\<exists>y'. apply_deduplication_rule env (dedup_view (arrive t a db) d) t y r None = Inr y' \<and> alert_flag y' ''is_full_duplicate''"
proof -
  obtain p where p: "alert_payload (rule_ignore_fields r) x = Inr p"
    using assms(3) by (simp add: alert_payload_def remove_plain_fields)
  then have q: "alert_payload (rule_ignore_fields r) y = Inr p"
    using same_payload_iff [OF assms(1-3)] assms(11) by simp
  have h: "h = sha256 env p"
    using assms(5,6) p by (auto simp: apply_deduplication_rule_def Let_def dict_get_set split: option.splits if_splits)
  have "last_alerts_ok (dedup_view (arrive t a db) d)" by (intro view_ok set_last_alert_keys assms(4))
  from apply_rule_cases [OF this assms(10) q] stored_hash [OF assms(9,7,8), of d] h
  show ?thesis by (auto simp: Let_def flag_set)
qed

definition stored_sample :: occurrence where
  "stored_sample = \<lparr>oc_id = 7, oc_fingerprint = ''f'', oc_timestamp = 5, oc_hash = Some sample_hash, oc_status = ''firing''\<rparr>"

theorem stored_alerts_are_recognised_witness:
  "\<exists>y. apply_deduplication_rule sample_env (dedup_view (arrive ''t'' stored_sample \<lparr>edb_last = [], edb_audits = [], edb_incidents = []\<rparr>)
      (sample_db\<lparr>db_last := []\<rparr>)) ''t'' (sample_alert ''2'') sample_rule None = Inr y \<and> alert_flag y ''is_full_duplicate''"
proof -
  have ok: "last_alerts_ok (sample_db\<lparr>db_last := []\<rparr>)" by (simp add: last_alerts_ok_def)
  obtain a where a: "apply_deduplication_rule sample_env (sample_db\<lparr>db_last := []\<rparr>) ''t'' (sample_alert ''1'') sample_rule None = Inr a"
    "dict_get a ''alert_hash'' = Some (JStr sample_hash)"
    using apply_rule_cases [OF ok, where f = "''f''" and a = "sample_alert ''1''" and r = sample_rule and p = sample_hash and env = sample_env and t = "''t''"]
      sample_payload [of "''1''"] sample_facts by (auto simp: Let_def dict_get_set)
  have json: "json_ok (JObj (sample_alert ''1''))" "json_ok (JObj (sample_alert ''2''))" by code_simp+
  have "\<forall>k. k \<notin> set (rule_ignore_fields sample_rule) \<longrightarrow>
      map_option json_canon (dict_get (sample_alert ''1'') k) = map_option json_canon (dict_get (sample_alert ''2'') k)"
    by (auto simp: sample_alert_def dict_get_def)
  moreover have "sample_hash \<noteq> []" by (simp add: sample_hash_def json_sort_obj)
  ultimately show ?thesis
    using stored_alerts_are_recognised [OF json, of sample_rule "\<lparr>edb_last = [], edb_audits = [], edb_incidents = []\<rparr>" sample_env
        "sample_db\<lparr>db_last := []\<rparr>" "''t''" a sample_hash stored_sample] a sample_facts(2)
    by (simp add: last_keys_ok_def stored_sample_def get_last_alert_by_fingerprint_def)
qed

section \<open>Enrichment of incidents\<close>

lemma dict_get_Cons: "dict_get ((k', v) # e) k = (if k = k' then Some v else dict_get e k)"
  by (simp add: dict_get_def)

lemma dict_get_merge: "dict_ok e \<Longrightarrow> dict_get (dict_merge d e) k = (case dict_get e k of None \<Rightarrow> dict_get d k | Some v \<Rightarrow> Some v)"
proof (induction e arbitrary: d)
  case (Cons kv e)
  obtain k' v where kv: "kv = (k', v)" by (cases kv)
  with Cons.prems have "dict_ok e" "dict_get e k' = None"
    by (auto simp: dict_ok_def dict_get_def map_of_eq_None_iff)
  with Cons.IH [of "dict_set k' v d"] kv show ?case
    by (cases "k = k'") (simp_all add: dict_merge_def dict_get_set dict_get_Cons split: option.split)
qed (simp add: dict_merge_def dict_get_def)

lemma drop_nulls_get:
  "dict_get (fold (\<lambda>(k, v) d. if v = JNull then dict_del k d else d) e d) k =
    (if (k, JNull) \<in> set e then None else dict_get d k)"
proof (induction e arbitrary: d)
  case (Cons kv e)
  obtain k' v where kv: "kv = (k', v)" by (cases kv)
  with Cons.IH show ?case by (cases "v = JNull"; cases "k = k'") (auto simp: dict_get_del)
qed simp

lemma null_entry: "dict_ok e \<Longrightarrow> (k, JNull) \<in> set e \<longleftrightarrow> dict_get e k = Some JNull"
  by (auto simp: dict_ok_def dict_get_def dest: map_of_SomeD)

text \<open>
  A write to an incident merges.  A key given a value takes it, a key given \<open>None\<close> is removed, and every
  other key stays; a note is only replaced by a note that says something, an empty one leaves the
  old one.
\<close>

theorem incident_writes_merge:
  assumes "dict_ok e"
  shows "dict_get (merge_incident False old e) k =
    (case dict_get e k of None \<Rightarrow> dict_get old k
     | Some v \<Rightarrow> if v = JNull then None
         else if k = ''note'' \<and> no_note e \<and> truthy (get_or_null old ''note'') then dict_get old k else Some v)"
proof -
  have old_note: "truthy (get_or_null old ''note'') \<Longrightarrow> dict_get old ''note'' = Some (get_or_null old ''note'')"
    by (auto simp: get_or_null_def split: option.splits)
  have "dict_get e ''note'' = None \<Longrightarrow> no_note e" by (simp add: no_note_def get_or_null_def)
  with old_note show ?thesis
    by (auto simp: merge_incident_def Let_def drop_nulls_get null_entry [OF assms] dict_get_merge [OF assms] dict_get_set
      split: option.splits)
qed

theorem incident_writes_merge_witness:
  "dict_get (merge_incident False [(''note'', JStr ''seen''), (''a'', JInt 1)] [(''note'', JStr '' ''), (''a'', JNull)]) ''note'' = Some (JStr ''seen'')"
proof -
  have "dict_ok [(''note'', JStr '' ''), (''a'', JNull)]" "no_note [(''note'', JStr '' ''), (''a'', JNull)]" by code_simp+
  then show ?thesis
    using incident_writes_merge [of "[(''note'', JStr '' ''), (''a'', JNull)]" "[(''note'', JStr ''seen''), (''a'', JInt 1)]" "''note''"]
    by (simp add: get_or_null_def dict_get_def)
qed

end
