(* ===== verification/Product_Metrics.thy ===== *)
theory Product_Metrics
  imports Complex_Main Alert_Enrichment Access_Control
begin

text \<open>
  The product counters: \<open>src/src/services/product_metrics.py\<close>, the beacon of
  \<open>src/src/routes/ui_events.py\<close> and the source header of \<open>src/src/middlewares.py\<close>.  A counter is
  the list of its increments, each with its labels; a series is a combination of labels that occurs.
  Counting never fails here: the handlers around it catch what the client library raises.
\<close>

section \<open>Names of actions\<close>

text \<open>\<open>INCIDENT_UNENRICH\<close> has the value of \<open>INCIDENT_ENRICH\<close>, which makes it a second name of that member.\<close>

datatype action_type = TIGGERED | ACKNOWLEDGE | AUTOMATIC_RESOLVE | API_AUTOMATIC_RESOLVE | MANUAL_RESOLVE
  | MANUAL_STATUS_CHANGE | API_STATUS_CHANGE | STATUS_UNENRICH | WORKFLOW_ENRICH | MAPPING_RULE_ENRICH
  | EXTRACTION_RULE_ENRICH | DEDUPLICATED | TICKET_ASSIGNED | TICKET_UNASSIGNED | TICKET_UPDATED
  | DISPOSE_ENRICHED_ALERT | DELETE_ALERT | GENERIC_ENRICH | GENERIC_UNENRICH | COMMENT | UNCOMMENT
  | MAINTENANCE | MAINTENANCE_EXPIRED | DISMISSAL_EXPIRED | INCIDENT_COMMENT | INCIDENT_ENRICH
  | INCIDENT_STATUS_CHANGE | INCIDENT_ASSIGN

abbreviation INCIDENT_UNENRICH :: action_type where "INCIDENT_UNENRICH \<equiv> INCIDENT_ENRICH"

fun action_value :: "action_type \<Rightarrow> string" where
  "action_value TIGGERED = ''alert was triggered''"
| "action_value ACKNOWLEDGE = ''alert acknowledged''"
| "action_value AUTOMATIC_RESOLVE = ''alert automatically resolved''"
| "action_value API_AUTOMATIC_RESOLVE = ''alert automatically resolved by API''"
| "action_value MANUAL_RESOLVE = ''alert manually resolved''"
| "action_value MANUAL_STATUS_CHANGE = ''alert status manually changed''"
| "action_value API_STATUS_CHANGE = ''alert status changed by API''"
| "action_value STATUS_UNENRICH = ''alert status undone''"
| "action_value WORKFLOW_ENRICH = ''alert enriched by workflow''"
| "action_value MAPPING_RULE_ENRICH = ''alert enriched by mapping rule''"
| "action_value EXTRACTION_RULE_ENRICH = ''alert enriched by extraction rule''"
| "action_value DEDUPLICATED = ''alert was deduplicated''"
| "action_value TICKET_ASSIGNED = ''alert was assigned with ticket''"
| "action_value TICKET_UNASSIGNED = ''alert was unassigned from ticket''"
| "action_value TICKET_UPDATED = ''alert ticket was updated''"
| "action_value DISPOSE_ENRICHED_ALERT = ''alert enrichments disposed''"
| "action_value DELETE_ALERT = ''alert deleted''"
| "action_value GENERIC_ENRICH = ''alert enriched''"
| "action_value GENERIC_UNENRICH = ''alert un-enriched''"
| "action_value COMMENT = ''a comment was added to the alert''"
| "action_value UNCOMMENT = ''a comment was removed from the alert''"
| "action_value MAINTENANCE = ''Alert is in maintenance window''"
| "action_value MAINTENANCE_EXPIRED = ''Alert has been removed from maintenance window''"
| "action_value DISMISSAL_EXPIRED = ''Alert dismissal expired''"
| "action_value INCIDENT_COMMENT = ''A comment was added to the incident''"
| "action_value INCIDENT_ENRICH = ''Incident enriched''"
| "action_value INCIDENT_STATUS_CHANGE = ''Incident status changed''"
| "action_value INCIDENT_ASSIGN = ''Incident assigned''"

section \<open>Allow-lists and counters\<close>

definition FEATURES :: "string list" where
  "FEATURES = [''alerts'', ''incidents'', ''presets'', ''dashboards'', ''providers'', ''workflows'']"

definition ACTIONS :: "string list" where
  "ACTIONS = [''change_status'', ''assign'', ''dismiss'', ''undismiss'', ''add_note'', ''delete_note'', ''comment'',
     ''mention'', ''create'', ''update'', ''delete'', ''enable'', ''disable'']"

definition TO_STATUSES :: "string list" where
  "TO_STATUSES = [''firing'', ''acknowledged'', ''resolved'', ''suppressed'']"

definition SOURCES :: "string list" where
  "SOURCES = [''ui'', ''api'']"

definition RESULTS :: "string list" where
  "RESULTS = [''success'', ''error'']"

definition ROUTES :: "string list" where
  "ROUTES = [''incidents'', ''incidents_detail'', ''alerts_feed'', ''alerts_preset'', ''alerts_detail'', ''dashboard'',
     ''dashboard_detail'']"

datatype sample =
    User_action (sample_tenant: string) string string string string
  | Page_load (sample_tenant: string) string
  | Status_change (sample_tenant: string) string

type_synonym counters = "sample list"

text \<open>The source of the request at hand, from its header; \<open>api\<close> before any was set.\<close>

definition set_request_source :: "string option \<Rightarrow> string" where
  "set_request_source v = (case v of Some s \<Rightarrow> if s \<in> set SOURCES then s else ''api'' | None \<Rightarrow> ''api'')"

section \<open>Recording\<close>

definition is_valid_action :: "string \<Rightarrow> string \<Rightarrow> bool" where
  "is_valid_action feature action = (feature \<in> set FEATURES \<and> action \<in> set ACTIONS)"

definition record_user_action ::
  "string \<Rightarrow> string \<Rightarrow> string \<Rightarrow> string \<Rightarrow> string \<Rightarrow> string option \<Rightarrow> counters \<Rightarrow> bool \<times> counters" where
  "record_user_action current t feature action result source m =
     (if \<not> is_valid_action feature action then (False, m)
      else let src = (case source of Some s \<Rightarrow> if s \<in> set SOURCES then s else current | None \<Rightarrow> current);
               res = (if result \<in> set RESULTS then result else ''success'')
           in (True, m @ [User_action t feature action src res]))"

definition record_page_load :: "string \<Rightarrow> string \<Rightarrow> counters \<Rightarrow> bool \<times> counters" where
  "record_page_load t route m = (if route \<notin> set ROUTES then (False, m) else (True, m @ [Page_load t route]))"

definition record_alert_status_change :: "string \<Rightarrow> string \<Rightarrow> counters \<Rightarrow> bool \<times> counters" where
  "record_alert_status_change t s m = (if s \<notin> set TO_STATUSES then (False, m) else (True, m @ [Status_change t s]))"

fun ACTION_TYPE_TO_ACTION :: "action_type \<Rightarrow> string option" where
  "ACTION_TYPE_TO_ACTION DELETE_ALERT = Some ''delete''"
| "ACTION_TYPE_TO_ACTION ACKNOWLEDGE = Some ''assign''"
| "ACTION_TYPE_TO_ACTION COMMENT = Some ''add_note''"
| "ACTION_TYPE_TO_ACTION UNCOMMENT = Some ''delete_note''"
| "ACTION_TYPE_TO_ACTION MANUAL_STATUS_CHANGE = Some ''change_status''"
| "ACTION_TYPE_TO_ACTION MANUAL_RESOLVE = Some ''change_status''"
| "ACTION_TYPE_TO_ACTION API_STATUS_CHANGE = Some ''change_status''"
| "ACTION_TYPE_TO_ACTION API_AUTOMATIC_RESOLVE = Some ''change_status''"
| "ACTION_TYPE_TO_ACTION STATUS_UNENRICH = Some ''undismiss''"
| "ACTION_TYPE_TO_ACTION _ = None"

definition alert_action_for :: "action_type \<Rightarrow> enrichments \<Rightarrow> string option" where
  "alert_action_for ty e =
     (if truthy (get_or_null e ''dismiss_mode'') then Some ''dismiss'' else ACTION_TYPE_TO_ACTION ty)"

text \<open>A status that is no string is in no allow-list: a number is not equal to a name, a list is not hashable.\<close>

definition record_alert_enrichment ::
  "string \<Rightarrow> string \<Rightarrow> action_type \<Rightarrow> enrichments \<Rightarrow> string \<Rightarrow> counters \<Rightarrow> counters" where
  "record_alert_enrichment current t ty e result m =
     (let action = alert_action_for ty e;
          m = (case action of None \<Rightarrow> m | Some a \<Rightarrow> snd (record_user_action current t ''alerts'' a result None m))
      in if result \<noteq> ''success'' then m
         else let status = get_or_null e ''status'';
                  status = (if \<not> truthy status \<and> action = Some ''dismiss'' then JStr ''suppressed'' else status)
              in (case status of JStr s \<Rightarrow> snd (record_alert_status_change t s m) | _ \<Rightarrow> m))"

section \<open>The beacon\<close>

text \<open>\<open>Inl\<close> is the status code of a refusal.  The caller's tenant comes from the verified identity.\<close>

record ui_event =
  ui_feature :: string
  ui_action :: string
  ui_result :: string

definition record_ui_event :: "string \<Rightarrow> ui_event \<Rightarrow> entity \<Rightarrow> counters \<Rightarrow> counters \<times> (nat + unit)" where
  "record_ui_event current ev who m =
     (let (recorded, m) = record_user_action current (tenant_id who) (ui_feature ev) (ui_action ev) (ui_result ev) (Some ''ui'') m
      in (m, if recorded then Inr () else Inl 400))"

definition record_page_view :: "string \<Rightarrow> entity \<Rightarrow> counters \<Rightarrow> counters \<times> (nat + unit)" where
  "record_page_view route who m =
     (let (recorded, m) = record_page_load (tenant_id who) route m in (m, if recorded then Inr () else Inl 400))"

section \<open>The counters stay small\<close>

text \<open>Whatever reaches the counters: a request with its source header that enriches an alert or posts an event.\<close>

datatype metric_call =
    Ui_event "string option" ui_event entity
  | Page_view string entity
  | Enriched "string option" string action_type enrichments string
  | Counted "string option" string string string

fun run_metric :: "metric_call \<Rightarrow> counters \<Rightarrow> counters" where
  "run_metric (Ui_event hdr ev who) m = fst (record_ui_event (set_request_source hdr) ev who m)"
| "run_metric (Page_view route who) m = fst (record_page_view route who m)"
| "run_metric (Enriched hdr t ty e result) m = record_alert_enrichment (set_request_source hdr) t ty e result m"
| "run_metric (Counted hdr t feature action) m =
     snd (record_user_action (set_request_source hdr) t feature action ''success'' None m)"

definition all_series :: "string \<Rightarrow> sample list" where
  "all_series t =
     map (\<lambda>(f, a, s, r). User_action t f a s r) (List.product FEATURES (List.product ACTIONS (List.product SOURCES RESULTS)))
     @ map (Page_load t) ROUTES @ map (Status_change t) TO_STATUSES"

definition bounded :: "counters \<Rightarrow> bool" where
  "bounded m = (\<forall>x \<in> set m. x \<in> set (all_series (sample_tenant x)))"

lemma source_allowed: "set_request_source h \<in> set SOURCES"
  by (simp add: set_request_source_def SOURCES_def split: option.split)

lemma bounded_user_action:
  "bounded m \<Longrightarrow> current \<in> set SOURCES \<Longrightarrow> bounded (snd (record_user_action current t f a r s m))"
  by (auto simp: bounded_def record_user_action_def is_valid_action_def all_series_def Let_def RESULTS_def image_iff
      split: option.split)

lemma bounded_status: "bounded m \<Longrightarrow> bounded (snd (record_alert_status_change t s m))"
  by (auto simp: bounded_def record_alert_status_change_def all_series_def)

lemma bounded_page: "bounded m \<Longrightarrow> bounded (snd (record_page_load t r m))"
  by (auto simp: bounded_def record_page_load_def all_series_def)

lemma bounded_enriched:
  "bounded m \<Longrightarrow> current \<in> set SOURCES \<Longrightarrow> bounded (record_alert_enrichment current t ty e result m)"
  by (auto simp: record_alert_enrichment_def Let_def bounded_user_action bounded_status split: option.split json.split)

lemma bounded_step: "bounded m \<Longrightarrow> bounded (run_metric c m)"
  by (cases c) (simp_all add: record_ui_event_def record_page_view_def case_prod_unfold Let_def
      bounded_user_action bounded_enriched bounded_page source_allowed)

lemma bounded_run: "bounded m \<Longrightarrow> bounded (fold run_metric cs m)"
  by (induction cs arbitrary: m) (simp_all add: bounded_step)

lemma list_lengths: "length FEATURES = 6" "length ACTIONS = 13" "length SOURCES = 2" "length RESULTS = 2"
  "length ROUTES = 7" "length TO_STATUSES = 4"
  by (simp_all add: FEATURES_def ACTIONS_def SOURCES_def RESULTS_def ROUTES_def TO_STATUSES_def)

lemma few_series: "card (set (all_series t)) \<le> 323"
proof -
  have "length (all_series t) = 323" unfolding all_series_def by (simp add: length_product list_lengths)
  then show ?thesis using card_length [of "all_series t"] by simp
qed

text \<open>
  The cardinality firewall.  Whatever clients send, the product counters of a tenant have at most 323
  series: the combinations of the allow-listed labels.
\<close>

theorem series_per_tenant_are_bounded:
  "card (set (filter (\<lambda>x. sample_tenant x = t) (fold run_metric calls []))) \<le> 323"
proof -
  have "bounded (fold run_metric calls [])" by (rule bounded_run) (simp add: bounded_def)
  then have "set (filter (\<lambda>x. sample_tenant x = t) (fold run_metric calls [])) \<subseteq> set (all_series t)"
    by (auto simp: bounded_def)
  then show ?thesis using card_mono [of "set (all_series t)"] few_series [of t] by (meson List.finite_set le_trans)
qed

text \<open>
  What an enrichment of an alert counts.  One that fails counts at most its action, as an error, and no
  change of status; one that succeeds counts its action once and the status it sets, when that is
  one of the four, once; a dismissal is counted as such and as a suppression whatever its action
  type.
\<close>

theorem enrichment_is_counted:
  assumes "current \<in> set SOURCES"
  shows "record_alert_enrichment current t ty e (if ok then ''success'' else ''error'') m =
    m @ (case alert_action_for ty e of None \<Rightarrow> []
           | Some a \<Rightarrow> [User_action t ''alerts'' a current (if ok then ''success'' else ''error'')])
      @ (if \<not> ok then []
         else if \<not> truthy (get_or_null e ''status'') \<and> truthy (get_or_null e ''dismiss_mode'') then [Status_change t ''suppressed'']
         else case get_or_null e ''status'' of JStr s \<Rightarrow> (if s \<in> set TO_STATUSES then [Status_change t s] else []) | _ \<Rightarrow> [])"
proof -
  have known: "alert_action_for ty e = Some a \<Longrightarrow> is_valid_action ''alerts'' a" for a
    by (cases ty) (auto simp: alert_action_for_def is_valid_action_def FEATURES_def ACTIONS_def split: if_splits)
  have dismiss: "alert_action_for ty e = Some ''dismiss'' \<longleftrightarrow> truthy (get_or_null e ''dismiss_mode'')"
    by (cases ty) (auto simp: alert_action_for_def)
  have action: "(case alert_action_for ty e of None \<Rightarrow> m
        | Some a \<Rightarrow> snd (record_user_action current t ''alerts'' a res None m)) =
      m @ (case alert_action_for ty e of None \<Rightarrow> [] | Some a \<Rightarrow> [User_action t ''alerts'' a current res])"
    if "res \<in> set RESULTS" for res
    using known that by (auto simp: record_user_action_def split: option.split)
  show ?thesis
    unfolding record_alert_enrichment_def Let_def dismiss
    by (cases ok; cases "get_or_null e ''status''")
      (simp_all add: action RESULTS_def record_alert_status_change_def TO_STATUSES_def split: option.split)
qed

theorem enrichment_is_counted_witness:
  "record_alert_enrichment ''ui'' ''t'' MANUAL_STATUS_CHANGE [(''dismiss_mode'', JStr ''permanent'')] ''success'' [] =
     [User_action ''t'' ''alerts'' ''dismiss'' ''ui'' ''success'', Status_change ''t'' ''suppressed'']"
proof -
  have "''ui'' \<in> set SOURCES" by (simp add: SOURCES_def)
  from enrichment_is_counted [OF this, where t = "''t''" and ty = MANUAL_STATUS_CHANGE
      and e = "[(''dismiss_mode'', JStr ''permanent'')]" and ok = True and m = "[]"]
  show ?thesis by (simp add: alert_action_for_def get_or_null_def dict_get_def)
qed

end
