(* ===== verification/Enrichments_Bl.thy ===== *)
theory Enrichments_Bl
  imports Product_Metrics
begin

text \<open>
  The service and the routes that write to alerts: \<open>EnrichmentsBl\<close> of
  \<open>src/src/services/enrichments_bl.py\<close> and the handlers of \<open>src/src/routes/alerts.py\<close> that call it.
  Beside the tables the state holds what leaves the process: the events given to the producer, the
  calls of the search index, the counters, and the alerts whose incidents are checked for
  resolution.  Python's \<open>str\<close> of a value is a parameter of the texts.  What the handlers do after the
  write, reading the alert back and telling the clients, does not change this state; whether the
  alert is found then is an argument.
\<close>

section \<open>State\<close>

record sent_event =
  se_event :: enrichments
  se_type :: string
  se_tenant :: string
  se_fingerprints :: "string list"

record outside =
  out_db :: enrich_db
  out_events :: "sent_event list"
  out_elastic :: "(string \<times> enrichments) list"
  out_counters :: counters
  out_checks :: "string list"

datatype service_error = Db enrich_error | Http nat | TypeErr | NoProducer

section \<open>The service\<close>

text \<open>The arguments of \<open>enrich_entity\<close>, with their defaults.\<close>

record enrich_args =
  en_fingerprint :: string
  en_enrichments :: enrichments
  en_action :: action_type
  en_callee :: string
  en_description :: string
  en_should_exist :: bool
  en_dispose :: bool
  en_force :: bool
  en_audit :: bool
  en_produce :: bool
  en_strict :: bool
  en_entity :: string
  en_event_type :: string

definition enrich_call :: "string \<Rightarrow> enrichments \<Rightarrow> action_type \<Rightarrow> string \<Rightarrow> string \<Rightarrow> enrich_args" where
  "enrich_call f e ty who text = \<lparr>en_fingerprint = f, en_enrichments = e, en_action = ty, en_callee = who,
     en_description = text, en_should_exist = True, en_dispose = False, en_force = False, en_audit = True,
     en_produce = True, en_strict = True, en_entity = ''alert'', en_event_type = ''enrich''\<rparr>"

definition apply_dispose_on_new_alert :: "enrichments \<Rightarrow> bool \<Rightarrow> enrichments" where
  "apply_dispose_on_new_alert e dispose =
     (if has_key e ''status'' \<or> has_key e ''dismiss_mode'' then dict_set ''status_disposable'' (JBool dispose) e else e)"

definition action_keys :: "string list" where
  "action_keys = [''action_type'', ''action_callee'', ''action_description'', ''audit_enabled'', ''force'']"

definition safe_event :: "enrich_args \<Rightarrow> enrichments \<Rightarrow> enrichments" where
  "safe_event a e = dict_set ''force'' (JBool (en_force a)) (dict_set ''audit_enabled'' (JBool False)
     (dict_set ''action_description'' (JStr (en_description a)) (dict_set ''action_callee'' (JStr (en_callee a))
     (dict_set ''action_type'' (JStr (action_value (en_action a))) e))))"

text \<open>A forced write to an incident that exists removes the empty keys from the very dict it was given.\<close>

definition after_write :: "string \<Rightarrow> enrich_args \<Rightarrow> enrichments \<Rightarrow> enrich_db \<Rightarrow> enrichments" where
  "after_write t a e db =
     (if en_entity a = ''incident'' \<and> en_force a \<and>
         (case uuid_int (en_fingerprint a) of None \<Rightarrow> False | Some i \<Rightarrow> incident_row t i db \<noteq> None)
      then merge_incident True [] e else e)"

definition enrich_entity_db :: "string \<Rightarrow> enrich_args \<Rightarrow> enrichments \<Rightarrow> enrich_db \<Rightarrow> enrich_db \<times> (enrich_error + unit)" where
  "enrich_entity_db t a e db =
     (let act = \<lparr>ac_type = action_value (en_action a), ac_callee = en_callee a, ac_description = en_description a\<rparr> in
      if en_entity a = ''incident''
      then apsnd (map_sum id (\<lambda>_. ())) (enrich_incident t (en_fingerprint a) e act (en_force a) (en_audit a) db)
      else apsnd (map_sum id (\<lambda>_. ())) (enrich_alert t (en_fingerprint a) e act (en_force a) (en_audit a) (en_strict a) db))"

definition enrich_entity_impl :: "bool \<Rightarrow> string \<Rightarrow> enrich_args \<Rightarrow> outside \<Rightarrow> outside \<times> (service_error + unit)" where
  "enrich_entity_impl has_producer t a out =
     (let e0 = en_enrichments a;
          normalized = (if en_entity a \<noteq> ''incident''
            then normalize_enrichments (en_strict a) (apply_dispose_on_new_alert e0 (en_dispose a)) else Inr e0)
      in case normalized of
          Inl err \<Rightarrow> (out, Inl (Db err))
        | Inr e \<Rightarrow>
            (case enrich_entity_db t a e (out_db out) of
               (db, Inl err) \<Rightarrow> (out\<lparr>out_db := db\<rparr>, Inl (Db err))
             | (db, Inr _) \<Rightarrow>
                 let e' = after_write t a e (out_db out); out = out\<lparr>out_db := db\<rparr> in
                 if en_produce a \<and> \<not> has_producer then (out, Inl NoProducer)
                 else
                   let out = (if en_produce a then out\<lparr>out_events := out_events out @
                           [\<lparr>se_event = safe_event a e', se_type = en_event_type a, se_tenant = t, se_fingerprints = [en_fingerprint a]\<rparr>]\<rparr>
                         else out);
                       out = (if en_should_exist a then out\<lparr>out_elastic := out_elastic out @ [(en_fingerprint a, e')]\<rparr> else out)
                   in (out, Inr ())))"

text \<open>\<open>enrich_entity(**kwargs)\<close>: it takes no positional arguments.\<close>

definition enrich_entity :: "bool \<Rightarrow> string \<Rightarrow> string \<Rightarrow> nat \<Rightarrow> enrich_args \<Rightarrow> outside \<Rightarrow> outside \<times> (service_error + unit)" where
  "enrich_entity has_producer src t positional a out =
     (if positional \<noteq> 0 then (out, Inl TypeErr)
      else let (out, res) = enrich_entity_impl has_producer t a out in
        (if en_entity a = ''incident'' then out
         else out\<lparr>out_counters := record_alert_enrichment src t (en_action a) (en_enrichments a)
                (case res of Inl _ \<Rightarrow> ''error'' | Inr _ \<Rightarrow> ''success'') (out_counters out)\<rparr>,
         res))"

definition disposable_enrich_entity :: "bool \<Rightarrow> string \<Rightarrow> string \<Rightarrow> enrich_args \<Rightarrow> outside \<Rightarrow> outside \<times> (service_error + unit)" where
  "disposable_enrich_entity has_producer src t a out =
     enrich_entity has_producer src t 0 (a\<lparr>en_dispose := True, en_produce := True\<rparr>) out"

fun enrich_each :: "bool \<Rightarrow> string \<Rightarrow> string \<Rightarrow> enrich_args \<Rightarrow> string list \<Rightarrow> outside \<Rightarrow> outside \<times> (service_error + unit)" where
  "enrich_each has_producer src t a [] out = (out, Inr ())"
| "enrich_each has_producer src t a (f # fs) out =
     (case enrich_entity has_producer src t 0 (a\<lparr>en_fingerprint := f, en_produce := False\<rparr>) out of
        (out, Inl err) \<Rightarrow> (out, Inl err)
      | (out, Inr _) \<Rightarrow> enrich_each has_producer src t a fs out)"

definition batch_enrich :: "bool \<Rightarrow> string \<Rightarrow> string \<Rightarrow> string list \<Rightarrow> enrich_args \<Rightarrow> outside \<Rightarrow> outside \<times> (service_error + unit)" where
  "batch_enrich has_producer src t fs a out =
     (case enrich_each has_producer src t a fs out of
        (out, Inl err) \<Rightarrow> (out, Inl err)
      | (out, Inr _) \<Rightarrow>
          if \<not> en_produce a then (out, Inr ())
          else let e = apply_dispose_on_new_alert (en_enrichments a) (en_dispose a) in
            (case (if en_entity a \<noteq> ''incident'' then normalize_enrichments (en_strict a) e else Inr e) of
               Inl err \<Rightarrow> (out, Inl (Db err))
             | Inr e \<Rightarrow>
                 if \<not> has_producer then (out, Inl NoProducer)
                 else (out\<lparr>out_events := out_events out @ [\<lparr>se_event = dict_set ''audit_enabled'' (JBool False)
                     (dict_set ''action_description'' (JStr (en_description a)) (dict_set ''action_callee'' (JStr (en_callee a))
                     (dict_set ''action_type'' (JStr (action_value (en_action a))) e))),
                   se_type = ''batch_enrich'', se_tenant = t, se_fingerprints = fs\<rparr>]\<rparr>, Inr ())))"

definition get_enrichment_metadata :: "(json \<Rightarrow> string) \<Rightarrow> enrichments \<Rightarrow> entity \<Rightarrow> action_type \<times> string \<times> bool" where
  "get_enrichment_metadata str e who =
     (let st = get_or_null e ''status''; resolved = (st = JStr ''resolved'');
          by_api = (api_key_name who \<noteq> None \<and> api_key_name who \<noteq> Some []);
          (ty, text, check) =
            (if has_key e ''status'' \<and> api_key_name who = None
             then (if resolved then MANUAL_RESOLVE else MANUAL_STATUS_CHANGE,
                   ''Alert status was changed to '' @ str st @ '' by '' @ email who, resolved)
             else if has_key e ''status'' \<and> by_api
             then (if resolved then API_AUTOMATIC_RESOLVE else API_STATUS_CHANGE,
                   ''Alert status was changed to '' @ str st @ '' by API `'' @ (case api_key_name who of None \<Rightarrow> [] | Some n \<Rightarrow> n) @ ''`'', resolved)
             else if has_key e ''ticket_url''
             then (TICKET_ASSIGNED, ''Ticket assigned by '' @ email who @ '' - '' @ str (get_or_null e ''ticket_url''), False)
             else if truthy (get_or_null e ''note'')
             then (COMMENT, ''Comment added by '' @ email who @ '' - '' @ str (get_or_null e ''note''), False)
             else (GENERIC_ENRICH, ''Alert enriched by '' @ email who @ '' - '' @ str (JObj e), False));
          text = (if truthy (get_or_null e ''note'') \<and> (has_key e ''status'' \<or> has_key e ''ticket_url'')
                  then text @ '' - With note: '' @ str (get_or_null e ''note'') else text)
      in (ty, text, check))"

section \<open>The routes\<close>

text \<open>An answer: \<open>ok\<close>, \<open>failed\<close> with status 200, a refusal with its status code, or an exception.\<close>

datatype reply = Accepted | Failed | Refused nat | Raised service_error

text \<open>\<open>ValueError\<close> and its subclasses, which the handlers answer with 422.\<close>

fun is_value_error :: "service_error \<Rightarrow> bool" where
  "is_value_error (Db NotNull) = False"
| "is_value_error (Db _) = True"
| "is_value_error _ = False"

text \<open>\<open>str(raw).lower() == "true"\<close>: of what JSON can hold only a string or a boolean gives that.\<close>

fun dismissed_flag :: "json \<Rightarrow> bool" where
  "dismissed_flag (JBool b) = b"
| "dismissed_flag (JStr s) = (py_lower s = ''true'')"
| "dismissed_flag _ = False"

definition translate_dismiss_enrichments :: "enrichments \<Rightarrow> enrichments" where
  "translate_dismiss_enrichments e =
     (if \<not> has_key e ''dismissed'' then e
      else let dismissed = dismissed_flag (get_or_null e ''dismissed'');
               e = dict_del ''dismissed'' e;
               ts0 = get_or_null e ''dismissed_until'';
               (ts, e) = (if truthy ts0 then (ts0, e) else (get_or_null e ''dismiss_until'', dict_del ''dismiss_until'' e))
           in if dismissed then
                let e = setdefault ''status'' (JStr ''suppressed'') e in
                if truthy ts then dict_set ''dismissed_until'' ts (dict_set ''dismiss_mode'' (JStr ''dismiss_until'') e)
                else setdefault ''dismiss_mode'' (JStr ''permanent'') e
              else dict_set ''dismissed_until'' JNull (dict_set ''dismiss_mode'' JNull (setdefault ''status'' JNull e)))"

definition answer :: "(outside \<Rightarrow> outside \<times> reply) \<Rightarrow> outside \<times> (service_error + unit) \<Rightarrow> outside \<times> reply" where
  "answer continue r = (case r of
       (out, Inl err) \<Rightarrow> (out, if is_value_error err then Refused 422 else Failed)
     | (out, Inr _) \<Rightarrow> continue out)"

definition enrich_alert_impl ::
  "(json \<Rightarrow> string) \<Rightarrow> bool \<Rightarrow> string \<Rightarrow> bool \<Rightarrow> entity \<Rightarrow> string \<Rightarrow> enrichments \<Rightarrow> bool \<Rightarrow> outside \<Rightarrow> outside \<times> reply" where
  "enrich_alert_impl str has_producer src found who f e dispose out =
     (let (ty, text, check) = get_enrichment_metadata str e who;
          a = enrich_call f e ty (email who) text
      in answer (\<lambda>out. if \<not> found then (out, Failed)
            else (if check then out\<lparr>out_checks := out_checks out @ [f]\<rparr> else out, Accepted))
          (if dispose then disposable_enrich_entity has_producer src (tenant_id who) a out
           else enrich_entity has_producer src (tenant_id who) 0 a out))"

definition enrich_alert_route ::
  "(json \<Rightarrow> string) \<Rightarrow> bool \<Rightarrow> string \<Rightarrow> bool \<Rightarrow> entity \<Rightarrow> string \<Rightarrow> enrichments \<Rightarrow> bool \<Rightarrow> outside \<Rightarrow> outside \<times> reply" where
  "enrich_alert_route str has_producer src found who f e dispose out =
     enrich_alert_impl str has_producer src found who f (translate_dismiss_enrichments e) dispose out"

definition enrich_alert_note ::
  "(json \<Rightarrow> string) \<Rightarrow> bool \<Rightarrow> string \<Rightarrow> bool \<Rightarrow> entity \<Rightarrow> string \<Rightarrow> string \<Rightarrow> outside \<Rightarrow> outside \<times> reply" where
  "enrich_alert_note str has_producer src found who f text out =
     enrich_alert_impl str has_producer src found who f [(''note'', JStr text)] False out"

definition delete_alert :: "bool \<Rightarrow> string \<Rightarrow> entity \<Rightarrow> string \<Rightarrow> bool \<Rightarrow> bool \<Rightarrow> outside \<Rightarrow> outside \<times> reply" where
  "delete_alert has_producer src who f restore soft_delete out =
     (let a = (enrich_call f [(''deleted'', JBool (\<not> restore)), (''assignee'', JStr (email who))] DELETE_ALERT (email who)
            (''Alert deleted by '' @ email who))\<lparr>en_event_type := if soft_delete then ''enrich'' else ''delete''\<rparr>
      in case enrich_entity has_producer src (tenant_id who) 0 a out of
           (out, Inl err) \<Rightarrow> (out, Raised err) | (out, Inr _) \<Rightarrow> (out, Accepted))"

definition assign_alert :: "bool \<Rightarrow> string \<Rightarrow> entity \<Rightarrow> string \<Rightarrow> bool \<Rightarrow> string option \<Rightarrow> outside \<Rightarrow> outside \<times> reply" where
  "assign_alert has_producer src who f dispose text out =
     (let said = (case text of None \<Rightarrow> [] | Some n \<Rightarrow> n);
          e = [(''assignee'', JStr (email who)), (''status'', JStr ''acknowledged'')];
          e = (if said \<noteq> [] then dict_set ''note'' (JStr said) e else e);
          a = (enrich_call f e ACKNOWLEDGE (email who)
            (''Alert assigned to '' @ email who @ (if said \<noteq> [] then '' - With note: '' @ said else [])))\<lparr>en_dispose := dispose\<rparr>
      in case enrich_entity has_producer src (tenant_id who) 0 a out of
           (out, Inl err) \<Rightarrow> (out, Raised err) | (out, Inr _) \<Rightarrow> (out, Accepted))"

text \<open>
  A batch names its alerts or selects them by a filter.  What the filter selects is an argument: \<open>None\<close> when it
  is not a valid one, \<open>Some None\<close> when the query fails.
\<close>

definition batch_enrich_alerts ::
  "(json \<Rightarrow> string) \<Rightarrow> bool \<Rightarrow> string \<Rightarrow> string list option option \<Rightarrow> entity \<Rightarrow> string list \<Rightarrow> string \<Rightarrow> enrichments \<Rightarrow> bool \<Rightarrow> outside \<Rightarrow> outside \<times> reply" where
  "batch_enrich_alerts str has_producer src selected who fs cel e dispose out =
     (let e = translate_dismiss_enrichments e;
          run = (\<lambda>fs. let (ty, text, check) = get_enrichment_metadata str e who in
            answer (\<lambda>out. (if check then out\<lparr>out_checks := out_checks out @
                   filter (\<lambda>f. get_last_alert_by_fingerprint (tenant_id who) f (out_db out) \<noteq> None) fs\<rparr> else out, Accepted))
              (batch_enrich has_producer src (tenant_id who) fs ((enrich_call [] e ty (email who) text)\<lparr>en_dispose := dispose\<rparr>) out))
      in if fs = [] \<and> cel = [] then (out, Refused 400)
         else if fs \<noteq> [] \<and> cel \<noteq> [] then (out, Refused 400)
         else if cel \<noteq> [] then
           (case selected of None \<Rightarrow> (out, Refused 400) | Some None \<Rightarrow> (out, Failed)
            | Some (Some fs) \<Rightarrow> if fs = [] then (out, Accepted) else run fs)
         else run fs)"

definition clear_key :: "string \<Rightarrow> enrichments \<Rightarrow> enrichments" where
  "clear_key k e =
     (if k = ''dismissed'' \<or> k = ''dismiss_until''
      then dict_set ''dismissed_until'' JNull (dict_set ''dismiss_mode'' JNull (dict_set ''status'' JNull e))
      else if k = ''deleted'' then dict_set ''deleted'' (JBool False) e
      else dict_set k JNull e)"

definition clear_enrichments :: "string list \<Rightarrow> enrichments" where
  "clear_enrichments ks = fold clear_key ks []"

definition unenrich_action :: "string list \<Rightarrow> string \<Rightarrow> action_type \<times> string" where
  "unenrich_action ks who =
     (if ''status'' \<in> set ks then (STATUS_UNENRICH, ''Alert status was un-enriched by '' @ who)
      else if ''note'' \<in> set ks then (UNCOMMENT, ''Comment removed by '' @ who)
      else if ''ticket_url'' \<in> set ks then (TICKET_UNASSIGNED, ''Ticket unassigned by '' @ who)
      else (GENERIC_UNENRICH, ''Alert en-enriched by '' @ who))"

definition unenrich_alert :: "bool \<Rightarrow> string \<Rightarrow> bool \<Rightarrow> entity \<Rightarrow> string \<Rightarrow> string list \<Rightarrow> outside \<Rightarrow> outside \<times> reply" where
  "unenrich_alert has_producer src found who f ks out =
     (if ''assignees'' \<in> set ks \<or> \<not> found then (out, Failed)
      else let (ty, text) = unenrich_action ks (email who) in
        answer (\<lambda>out. (out, Accepted))
          (enrich_entity has_producer src (tenant_id who) 0
            ((enrich_call f (clear_enrichments ks) ty (email who) text)\<lparr>en_force := True\<rparr>) out))"

section \<open>What a write does\<close>

lemma dict_ok_setdefault: "dict_ok d \<Longrightarrow> dict_ok (setdefault k v d)"
  by (simp add: setdefault_def dict_ok_set)

lemma dict_ok_filter: "dict_ok d \<Longrightarrow> dict_ok (filter P d)"
  unfolding dict_ok_def by (induction d) (auto simp: image_iff)

lemmas dict_ok_intros = dict_ok_set dict_ok_del dict_ok_setdefault dict_ok_filter

lemma dict_ok_translated: "dict_ok e \<Longrightarrow> dict_ok (translate_dismissed e)"
  by (simp add: translate_dismissed_def Let_def dict_ok_intros)

lemma dict_ok_normalized: "dict_ok e \<Longrightarrow> normalize_enrichments strict e = Inr n \<Longrightarrow> dict_ok n"
  by (auto simp: normalize_cases dict_ok_translated dict_ok_intros split: if_splits)

lemma dict_ok_dispose: "dict_ok e \<Longrightarrow> dict_ok (apply_dispose_on_new_alert e d)"
  by (simp add: apply_dispose_on_new_alert_def dict_ok_intros)

lemma mixed_dispose [simp]: "mixed_dismissal (apply_dispose_on_new_alert e d) = mixed_dismissal e"
  by (simp add: mixed_dismissal_def apply_dispose_on_new_alert_def)

lemma apply_columns_get:
  "dict_ok e \<Longrightarrow> apply_columns force e c k =
    (case dict_get e k of None \<Rightarrow> c k | Some v \<Rightarrow> if k = ''note'' \<and> \<not> force \<and> blank_note v then c k else v)"
proof (induction e arbitrary: c)
  case (Cons kv e)
  obtain k' v where kv: "kv = (k', v)" by (cases kv)
  with Cons.prems have "dict_ok e" "dict_get e k' = None"
    by (auto simp: dict_ok_def dict_get_def map_of_eq_None_iff)
  with Cons.IH kv show ?case by (cases "k = k'") (auto simp: dict_get_Cons split: option.split)
qed (simp add: dict_get_def)

text \<open>The second pass over what the first one made.\<close>

lemma second_pass:
  assumes "normalize_enrichments strict e = Inr n"
  shows "normalize_enrichments strict' n = Inr (translate_dismissed n)"
proof -
  have typed: "set (dict_keys n) \<subseteq> set enrichment_columns" by (rule normalized_typed [OF assms])
  then have "\<not> has_key n ''dismissed''" by (auto simp: has_key_keys)
  with typed show ?thesis using translated_keys [of n] by (auto simp: normalize_cases two_dates_def)
qed

text \<open>A write to an alert, on each branch.\<close>

definition alert_action :: "enrich_args \<Rightarrow> action" where
  "alert_action a = \<lparr>ac_type = action_value (en_action a), ac_callee = en_callee a, ac_description = en_description a\<rparr>"

lemma alert_write_refused:
  assumes "en_entity a = ''alert''"
    and "normalize_enrichments (en_strict a) (apply_dispose_on_new_alert (en_enrichments a) (en_dispose a)) = Inl err"
  shows "enrich_entity_impl p t a out = (out, Inl (Db err))"
  using assms by (simp add: enrich_entity_impl_def)

definition written_columns :: "enrich_args \<Rightarrow> enrichments \<Rightarrow> last_alert_row \<Rightarrow> last_alert_row" where
  "written_columns a n r = apply_enrichments_to_last_alert (en_force a) (translate_dismissed n) r"

definition audit_write :: "string \<Rightarrow> enrich_args \<Rightarrow> enrich_db \<Rightarrow> enrich_db" where
  "audit_write t a db = (if en_audit a
     then db\<lparr>edb_audits := edb_audits db @ [audit_of t (en_fingerprint a) (alert_action a)]\<rparr> else db)"

definition alert_write :: "string \<Rightarrow> enrich_args \<Rightarrow> enrichments \<Rightarrow> enrich_db \<Rightarrow> enrich_db option" where
  "alert_write t a n db = (case get_last_alert_by_fingerprint t (en_fingerprint a) db of
       None \<Rightarrow> Some (audit_write t a db)
     | Some r \<Rightarrow> if row_valid (written_columns a n r)
         then Some (audit_write t a (db\<lparr>edb_last := store_row (written_columns a n r) (edb_last db)\<rparr>)) else None)"

definition tell :: "string \<Rightarrow> enrich_args \<Rightarrow> enrichments \<Rightarrow> outside \<Rightarrow> outside" where
  "tell t a n out = (let out = (if en_produce a then out\<lparr>out_events := out_events out @
        [\<lparr>se_event = safe_event a n, se_type = en_event_type a, se_tenant = t, se_fingerprints = [en_fingerprint a]\<rparr>]\<rparr> else out)
     in if en_should_exist a then out\<lparr>out_elastic := out_elastic out @ [(en_fingerprint a, n)]\<rparr> else out)"

lemma alert_write_passes:
  assumes "en_entity a = ''alert''"
    and "normalize_enrichments (en_strict a) (apply_dispose_on_new_alert (en_enrichments a) (en_dispose a)) = Inr n"
  shows "enrich_entity_impl p t a out =
    (case alert_write t a n (out_db out) of None \<Rightarrow> (out, Inl (Db NotNull))
     | Some db \<Rightarrow> if en_produce a \<and> \<not> p then (out\<lparr>out_db := db\<rparr>, Inl NoProducer)
         else (tell t a n (out\<lparr>out_db := db\<rparr>), Inr ()))"
proof -
  have pass: "normalize_enrichments (en_strict a) n = Inr (translate_dismissed n)" by (rule second_pass [OF assms(2)])
  show ?thesis
  proof (cases "get_last_alert_by_fingerprint t (en_fingerprint a) (out_db out)")
    case None
    with assms pass show ?thesis
      by (simp add: enrich_entity_impl_def enrich_entity_db_def enrich_alert_def alert_write_def audit_write_def alert_action_def
        after_write_def tell_def Let_def)
  next
    case (Some r)
    with assms pass show ?thesis
      by (simp add: enrich_entity_impl_def enrich_entity_db_def enrich_alert_def alert_write_def audit_write_def alert_action_def
        after_write_def tell_def written_columns_def Let_def)
  qed
qed

lemma tell_db [simp]: "out_db (tell t a n out) = out_db out"
  by (simp add: tell_def Let_def)

lemma audit_write_last [simp]: "edb_last (audit_write t a db) = edb_last db"
  "get_last_alert_by_fingerprint t' f (audit_write t a db) = get_last_alert_by_fingerprint t' f db"
  by (simp_all add: audit_write_def get_last_alert_by_fingerprint_def)

lemma written_key [simp]: "row_key t f (written_columns a n r) = row_key t f r"
  by (simp add: written_columns_def apply_enrichments_to_last_alert_def row_key_def)

lemma alert_write_get:
  assumes "alert_write t a n db = Some db'" and "get_last_alert_by_fingerprint t (en_fingerprint a) db = Some r"
  shows "get_last_alert_by_fingerprint t (en_fingerprint a) db' = Some (written_columns a n r)"
  using assms found_key [of t "en_fingerprint a" "edb_last db" r]
  by (auto simp: alert_write_def get_last_alert_by_fingerprint_def find_store split: if_splits)

lemma alert_write_other:
  assumes "alert_write t a n db = Some db'" and "t' \<noteq> t \<or> f \<noteq> en_fingerprint a"
  shows "get_last_alert_by_fingerprint t' f db' = get_last_alert_by_fingerprint t' f db"
proof (cases "get_last_alert_by_fingerprint t (en_fingerprint a) db")
  case None
  with assms show ?thesis by (auto simp: alert_write_def)
next
  case (Some r)
  then have "\<not> row_key t' f (written_columns a n r)"
    using assms(2) found_key [of t "en_fingerprint a" "edb_last db" r]
    by (auto simp: get_last_alert_by_fingerprint_def row_key_def written_columns_def apply_enrichments_to_last_alert_def)
  with assms(1) Some show ?thesis
    by (auto simp: alert_write_def get_last_alert_by_fingerprint_def find_store_other split: if_splits)
qed

section \<open>Every change is in the audit\<close>

text \<open>
  A log that accounts for changes: each step appends records, and a key whose value changed is named by one of
  them.  The contract carries over to any sequence of steps.
\<close>

locale accounted_steps =
  fixes step :: "'r \<Rightarrow> 's \<Rightarrow> 's"
    and value_of :: "'s \<Rightarrow> 'k \<Rightarrow> 'v"
    and log_of :: "'s \<Rightarrow> 'a list"
    and names :: "'a \<Rightarrow> 'k \<Rightarrow> bool"
    and allowed :: "'r \<Rightarrow> 'a \<Rightarrow> bool"
  assumes step_accounts: "\<exists>new. log_of (step r s) = log_of s @ new \<and> (\<forall>x \<in> set new. allowed r x) \<and>
      (\<forall>k. value_of (step r s) k \<noteq> value_of s k \<longrightarrow> (\<exists>x \<in> set new. names x k))"
begin

lemma steps_account:
  "\<exists>new. log_of (fold step rs s) = log_of s @ new \<and> (\<forall>x \<in> set new. \<exists>r \<in> set rs. allowed r x) \<and>
     (\<forall>k. value_of (fold step rs s) k \<noteq> value_of s k \<longrightarrow> (\<exists>x \<in> set new. names x k))"
proof (induction rs arbitrary: s)
  case (Cons r rs)
  obtain new where new: "log_of (step r s) = log_of s @ new" "\<forall>x \<in> set new. allowed r x"
      "\<forall>k. value_of (step r s) k \<noteq> value_of s k \<longrightarrow> (\<exists>x \<in> set new. names x k)"
    using step_accounts by blast
  obtain more where more: "log_of (fold step rs (step r s)) = log_of (step r s) @ more"
      "\<forall>x \<in> set more. \<exists>r \<in> set rs. allowed r x"
      "\<forall>k. value_of (fold step rs (step r s)) k \<noteq> value_of (step r s) k \<longrightarrow> (\<exists>x \<in> set more. names x k)"
    using Cons.IH by blast
  have "\<forall>k. value_of (fold step rs (step r s)) k \<noteq> value_of s k \<longrightarrow> (\<exists>x \<in> set (new @ more). names x k)"
    using new(3) more(3) by (metis UnCI set_append)
  with new(1,2) more(1,2) show ?case by (intro exI [of _ "new @ more"]) auto
qed simp

end

text \<open>One request, with who makes it; what is read or selected outside the state is part of it.\<close>

datatype alert_request =
    Enrich_alert entity string enrichments bool bool
  | Enrich_note entity string string bool
  | Delete_alert entity string bool bool
  | Assign_alert entity string bool "string option"
  | Batch_enrich entity "string list option option" "string list" string enrichments bool
  | Unenrich_alert entity string "string list" bool

fun requester :: "alert_request \<Rightarrow> entity" where
  "requester (Enrich_alert who _ _ _ _) = who"
| "requester (Enrich_note who _ _ _) = who"
| "requester (Delete_alert who _ _ _) = who"
| "requester (Assign_alert who _ _ _) = who"
| "requester (Batch_enrich who _ _ _ _ _) = who"
| "requester (Unenrich_alert who _ _ _) = who"

fun handle :: "(json \<Rightarrow> string) \<Rightarrow> bool \<Rightarrow> string \<Rightarrow> alert_request \<Rightarrow> outside \<Rightarrow> outside \<times> reply" where
  "handle str p src (Enrich_alert who f e dispose found) out = enrich_alert_route str p src found who f e dispose out"
| "handle str p src (Enrich_note who f text found) out = enrich_alert_note str p src found who f text out"
| "handle str p src (Delete_alert who f restore soft) out = delete_alert p src who f restore soft out"
| "handle str p src (Assign_alert who f dispose text) out = assign_alert p src who f dispose text out"
| "handle str p src (Batch_enrich who selected fs cel e dispose) out = batch_enrich_alerts str p src selected who fs cel e dispose out"
| "handle str p src (Unenrich_alert who f ks found) out = unenrich_alert p src found who f ks out"

definition serve :: "(json \<Rightarrow> string) \<Rightarrow> bool \<Rightarrow> string \<Rightarrow> alert_request \<Rightarrow> outside \<Rightarrow> outside" where
  "serve str p src r out = fst (handle str p src r out)"

definition row_at :: "outside \<Rightarrow> string \<times> string \<Rightarrow> last_alert_row option" where
  "row_at out k = get_last_alert_by_fingerprint (fst k) (snd k) (out_db out)"

definition about :: "audit \<Rightarrow> string \<times> string \<Rightarrow> bool" where
  "about x k = (au_tenant x = fst k \<and> au_fingerprint x = snd k)"

definition written_by :: "string \<Rightarrow> string \<Rightarrow> audit \<Rightarrow> bool" where
  "written_by t who x = (au_tenant x = t \<and> au_user x = who)"

definition accounted :: "string \<Rightarrow> string \<Rightarrow> outside \<Rightarrow> outside \<Rightarrow> bool" where
  "accounted t who out out' = (\<exists>new. edb_audits (out_db out') = edb_audits (out_db out) @ new \<and> (\<forall>x \<in> set new. written_by t who x) \<and>
     (\<forall>k. row_at out' k \<noteq> row_at out k \<longrightarrow> (\<exists>x \<in> set new. about x k)))"

lemma accounted_refl [simp]: "accounted t who out out"
  by (simp add: accounted_def)

lemma accounted_trans:
  assumes "accounted t who out out'" and "accounted t who out' out''"
  shows "accounted t who out out''"
proof -
  obtain new more where
      "edb_audits (out_db out') = edb_audits (out_db out) @ new" "\<forall>x \<in> set new. written_by t who x"
      "edb_audits (out_db out'') = edb_audits (out_db out') @ more" "\<forall>x \<in> set more. written_by t who x"
      "\<forall>k. row_at out' k \<noteq> row_at out k \<longrightarrow> (\<exists>x \<in> set new. about x k)"
      "\<forall>k. row_at out'' k \<noteq> row_at out' k \<longrightarrow> (\<exists>x \<in> set more. about x k)"
    using assms by (auto simp: accounted_def)
  moreover from this have "\<forall>k. row_at out'' k \<noteq> row_at out k \<longrightarrow> (\<exists>x \<in> set (new @ more). about x k)"
    by (metis UnCI set_append)
  ultimately show ?thesis by (auto simp: accounted_def intro!: exI [of _ "new @ more"])
qed

lemma same_db_accounted: "out_db out' = out_db out \<Longrightarrow> accounted t who out out'"
  by (simp add: accounted_def row_at_def)

lemma alert_write_accounted:
  assumes "alert_write t a n (out_db out) = Some db" and "en_audit a" and "out_db out' = db"
  shows "accounted t (en_callee a) out out'"
proof -
  let ?x = "audit_of t (en_fingerprint a) (alert_action a)"
  have audits: "edb_audits db = edb_audits (out_db out) @ [?x]"
    using assms(1,2) by (auto simp: alert_write_def audit_write_def split: option.splits if_splits)
  have "about ?x k" if "row_at out' k \<noteq> row_at out k" for k
    using that alert_write_other [OF assms(1), of "fst k" "snd k"] assms(3)
    unfolding row_at_def about_def audit_of_def by (cases "fst k = t \<and> snd k = en_fingerprint a") auto
  moreover have "written_by t (en_callee a) ?x" by (simp add: written_by_def audit_of_def alert_action_def)
  ultimately show ?thesis using audits assms(3) by (auto simp: accounted_def)
qed

lemma enrich_impl_accounted:
  assumes "en_entity a = ''alert''" and "en_audit a"
  shows "accounted t (en_callee a) out (fst (enrich_entity_impl p t a out))"
proof (cases "normalize_enrichments (en_strict a) (apply_dispose_on_new_alert (en_enrichments a) (en_dispose a))")
  case (Inl err)
  with assms(1) show ?thesis by (simp add: alert_write_refused)
next
  case (Inr n)
  show ?thesis
  proof (cases "alert_write t a n (out_db out)")
    case None
    with assms(1) Inr show ?thesis by (simp add: alert_write_passes)
  next
    case (Some db)
    with assms Inr show ?thesis using alert_write_accounted [OF Some assms(2)] by (simp add: alert_write_passes)
  qed
qed

lemma enrich_accounted:
  assumes "en_entity a = ''alert''" and "en_audit a"
  shows "accounted t (en_callee a) out (fst (enrich_entity p src t n a out))"
proof (cases "n = 0")
  case True
  have "out_db (fst (enrich_entity p src t 0 a out)) = out_db (fst (enrich_entity_impl p t a out))"
    by (simp add: enrich_entity_def case_prod_unfold Let_def)
  with True enrich_impl_accounted [OF assms, of t out p] show ?thesis
    by (simp add: accounted_def row_at_def)
qed (simp add: enrich_entity_def)

lemma each_accounted:
  assumes "en_entity a = ''alert''" and "en_audit a"
  shows "accounted t (en_callee a) out (fst (enrich_each p src t a fs out))"
proof (induction fs arbitrary: out)
  case (Cons f fs)
  have one: "accounted t (en_callee a) out (fst (enrich_entity p src t 0 (a\<lparr>en_fingerprint := f, en_produce := False\<rparr>) out))"
    using enrich_accounted [of "a\<lparr>en_fingerprint := f, en_produce := False\<rparr>" t out p src 0] assms by simp
  show ?case
    using one Cons.IH by (auto split: prod.split sum.split intro: accounted_trans)
qed simp

lemma batch_accounted:
  assumes "en_entity a = ''alert''" and "en_audit a"
  shows "accounted t (en_callee a) out (fst (batch_enrich p src t fs a out))"
proof -
  have "out_db (fst (batch_enrich p src t fs a out)) = out_db (fst (enrich_each p src t a fs out))"
    by (auto simp: batch_enrich_def Let_def split: prod.split sum.split)
  with each_accounted [OF assms, of t out p src fs] show ?thesis by (simp add: accounted_def row_at_def)
qed

lemma enrich_call_simps [simp]:
  "en_fingerprint (enrich_call f e ty who text) = f" "en_enrichments (enrich_call f e ty who text) = e"
  "en_action (enrich_call f e ty who text) = ty" "en_callee (enrich_call f e ty who text) = who"
  "en_description (enrich_call f e ty who text) = text" "en_should_exist (enrich_call f e ty who text)"
  "\<not> en_dispose (enrich_call f e ty who text)" "\<not> en_force (enrich_call f e ty who text)"
  "en_audit (enrich_call f e ty who text)" "en_produce (enrich_call f e ty who text)"
  "en_strict (enrich_call f e ty who text)" "en_entity (enrich_call f e ty who text) = ''alert''"
  "en_event_type (enrich_call f e ty who text) = ''enrich''"
  by (simp_all add: enrich_call_def)

lemma answer_accounted:
  assumes "accounted t who out (fst r)" and "\<And>out. out_db (fst (continue out)) = out_db out"
  shows "accounted t who out (fst (answer continue r))"
proof -
  have "out_db (fst (answer continue r)) = out_db (fst r)"
    using assms(2) by (auto simp: answer_def split: prod.split sum.split)
  with assms(1) show ?thesis by (simp add: accounted_def row_at_def)
qed

lemma impl_route_accounted:
  "accounted (tenant_id who) (email who) out (fst (enrich_alert_impl str p src found who f e dispose out))"
proof -
  obtain ty msg check where meta: "get_enrichment_metadata str e who = (ty, msg, check)" by (cases "get_enrichment_metadata str e who")
  let ?a = "enrich_call f e ty (email who) msg"
  have "accounted (tenant_id who) (email who) out
      (fst (if dispose then disposable_enrich_entity p src (tenant_id who) ?a out else enrich_entity p src (tenant_id who) 0 ?a out))"
    using enrich_accounted [of ?a "tenant_id who" out p src 0] enrich_accounted [of "?a\<lparr>en_dispose := True, en_produce := True\<rparr>" "tenant_id who" out p src 0]
    by (simp add: disposable_enrich_entity_def)
  from answer_accounted [OF this, where continue = "\<lambda>out. if \<not> found then (out, Failed) else (if check then out\<lparr>out_checks := out_checks out @ [f]\<rparr> else out, Accepted)"]
  show ?thesis by (simp add: enrich_alert_impl_def meta Let_def)
qed

lemma raised_accounted:
  assumes "accounted t who out (fst r)"
  shows "accounted t who out (fst (case r of (out, Inl err) \<Rightarrow> (out, Raised err) | (out, Inr _) \<Rightarrow> (out, Accepted)))"
  using assms by (auto split: prod.split sum.split)

lemma run_batch_accounted:
  "accounted (tenant_id who) (email who) out (fst (answer (\<lambda>out. (if check then out\<lparr>out_checks := g out\<rparr> else out, Accepted))
     (batch_enrich p src (tenant_id who) fs ((enrich_call [] e ty (email who) text)\<lparr>en_dispose := dispose\<rparr>) out)))"
  using batch_accounted [of "(enrich_call [] e ty (email who) text)\<lparr>en_dispose := dispose\<rparr>" "tenant_id who" out p src fs]
  by (intro answer_accounted) simp_all

lemma batch_route_accounted:
  "accounted (tenant_id who) (email who) out (fst (batch_enrich_alerts str p src selected who fs cel e dispose out))"
  using run_batch_accounted
  by (auto simp: batch_enrich_alerts_def Let_def case_prod_unfold split: option.split)

lemma handle_accounted: "accounted (tenant_id (requester r)) (email (requester r)) out (serve str p src r out)"
proof (cases r)
  case (Enrich_alert who f e dispose found)
  then show ?thesis by (simp add: serve_def enrich_alert_route_def impl_route_accounted)
next
  case (Enrich_note who f msg found)
  then show ?thesis by (simp add: serve_def enrich_alert_note_def impl_route_accounted)
next
  case (Delete_alert who f restore soft)
  then show ?thesis unfolding serve_def
    using enrich_accounted [of "(enrich_call f [(''deleted'', JBool (\<not> restore)), (''assignee'', JStr (email who))] DELETE_ALERT (email who)
            (''Alert deleted by '' @ email who))\<lparr>en_event_type := if soft then ''enrich'' else ''delete''\<rparr>" "tenant_id who" out p src 0]
    by (simp add: delete_alert_def Let_def raised_accounted)
next
  case (Assign_alert who f dispose msg)
  have "accounted (tenant_id who) (email who) out
      (fst (enrich_entity p src (tenant_id who) 0 ((enrich_call f e ACKNOWLEDGE (email who) d)\<lparr>en_dispose := dispose\<rparr>) out))" for e d
    using enrich_accounted [of "(enrich_call f e ACKNOWLEDGE (email who) d)\<lparr>en_dispose := dispose\<rparr>" "tenant_id who" out p src 0] by simp
  then show ?thesis using Assign_alert by (simp add: serve_def assign_alert_def Let_def raised_accounted)
next
  case (Batch_enrich who selected fs cel e dispose)
  then show ?thesis by (simp add: serve_def batch_route_accounted)
next
  case (Unenrich_alert who f ks found)
  have "accounted (tenant_id who) (email who) out (fst (answer (\<lambda>out. (out, Accepted))
      (enrich_entity p src (tenant_id who) 0 ((enrich_call f e ty (email who) d)\<lparr>en_force := True\<rparr>) out)))" for e ty d
    using enrich_accounted [of "(enrich_call f e ty (email who) d)\<lparr>en_force := True\<rparr>" "tenant_id who" out p src 0]
    by (intro answer_accounted) simp_all
  then show ?thesis using Unenrich_alert by (simp add: serve_def unenrich_alert_def case_prod_unfold Let_def)
qed

interpretation api: accounted_steps "serve str p src" row_at "\<lambda>out. edb_audits (out_db out)" about
    "\<lambda>r. written_by (tenant_id (requester r)) (email (requester r))"
  for str p src
  by (rule accounted_steps.intro, rule handle_accounted [unfolded accounted_def])

text \<open>
  C16: nothing changes unseen.  After any requests of any callers, whatever their answers, the row of an
  alert differs from before only if one of them, by a caller of the alert's own tenant, left a record in
  the audit that names the alert and that caller.
\<close>

theorem changes_are_audited:
  assumes "row_at (fold (serve str p src) reqs out) (t, f) \<noteq> row_at out (t, f)"
  shows "\<exists>new. edb_audits (out_db (fold (serve str p src) reqs out)) = edb_audits (out_db out) @ new \<and>
    (\<exists>x \<in> set new. au_tenant x = t \<and> au_fingerprint x = f \<and>
      (\<exists>r \<in> set reqs. tenant_id (requester r) = t \<and> email (requester r) = au_user x))"
  using api.steps_account [of str p src reqs out] assms unfolding about_def written_by_def by fastforce

definition sample_user :: entity where
  "sample_user = \<lparr>tenant_id = ''t'', email = ''u'', api_key_name = None, role = None\<rparr>"

definition sample_outside :: outside where
  "sample_outside = \<lparr>out_db = \<lparr>edb_last = [plain_row 1 default_columns], edb_audits = [], edb_incidents = []\<rparr>, out_events = [],
     out_elastic = [], out_counters = [], out_checks = []\<rparr>"

text \<open>A write by one request, seen from the row.\<close>

lemma enrich_entity_alert:
  assumes "en_entity a = ''alert''"
    and "normalize_enrichments (en_strict a) (apply_dispose_on_new_alert (en_enrichments a) (en_dispose a)) = Inr n"
    and "row_at out (t, en_fingerprint a) = Some r" and "row_valid (written_columns a n r)"
  shows "row_at (fst (enrich_entity True src t 0 a out)) (t, en_fingerprint a) = Some (written_columns a n r)"
    and "snd (enrich_entity True src t 0 a out) = Inr ()"
proof -
  have found: "get_last_alert_by_fingerprint t (en_fingerprint a) (out_db out) = Some r"
    using assms(3) by (simp add: row_at_def)
  then obtain db where db: "alert_write t a n (out_db out) = Some db"
    using assms(4) by (simp add: alert_write_def)
  show "row_at (fst (enrich_entity True src t 0 a out)) (t, en_fingerprint a) = Some (written_columns a n r)"
    "snd (enrich_entity True src t 0 a out) = Inr ()"
    using alert_write_get [OF db found]
    by (simp_all add: enrich_entity_def alert_write_passes [OF assms(1,2)] db row_at_def Let_def)
qed

lemma written_column:
  "dict_ok n \<Longrightarrow> translate_dismissed n = n \<Longrightarrow> la_columns (written_columns a n r) k =
    (case dict_get n k of None \<Rightarrow> la_columns r k
     | Some v \<Rightarrow> if k = ''note'' \<and> \<not> en_force a \<and> blank_note v then la_columns r k else v)"
  by (simp add: written_columns_def apply_enrichments_to_last_alert_def apply_columns_get)

lemma settled: "normalize_enrichments strict e = Inr n \<Longrightarrow> \<not> mixed_dismissal e \<Longrightarrow> translate_dismissed n = n"
  using normalisation_settles [of strict e n strict] second_pass [of strict e n strict] by simp

section \<open>What is published is what was written\<close>

lemma safe_event_get: "k \<notin> set action_keys \<Longrightarrow> dict_get (safe_event a n) k = dict_get n k"
  by (simp add: safe_event_def action_keys_def dict_get_set)

lemma columns_not_actions: "k \<in> set enrichment_columns \<Longrightarrow> k \<notin> set action_keys"
  by (auto simp: enrichment_columns_def action_keys_def)

text \<open>
  C17: the event tells what was written.  When a write of an alert is accepted, exactly one event goes out, to the
  alert's tenant and fingerprint, and every column of the row holds what the event says of it, or what
  it held when the event says nothing; a blank note in an event that is not forced says nothing.  Writes
  that give \<open>dismiss_mode\<close> together with \<open>dismissed\<close> or \<open>dismiss_until\<close> are excepted (\<open>mixed_dismissal\<close>): their
  row can be suppressed while the event says nothing of it (\<open>mixed_dismissal_does_not_settle\<close>).
\<close>

theorem published_event_agrees_with_row:
  assumes "en_entity a = ''alert''" and "en_produce a" and "dict_ok (en_enrichments a)"
    and "\<not> mixed_dismissal (en_enrichments a)" and "row_at out (t, en_fingerprint a) = Some r"
    and "enrich_entity True src t 0 a out = (out', Inr ())"
  shows "\<exists>ev r'. out_events out' = out_events out @ [ev] \<and> se_tenant ev = t \<and> se_fingerprints ev = [en_fingerprint a] \<and>
    row_at out' (t, en_fingerprint a) = Some r' \<and>
    (\<forall>k \<in> set enrichment_columns. la_columns r' k =
      (case dict_get (se_event ev) k of None \<Rightarrow> la_columns r k
       | Some v \<Rightarrow> if k = ''note'' \<and> dict_get (se_event ev) ''force'' \<noteq> Some (JBool True) \<and> blank_note v then la_columns r k else v))"
proof -
  have found: "get_last_alert_by_fingerprint t (en_fingerprint a) (out_db out) = Some r"
    using assms(5) by (simp add: row_at_def)
  have ran: "enrich_entity_impl True t a out = (out0, Inr ())" "out_events out' = out_events out0" "out_db out' = out_db out0"
    if "out0 = fst (enrich_entity_impl True t a out)" for out0
    using assms(1,6) that by (auto simp: enrich_entity_def Let_def case_prod_unfold intro: prod_eqI)
  obtain n where n: "normalize_enrichments (en_strict a) (apply_dispose_on_new_alert (en_enrichments a) (en_dispose a)) = Inr n"
    using ran(1) [OF refl] alert_write_refused [OF assms(1)] by (metis Inl_Inr_False old.sum.exhaust prod.inject)
  obtain db where db: "alert_write t a n (out_db out) = Some db"
    using ran(1) [OF refl] by (cases "alert_write t a n (out_db out)") (simp_all add: alert_write_passes [OF assms(1) n])
  have stable: "translate_dismissed n = n" using settled [OF n] assms(4) by simp
  have ok: "dict_ok n" using dict_ok_normalized [OF dict_ok_dispose n] assms(3) by simp
  have "out_events out' = out_events out @
      [\<lparr>se_event = safe_event a n, se_type = en_event_type a, se_tenant = t, se_fingerprints = [en_fingerprint a]\<rparr>]"
    "row_at out' (t, en_fingerprint a) = Some (written_columns a n r)"
    using ran(2,3) [OF refl] alert_write_get [OF db found] assms(2)
    by (simp_all add: alert_write_passes [OF assms(1) n] db tell_def row_at_def Let_def)
  moreover have "dict_get (safe_event a n) ''force'' = Some (JBool (en_force a))"
    by (simp add: safe_event_def dict_get_set)
  ultimately show ?thesis
    by (auto simp: written_column [OF ok stable] safe_event_get columns_not_actions split: option.split)
qed

text \<open>The sample alert, assigned by its user.\<close>

definition sample_str :: "json \<Rightarrow> string" where
  "sample_str v = ''?''"

definition assigned :: outside where
  "assigned = fold (serve sample_str True ''ui'') [Assign_alert sample_user ''f'' False None] sample_outside"

lemma assigned_column: "map_option (\<lambda>r. la_columns r ''assignee'') (row_at assigned (''t'', ''f'')) = Some (JStr ''u'')"
  "map_option (\<lambda>r. la_columns r ''assignee'') (row_at sample_outside (''t'', ''f'')) = Some JNull"
  by code_simp+

theorem changes_are_audited_witness:
  "\<exists>x \<in> set (edb_audits (out_db assigned)). au_tenant x = ''t'' \<and> au_fingerprint x = ''f'' \<and> au_user x = ''u''"
proof -
  have "row_at assigned (''t'', ''f'') \<noteq> row_at sample_outside (''t'', ''f'')" using assigned_column by force
  from changes_are_audited [OF this [unfolded assigned_def]] show ?thesis
    by (auto simp: assigned_def sample_user_def)
qed

lemma sample_row: "row_at sample_outside (''t'', ''f'') = Some (plain_row 1 default_columns)"
  by (simp add: row_at_def sample_outside_def get_last_alert_by_fingerprint_def row_key_def plain_row_def)

theorem published_event_agrees_with_row_witness:
  "\<exists>ev r. out_events (fst (enrich_entity True ''ui'' ''t'' 0 (enrich_call ''f'' [(''dismissed'', JBool True)] GENERIC_ENRICH ''u'' ''d'')
      sample_outside)) = [ev] \<and> dict_get (se_event ev) ''status'' = Some (JStr ''suppressed'') \<and>
    row_at (fst (enrich_entity True ''ui'' ''t'' 0 (enrich_call ''f'' [(''dismissed'', JBool True)] GENERIC_ENRICH ''u'' ''d'') sample_outside))
      (''t'', ''f'') = Some r \<and> la_columns r ''status'' = JStr ''suppressed''"
proof -
  let ?a = "enrich_call ''f'' [(''dismissed'', JBool True)] GENERIC_ENRICH ''u'' ''d''"
  let ?r = "enrich_entity True ''ui'' ''t'' 0 ?a sample_outside"
  have ok: "is_ok (snd ?r)" "map (\<lambda>e. dict_get (se_event e) ''status'') (out_events (fst ?r)) = [Some (JStr ''suppressed'')]"
    "out_events sample_outside = []" by code_simp+
  have "dict_ok [(''dismissed'', JBool True)]" "\<not> mixed_dismissal [(''dismissed'', JBool True)]" by code_simp+
  moreover have "?r = (fst ?r, Inr ())" using ok(1) by (auto simp: is_ok_iff prod_eq_iff)
  ultimately obtain ev r where "out_events (fst ?r) = [] @ [ev]" "row_at (fst ?r) (''t'', ''f'') = Some r"
    "\<forall>k \<in> set enrichment_columns. la_columns r k =
      (case dict_get (se_event ev) k of None \<Rightarrow> la_columns (plain_row 1 default_columns) k
       | Some v \<Rightarrow> if k = ''note'' \<and> dict_get (se_event ev) ''force'' \<noteq> Some (JBool True) \<and> blank_note v
           then la_columns (plain_row 1 default_columns) k else v)"
    using published_event_agrees_with_row [where a = ?a and out = sample_outside and out' = "fst ?r" and t = "''t''" and src = "''ui''"
        and r = "plain_row 1 default_columns"] sample_row ok(3) by auto
  with ok(2) show ?thesis by (intro exI [of _ ev] exI [of _ r]) auto
qed

section \<open>The routes\<close>

lemma translated_clean:
  assumes "has_key e ''dismissed''" and "\<not> two_dates e"
  shows "\<not> has_key (translate_dismissed e) ''dismissed''" "\<not> has_key (translate_dismissed e) ''dismiss_until''"
  using translated_other [of "''dismissed''" e] translated_other [of "''dismiss_until''" e] assms(2) by simp_all

text \<open>
  The route and the database layer translate alike.  For a flag that is a boolean, or a string that says true, a
  request translated by the route passes the database layer exactly as the untranslated one would.
\<close>

theorem translations_agree:
  assumes "dismissed_flag (get_or_null e ''dismissed'') = truthy (get_or_null e ''dismissed'')"
    and "truthy (get_or_null e ''dismissed_until'') \<or> get_or_null e ''dismissed_until'' = JNull"
    and "\<not> two_dates e" and "\<not> mixed_dismissal e"
  shows "normalize_enrichments strict (translate_dismiss_enrichments e) = normalize_enrichments strict e"
proof (cases "has_key e ''dismissed''")
  case True
  have "translate_dismiss_enrichments e = translate_dismissed e"
    using assms(1,2) True by (cases "get_or_null e ''dismissed_until'' = JNull") (simp_all add: translate_dismiss_enrichments_def translate_dismissed_def Let_def)
  moreover have "translate_dismissed (translate_dismissed e) = translate_dismissed e"
    using translated_clean [OF True assms(3)] translated_coupled [OF assms(4)] by (intro translate_settles) simp_all
  ultimately show ?thesis by (simp add: normalize_cases)
qed (simp add: translate_dismiss_enrichments_def)

theorem translations_agree_witness:
  "normalize_enrichments True (translate_dismiss_enrichments [(''dismissed'', JStr ''true''), (''dismissed_until'', JStr ''2030-01-01'')]) =
     Inr [(''dismissed_until'', JStr ''2030-01-01''), (''status'', JStr ''suppressed''), (''dismiss_mode'', JStr ''dismiss_until'')]"
proof -
  let ?e = "[(''dismissed'', JStr ''true''), (''dismissed_until'', JStr ''2030-01-01'')]"
  have "dismissed_flag (get_or_null ?e ''dismissed'') = truthy (get_or_null ?e ''dismissed'')"
    "truthy (get_or_null ?e ''dismissed_until'') \<or> get_or_null ?e ''dismissed_until'' = JNull"
    "\<not> two_dates ?e" "\<not> mixed_dismissal ?e" by code_simp+
  moreover have "normalize_enrichments True ?e =
     Inr [(''dismissed_until'', JStr ''2030-01-01''), (''status'', JStr ''suppressed''), (''dismiss_mode'', JStr ''dismiss_until'')]"
    by code_simp
  ultimately show ?thesis using translations_agree [of ?e True] by simp
qed

text \<open>A string that says false is a restoring request at the route, a dismissal below it.\<close>

lemma false_string_differs:
  "translate_dismiss_enrichments [(''dismissed'', JStr ''false'')] =
     [(''status'', JNull), (''dismiss_mode'', JNull), (''dismissed_until'', JNull)]"
  "translate_dismissed [(''dismissed'', JStr ''false'')] = [(''status'', JStr ''suppressed''), (''dismiss_mode'', JStr ''permanent'')]"
  by code_simp+

lemma normalize_typed:
  "set (dict_keys e) \<subseteq> set enrichment_columns \<Longrightarrow> translate_dismissed e = e \<Longrightarrow> normalize_enrichments strict e = Inr e"
  by (auto simp: normalize_cases)

text \<open>What an accepted request to enrich does to the row.\<close>

lemma route_row:
  assumes "normalize_enrichments True (apply_dispose_on_new_alert (translate_dismiss_enrichments e) dispose) = Inr n"
    and "row_at out (tenant_id who, f) = Some r" and "dict_ok n" and "translate_dismissed n = n"
    and "\<And>k. k \<in> set not_null_columns \<Longrightarrow> dict_get n k \<noteq> Some JNull" and "row_valid r"
  shows "\<exists>r'. row_at (fst (enrich_alert_route str True src found who f e dispose out)) (tenant_id who, f) = Some r' \<and> row_valid r' \<and>
    (\<forall>k. la_columns r' k = (case dict_get n k of None \<Rightarrow> la_columns r k
       | Some v \<Rightarrow> if k = ''note'' \<and> blank_note v then la_columns r k else v))"
proof -
  let ?e = "translate_dismiss_enrichments e"
  obtain ty msg check where meta: "get_enrichment_metadata str ?e who = (ty, msg, check)" by (cases "get_enrichment_metadata str ?e who")
  let ?a = "(enrich_call f ?e ty (email who) msg)\<lparr>en_dispose := dispose\<rparr>"
  let ?w = "written_columns ?a n r"
  have cols: "la_columns ?w k = (case dict_get n k of None \<Rightarrow> la_columns r k
       | Some v \<Rightarrow> if k = ''note'' \<and> blank_note v then la_columns r k else v)" for k
    using written_column [OF assms(3,4), of ?a r k] by (simp split: option.split)
  have valid: "row_valid ?w"
    using assms(5,6) unfolding row_valid_def list_all_iff cols by (auto simp: not_null_columns_def split: option.split)
  have dispose: "(if dispose then disposable_enrich_entity True src (tenant_id who) (enrich_call f ?e ty (email who) msg) out
      else enrich_entity True src (tenant_id who) 0 (enrich_call f ?e ty (email who) msg) out) = enrich_entity True src (tenant_id who) 0 ?a out"
    by (cases dispose) (simp_all add: disposable_enrich_entity_def enrich_call_def)
  have "row_at (fst (enrich_entity True src (tenant_id who) 0 ?a out)) (tenant_id who, f) = Some ?w"
    "snd (enrich_entity True src (tenant_id who) 0 ?a out) = Inr ()"
    using enrich_entity_alert [of ?a n out "tenant_id who" r src] assms(1,2) valid by simp_all
  moreover have "row_at (fst (enrich_alert_route str True src found who f e dispose out)) = row_at (fst (enrich_entity True src (tenant_id who) 0 ?a out))"
    unfolding enrich_alert_route_def enrich_alert_impl_def meta Let_def prod.case dispose
    by (rule ext) (simp add: answer_def row_at_def split: prod.split sum.split)
  ultimately show ?thesis using cols valid by auto
qed

lemma dismissing: "dismissed_flag v \<Longrightarrow> translate_dismiss_enrichments [(''dismissed'', v)] =
    [(''status'', JStr ''suppressed''), (''dismiss_mode'', JStr ''permanent'')]"
  by (simp add: translate_dismiss_enrichments_def has_key_def get_or_null_def dict_get_def dict_del_def setdefault_def dict_set_def)

lemma restoring: "\<not> dismissed_flag v \<Longrightarrow> translate_dismiss_enrichments [(''dismissed'', v)] =
    [(''status'', JNull), (''dismiss_mode'', JNull), (''dismissed_until'', JNull)]"
  by (simp add: translate_dismiss_enrichments_def has_key_def get_or_null_def dict_get_def dict_del_def setdefault_def dict_set_def)

lemma normalized_flags:
  fixes s m u :: json
  shows "normalize_enrichments True (apply_dispose_on_new_alert [(''status'', JStr ''suppressed''), (''dismiss_mode'', JStr ''permanent'')] d) =
      Inr [(''status'', JStr ''suppressed''), (''dismiss_mode'', JStr ''permanent''), (''status_disposable'', JBool d)]" (is ?dismiss)
    and "normalize_enrichments True (apply_dispose_on_new_alert [(''status'', JNull), (''dismiss_mode'', JNull), (''dismissed_until'', JNull)] d) =
      Inr [(''status'', JNull), (''dismiss_mode'', JNull), (''dismissed_until'', JNull), (''status_disposable'', JBool d)]" (is ?restore)
proof -
  let ?x = "[(''status'', JStr ''suppressed''), (''dismiss_mode'', JStr ''permanent''), (''status_disposable'', JBool d)]"
  let ?y = "[(''status'', JNull), (''dismiss_mode'', JNull), (''dismissed_until'', JNull), (''status_disposable'', JBool d)]"
  have "translate_dismissed ?x = ?x" "translate_dismissed ?y = ?y"
    by (rule translate_settles; simp add: has_key_def get_or_null_def dict_get_def)+
  then have "normalize_enrichments True ?x = Inr ?x" "normalize_enrichments True ?y = Inr ?y"
    by (intro normalize_typed; simp add: dict_keys_def enrichment_columns_def)+
  moreover have "apply_dispose_on_new_alert [(''status'', JStr ''suppressed''), (''dismiss_mode'', JStr ''permanent'')] d = ?x"
    "apply_dispose_on_new_alert [(''status'', JNull), (''dismiss_mode'', JNull), (''dismissed_until'', JNull)] d = ?y"
    by (simp_all add: apply_dispose_on_new_alert_def has_key_def dict_get_def dict_set_def)
  ultimately show ?dismiss and ?restore by simp_all
qed

text \<open>
  C18: dismissing and restoring.  A request that dismisses an alert suppresses it for good, disposable or not as it
  says; one that restores it leaves every other column as it was and shows the alert with the status of
  its provider.
\<close>

theorem dismissal_is_undone_by_restore:
  assumes "dismissed_flag v" and "\<not> dismissed_flag w" and "row_at out (tenant_id who, f) = Some r" and "row_valid r"
  shows "\<exists>r1 r2. row_at (fst (enrich_alert_route str True src True who f [(''dismissed'', v)] d out)) (tenant_id who, f) = Some r1 \<and>
    la_columns r1 = (la_columns r)(''status'' := JStr ''suppressed'', ''dismiss_mode'' := JStr ''permanent'', ''status_disposable'' := JBool d) \<and>
    row_at (fst (enrich_alert_route str True src True who f [(''dismissed'', w)] d'
        (fst (enrich_alert_route str True src True who f [(''dismissed'', v)] d out)))) (tenant_id who, f) = Some r2 \<and>
    la_columns r2 = (la_columns r)(''status'' := JNull, ''dismiss_mode'' := JNull, ''dismissed_until'' := JNull, ''status_disposable'' := JBool d') \<and>
    (\<forall>provider. effective_status r2 provider = JStr provider)"
proof -
  let ?x = "[(''status'', JStr ''suppressed''), (''dismiss_mode'', JStr ''permanent''), (''status_disposable'', JBool d)]"
  let ?y = "[(''status'', JNull), (''dismiss_mode'', JNull), (''dismissed_until'', JNull), (''status_disposable'', JBool d')]"
  have x: "dict_ok ?x" "translate_dismissed ?x = ?x" "\<And>k. k \<in> set not_null_columns \<Longrightarrow> dict_get ?x k \<noteq> Some JNull"
    and y: "dict_ok ?y" "translate_dismissed ?y = ?y" "\<And>k. k \<in> set not_null_columns \<Longrightarrow> dict_get ?y k \<noteq> Some JNull"
    by (auto simp: dict_ok_def dict_get_def not_null_columns_def has_key_def get_or_null_def intro!: translate_settles)
  obtain r1 where r1: "row_at (fst (enrich_alert_route str True src True who f [(''dismissed'', v)] d out)) (tenant_id who, f) = Some r1"
      "row_valid r1" "\<forall>k. la_columns r1 k = (case dict_get ?x k of None \<Rightarrow> la_columns r k
         | Some v \<Rightarrow> if k = ''note'' \<and> blank_note v then la_columns r k else v)"
    using route_row [OF _ assms(3) x assms(4), of "[(''dismissed'', v)]" d str src True] dismissing [OF assms(1)] normalized_flags(1) by auto
  obtain r2 where r2: "row_at (fst (enrich_alert_route str True src True who f [(''dismissed'', w)] d'
        (fst (enrich_alert_route str True src True who f [(''dismissed'', v)] d out)))) (tenant_id who, f) = Some r2"
      "\<forall>k. la_columns r2 k = (case dict_get ?y k of None \<Rightarrow> la_columns r1 k
         | Some v \<Rightarrow> if k = ''note'' \<and> blank_note v then la_columns r1 k else v)"
    using route_row [OF _ r1(1) y r1(2), of "[(''dismissed'', w)]" d' str src True] restoring [OF assms(2)] normalized_flags(2) by auto
  have c1: "la_columns r1 = (la_columns r)(''status'' := JStr ''suppressed'', ''dismiss_mode'' := JStr ''permanent'', ''status_disposable'' := JBool d)"
    using r1(3) by (simp add: fun_eq_iff dict_get_def)
  have c2: "la_columns r2 = (la_columns r)(''status'' := JNull, ''dismiss_mode'' := JNull, ''dismissed_until'' := JNull, ''status_disposable'' := JBool d')"
    using r2(2) c1 by (simp add: fun_eq_iff dict_get_def)
  then have "\<forall>provider. effective_status r2 provider = JStr provider" by (simp add: effective_status_def)
  with r1(1) r2(1) c1 c2 show ?thesis by blast
qed

theorem dismissal_is_undone_by_restore_witness:
  "\<exists>r. row_at (fst (enrich_alert_route sample_str True ''ui'' True sample_user ''f'' [(''dismissed'', JStr ''false'')] False
      (fst (enrich_alert_route sample_str True ''ui'' True sample_user ''f'' [(''dismissed'', JStr ''True'')] False sample_outside))))
      (''t'', ''f'') = Some r \<and> effective_status r ''firing'' = JStr ''firing''"
proof -
  have "dismissed_flag (JStr ''True'')" "\<not> dismissed_flag (JStr ''false'')" "row_valid (plain_row 1 default_columns)" by code_simp+
  from dismissal_is_undone_by_restore [OF this(1,2) _ this(3), of sample_outside sample_user "''f''" sample_str "''ui''" False False]
  show ?thesis using sample_row by (auto simp: sample_user_def)
qed

section \<open>Undoing an enrichment\<close>

definition clears :: "string list \<Rightarrow> string \<Rightarrow> bool" where
  "clears ks k = (k \<in> set ks \<and> k \<notin> set legacy_keys \<or>
     k \<in> {''status'', ''dismiss_mode'', ''dismissed_until''} \<and> (\<exists>l \<in> set legacy_keys. l \<in> set ks))"

definition cleared_value :: "string \<Rightarrow> json" where
  "cleared_value k = (if k = ''deleted'' then JBool False else JNull)"

lemma clears_typed: "set ks \<subseteq> set enrichment_columns \<union> set legacy_keys \<Longrightarrow> clears ks k \<Longrightarrow> k \<in> set enrichment_columns"
  by (auto simp only: clears_def enrichment_columns_simps insert_iff empty_iff)

lemma typed_not_null: "k \<in> set enrichment_columns \<Longrightarrow> k \<in> set not_null_columns \<Longrightarrow> k = ''status_disposable'' \<or> k = ''deleted''"
  by (simp add: enrichment_columns_def not_null_columns_def) fastforce

lemma flag_typed: "''status_disposable'' \<in> set enrichment_columns"
  by (simp add: enrichment_columns_def)

lemma clear_key_get: "dict_get (clear_key l e) k = (if clears [l] k then Some (cleared_value k) else dict_get e k)"
  by (auto simp: clear_key_def clears_def cleared_value_def legacy_keys_def dict_get_set)

lemma clears_Cons: "clears (l # ks) k \<longleftrightarrow> clears [l] k \<or> clears ks k"
  by (auto simp: clears_def)

lemma fold_clear_get: "dict_get (fold clear_key ks e) k = (if clears ks k then Some (cleared_value k) else dict_get e k)"
proof (induction ks arbitrary: e)
  case Nil
  show ?case by (simp add: clears_def)
next
  case (Cons l ks)
  show ?case by (simp add: Cons.IH clear_key_get clears_Cons [of l ks])
qed

lemma clear_get: "dict_get (clear_enrichments ks) k = (if clears ks k then Some (cleared_value k) else None)"
  by (simp add: clear_enrichments_def fold_clear_get) (simp add: dict_get_def)

lemma dict_ok_clear: "dict_ok (clear_enrichments ks)"
proof -
  have "dict_ok e \<Longrightarrow> dict_ok (fold clear_key ks e)" for e
    by (induction ks arbitrary: e) (simp_all add: clear_key_def dict_ok_set)
  then show ?thesis by (simp add: clear_enrichments_def dict_ok_def)
qed

lemma dispose_get: "dict_get (apply_dispose_on_new_alert e d) k =
    (if k = ''status_disposable'' \<and> (has_key e ''status'' \<or> has_key e ''dismiss_mode'') then Some (JBool d) else dict_get e k)"
  by (simp add: apply_dispose_on_new_alert_def dict_get_set)

definition dismissal_keys :: "string list" where
  "dismissal_keys = [''status'', ''dismiss_mode'', ''dismissed_until'']"

text \<open>What an un-enrichment gives the database layer: with a dismissal key the three columns of a dismissal.\<close>

lemma unenrich_normalized:
  assumes "set ks \<subseteq> set enrichment_columns \<union> set legacy_keys"
  shows "\<exists>n. normalize_enrichments True (apply_dispose_on_new_alert (clear_enrichments ks) False) = Inr n \<and> dict_ok n \<and>
    translate_dismissed n = n \<and> (\<forall>k. dict_get n k =
      (if clears ks k \<and> k \<noteq> ''status_disposable'' \<or> clears ks ''dismiss_mode'' \<and> k \<in> set dismissal_keys then Some (cleared_value k)
       else if k = ''status_disposable'' then (if clears ks ''status'' \<or> clears ks ''dismiss_mode'' then Some (JBool False)
         else if clears ks k then Some JNull else None)
       else None))"
proof -
  let ?e = "apply_dispose_on_new_alert (clear_enrichments ks) False"
  have get: "dict_get ?e k = (if k = ''status_disposable'' \<and> (clears ks ''status'' \<or> clears ks ''dismiss_mode'') then Some (JBool False)
      else if clears ks k then Some (cleared_value k) else None)" for k
    by (simp add: dispose_get clear_get has_key_def)
  have legacy: "\<not> has_key ?e ''dismissed''" "\<not> has_key ?e ''dismiss_until''"
    by (simp_all add: has_key_def get clears_def legacy_keys_def)
  have mixed: "\<not> mixed_dismissal ?e" using legacy by (simp add: mixed_dismissal_def)
  have typed: "k \<in> set enrichment_columns" if "has_key ?e k" for k
    using that clears_typed [OF assms, of k] flag_typed by (auto simp only: has_key_def get split: if_splits)
  then have "\<forall>k \<in> set (dict_keys ?e). k \<in> set enrichment_columns \<or> k \<in> set legacy_keys"
    by (simp add: has_key_keys)
  then have n: "normalize_enrichments True ?e = Inr (translate_dismissed ?e)"
    using translated_keys [of ?e] legacy by (simp add: normalize_cases two_dates_def)
  have "dict_get (translate_dismissed ?e) k = (if clears ks ''dismiss_mode'' \<and> k \<in> {''status'', ''dismissed_until''} then Some JNull
      else dict_get ?e k)" for k
  proof (cases "clears ks ''dismiss_mode''")
    case True
    then have "has_key ?e ''dismiss_mode''" "get_or_null ?e ''dismiss_mode'' = JNull"
      by (simp_all add: has_key_def get_or_null_def get cleared_value_def)
    moreover have "dict_get ?e k \<noteq> None \<Longrightarrow> k \<in> {''status'', ''dismissed_until''} \<Longrightarrow> dict_get ?e k = Some JNull"
      by (auto simp: get cleared_value_def split: if_splits)
    ultimately show ?thesis using True legacy
      by (auto simp: translate_dismissed_def setdefault_def dict_get_set has_key_def)
  next
    case False
    then have "\<not> has_key ?e ''dismiss_mode''" by (simp add: has_key_def get)
    with False legacy show ?thesis by (simp add: translate_dismissed_def)
  qed
  then show ?thesis
    using n settled [OF n mixed] dict_ok_translated [OF dict_ok_dispose [OF dict_ok_clear]]
    by (auto simp: get dismissal_keys_def cleared_value_def)
qed

text \<open>
  Undoing an enrichment.  Un-enriching typed columns, or a dismissal by its legacy keys, is accepted and gives
  each of them back to the provider; undoing a dismissal clears its status and date with it; columns not
  named, those of a dismissal apart, stay.  The flag \<open>status_disposable\<close> itself cannot be undone.
\<close>

theorem unenrichment_reverts_columns:
  assumes "set ks \<subseteq> set enrichment_columns \<union> set legacy_keys" and "''status_disposable'' \<notin> set ks"
    and "row_at out (tenant_id who, f) = Some r" and "row_valid r"
  shows "snd (unenrich_alert True src True who f ks out) = Accepted \<and>
    (\<exists>r'. row_at (fst (unenrich_alert True src True who f ks out)) (tenant_id who, f) = Some r' \<and>
      (\<forall>k \<in> set ks. k \<in> set enrichment_columns \<longrightarrow> la_columns r' k = cleared_value k) \<and>
      (''dismiss_mode'' \<in> set ks \<or> ''dismissed'' \<in> set ks \<or> ''dismiss_until'' \<in> set ks \<longrightarrow>
        (\<forall>k \<in> set dismissal_keys. la_columns r' k = JNull)) \<and>
      (\<forall>k. k \<notin> set ks \<and> k \<notin> set dismissal_keys \<and> k \<noteq> ''status_disposable'' \<longrightarrow> la_columns r' k = la_columns r k))"
proof -
  obtain n where n: "normalize_enrichments True (apply_dispose_on_new_alert (clear_enrichments ks) False) = Inr n" "dict_ok n"
      "translate_dismissed n = n"
    and get: "\<And>k. dict_get n k = (if clears ks k \<and> k \<noteq> ''status_disposable'' \<or> clears ks ''dismiss_mode'' \<and> k \<in> set dismissal_keys then Some (cleared_value k)
       else if k = ''status_disposable'' then (if clears ks ''status'' \<or> clears ks ''dismiss_mode'' then Some (JBool False)
         else if clears ks k then Some JNull else None)
       else None)"
    using unenrich_normalized [OF assms(1)] by blast
  obtain ty msg where meta: "unenrich_action ks (email who) = (ty, msg)" by (cases "unenrich_action ks (email who)")
  let ?a = "(enrich_call f (clear_enrichments ks) ty (email who) msg)\<lparr>en_force := True\<rparr>"
  let ?w = "written_columns ?a n r"
  have cols: "la_columns ?w k = (case dict_get n k of None \<Rightarrow> la_columns r k | Some v \<Rightarrow> v)" for k
    using written_column [OF n(2,3), of ?a r k] by (simp split: option.split)
  have flag: "\<not> clears ks ''status_disposable''" using assms(2) by (simp add: clears_def)
  have deleted: "clears ks k \<Longrightarrow> k \<in> set not_null_columns \<Longrightarrow> k = ''deleted''" for k
    using flag clears_typed [OF assms(1)] typed_not_null by metis
  have other: "k \<notin> set dismissal_keys" if "k \<in> set not_null_columns" for k
    using that by (auto simp: dismissal_keys_def not_null_columns_def)
  have "dict_get n k \<noteq> Some JNull" if "k \<in> set not_null_columns" for k
    using deleted [OF _ that] other [OF that] flag by (simp add: get cleared_value_def)
  then have "la_columns ?w k \<noteq> JNull" if "k \<in> set not_null_columns" for k
    using that assms(4) by (auto simp: cols row_valid_def list_all_iff split: option.split)
  then have valid: "row_valid ?w" by (simp add: row_valid_def list_all_iff)
  have run: "row_at (fst (enrich_entity True src (tenant_id who) 0 ?a out)) (tenant_id who, f) = Some ?w"
    "snd (enrich_entity True src (tenant_id who) 0 ?a out) = Inr ()"
    using enrich_entity_alert [of ?a n out "tenant_id who" r src] n(1) assms(3) valid by simp_all
  have assignees: "''assignees'' \<notin> set ks" using assms(1) by (auto simp: enrichment_columns_def legacy_keys_def)
  have reply: "unenrich_alert True src True who f ks out = (fst (enrich_entity True src (tenant_id who) 0 ?a out), Accepted)"
    using run(2) assignees by (simp add: unenrich_alert_def meta answer_def case_prod_unfold Let_def)
  have legacy: "\<And>k. k \<in> set enrichment_columns \<Longrightarrow> k \<notin> set legacy_keys" by (auto simp: enrichment_columns_def legacy_keys_def)
  have mode: "''dismiss_mode'' \<in> set ks \<or> ''dismissed'' \<in> set ks \<or> ''dismiss_until'' \<in> set ks \<Longrightarrow> clears ks ''dismiss_mode''"
    by (auto simp: clears_def legacy_keys_def)
  have "la_columns ?w k = cleared_value k" if "k \<in> set ks" "k \<in> set enrichment_columns" for k
    using that legacy [OF that(2)] assms(2) by (auto simp: cols get clears_def)
  moreover have "la_columns ?w k = JNull" if "clears ks ''dismiss_mode''" "k \<in> set dismissal_keys" for k
    using that by (auto simp: cols get cleared_value_def dismissal_keys_def)
  moreover have "la_columns ?w k = la_columns r k" if "k \<notin> set ks" "k \<notin> set dismissal_keys" "k \<noteq> ''status_disposable''" for k
    using that by (auto simp: cols get clears_def dismissal_keys_def)
  ultimately show ?thesis using reply run(1) mode by auto
qed

theorem unenrichment_reverts_columns_witness:
  "\<exists>r. row_at (fst (unenrich_alert True ''ui'' True sample_user ''f'' [''assignee'', ''dismissed''] assigned)) (''t'', ''f'') = Some r \<and>
    la_columns r ''assignee'' = JNull \<and> la_columns r ''status'' = JNull"
proof -
  obtain r where r: "row_at assigned (''t'', ''f'') = Some r" using assigned_column(1) by auto
  have "map_option row_valid (row_at assigned (''t'', ''f'')) = Some True" by code_simp
  with r have "row_valid r" by simp
  moreover have "set [''assignee'', ''dismissed''] \<subseteq> set enrichment_columns \<union> set legacy_keys" "''status_disposable'' \<notin> set [''assignee'', ''dismissed'']"
    "''assignee'' \<in> set enrichment_columns" "''status'' \<in> set dismissal_keys"
    by (simp_all add: enrichment_columns_def legacy_keys_def dismissal_keys_def)
  ultimately show ?thesis
    using unenrichment_reverts_columns [where ks = "[''assignee'', ''dismissed'']" and out = assigned and who = sample_user and f = "''f''"
        and r = r and src = "''ui''"] r by (auto simp: sample_user_def cleared_value_def)
qed

text \<open>Undoing the flag alone is tried on a column that takes no \<open>NULL\<close>, and fails.\<close>

lemma flag_cannot_be_undone:
  "snd (unenrich_alert True ''ui'' True sample_user ''f'' [''status_disposable''] sample_outside) = Failed"
  by code_simp

section \<open>Batches\<close>

lemma each_refused:
  assumes "en_entity a = ''alert''"
    and "normalize_enrichments (en_strict a) (apply_dispose_on_new_alert (en_enrichments a) (en_dispose a)) = Inl err"
  shows "fs \<noteq> [] \<Longrightarrow> \<exists>out'. enrich_each p src t a fs out = (out', Inl (Db err)) \<and> out_db out' = out_db out \<and> out_events out' = out_events out"
proof (induction fs)
  case (Cons f fs)
  have "enrich_entity_impl p t (a\<lparr>en_fingerprint := f, en_produce := False\<rparr>) out = (out, Inl (Db err))"
    using assms by (intro alert_write_refused) simp_all
  with assms(1) show ?case by (simp add: enrich_entity_def Let_def)
qed simp

lemma each_accepted:
  assumes "en_entity a = ''alert''"
    and "normalize_enrichments (en_strict a) (apply_dispose_on_new_alert (en_enrichments a) (en_dispose a)) = Inr n"
    and "snd (enrich_each p src t a fs out) = Inl err"
  shows "err = Db NotNull"
  using assms(3)
proof (induction fs arbitrary: out)
  case (Cons f fs)
  let ?a = "a\<lparr>en_fingerprint := f, en_produce := False\<rparr>"
  have "enrich_entity_impl p t ?a out = (case alert_write t ?a n (out_db out) of None \<Rightarrow> (out, Inl (Db NotNull))
     | Some db \<Rightarrow> if en_produce ?a \<and> \<not> p then (out\<lparr>out_db := db\<rparr>, Inl NoProducer) else (tell t ?a n (out\<lparr>out_db := db\<rparr>), Inr ()))"
    using assms(1,2) by (intro alert_write_passes) simp_all
  then have one: "snd (enrich_entity p src t 0 ?a out) = Inl e \<Longrightarrow> e = Db NotNull" for e
    by (auto simp: enrich_entity_def Let_def case_prod_unfold split: option.splits)
  obtain out' res where run: "enrich_entity p src t 0 ?a out = (out', res)" by (cases "enrich_entity p src t 0 ?a out")
  with one Cons show ?case by (cases res) auto
qed simp

text \<open>
  A batch that is refused writes nothing.  When a request to enrich many alerts is answered with a status of
  its own, for a filter that is not valid, for naming alerts both ways, or for an unknown key, no alert
  of the batch was written and no event was sent.
\<close>

theorem refused_batch_writes_nothing:
  assumes "batch_enrich_alerts str p src selected who fs cel e dispose out = (out', Refused code)"
  shows "out_db out' = out_db out \<and> out_events out' = out_events out"
proof -
  have run: "out_db out' = out_db out \<and> out_events out' = out_events out"
    if answered: "answer (\<lambda>out. (k out, Accepted)) (batch_enrich p src t fs ((enrich_call [] e ty w d)\<lparr>en_dispose := dispose\<rparr>) out) = (out', Refused code)"
      and nonempty: "fs \<noteq> []" for k t fs e ty w d
  proof -
    let ?a = "(enrich_call [] e ty w d)\<lparr>en_dispose := dispose\<rparr>"
    obtain err where err: "batch_enrich p src t fs ?a out = (out', Inl err)" "is_value_error err"
      using answered by (cases "snd (batch_enrich p src t fs ?a out)")
        (auto simp: answer_def case_prod_unfold prod_eq_iff split: if_splits)
    have entity: "en_entity ?a = ''alert''" by simp
    show ?thesis
    proof (cases "normalize_enrichments (en_strict ?a) (apply_dispose_on_new_alert (en_enrichments ?a) (en_dispose ?a))")
      case (Inl x)
      from each_refused [OF entity this nonempty, of p src t out] err(1) show ?thesis by (auto simp: batch_enrich_def)
    next
      case (Inr n)
      have "\<not> is_value_error x" if "snd (batch_enrich p src t fs ?a out) = Inl x" for x
        using that each_accepted [OF entity Inr, of p src t fs out] Inr
        by (auto simp: batch_enrich_def Let_def split: prod.splits sum.splits if_splits)
      with err show ?thesis by simp
    qed
  qed
  show ?thesis
  proof (cases "cel = []")
    case True
    with assms run show ?thesis
      by (auto simp: batch_enrich_alerts_def Let_def case_prod_unfold split: if_splits)
  next
    case False
    with assms run show ?thesis
      by (auto simp: batch_enrich_alerts_def Let_def case_prod_unfold split: if_splits option.splits)
  qed
qed

theorem refused_batch_writes_nothing_witness:
  "out_db (fst (batch_enrich_alerts sample_str True ''ui'' None sample_user [''f'', ''g''] [] [(''severity'', JStr ''low'')] False sample_outside))
     = out_db sample_outside"
proof -
  let ?r = "batch_enrich_alerts sample_str True ''ui'' None sample_user [''f'', ''g''] [] [(''severity'', JStr ''low'')] False sample_outside"
  have "snd ?r = Refused 422" by code_simp
  then have "?r = (fst ?r, Refused 422)" by (simp add: prod_eq_iff)
  from refused_batch_writes_nothing [OF this] show ?thesis by simp
qed

end
