(* ===== verification/Enrichment_Rules.thy ===== *)
theory Enrichment_Rules
  imports Enrichments_Bl
begin

text \<open>
  The extraction and mapping rules: the engine in \<open>src/src/services/enrichments_bl.py\<close> and the handlers of
  \<open>src/src/routes/mapping.py\<close> and \<open>src/src/routes/extraction.py\<close>.  Parameters are the packages the engine
  calls: regular expressions (\<open>None\<close> for a pattern that does not compile), the template engine with the
  decoding of entities, the evaluation of a condition (\<open>None\<close> when it raises), and the lenient JSON
  reader.  The alert is the mapping of its attributes; names with leading underscores aside.  The texts
  of log entries are left out.
\<close>

section \<open>Rules and what is around them\<close>

record mapping_rule =
  mr_id :: nat
  mr_tenant :: string
  mr_priority :: int
  mr_name :: string
  mr_description :: "string option"
  mr_file_name :: "string option"
  mr_created_by :: "string option"
  mr_updated_by :: "string option"
  mr_disabled :: bool
  mr_type :: string
  mr_matchers :: "string list list"
  mr_rows :: "enrichments list option"
  mr_multi_level :: bool
  mr_new_property :: "string option"
  mr_prefix :: "string option"

record extraction_rule =
  er_id :: nat
  er_tenant :: string
  er_priority :: int
  er_name :: string
  er_description :: "string option"
  er_created_by :: "string option"
  er_updated_by :: "string option"
  er_disabled :: bool
  er_pre :: bool
  er_condition :: "string option"
  er_attribute :: string
  er_regex :: string

datatype rule_error = Type_error | Attribute_error | Index_error | Value_error | Regex_error | Condition_error
  | Integrity_error | Status nat | Service service_error

type_synonym groups = "(string \<times> string option) list"

record rule_env =
  re_compile :: "string \<Rightarrow> (string \<Rightarrow> groups option) option"
  rendered :: "string \<Rightarrow> enrichments \<Rightarrow> string"
  condition_holds :: "string \<Rightarrow> enrichments \<Rightarrow> bool option"
  json5_loads :: "string \<Rightarrow> json option"
  settable :: "string \<Rightarrow> bool"
  enrichment_disabled :: bool
  producer_given :: bool
  source_name :: string

datatype enrichment_status = Success | Failure | Skipped
datatype enrichment_type = Mapping | Extraction

record enrichment_event =
  ee_tenant :: string
  ee_status :: enrichment_status
  ee_type :: enrichment_type
  ee_rule :: nat
  ee_alert :: string
  ee_fields :: enrichments

record rules_state =
  rs_mapping :: "mapping_rule list"
  rs_extraction :: "extraction_rule list"
  rs_events :: "enrichment_event list"
  rs_out :: outside

text \<open>An event is kept for an alert with a valid id.\<close>

definition is_valid_uuid :: "string \<Rightarrow> bool" where
  "is_valid_uuid s = (uuid_int s \<noteq> None)"

definition track_enrichment_event ::
  "string \<Rightarrow> string option \<Rightarrow> enrichment_status \<Rightarrow> enrichment_type \<Rightarrow> nat \<Rightarrow> enrichments \<Rightarrow> rules_state \<Rightarrow> rules_state" where
  "track_enrichment_event t alert_id st ty rule kept s = (case alert_id of None \<Rightarrow> s
     | Some i \<Rightarrow> if \<not> is_valid_uuid i then s
         else s\<lparr>rs_events := rs_events s @ [\<lparr>ee_tenant = t, ee_status = st, ee_type = ty, ee_rule = rule, ee_alert = i, ee_fields = kept\<rparr>]\<rparr>)"

section \<open>Reading attributes\<close>

text \<open>What \<open>getattr\<close> finds on the values of JSON beside data.\<close>

definition dict_methods :: "string list" where
  "dict_methods = [''clear'', ''copy'', ''fromkeys'', ''get'', ''items'', ''keys'', ''pop'', ''popitem'', ''setdefault'',
     ''update'', ''values'']"

definition list_methods :: "string list" where
  "list_methods = [''append'', ''clear'', ''copy'', ''count'', ''extend'', ''index'', ''insert'', ''pop'', ''remove'',
     ''reverse'', ''sort'']"

definition str_methods :: "string list" where
  "str_methods = [''capitalize'', ''casefold'', ''center'', ''count'', ''encode'', ''endswith'', ''expandtabs'', ''find'',
     ''format'', ''format_map'', ''index'', ''isalnum'', ''isalpha'', ''isascii'', ''isdecimal'', ''isdigit'',
     ''isidentifier'', ''islower'', ''isnumeric'', ''isprintable'', ''isspace'', ''istitle'', ''isupper'', ''join'',
     ''ljust'', ''lower'', ''lstrip'', ''maketrans'', ''partition'', ''removeprefix'', ''removesuffix'', ''replace'',
     ''rfind'', ''rindex'', ''rjust'', ''rpartition'', ''rsplit'', ''rstrip'', ''split'', ''splitlines'', ''startswith'',
     ''strip'', ''swapcase'', ''title'', ''translate'', ''upper'', ''zfill'']"

definition number_attributes :: "string list" where
  "number_attributes = [''as_integer_ratio'', ''conjugate'', ''imag'', ''real'']"

definition int_attributes :: "string list" where
  "int_attributes = [''bit_count'', ''bit_length'', ''denominator'', ''from_bytes'', ''numerator'', ''to_bytes'']"

definition float_attributes :: "string list" where
  "float_attributes = [''fromhex'', ''hex'', ''is_integer'']"

definition type_attribute :: "string \<Rightarrow> string list \<Rightarrow> json" where
  "type_attribute a names = (if a \<in> set names then JOther a else JNull)"

fun attribute_of :: "json \<Rightarrow> string \<Rightarrow> json" where
  "attribute_of (JObj kvs) a = (if a \<in> set dict_methods then JOther a else get_or_null kvs a)"
| "attribute_of (JList vs) a = type_attribute a list_methods"
| "attribute_of (JStr s) a = type_attribute a str_methods"
| "attribute_of (JInt i) a = type_attribute a (number_attributes @ int_attributes)"
| "attribute_of (JBool b) a = type_attribute a (number_attributes @ int_attributes)"
| "attribute_of (JFloat f) a = type_attribute a (number_attributes @ float_attributes)"
| "attribute_of v a = JNull"

fun walk :: "json \<Rightarrow> string list \<Rightarrow> json" where
  "walk v [] = v"
| "walk v (a # as) = (if v = JNull then JNull else walk (attribute_of v (py_replace ''@@'' ''.'' a)) as)"

definition get_nested_attribute :: "enrichments \<Rightarrow> string \<Rightarrow> json" where
  "get_nested_attribute alert path =
     (case (path = ''source'', get_or_null alert ''source'') of
        (True, JList (s # _)) \<Rightarrow> s
      | _ \<Rightarrow> (case py_split CHR ''.'' path of [] \<Rightarrow> JNull
           | a # as \<Rightarrow> walk (get_or_null alert (py_replace ''@@'' ''.'' a)) as))"

text \<open>With a list of paths: whether all of them are there.\<close>

definition has_nested_attributes :: "enrichments \<Rightarrow> string list \<Rightarrow> bool" where
  "has_nested_attributes alert paths = list_all (\<lambda>p. get_nested_attribute alert p \<noteq> JNull) paths"

section \<open>Mapping: what a row gives\<close>

definition is_match :: "rule_env \<Rightarrow> json \<Rightarrow> json \<Rightarrow> rule_error + bool" where
  "is_match env v pattern =
     (if v = JNull \<or> pattern = JNull then Inr False
      else case pattern of
          JStr p \<Rightarrow> (case re_compile env p of None \<Rightarrow> Inl Regex_error
            | Some search \<Rightarrow> (case v of JStr s \<Rightarrow> Inr (search s \<noteq> None) | _ \<Rightarrow> Inl Type_error))
        | _ \<Rightarrow> Inl Type_error)"

definition check_attribute :: "rule_env \<Rightarrow> enrichments \<Rightarrow> enrichments \<Rightarrow> string \<Rightarrow> rule_error + bool" where
  "check_attribute env alert row a =
     (let v = get_nested_attribute alert (py_strip a); w = get_or_null row (py_strip a)
      in rbind (is_match env v w) (\<lambda>m. Inr (m \<or> py_eq v w \<or> w = JStr ''*'')))"

fun all_attributes :: "(string \<Rightarrow> rule_error + bool) \<Rightarrow> string list \<Rightarrow> rule_error + bool" where
  "all_attributes f [] = Inr True"
| "all_attributes f (a # as) = rbind (f a) (\<lambda>b. if b then all_attributes f as else Inr False)"

definition check_matcher :: "rule_env \<Rightarrow> enrichments \<Rightarrow> enrichments \<Rightarrow> string list \<Rightarrow> rule_error + bool" where
  "check_matcher env alert row matcher =
     (case all_attributes (check_attribute env alert row) matcher of Inl Type_error \<Rightarrow> Inr False | r \<Rightarrow> r)"

fun any_matcher :: "(string list \<Rightarrow> rule_error + bool) \<Rightarrow> string list list \<Rightarrow> rule_error + bool" where
  "any_matcher f [] = Inr False"
| "any_matcher f (m # ms) = rbind (f m) (\<lambda>b. if b then Inr True else any_matcher f ms)"

fun strip_value :: "json \<Rightarrow> json" where
  "strip_value (JStr s) = JStr (py_strip s)"
| "strip_value v = v"

definition row_enrichments :: "string list list \<Rightarrow> enrichments \<Rightarrow> enrichments" where
  "row_enrichments matchers row = fold (\<lambda>(k, v) e.
     if v \<noteq> JNull \<and> \<not> list_ex (\<lambda>m. k \<in> set m) matchers then dict_set (py_strip k) (strip_value v) e else e) row []"

fun first_row :: "rule_env \<Rightarrow> enrichments \<Rightarrow> string list list \<Rightarrow> enrichments list \<Rightarrow> rule_error + enrichments" where
  "first_row env alert matchers [] = Inr []"
| "first_row env alert matchers (row # rows) =
     rbind (any_matcher (check_matcher env alert row) matchers)
       (\<lambda>b. if b then Inr (row_enrichments matchers row) else first_row env alert matchers rows)"

section \<open>Mapping on several levels\<close>

fun iterated :: "json \<Rightarrow> rule_error + json list" where
  "iterated (JList vs) = Inr vs"
| "iterated (JObj kvs) = Inr (map (\<lambda>kv. JStr (fst kv)) kvs)"
| "iterated (JStr s) = Inr (map (\<lambda>c. JStr [c]) s)"
| "iterated v = Inl Type_error"

definition remove_prefix :: "string option \<Rightarrow> json \<Rightarrow> rule_error + json" where
  "remove_prefix prefix v = (case prefix of
       Some (c # cs) \<Rightarrow> (case v of JStr s \<Rightarrow> Inr (JStr (py_replace (c # cs) [] s)) | _ \<Rightarrow> Inl Attribute_error)
     | _ \<Rightarrow> Inr v)"

definition check_explicit_match :: "enrichments \<Rightarrow> string \<Rightarrow> json \<Rightarrow> rule_error + bool" where
  "check_explicit_match row key v = (case v of
       JStr s \<Rightarrow> Inr (py_eq (get_or_null row (py_strip key)) (JStr (py_strip s))) | _ \<Rightarrow> Inl Attribute_error)"

fun explicit_row :: "string \<Rightarrow> json \<Rightarrow> enrichments list \<Rightarrow> rule_error + enrichments option" where
  "explicit_row key v [] = Inr None"
| "explicit_row key v (row # rows) =
     rbind (check_explicit_match row key v) (\<lambda>b. if b then Inr (Some row) else explicit_row key v rows)"

fun add_row :: "enrichments \<Rightarrow> enrichments \<Rightarrow> rule_error + enrichments" where
  "add_row [] d = Inr d"
| "add_row ((k, v) # row) d = (case v of
       JNull \<Rightarrow> add_row row d
     | JStr s \<Rightarrow> add_row row (dict_set (py_strip k) (JStr (py_strip s)) d)
     | _ \<Rightarrow> Inl Attribute_error)"

text \<open>What is gathered is a dict of dicts, under the names the alert carries.\<close>

type_synonym gathered = "(string, enrichments) pydict"

fun gather :: "mapping_rule \<Rightarrow> string \<Rightarrow> json list \<Rightarrow> gathered \<Rightarrow> rule_error + gathered" where
  "gather rule key [] g = Inr g"
| "gather rule key (v # vs) g =
     rbind (remove_prefix (mr_prefix rule) v) (\<lambda>v.
     rbind (case mr_rows rule of None \<Rightarrow> Inl Type_error | Some rows \<Rightarrow> explicit_row key v rows) (\<lambda>found.
       (case (found, v) of
          (Some row, JStr name) \<Rightarrow>
            rbind (add_row row (case dict_get g name of None \<Rightarrow> [] | Some d \<Rightarrow> d)) (\<lambda>d. gather rule key vs (dict_set name d g))
        | _ \<Rightarrow> gather rule key vs g)))"

definition multi_level_enrichments :: "rule_env \<Rightarrow> enrichments \<Rightarrow> mapping_rule \<Rightarrow> rule_error + enrichments" where
  "multi_level_enrichments env alert rule =
     (case mr_matchers rule of
        (key # _) # _ \<Rightarrow>
          (let v = get_nested_attribute alert key in
           if \<not> truthy v then Inr []
           else rbind (case v of JStr s \<Rightarrow> (case json5_loads env s of None \<Rightarrow> Inl Value_error | Some w \<Rightarrow> Inr w) | _ \<Rightarrow> Inr v) (\<lambda>v.
                rbind (iterated v) (\<lambda>vs.
                rbind (gather rule key vs []) (\<lambda>g.
                  if g = [] then Inr []
                  else case mr_new_property rule of None \<Rightarrow> Inl Attribute_error
                    | Some name \<Rightarrow> Inr [(name, JObj (map (\<lambda>(k, d). (k, JObj d)) g))]))))
      | _ \<Rightarrow> Inl Index_error)"

definition mapping_enrichments :: "rule_env \<Rightarrow> enrichments \<Rightarrow> mapping_rule \<Rightarrow> rule_error + enrichments" where
  "mapping_enrichments env alert rule =
     (if mr_type rule = ''csv''
      then if \<not> mr_multi_level rule
           then (case mr_rows rule of None \<Rightarrow> Inl Type_error | Some rows \<Rightarrow> first_row env alert (mr_matchers rule) rows)
           else multi_level_enrichments env alert rule
      else Inr [])"

section \<open>Applying the rules\<close>

fun set_attributes :: "rule_env \<Rightarrow> enrichments \<Rightarrow> enrichments \<Rightarrow> rule_error + enrichments" where
  "set_attributes env [] alert = Inr alert"
| "set_attributes env ((k, v) # e) alert =
     (if v = JNull then set_attributes env e alert
      else if \<not> settable env (py_strip k) then Inl Value_error
      else set_attributes env e (dict_set (py_strip k) (strip_value v) alert))"

definition text_of :: "enrichments \<Rightarrow> string \<Rightarrow> string option" where
  "text_of alert k = (case get_or_null alert k of JStr s \<Rightarrow> Some s | _ \<Rightarrow> None)"

text \<open>The engine's calls of \<open>enrich_entity\<close> pass the fingerprint and the enrichments by position.\<close>

definition enrich_by_rule :: "rule_env \<Rightarrow> string \<Rightarrow> string option \<Rightarrow> enrichments \<Rightarrow> action_type \<Rightarrow> string \<Rightarrow> rules_state \<Rightarrow> rules_state \<times> (rule_error + unit)" where
  "enrich_by_rule env t fp e ty about_text s =
     (let (out, res) = enrich_entity (producer_given env) (source_name env) t 2
          ((enrich_call (case fp of None \<Rightarrow> [] | Some f \<Rightarrow> f) e ty ''system'' about_text)\<lparr>en_should_exist := False, en_strict := False\<rparr>) (rs_out s)
      in (s\<lparr>rs_out := out\<rparr>, map_sum Service id res))"

text \<open>The alert is an object of the caller: its state afterwards is part of the result.\<close>

definition check_if_match_and_enrich ::
  "rule_env \<Rightarrow> string \<Rightarrow> enrichments \<Rightarrow> mapping_rule \<Rightarrow> rules_state \<Rightarrow> enrichments \<times> rules_state \<times> (rule_error + bool)" where
  "check_if_match_and_enrich env t alert rule s =
     (let track = (\<lambda>st kept. track_enrichment_event t (text_of alert ''id'') st Mapping (mr_id rule) kept) in
      if \<not> list_ex (\<lambda>m. m \<noteq> [] \<and> has_nested_attributes alert m) (mr_matchers rule)
      then (alert, track Skipped [] s, Inr False)
      else case mapping_enrichments env alert rule of
          Inl err \<Rightarrow> (alert, s, Inl err)
        | Inr e \<Rightarrow>
            if e = [] then (alert, track Failure [] s, Inr False)
            else case set_attributes env e alert of
                Inl err \<Rightarrow> (alert, s, Inl err)
              | Inr alert \<Rightarrow>
                  (case enrich_by_rule env t (text_of alert ''fingerprint'') e MAPPING_RULE_ENRICH
                      (''Alert enriched with mapping from rule `'' @ mr_name rule @ ''`'') s of
                     (s, Inl err) \<Rightarrow> (alert, s, Inl err)
                   | (s, Inr _) \<Rightarrow> (alert, track_enrichment_event t (text_of alert ''id'') Success Mapping (mr_id rule) e s, Inr True)))"

fun check_rules :: "rule_env \<Rightarrow> string \<Rightarrow> enrichments \<Rightarrow> mapping_rule list \<Rightarrow> rules_state \<Rightarrow> enrichments \<times> rules_state \<times> (rule_error + unit)" where
  "check_rules env t alert [] s = (alert, s, Inr ())"
| "check_rules env t alert (r # rs) s = (case check_if_match_and_enrich env t alert r s of
       (alert, s, Inl err) \<Rightarrow> (alert, s, Inl err)
     | (alert, s, Inr _) \<Rightarrow> check_rules env t alert rs s)"

definition run_mapping_rules :: "rule_env \<Rightarrow> string \<Rightarrow> enrichments \<Rightarrow> rules_state \<Rightarrow> enrichments \<times> rules_state \<times> (rule_error + unit)" where
  "run_mapping_rules env t alert s =
     (if enrichment_disabled env then (alert, s, Inr ())
      else check_rules env t alert
        (sort_key (\<lambda>r. - mr_priority r) (filter (\<lambda>r. mr_tenant r = t \<and> \<not> mr_disabled r) (rs_mapping s))) s)"

definition get_mapping_rule_by_id :: "string \<Rightarrow> nat \<Rightarrow> rules_state \<Rightarrow> mapping_rule option" where
  "get_mapping_rule_by_id t i s = find (\<lambda>r. mr_tenant r = t \<and> mr_id r = i) (rs_mapping s)"

definition get_extraction_rule_by_id :: "string \<Rightarrow> nat \<Rightarrow> rules_state \<Rightarrow> extraction_rule option" where
  "get_extraction_rule_by_id t i s = find (\<lambda>r. er_tenant r = t \<and> er_id r = i) (rs_extraction s)"

text \<open>The alert of the chosen id is looked up by the caller's tenant; \<open>None\<close> when there is none.\<close>

definition run_mapping_rule_by_id ::
  "rule_env \<Rightarrow> string \<Rightarrow> nat \<Rightarrow> enrichments option \<Rightarrow> rules_state \<Rightarrow> rules_state \<times> (rule_error + bool)" where
  "run_mapping_rule_by_id env t i alert s = (case get_mapping_rule_by_id t i s of
       None \<Rightarrow> (s, Inl (Status 404))
     | Some rule \<Rightarrow> (case alert of None \<Rightarrow> (s, Inl (Status 404))
         | Some alert \<Rightarrow> (case check_if_match_and_enrich env t alert rule s of (_, s, r) \<Rightarrow> (s, r))))"

section \<open>Extraction\<close>

definition extraction_template :: "string \<Rightarrow> string" where
  "extraction_template a = (if \<not> prefixed ''{{'' a \<and> \<not> suffixed ''}}'' a then ''{{ '' @ a @ '' }}'' else a)"

definition no_condition :: "string option \<Rightarrow> bool" where
  "no_condition c = (c = None \<or> c = Some ''*'' \<or> c = Some [])"

definition match_dict :: "groups \<Rightarrow> enrichments" where
  "match_dict gs = dict_del ''source'' (map (\<lambda>(k, v). (k, case v of None \<Rightarrow> JNull | Some s \<Rightarrow> JStr s)) gs)"

fun extract_each ::
  "rule_env \<Rightarrow> string \<Rightarrow> string option \<Rightarrow> string option \<Rightarrow> extraction_rule list \<Rightarrow> enrichments \<Rightarrow> rules_state \<Rightarrow> rules_state \<times> (rule_error + enrichments)" where
  "extract_each env t fp eid [] event s = (s, Inr event)"
| "extract_each env t fp eid (r # rs) event s =
     (let skip = track_enrichment_event t eid Skipped Extraction (er_id r) [];
          v = rendered env (extraction_template (er_attribute r)) event
      in if v = [] then extract_each env t fp eid rs event (skip s)
         else case (if no_condition (er_condition r) then Some True
                    else condition_holds env (case er_condition r of None \<Rightarrow> [] | Some c \<Rightarrow> c) event) of
             None \<Rightarrow> (s, Inl Condition_error)
           | Some False \<Rightarrow> extract_each env t fp eid rs event (skip s)
           | Some True \<Rightarrow>
               (case re_compile env (er_regex r) of
                  None \<Rightarrow> (s, Inl Regex_error)
                | Some search \<Rightarrow>
                    (case search v of
                       None \<Rightarrow> extract_each env t fp eid rs event (skip s)
                     | Some gs \<Rightarrow>
                         (let e = match_dict gs; event = dict_merge event e in
                          case enrich_by_rule env t fp e EXTRACTION_RULE_ENRICH
                              (''Alert enriched with extraction from rule `'' @ er_name r @ ''`'') s of
                            (s, Inl err) \<Rightarrow> (s, Inl err)
                          | (s, Inr _) \<Rightarrow> extract_each env t fp eid rs event
                              (track_enrichment_event t eid Success Extraction (er_id r) e s)))))"

definition run_extraction_rules ::
  "rule_env \<Rightarrow> string \<Rightarrow> enrichments \<Rightarrow> bool \<Rightarrow> extraction_rule list \<Rightarrow> rules_state \<Rightarrow> rules_state \<times> (rule_error + enrichments)" where
  "run_extraction_rules env t event pre chosen s =
     (if enrichment_disabled env then (s, Inr event)
      else let eid = text_of event ''event_id'';
               rules = (if chosen \<noteq> [] then chosen
                 else sort_key (\<lambda>r. - er_priority r) (filter (\<lambda>r. er_tenant r = t \<and> \<not> er_disabled r \<and> er_pre r = pre) (rs_extraction s)))
           in if rules = [] then (track_enrichment_event t eid Skipped Extraction 0 [] s, Inr event)
              else extract_each env t (text_of event ''fingerprint'') eid rules event s)"

definition run_extraction_rule_by_id ::
  "rule_env \<Rightarrow> string \<Rightarrow> nat \<Rightarrow> string \<Rightarrow> enrichments \<Rightarrow> rules_state \<Rightarrow> rules_state \<times> (rule_error + enrichments)" where
  "run_extraction_rule_by_id env t i alert_id alert s = (case get_extraction_rule_by_id t i s of
       None \<Rightarrow> (s, Inl (Status 404))
     | Some r \<Rightarrow> run_extraction_rules env t (dict_set ''event_id'' (JStr alert_id) alert) False [r] s)"

section \<open>The routes\<close>

text \<open>A request body as its class accepts it: the checks see the fields declared before theirs.\<close>

record mapping_dto =
  md_name :: string
  md_description :: "string option"
  md_file_name :: "string option"
  md_priority :: int
  md_matchers :: "string list list"
  md_type :: string
  md_multi_level :: bool
  md_new_property :: "string option"
  md_prefix :: "string option"
  md_rows :: "enrichments list option"

definition validate_matchers :: "bool option \<Rightarrow> string list list \<Rightarrow> bool" where
  "validate_matchers multi v = (\<not> (multi = Some True \<and> 1 < length v))"

definition validate_new_property_name :: "bool option \<Rightarrow> string option \<Rightarrow> bool" where
  "validate_new_property_name multi v = (case v of None \<Rightarrow> True | Some s \<Rightarrow> \<not> (multi = Some True \<and> s = []))"

definition validate_rows :: "string \<Rightarrow> enrichments list option \<Rightarrow> bool" where
  "validate_rows ty rows = (\<not> ((rows = None \<or> rows = Some []) \<and> ty = ''csv''))"

definition valid_base :: "mapping_dto \<Rightarrow> bool" where
  "valid_base d = (validate_matchers None (md_matchers d) \<and> md_type d \<in> {''csv'', ''topology''} \<and>
     validate_new_property_name (Some (md_multi_level d)) (md_new_property d))"

definition valid_new :: "mapping_dto \<Rightarrow> bool" where
  "valid_new d = (valid_base d \<and> validate_rows (md_type d) (md_rows d))"

definition new_mapping_rule :: "nat \<Rightarrow> entity \<Rightarrow> mapping_dto \<Rightarrow> mapping_rule" where
  "new_mapping_rule i who d = \<lparr>mr_id = i, mr_tenant = tenant_id who, mr_priority = md_priority d, mr_name = md_name d,
     mr_description = md_description d, mr_file_name = md_file_name d, mr_created_by = Some (email who), mr_updated_by = None,
     mr_disabled = False, mr_type = md_type d, mr_matchers = md_matchers d, mr_rows = md_rows d,
     mr_multi_level = md_multi_level d, mr_new_property = md_new_property d, mr_prefix = md_prefix d\<rparr>"

text \<open>The database numbers the rows.\<close>

definition next_id :: "nat list \<Rightarrow> nat" where
  "next_id ids = Suc (foldr max ids 0)"

definition create_mapping_rule :: "entity \<Rightarrow> mapping_dto \<Rightarrow> rules_state \<Rightarrow> rules_state \<times> (rule_error + mapping_rule)" where
  "create_mapping_rule who d s =
     (if \<not> valid_new d then (s, Inl (Status 422))
      else if md_name d = [] \<or> md_matchers d = [] then (s, Inl (Status 400))
      else let r = new_mapping_rule (next_id (map mr_id (rs_mapping s))) who d
           in (s\<lparr>rs_mapping := rs_mapping s @ [r]\<rparr>, Inr r))"

definition delete_mapping_rule :: "entity \<Rightarrow> nat \<Rightarrow> rules_state \<Rightarrow> rules_state \<times> (rule_error + unit)" where
  "delete_mapping_rule who i s = (case get_mapping_rule_by_id (tenant_id who) i s of
       None \<Rightarrow> (s, Inl (Status 404))
     | Some r \<Rightarrow> (s\<lparr>rs_mapping := filter (\<lambda>x. mr_id x \<noteq> mr_id r) (rs_mapping s)\<rparr>, Inr ()))"

text \<open>The columns of an alert the list of rules shows for the first row.\<close>

definition TopologyService_fields :: "string list" where
  "TopologyService_fields = [''id'', ''tenant_id'', ''source_provider_id'', ''repository'', ''tags'', ''service'', ''environment'',
     ''display_name'', ''description'', ''team'', ''email'', ''slack'', ''ip_address'', ''mac_address'', ''category'',
     ''manufacturer'', ''namespace'', ''is_manual'', ''updated_at'']"

definition rule_attributes :: "mapping_rule \<Rightarrow> rule_error + string list" where
  "rule_attributes r =
     (if mr_type r = ''csv'' then (case mr_rows r of None \<Rightarrow> Inl Type_error | Some [] \<Rightarrow> Inl Index_error
        | Some (row # _) \<Rightarrow> Inr (filter (\<lambda>k. \<not> list_ex (\<lambda>m. k \<in> set m) (mr_matchers r)) (dict_keys row)))
      else if mr_type r = ''topology'' then Inr (filter (\<lambda>k. k \<noteq> ''tenant_id'' \<and> k \<noteq> ''id'') TopologyService_fields)
      else Inr [])"

definition get_mapping_rules :: "entity \<Rightarrow> rules_state \<Rightarrow> rule_error + (mapping_rule \<times> string list) list" where
  "get_mapping_rules who s = traverse (\<lambda>r. rbind (rule_attributes r) (\<lambda>as. Inr (r, as)))
     (filter (\<lambda>r. mr_tenant r = tenant_id who) (rs_mapping s))"

definition get_mapping_rule :: "entity \<Rightarrow> nat \<Rightarrow> rules_state \<Rightarrow> rule_error + mapping_rule" where
  "get_mapping_rule who i s = option_res (Status 404) (get_mapping_rule_by_id (tenant_id who) i s)"

definition get_extraction_rules :: "entity \<Rightarrow> rules_state \<Rightarrow> extraction_rule list" where
  "get_extraction_rules who s = filter (\<lambda>r. er_tenant r = tenant_id who) (rs_extraction s)"

text \<open>An update answers after the commit, with all keys of the first row: a key is never a group of keys.\<close>

definition update_mapping_rule :: "entity \<Rightarrow> nat \<Rightarrow> mapping_dto \<Rightarrow> rules_state \<Rightarrow> rules_state \<times> (rule_error + (mapping_rule \<times> string list))" where
  "update_mapping_rule who i d s =
     (if \<not> valid_base d then (s, Inl (Status 422))
      else case get_mapping_rule_by_id (tenant_id who) i s of
        None \<Rightarrow> (s, Inl (Status 404))
      | Some r \<Rightarrow>
          let r' = r\<lparr>mr_name := md_name d, mr_description := md_description d, mr_matchers := md_matchers d,
                mr_file_name := md_file_name d, mr_priority := md_priority d, mr_updated_by := Some (email who),
                mr_rows := (case md_rows d of None \<Rightarrow> mr_rows r | Some rows \<Rightarrow> Some rows)\<rparr>;
              s = s\<lparr>rs_mapping := map (\<lambda>x. if mr_id x = mr_id r then r' else x) (rs_mapping s)\<rparr>
          in (s, case md_rows d of None \<Rightarrow> Inr (r', []) | Some [] \<Rightarrow> Inl Index_error | Some (row # _) \<Rightarrow> Inr (r', dict_keys row)))"

text \<open>The body of an extraction rule: \<open>None\<close> for a field that was not set.\<close>

record extraction_dto =
  ed_name :: string
  ed_description :: "string option option"
  ed_priority :: "int option"
  ed_attribute :: "string option option"
  ed_condition :: "string option option"
  ed_disabled :: "bool option"
  ed_regex :: string
  ed_pre :: "bool option"

definition or_set :: "'a option \<Rightarrow> 'a \<Rightarrow> 'a" where
  "or_set x d = (case x of None \<Rightarrow> d | Some v \<Rightarrow> v)"

definition create_extraction_rule :: "entity \<Rightarrow> extraction_dto \<Rightarrow> rules_state \<Rightarrow> rules_state \<times> (rule_error + extraction_rule)" where
  "create_extraction_rule who d s = (case or_set (ed_attribute d) None of
       None \<Rightarrow> (s, Inl Integrity_error)
     | Some a \<Rightarrow>
         let r = \<lparr>er_id = next_id (map er_id (rs_extraction s)), er_tenant = tenant_id who, er_priority = or_set (ed_priority d) 0,
               er_name = ed_name d, er_description = or_set (ed_description d) None, er_created_by = Some (email who), er_updated_by = None,
               er_disabled = or_set (ed_disabled d) False, er_pre = or_set (ed_pre d) False,
               er_condition = or_set (ed_condition d) None, er_attribute = a, er_regex = ed_regex d\<rparr>
         in (s\<lparr>rs_extraction := rs_extraction s @ [r]\<rparr>, Inr r))"

definition update_extraction_rule :: "entity \<Rightarrow> nat \<Rightarrow> extraction_dto \<Rightarrow> rules_state \<Rightarrow> rules_state \<times> (rule_error + extraction_rule)" where
  "update_extraction_rule who i d s = (case get_extraction_rule_by_id (tenant_id who) i s of
       None \<Rightarrow> (s, Inl (Status 404))
     | Some r \<Rightarrow> (case or_set (ed_attribute d) (Some (er_attribute r)) of
           None \<Rightarrow> (s, Inl Integrity_error)
         | Some a \<Rightarrow>
             let r' = r\<lparr>er_name := ed_name d, er_description := or_set (ed_description d) (er_description r),
                   er_priority := or_set (ed_priority d) (er_priority r), er_attribute := a,
                   er_condition := or_set (ed_condition d) (er_condition r), er_disabled := or_set (ed_disabled d) (er_disabled r),
                   er_regex := ed_regex d, er_pre := or_set (ed_pre d) (er_pre r), er_updated_by := Some (email who)\<rparr>
             in (s\<lparr>rs_extraction := map (\<lambda>x. if er_id x = er_id r then r' else x) (rs_extraction s)\<rparr>, Inr r')))"

definition delete_extraction_rule :: "entity \<Rightarrow> nat \<Rightarrow> rules_state \<Rightarrow> rules_state \<times> (rule_error + unit)" where
  "delete_extraction_rule who i s = (case get_extraction_rule_by_id (tenant_id who) i s of
       None \<Rightarrow> (s, Inl (Status 404))
     | Some r \<Rightarrow> (s\<lparr>rs_extraction := filter (\<lambda>x. er_id x \<noteq> er_id r) (rs_extraction s)\<rparr>, Inr ()))"

text \<open>Executing a rule against a stored alert.  The extraction route looks the alert up first.\<close>

definition execute_mapping_rule :: "rule_env \<Rightarrow> entity \<Rightarrow> nat \<Rightarrow> enrichments option \<Rightarrow> rules_state \<Rightarrow> rules_state \<times> (rule_error + unit)" where
  "execute_mapping_rule env who i alert s = apsnd (map_sum id (\<lambda>_. ())) (run_mapping_rule_by_id env (tenant_id who) i alert s)"

definition execute_extraction_rule ::
  "rule_env \<Rightarrow> entity \<Rightarrow> nat \<Rightarrow> string \<Rightarrow> enrichments option \<Rightarrow> rules_state \<Rightarrow> rules_state \<times> (rule_error + unit)" where
  "execute_extraction_rule env who i alert_id alert s = (case alert of None \<Rightarrow> (s, Inl (Status 404))
     | Some a \<Rightarrow> apsnd (map_sum id (\<lambda>_. ())) (run_extraction_rule_by_id env (tenant_id who) i alert_id a s))"

text \<open>What the routes show of a rule's executions.\<close>

definition get_enrichment_events :: "entity \<Rightarrow> enrichment_type \<Rightarrow> nat \<Rightarrow> nat \<Rightarrow> nat \<Rightarrow> rules_state \<Rightarrow> nat \<times> enrichment_event list" where
  "get_enrichment_events who ty i limit offset s =
     (let es = filter (\<lambda>e. ee_rule e = i \<and> ee_tenant e = tenant_id who \<and> ee_type e = ty) (rs_events s)
      in (length es, take limit (drop offset (rev es))))"

section \<open>The first matching row\<close>

definition patterns_compile :: "rule_env \<Rightarrow> string list list \<Rightarrow> enrichments \<Rightarrow> bool" where
  "patterns_compile env matchers row = list_all (list_all (\<lambda>a.
     case get_or_null row (py_strip a) of JStr p \<Rightarrow> re_compile env p \<noteq> None | _ \<Rightarrow> True)) matchers"

definition accepts :: "rule_env \<Rightarrow> enrichments \<Rightarrow> enrichments \<Rightarrow> string \<Rightarrow> bool" where
  "accepts env alert row a = (check_attribute env alert row a = Inr True)"

definition selects :: "rule_env \<Rightarrow> enrichments \<Rightarrow> string list list \<Rightarrow> enrichments \<Rightarrow> bool" where
  "selects env alert matchers row = list_ex (list_all (accepts env alert row)) matchers"

lemma check_attribute_errors:
  assumes "case get_or_null row (py_strip a) of JStr p \<Rightarrow> re_compile env p \<noteq> None | _ \<Rightarrow> True"
  shows "check_attribute env alert row a = Inl e \<Longrightarrow> e = Type_error"
  using assms by (auto simp: check_attribute_def is_match_def Let_def rbind_eq_Inl split: if_splits json.splits option.splits)

lemma check_matcher_accepts:
  assumes "list_all (\<lambda>a. case get_or_null row (py_strip a) of JStr p \<Rightarrow> re_compile env p \<noteq> None | _ \<Rightarrow> True) m"
  shows "check_matcher env alert row m = Inr (list_all (accepts env alert row) m)"
proof -
  have "all_attributes (check_attribute env alert row) m \<in> {Inr (list_all (accepts env alert row) m), Inl Type_error} \<and>
      (all_attributes (check_attribute env alert row) m = Inl Type_error \<longrightarrow> \<not> list_all (accepts env alert row) m)"
    using assms
  proof (induction m)
    case (Cons a m)
    show ?case
    proof (cases "check_attribute env alert row a")
      case (Inl e)
      with Cons.prems have "e = Type_error" using check_attribute_errors [where row = row and a = a and env = env and alert = alert and e = e] by simp
      with Inl show ?thesis by (simp add: accepts_def)
    next
      case (Inr b)
      with Cons show ?thesis by (cases b) (auto simp: accepts_def)
    qed
  qed simp
  then show ?thesis by (auto simp: check_matcher_def)
qed

lemma any_matcher_selects:
  "patterns_compile env matchers row \<Longrightarrow> any_matcher (check_matcher env alert row) matchers = Inr (selects env alert matchers row)"
  by (induction matchers) (auto simp: patterns_compile_def selects_def check_matcher_accepts)

text \<open>
  A mapping rule takes the first row that matches.  With patterns that compile, the alert gets what the first row
  gives for which all columns of some group of matchers accept the alert, and nothing when there is none.
\<close>

theorem first_matching_row_is_taken:
  assumes "mr_type rule = ''csv''" and "\<not> mr_multi_level rule" and "mr_rows rule = Some rows"
    and "\<forall>row \<in> set rows. patterns_compile env (mr_matchers rule) row"
  shows "mapping_enrichments env alert rule =
    Inr (case find (selects env alert (mr_matchers rule)) rows of None \<Rightarrow> [] | Some row \<Rightarrow> row_enrichments (mr_matchers rule) row)"
proof -
  have "first_row env alert (mr_matchers rule) rows =
      Inr (case find (selects env alert (mr_matchers rule)) rows of None \<Rightarrow> [] | Some row \<Rightarrow> row_enrichments (mr_matchers rule) row)"
    using assms(4) by (induction rows) (simp_all add: any_matcher_selects)
  with assms(1-3) show ?thesis by (simp add: mapping_enrichments_def)
qed

lemma row_enrichments_keys:
  "set (dict_keys (row_enrichments matchers row)) =
    {py_strip k |k v. (k, v) \<in> set row \<and> v \<noteq> JNull \<and> \<not> list_ex (\<lambda>m. k \<in> set m) matchers}"
proof -
  have "set (dict_keys (fold (\<lambda>(k, v) e. if v \<noteq> JNull \<and> \<not> list_ex (\<lambda>m. k \<in> set m) matchers
        then dict_set (py_strip k) (strip_value v) e else e) row e)) =
      set (dict_keys e) \<union> {py_strip k |k v. (k, v) \<in> set row \<and> v \<noteq> JNull \<and> \<not> list_ex (\<lambda>m. k \<in> set m) matchers}" for e
  proof (induction row arbitrary: e)
    case (Cons kv row)
    obtain k v where "kv = (k, v)" by (cases kv)
    then show ?case by (auto simp: Cons.IH dict_keys_set)
  qed simp
  then show ?thesis by (simp add: row_enrichments_def dict_keys_def)
qed

text \<open>
  A cell \<open>*\<close> is meant to accept everything, but it is tried as a pattern first, and it is none: where the
  alert has a text the check raises.
\<close>

lemma wildcard_raises:
  assumes "re_compile env ''*'' = None" and "get_or_null row (py_strip a) = JStr ''*''"
    and "get_nested_attribute alert (py_strip a) \<noteq> JNull"
  shows "check_attribute env alert row a = Inl Regex_error"
  using assms by (simp add: check_attribute_def is_match_def)

text \<open>A sample: patterns are plain texts to be found.\<close>

definition plain_env :: rule_env where
  "plain_env = \<lparr>re_compile = (\<lambda>p. if p = ''*'' then None else Some (\<lambda>s. if list_ex (\<lambda>i. prefixed p (drop i s)) [0..<Suc (length s)] then Some [] else None)),
     rendered = (\<lambda>_ _. ''web-1''), condition_holds = (\<lambda>_ _. Some True), json5_loads = json_loads, settable = (\<lambda>_. True),
     enrichment_disabled = False, producer_given = True, source_name = ''api''\<rparr>"

definition team_rule :: mapping_rule where
  "team_rule = \<lparr>mr_id = 1, mr_tenant = ''t'', mr_priority = 0, mr_name = ''teams'', mr_description = None, mr_file_name = None,
     mr_created_by = None, mr_updated_by = None, mr_disabled = False, mr_type = ''csv'', mr_matchers = [[''service'']],
     mr_rows = Some [[(''service'', JStr ''db''), (''team'', JStr ''data'')], [(''service'', JStr ''web''), (''team'', JStr '' ops ''), (''lead'', JNull)]],
     mr_multi_level = False, mr_new_property = None, mr_prefix = None\<rparr>"

definition web_alert :: enrichments where
  "web_alert = [(''fingerprint'', JStr ''f''), (''service'', JStr ''web-1'')]"

theorem first_matching_row_is_taken_witness:
  "mapping_enrichments plain_env web_alert team_rule = Inr [(''team'', JStr ''ops'')]"
proof -
  obtain rows where rows: "mr_rows team_rule = Some rows" "\<forall>row \<in> set rows. patterns_compile plain_env (mr_matchers team_rule) row"
    "(case find (selects plain_env web_alert (mr_matchers team_rule)) rows of None \<Rightarrow> [] | Some row \<Rightarrow> row_enrichments (mr_matchers team_rule) row)
       = [(''team'', JStr ''ops'')]"
  proof
    let ?rows = "[[(''service'', JStr ''db''), (''team'', JStr ''data'')], [(''service'', JStr ''web''), (''team'', JStr '' ops ''), (''lead'', JNull)]]"
    show "mr_rows team_rule = Some ?rows" by (simp add: team_rule_def)
    show "\<forall>row \<in> set ?rows. patterns_compile plain_env (mr_matchers team_rule) row" by code_simp
    show "(case find (selects plain_env web_alert (mr_matchers team_rule)) ?rows of None \<Rightarrow> [] | Some row \<Rightarrow> row_enrichments (mr_matchers team_rule) row)
       = [(''team'', JStr ''ops'')]" by code_simp
  qed
  have "mr_type team_rule = ''csv''" "\<not> mr_multi_level team_rule" by (simp_all add: team_rule_def)
  from first_matching_row_is_taken [OF this rows(1,2), of web_alert] rows(3) show ?thesis by simp
qed

section \<open>A rule that matches raises\<close>

lemma enrich_by_rule_raises [simp]: "enrich_by_rule env t fp e ty d s = (s, Inl (Service TypeErr))"
  by (simp add: enrich_by_rule_def enrich_entity_def)

lemma track_out [simp]: "rs_out (track_enrichment_event t i st ty r kept s) = rs_out s"
  by (simp add: track_enrichment_event_def split: option.split)

lemma matching_rule_raises:
  assumes "list_ex (\<lambda>m. m \<noteq> [] \<and> has_nested_attributes alert m) (mr_matchers rule)"
    and "mapping_enrichments env alert rule = Inr e" and "e \<noteq> []" and "set_attributes env e alert = Inr alert'"
  shows "check_if_match_and_enrich env t alert rule s = (alert', s, Inl (Service TypeErr))"
  using assms by (simp add: check_if_match_and_enrich_def)

lemma mapping_never_enriches:
  "rs_out (fst (snd (check_if_match_and_enrich env t alert rule s))) = rs_out s"
  "check_if_match_and_enrich env t alert rule s = (alert', s', Inr b) \<Longrightarrow> \<not> b \<and> alert' = alert"
  by (auto simp: check_if_match_and_enrich_def Let_def split: if_splits sum.splits)

lemma extraction_never_enriches:
  "rs_out (fst (extract_each env t fp eid rs event s)) = rs_out s \<and>
    (\<forall>e. snd (extract_each env t fp eid rs event s) = Inr e \<longrightarrow> e = event)"
  by (induction rs arbitrary: s) (auto simp: Let_def split: option.split bool.split)

text \<open>
  C22: no rule ever enriches an alert.  The engine passes the fingerprint and the enrichments by position to a
  function that takes only named arguments, so whatever the rules and the alert are, applying them
  stores no enrichment and no audit entry, sends nothing and counts nothing (\<open>rs_out\<close>; only the log of rule
  executions grows, by the rules that were skipped or failed), and when it ends without an exception the
  alert is as it was.
\<close>

theorem rules_never_enrich:
  assumes "run_extraction_rules env t event pre chosen s = (s1, r1)" and "check_if_match_and_enrich env t alert rule s = (alert2, s2, r2)"
  shows "rs_out s1 = rs_out s \<and> rs_out s2 = rs_out s \<and> (is_ok r1 \<longrightarrow> r1 = Inr event) \<and> (is_ok r2 \<longrightarrow> r2 = Inr False \<and> alert2 = alert)"
proof -
  have "rs_out s1 = rs_out s \<and> (\<forall>e. r1 = Inr e \<longrightarrow> e = event)"
    using assms(1) extraction_never_enriches [where env = env and t = t and event = event and s = s]
    by (auto simp: run_extraction_rules_def Let_def prod_eq_iff split: if_splits)
  moreover have "rs_out s2 = rs_out s" using mapping_never_enriches(1) [of env t alert rule s] assms(2) by simp
  moreover have "\<forall>b. r2 = Inr b \<longrightarrow> \<not> b \<and> alert2 = alert" using mapping_never_enriches(2) assms(2) by blast
  ultimately show ?thesis by (auto simp: is_ok_iff)
qed

definition no_rules :: rules_state where
  "no_rules = \<lparr>rs_mapping = [], rs_extraction = [], rs_events = [], rs_out = sample_outside\<rparr>"

theorem rules_never_enrich_witness:
  "\<exists>s. check_if_match_and_enrich plain_env ''t'' web_alert team_rule no_rules =
     ([(''fingerprint'', JStr ''f''), (''service'', JStr ''web-1''), (''team'', JStr ''ops'')], s, Inl (Service TypeErr)) \<and> rs_out s = sample_outside"
proof -
  have "list_ex (\<lambda>m. m \<noteq> [] \<and> has_nested_attributes web_alert m) (mr_matchers team_rule)"
    "mapping_enrichments plain_env web_alert team_rule = Inr [(''team'', JStr ''ops'')]"
    "set_attributes plain_env [(''team'', JStr ''ops'')] web_alert =
       Inr [(''fingerprint'', JStr ''f''), (''service'', JStr ''web-1''), (''team'', JStr ''ops'')]" by code_simp+
  from matching_rule_raises [OF this(1,2) _ this(3), of "''t''" no_rules]
  have run: "check_if_match_and_enrich plain_env ''t'' web_alert team_rule no_rules =
     ([(''fingerprint'', JStr ''f''), (''service'', JStr ''web-1''), (''team'', JStr ''ops'')], no_rules, Inl (Service TypeErr))" by simp
  have none: "run_extraction_rules plain_env ''t'' web_alert False [] no_rules = (no_rules, Inr web_alert)"
    by (simp add: run_extraction_rules_def no_rules_def plain_env_def text_of_def web_alert_def get_or_null_def dict_get_def track_enrichment_event_def)
  from rules_never_enrich [OF none run] run show ?thesis by (simp add: no_rules_def)
qed

section \<open>Tenants do not touch each other's rules\<close>

datatype rule_call =
    Create_mapping entity mapping_dto
  | Update_mapping entity nat mapping_dto
  | Delete_mapping entity nat
  | Execute_mapping entity nat "enrichments option"
  | Create_extraction entity extraction_dto
  | Update_extraction entity nat extraction_dto
  | Delete_extraction entity nat
  | Execute_extraction entity nat string "enrichments option"

fun caller :: "rule_call \<Rightarrow> entity" where
  "caller (Create_mapping who _) = who"
| "caller (Update_mapping who _ _) = who"
| "caller (Delete_mapping who _) = who"
| "caller (Execute_mapping who _ _) = who"
| "caller (Create_extraction who _) = who"
| "caller (Update_extraction who _ _) = who"
| "caller (Delete_extraction who _) = who"
| "caller (Execute_extraction who _ _ _) = who"

fun serve_rule :: "rule_env \<Rightarrow> rule_call \<Rightarrow> rules_state \<Rightarrow> rules_state" where
  "serve_rule env (Create_mapping who d) s = fst (create_mapping_rule who d s)"
| "serve_rule env (Update_mapping who i d) s = fst (update_mapping_rule who i d s)"
| "serve_rule env (Delete_mapping who i) s = fst (delete_mapping_rule who i s)"
| "serve_rule env (Execute_mapping who i alert) s = fst (execute_mapping_rule env who i alert s)"
| "serve_rule env (Create_extraction who d) s = fst (create_extraction_rule who d s)"
| "serve_rule env (Update_extraction who i d) s = fst (update_extraction_rule who i d s)"
| "serve_rule env (Delete_extraction who i) s = fst (delete_extraction_rule who i s)"
| "serve_rule env (Execute_extraction who i aid alert) s = fst (execute_extraction_rule env who i aid alert s)"

text \<open>The numbers of the rules name them.\<close>

definition numbered :: "rules_state \<Rightarrow> bool" where
  "numbered s = (distinct (map mr_id (rs_mapping s)) \<and> distinct (map er_id (rs_extraction s)))"

definition rules_of :: "rules_state \<Rightarrow> string \<Rightarrow> mapping_rule list \<times> extraction_rule list \<times> enrichment_event list \<times> outside" where
  "rules_of s t = (filter (\<lambda>r. mr_tenant r = t) (rs_mapping s), filter (\<lambda>r. er_tenant r = t) (rs_extraction s),
     filter (\<lambda>e. ee_tenant e = t) (rs_events s), rs_out s)"

lemma next_id_fresh: "next_id ids \<notin> set ids"
proof -
  have "i \<in> set ids \<Longrightarrow> i \<le> foldr max ids 0" for i :: nat by (induction ids) auto
  from this [of "next_id ids"] show ?thesis by (auto simp: next_id_def)
qed

text \<open>A table whose rows are numbered: replacing or dropping the row of a number leaves the other tenants' rows.\<close>

lemma replaced_numbers: "rid r' = i \<Longrightarrow> map (rid \<circ> (\<lambda>x. if rid x = i then r' else x)) rows = map rid rows"
  by simp

lemma others_row:
  assumes "distinct (map rid rows)" and "r \<in> set rows" and "ten r \<noteq> t" and "x \<in> set rows" and "rid x = rid r"
  shows "ten x \<noteq> t"
  using assms by (metis distinct_map inj_onD)

lemma replaced_others:
  assumes "distinct (map rid rows)" and "r \<in> set rows" and "ten r \<noteq> t" and "ten r' \<noteq> t"
  shows "filter (\<lambda>x. ten x = t) (map (\<lambda>x. if rid x = rid r then r' else x) rows) = filter (\<lambda>x. ten x = t) rows"
proof -
  have "\<forall>x \<in> set rows. rid x = rid r \<longrightarrow> ten x \<noteq> t" using others_row [of rid rows r ten t] assms by blast
  then show ?thesis using assms(4) by (induction rows) auto
qed

lemma dropped_others:
  assumes "distinct (map rid rows)" and "r \<in> set rows" and "ten r \<noteq> t"
  shows "filter (\<lambda>x. ten x = t) (filter (\<lambda>x. rid x \<noteq> rid r) rows) = filter (\<lambda>x. ten x = t) rows"
proof -
  have "\<forall>x \<in> set rows. rid x = rid r \<longrightarrow> ten x \<noteq> t" using others_row [of rid rows r ten t] assms by blast
  then show ?thesis by (induction rows) auto
qed

lemma track_rules [simp]: "rs_mapping (track_enrichment_event t i st ty r kept s) = rs_mapping s"
  "rs_extraction (track_enrichment_event t i st ty r kept s) = rs_extraction s"
  by (simp_all add: track_enrichment_event_def split: option.split)

lemma track_numbered [simp]: "numbered (track_enrichment_event t i st ty r kept s) = numbered s"
  by (simp add: numbered_def)

lemma track_others: "t' \<noteq> t \<Longrightarrow> rules_of (track_enrichment_event t' i st ty r kept s) t = rules_of s t"
  by (simp add: track_enrichment_event_def rules_of_def split: option.split)

lemma mapping_run:
  "\<exists>st kept. fst (snd (check_if_match_and_enrich env t alert rule s)) \<in>
     {s, track_enrichment_event t (text_of alert ''id'') st Mapping (mr_id rule) kept s}"
  by (auto simp: check_if_match_and_enrich_def Let_def split: if_splits sum.splits)

lemma extraction_run:
  "numbered (fst (extract_each env t fp eid rs event s)) = numbered s \<and>
    (t \<noteq> t' \<longrightarrow> rules_of (fst (extract_each env t fp eid rs event s)) t' = rules_of s t')"
proof (induction rs arbitrary: s)
  case (Cons r rs)
  from Cons.IH show ?case
    by (auto simp: Let_def track_others split: option.split bool.split)
qed simp

lemma found_mapping: "get_mapping_rule_by_id t i s = Some r \<Longrightarrow> r \<in> set (rs_mapping s) \<and> mr_tenant r = t"
  unfolding get_mapping_rule_by_id_def using find_holds by fastforce

lemma found_extraction: "get_extraction_rule_by_id t i s = Some r \<Longrightarrow> r \<in> set (rs_extraction s) \<and> er_tenant r = t"
  unfolding get_extraction_rule_by_id_def using find_holds by fastforce

lemma rule_step_numbered: "numbered s \<Longrightarrow> numbered (serve_rule env q s)"
proof (cases q)
  case (Create_mapping who d)
  then show "numbered s \<Longrightarrow> ?thesis" using next_id_fresh [of "map mr_id (rs_mapping s)"]
    by (auto simp: create_mapping_rule_def new_mapping_rule_def numbered_def Let_def)
next
  case (Update_mapping who i d)
  then show "numbered s \<Longrightarrow> ?thesis"
    by (auto simp: update_mapping_rule_def numbered_def Let_def replaced_numbers split: option.split)
next
  case (Delete_mapping who i)
  then show "numbered s \<Longrightarrow> ?thesis" by (auto simp: delete_mapping_rule_def numbered_def distinct_map_filter split: option.split)
next
  case (Execute_mapping who i alert)
  have "numbered (fst (snd (check_if_match_and_enrich env t a r s))) = numbered s" for t a r
    using mapping_run [of env t a r s] by (auto simp: numbered_def)
  with Execute_mapping show "numbered s \<Longrightarrow> ?thesis"
    by (auto simp: execute_mapping_rule_def run_mapping_rule_by_id_def case_prod_unfold split: option.split)
next
  case (Create_extraction who d)
  then show "numbered s \<Longrightarrow> ?thesis" using next_id_fresh [of "map er_id (rs_extraction s)"]
    by (auto simp: create_extraction_rule_def numbered_def Let_def split: option.split)
next
  case (Update_extraction who i d)
  then show "numbered s \<Longrightarrow> ?thesis"
    by (auto simp: update_extraction_rule_def numbered_def Let_def replaced_numbers split: option.split)
next
  case (Delete_extraction who i)
  then show "numbered s \<Longrightarrow> ?thesis" by (auto simp: delete_extraction_rule_def numbered_def distinct_map_filter split: option.split)
next
  case (Execute_extraction who i aid alert)
  then show "numbered s \<Longrightarrow> ?thesis"
    by (auto simp: execute_extraction_rule_def run_extraction_rule_by_id_def run_extraction_rules_def extraction_run Let_def
        simp del: extract_each.simps split: option.split)
qed

lemma rule_step_confined: "numbered s \<Longrightarrow> tenant_id (caller q) \<noteq> t \<Longrightarrow> rules_of (serve_rule env q s) t = rules_of s t"
proof (cases q)
  case (Create_mapping who d)
  then show "numbered s \<Longrightarrow> tenant_id (caller q) \<noteq> t \<Longrightarrow> ?thesis"
    by (simp add: create_mapping_rule_def new_mapping_rule_def rules_of_def Let_def)
next
  case (Update_mapping who i d)
  show "numbered s \<Longrightarrow> tenant_id (caller q) \<noteq> t \<Longrightarrow> ?thesis"
  proof (cases "get_mapping_rule_by_id (tenant_id who) i s")
    case (Some r)
    assume "numbered s" and "tenant_id (caller q) \<noteq> t"
    then have "filter (\<lambda>x. mr_tenant x = t) (map (\<lambda>x. if mr_id x = mr_id r then r' else x) (rs_mapping s)) = filter (\<lambda>x. mr_tenant x = t) (rs_mapping s)"
      if "mr_tenant r' = mr_tenant r" for r'
      using that found_mapping [OF Some] Update_mapping by (intro replaced_others) (auto simp: numbered_def)
    with Update_mapping Some show ?thesis by (simp add: update_mapping_rule_def rules_of_def Let_def)
  qed (simp add: update_mapping_rule_def Update_mapping)
next
  case (Delete_mapping who i)
  show "numbered s \<Longrightarrow> tenant_id (caller q) \<noteq> t \<Longrightarrow> ?thesis"
  proof (cases "get_mapping_rule_by_id (tenant_id who) i s")
    case (Some r)
    assume "numbered s" and "tenant_id (caller q) \<noteq> t"
    then have "filter (\<lambda>x. mr_tenant x = t) (filter (\<lambda>x. mr_id x \<noteq> mr_id r) (rs_mapping s)) = filter (\<lambda>x. mr_tenant x = t) (rs_mapping s)"
      using found_mapping [OF Some] Delete_mapping by (intro dropped_others) (auto simp: numbered_def)
    with Delete_mapping Some show ?thesis by (simp add: delete_mapping_rule_def rules_of_def)
  qed (simp add: delete_mapping_rule_def Delete_mapping)
next
  case (Execute_mapping who i alert)
  have "t' \<noteq> t \<Longrightarrow> rules_of (fst (snd (check_if_match_and_enrich env t' a r s))) t = rules_of s t" for t' a r
    using mapping_run [of env t' a r s] by (auto simp: track_others)
  with Execute_mapping show "numbered s \<Longrightarrow> tenant_id (caller q) \<noteq> t \<Longrightarrow> ?thesis"
    by (auto simp: execute_mapping_rule_def run_mapping_rule_by_id_def case_prod_unfold split: option.split)
next
  case (Create_extraction who d)
  then show "numbered s \<Longrightarrow> tenant_id (caller q) \<noteq> t \<Longrightarrow> ?thesis"
    by (simp add: create_extraction_rule_def rules_of_def Let_def split: option.split)
next
  case (Update_extraction who i d)
  show "numbered s \<Longrightarrow> tenant_id (caller q) \<noteq> t \<Longrightarrow> ?thesis"
  proof (cases "get_extraction_rule_by_id (tenant_id who) i s")
    case (Some r)
    assume "numbered s" and "tenant_id (caller q) \<noteq> t"
    then have "filter (\<lambda>x. er_tenant x = t) (map (\<lambda>x. if er_id x = er_id r then r' else x) (rs_extraction s)) = filter (\<lambda>x. er_tenant x = t) (rs_extraction s)"
      if "er_tenant r' = er_tenant r" for r'
      using that found_extraction [OF Some] Update_extraction by (intro replaced_others) (auto simp: numbered_def)
    with Update_extraction Some show ?thesis by (simp add: update_extraction_rule_def rules_of_def Let_def split: option.split)
  qed (simp add: update_extraction_rule_def Update_extraction)
next
  case (Delete_extraction who i)
  show "numbered s \<Longrightarrow> tenant_id (caller q) \<noteq> t \<Longrightarrow> ?thesis"
  proof (cases "get_extraction_rule_by_id (tenant_id who) i s")
    case (Some r)
    assume "numbered s" and "tenant_id (caller q) \<noteq> t"
    then have "filter (\<lambda>x. er_tenant x = t) (filter (\<lambda>x. er_id x \<noteq> er_id r) (rs_extraction s)) = filter (\<lambda>x. er_tenant x = t) (rs_extraction s)"
      using found_extraction [OF Some] Delete_extraction by (intro dropped_others) (auto simp: numbered_def)
    with Delete_extraction Some show ?thesis by (simp add: delete_extraction_rule_def rules_of_def)
  qed (simp add: delete_extraction_rule_def Delete_extraction)
next
  case (Execute_extraction who i aid alert)
  then show "numbered s \<Longrightarrow> tenant_id (caller q) \<noteq> t \<Longrightarrow> ?thesis"
    by (auto simp: execute_extraction_rule_def run_extraction_rule_by_id_def run_extraction_rules_def extraction_run Let_def
        simp del: extract_each.simps split: option.split)
qed

interpretation rules: confined_steps "serve_rule env" "\<lambda>q t. tenant_id (caller q) = t" rules_of numbered
  for env
  by (rule confined_steps.intro) (rule rule_step_numbered rule_step_confined; assumption)+

text \<open>
  C23: tenants do not touch each other's rules.  Whatever calls to create, change, delete and execute mapping and
  extraction rules other tenants make, a tenant's rules and the record of their executions stay as they
  are, and no two rules get the same number.
\<close>

theorem rule_calls_are_confined:
  assumes "numbered s" and "\<forall>q \<in> set calls. tenant_id (caller q) \<noteq> t"
  shows "numbered (fold (serve_rule env) calls s) \<and> rules_of (fold (serve_rule env) calls s) t = rules_of s t"
  using rules.steps_sane rules.steps_confined assms by blast

theorem rule_calls_are_confined_witness:
  "rules_of (fold (serve_rule plain_env) [Delete_mapping sample_user 1, Execute_mapping sample_user 1 (Some web_alert)]
      (no_rules\<lparr>rs_mapping := [team_rule\<lparr>mr_tenant := ''v''\<rparr>]\<rparr>)) ''v'' = ([team_rule\<lparr>mr_tenant := ''v''\<rparr>], [], [], sample_outside)"
proof -
  have "numbered (no_rules\<lparr>rs_mapping := [team_rule\<lparr>mr_tenant := ''v''\<rparr>]\<rparr>)" by (simp add: numbered_def no_rules_def)
  from rule_calls_are_confined [OF this, of "[Delete_mapping sample_user 1, Execute_mapping sample_user 1 (Some web_alert)]" "''v''" plain_env]
  show ?thesis by (simp add: sample_user_def rules_of_def no_rules_def)
qed

text \<open>
  The check that several levels allow one group of matchers only runs before the flag is read, and never fires.
\<close>

lemma group_check_never_fires: "validate_matchers None v"
  by (simp add: validate_matchers_def)

end
