(* ===== verification/Incidents.thy ===== *)
theory Incidents
  imports Enrichments_Bl
begin

text \<open>
  Incidents: the operations of \<open>src/src/services/incidents_bl.py\<close>, the handlers of
  \<open>src/src/routes/incidents.py\<close> that change incidents, and the functions of
  \<open>src/src/repositories/db.py\<close> and \<open>src/src/models/db/incident.py\<close> they rest on.  An incident is its
  columns, as JSON values; its id is the text of its UUID.  Links join alerts to incidents and are never
  removed, only marked with the time of their removal.  Parameters are the clock, new UUIDs, the order in
  which Python lists a set, what Pydantic makes of a value given for a column (\<open>coerce\<close>), the values the
  database takes in a column (\<open>accepts\<close>: SQLite keeps text in a column of numbers) and the assignments to
  other attributes of an object that fail (\<open>attribute\<close>).  The database refuses rows that break a key.
  Failures of the connection and notifications are left out.
\<close>

section \<open>Rows\<close>

record alert_row =
  al_id :: nat
  al_tenant :: string
  al_fingerprint :: string
  al_timestamp :: int
  al_received :: "int option"
  al_service :: "string option"
  al_provider :: string
  al_severity :: "string option"
  al_status :: "string option"

record link =
  ln_tenant :: string
  ln_fingerprint :: string
  ln_incident :: string
  ln_deleted :: "int option"
  ln_by_ai :: bool

type_synonym incident = "string \<Rightarrow> json"

record incident_state =
  is_out :: outside
  is_alerts :: "alert_row list"
  is_links :: "link list"
  is_rows :: "incident list"
  is_mentions :: "(string \<times> nat \<times> string) list"
  is_opened :: "(string \<times> string) list"

record incident_env =
  now :: int
  fresh_id :: string
  listed :: "string list \<Rightarrow> string list"
  coerce :: "string \<Rightarrow> json \<Rightarrow> json option"
  accepts :: "string \<Rightarrow> json \<Rightarrow> bool"
  attribute :: "string \<Rightarrow> json \<Rightarrow> bool"
  request_source :: string
  producer_given :: bool

datatype incident_error = Http_status nat | Integrity_err | Data_err | Value_err | Key_err | Name_err | Type_err | Attribute_err
  | Service_err service_error

definition last_rows :: "incident_state \<Rightarrow> last_alert_row list" where
  "last_rows s = edb_last (out_db (is_out s))"

definition add_audit :: "string \<Rightarrow> string \<Rightarrow> string \<Rightarrow> action_type \<Rightarrow> string \<Rightarrow> incident_state \<Rightarrow> incident_state" where
  "add_audit t f who ty msg s = (let out = is_out s; db = out_db out in
     s\<lparr>is_out := out\<lparr>out_db := db\<lparr>edb_audits := edb_audits db @
       [\<lparr>au_tenant = t, au_fingerprint = f, au_user = who, au_action = action_value ty, au_description = msg\<rparr>]\<rparr>\<rparr>\<rparr>)"

section \<open>Severities, statuses and columns\<close>

datatype incident_severity = CRITICAL | HIGH | WARNING | INFO | LOW

fun severity_value :: "incident_severity \<Rightarrow> string" where
  "severity_value CRITICAL = ''critical''"
| "severity_value HIGH = ''high''"
| "severity_value WARNING = ''warning''"
| "severity_value INFO = ''info''"
| "severity_value LOW = ''low''"

fun severity_order :: "incident_severity \<Rightarrow> int" where
  "severity_order CRITICAL = 5"
| "severity_order HIGH = 4"
| "severity_order WARNING = 3"
| "severity_order INFO = 2"
| "severity_order LOW = 1"

definition severity_of :: "string \<Rightarrow> incident_severity option" where
  "severity_of s = find (\<lambda>v. severity_value v = s) [CRITICAL, HIGH, WARNING, INFO, LOW]"

datatype incident_status = FIRING | RESOLVED | ACKNOWLEDGED | MERGED | DELETED

fun status_value :: "incident_status \<Rightarrow> string" where
  "status_value FIRING = ''firing''"
| "status_value RESOLVED = ''resolved''"
| "status_value ACKNOWLEDGED = ''acknowledged''"
| "status_value MERGED = ''merged''"
| "status_value DELETED = ''deleted''"

definition incident_columns :: "string list" where
  "incident_columns = [''id'', ''tenant_id'', ''running_number'', ''user_generated_name'', ''ai_generated_name'', ''user_summary'',
     ''generated_summary'', ''assignee'', ''severity'', ''forced_severity'', ''status'', ''creation_time'', ''start_time'',
     ''end_time'', ''last_seen_time'', ''is_predicted'', ''is_candidate'', ''is_visible'', ''alerts_count'',
     ''affected_services'', ''sources'', ''rule_id'', ''rule_fingerprint'', ''fingerprint'', ''incident_type'',
     ''incident_application'', ''resolve_on'', ''same_incident_in_the_past_id'', ''merged_into_incident_id'', ''merged_at'',
     ''merged_by'']"

definition default_incident :: "incident_env \<Rightarrow> incident" where
  "default_incident env k =
     (if k = ''id'' then JStr (fresh_id env) else if k = ''severity'' then JInt 5
      else if k = ''forced_severity'' \<or> k = ''is_predicted'' \<or> k = ''is_candidate'' then JBool False
      else if k = ''is_visible'' then JBool True else if k = ''status'' then JStr ''firing''
      else if k = ''creation_time'' then JInt (now env) else if k = ''alerts_count'' then JInt 0
      else if k = ''affected_services'' \<or> k = ''sources'' then JList [] else if k = ''rule_fingerprint'' then JStr []
      else if k = ''incident_type'' then JStr ''manual'' else if k = ''resolve_on'' then JStr ''all_resolved'' else JNull)"

definition is_incident :: "string \<Rightarrow> string \<Rightarrow> incident \<Rightarrow> bool" where
  "is_incident t i r = (r ''tenant_id'' = JStr t \<and> r ''id'' = JStr i)"

definition get_incident_by_id :: "string \<Rightarrow> string \<Rightarrow> incident_state \<Rightarrow> incident option" where
  "get_incident_by_id t i s = find (is_incident t i) (is_rows s)"

text \<open>The update of one row, found by tenant and id.\<close>

definition change_incident :: "string \<Rightarrow> string \<Rightarrow> (incident \<Rightarrow> incident) \<Rightarrow> incident_state \<Rightarrow> incident_state" where
  "change_incident t i f s = s\<lparr>is_rows := map (\<lambda>r. if is_incident t i r then f r else r) (is_rows s)\<rparr>"

text \<open>Python's \<open>max\<close> of a column and a number fails for text.\<close>

fun max_with :: "int \<Rightarrow> json \<Rightarrow> json option" where
  "max_with n (JInt m) = Some (JInt (max m n))"
| "max_with n _ = None"

fun texts_of :: "json \<Rightarrow> string list" where
  "texts_of (JList vs) = concat (map (\<lambda>v. case v of JStr s \<Rightarrow> [s] | _ \<Rightarrow> []) vs)"
| "texts_of _ = []"

section \<open>Linking alerts\<close>

definition live :: "string \<Rightarrow> string \<Rightarrow> link \<Rightarrow> bool" where
  "live t i l = (ln_tenant l = t \<and> ln_incident l = i \<and> ln_deleted l = None)"

definition linked :: "string \<Rightarrow> string \<Rightarrow> incident_state \<Rightarrow> string list" where
  "linked t i s = map ln_fingerprint (filter (live t i) (is_links s))"

definition has_last_alert :: "string \<Rightarrow> incident_state \<Rightarrow> string \<Rightarrow> bool" where
  "has_last_alert t s f = list_ex (row_key t f) (last_rows s)"

text \<open>The latest alert of a fingerprint.\<close>

definition latest :: "string \<Rightarrow> incident_state \<Rightarrow> string \<Rightarrow> alert_row list" where
  "latest t s f = concat (map (\<lambda>r. filter (\<lambda>a. al_id a = la_alert_id r) (is_alerts s)) (filter (row_key t f) (last_rows s)))"

definition unlinked_before :: "string \<Rightarrow> string \<Rightarrow> incident_state \<Rightarrow> string list" where
  "unlinked_before t i s = map ln_fingerprint (filter (\<lambda>l. ln_tenant l = t \<and> ln_incident l = i \<and> ln_deleted l \<noteq> None) (is_links s))"

record alerts_data =
  ad_sources :: "string list"
  ad_services :: "string list"
  ad_max_severity :: int

fun severities_of :: "alert_row list \<Rightarrow> incident_error + int list" where
  "severities_of [] = Inr []"
| "severities_of (a # as) = (case al_severity a of
       None \<Rightarrow> severities_of as
     | Some [] \<Rightarrow> severities_of as
     | Some s \<Rightarrow> (case severity_of s of None \<Rightarrow> Inl Value_err | Some v \<Rightarrow> rbind (severities_of as) (\<lambda>ns. Inr (severity_order v # ns))))"

definition max_or :: "int \<Rightarrow> int list \<Rightarrow> int" where
  "max_or d ns = (case ns of [] \<Rightarrow> d | n # ns \<Rightarrow> fold max ns n)"

definition get_alerts_data_for_incident :: "string \<Rightarrow> string list \<Rightarrow> incident_state \<Rightarrow> incident_error + alerts_data" where
  "get_alerts_data_for_incident t fs s =
     (let as = filter (\<lambda>a. al_tenant a = t) (concat (map (latest t s) (remdups fs))) in
      rbind (severities_of as) (\<lambda>ns. Inr
        \<lparr>ad_sources = remdups (filter (\<lambda>x. x \<noteq> []) (map al_provider as)),
         ad_services = remdups (concat (map (\<lambda>a. case al_service a of Some (c # cs) \<Rightarrow> [c # cs] | _ \<Rightarrow> []) as)),
         ad_max_severity = max_or (severity_order LOW) ns\<rparr>))"

definition received :: "alert_row \<Rightarrow> int" where
  "received a = (case al_received a of None \<Rightarrow> al_timestamp a | Some x \<Rightarrow> x)"

definition earliest :: "alert_row list \<Rightarrow> json" where
  "earliest as = (case map received as of [] \<Rightarrow> JNull | n # ns \<Rightarrow> JInt (fold min ns n))"

definition last_of :: "alert_row list \<Rightarrow> json" where
  "last_of as = (case map received as of [] \<Rightarrow> JNull | n # ns \<Rightarrow> JInt (fold max ns n))"

text \<open>Every occurrence of an alert that is linked counts for the times, not only the latest.\<close>

definition occurrences :: "string \<Rightarrow> string \<Rightarrow> incident_state \<Rightarrow> alert_row list" where
  "occurrences t i s = filter (\<lambda>a. al_tenant a = t \<and> al_fingerprint a \<in> set (linked t i s)) (is_alerts s)"

definition texts :: "string list \<Rightarrow> json" where
  "texts xs = JList (map JStr xs)"

definition with_alerts :: "nat \<Rightarrow> json \<Rightarrow> json \<Rightarrow> string list \<Rightarrow> json \<Rightarrow> string list \<Rightarrow> incident \<Rightarrow> incident" where
  "with_alerts n till since services severity sources r = r(''alerts_count'' := JInt (int n), ''last_seen_time'' := till,
     ''start_time'' := since, ''affected_services'' := texts services, ''severity'' := severity, ''sources'' := texts sources)"

definition new_fingerprints :: "string \<Rightarrow> string \<Rightarrow> string list \<Rightarrow> bool \<Rightarrow> incident_state \<Rightarrow> string list" where
  "new_fingerprints t i fs exclude_unlinked s = filter (\<lambda>f. f \<notin> set (linked t i s) \<and>
     \<not> (exclude_unlinked \<and> f \<in> set (unlinked_before t i s))) (remdups fs)"

definition link_all :: "string \<Rightarrow> string \<Rightarrow> bool \<Rightarrow> string list \<Rightarrow> incident_state \<Rightarrow> incident_state" where
  "link_all t i by_ai fs s = s\<lparr>is_links := is_links s @
     map (\<lambda>f. \<lparr>ln_tenant = t, ln_fingerprint = f, ln_incident = i, ln_deleted = None, ln_by_ai = by_ai\<rparr>) fs\<rparr>"

definition added_severity :: "incident \<Rightarrow> alerts_data \<Rightarrow> json option" where
  "added_severity inc d = (if truthy (inc ''forced_severity'') then Some (inc ''severity'')
     else if truthy (inc ''alerts_count'') then max_with (ad_max_severity d) (inc ''severity'')
     else Some (JInt (ad_max_severity d)))"

definition add_alerts_to_incident ::
  "incident_env \<Rightarrow> string \<Rightarrow> incident \<Rightarrow> string \<Rightarrow> string list \<Rightarrow> bool \<Rightarrow> bool \<Rightarrow> bool \<Rightarrow> incident_state \<Rightarrow> incident_state \<times> (incident_error + unit)" where
  "add_alerts_to_incident env t inc i fs by_ai override_count exclude_unlinked s =
     (let new = new_fingerprints t i fs exclude_unlinked s
      in if new = [] then (s, Inr ())
         else if \<not> list_all (has_last_alert t s) new then (s, Inl Integrity_err)
         else
           let s = link_all t i by_ai new s
           in case get_alerts_data_for_incident t new s of
               Inl err \<Rightarrow> (s, Inl err)
             | Inr d \<Rightarrow> (case added_severity inc d of
                   None \<Rightarrow> (s, Inl Type_err)
                 | Some severity \<Rightarrow>
                     if override_count then (s, Inl Key_err)
                     else (change_incident t i (with_alerts (length (linked t i s)) (last_of (occurrences t i s)) (earliest (occurrences t i s))
                             (listed env (remdups (texts_of (inc ''affected_services'') @ ad_services d))) severity
                             (listed env (remdups (texts_of (inc ''sources'') @ ad_sources d)))) s, Inr ())))"

section \<open>Unlinking alerts\<close>

text \<open>
  The links are marked and committed first.  The severities of the alerts that remain are then read with a
  function that is defined nowhere, which raises when there is one; past that point none remains.
\<close>

definition unlink :: "incident_env \<Rightarrow> string \<Rightarrow> string \<Rightarrow> string list \<Rightarrow> link \<Rightarrow> link" where
  "unlink env t i fs l = (if live t i l \<and> ln_fingerprint l \<in> set fs then l\<lparr>ln_deleted := Some (now env)\<rparr> else l)"

definition unlink_all :: "incident_env \<Rightarrow> string \<Rightarrow> string \<Rightarrow> string list \<Rightarrow> incident_state \<Rightarrow> incident_state" where
  "unlink_all env t i fs s = s\<lparr>is_links := map (unlink env t i fs) (is_links s)\<rparr>"

definition remaining :: "string \<Rightarrow> incident_state \<Rightarrow> alert_row list" where
  "remaining i s = concat (map (\<lambda>l. latest (ln_tenant l) s (ln_fingerprint l))
     (filter (\<lambda>l. ln_incident l = i \<and> ln_deleted l = None) (is_links s)))"

definition remove_alerts_to_incident_by_incident_id ::
  "incident_env \<Rightarrow> string \<Rightarrow> string \<Rightarrow> string list \<Rightarrow> incident_state \<Rightarrow> incident_state \<times> (incident_error + nat option)" where
  "remove_alerts_to_incident_by_incident_id env t i fs s = (case get_incident_by_id t i s of
       None \<Rightarrow> (s, Inr None)
     | Some inc \<Rightarrow>
         let deleted = length (filter (\<lambda>l. live t i l \<and> ln_fingerprint l \<in> set fs) (is_links s));
             s = unlink_all env t i fs s
         in case get_alerts_data_for_incident t fs s of
             Inl err \<Rightarrow> (s, Inl err)
           | Inr d \<Rightarrow>
               if remaining i s \<noteq> [] then (s, Inl Name_err)
               else (change_incident t i (with_alerts (length (linked t i s)) JNull JNull
                       (filter (\<lambda>x. x \<notin> set (ad_services d)) (texts_of (inc ''affected_services'')))
                       (if truthy (inc ''forced_severity'') then inc ''severity'' else JInt (severity_order LOW))
                       (filter (\<lambda>x. x \<notin> set (ad_sources d)) (texts_of (inc ''sources'')))) s, Inr (Some deleted)))"

section \<open>Creating and updating\<close>

text \<open>
  What a user sends (\<open>IncidentDtoIn\<close>): five declared fields and any others.  Incidents of providers and of
  the assistant take other paths through \<open>create_incident_from_dto\<close> and are left out.
\<close>

record incident_dto =
  dt_user_generated_name :: json
  dt_assignee :: "string option"
  dt_user_summary :: json
  dt_same_incident :: json
  dt_severity :: "incident_severity option"
  dt_extras :: "(string, json) pydict"

definition text_or_null :: "string option \<Rightarrow> json" where
  "text_or_null x = (case x of None \<Rightarrow> JNull | Some s \<Rightarrow> JStr s)"

text \<open>\<open>dto.dict()\<close>, the severity as its value.\<close>

definition dto_dict :: "incident_dto \<Rightarrow> (string, json) pydict" where
  "dto_dict d = [(''user_generated_name'', dt_user_generated_name d), (''assignee'', text_or_null (dt_assignee d)),
     (''user_summary'', dt_user_summary d), (''same_incident_in_the_past_id'', dt_same_incident d),
     (''severity'', text_or_null (map_option severity_value (dt_severity d)))] @ dt_extras d"

definition numbers :: "string \<Rightarrow> incident_state \<Rightarrow> int list" where
  "numbers t s = concat (map (\<lambda>r. if r ''tenant_id'' = JStr t then (case r ''running_number'' of JInt n \<Rightarrow> [n] | _ \<Rightarrow> []) else []) (is_rows s))"

definition get_next_running_number :: "string \<Rightarrow> incident_state \<Rightarrow> int" where
  "get_next_running_number t s = max_or 0 (numbers t s) + 1"

definition breaks_key :: "incident list \<Rightarrow> bool" where
  "breaks_key rs = (\<not> distinct (map (\<lambda>r. r ''id'') rs) \<or>
     \<not> distinct (map (\<lambda>r. (r ''tenant_id'', r ''running_number'')) (filter (\<lambda>r. r ''running_number'' \<noteq> JNull) rs)))"

text \<open>\<open>Incident(**data)\<close>: a value Pydantic refuses is dropped and the column takes its default.\<close>

definition new_row :: "incident_env \<Rightarrow> (string, json) pydict \<Rightarrow> string \<Rightarrow> incident" where
  "new_row env data t k = (if k = ''tenant_id'' then JStr t
     else case map_of data k of None \<Rightarrow> default_incident env k
       | Some v \<Rightarrow> (case coerce env k v of None \<Rightarrow> default_incident env k | Some w \<Rightarrow> w))"

definition opened_source :: "(string, json) pydict \<Rightarrow> string" where
  "opened_source data = (if truthy (get_or_null data ''rule_id'') then ''rule''
     else if truthy (get_or_null data ''is_predicted'') then ''ai'' else ''manual'')"

definition candidate_data :: "(string, json) pydict \<Rightarrow> (string, json) pydict" where
  "candidate_data data = (if has_key data ''is_candidate'' then data
     else dict_set ''is_candidate'' (if has_key data ''is_predicted'' then get_or_null data ''is_predicted'' else JBool False) data)"

text \<open>The hook before an insertion numbers the incident, unless a number was given.\<close>

definition set_running_number :: "string \<Rightarrow> incident_state \<Rightarrow> incident \<Rightarrow> incident" where
  "set_running_number t s r =
     (if r ''running_number'' = JNull then r(''running_number'' := JInt (get_next_running_number t s)) else r)"

definition create_incident_from_dict ::
  "incident_env \<Rightarrow> string \<Rightarrow> (string, json) pydict \<Rightarrow> incident_state \<Rightarrow> incident_state \<times> (incident_error + incident)" where
  "create_incident_from_dict env t data s =
     (let data = candidate_data data in
      if has_key data ''tenant_id'' then (s, Inl Type_err)
      else if list_ex (\<lambda>(k, v). k \<notin> set incident_columns \<and> attribute env k v) data then (s, Inl Attribute_err)
      else
        let r = set_running_number t s (new_row env data t)
        in if \<not> list_all (\<lambda>k. accepts env k (r k)) incident_columns then (s, Inl Data_err)
           else if breaks_key (is_rows s @ [r]) then (s, Inl Integrity_err)
           else (s\<lparr>is_rows := is_rows s @ [r], is_opened := is_opened s @ [(t, opened_source data)]\<rparr>, Inr r))"

definition user_data :: "incident_dto \<Rightarrow> (string, json) pydict" where
  "user_data d =
     (let data = dto_dict d;
          data = (if has_key data ''incident_type'' then data else dict_set ''incident_type'' (JStr ''manual'') data)
      in case dt_severity d of None \<Rightarrow> data | Some v \<Rightarrow> dict_set ''severity'' (JInt (severity_order v)) data)"

definition create_incident_from_dto ::
  "incident_env \<Rightarrow> string \<Rightarrow> incident_dto \<Rightarrow> incident_state \<Rightarrow> incident_state \<times> (incident_error + incident)" where
  "create_incident_from_dto env t d s = create_incident_from_dict env t (user_data d) s"

text \<open>
  The assignment of one given value.  Other attributes than columns either fail (\<open>attribute\<close>) or leave the row
  as it is; an empty list for \<open>merged_incidents\<close> or \<open>same_incidents_in_the_future\<close>, which unlinks the
  incidents that point to this one, is not modelled.
\<close>

definition set_column :: "incident_env \<Rightarrow> string \<times> json \<Rightarrow> incident_error + incident \<Rightarrow> incident_error + incident" where
  "set_column env kv res = rbind res (\<lambda>r. case kv of (k, v) \<Rightarrow>
     if v = JNull then Inr r else if k \<in> set incident_columns then Inr (r(k := v))
     else if attribute env k v then Inl Attribute_err else Inr r)"

definition updated_row :: "incident_env \<Rightarrow> bool \<Rightarrow> incident_dto \<Rightarrow> incident \<Rightarrow> incident_error + incident" where
  "updated_row env by_ai d r = rbind (fold (set_column env) (dto_dict d) (Inr r))
     (\<lambda>r. Inr (r(''same_incident_in_the_past_id'' := dt_same_incident d,
                  (if by_ai then ''generated_summary'' else ''user_summary'') := dt_user_summary d)))"

definition update_incident_from_dto_by_id ::
  "incident_env \<Rightarrow> string \<Rightarrow> string \<Rightarrow> incident_dto \<Rightarrow> bool \<Rightarrow> incident_state \<Rightarrow> incident_state \<times> (incident_error + incident option)" where
  "update_incident_from_dto_by_id env t i d by_ai s = (case get_incident_by_id t i s of
       None \<Rightarrow> (s, Inr None)
     | Some r \<Rightarrow> (case updated_row env by_ai d r of
           Inl err \<Rightarrow> (s, Inl err)
         | Inr r' \<Rightarrow>
             let s' = change_incident t i (\<lambda>_. r') s in
             if list_ex (\<lambda>k. r' k \<noteq> r k \<and> \<not> accepts env k (r' k)) incident_columns then (s, Inl Data_err)
             else if breaks_key (is_rows s') then (s, Inl Integrity_err)
             else (s', Inr (Some r'))))"

section \<open>Marking, merging and confirming\<close>

text \<open>Deleting marks the row; a row that is not there has no \<open>id\<close>.\<close>

definition delete_incident_by_id :: "string \<Rightarrow> string \<Rightarrow> incident_state \<Rightarrow> incident_state \<times> (incident_error + bool)" where
  "delete_incident_by_id t i s = (if get_incident_by_id t i s = None then (s, Inl Attribute_err)
     else (change_incident t i (\<lambda>r. r(''status'' := JStr (status_value DELETED))) s, Inr True))"

definition mark_merged :: "incident_env \<Rightarrow> string \<Rightarrow> string \<Rightarrow> incident \<Rightarrow> incident" where
  "mark_merged env i who r = r(''merged_into_incident_id'' := JStr i, ''merged_at'' := JInt (now env),
     ''status'' := JStr (status_value MERGED), ''merged_by'' := JStr who)"

definition source_alerts :: "string \<Rightarrow> string \<Rightarrow> incident_state \<Rightarrow> string list" where
  "source_alerts t i s = map al_fingerprint (concat (map (latest t s) (linked t i s)))"

text \<open>
  The alerts of the sources are read once, before anything moves.  Each source is unlinked in a session of
  its own; the marks wait in the caller's session for its next commit, which the linking makes when there is
  something to link.  \<open>inc\<close> is the destination as that session holds it.
\<close>

fun merge_all ::
  "incident_env \<Rightarrow> string \<Rightarrow> string \<Rightarrow> string \<Rightarrow> incident \<Rightarrow> string list \<Rightarrow> (string \<times> string list) list \<Rightarrow> incident_state \<Rightarrow> incident_state \<times> (incident_error + unit)" where
  "merge_all env t i who inc pending [] s = (fold (\<lambda>x. change_incident t x (mark_merged env i who)) pending s, Inr ())"
| "merge_all env t i who inc pending ((x, fs) # rest) s =
     (case remove_alerts_to_incident_by_incident_id env t x fs s of
        (s, Inl err) \<Rightarrow> (s, Inl err)
      | (s, Inr _) \<Rightarrow>
          if list_all (\<lambda>f. f \<in> set (linked t i s)) fs then merge_all env t i who inc (pending @ [x]) rest s
          else (case add_alerts_to_incident env t inc i fs False False False
                  (fold (\<lambda>x. change_incident t x (mark_merged env i who)) (pending @ [x]) s) of
                (s, Inl err) \<Rightarrow> (s, Inl err)
              | (s, Inr _) \<Rightarrow> merge_all env t i who (case get_incident_by_id t i s of None \<Rightarrow> inc | Some r \<Rightarrow> r) [] rest s))"

definition row_id :: "incident \<Rightarrow> string" where
  "row_id r = (case r ''id'' of JStr i \<Rightarrow> i | _ \<Rightarrow> [])"

definition merge_incidents_to_id ::
  "incident_env \<Rightarrow> string \<Rightarrow> string list \<Rightarrow> string \<Rightarrow> string \<Rightarrow> incident_state \<Rightarrow> incident_state \<times> (incident_error + string list)" where
  "merge_incidents_to_id env t is i who s = (case get_incident_by_id t i s of
       None \<Rightarrow> (s, Inl (Http_status 400))
     | Some inc \<Rightarrow>
         let sources = map row_id (filter (\<lambda>r. r ''tenant_id'' = JStr t \<and> r ''id'' \<in> JStr ` set is) (is_rows s))
         in apsnd (map_sum id (\<lambda>_. sources)) (merge_all env t i who inc [] (map (\<lambda>x. (x, source_alerts t x s)) sources) s))"

text \<open>Confirming makes a candidate visible and leaves it a candidate.\<close>

definition confirm_predicted_incident_by_id :: "string \<Rightarrow> string \<Rightarrow> incident_state \<Rightarrow> incident_state \<times> incident option" where
  "confirm_predicted_incident_by_id t i s =
     (case find (\<lambda>r. is_incident t i r \<and> r ''is_candidate'' = JBool True) (is_rows s) of
        None \<Rightarrow> (s, None)
      | Some r \<Rightarrow>
          let f = (\<lambda>r. if r ''is_candidate'' = JBool True then r(''is_visible'' := JBool True, ''is_candidate'' := JBool True) else r)
          in (change_incident t i f s, Some (f r)))"

definition update_incident_severity :: "string \<Rightarrow> string \<Rightarrow> incident_severity \<Rightarrow> incident_state \<Rightarrow> incident_state \<times> incident option" where
  "update_incident_severity t i v s =
     (let s' = change_incident t i (\<lambda>r. r(''severity'' := JInt (severity_order v), ''forced_severity'' := JBool True)) s
      in if get_incident_by_id t i s = None then (s, None) else (s', get_incident_by_id t i s'))"

section \<open>The service\<close>

definition bl_add_alerts_to_incident ::
  "incident_env \<Rightarrow> string \<Rightarrow> string \<Rightarrow> string list \<Rightarrow> bool \<Rightarrow> bool \<Rightarrow> incident_state \<Rightarrow> incident_state \<times> (incident_error + unit)" where
  "bl_add_alerts_to_incident env t i fs by_ai override_count s = (case get_incident_by_id t i s of
       None \<Rightarrow> (s, Inl (Http_status 404))
     | Some inc \<Rightarrow> add_alerts_to_incident env t inc i fs by_ai override_count False s)"

definition bl_delete_alerts_from_incident ::
  "incident_env \<Rightarrow> string \<Rightarrow> string \<Rightarrow> string list \<Rightarrow> incident_state \<Rightarrow> incident_state \<times> (incident_error + unit)" where
  "bl_delete_alerts_from_incident env t i fs s = (if get_incident_by_id t i s = None then (s, Inl (Http_status 404))
     else apsnd (map_sum id (\<lambda>_. ())) (remove_alerts_to_incident_by_incident_id env t i fs s))"

definition bl_delete_incident :: "string \<Rightarrow> string \<Rightarrow> incident_state \<Rightarrow> incident_state \<times> (incident_error + unit)" where
  "bl_delete_incident t i s = (if get_incident_by_id t i s = None then (s, Inl (Http_status 404))
     else (case delete_incident_by_id t i s of
         (s, Inl err) \<Rightarrow> (s, Inl err)
       | (s, Inr deleted) \<Rightarrow> (s, if deleted then Inr () else Inl (Http_status 404))))"

fun bulk_delete_incidents :: "string \<Rightarrow> string list \<Rightarrow> incident_state \<Rightarrow> incident_state \<times> (incident_error + unit)" where
  "bulk_delete_incidents t [] s = (s, Inr ())"
| "bulk_delete_incidents t (i # is) s = (case bl_delete_incident t i s of
       (s, Inl err) \<Rightarrow> (s, Inl err)
     | (s, Inr _) \<Rightarrow> bulk_delete_incidents t is s)"

definition bl_update_incident ::
  "incident_env \<Rightarrow> string \<Rightarrow> string \<Rightarrow> incident_dto \<Rightarrow> bool \<Rightarrow> incident_state \<Rightarrow> incident_state \<times> (incident_error + incident)" where
  "bl_update_incident env t i d by_ai s = (case update_incident_from_dto_by_id env t i d by_ai s of
       (s, Inl err) \<Rightarrow> (s, Inl err)
     | (s, Inr None) \<Rightarrow> (s, Inl (Http_status 404))
     | (s, Inr (Some r)) \<Rightarrow> (s, Inr r))"

text \<open>The comment is written before the incident is known to exist.\<close>

definition bl_update_severity ::
  "string \<Rightarrow> string \<Rightarrow> incident_severity \<Rightarrow> string option \<Rightarrow> string \<Rightarrow> incident_state \<Rightarrow> incident_state \<times> (incident_error + incident)" where
  "bl_update_severity t i v comment who s =
     (let (s, res) = update_incident_severity t i v s;
          s = (case comment of Some (c # cs) \<Rightarrow> add_audit t i who INCIDENT_COMMENT (c # cs) s | _ \<Rightarrow> s)
      in (s, option_res (Http_status 404) res))"

fun shown :: "json \<Rightarrow> string" where
  "shown (JStr s) = s"
| "shown _ = ''None''"

text \<open>
  For a resolved or acknowledged incident the service builds a write of the alerts' status and makes the
  call, a coroutine it never awaits, so that nothing of it runs.
\<close>

definition change_status ::
  "incident_env \<Rightarrow> string \<Rightarrow> string \<Rightarrow> incident_status \<Rightarrow> entity \<Rightarrow> bool \<Rightarrow> incident_state \<Rightarrow> incident_state \<times> (incident_error + incident)" where
  "change_status env t i new who dispose s = (case get_incident_by_id t i s of
       None \<Rightarrow> (s, Inl (Http_status 404))
     | Some r \<Rightarrow>
         let s1 = (if new = RESOLVED then change_incident t i (\<lambda>r. r(''end_time'' := JInt (now env))) s else s);
             s2 = (if r ''assignee'' \<noteq> JStr (email who)
                   then add_audit t i (email who) INCIDENT_ASSIGN (''Incident self-assigned to '' @ email who)
                          (change_incident t i (\<lambda>r. r(''assignee'' := JStr (email who))) s1)
                   else s1);
             s3 = add_audit t i (email who) INCIDENT_STATUS_CHANGE
                    (''Incident status changed from '' @ shown (r ''status'') @ '' to '' @ status_value new) s2;
             s4 = change_incident t i (\<lambda>r. r(''status'' := JStr (status_value new))) s3
         in (s4, option_res (Http_status 404) (get_incident_by_id t i s4)))"

section \<open>The routes\<close>

definition counted :: "incident_env \<Rightarrow> entity \<Rightarrow> string \<Rightarrow> incident_state \<Rightarrow> incident_state" where
  "counted env who action s = s\<lparr>is_out := (is_out s)\<lparr>out_counters :=
     snd (record_user_action (request_source env) (tenant_id who) ''incidents'' action ''success'' None (out_counters (is_out s)))\<rparr>\<rparr>"

definition if_done :: "(incident_state \<Rightarrow> incident_state) \<Rightarrow> incident_state \<times> (incident_error + 'a) \<Rightarrow> incident_state \<times> (incident_error + unit)" where
  "if_done f x = (case x of (s, Inl err) \<Rightarrow> (s, Inl err) | (s, Inr _) \<Rightarrow> (f s, Inr ()))"

definition create_incident :: "incident_env \<Rightarrow> entity \<Rightarrow> incident_dto \<Rightarrow> incident_state \<Rightarrow> incident_state \<times> (incident_error + unit)" where
  "create_incident env who d s = if_done (counted env who ''create'') (create_incident_from_dto env (tenant_id who) d s)"

definition audit_assignee :: "entity \<Rightarrow> string \<Rightarrow> incident_dto \<Rightarrow> incident \<Rightarrow> incident_state \<Rightarrow> incident_state" where
  "audit_assignee who i d r s = (case dt_assignee d of
       Some (c # cs) \<Rightarrow> if r ''assignee'' \<noteq> JStr (c # cs)
         then add_audit (tenant_id who) i (email who) INCIDENT_ASSIGN (''Incident assigned to '' @ c # cs) s else s
     | _ \<Rightarrow> s)"

definition update_incident ::
  "incident_env \<Rightarrow> entity \<Rightarrow> string \<Rightarrow> incident_dto \<Rightarrow> bool \<Rightarrow> incident_state \<Rightarrow> incident_state \<times> (incident_error + unit)" where
  "update_incident env who i d by_ai s = (case get_incident_by_id (tenant_id who) i s of
       None \<Rightarrow> (s, Inl (Http_status 404))
     | Some r \<Rightarrow> if_done (counted env who ''update'') (bl_update_incident env (tenant_id who) i d by_ai (audit_assignee who i d r s)))"

definition delete_incident :: "incident_env \<Rightarrow> entity \<Rightarrow> string \<Rightarrow> incident_state \<Rightarrow> incident_state \<times> (incident_error + unit)" where
  "delete_incident env who i s = if_done (counted env who ''delete'') (bl_delete_incident (tenant_id who) i s)"

definition bulk_delete_route :: "incident_env \<Rightarrow> entity \<Rightarrow> string list \<Rightarrow> incident_state \<Rightarrow> incident_state \<times> (incident_error + unit)" where
  "bulk_delete_route env who is s = if_done (counted env who ''delete'') (bulk_delete_incidents (tenant_id who) is s)"

definition split_incident ::
  "incident_env \<Rightarrow> entity \<Rightarrow> string \<Rightarrow> string \<Rightarrow> string list \<Rightarrow> incident_state \<Rightarrow> incident_state \<times> (incident_error + unit)" where
  "split_incident env who i dest fs s = (case bl_add_alerts_to_incident env (tenant_id who) dest fs False False s of
       (s, Inl err) \<Rightarrow> (s, Inl err)
     | (s, Inr _) \<Rightarrow> bl_delete_alerts_from_incident env (tenant_id who) i fs s)"

definition merge_incidents :: "incident_env \<Rightarrow> entity \<Rightarrow> string list \<Rightarrow> string \<Rightarrow> incident_state \<Rightarrow> incident_state \<times> (incident_error + unit)" where
  "merge_incidents env who is i s = if_done id (merge_incidents_to_id env (tenant_id who) is i (email who) s)"

definition assign_incident :: "incident_env \<Rightarrow> entity \<Rightarrow> string \<Rightarrow> incident_state \<Rightarrow> incident_state \<times> (incident_error + unit)" where
  "assign_incident env who i s = (if get_incident_by_id (tenant_id who) i s = None then (s, Inl (Http_status 404))
     else (counted env who ''assign'' (change_incident (tenant_id who) i (\<lambda>r. r(''assignee'' := JStr (email who)))
       (add_audit (tenant_id who) i (email who) INCIDENT_ASSIGN (''Incident self-assigned to '' @ email who) s)), Inr ()))"

text \<open>Nothing checks that the incident exists; a mention names the comment by its place in the audit.\<close>

definition add_comment ::
  "incident_env \<Rightarrow> entity \<Rightarrow> string \<Rightarrow> string \<Rightarrow> string list \<Rightarrow> incident_state \<Rightarrow> incident_state \<times> (incident_error + unit)" where
  "add_comment env who i comment tagged s =
     (let n = length (edb_audits (out_db (is_out s)));
          tagged = rev (remdups (rev tagged));
          s = add_audit (tenant_id who) i (email who) INCIDENT_COMMENT comment s;
          s = s\<lparr>is_mentions := is_mentions s @ map (\<lambda>u. (tenant_id who, n, u)) tagged\<rparr>;
          s = counted env who ''comment'' s
      in (if tagged = [] then s else counted env who ''mention'' s, Inr ()))"

definition confirm_incident :: "incident_env \<Rightarrow> entity \<Rightarrow> string \<Rightarrow> incident_state \<Rightarrow> incident_state \<times> (incident_error + unit)" where
  "confirm_incident env who i s = if_done id (apsnd (option_res (Http_status 404)) (confirm_predicted_incident_by_id (tenant_id who) i s))"

definition incident_write :: "string \<Rightarrow> enrichments \<Rightarrow> string \<Rightarrow> string \<Rightarrow> bool \<Rightarrow> enrich_args" where
  "incident_write f e who msg force = (enrich_call f e INCIDENT_ENRICH who msg)\<lparr>en_force := force, en_entity := ''incident''\<rparr>"

definition write_incident :: "incident_env \<Rightarrow> string \<Rightarrow> enrich_args \<Rightarrow> incident_state \<Rightarrow> incident_state \<times> (incident_error + unit)" where
  "write_incident env t a s = (case enrich_entity (producer_given env) (request_source env) t 0 a (is_out s) of
       (out, Inl err) \<Rightarrow> (s\<lparr>is_out := out\<rparr>, Inl (Service_err err))
     | (out, Inr _) \<Rightarrow> (s\<lparr>is_out := out\<rparr>, Inr ()))"

definition enrich_incident_route ::
  "incident_env \<Rightarrow> entity \<Rightarrow> string \<Rightarrow> enrichments \<Rightarrow> bool \<Rightarrow> incident_state \<Rightarrow> incident_state \<times> (incident_error + unit)" where
  "enrich_incident_route env who i e force s = (if get_incident_by_id (tenant_id who) i s = None then (s, Inl (Http_status 404))
     else write_incident env (tenant_id who) (incident_write i e (email who) (''Incident enriched by '' @ email who) force) s)"

text \<open>The incident of the path is looked up; what is read and written is that of the body's fingerprint.\<close>

definition unenrich_incident ::
  "incident_env \<Rightarrow> entity \<Rightarrow> string \<Rightarrow> string \<Rightarrow> string list \<Rightarrow> incident_state \<Rightarrow> incident_state \<times> (incident_error + unit)" where
  "unenrich_incident env who i f ks s = (if get_incident_by_id (tenant_id who) i s = None then (s, Inl (Http_status 404))
     else case uuid_int f of
         None \<Rightarrow> (s, Inl Value_err)
       | Some n \<Rightarrow> (case incident_row (tenant_id who) n (out_db (is_out s)) of
             None \<Rightarrow> (s, Inl (Http_status 404))
           | Some r \<Rightarrow> write_incident env (tenant_id who) (incident_write f (filter (\<lambda>(k, _). k \<notin> set ks) (ie_enrichments r))
                 (email who) (''Incident un-enriched by '' @ email who) True) s))"

text \<open>One request, with who makes it and the outside at that time.\<close>

datatype incident_request =
    Create_incident incident_dto
  | Update_incident string incident_dto bool
  | Delete_incident string
  | Bulk_delete "string list"
  | Split_incident string string "string list"
  | Merge_incidents "string list" string
  | Add_alerts string "string list" bool
  | Delete_alerts string "string list"
  | Assign_incident string
  | Change_status string incident_status bool
  | Change_severity string incident_severity "string option"
  | Comment_incident string string "string list"
  | Confirm_incident string
  | Enrich_incident string enrichments bool
  | Unenrich_incident string string "string list"

fun serve_incident :: "incident_env \<Rightarrow> entity \<Rightarrow> incident_request \<Rightarrow> incident_state \<Rightarrow> incident_state \<times> (incident_error + unit)" where
  "serve_incident env who (Create_incident d) s = create_incident env who d s"
| "serve_incident env who (Update_incident i d by_ai) s = update_incident env who i d by_ai s"
| "serve_incident env who (Delete_incident i) s = delete_incident env who i s"
| "serve_incident env who (Bulk_delete is) s = bulk_delete_route env who is s"
| "serve_incident env who (Split_incident i dest fs) s = split_incident env who i dest fs s"
| "serve_incident env who (Merge_incidents is i) s = merge_incidents env who is i s"
| "serve_incident env who (Add_alerts i fs by_ai) s = bl_add_alerts_to_incident env (tenant_id who) i fs by_ai False s"
| "serve_incident env who (Delete_alerts i fs) s = bl_delete_alerts_from_incident env (tenant_id who) i fs s"
| "serve_incident env who (Assign_incident i) s = assign_incident env who i s"
| "serve_incident env who (Change_status i new dispose) s =
     if_done (counted env who ''change_status'') (change_status env (tenant_id who) i new who dispose s)"
| "serve_incident env who (Change_severity i v comment) s = if_done id (bl_update_severity (tenant_id who) i v comment (email who) s)"
| "serve_incident env who (Comment_incident i comment tagged) s = add_comment env who i comment tagged s"
| "serve_incident env who (Confirm_incident i) s = confirm_incident env who i s"
| "serve_incident env who (Enrich_incident i e force) s = enrich_incident_route env who i e force s"
| "serve_incident env who (Unenrich_incident i f ks) s = unenrich_incident env who i f ks s"

end
