(* ===== verification/Incident_Links.thy ===== *)
theory Incident_Links
  imports Incidents
begin

text \<open>
  Links of alerts to incidents: what linking, unlinking, splitting and merging do to them, and that the number of
  alerts an incident shows follows them.  The relation \<open>served\<close> is what successful requests reach; rule
  induction carries the invariant \<open>good\<close> through all of them.
\<close>

section \<open>Counts follow links\<close>

lemma change_incident_fields [simp]: "is_links (change_incident t i f s) = is_links s" "is_out (change_incident t i f s) = is_out s"
  "is_alerts (change_incident t i f s) = is_alerts s" "linked t' i' (change_incident t i f s) = linked t' i' s"
  by (simp_all add: change_incident_def linked_def)

lemma add_audit_fields [simp]: "is_links (add_audit t f who ty msg s) = is_links s" "is_rows (add_audit t f who ty msg s) = is_rows s"
  "is_alerts (add_audit t f who ty msg s) = is_alerts s" "linked t' i' (add_audit t f who ty msg s) = linked t' i' s"
  "last_rows (add_audit t f who ty msg s) = last_rows s"
  by (simp_all add: add_audit_def Let_def linked_def last_rows_def)

lemma counted_fields [simp]: "is_links (counted env who a s) = is_links s" "is_rows (counted env who a s) = is_rows s"
  by (simp_all add: counted_def)

lemma if_done_eq: "if_done f x = (s', Inr ()) \<longleftrightarrow> (\<exists>s v. x = (s, Inr v) \<and> s' = f s)"
  by (cases x; cases "snd x") (auto simp: if_done_def)

lemma map_sum_is_Inr: "map_sum f g x = Inr y \<longleftrightarrow> (\<exists>a. x = Inr a \<and> y = g a)"
  by (cases x) auto

lemma apsnd_eq: "apsnd f x = (s, b) \<longleftrightarrow> (\<exists>a. x = (s, a) \<and> f a = b)"
  by (cases x) auto

definition counts :: "incident_state \<Rightarrow> bool" where
  "counts s = (\<forall>r \<in> set (is_rows s). \<forall>t i. is_incident t i r \<longrightarrow> r ''alerts_count'' = JInt (int (length (linked t i s))))"

definition links_known :: "incident_state \<Rightarrow> bool" where
  "links_known s = (\<forall>l \<in> set (is_links s). \<exists>r \<in> set (is_rows s). r ''id'' = JStr (ln_incident l))"

lemma counts_cong: "is_rows s' = is_rows s \<Longrightarrow> is_links s' = is_links s \<Longrightarrow> counts s' = counts s"
  "is_rows s' = is_rows s \<Longrightarrow> is_links s' = is_links s \<Longrightarrow> links_known s' = links_known s"
  by (simp_all add: counts_def links_known_def linked_def)

text \<open>What the updates of single rows keep.\<close>

definition keeps :: "string list \<Rightarrow> (incident \<Rightarrow> incident) \<Rightarrow> bool" where
  "keeps ks f = (\<forall>r. \<forall>k \<in> set ks. f r k = r k)"

lemma keeps_same: "keeps ks f \<Longrightarrow> k \<in> set ks \<Longrightarrow> f r k = r k"
  by (simp add: keeps_def)

lemma same_incident: "f r ''tenant_id'' = r ''tenant_id'' \<Longrightarrow> f r ''id'' = r ''id'' \<Longrightarrow> is_incident t i (f r) = is_incident t i r"
  by (simp add: is_incident_def)

lemma changed_counts:
  assumes "counts s" and "\<And>r. is_incident t i r \<Longrightarrow> f r ''tenant_id'' = r ''tenant_id'' \<and> f r ''id'' = r ''id'' \<and> f r ''alerts_count'' = r ''alerts_count''"
  shows "counts (change_incident t i f s)"
  using assms unfolding counts_def by (auto simp: change_incident_def is_incident_def linked_def)

lemma recounted:
  assumes "counts s" and "is_rows s' = is_rows s" and "\<And>t' i'. (t', i') \<noteq> (t, i) \<Longrightarrow> linked t' i' s' = linked t' i' s"
    and "\<And>r. is_incident t i r \<Longrightarrow> f r ''tenant_id'' = r ''tenant_id'' \<and> f r ''id'' = r ''id'' \<and> f r ''alerts_count'' = JInt (int (length (linked t i s')))"
  shows "counts (change_incident t i f s')"
proof -
  define g where "g r = (if is_incident t i r then f r else r)" for r
  have "g r ''alerts_count'' = JInt (int (length (linked t' i' s')))" if "r \<in> set (is_rows s)" "is_incident t' i' (g r)" for r t' i'
  proof (cases "is_incident t i r")
    case True
    then have "t' = t" "i' = i" using that assms(4) [OF True] by (simp_all add: is_incident_def g_def)
    then show ?thesis using True assms(4) [OF True] by (simp add: g_def)
  next
    case False
    then have "(t', i') \<noteq> (t, i)" using that by (auto simp: g_def)
    then show ?thesis using False that assms(1,3) by (simp add: counts_def g_def)
  qed
  moreover have "is_rows (change_incident t i f s') = map g (is_rows s)" by (simp add: change_incident_def assms(2) g_def)
  ultimately show ?thesis unfolding counts_def by simp
qed

lemma linked_append: "linked t i (s\<lparr>is_links := is_links s @ ls\<rparr>) = linked t i s @ map ln_fingerprint (filter (live t i) ls)"
  by (simp add: linked_def)

lemma new_links: "map ln_fingerprint (filter (live t' i') (map (\<lambda>f. \<lparr>ln_tenant = t, ln_fingerprint = f, ln_incident = i, ln_deleted = None, ln_by_ai = b\<rparr>) fs))
    = (if t' = t \<and> i' = i then fs else [])"
  by (induction fs) (auto simp: live_def)

lemma unlink_simps [simp]: "ln_fingerprint (unlink env t i fs l) = ln_fingerprint l" "ln_incident (unlink env t i fs l) = ln_incident l"
  "ln_tenant (unlink env t i fs l) = ln_tenant l"
  "live t' i' (unlink env t i fs l) \<longleftrightarrow> live t' i' l \<and> \<not> (t' = t \<and> i' = i \<and> ln_fingerprint l \<in> set fs)"
  by (auto simp: unlink_def live_def)

lemma linked_unlink: "linked t' i' (s\<lparr>is_links := map (unlink env t i fs) (is_links s)\<rparr>)
    = (if t' = t \<and> i' = i then filter (\<lambda>f. f \<notin> set fs) (linked t i s) else linked t' i' s)"
  by (simp add: linked_def filter_map o_def conj_commute)

lemma with_alerts_simps [simp]: "with_alerts n a b c d e r ''tenant_id'' = r ''tenant_id''" "with_alerts n a b c d e r ''id'' = r ''id''"
  "with_alerts n a b c d e r ''alerts_count'' = JInt (int n)" "with_alerts n a b c d e r ''status'' = r ''status''"
  "with_alerts n a b c d e r ''merged_into_incident_id'' = r ''merged_into_incident_id''"
  by (simp_all add: with_alerts_def)

lemma link_all_simps [simp]: "is_rows (link_all t i b fs s) = is_rows s" "is_alerts (link_all t i b fs s) = is_alerts s"
  "is_out (link_all t i b fs s) = is_out s"
  "linked t' i' (link_all t i b fs s) = linked t' i' s @ (if t' = t \<and> i' = i then fs else [])"
  by (simp_all add: link_all_def linked_append new_links)

lemma unlink_all_simps [simp]: "is_rows (unlink_all env t i fs s) = is_rows s" "is_alerts (unlink_all env t i fs s) = is_alerts s"
  "is_out (unlink_all env t i fs s) = is_out s"
  "linked t' i' (unlink_all env t i fs s) = (if t' = t \<and> i' = i then filter (\<lambda>f. f \<notin> set fs) (linked t i s) else linked t' i' s)"
  by (simp_all add: unlink_all_def linked_unlink)

text \<open>What an addition that succeeds does; nothing to add is a success.\<close>

lemma new_fingerprints_set: "distinct (new_fingerprints t i fs ex s)"
  "set (new_fingerprints t i fs ex s) = {f \<in> set fs. f \<notin> set (linked t i s) \<and> \<not> (ex \<and> f \<in> set (unlinked_before t i s))}"
  by (auto simp: new_fingerprints_def)

lemma added:
  assumes "add_alerts_to_incident env t inc i fs b oc ex s = (s', Inr ())"
  obtains "s' = s" "new_fingerprints t i fs ex s = []"
  | new x1 x2 x3 x4 x5 where "new \<noteq> []" "new = new_fingerprints t i fs ex s" "list_all (has_last_alert t s) new"
      "s' = change_incident t i (with_alerts (length (linked t i s @ new)) x1 x2 x3 x4 x5) (link_all t i b new s)"
proof (cases "new_fingerprints t i fs ex s = []")
  case True
  with assms show ?thesis by (intro that(1)) (simp_all add: add_alerts_to_incident_def)
next
  case False
  from assms False obtain x1 x2 x3 x4 x5 where "list_all (has_last_alert t s) (new_fingerprints t i fs ex s)"
      "s' = change_incident t i (with_alerts (length (linked t i s @ new_fingerprints t i fs ex s)) x1 x2 x3 x4 x5)
        (link_all t i b (new_fingerprints t i fs ex s) s)"
    by (auto simp: add_alerts_to_incident_def Let_def split: if_split_asm sum.split_asm option.split_asm)
  with False show ?thesis by (intro that(2)) simp_all
qed

lemma added_counts:
  assumes "add_alerts_to_incident env t inc i fs b oc ex s = (s', Inr ())" and "counts s"
  shows "counts s'"
  using assms(1)
proof (cases rule: added)
  case (2 new)
  show ?thesis unfolding 2(4) by (rule recounted [OF assms(2)]) auto
qed (use assms(2) in simp)

lemma added_linked:
  assumes "add_alerts_to_incident env t inc i fs b oc False s = (s', Inr ())"
  shows "set (linked t i s') = set (linked t i s) \<union> set fs" "(t', i') \<noteq> (t, i) \<Longrightarrow> linked t' i' s' = linked t' i' s"
    "distinct (linked t i s) \<Longrightarrow> distinct (linked t i s')"
proof -
  show "set (linked t i s') = set (linked t i s) \<union> set fs"
    using assms
  proof (cases rule: added)
    case 1
    then show ?thesis using new_fingerprints_set(2) [of t i fs False s] by auto
  next
    case (2 new)
    then show ?thesis by (auto simp: new_fingerprints_set)
  qed
  show "(t', i') \<noteq> (t, i) \<Longrightarrow> linked t' i' s' = linked t' i' s"
    using assms by (cases rule: added) auto
  show "distinct (linked t i s) \<Longrightarrow> distinct (linked t i s')"
    using assms by (cases rule: added) (auto simp: new_fingerprints_set)
qed

lemma removed:
  assumes "remove_alerts_to_incident_by_incident_id env t i fs s = (s', res)"
  obtains "get_incident_by_id t i s = None" "s' = s" "res = Inr None"
  | err inc where "get_incident_by_id t i s = Some inc" "res = Inl err" "s' = unlink_all env t i fs s"
      "get_alerts_data_for_incident t fs s = Inl err \<or> err = Name_err"
  | n inc x1 x2 x3 x4 x5 where "get_incident_by_id t i s = Some inc" "res = Inr (Some n)" "remaining i (unlink_all env t i fs s) = []"
      "s' = change_incident t i (with_alerts (length (linked t i (unlink_all env t i fs s))) x1 x2 x3 x4 x5) (unlink_all env t i fs s)"
proof (cases "get_incident_by_id t i s")
  case None
  with assms show ?thesis by (intro that(1)) (simp_all add: remove_alerts_to_incident_by_incident_id_def)
next
  case (Some inc)
  have same: "get_alerts_data_for_incident t fs (unlink_all env t i fs s) = get_alerts_data_for_incident t fs s"
    by (simp add: get_alerts_data_for_incident_def latest_def [abs_def] last_rows_def)
  show ?thesis
  proof (cases "get_alerts_data_for_incident t fs s")
    case (Inl err)
    with assms Some show ?thesis by (intro that(2)) (auto simp: remove_alerts_to_incident_by_incident_id_def same)
  next
    case (Inr d)
    show ?thesis
    proof (cases "remaining i (unlink_all env t i fs s) = []")
      case True
      with assms Some Inr show ?thesis by (intro that(3)) (auto simp: remove_alerts_to_incident_by_incident_id_def same)
    next
      case False
      with assms Some Inr show ?thesis by (intro that(2)) (auto simp: remove_alerts_to_incident_by_incident_id_def same)
    qed
  qed
qed

lemma removed_counts:
  assumes "remove_alerts_to_incident_by_incident_id env t i fs s = (s', Inr v)" and "counts s"
  shows "counts s'"
  using assms(1)
proof (cases rule: removed)
  case (3 n inc)
  show ?thesis unfolding 3(4) by (rule recounted [OF assms(2)]) auto
qed (use assms(2) in auto)

lemma found_incident: "get_incident_by_id t i s = Some r \<Longrightarrow> r \<in> set (is_rows s) \<and> is_incident t i r"
  unfolding get_incident_by_id_def using find_holds by fastforce

lemma is_found: "get_incident_by_id t i s \<noteq> None \<longleftrightarrow> (\<exists>r \<in> set (is_rows s). is_incident t i r)"
  by (auto simp: get_incident_by_id_def find_None_iff)

lemma changed_rows: "is_rows (change_incident t i f s) = map (\<lambda>r. if is_incident t i r then f r else r) (is_rows s)"
  by (simp add: change_incident_def)

lemma still_found:
  assumes "get_incident_by_id t' i' s \<noteq> None" and "\<And>r. is_incident t i r \<Longrightarrow> f r ''tenant_id'' = r ''tenant_id'' \<and> f r ''id'' = r ''id''"
  shows "get_incident_by_id t' i' (change_incident t i f s) \<noteq> None"
proof -
  obtain r where r: "r \<in> set (is_rows s)" "is_incident t' i' r" using assms(1) unfolding is_found by blast
  then have "is_incident t' i' (if is_incident t i r then f r else r)" using same_incident [of f r] assms(2) by simp
  with r(1) show ?thesis unfolding is_found changed_rows set_map by blast
qed

lemma found_cong: "is_rows s' = is_rows s \<Longrightarrow> get_incident_by_id t i s' = get_incident_by_id t i s"
  by (simp add: get_incident_by_id_def)

definition good :: "incident_state \<Rightarrow> bool" where
  "good s = (counts s \<and> links_known s)"

lemma known_change:
  assumes "links_known s" and "\<And>r. is_incident t i r \<Longrightarrow> f r ''id'' = r ''id''"
  shows "links_known (change_incident t i f s)"
  unfolding links_known_def
proof
  fix l assume "l \<in> set (is_links (change_incident t i f s))"
  then obtain r where r: "r \<in> set (is_rows s)" "r ''id'' = JStr (ln_incident l)" using assms(1) by (auto simp: links_known_def)
  then have "(if is_incident t i r then f r else r) ''id'' = JStr (ln_incident l)" using assms(2) by simp
  with r(1) show "\<exists>r \<in> set (is_rows (change_incident t i f s)). r ''id'' = JStr (ln_incident l)" unfolding changed_rows set_map by blast
qed

lemma good_change:
  assumes "good s" and "\<And>r. is_incident t i r \<Longrightarrow> f r ''tenant_id'' = r ''tenant_id'' \<and> f r ''id'' = r ''id'' \<and> f r ''alerts_count'' = r ''alerts_count''"
  shows "good (change_incident t i f s)"
  unfolding good_def
proof
  from assms(1) have c: "counts s" and known: "links_known s" by (simp_all add: good_def)
  show "counts (change_incident t i f s)" by (rule changed_counts [OF c]) (rule assms(2))
  show "links_known (change_incident t i f s)" by (rule known_change [OF known]) (simp add: assms(2))
qed

lemma good_cong: "is_rows s' = is_rows s \<Longrightarrow> is_links s' = is_links s \<Longrightarrow> good s' = good s"
  unfolding good_def using counts_cong [of s' s] by simp

lemma known_link_all: "links_known s \<Longrightarrow> get_incident_by_id t i s \<noteq> None \<Longrightarrow> links_known (link_all t i b fs s)"
  unfolding links_known_def is_found by (auto simp: link_all_def is_incident_def)

lemma known_unlink_all: "links_known s \<Longrightarrow> links_known (unlink_all env t i fs s)"
  unfolding links_known_def by (simp add: unlink_all_def)

lemma added_good:
  assumes "add_alerts_to_incident env t inc i fs b oc ex s = (s', Inr ())" and "good s" and "get_incident_by_id t i s \<noteq> None"
  shows "good s'" "get_incident_by_id t' i' s \<noteq> None \<Longrightarrow> get_incident_by_id t' i' s' \<noteq> None"
proof -
  have "links_known s'" using assms(1)
  proof (cases rule: added)
    case (2 new)
    then show ?thesis using assms(2,3) by (auto simp: good_def intro!: known_change known_link_all)
  qed (use assms(2) in \<open>simp add: good_def\<close>)
  then show "good s'" using added_counts [OF assms(1)] assms(2) by (simp add: good_def)
  show "get_incident_by_id t' i' s \<noteq> None \<Longrightarrow> get_incident_by_id t' i' s' \<noteq> None"
    using assms(1)
  proof (cases rule: added)
    case (2 new)
    assume "get_incident_by_id t' i' s \<noteq> None"
    then have "get_incident_by_id t' i' (link_all t i b new s) \<noteq> None" by (simp add: get_incident_by_id_def)
    then show ?thesis unfolding 2(4) by (rule still_found) simp
  qed simp
qed

lemma removed_good:
  assumes "remove_alerts_to_incident_by_incident_id env t i fs s = (s', Inr v)" and "good s"
  shows "good s'" "get_incident_by_id t' i' s \<noteq> None \<Longrightarrow> get_incident_by_id t' i' s' \<noteq> None"
proof -
  have "links_known s'" using assms(1)
  proof (cases rule: removed)
    case (3 n inc)
    then show ?thesis using assms(2) by (auto simp: good_def intro!: known_change known_unlink_all)
  qed (use assms(2) in \<open>simp_all add: good_def\<close>)
  then show "good s'" using removed_counts [OF assms(1)] assms(2) by (simp add: good_def)
  show "get_incident_by_id t' i' s \<noteq> None \<Longrightarrow> get_incident_by_id t' i' s' \<noteq> None"
    using assms(1)
  proof (cases rule: removed)
    case (3 n inc)
    assume "get_incident_by_id t' i' s \<noteq> None"
    then have "get_incident_by_id t' i' (unlink_all env t i fs s) \<noteq> None" by (simp add: get_incident_by_id_def)
    then show ?thesis unfolding 3(4) by (rule still_found) simp
  qed simp_all
qed

lemma mark_keeps [simp]: "mark_merged env i who r ''tenant_id'' = r ''tenant_id''" "mark_merged env i who r ''id'' = r ''id''"
  "mark_merged env i who r ''alerts_count'' = r ''alerts_count''"
  by (simp_all add: mark_merged_def)

abbreviation mark_all :: "incident_env \<Rightarrow> string \<Rightarrow> string \<Rightarrow> string \<Rightarrow> string list \<Rightarrow> incident_state \<Rightarrow> incident_state" where
  "mark_all env t i who \<equiv> fold (\<lambda>x. change_incident t x (mark_merged env i who))"

lemma marked_fields [simp]: "is_links (mark_all env t i who xs s) = is_links s" "is_out (mark_all env t i who xs s) = is_out s"
  "is_alerts (mark_all env t i who xs s) = is_alerts s" "linked t' i' (mark_all env t i who xs s) = linked t' i' s"
  by (induction xs arbitrary: s) simp_all

lemma marked_good: "good s \<Longrightarrow> good (mark_all env t i who xs s)"
proof (induction xs arbitrary: s)
  case (Cons x xs)
  have "good (change_incident t x (mark_merged env i who) s)" by (rule good_change [OF Cons.prems]) simp
  from Cons.IH [OF this] show ?case by simp
qed simp

lemma marked_found: "get_incident_by_id t' i' s \<noteq> None \<Longrightarrow> get_incident_by_id t' i' (mark_all env t i who xs s) \<noteq> None"
proof (induction xs arbitrary: s)
  case (Cons x xs)
  have "get_incident_by_id t' i' (change_incident t x (mark_merged env i who) s) \<noteq> None"
    using Cons.prems by (rule still_found) simp
  from Cons.IH [OF this] show ?case by simp
qed simp

lemma merged_good:
  assumes "merge_all env t i who inc pending xs s = (s', Inr ())" and "good s" and "get_incident_by_id t i s \<noteq> None"
  shows "good s'"
  using assms
proof (induction env t i who inc pending xs s rule: merge_all.induct)
  case (2 env t i who inc pending x fs rest s)
  obtain s1 n where rm: "remove_alerts_to_incident_by_incident_id env t x fs s = (s1, Inr n)"
    using 2(3) by (auto split: prod.splits sum.splits)
  note g1 = removed_good [OF rm 2(4)]
  show ?case
  proof (cases "list_all (\<lambda>f. f \<in> set (linked t i s1)) fs")
    case True
    with 2(3) rm g1 2(5) show ?thesis by (intro 2(1) [OF rm [symmetric] refl]) simp_all
  next
    case False
    define m where "m = mark_all env t i who (pending @ [x]) s1"
    obtain s2 where add: "add_alerts_to_incident env t inc i fs False False False m = (s2, Inr ())"
      using 2(3) rm False by (auto simp: m_def split: prod.splits sum.splits)
    have m: "good m" "get_incident_by_id t i m \<noteq> None"
      unfolding m_def using marked_good [OF g1(1)] marked_found [OF g1(2) [OF 2(5)]] by blast+
    have "merge_all env t i who (case get_incident_by_id t i s2 of None \<Rightarrow> inc | Some r \<Rightarrow> r) [] rest s2 = (s', Inr ())"
      using 2(3) rm False add by (simp add: m_def)
    then show ?thesis
      using added_good [OF add m] m(2) by (intro 2(2) [OF rm [symmetric] refl False add [unfolded m_def, symmetric] refl]) simp_all
  qed
qed (auto simp: marked_good)

text \<open>A body that sets none of the three columns that name and count an incident.\<close>

definition own_columns :: "string list" where
  "own_columns = [''id'', ''tenant_id'', ''alerts_count'']"

definition plain_dto :: "incident_dto \<Rightarrow> bool" where
  "plain_dto d = list_all (\<lambda>(k, _). k \<notin> set own_columns) (dt_extras d)"

fun plain :: "incident_request \<Rightarrow> bool" where
  "plain (Create_incident d) = plain_dto d"
| "plain (Update_incident _ d _) = plain_dto d"
| "plain _ = True"

lemma set_columns_keep:
  "fold (set_column env) kvs (Inr r) = Inr r' \<Longrightarrow> \<forall>(k', _) \<in> set kvs. k' \<noteq> k \<Longrightarrow> r' k = r k"
proof (induction kvs arbitrary: r)
  case (Cons kv kvs)
  obtain k1 v1 where kv: "kv = (k1, v1)" by (cases kv)
  show ?case
  proof (cases "set_column env kv (Inr r)")
    case (Inl e)
    have "fold (set_column env) xs (Inl e) = Inl e" for xs by (induction xs) (simp_all add: set_column_def)
    with Cons.prems(1) Inl show ?thesis by simp
  next
    case (Inr r1)
    then have "r1 k = r k" using Cons.prems(2) kv by (auto simp: set_column_def split: if_split_asm)
    with Cons.IH [of r1] Cons.prems Inr show ?thesis by simp
  qed
qed simp

lemma updated_keeps:
  assumes "updated_row env by_ai d r = Inr r'" and "plain_dto d" and "k \<in> set own_columns"
  shows "r' k = r k"
proof -
  obtain r1 where r1: "fold (set_column env) (dto_dict d) (Inr r) = Inr r1"
      "r' = r1(''same_incident_in_the_past_id'' := dt_same_incident d, (if by_ai then ''generated_summary'' else ''user_summary'') := dt_user_summary d)"
    using assms(1) by (auto simp: updated_row_def)
  have "\<forall>(k', _) \<in> set (dto_dict d). k' \<noteq> k"
    using assms(2,3) by (auto simp: dto_dict_def own_columns_def plain_dto_def list_all_iff)
  then have "r1 k = r k" by (rule set_columns_keep [OF r1(1)])
  then show ?thesis using assms(3) r1(2) by (auto simp: own_columns_def)
qed

lemma updated_good:
  assumes "update_incident_from_dto_by_id env t i d by_ai s = (s', Inr v)" and "plain_dto d" and "good s"
  shows "good s'"
proof (cases "get_incident_by_id t i s")
  case None
  with assms(1,3) show ?thesis by (simp add: update_incident_from_dto_by_id_def)
next
  case (Some r)
  then have r: "r \<in> set (is_rows s)" "is_incident t i r" using found_incident by blast+
  obtain r' where r': "updated_row env by_ai d r = Inr r'" "s' = change_incident t i (\<lambda>_. r') s"
    using assms(1) Some by (auto simp: update_incident_from_dto_by_id_def Let_def split: sum.splits if_split_asm)
  have keep: "r' ''tenant_id'' = r ''tenant_id''" "r' ''id'' = r ''id''" "r' ''alerts_count'' = r ''alerts_count''"
    using updated_keeps [OF r'(1) assms(2)] by (simp_all add: own_columns_def)
  have "x ''alerts_count'' = r ''alerts_count''" if "x \<in> set (is_rows s)" "is_incident t i x" for x
  proof -
    have y: "\<And>y. y \<in> set (is_rows s) \<Longrightarrow> is_incident t i y \<Longrightarrow> y ''alerts_count'' = JInt (int (length (linked t i s)))"
      using assms(3) unfolding good_def counts_def by blast
    show ?thesis using y [OF that] y [OF r] by simp
  qed
  then have same: "s' = change_incident t i (\<lambda>x. if x ''alerts_count'' = r ''alerts_count'' then r' else x) s"
    unfolding r'(2) by (auto simp: change_incident_def)
  show ?thesis unfolding same
    by (rule good_change [OF assms(3)]) (use keep r(2) in \<open>auto simp: is_incident_def\<close>)
qed

lemma no_links_yet:
  assumes "links_known s" and "JStr i \<notin> (\<lambda>r. r ''id'') ` set (is_rows s)"
  shows "linked t i s = []"
proof -
  have "\<not> live t i l" if l: "l \<in> set (is_links s)" for l
  proof
    assume "live t i l"
    moreover obtain r where "r \<in> set (is_rows s)" "r ''id'' = JStr (ln_incident l)" using assms(1) l unfolding links_known_def by blast
    ultimately show False using assms(2) unfolding live_def image_iff by metis
  qed
  then show ?thesis by (simp add: linked_def filter_empty_conv)
qed

lemma own_column_cases: "k \<in> set own_columns \<Longrightarrow> k = ''id'' \<or> k = ''tenant_id'' \<or> k = ''alerts_count''"
  by (simp add: own_columns_def)

lemma not_given:
  assumes "plain_dto d" and "k \<in> set own_columns"
  shows "map_of (dto_dict d) k = None"
proof -
  have "map_of (dt_extras d) k = None" using assms by (auto simp: plain_dto_def list_all_iff map_of_eq_None_iff)
  then show ?thesis using own_column_cases [OF assms(2)] by (elim disjE) (simp_all add: dto_dict_def)
qed

lemma map_of_dict_set: "map_of (dict_set k v d) k' = (if k' = k then Some v else map_of d k')"
  by (simp add: dict_set_def update_conv')

lemma user_data_own:
  assumes "plain_dto d" and "k \<in> set own_columns"
  shows "map_of (candidate_data (user_data d)) k = None"
proof -
  have k: "k \<noteq> ''incident_type''" "k \<noteq> ''severity''" "k \<noteq> ''is_candidate''" using own_column_cases [OF assms(2)] by auto
  have "map_of (user_data d) k = None"
    using k not_given [OF assms] by (simp add: user_data_def Let_def map_of_dict_set split: option.split)
  then show ?thesis using k by (simp add: candidate_data_def map_of_dict_set)
qed

lemma created:
  assumes "create_incident_from_dict env t data s = (s', Inr r)"
  shows "r = set_running_number t s (new_row env (candidate_data data) t)" "\<not> breaks_key (is_rows s @ [r])"
    "is_rows s' = is_rows s @ [r]" "is_links s' = is_links s" "is_out s' = is_out s" "is_alerts s' = is_alerts s"
  using assms by (auto simp: create_incident_from_dict_def Let_def split: if_split_asm)

lemma created_good:
  assumes "create_incident_from_dto env t d s = (s', Inr r)" and "plain_dto d" and "good s"
  shows "good s'"
proof -
  note c = created [OF assms(1) [unfolded create_incident_from_dto_def]]
  have r: "r ''alerts_count'' = JInt 0"
    using user_data_own [OF assms(2)] by (simp add: c(1) set_running_number_def new_row_def default_incident_def own_columns_def)
  have fresh: "r ''id'' \<notin> (\<lambda>r. r ''id'') ` set (is_rows s)" using c(2) by (auto simp: breaks_key_def)
  have known: "links_known s" and counts: "counts s" using assms(3) by (simp_all add: good_def)
  have "r ''alerts_count'' = JInt (int (length (linked t' i' s)))" if "is_incident t' i' r" for t' i'
    using no_links_yet [OF known, of i' t'] fresh that r by (simp add: is_incident_def)
  then have "counts s'" using counts by (simp add: counts_def c(3,4) linked_def)
  moreover have "links_known s'" using known by (auto simp: links_known_def c(3,4))
  ultimately show ?thesis by (simp add: good_def)
qed

lemma merge_good:
  assumes "merge_incidents_to_id env t is i who s = (s', Inr v)" and "good s"
  shows "good s'"
proof -
  obtain inc where inc: "get_incident_by_id t i s = Some inc"
    using assms(1) by (auto simp: merge_incidents_to_id_def split: option.splits)
  obtain xs g where "apsnd (map_sum id g) (merge_all env t i who inc [] xs s) = (s', Inr v)"
    using assms(1) by (auto simp: merge_incidents_to_id_def Let_def inc)
  then have "merge_all env t i who inc [] xs s = (s', Inr ())"
    by (cases "merge_all env t i who inc [] xs s"; cases "snd (merge_all env t i who inc [] xs s)") auto
  then show ?thesis using merged_good [OF _ assms(2)] inc by simp
qed

lemma deleted_good: "bl_delete_incident t i s = (s', Inr v) \<Longrightarrow> good s \<Longrightarrow> good s'"
  unfolding bl_delete_incident_def delete_incident_by_id_def by (auto split: if_split_asm intro!: good_change)

lemma bulk_deleted_good: "bulk_delete_incidents t is s = (s', Inr v) \<Longrightarrow> good s \<Longrightarrow> good s'"
proof (induction "is" arbitrary: s)
  case (Cons i "is")
  obtain s1 where s1: "bl_delete_incident t i s = (s1, Inr ())" using Cons.prems(1) by (auto split: prod.splits sum.splits)
  from Cons.IH [of s1] deleted_good [OF s1 Cons.prems(2)] Cons.prems(1) s1 show ?case by simp
qed simp

lemma status_good: "change_status env t i new who d s = (s', res) \<Longrightarrow> good s \<Longrightarrow> good s'"
  unfolding change_status_def Let_def
  by (auto split: option.split_asm if_split_asm intro!: good_change simp: good_cong [of "add_audit a b c d e x" x for a b c d e x])

lemma severity_good: "bl_update_severity t i v comment who s = (s', res) \<Longrightarrow> good s \<Longrightarrow> good s'"
  unfolding bl_update_severity_def update_incident_severity_def Let_def
  by (auto split: option.split_asm if_split_asm list.split_asm intro!: good_change simp: good_cong [of "add_audit a b c d e x" x for a b c d e x])

lemma service_write_keeps: "write_incident env t a s = (s', res) \<Longrightarrow> is_rows s' = is_rows s \<and> is_links s' = is_links s"
  by (auto simp: write_incident_def split: prod.splits sum.splits)

lemma comment_keeps: "add_comment env who i c tagged s = (s', res) \<Longrightarrow> is_rows s' = is_rows s \<and> is_links s' = is_links s"
  by (auto simp: add_comment_def Let_def)

lemma good_counted [simp]: "good (counted env who a s) = good s"
  by (rule good_cong) simp_all

lemma good_add_audit [simp]: "good (add_audit t f who ty msg s) = good s"
  by (rule good_cong) simp_all

lemma good_audit_assignee [simp]: "good (audit_assignee who i d r s) = good s"
  by (simp add: audit_assignee_def split: option.split list.split)

lemma served_good:
  assumes "serve_incident env who q s = (s', Inr ())" and "plain q" and "good s"
  shows "good s'"
proof (cases q)
  case (Create_incident d)
  then show ?thesis using assms by (auto simp: create_incident_def if_done_eq intro: created_good)
next
  case (Update_incident i d by_ai)
  obtain r where "if_done (counted env who ''update'') (bl_update_incident env (tenant_id who) i d by_ai (audit_assignee who i d r s)) = (s', Inr ())"
    using assms(1) Update_incident by (auto simp: update_incident_def split: option.split_asm)
  moreover define s0 where "s0 = audit_assignee who i d r s"
  ultimately have s0: "good s0" "if_done (counted env who ''update'') (bl_update_incident env (tenant_id who) i d by_ai s0) = (s', Inr ())"
    using assms(3) by simp_all
  then obtain s1 v where "update_incident_from_dto_by_id env (tenant_id who) i d by_ai s0 = (s1, Inr v)" "s' = counted env who ''update'' s1"
    by (auto simp: if_done_eq bl_update_incident_def split: prod.split_asm sum.split_asm option.split_asm)
  with updated_good [OF this(1) _ s0(1)] assms(2) Update_incident show ?thesis by simp
next
  case (Delete_incident i)
  then show ?thesis using assms by (auto simp: delete_incident_def if_done_eq intro: deleted_good)
next
  case (Bulk_delete "is")
  then show ?thesis using assms by (auto simp: bulk_delete_route_def if_done_eq intro: bulk_deleted_good)
next
  case (Split_incident i dest fs)
  obtain s1 where add: "bl_add_alerts_to_incident env (tenant_id who) dest fs False False s = (s1, Inr ())"
      and del: "bl_delete_alerts_from_incident env (tenant_id who) i fs s1 = (s', Inr ())"
    using assms(1) Split_incident by (auto simp: split_incident_def split: prod.split_asm sum.split_asm)
  have "good s1" using add assms(3) added_good(1) by (auto simp: bl_add_alerts_to_incident_def split: option.split_asm)
  then show ?thesis using del removed_good(1) by (auto simp: bl_delete_alerts_from_incident_def apsnd_eq map_sum_is_Inr split: if_split_asm)
next
  case (Merge_incidents "is" i)
  then show ?thesis using assms by (auto simp: merge_incidents_def if_done_eq intro: merge_good)
next
  case (Add_alerts i fs by_ai)
  then show ?thesis using assms added_good(1) by (auto simp: bl_add_alerts_to_incident_def split: option.split_asm)
next
  case (Delete_alerts i fs)
  then show ?thesis using assms removed_good(1) by (auto simp: bl_delete_alerts_from_incident_def apsnd_eq map_sum_is_Inr split: if_split_asm)
next
  case (Assign_incident i)
  then show ?thesis using assms by (auto simp: assign_incident_def split: if_split_asm intro!: good_change)
next
  case (Change_status i new dispose)
  then show ?thesis using assms by (auto simp: if_done_eq intro: status_good)
next
  case (Change_severity i v comment)
  then show ?thesis using assms by (auto simp: if_done_eq intro: severity_good)
next
  case (Comment_incident i c tagged)
  then have "is_rows s' = is_rows s \<and> is_links s' = is_links s" using assms(1) comment_keeps by simp
  then show ?thesis using good_cong [of s' s] assms(3) by simp
next
  case (Confirm_incident i)
  then show ?thesis using assms
    by (auto simp: confirm_incident_def if_done_eq confirm_predicted_incident_by_id_def Let_def option_res_def split: option.split_asm intro!: good_change)
next
  case (Enrich_incident i e force)
  then have "is_rows s' = is_rows s \<and> is_links s' = is_links s" using assms(1) service_write_keeps
    by (simp add: enrich_incident_route_def split: if_split_asm)
  then show ?thesis using good_cong [of s' s] assms(3) by simp
next
  case (Unenrich_incident i f ks)
  then have "is_rows s' = is_rows s \<and> is_links s' = is_links s" using assms(1) service_write_keeps
    by (simp add: unenrich_incident_def split: if_split_asm option.split_asm)
  then show ?thesis using good_cong [of s' s] assms(3) by simp
qed

text \<open>What requests that succeed make of the incidents, one after another.\<close>

inductive served :: "incident_state \<Rightarrow> incident_state \<Rightarrow> bool" where
  served_none: "served s s"
| served_next: "served s s' \<Longrightarrow> plain q \<Longrightarrow> serve_incident env who q s' = (s'', Inr ()) \<Longrightarrow> served s s''"

text \<open>
  C24: the number of alerts an incident shows is the number of alerts linked to it.  That stays so through any
  requests that succeed (creating, changing, splitting, merging, linking and unlinking among them), whoever
  makes them, provided no body sets an id, a tenant or the number itself.
\<close>

theorem counts_follow_links:
  assumes "served s s'" and "links_known s" and "counts s"
  shows "counts s'"
proof -
  have "good s'" using assms
  proof (induction rule: served.induct)
    case (served_none s)
    then show ?case by (simp add: good_def)
  qed (simp add: served_good)
  then show ?thesis by (simp add: good_def)
qed

definition quiet_env :: incident_env where
  "quiet_env = \<lparr>now = 9, fresh_id = ''n'', listed = id, coerce = (\<lambda>k v. Some v), accepts = (\<lambda>k v. True), attribute = (\<lambda>k v. False),
     request_source = ''ui'', producer_given = True\<rparr>"

definition sample_row :: "string \<Rightarrow> int \<Rightarrow> incident" where
  "sample_row i n = (default_incident (quiet_env\<lparr>fresh_id := i\<rparr>))(''tenant_id'' := JStr ''t'', ''running_number'' := JInt n)"

definition sample_alert :: "nat \<Rightarrow> string \<Rightarrow> alert_row" where
  "sample_alert n f = \<lparr>al_id = n, al_tenant = ''t'', al_fingerprint = f, al_timestamp = 1, al_received = None,
     al_service = Some ''web'', al_provider = ''p'', al_severity = Some ''high'', al_status = Some ''firing''\<rparr>"

definition sample_last :: "nat \<Rightarrow> string \<Rightarrow> last_alert_row" where
  "sample_last n f = \<lparr>la_tenant = ''t'', la_fingerprint = f, la_hash = None, la_alert_id = n, la_timestamp = 1, la_first_timestamp = 1,
     la_columns = default_columns\<rparr>"

text \<open>Two incidents and two alerts, nothing linked yet.\<close>

definition sample_state :: incident_state where
  "sample_state = \<lparr>is_out = sample_outside\<lparr>out_db := (out_db sample_outside)\<lparr>edb_last := [sample_last 1 ''f'', sample_last 2 ''g'']\<rparr>\<rparr>,
     is_alerts = [sample_alert 1 ''f'', sample_alert 2 ''g''], is_links = [], is_rows = [sample_row ''a'' 1, sample_row ''b'' 2],
     is_mentions = [], is_opened = []\<rparr>"

definition both_linked :: incident_state where
  "both_linked = fst (serve_incident quiet_env sample_user (Add_alerts ''a'' [''f'', ''g''] False) sample_state)"

lemma both_linked_facts: "map (\<lambda>r. r ''alerts_count'') (is_rows both_linked) = [JInt 2, JInt 0]" "linked ''t'' ''a'' both_linked = [''f'', ''g'']"
  "snd (serve_incident quiet_env sample_user (Add_alerts ''a'' [''f'', ''g''] False) sample_state) = Inr ()"
  by code_simp+

lemma sample_counts: "links_known sample_state" "counts sample_state"
  by (simp add: links_known_def sample_state_def)
    (simp add: counts_def sample_state_def linked_def sample_row_def default_incident_def)

lemma linking_both: "serve_incident quiet_env sample_user (Add_alerts ''a'' [''f'', ''g''] False) sample_state = (both_linked, Inr ())"
  by (rule prod_eqI) (simp_all only: both_linked_def both_linked_facts(3) fst_conv snd_conv)

lemma both_linked_counts: "counts both_linked"
  using served_good [OF linking_both] sample_counts by (simp add: good_def)

theorem counts_follow_links_witness: "counts both_linked"
proof -
  have "served sample_state both_linked"
    by (rule served_next [OF served_none _ linking_both]) simp
  from counts_follow_links [OF this sample_counts] show ?thesis .
qed

section \<open>Unlinking some of the alerts fails\<close>

lemma severities_error: "severities_of as = Inl err \<Longrightarrow> err = Value_err"
  by (induction as) (auto simp: rbind_eq_Inl split: option.splits list.splits)

lemma alerts_data_error: "get_alerts_data_for_incident t fs s = Inl err \<Longrightarrow> err = Value_err"
  by (auto simp: get_alerts_data_for_incident_def Let_def rbind_eq_Inl dest: severities_error)

lemma latest_cong: "is_out s' = is_out s \<Longrightarrow> is_alerts s' = is_alerts s \<Longrightarrow> latest t s' f = latest t s f"
  by (simp add: latest_def last_rows_def)

lemma some_remain:
  assumes "f \<in> set (linked t i s)" and "f \<notin> set fs" and "latest t s f \<noteq> []"
  shows "remaining i (unlink_all env t i fs s) \<noteq> []"
proof -
  from assms(1) obtain l where l: "l \<in> set (is_links s)" "live t i l" "ln_fingerprint l = f" by (auto simp: linked_def)
  with assms(2) have "unlink env t i fs l = l" by (simp add: unlink_def)
  with l(1) have "l \<in> set (is_links (unlink_all env t i fs s))" unfolding unlink_all_def by (simp add: image_iff) metis
  moreover have "latest (ln_tenant l) (unlink_all env t i fs s) (ln_fingerprint l) \<noteq> []"
    using assms(3) l latest_cong [of "unlink_all env t i fs s" s] by (simp add: live_def)
  ultimately show ?thesis using l(2) unfolding remaining_def live_def by auto
qed

text \<open>
  C25: taking away some of the alerts of an incident fails.  When one alert is to stay, the links of the others
  are marked as removed and that is committed; the severity of the alert that stays is then read with a
  function that is defined nowhere.  The request ends in an error, and the incident keeps the number, times,
  services and severity it had, so that its number of alerts is wrong from then on.
\<close>

theorem partial_removal_fails:
  assumes "get_incident_by_id (tenant_id who) i s \<noteq> None" and "f \<in> set (linked (tenant_id who) i s)" and "f \<notin> set fs"
    and "latest (tenant_id who) s f \<noteq> []" and "serve_incident env who (Delete_alerts i fs) s = (s', res)"
  shows "(res = Inl Name_err \<or> res = Inl Value_err) \<and> is_rows s' = is_rows s \<and>
    linked (tenant_id who) i s' = filter (\<lambda>f. f \<notin> set fs) (linked (tenant_id who) i s) \<and>
    (counts s \<and> set fs \<inter> set (linked (tenant_id who) i s) \<noteq> {} \<longrightarrow> \<not> counts s')"
proof -
  let ?t = "tenant_id who"
  obtain inc where inc: "get_incident_by_id ?t i s = Some inc" using assms(1) by blast
  obtain r0 where rm: "remove_alerts_to_incident_by_incident_id env ?t i fs s = (s', r0)" "res = map_sum id (\<lambda>_. ()) r0"
    using assms(5) inc by (auto simp: bl_delete_alerts_from_incident_def apsnd_eq)
  have res: "s' = unlink_all env ?t i fs s" "res = Inl Name_err \<or> res = Inl Value_err"
    using rm some_remain [OF assms(2-4), of env] inc alerts_data_error by (cases rule: removed [OF rm(1)]; force)+
  moreover have "\<not> counts s'" if c: "counts s" and f': "f' \<in> set fs" "f' \<in> set (linked ?t i s)" for f'
  proof
    assume "counts s'"
    moreover have r: "inc \<in> set (is_rows s)" "is_incident ?t i inc" using found_incident [OF inc] by blast+
    ultimately have "length (linked ?t i s') = length (linked ?t i s)" using c res(1) unfolding counts_def by fastforce
    moreover have "length (linked ?t i s') < length (linked ?t i s)" using f' by (auto simp: res(1) intro: length_filter_less)
    ultimately show False by simp
  qed
  ultimately show ?thesis by auto
qed

theorem partial_removal_fails_witness:
  "snd (serve_incident quiet_env sample_user (Delete_alerts ''a'' [''f'']) both_linked) = Inl Name_err \<and>
   \<not> counts (fst (serve_incident quiet_env sample_user (Delete_alerts ''a'' [''f'']) both_linked))"
proof -
  let ?r = "serve_incident quiet_env sample_user (Delete_alerts ''a'' [''f'']) both_linked"
  have t: "tenant_id sample_user = ''t''" by (simp add: sample_user_def)
  have ok: "snd ?r = Inl Name_err" by code_simp
  have found: "get_incident_by_id (tenant_id sample_user) ''a'' both_linked \<noteq> None" unfolding is_found t by code_simp
  have latest: "latest (tenant_id sample_user) both_linked ''g'' \<noteq> []" unfolding t by code_simp
  have link: "''g'' \<in> set (linked (tenant_id sample_user) ''a'' both_linked)" "''g'' \<notin> set [''f'']" by (simp_all add: t both_linked_facts(2))
  from partial_removal_fails [OF found link latest prod.collapse [symmetric]] both_linked_counts
  have "\<not> counts (fst ?r)" unfolding t both_linked_facts(2) by auto
  with ok show ?thesis by blast
qed

section \<open>Merging\<close>

definition marked :: "string \<Rightarrow> string \<Rightarrow> string \<Rightarrow> incident_state \<Rightarrow> bool" where
  "marked t i x s = (\<forall>r \<in> set (is_rows s). is_incident t x r \<longrightarrow>
     r ''status'' = JStr (status_value MERGED) \<and> r ''merged_into_incident_id'' = JStr i)"

lemma marked_change:
  assumes "marked t i x s" and "\<And>r. is_incident t y r \<Longrightarrow> f r ''tenant_id'' = r ''tenant_id'' \<and> f r ''id'' = r ''id''"
    and "\<And>r. is_incident t y r \<Longrightarrow> r ''status'' = JStr (status_value MERGED) \<and> r ''merged_into_incident_id'' = JStr i \<Longrightarrow>
      f r ''status'' = JStr (status_value MERGED) \<and> f r ''merged_into_incident_id'' = JStr i"
  shows "marked t i x (change_incident t y f s)"
proof -
  define g where "g r = (if is_incident t y r then f r else r)" for r
  have "g r ''status'' = JStr (status_value MERGED) \<and> g r ''merged_into_incident_id'' = JStr i"
    if "r \<in> set (is_rows s)" "is_incident t x (g r)" for r
  proof (cases "is_incident t y r")
    case True
    then have "is_incident t x r" using that same_incident [of f r t x] assms(2) by (simp add: g_def)
    then show ?thesis using that(1) True assms(1,3) by (simp add: marked_def g_def)
  qed (use that assms(1) in \<open>simp add: marked_def g_def\<close>)
  moreover have "is_rows (change_incident t y f s) = map g (is_rows s)" by (simp add: changed_rows g_def)
  ultimately show ?thesis unfolding marked_def by simp
qed

lemma merge_marks [simp]: "mark_merged env i who r ''status'' = JStr (status_value MERGED)"
  "mark_merged env i who r ''merged_into_incident_id'' = JStr i"
  by (simp_all add: mark_merged_def)

lemma marked_kept: "marked t i x s \<Longrightarrow> marked t i x (mark_all env t i who xs s)"
proof (induction xs arbitrary: s)
  case (Cons y xs)
  have "marked t i x (change_incident t y (mark_merged env i who) s)" by (rule marked_change [OF Cons.prems]) simp_all
  from Cons.IH [OF this] show ?case by simp
qed simp

lemma marked_all: "x \<in> set xs \<Longrightarrow> marked t i x (mark_all env t i who xs s)"
proof (induction xs arbitrary: s)
  case (Cons y xs)
  show ?case
  proof (cases "x = y")
    case True
    have "marked t i y (change_incident t y (mark_merged env i who) s)"
      unfolding marked_def changed_rows by (auto simp: is_incident_def)
    from marked_kept [OF this] True show ?thesis by simp
  next
    case False
    with Cons.IH Cons.prems show ?thesis by simp
  qed
qed simp

lemma marked_cong: "is_rows s' = is_rows s \<Longrightarrow> marked t i x s' = marked t i x s"
  by (simp add: marked_def)

lemma added_marked:
  assumes "add_alerts_to_incident env t inc y fs b oc ex s = (s', Inr ())" and "marked t i x s"
  shows "marked t i x s'"
  using assms(1)
proof (cases rule: added)
  case (2 new)
  have "marked t i x (link_all t y b new s)" using assms(2) marked_cong [of "link_all t y b new s" s] by simp
  then show ?thesis unfolding 2(4) by (rule marked_change) simp_all
qed (use assms(2) in simp)

lemma removed_marked:
  assumes "remove_alerts_to_incident_by_incident_id env t y fs s = (s', Inr v)" and "marked t i x s"
  shows "marked t i x s'"
  using assms(1)
proof (cases rule: removed)
  case (3 n inc)
  have "marked t i x (unlink_all env t y fs s)" using assms(2) marked_cong [of "unlink_all env t y fs s" s] by simp
  then show ?thesis unfolding 3(4) by (rule marked_change) simp_all
qed (use assms(2) in auto)

lemma removed_linked:
  assumes "remove_alerts_to_incident_by_incident_id env t y fs s = (s', Inr v)" and "get_incident_by_id t y s \<noteq> None"
  shows "linked t' x s' = (if t' = t \<and> x = y then filter (\<lambda>f. f \<notin> set fs) (linked t y s) else linked t' x s)"
  using assms by (cases rule: removed [OF assms(1)]) auto

lemma merged_moves:
  assumes "merge_all env t i who inc pending xs s = (s', Inr ())"
    and "\<forall>(x, fs) \<in> set xs. x \<noteq> i \<and> set (linked t x s) \<subseteq> set fs \<and> get_incident_by_id t x s \<noteq> None"
  shows "(\<forall>x \<in> set pending \<union> fst ` set xs. marked t i x s') \<and> (\<forall>x \<in> fst ` set xs. linked t x s' = []) \<and>
    (\<forall>x. linked t x s = [] \<and> x \<noteq> i \<longrightarrow> linked t x s' = []) \<and> (\<forall>x. marked t i x s \<longrightarrow> marked t i x s') \<and>
    set (linked t i s') = set (linked t i s) \<union> \<Union> (set ` snd ` set xs)"
  using assms
proof (induction env t i who inc pending xs s rule: merge_all.induct)
  case (1 env t i who inc pending s)
  then have s': "s' = mark_all env t i who pending s" by simp
  show ?case unfolding s' using marked_kept marked_all by simp
next
  case (2 env t i who inc pending x fs rest s)
  obtain s1 n where rm: "remove_alerts_to_incident_by_incident_id env t x fs s = (s1, Inr n)"
    using 2(3) by (auto split: prod.splits sum.splits)
  from 2(4) have x: "x \<noteq> i" "set (linked t x s) \<subseteq> set fs" "get_incident_by_id t x s \<noteq> None" by simp_all
  have l1: "linked t y s1 = (if y = x then [] else linked t y s)" for y
    using removed_linked [OF rm x(3), of t y] x(2) by (auto simp: filter_empty_conv)
  have found1: "get_incident_by_id t y s \<noteq> None \<Longrightarrow> get_incident_by_id t y s1 \<noteq> None" for y
    using rm
  proof (cases rule: removed)
    case (3 n' inc')
    assume "get_incident_by_id t y s \<noteq> None"
    then have "get_incident_by_id t y (unlink_all env t x fs s) \<noteq> None" by (simp add: get_incident_by_id_def)
    then show ?thesis unfolding 3(4) by (rule still_found) simp
  qed simp_all
  have rest1: "\<forall>(y, gs) \<in> set rest. y \<noteq> i \<and> set (linked t y s1) \<subseteq> set gs \<and> get_incident_by_id t y s1 \<noteq> None"
  proof clarify
    fix y gs assume y: "(y, gs) \<in> set rest"
    with 2(4) have old: "y \<noteq> i" "set (linked t y s) \<subseteq> set gs" "get_incident_by_id t y s \<noteq> None" by auto
    then show "y \<noteq> i \<and> set (linked t y s1) \<subseteq> set gs \<and> get_incident_by_id t y s1 \<noteq> None"
      using l1 [of y] found1 by simp
  qed
  show ?case
  proof (cases "list_all (\<lambda>f. f \<in> set (linked t i s1)) fs")
    case True
    with 2(3) rm have run: "merge_all env t i who inc (pending @ [x]) rest s1 = (s', Inr ())" by simp
    from 2(1) [OF rm [symmetric] refl True run rest1]
    show ?thesis using l1 removed_marked [OF rm] x(1) True by (auto simp: list_all_iff)
  next
    case False
    define m where "m = mark_all env t i who (pending @ [x]) s1"
    obtain s2 where add: "add_alerts_to_incident env t inc i fs False False False m = (s2, Inr ())"
      using 2(3) rm False by (auto simp: m_def split: prod.splits sum.splits)
    have l2: "set (linked t i s2) = set (linked t i s1) \<union> set fs" "y \<noteq> i \<Longrightarrow> linked t y s2 = linked t y s1" for y
      using added_linked(1,2) [OF add] by (simp_all add: m_def)
    have run: "merge_all env t i who (case get_incident_by_id t i s2 of None \<Rightarrow> inc | Some r \<Rightarrow> r) [] rest s2 = (s', Inr ())"
      using 2(3) rm False add by (simp add: m_def)
    have found2: "get_incident_by_id t y s1 \<noteq> None \<Longrightarrow> get_incident_by_id t y s2 \<noteq> None" for y
      using add
    proof (cases rule: added)
      case 1
      assume "get_incident_by_id t y s1 \<noteq> None"
      then have "get_incident_by_id t y m \<noteq> None" unfolding m_def by (rule marked_found)
      then show ?thesis unfolding 1(1) .
    next
      case (2 new)
      assume "get_incident_by_id t y s1 \<noteq> None"
      then have "get_incident_by_id t y m \<noteq> None" unfolding m_def by (rule marked_found)
      then have "get_incident_by_id t y (link_all t i False new m) \<noteq> None" by (simp add: get_incident_by_id_def)
      then show ?thesis unfolding 2(4) by (rule still_found) simp
    qed
    have rest2: "\<forall>(y, gs) \<in> set rest. y \<noteq> i \<and> set (linked t y s2) \<subseteq> set gs \<and> get_incident_by_id t y s2 \<noteq> None"
    proof clarify
      fix y gs assume "(y, gs) \<in> set rest"
      with rest1 have old: "y \<noteq> i" "set (linked t y s1) \<subseteq> set gs" "get_incident_by_id t y s1 \<noteq> None" by auto
      then show "y \<noteq> i \<and> set (linked t y s2) \<subseteq> set gs \<and> get_incident_by_id t y s2 \<noteq> None"
        using l2(2) found2 by simp
    qed
    have marks: "marked t i y s2" if "y \<in> set (pending @ [x]) \<or> marked t i y s" for y
      using that marked_all [of y "pending @ [x]"] marked_kept removed_marked [OF rm, of i y] added_marked [OF add, of i y] unfolding m_def by blast
    from 2(2) [OF rm [symmetric] refl False add [unfolded m_def, symmetric] refl run rest2]
    show ?thesis using l1 l2 marks x(1) by auto
  qed
qed

text \<open>Every linked alert has its row, under its own fingerprint.\<close>

definition alerts_known :: "string \<Rightarrow> incident_state \<Rightarrow> bool" where
  "alerts_known t s = (\<forall>l \<in> set (is_links s). ln_tenant l = t \<longrightarrow> set (map al_fingerprint (latest t s (ln_fingerprint l))) = {ln_fingerprint l})"

lemma source_alerts_set:
  assumes "alerts_known t s"
  shows "set (source_alerts t x s) = set (linked t x s)"
proof -
  have "set (map al_fingerprint (latest t s f)) = {f}" if "f \<in> set (linked t x s)" for f
    using assms that by (auto simp: alerts_known_def linked_def live_def)
  then have "(\<Union>f \<in> set (linked t x s). set (map al_fingerprint (latest t s f))) = (\<Union>f \<in> set (linked t x s). {f})"
    by (intro SUP_cong refl)
  then show ?thesis by (simp add: source_alerts_def image_UN)
qed

definition merge_sources :: "string \<Rightarrow> string list \<Rightarrow> incident_state \<Rightarrow> string set" where
  "merge_sources t is s = {j \<in> set is. get_incident_by_id t j s \<noteq> None}"

lemma merge_sources_listed:
  "set (map row_id (filter (\<lambda>r. r ''tenant_id'' = JStr t \<and> r ''id'' \<in> JStr ` set is) (is_rows s))) = merge_sources t is s"
  (is "?L = _")
proof (rule set_eqI)
  fix j
  show "j \<in> ?L \<longleftrightarrow> j \<in> merge_sources t is s"
  proof
    assume "j \<in> ?L"
    then obtain r where "r \<in> set (is_rows s)" "r ''tenant_id'' = JStr t" "r ''id'' \<in> JStr ` set is" "j = row_id r" by auto
    then show "j \<in> merge_sources t is s" unfolding merge_sources_def is_found by (auto simp: row_id_def is_incident_def)
  next
    assume "j \<in> merge_sources t is s"
    then obtain r where r: "j \<in> set is" "r \<in> set (is_rows s)" "is_incident t j r" unfolding merge_sources_def is_found by auto
    then have "row_id r = j" by (simp add: row_id_def is_incident_def)
    with r show "j \<in> ?L" by (force simp: is_incident_def)
  qed
qed

text \<open>
  C26: merging moves every alert.  When a merge succeeds, into an incident that is not among its sources, each
  source that exists has lost all its alerts and is marked as merged into the destination, and the destination
  has its own alerts and those of all sources.  Sources that do not exist are passed over.
\<close>

theorem merge_moves_alerts:
  assumes "serve_incident env who (Merge_incidents is dest) s = (s', Inr ())" and "dest \<notin> set is" and "alerts_known (tenant_id who) s"
  shows "(\<forall>j \<in> merge_sources (tenant_id who) is s. linked (tenant_id who) j s' = [] \<and> marked (tenant_id who) dest j s') \<and>
    set (linked (tenant_id who) dest s') = set (linked (tenant_id who) dest s) \<union> (\<Union>j \<in> merge_sources (tenant_id who) is s. set (linked (tenant_id who) j s))"
proof -
  let ?t = "tenant_id who"
  define srcs where "srcs = map row_id (filter (\<lambda>r. r ''tenant_id'' = JStr ?t \<and> r ''id'' \<in> JStr ` set is) (is_rows s))"
  have srcs: "set srcs = merge_sources ?t is s" unfolding srcs_def by (rule merge_sources_listed)
  define xs where "xs = map (\<lambda>x. (x, source_alerts ?t x s)) srcs"
  obtain v where v: "merge_incidents_to_id env ?t is dest (email who) s = (s', Inr v)"
    using assms(1) by (auto simp: merge_incidents_def if_done_eq)
  then obtain inc where inc: "get_incident_by_id ?t dest s = Some inc" by (auto simp: merge_incidents_to_id_def split: option.splits)
  obtain u where "merge_all env ?t dest (email who) inc [] xs s = (s', Inr u)"
    using v inc unfolding merge_incidents_to_id_def Let_def srcs_def [symmetric] xs_def [symmetric] by (auto simp: apsnd_eq map_sum_is_Inr)
  then have run: "merge_all env ?t dest (email who) inc [] xs s = (s', Inr ())" by simp
  have ok: "\<forall>(x, fs) \<in> set xs. x \<noteq> dest \<and> set (linked ?t x s) \<subseteq> set fs \<and> get_incident_by_id ?t x s \<noteq> None"
    using assms(2) srcs source_alerts_set [OF assms(3)] by (auto simp: xs_def merge_sources_def)
  have "fst ` set xs = merge_sources ?t is s" by (simp add: xs_def image_image srcs)
  moreover have "\<Union> (set ` snd ` set xs) = (\<Union>j \<in> merge_sources ?t is s. set (linked ?t j s))"
    by (simp add: xs_def image_image srcs source_alerts_set [OF assms(3)])
  ultimately show ?thesis using merged_moves [OF run ok] by auto
qed

theorem merge_moves_alerts_witness:
  "let s' = fst (serve_incident quiet_env sample_user (Merge_incidents [''a'', ''c''] ''b'') both_linked)
   in linked ''t'' ''a'' s' = [] \<and> marked ''t'' ''b'' ''a'' s' \<and> {''f'', ''g''} \<subseteq> set (linked ''t'' ''b'' s')"
proof -
  let ?r = "serve_incident quiet_env sample_user (Merge_incidents [''a'', ''c''] ''b'') both_linked"
  have t: "tenant_id sample_user = ''t''" by (simp add: sample_user_def)
  have done_: "snd ?r = Inr ()" by code_simp
  have run: "?r = (fst ?r, Inr ())" by (rule prod_eqI) (simp_all only: done_ fst_conv snd_conv)
  have "map ln_fingerprint (is_links both_linked) = [''f'', ''g'']"
    "map al_fingerprint (latest ''t'' both_linked ''f'') = [''f'']" "map al_fingerprint (latest ''t'' both_linked ''g'') = [''g'']" by code_simp+
  moreover from this(1) have "\<forall>l \<in> set (is_links both_linked). ln_fingerprint l \<in> {''f'', ''g''}" by (metis list.set_map image_eqI list.simps(15) empty_set)
  ultimately have known: "alerts_known (tenant_id sample_user) both_linked" unfolding alerts_known_def t by (metis empty_iff insert_iff list.set(1) list.simps(15))
  have "get_incident_by_id ''t'' ''a'' both_linked \<noteq> None" unfolding is_found by code_simp
  then have a: "''a'' \<in> merge_sources (tenant_id sample_user) [''a'', ''c''] both_linked" by (simp add: merge_sources_def t)
  have "linked ''t'' ''a'' (fst ?r) = []" "marked ''t'' ''b'' ''a'' (fst ?r)"
    using merge_moves_alerts [OF run _ known] a by (simp_all add: t del: serve_incident.simps)
  moreover have "set (linked ''t'' ''a'' both_linked) \<subseteq> set (linked ''t'' ''b'' (fst ?r))"
    using merge_moves_alerts [OF run _ known] a by (auto simp: t simp del: serve_incident.simps)
  ultimately show ?thesis by (simp add: both_linked_facts(2) Let_def del: serve_incident.simps)
qed

end
