(* ===== verification/Incident_Tenants.thy ===== *)
theory Incident_Tenants
  imports Incident_Links
begin

text \<open>
  Incidents and tenants: the contract \<open>confined_steps\<close> for the requests that change incidents, with the one way out
  of it, the numbering of new incidents, and what a change of status reaches.
\<close>

section \<open>Tenants\<close>

definition tenant_view :: "incident_state \<Rightarrow> string \<Rightarrow> incident list \<times> link list \<times> audit list \<times> incident_enrichment list \<times> last_alert_row list" where
  "tenant_view s u = (filter (\<lambda>r. r ''tenant_id'' = JStr u) (is_rows s), filter (\<lambda>l. ln_tenant l = u) (is_links s),
     filter (\<lambda>a. au_tenant a = u) (edb_audits (out_db (is_out s))), filter (\<lambda>e. ie_tenant e = u) (edb_incidents (out_db (is_out s))),
     last_rows s)"

text \<open>The keys of the tables hold: ids, numbers within a tenant, and one row of enrichments for an incident.\<close>

definition keys_hold :: "incident_state \<Rightarrow> bool" where
  "keys_hold s = (\<not> breaks_key (is_rows s) \<and> distinct (map ie_incident (edb_incidents (out_db (is_out s)))))"

definition own :: "string \<Rightarrow> incident_state \<Rightarrow> incident_state \<Rightarrow> bool" where
  "own t s s' = (keys_hold s \<longrightarrow> keys_hold s' \<and> (\<forall>u. u \<noteq> t \<longrightarrow> tenant_view s' u = tenant_view s u))"

lemma own_refl [simp]: "own t s s"
  by (simp add: own_def)

lemma own_trans: "own t s s' \<Longrightarrow> own t s' s'' \<Longrightarrow> own t s s''"
  by (simp add: own_def)

lemma breaks_key_map:
  assumes "\<And>r. g r ''id'' = r ''id''" and "\<And>r. g r ''tenant_id'' = r ''tenant_id''" and "\<And>r. g r ''running_number'' = r ''running_number''"
  shows "breaks_key (map g rs) = breaks_key rs"
proof -
  have "map (\<lambda>r. (r ''tenant_id'', r ''running_number'')) (filter (\<lambda>r. r ''running_number'' \<noteq> JNull) (map g rs))
      = map (\<lambda>r. (r ''tenant_id'', r ''running_number'')) (filter (\<lambda>r. r ''running_number'' \<noteq> JNull) rs)"
    by (induction rs) (simp_all add: assms)
  moreover have "map (\<lambda>r. r ''id'') (map g rs) = map (\<lambda>r. r ''id'') rs" by (simp add: assms)
  ultimately show ?thesis by (simp only: breaks_key_def)
qed

lemma filter_changed:
  assumes "\<And>r. P r \<Longrightarrow> \<not> Q r" and "\<And>r. P r \<Longrightarrow> \<not> Q (f r)"
  shows "filter Q (map (\<lambda>r. if P r then f r else r) rs) = filter Q rs"
  using assms by (induction rs) auto

lemma own_change:
  assumes "\<And>r. f r ''id'' = r ''id''" and "\<And>r. f r ''tenant_id'' = r ''tenant_id''" and "\<And>r. f r ''running_number'' = r ''running_number''"
  shows "own t s (change_incident t i f s)"
proof -
  define g where "g r = (if is_incident t i r then f r else r)" for r
  have rows: "is_rows (change_incident t i f s) = map g (is_rows s)" by (simp add: changed_rows g_def)
  have "breaks_key (map g (is_rows s)) = breaks_key (is_rows s)" by (rule breaks_key_map) (simp_all add: g_def assms)
  moreover have "filter (\<lambda>r. r ''tenant_id'' = JStr u) (map g (is_rows s)) = filter (\<lambda>r. r ''tenant_id'' = JStr u) (is_rows s)" if "u \<noteq> t" for u
    unfolding g_def by (rule filter_changed) (use that in \<open>simp_all add: is_incident_def assms\<close>)
  ultimately show ?thesis by (simp add: own_def keys_hold_def tenant_view_def rows last_rows_def)
qed

lemma with_alerts_number [simp]: "with_alerts n a b c d e r ''running_number'' = r ''running_number''"
  by (simp add: with_alerts_def)

lemma mark_number [simp]: "mark_merged env i who r ''running_number'' = r ''running_number''"
  by (simp add: mark_merged_def)

lemma own_link_all: "own t s (link_all t i b fs s)"
  by (simp add: own_def keys_hold_def tenant_view_def link_all_def last_rows_def filter_map o_def)

lemma own_unlink_all: "own t s (unlink_all env t i fs s)"
proof -
  have "filter (\<lambda>l. ln_tenant l = u) (map (unlink env t i fs) ls) = filter (\<lambda>l. ln_tenant l = u) ls" if "u \<noteq> t" for u ls
    using that by (induction ls) (auto simp: unlink_def live_def)
  then show ?thesis by (simp add: own_def keys_hold_def tenant_view_def unlink_all_def last_rows_def)
qed

lemma own_audit: "own t s (add_audit t f who ty msg s)"
  by (simp add: own_def keys_hold_def tenant_view_def add_audit_def Let_def last_rows_def)

lemma own_counted: "own t s (counted env who a s)"
  by (simp add: own_def keys_hold_def tenant_view_def counted_def last_rows_def)

lemma own_mentions: "own t s (s\<lparr>is_mentions := m\<rparr>)"
  by (simp add: own_def keys_hold_def tenant_view_def last_rows_def)

lemma own_mark_all: "own t s (mark_all env t i who xs s)"
proof (induction xs arbitrary: s)
  case (Cons x xs)
  have "own t s (change_incident t x (mark_merged env i who) s)" by (rule own_change) simp_all
  from own_trans [OF this Cons.IH] show ?case by simp
qed simp

lemma own_added: "own t s (fst (add_alerts_to_incident env t inc i fs b oc ex s))"
  unfolding add_alerts_to_incident_def Let_def
  by (auto split: sum.split option.split intro!: own_link_all own_trans [OF own_link_all own_change])

lemma own_removed: "own t s (fst (remove_alerts_to_incident_by_incident_id env t i fs s))"
  unfolding remove_alerts_to_incident_by_incident_id_def Let_def
  by (auto split: sum.split option.split intro!: own_unlink_all own_trans [OF own_unlink_all own_change])

lemma own_merge_all: "own t s (fst (merge_all env t i who inc pending xs s))"
proof (induction env t i who inc pending xs s rule: merge_all.induct)
  case (1 env t i who inc pending s)
  then show ?case by (simp add: own_mark_all)
next
  case (2 env t i who inc pending x fs rest s)
  obtain s1 res where rm: "remove_alerts_to_incident_by_incident_id env t x fs s = (s1, res)" by fastforce
  have o1: "own t s s1" using own_removed [of t s env x fs] rm by simp
  show ?case
  proof (cases res)
    case (Inl e)
    with o1 rm show ?thesis by simp
  next
    case (Inr n)
    note rm = rm [unfolded Inr]
    show ?thesis
    proof (cases "list_all (\<lambda>f. f \<in> set (linked t i s1)) fs")
      case True
      from own_trans [OF o1 2(1) [OF rm [symmetric] refl True]] show ?thesis using rm True by simp
    next
      case False
      define m where "m = mark_all env t i who (pending @ [x]) s1"
      obtain s2 res2 where add: "add_alerts_to_incident env t inc i fs False False False m = (s2, res2)" by fastforce
      have "own t m s2" using own_added [of t m env inc i fs False False False] add by simp
      then have o2: "own t s s2" using own_trans [OF o1 own_trans [OF own_mark_all]] m_def by blast
      show ?thesis
      proof (cases res2)
        case (Inl e)
        then show ?thesis using rm False add o2 by (simp add: m_def)
      next
        case [simp]: (Inr u)
        from own_trans [OF o2 2(2) [OF rm [symmetric] refl False add [unfolded m_def Inr, symmetric] refl]]
        show ?thesis using rm False add by (simp add: m_def)
      qed
    qed
  qed
qed

lemma own_enrichment:
  assumes "fst (enrich_incident t f e act force aud db) = db'"
  shows "edb_last db' = edb_last db" "u \<noteq> t \<Longrightarrow> filter (\<lambda>a. au_tenant a = u) (edb_audits db') = filter (\<lambda>a. au_tenant a = u) (edb_audits db)"
    "distinct (map ie_incident (edb_incidents db)) \<Longrightarrow> distinct (map ie_incident (edb_incidents db'))"
    "distinct (map ie_incident (edb_incidents db)) \<Longrightarrow> u \<noteq> t \<Longrightarrow>
       filter (\<lambda>x. ie_tenant x = u) (edb_incidents db') = filter (\<lambda>x. ie_tenant x = u) (edb_incidents db)"
proof -
  have audit: "au_tenant (audit_of t x act) = t" for x by (simp add: audit_of_def)
  show "edb_last db' = edb_last db" "u \<noteq> t \<Longrightarrow> filter (\<lambda>a. au_tenant a = u) (edb_audits db') = filter (\<lambda>a. au_tenant a = u) (edb_audits db)"
    using assms by (auto simp: enrich_incident_def Let_def audit split: option.splits if_splits)
  have swap: "map (ie_incident \<circ> (\<lambda>x. if ie_incident x = i then r else x)) xs = map ie_incident xs" if "ie_incident r = i" for r i xs
    using that by simp
  have others: "filter (\<lambda>x. ie_tenant x = u) (map (\<lambda>x. if ie_incident x = i then r' else x) xs) = filter (\<lambda>x. ie_tenant x = u) xs"
    if "distinct (map ie_incident xs)" "r \<in> set xs" "ie_incident r = i" "ie_tenant r = t" "ie_tenant r' = t" "u \<noteq> t" for r r' i xs
  proof -
    have "\<forall>x \<in> set xs. ie_incident x = i \<longrightarrow> x = r" using that by (metis distinct_map inj_onD)
    then show ?thesis using that(4-6) by (induction xs) auto
  qed
  have row: "r \<in> set (edb_incidents db) \<and> ie_incident r = i \<and> ie_tenant r = t" if "incident_row t i db = Some r" for r i
    using that find_holds unfolding incident_row_def by fastforce
  show "distinct (map ie_incident (edb_incidents db)) \<Longrightarrow> distinct (map ie_incident (edb_incidents db'))"
  proof (cases "uuid_int f")
    case (Some i)
    assume d: "distinct (map ie_incident (edb_incidents db))"
    show ?thesis
    proof (cases "incident_row t i db")
      case None
      with assms Some d show ?thesis by (auto simp: enrich_incident_def Let_def list_ex_iff split: if_splits)
    next
      case r: (Some r)
      with assms Some have "map ie_incident (edb_incidents db') = map ie_incident (edb_incidents db)"
        using row [OF r] swap by (auto simp: enrich_incident_def Let_def split: if_splits)
      with d show ?thesis by simp
    qed
  qed (use assms in \<open>simp add: enrich_incident_def\<close>)
  show "distinct (map ie_incident (edb_incidents db)) \<Longrightarrow> u \<noteq> t \<Longrightarrow>
       filter (\<lambda>x. ie_tenant x = u) (edb_incidents db') = filter (\<lambda>x. ie_tenant x = u) (edb_incidents db)"
  proof (cases "uuid_int f")
    case (Some i)
    assume d: "distinct (map ie_incident (edb_incidents db))" "u \<noteq> t"
    show ?thesis
    proof (cases "incident_row t i db")
      case None
      with assms Some d show ?thesis by (auto simp: enrich_incident_def Let_def split: if_splits)
    next
      case r: (Some r)
      have "filter (\<lambda>x. ie_tenant x = u) (map (\<lambda>x. if ie_incident x = i then r' else x) (edb_incidents db)) = filter (\<lambda>x. ie_tenant x = u) (edb_incidents db)"
        if "ie_tenant r' = t" for r'
        using others [OF d(1), of r i r'] row [OF r] that d(2) by blast
      with assms Some r row [OF r] show ?thesis by (auto simp: enrich_incident_def Let_def split: if_splits)
    qed
  qed (use assms in \<open>simp add: enrich_incident_def\<close>)
qed

lemma incident_write_db:
  assumes "en_entity a = ''incident''"
  shows "out_db (fst (enrich_entity p src t 0 a out)) = fst (enrich_incident t (en_fingerprint a) (en_enrichments a)
    \<lparr>ac_type = action_value (en_action a), ac_callee = en_callee a, ac_description = en_description a\<rparr> (en_force a) (en_audit a) (out_db out))"
  using assms
  by (simp add: enrich_entity_def enrich_entity_impl_def enrich_entity_db_def Let_def case_prod_unfold split: sum.split)

lemma own_write: "en_entity a = ''incident'' \<Longrightarrow> own t s (fst (write_incident env t a s))"
proof -
  assume a: "en_entity a = ''incident''"
  have out: "fst (write_incident env t a s) = s\<lparr>is_out := fst (enrich_entity (producer_given env) (request_source env) t 0 a (is_out s))\<rparr>"
    by (auto simp: write_incident_def split: prod.split sum.split)
  note w = own_enrichment [OF incident_write_db [OF a, of "producer_given env" "request_source env" t "is_out s", symmetric]]
  show ?thesis unfolding own_def out
    by (simp add: keys_hold_def tenant_view_def last_rows_def w)
qed

lemma own_if_done: "own t s (fst x) \<Longrightarrow> (\<And>s. own t s (f s)) \<Longrightarrow> own t s (fst (if_done f x))"
  by (cases x; cases "snd x") (auto simp: if_done_def intro: own_trans)

lemma own_deleted: "own t s (fst (bl_delete_incident t i s))"
  unfolding bl_delete_incident_def delete_incident_by_id_def by (auto intro!: own_change)

lemma own_bulk_deleted: "own t s (fst (bulk_delete_incidents t is s))"
proof (induction "is" arbitrary: s)
  case (Cons i "is")
  obtain s1 res where s1: "bl_delete_incident t i s = (s1, res)" by fastforce
  then have "own t s s1" using own_deleted [of t s i] by simp
  then show ?case using own_trans [OF _ Cons.IH] s1 by (cases res) auto
qed simp

lemma own_status: "own t s (fst (change_status env t i new who d s))"
  unfolding change_status_def Let_def
  by (auto split: option.split intro!: own_trans [OF _ own_change] own_trans [OF _ own_audit] own_change)

lemma own_severity: "own t s (fst (bl_update_severity t i v comment who s))"
  unfolding bl_update_severity_def update_incident_severity_def Let_def
  by (auto split: option.split list.split intro!: own_change own_audit own_trans [OF own_change own_audit])

lemma own_created: "own t s (fst (create_incident_from_dict env t data s))"
proof (cases "create_incident_from_dict env t data s")
  case (Pair s' res)
  show ?thesis
  proof (cases res)
    case (Inl e)
    with Pair show ?thesis by (auto simp: create_incident_from_dict_def Let_def split: if_split_asm)
  next
    case (Inr r)
    note c = created [OF Pair [unfolded Inr]]
    have "r ''tenant_id'' = JStr t" by (simp add: c(1) set_running_number_def new_row_def)
    then show ?thesis using Pair c(2-6) by (auto simp: own_def keys_hold_def tenant_view_def last_rows_def)
  qed
qed

text \<open>The tenants a request reaches: the caller's, and those its body names as \<open>tenant_id\<close>.\<close>

fun names_tenant :: "incident_request \<Rightarrow> string \<Rightarrow> bool" where
  "names_tenant (Update_incident _ d _) u = ((''tenant_id'', JStr u) \<in> set (dt_extras d))"
| "names_tenant _ _ = False"

lemma set_columns_given:
  "fold (set_column env) kvs (Inr r) = Inr r' \<Longrightarrow> r' k = r k \<or> (k, r' k) \<in> set kvs"
proof (induction kvs arbitrary: r)
  case (Cons kv kvs)
  obtain k1 v1 where kv: "kv = (k1, v1)" by (cases kv)
  show ?case
  proof (cases "set_column env kv (Inr r)")
    case (Inl e)
    have "fold (set_column env) xs (Inl e) = Inl e" for xs by (induction xs) (simp_all add: set_column_def)
    with Cons.prems Inl show ?thesis by simp
  next
    case (Inr r1)
    then have "r1 k = r k \<or> (k, r1 k) = kv" using kv by (auto simp: set_column_def split: if_split_asm)
    with Cons.IH [of r1] Cons.prems Inr show ?thesis by auto
  qed
qed simp

lemma updated_tenant:
  assumes "updated_row env by_ai d r = Inr r'"
  shows "r' ''tenant_id'' = r ''tenant_id'' \<or> (''tenant_id'', r' ''tenant_id'') \<in> set (dt_extras d)"
proof -
  obtain r1 where r1: "fold (set_column env) (dto_dict d) (Inr r) = Inr r1" "r' ''tenant_id'' = r1 ''tenant_id''"
    using assms by (auto simp: updated_row_def)
  from set_columns_given [OF r1(1), of "''tenant_id''"] show ?thesis unfolding r1(2) by (auto simp: dto_dict_def)
qed

lemma update_reaches:
  assumes "keys_hold s"
  shows "keys_hold (fst (update_incident_from_dto_by_id env t i d by_ai s))"
    "u \<noteq> t \<Longrightarrow> (''tenant_id'', JStr u) \<notin> set (dt_extras d) \<Longrightarrow>
      tenant_view (fst (update_incident_from_dto_by_id env t i d by_ai s)) u = tenant_view s u"
proof -
  let ?s = "fst (update_incident_from_dto_by_id env t i d by_ai s)"
  have "?s = s \<or> (\<exists>r r'. get_incident_by_id t i s = Some r \<and> updated_row env by_ai d r = Inr r' \<and>
      ?s = change_incident t i (\<lambda>_. r') s \<and> \<not> breaks_key (is_rows ?s))"
    by (auto simp: update_incident_from_dto_by_id_def Let_def split: option.split sum.split)
  then have "keys_hold ?s \<and> (u \<noteq> t \<longrightarrow> (''tenant_id'', JStr u) \<notin> set (dt_extras d) \<longrightarrow> tenant_view ?s u = tenant_view s u)"
  proof (elim disjE exE conjE)
    fix r r' assume r: "get_incident_by_id t i s = Some r" "updated_row env by_ai d r = Inr r'"
      and s: "?s = change_incident t i (\<lambda>_. r') s" "\<not> breaks_key (is_rows ?s)"
    have "filter (\<lambda>r. r ''tenant_id'' = JStr u) (is_rows (change_incident t i (\<lambda>_. r') s)) = filter (\<lambda>r. r ''tenant_id'' = JStr u) (is_rows s)"
      if u: "u \<noteq> t" "(''tenant_id'', JStr u) \<notin> set (dt_extras d)"
    proof -
      have "r ''tenant_id'' = JStr t" using found_incident [OF r(1)] by (simp add: is_incident_def)
      with updated_tenant [OF r(2)] u have "r' ''tenant_id'' \<noteq> JStr u" by auto
      then show ?thesis unfolding changed_rows by (intro filter_changed) (use u(1) in \<open>simp_all add: is_incident_def\<close>)
    qed
    then show ?thesis using assms s by (simp add: keys_hold_def tenant_view_def last_rows_def)
  qed (use assms in simp)
  then show "keys_hold ?s" "u \<noteq> t \<Longrightarrow> (''tenant_id'', JStr u) \<notin> set (dt_extras d) \<Longrightarrow> tenant_view ?s u = tenant_view s u" by blast+
qed

lemma own_audit_assignee: "own (tenant_id who) s (audit_assignee who i d r s)"
  by (simp add: audit_assignee_def own_audit split: option.split list.split)

lemma own_change_row: "own t s (change_incident t i (\<lambda>r. r(k := v)) s)" if "k \<notin> {''id'', ''tenant_id'', ''running_number''}"
  by (rule own_change) (use that in auto)

lemma own_comment: "own (tenant_id who) s (fst (add_comment env who i c tagged s))"
  unfolding add_comment_def Let_def
  by (auto intro!: own_trans [OF _ own_counted] own_trans [OF own_audit own_mentions] own_audit)

lemma own_confirmed: "own t s (fst (confirm_predicted_incident_by_id t i s))"
  unfolding confirm_predicted_incident_by_id_def Let_def by (auto split: option.split intro!: own_change)

lemma own_add_bl: "own t s (fst (bl_add_alerts_to_incident env t i fs b oc s))"
  unfolding bl_add_alerts_to_incident_def by (auto split: option.split intro: own_added)

lemma own_delete_bl: "own t s (fst (bl_delete_alerts_from_incident env t i fs s))"
  unfolding bl_delete_alerts_from_incident_def by (simp add: own_removed)

lemma own_split: "own (tenant_id who) s (fst (split_incident env who i dest fs s))"
proof -
  obtain s1 res where s1: "bl_add_alerts_to_incident env (tenant_id who) dest fs False False s = (s1, res)" by fastforce
  then have "own (tenant_id who) s s1" using own_add_bl [of "tenant_id who" s env dest fs False False] by simp
  then show ?thesis using own_trans [OF _ own_delete_bl] s1 by (cases res) (auto simp: split_incident_def)
qed

lemma own_merge: "own (tenant_id who) s (fst (merge_incidents env who is i s))"
  unfolding merge_incidents_def
  by (rule own_if_done) (auto simp: merge_incidents_to_id_def Let_def own_merge_all split: option.split)

lemma request_own:
  assumes "\<nexists>i d by_ai. q = Update_incident i d by_ai"
  shows "own (tenant_id who) s (fst (serve_incident env who q s))"
proof (cases q)
  case (Update_incident i d by_ai)
  then show ?thesis using assms by blast
next
  case (Create_incident d)
  then show ?thesis by (simp add: create_incident_def create_incident_from_dto_def own_if_done own_created own_counted)
next
  case (Assign_incident i)
  then show ?thesis by (auto simp: assign_incident_def intro!: own_trans [OF own_trans [OF own_audit own_change_row] own_counted])
next
  case (Unenrich_incident i f ks)
  then show ?thesis by (auto simp: unenrich_incident_def incident_write_def own_write split: option.split)
qed (simp_all add: delete_incident_def bulk_delete_route_def own_if_done own_counted own_deleted own_bulk_deleted own_split own_merge
    own_add_bl own_delete_bl own_status own_severity own_comment confirm_incident_def own_confirmed enrich_incident_route_def incident_write_def own_write)

lemma update_request:
  assumes "keys_hold s"
  shows "keys_hold (fst (update_incident env who i d by_ai s))"
    "u \<noteq> tenant_id who \<Longrightarrow> (''tenant_id'', JStr u) \<notin> set (dt_extras d) \<Longrightarrow>
      tenant_view (fst (update_incident env who i d by_ai s)) u = tenant_view s u"
proof -
  let ?t = "tenant_id who"
  have bl: "fst (bl_update_incident env ?t i d by_ai x) = fst (update_incident_from_dto_by_id env ?t i d by_ai x)" for x
    by (auto simp: bl_update_incident_def split: prod.split sum.split option.split)
  have done': "fst (if_done f x) \<in> {fst x, f (fst x)}" for f :: "incident_state \<Rightarrow> incident_state" and x :: "incident_state \<times> (incident_error + incident)"
    by (cases x; cases "snd x") (auto simp: if_done_def)
  show "keys_hold (fst (update_incident env who i d by_ai s))"
    "u \<noteq> ?t \<Longrightarrow> (''tenant_id'', JStr u) \<notin> set (dt_extras d) \<Longrightarrow> tenant_view (fst (update_incident env who i d by_ai s)) u = tenant_view s u"
  proof (atomize (full), cases "get_incident_by_id ?t i s")
    case (Some r)
    define a where "a = audit_assignee who i d r s"
    have a: "keys_hold a" "u \<noteq> ?t \<Longrightarrow> tenant_view a u = tenant_view s u"
      using own_audit_assignee [of who s i d r] assms by (simp_all add: own_def a_def)
    define b where "b = fst (bl_update_incident env ?t i d by_ai a)"
    have b: "keys_hold b" "u \<noteq> ?t \<Longrightarrow> (''tenant_id'', JStr u) \<notin> set (dt_extras d) \<Longrightarrow> tenant_view b u = tenant_view s u"
      using update_reaches [OF a(1)] a(2) by (simp_all add: b_def bl)
    have c: "keys_hold (counted env who ''update'' b)" "u \<noteq> ?t \<Longrightarrow> tenant_view (counted env who ''update'' b) u = tenant_view b u"
      using own_counted [of ?t b env who "''update''"] b(1) by (simp_all add: own_def)
    have "fst (update_incident env who i d by_ai s) \<in> {b, counted env who ''update'' b}"
      using done' [of "counted env who ''update''" "bl_update_incident env ?t i d by_ai a"] Some by (simp add: update_incident_def a_def b_def)
    then show "keys_hold (fst (update_incident env who i d by_ai s)) \<and>
      (u \<noteq> ?t \<longrightarrow> (''tenant_id'', JStr u) \<notin> set (dt_extras d) \<longrightarrow> tenant_view (fst (update_incident env who i d by_ai s)) u = tenant_view s u)"
      using b c by auto
  qed (use assms in \<open>simp add: update_incident_def\<close>)
qed

definition step_of :: "incident_env \<times> entity \<times> incident_request \<Rightarrow> incident_state \<Rightarrow> incident_state" where
  "step_of x s = (case x of (env, who, q) \<Rightarrow> fst (serve_incident env who q s))"

definition reaches :: "incident_env \<times> entity \<times> incident_request \<Rightarrow> string \<Rightarrow> bool" where
  "reaches x u = (case x of (env, who, q) \<Rightarrow> tenant_id who = u \<or> names_tenant q u)"

interpretation incidents: confined_steps step_of reaches tenant_view keys_hold
proof (rule confined_steps.intro)
  fix s :: incident_state and x :: "incident_env \<times> entity \<times> incident_request" and u :: string
  obtain env who q where x: "x = (env, who, q)" by (cases x)
  assume s: "keys_hold s"
  have "keys_hold (fst (serve_incident env who q s)) \<and>
    (\<not> reaches x u \<longrightarrow> tenant_view (fst (serve_incident env who q s)) u = tenant_view s u)"
  proof (cases "\<exists>i d by_ai. q = Update_incident i d by_ai")
    case True
    then show ?thesis using update_request [OF s] by (auto simp: reaches_def x)
  next
    case False
    then show ?thesis using request_own [OF False, of who s env] s by (auto simp: own_def reaches_def x)
  qed
  then show "keys_hold (step_of x s)" "\<not> reaches x u \<Longrightarrow> tenant_view (step_of x s) u = tenant_view s u"
    by (simp_all add: step_of_def x)
qed

text \<open>
  C27: a request touches the incidents, links, audit records and enrichments of its caller's tenant and of the
  tenants its body names, and of no other, whatever any number of requests do; and ids stay unique, as do
  the numbers of a tenant's incidents.
\<close>

theorem requests_reach_named_tenants:
  assumes "keys_hold s" and "\<forall>x \<in> set xs. \<not> reaches x u"
  shows "keys_hold (fold step_of xs s) \<and> tenant_view (fold step_of xs s) u = tenant_view s u"
  using incidents.steps_sane incidents.steps_confined assms by blast

definition other_user :: entity where
  "other_user = sample_user\<lparr>tenant_id := ''v''\<rparr>"

theorem requests_reach_named_tenants_witness:
  "tenant_view (fold step_of [(quiet_env, other_user, Delete_incident ''a''), (quiet_env, other_user, Merge_incidents [''a''] ''b'')] both_linked) ''t''
     = tenant_view both_linked ''t''"
proof -
  have ids: "map (\<lambda>r. (r ''id'', r ''running_number'')) (is_rows both_linked) = [(JStr ''a'', JInt 1), (JStr ''b'', JInt 2)]"
    "\<not> breaks_key (is_rows both_linked)" "map ie_incident (edb_incidents (out_db (is_out both_linked))) = []" by code_simp+
  then have "keys_hold both_linked" by (simp add: keys_hold_def)
  moreover have "\<forall>x \<in> set [(quiet_env, other_user, Delete_incident ''a''), (quiet_env, other_user, Merge_incidents [''a''] ''b'')]. \<not> reaches x ''t''"
    by (simp add: reaches_def other_user_def)
  ultimately show ?thesis using requests_reach_named_tenants by blast
qed

lemma tenant_taken:
  assumes "updated_row env by_ai d r = Inr r'" and "dt_extras d = [(''tenant_id'', JStr u)]"
  shows "r' ''tenant_id'' = JStr u" "r' ''id'' = r ''id''"
proof -
  define pre where "pre = dto_dict (d\<lparr>dt_extras := []\<rparr>)"
  have dict: "dto_dict d = pre @ [(''tenant_id'', JStr u)]" by (simp add: dto_dict_def pre_def assms(2))
  obtain r1 where r1: "fold (set_column env) (dto_dict d) (Inr r) = Inr r1" "r' ''tenant_id'' = r1 ''tenant_id''" "r' ''id'' = r1 ''id''"
    using assms(1) by (auto simp: updated_row_def)
  then obtain r0 where "set_column env (''tenant_id'', JStr u) (Inr r0) = Inr r1"
    unfolding dict by (cases "fold (set_column env) pre (Inr r)") (auto simp: set_column_def)
  moreover have "''tenant_id'' \<in> set incident_columns" by (simp add: incident_columns_def)
  ultimately show "r' ''tenant_id'' = JStr u" using r1(2) by (auto simp: set_column_def)
  have "\<forall>(k', _) \<in> set (dto_dict d). k' \<noteq> ''id''" by (simp add: dto_dict_def assms(2))
  from set_columns_keep [OF r1(1) this] r1(3) show "r' ''id'' = r ''id''" by simp
qed

lemma audit_assignee_links [simp]: "is_links (audit_assignee who i d r s) = is_links s"
  by (simp add: audit_assignee_def split: option.split list.split)

text \<open>
  C28: a user can move an incident into another tenant.  A body that gives a \<open>tenant_id\<close> is taken as it is: when
  the request succeeds the incident is gone from the caller's tenant and is there for the other one, with
  everything written about it, and the links of its alerts stay behind.
\<close>

theorem update_moves_incident:
  assumes "serve_incident env who (Update_incident i d by_ai) s = (s', Inr ())" and "dt_extras d = [(''tenant_id'', JStr u)]"
    and "u \<noteq> tenant_id who"
  shows "get_incident_by_id (tenant_id who) i s' = None \<and> get_incident_by_id u i s' \<noteq> None \<and> is_links s' = is_links s"
proof -
  let ?t = "tenant_id who"
  obtain r where "if_done (counted env who ''update'') (bl_update_incident env ?t i d by_ai (audit_assignee who i d r s)) = (s', Inr ())"
    using assms(1) by (auto simp: update_incident_def split: option.split_asm)
  moreover define a where "a = audit_assignee who i d r s"
  ultimately obtain b v where b: "update_incident_from_dto_by_id env ?t i d by_ai a = (b, Inr (Some v))" "s' = counted env who ''update'' b"
    by (auto simp: if_done_eq bl_update_incident_def split: prod.split_asm sum.split_asm option.split_asm)
  then obtain r0 r' where r': "get_incident_by_id ?t i a = Some r0" "updated_row env by_ai d r0 = Inr r'" "b = change_incident ?t i (\<lambda>_. r') a"
    by (auto simp: update_incident_from_dto_by_id_def Let_def split: option.splits sum.splits if_split_asm)
  note t = tenant_taken [OF r'(2) assms(2)]
  have r0: "r0 \<in> set (is_rows a)" "is_incident ?t i r0" using found_incident [OF r'(1)] by blast+
  have moved: "is_incident u i r'" "\<not> is_incident ?t i r'" using t r0(2) assms(3) by (simp_all add: is_incident_def)
  have rows: "is_rows s' = map (\<lambda>x. if is_incident ?t i x then r' else x) (is_rows a)" by (simp add: b(2) r'(3) changed_rows)
  have "\<forall>x \<in> set (is_rows s'). \<not> is_incident ?t i x" unfolding rows using moved(2) by auto
  then have "get_incident_by_id ?t i s' = None" using is_found [of ?t i s'] by blast
  moreover have "r' \<in> set (is_rows s')" unfolding rows set_map using r0 by (simp add: image_iff) metis
  then have "get_incident_by_id u i s' \<noteq> None" using moved(1) unfolding is_found by blast
  moreover have "is_links s' = is_links s" by (simp add: b(2) r'(3) a_def)
  ultimately show ?thesis by blast
qed

definition moving_dto :: incident_dto where
  "moving_dto = \<lparr>dt_user_generated_name = JStr ''x'', dt_assignee = None, dt_user_summary = JNull, dt_same_incident = JNull,
     dt_severity = None, dt_extras = [(''tenant_id'', JStr ''v'')]\<rparr>"

theorem update_moves_incident_witness:
  "get_incident_by_id ''v'' ''a'' (fst (serve_incident quiet_env sample_user (Update_incident ''a'' moving_dto False) both_linked)) \<noteq> None"
proof -
  let ?r = "serve_incident quiet_env sample_user (Update_incident ''a'' moving_dto False) both_linked"
  have ok: "snd ?r = Inr ()" by code_simp
  have run: "?r = (fst ?r, Inr ())" by (rule prod_eqI) (simp_all only: ok fst_conv snd_conv)
  have "dt_extras moving_dto = [(''tenant_id'', JStr ''v'')]" "''v'' \<noteq> tenant_id sample_user" by (simp_all add: moving_dto_def sample_user_def)
  from update_moves_incident [OF run this] show ?thesis by blast
qed

section \<open>Numbers and statuses\<close>

lemma max_or_bound: "n \<in> set ns \<Longrightarrow> n \<le> max_or d ns"
proof (cases ns)
  case (Cons m ms)
  have "max_or d ns = Max (set (m # ms))" by (simp only: Cons max_or_def list.case Max.set_eq_fold)
  then show "n \<in> set ns \<Longrightarrow> ?thesis" using Cons by (simp only: Max_ge finite_set)
qed simp

lemma numbers_listed: "x \<in> set (is_rows s) \<Longrightarrow> x ''tenant_id'' = JStr t \<Longrightarrow> x ''running_number'' = JInt n \<Longrightarrow> n \<in> set (numbers t s)"
  unfolding numbers_def set_concat set_map image_image by (rule UN_I [of x]) simp_all

text \<open>
  Incidents are numbered within their tenant.  A new incident, when its body gives no number, gets the one
  after the highest of its tenant, so that every incident of the tenant has a lower one; those of other tenants
  do not count.  It has no alerts, whatever its body says of severity, names or status.
\<close>

theorem new_incident_is_next:
  assumes "serve_incident env who (Create_incident d) s = (s', Inr ())" and "''running_number'' \<notin> fst ` set (dt_extras d)"
  shows "\<exists>r. is_rows s' = is_rows s @ [r] \<and> r ''tenant_id'' = JStr (tenant_id who) \<and>
    r ''running_number'' = JInt (get_next_running_number (tenant_id who) s) \<and>
    (\<forall>x \<in> set (is_rows s). \<forall>n. x ''tenant_id'' = JStr (tenant_id who) \<and> x ''running_number'' = JInt n \<longrightarrow>
       n < get_next_running_number (tenant_id who) s) \<and> is_links s' = is_links s"
proof -
  let ?t = "tenant_id who"
  obtain s1 r where c: "create_incident_from_dict env ?t (user_data d) s = (s1, Inr r)" "s' = counted env who ''create'' s1"
    using assms(1) by (auto simp: create_incident_def create_incident_from_dto_def if_done_eq)
  note r = created [OF c(1)]
  have "map_of (dto_dict d) ''running_number'' = None" using assms(2) by (simp add: dto_dict_def map_of_eq_None_iff)
  then have "map_of (candidate_data (user_data d)) ''running_number'' = None"
    by (simp add: candidate_data_def user_data_def Let_def map_of_dict_set split: option.split)
  then have "new_row env (candidate_data (user_data d)) ?t ''running_number'' = JNull" by (simp add: new_row_def default_incident_def)
  then have "r ''running_number'' = JInt (get_next_running_number ?t s)" "r ''tenant_id'' = JStr ?t"
    by (simp_all add: r(1) set_running_number_def new_row_def)
  moreover have "n < get_next_running_number ?t s"
    if "x \<in> set (is_rows s)" "x ''tenant_id'' = JStr ?t" "x ''running_number'' = JInt n" for x n
    using max_or_bound [OF numbers_listed [OF that], of 0] by (simp add: get_next_running_number_def)
  ultimately show ?thesis using r(3,4) by (auto simp: c(2))
qed

theorem new_incident_is_next_witness:
  "map (\<lambda>r. r ''running_number'') (is_rows (fst (serve_incident quiet_env sample_user (Create_incident (moving_dto\<lparr>dt_extras := []\<rparr>)) both_linked)))
     = [JInt 1, JInt 2, JInt 3]"
proof -
  let ?r = "serve_incident quiet_env sample_user (Create_incident (moving_dto\<lparr>dt_extras := []\<rparr>)) both_linked"
  have ok: "snd ?r = Inr ()" by code_simp
  have run: "?r = (fst ?r, Inr ())" by (rule prod_eqI) (simp_all only: ok fst_conv snd_conv)
  have "get_next_running_number (tenant_id sample_user) both_linked = 3"
    and old: "map (\<lambda>r. r ''running_number'') (is_rows both_linked) = [JInt 1, JInt 2]" by code_simp+
  with new_incident_is_next [OF run] obtain r where "is_rows (fst ?r) = is_rows both_linked @ [r]" "r ''running_number'' = JInt 3" by auto
  then show ?thesis using old by simp
qed

text \<open>A column of an incident, whichever row has it.\<close>

definition holds :: "string \<Rightarrow> string \<Rightarrow> string \<Rightarrow> json \<Rightarrow> incident_state \<Rightarrow> bool" where
  "holds t i k v s = (\<forall>x \<in> set (is_rows s). is_incident t i x \<longrightarrow> x k = v)"

lemma holds_set: "k \<notin> {''id'', ''tenant_id''} \<Longrightarrow> holds t i k v (change_incident t i (\<lambda>r. r(k := v)) s)"
  by (auto simp: holds_def changed_rows is_incident_def)

lemma holds_other: "k' \<notin> {''id'', ''tenant_id''} \<Longrightarrow> k \<noteq> k' \<Longrightarrow> holds t i k v s \<Longrightarrow> holds t i k v (change_incident t i (\<lambda>r. r(k' := w)) s)"
  by (auto simp: holds_def changed_rows is_incident_def)

lemma holds_audit [simp]: "holds t i k v (add_audit t' f who ty msg s) = holds t i k v s"
  by (simp add: holds_def)

lemma found_set: "get_incident_by_id t' i' s \<noteq> None \<Longrightarrow> k \<notin> {''id'', ''tenant_id''} \<Longrightarrow> get_incident_by_id t' i' (change_incident t i (\<lambda>r. r(k := v)) s) \<noteq> None"
  by (rule still_found) auto

lemma found_audit: "get_incident_by_id t' i' (add_audit t f who ty msg s) = get_incident_by_id t' i' s"
  by (simp add: get_incident_by_id_def)

lemma holds_counted [simp]: "holds t i k v (counted env who a s) = holds t i k v s"
  by (simp add: holds_def)

text \<open>
  Changing the status of an incident changes the incident alone.  The request leaves every alert as it is,
  also when the incident is resolved or acknowledged and its alerts were to follow; it sets the status and the
  assignee, the end time when resolved, and leaves a record of the change.
\<close>

theorem status_change_leaves_alerts:
  assumes "get_incident_by_id (tenant_id who) i s = Some r" and "serve_incident env who (Change_status i new dispose) s = (s', res)"
  shows "res = Inr () \<and> last_rows s' = last_rows s \<and> is_alerts s' = is_alerts s \<and> is_links s' = is_links s \<and>
    holds (tenant_id who) i ''status'' (JStr (status_value new)) s' \<and>
    (new = RESOLVED \<longrightarrow> holds (tenant_id who) i ''end_time'' (JInt (now env)) s') \<and>
    \<lparr>au_tenant = tenant_id who, au_fingerprint = i, au_user = email who, au_action = action_value INCIDENT_STATUS_CHANGE,
      au_description = ''Incident status changed from '' @ shown (r ''status'') @ '' to '' @ status_value new\<rparr> \<in> set (edb_audits (out_db (is_out s')))"
proof -
  let ?t = "tenant_id who"
  define s1 where "s1 = (if new = RESOLVED then change_incident ?t i (\<lambda>r. r(''end_time'' := JInt (now env))) s else s)"
  define s2 where "s2 = (if r ''assignee'' \<noteq> JStr (email who)
     then add_audit ?t i (email who) INCIDENT_ASSIGN (''Incident self-assigned to '' @ email who) (change_incident ?t i (\<lambda>r. r(''assignee'' := JStr (email who))) s1)
     else s1)"
  define s3 where "s3 = add_audit ?t i (email who) INCIDENT_STATUS_CHANGE (''Incident status changed from '' @ shown (r ''status'') @ '' to '' @ status_value new) s2"
  define s4 where "s4 = change_incident ?t i (\<lambda>r. r(''status'' := JStr (status_value new))) s3"
  have same: "is_links s4 = is_links s" "is_alerts s4 = is_alerts s" "last_rows s4 = last_rows s" "is_rows s3 = is_rows s2"
    by (simp_all add: s4_def s3_def s2_def s1_def last_rows_def add_audit_def Let_def)
  have "get_incident_by_id ?t i s \<noteq> None" using assms(1) by simp
  then have "get_incident_by_id ?t i s1 \<noteq> None" unfolding s1_def using found_set [of ?t i s "''end_time''"] by (simp only: if_split) simp
  then have "get_incident_by_id ?t i s2 \<noteq> None" unfolding s2_def using found_set [of ?t i s1 "''assignee''"] by (simp add: found_audit)
  then have "get_incident_by_id ?t i s3 \<noteq> None" unfolding s3_def found_audit .
  then have found: "get_incident_by_id ?t i s4 \<noteq> None" unfolding s4_def by (rule found_set) simp
  have "change_status env ?t i new who dispose s = (s4, option_res (Http_status 404) (get_incident_by_id ?t i s4))"
    unfolding change_status_def Let_def assms(1) option.case s4_def s3_def s2_def s1_def by (rule refl)
  then have s': "s' = counted env who ''change_status'' s4" "res = Inr ()" using assms(2) found by (auto simp: if_done_def)
  have ending: "new = RESOLVED \<longrightarrow> holds ?t i ''end_time'' (JInt (now env)) s4"
    by (auto simp: s4_def s3_def s2_def s1_def intro!: holds_other holds_set)
  have "holds ?t i ''status'' (JStr (status_value new)) s4" unfolding s4_def by (rule holds_set) simp
  moreover have "\<lparr>au_tenant = ?t, au_fingerprint = i, au_user = email who, au_action = action_value INCIDENT_STATUS_CHANGE,
      au_description = ''Incident status changed from '' @ shown (r ''status'') @ '' to '' @ status_value new\<rparr> \<in> set (edb_audits (out_db (is_out s4)))"
    by (simp add: s4_def s3_def add_audit_def Let_def)
  ultimately show ?thesis using same ending by (simp add: s' counted_def [of _ _ _ s4] last_rows_def holds_def)
qed

theorem status_change_leaves_alerts_witness:
  "let s' = fst (serve_incident quiet_env sample_user (Change_status ''a'' RESOLVED False) both_linked)
   in holds ''t'' ''a'' ''status'' (JStr ''resolved'') s' \<and> last_rows s' = last_rows both_linked"
proof -
  have "get_incident_by_id ''t'' ''a'' both_linked \<noteq> None" unfolding is_found by code_simp
  then obtain r where r: "get_incident_by_id (tenant_id sample_user) ''a'' both_linked = Some r" by (auto simp: sample_user_def)
  from status_change_leaves_alerts [OF this prod.collapse [symmetric], of quiet_env RESOLVED False] show ?thesis
    by (simp add: sample_user_def Let_def del: serve_incident.simps)
qed

end
