(* ===== verification/Alert_Dto.thy ===== *)
theory Alert_Dto
  imports Alert_Enrichment
begin

text \<open>
  Alerts as clients send and see them: the class \<open>AlertDto\<close> of \<open>src/src/models/alert.py\<close> with its validators,
  and \<open>src/src/utils/enrichment_helpers.py\<close>, which lays the row of an alert's fingerprint over its latest
  occurrence and counts its occurrences.  A payload is a dict of JSON values; an enumeration's member is its
  value.  Parameters are the clock and new UUIDs, the date functions of the library, SHA-256, \<open>str\<close> of a
  value, and what Pydantic makes of the value of a declared field.
\<close>

section \<open>Enumerations\<close>

datatype alert_severity = CRITICAL | HIGH | WARNING | INFO | LOW

fun alert_severity_value :: "alert_severity \<Rightarrow> string" where
  "alert_severity_value CRITICAL = ''critical''"
| "alert_severity_value HIGH = ''high''"
| "alert_severity_value WARNING = ''warning''"
| "alert_severity_value INFO = ''info''"
| "alert_severity_value LOW = ''low''"

fun alert_severity_order :: "alert_severity \<Rightarrow> int" where
  "alert_severity_order CRITICAL = 5"
| "alert_severity_order HIGH = 4"
| "alert_severity_order WARNING = 3"
| "alert_severity_order INFO = 2"
| "alert_severity_order LOW = 1"

definition severities :: "alert_severity list" where
  "severities = [CRITICAL, HIGH, WARNING, INFO, LOW]"

definition from_number :: "int \<Rightarrow> alert_severity option" where
  "from_number n = find (\<lambda>v. alert_severity_order v = n) severities"

definition alert_statuses :: "string list" where
  "alert_statuses = [''firing'', ''resolved'', ''acknowledged'', ''suppressed'', ''pending'', ''maintenance'']"

definition environments :: "string list" where
  "environments = [''production'', ''integration'', ''load'', ''development'', ''test'']"

text \<open>The member of an enumeration with a value, or a default.\<close>

definition member_or :: "string \<Rightarrow> string list \<Rightarrow> json \<Rightarrow> json" where
  "member_or d ms v = (case v of JStr s \<Rightarrow> if s \<in> set ms then v else JStr d | _ \<Rightarrow> JStr d)"

text \<open>Python's \<open>isinstance(severity, int)\<close> holds of booleans, so \<open>True\<close> is the severity numbered 1.\<close>

definition severity_or_info :: "json \<Rightarrow> json" where
  "severity_or_info v =
     (let numbered = (\<lambda>n. case from_number n of None \<Rightarrow> JStr ''info'' | Some x \<Rightarrow> JStr (alert_severity_value x)) in
      case v of JInt n \<Rightarrow> numbered n | JBool b \<Rightarrow> numbered (of_bool b)
      | _ \<Rightarrow> member_or ''info'' (map alert_severity_value severities) v)"

section \<open>Defaults\<close>

record dto_env =
  de_fresh :: string
  de_now :: string
  de_normalise :: "string \<Rightarrow> string option"
  de_iso :: "string \<Rightarrow> string option"
  de_unix :: "string \<Rightarrow> string option"
  de_sha256 :: "string \<Rightarrow> string"
  de_str :: "json \<Rightarrow> string"
  de_coerce :: "string \<Rightarrow> json \<Rightarrow> json option"

datatype dto_error = Type_error | Value_error

type_synonym payload = "(string, json) pydict"

definition sync_component :: "payload \<Rightarrow> payload" where
  "sync_component v =
     (let component = get_or_null v ''component''; obj = get_or_null v ''object'' in
      if component \<noteq> JNull \<and> obj = JNull then dict_set ''object'' component v
      else if obj \<noteq> JNull \<and> component = JNull then dict_set ''component'' obj v
      else if component \<noteq> JNull \<and> obj \<noteq> JNull \<and> \<not> py_eq component obj then dict_set ''object'' component v
      else v)"

definition name_keys :: "string list" where
  "name_keys = [''summary'', ''ruleName'', ''alertname'', ''title'']"

definition name_fallback :: "payload \<Rightarrow> json" where
  "name_fallback v = (case find truthy (map (get_or_null v) name_keys) of None \<Rightarrow> JStr ''N/A'' | Some x \<Rightarrow> x)"

definition received_at :: "payload \<Rightarrow> json" where
  "received_at v = (if truthy (get_or_null v ''last_received'') then get_or_null v ''last_received'' else get_or_null v ''lastReceived'')"

text \<open>The assignee at the time of the alert, tried as given and in the normal form; lists and dicts are no keys.\<close>

definition assignee_at :: "dto_env \<Rightarrow> payload \<Rightarrow> json \<Rightarrow> dto_error + json" where
  "assignee_at env assignees received = (case received of
       JStr s \<Rightarrow>
         let a = get_or_null assignees s in
         if truthy a then Inr a
         else Inr (case de_normalise env s of None \<Rightarrow> a | Some t \<Rightarrow> get_or_null assignees t)
     | JList _ \<Rightarrow> Inl Type_error
     | JObj _ \<Rightarrow> Inl Type_error
     | _ \<Rightarrow> Inr JNull)"

definition take_assignees :: "dto_env \<Rightarrow> json \<Rightarrow> payload \<Rightarrow> dto_error + payload" where
  "take_assignees env received v =
     (let rest = dict_del ''assignees'' v in
      case get_or_null v ''assignees'' of
        JObj (a # as) \<Rightarrow> rbind (assignee_at env (a # as) received) (\<lambda>x. Inr (dict_set ''assignee'' x rest))
      | _ \<Rightarrow> Inr rest)"

definition fill_fields :: "dto_env \<Rightarrow> payload \<Rightarrow> payload" where
  "fill_fields env v =
     (let v = (if truthy (get_or_null v ''id'') then v else dict_set ''id'' (JStr (de_fresh env)) v);
          v = sync_component v;
          v = (if truthy (get_or_null v ''name'') then v else dict_set ''name'' (name_fallback v) v);
          v = dict_set ''severity'' (severity_or_info (get_or_null v ''severity'')) v;
          v = dict_set ''status'' (member_or ''firing'' alert_statuses (get_or_null v ''status'')) v
      in dict_set ''environment'' (member_or ''production'' environments (get_or_null v ''environment'')) v)"

definition fill_time :: "dto_env \<Rightarrow> payload \<Rightarrow> payload" where
  "fill_time env v = (if truthy (received_at v) then v else dict_set ''last_received'' (JStr (de_now env)) v)"

definition set_default_values :: "dto_env \<Rightarrow> payload \<Rightarrow> dto_error + payload" where
  "set_default_values env v =
     (let v = fill_time env (fill_fields env v)
      in rbind (take_assignees env (received_at v) v) (\<lambda>v. Inr (dict_del ''deletedAt'' v)))"

section \<open>The fields\<close>

definition parse_id :: "dto_env \<Rightarrow> json \<Rightarrow> json" where
  "parse_id env v = (if v = JNull then JNull else case v of JStr s \<Rightarrow> v | _ \<Rightarrow> JStr (de_str env v))"

definition parse_source :: "json \<Rightarrow> json" where
  "parse_source v = (case v of JNull \<Rightarrow> JList []
     | JStr s \<Rightarrow> (case json_loads s of Some w \<Rightarrow> w | None \<Rightarrow> JList [v])
     | _ \<Rightarrow> v)"

text \<open>
  A missing fingerprint is the hash of the name.  The branch for alerts without a name, which hashes the whole
  payload, is not reached: the defaults give every alert a name.
\<close>

definition get_fingerprint :: "dto_env \<Rightarrow> json \<Rightarrow> string \<Rightarrow> dto_error + json" where
  "get_fingerprint env fp name = (case fp of
       JNull \<Rightarrow> Inr (JStr (de_sha256 env name))
     | JStr s \<Rightarrow> Inr (JStr (take 255 s))
     | JList vs \<Rightarrow> Inr (JList (take 255 vs))
     | _ \<Rightarrow> Inl Type_error)"

definition validate_last_received :: "dto_env \<Rightarrow> json \<Rightarrow> dto_error + json" where
  "validate_last_received env v =
     (if \<not> truthy v then Inr (JStr (de_now env))
      else case v of
          JStr s \<Rightarrow> (case de_iso env s of Some t \<Rightarrow> Inr (JStr t)
            | None \<Rightarrow> (case de_unix env s of Some t \<Rightarrow> Inr (JStr t) | None \<Rightarrow> Inl Value_error))
        | _ \<Rightarrow> Inl Type_error)"

definition coerced :: "dto_env \<Rightarrow> string \<Rightarrow> json \<Rightarrow> dto_error + json" where
  "coerced env k v = option_res Value_error (de_coerce env k v)"

text \<open>
  A payload becomes an alert: the defaults first, then the validators of the fields, what they give converted to
  the types of the fields.  The time is read under its alias, or under its name when that is missing; a
  payload that has both is left out, and the other fields are kept as they are.
\<close>

definition alert_dto :: "dto_env \<Rightarrow> payload \<Rightarrow> dto_error + payload" where
  "alert_dto env payload = rbind (set_default_values env payload) (\<lambda>v.
     rbind (coerced env ''id'' (parse_id env (get_or_null v ''id''))) (\<lambda>i.
     rbind (coerced env ''name'' (get_or_null v ''name'')) (\<lambda>name.
     rbind (validate_last_received env (if has_key v ''lastReceived'' then get_or_null v ''lastReceived'' else get_or_null v ''last_received'')) (\<lambda>received.
     rbind (if has_key v ''source'' then coerced env ''source'' (parse_source (get_or_null v ''source'')) else Inr (JList [])) (\<lambda>source.
     rbind (get_fingerprint env (get_or_null v ''fingerprint'') (case name of JStr s \<Rightarrow> s | _ \<Rightarrow> [])) (\<lambda>fp.
     rbind (coerced env ''fingerprint'' fp) (\<lambda>fp.
     Inr (dict_set ''fingerprint'' fp (dict_set ''source'' source (dict_set ''last_received'' received
       (dict_del ''lastReceived'' (dict_set ''name'' name (dict_set ''id'' i v)))))))))))))"

section \<open>Rows as alerts\<close>

definition column_if_set :: "last_alert_row \<Rightarrow> string \<Rightarrow> payload \<Rightarrow> payload" where
  "column_if_set r k d = (if la_columns r k = JNull then d else dict_set k (la_columns r k) d)"

definition or_zero :: "json \<Rightarrow> json" where
  "or_zero v = (if truthy v then v else JInt 0)"

definition last_alert_to_dto_payload :: "last_alert_row \<Rightarrow> payload" where
  "last_alert_to_dto_payload r =
     (let d = fold (column_if_set r) [''status'', ''assignee'', ''note'', ''dismiss_mode'', ''dismissed_until''] [];
          d = (if la_columns r ''dismissed_until'' = JNull then d else setdefault ''dismiss_until'' (la_columns r ''dismissed_until'') d);
          d = dict_set ''deleted'' (JBool (truthy (la_columns r ''deleted''))) d;
          d = column_if_set r ''last_received'' d;
          d = dict_set ''firing_counter'' (or_zero (la_columns r ''firing_counter'')) d;
          d = dict_set ''unresolved_counter'' (or_zero (la_columns r ''unresolved_counter'')) d
      in fold (column_if_set r) [''firing_start_time'', ''firing_start_time_since_last_resolved''] d)"

record db_alert =
  da_id :: string
  da_tenant :: string
  da_fingerprint :: string
  da_columns :: payload
  da_last :: "last_alert_row option"
  da_started_at :: "string option"

definition dict_update :: "payload \<Rightarrow> payload \<Rightarrow> payload" where
  "dict_update d new = fold (\<lambda>(k, v) d. dict_set k v d) new d"

definition row_of_alert :: "last_alert_row list \<Rightarrow> db_alert \<Rightarrow> last_alert_row option" where
  "row_of_alert rows a = (case da_last a of Some r \<Rightarrow> Some r
     | None \<Rightarrow> find (row_key (da_tenant a) (da_fingerprint a)) rows)"

definition alert_to_payload :: "last_alert_row list \<Rightarrow> db_alert \<Rightarrow> payload" where
  "alert_to_payload rows a =
     (let p = dict_set ''id'' (if da_id a = [] then JNull else JStr (da_id a)) (da_columns a);
          p = (case get_or_null p ''source'' of JStr (c # cs) \<Rightarrow> dict_set ''source'' (JList [JStr (c # cs)]) p | _ \<Rightarrow> p);
          p = (case row_of_alert rows a of None \<Rightarrow> p | Some r \<Rightarrow> dict_update p (last_alert_to_dto_payload r))
      in case da_started_at a of None \<Rightarrow> p | Some t \<Rightarrow> dict_set ''started_at'' (JStr t) p)"

definition finish_alert :: "db_alert \<Rightarrow> payload \<Rightarrow> payload" where
  "finish_alert a d =
     (let d = dict_set ''event_id'' (JStr (da_id a)) d;
          d = (if get_or_null d ''status'' = JStr ''acknowledged'' then dict_set ''firing_counter'' (JInt 0) d else d);
          d = (if get_or_null d ''status'' = JStr ''resolved'' then dict_set ''unresolved_counter'' (JInt 0) d else d)
      in dict_set ''provider_type'' (get_or_null (da_columns a) ''provider_type'')
           (dict_set ''provider_id'' (get_or_null (da_columns a) ''provider_id'') d))"

text \<open>An alert that cannot be parsed is logged and left out.\<close>

definition convert_db_alerts_to_dto_alerts :: "dto_env \<Rightarrow> last_alert_row list \<Rightarrow> db_alert list \<Rightarrow> payload list" where
  "convert_db_alerts_to_dto_alerts env rows as = concat (map (\<lambda>a. case alert_dto env (alert_to_payload rows a) of
       Inl _ \<Rightarrow> [] | Inr d \<Rightarrow> [finish_alert a d]) as)"

section \<open>Counting occurrences\<close>

record tracked =
  tk_status :: string
  tk_received :: string
  tk_firing_start :: "string option"
  tk_since_resolved :: "string option"
  tk_firing :: nat
  tk_unresolved :: nat

text \<open>Each takes the status and time of an occurrence and the one before it, if any.\<close>

definition calculated_start_firing_time :: "string \<Rightarrow> string \<Rightarrow> tracked option \<Rightarrow> string option" where
  "calculated_start_firing_time status received previous =
     (if status \<noteq> ''firing'' then None
      else case previous of None \<Rightarrow> Some received
        | Some p \<Rightarrow> if tk_status p = ''firing'' then tk_firing_start p else Some received)"

definition calculate_firing_time_since_last_resolved :: "string \<Rightarrow> string \<Rightarrow> tracked option \<Rightarrow> string option" where
  "calculate_firing_time_since_last_resolved status received previous =
     (if status = ''resolved'' then None
      else case previous of
          Some p \<Rightarrow>
            if tk_status p = ''resolved'' \<and> status = ''firing'' then Some received
            else (case tk_since_resolved p of Some (c # cs) \<Rightarrow> Some (c # cs) | _ \<Rightarrow> None)
        | None \<Rightarrow> if status = ''firing'' then Some received else None)"

definition calculated_firing_counter :: "string \<Rightarrow> tracked option \<Rightarrow> nat" where
  "calculated_firing_counter status previous =
     (if status = ''acknowledged'' then 0
      else case previous of None \<Rightarrow> 1
        | Some p \<Rightarrow> if tk_status p = ''acknowledged'' then 1 else tk_firing p + 1)"

definition calculated_unresolved_counter :: "string \<Rightarrow> tracked option \<Rightarrow> nat" where
  "calculated_unresolved_counter status previous =
     (if status = ''resolved'' then 0
      else case previous of None \<Rightarrow> 1
        | Some p \<Rightarrow> if tk_status p = ''resolved'' then 1 else tk_unresolved p + 1)"

section \<open>Every payload gets the defaults, and they settle\<close>

lemma get_del: "get_or_null (dict_del k d) k' = (if k' = k then JNull else get_or_null d k')"
  by (simp add: get_or_null_def dict_get_del)

lemma set_same: "get_or_null d k = v \<Longrightarrow> v \<noteq> JNull \<Longrightarrow> dict_set k v d = d"
  by (auto simp: get_or_null_def dict_get_def dict_set_def update_triv split: option.splits)

lemma del_absent: "\<not> has_key d k \<Longrightarrow> dict_del k d = d"
  by (induction d) (auto simp: has_key_def dict_get_def dict_del_def split: if_splits)

lemma member_or_listed: "d \<in> set ms \<Longrightarrow> \<exists>s \<in> set ms. member_or d ms v = JStr s"
  by (auto simp: member_or_def split: json.split)

lemma member_or_settles: "s \<in> set ms \<Longrightarrow> member_or d ms (JStr s) = JStr s"
  by (simp add: member_or_def)

lemma severity_listed: "\<exists>x \<in> set severities. severity_or_info v = JStr (alert_severity_value x)"
proof -
  have info: "\<exists>x \<in> set severities. JStr ''info'' = JStr (alert_severity_value x)" by (rule bexI [of _ INFO]) (simp_all add: severities_def)
  have num: "\<exists>x \<in> set severities. (case from_number n of None \<Rightarrow> JStr ''info'' | Some x \<Rightarrow> JStr (alert_severity_value x)) = JStr (alert_severity_value x)" for n
    using info by (auto simp: from_number_def find_Some_iff split: option.split)
  have mem: "\<exists>x \<in> set severities. member_or ''info'' (map alert_severity_value severities) w = JStr (alert_severity_value x)" for w
    using info by (auto simp: member_or_def split: json.split)
  show ?thesis using num mem unfolding severity_or_info_def Let_def by (cases v) (simp_all only: json.case)
qed

lemma severity_settles: "x \<in> set severities \<Longrightarrow> severity_or_info (JStr (alert_severity_value x)) = JStr (alert_severity_value x)"
  by (simp add: severity_or_info_def member_or_def)

definition in_step :: "payload \<Rightarrow> bool" where
  "in_step v = (let c = get_or_null v ''component''; x = get_or_null v ''object'' in (c = JNull \<and> x = JNull) \<or> (c \<noteq> JNull \<and> x \<noteq> JNull \<and> (c = x \<or> py_eq c x)))"

lemma sync_in_step: "in_step (sync_component v)"
  by (simp add: in_step_def sync_component_def Let_def)

lemma sync_settles: "in_step v \<Longrightarrow> sync_component v = v"
  by (auto simp: in_step_def sync_component_def Let_def intro: set_same)

lemma sync_others: "k \<noteq> ''component'' \<Longrightarrow> k \<noteq> ''object'' \<Longrightarrow> get_or_null (sync_component v) k = get_or_null v k"
  by (simp add: sync_component_def Let_def)

definition defaulted :: "payload \<Rightarrow> bool" where
  "defaulted w = (truthy (get_or_null w ''id'') \<and> truthy (get_or_null w ''name'') \<and> in_step w \<and>
     (\<exists>x \<in> set severities. get_or_null w ''severity'' = JStr (alert_severity_value x)) \<and>
     (\<exists>s \<in> set alert_statuses. get_or_null w ''status'' = JStr s) \<and>
     (\<exists>s \<in> set environments. get_or_null w ''environment'' = JStr s) \<and>
     truthy (received_at w) \<and> \<not> has_key w ''assignees'' \<and> \<not> has_key w ''deletedAt'')"

lemma name_fallback_truthy: "truthy (name_fallback v)"
  by (auto simp: name_fallback_def find_Some_iff split: option.split)

lemma taken_assignees:
  assumes "take_assignees env received v = Inr w"
  shows "k \<noteq> ''assignee'' \<Longrightarrow> k \<noteq> ''assignees'' \<Longrightarrow> get_or_null w k = get_or_null v k" "\<not> has_key w ''assignees''"
  using assms by (auto simp: take_assignees_def Let_def get_del split: json.splits list.splits)

lemma in_step_cong: "get_or_null w ''component'' = get_or_null v ''component'' \<Longrightarrow> get_or_null w ''object'' = get_or_null v ''object'' \<Longrightarrow> in_step w = in_step v"
  by (simp add: in_step_def)

lemma received_cong: "get_or_null w ''last_received'' = get_or_null v ''last_received'' \<Longrightarrow> get_or_null w ''lastReceived'' = get_or_null v ''lastReceived'' \<Longrightarrow>
    received_at w = received_at v"
  by (simp add: received_at_def)

lemma sync_name: "name_fallback (sync_component v) = name_fallback v"
  by (simp add: name_fallback_def name_keys_def sync_others)

lemma fill_get:
  "get_or_null (fill_fields env v) ''id'' = (if truthy (get_or_null v ''id'') then get_or_null v ''id'' else JStr (de_fresh env))"
  "truthy (get_or_null (fill_fields env v) ''name'')" "in_step (fill_fields env v)"
  "get_or_null (fill_fields env v) ''severity'' = severity_or_info (get_or_null v ''severity'')"
  "get_or_null (fill_fields env v) ''status'' = member_or ''firing'' alert_statuses (get_or_null v ''status'')"
  "get_or_null (fill_fields env v) ''environment'' = member_or ''production'' environments (get_or_null v ''environment'')"
  "k \<notin> {''id'', ''name'', ''component'', ''object'', ''severity'', ''status'', ''environment''} \<Longrightarrow> get_or_null (fill_fields env v) k = get_or_null v k"
  using name_fallback_truthy sync_in_step
  by (simp_all add: fill_fields_def Let_def sync_others in_step_def)

lemma filled:
  assumes "set_default_values env v = Inr w" and "k \<notin> {''assignee'', ''assignees'', ''deletedAt''}"
  shows "get_or_null w k = get_or_null (fill_time env (fill_fields env v)) k"
proof -
  obtain u where "take_assignees env (received_at (fill_time env (fill_fields env v))) (fill_time env (fill_fields env v)) = Inr u" "w = dict_del ''deletedAt'' u"
    using assms(1) by (auto simp: set_default_values_def Let_def)
  then show ?thesis using taken_assignees(1) assms(2) by (auto simp: get_del)
qed

lemma defaults_given:
  assumes "set_default_values env v = Inr w" and "de_fresh env \<noteq> []" and "de_now env \<noteq> []"
  shows "defaulted w"
proof -
  note w = filled [OF assms(1)]
  obtain u where take: "take_assignees env (received_at (fill_time env (fill_fields env v))) (fill_time env (fill_fields env v)) = Inr u"
      and u: "w = dict_del ''deletedAt'' u"
    using assms(1) by (auto simp: set_default_values_def Let_def)
  have time: "k \<noteq> ''last_received'' \<Longrightarrow> get_or_null (fill_time env x) k = get_or_null x k" for x k by (simp add: fill_time_def)
  have "truthy (get_or_null w ''id'')" using assms(2) by (simp add: w time fill_get)
  moreover have "truthy (get_or_null w ''name'')" by (simp add: w time fill_get)
  moreover have "in_step w" using fill_get(3) [of env v] by (simp add: in_step_def w time)
  moreover have "\<exists>x \<in> set severities. get_or_null w ''severity'' = JStr (alert_severity_value x)"
    using severity_listed by (simp add: w time fill_get)
  moreover have "\<exists>s \<in> set alert_statuses. get_or_null w ''status'' = JStr s"
    using member_or_listed [of "''firing''" alert_statuses] by (simp add: w time fill_get alert_statuses_def)
  moreover have "\<exists>s \<in> set environments. get_or_null w ''environment'' = JStr s"
    using member_or_listed [of "''production''" environments] by (simp add: w time fill_get environments_def)
  moreover have "truthy (received_at w)" using assms(3) by (simp add: received_at_def w fill_time_def)
  moreover have "\<not> has_key w ''assignees''" "\<not> has_key w ''deletedAt''" using taken_assignees(2) [OF take] by (simp_all add: u)
  ultimately show ?thesis by (simp only: defaulted_def simp_thms)
qed

lemma defaults_settle:
  assumes "defaulted w"
  shows "set_default_values env w = Inr w"
proof -
  have sev: "severity_or_info (get_or_null w ''severity'') = get_or_null w ''severity''" "get_or_null w ''severity'' \<noteq> JNull"
    using assms severity_settles by (auto simp: defaulted_def)
  have st: "member_or ''firing'' alert_statuses (get_or_null w ''status'') = get_or_null w ''status''" "get_or_null w ''status'' \<noteq> JNull"
    using assms member_or_settles by (auto simp: defaulted_def)
  have en: "member_or ''production'' environments (get_or_null w ''environment'') = get_or_null w ''environment''" "get_or_null w ''environment'' \<noteq> JNull"
    using assms member_or_settles by (auto simp: defaulted_def)
  have "get_or_null w ''assignees'' = JNull" "dict_del ''assignees'' w = w" "dict_del ''deletedAt'' w = w"
    using assms del_absent by (auto simp: defaulted_def has_key_def get_or_null_def)
  moreover have "truthy (get_or_null w ''id'')" "truthy (get_or_null w ''name'')" "truthy (received_at w)" "sync_component w = w"
    using assms sync_settles by (auto simp: defaulted_def)
  ultimately show ?thesis
    using set_same [OF refl sev(2)] set_same [OF refl st(2)] set_same [OF refl en(2)]
    by (simp add: set_default_values_def fill_fields_def fill_time_def sev(1) st(1) en(1) take_assignees_def)
qed

text \<open>
  C29: whatever a client sends, the alert has an id and a name, a severity, a status and an environment of their
  enumerations, a time, and the same component and object; and the defaults settle: an alert that has them
  passes through unchanged, at whatever time and with whatever new ids.
\<close>

theorem alerts_get_their_defaults:
  assumes "set_default_values env v = Inr w" and "de_fresh env \<noteq> []" and "de_now env \<noteq> []"
  shows "defaulted w \<and> set_default_values env' w = Inr w"
  using defaults_given [OF assms] defaults_settle by blast

definition plain_dto_env :: dto_env where
  "plain_dto_env = \<lparr>de_fresh = ''u'', de_now = ''n'', de_normalise = (\<lambda>s. None), de_iso = (\<lambda>s. Some s), de_unix = (\<lambda>s. None),
     de_sha256 = id, de_str = json_dumps, de_coerce = (\<lambda>k v. Some v)\<rparr>"

definition odd_payload :: payload where
  "odd_payload = [(''severity'', JBool True), (''status'', JStr ''open''), (''title'', JStr ''disk''), (''component'', JStr ''db''),
     (''assignees'', JObj [(''n'', JStr ''ops'')])]"

theorem alerts_get_their_defaults_witness:
  "\<exists>w. set_default_values plain_dto_env odd_payload = Inr w \<and> defaulted w \<and> get_or_null w ''severity'' = JStr ''low'' \<and>
     get_or_null w ''assignee'' = JStr ''ops'' \<and> set_default_values plain_dto_env w = Inr w"
proof -
  have "case set_default_values plain_dto_env odd_payload of Inl _ \<Rightarrow> False
    | Inr w \<Rightarrow> get_or_null w ''severity'' = JStr ''low'' \<and> get_or_null w ''assignee'' = JStr ''ops''" by code_simp
  then obtain w where w: "set_default_values plain_dto_env odd_payload = Inr w" "get_or_null w ''severity'' = JStr ''low''"
      "get_or_null w ''assignee'' = JStr ''ops''" by (auto split: sum.splits)
  have "de_fresh plain_dto_env \<noteq> []" "de_now plain_dto_env \<noteq> []" by (simp_all add: plain_dto_env_def)
  from alerts_get_their_defaults [OF w(1) this, of plain_dto_env] w show ?thesis by blast
qed

section \<open>What clients see\<close>

lemma update_get: "get_or_null (dict_update d new) k = (case dict_get (rev new) k of None \<Rightarrow> get_or_null d k | Some v \<Rightarrow> v)"
proof (induction new rule: rev_induct)
  case (snoc x xs)
  obtain k1 v1 where x: "x = (k1, v1)" by (cases x)
  from snoc show ?case by (simp add: dict_update_def x dict_get_def)
qed (simp add: dict_update_def dict_get_def)

lemma column_get: "dict_get (column_if_set r k d) k' = (if k' = k \<and> la_columns r k \<noteq> JNull then Some (la_columns r k) else dict_get d k')"
  by (simp add: column_if_set_def dict_get_set)

lemma column_ok: "dict_ok d \<Longrightarrow> dict_ok (column_if_set r k d)"
  by (simp add: column_if_set_def dict_ok_set)

lemma ok_rev: "dict_ok d \<Longrightarrow> dict_get (rev d) k = dict_get d k"
proof -
  assume d: "dict_ok d"
  then have "distinct (map fst (rev d))" "distinct (map fst d)" by (simp_all add: dict_ok_def rev_map [symmetric])
  then have "(map_of (rev d) k = Some v) = (map_of d k = Some v)" for v by (simp add: map_of_eq_Some_iff)
  then show ?thesis unfolding dict_get_def by (cases "map_of d k"; cases "map_of (rev d) k") auto
qed

lemma setdefault_get: "dict_get (setdefault k v d) k' = (if k' = k \<and> dict_get d k = None then Some v else dict_get d k')"
  by (auto simp: setdefault_def has_key_def dict_get_set)

lemma setdefault_ok: "dict_ok d \<Longrightarrow> dict_ok (setdefault k v d)"
  by (simp add: setdefault_def dict_ok_set)

lemma overlay_ok: "dict_ok (last_alert_to_dto_payload r)"
  by (simp add: last_alert_to_dto_payload_def Let_def column_ok dict_ok_set setdefault_ok dict_ok_def [of "[]"])

definition user_columns :: "string list" where
  "user_columns = [''status'', ''assignee'', ''note'', ''dismiss_mode'', ''dismissed_until'']"

lemma user_column_cases: "k \<in> set user_columns \<Longrightarrow> k = ''status'' \<or> k = ''assignee'' \<or> k = ''note'' \<or> k = ''dismiss_mode'' \<or> k = ''dismissed_until''"
  by (simp add: user_columns_def)

lemma overlay_get:
  "k \<in> set user_columns \<Longrightarrow> dict_get (last_alert_to_dto_payload r) k = (if la_columns r k = JNull then None else Some (la_columns r k))"
  "dict_get (last_alert_to_dto_payload r) ''firing_counter'' = Some (or_zero (la_columns r ''firing_counter''))"
  "dict_get (last_alert_to_dto_payload r) ''unresolved_counter'' = Some (or_zero (la_columns r ''unresolved_counter''))"
proof -
  show "dict_get (last_alert_to_dto_payload r) ''firing_counter'' = Some (or_zero (la_columns r ''firing_counter''))"
    "dict_get (last_alert_to_dto_payload r) ''unresolved_counter'' = Some (or_zero (la_columns r ''unresolved_counter''))"
    by (simp_all add: last_alert_to_dto_payload_def Let_def column_get dict_get_set)
  assume "k \<in> set user_columns"
  from user_column_cases [OF this]
  show "dict_get (last_alert_to_dto_payload r) k = (if la_columns r k = JNull then None else Some (la_columns r k))"
    by (elim disjE) (simp_all add: last_alert_to_dto_payload_def Let_def column_get dict_get_set setdefault_get dict_get_def [of "[]"])
qed

text \<open>What a client sees of the row: the column, or else what the occurrence says.\<close>

definition shown_of :: "last_alert_row \<Rightarrow> payload \<Rightarrow> string \<Rightarrow> json" where
  "shown_of r p k = (if la_columns r k = JNull then get_or_null p k else la_columns r k)"

lemma payload_get:
  assumes "row_of_alert rows a = Some r"
  shows "k \<in> set user_columns \<Longrightarrow> get_or_null (alert_to_payload rows a) k = shown_of r (da_columns a) k"
    "get_or_null (alert_to_payload rows a) ''firing_counter'' = or_zero (la_columns r ''firing_counter'')"
    "get_or_null (alert_to_payload rows a) ''unresolved_counter'' = or_zero (la_columns r ''unresolved_counter'')"
proof -
  define p where "p = dict_set ''id'' (if da_id a = [] then JNull else JStr (da_id a)) (da_columns a)"
  define q where "q = (case get_or_null p ''source'' of JStr (c # cs) \<Rightarrow> dict_set ''source'' (JList [JStr (c # cs)]) p | _ \<Rightarrow> p)"
  have payload: "alert_to_payload rows a = (case da_started_at a of None \<Rightarrow> dict_update q (last_alert_to_dto_payload r)
      | Some t \<Rightarrow> dict_set ''started_at'' (JStr t) (dict_update q (last_alert_to_dto_payload r)))"
    unfolding alert_to_payload_def Let_def p_def [symmetric] q_def [symmetric] assms option.case by (rule refl)
  have q: "get_or_null q k = get_or_null (da_columns a) k" if "k \<noteq> ''id''" "k \<noteq> ''source''" for k
    using that by (simp add: q_def p_def split: json.split list.split)
  have get: "get_or_null (alert_to_payload rows a) k = (case dict_get (last_alert_to_dto_payload r) k of None \<Rightarrow> get_or_null (da_columns a) k | Some v \<Rightarrow> v)"
    if "k \<noteq> ''id''" "k \<noteq> ''source''" "k \<noteq> ''started_at''" for k
    using that q [OF that(1,2)] by (simp add: payload update_get ok_rev [OF overlay_ok] split: option.split)
  show "k \<in> set user_columns \<Longrightarrow> get_or_null (alert_to_payload rows a) k = shown_of r (da_columns a) k"
  proof -
    assume k: "k \<in> set user_columns"
    then have "k \<noteq> ''id''" "k \<noteq> ''source''" "k \<noteq> ''started_at''" using user_column_cases [of k] by auto
    then show ?thesis using get overlay_get(1) [OF k] by (simp add: shown_of_def)
  qed
  show "get_or_null (alert_to_payload rows a) ''firing_counter'' = or_zero (la_columns r ''firing_counter'')"
    "get_or_null (alert_to_payload rows a) ''unresolved_counter'' = or_zero (la_columns r ''unresolved_counter'')"
    by (simp_all add: get overlay_get)
qed

lemma kept_assignee:
  assumes "set_default_values env v = Inr w" and "get_or_null v ''assignees'' = JNull"
  shows "get_or_null w ''assignee'' = get_or_null v ''assignee''"
proof -
  define u where "u = fill_time env (fill_fields env v)"
  have u: "get_or_null u ''assignee'' = get_or_null v ''assignee''" "get_or_null u ''assignees'' = get_or_null v ''assignees''"
    by (simp_all add: u_def fill_time_def fill_get)
  then have "w = dict_del ''deletedAt'' (dict_del ''assignees'' u)"
    using assms unfolding set_default_values_def u_def [symmetric] take_assignees_def Let_def by simp
  then show ?thesis using u(1) by (simp add: get_del)
qed

lemma parsed_get:
  assumes "alert_dto env p = Inr d"
  obtains w where "set_default_values env p = Inr w"
    "\<And>k. k \<notin> {''fingerprint'', ''source'', ''last_received'', ''lastReceived'', ''name'', ''id''} \<Longrightarrow> get_or_null d k = get_or_null w k"
proof -
  from assms obtain w i name received source fp where "set_default_values env p = Inr w"
    "d = dict_set ''fingerprint'' fp (dict_set ''source'' source (dict_set ''last_received'' received
       (dict_del ''lastReceived'' (dict_set ''name'' name (dict_set ''id'' i w)))))"
    unfolding alert_dto_def rbind_eq_Inr by blast
  then show ?thesis by (intro that) (auto simp: get_del)
qed

text \<open>
  C30: an alert is shown as its row says.  When the row of its fingerprint is known, a client sees the status a
  user or the life cycle set there, if there is one, and else the provider's, which is the effective status
  queries use; the same with the assignee, the note and the dismissal; the counters are those of the row, that of
  firings zero once the alert is acknowledged and that of open ones zero once it is resolved.
\<close>

theorem alerts_are_shown_as_their_rows:
  assumes "convert_db_alerts_to_dto_alerts env rows [a] = [d]" and "row_of_alert rows a = Some r"
    and "get_or_null (da_columns a) ''status'' = JStr p" and "effective_status r p = JStr s" and "s \<in> set alert_statuses"
    and "\<not> has_key (alert_to_payload rows a) ''assignees''"
  shows "get_or_null d ''status'' = effective_status r p \<and>
    (\<forall>k \<in> {''assignee'', ''note'', ''dismiss_mode'', ''dismissed_until''}. get_or_null d k = shown_of r (da_columns a) k) \<and>
    get_or_null d ''firing_counter'' = (if s = ''acknowledged'' then JInt 0 else or_zero (la_columns r ''firing_counter'')) \<and>
    get_or_null d ''unresolved_counter'' = (if s = ''resolved'' then JInt 0 else or_zero (la_columns r ''unresolved_counter''))"
proof -
  obtain d0 where d0: "alert_dto env (alert_to_payload rows a) = Inr d0" "d = finish_alert a d0"
    using assms(1) by (auto simp: convert_db_alerts_to_dto_alerts_def split: sum.splits)
  obtain w where w: "set_default_values env (alert_to_payload rows a) = Inr w"
    "\<And>k. k \<notin> {''fingerprint'', ''source'', ''last_received'', ''lastReceived'', ''name'', ''id''} \<Longrightarrow> get_or_null d0 k = get_or_null w k"
    using d0(1) by (rule parsed_get) blast
  have time: "k \<noteq> ''last_received'' \<Longrightarrow> get_or_null (fill_time env x) k = get_or_null x k" for x k by (simp add: fill_time_def)
  note p = payload_get [OF assms(2)]
  have "get_or_null (alert_to_payload rows a) ''status'' = JStr s"
    using p(1) [of "''status''"] assms(3,4) by (simp add: user_columns_def shown_of_def effective_status_def split: if_splits)
  then have status: "get_or_null d0 ''status'' = JStr s"
    using assms(5) by (simp add: w filled [OF w(1)] time fill_get member_or_settles)
  have kept: "get_or_null d0 k = get_or_null (alert_to_payload rows a) k" if "k \<in> {''note'', ''dismiss_mode'', ''dismissed_until'', ''firing_counter'', ''unresolved_counter''}" for k
    using that by (elim insertE emptyE) (simp_all add: w filled [OF w(1)] time fill_get)
  have "get_or_null (alert_to_payload rows a) ''assignees'' = JNull" using assms(6) by (simp add: has_key_def get_or_null_def)
  then have assignee: "get_or_null d0 ''assignee'' = get_or_null (alert_to_payload rows a) ''assignee''"
    using kept_assignee [OF w(1)] by (simp add: w)
  have done_: "get_or_null d k = get_or_null d0 k" if "k \<in> {''status'', ''note'', ''dismiss_mode'', ''dismissed_until'', ''assignee''}" for k
    using that by (elim insertE emptyE) (simp_all add: d0(2) finish_alert_def Let_def)
  have "get_or_null d ''status'' = effective_status r p" using done_ status assms(4) by simp
  moreover have "\<forall>k \<in> {''assignee'', ''note'', ''dismiss_mode'', ''dismissed_until''}. get_or_null d k = shown_of r (da_columns a) k"
    using done_ kept assignee p(1) by (simp add: user_columns_def)
  moreover have "get_or_null d ''firing_counter'' = (if s = ''acknowledged'' then JInt 0 else or_zero (la_columns r ''firing_counter''))"
    "get_or_null d ''unresolved_counter'' = (if s = ''resolved'' then JInt 0 else or_zero (la_columns r ''unresolved_counter''))"
    using status kept p(2,3) by (simp_all add: d0(2) finish_alert_def Let_def)
  ultimately show ?thesis by blast
qed

definition resolved_row :: last_alert_row where
  "resolved_row = plain_row 1 (default_columns(''status'' := JStr ''resolved'', ''note'' := JStr ''x'', ''firing_counter'' := JInt 3, ''unresolved_counter'' := JInt 2))"

definition stored_alert :: db_alert where
  "stored_alert = \<lparr>da_id = ''i'', da_tenant = ''t'', da_fingerprint = ''f'', da_columns = [(''name'', JStr ''disk''), (''status'', JStr ''firing''),
     (''fingerprint'', JStr ''f''), (''severity'', JStr ''high'')], da_last = Some resolved_row, da_started_at = None\<rparr>"

lemma simple_alert_parses:
  assumes "set_default_values plain_dto_env p = Inr w" and "\<not> has_key w ''source''" and "\<not> has_key w ''lastReceived''"
    and "get_or_null w ''last_received'' = JStr (c # cs)" and "get_or_null w ''fingerprint'' = JStr f"
  shows "\<exists>d. alert_dto plain_dto_env p = Inr d"
proof -
  have "de_coerce plain_dto_env = (\<lambda>k v. Some v)" "de_iso plain_dto_env = Some" by (simp_all add: plain_dto_env_def fun_eq_iff)
  then show ?thesis using assms by (simp add: alert_dto_def coerced_def validate_last_received_def get_fingerprint_def)
qed

theorem alerts_are_shown_as_their_rows_witness:
  "\<exists>d. convert_db_alerts_to_dto_alerts plain_dto_env [] [stored_alert] = [d] \<and> get_or_null d ''status'' = JStr ''resolved'' \<and>
     get_or_null d ''note'' = JStr ''x'' \<and> get_or_null d ''firing_counter'' = JInt 3 \<and> get_or_null d ''unresolved_counter'' = JInt 0"
proof -
  have "case set_default_values plain_dto_env (alert_to_payload [] stored_alert) of Inl _ \<Rightarrow> False
    | Inr w \<Rightarrow> \<not> has_key w ''source'' \<and> \<not> has_key w ''lastReceived'' \<and> get_or_null w ''last_received'' = JStr ''n'' \<and> get_or_null w ''fingerprint'' = JStr ''f''"
    by code_simp
  then obtain w where w: "set_default_values plain_dto_env (alert_to_payload [] stored_alert) = Inr w" "\<not> has_key w ''source''"
      "\<not> has_key w ''lastReceived''" "get_or_null w ''last_received'' = JStr ''n''" "get_or_null w ''fingerprint'' = JStr ''f''" by (auto split: sum.splits)
  obtain d where d: "convert_db_alerts_to_dto_alerts plain_dto_env [] [stored_alert] = [d]"
    using simple_alert_parses [OF w] by (auto simp: convert_db_alerts_to_dto_alerts_def)
  have row: "row_of_alert [] stored_alert = Some resolved_row" by (simp add: row_of_alert_def stored_alert_def)
  have cols: "la_columns resolved_row ''status'' = JStr ''resolved''" "la_columns resolved_row ''note'' = JStr ''x''"
    "la_columns resolved_row ''firing_counter'' = JInt 3" by (simp_all add: resolved_row_def plain_row_def)
  have "get_or_null (da_columns stored_alert) ''status'' = JStr ''firing''" by code_simp
  moreover have "effective_status resolved_row ''firing'' = JStr ''resolved''" by (simp add: effective_status_def cols)
  moreover have "''resolved'' \<in> set alert_statuses" by (simp add: alert_statuses_def)
  moreover have "\<not> has_key (alert_to_payload [] stored_alert) ''assignees''" by code_simp
  ultimately have "get_or_null d ''status'' = JStr ''resolved''" "get_or_null d ''note'' = JStr ''x''"
    "get_or_null d ''firing_counter'' = JInt 3" "get_or_null d ''unresolved_counter'' = JInt 0"
    using alerts_are_shown_as_their_rows [OF d row] by (auto simp: shown_of_def cols or_zero_def)
  with d show ?thesis by blast
qed

section \<open>The counters follow the history\<close>

text \<open>What is kept after a history of statuses and times, the latest first.\<close>

fun tracked_after :: "(string \<times> string) list \<Rightarrow> tracked option" where
  "tracked_after [] = None"
| "tracked_after ((status, received) # earlier) =
     (let previous = tracked_after earlier in Some
       \<lparr>tk_status = status, tk_received = received,
        tk_firing_start = calculated_start_firing_time status received previous,
        tk_since_resolved = calculate_firing_time_since_last_resolved status received previous,
        tk_firing = calculated_firing_counter status previous,
        tk_unresolved = calculated_unresolved_counter status previous\<rparr>)"

text \<open>The run of occurrences since a status other than those wanted, the latest first.\<close>

definition run_of :: "(string \<Rightarrow> bool) \<Rightarrow> (string \<times> string) list \<Rightarrow> (string \<times> string) list" where
  "run_of P h = takeWhile (\<lambda>x. P (fst x)) h"

lemma run_simps [simp]: "run_of P [] = []" "run_of P ((s, t) # h) = (if P s then (s, t) # run_of P h else [])"
  by (simp_all add: run_of_def)

lemma tracked_status: "tracked_after h = Some p \<Longrightarrow> \<exists>t earlier. h = (tk_status p, t) # earlier"
  by (cases h) (auto simp: Let_def split: prod.splits)

lemma tracked_none: "tracked_after h = None \<longleftrightarrow> h = []"
  by (cases h) (auto simp: Let_def split: prod.splits)

text \<open>
  C31: the counters of an alert are functions of its history.  After any occurrences, the number of firings is
  that of the occurrences since the last acknowledged one, whatever their status; the number of open ones that
  of the occurrences since the last resolved one; an alert fires since the first occurrence of the run of firing
  ones it is in; and it fires since it was last resolved from the first occurrence after that, if that one was
  firing, and else never, whatever comes later.
\<close>

theorem counters_follow_history:
  assumes "tracked_after h = Some p" and "\<forall>x \<in> set h. snd x \<noteq> []"
  shows "tk_firing p = length (run_of (\<lambda>s. s \<noteq> ''acknowledged'') h) \<and>
    tk_unresolved p = length (run_of (\<lambda>s. s \<noteq> ''resolved'') h) \<and>
    tk_firing_start p = (if run_of ((=) ''firing'') h = [] then None else Some (snd (last (run_of ((=) ''firing'') h)))) \<and>
    tk_since_resolved p = (let run = run_of (\<lambda>s. s \<noteq> ''resolved'') h in
       if run = [] \<or> fst (last run) \<noteq> ''firing'' then None else Some (snd (last run)))"
  using assms
proof (induction h arbitrary: p)
  case (Cons x earlier)
  obtain s t where x: "x = (s, t)" by (cases x)
  show ?case
  proof (cases "tracked_after earlier")
    case None
    then have "earlier = []" by (simp add: tracked_none)
    moreover have "tk_firing p = calculated_firing_counter s None" "tk_unresolved p = calculated_unresolved_counter s None"
      "tk_firing_start p = calculated_start_firing_time s t None"
      "tk_since_resolved p = calculate_firing_time_since_last_resolved s t None"
      using Cons.prems(1) x None by (auto simp: Let_def)
    ultimately show ?thesis
      by (simp add: x Let_def calculated_start_firing_time_def calculate_firing_time_since_last_resolved_def
          calculated_firing_counter_def calculated_unresolved_counter_def)
  next
    case (Some q)
    obtain t' rest where e: "earlier = (tk_status q, t') # rest" using tracked_status [OF Some] by blast
    have IH: "tk_firing q = length (run_of (\<lambda>s. s \<noteq> ''acknowledged'') earlier)"
      "tk_unresolved q = length (run_of (\<lambda>s. s \<noteq> ''resolved'') earlier)"
      "tk_firing_start q = (if run_of ((=) ''firing'') earlier = [] then None else Some (snd (last (run_of ((=) ''firing'') earlier))))"
      "tk_since_resolved q = (let run = run_of (\<lambda>s. s \<noteq> ''resolved'') earlier in
         if run = [] \<or> fst (last run) \<noteq> ''firing'' then None else Some (snd (last run)))"
      using Cons.IH [OF Some] Cons.prems(2) by simp_all
    have p: "tk_firing p = calculated_firing_counter s (Some q)" "tk_unresolved p = calculated_unresolved_counter s (Some q)"
      "tk_firing_start p = calculated_start_firing_time s t (Some q)"
      "tk_since_resolved p = calculate_firing_time_since_last_resolved s t (Some q)"
      using Cons.prems(1) x Some by (auto simp: Let_def)
    have c1: "tk_firing p = length (run_of (\<lambda>s. s \<noteq> ''acknowledged'') (x # earlier))"
      using IH(1) by (simp add: p(1) calculated_firing_counter_def x e)
    have c2: "tk_unresolved p = length (run_of (\<lambda>s. s \<noteq> ''resolved'') (x # earlier))"
      using IH(2) by (simp add: p(2) calculated_unresolved_counter_def x e)
    have c3: "tk_firing_start p = (if run_of ((=) ''firing'') (x # earlier) = [] then None else Some (snd (last (run_of ((=) ''firing'') (x # earlier)))))"
      using IH(3) by (simp add: p(3) calculated_start_firing_time_def x e)
    have times: "run_of P earlier \<noteq> [] \<Longrightarrow> snd (last (run_of P earlier)) \<noteq> []" for P
      using Cons.prems(2) last_in_set [of "run_of P earlier"] set_takeWhileD [of _ "\<lambda>x. P (fst x)" earlier] unfolding run_of_def by auto
    have c4: "tk_since_resolved p = (let run = run_of (\<lambda>s. s \<noteq> ''resolved'') (x # earlier) in
       if run = [] \<or> fst (last run) \<noteq> ''firing'' then None else Some (snd (last run)))"
    proof (cases "s = ''resolved'' \<or> tk_status q = ''resolved''")
      case True
      then show ?thesis using IH(4) by (auto simp: p(4) calculate_firing_time_since_last_resolved_def x e)
    next
      case False
      define r where "r = run_of (\<lambda>s. s \<noteq> ''resolved'') earlier"
      have r: "r \<noteq> []" "run_of (\<lambda>s. s \<noteq> ''resolved'') (x # earlier) = x # r" using False by (simp_all add: r_def x e)
      obtain c cs where c: "snd (last r) = c # cs" using times [of "\<lambda>s. s \<noteq> ''resolved''"] r(1) unfolding r_def by (cases "snd (last r)") (auto simp: r_def)
      have "tk_since_resolved q = (if fst (last r) \<noteq> ''firing'' then None else Some (c # cs))" using IH(4) r(1) c by (simp add: r_def [symmetric])
      then show ?thesis using False r c by (simp add: p(4) calculate_firing_time_since_last_resolved_def)
    qed
    show ?thesis using c1 c2 c3 c4 by blast
  qed
qed simp

theorem counters_follow_history_witness:
  "\<exists>p. tracked_after [(''firing'', ''4''), (''firing'', ''3''), (''acknowledged'', ''2''), (''resolved'', ''1'')] = Some p \<and>
     tk_firing p = 2 \<and> tk_unresolved p = 3 \<and> tk_firing_start p = Some ''3'' \<and> tk_since_resolved p = None"
proof -
  let ?h = "[(''firing'', ''4''), (''firing'', ''3''), (''acknowledged'', ''2''), (''resolved'', ''1'')]"
  obtain p where p: "tracked_after ?h = Some p" using tracked_none [of ?h] by (cases "tracked_after ?h") auto
  have "\<forall>x \<in> set ?h. snd x \<noteq> []" by simp
  from counters_follow_history [OF p this] p show ?thesis by (simp del: tracked_after.simps add: Let_def)
qed
end
