(* ===== verification/Paging.thy ===== *)
theory Paging
  imports Keep_Prelude "HOL-Library.Multiset"
begin

text \<open>
  Lists handed out in pages, as a contract that the searches of alerts and of incidents both keep: a page
  is a piece of one list, and the total is its length.  Also the list operations behind
  \<open>DISTINCT\<close> and \<open>GROUP BY\<close>: the first element of each key, and the number of keys.
\<close>

section \<open>The first of each key\<close>

function first_of_each :: "('a \<Rightarrow> 'k) \<Rightarrow> 'a list \<Rightarrow> 'a list" where
  "first_of_each key [] = []"
| "first_of_each key (x # xs) = x # first_of_each key (filter (\<lambda>y. key y \<noteq> key x) xs)"
  by pat_completeness auto
termination by (relation "measure (length \<circ> snd)") (auto intro: le_imp_less_Suc)

lemma set_first_of_each: "set (first_of_each key xs) \<subseteq> set xs"
  by (induction key xs rule: first_of_each.induct) auto

lemma keys_first_of_each: "key ` set (first_of_each key xs) = key ` set xs"
proof (induction key xs rule: first_of_each.induct)
  case (2 key x xs)
  then show ?case by auto
qed simp

lemma distinct_first_of_each: "distinct (map key (first_of_each key xs))"
proof (induction key xs rule: first_of_each.induct)
  case (2 key x xs)
  then show ?case using set_first_of_each [of key "filter (\<lambda>y. key y \<noteq> key x) xs"] by auto
qed simp

lemma length_first_of_each: "length (first_of_each key xs) = card (key ` set xs)"
  using distinct_card [OF distinct_first_of_each, of key xs] keys_first_of_each [of key xs] by simp

text \<open>Two keys that separate the same rows have the same number of values.\<close>

lemma card_image_same_keys:
  assumes "\<And>x y. x \<in> A \<Longrightarrow> y \<in> A \<Longrightarrow> f x = f y \<longleftrightarrow> g x = g y"
  shows "card (f ` A) = card (g ` A)"
proof -
  have "bij_betw (\<lambda>v. g (SOME x. x \<in> A \<and> f x = v)) (f ` A) (g ` A)"
  proof -
    have pick: "(SOME y. y \<in> A \<and> f y = f x) \<in> A \<and> f (SOME y. y \<in> A \<and> f y = f x) = f x" if "x \<in> A" for x
      by (rule someI [of "\<lambda>y. y \<in> A \<and> f y = f x" x]) (use that in simp)
    then have "g (SOME y. y \<in> A \<and> f y = f x) = g x" if "x \<in> A" for x
      using assms that by blast
    then show ?thesis by (auto simp: bij_betw_def inj_on_def assms image_iff)
  qed
  then show ?thesis by (rule bij_betw_same_card)
qed

text \<open>
  The rows of a query that joins are listed once per key and counted by distinct ids; without a join they
  are listed and counted as they are.  The two numbers agree when key and id separate the same rows.
\<close>

lemma counted_length:
  assumes "mset sorted_rows = mset rows"
    and "if joins then named \<and> (\<forall>j \<in> set rows. \<forall>k \<in> set rows. key j = key k \<longleftrightarrow> i j = i k) else \<not> named \<or> distinct (map i rows)"
  shows "length (if joins then first_of_each key sorted_rows else sorted_rows) = (if named then card (set (map i rows)) else length rows)"
proof (cases joins)
  case True
  with assms(2) have same: "named" "\<And>j k. j \<in> set rows \<Longrightarrow> k \<in> set rows \<Longrightarrow> key j = key k \<longleftrightarrow> i j = i k"
    by simp_all
  then have "card (key ` set rows) = card (i ` set rows)" by (intro card_image_same_keys) blast
  with same(1) True mset_eq_setD [OF assms(1)] show ?thesis by (simp add: length_first_of_each del: if_split)
next
  case False
  with assms(2) mset_eq_length [OF assms(1)] distinct_card [of "map i rows"] show ?thesis by (cases named) simp_all
qed

section \<open>Pages\<close>

lemma pieces_make_prefix: "concat (map (\<lambda>k. take l (drop (k * l) xs)) [0..<n]) = take (n * l) xs"
proof (induction n)
  case (Suc n)
  then show ?case using take_add [of "n * l" l xs] by (simp add: add.commute [of l])
qed simp

locale paged_search =
  fixes page :: "'q \<Rightarrow> nat \<Rightarrow> nat \<Rightarrow> 'e + 'a list"
    and total :: "'q \<Rightarrow> 'e + nat"
    and found :: "'q \<Rightarrow> 'a list"
    and served :: "'q \<Rightarrow> bool"
    and reaches :: "'q \<Rightarrow> nat \<Rightarrow> bool"
  assumes page_is_piece: "served q \<Longrightarrow> reaches q (offset + limit) \<Longrightarrow>
      page q offset limit = Inr (take limit (drop offset (found q)))"
    and total_is_length: "served q \<Longrightarrow> total q = Inr (length (found q))"
    and reaches_less: "reaches q m \<Longrightarrow> k \<le> m \<Longrightarrow> reaches q k"
begin

lemma pages_served:
  assumes "served q" and "reaches q (n * l)"
  shows "traverse (\<lambda>k. page q (k * l) l) [0..<n] = Inr (map (\<lambda>k. take l (drop (k * l) (found q))) [0..<n])"
proof (rule traverse_map_Inr)
  fix k assume "k \<in> set [0..<n]"
  then have "k * l + l \<le> n * l" using mult_le_mono1 [of "Suc k" n l] by simp
  with assms show "page q (k * l) l = Inr (take l (drop (k * l) (found q)))"
    by (intro page_is_piece) (auto elim: reaches_less)
qed

lemma pages_make_up_found:
  assumes "served q" and "reaches q (n * l)" and "total q = Inr m" and "m \<le> n * l"
  shows "\<exists>ps. traverse (\<lambda>k. page q (k * l) l) [0..<n] = Inr ps \<and> concat ps = found q"
  using assms(3,4) by (simp add: pages_served [OF assms(1,2)] total_is_length [OF assms(1)] pieces_make_prefix)

lemma page_length:
  assumes "served q" and "reaches q (offset + limit)" and "page q offset limit = Inr xs" and "total q = Inr m"
  shows "length xs = min limit (m - offset)"
  using assms(3,4) by (auto simp: page_is_piece [OF assms(1,2)] total_is_length [OF assms(1)])

end

end
