(* ===== verification/Alert_Search.thy ===== *)
theory Alert_Search
  imports Incidents Cel_Validation Paging
begin

text \<open>
  Search of alerts: \<open>src/src/repositories/alerts.py\<close>, which turns a query into SQL over the latest row of
  every alert, its occurrence, and the incidents it is linked to; the two query routes of
  \<open>src/src/routes/alerts.py\<close>; and the listing of \<open>src/src/repositories/db.py\<close> that presets use.  The
  filter is converted by \<open>convert_to_sql_str_v2\<close>.  What the database makes of an SQL text is a parameter:
  whether a row satisfies it (\<open>where_text\<close>), how one execution orders the rows (\<open>order_text\<close>: rows with
  equal sort values come in any order, and in another one when the query is run again), its value in a row
  (\<open>select_text\<close>) and whether it names the tables of incidents, which the database refuses when they are not
  joined (\<open>names_incidents\<close>).  Joins, \<open>DISTINCT\<close>, \<open>LIMIT\<close> and \<open>OFFSET\<close> are written out.
\<close>

section \<open>Fields\<close>

definition simple_field :: "string \<Rightarrow> string list \<Rightarrow> data_type \<Rightarrow> field_mapping_configuration" where
  "simple_field p ts d = \<lparr>cfg_map_from_pattern = p, cfg_map_to = ts, cfg_data_type = Some d, cfg_enum_values = None\<rparr>"

definition enum_field :: "string \<Rightarrow> string list \<Rightarrow> string list \<Rightarrow> field_mapping_configuration" where
  "enum_field p ts vs = \<lparr>cfg_map_from_pattern = p, cfg_map_to = ts, cfg_data_type = Some DString, cfg_enum_values = Some vs\<rparr>"

definition alert_status_values :: "string list" where
  "alert_status_values = [''firing'', ''resolved'', ''acknowledged'', ''suppressed'', ''pending'', ''maintenance'']"

definition alert_severities_by_order :: "string list" where
  "alert_severities_by_order = [''low'', ''info'', ''warning'', ''high'', ''critical'']"

definition environment_values :: "string list" where
  "environment_values = [''production'', ''integration'', ''load'', ''development'', ''test'']"

definition leading_field_configurations :: "field_mapping_configuration list" where
  "leading_field_configurations =
     [simple_field ''id'' [''lastalert.alert_id''] DUuid, simple_field ''source'' [''alert.provider_type''] DString,
      simple_field ''providerId'' [''alert.provider_id''] DString, simple_field ''providerType'' [''alert.provider_type''] DString,
      simple_field ''timestamp'' [''lastalert.timestamp''] DDatetime, simple_field ''fingerprint'' [''lastalert.fingerprint''] DString,
      simple_field ''started_at'' [''lastalert.first_timestamp''] DDatetime, simple_field ''incident.id'' [''incident.id''] DUuid,
      simple_field ''incident.is_visible'' [''incident.is_visible''] DBoolean,
      simple_field ''incident.name'' [''incident.user_generated_name'', ''incident.ai_generated_name''] DString,
      simple_field ''severity_order'' [''CASE alert.severity WHEN '' @ quoted ''critical'' @ '' THEN 5 WHEN '' @ quoted ''high'' @
        '' THEN 4 WHEN '' @ quoted ''warning'' @ '' THEN 3 WHEN '' @ quoted ''info'' @ '' THEN 2 WHEN '' @ quoted ''low'' @
        '' THEN 1 ELSE 0 END''] DInteger,
      simple_field ''labels.severity'' [''alert.severity''] DString]"

definition strict_schema_field_configs :: "field_mapping_configuration list" where
  "strict_schema_field_configs =
     [enum_field ''status'' [''lastalert.status'', ''alert.status''] (rev alert_status_values),
      enum_field ''severity'' [''alert.severity''] alert_severities_by_order,
      enum_field ''environment'' [''alert.environment''] environment_values,
      simple_field ''assignee'' [''lastalert.assignee''] DString, simple_field ''note'' [''lastalert.note''] DString,
      simple_field ''dismiss_mode'' [''lastalert.dismiss_mode''] DString,
      simple_field ''dismissed_until'' [''lastalert.dismissed_until''] DDatetime,
      simple_field ''deleted'' [''lastalert.deleted''] DBoolean,
      simple_field ''dismissed'' [''CASE WHEN lastalert.status = '' @ quoted ''suppressed'' @ '' THEN '' @ quoted ''true'' @
        '' ELSE '' @ quoted ''false'' @ '' END''] DBoolean,
      simple_field ''last_received'' [''lastalert.last_received''] DDatetime,
      simple_field ''firing_counter'' [''lastalert.firing_counter''] DInteger,
      simple_field ''unresolved_counter'' [''lastalert.unresolved_counter''] DInteger,
      simple_field ''firing_start_time'' [''lastalert.firing_start_time''] DString,
      simple_field ''firing_start_time_since_last_resolved'' [''lastalert.firing_start_time_since_last_resolved''] DString]"

text \<open>The columns of \<open>Alert\<close>, with the data type their Python type stands for.\<close>

definition alert_table_columns :: "(string \<times> data_type) list" where
  "alert_table_columns = [(''id'', DString), (''tenant_id'', DString), (''timestamp'', DString), (''provider_type'', DString),
     (''provider_id'', DString), (''application'', DString), (''object'', DString), (''node_name'', DString), (''severity'', DString),
     (''operator'', DString), (''time_created'', DString), (''network'', DString), (''timezone'', DString), (''custom_key'', DString),
     (''expiry_in_minutes'', DInteger), (''site'', DString), (''impact'', DString), (''runbook_url'', DString),
     (''alert_rule_url'', DString), (''environment'', DString), (''source'', DString), (''service'', DString),
     (''key_field'', DString), (''name'', DString), (''status'', DString), (''description'', DString),
     (''is_full_duplicate'', DBoolean), (''is_partial_duplicate'', DBoolean), (''duplicate_reason'', DString),
     (''received_at'', DString), (''fingerprint'', DString), (''alert_hash'', DString)]"

definition infra_columns :: "string list" where
  "infra_columns = [''id'', ''tenant_id'', ''timestamp'', ''provider_type'', ''provider_id'', ''fingerprint'', ''alert_hash'', ''source'']"

definition strict_schema_handled_fields :: "string list" where
  "strict_schema_handled_fields = map cfg_map_from_pattern strict_schema_field_configs @ [''started_at'']"

definition column_configurations :: "field_mapping_configuration list" where
  "column_configurations = map (\<lambda>(c, d). simple_field c [''alert.'' @ c] d)
     (filter (\<lambda>(c, d). c \<notin> set infra_columns \<and> c \<notin> set strict_schema_handled_fields) alert_table_columns)"

definition unprefixed_configurations :: "field_mapping_configuration list" where
  "unprefixed_configurations = leading_field_configurations @ strict_schema_field_configs @ column_configurations"

definition alert_field_configurations :: "field_mapping_configuration list" where
  "alert_field_configurations =
     map (\<lambda>c. c\<lparr>cfg_map_from_pattern := ''alert.'' @ cfg_map_from_pattern c\<rparr>) unprefixed_configurations @ unprefixed_configurations"

definition alert_properties :: properties_metadata where
  "alert_properties = properties_metadata_init alert_field_configurations"

section \<open>Rows\<close>

text \<open>A row of the query: the latest row of an alert and its occurrence, with a link and its incident where joined.\<close>

record joined =
  jr_last :: last_alert_row
  jr_alert :: alert_row
  jr_link :: "link option"
  jr_incident :: "incident option"

record search_env =
  runtime_of :: runtime
  literal_of :: "string \<Rightarrow> string"
  dialect_name :: string
  alerts_hard_limit :: nat
  where_text :: "string \<Rightarrow> joined \<Rightarrow> bool"
  order_text :: "string \<Rightarrow> joined list \<Rightarrow> joined list"
  select_text :: "string \<Rightarrow> joined \<Rightarrow> json"
  names_incidents :: "string \<Rightarrow> bool"

datatype search_error = Filter_error sql_failure | Db_failed | Type_err

definition filter_error :: "sql_failure + 'a \<Rightarrow> search_error + 'a" where
  "filter_error r = (case r of Inl e \<Rightarrow> Inl (Filter_error e) | Inr a \<Rightarrow> Inr a)"

definition tenant_rows :: "string \<Rightarrow> incident_state \<Rightarrow> last_alert_row list" where
  "tenant_rows t s = filter (\<lambda>r. la_tenant r = t) (last_rows s)"

text \<open>The time of the last row within the cap, or none when there are fewer.\<close>

definition get_threeshold_query :: "nat \<Rightarrow> string \<Rightarrow> incident_state \<Rightarrow> int option" where
  "get_threeshold_query cap t s =
     (case drop (cap - 1) (rev (sort (map la_timestamp (tenant_rows t s)))) of [] \<Rightarrow> None | x # xs \<Rightarrow> Some x)"

definition recent :: "int option \<Rightarrow> last_alert_row \<Rightarrow> bool" where
  "recent threshold r = (case threshold of None \<Rightarrow> True | Some x \<Rightarrow> x \<le> la_timestamp r)"

definition join_alert :: "incident_state \<Rightarrow> last_alert_row \<Rightarrow> joined list" where
  "join_alert s r = map (\<lambda>a. \<lparr>jr_last = r, jr_alert = a, jr_link = None, jr_incident = None\<rparr>)
     (filter (\<lambda>a. al_id a = la_alert_id r \<and> al_tenant a = la_tenant r) (is_alerts s))"

text \<open>The fingerprints with a firing incident, of any tenant, whether or not the link is removed.\<close>

definition firing_fingerprints :: "incident_state \<Rightarrow> string list" where
  "firing_fingerprints s = remdups (map la_fingerprint (filter (\<lambda>r. list_ex (\<lambda>l. ln_fingerprint l = la_fingerprint r \<and>
     list_ex (\<lambda>i. i ''id'' = JStr (ln_incident l) \<and> i ''status'' = JStr ''firing'') (is_rows s)) (is_links s)) (last_rows s)))"

definition or_null_row :: "'a list \<Rightarrow> 'a option list" where
  "or_null_row xs = (if xs = [] then [None] else map Some xs)"

definition link_matches :: "incident_state \<Rightarrow> last_alert_row \<Rightarrow> link list" where
  "link_matches s r = filter (\<lambda>l. ln_tenant l = la_tenant r \<and> ln_fingerprint l = la_fingerprint r) (is_links s)"

definition incident_matches :: "incident_state \<Rightarrow> last_alert_row \<Rightarrow> link \<Rightarrow> incident list" where
  "incident_matches s r l = (if la_fingerprint r \<in> set (firing_fingerprints s)
     then filter (is_incident (ln_tenant l) (ln_incident l)) (is_rows s) else [])"

definition join_incidents :: "incident_state \<Rightarrow> joined \<Rightarrow> joined list" where
  "join_incidents s j = concat (map (\<lambda>l. map (\<lambda>i. j\<lparr>jr_link := l, jr_incident := i\<rparr>)
       (or_null_row (case l of None \<Rightarrow> [] | Some l \<Rightarrow> incident_matches s (jr_last j) l)))
     (or_null_row (link_matches s (jr_last j))))"

definition source_rows :: "nat \<Rightarrow> string \<Rightarrow> bool \<Rightarrow> incident_state \<Rightarrow> joined list" where
  "source_rows cap t fetch_incidents s =
     concat (map (if fetch_incidents then join_incidents s else (\<lambda>j. [j]))
       (concat (map (join_alert s) (filter (recent (get_threeshold_query cap t s)) (tenant_rows t s)))))"

section \<open>The query\<close>

fun given_cel :: "string option \<Rightarrow> bool" where
  "given_cel (Some (c # cs)) = True"
| "given_cel _ = False"

definition get_cel_to_sql_provider :: "search_env \<Rightarrow> sql_failure + sql_dialect" where
  "get_cel_to_sql_provider env = uncaught (get_cel_to_sql_provider_for_dialect (literal_of env) (dialect_name env))"

text \<open>The SQL of the filter, and whether the incidents are joined.  With a filter, what the caller asks is ignored.\<close>

definition build_query_for_filtering :: "search_env \<Rightarrow> string option \<Rightarrow> bool \<Rightarrow> search_error + (string \<times> bool)" where
  "build_query_for_filtering env cel fetch_incidents =
     filter_error (rbind (get_cel_to_sql_provider env) (\<lambda>d.
       if given_cel cel then
         rbind (convert_to_sql_str_v2 (runtime_of env) d alert_properties (the cel)) (\<lambda>(sql, involved_fields).
           Inr (sql, list_ex (\<lambda>f. prefixed ''incident.'' (md_field_name f)) involved_fields))
       else Inr ([], fetch_incidents)))"

text \<open>
  SQLAlchemy reads \<open>:name\<close> in a \<open>text\<close> as a parameter, also inside a string literal: the execution of a query
  with one fails, as no value is given for it.  The colon counts unless a word character, a colon or a
  backslash is before it, or a single word character and a colon follow.
\<close>

definition word_char :: "char \<Rightarrow> bool" where
  "word_char c = (let n = of_char c :: nat in
     n = 95 \<or> 48 \<le> n \<and> n \<le> 57 \<or> 65 \<le> n \<and> n \<le> 90 \<or> 97 \<le> n \<and> n \<le> 122)"

fun has_bind_after :: "char option \<Rightarrow> string \<Rightarrow> bool" where
  "has_bind_after before [] = False"
| "has_bind_after before (c # s) =
     (c = CHR '':'' \<and> (case before of None \<Rightarrow> True | Some b \<Rightarrow> \<not> word_char b \<and> b \<noteq> CHR '':'' \<and> b \<noteq> CHR 0x5C)
        \<and> (case s of [] \<Rightarrow> False | [a] \<Rightarrow> word_char a | a # b # _ \<Rightarrow> word_char a \<and> b \<noteq> CHR '':'')
      \<or> has_bind_after (Some c) s)"

definition has_bind_parameter :: "string \<Rightarrow> bool" where
  "has_bind_parameter sql = has_bind_after None sql"

lemma no_bind_in_empty [simp]: "\<not> has_bind_parameter []"
  by (simp add: has_bind_parameter_def)

definition run_query :: "search_env \<Rightarrow> string \<Rightarrow> string \<times> bool \<Rightarrow> incident_state \<Rightarrow> search_error + joined list" where
  "run_query env t q s = (case q of (sql, fetch_incidents) \<Rightarrow>
     if has_bind_parameter sql \<or> sql \<noteq> [] \<and> names_incidents env sql \<and> \<not> fetch_incidents then Inl Db_failed
     else Inr (filter (\<lambda>j. sql = [] \<or> where_text env sql j) (source_rows (alerts_hard_limit env) t fetch_incidents s)))"

record query_dto =
  q_cel :: "string option"
  q_limit :: "int option"
  q_offset :: "int option"
  q_sort_by :: "string option"
  q_sort_dir :: "string option"
  q_sort_options :: "(string option \<times> string option) list option"

text \<open>\<open>ORDER BY\<close> and the sorted columns.  \<open>None\<close> for a field or a direction is a failure of Python.\<close>

definition sort_expression :: "sql_dialect \<Rightarrow> string option \<times> string option \<Rightarrow> search_error + string" where
  "sort_expression d o' = (case o' of (None, x) \<Rightarrow> Inl Type_err
     | (Some f, dir) \<Rightarrow> rbind (filter_error (get_order_by_field d alert_properties f)) (\<lambda>e.
         case dir of None \<Rightarrow> Inl Type_err | Some x \<Rightarrow> Inr (e @ '' '' @ sort_direction x)))"

definition sort_columns :: "search_env \<Rightarrow> (string option \<times> string option) list \<Rightarrow> search_error + (string \<times> string list)" where
  "sort_columns env sorts =
     rbind (filter_error (get_cel_to_sql_provider env)) (\<lambda>d.
     rbind (traverse (sort_expression d) sorts) (\<lambda>es.
     rbind (traverse (\<lambda>(f, x). filter_error (get_field_expression d alert_properties (the f))) sorts) (\<lambda>cs.
     Inr (py_join '', '' es, cs))))"

text \<open>\<open>DISTINCT\<close>: PostgreSQL compares the named columns, the others all that is selected.\<close>

definition distinct_key :: "search_env \<Rightarrow> string list \<Rightarrow> joined \<Rightarrow> json list \<times> nat \<times> (last_alert_row \<times> alert_row) option" where
  "distinct_key env columns j = (map (\<lambda>c. select_text env c j) columns, al_id (jr_alert j),
     if dialect_name env = ''postgresql'' then None else Some (jr_last j, jr_alert j))"

text \<open>A negative bound means no bound in SQLite, and is refused by the other databases.\<close>

definition negative :: "int option \<Rightarrow> bool" where
  "negative x = (case x of None \<Rightarrow> False | Some n \<Rightarrow> n < 0)"

definition limit_rows :: "string \<Rightarrow> int option \<Rightarrow> int option \<Rightarrow> 'a list \<Rightarrow> search_error + 'a list" where
  "limit_rows dialect limit offset xs =
     (if dialect \<noteq> ''sqlite'' \<and> (negative limit \<or> negative offset) then Inl Db_failed
      else let ys = (case offset of None \<Rightarrow> xs | Some n \<Rightarrow> drop (nat n) xs) in
        Inr (case limit of None \<Rightarrow> ys | Some n \<Rightarrow> if n < 0 then ys else take (nat n) ys))"

definition build_total_alerts_query :: "search_env \<Rightarrow> string \<Rightarrow> query_dto \<Rightarrow> incident_state \<Rightarrow> search_error + nat" where
  "build_total_alerts_query env t q s =
     rbind (build_query_for_filtering env (q_cel q) False) (\<lambda>plan.
     rbind (run_query env t plan s) (\<lambda>rows.
     Inr (if given_cel (q_cel q) \<and> py_in ''incident.'' (the (q_cel q))
          then card (set (map (la_alert_id \<circ> jr_last) rows)) else length rows)))"

definition build_alerts_query :: "search_env \<Rightarrow> string \<Rightarrow> query_dto \<Rightarrow> (string option \<times> string option) list \<Rightarrow> incident_state
     \<Rightarrow> search_error + joined list" where
  "build_alerts_query env t q sorts s =
     rbind (sort_columns env sorts) (\<lambda>(order, columns).
     rbind (build_query_for_filtering env (q_cel q) False) (\<lambda>plan.
     rbind (if list_ex (names_incidents env) columns \<and> \<not> snd plan then Inl Db_failed else run_query env t plan s) (\<lambda>rows.
     let sorted_rows = order_text env order rows in
     limit_rows (dialect_name env) (q_limit q) (q_offset q)
       (if snd plan then first_of_each (distinct_key env columns) sorted_rows else sorted_rows))))"

definition query_total_alerts_count :: "search_env \<Rightarrow> string \<Rightarrow> query_dto \<Rightarrow> incident_state \<Rightarrow> search_error + nat" where
  "query_total_alerts_count env t q s = build_total_alerts_query env t q s"

definition effective_sorts :: "query_dto \<Rightarrow> (string option \<times> string option) list" where
  "effective_sorts q =
     (let sorts = (if q_sort_by q \<noteq> None then [(q_sort_by q, q_sort_dir q)]
        else case q_sort_options q of None \<Rightarrow> [] | Some xs \<Rightarrow> xs)
      in if sorts = [] then [(Some ''timestamp'', Some ''desc'')] else sorts)"

text \<open>The page, shortened so that it does not pass the cap.\<close>

definition capped_limit :: "nat \<Rightarrow> int \<Rightarrow> int \<Rightarrow> int" where
  "capped_limit cap limit offset = (if offset + limit > int cap then int cap - offset else limit)"

definition query_last_alerts :: "search_env \<Rightarrow> string \<Rightarrow> query_dto \<Rightarrow> incident_state \<Rightarrow> search_error + joined list" where
  "query_last_alerts env t q s =
     (case (q_limit q, q_offset q) of
        (Some limit, Some offset) \<Rightarrow>
          build_alerts_query env t (q\<lparr>q_limit := Some (capped_limit (alerts_hard_limit env) limit offset)\<rparr>) (effective_sorts q) s
      | _ \<Rightarrow> Inl Type_err)"

section \<open>Incidents of alerts, routes\<close>

text \<open>The incidents attached to every alert found, by fingerprint.\<close>

definition incidents_per_alert :: "string \<Rightarrow> incident_state \<Rightarrow> string \<Rightarrow> incident list" where
  "incidents_per_alert t s f = concat (map (\<lambda>r. concat (map (\<lambda>l. filter (\<lambda>i. i ''id'' = JStr (ln_incident l)) (is_rows s))
       (filter (\<lambda>l. ln_tenant l = la_tenant r \<and> ln_fingerprint l = la_fingerprint r \<and> ln_deleted l = None) (is_links s))))
     (filter (row_key t f) (last_rows s)))"

definition enrich_alerts_with_incidents :: "string \<Rightarrow> incident_state \<Rightarrow> joined list \<Rightarrow> (joined \<times> incident list) list" where
  "enrich_alerts_with_incidents t s js = map (\<lambda>j. (j, incidents_per_alert t s (al_fingerprint (jr_alert j)))) js"

datatype route_failure = Refused http_exception | Raised search_error

definition as_route :: "search_error + 'a \<Rightarrow> route_failure + 'a" where
  "as_route r = (case r of Inr a \<Rightarrow> Inr a
     | Inl (Filter_error (CelToSqlException e)) \<Rightarrow> Inl (Refused (http_exception_from_converter_error e))
     | Inl e \<Rightarrow> Inl (Raised e))"

definition query_alerts_count :: "search_env \<Rightarrow> string \<Rightarrow> query_dto \<Rightarrow> incident_state \<Rightarrow> route_failure + nat" where
  "query_alerts_count env t q s = as_route (query_total_alerts_count env t q s)"

record alerts_page =
  pg_limit :: "int option"
  pg_offset :: "int option"
  pg_count :: nat
  pg_results :: "(joined \<times> incident list) list"

definition query_alerts :: "search_env \<Rightarrow> string \<Rightarrow> query_dto \<Rightarrow> incident_state \<Rightarrow> route_failure + alerts_page" where
  "query_alerts env t q s =
     rbind (as_route (query_last_alerts env t q s)) (\<lambda>js.
     Inr \<lparr>pg_limit = q_limit q, pg_offset = q_offset q, pg_count = length js,
          pg_results = enrich_alerts_with_incidents t s js\<rparr>)"

section \<open>The latest alerts, for presets\<close>

record listing =
  ls_provider_id :: "string option"
  ls_limit :: int
  ls_timeframe :: int
  ls_upper :: "int option"
  ls_lower :: "int option"
  ls_with_incidents :: bool
  ls_fingerprints :: "string list"

definition day :: int where "day = 86400"

definition incidents_subquery :: "string \<Rightarrow> incident_state \<Rightarrow> string \<Rightarrow> string option" where
  "incidents_subquery t s f = (case filter (\<lambda>l. ln_tenant l = t \<and> ln_fingerprint l = f \<and> ln_deleted l = None) (is_links s) of
     [] \<Rightarrow> None | l # ls \<Rightarrow> Some (ln_incident l))"

text \<open>\<open>timeframe\<close> counts days before \<open>now\<close>; \<open>provider\<close> is the provider id of a row.\<close>

definition get_last_alerts :: "string \<Rightarrow> (alert_row \<Rightarrow> string) \<Rightarrow> int \<Rightarrow> string \<Rightarrow> listing \<Rightarrow> incident_state
     \<Rightarrow> search_error + (alert_row \<times> int \<times> string option) list" where
  "get_last_alerts dialect provider current t q s =
     (if ls_with_incidents q \<and> dialect \<notin> {''sqlite'', ''mysql'', ''postgresql''} then Inl (Filter_error (Uncaught ValueError))
      else let rows = concat (map (join_alert s) (filter (\<lambda>r.
          (ls_timeframe q \<noteq> 0 \<longrightarrow> current - day * ls_timeframe q \<le> la_timestamp r) \<and>
          (case ls_upper q of None \<Rightarrow> True | Some u \<Rightarrow> la_timestamp r < u) \<and>
          (case ls_lower q of None \<Rightarrow> True | Some l \<Rightarrow> l \<le> la_timestamp r) \<and>
          (ls_fingerprints q \<noteq> [] \<longrightarrow> la_fingerprint r \<in> set (ls_fingerprints q))) (tenant_rows t s)));
        chosen = filter (\<lambda>j. case ls_provider_id q of Some (c # cs) \<Rightarrow> provider (jr_alert j) = c # cs | _ \<Rightarrow> True) rows
      in rbind (limit_rows dialect (Some (ls_limit q)) None (sort_key (\<lambda>j. - al_timestamp (jr_alert j)) chosen)) (\<lambda>js.
        Inr (map (\<lambda>j. (jr_alert j, la_first_timestamp (jr_last j),
          if ls_with_incidents q then incidents_subquery t s (al_fingerprint (jr_alert j)) else None)) js)))"

section \<open>The search engine\<close>

datatype search_mode = ELASTIC | INTERNAL

fun search_mode_of :: "string \<Rightarrow> search_mode option" where
  "search_mode_of m = (if m = ''elastic'' then Some ELASTIC else if m = ''internal'' then Some INTERNAL else None)"

text \<open>The mode of a tenant; \<open>configured\<close> is its configuration, read only where it decides.\<close>

definition search_mode_for :: "string \<Rightarrow> bool \<Rightarrow> string \<Rightarrow> string option \<Rightarrow> search_error + search_mode" where
  "search_mode_for generic elastic_enabled t configured =
     (if t = generic then Inr (if elastic_enabled then ELASTIC else INTERNAL)
      else if \<not> elastic_enabled then Inr INTERNAL
      else case configured of
          Some (c # cs) \<Rightarrow> (case search_mode_of (c # cs) of Some m \<Rightarrow> Inr m | None \<Rightarrow> Inl (Filter_error (Uncaught ValueError)))
        | _ \<Rightarrow> Inr INTERNAL)"

text \<open>The filter of a search by CEL; \<open>since\<close> is the start of the time frame as text, when there is one.\<close>

definition cel_within :: "string option \<Rightarrow> string option \<Rightarrow> string" where
  "cel_within cel since =
     (let c = py_strip (case cel of None \<Rightarrow> [] | Some c \<Rightarrow> c) in
      case since of None \<Rightarrow> c
      | Some d \<Rightarrow> py_join '' && '' (map (\<lambda>x. ''('' @ x @ '')'') (filter (\<lambda>x. x \<noteq> []) [''timestamp >= '' @ quoted d, c])))"

definition search_alerts_by_cel :: "search_env \<Rightarrow> string \<Rightarrow> string option \<Rightarrow> int \<Rightarrow> string option \<Rightarrow> incident_state
     \<Rightarrow> search_error + joined list" where
  "search_alerts_by_cel env t cel limit since s = query_last_alerts env t
     \<lparr>q_cel = Some (cel_within cel since), q_limit = Some limit, q_offset = Some 0, q_sort_by = None, q_sort_dir = None,
      q_sort_options = None\<rparr> s"

text \<open>Placeholders of the search of Elastic are replaced from the last; text is quoted, its own quotes are kept.\<close>

definition sql_value :: "(json \<Rightarrow> string) \<Rightarrow> json \<Rightarrow> string" where
  "sql_value show_json v = (case v of JStr x \<Rightarrow> quoted x | _ \<Rightarrow> show_json v)"

definition create_raw_sql :: "(json \<Rightarrow> string) \<Rightarrow> string \<Rightarrow> (string, json) pydict \<Rightarrow> string" where
  "create_raw_sql show_json template params =
     fold (\<lambda>(k, v) sql. py_replace ('':'' @ k) (sql_value show_json v) sql) (rev params) template"

definition elastic_query :: "(json \<Rightarrow> string) \<Rightarrow> string \<Rightarrow> string \<Rightarrow> (string, json) pydict \<Rightarrow> int \<Rightarrow> int \<Rightarrow> string" where
  "elastic_query show_json index template params limit timeframe =
     (let q = create_raw_sql show_json template params in
      ''select * from '' @ [CHR 0x22] @ index @ [CHR 0x22] @ '' '' @ (if q \<noteq> [] then ''where '' @ q else []) @
      (if timeframe \<noteq> 0 then '' and last_received > now() - '' @ int_str timeframe @ ''s'' else []) @
      '' order by last_received desc limit '' @ int_str limit)"

section \<open>What is found\<close>

text \<open>The list a query pages through, and the conditions under which it has one and its total is counted rightly.\<close>

definition unbounded :: "query_dto \<Rightarrow> query_dto" where
  "unbounded q = q\<lparr>q_limit := None, q_offset := None\<rparr>"

definition found_alerts :: "search_env \<Rightarrow> string \<Rightarrow> query_dto \<Rightarrow> incident_state \<Rightarrow> joined list" where
  "found_alerts env t q s =
     (case build_alerts_query env t (unbounded q) (effective_sorts q) s of Inr js \<Rightarrow> js | Inl e \<Rightarrow> [])"

text \<open>
  The total counts alerts when the text of the filter has \<open>incident.\<close> in it and rows otherwise; the list has
  one row for each key of \<open>DISTINCT\<close> when a field of incidents is used.
\<close>

definition names_incident_field :: "query_dto \<Rightarrow> bool" where
  "names_incident_field q \<longleftrightarrow> given_cel (q_cel q) \<and> py_in ''incident.'' (the (q_cel q))"

definition alert_ids :: "joined list \<Rightarrow> nat list" where
  "alert_ids rows = map (\<lambda>j. la_alert_id (jr_last j)) rows"

definition rightly_counted :: "search_env \<Rightarrow> query_dto \<Rightarrow> string list \<Rightarrow> bool \<Rightarrow> joined list \<Rightarrow> bool" where
  "rightly_counted env q columns joins rows =
     (if joins then names_incident_field q \<and> (\<forall>j \<in> set rows. \<forall>k \<in> set rows.
        la_alert_id (jr_last j) = la_alert_id (jr_last k) \<longrightarrow> distinct_key env columns j = distinct_key env columns k)
      else \<not> names_incident_field q \<or> distinct (alert_ids rows))"

definition counts_agree :: "search_env \<Rightarrow> string \<Rightarrow> query_dto \<Rightarrow> incident_state \<Rightarrow> bool" where
  "counts_agree env t q s =
     (case sort_columns env (effective_sorts q) of Inl e \<Rightarrow> False | Inr sorting \<Rightarrow>
      case build_query_for_filtering env (q_cel q) False of Inl e \<Rightarrow> False | Inr plan \<Rightarrow>
      case run_query env t plan s of Inl e \<Rightarrow> False | Inr rows \<Rightarrow>
        mset (order_text env (fst sorting) rows) = mset rows \<and> rightly_counted env q (snd sorting) (snd plan) rows)"

definition page_query :: "query_dto \<Rightarrow> nat \<Rightarrow> nat \<Rightarrow> query_dto" where
  "page_query q offset limit = q\<lparr>q_limit := Some (int limit), q_offset := Some (int offset)\<rparr>"

lemma page_query_simps [simp]: "q_cel (page_query q a b) = q_cel q" "effective_sorts (page_query q a b) = effective_sorts q"
  "q_limit (page_query q a b) = Some (int b)" "q_offset (page_query q a b) = Some (int a)"
  "q_cel (unbounded q) = q_cel q" "q_limit (unbounded q) = None" "q_offset (unbounded q) = None" "effective_sorts (unbounded q) = effective_sorts q"
  by (simp_all add: page_query_def unbounded_def effective_sorts_def)

lemma unbounded_page_query [simp]: "unbounded (page_query q a b) = unbounded q"
  by (simp add: page_query_def unbounded_def)

lemma limit_rows_none [simp]: "limit_rows d None None xs = Inr xs"
  by (simp add: limit_rows_def negative_def)

lemma limit_rows_piece [simp]: "limit_rows d (Some (int l)) (Some (int o')) xs = Inr (take l (drop o' xs))"
  by (simp add: limit_rows_def negative_def)

text \<open>Every page is cut from the same list.\<close>

lemma build_alerts_query_pages:
  "build_alerts_query env t q sorts s =
     rbind (build_alerts_query env t (unbounded q) sorts s) (limit_rows (dialect_name env) (q_limit q) (q_offset q))"
  by (auto simp: build_alerts_query_def unbounded_def rbind_def Let_def split: sum.splits prod.splits)

lemma build_alerts_query_limit:
  "build_alerts_query env t (unbounded (q\<lparr>q_limit := l\<rparr>)) sorts s = build_alerts_query env t (unbounded q) sorts s"
  by (simp add: unbounded_def)

lemma query_last_alerts_piece:
  assumes "build_alerts_query env t (unbounded q) (effective_sorts q) s = Inr js" and "q_offset q = Some o'" and "q_limit q = Some l"
  shows "query_last_alerts env t q s =
     limit_rows (dialect_name env) (Some (capped_limit (alerts_hard_limit env) l o')) (Some o') js"
proof -
  let ?q = "q\<lparr>q_limit := Some (capped_limit (alerts_hard_limit env) l o')\<rparr>"
  have "effective_sorts ?q = effective_sorts q" by (simp add: effective_sorts_def)
  with assms show ?thesis
    by (simp add: query_last_alerts_def build_alerts_query_pages [of env t ?q] build_alerts_query_limit)
qed

lemma joins_keep_last:
  assumes "j \<in> set (source_rows cap t fetch s)"
  shows "jr_last j \<in> set (tenant_rows t s) \<and> recent (get_threeshold_query cap t s) (jr_last j) \<and>
    al_id (jr_alert j) = la_alert_id (jr_last j) \<and> al_tenant (jr_alert j) = t"
proof -
  obtain r k where r: "r \<in> set (tenant_rows t s)" "recent (get_threeshold_query cap t s) r" "k \<in> set (join_alert s r)"
    "j \<in> set (if fetch then join_incidents s k else [k])"
    using assms by (auto simp: source_rows_def split: if_splits)
  from r(4) have "jr_last j = jr_last k \<and> jr_alert j = jr_alert k"
    by (auto simp: join_incidents_def split: if_splits)
  with r(1-3) show ?thesis by (auto simp: join_alert_def tenant_rows_def)
qed

lemma run_query_rows:
  assumes "run_query env t q s = Inr rows" and "j \<in> set rows"
  shows "j \<in> set (source_rows (alerts_hard_limit env) t (snd q) s) \<and> (fst q = [] \<or> where_text env (fst q) j)"
  using assms by (auto simp: run_query_def split: prod.splits if_splits)

lemma counted_rows:
  assumes "counts_agree env t q s"
  obtains sorting plan rows where "sort_columns env (effective_sorts q) = Inr sorting"
    and "build_query_for_filtering env (q_cel q) False = Inr plan" and "run_query env t plan s = Inr rows"
    and "mset (order_text env (fst sorting) rows) = mset rows" and "rightly_counted env q (snd sorting) (snd plan) rows"
proof -
  obtain sorting where 1: "sort_columns env (effective_sorts q) = Inr sorting"
    using assms by (cases "sort_columns env (effective_sorts q)") (simp_all add: counts_agree_def)
  obtain plan where 2: "build_query_for_filtering env (q_cel q) False = Inr plan"
    using assms 1 by (cases "build_query_for_filtering env (q_cel q) False") (simp_all add: counts_agree_def)
  obtain rows where 3: "run_query env t plan s = Inr rows"
    using assms 1 2 by (cases "run_query env t plan s") (simp_all add: counts_agree_def)
  from assms that [OF 1 2 3] show thesis by (simp add: counts_agree_def 1 2 3)
qed

lemma key_of_alert:
  assumes "rightly_counted env q columns True rows" and "run_query env t plan s = Inr rows" and "j \<in> set rows" and "k \<in> set rows"
  shows "distinct_key env columns j = distinct_key env columns k \<longleftrightarrow> la_alert_id (jr_last j) = la_alert_id (jr_last k)"
proof
  assume "distinct_key env columns j = distinct_key env columns k"
  then have "al_id (jr_alert j) = al_id (jr_alert k)" by (simp add: distinct_key_def)
  moreover have "al_id (jr_alert j) = la_alert_id (jr_last j)"
    using joins_keep_last [OF conjunct1 [OF run_query_rows [OF assms(2,3)]]] by simp
  moreover have "al_id (jr_alert k) = la_alert_id (jr_last k)"
    using joins_keep_last [OF conjunct1 [OF run_query_rows [OF assms(2,4)]]] by simp
  ultimately show "la_alert_id (jr_last j) = la_alert_id (jr_last k)" by simp
next
  assume "la_alert_id (jr_last j) = la_alert_id (jr_last k)"
  with assms(1,3,4) show "distinct_key env columns j = distinct_key env columns k"
    unfolding rightly_counted_def if_True by blast
qed

lemma query_total_of_rows:
  assumes "build_query_for_filtering env (q_cel q) False = Inr plan" and "run_query env t plan s = Inr rows"
  shows "query_total_alerts_count env t q s = Inr (if names_incident_field q then card (set (alert_ids rows)) else length rows)"
  using assms by (simp add: query_total_alerts_count_def build_total_alerts_query_def names_incident_field_def alert_ids_def o_def)

lemma found_of_rows:
  assumes "sort_columns env (effective_sorts q) = Inr sorting" and "build_query_for_filtering env (q_cel q) False = Inr plan"
    and "run_query env t plan s = Inr rows" and "build_alerts_query env t (unbounded q) (effective_sorts q) s = Inr js"
  shows "js = (if snd plan then first_of_each (distinct_key env (snd sorting)) (order_text env (fst sorting) rows)
    else order_text env (fst sorting) rows)"
proof -
  obtain order columns where sorting: "sorting = (order, columns)" by (cases sorting)
  have "\<not> (list_ex (names_incidents env) columns \<and> \<not> snd plan)"
    using assms(4) by (simp add: build_alerts_query_def assms(1,2) sorting split: if_splits)
  then have "build_alerts_query env t (unbounded q) (effective_sorts q) s =
      Inr (if snd plan then first_of_each (distinct_key env columns) (order_text env order rows) else order_text env order rows)"
    by (simp add: build_alerts_query_def assms(1-3) sorting Let_def)
  with assms(4) show ?thesis unfolding sorting by (cases "snd plan") simp_all
qed

lemma total_is_length_of_found:
  assumes "counts_agree env t q s" and "build_alerts_query env t (unbounded q) (effective_sorts q) s = Inr js"
  shows "query_total_alerts_count env t q s = Inr (length js)"
proof -
  obtain sorting plan rows where *: "sort_columns env (effective_sorts q) = Inr sorting"
    "build_query_for_filtering env (q_cel q) False = Inr plan" "run_query env t plan s = Inr rows"
    and perm: "mset (order_text env (fst sorting) rows) = mset rows"
    and counted: "rightly_counted env q (snd sorting) (snd plan) rows"
    using counted_rows [OF assms(1)] by blast
  have "if snd plan then names_incident_field q \<and> (\<forall>j \<in> set rows. \<forall>k \<in> set rows.
      distinct_key env (snd sorting) j = distinct_key env (snd sorting) k \<longleftrightarrow> la_alert_id (jr_last j) = la_alert_id (jr_last k))
    else \<not> names_incident_field q \<or> distinct (map (\<lambda>j. la_alert_id (jr_last j)) rows)"
  proof (cases "snd plan")
    case True
    with counted have "rightly_counted env q (snd sorting) True rows" by simp
    from key_of_alert [OF this *(3)] this show ?thesis
      unfolding if_P [OF True] rightly_counted_def if_True by blast
  qed (use counted in \<open>simp add: rightly_counted_def alert_ids_def\<close>)
  from counted_length [OF perm this] query_total_of_rows [OF *(2,3)] found_of_rows [OF * assms(2)] show ?thesis
    by (simp only: alert_ids_def)
qed

text \<open>The search of alerts keeps the contract of paging, up to the cap.\<close>

definition pageable :: "search_env \<times> string \<times> query_dto \<times> incident_state \<Rightarrow> bool" where
  "pageable x = (case x of (env, t, q, s) \<Rightarrow>
     is_ok (build_alerts_query env t (unbounded q) (effective_sorts q) s) \<and> counts_agree env t q s)"

interpretation alerts: paged_search
  "\<lambda>(env, t, q, s) offset limit. query_last_alerts env t (page_query q offset limit) s"
  "\<lambda>(env, t, q, s). query_total_alerts_count env t q s"
  "\<lambda>(env, t, q, s). found_alerts env t q s"
  pageable
  "\<lambda>(env, t, q, s) m. m \<le> alerts_hard_limit env"
proof (unfold_locales, goal_cases)
  case (1 x offset limit)
  obtain env t q s where x: "x = (env, t, q, s)" by (cases x)
  with 1 obtain js where js: "build_alerts_query env t (unbounded q) (effective_sorts q) s = Inr js"
    by (auto simp: pageable_def is_ok_iff)
  then have "build_alerts_query env t (unbounded (page_query q offset limit)) (effective_sorts (page_query q offset limit)) s = Inr js"
    by simp
  from query_last_alerts_piece [OF this] 1 x js show ?case
    by (simp add: capped_limit_def found_alerts_def)
next
  case (2 x)
  then show ?case
    by (cases x) (auto simp: pageable_def is_ok_iff found_alerts_def dest: total_is_length_of_found)
next
  case (3 x m k)
  then show ?case by (cases x) auto
qed

lemma limit_rows_subset: "limit_rows d a b xs = Inr ys \<Longrightarrow> set ys \<subseteq> set xs"
  using set_take_subset set_drop_subset
  by (fastforce simp: limit_rows_def Let_def split: if_splits option.splits dest!: in_set_takeD in_set_dropD)

lemma found_from_rows:
  assumes "build_alerts_query env t (unbounded q) sorts s = Inr js"
  shows "\<exists>order plan rows. build_query_for_filtering env (q_cel q) False = Inr plan \<and> run_query env t plan s = Inr rows \<and>
    set js \<subseteq> set (order_text env order rows)"
proof -
  obtain sorting where 1: "sort_columns env sorts = Inr sorting"
    using assms by (cases "sort_columns env sorts") (simp_all add: build_alerts_query_def)
  obtain order columns where sorting: "sorting = (order, columns)" by (cases sorting)
  obtain plan where 2: "build_query_for_filtering env (q_cel q) False = Inr plan"
    using assms 1 sorting by (cases "build_query_for_filtering env (q_cel q) False") (simp_all add: build_alerts_query_def)
  obtain rows where 3: "run_query env t plan s = Inr rows"
    using assms 1 2 sorting by (cases "run_query env t plan s") (simp_all add: build_alerts_query_def split: if_splits)
  have "js = (if snd plan then first_of_each (distinct_key env columns) (order_text env order rows) else order_text env order rows)"
    using assms by (cases "snd plan") (simp_all add: build_alerts_query_def 1 2 3 sorting Let_def split: if_splits)
  then have "set js \<subseteq> set (order_text env order rows)" using set_first_of_each [of "distinct_key env columns" "order_text env order rows"] by (cases "snd plan") simp_all
  with 2 3 show ?thesis by blast
qed

text \<open>Rows at or after the time of the last row within the cap have fewer newer rows than the cap.\<close>

lemma newer_than_nth:
  assumes "sorted (rev xs)" and "k < length xs" and "xs ! k \<le> (x :: int)"
  shows "length (filter (\<lambda>y. x < y) xs) \<le> k"
proof -
  have "xs ! i \<le> x" if "k \<le> i" "i < length xs" for i
    using sorted_rev_nth_mono [OF assms(1)] that assms(3) by (meson order_trans)
  then have "\<forall>y \<in> set (drop k xs). y \<le> x"
    by (auto simp: in_set_conv_nth)
  then have "filter (\<lambda>y. x < y) (drop k xs) = []"
    by (auto simp: filter_empty_conv not_less)
  moreover have "filter (\<lambda>y. x < y) xs = filter (\<lambda>y. x < y) (take k xs) @ filter (\<lambda>y. x < y) (drop k xs)"
    by (metis append_take_drop_id filter_append)
  ultimately show ?thesis using assms(2) length_filter_le [of _ "take k xs"] by simp
qed

lemma recent_rank:
  assumes "0 < cap" and "recent (get_threeshold_query cap t s) r"
  shows "length (filter (\<lambda>r'. la_timestamp r < la_timestamp r') (tenant_rows t s)) < cap"
proof -
  let ?times = "map la_timestamp (tenant_rows t s)" and ?newest = "rev (sort (map la_timestamp (tenant_rows t s)))"
  have "mset (filter (\<lambda>y. la_timestamp r < y) ?newest) = mset (filter (\<lambda>y. la_timestamp r < y) ?times)"
    by simp
  then have "length (filter (\<lambda>y. la_timestamp r < y) ?newest) = length (filter (\<lambda>y. la_timestamp r < y) ?times)"
    by (rule mset_eq_length)
  then have len: "length (filter (\<lambda>y. la_timestamp r < y) ?newest) = length (filter (\<lambda>r'. la_timestamp r < la_timestamp r') (tenant_rows t s))"
    by (simp add: filter_map o_def)
  show ?thesis
  proof (cases "cap - 1 < length ?newest")
    case True
    then have "drop (cap - 1) ?newest = ?newest ! (cap - 1) # drop cap ?newest"
      using Cons_nth_drop_Suc [OF True] assms(1) by simp
    then have "?newest ! (cap - 1) \<le> la_timestamp r"
      using assms(2) by (simp add: recent_def get_threeshold_query_def del: drop_rev)
    from newer_than_nth [OF _ True this] assms(1) len show ?thesis by simp
  next
    case False
    then have "length (tenant_rows t s) \<le> cap - 1" by simp
    moreover have "length (filter (\<lambda>r'. la_timestamp r < la_timestamp r') (tenant_rows t s)) \<le> length (tenant_rows t s)"
      by (rule length_filter_le)
    ultimately show ?thesis using assms(1) by linarith
  qed
qed

lemma joined_incident:
  assumes "j \<in> set (source_rows cap t fetch s)" and "jr_incident j = Some i"
  shows "i ''tenant_id'' = JStr t"
proof -
  obtain r k where r: "r \<in> set (tenant_rows t s)" "k \<in> set (join_alert s r)" "j \<in> set (if fetch then join_incidents s k else [k])"
    using assms(1) by (auto simp: source_rows_def split: if_splits)
  then have k: "jr_last k = r" "jr_incident k = None" by (auto simp: join_alert_def)
  with r(3) assms(2) obtain l where "l \<in> set (link_matches s r)" "i \<in> set (incident_matches s r l)"
    by (auto simp: join_incidents_def or_null_row_def split: if_splits option.splits)
  with r(1) show ?thesis
    by (auto simp: link_matches_def incident_matches_def is_incident_def tenant_rows_def split: if_splits)
qed

section \<open>Properties\<close>

text \<open>
  What \<open>ORDER BY\<close> promises: a permutation of the rows in the order of their sort values, given by a rank for
  every order expression.  Each execution may choose another one.  The rows of a search are untied when only
  rows of the same alert, or with incidents joined only rows that \<open>DISTINCT\<close> makes one, have the same rank.
\<close>

definition orders_by :: "(string \<Rightarrow> joined \<Rightarrow> int) \<Rightarrow> (string \<Rightarrow> joined list \<Rightarrow> joined list) \<Rightarrow> bool" where
  "orders_by rank ord \<longleftrightarrow> (\<forall>e rows. mset (ord e rows) = mset rows \<and> sorted (map (rank e) (ord e rows)))"

definition untied :: "(string \<Rightarrow> joined \<Rightarrow> int) \<Rightarrow> search_env \<Rightarrow> string \<Rightarrow> query_dto \<Rightarrow> incident_state \<Rightarrow> bool" where
  "untied rank env t q s =
     (case sort_columns env (effective_sorts q) of Inl e \<Rightarrow> False | Inr sorting \<Rightarrow>
      case build_query_for_filtering env (q_cel q) False of Inl e \<Rightarrow> False | Inr plan \<Rightarrow>
      case run_query env t plan s of Inl e \<Rightarrow> False | Inr rows \<Rightarrow>
        \<forall>j \<in> set rows. \<forall>k \<in> set rows. rank (fst sorting) j = rank (fst sorting) k \<longleftrightarrow>
          (if snd plan then distinct_key env (snd sorting) j = distinct_key env (snd sorting) k
           else la_alert_id (jr_last j) = la_alert_id (jr_last k)))"

text \<open>The order of another execution changes nothing else of a search.\<close>

lemma reordered [simp]:
  "get_cel_to_sql_provider (env\<lparr>order_text := ord\<rparr>) = get_cel_to_sql_provider env"
  "sort_columns (env\<lparr>order_text := ord\<rparr>) = sort_columns env"
  "build_query_for_filtering (env\<lparr>order_text := ord\<rparr>) = build_query_for_filtering env"
  "run_query (env\<lparr>order_text := ord\<rparr>) = run_query env"
  "distinct_key (env\<lparr>order_text := ord\<rparr>) = distinct_key env"
  "query_total_alerts_count (env\<lparr>order_text := ord\<rparr>) = query_total_alerts_count env"
proof -
  show p: "get_cel_to_sql_provider (env\<lparr>order_text := ord\<rparr>) = get_cel_to_sql_provider env"
    by (simp add: get_cel_to_sql_provider_def)
  show "sort_columns (env\<lparr>order_text := ord\<rparr>) = sort_columns env"
    by (rule ext) (simp add: sort_columns_def p)
  show b: "build_query_for_filtering (env\<lparr>order_text := ord\<rparr>) = build_query_for_filtering env"
    by (intro ext) (simp add: build_query_for_filtering_def p cong: if_cong)
  show r: "run_query (env\<lparr>order_text := ord\<rparr>) = run_query env"
    by (intro ext) (simp add: run_query_def split: prod.split)
  show "distinct_key (env\<lparr>order_text := ord\<rparr>) = distinct_key env"
    by (intro ext) (simp add: distinct_key_def)
  show "query_total_alerts_count (env\<lparr>order_text := ord\<rparr>) = query_total_alerts_count env"
    by (intro ext) (simp add: query_total_alerts_count_def build_total_alerts_query_def b r)
qed

lemma strictly_sorted_first_of_each:
  assumes "sorted (map r xs)" and "\<And>x y. x \<in> set xs \<Longrightarrow> y \<in> set xs \<Longrightarrow> (r x :: int) = r y \<longleftrightarrow> key x = key y"
  shows "sorted (map r (first_of_each key xs)) \<and> distinct (map r (first_of_each key xs))"
  using assms
proof (induction key xs rule: first_of_each.induct)
  case (2 key x xs)
  have "sorted (map r (filter (\<lambda>y. key y \<noteq> key x) xs))"
    using 2(2) by (induction xs) auto
  moreover have "r y = r z \<longleftrightarrow> key y = key z" if "y \<in> set (filter (\<lambda>y. key y \<noteq> key x) xs)" "z \<in> set (filter (\<lambda>y. key y \<noteq> key x) xs)" for y z
    using that 2(3) by simp
  ultimately have ih: "sorted (map r (first_of_each key (filter (\<lambda>y. key y \<noteq> key x) xs)))"
    "distinct (map r (first_of_each key (filter (\<lambda>y. key y \<noteq> key x) xs)))"
    using 2(1) by blast+
  have sub: "set (first_of_each key (filter (\<lambda>y. key y \<noteq> key x) xs)) \<subseteq> {y \<in> set xs. key y \<noteq> key x}"
    using set_first_of_each [of key "filter (\<lambda>y. key y \<noteq> key x) xs"] by auto
  with 2(2,3) have "r x \<noteq> r y \<and> r x \<le> r y" if "y \<in> set (first_of_each key (filter (\<lambda>y. key y \<noteq> key x) xs))" for y
    using that by auto
  with ih show ?case by auto
qed simp

lemma same_ids:
  assumes "map r xs = map r ys" and "\<And>x y. x \<in> set xs \<Longrightarrow> y \<in> set ys \<Longrightarrow> r x = r y \<Longrightarrow> f x = f y"
  shows "map f xs = map f ys"
proof (rule nth_equalityI)
  show len: "length (map f xs) = length (map f ys)" using map_eq_imp_length_eq [OF assms(1)] by simp
  fix i assume "i < length (map f xs)"
  then have "i < length xs" "i < length ys" using len by simp_all
  moreover have "r (xs ! i) = r (ys ! i)" using assms(1) calculation by (metis nth_map)
  ultimately show "map f xs ! i = map f ys ! i" using assms(2) by simp
qed

text \<open>Without ties every execution lists the same alerts in the same order.\<close>

lemma untied_listing:
  assumes "orders_by rank f" and "orders_by rank g"
    and "\<And>j k. j \<in> set rows \<Longrightarrow> k \<in> set rows \<Longrightarrow> rank e j = rank e k \<longleftrightarrow> (if joins then key j = key k else i j = i k)"
    and "\<And>j k. j \<in> set rows \<Longrightarrow> k \<in> set rows \<Longrightarrow> key j = key k \<Longrightarrow> i j = i k"
  shows "map i (if joins then first_of_each key (f e rows) else f e rows) =
    map i (if joins then first_of_each key (g e rows) else g e rows)"
proof -
  have perms: "mset (f e rows) = mset rows" "mset (g e rows) = mset rows"
    and sorted_f: "sorted (map (rank e) (f e rows))" and sorted_g: "sorted (map (rank e) (g e rows))"
    using assms(1,2) unfolding orders_by_def by simp_all
  note sets = perms [THEN mset_eq_setD]
  have perm: "mset (map (rank e) (f e rows)) = mset (map (rank e) (g e rows))" using perms by simp
  show ?thesis
  proof (cases joins)
    case True
    have same: "rank e j = rank e k \<longleftrightarrow> key j = key k" if "j \<in> set rows" "k \<in> set rows" for j k
      using assms(3) [OF that] True by simp
    have f: "sorted (map (rank e) (first_of_each key (f e rows)))" "distinct (map (rank e) (first_of_each key (f e rows)))"
      and g: "sorted (map (rank e) (first_of_each key (g e rows)))" "distinct (map (rank e) (first_of_each key (g e rows)))"
      using strictly_sorted_first_of_each [OF sorted_f, of key] strictly_sorted_first_of_each [OF sorted_g, of key] same sets by auto
    have ranks: "rank e ` set (first_of_each key xs) = rank e ` set rows" if "set xs = set rows" for xs
    proof -
      have sub: "set (first_of_each key xs) \<subseteq> set rows" using set_first_of_each [of key xs] that by simp
      have "rank e x \<in> rank e ` set (first_of_each key xs)" if x: "x \<in> set rows" for x
      proof -
        have "key x \<in> key ` set (first_of_each key xs)" using keys_first_of_each [of key xs] x \<open>set xs = set rows\<close> by simp
        then obtain y where y: "y \<in> set (first_of_each key xs)" "key x = key y" by blast
        with sub same [OF x, of y] show ?thesis by blast
      qed
      with sub show ?thesis by blast
    qed
    have "map (rank e) (first_of_each key (f e rows)) = map (rank e) (first_of_each key (g e rows))"
      using sorted_distinct_set_unique [OF f g] ranks sets by simp
    then have "map i (first_of_each key (f e rows)) = map i (first_of_each key (g e rows))"
    proof (rule same_ids)
      fix x y assume "x \<in> set (first_of_each key (f e rows))" "y \<in> set (first_of_each key (g e rows))" "rank e x = rank e y"
      moreover from this have "x \<in> set rows" "y \<in> set rows"
        using set_first_of_each [of key "f e rows"] set_first_of_each [of key "g e rows"] sets by auto
      ultimately show "i x = i y" using same assms(4) by blast
    qed
    with True show ?thesis by simp
  next
    case False
    have "map (rank e) (f e rows) = map (rank e) (g e rows)"
      using properties_for_sort [OF perm sorted_f] sorted_sort_id [OF sorted_g] by simp
    then have "map i (f e rows) = map i (g e rows)"
      by (rule same_ids) (use assms(3) False sets in auto)
    with False show ?thesis by simp
  qed
qed

lemma pageable_reordered:
  assumes "pageable (env, t, q, s)" and "orders_by rank ord"
  shows "pageable (env\<lparr>order_text := ord\<rparr>, t, q, s)"
proof -
  have "counts_agree (env\<lparr>order_text := ord\<rparr>) t q s"
  proof -
    have agree: "counts_agree env t q s" using assms(1) by (simp add: pageable_def)
    from counted_rows [OF agree] obtain sorting plan rows where *: "sort_columns env (effective_sorts q) = Inr sorting"
      "build_query_for_filtering env (q_cel q) False = Inr plan" "run_query env t plan s = Inr rows"
      "rightly_counted env q (snd sorting) (snd plan) rows" by blast
    have "rightly_counted (env\<lparr>order_text := ord\<rparr>) q (snd sorting) (snd plan) rows" using *(4) by (simp only: rightly_counted_def reordered)
    with *(1-3) assms(2) show ?thesis by (simp add: counts_agree_def orders_by_def)
  qed
  moreover have "is_ok (build_alerts_query (env\<lparr>order_text := ord\<rparr>) t (unbounded q) (effective_sorts q) s)"
  proof -
    obtain js where js: "build_alerts_query env t (unbounded q) (effective_sorts q) s = Inr js"
      using assms(1) by (auto simp: pageable_def is_ok_iff)
    obtain order columns where sorting: "sort_columns env (effective_sorts q) = Inr (order, columns)"
      using js by (cases "sort_columns env (effective_sorts q)") (auto simp: build_alerts_query_def)
    obtain plan where plan: "build_query_for_filtering env (q_cel q) False = Inr plan"
      using js sorting by (cases "build_query_for_filtering env (q_cel q) False") (simp_all add: build_alerts_query_def)
    show ?thesis
    proof (cases "list_ex (names_incidents env) columns \<and> \<not> snd plan")
      case False
      with js obtain rows where "run_query env t plan s = Inr rows"
        by (cases "run_query env t plan s") (simp_all add: build_alerts_query_def sorting plan del: if_split)
      with False show ?thesis by (simp add: build_alerts_query_def sorting plan is_ok_def Let_def del: if_split)
    qed (use js in \<open>simp add: build_alerts_query_def sorting plan\<close>)
  qed
  ultimately show ?thesis by (simp add: pageable_def)
qed

lemma found_reordered:
  assumes "pageable (env, t, q, s)" and "orders_by rank (order_text env)" and "orders_by rank ord" and "untied rank env t q s"
  shows "alert_ids (found_alerts (env\<lparr>order_text := ord\<rparr>) t q s) = alert_ids (found_alerts env t q s)"
proof -
  have agree: "counts_agree env t q s" using assms(1) by (simp add: pageable_def)
  from counted_rows [OF agree] obtain sorting plan rows where *: "sort_columns env (effective_sorts q) = Inr sorting"
    "build_query_for_filtering env (q_cel q) False = Inr plan" "run_query env t plan s = Inr rows" by blast
  obtain js where js: "build_alerts_query env t (unbounded q) (effective_sorts q) s = Inr js"
    using assms(1) by (auto simp: pageable_def is_ok_iff)
  obtain js' where js': "build_alerts_query (env\<lparr>order_text := ord\<rparr>) t (unbounded q) (effective_sorts q) s = Inr js'"
    using pageable_reordered [OF assms(1,3)] by (auto simp: pageable_def is_ok_iff)
  have id: "distinct_key env c j = distinct_key env c k \<Longrightarrow> la_alert_id (jr_last j) = la_alert_id (jr_last k)"
    if "j \<in> set rows" "k \<in> set rows" for c j k
    using joins_keep_last [OF conjunct1 [OF run_query_rows [OF *(3) that(1)]]]
      joins_keep_last [OF conjunct1 [OF run_query_rows [OF *(3) that(2)]]] by (simp add: distinct_key_def)
  have "untied rank env t q s \<longleftrightarrow> (\<forall>j \<in> set rows. \<forall>k \<in> set rows. rank (fst sorting) j = rank (fst sorting) k \<longleftrightarrow>
      (if snd plan then distinct_key env (snd sorting) j = distinct_key env (snd sorting) k
       else la_alert_id (jr_last j) = la_alert_id (jr_last k)))"
    unfolding untied_def * sum.case ..
  with assms(4) have ties: "rank (fst sorting) j = rank (fst sorting) k \<longleftrightarrow>
      (if snd plan then distinct_key env (snd sorting) j = distinct_key env (snd sorting) k
       else la_alert_id (jr_last j) = la_alert_id (jr_last k))" if "j \<in> set rows" "k \<in> set rows" for j k
    using that by blast
  have shown: "js = (if snd plan then first_of_each (distinct_key env (snd sorting)) (order_text env (fst sorting) rows)
      else order_text env (fst sorting) rows)" by (rule found_of_rows [OF * js])
  have shown': "js' = (if snd plan then first_of_each (distinct_key env (snd sorting)) (ord (fst sorting) rows) else ord (fst sorting) rows)"
    using found_of_rows [of "env\<lparr>order_text := ord\<rparr>" q sorting plan t s rows js'] * js' by simp
  have "alert_ids js' = alert_ids js"
    unfolding shown shown' alert_ids_def by (rule untied_listing [OF assms(3,2) ties id])
  then show ?thesis by (simp add: found_alerts_def js js')
qed

text \<open>
  C32: Pages of \<open>limit\<close> rows, asked for one after the other, together are the alerts found, in their order and
  each once, when they reach the total the count route gives and stay within the cap on alerts; every page
  may be ordered anew by the database.  It takes sort values that no two alerts share
  (\<open>untied\<close>; otherwise \<open>tied_pages_repeat_alerts\<close>), and that the two ways of counting agree
  (\<open>counts_agree\<close> in \<open>pageable\<close>: a filter on fields of incidents has \<open>incident.\<close> in its text, and rows of
  one alert are made one by \<open>DISTINCT\<close>).
\<close>

theorem pages_make_up_the_search:
  assumes "pageable (env, t, q, s)" and "n * l \<le> alerts_hard_limit env" and "query_total_alerts_count env t q s = Inr m" and "m \<le> n * l"
    and "orders_by rank (order_text env)" and "\<forall>k. orders_by rank (ord k)" and "untied rank env t q s"
  shows "\<exists>ps. traverse (\<lambda>k. query_last_alerts (env\<lparr>order_text := ord k\<rparr>) t (page_query q (k * l) l) s) [0..<n] = Inr ps \<and>
    alert_ids (concat ps) = alert_ids (found_alerts env t q s) \<and> length (concat ps) = m"
proof -
  let ?env = "\<lambda>k. env\<lparr>order_text := ord k\<rparr>"
  define page where "page = (\<lambda>k. take l (drop (k * l) (found_alerts (?env k) t q s)))"
  have "query_last_alerts (?env k) t (page_query q (k * l) l) s = Inr (page k)" if "k \<in> set [0..<n]" for k
  proof -
    have "k * l + l \<le> alerts_hard_limit env" using that mult_le_mono1 [of "Suc k" n l] assms(2) by simp
    with alerts.page_is_piece [of "(?env k, t, q, s)" "k * l" l] pageable_reordered [OF assms(1)] assms(6) show ?thesis
      by (auto simp: page_def)
  qed
  then have run: "traverse (\<lambda>k. query_last_alerts (?env k) t (page_query q (k * l) l) s) [0..<n] = Inr (map page [0..<n])"
    by (rule traverse_map_Inr)
  have m: "m = length (found_alerts env t q s)"
    using alerts.total_is_length [of "(env, t, q, s)"] assms(1,3) by simp
  have ids: "alert_ids (page k) = take l (drop (k * l) (alert_ids (found_alerts env t q s)))" for k
    using found_reordered [OF assms(1,5) _ assms(7), of "ord k"] assms(6)
    unfolding page_def alert_ids_def take_map [symmetric] drop_map [symmetric] by simp
  have "alert_ids (concat (map page [0..<n])) = concat (map (\<lambda>k. alert_ids (page k)) [0..<n])"
    by (simp add: alert_ids_def map_concat o_def)
  also have "\<dots> = take (n * l) (alert_ids (found_alerts env t q s))"
    unfolding ids by (rule pieces_make_prefix)
  also have "\<dots> = alert_ids (found_alerts env t q s)" using assms(4) m by (simp add: alert_ids_def)
  finally have all: "alert_ids (concat (map page [0..<n])) = alert_ids (found_alerts env t q s)" .
  then have "length (concat (map page [0..<n])) = m" using m by (metis alert_ids_def length_map)
  with run all show ?thesis by blast
qed

text \<open>
  C33: A search returns latest rows of the asking tenant only, each with its own occurrence, that satisfy the
  SQL of the filter, with fewer newer rows of the tenant than the cap, and an incident joined to a row is
  the tenant's.
\<close>

theorem searches_are_confined:
  assumes "query_last_alerts env t q s = Inr js" and "j \<in> set js" and "\<forall>e xs. set (order_text env e xs) \<subseteq> set xs"
    and "0 < alerts_hard_limit env"
  shows "jr_last j \<in> set (last_rows s) \<and> la_tenant (jr_last j) = t \<and> al_tenant (jr_alert j) = t \<and>
    al_id (jr_alert j) = la_alert_id (jr_last j) \<and>
    length (filter (\<lambda>r. la_timestamp (jr_last j) < la_timestamp r) (tenant_rows t s)) < alerts_hard_limit env \<and>
    (\<exists>plan. build_query_for_filtering env (q_cel q) False = Inr plan \<and> (fst plan = [] \<or> where_text env (fst plan) j)) \<and>
    (\<forall>i. jr_incident j = Some i \<longrightarrow> i ''tenant_id'' = JStr t)"
proof -
  obtain q' where q': "q_cel q' = q_cel q" "build_alerts_query env t q' (effective_sorts q) s = Inr js"
  proof -
    obtain l o' where "q_limit q = Some l" "q_offset q = Some o'"
      using assms(1) by (auto simp: query_last_alerts_def split: option.splits)
    with assms(1) show thesis
      using that [of "q\<lparr>q_limit := Some (capped_limit (alerts_hard_limit env) l o')\<rparr>"] by (simp add: query_last_alerts_def)
  qed
  obtain js' where js': "build_alerts_query env t (unbounded q') (effective_sorts q) s = Inr js'"
    "limit_rows (dialect_name env) (q_limit q') (q_offset q') js' = Inr js"
    using q'(2) by (auto simp: build_alerts_query_pages [of env t q'])
  then have j: "j \<in> set js'" using assms(2) limit_rows_subset by blast
  from found_from_rows [OF js'(1)] obtain order plan rows where
    plan: "build_query_for_filtering env (q_cel q) False = Inr plan" and rows: "run_query env t plan s = Inr rows"
      and sub: "set js' \<subseteq> set (order_text env order rows)"
    using q'(1) by auto
  have "j \<in> set rows" using j sub assms(3) by blast
  with run_query_rows [OF rows] have src: "j \<in> set (source_rows (alerts_hard_limit env) t (snd plan) s)"
    and filtered: "fst plan = [] \<or> where_text env (fst plan) j" by blast+
  from joins_keep_last [OF src] recent_rank [OF assms(4)] plan filtered joined_incident [OF src] show ?thesis
    by (auto simp: tenant_rows_def)
qed

text \<open>
  C34: Up to the cap, a page is the piece of the list the query asks for, shortened at the cap.  A page that
  starts beyond the cap asks for a negative number of rows: PostgreSQL and MySQL refuse the query, and SQLite
  returns everything that is left, whatever the limit.
\<close>

theorem pages_stop_at_the_cap:
  assumes "build_alerts_query env t (unbounded q) (effective_sorts q) s = Inr js"
    and "q_offset q = Some (int offset)" and "q_limit q = Some (int limit)"
  shows "query_last_alerts env t q s =
    (if offset \<le> alerts_hard_limit env then Inr (take (min limit (alerts_hard_limit env - offset)) (drop offset js))
     else if dialect_name env = ''sqlite'' then Inr (drop offset js) else Inl Db_failed)"
proof -
  let ?cap = "alerts_hard_limit env"
  have *: "query_last_alerts env t q s =
      limit_rows (dialect_name env) (Some (capped_limit ?cap (int limit) (int offset))) (Some (int offset)) js"
    by (rule query_last_alerts_piece [OF assms])
  consider "offset + limit \<le> ?cap" | "offset \<le> ?cap" "?cap < offset + limit" | "?cap < offset" by linarith
  then show ?thesis
  proof cases
    case 1
    then have "capped_limit ?cap (int limit) (int offset) = int limit" by (simp add: capped_limit_def)
    with 1 * show ?thesis by simp
  next
    case 2
    then have cap: "capped_limit ?cap (int limit) (int offset) = int (?cap - offset)"
      by (simp add: capped_limit_def of_nat_diff)
    have "query_last_alerts env t q s = Inr (take (?cap - offset) (drop offset js))"
      unfolding * cap by (rule limit_rows_piece)
    with 2 show ?thesis by (simp add: min_def)
  next
    case 3
    then have "capped_limit ?cap (int limit) (int offset) < 0" by (simp add: capped_limit_def)
    with 3 * show ?thesis by (simp add: limit_rows_def negative_def)
  qed
qed

lemma known_configuration:
  "dict_get (known_configurations (fold add_configuration cs m)) p =
    (case find (\<lambda>c. \<not> is_wildcard c \<and> cfg_map_from_pattern (normalised c) = p) (rev cs) of
       Some c \<Rightarrow> Some (normalised c) | None \<Rightarrow> dict_get (known_configurations m) p)"
proof (induction cs rule: rev_induct)
  case (snoc c cs)
  have "dict_get (known_configurations (add_configuration c m')) p =
      (if \<not> is_wildcard c \<and> cfg_map_from_pattern (normalised c) = p then Some (normalised c) else dict_get (known_configurations m') p)" for m'
    by (auto simp: add_configuration_def Let_def dict_get_set)
  with snoc show ?case by simp
qed simp

definition received_at_field :: field_mapping_configuration where
  "received_at_field = simple_field ''received_at'' [''alert.received_at''] DString"

lemma last_column: "rev alert_field_configurations = received_at_field # tl (rev alert_field_configurations)"
proof -
  have c: "rev column_configurations = received_at_field # tl (rev column_configurations)"
    unfolding column_configurations_def received_at_field_def by code_simp
  have u: "rev unprefixed_configurations =
      received_at_field # (tl (rev column_configurations) @ rev strict_schema_field_configs) @ rev leading_field_configurations"
    unfolding unprefixed_configurations_def rev_append by (subst c) simp
  show ?thesis unfolding alert_field_configurations_def rev_append by (simp add: u)
qed

lemma received_at_metadata: "get_property_metadata_for_str alert_properties ''received_at'' =
  Inr (Some \<lparr>md_field_name = ''[received_at]'', md_field_mappings = [SimpleFieldMapping ''alert.received_at''],
    md_enum_values = None, md_data_type = Some DString\<rparr>)"
proof -
  have n: "\<not> is_wildcard received_at_field" "normalised received_at_field = received_at_field\<lparr>cfg_map_from_pattern := ''[received_at]''\<rparr>"
    "get_property_path_str (extract_fields ''received_at'') = ''[received_at]''" by code_simp+
  have "dict_get (known_configurations alert_properties) ''[received_at]'' = Some (normalised received_at_field)"
    unfolding alert_properties_def properties_metadata_init_def known_configuration
    by (subst last_column) (simp add: n(1,2))
  moreover have "normalised received_at_field = \<lparr>cfg_map_from_pattern = ''[received_at]'', cfg_map_to = [''alert.received_at''],
      cfg_data_type = Some DString, cfg_enum_values = None\<rparr>"
    by (simp add: n(2)) (simp add: received_at_field_def simple_field_def)
  ultimately show ?thesis
    by (simp add: get_property_metadata_for_str_def get_property_metadata_def find_mapping_configuration_def n(3) template_of_def
        map_target_def json_column_def)
qed

definition sample_search :: search_env where
  "sample_search = \<lparr>runtime_of = literal_runtime, literal_of = doubling_literal, dialect_name = ''sqlite'', alerts_hard_limit = 3,
     where_text = (\<lambda>e j. True), order_text = (\<lambda>e. sort_key (\<lambda>j. - al_timestamp (jr_alert j))),
     select_text = (\<lambda>e j. JNull), names_incidents = (\<lambda>e. False)\<rparr>"

definition sample_query :: query_dto where
  "sample_query = \<lparr>q_cel = None, q_limit = Some 1, q_offset = Some 1, q_sort_by = Some ''received_at'', q_sort_dir = Some ''desc'',
     q_sort_options = None\<rparr>"

lemma sample_sorting: "sort_columns sample_search (effective_sorts sample_query) = Inr (''alert.received_at DESC'', [''alert.received_at''])"
proof -
  have "sort_direction ''desc'' = ''DESC''" by code_simp
  then show ?thesis
    by (simp add: effective_sorts_def sample_query_def sort_columns_def sort_expression_def get_cel_to_sql_provider_def
      sample_search_def get_cel_to_sql_provider_for_dialect_def uncaught_def filter_error_def get_order_by_field_def
      get_field_expression_def get_field_metadata_or_raise_def received_at_metadata sqlite_dialect_def sql_methods.defs
      sql_dialect.defs base_field_expression_def one_or_coalesce_def field_expressions_def)
qed

definition search_last :: "nat \<Rightarrow> last_alert_row" where
  "search_last n = \<lparr>la_tenant = ''t'', la_fingerprint = [CHR ''f''], la_hash = None, la_alert_id = n, la_timestamp = int n,
     la_first_timestamp = 1, la_columns = default_columns\<rparr>"

definition search_alert :: "nat \<Rightarrow> alert_row" where
  "search_alert n = \<lparr>al_id = n, al_tenant = ''t'', al_fingerprint = ''f'', al_timestamp = int n, al_received = None,
     al_service = None, al_provider = ''p'', al_severity = None, al_status = None\<rparr>"

definition search_row :: "nat \<Rightarrow> joined" where
  "search_row n = \<lparr>jr_last = search_last n, jr_alert = search_alert n, jr_link = None, jr_incident = None\<rparr>"

definition search_state :: incident_state where
  "search_state = \<lparr>is_out = sample_outside\<lparr>out_db := (out_db sample_outside)\<lparr>edb_last := map search_last [1, 4, 2, 3]\<rparr>\<rparr>,
     is_alerts = map search_alert [1, 2, 3, 4], is_links = [], is_rows = [], is_mentions = [], is_opened = []\<rparr>"

lemma search_facts:
  "source_rows 3 ''t'' False search_state = map search_row [4, 2, 3]"
  "build_query_for_filtering sample_search None False = Inr ([], False)"
proof -
  have l: "last_rows search_state = map search_last [1, 4, 2, 3]" "is_alerts search_state = map search_alert [1, 2, 3, 4]"
    by (simp_all add: search_state_def last_rows_def)
  have "tenant_rows ''t'' search_state = map search_last [1, 4, 2, 3]" by (simp add: tenant_rows_def l search_last_def)
  moreover have "get_threeshold_query 3 ''t'' search_state = Some 2" by code_simp
  moreover have "filter (recent (Some 2)) (map search_last [1, 4, 2, 3]) = map search_last [4, 2, 3]"
    by (simp add: recent_def) (simp add: search_last_def)
  moreover have "join_alert search_state (search_last n) = [search_row n]" if "n \<in> {2, 3, 4}" for n
    using that by (auto simp: join_alert_def l search_row_def search_last_def search_alert_def)
  ultimately show "source_rows 3 ''t'' False search_state = map search_row [4, 2, 3]"
    by (simp add: source_rows_def del: filter.simps)
  show "build_query_for_filtering sample_search None False = Inr ([], False)"
    by (simp add: build_query_for_filtering_def filter_error_def get_cel_to_sql_provider_def sample_search_def
        get_cel_to_sql_provider_for_dialect_def uncaught_def)
qed

lemma search_found:
  "build_alerts_query sample_search ''t'' (unbounded sample_query) (effective_sorts sample_query) search_state =
     Inr (map search_row [4, 3, 2])"
  "counts_agree sample_search ''t'' sample_query search_state"
  "query_total_alerts_count sample_search ''t'' sample_query search_state = Inr 3"
proof -
  have q: "q_cel sample_query = None" "alerts_hard_limit sample_search = 3" "\<And>e. names_incidents sample_search e = False"
    "order_text sample_search = (\<lambda>e. sort_key (\<lambda>j. - al_timestamp (jr_alert j)))"
    by (simp_all add: sample_query_def sample_search_def)
  have o: "sort_key (\<lambda>j. - al_timestamp (jr_alert j)) (map search_row [4, 2, 3]) = map search_row [4, 3, 2]"
    by (simp add: search_row_def search_alert_def)
  have r: "run_query sample_search ''t'' ([], False) search_state = Inr (map search_row [4, 2, 3])"
    by (simp add: run_query_def q search_facts)
  show "build_alerts_query sample_search ''t'' (unbounded sample_query) (effective_sorts sample_query) search_state =
     Inr (map search_row [4, 3, 2])"
    using o by (simp add: build_alerts_query_def sample_sorting search_facts r q)
  show "counts_agree sample_search ''t'' sample_query search_state"
    by (simp add: counts_agree_def sample_sorting search_facts r q rightly_counted_def names_incident_field_def)
  show "query_total_alerts_count sample_search ''t'' sample_query search_state = Inr 3"
    by (simp add: query_total_alerts_count_def build_total_alerts_query_def search_facts r q)
qed

lemma sample_cap: "alerts_hard_limit sample_search = 3"
  by (simp add: sample_search_def)

definition newest_rank :: "string \<Rightarrow> joined \<Rightarrow> int" where
  "newest_rank e j = - al_timestamp (jr_alert j)"

lemma sample_orders: "orders_by newest_rank (\<lambda>e. sort_key (newest_rank e))"
  by (simp add: orders_by_def)

lemma sample_order_text: "order_text sample_search = (\<lambda>e. sort_key (newest_rank e))"
  by (simp add: sample_search_def newest_rank_def [abs_def])

theorem pages_make_up_the_search_witness:
  "\<exists>ps. traverse (\<lambda>k. query_last_alerts (sample_search\<lparr>order_text := (\<lambda>e. sort_key (newest_rank e))\<rparr>) ''t''
      (page_query sample_query (k * 1) 1) search_state) [0..<3] = Inr ps \<and>
    alert_ids (concat ps) = [4, 3, 2]"
proof -
  have p: "pageable (sample_search, ''t'', sample_query, search_state)" "found_alerts sample_search ''t'' sample_query search_state = map search_row [4, 3, 2]"
    by (simp_all add: pageable_def found_alerts_def search_found)
  have r: "run_query sample_search ''t'' ([], False) search_state = Inr (map search_row [4, 2, 3])"
    by (simp add: run_query_def search_facts sample_cap)
  have "q_cel sample_query = None" by (simp add: sample_query_def)
  then have u: "untied newest_rank sample_search ''t'' sample_query search_state"
    by (simp add: untied_def sample_sorting search_facts r newest_rank_def)
      (auto simp: search_row_def search_alert_def search_last_def)
  have "alert_ids (map search_row [4, 3, 2]) = [4, 3, 2]" by (simp add: alert_ids_def search_row_def search_last_def)
  with pages_make_up_the_search [OF p(1) _ search_found(3), of 3 1 newest_rank "\<lambda>_ e. sort_key (newest_rank e)"]
    sample_cap sample_orders u p(2) show ?thesis
    by (auto simp: sample_order_text)
qed

text \<open>
  With ties a database that keeps what \<open>ORDER BY\<close> promises may show an alert on two pages and another on
  none: the queries have no column that breaks ties.
\<close>

definition tied_order :: "nat \<Rightarrow> string \<Rightarrow> joined list \<Rightarrow> joined list" where
  "tied_order k e rows = (if k = 0 then rows else rev rows)"

theorem tied_pages_repeat_alerts:
  "orders_by (\<lambda>e j. 0) (tied_order k)"
  "map (\<lambda>k. map_sum (\<lambda>_. ()) alert_ids (query_last_alerts (sample_search\<lparr>order_text := tied_order k\<rparr>) ''t''
      (page_query sample_query k 1) search_state)) [0, 1, 2] = [Inr [4], Inr [2], Inr [4]]"
  "alert_ids (found_alerts (sample_search\<lparr>order_text := tied_order 0\<rparr>) ''t'' sample_query search_state) = [4, 2, 3]"
proof -
  show "orders_by (\<lambda>e j. 0) (tied_order k)" by (simp add: orders_by_def tied_order_def map_replicate_const)
  have "q_cel sample_query = None" by (simp add: sample_query_def)
  then have found: "build_alerts_query (sample_search\<lparr>order_text := tied_order k\<rparr>) ''t'' (unbounded sample_query) (effective_sorts sample_query) search_state =
      Inr (tied_order k e (map search_row [4, 2, 3]))" for k e
    by (simp add: build_alerts_query_def sample_sorting search_facts run_query_def sample_cap tied_order_def)
      (simp add: sample_search_def)
  then show "alert_ids (found_alerts (sample_search\<lparr>order_text := tied_order 0\<rparr>) ''t'' sample_query search_state) = [4, 2, 3]"
    by (simp add: found_alerts_def tied_order_def alert_ids_def search_row_def search_last_def)
  have page: "query_last_alerts (sample_search\<lparr>order_text := tied_order k\<rparr>) ''t'' (page_query sample_query k 1) search_state =
      Inr (take 1 (drop k (tied_order k [] (map search_row [4, 2, 3]))))" if "k \<le> 2" for k
  proof -
    have "build_alerts_query (sample_search\<lparr>order_text := tied_order k\<rparr>) ''t'' (unbounded (page_query sample_query k 1))
        (effective_sorts (page_query sample_query k 1)) search_state = Inr (tied_order k [] (map search_row [4, 2, 3]))"
      using found [of k "[]"] by simp
    from query_last_alerts_piece [OF this, of "int k" 1] that show ?thesis
      using limit_rows_piece [of _ 1 k] by (simp add: sample_cap capped_limit_def)
  qed
  show "map (\<lambda>k. map_sum (\<lambda>_. ()) alert_ids (query_last_alerts (sample_search\<lparr>order_text := tied_order k\<rparr>) ''t''
      (page_query sample_query k 1) search_state)) [0, 1, 2] = [Inr [4], Inr [2], Inr [4]]"
    using page [of 0] page [of 1] page [of 2]
    by (simp add: tied_order_def) (simp add: alert_ids_def search_row_def search_last_def)
qed

text \<open>A colon before a word in a string constant makes the search fail.\<close>

theorem colon_fails_the_search:
  "has_bind_parameter (''alert.name = '' @ quoted ''cpu :high'')"
  "\<not> has_bind_parameter (''alert.name = '' @ quoted ''12:30 a::b'')"
  "has_bind_parameter sql \<Longrightarrow> run_query env t (sql, joins) s = Inl Db_failed"
  by (code_simp, code_simp, simp add: run_query_def)

theorem searches_are_confined_witness:
  "query_last_alerts sample_search ''t'' sample_query search_state = Inr [search_row 3] \<and> la_tenant (search_last 3) = ''t'' \<and>
    length (filter (\<lambda>r. 3 < la_timestamp r) (tenant_rows ''t'' search_state)) < 3"
proof -
  have q: "q_offset sample_query = Some 1" "q_limit sample_query = Some 1" by (simp_all add: sample_query_def)
  have r: "query_last_alerts sample_search ''t'' sample_query search_state = Inr [search_row 3]"
    using query_last_alerts_piece [OF search_found(1) q] limit_rows_piece [of "dialect_name sample_search" 1 1 "map search_row [4, 3, 2]"]
    by (simp add: sample_cap capped_limit_def)
  have "\<forall>e xs. set (order_text sample_search e xs) \<subseteq> set xs" by (simp add: sample_search_def)
  from searches_are_confined [OF r _ this, of "search_row 3"] r show ?thesis
    by (simp add: sample_cap) (simp add: search_row_def search_last_def)
qed

theorem pages_stop_at_the_cap_witness:
  "query_last_alerts sample_search ''t'' (page_query sample_query 1 9) search_state = Inr (map search_row [3, 2])"
proof -
  have "build_alerts_query sample_search ''t'' (unbounded (page_query sample_query 1 9)) (effective_sorts (page_query sample_query 1 9)) search_state =
      Inr (map search_row [4, 3, 2])"
    by (simp add: search_found(1) del: list.map)
  from pages_stop_at_the_cap [OF this, of 1 9] show ?thesis by (simp add: sample_cap)
qed

end
