(* ===== verification/Facets.thy ===== *)
theory Facets
  imports Alert_Search Py_Uuid
begin

text \<open>
  Facets: a field with the values it takes among the rows of a search and how many rows have each.
  \<open>src/src/repositories/facets.py\<close>, the query builders of \<open>src/src/repositories/facets_query_builder\<close>, the
  facets of alerts in \<open>src/src/repositories/alerts.py\<close> and the routes of \<open>src/src/routes/facets.py\<close>.  As in
  the code, what is searched is an argument: \<open>run\<close> gives the rows of the base query for a field and the
  fields of the filter, \<open>fe_entity\<close> what is counted.  The values of a column in a row (several for the
  elements of an array), the order of groups, SHA-1, and Python's \<open>str\<close> and \<open>float\<close> are parameters, and so is
  what a value becomes when columns are united (\<open>fe_unite\<close>): the columns of a \<open>UNION ALL\<close> get one type.  SQLite
  keeps every value as it is, the PostgreSQL builder casts to text, and MySQL turns numbers that are united
  with text into text.
\<close>

section \<open>Facets and their rows\<close>

record facet_dto =
  fd_id :: string
  fd_property_path :: string
  fd_name :: string
  fd_description :: "string option"
  fd_is_static :: bool
  fd_is_lazy :: bool

record create_facet_dto =
  cf_property_path :: string
  cf_name :: string
  cf_description :: "string option"

record facet_option =
  fo_display_name :: string
  fo_value :: json
  fo_matches_count :: nat

record facet_options_query =
  fq_cel :: "string option"
  fq_facet_queries :: "(string, string) pydict option"

record facet_row =
  fr_id :: nat
  fr_tenant :: string
  fr_entity_type :: string
  fr_property_path :: string
  fr_name :: string
  fr_description :: "string option"

datatype facet_error = Status nat | Value_err | Index_type_err | Too_long

definition valid_create_facet :: "create_facet_dto \<Rightarrow> bool" where
  "valid_create_facet c \<longleftrightarrow> py_strip (cf_property_path c) \<noteq> [] \<and> py_strip (cf_name c) \<noteq> []"

definition facet_of_row :: "facet_row \<Rightarrow> facet_dto" where
  "facet_of_row r = \<lparr>fd_id = uuid_str (fr_id r), fd_property_path = fr_property_path r, fd_name = fr_name r,
     fd_description = None, fd_is_static = False, fd_is_lazy = True\<rparr>"

text \<open>The lengths of the columns, which SQLite does not enforce and MySQL and PostgreSQL do (\<open>limited\<close>).\<close>

definition fits_columns :: "create_facet_dto \<Rightarrow> bool" where
  "fits_columns c \<longleftrightarrow> length (cf_property_path c) \<le> 255 \<and> length (cf_name c) \<le> 255 \<and>
     (case cf_description c of None \<Rightarrow> True | Some d \<Rightarrow> length d \<le> 2048)"

definition create_facet :: "bool \<Rightarrow> nat \<Rightarrow> string \<Rightarrow> string \<Rightarrow> create_facet_dto \<Rightarrow> facet_row list
     \<Rightarrow> facet_error + facet_row list \<times> facet_dto" where
  "create_facet limited new_id t entity c rows =
     (let r = \<lparr>fr_id = new_id, fr_tenant = t, fr_entity_type = entity, fr_property_path = cf_property_path c, fr_name = cf_name c,
        fr_description = cf_description c\<rparr>
      in if limited \<and> \<not> fits_columns c then Inl Too_long
         else Inr (rows @ [r], (facet_of_row r)\<lparr>fd_description := cf_description c\<rparr>))"

text \<open>A facet that is not found is the failure of indexing \<open>None\<close>.\<close>

definition delete_facet :: "string \<Rightarrow> string \<Rightarrow> string \<Rightarrow> facet_row list \<Rightarrow> facet_error + facet_row list" where
  "delete_facet t entity facet_id rows =
     (case uuid_int facet_id of None \<Rightarrow> Inl Value_err
      | Some i \<Rightarrow>
          (case find (\<lambda>r. fr_tenant r = t \<and> fr_id r = i \<and> fr_entity_type r = entity) rows of
             None \<Rightarrow> Inl Index_type_err
           | Some r \<Rightarrow> Inr (filter (\<lambda>x. fr_id x \<noteq> fr_id r) rows)))"

definition get_facets :: "string \<Rightarrow> string \<Rightarrow> string list \<Rightarrow> facet_row list \<Rightarrow> facet_error + facet_dto list" where
  "get_facets t entity facet_ids rows =
     rbind (traverse (\<lambda>i. option_res Value_err (uuid_int i)) facet_ids) (\<lambda>ids.
     Inr (map facet_of_row (filter (\<lambda>r. fr_tenant r = t \<and> fr_entity_type r = entity \<and> (facet_ids = [] \<or> fr_id r \<in> set ids)) rows)))"

definition entity_type_of :: "string \<Rightarrow> string option" where
  "entity_type_of name = (if name = ''incidents'' then Some ''incident'' else if name = ''alerts'' then Some ''alert'' else None)"

definition add_facet_route :: "bool \<Rightarrow> nat \<Rightarrow> string \<Rightarrow> string \<Rightarrow> create_facet_dto \<Rightarrow> facet_row list \<Rightarrow> facet_error + facet_row list \<times> facet_dto" where
  "add_facet_route limited new_id t name c rows =
     (if \<not> valid_create_facet c then Inl (Status 422)
      else case entity_type_of name of None \<Rightarrow> Inl (Status 409) | Some e \<Rightarrow> create_facet limited new_id t e c rows)"

definition delete_facet_route :: "string \<Rightarrow> string \<Rightarrow> string \<Rightarrow> facet_row list \<Rightarrow> facet_error + facet_row list" where
  "delete_facet_route t name facet_id rows =
     (case entity_type_of name of None \<Rightarrow> Inl (Status 409) | Some e \<Rightarrow> delete_facet t e facet_id rows)"

text \<open>Static facets come first or by their id; the others are loaded.\<close>

definition static_facet :: "string \<Rightarrow> string \<Rightarrow> string \<Rightarrow> facet_dto" where
  "static_facet i path name = \<lparr>fd_id = i, fd_property_path = path, fd_name = name, fd_description = None, fd_is_static = True,
     fd_is_lazy = True\<rparr>"

definition alert_static_facets :: "facet_dto list" where
  "alert_static_facets = [static_facet ''f8a91ac7-4916-4ad0-9b46-a5ddb85bfbb8'' ''severity'' ''Severity'',
     static_facet ''5dd1519c-6277-4109-ad95-c19d2f4f15e3'' ''status'' ''Status'']"

definition facets_to_load :: "facet_dto list \<Rightarrow> string \<Rightarrow> string \<Rightarrow> string list \<Rightarrow> facet_row list \<Rightarrow> facet_error + facet_dto list" where
  "facets_to_load statics entity t ids rows =
     (if ids = [] then rbind (get_facets t entity [] rows) (\<lambda>fs. Inr (statics @ fs))
      else let static_ids = map fd_id statics; others = filter (\<lambda>i. i \<notin> set static_ids) ids;
               chosen = concat (map (\<lambda>i. filter (\<lambda>f. fd_id f = i) statics) ids)
        in if others = [] then Inr chosen else rbind (get_facets t entity others rows) (\<lambda>fs. Inr (chosen @ fs)))"

definition get_alert_facets :: "string \<Rightarrow> string list \<Rightarrow> facet_row list \<Rightarrow> facet_error + facet_dto list" where
  "get_alert_facets t ids rows = facets_to_load alert_static_facets ''alert'' t ids rows"

definition get_alert_potential_facet_fields :: "string \<Rightarrow> (string \<times> string) list \<Rightarrow> string list" where
  "get_alert_potential_facet_fields t alert_fields = remdups (map snd (filter (\<lambda>(tenant, f). tenant = t) alert_fields))"

section \<open>Columns\<close>

datatype column_expr = Column string | Array_element string | Json_extract string "string list" | Coalesce "column_expr list"
  | Boolean_text column_expr | As_text column_expr

fun mapped_column :: "string \<Rightarrow> field_mapping \<Rightarrow> column_expr" where
  "mapped_column dialect (JsonFieldMapping j p) = Json_extract j p"
| "mapped_column dialect (SimpleFieldMapping c) = (if dialect = ''postgresql'' then As_text (Column c) else Column c)"

definition coalesce_columns :: "column_expr list \<Rightarrow> column_expr" where
  "coalesce_columns es = (case es of [e] \<Rightarrow> e | _ \<Rightarrow> Coalesce es)"

definition base_select_for_column :: "string \<Rightarrow> property_metadata_info \<Rightarrow> column_expr" where
  "base_select_for_column dialect md =
     (let e = coalesce_columns (map (mapped_column dialect) (md_field_mappings md)) in
      if list_ex is_json_mapping (md_field_mappings md) \<and> md_data_type md = Some DBoolean then Boolean_text e else e)"

definition select_for_column :: "string \<Rightarrow> property_metadata_info \<Rightarrow> column_expr" where
  "select_for_column dialect md =
     (if md_data_type md = Some DArray then Array_element
        (if dialect = ''mysql'' then md_field_name md @ ''_array'' else py_replace ''_'' [] (md_field_name md) @ ''_array.value'')
      else if dialect = ''postgresql'' \<and> (md_data_type md = Some DUuid \<or> list_ex (\<lambda>f. \<not> is_json_mapping f) (md_field_mappings md))
      then As_text (base_select_for_column dialect md)
      else base_select_for_column dialect md)"

section \<open>The query\<close>

record ('r, 'e) facet_env =
  fe_runtime :: runtime
  fe_literal :: "string \<Rightarrow> string"
  fe_dialect :: string
  fe_sha1 :: "string \<Rightarrow> string"
  fe_values :: "column_expr \<Rightarrow> 'r \<Rightarrow> json list"
  fe_entity :: "'r \<Rightarrow> 'e"
  fe_where :: "string \<Rightarrow> 'r \<Rightarrow> bool"
  fe_groups :: "(json \<times> nat) list \<Rightarrow> (json \<times> nat) list"
  fe_unite :: "column_expr list \<Rightarrow> json \<Rightarrow> json"
  fe_show :: "json \<Rightarrow> string"
  fe_float :: "json \<Rightarrow> json option"
  fe_truncate :: "string \<Rightarrow> json"

type_synonym 'r base_query = "string \<Rightarrow> property_metadata_info list \<Rightarrow> search_error + 'r list"

record subquery =
  sub_key :: string
  sub_path :: string
  sub_column :: column_expr
  sub_involved :: "property_metadata_info list"
  sub_sql :: string

definition text_or_empty :: "string option \<Rightarrow> string" where
  "text_or_empty x = (case x of None \<Rightarrow> [] | Some c \<Rightarrow> c)"

definition get_facet_key :: "(string \<Rightarrow> string) \<Rightarrow> string \<Rightarrow> string option \<Rightarrow> string option \<Rightarrow> string" where
  "get_facet_key sha1 path filter_cel facet_cel = path @ sha1 (text_or_empty filter_cel @ text_or_empty facet_cel)"

definition facet_cel :: "facet_options_query \<Rightarrow> facet_dto \<Rightarrow> string option" where
  "facet_cel q f = (case fq_facet_queries q of None \<Rightarrow> None | Some d \<Rightarrow> dict_get d (fd_id f))"

definition facet_key :: "('r, 'e) facet_env \<Rightarrow> facet_options_query \<Rightarrow> facet_dto \<Rightarrow> string" where
  "facet_key env q f = get_facet_key (fe_sha1 env) (fd_property_path f) (fq_cel q) (facet_cel q f)"

text \<open>The filter of the request and that of the facet, joined as they are.\<close>

definition final_cel :: "facet_options_query \<Rightarrow> facet_dto \<Rightarrow> string" where
  "final_cel q f = py_join '' && '' (filter (\<lambda>c. c \<noteq> []) [text_or_empty (fq_cel q), text_or_empty (facet_cel q f)])"

definition build_facet_subquery :: "('r, 'e) facet_env \<Rightarrow> properties_metadata \<Rightarrow> string \<Rightarrow> string \<Rightarrow> string \<Rightarrow> search_error + subquery" where
  "build_facet_subquery env m key path cel =
     rbind (filter_error (uncaught (get_cel_to_sql_provider_for_dialect (fe_literal env) (fe_dialect env)))) (\<lambda>d.
     rbind (filter_error (uncaught (get_property_metadata_for_str m path))) (\<lambda>md.
     rbind (if cel = [] then Inr ([], []) else filter_error (convert_to_sql_str_v2 (fe_runtime env) d m cel)) (\<lambda>(sql, involved).
     case md of None \<Rightarrow> Inl Type_err
     | Some i \<Rightarrow> Inr \<lparr>sub_key = key, sub_path = path, sub_column = select_for_column (fe_dialect env) i, sub_involved = involved,
         sub_sql = sql\<rparr>)))"

definition subquery_of :: "('r, 'e) facet_env \<Rightarrow> properties_metadata \<Rightarrow> facet_options_query \<Rightarrow> facet_dto \<Rightarrow> search_error + subquery" where
  "subquery_of env m q f = build_facet_subquery env m (facet_key env q f) (fd_property_path f) (final_cel q f)"

text \<open>Facets with the same key share a subquery.\<close>

fun build_facets_data_query :: "('r, 'e) facet_env \<Rightarrow> properties_metadata \<Rightarrow> facet_options_query \<Rightarrow> string list \<Rightarrow> facet_dto list
     \<Rightarrow> search_error + subquery list" where
  "build_facets_data_query env m q visited [] = Inr []"
| "build_facets_data_query env m q visited (f # fs) =
     (if facet_key env q f \<in> set visited then build_facets_data_query env m q visited fs
      else rbind (subquery_of env m q f) (\<lambda>x.
           rbind (build_facets_data_query env m q (facet_key env q f # visited) fs) (\<lambda>xs. Inr (x # xs))))"

text \<open>\<open>GROUP BY\<close>, counting distinct entities; MySQL and PostgreSQL stop at 50 groups.\<close>

definition group_counts :: "('k \<times> 'e) list \<Rightarrow> ('k \<times> nat) list" where
  "group_counts ps = map (\<lambda>v. (v, card (set (map snd (filter (\<lambda>p. fst p = v) ps))))) (remdups (map fst ps))"

definition run_subquery :: "('r, 'e) facet_env \<Rightarrow> 'r base_query \<Rightarrow> subquery \<Rightarrow> search_error + (string \<times> json \<times> nat) list" where
  "run_subquery env run x =
     rbind (run (sub_path x) (sub_involved x)) (\<lambda>rows.
     let chosen = filter (\<lambda>r. sub_sql x = [] \<or> fe_where env (sub_sql x) r) rows;
         groups = fe_groups env (group_counts (concat (map (\<lambda>r. map (\<lambda>v. (v, fe_entity env r)) (fe_values env (sub_column x) r)) chosen)))
     in if has_bind_parameter (sub_sql x) then Inl Db_failed
        else Inr (map (\<lambda>(v, n). (sub_key x, v, n)) (if fe_dialect env = ''sqlite'' then groups else take 50 groups)))"

text \<open>The rows of all subqueries; two or more are united.\<close>

definition unite :: "('r, 'e) facet_env \<Rightarrow> subquery list \<Rightarrow> (string \<times> json \<times> nat) list list \<Rightarrow> (string \<times> json \<times> nat) list" where
  "unite env subs rows =
     (if length subs < 2 then concat rows
      else map (\<lambda>(k, v, n). (k, fe_unite env (map sub_column subs) v, n)) (concat rows))"

section \<open>Options\<close>

definition options_per_facet :: nat where "options_per_facet = 50"

text \<open>Values by key, at most 50 for each in SQLite.\<close>

definition group_by_key :: "bool \<Rightarrow> (string \<times> json \<times> nat) list \<Rightarrow> (string, (json \<times> nat) list) pydict" where
  "group_by_key limited rows = fold (\<lambda>(k, o') d.
     let xs = (case dict_get d k of None \<Rightarrow> [] | Some xs \<Rightarrow> xs) in
     dict_set k (if limited \<and> options_per_facet \<le> length xs then xs else xs @ [o']) d) rows []"

fun int_of_value :: "('r, 'e) facet_env \<Rightarrow> json \<Rightarrow> search_error + json" where
  "int_of_value env (JInt i) = Inr (JInt i)"
| "int_of_value env (JBool b) = Inr (JInt (if b then 1 else 0))"
| "int_of_value env (JFloat x) = Inr (fe_truncate env x)"
| "int_of_value env (JStr s) = Inr (case py_int s of None \<Rightarrow> JStr s | Some i \<Rightarrow> JInt i)"
| "int_of_value env _ = Inl Type_err"

definition map_facet_option_value :: "('r, 'e) facet_env \<Rightarrow> json \<Rightarrow> data_type option \<Rightarrow> search_error + json" where
  "map_facet_option_value env v d =
     (if d = Some DInteger then int_of_value env v
      else if d = Some DFloat then
        (if v = JNull then Inl Type_err else Inr (case fe_float env v of None \<Rightarrow> v | Some x \<Rightarrow> x))
      else if d = Some DBoolean then Inr (JBool (v = JStr ''true'' \<or> v = JStr ''1''))
      else Inr v)"

definition option_of_row :: "('r, 'e) facet_env \<Rightarrow> data_type option \<Rightarrow> json \<times> nat \<Rightarrow> search_error + facet_option" where
  "option_of_row env d p = rbind (map_facet_option_value env (fst p) d) (\<lambda>v.
     Inr \<lparr>fo_display_name = fe_show env (fst p), fo_value = v, fo_matches_count = snd p\<rparr>)"

definition index_in :: "'a list \<Rightarrow> 'a \<Rightarrow> nat" where
  "index_in xs x = length (takeWhile (\<lambda>y. y \<noteq> x) xs)"

definition enum_rank :: "string list \<Rightarrow> facet_option \<Rightarrow> int" where
  "enum_rank vs o' = (case fo_value o' of JStr v \<Rightarrow> if v \<in> set vs then int (index_in vs v) else - 100 | _ \<Rightarrow> - 100)"

text \<open>The values of an enumeration that were not found follow with no matches, and all are sorted from the last value.\<close>

definition with_enum_values :: "string list \<Rightarrow> facet_option list \<Rightarrow> facet_option list" where
  "with_enum_values vs os = sort_key (\<lambda>o'. - enum_rank vs o') (os @ map (\<lambda>v. \<lparr>fo_display_name = v, fo_value = JStr v, fo_matches_count = 0\<rparr>)
     (filter (\<lambda>v. JStr v \<notin> set (map fo_value os)) vs))"

type_synonym options = "(string, facet_option list) pydict"

definition enumerated :: "property_metadata_info \<Rightarrow> facet_option list \<Rightarrow> facet_option list" where
  "enumerated md os = (case md_enum_values md of Some (v # vs) \<Rightarrow> with_enum_values (v # vs) os | _ \<Rightarrow> os)"

definition options_of_facet :: "('r, 'e) facet_env \<Rightarrow> properties_metadata \<Rightarrow> facet_options_query \<Rightarrow> (string, (json \<times> nat) list) pydict
     \<Rightarrow> facet_dto \<Rightarrow> facet_option list \<Rightarrow> search_error + facet_option list" where
  "options_of_facet env m q grouped f previous =
     rbind (filter_error (uncaught (get_property_metadata_for_str m (fd_property_path f)))) (\<lambda>md.
     case md of
       None \<Rightarrow> if dict_get grouped (facet_key env q f) = None then Inr [] else Inl Type_err
     | Some i \<Rightarrow>
         rbind (case dict_get grouped (facet_key env q f) of
            None \<Rightarrow> Inr previous
          | Some rows \<Rightarrow> traverse (option_of_row env (md_data_type i)) rows) (\<lambda>os.
         Inr (enumerated i os)))"

definition facet_step :: "('r, 'e) facet_env \<Rightarrow> properties_metadata \<Rightarrow> facet_options_query \<Rightarrow> (string, (json \<times> nat) list) pydict
     \<Rightarrow> facet_dto \<Rightarrow> options \<Rightarrow> search_error + options" where
  "facet_step env m q grouped f d =
     rbind (options_of_facet env m q grouped f (case dict_get d (fd_id f) of None \<Rightarrow> [] | Some os \<Rightarrow> os)) (\<lambda>os.
     Inr (dict_set (fd_id f) os d))"

fun facet_steps :: "('r, 'e) facet_env \<Rightarrow> properties_metadata \<Rightarrow> facet_options_query \<Rightarrow> (string, (json \<times> nat) list) pydict
     \<Rightarrow> facet_dto list \<Rightarrow> options \<Rightarrow> search_error + options" where
  "facet_steps env m q grouped [] d = Inr d"
| "facet_steps env m q grouped (f # fs) d = rbind (facet_step env m q grouped f d) (facet_steps env m q grouped fs)"

definition known_facet :: "properties_metadata \<Rightarrow> facet_dto \<Rightarrow> search_error + bool" where
  "known_facet m f = rbind (filter_error (uncaught (get_property_metadata_for_str m (fd_property_path f)))) (\<lambda>md. Inr (md \<noteq> None))"

definition get_facet_options :: "('r, 'e) facet_env \<Rightarrow> properties_metadata \<Rightarrow> 'r base_query \<Rightarrow> facet_options_query \<Rightarrow> facet_dto list
     \<Rightarrow> search_error + options" where
  "get_facet_options env m run q facets =
     rbind (traverse (known_facet m) facets) (\<lambda>known.
     let valid = map fst (filter snd (zip facets known)); invalid = map fst (filter (\<lambda>p. \<not> snd p) (zip facets known)) in
     rbind (if valid = [] then Inr []
       else rbind (build_facets_data_query env m q [] valid) (\<lambda>subs.
            rbind (traverse (run_subquery env run) subs) (\<lambda>rows.
            facet_steps env m q (group_by_key (fe_dialect env = ''sqlite'') (unite env subs rows)) facets []))) (\<lambda>d.
     Inr (fold (\<lambda>f d. dict_set (fd_id f) [] d) invalid d)))"

section \<open>Facets of alerts\<close>

definition alert_base_query :: "search_env \<Rightarrow> string \<Rightarrow> incident_state \<Rightarrow> joined base_query" where
  "alert_base_query env t s path involved =
     (let joins = py_in ''incident.'' path \<or> list_ex (\<lambda>i. py_in ''incident.'' (md_field_name i)) involved in
      rbind (build_query_for_filtering env None joins) (\<lambda>plan. run_query env t plan s))"

datatype facet_failure = Loading facet_error | Searching search_error

definition get_alert_facets_data :: "search_env \<Rightarrow> (joined, nat) facet_env \<Rightarrow> string \<Rightarrow> facet_options_query \<Rightarrow> facet_row list \<Rightarrow> incident_state
     \<Rightarrow> facet_failure + options" where
  "get_alert_facets_data env fenv t q rows s =
     (case (case fq_facet_queries q of Some (p # ps) \<Rightarrow> get_alert_facets t (dict_keys (p # ps)) rows | _ \<Rightarrow> Inr alert_static_facets) of
        Inl e \<Rightarrow> Inl (Loading e)
      | Inr facets \<Rightarrow> (case get_facet_options fenv alert_properties (alert_base_query env t s) q facets of
            Inl e \<Rightarrow> Inl (Searching e) | Inr d \<Rightarrow> Inr d))"

section \<open>Grouping\<close>

lemma group_by_key_get:
  "dict_get (group_by_key limited rows) k =
    (let xs = map snd (filter (\<lambda>p. fst p = k) rows) in
     if xs = [] then None else Some (if limited then take options_per_facet xs else xs))"
proof (induction rows rule: rev_induct)
  case Nil
  then show ?case by (simp add: group_by_key_def dict_get_def)
next
  case (snoc p rows)
  obtain k' o' where p: "p = (k', o')" by (cases p)
  have step: "group_by_key limited (rows @ [(k', o')]) = (let d = group_by_key limited rows; xs = (case dict_get d k' of None \<Rightarrow> [] | Some xs \<Rightarrow> xs)
      in dict_set k' (if limited \<and> options_per_facet \<le> length xs then xs else xs @ [o']) d)"
    by (simp add: group_by_key_def Let_def)
  show ?case
  proof (cases "k' = k")
    case True
    with snoc show ?thesis
      unfolding p step by (auto simp: dict_get_set Let_def min_def options_per_facet_def)
  next
    case False
    with snoc show ?thesis unfolding p step by (simp add: dict_get_set Let_def)
  qed
qed

lemma sum_group_counts:
  assumes "distinct (map snd ps)"
  shows "sum_list (map snd (group_counts ps)) = length ps"
proof -
  have card: "card (set (map snd (filter (\<lambda>p. fst p = v) ps))) = length (filter (\<lambda>p. fst p = v) ps)" for v
    using distinct_card [of "map snd (filter (\<lambda>p. fst p = v) ps)"] distinct_map_filter [OF assms, of "\<lambda>p. fst p = v"] by simp
  have "sum_list (map snd (group_counts ps)) = (\<Sum>v \<in> set (map fst ps). length (filter (\<lambda>p. fst p = v) ps))"
    by (simp add: group_counts_def o_def card sum_list_distinct_conv_sum_set del: set_map)
  also have "\<dots> = length ps"
  proof -
    have "(\<Sum>v \<in> fst ` set ps. length (filter (\<lambda>p. fst p = v) xs)) = length xs" if "set xs \<subseteq> set ps" for xs
      using that
    proof (induction xs)
      case (Cons x xs)
      have "(\<Sum>v \<in> fst ` set ps. length (filter (\<lambda>p. fst p = v) (x # xs))) =
          (\<Sum>v \<in> fst ` set ps. (if v = fst x then 1 else 0) + length (filter (\<lambda>p. fst p = v) xs))"
        by (rule sum.cong) auto
      with Cons show ?case by (simp add: sum.distrib)
    qed simp
    from this [of ps] show ?thesis by simp
  qed
  finally show ?thesis .
qed

section \<open>One facet among others\<close>

definition hashed :: "facet_options_query \<Rightarrow> facet_dto \<Rightarrow> string" where
  "hashed q f = text_or_empty (fq_cel q) @ text_or_empty (facet_cel q f)"

text \<open>SHA-1 does not collide on the filters of the request, and its values have one length.\<close>

definition hash_separates :: "('r, 'e) facet_env \<Rightarrow> facet_options_query \<Rightarrow> facet_dto list \<Rightarrow> bool" where
  "hash_separates env q fs \<longleftrightarrow> (\<forall>f \<in> set fs. \<forall>g \<in> set fs. length (fe_sha1 env (hashed q f)) = length (fe_sha1 env (hashed q g)) \<and>
     (fe_sha1 env (hashed q f) = fe_sha1 env (hashed q g) \<longrightarrow> hashed q f = hashed q g))"

lemma same_key_same_subquery:
  assumes "hash_separates env q fs" and "f \<in> set fs" and "g \<in> set fs" and "facet_key env q f = facet_key env q g"
  shows "subquery_of env m q f = subquery_of env m q g"
proof -
  from assms(1-3) have l: "length (fe_sha1 env (hashed q f)) = length (fe_sha1 env (hashed q g))"
    "fe_sha1 env (hashed q f) = fe_sha1 env (hashed q g) \<longrightarrow> hashed q f = hashed q g"
    unfolding hash_separates_def by blast+
  from assms(4) have "fd_property_path f @ fe_sha1 env (hashed q f) = fd_property_path g @ fe_sha1 env (hashed q g)"
    by (simp add: facet_key_def get_facet_key_def hashed_def)
  with l have path: "fd_property_path f = fd_property_path g" and "hashed q f = hashed q g" by simp_all
  then have "text_or_empty (facet_cel q f) = text_or_empty (facet_cel q g)" by (simp add: hashed_def)
  with path assms(4) show ?thesis by (simp add: subquery_of_def final_cel_def)
qed

lemma subquery_key: "subquery_of env m q f = Inr x \<Longrightarrow> sub_key x = facet_key env q f"
  by (auto simp: subquery_of_def build_facet_subquery_def split: option.splits prod.splits)

lemma built_subqueries:
  "build_facets_data_query env m q visited fs = Inr xs \<Longrightarrow>
    distinct (map sub_key xs) \<and> set (map sub_key xs) \<inter> set visited = {} \<and>
    (\<forall>x \<in> set xs. \<exists>g \<in> set fs. subquery_of env m q g = Inr x) \<and>
    (\<forall>f \<in> set fs. facet_key env q f \<in> set visited \<or> (\<exists>x \<in> set xs. sub_key x = facet_key env q f))"
proof (induction fs arbitrary: visited xs)
  case (Cons f fs)
  show ?case
  proof (cases "facet_key env q f \<in> set visited")
    case True
    with Cons show ?thesis by auto
  next
    case False
    with Cons.prems obtain x ys where x: "subquery_of env m q f = Inr x" "xs = x # ys"
      "build_facets_data_query env m q (facet_key env q f # visited) fs = Inr ys" by auto
    from Cons.IH [OF x(3)] subquery_key [OF x(1)] x(1,2) False show ?thesis by auto
  qed
qed simp

lemma rows_of_subquery:
  assumes "traverse (run_subquery env run) xs = Inr rows" and "distinct (map sub_key xs)" and "x \<in> set xs"
  shows "\<exists>r. run_subquery env run x = Inr r \<and> filter (\<lambda>p. fst p = sub_key x) (concat rows) = r"
  using assms
proof (induction xs arbitrary: rows)
  case (Cons y ys)
  then obtain r rs where r: "run_subquery env run y = Inr r" "traverse (run_subquery env run) ys = Inr rs" "rows = r # rs" by auto
  have keys: "fst ` set r' \<subseteq> {sub_key z}" if "run_subquery env run z = Inr r'" for z r'
    using that by (auto simp: run_subquery_def Let_def split: if_split_asm)
  have others: "fst ` set (concat rs) \<subseteq> sub_key ` set ys"
    using r(2) keys unfolding traverse_list_all2 by (fastforce simp: list_all2_conv_all_nth in_set_conv_nth)
  show ?case
  proof (cases "x = y")
    case True
    have "filter (\<lambda>p. fst p = sub_key x) r = r" using keys [OF r(1)] True by (auto simp: filter_id_conv)
    moreover have "filter (\<lambda>p. fst p = sub_key x) (concat rs) = []"
    proof -
      have "sub_key x \<notin> fst ` set (concat rs)" using others Cons.prems(2) True by auto
      then show ?thesis unfolding filter_empty_conv by (metis imageI)
    qed
    ultimately show ?thesis using r True by simp
  next
    case False
    then have "x \<in> set ys" using Cons.prems(3) by simp
    moreover have "filter (\<lambda>p. fst p = sub_key x) r = []"
    proof -
      have "sub_key x \<noteq> sub_key y" using calculation Cons.prems(2) by (metis distinct.simps(2) imageI list.map(2) set_map)
      then have "sub_key x \<notin> fst ` set r" using keys [OF r(1)] by blast
      then show ?thesis unfolding filter_empty_conv by (metis imageI)
    qed
    ultimately show ?thesis using Cons.IH [OF r(2)] Cons.prems(2) r(3) by simp
  qed
qed simp

lemma options_depend_on_group:
  assumes "dict_get g (facet_key env q f) = dict_get g' (facet_key env q f)"
  shows "options_of_facet env m q g f previous = options_of_facet env m q g' f previous"
  unfolding options_of_facet_def assms by (rule refl)

lemma facet_steps_options:
  "facet_steps env m q g fs d = Inr d' \<Longrightarrow> distinct (map fd_id fs) \<Longrightarrow> \<forall>f \<in> set fs. dict_get d (fd_id f) = None \<Longrightarrow>
    (\<forall>f \<in> set fs. \<exists>os. options_of_facet env m q g f [] = Inr os \<and> dict_get d' (fd_id f) = Some os) \<and>
    (\<forall>i. i \<notin> fd_id ` set fs \<longrightarrow> dict_get d' i = dict_get d i)"
proof (induction fs arbitrary: d)
  case (Cons f fs)
  from Cons.prems(1,3) obtain os where os: "options_of_facet env m q g f [] = Inr os"
    "facet_steps env m q g fs (dict_set (fd_id f) os d) = Inr d'"
    by (auto simp: facet_step_def)
  have "\<forall>h \<in> set fs. dict_get (dict_set (fd_id f) os d) (fd_id h) = None"
  proof
    fix h assume "h \<in> set fs"
    moreover from this have "fd_id h \<noteq> fd_id f" using Cons.prems(2) by (metis distinct.simps(2) imageI list.map(2) set_map)
    ultimately show "dict_get (dict_set (fd_id f) os d) (fd_id h) = None" using Cons.prems(3) by (simp add: dict_get_set)
  qed
  from Cons.IH [OF os(2) _ this] Cons.prems(2) os(1) show ?case by (auto simp: dict_get_set)
qed simp

lemma known_facets:
  assumes "traverse (known_facet m) facets = Inr known"
  shows "f \<in> set facets \<Longrightarrow> \<exists>b. known_facet m f = Inr b \<and> (b \<longleftrightarrow> f \<in> set (map fst (filter snd (zip facets known))))"
    and "f \<in> set facets \<Longrightarrow> \<exists>b. known_facet m f = Inr b \<and> (b \<longleftrightarrow> f \<notin> set (map fst (filter (\<lambda>p. \<not> snd p) (zip facets known))))"
    and "set (map fst (filter snd (zip facets known))) \<subseteq> set facets"
    and "set (map fst (filter (\<lambda>p. \<not> snd p) (zip facets known))) \<subseteq> set facets"
proof -
  have all: "list_all2 (\<lambda>f b. known_facet m f = Inr b) facets known" using assms by (simp add: traverse_list_all2)
  then have k: "known_facet m g = Inr b" if "(g, b) \<in> set (zip facets known)" for g b
    using that by (auto simp: list_all2_iff)
  have each: "\<exists>b. known_facet m f = Inr b \<and> (f, b) \<in> set (zip facets known)" if member: "f \<in> set facets"
  proof -
    obtain i where i: "i < length facets" "facets ! i = f" using member by (auto simp: in_set_conv_nth)
    then have "known_facet m f = Inr (known ! i)" "(f, known ! i) \<in> set (zip facets known)"
      using list_all2_nthD [OF all i(1)] list_all2_lengthD [OF all] by (auto simp: in_set_zip)
    then show ?thesis by blast
  qed
  have valid: "g \<in> set (map fst (filter snd (zip facets known))) \<longleftrightarrow> (g, True) \<in> set (zip facets known)"
    and invalid: "g \<in> set (map fst (filter (\<lambda>p. \<not> snd p) (zip facets known))) \<longleftrightarrow> (g, False) \<in> set (zip facets known)" for g
    by (force simp: image_iff)+
  have one: "\<exists>b. known_facet m f = Inr b \<and> (b \<longleftrightarrow> (f, True) \<in> set (zip facets known)) \<and>
      (b \<longleftrightarrow> (f, False) \<notin> set (zip facets known))" if f: "f \<in> set facets"
  proof -
    obtain b where b: "known_facet m f = Inr b" "(f, b) \<in> set (zip facets known)" using each [OF f] by blast
    have "(f, c) \<in> set (zip facets known) \<longleftrightarrow> c = b" for c using k [of f c] b by auto
    with b(1) show ?thesis by simp
  qed
  show "f \<in> set facets \<Longrightarrow> \<exists>b. known_facet m f = Inr b \<and> (b \<longleftrightarrow> f \<in> set (map fst (filter snd (zip facets known))))"
    using one unfolding valid by blast
  show "f \<in> set facets \<Longrightarrow> \<exists>b. known_facet m f = Inr b \<and> (b \<longleftrightarrow> f \<notin> set (map fst (filter (\<lambda>p. \<not> snd p) (zip facets known))))"
    using one unfolding invalid by blast
  show "set (map fst (filter snd (zip facets known))) \<subseteq> set facets" "set (map fst (filter (\<lambda>p. \<not> snd p) (zip facets known))) \<subseteq> set facets"
    by (auto dest: set_zip_leftD)
qed

lemma empty_for_unknown:
  "dict_get (fold (\<lambda>f d. dict_set (fd_id f) [] d) fs d) i = (if i \<in> fd_id ` set fs then Some [] else dict_get d i)"
  by (induction fs arbitrary: d) (auto simp: dict_get_set)

text \<open>What a request gives a known facet, when it succeeds.\<close>

lemma options_of_known:
  assumes "get_facet_options env m run q facets = Inr d" and "f \<in> set facets" and "distinct (map fd_id facets)"
    and "known_facet m f = Inr True"
  obtains valid subs rows os where "f \<in> set valid" and "set valid \<subseteq> set facets" and "build_facets_data_query env m q [] valid = Inr subs"
    and "traverse (run_subquery env run) subs = Inr rows"
    and "options_of_facet env m q (group_by_key (fe_dialect env = ''sqlite'') (unite env subs rows)) f [] = Inr os" and "dict_get d (fd_id f) = Some os"
proof -
  obtain known where known: "traverse (known_facet m) facets = Inr known"
    using assms(1) by (cases "traverse (known_facet m) facets") (simp_all add: get_facet_options_def)
  let ?valid = "map fst (filter snd (zip facets known))" and ?invalid = "map fst (filter (\<lambda>p. \<not> snd p) (zip facets known))"
  have f: "f \<in> set ?valid" "f \<notin> set ?invalid"
    using known_facets(1,2) [OF known assms(2)] assms(4) by auto
  then have nonempty: "?valid \<noteq> []" by (metis empty_iff empty_set)
  obtain subs where subs: "build_facets_data_query env m q [] ?valid = Inr subs"
    using assms(1) nonempty by (cases "build_facets_data_query env m q [] ?valid") (simp_all add: get_facet_options_def known Let_def)
  obtain rows where rows: "traverse (run_subquery env run) subs = Inr rows"
    using assms(1) nonempty subs by (cases "traverse (run_subquery env run) subs") (simp_all add: get_facet_options_def known Let_def)
  obtain d' where d': "facet_steps env m q (group_by_key (fe_dialect env = ''sqlite'') (unite env subs rows)) facets [] = Inr d'"
    "d = fold (\<lambda>f d. dict_set (fd_id f) [] d) ?invalid d'"
    using assms(1) nonempty by (auto simp: get_facet_options_def known Let_def subs rows)
  obtain os where os: "options_of_facet env m q (group_by_key (fe_dialect env = ''sqlite'') (unite env subs rows)) f [] = Inr os"
    "dict_get d' (fd_id f) = Some os"
    using facet_steps_options [OF d'(1) assms(3)] assms(2) by (auto simp: dict_get_def)
  have "fd_id f \<notin> fd_id ` set ?invalid"
  proof
    assume "fd_id f \<in> fd_id ` set ?invalid"
    then obtain g where "g \<in> set ?invalid" "fd_id g = fd_id f" by (metis imageE)
    with known_facets(4) [OF known] assms(2,3) f(2) show False by (metis distinct_map inj_onD subsetD)
  qed
  with os(2) d'(2) have "dict_get d (fd_id f) = Some os" by (simp only: empty_for_unknown if_False)
  with that [OF f(1) known_facets(3) [OF known] subs rows os(1)] show thesis .
qed

lemma prefixed_py_in: "prefixed p s \<Longrightarrow> py_in p s"
  by (cases s) (auto simp: prefixed_iff)

section \<open>Facets of alerts against the count\<close>

lemma one_value_each:
  assumes "\<forall>j. length (fe_values fenv c j) = 1"
  shows "map snd (concat (map (\<lambda>r. map (\<lambda>v. (v, f r)) (fe_values fenv c r)) rs)) = map f rs"
    and "length (concat (map (\<lambda>r. map (\<lambda>v. (v, f r)) (fe_values fenv c r)) rs)) = length rs"
proof -
  have "map (\<lambda>v. (v, f r)) (fe_values fenv c r) = [(hd (fe_values fenv c r), f r)]" for r
  proof -
    have "length (fe_values fenv c r) = 1" using assms by blast
    then obtain v where "fe_values fenv c r = [v]" by (auto simp: length_Suc_conv)
    then show ?thesis by simp
  qed
  then show "map snd (concat (map (\<lambda>r. map (\<lambda>v. (v, f r)) (fe_values fenv c r)) rs)) = map f rs"
    "length (concat (map (\<lambda>r. map (\<lambda>v. (v, f r)) (fe_values fenv c r)) rs)) = length rs"
    by (induction rs) simp_all
qed

text \<open>Without incidents there is one row for each latest row, so the alerts found are different.\<close>

lemma short_filter:
  assumes "distinct (map al_id xs)"
  shows "length (filter (\<lambda>a. al_id a = i \<and> al_tenant a = t) xs) \<le> 1"
  using assms
proof (induction xs)
  case (Cons a xs)
  then have "al_id a \<notin> al_id ` set xs" by simp
  then have "filter (\<lambda>b. al_id b = al_id a \<and> al_tenant b = t) xs = []" unfolding filter_empty_conv by (metis imageI)
  with Cons show ?case by auto
qed simp

lemma join_alert_short: "distinct (map al_id (is_alerts s)) \<Longrightarrow> length (join_alert s r) \<le> 1"
  using short_filter by (simp add: join_alert_def)

lemma distinct_source:
  assumes "distinct (map la_alert_id (tenant_rows t s))" and "distinct (map al_id (is_alerts s))"
  shows "distinct (map (\<lambda>j. la_alert_id (jr_last j)) (filter ok (source_rows cap t False s)))"
proof -
  have ids: "map (\<lambda>j. la_alert_id (jr_last j)) (concat (map (join_alert s) rs)) = map la_alert_id (filter (\<lambda>r. join_alert s r \<noteq> []) rs)" for rs
  proof (induction rs)
    case (Cons r rs)
    have "map (\<lambda>j. la_alert_id (jr_last j)) (join_alert s r) = replicate (length (join_alert s r)) (la_alert_id r)"
      by (simp add: join_alert_def map_replicate_const [symmetric] o_def)
    with Cons join_alert_short [OF assms(2), of r] show ?case by (cases "join_alert s r") auto
  qed simp
  have "distinct (map (\<lambda>j. la_alert_id (jr_last j)) (source_rows cap t False s))"
    using distinct_map_filter [OF distinct_map_filter [OF assms(1)]] by (simp add: source_rows_def ids o_def)
  then show ?thesis by (rule distinct_map_filter)
qed

lemma built_plan:
  assumes "build_facet_subquery fenv alert_properties key path cel = Inr x" and "fe_runtime fenv = runtime_of env"
    and "fe_literal fenv = literal_of env" and "fe_dialect fenv = dialect_name env"
    and "\<forall>i \<in> set (sub_involved x). \<not> py_in ''incident.'' (md_field_name i)"
  shows "build_query_for_filtering env None False = Inr ([], False) \<and>
    build_query_for_filtering env (Some cel) False = Inr (sub_sql x, False)"
proof -
  obtain d where d: "get_cel_to_sql_provider_for_dialect (fe_literal fenv) (fe_dialect fenv) = Inr d"
    using assms(1) by (cases "get_cel_to_sql_provider_for_dialect (fe_literal fenv) (fe_dialect fenv)")
      (simp_all add: build_facet_subquery_def filter_error_def uncaught_def)
  then have p: "get_cel_to_sql_provider env = Inr d" by (simp add: get_cel_to_sql_provider_def assms(3,4) uncaught_def)
  have none: "build_query_for_filtering env None False = Inr ([], False)"
    by (simp add: build_query_for_filtering_def p filter_error_def)
  show ?thesis
  proof (cases "cel = []")
    case True
    with assms(1) have "sub_sql x = []" by (auto simp: build_facet_subquery_def split: option.splits)
    with True none show ?thesis by (simp add: build_query_for_filtering_def p filter_error_def)
  next
    case False
    then obtain c cs where cel: "cel = c # cs" by (cases cel) auto
    obtain sql involved where conv: "convert_to_sql_str_v2 (fe_runtime fenv) d alert_properties cel = Inr (sql, involved)"
      using assms(1) d cel by (cases "convert_to_sql_str_v2 (fe_runtime fenv) d alert_properties cel")
        (auto simp: build_facet_subquery_def filter_error_def uncaught_def split: sum.splits)
    then have x: "sub_sql x = sql" "sub_involved x = involved"
      using assms(1) d cel by (auto simp: build_facet_subquery_def filter_error_def uncaught_def split: sum.splits option.splits)
    have "\<not> prefixed ''incident.'' (md_field_name i)" if "i \<in> set involved" for i
      using assms(5) that x(2) prefixed_py_in by metis
    with conv x none show ?thesis
      by (auto simp: build_query_for_filtering_def p filter_error_def cel assms(2) [symmetric] list_ex_iff)
  qed
qed

section \<open>Properties\<close>

text \<open>
  The rows of a facet are still its own after the union when its values keep their type there.
\<close>

definition keeps_values :: "('r, 'e) facet_env \<Rightarrow> 'r base_query \<Rightarrow> subquery \<Rightarrow> bool" where
  "keeps_values env run x \<longleftrightarrow> (\<forall>r cs. run_subquery env run x = Inr r \<longrightarrow> (\<forall>p \<in> set r. fe_unite env cs (fst (snd p)) = fst (snd p)))"

lemma united_rows:
  assumes "filter (\<lambda>p. fst p = k) (concat rows) = r" and "\<forall>p \<in> set r. \<forall>cs. fe_unite env cs (fst (snd p)) = fst (snd p)"
  shows "filter (\<lambda>p. fst p = k) (unite env subs rows) = r"
proof (cases "length subs < 2")
  case False
  let ?f = "\<lambda>(k, v, n). (k, fe_unite env (map sub_column subs) v, n)"
  have "filter (\<lambda>p. fst p = k) (map ?f (concat rows)) = map ?f (filter (\<lambda>p. fst p = k) (concat rows))"
    by (simp add: filter_map o_def case_prod_unfold del: filter_concat map_concat)
  also have "\<dots> = r" unfolding assms(1) using assms(2) by (intro map_idI) auto
  finally show ?thesis using False by (simp add: unite_def)
qed (use assms(1) in \<open>simp add: unite_def\<close>)

text \<open>
  C35: The options of a facet are those it has when it is asked for alone: sharing subqueries between facets
  of the same field and filter, uniting the subqueries and sorting their rows back by key gives every facet
  its own values and counts, provided SHA-1 does not collide on the filters of the request and the union
  keeps the facet's values as they are.  That holds in SQLite, for columns cast to text, and in MySQL
  for the facets whose column has the type the united columns get; not for a flag united with text
  (\<open>union_changes_flags_in_mysql\<close>).
\<close>

theorem facets_are_counted_alone:
  assumes "get_facet_options env m run q facets = Inr d" and "f \<in> set facets" and "distinct (map fd_id facets)"
    and "known_facet m f = Inr True" and "hash_separates env q facets"
    and "\<forall>x. subquery_of env m q f = Inr x \<longrightarrow> keeps_values env run x"
  shows "\<exists>os. get_facet_options env m run q [f] = Inr [(fd_id f, os)] \<and> dict_get d (fd_id f) = Some os"
proof -
  obtain valid subs rows os where valid: "f \<in> set valid" "set valid \<subseteq> set facets"
    and subs: "build_facets_data_query env m q [] valid = Inr subs" and rows: "traverse (run_subquery env run) subs = Inr rows"
    and os: "options_of_facet env m q (group_by_key (fe_dialect env = ''sqlite'') (unite env subs rows)) f [] = Inr os"
    and d: "dict_get d (fd_id f) = Some os"
    using options_of_known [OF assms(1-4)] by metis
  have keys: "distinct (map sub_key subs)" and built: "\<forall>x \<in> set subs. \<exists>g \<in> set valid. subquery_of env m q g = Inr x"
    and each: "\<exists>x \<in> set subs. sub_key x = facet_key env q f"
    using built_subqueries [OF subs] valid(1) by simp_all
  from each obtain x where x1: "x \<in> set subs" "sub_key x = facet_key env q f" by blast
  with built obtain g where x2: "g \<in> set valid" "subquery_of env m q g = Inr x" by blast
  note x = x1 x2
  from same_key_same_subquery [OF assms(5,2)] x(2-4) valid(2) subquery_key [OF x(4)] have f: "subquery_of env m q f = Inr x"
    by (metis subsetD)
  from rows_of_subquery [OF rows keys x(1)] x(2) obtain r where
    r: "run_subquery env run x = Inr r" "filter (\<lambda>p. fst p = facet_key env q f) (concat rows) = r" by auto
  have own: "filter (\<lambda>p. fst p = facet_key env q f) r = r" using r(2) by auto
  have kept: "\<forall>p \<in> set r. \<forall>cs. fe_unite env cs (fst (snd p)) = fst (snd p)"
    using assms(6) f r(1) unfolding keeps_values_def by blast
  have "dict_get (group_by_key l r) (facet_key env q f) = dict_get (group_by_key l (unite env subs rows)) (facet_key env q f)" for l
    using own united_rows [OF r(2) kept, of subs] by (simp add: group_by_key_get)
  then have "options_of_facet env m q (group_by_key (fe_dialect env = ''sqlite'') r) f [] = Inr os"
    using options_depend_on_group os by metis
  then have "get_facet_options env m run q [f] = Inr [(fd_id f, os)]"
    using assms(4) by (simp add: get_facet_options_def f r(1) unite_def facet_step_def dict_get_def dict_set_def)
  with d show ?thesis by blast
qed

lemma with_enum_values_values: "\<forall>v \<in> set vs. \<exists>o' \<in> set (with_enum_values vs os). fo_value o' = JStr v"
proof
  fix v assume "v \<in> set vs"
  show "\<exists>o' \<in> set (with_enum_values vs os). fo_value o' = JStr v"
  proof (cases "JStr v \<in> fo_value ` set os")
    case True
    then show ?thesis by (auto simp: with_enum_values_def)
  next
    case False
    with \<open>v \<in> set vs\<close> show ?thesis
      by (intro bexI [of _ "\<lparr>fo_display_name = v, fo_value = JStr v, fo_matches_count = 0\<rparr>"]) (auto simp: with_enum_values_def)
  qed
qed

lemma with_enum_values_sorted: "sorted_wrt (\<lambda>a b. enum_rank vs b \<le> enum_rank vs a) (with_enum_values vs os)"
  using sorted_sort_key [of "\<lambda>o'. - enum_rank vs o'"] by (simp add: with_enum_values_def sorted_map)

lemma with_enum_values_added: "o' \<in> set (with_enum_values vs os) \<Longrightarrow> o' \<in> set os \<or> fo_matches_count o' = 0"
  by (auto simp: with_enum_values_def)

text \<open>
  The options of a field with an enumeration list every value of it, those nobody has with no matches,
  from the last value to the first, values outside the enumeration at the end.
\<close>

theorem enumerations_are_listed_in_full:
  assumes "get_facet_options env m run q facets = Inr d" and "f \<in> set facets" and "distinct (map fd_id facets)"
    and "get_property_metadata_for_str m (fd_property_path f) = Inr (Some i)" and "md_enum_values i = Some vs" and "vs \<noteq> []"
  shows "\<exists>os. dict_get d (fd_id f) = Some os \<and> (\<forall>v \<in> set vs. \<exists>o' \<in> set os. fo_value o' = JStr v) \<and>
    sorted_wrt (\<lambda>a b. enum_rank vs b \<le> enum_rank vs a) os"
proof -
  have "known_facet m f = Inr True" by (simp add: known_facet_def assms(4) filter_error_def uncaught_def)
  from options_of_known [OF assms(1-3) this] obtain g os where os: "options_of_facet env m q g f [] = Inr os" "dict_get d (fd_id f) = Some os"
    by metis
  from assms(5,6) have "\<exists>os'. os = with_enum_values vs os'"
    using os(1) by (cases vs) (auto simp: options_of_facet_def assms(4) filter_error_def uncaught_def enumerated_def split: option.splits)
  with os(2) with_enum_values_values with_enum_values_sorted show ?thesis by metis
qed

text \<open>The counts a facet shows, from the rows of its query.\<close>

definition facet_counts :: "('r, 'e) facet_env \<Rightarrow> string \<Rightarrow> (string \<times> json \<times> nat) list \<Rightarrow> nat list" where
  "facet_counts env key rows =
     (case dict_get (group_by_key (fe_dialect env = ''sqlite'') rows) key of None \<Rightarrow> [] | Some g \<Rightarrow> map snd g)"

lemma facet_counts_all:
  assumes "length rows < 50" and "fst ` set rows \<subseteq> {key}"
  shows "facet_counts env key rows = map (\<lambda>p. snd (snd p)) rows"
proof -
  have "filter (\<lambda>p. fst p = key) rows = rows" using assms(2) by (auto simp: filter_id_conv)
  with assms(1) show ?thesis
    by (auto simp: facet_counts_def group_by_key_get options_per_facet_def Let_def)
qed

text \<open>
  C36: The counts a facet of alerts shows add up to what the count route gives for the same filter: every alert
  found is in one group, when the column has one value for a row, there are fewer than 50 groups (the
  queries stop at 50 for MySQL and PostgreSQL, and the list of options does for SQLite), no field of incidents
  takes part and the latest rows have different alerts.
\<close>

theorem facet_counts_add_up:
  assumes "build_facet_subquery fenv alert_properties key path cel = Inr x" and "run_subquery fenv (alert_base_query env t s) x = Inr rows"
    and "q_cel q = Some cel" and "query_total_alerts_count env t q s = Inr found_total"
    and "fe_runtime fenv = runtime_of env" and "fe_literal fenv = literal_of env" and "fe_dialect fenv = dialect_name env"
    and "fe_where fenv = where_text env" and "fe_entity fenv = (\<lambda>j. la_alert_id (jr_last j))"
    and "\<forall>gs. mset (fe_groups fenv gs) = mset gs" and "\<forall>j. length (fe_values fenv (sub_column x) j) = 1"
    and "\<not> py_in ''incident.'' path" and "\<not> py_in ''incident.'' cel" and "\<forall>i \<in> set (sub_involved x). \<not> py_in ''incident.'' (md_field_name i)"
    and "distinct (map la_alert_id (tenant_rows t s))" and "distinct (map al_id (is_alerts s))"
    and "length rows < 50"
  shows "sum_list (facet_counts fenv (sub_key x) rows) = found_total"
proof -
  have plan: "build_query_for_filtering env None False = Inr ([], False)"
    "build_query_for_filtering env (Some cel) False = Inr (sub_sql x, False)"
    using built_plan [OF assms(1,5,6,7,14)] by blast+
  let ?src = "source_rows (alerts_hard_limit env) t False s" and ?ok = "\<lambda>j. sub_sql x = [] \<or> where_text env (sub_sql x) j"
  have found: "found_total = length (filter ?ok ?src)"
    using assms(3,4,13) plan(2) by (auto simp: query_total_alerts_count_def build_total_alerts_query_def run_query_def split: if_splits)
  have path: "sub_path x = path" using assms(1) by (auto simp: build_facet_subquery_def split: option.splits prod.splits)
  let ?ps = "concat (map (\<lambda>r. map (\<lambda>v. (v, fe_entity fenv r)) (fe_values fenv (sub_column x) r)) (filter ?ok ?src))"
  have run: "alert_base_query env t s (sub_path x) (sub_involved x) = Inr ?src"
    using assms(12,14) plan(1) by (auto simp: alert_base_query_def path list_ex_iff run_query_def)
  have rows: "rows = map (\<lambda>(v, n). (sub_key x, v, n)) (if dialect_name env = ''sqlite'' then fe_groups fenv (group_counts ?ps)
      else take 50 (fe_groups fenv (group_counts ?ps)))"
    using assms(2,7,8) run by (auto simp: run_subquery_def Let_def split: if_split_asm)
  have all: "rows = map (\<lambda>(v, n). (sub_key x, v, n)) (fe_groups fenv (group_counts ?ps))"
    using rows assms(17) by (auto simp: min_def split: if_splits)
  have "fst ` set rows \<subseteq> {sub_key x}" by (subst all) auto
  then have "facet_counts fenv (sub_key x) rows = map (\<lambda>p. snd (snd p)) rows" by (rule facet_counts_all [OF assms(17)])
  then have "sum_list (facet_counts fenv (sub_key x) rows) = sum_list (map snd (fe_groups fenv (group_counts ?ps)))"
    by (simp add: all o_def case_prod_unfold)
  also have "\<dots> = sum_list (map snd (group_counts ?ps))"
  proof -
    have "mset (map snd (fe_groups fenv (group_counts ?ps))) = mset (map snd (group_counts ?ps))" using assms(10) by simp
    then show ?thesis by (simp only: sum_mset_sum_list [symmetric])
  qed
  also have "\<dots> = length ?ps"
  proof (rule sum_group_counts)
    show "distinct (map snd ?ps)"
      unfolding one_value_each(1) [OF assms(11)] assms(9) by (rule distinct_source [OF assms(15,16)])
  qed
  also have "\<dots> = found_total" using one_value_each [OF assms(11)] found by simp
  finally show ?thesis .
qed

text \<open>
  C37: A facet that is created is loaded for its tenant and kind, by its id and among all, with its field and
  name; another tenant cannot delete it, its own can, after which the rows are as before.  A facet that is
  not there ends in a failure of indexing, not in the answer 404 the route has for it.
\<close>

theorem created_facets_are_kept:
  assumes "add_facet_route limited new_id t name c rows = Inr (rows', f)" and "new_id < 2 ^ 128" and "\<forall>r \<in> set rows. fr_id r \<noteq> new_id"
    and "entity_type_of name = Some e" and "t' \<noteq> t"
  shows "get_facets t e [fd_id f] rows' = Inr [f\<lparr>fd_description := None\<rparr>] \<and>
    (\<forall>fs. get_facets t e [] rows = Inr fs \<longrightarrow> get_facets t e [] rows' = Inr (fs @ [f\<lparr>fd_description := None\<rparr>])) \<and>
    fd_property_path f = cf_property_path c \<and> fd_name f = cf_name c \<and>
    delete_facet_route t' name (fd_id f) rows' = Inl Index_type_err \<and> delete_facet_route t name (fd_id f) rows' = Inr rows \<and>
    delete_facet_route t name (fd_id f) rows = Inl Index_type_err"
proof -
  let ?r = "\<lparr>fr_id = new_id, fr_tenant = t, fr_entity_type = e, fr_property_path = cf_property_path c, fr_name = cf_name c,
    fr_description = cf_description c\<rparr>"
  have rows': "rows' = rows @ [?r]" and f: "f = (facet_of_row ?r)\<lparr>fd_description := cf_description c\<rparr>"
    using assms(1,4) by (auto simp: add_facet_route_def create_facet_def Let_def split: if_splits)
  have id: "uuid_int (fd_id f) = Some new_id" using uuid_int_str [OF assms(2)] by (simp add: f facet_of_row_def)
  have none: "find (\<lambda>r. fr_tenant r = u \<and> fr_id r = new_id \<and> fr_entity_type r = e) rows = None" for u
    using assms(3) by (auto simp: find_None_iff)
  have found: "find P rows = None \<Longrightarrow> find P (rows @ [?r]) = (if P ?r then Some ?r else None)" for P
    by (induction rows) auto
  have kept: "filter (\<lambda>x. fr_id x \<noteq> new_id) rows = rows" "filter (\<lambda>r. fr_tenant r = t \<and> fr_entity_type r = e \<and> fr_id r = new_id) rows = []"
    using assms(3) by (auto simp: filter_id_conv filter_empty_conv)
  have "f\<lparr>fd_description := None\<rparr> = facet_of_row ?r" by (simp add: f facet_of_row_def)
  moreover have "get_facets t e [fd_id f] rows' = Inr [facet_of_row ?r]"
    using kept(2) by (simp add: get_facets_def id rows')
  moreover have "delete_facet_route t' name (fd_id f) rows' = Inl Index_type_err"
    using none [of t'] found [of "\<lambda>r. fr_tenant r = t' \<and> fr_id r = new_id \<and> fr_entity_type r = e"] assms(5)
    by (simp add: delete_facet_route_def assms(4) delete_facet_def id rows')
  moreover have "delete_facet_route t name (fd_id f) rows' = Inr rows"
    using none [of t] found [of "\<lambda>r. fr_tenant r = t \<and> fr_id r = new_id \<and> fr_entity_type r = e"] kept(1)
    by (simp add: delete_facet_route_def assms(4) delete_facet_def id rows')
  moreover have "delete_facet_route t name (fd_id f) rows = Inl Index_type_err"
    using none [of t] by (simp add: delete_facet_route_def assms(4) delete_facet_def id)
  ultimately show ?thesis by (simp add: get_facets_def rows' f facet_of_row_def)
qed

text \<open>A failing field: a missing number fails the whole request, and a flag stored as a number is never shown as true.\<close>

lemma missing_number_fails: "option_of_row env (Some DInteger) (JNull, n) = Inl Type_err"
  by (simp add: option_of_row_def map_facet_option_value_def)

lemma numeric_flags_read_false: "map_facet_option_value env (JInt i) (Some DBoolean) = Inr (JBool False)"
  by (simp add: map_facet_option_value_def)

section \<open>Witnesses\<close>

definition sample_fields :: properties_metadata where
  "sample_fields = properties_metadata_init [simple_field ''a'' [''alert.a''] DString, enum_field ''b'' [''alert.b''] [''x'', ''y'']]"

definition facet_sample :: "(nat, nat) facet_env" where
  "facet_sample = \<lparr>fe_runtime = literal_runtime, fe_literal = doubling_literal, fe_dialect = ''sqlite'', fe_sha1 = (\<lambda>x. ''h''),
     fe_values = (\<lambda>c r. [if c = Column ''alert.a'' then JInt (int r) else JStr ''y'']), fe_entity = id, fe_where = (\<lambda>e r. True),
     fe_groups = id, fe_unite = (\<lambda>cs v. v), fe_show = (\<lambda>v. []), fe_float = (\<lambda>v. None), fe_truncate = (\<lambda>v. JNull)\<rparr>"

definition sample_facets :: "facet_dto list" where
  "sample_facets = [static_facet ''1'' ''a'' ''A'', static_facet ''2'' ''b'' ''B'', static_facet ''3'' ''b'' ''C'']"

definition plain_options :: facet_options_query where
  "plain_options = \<lparr>fq_cel = None, fq_facet_queries = None\<rparr>"

definition option_b :: "string \<Rightarrow> string \<Rightarrow> nat \<Rightarrow> facet_option" where
  "option_b label v n = \<lparr>fo_display_name = label, fo_value = JStr v, fo_matches_count = n\<rparr>"

lemma sample_options: "get_facet_options facet_sample sample_fields (\<lambda>p i. Inr [5, 6]) plain_options sample_facets =
  Inr [(''1'', [\<lparr>fo_display_name = [], fo_value = JInt 5, fo_matches_count = 1\<rparr>, \<lparr>fo_display_name = [], fo_value = JInt 6, fo_matches_count = 1\<rparr>]),
       (''2'', [option_b [] ''y'' 2, option_b ''x'' ''x'' 0]), (''3'', [option_b [] ''y'' 2, option_b ''x'' ''x'' 0])]"
  by code_simp

theorem facets_are_counted_alone_witness:
  "get_facet_options facet_sample sample_fields (\<lambda>p i. Inr [5, 6]) plain_options [static_facet ''2'' ''b'' ''B''] =
     Inr [(''2'', [option_b [] ''y'' 2, option_b ''x'' ''x'' 0])]"
proof -
  let ?f = "static_facet ''2'' ''b'' ''B''"
  have f: "?f \<in> set sample_facets" "fd_id ?f = ''2''" "distinct (map fd_id sample_facets)"
    by (simp_all add: sample_facets_def static_facet_def)
  have "known_facet sample_fields ?f = Inr True" by code_simp
  moreover have "hash_separates facet_sample plain_options sample_facets"
    by (simp add: hash_separates_def hashed_def facet_cel_def plain_options_def)
  ultimately obtain os where "get_facet_options facet_sample sample_fields (\<lambda>p i. Inr [5, 6]) plain_options [?f] = Inr [(fd_id ?f, os)]"
    "dict_get [(''1'', [\<lparr>fo_display_name = [], fo_value = JInt 5, fo_matches_count = 1\<rparr>, \<lparr>fo_display_name = [], fo_value = JInt 6, fo_matches_count = 1\<rparr>]),
       (''2'', [option_b [] ''y'' 2, option_b ''x'' ''x'' 0]), (''3'', [option_b [] ''y'' 2, option_b ''x'' ''x'' 0])] (fd_id ?f) = Some os"
    using facets_are_counted_alone [OF sample_options f(1,3)] by (auto simp: keeps_values_def facet_sample_def)
  then show ?thesis by (simp add: f(2) dict_get_def)
qed

text \<open>
  In MySQL the union decides what a facet of flags shows: alone the number 1 reads as false, united with
  a text column it is the text \<open>1\<close>, which reads as true.
\<close>

definition mysql_facet_sample :: "(nat, nat) facet_env" where
  "mysql_facet_sample = facet_sample\<lparr>fe_dialect := ''mysql'',
     fe_values := (\<lambda>c r. [if c = Column ''alert.flag'' then JInt 1 else JStr ''y'']),
     fe_unite := (\<lambda>cs v. case v of JInt i \<Rightarrow> if Column ''alert.b'' \<in> set cs then JStr (int_str i) else v | _ \<Rightarrow> v)\<rparr>"

definition flag_fields :: properties_metadata where
  "flag_fields = properties_metadata_init [simple_field ''flag'' [''alert.flag''] DBoolean, simple_field ''b'' [''alert.b''] DString]"

theorem union_changes_flags_in_mysql:
  "(case get_facet_options mysql_facet_sample flag_fields (\<lambda>p i. Inr [5]) plain_options [static_facet ''1'' ''flag'' ''F''] of
      Inr d \<Rightarrow> map_option (map fo_value) (dict_get d ''1'') = Some [JBool False] | Inl e \<Rightarrow> False)"
  "(case get_facet_options mysql_facet_sample flag_fields (\<lambda>p i. Inr [5]) plain_options
      [static_facet ''1'' ''flag'' ''F'', static_facet ''2'' ''b'' ''B''] of
      Inr d \<Rightarrow> map_option (map fo_value) (dict_get d ''1'') = Some [JBool True] | Inl e \<Rightarrow> False)"
  by code_simp+

theorem enumerations_are_listed_in_full_witness:
  "\<exists>os. get_facet_options facet_sample sample_fields (\<lambda>p i. Inr [5, 6]) plain_options [static_facet ''2'' ''b'' ''B''] = Inr [(''2'', os)] \<and>
    (\<exists>o' \<in> set os. fo_value o' = JStr ''x'') \<and> sorted_wrt (\<lambda>a b. enum_rank [''x'', ''y''] b \<le> enum_rank [''x'', ''y''] a) os"
proof -
  let ?f = "static_facet ''2'' ''b'' ''B''"
  have r: "get_facet_options facet_sample sample_fields (\<lambda>p i. Inr [5, 6]) plain_options [?f] = Inr [(''2'', [option_b [] ''y'' 2, option_b ''x'' ''x'' 0])]"
    by code_simp
  have "get_property_metadata_for_str sample_fields (fd_property_path ?f) = Inr (Some \<lparr>md_field_name = ''b'',
      md_field_mappings = [SimpleFieldMapping ''alert.b''], md_enum_values = Some [''x'', ''y''], md_data_type = Some DString\<rparr>)"
    by code_simp
  from enumerations_are_listed_in_full [OF r _ _ this, of "[''x'', ''y'']"] r show ?thesis
    by (auto simp: dict_get_def static_facet_def)
qed

definition alert_facet_sample :: "(joined, nat) facet_env" where
  "alert_facet_sample = \<lparr>fe_runtime = literal_runtime, fe_literal = doubling_literal, fe_dialect = ''sqlite'', fe_sha1 = (\<lambda>x. x),
     fe_values = (\<lambda>c j. [JBool (la_timestamp (jr_last j) < 4)]), fe_entity = (\<lambda>j. la_alert_id (jr_last j)), fe_where = (\<lambda>e j. True),
     fe_groups = id, fe_unite = (\<lambda>cs v. v), fe_show = (\<lambda>v. []), fe_float = (\<lambda>v. None), fe_truncate = (\<lambda>v. JNull)\<rparr>"

theorem facet_counts_add_up_witness:
  "\<exists>rows. run_subquery alert_facet_sample (alert_base_query sample_search ''t'' search_state)
      \<lparr>sub_key = ''k'', sub_path = ''received_at'', sub_column = Column ''alert.received_at'', sub_involved = [], sub_sql = []\<rparr> = Inr rows \<and>
    sum_list (facet_counts alert_facet_sample ''k'' rows) = 3"
proof -
  let ?x = "\<lparr>sub_key = ''k'', sub_path = ''received_at'', sub_column = Column ''alert.received_at'', sub_involved = [], sub_sql = []\<rparr>"
  let ?q = "sample_query\<lparr>q_cel := Some []\<rparr>"
  have x: "build_facet_subquery alert_facet_sample alert_properties ''k'' ''received_at'' [] = Inr ?x"
    by (simp add: build_facet_subquery_def alert_facet_sample_def get_cel_to_sql_provider_for_dialect_def uncaught_def filter_error_def
        received_at_metadata select_for_column_def base_select_for_column_def coalesce_columns_def is_json_mapping_def)
  have env: "runtime_of sample_search = literal_runtime" "literal_of sample_search = doubling_literal" "dialect_name sample_search = ''sqlite''"
    "where_text sample_search = (\<lambda>e j. True)" by (simp_all add: sample_search_def)
  have nopath: "\<not> py_in ''incident.'' ''received_at''" "\<not> py_in ''incident.'' []" by code_simp+
  have plan: "build_query_for_filtering sample_search (Some []) False = Inr ([], False)"
    using search_facts(2) by (simp add: build_query_for_filtering_def)
  have run: "run_query sample_search ''t'' ([], False) search_state = Inr (map search_row [4, 2, 3])"
    by (simp add: run_query_def search_facts(1) sample_cap)
  have total: "query_total_alerts_count sample_search ''t'' ?q search_state = Inr 3"
    by (simp add: query_total_alerts_count_def build_total_alerts_query_def plan run)
  have base: "alert_base_query sample_search ''t'' search_state ''received_at'' [] = Inr (map search_row [4, 2, 3])"
    using nopath(1) by (simp add: alert_base_query_def search_facts(2) run)
  obtain rows where rows: "run_subquery alert_facet_sample (alert_base_query sample_search ''t'' search_state) ?x = Inr rows"
    by (simp add: run_subquery_def base Let_def)
  have "tenant_rows ''t'' search_state = map search_last [1, 4, 2, 3]" "is_alerts search_state = map search_alert [1, 2, 3, 4]"
    by (simp_all add: tenant_rows_def search_state_def last_rows_def search_last_def)
  then have ids: "distinct (map la_alert_id (tenant_rows ''t'' search_state))" "distinct (map al_id (is_alerts search_state))"
    by (simp_all add: search_last_def search_alert_def)
  have "length rows < 50"
    using rows by (auto simp: run_subquery_def base Let_def alert_facet_sample_def group_counts_def)
  with env nopath ids have "sum_list (facet_counts alert_facet_sample (sub_key ?x) rows) = 3"
    by (intro facet_counts_add_up [OF x rows _ total]) (simp_all add: alert_facet_sample_def sample_query_def)
  with rows show ?thesis by simp
qed

theorem created_facets_are_kept_witness:
  "\<exists>f. add_facet_route True 1 ''t'' ''alerts'' \<lparr>cf_property_path = ''a'', cf_name = ''A'', cf_description = Some ''d''\<rparr> [] =
      Inr ([\<lparr>fr_id = 1, fr_tenant = ''t'', fr_entity_type = ''alert'', fr_property_path = ''a'', fr_name = ''A'', fr_description = Some ''d''\<rparr>], f) \<and>
    delete_facet_route ''u'' ''alerts'' (fd_id f) [\<lparr>fr_id = 1, fr_tenant = ''t'', fr_entity_type = ''alert'', fr_property_path = ''a'',
      fr_name = ''A'', fr_description = Some ''d''\<rparr>] = Inl Index_type_err"
proof -
  let ?c = "\<lparr>cf_property_path = ''a'', cf_name = ''A'', cf_description = Some ''d''\<rparr>"
  have "valid_create_facet ?c" "fits_columns ?c" by code_simp+
  then obtain f where f: "add_facet_route True 1 ''t'' ''alerts'' ?c [] =
      Inr ([\<lparr>fr_id = 1, fr_tenant = ''t'', fr_entity_type = ''alert'', fr_property_path = ''a'', fr_name = ''A'', fr_description = Some ''d''\<rparr>], f)"
    by (simp add: add_facet_route_def entity_type_of_def create_facet_def Let_def)
  have "entity_type_of ''alerts'' = Some ''alert''" by (simp add: entity_type_of_def)
  from created_facets_are_kept [OF f _ _ this, of "''u''"] f show ?thesis by auto
qed

end
