(* ===== verification/Incident_Search.thy ===== *)
theory Incident_Search
  imports Facets
begin

text \<open>
  Lists of incidents and their facets: \<open>src/src/repositories/incidents.py\<close>, \<open>query_incidents\<close> of
  \<open>src/src/services/incidents_bl.py\<close> and the routes of \<open>src/src/routes/incidents.py\<close> that list incidents and
  their facets.  The database's reading of an SQL text is a parameter, as in \<open>Alert_Search\<close>; the tables a
  filter may name are those of incidents and their enrichment, of alerts when they are joined, and the flag
  of linked incidents when that is.
\<close>

section \<open>Fields\<close>

definition incident_status_values :: "string list" where
  "incident_status_values = map status_value [FIRING, RESOLVED, ACKNOWLEDGED, MERGED, DELETED]"

definition incident_leading_fields :: "field_mapping_configuration list" where
  "incident_leading_fields =
     [simple_field ''id'' [''incident.id''] DUuid,
      simple_field ''name'' [''incident.user_generated_name'', ''incident.ai_generated_name''] DString,
      simple_field ''summary'' [''incident.user_summary'', ''incident.generated_summary''] DString,
      simple_field ''assignee'' [''incident.assignee''] DString, simple_field ''severity'' [''incident.severity''] DString,
      enum_field ''status'' [''JSON(incidentenrichment.enrichments).*'', ''incident.status''] (rev incident_status_values),
      simple_field ''creation_time'' [''incident.creation_time''] DDatetime, simple_field ''start_time'' [''incident.start_time''] DDatetime,
      simple_field ''end_time'' [''incident.end_time''] DDatetime, simple_field ''last_seen_time'' [''incident.last_seen_time''] DDatetime,
      simple_field ''is_predicted'' [''incident.is_predicted''] DBoolean, simple_field ''is_candidate'' [''incident.is_candidate''] DBoolean,
      simple_field ''is_visible'' [''incident.is_visible''] DBoolean, simple_field ''alerts_count'' [''incident.alerts_count''] DInteger,
      simple_field ''merged_at'' [''incident.merged_at''] DDatetime, simple_field ''merged_by'' [''incident.merged_by''] DString,
      simple_field ''hasLinkedIncident'' [''addional_incident_fields.incident_has_linked_incident''] DBoolean,
      simple_field ''alert.providerType'' [''alert.provider_type''] DString, simple_field ''sources'' [''incident.sources''] DArray,
      simple_field ''affectedServices'' [''incident.affected_services''] DArray]"

text \<open>The columns of alerts, with the types and enumerations some of them had when they were alert fields.\<close>

definition special_field :: "string \<Rightarrow> field_mapping_configuration" where
  "special_field c = (let p = ''alert.'' @ c in
     if c = ''severity'' then enum_field p [p] alert_severities_by_order
     else if c = ''status'' then enum_field p [p] (rev alert_status_values)
     else if c = ''last_received'' then simple_field p [p] DDatetime
     else if c = ''dismissed'' then simple_field p [p] DBoolean
     else if c = ''firing_counter'' \<or> c = ''unresolved_counter'' then simple_field p [p] DInteger
     else simple_field p [p] DString)"

definition incident_field_configurations :: "field_mapping_configuration list" where
  "incident_field_configurations = incident_leading_fields @
     map special_field (filter (\<lambda>c. c \<notin> set infra_columns) (map fst alert_table_columns))"

definition incident_properties :: properties_metadata where
  "incident_properties = properties_metadata_init incident_field_configurations"

definition incident_static_facets :: "facet_dto list" where
  "incident_static_facets = [static_facet ''1e7b1d6e-1c2b-4f8e-9f8e-1c2b4f8e9f8e'' ''status'' ''Status'',
     static_facet ''2e7b1d6e-2c2b-4f8e-9f8e-2c2b4f8e9f8e'' ''severity'' ''Severity'',
     static_facet ''3e7b1d6e-3c2b-4f8e-9f8e-3c2b4f8e9f8e'' ''assignee'' ''Assignee'']"

section \<open>Rows\<close>

record incident_joined =
  ij_incident :: incident
  ij_enrichment :: "enrichments option"
  ij_alert :: "(link option \<times> last_alert_row option \<times> alert_row option)"

record incident_search_env =
  ie_runtime :: runtime
  ie_literal :: "string \<Rightarrow> string"
  ie_dialect :: string
  ie_now :: int
  ie_where :: "string \<Rightarrow> incident_joined \<Rightarrow> bool"
  ie_order :: "string \<Rightarrow> incident_joined list \<Rightarrow> incident_joined list"
  ie_select :: "string \<Rightarrow> incident_joined \<Rightarrow> json"
  ie_names_alerts :: "string \<Rightarrow> bool"
  ie_names_linked :: "string \<Rightarrow> bool"

text \<open>The outer joins of the alerts: removed links take part.\<close>

definition alerts_of_incident :: "string \<Rightarrow> incident_state \<Rightarrow> incident \<Rightarrow> (link option \<times> last_alert_row option \<times> alert_row option) list" where
  "alerts_of_incident t s r = concat (map (\<lambda>l. concat (map (\<lambda>a. map (\<lambda>al. (l, a, al))
       (or_null_row (case a of None \<Rightarrow> [] | Some a \<Rightarrow> filter (\<lambda>al. al_id al = la_alert_id a) (is_alerts s))))
     (or_null_row (case l of None \<Rightarrow> [] | Some l \<Rightarrow> filter (row_key t (ln_fingerprint l)) (last_rows s)))))
     (or_null_row (filter (\<lambda>l. r ''id'' = JStr (ln_incident l) \<and> ln_tenant l = t) (is_links s))))"

definition enrichments_of :: "incident_state \<Rightarrow> incident \<Rightarrow> enrichments option list" where
  "enrichments_of s r = or_null_row (map ie_enrichments (filter (\<lambda>e. r ''tenant_id'' = JStr (ie_tenant e) \<and>
     (case r ''id'' of JStr i \<Rightarrow> uuid_int i = Some (ie_incident e) | _ \<Rightarrow> False)) (edb_incidents (out_db (is_out s)))))"

definition incident_rows :: "string \<Rightarrow> bool \<Rightarrow> incident_state \<Rightarrow> incident_joined list" where
  "incident_rows t fetch_alerts s = concat (map (\<lambda>r. concat (map (\<lambda>a. map (\<lambda>e. \<lparr>ij_incident = r, ij_enrichment = e, ij_alert = a\<rparr>)
       (enrichments_of s r)) (if fetch_alerts then alerts_of_incident t s r else [(None, None, None)])))
     (filter (\<lambda>r. r ''tenant_id'' = JStr t \<and> r ''is_visible'' = JBool True) (is_rows s)))"

section \<open>The queries\<close>

record incident_query =
  iq_limit :: int
  iq_offset :: int
  iq_timeframe :: int
  iq_upper :: "int option"
  iq_lower :: "int option"
  iq_candidate :: bool
  iq_predicted :: "bool option"
  iq_sorting :: string
  iq_cel :: "string option"
  iq_allowed :: "string list"

definition incident_sortings :: "string list" where
  "incident_sortings = (let fs = [''creation_time'', ''start_time'', ''last_seen_time'', ''severity'', ''status'', ''alerts_count''] in
     fs @ map (\<lambda>f. ''-'' @ f) fs)"

definition incident_provider :: "incident_search_env \<Rightarrow> sql_failure + sql_dialect" where
  "incident_provider env = uncaught (get_cel_to_sql_provider_for_dialect (ie_literal env) (ie_dialect env))"

text \<open>The SQL of the filter, and whether alerts and the flag of linked incidents are joined.\<close>

definition build_base_incident_query :: "incident_search_env \<Rightarrow> string option \<Rightarrow> bool \<Rightarrow> bool \<Rightarrow> search_error + (string \<times> bool \<times> bool)" where
  "build_base_incident_query env cel force_alerts force_linked =
     filter_error (rbind (incident_provider env) (\<lambda>d.
       if given_cel cel then
         rbind (convert_to_sql_str_v2 (ie_runtime env) d incident_properties (the cel)) (\<lambda>(sql, involved_fields).
           Inr (sql, list_ex (\<lambda>f. prefixed ''alert.'' (md_field_name f)) involved_fields \<or> force_alerts,
             list_ex (\<lambda>f. md_field_name f = ''hasLinkedIncident'') involved_fields \<or> force_linked))
       else Inr ([], force_alerts, force_linked)))"

definition run_incident_query :: "incident_search_env \<Rightarrow> string \<Rightarrow> string \<times> bool \<times> bool \<Rightarrow> incident_state \<Rightarrow> search_error + incident_joined list" where
  "run_incident_query env t plan s = (case plan of (sql, fetch_alerts, fetch_linked) \<Rightarrow>
     if has_bind_parameter sql \<or> sql \<noteq> [] \<and> (ie_names_alerts env sql \<and> \<not> fetch_alerts \<or> ie_names_linked env sql \<and> \<not> fetch_linked) then Inl Db_failed
     else Inr (filter (\<lambda>j. sql = [] \<or> ie_where env sql j) (incident_rows t fetch_alerts s)))"

definition not_before :: "json \<Rightarrow> int \<Rightarrow> bool" where
  "not_before v x = (case v of JInt n \<Rightarrow> x \<le> n | _ \<Rightarrow> False)"

definition not_after :: "json \<Rightarrow> int \<Rightarrow> bool" where
  "not_after v x = (case v of JInt n \<Rightarrow> n \<le> x | _ \<Rightarrow> False)"

text \<open>The conditions of the list besides its filter.\<close>

definition listed_incident :: "incident_search_env \<Rightarrow> incident_query \<Rightarrow> incident \<Rightarrow> bool" where
  "listed_incident env q r \<longleftrightarrow> r ''is_candidate'' = JBool (iq_candidate q) \<and>
     (iq_allowed q \<noteq> [] \<longrightarrow> (\<exists>i \<in> set (iq_allowed q). r ''id'' = JStr i)) \<and>
     (case iq_predicted q of None \<Rightarrow> True | Some b \<Rightarrow> r ''is_predicted'' = JBool b) \<and>
     (iq_timeframe q \<noteq> 0 \<longrightarrow> not_before (r ''start_time'') (ie_now env - day * iq_timeframe q)) \<and>
     (case iq_upper q of None \<Rightarrow> True | Some u \<Rightarrow> not_after (r ''last_seen_time'') u) \<and>
     (case iq_lower q of None \<Rightarrow> True | Some l \<Rightarrow> not_before (r ''last_seen_time'') l)"

definition names_alert_field :: "incident_query \<Rightarrow> bool" where
  "names_alert_field q \<longleftrightarrow> given_cel (iq_cel q) \<and> py_in ''alert.'' (the (iq_cel q))"

definition incident_ids :: "incident_joined list \<Rightarrow> json list" where
  "incident_ids js = map (\<lambda>j. ij_incident j ''id'') js"

definition build_total_count_query :: "incident_search_env \<Rightarrow> string \<Rightarrow> incident_query \<Rightarrow> incident_state \<Rightarrow> search_error + (search_error + nat)" where
  "build_total_count_query env t q s =
     rbind (build_base_incident_query env (iq_cel q) False False) (\<lambda>plan.
     Inr (rbind (run_incident_query env t plan s) (\<lambda>rows.
       let chosen = filter (\<lambda>j. listed_incident env q (ij_incident j)) rows in
       Inr (if names_alert_field q then card (set (incident_ids chosen)) else length chosen))))"

definition incident_sort_text :: "incident_search_env \<Rightarrow> incident_query \<Rightarrow> search_error + (string \<times> string)" where
  "incident_sort_text env q = filter_error (
     let dir = (if CHR ''-'' \<in> set (iq_sorting q) then ''DESC'' else ''ASC''); by_field = py_replace ''-'' [] (iq_sorting q) in
     rbind (incident_provider env) (\<lambda>d.
     rbind (get_order_by_expression d incident_properties [(by_field, dir)]) (\<lambda>order.
     rbind (get_field_expression d incident_properties by_field) (\<lambda>column. Inr (order, column)))))"

text \<open>
  \<open>DISTINCT\<close>: PostgreSQL compares the sort column and the id, the others the selected columns; the sort column,
  which is not selected, is compared here too.
\<close>

definition incident_key :: "incident_search_env \<Rightarrow> string \<Rightarrow> incident_joined \<Rightarrow> json list \<times> (json list \<times> enrichments option) option" where
  "incident_key env column j = ([ie_select env column j, ij_incident j ''id''],
     if ie_dialect env = ''postgresql'' then None else Some (map (ij_incident j) incident_columns, ij_enrichment j))"

text \<open>Building the query may be refused; running it gives the rows in their order, before the page is cut.\<close>

definition build_last_incidents_query :: "incident_search_env \<Rightarrow> string \<Rightarrow> incident_query \<Rightarrow> incident_state
     \<Rightarrow> search_error + (search_error + incident_joined list)" where
  "build_last_incidents_query env t q s =
     rbind (incident_sort_text env q) (\<lambda>(order, column).
     rbind (build_base_incident_query env (iq_cel q) False False) (\<lambda>plan.
     Inr (rbind (run_incident_query env t plan s) (\<lambda>rows.
       let sorted_rows = ie_order env order (filter (\<lambda>j. listed_incident env q (ij_incident j)) rows) in
       Inr (if fst (snd plan) then first_of_each (incident_key env column) sorted_rows else sorted_rows)))))"

text \<open>The alerts of the incidents found, when they are asked for.\<close>

definition alerts_per_incident :: "string \<Rightarrow> incident_state \<Rightarrow> json \<Rightarrow> alert_row list" where
  "alerts_per_incident t s i = concat (map (\<lambda>r. concat (map (\<lambda>l. filter (\<lambda>a. al_id a = la_alert_id r) (is_alerts s))
     (filter (\<lambda>l. ln_tenant l = t \<and> ln_fingerprint l = la_fingerprint r \<and> ln_deleted l = None \<and> i = JStr (ln_incident l)) (is_links s))))
     (tenant_rows t s))"

definition is_mapping_failure :: "search_error \<Rightarrow> bool" where
  "is_mapping_failure e = (case e of Filter_error (CelToSqlException x) \<Rightarrow> exc_code x = UNKNOWN_FIELD | _ \<Rightarrow> False)"

text \<open>A filter on an unknown field finds nothing.\<close>

definition get_last_incidents_by_cel :: "incident_search_env \<Rightarrow> string \<Rightarrow> incident_query \<Rightarrow> incident_state
     \<Rightarrow> search_error + (incident_joined list \<times> nat)" where
  "get_last_incidents_by_cel env t q s =
     (case rbind (build_total_count_query env t q s) (\<lambda>n'. rbind (build_last_incidents_query env t q s) (\<lambda>xs. Inr (n', xs))) of
        Inl e \<Rightarrow> if is_mapping_failure e then Inr ([], 0) else Inl e
      | Inr (n', xs) \<Rightarrow>
          rbind n' (\<lambda>n. rbind xs (\<lambda>js.
          rbind (limit_rows (ie_dialect env) (Some (iq_limit q)) (Some (iq_offset q)) js) (\<lambda>page. Inr (page, n)))))"

record incidents_page =
  ip_limit :: int
  ip_offset :: int
  ip_count :: nat
  ip_items :: "incident_joined list"

definition query_incidents :: "incident_search_env \<Rightarrow> string \<Rightarrow> incident_query \<Rightarrow> incident_state \<Rightarrow> search_error + incidents_page" where
  "query_incidents env t q s = rbind (get_last_incidents_by_cel env t q s) (\<lambda>(js, n).
     Inr \<lparr>ip_limit = iq_limit q, ip_offset = iq_offset q, ip_count = n, ip_items = js\<rparr>)"

text \<open>The route; the filters by status, severity, assignee, source and service it takes only reach the log.\<close>

record incident_filters =
  if_status :: "string list"
  if_severity :: "string list"
  if_assignees :: "string list"
  if_sources :: "string list"
  if_services :: "string list"

definition get_all_incidents :: "incident_search_env \<Rightarrow> string \<Rightarrow> incident_filters \<Rightarrow> incident_query \<Rightarrow> incident_state
     \<Rightarrow> (nat + search_error) + incidents_page" where
  "get_all_incidents env t filters q s =
     (if iq_sorting q \<notin> set incident_sortings then Inl (Inl 422)
      else case query_incidents env t q s of
          Inr p \<Rightarrow> Inr p
        | Inl (Filter_error (CelToSqlException e)) \<Rightarrow> Inl (Inl 400)
        | Inl e \<Rightarrow> Inl (Inr e))"

section \<open>Facets of incidents\<close>

definition incident_base_query :: "incident_search_env \<Rightarrow> string \<Rightarrow> string list \<Rightarrow> incident_state \<Rightarrow> incident_joined base_query" where
  "incident_base_query env t allowed s path involved =
     (let alerts = py_in ''alert'' path \<or> list_ex (\<lambda>i. py_in ''alert'' (md_field_name i)) involved;
          linked = py_in ''hasLinkedIncident'' path \<or> list_ex (\<lambda>i. py_in ''hasLinkedIncident'' (md_field_name i)) involved in
      rbind (build_base_incident_query env None alerts linked) (\<lambda>plan.
      rbind (run_incident_query env t plan s) (\<lambda>rows.
      Inr (filter (\<lambda>j. allowed = [] \<or> (\<exists>i \<in> set allowed. ij_incident j ''id'' = JStr i)) rows))))"

definition get_incident_facets :: "string \<Rightarrow> string list \<Rightarrow> facet_row list \<Rightarrow> facet_error + facet_dto list" where
  "get_incident_facets t ids rows = facets_to_load incident_static_facets ''incident'' t ids rows"

definition get_incident_facets_data :: "incident_search_env \<Rightarrow> (incident_joined, json) facet_env \<Rightarrow> string \<Rightarrow> string list \<Rightarrow> facet_options_query
     \<Rightarrow> facet_row list \<Rightarrow> incident_state \<Rightarrow> facet_failure + options" where
  "get_incident_facets_data env fenv t allowed q rows s =
     (case (case fq_facet_queries q of Some (p # ps) \<Rightarrow> get_incident_facets t (dict_keys (p # ps)) rows | _ \<Rightarrow> Inr incident_static_facets) of
        Inl e \<Rightarrow> Inl (Loading e)
      | Inr facets \<Rightarrow> (case get_facet_options fenv incident_properties (incident_base_query env t allowed s) q facets of
            Inl e \<Rightarrow> Inl (Searching e) | Inr d \<Rightarrow> Inr d))"

definition get_incident_potential_facet_fields :: "string \<Rightarrow> (string \<times> string) list \<Rightarrow> string list" where
  "get_incident_potential_facet_fields t alert_fields =
     fold (\<lambda>x xs. if x \<in> set xs then xs else xs @ [x])
       (map cfg_map_from_pattern (filter (\<lambda>c. \<not> prefixed ''alert.*'' (cfg_map_from_pattern c)) incident_field_configurations) @
        map (\<lambda>f. ''alert.'' @ f) (get_alert_potential_facet_fields t alert_fields)) []"

section \<open>What is listed\<close>

definition incident_page_query :: "incident_query \<Rightarrow> nat \<Rightarrow> nat \<Rightarrow> incident_query" where
  "incident_page_query q offset limit = q\<lparr>iq_limit := int limit, iq_offset := int offset\<rparr>"

definition found_incidents :: "incident_search_env \<Rightarrow> string \<Rightarrow> incident_query \<Rightarrow> incident_state \<Rightarrow> incident_joined list" where
  "found_incidents env t q s = (case build_last_incidents_query env t q s of Inr (Inr js) \<Rightarrow> js | _ \<Rightarrow> [])"

definition chosen_rows :: "incident_search_env \<Rightarrow> incident_query \<Rightarrow> incident_joined list \<Rightarrow> incident_joined list" where
  "chosen_rows env q rows = filter (\<lambda>j. listed_incident env q (ij_incident j)) rows"

text \<open>The list and the count are built from the same rows; when they can be, and when they agree.\<close>

definition incident_counts_agree :: "incident_search_env \<Rightarrow> string \<Rightarrow> incident_query \<Rightarrow> incident_state \<Rightarrow> bool" where
  "incident_counts_agree env t q s =
     (case incident_sort_text env q of Inl e \<Rightarrow> False | Inr sorting \<Rightarrow>
      case build_base_incident_query env (iq_cel q) False False of Inl e \<Rightarrow> False | Inr plan \<Rightarrow>
      case run_incident_query env t plan s of Inl e \<Rightarrow> False | Inr rows \<Rightarrow>
        let chosen = chosen_rows env q rows; key = incident_key env (snd sorting) in
        mset (ie_order env (fst sorting) chosen) = mset chosen \<and>
        (if fst (snd plan) then names_alert_field q \<and> (\<forall>j \<in> set chosen. \<forall>k \<in> set chosen. key j = key k \<longleftrightarrow>
            ij_incident j ''id'' = ij_incident k ''id'')
         else \<not> names_alert_field q \<or> distinct (incident_ids chosen)))"

lemma same_incident_query [simp]:
  "names_alert_field (incident_page_query q a b) = names_alert_field q"
  "listed_incident env (incident_page_query q a b) = listed_incident env q"
  "incident_sort_text env (incident_page_query q a b) = incident_sort_text env q"
  "iq_cel (incident_page_query q a b) = iq_cel q" "iq_sorting (incident_page_query q a b) = iq_sorting q"
  "iq_limit (incident_page_query q a b) = int b" "iq_offset (incident_page_query q a b) = int a"
  by (simp_all add: incident_page_query_def names_alert_field_def listed_incident_def fun_eq_iff incident_sort_text_def)

lemma same_incident_queries [simp]:
  "build_total_count_query env t (incident_page_query q a b) s = build_total_count_query env t q s"
  "build_last_incidents_query env t (incident_page_query q a b) s = build_last_incidents_query env t q s"
  by (simp_all add: build_total_count_query_def build_last_incidents_query_def)

lemma counted_incidents:
  assumes "incident_counts_agree env t q s"
  shows "\<exists>js. build_last_incidents_query env t q s = Inr (Inr js) \<and> build_total_count_query env t q s = Inr (Inr (length js))"
proof -
  obtain sorting where 1: "incident_sort_text env q = Inr sorting"
    using assms by (cases "incident_sort_text env q") (simp_all add: incident_counts_agree_def)
  obtain plan where 2: "build_base_incident_query env (iq_cel q) False False = Inr plan"
    using assms 1 by (cases "build_base_incident_query env (iq_cel q) False False") (simp_all add: incident_counts_agree_def)
  obtain rows where 3: "run_incident_query env t plan s = Inr rows"
    using assms 1 2 by (cases "run_incident_query env t plan s") (simp_all add: incident_counts_agree_def)
  obtain order column where sorting: "sorting = (order, column)" by (cases sorting)
  let ?chosen = "chosen_rows env q rows" and ?key = "incident_key env column"
  let ?js = "if fst (snd plan) then first_of_each ?key (ie_order env order ?chosen) else ie_order env order ?chosen"
  have agree: "mset (ie_order env order ?chosen) = mset ?chosen" and
    keys: "if fst (snd plan) then names_alert_field q \<and> (\<forall>j \<in> set ?chosen. \<forall>k \<in> set ?chosen. ?key j = ?key k \<longleftrightarrow>
        ij_incident j ''id'' = ij_incident k ''id'') else \<not> names_alert_field q \<or> distinct (map (\<lambda>j. ij_incident j ''id'') ?chosen)"
    using assms unfolding incident_counts_agree_def 1 2 3 sorting sum.case Let_def fst_conv snd_conv incident_ids_def
    by (rule conjunct1, rule conjunct2)
  have "build_last_incidents_query env t q s = Inr (Inr ?js)"
    by (simp add: build_last_incidents_query_def 1 2 3 sorting chosen_rows_def Let_def)
  moreover have "build_total_count_query env t q s =
      Inr (Inr (if names_alert_field q then card (set (map (\<lambda>j. ij_incident j ''id'') ?chosen)) else length ?chosen))"
    by (simp only: build_total_count_query_def 2 rbind_Inr 3 chosen_rows_def incident_ids_def Let_def)
  moreover note counted_length [OF agree keys]
  ultimately show ?thesis by (intro exI [of _ ?js]) (simp only: simp_thms)
qed

lemma incident_page:
  assumes "incident_counts_agree env t q s"
  shows "query_incidents env t (incident_page_query q offset limit) s =
    Inr \<lparr>ip_limit = int limit, ip_offset = int offset, ip_count = length (found_incidents env t q s),
      ip_items = take limit (drop offset (found_incidents env t q s))\<rparr>"
proof -
  obtain js where js: "build_last_incidents_query env t q s = Inr (Inr js)" "build_total_count_query env t q s = Inr (Inr (length js))"
    using counted_incidents [OF assms] by blast
  then show ?thesis
    by (simp add: query_incidents_def get_last_incidents_by_cel_def found_incidents_def)
qed

interpretation incident_lists: paged_search
  "\<lambda>(env, t, q, s) offset limit. rbind (query_incidents env t (incident_page_query q offset limit) s) (\<lambda>p. Inr (ip_items p))"
  "\<lambda>(env, t, q, s). rbind (query_incidents env t (incident_page_query q 0 0) s) (\<lambda>p. Inr (ip_count p))"
  "\<lambda>(env, t, q, s). found_incidents env t q s"
  "\<lambda>(env, t, q, s). incident_counts_agree env t q s"
  "\<lambda>x m. True"
  by unfold_locales (auto simp: incident_page)

lemma incident_row_facts:
  assumes "j \<in> set (incident_rows t fetch s)"
  shows "ij_incident j \<in> set (is_rows s) \<and> ij_incident j ''tenant_id'' = JStr t \<and> ij_incident j ''is_visible'' = JBool True"
  using assms by (auto simp: incident_rows_def split: if_splits)

lemma incident_row_exists:
  assumes "r \<in> set (is_rows s)" and "r ''tenant_id'' = JStr t" and "r ''is_visible'' = JBool True"
  shows "\<exists>j \<in> set (incident_rows t False s). ij_incident j = r"
proof -
  obtain e where "e \<in> set (enrichments_of s r)" by (cases "enrichments_of s r") (auto simp: enrichments_of_def or_null_row_def split: if_splits)
  with assms have "\<lparr>ij_incident = r, ij_enrichment = e, ij_alert = (None, None, None)\<rparr> \<in> set (incident_rows t False s)"
    by (auto simp: incident_rows_def)
  then show ?thesis by force
qed

lemma last_incidents_rows:
  assumes "build_last_incidents_query env t q s = Inr (Inr js)"
  shows "\<exists>order column plan rows. build_base_incident_query env (iq_cel q) False False = Inr plan \<and> run_incident_query env t plan s = Inr rows \<and>
    js = (if fst (snd plan) then first_of_each (incident_key env column) (ie_order env order (chosen_rows env q rows))
      else ie_order env order (chosen_rows env q rows))"
proof -
  obtain sorting where 1: "incident_sort_text env q = Inr sorting"
    using assms by (cases "incident_sort_text env q") (simp_all add: build_last_incidents_query_def)
  obtain order column where sorting: "sorting = (order, column)" by (cases sorting)
  obtain plan where 2: "build_base_incident_query env (iq_cel q) False False = Inr plan"
    using assms 1 sorting by (cases "build_base_incident_query env (iq_cel q) False False") (simp_all add: build_last_incidents_query_def)
  obtain rows where 3: "run_incident_query env t plan s = Inr rows"
    using assms 1 2 sorting by (cases "run_incident_query env t plan s") (simp_all add: build_last_incidents_query_def)
  have "build_last_incidents_query env t q s = Inr (Inr (if fst (snd plan)
      then first_of_each (incident_key env column) (ie_order env order (chosen_rows env q rows))
      else ie_order env order (chosen_rows env q rows)))"
    by (simp add: build_last_incidents_query_def 1 2 3 sorting chosen_rows_def Let_def)
  with assms have "js = (if fst (snd plan) then first_of_each (incident_key env column) (ie_order env order (chosen_rows env q rows))
      else ie_order env order (chosen_rows env q rows))" by simp
  with 2 3 show ?thesis by blast
qed

lemma unjoined_incident_rows:
  assumes "run_incident_query env t ([], False, l) s = Inr rows"
  shows "rows = incident_rows t False s"
  using assms by (simp add: run_incident_query_def)

lemma count_of_plain_list:
  assumes "build_total_count_query env t q s = Inr (Inr n)" and "\<not> given_cel (iq_cel q)"
  shows "n = length (chosen_rows env q (incident_rows t False s))"
proof -
  obtain plan where plan: "build_base_incident_query env (iq_cel q) False False = Inr plan"
    using assms(1) by (cases "build_base_incident_query env (iq_cel q) False False") (simp_all add: build_total_count_query_def)
  then have "plan = ([], False, False)"
    using assms(2) by (auto simp: build_base_incident_query_def filter_error_def split: sum.splits)
  with plan assms show ?thesis
    by (auto simp: build_total_count_query_def run_incident_query_def names_alert_field_def chosen_rows_def)
qed

section \<open>Properties\<close>

text \<open>
  The pages of a list of incidents, one after the other, are the whole list, once they reach the count
  that comes with any page of it, if the database puts incidents with the same sort value in the same order
  each time (for alerts, where it may not, see \<open>Alert_Search\<close>).
\<close>

theorem pages_make_up_incident_lists:
  assumes "incident_counts_agree env t q s" and "query_incidents env t (incident_page_query q a b) s = Inr p" and "ip_count p \<le> n * l"
  shows "\<exists>ps. traverse (\<lambda>k. rbind (query_incidents env t (incident_page_query q (k * l) l) s) (\<lambda>p. Inr (ip_items p))) [0..<n] = Inr ps \<and>
    concat ps = found_incidents env t q s \<and> ip_count p = length (concat ps)"
proof -
  have c: "ip_count p = length (found_incidents env t q s)" using assms(2) incident_page [OF assms(1)] by auto
  from incident_lists.pages_make_up_found [where q = "(env, t, q, s)" and n = n and l = l and m = "ip_count p"] assms(1,3) c show ?thesis
    by (auto simp: incident_page)
qed

text \<open>
  C38: What a list can show: visible incidents of the asking tenant, candidates or not as asked, among the
  allowed ones, in the time frame, that satisfy the SQL of the filter; without a filter it shows every one of them.
\<close>

theorem incident_lists_are_exact:
  assumes "build_last_incidents_query env t q s = Inr (Inr js)" and "\<forall>e xs. set (ie_order env e xs) = set xs"
  shows "(\<forall>j \<in> set js. ij_incident j \<in> set (is_rows s) \<and> ij_incident j ''tenant_id'' = JStr t \<and> ij_incident j ''is_visible'' = JBool True \<and>
      listed_incident env q (ij_incident j) \<and>
      (\<exists>plan. build_base_incident_query env (iq_cel q) False False = Inr plan \<and> (fst plan = [] \<or> ie_where env (fst plan) j))) \<and>
    (\<not> given_cel (iq_cel q) \<longrightarrow> ij_incident ` set js =
      {r \<in> set (is_rows s). r ''tenant_id'' = JStr t \<and> r ''is_visible'' = JBool True \<and> listed_incident env q r})"
proof -
  obtain order column plan rows where plan: "build_base_incident_query env (iq_cel q) False False = Inr plan"
    and rows: "run_incident_query env t plan s = Inr rows"
    and js: "js = (if fst (snd plan) then first_of_each (incident_key env column) (ie_order env order (chosen_rows env q rows))
      else ie_order env order (chosen_rows env q rows))"
    using last_incidents_rows [OF assms(1)] by blast
  have sub: "set js \<subseteq> set (chosen_rows env q rows)"
    using js assms(2) set_first_of_each [of "incident_key env column" "ie_order env order (chosen_rows env q rows)"]
    by (cases "fst (snd plan)") auto
  have each: "ij_incident j \<in> set (is_rows s) \<and> ij_incident j ''tenant_id'' = JStr t \<and> ij_incident j ''is_visible'' = JBool True \<and>
      listed_incident env q (ij_incident j) \<and> (fst plan = [] \<or> ie_where env (fst plan) j)" if "j \<in> set js" for j
  proof -
    from that sub have j: "j \<in> set rows" "listed_incident env q (ij_incident j)" by (auto simp: chosen_rows_def)
    then have "j \<in> set (incident_rows t (fst (snd plan)) s) \<and> (fst plan = [] \<or> ie_where env (fst plan) j)"
      using rows by (auto simp: run_incident_query_def split: prod.splits if_splits)
    with incident_row_facts j(2) show ?thesis by blast
  qed
  moreover have "r \<in> ij_incident ` set js"
    if "\<not> given_cel (iq_cel q)" "r \<in> set (is_rows s)" "r ''tenant_id'' = JStr t" "r ''is_visible'' = JBool True" "listed_incident env q r" for r
  proof -
    have p: "plan = ([], False, False)"
      using plan that(1) by (auto simp: build_base_incident_query_def filter_error_def split: sum.splits)
    then have r: "rows = incident_rows t False s" using rows unjoined_incident_rows by blast
    from incident_row_exists [OF that(2-4)] obtain j where "j \<in> set rows" "ij_incident j = r" using r by blast
    with that(5) have "j \<in> set (chosen_rows env q rows)" by (simp add: chosen_rows_def)
    with js p assms(2) have "j \<in> set js" by simp
    with \<open>ij_incident j = r\<close> show ?thesis by blast
  qed
  ultimately show ?thesis using plan by blast
qed

text \<open>
  C39: A facet of incidents counts candidates together with confirmed incidents: without a filter the counts it
  shows add up to the counts of the two lists, while either list shows only its own.  It takes a field
  with one value for an incident and without \<open>alert\<close> in its name (a facet of an array counts an incident
  once for each element), fewer than 50 groups (the number shown at most), and ids that are unique.
\<close>

theorem incident_facets_count_candidates:
  assumes "run_subquery fenv (incident_base_query env t [] s) x = Inr rows" and "sub_sql x = []" and "sub_involved x = []"
    and "\<not> py_in ''alert'' (sub_path x)" and "fe_entity fenv = (\<lambda>j. ij_incident j ''id'')"
    and "\<forall>gs. mset (fe_groups fenv gs) = mset gs" and "\<forall>j. length (fe_values fenv (sub_column x) j) = 1"
    and "length rows < 50" and "distinct (incident_ids (incident_rows t False s))"
    and "\<forall>r \<in> set (is_rows s). r ''is_candidate'' = JBool True \<or> r ''is_candidate'' = JBool False"
    and "q = \<lparr>iq_limit = 25, iq_offset = 0, iq_timeframe = 0, iq_upper = None, iq_lower = None, iq_candidate = False, iq_predicted = None,
      iq_sorting = ''creation_time'', iq_cel = None, iq_allowed = []\<rparr>"
    and "build_total_count_query env t q s = Inr (Inr confirmed)"
    and "build_total_count_query env t (q\<lparr>iq_candidate := True\<rparr>) s = Inr (Inr candidates)"
  shows "sum_list (facet_counts fenv (sub_key x) rows) = confirmed + candidates"
proof -
  let ?src = "incident_rows t False s"
  let ?ps = "concat (map (\<lambda>j. map (\<lambda>v. (v, ij_incident j ''id'')) (fe_values fenv (sub_column x) j)) ?src)"
  let ?linked = "py_in ''hasLinkedIncident'' (sub_path x)"
  obtain d where "incident_provider env = Inr d"
    using assms(1,3,4) by (cases "incident_provider env")
      (simp_all add: run_subquery_def incident_base_query_def build_base_incident_query_def filter_error_def)
  then have "build_base_incident_query env None False ?linked = Inr ([], False, ?linked)"
    by (simp add: build_base_incident_query_def filter_error_def)
  then have run: "incident_base_query env t [] s (sub_path x) [] = Inr ?src"
    using assms(4) by (simp add: incident_base_query_def run_incident_query_def)
  have "rows = map (\<lambda>(v, n). (sub_key x, v, n)) (if fe_dialect fenv = ''sqlite'' then fe_groups fenv (group_counts ?ps)
      else take 50 (fe_groups fenv (group_counts ?ps)))"
    using assms(1,2,3,5) run by (simp add: run_subquery_def Let_def)
  then have all: "rows = map (\<lambda>(v, n). (sub_key x, v, n)) (fe_groups fenv (group_counts ?ps))"
    using assms(8) by (auto simp: min_def split: if_splits)
  have "fst ` set rows \<subseteq> {sub_key x}" by (subst all) auto
  then have "facet_counts fenv (sub_key x) rows = map (\<lambda>p. snd (snd p)) rows" by (rule facet_counts_all [OF assms(8)])
  then have "sum_list (facet_counts fenv (sub_key x) rows) = sum_list (map snd (fe_groups fenv (group_counts ?ps)))"
    by (simp add: all o_def case_prod_unfold)
  also have "\<dots> = length ?ps"
  proof -
    have "mset (map snd (fe_groups fenv (group_counts ?ps))) = mset (map snd (group_counts ?ps))" using assms(6) by simp
    then have "sum_list (map snd (fe_groups fenv (group_counts ?ps))) = sum_list (map snd (group_counts ?ps))"
      by (simp only: sum_mset_sum_list [symmetric])
    moreover have "distinct (map snd ?ps)"
      unfolding one_value_each(1) [OF assms(7)] using assms(9) by (simp only: incident_ids_def)
    ultimately show ?thesis using sum_group_counts by simp
  qed
  also have "\<dots> = length ?src" by (rule one_value_each(2) [OF assms(7)])
  also have "\<dots> = confirmed + candidates"
  proof -
    have "confirmed = length (filter (\<lambda>j. ij_incident j ''is_candidate'' = JBool False) ?src)"
      using count_of_plain_list [OF assms(12)] by (simp add: assms(11) chosen_rows_def listed_incident_def)
    moreover have "candidates = length (filter (\<lambda>j. ij_incident j ''is_candidate'' = JBool True) ?src)"
      using count_of_plain_list [OF assms(13)] by (simp add: assms(11) chosen_rows_def listed_incident_def)
    moreover have "filter (\<lambda>j. ij_incident j ''is_candidate'' = JBool False) ?src = filter (\<lambda>j. \<not> ij_incident j ''is_candidate'' = JBool True) ?src"
      using incident_row_facts assms(10) by (intro filter_cong) auto
    ultimately show ?thesis using sum_length_filter_compl [of "\<lambda>j. ij_incident j ''is_candidate'' = JBool True" ?src] by simp
  qed
  finally show ?thesis .
qed

section \<open>Witnesses\<close>

lemma creation_time_field:
  "find (\<lambda>c. \<not> is_wildcard c \<and> cfg_map_from_pattern (normalised c) = ''[creation_time]'') (rev incident_field_configurations) =
     Some (simple_field ''creation_time'' [''incident.creation_time''] DDatetime)"
  by code_simp

lemma creation_time_metadata: "get_property_metadata_for_str incident_properties ''creation_time'' =
  Inr (Some \<lparr>md_field_name = ''[creation_time]'', md_field_mappings = [SimpleFieldMapping ''incident.creation_time''],
    md_enum_values = None, md_data_type = Some DDatetime\<rparr>)"
proof -
  have n: "normalised (simple_field ''creation_time'' [''incident.creation_time''] DDatetime) = \<lparr>cfg_map_from_pattern = ''[creation_time]'',
      cfg_map_to = [''incident.creation_time''], cfg_data_type = Some DDatetime, cfg_enum_values = None\<rparr>"
    "get_property_path_str (extract_fields ''creation_time'') = ''[creation_time]''" by code_simp+
  have "dict_get (known_configurations incident_properties) ''[creation_time]'' = Some \<lparr>cfg_map_from_pattern = ''[creation_time]'',
      cfg_map_to = [''incident.creation_time''], cfg_data_type = Some DDatetime, cfg_enum_values = None\<rparr>"
    unfolding incident_properties_def properties_metadata_init_def known_configuration creation_time_field by (simp add: n(1))
  then show ?thesis
    by (simp add: get_property_metadata_for_str_def get_property_metadata_def find_mapping_configuration_def n(2) template_of_def
        map_target_def json_column_def)
qed

definition incident_sample :: incident_search_env where
  "incident_sample = \<lparr>ie_runtime = literal_runtime, ie_literal = doubling_literal, ie_dialect = ''sqlite'', ie_now = 9,
     ie_where = (\<lambda>e j. True), ie_order = (\<lambda>e. rev), ie_select = (\<lambda>e j. JNull), ie_names_alerts = (\<lambda>e. False), ie_names_linked = (\<lambda>e. False)\<rparr>"

definition candidate_query :: "bool \<Rightarrow> incident_query" where
  "candidate_query b = \<lparr>iq_limit = 25, iq_offset = 0, iq_timeframe = 0, iq_upper = None, iq_lower = None, iq_candidate = b, iq_predicted = None,
     iq_sorting = ''creation_time'', iq_cel = None, iq_allowed = []\<rparr>"

lemma sample_incident_sorting: "incident_sort_text incident_sample (candidate_query b) = Inr (''incident.creation_time ASC'', ''incident.creation_time'')"
proof -
  have "py_replace ''-'' [] ''creation_time'' = ''creation_time''" "sort_direction ''ASC'' = ''ASC''" by code_simp+
  then show ?thesis
    by (simp add: incident_sort_text_def candidate_query_def filter_error_def incident_provider_def incident_sample_def uncaught_def
        get_cel_to_sql_provider_for_dialect_def get_order_by_expression_def get_order_by_field_def get_field_expression_def
        get_field_metadata_or_raise_def creation_time_metadata sqlite_dialect_def sql_methods.defs sql_dialect.defs
        base_field_expression_def one_or_coalesce_def field_expressions_def)
qed

definition listed_row :: "string \<Rightarrow> bool \<Rightarrow> incident" where
  "listed_row i b = (\<lambda>k. JNull)(''id'' := JStr i, ''tenant_id'' := JStr ''t'', ''is_visible'' := JBool True, ''is_candidate'' := JBool b)"

definition listed_state :: incident_state where
  "listed_state = search_state\<lparr>is_rows := [listed_row ''a'' False, listed_row ''b'' True, listed_row ''c'' False]\<rparr>"

definition listed_joined :: "string \<Rightarrow> bool \<Rightarrow> incident_joined" where
  "listed_joined i b = \<lparr>ij_incident = listed_row i b, ij_enrichment = None, ij_alert = (None, None, None)\<rparr>"

lemma listed_rows: "incident_rows ''t'' False listed_state = [listed_joined ''a'' False, listed_joined ''b'' True, listed_joined ''c'' False]"
proof -
  have "is_rows listed_state = [listed_row ''a'' False, listed_row ''b'' True, listed_row ''c'' False]"
    "edb_incidents (out_db (is_out listed_state)) = []"
    by (simp_all add: listed_state_def search_state_def sample_outside_def)
  moreover have "listed_row i b ''tenant_id'' = JStr ''t''" "listed_row i b ''is_visible'' = JBool True" for i b
    by (simp_all add: listed_row_def)
  ultimately show ?thesis by (simp add: incident_rows_def enrichments_of_def or_null_row_def listed_joined_def)
qed

lemma listed_facts: "listed_row i b ''id'' = JStr i" "listed_incident incident_sample (candidate_query c) (listed_row i b) \<longleftrightarrow> b = c"
  "ij_incident (listed_joined i b) = listed_row i b"
  by (simp_all add: listed_row_def listed_incident_def candidate_query_def listed_joined_def)

lemma listed_plan: "build_base_incident_query incident_sample None False False = Inr ([], False, False)"
  by (simp add: build_base_incident_query_def filter_error_def incident_provider_def incident_sample_def uncaught_def
      get_cel_to_sql_provider_for_dialect_def)

lemma listed_chosen: "chosen_rows incident_sample (candidate_query False) (incident_rows ''t'' False listed_state) =
    [listed_joined ''a'' False, listed_joined ''c'' False]"
  "chosen_rows incident_sample (candidate_query True) (incident_rows ''t'' False listed_state) = [listed_joined ''b'' True]"
  by (simp_all add: chosen_rows_def listed_rows listed_facts)

lemma candidate_query_facts: "iq_cel (candidate_query b) = None" "\<not> names_alert_field (candidate_query b)"
  by (simp_all add: candidate_query_def names_alert_field_def)

lemma listed_run: "run_incident_query incident_sample ''t'' ([], False, False) listed_state = Inr (incident_rows ''t'' False listed_state)"
  by (simp add: run_incident_query_def)

lemma listed_agree: "incident_counts_agree incident_sample ''t'' (candidate_query False) listed_state"
  by (simp add: incident_counts_agree_def sample_incident_sorting candidate_query_facts listed_plan listed_run listed_chosen)
    (simp add: incident_sample_def)

lemma listed_totals:
  "build_total_count_query incident_sample ''t'' (candidate_query b) listed_state = Inr (Inr (if b then 1 else 2))"
  using listed_chosen by (simp add: build_total_count_query_def candidate_query_facts listed_plan listed_run Let_def chosen_rows_def)

lemma listed_found: "build_last_incidents_query incident_sample ''t'' (candidate_query False) listed_state =
    Inr (Inr [listed_joined ''c'' False, listed_joined ''a'' False])"
  using listed_chosen(1)
  by (simp add: build_last_incidents_query_def sample_incident_sorting candidate_query_facts listed_plan listed_run Let_def chosen_rows_def)
    (simp add: incident_sample_def)

theorem pages_make_up_incident_lists_witness:
  "\<exists>ps. traverse (\<lambda>k. rbind (query_incidents incident_sample ''t'' (incident_page_query (candidate_query False) (k * 1) 1) listed_state)
      (\<lambda>p. Inr (ip_items p))) [0..<2] = Inr ps \<and> concat ps = [listed_joined ''c'' False, listed_joined ''a'' False]"
proof -
  have f: "found_incidents incident_sample ''t'' (candidate_query False) listed_state = [listed_joined ''c'' False, listed_joined ''a'' False]"
    by (simp add: found_incidents_def listed_found)
  with pages_make_up_incident_lists [OF listed_agree incident_page [OF listed_agree, of 0 5], of 2 1] show ?thesis by auto
qed

theorem incident_lists_are_exact_witness:
  "listed_row ''a'' False \<in> ij_incident ` set [listed_joined ''c'' False, listed_joined ''a'' False] \<and>
    listed_row ''b'' True \<notin> ij_incident ` set [listed_joined ''c'' False, listed_joined ''a'' False]"
proof -
  have "\<forall>e xs. set (ie_order incident_sample e xs) = set xs" by (simp add: incident_sample_def)
  from incident_lists_are_exact [OF listed_found this] have *: "ij_incident ` set [listed_joined ''c'' False, listed_joined ''a'' False] =
      {r \<in> set (is_rows listed_state). r ''tenant_id'' = JStr ''t'' \<and> r ''is_visible'' = JBool True \<and>
        listed_incident incident_sample (candidate_query False) r}"
    by (simp add: candidate_query_facts)
  show ?thesis unfolding * by (simp add: listed_facts listed_state_def) (simp add: listed_row_def)
qed

definition incident_facet_sample :: "(incident_joined, json) facet_env" where
  "incident_facet_sample = \<lparr>fe_runtime = literal_runtime, fe_literal = doubling_literal, fe_dialect = ''sqlite'', fe_sha1 = (\<lambda>x. x),
     fe_values = (\<lambda>c j. [ij_incident j ''status'']), fe_entity = (\<lambda>j. ij_incident j ''id''), fe_where = (\<lambda>e j. True),
     fe_groups = id, fe_unite = (\<lambda>cs v. v), fe_show = (\<lambda>v. []), fe_float = (\<lambda>v. None), fe_truncate = (\<lambda>v. JNull)\<rparr>"

theorem incident_facets_count_candidates_witness:
  "\<exists>rows. run_subquery incident_facet_sample (incident_base_query incident_sample ''t'' [] listed_state)
      \<lparr>sub_key = ''k'', sub_path = ''status'', sub_column = Column ''incident.status'', sub_involved = [], sub_sql = []\<rparr> = Inr rows \<and>
    sum_list (facet_counts incident_facet_sample ''k'' rows) = 2 + 1"
proof -
  let ?x = "\<lparr>sub_key = ''k'', sub_path = ''status'', sub_column = Column ''incident.status'', sub_involved = [], sub_sql = []\<rparr>"
  have path: "\<not> py_in ''alert'' ''status''" "\<not> py_in ''hasLinkedIncident'' ''status''" by code_simp+
  have base: "incident_base_query incident_sample ''t'' [] listed_state ''status'' [] = Inr (incident_rows ''t'' False listed_state)"
    by (simp add: incident_base_query_def path listed_plan listed_run)
  obtain rows where rows: "run_subquery incident_facet_sample (incident_base_query incident_sample ''t'' [] listed_state) ?x = Inr rows"
    by (simp add: run_subquery_def base Let_def)
  have ids: "distinct (incident_ids (incident_rows ''t'' False listed_state))"
    by (simp add: incident_ids_def listed_rows listed_facts)
  have flags: "\<forall>r \<in> set (is_rows listed_state). r ''is_candidate'' = JBool True \<or> r ''is_candidate'' = JBool False"
    by (simp add: listed_state_def listed_row_def)
  have totals: "build_total_count_query incident_sample ''t'' (candidate_query False) listed_state = Inr (Inr 2)"
    "build_total_count_query incident_sample ''t'' ((candidate_query False)\<lparr>iq_candidate := True\<rparr>) listed_state = Inr (Inr 1)"
    using listed_totals [of False] listed_totals [of True] by (simp_all add: candidate_query_def)
  have few: "length rows < 50"
    using rows by (auto simp: run_subquery_def base Let_def incident_facet_sample_def group_counts_def listed_rows)
  have "sum_list (facet_counts incident_facet_sample (sub_key ?x) rows) = 2 + 1"
    by (rule incident_facets_count_candidates [OF rows _ _ _ _ _ _ few ids flags _ totals])
      (simp_all add: path incident_facet_sample_def candidate_query_def)
  with rows show ?thesis by simp
qed

end
