(* ===== verification/Programs.thy ===== *)
theory Programs
  imports Main
begin

text \<open>
  Programs over a state that may raise an exception or fail to return: what the integrations with
  other services and the producer of events are written in.  \<open>None\<close> is a call that does not return,
  so it is never caught; an exception keeps the changes made before it.
\<close>

section \<open>Programs\<close>

type_synonym ('s, 'e, 'a) program = "'s \<Rightarrow> (('e + 'a) \<times> 's) option"

definition give :: "'a \<Rightarrow> ('s, 'e, 'a) program" where
  "give x = (\<lambda>s. Some (Inr x, s))"

definition throw :: "'e \<Rightarrow> ('s, 'e, 'a) program" where
  "throw e = (\<lambda>s. Some (Inl e, s))"

definition andthen :: "('s, 'e, 'a) program \<Rightarrow> ('a \<Rightarrow> ('s, 'e, 'b) program) \<Rightarrow> ('s, 'e, 'b) program" where
  "andthen m f = (\<lambda>s. case m s of None \<Rightarrow> None
     | Some (r, s') \<Rightarrow> (case r of Inl e \<Rightarrow> Some (Inl e, s') | Inr x \<Rightarrow> f x s'))"

definition catching :: "('s, 'e, 'a) program \<Rightarrow> ('e \<Rightarrow> ('s, 'f, 'a) program) \<Rightarrow> ('s, 'f, 'a) program" where
  "catching m h = (\<lambda>s. case m s of None \<Rightarrow> None
     | Some (r, s') \<Rightarrow> (case r of Inl e \<Rightarrow> h e s' | Inr x \<Rightarrow> Some (Inr x, s')))"

definition changing :: "('s \<Rightarrow> 's) \<Rightarrow> ('s, 'e, unit) program" where
  "changing f = (\<lambda>s. Some (Inr (), f s))"

definition reading :: "('s \<Rightarrow> 'a) \<Rightarrow> ('s, 'e, 'a) program" where
  "reading f = (\<lambda>s. Some (Inr (f s), s))"

definition giving :: "'e + 'a \<Rightarrow> ('s, 'e, 'a) program" where
  "giving r = (\<lambda>s. Some (r, s))"

fun for_each :: "('b \<Rightarrow> ('s, 'e, unit) program) \<Rightarrow> 'b list \<Rightarrow> ('s, 'e, unit) program" where
  "for_each f [] = give ()"
| "for_each f (x # xs) = andthen (f x) (\<lambda>_. for_each f xs)"

lemma program_simps [simp]:
  "give x s = Some (Inr x, s)"
  "throw e s = Some (Inl e, s)"
  "changing f s = Some (Inr (), f s)"
  "reading g s = Some (Inr (g s), s)"
  "giving r s = Some (r, s)"
  by (simp_all add: give_def throw_def changing_def reading_def giving_def)

lemma andthen_simps [simp]:
  "m s = None \<Longrightarrow> andthen m f s = None"
  "m s = Some (Inl e, s') \<Longrightarrow> andthen m f s = Some (Inl e, s')"
  "m s = Some (Inr x, s') \<Longrightarrow> andthen m f s = f x s'"
  by (simp_all add: andthen_def)

lemma catching_simps [simp]:
  "m s = None \<Longrightarrow> catching m h s = None"
  "m s = Some (Inl e, s') \<Longrightarrow> catching m h s = h e s'"
  "m s = Some (Inr x, s') \<Longrightarrow> catching m h s = Some (Inr x, s')"
  by (simp_all add: catching_def)

lemma andthen_assoc: "andthen (andthen m f) g = andthen m (\<lambda>x. andthen (f x) g)"
  by (rule ext) (simp add: andthen_def split: option.split sum.split)

section \<open>Specifications\<close>

text \<open>Partial correctness: \<open>Q\<close> of the value and the final state, \<open>R\<close> of the exception and the state
  it leaves.\<close>

definition meets :: "('s \<Rightarrow> bool) \<Rightarrow> ('s, 'e, 'a) program \<Rightarrow> ('a \<Rightarrow> 's \<Rightarrow> bool) \<Rightarrow> ('e \<Rightarrow> 's \<Rightarrow> bool) \<Rightarrow> bool" where
  "meets P m Q R \<longleftrightarrow> (\<forall>s r s'. P s \<longrightarrow> m s = Some (r, s') \<longrightarrow> (case r of Inr x \<Rightarrow> Q x s' | Inl e \<Rightarrow> R e s'))"

named_theorems meets_rules

lemma meetsD:
  assumes "meets P m Q R" and "P s"
  shows "m s = Some (Inr x, s') \<Longrightarrow> Q x s'" and "m s = Some (Inl e, s') \<Longrightarrow> R e s'"
  using assms unfolding meets_def by fastforce+

lemma meets_weaken:
  assumes "meets P m Q R" and "\<And>s. P' s \<Longrightarrow> P s" and "\<And>x s. Q x s \<Longrightarrow> Q' x s" and "\<And>e s. R e s \<Longrightarrow> R' e s"
  shows "meets P' m Q' R'"
  using assms unfolding meets_def by (fastforce split: sum.splits)

lemma meets_andthen [meets_rules]:
  assumes "meets P m Q R" and "\<And>x. meets (Q x) (f x) Q' R"
  shows "meets P (andthen m f) Q' R"
  using assms unfolding meets_def andthen_def by (fastforce split: option.splits sum.splits)

lemma meets_catching [meets_rules]:
  assumes "meets P m Q R" and "\<And>e. meets (R e) (h e) Q R'"
  shows "meets P (catching m h) Q R'"
  using assms unfolding meets_def catching_def by (fastforce split: option.splits sum.splits)

lemma meets_give: "(\<And>s. P s \<Longrightarrow> Q x s) \<Longrightarrow> meets P (give x) Q R"
  by (simp add: meets_def)

lemma meets_throw: "(\<And>s. P s \<Longrightarrow> R e s) \<Longrightarrow> meets P (throw e) Q R"
  by (simp add: meets_def)

section \<open>Invariants of programs\<close>

definition keeps :: "('s \<Rightarrow> bool) \<Rightarrow> ('s, 'e, 'a) program \<Rightarrow> bool" where
  "keeps I m \<longleftrightarrow> meets I m (\<lambda>_. I) (\<lambda>_. I)"

named_theorems keeps_rules

lemma keepsD: "keeps I m \<Longrightarrow> I s \<Longrightarrow> m s = Some (r, s') \<Longrightarrow> I s'"
  unfolding keeps_def meets_def by (cases r) fastforce+

lemma keeps_basic [keeps_rules]:
  "keeps I (give x)" "keeps I (throw e)" "keeps I (reading g)" "keeps I (giving r)"
  by (auto simp: keeps_def meets_def split: sum.split)

lemma keeps_changing: "(\<And>s. I s \<Longrightarrow> I (f s)) \<Longrightarrow> keeps I (changing f)"
  by (simp add: keeps_def meets_def)

lemma keeps_andthen [keeps_rules]: "keeps I m \<Longrightarrow> (\<And>x. keeps I (f x)) \<Longrightarrow> keeps I (andthen m f)"
  unfolding keeps_def by (rule meets_andthen)

lemma keeps_catching [keeps_rules]: "keeps I m \<Longrightarrow> (\<And>e. keeps I (h e)) \<Longrightarrow> keeps I (catching m h)"
  unfolding keeps_def by (rule meets_catching)

lemma keeps_if [keeps_rules]: "keeps I m \<Longrightarrow> keeps I n \<Longrightarrow> keeps I (if c then m else n)"
  by simp

lemma keeps_for_each [keeps_rules]: "(\<And>x. keeps I (f x)) \<Longrightarrow> keeps I (for_each f xs)"
  by (induction xs) (auto intro: keeps_rules)

section \<open>Programs that return\<close>

definition returns :: "('s, 'e, 'a) program \<Rightarrow> bool" where
  "returns m \<longleftrightarrow> (\<forall>s. m s \<noteq> None)"

named_theorems returns_rules

lemma returns_basic [returns_rules]:
  "returns (give x)" "returns (throw e)" "returns (reading g)" "returns (giving r)" "returns (changing f)"
  by (simp_all add: returns_def)

lemma returns_andthen [returns_rules]: "returns m \<Longrightarrow> (\<And>x. returns (f x)) \<Longrightarrow> returns (andthen m f)"
  unfolding returns_def andthen_def by (fastforce split: option.splits sum.splits)

lemma returns_catching [returns_rules]: "returns m \<Longrightarrow> (\<And>e. returns (h e)) \<Longrightarrow> returns (catching m h)"
  unfolding returns_def catching_def by (fastforce split: option.splits sum.splits)

lemma returns_if [returns_rules]: "returns m \<Longrightarrow> returns n \<Longrightarrow> returns (if c then m else n)"
  by simp

lemma returns_for_each [returns_rules]: "(\<And>x. returns (f x)) \<Longrightarrow> returns (for_each f xs)"
  by (induction xs) (auto intro: returns_rules)

end
