(* ===== verification/Event_Producer.thy ===== *)
theory Event_Producer
  imports Complex_Main Programs Py_Json
begin

text \<open>
  The producer of events: \<open>src/src/services/producers/kafka_producer.py\<close>, \<open>base_event_handler.py\<close> and
  \<open>factory.py\<close>.  The Kafka client is not part of the repository: the outcome of each of its calls, in
  the order they are made, is an argument.  A call takes its time and ends with or without an
  exception, or hangs; a record can be written although its call failed or was given up.  Time
  passes in calls and pauses only, and is exact.  An exception carries the answers to the questions
  the code asks about its class, since the class hierarchy is the client's.
\<close>

section \<open>The client\<close>

datatype client_error = Timeout
  | Client_error (error_type: string) (error_text: string) (is_connection: bool) (is_runtime: bool)

datatype outcome = Done rat "client_error option" bool | Hangs bool

type_synonym brokers = "nat \<Rightarrow> outcome"

datatype produce_result = MAIN | DLQ

datatype event_type = ALERT | INCIDENT | ENRICH | BATCH_ENRICH | DELETE

fun event_type_value :: "event_type \<Rightarrow> string" where
  "event_type_value ALERT = ''alert''"
| "event_type_value INCIDENT = ''incident''"
| "event_type_value ENRICH = ''enrich''"
| "event_type_value BATCH_ENRICH = ''batch_enrich''"
| "event_type_value DELETE = ''delete''"

fun produce_result_value :: "produce_result \<Rightarrow> string" where
  "produce_result_value MAIN = ''main''"
| "produce_result_value DLQ = ''dlq''"

definition MAIN_TASK_NAME :: string where "MAIN_TASK_NAME = ''kafka-async-task''"

definition DLQ_TASK_NAME :: string where "DLQ_TASK_NAME = ''kafka-async-task-dlq''"

definition result_from_task_name :: "string option \<Rightarrow> produce_result" where
  "result_from_task_name name = (case name of Some s \<Rightarrow> if suffixed ''-dlq'' s then DLQ else MAIN | None \<Rightarrow> MAIN)"

section \<open>Settings and state\<close>

record producer_config =
  topic :: string
  dlq_topic :: string
  max_retries :: int
  send_timeout :: rat
  produce_timeout :: rat
  retry_backoff :: rat
  retry_backoff_max :: rat
  stop_timeout :: rat

definition kafka_defaults :: producer_config where
  "kafka_defaults = \<lparr>topic = ''keep-events'', dlq_topic = ''keep-events-dlq'', max_retries = 5, send_timeout = 5,
     produce_timeout = 15, retry_backoff = 1 / 2, retry_backoff_max = 4, stop_timeout = 5\<rparr>"

text \<open>\<open>records\<close> are the topics' records as the brokers have them, \<open>calls\<close> counts the calls of the client.\<close>

record kafka =
  clock :: rat
  calls :: nat
  records :: "(string \<times> string) list"
  started :: bool
  last_start_error :: "string option"
  last_result :: "produce_result option"

type_synonym 'a kafka_program = "(kafka, client_error, 'a) program"

definition new_producer :: kafka where
  "new_producer = \<lparr>clock = 0, calls = 0, records = [], started = False, last_start_error = None, last_result = None\<rparr>"

definition parse_bootstrap_servers :: "(json \<Rightarrow> string) \<Rightarrow> string \<Rightarrow> json list" where
  "parse_bootstrap_servers text_of value = (case json_loads value of
     Some (JList vs) \<Rightarrow> vs
   | Some v \<Rightarrow> [JStr (case v of JStr s \<Rightarrow> s | _ \<Rightarrow> text_of v)]
   | None \<Rightarrow> map (JStr \<circ> py_strip) (filter (\<lambda>s. py_strip s \<noteq> []) (py_split (CHR '','') value)))"

section \<open>Calls\<close>

text \<open>What a call writes when it succeeds: nothing, or one record.\<close>

definition written :: "(string \<times> string) list \<Rightarrow> bool \<Rightarrow> kafka \<Rightarrow> kafka" where
  "written recs b k = (if b then k\<lparr>records := records k @ recs\<rparr> else k)"

definition client_call :: "brokers \<Rightarrow> (string \<times> string) list \<Rightarrow> unit kafka_program" where
  "client_call net recs = (\<lambda>k. case net (calls k) of
     Done d err late \<Rightarrow>
       (let k' = k\<lparr>clock := clock k + d, calls := calls k + 1\<rparr> in
        case err of None \<Rightarrow> Some (Inr (), written recs True k') | Some e \<Rightarrow> Some (Inl e, written recs late k'))
   | Hangs late \<Rightarrow> None)"

text \<open>\<open>asyncio.wait_for\<close>: the call is given up when its time is over; without any time it is not made.\<close>

definition bounded_call :: "brokers \<Rightarrow> (string \<times> string) list \<Rightarrow> rat \<Rightarrow> unit kafka_program" where
  "bounded_call net recs limit = (\<lambda>k.
     if limit \<le> 0 then Some (Inl Timeout, k)
     else let given_up = (\<lambda>late. Some (Inl Timeout, written recs late (k\<lparr>clock := clock k + limit, calls := calls k + 1\<rparr>))) in
       (case net (calls k) of
          Done d err late \<Rightarrow> if d \<le> limit then client_call net recs k else given_up late
        | Hangs late \<Rightarrow> given_up late))"

definition send_bounded :: "brokers \<Rightarrow> string \<Rightarrow> string \<Rightarrow> rat \<Rightarrow> unit kafka_program" where
  "send_bounded net tp value limit = bounded_call net [(tp, value)] limit"

definition sleep :: "rat \<Rightarrow> unit kafka_program" where
  "sleep d = changing (\<lambda>k. k\<lparr>clock := clock k + d\<rparr>)"

section \<open>Connecting\<close>

definition start_error :: "string \<Rightarrow> string \<Rightarrow> client_error \<Rightarrow> string" where
  "start_error which tp e = which @ '' topic '' @ [CHR 0x27] @ tp @ [CHR 0x27] @ '': ''
     @ (case e of Timeout \<Rightarrow> ''TimeoutError: '' | Client_error ty tx _ _ \<Rightarrow> ty @ '': '' @ tx)"

definition start_one :: "brokers \<Rightarrow> string \<Rightarrow> string \<Rightarrow> unit kafka_program" where
  "start_one net which tp = catching (client_call net [])
     (\<lambda>e. andthen (changing (\<lambda>k. k\<lparr>last_start_error := Some (start_error which tp e)\<rparr>)) (\<lambda>_. throw e))"

definition ensure_started :: "brokers \<Rightarrow> producer_config \<Rightarrow> unit kafka_program" where
  "ensure_started net cfg = andthen (reading started) (\<lambda>up. if up then give ()
     else andthen (start_one net ''main'' (topic cfg)) (\<lambda>_.
       andthen (start_one net ''DLQ'' (dlq_topic cfg)) (\<lambda>_.
         changing (\<lambda>k. k\<lparr>started := True, last_start_error := None\<rparr>))))"

definition producer_start :: "brokers \<Rightarrow> producer_config \<Rightarrow> unit kafka_program" where
  "producer_start net cfg = catching (ensure_started net cfg) (\<lambda>e. give ())"

definition producer_stop :: "brokers \<Rightarrow> producer_config \<Rightarrow> unit kafka_program" where
  "producer_stop net cfg =
     andthen (catching (bounded_call net [] (stop_timeout cfg)) (\<lambda>e. give ())) (\<lambda>_.
     andthen (catching (bounded_call net [] (stop_timeout cfg)) (\<lambda>e. give ())) (\<lambda>_.
       changing (\<lambda>k. k\<lparr>started := False\<rparr>)))"

definition producer_close :: "brokers \<Rightarrow> unit kafka_program" where
  "producer_close net = andthen (reading started) (\<lambda>up. if \<not> up then give ()
     else andthen (client_call net []) (\<lambda>_. andthen (client_call net []) (\<lambda>_.
       changing (\<lambda>k. k\<lparr>started := False\<rparr>))))"

record health_detail =
  hd_started :: bool
  hd_last_error :: "string option"
  hd_last_result :: "produce_result option"

definition producer_health :: "brokers \<Rightarrow> producer_config \<Rightarrow> bool \<Rightarrow> (bool \<times> health_detail) kafka_program" where
  "producer_health net cfg reconnect =
     andthen (reading started) (\<lambda>up.
     andthen (if \<not> up \<and> reconnect then producer_start net cfg else give ()) (\<lambda>_.
       reading (\<lambda>k. (started k, \<lparr>hd_started = started k, hd_last_error = last_start_error k, hd_last_result = last_result k\<rparr>))))"

section \<open>Producing\<close>

definition send_to_dlq :: "brokers \<Rightarrow> producer_config \<Rightarrow> string \<Rightarrow> string kafka_program" where
  "send_to_dlq net cfg value =
     andthen (catching (client_call net [])
        (\<lambda>e. case e of Client_error _ _ _ True \<Rightarrow> give () | _ \<Rightarrow> throw e)) (\<lambda>_.
     andthen (send_bounded net (dlq_topic cfg) value (send_timeout cfg)) (\<lambda>_.
     andthen (changing (\<lambda>k. k\<lparr>last_result := Some DLQ\<rparr>)) (\<lambda>_. give DLQ_TASK_NAME)))"

text \<open>The attempts still to make, by number; the pause before the next one is cut at the deadline.\<close>

fun attempt_sends :: "brokers \<Rightarrow> producer_config \<Rightarrow> string \<Rightarrow> rat \<Rightarrow> rat \<Rightarrow> int list \<Rightarrow> string option kafka_program" where
  "attempt_sends net cfg value deadline backoff [] = give None"
| "attempt_sends net cfg value deadline backoff (i # is) = andthen (reading (\<lambda>k. deadline - clock k)) (\<lambda>remaining.
     if remaining \<le> 0 then give None
     else andthen (catching (andthen (send_bounded net (topic cfg) value (min (send_timeout cfg) remaining)) (\<lambda>_. give True))
            (\<lambda>e. give False)) (\<lambda>sent.
       if sent then give (Some MAIN_TASK_NAME)
       else if i < max_retries cfg - 1
       then andthen (reading (\<lambda>k. min backoff (max 0 (deadline - clock k)))) (\<lambda>pause.
            andthen (if 0 < pause then sleep pause else give ()) (\<lambda>_.
              attempt_sends net cfg value deadline (min (backoff * 2) (retry_backoff_max cfg)) is))
       else attempt_sends net cfg value deadline backoff is))"

definition produce_with_retry :: "brokers \<Rightarrow> producer_config \<Rightarrow> string \<Rightarrow> string option kafka_program" where
  "produce_with_retry net cfg value = andthen (reading (\<lambda>k. clock k + produce_timeout cfg)) (\<lambda>deadline.
     attempt_sends net cfg value deadline (retry_backoff cfg) [0..max_retries cfg - 1])"

record event_args =
  ev_tenant_id :: json
  ev_provider_type :: json
  ev_provider_id :: json
  ev_fingerprint :: json
  ev_api_key_name :: json
  ev_trace_id :: json
  ev_provider_name :: json

definition build_payload :: "json \<Rightarrow> event_type \<Rightarrow> event_args \<Rightarrow> json" where
  "build_payload event ty args = JObj [(''event'', event), (''event_type'', JStr (event_type_value ty)),
     (''tenant_id'', ev_tenant_id args), (''provider_type'', ev_provider_type args), (''provider_id'', ev_provider_id args),
     (''fingerprint'', ev_fingerprint args), (''api_key_name'', ev_api_key_name args), (''trace_id'', ev_trace_id args),
     (''provider_name'', ev_provider_name args)]"

definition produce_value :: "brokers \<Rightarrow> producer_config \<Rightarrow> string \<Rightarrow> string kafka_program" where
  "produce_value net cfg value =
     andthen (catching (andthen (ensure_started net cfg) (\<lambda>_. give None))
        (\<lambda>e. case e of Client_error _ _ True _ \<Rightarrow> andthen (send_to_dlq net cfg value) (\<lambda>t. give (Some t)) | _ \<Rightarrow> throw e)) (\<lambda>diverted.
     case diverted of Some t \<Rightarrow> give t
     | None \<Rightarrow> andthen (produce_with_retry net cfg value) (\<lambda>r.
         case r of Some t \<Rightarrow> andthen (changing (\<lambda>k. k\<lparr>last_result := Some MAIN\<rparr>)) (\<lambda>_. give t)
         | None \<Rightarrow> send_to_dlq net cfg value))"

definition produce :: "brokers \<Rightarrow> producer_config \<Rightarrow> json \<Rightarrow> event_type \<Rightarrow> event_args \<Rightarrow> string kafka_program" where
  "produce net cfg event ty args = produce_value net cfg (json_dumps (build_payload event ty args))"

section \<open>Lemmas\<close>

text \<open>What calls leave alone, and how far they may move the count and the records.\<close>

definition same_status :: "kafka \<Rightarrow> kafka \<Rightarrow> bool" where
  "same_status k k' \<longleftrightarrow> started k' = started k \<and> last_start_error k' = last_start_error k \<and> last_result k' = last_result k"

definition spent :: "(string \<times> string) list \<Rightarrow> nat \<Rightarrow> kafka \<Rightarrow> kafka \<Rightarrow> bool" where
  "spent recs n k k' \<longleftrightarrow> same_status k k' \<and> calls k' \<le> calls k + n
     \<and> (\<exists>new. records k' = records k @ new \<and> set new \<subseteq> set recs \<and> length new \<le> n * length recs)"

lemma spent_trans:
  assumes "spent recs n k k1" and "spent recs n' k1 k2"
  shows "spent recs (n + n') k k2"
proof -
  obtain new new' where "records k1 = records k @ new" "set new \<subseteq> set recs" "length new \<le> n * length recs"
    "records k2 = records k1 @ new'" "set new' \<subseteq> set recs" "length new' \<le> n' * length recs"
    using assms unfolding spent_def by blast
  then have "records k2 = records k @ (new @ new')" "set (new @ new') \<subseteq> set recs" "length (new @ new') \<le> (n + n') * length recs"
    by (auto simp: add_mult_distrib)
  moreover have "same_status k k2" "calls k2 \<le> calls k + (n + n')"
    using assms unfolding spent_def same_status_def by auto
  ultimately show ?thesis unfolding spent_def by blast
qed

lemma spent_refl: "spent recs n k k"
  by (simp add: spent_def same_status_def)

lemma written_spent: "spent recs 1 k (written recs b (k\<lparr>clock := t, calls := calls k + 1\<rparr>))"
  by (auto simp: spent_def same_status_def written_def)

text \<open>The records that were written between two states.\<close>

definition landed :: "kafka \<Rightarrow> kafka \<Rightarrow> (string \<times> string) set" where
  "landed k k' = set (drop (length (records k)) (records k'))"

lemma landed_later: "spent recs n k k1 \<Longrightarrow> landed k1 k2 \<subseteq> landed k k2"
  unfolding landed_def by (rule set_drop_subset_set_drop) (auto simp: spent_def)

lemma landed_spent: "spent recs n k k' \<Longrightarrow> landed k k' \<subseteq> set recs"
  unfolding landed_def spent_def by auto

lemma client_call_cases:
  "client_call net recs k = (case net (calls k) of
     Done d None late \<Rightarrow> Some (Inr (), written recs True (k\<lparr>clock := clock k + d, calls := calls k + 1\<rparr>))
   | Done d (Some e) late \<Rightarrow> Some (Inl e, written recs late (k\<lparr>clock := clock k + d, calls := calls k + 1\<rparr>))
   | Hangs late \<Rightarrow> None)"
  by (simp add: client_call_def Let_def split: outcome.split option.split)

lemma written_sel [simp]:
  "clock (written recs b k) = clock k" "calls (written recs b k) = calls k" "started (written recs b k) = started k"
  "last_start_error (written recs b k) = last_start_error k" "last_result (written recs b k) = last_result k"
  "records (written recs b k) = (if b then records k @ recs else records k)"
  by (simp_all add: written_def)

lemma bounded_call_ok:
  "\<exists>r k'. bounded_call net recs limit k = Some (r, k') \<and> spent recs 1 k k' \<and> clock k' \<le> clock k + max 0 limit
     \<and> (r = Inr () \<longrightarrow> records k' = records k @ recs)"
proof (cases "limit \<le> 0")
  case True
  then show ?thesis by (simp add: bounded_call_def spent_refl)
next
  case False
  then have limit: "max 0 limit = limit" by simp
  show ?thesis
  proof (cases "net (calls k)")
    case (Hangs late)
    then show ?thesis using False written_spent by (simp add: bounded_call_def limit del: One_nat_def)
  next
    case (Done d err late)
    consider "\<not> d \<le> limit" | e where "d \<le> limit" "err = Some e" | "d \<le> limit" "err = None" by (cases err) force+
    then show ?thesis
    proof cases
      case 1
      then show ?thesis using False Done written_spent by (simp add: bounded_call_def limit)
    next
      case 2
      then show ?thesis using False Done written_spent by (simp add: bounded_call_def client_call_cases limit)
    next
      case 3
      then show ?thesis using False Done written_spent [of recs k True]
        by (simp add: bounded_call_def client_call_cases limit written_def)
    qed
  qed
qed

text \<open>The loop over the attempts never leaves its deadline and never makes more calls than attempts.\<close>

lemma attempt_sends_ok:
  "\<exists>r k'. attempt_sends net cfg value deadline backoff is k = Some (Inr r, k')
     \<and> spent [(topic cfg, value)] (length is) k k' \<and> clock k' \<le> max (clock k) deadline
     \<and> (r = None \<or> r = Some MAIN_TASK_NAME) \<and> (r \<noteq> None \<longrightarrow> (topic cfg, value) \<in> landed k k')"
proof (induction "is" arbitrary: k backoff)
  case Nil
  then show ?case by (simp add: spent_refl)
next
  case (Cons i js)
  show ?case
  proof (cases "deadline - clock k \<le> 0")
    case True
    then show ?thesis by (simp add: spent_refl)
  next
    case False
    let ?limit = "min (send_timeout cfg) (deadline - clock k)"
    obtain r k1 where call: "send_bounded net (topic cfg) value ?limit k = Some (r, k1)"
      and sp: "spent [(topic cfg, value)] 1 k k1" and cl: "clock k1 \<le> clock k + max 0 ?limit"
      and ok: "r = Inr () \<longrightarrow> records k1 = records k @ [(topic cfg, value)]"
      unfolding send_bounded_def using bounded_call_ok by blast
    have in_time: "clock k1 \<le> deadline" using cl False by (simp add: max_def min_def split: if_splits)
    show ?thesis
    proof (cases r)
      case (Inr u)
      then have "attempt_sends net cfg value deadline backoff (i # js) k = Some (Inr (Some MAIN_TASK_NAME), k1)"
        using False call by (simp add: andthen_def catching_def)
      moreover have "spent [(topic cfg, value)] (length (i # js)) k k1"
        using spent_trans [OF sp spent_refl [of _ "length js"]] by simp
      ultimately show ?thesis using ok Inr in_time by (simp add: landed_def)
    next
      case (Inl e)
      define pause where "pause = min backoff (max 0 (deadline - clock k1))"
      define k2 where "k2 = (if i < max_retries cfg - 1 \<and> 0 < pause then k1\<lparr>clock := clock k1 + pause\<rparr> else k1)"
      define b where "b = (if i < max_retries cfg - 1 then min (backoff * 2) (retry_backoff_max cfg) else backoff)"
      have next_try: "attempt_sends net cfg value deadline backoff (i # js) k = attempt_sends net cfg value deadline b js k2"
        using False call Inl by (simp add: andthen_def catching_def k2_def b_def pause_def sleep_def)
      have "spent [(topic cfg, value)] 1 k k2" "clock k2 \<le> deadline"
        using sp in_time by (auto simp: k2_def pause_def spent_def same_status_def)
      note to_k2 = this
      obtain r' k' where again: "attempt_sends net cfg value deadline b js k2 = Some (Inr r', k')"
        "spent [(topic cfg, value)] (length js) k2 k'" "clock k' \<le> max (clock k2) deadline"
        "r' = None \<or> r' = Some MAIN_TASK_NAME" "r' \<noteq> None \<longrightarrow> (topic cfg, value) \<in> landed k2 k'"
        using Cons.IH [of b k2] by blast
      have "spent [(topic cfg, value)] (length (i # js)) k k'" using spent_trans [OF to_k2(1) again(2)] by simp
      moreover have "clock k' \<le> max (clock k) deadline" using again(3) to_k2(2) by (simp add: max_def split: if_splits)
      moreover have "r' \<noteq> None \<longrightarrow> (topic cfg, value) \<in> landed k k'" using again(5) landed_later [OF to_k2(1)] by blast
      ultimately show ?thesis unfolding next_try using again(1,4) by blast
    qed
  qed
qed

lemma retry_ok:
  "\<exists>r k'. produce_with_retry net cfg value k = Some (Inr r, k')
     \<and> spent [(topic cfg, value)] (nat (max_retries cfg)) k k' \<and> clock k' \<le> clock k + max 0 (produce_timeout cfg)
     \<and> (r = None \<or> r = Some MAIN_TASK_NAME) \<and> (r \<noteq> None \<longrightarrow> (topic cfg, value) \<in> landed k k')"
  using attempt_sends_ok [of net cfg "value" "clock k + produce_timeout cfg" "retry_backoff cfg" "[0..max_retries cfg - 1]" k]
  by (simp add: produce_with_retry_def max_def split: if_splits)

lemma ensure_started_ok:
  assumes "ensure_started net cfg k = Some (r, k')"
  shows "records k' = records k \<and> last_result k' = last_result k
     \<and> (case r of Inr _ \<Rightarrow> started k' \<and> (started k \<and> k' = k \<or> last_start_error k' = None)
        | Inl e \<Rightarrow> \<not> started k \<and> \<not> started k' \<and> last_start_error k' \<noteq> None)"
  using assms
  by (auto simp: ensure_started_def start_one_def andthen_def catching_def client_call_cases
      split: if_splits outcome.splits option.splits)

lemma send_to_dlq_ok:
  assumes "send_to_dlq net cfg value k = Some (r, k')"
  shows "\<exists>new. records k' = records k @ new \<and> set new \<subseteq> {(dlq_topic cfg, value)} \<and> length new \<le> 1
     \<and> started k' = started k \<and> last_start_error k' = last_start_error k
     \<and> (case r of Inr t \<Rightarrow> t = DLQ_TASK_NAME \<and> new \<noteq> [] \<and> last_result k' = Some DLQ | Inl e \<Rightarrow> last_result k' = last_result k)"
proof -
  obtain s k1 where st: "client_call net [] k = Some (s, k1)"
    using assms by (cases "client_call net [] k") (auto simp: send_to_dlq_def andthen_def catching_def)
  then have k1: "records k1 = records k" "started k1 = started k" "last_start_error k1 = last_start_error k" "last_result k1 = last_result k"
    by (auto simp: client_call_cases split: outcome.splits option.splits)
  obtain q k2 where sent: "send_bounded net (dlq_topic cfg) value (send_timeout cfg) k1 = Some (q, k2)"
    and sp: "spent [(dlq_topic cfg, value)] 1 k1 k2" and ok: "q = Inr () \<longrightarrow> records k2 = records k1 @ [(dlq_topic cfg, value)]"
    unfolding send_bounded_def using bounded_call_ok by blast
  consider e where "r = Inl e" "k' = k1" | e where "q = Inl e" "r = Inl e" "k' = k2"
    | "q = Inr ()" "r = Inr DLQ_TASK_NAME" "k' = k2\<lparr>last_result := Some DLQ\<rparr>"
    using assms st sent by (cases s; cases q) (auto simp: send_to_dlq_def andthen_def catching_def split: client_error.splits bool.splits if_splits)
  then show ?thesis
  proof cases
    case 1
    then show ?thesis using k1 by simp
  next
    case 2
    then show ?thesis using k1 sp by (auto simp: spent_def same_status_def)
  next
    case 3
    then show ?thesis using k1 sp ok by (auto simp: spent_def same_status_def)
  qed
qed

text \<open>Where a value goes, and what the name of the task says about it.\<close>

lemma produce_value_ok:
  assumes "produce_value net cfg value k = Some (r, k')"
  shows "\<exists>new. records k' = records k @ new \<and> set new \<subseteq> {(topic cfg, value), (dlq_topic cfg, value)}
     \<and> length new \<le> nat (max_retries cfg) + 1 \<and> (started k' \<longrightarrow> started k \<and> last_start_error k' = last_start_error k \<or> last_start_error k' = None)
     \<and> (case r of
          Inr t \<Rightarrow> t = MAIN_TASK_NAME \<and> (topic cfg, value) \<in> set new \<and> last_result k' = Some MAIN
             \<or> t = DLQ_TASK_NAME \<and> (dlq_topic cfg, value) \<in> set new \<and> last_result k' = Some DLQ
        | Inl e \<Rightarrow> last_result k' = last_result k)"
proof -
  obtain s k1 where st: "ensure_started net cfg k = Some (s, k1)"
    using assms by (cases "ensure_started net cfg k") (auto simp: produce_value_def andthen_def catching_def)
  note up = ensure_started_ok [OF st]
  have diverted: ?thesis if d: "send_to_dlq net cfg value k2 = Some (r, k')" and sp: "spent [(topic cfg, value)] (nat (max_retries cfg)) k1 k2" for k2
  proof -
    obtain new1 where 1: "records k2 = records k @ new1" "set new1 \<subseteq> {(topic cfg, value)}" "length new1 \<le> nat (max_retries cfg)"
      "started k2 = started k1" "last_start_error k2 = last_start_error k1" "last_result k2 = last_result k"
      using sp up unfolding spent_def same_status_def by auto
    obtain new2 where 2: "records k' = records k2 @ new2" "set new2 \<subseteq> {(dlq_topic cfg, value)}" "length new2 \<le> 1"
      "started k' = started k2" "last_start_error k' = last_start_error k2"
      "case r of Inr t \<Rightarrow> t = DLQ_TASK_NAME \<and> new2 \<noteq> [] \<and> last_result k' = Some DLQ | Inl e \<Rightarrow> last_result k' = last_result k2"
      using send_to_dlq_ok [OF d] by blast
    have "new2 \<noteq> [] \<Longrightarrow> (dlq_topic cfg, value) \<in> set new2" using 2(2) by (cases new2) auto
    then show ?thesis using 1 2 up by (intro exI [of _ "new1 @ new2"]) (auto split: sum.splits)
  qed
  show ?thesis
  proof (cases s)
    case (Inl e)
    consider "send_to_dlq net cfg value k1 = Some (r, k')" | "r = Inl e" "k' = k1"
      using assms st Inl by (cases e; cases "send_to_dlq net cfg value k1")
        (auto simp: produce_value_def andthen_def catching_def split: bool.splits sum.splits prod.splits)
    then show ?thesis
    proof cases
      case 1
      then show ?thesis by (rule diverted) (rule spent_refl)
    next
      case 2
      then show ?thesis using up Inl by auto
    qed
  next
    case (Inr u)
    obtain q k2 where retry: "produce_with_retry net cfg value k1 = Some (Inr q, k2)"
      "spent [(topic cfg, value)] (nat (max_retries cfg)) k1 k2" "q = None \<or> q = Some MAIN_TASK_NAME"
      "q \<noteq> None \<longrightarrow> (topic cfg, value) \<in> landed k1 k2"
      using retry_ok by blast
    show ?thesis
    proof (cases q)
      case None
      then have "send_to_dlq net cfg value k2 = Some (r, k')"
        using assms st Inr retry(1) by (simp add: produce_value_def andthen_def catching_def)
      then show ?thesis by (rule diverted) (rule retry(2))
    next
      case (Some t)
      then have "r = Inr MAIN_TASK_NAME" "k' = k2\<lparr>last_result := Some MAIN\<rparr>"
        using assms st Inr retry(1,3) by (auto simp: produce_value_def andthen_def catching_def)
      moreover obtain new where "records k2 = records k1 @ new" "set new \<subseteq> {(topic cfg, value)}" "length new \<le> nat (max_retries cfg)"
        "(topic cfg, value) \<in> set new" "started k2 = started k1" "last_start_error k2 = last_start_error k1"
        using retry(2,4) Some unfolding spent_def same_status_def landed_def by auto
      ultimately show ?thesis using up Inr by (intro exI [of _ new]) auto
    qed
  qed
qed

section \<open>Reachable producers\<close>

inductive producer_reaches :: "brokers \<Rightarrow> producer_config \<Rightarrow> kafka \<Rightarrow> bool" for net cfg where
  fresh: "producer_reaches net cfg new_producer"
| produced: "producer_reaches net cfg k \<Longrightarrow> produce net cfg event ty args k = Some (r, k') \<Longrightarrow> producer_reaches net cfg k'"
| connected: "producer_reaches net cfg k \<Longrightarrow> producer_start net cfg k = Some (u, k') \<Longrightarrow> producer_reaches net cfg k'"
| stopped: "producer_reaches net cfg k \<Longrightarrow> producer_stop net cfg k = Some (u, k') \<Longrightarrow> producer_reaches net cfg k'"
| closed: "producer_reaches net cfg k \<Longrightarrow> producer_close net k = Some (u, k') \<Longrightarrow> producer_reaches net cfg k'"
| probed: "producer_reaches net cfg k \<Longrightarrow> producer_health net cfg b k = Some (h, k') \<Longrightarrow> producer_reaches net cfg k'"

definition truthful :: "producer_config \<Rightarrow> kafka \<Rightarrow> bool" where
  "truthful cfg k \<longleftrightarrow> (started k \<longrightarrow> last_start_error k = None)
     \<and> (last_result k = Some MAIN \<longrightarrow> topic cfg \<in> fst ` set (records k))
     \<and> (last_result k = Some DLQ \<longrightarrow> dlq_topic cfg \<in> fst ` set (records k))"

lemma ensure_started_truthful:
  assumes "truthful cfg k" and "ensure_started net cfg k = Some (r, k')"
  shows "truthful cfg k'"
  using ensure_started_ok [OF assms(2)] assms(1) unfolding truthful_def by (auto split: sum.splits)

lemma start_truthful:
  assumes "truthful cfg k" and "producer_start net cfg k = Some (r, k')"
  shows "truthful cfg k'"
  using assms ensure_started_truthful
  by (auto simp: producer_start_def catching_def split: option.splits sum.splits)

lemma bounded_truthful:
  assumes "truthful cfg k"
  obtains u k' where "catching (bounded_call net [] limit) (\<lambda>e :: client_error. (give () :: unit kafka_program)) k = Some (Inr u, k')"
    and "truthful cfg k'" and "records k' = records k" and "clock k' \<le> clock k + max 0 limit"
proof -
  obtain r k' where c: "bounded_call net [] limit k = Some (r, k')" "spent [] 1 k k'" "clock k' \<le> clock k + max 0 limit"
    using bounded_call_ok by blast
  have "truthful cfg k'" "records k' = records k" using c(2) assms by (auto simp: spent_def same_status_def truthful_def)
  then show thesis using that [of "()" k'] c by (cases r) (simp_all add: catching_def)
qed

lemma stop_truthful:
  assumes "truthful cfg k"
  obtains k' where "producer_stop net cfg k = Some (Inr (), k')" and "truthful cfg k'" and "\<not> started k'"
    and "clock k' \<le> clock k + 2 * max 0 (stop_timeout cfg)"
proof -
  obtain u1 k1 where 1: "catching (bounded_call net [] (stop_timeout cfg)) (\<lambda>e. give ()) k = Some (Inr u1 :: client_error + unit, k1)"
    "truthful cfg k1" "clock k1 \<le> clock k + max 0 (stop_timeout cfg)"
    using bounded_truthful [OF assms] by metis
  obtain u2 k2 where 2: "catching (bounded_call net [] (stop_timeout cfg)) (\<lambda>e. give ()) k1 = Some (Inr u2 :: client_error + unit, k2)"
    "truthful cfg k2" "clock k2 \<le> clock k1 + max 0 (stop_timeout cfg)"
    using bounded_truthful [OF 1(2)] by metis
  have "producer_stop net cfg k = Some (Inr (), k2\<lparr>started := False\<rparr>)"
    using 1(1) 2(1) by (simp add: producer_stop_def)
  then show thesis using that 1(3) 2(2,3) by (auto simp: truthful_def)
qed

lemma call_same: "client_call net [] k = Some (r, k') \<Longrightarrow> records k' = records k \<and> same_status k k'"
  by (auto simp: client_call_cases same_status_def split: outcome.splits option.splits)

lemma call_truthful: "client_call net [] k = Some (r, k') \<Longrightarrow> truthful cfg k' \<longleftrightarrow> truthful cfg k"
  using call_same [of net k r k'] by (simp add: truthful_def same_status_def)

lemma close_truthful:
  assumes "truthful cfg k" and "producer_close net k = Some (r, k')"
  shows "truthful cfg k'"
proof (cases "started k")
  case True
  obtain r1 k1 where 1: "client_call net [] k = Some (r1, k1)"
    using assms(2) True by (cases "client_call net [] k") (auto simp: producer_close_def andthen_def)
  show ?thesis
  proof (cases r1)
    case (Inl e)
    then show ?thesis using assms True 1 call_truthful [OF 1] by (simp add: producer_close_def andthen_def)
  next
    case (Inr u)
    obtain r2 k2 where 2: "client_call net [] k1 = Some (r2, k2)"
      using assms(2) True 1 Inr by (cases "client_call net [] k1") (auto simp: producer_close_def andthen_def)
    have "truthful cfg k2" using assms(1) call_truthful [OF 1] call_truthful [OF 2] by blast
    moreover have "k' = k2 \<or> k' = k2\<lparr>started := False\<rparr>"
      using assms(2) True 1 2 Inr by (cases r2) (simp_all add: producer_close_def andthen_def)
    ultimately show ?thesis by (auto simp: truthful_def)
  qed
next
  case False
  then show ?thesis using assms by (simp add: producer_close_def andthen_def)
qed

lemma health_truthful:
  assumes "truthful cfg k" and "producer_health net cfg b k = Some (h, k')"
  shows "truthful cfg k' \<and> h = Inr (started k', \<lparr>hd_started = started k', hd_last_error = last_start_error k', hd_last_result = last_result k'\<rparr>)"
proof (cases "\<not> started k \<and> b")
  case True
  then obtain u where s: "producer_start net cfg k = Some (u, k')" "\<exists>x. u = Inr x"
    using assms(2)
    by (cases "producer_start net cfg k") (auto simp: producer_health_def andthen_def producer_start_def catching_def split: option.splits sum.splits)
  then show ?thesis using start_truthful [OF assms(1) s(1)] assms(2) True
    by (auto simp: producer_health_def)
next
  case False
  then show ?thesis using assms by (auto simp: producer_health_def andthen_def)
qed

lemma produce_truthful:
  assumes "truthful cfg k" and "produce net cfg event ty args k = Some (r, k')"
  shows "truthful cfg k'"
proof -
  obtain v new where new: "records k' = records k @ new"
    "started k' \<longrightarrow> started k \<and> last_start_error k' = last_start_error k \<or> last_start_error k' = None"
    "last_result k' = last_result k \<or> last_result k' = Some MAIN \<and> (topic cfg, v) \<in> set new
       \<or> last_result k' = Some DLQ \<and> (dlq_topic cfg, v) \<in> set new"
    using produce_value_ok [OF assms(2) [unfolded produce_def]] by (cases r) fastforce+
  have "tp \<in> fst ` set (records k) \<Longrightarrow> tp \<in> fst ` set (records k')" "(tp, v) \<in> set new \<Longrightarrow> tp \<in> fst ` set (records k')" for tp
    using new(1) by (auto intro: rev_image_eqI)
  moreover have "started k' \<longrightarrow> last_start_error k' = None" using new(2) assms(1) unfolding truthful_def by auto
  ultimately show ?thesis using new(3) assms(1) unfolding truthful_def by (elim disjE conjE) simp_all
qed

lemma reaches_truthful: "producer_reaches net cfg k \<Longrightarrow> truthful cfg k"
proof (induction rule: producer_reaches.induct)
  case fresh
  then show ?case by (simp add: truthful_def new_producer_def)
next
  case (stopped k u k')
  obtain k1 where "producer_stop net cfg k = Some (Inr (), k1)" "truthful cfg k1" using stop_truthful stopped.IH by blast
  then show ?case using stopped.hyps(2) by simp
next
  case (produced k event ty args r k')
  then show ?case using produce_truthful by blast
next
  case (connected k u k')
  then show ?case using start_truthful by blast
next
  case (closed k u k')
  then show ?case using close_truthful by blast
next
  case (probed k b h k')
  then show ?case using health_truthful by blast
qed

section \<open>Properties\<close>

text \<open>
  Whatever the brokers do, a producer that is used through its operations reports the truth: a
  probe that calls it healthy carries no connection error, an unhealthy one after a failed
  reconnection carries one, and the last result it reports names a topic that holds a record.
\<close>

theorem producers_report_truthfully:
  assumes "producer_reaches net cfg k" and "producer_health net cfg b k = Some (h, k')"
  shows "\<exists>detail. h = Inr (started k', detail) \<and> hd_started detail = started k'
     \<and> (started k' \<longrightarrow> hd_last_error detail = None) \<and> (\<not> started k' \<and> b \<longrightarrow> hd_last_error detail \<noteq> None)
     \<and> (\<forall>x. hd_last_result detail = Some x \<longrightarrow>
          (case x of MAIN \<Rightarrow> topic cfg | DLQ \<Rightarrow> dlq_topic cfg) \<in> fst ` set (records k'))"
proof -
  have h: "truthful cfg k'" "h = Inr (started k', \<lparr>hd_started = started k', hd_last_error = last_start_error k', hd_last_result = last_result k'\<rparr>)"
    using health_truthful [OF reaches_truthful [OF assms(1)] assms(2)] by blast+
  have "last_start_error k' \<noteq> None" if off: "\<not> started k'" "b"
  proof -
    have "\<not> started k" using assms(2) off by (auto simp: producer_health_def andthen_def)
    then obtain u where "producer_start net cfg k = Some (u, k')"
      using assms(2) off by (cases "producer_start net cfg k") (auto simp: producer_health_def andthen_def split: sum.splits)
    then obtain s where "ensure_started net cfg k = Some (s, k')"
      by (auto simp: producer_start_def catching_def split: option.splits sum.splits)
    then show ?thesis using ensure_started_ok off(1) by (fastforce split: sum.splits)
  qed
  then show ?thesis using h unfolding truthful_def by (auto split: produce_result.split)
qed

definition sample_args :: event_args where
  "sample_args = \<lparr>ev_tenant_id = JStr ''t1'', ev_provider_type = JNull, ev_provider_id = JNull, ev_fingerprint = JNull,
     ev_api_key_name = JNull, ev_trace_id = JStr ''t'', ev_provider_name = JNull\<rparr>"

text \<open>Brokers for the witnesses: the outcomes of the first calls, then success.\<close>

definition sample_brokers :: "outcome list \<Rightarrow> brokers" where
  "sample_brokers outs n = (if n < length outs then outs ! n else Done 1 None False)"

definition refused :: outcome where
  "refused = Done 0 (Some (Client_error ''KafkaConnectionError'' ''no brokers'' True True)) False"

theorem producers_report_truthfully_witness:
  "\<exists>k k' detail. producer_reaches (sample_brokers [refused]) kafka_defaults k \<and> \<not> started k
     \<and> producer_health (sample_brokers [refused]) kafka_defaults True k = Some (Inr (True, detail), k')
     \<and> hd_last_error detail = None \<and> last_start_error k \<noteq> None"
proof -
  let ?net = "sample_brokers [refused]"
  have s: "map_option (\<lambda>(u, k). (u, started k, last_start_error k \<noteq> None)) (producer_start ?net kafka_defaults new_producer)
      = Some (Inr (), False, True)" by code_simp
  then obtain k where k: "producer_start ?net kafka_defaults new_producer = Some (Inr (), k)" "\<not> started k" "last_start_error k \<noteq> None"
    by auto
  have r: "producer_reaches ?net kafka_defaults k" by (rule producer_reaches.connected [OF producer_reaches.fresh k(1)])
  have "map_option (\<lambda>(u, k). map_option (\<lambda>(h, k'). (map_sum id fst h, started k')) (producer_health ?net kafka_defaults True k))
      (producer_start ?net kafka_defaults new_producer) = Some (Some (Inr True, True))" by code_simp
  then obtain h k' where h: "producer_health ?net kafka_defaults True k = Some (h, k')" "started k'" using k(1) by auto
  obtain detail where "h = Inr (started k', detail)" "hd_last_error detail = None"
    using producers_report_truthfully [OF r h(1)] h(2) by auto
  then show ?thesis using r k h by auto
qed

text \<open>
  A value that \<open>produce\<close> accepts is where the name of the task says, on the main topic or on
  the dead-letter topic, and that is what the next probe reports.  Nothing else is written in any
  case, and the value at most once more than there are retries: it may well be there several times,
  and it may be there although an exception is raised.
\<close>

theorem accepted_values_are_on_their_topic:
  assumes "produce net cfg event ty args k = Some (r, k')"
  shows "\<exists>new. records k' = records k @ new \<and> length new \<le> nat (max_retries cfg) + 1
     \<and> set new \<subseteq> {topic cfg, dlq_topic cfg} \<times> {json_dumps (build_payload event ty args)}
     \<and> (case r of Inl e \<Rightarrow> last_result k' = last_result k
        | Inr t \<Rightarrow> last_result k' = Some (result_from_task_name (Some t))
            \<and> ((case result_from_task_name (Some t) of MAIN \<Rightarrow> topic cfg | DLQ \<Rightarrow> dlq_topic cfg),
               json_dumps (build_payload event ty args)) \<in> set new)"
proof -
  have names: "result_from_task_name (Some MAIN_TASK_NAME) = MAIN" "result_from_task_name (Some DLQ_TASK_NAME) = DLQ"
    by code_simp+
  show ?thesis using produce_value_ok [OF assms [unfolded produce_def]] names by (fastforce split: sum.splits)
qed

theorem accepted_values_are_on_their_topic_witness:
  "map_option (\<lambda>(r, k). (r, map fst (records k), last_result k))
       (produce (sample_brokers (replicate 6 refused)) kafka_defaults (JObj []) ALERT sample_args (new_producer\<lparr>started := True\<rparr>))
     = Some (Inr DLQ_TASK_NAME, [''keep-events-dlq''], Some DLQ)
   \<and> (\<forall>r k'. produce (sample_brokers []) kafka_defaults (JObj []) ALERT sample_args new_producer = Some (r, k')
        \<longrightarrow> length (records k') \<le> 6)"
proof
  show "map_option (\<lambda>(r, k). (r, map fst (records k), last_result k))
       (produce (sample_brokers (replicate 6 refused)) kafka_defaults (JObj []) ALERT sample_args (new_producer\<lparr>started := True\<rparr>))
     = Some (Inr DLQ_TASK_NAME, [''keep-events-dlq''], Some DLQ)" by code_simp
  have n: "max_retries kafka_defaults = 5" "records new_producer = []" by (simp_all add: kafka_defaults_def new_producer_def)
  show "\<forall>r k'. produce (sample_brokers []) kafka_defaults (JObj []) ALERT sample_args new_producer = Some (r, k')
        \<longrightarrow> length (records k') \<le> 6"
    using accepted_values_are_on_their_topic [of "sample_brokers []" kafka_defaults "JObj []" ALERT sample_args new_producer] n
    by fastforce
qed

text \<open>
  The sends of one event share a deadline: whatever the brokers do, attempts and pauses take
  no longer than the budget together and make no more calls than there are retries.  What follows a
  failure is one send to the dead-letter topic, bounded as well; but the connection opened before it
  is not, and if that call hangs the request does.
\<close>

theorem produce_stays_in_its_budget:
  assumes "started k"
  shows "\<exists>r k1. produce_with_retry net cfg v k = Some (Inr r, k1)
     \<and> clock k1 \<le> clock k + max 0 (produce_timeout cfg) \<and> calls k1 \<le> calls k + nat (max_retries cfg)
     \<and> (case r of
          Some t \<Rightarrow> produce_value net cfg v k = Some (Inr t, k1\<lparr>last_result := Some MAIN\<rparr>)
        | None \<Rightarrow> (case net (calls k1) of
             Hangs late \<Rightarrow> produce_value net cfg v k = None
           | Done d err late \<Rightarrow> \<exists>s k'. produce_value net cfg v k = Some (s, k')
               \<and> clock k' \<le> clock k1 + d + max 0 (send_timeout cfg) \<and> calls k' \<le> calls k1 + 2))"
proof -
  obtain r k1 where retry: "produce_with_retry net cfg v k = Some (Inr r, k1)"
    "spent [(topic cfg, v)] (nat (max_retries cfg)) k k1" "clock k1 \<le> clock k + max 0 (produce_timeout cfg)"
    using retry_ok by blast
  have up: "ensure_started net cfg k = Some (Inr (), k)" using assms by (simp add: ensure_started_def)
  have whole: "produce_value net cfg v k = (case r of Some t \<Rightarrow> Some (Inr t, k1\<lparr>last_result := Some MAIN\<rparr>)
      | None \<Rightarrow> send_to_dlq net cfg v k1)"
    using up retry(1) by (simp add: produce_value_def andthen_def catching_def split: option.split)
  have hang: "send_to_dlq net cfg v k1 = None" if "net (calls k1) = Hangs late" for late
    using that by (simp add: send_to_dlq_def andthen_def catching_def client_call_cases)
  have bounded: "\<exists>s k'. send_to_dlq net cfg v k1 = Some (s, k') \<and> clock k' \<le> clock k1 + d + max 0 (send_timeout cfg)
      \<and> calls k' \<le> calls k1 + 2" if net: "net (calls k1) = Done d err late" for d err late
  proof -
    define k2 where "k2 = written [] (err = None \<or> late) (k1\<lparr>clock := clock k1 + d, calls := calls k1 + 1\<rparr>)"
    obtain q k3 where sent: "send_bounded net (dlq_topic cfg) v (send_timeout cfg) k2 = Some (q, k3)"
      "spent [(dlq_topic cfg, v)] 1 k2 k3" "clock k3 \<le> clock k2 + max 0 (send_timeout cfg)"
      unfolding send_bounded_def using bounded_call_ok by blast
    have call: "client_call net [] k1 = Some (case err of None \<Rightarrow> Inr () | Some e \<Rightarrow> Inl e, k2)"
      using net by (simp add: client_call_cases k2_def split: option.split)
    have c2: "clock k2 = clock k1 + d" "calls k2 = calls k1 + 1" by (simp_all add: k2_def)
    show ?thesis
    proof (cases "\<exists>e. err = Some e \<and> (\<forall>ty tx b. e \<noteq> Client_error ty tx b True)")
      case True
      then obtain e where e: "err = Some e" "\<forall>ty tx b. e \<noteq> Client_error ty tx b True" by blast
      then have "send_to_dlq net cfg v k1 = Some (Inl e, k2)"
        using call by (cases e) (auto simp: send_to_dlq_def andthen_def catching_def split: bool.split)
      then show ?thesis using c2 by simp
    next
      case False
      then have "catching (client_call net []) (\<lambda>e. case e of Client_error _ _ _ True \<Rightarrow> give () | _ \<Rightarrow> throw e) k1 = Some (Inr () :: client_error + unit, k2)"
        using call by (cases err) (auto simp: catching_def)
      then have "send_to_dlq net cfg v k1 = (case q of Inl e \<Rightarrow> Some (Inl e, k3)
          | Inr _ \<Rightarrow> Some (Inr DLQ_TASK_NAME, k3\<lparr>last_result := Some DLQ\<rparr>))"
        using sent(1) by (simp add: send_to_dlq_def andthen_def split: sum.split)
      then show ?thesis using sent(2,3) c2 by (cases q) (auto simp: spent_def)
    qed
  qed
  show ?thesis
    using retry(1,3) retry(2) [unfolded spent_def] hang bounded whole
    by (intro exI [of _ r] exI [of _ k1]) (auto split: option.split outcome.split)
qed

theorem produce_stays_in_its_budget_witness:
  "\<exists>r k1. produce_with_retry (\<lambda>_. Hangs False) kafka_defaults v (new_producer\<lparr>started := True\<rparr>) = Some (Inr r, k1)
     \<and> clock k1 \<le> 15 \<and> calls k1 \<le> 5
     \<and> (r = None \<longrightarrow> produce_value (\<lambda>_. Hangs False) kafka_defaults v (new_producer\<lparr>started := True\<rparr>) = None)"
  using produce_stays_in_its_budget [of "new_producer\<lparr>started := True\<rparr>" "\<lambda>_. Hangs False" kafka_defaults v]
  by (auto simp: new_producer_def kafka_defaults_def)

text \<open>The pauses between attempts, and how long the first of them take together.\<close>

fun pauses :: "producer_config \<Rightarrow> rat \<Rightarrow> nat \<Rightarrow> rat" where
  "pauses cfg b 0 = 0"
| "pauses cfg b (Suc n) = b + pauses cfg (min (b * 2) (retry_backoff_max cfg)) n"

lemma pauses_nonneg: "0 \<le> b \<Longrightarrow> 0 \<le> retry_backoff_max cfg \<Longrightarrow> 0 \<le> pauses cfg b n"
  by (induction n arbitrary: b) simp_all

lemma attempts_ride_out:
  assumes "0 < b" and "0 < retry_backoff_max cfg" and "i + int n < max_retries cfg"
    and "\<forall>j < n. \<exists>e. net (calls k + j) = Done 0 (Some e) False" and "net (calls k + n) = Done d None False"
    and "0 < d" and "d \<le> send_timeout cfg" and "clock k + pauses cfg b n + d \<le> deadline"
  shows "attempt_sends net cfg v deadline b [i..max_retries cfg - 1] k = Some (Inr (Some MAIN_TASK_NAME),
     k\<lparr>clock := clock k + pauses cfg b n + d, calls := calls k + n + 1, records := records k @ [(topic cfg, v)]\<rparr>)"
  using assms
proof (induction n arbitrary: b i k)
  case 0
  have "[i..max_retries cfg - 1] = i # [i + 1..max_retries cfg - 1]" using 0(3) by (simp add: upto_rec1)
  moreover have "send_bounded net (topic cfg) v (min (send_timeout cfg) (deadline - clock k)) k
      = Some (Inr (), k\<lparr>clock := clock k + d, calls := calls k + 1, records := records k @ [(topic cfg, v)]\<rparr>)"
    using 0(5-8) by (simp add: send_bounded_def bounded_call_def client_call_cases written_def min_def)
  ultimately show ?case using 0(6,8) by (simp add: andthen_def catching_def)
next
  case (Suc n)
  let ?b = "min (b * 2) (retry_backoff_max cfg)"
  have p: "0 \<le> pauses cfg ?b n" using pauses_nonneg Suc.prems(1,2) by (simp add: min_def)
  have split_list: "[i..max_retries cfg - 1] = i # [i + 1..max_retries cfg - 1]" using Suc.prems(3) by (simp add: upto_rec1)
  obtain e where e: "net (calls k) = Done 0 (Some e) False" using Suc.prems(4) by (metis add.right_neutral zero_less_Suc)
  define k1 where "k1 = k\<lparr>calls := calls k + 1, clock := clock k + b\<rparr>"
  have room: "b \<le> deadline - clock k" "0 < deadline - clock k" using Suc.prems(1,6,8) p by simp_all
  have "send_bounded net (topic cfg) v (min (send_timeout cfg) (deadline - clock k)) k
      = Some (Inl e, k\<lparr>calls := calls k + 1\<rparr>)"
    using e room Suc.prems(6,7) by (simp add: send_bounded_def bounded_call_def client_call_cases written_def min_def)
  then have step: "attempt_sends net cfg v deadline b [i..max_retries cfg - 1] k
      = attempt_sends net cfg v deadline ?b [i + 1..max_retries cfg - 1] k1"
    using room Suc.prems(1,3) unfolding split_list
    by (simp add: andthen_def catching_def sleep_def k1_def max_def min_def)
  have "attempt_sends net cfg v deadline ?b [i + 1..max_retries cfg - 1] k1 = Some (Inr (Some MAIN_TASK_NAME),
     k1\<lparr>clock := clock k1 + pauses cfg ?b n + d, calls := calls k1 + n + 1, records := records k1 @ [(topic cfg, v)]\<rparr>)"
    by (rule Suc.IH) (use Suc.prems in \<open>auto simp: k1_def min_def\<close>)
  then show ?case unfolding step by (simp add: k1_def)
qed

text \<open>
  A failure that heals is ridden out: if the first attempts are refused at once and a later one,
  within the retries, is acknowledged in time for its own limit and for the budget left after the
  pauses, which double up to their bound, the event is on the main topic, once, and the request took
  exactly the pauses and that send.
\<close>

theorem outages_are_ridden_out:
  assumes "started k" and "0 < retry_backoff cfg" and "0 < retry_backoff_max cfg" and "int n < max_retries cfg"
    and "\<forall>j < n. \<exists>e. net (calls k + j) = Done 0 (Some e) False" and "net (calls k + n) = Done d None False"
    and "0 < d" and "d \<le> send_timeout cfg" and "pauses cfg (retry_backoff cfg) n + d \<le> produce_timeout cfg"
  shows "\<exists>k'. produce net cfg event ty args k = Some (Inr MAIN_TASK_NAME, k')
     \<and> records k' = records k @ [(topic cfg, json_dumps (build_payload event ty args))]
     \<and> clock k' = clock k + pauses cfg (retry_backoff cfg) n + d \<and> calls k' = calls k + n + 1"
proof -
  let ?v = "json_dumps (build_payload event ty args)"
  have "produce_with_retry net cfg ?v k = Some (Inr (Some MAIN_TASK_NAME),
     k\<lparr>clock := clock k + pauses cfg (retry_backoff cfg) n + d, calls := calls k + n + 1, records := records k @ [(topic cfg, ?v)]\<rparr>)"
    using attempts_ride_out [of "retry_backoff cfg" cfg 0 n net k d "clock k + produce_timeout cfg" ?v] assms
    by (simp add: produce_with_retry_def)
  moreover have "ensure_started net cfg k = Some (Inr (), k)" using assms(1) by (simp add: ensure_started_def)
  ultimately show ?thesis by (simp add: produce_def produce_value_def andthen_def catching_def)
qed

theorem outages_are_ridden_out_witness:
  "\<exists>k'. produce (sample_brokers (replicate 4 refused)) kafka_defaults (JObj []) ALERT sample_args (new_producer\<lparr>started := True\<rparr>)
       = Some (Inr MAIN_TASK_NAME, k') \<and> length (records k') = 1 \<and> clock k' = 17 / 2"
proof -
  let ?k = "new_producer\<lparr>started := True\<rparr>"
  have fails: "\<forall>j < 4. \<exists>e. sample_brokers (replicate 4 refused) (calls ?k + j) = Done 0 (Some e) False"
    by (simp add: sample_brokers_def new_producer_def refused_def)
  have ok: "sample_brokers (replicate 4 refused) (calls ?k + 4) = Done 1 None False"
    by (simp add: sample_brokers_def new_producer_def)
  have p: "pauses kafka_defaults (retry_backoff kafka_defaults) 4 = 15 / 2"
    by (simp add: kafka_defaults_def eval_nat_numeral)
  show ?thesis
    using outages_are_ridden_out [of ?k kafka_defaults 4, OF _ _ _ _ fails ok, of "JObj []" ALERT sample_args] p
    by (auto simp: kafka_defaults_def new_producer_def)
qed

text \<open>
  While the brokers of the dead-letter topic cannot be reached, nothing is published by a
  producer that has not connected before, although the main topic is up: connecting needs both, and
  a refused connection sends the event to the dead-letter topic straight away.  Whatever comes of
  that, the main topic gets nothing and the producer stays unconnected.
\<close>

theorem dlq_outage_stops_publishing:
  assumes "\<not> started k" and "net (calls k) = Done d1 None late1"
    and "net (calls k + 1) = Done d2 (Some (Client_error ty tx True rt)) late2" and "topic cfg \<noteq> dlq_topic cfg"
    and "produce net cfg event kind args k = Some (r, k')"
  shows "filter (\<lambda>rec. fst rec = topic cfg) (records k') = filter (\<lambda>rec. fst rec = topic cfg) (records k)
     \<and> \<not> started k' \<and> r \<noteq> Inr MAIN_TASK_NAME"
proof -
  let ?v = "json_dumps (build_payload event kind args)"
  obtain k1 where k1: "ensure_started net cfg k = Some (Inl (Client_error ty tx True rt), k1)"
    "records k1 = records k" "\<not> started k1"
    using assms(1-3) by (simp add: ensure_started_def start_one_def andthen_def catching_def client_call_cases)
  have "produce net cfg event kind args k = send_to_dlq net cfg ?v k1"
    using k1(1) by (simp add: produce_def produce_value_def andthen_def catching_def split: option.split sum.split)
  then have dlq: "send_to_dlq net cfg ?v k1 = Some (r, k')" using assms(5) by simp
  have other: "DLQ_TASK_NAME \<noteq> MAIN_TASK_NAME" by code_simp
  obtain new where "records k' = records k @ new" "set new \<subseteq> {(dlq_topic cfg, ?v)}" "started k' = started k1"
    "case r of Inr t \<Rightarrow> t = DLQ_TASK_NAME | Inl e \<Rightarrow> True"
    using send_to_dlq_ok [OF dlq] k1(2) by (cases r) auto
  moreover have "filter (\<lambda>rec. fst rec = topic cfg) new = []" using assms(4) calculation(2) by (auto simp: filter_empty_conv)
  ultimately show ?thesis using k1(3) other by (auto split: sum.splits)
qed

theorem dlq_outage_stops_publishing_witness:
  "map_option (\<lambda>(r, k). (r = Inl Timeout, records k, started k))
       (produce (\<lambda>n. if n = 0 then Done 1 None False else if n = 1 then refused else if n = 2 then refused else Hangs False)
          kafka_defaults (JObj []) ALERT sample_args new_producer) = Some (True, [], False)
   \<and> (\<forall>r k'. produce (sample_brokers [Done 1 None False, refused]) kafka_defaults (JObj []) ALERT sample_args new_producer = Some (r, k')
        \<longrightarrow> r \<noteq> Inr MAIN_TASK_NAME)"
proof
  show "map_option (\<lambda>(r, k). (r = Inl Timeout, records k, started k))
       (produce (\<lambda>n. if n = 0 then Done 1 None False else if n = 1 then refused else if n = 2 then refused else Hangs False)
          kafka_defaults (JObj []) ALERT sample_args new_producer) = Some (True, [], False)" by code_simp
  let ?net = "sample_brokers [Done 1 None False, refused]"
  have s: "\<not> started new_producer" "?net (calls new_producer) = Done 1 None False"
    "?net (calls new_producer + 1) = Done 0 (Some (Client_error ''KafkaConnectionError'' ''no brokers'' True True)) False"
    "topic kafka_defaults \<noteq> dlq_topic kafka_defaults"
    by (simp_all add: new_producer_def sample_brokers_def refused_def kafka_defaults_def)
  show "\<forall>r k'. produce ?net kafka_defaults (JObj []) ALERT sample_args new_producer = Some (r, k') \<longrightarrow> r \<noteq> Inr MAIN_TASK_NAME"
    using dlq_outage_stops_publishing [OF s] by blast
qed

end
