(* ===== verification/Service_Calls.thy ===== *)
theory Service_Calls
  imports Programs Tenant_Access
begin

text \<open>
  Calls of other services over HTTP, as the integrations with Kong and Grafana make them: a request,
  the reply, and Python's access to the members of a decoded body.  The services are not part of the
  repository: what they reply is a function of all requests received so far, an argument of the
  model, which also carries the settings, the digests and the texts the library makes.
\<close>

section \<open>Requests and replies\<close>

record request =
  verb :: string
  url :: string
  headers :: "(string \<times> string) list"
  content :: "json option"

text \<open>\<open>Answer\<close> is a status with the decoded body, \<open>None\<close> if it is no JSON; \<open>No_answer\<close> a failed connection.\<close>

datatype service_reply = Answer nat "json option" | No_answer string

datatype exn = ValueError string | RuntimeError string | KeyError string | TypeError | AttributeError
  | HTTPStatusError nat | TransportError string | OperatorNameTaken string | OperatorGroupTaken string
  | Sub_policy_failed exn

record services =
  settings :: "string \<Rightarrow> string option"
  replies :: "request list \<Rightarrow> service_reply"
  text_of :: "json \<Rightarrow> string"
  sha256_hex :: "string \<Rightarrow> string"
  message_of :: "exn \<Rightarrow> string"

text \<open>The requests made so far are the part of the state the calls change.\<close>

record world =
  requests :: "request list"

definition call :: "services \<Rightarrow> request \<Rightarrow> ('b world_scheme, exn, nat \<times> json option) program" where
  "call S req = (\<lambda>w. let sent = requests w @ [req] in
     Some (case replies S sent of Answer st body \<Rightarrow> Inr (st, body) | No_answer why \<Rightarrow> Inl (TransportError why),
       w\<lparr>requests := sent\<rparr>))"

definition raise_for_status :: "nat \<times> json option \<Rightarrow> ('s, exn, unit) program" where
  "raise_for_status resp = (if 200 \<le> fst resp \<and> fst resp < 300 then give () else throw (HTTPStatusError (fst resp)))"

definition decode_body :: "nat \<times> json option \<Rightarrow> ('s, exn, json) program" where
  "decode_body resp = (case snd resp of Some v \<Rightarrow> give v | None \<Rightarrow> throw (ValueError ''Expecting value''))"

section \<open>Members of decoded bodies\<close>

text \<open>\<open>v[k]\<close>, \<open>v.get(k, d)\<close> and \<open>for x in v\<close>, with what Python raises for values of the wrong type.\<close>

fun item :: "json \<Rightarrow> string \<Rightarrow> exn + json" where
  "item (JObj kvs) k = (case map_of kvs k of Some v \<Rightarrow> Inr v | None \<Rightarrow> Inl (KeyError k))"
| "item _ k = Inl TypeError"

fun member :: "json \<Rightarrow> string \<Rightarrow> json \<Rightarrow> exn + json" where
  "member (JObj kvs) k d = Inr (case map_of kvs k of Some v \<Rightarrow> v | None \<Rightarrow> d)"
| "member _ k d = Inl AttributeError"

fun elements :: "json \<Rightarrow> exn + json list" where
  "elements (JList vs) = Inr vs"
| "elements (JObj kvs) = Inr (map (\<lambda>kv. JStr (fst kv)) kvs)"
| "elements (JStr s) = Inr (map (\<lambda>c. JStr [c]) s)"
| "elements _ = Inl TypeError"

definition either :: "json \<Rightarrow> json \<Rightarrow> json" where
  "either v d = (if json_falsy v then d else v)"

definition str_of :: "services \<Rightarrow> json \<Rightarrow> string" where
  "str_of S v = (case v of JStr s \<Rightarrow> s | _ \<Rightarrow> text_of S v)"

section \<open>Strings\<close>

definition rstrip_slash :: "string \<Rightarrow> string" where
  "rstrip_slash s = rev (dropWhile (\<lambda>c. c = CHR ''/'') (rev s))"

definition unreserved :: "char \<Rightarrow> bool" where
  "unreserved c \<longleftrightarrow> c \<in> set ''ABCDEFGHIJKLMNOPQRSTUVWXYZabcdefghijklmnopqrstuvwxyz0123456789_.-~''"

definition hex_upper :: "nat \<Rightarrow> char" where
  "hex_upper n = ''0123456789ABCDEF'' ! (n mod 16)"

definition percent :: "nat \<Rightarrow> string" where
  "percent n = [CHR ''%'', hex_upper (n div 16), hex_upper n]"

text \<open>\<open>quote(s, safe="")\<close>: the octets of the UTF-8 encoding, in hexadecimal unless unreserved.\<close>

definition quote_char :: "char \<Rightarrow> string" where
  "quote_char c = (let n = of_char c in
     if unreserved c then [c]
     else if n < (128::nat) then percent n
     else percent (192 + n div 64) @ percent (128 + n mod 64))"

definition path_segment :: "string \<Rightarrow> string" where
  "path_segment s = concat (map quote_char s)"

section \<open>Lemmas\<close>

lemma call_simp: "call S req w = Some (case replies S (requests w @ [req]) of Answer st body \<Rightarrow> Inr (st, body)
     | No_answer why \<Rightarrow> Inl (TransportError why), w\<lparr>requests := requests w @ [req]\<rparr>)"
  by (simp add: call_def Let_def)

lemma call_answer: "replies S (requests w @ [req]) = Answer st body \<Longrightarrow>
    call S req w = Some (Inr (st, body), w\<lparr>requests := requests w @ [req]\<rparr>)"
  by (simp add: call_simp)

lemma keeps_call: "(\<And>w. I w \<Longrightarrow> I (w\<lparr>requests := requests w @ [req]\<rparr>)) \<Longrightarrow> keeps I (call S req)"
  by (auto simp: keeps_def meets_def call_simp split: sum.split service_reply.splits)

lemma keeps_replies [keeps_rules]: "keeps I (raise_for_status resp)" "keeps I (decode_body resp)"
  by (auto simp: raise_for_status_def decode_body_def keeps_rules split: option.split)

lemma returns_calls [returns_rules]: "returns (call S req)" "returns (raise_for_status resp)" "returns (decode_body resp)"
  by (auto simp: returns_def call_simp raise_for_status_def decode_body_def split: option.split)

text \<open>A quoted segment has no slash, so it stays one segment of the path.\<close>

lemma hex_upper_safe: "hex_upper n \<noteq> CHR ''/''"
proof -
  have "n mod 16 < 16" by simp
  then have "n mod 16 \<in> set [0..<16]" by simp
  then show ?thesis unfolding hex_upper_def by (auto simp: upt_rec nth_Cons')
qed

lemma percent_safe: "CHR ''/'' \<notin> set (percent n)"
proof -
  have "CHR ''/'' \<noteq> CHR ''%''" by simp
  then show ?thesis using hex_upper_safe [of n] hex_upper_safe [of "n div 16"]
    unfolding percent_def by (metis empty_iff list.set(1) set_ConsD)
qed

lemma path_segment_no_slash: "CHR ''/'' \<notin> set (path_segment s)"
proof -
  have "\<not> unreserved (CHR ''/'')" by code_simp
  then have "CHR ''/'' \<notin> set (quote_char c)" for c
    using percent_safe unfolding quote_char_def Let_def by (auto simp del: of_char_of)
  then show ?thesis by (simp add: path_segment_def)
qed

end
