(* ===== verification/Kong.thy ===== *)
theory Kong
  imports Service_Calls
begin

text \<open>
  \<open>src/src/integrations/kong.py\<close>: a consumer per operator on the Kong Admin API, and its credentials.
  The pages of a listing are followed until one names no next page, so that a server which always
  names one keeps the caller for ever.
\<close>

section \<open>Settings\<close>

definition admin_base :: "services \<Rightarrow> string" where
  "admin_base S = (case settings S ''KONG_API_URL'' of None \<Rightarrow> [] | Some u \<Rightarrow> rstrip_slash u)"

definition require_admin_base :: "services \<Rightarrow> ('s, exn, string) program" where
  "require_admin_base S = (if admin_base S = [] then throw (ValueError ''KONG_API_URL is required'') else give (admin_base S))"

definition admin_headers :: "services \<Rightarrow> (string \<times> string) list" where
  "admin_headers S = (let token = py_strip (case settings S ''KONG_ADMIN_TOKEN'' of None \<Rightarrow> [] | Some t \<Rightarrow> t) in
     [(''Accept'', ''application/json''), (''Content-Type'', ''application/json'')]
     @ (if token = [] then [] else [(''Kong-Admin-Token'', token)]))"

section \<open>Consumers\<close>

definition tag_char :: "char \<Rightarrow> bool" where
  "tag_char c \<longleftrightarrow> c \<in> set ''ABCDEFGHIJKLMNOPQRSTUVWXYZabcdefghijklmnopqrstuvwxyz0123456789.-_''"

fun dashed :: "bool \<Rightarrow> string \<Rightarrow> string" where
  "dashed run [] = []"
| "dashed run (c # cs) = (if tag_char c then c # dashed False cs
     else if run then dashed True cs else CHR ''-'' # dashed True cs)"

definition kong_tag_fragment :: "string \<Rightarrow> string" where
  "kong_tag_fragment v = (let slug = strip_chars ''-'' (dashed False (py_strip v)) in
     take 64 (if slug = [] then ''group'' else slug))"

definition consumer_tags :: "string \<Rightarrow> string list" where
  "consumer_tags mail = [''alerts-gateway'', ''mail-group-'' @ kong_tag_fragment mail]"

definition consumer_url :: "string \<Rightarrow> string \<Rightarrow> string" where
  "consumer_url base seg = base @ ''/consumers/'' @ seg"

definition ask :: "services \<Rightarrow> string \<Rightarrow> string \<Rightarrow> json option \<Rightarrow> ('b world_scheme, exn, nat \<times> json option) program" where
  "ask S how u body = call S \<lparr>verb = how, url = u, headers = admin_headers S, content = body\<rparr>"

definition id_of :: "nat \<times> json option \<Rightarrow> ('b world_scheme, exn, json) program" where
  "id_of resp = andthen (decode_body resp) (\<lambda>body. giving (item body ''id''))"

definition create_consumer_or_fetch_existing ::
  "services \<Rightarrow> string \<Rightarrow> string \<Rightarrow> string \<Rightarrow> ('b world_scheme, exn, json) program" where
  "create_consumer_or_fetch_existing S base operator mail =
     andthen (ask S ''POST'' (base @ ''/consumers'')
       (Some (JObj [(''username'', JStr operator), (''tags'', JList (map JStr (consumer_tags mail)))]))) (\<lambda>created.
     if fst created = 409
     then andthen (ask S ''GET'' (consumer_url base (path_segment operator)) None) (\<lambda>retry.
          andthen (raise_for_status retry) (\<lambda>_. id_of retry))
     else andthen (raise_for_status created) (\<lambda>_. id_of created))"

definition ensure_consumer :: "services \<Rightarrow> string \<Rightarrow> string \<Rightarrow> ('b world_scheme, exn, json) program" where
  "ensure_consumer S operator mail = andthen (require_admin_base S) (\<lambda>base.
     andthen (ask S ''GET'' (consumer_url base (path_segment operator)) None) (\<lambda>got.
     if fst got = 200 then id_of got
     else andthen (if fst got \<noteq> 404 then raise_for_status got else give ()) (\<lambda>_.
       create_consumer_or_fetch_existing S base operator mail)))"

section \<open>Credentials\<close>

definition next_paged_admin_url :: "string \<Rightarrow> json \<Rightarrow> string option" where
  "next_paged_admin_url base nxt = (case nxt of
     JStr s \<Rightarrow> if s = [] then None
       else if prefixed ''http://'' s \<or> prefixed ''https://'' s then Some s
       else if prefixed ''/'' s then Some (base @ s) else Some (base @ ''/'' @ s)
   | _ \<Rightarrow> None)"

definition key_auth_url :: "string \<Rightarrow> string \<Rightarrow> string" where
  "key_auth_url base seg = base @ ''/consumers/'' @ seg @ ''/key-auth''"

definition delete_credential :: "services \<Rightarrow> string \<Rightarrow> string \<Rightarrow> json \<Rightarrow> ('b world_scheme, exn, unit) program" where
  "delete_credential S base seg cred = andthen (giving (member cred ''id'' JNull)) (\<lambda>cid.
     if json_falsy cid then give ()
     else andthen (ask S ''DELETE'' (key_auth_url base seg @ ''/'' @ path_segment (str_of S cid)) None) raise_for_status)"

definition delete_page :: "services \<Rightarrow> string \<Rightarrow> string \<Rightarrow> string \<Rightarrow> ('b world_scheme, exn, string option) program" where
  "delete_page S base seg u = andthen (ask S ''GET'' u None) (\<lambda>listed.
     andthen (raise_for_status listed) (\<lambda>_.
     andthen (decode_body listed) (\<lambda>payload.
     andthen (giving (member payload ''data'' JNull)) (\<lambda>creds.
     andthen (giving (elements (either creds (JList [])))) (\<lambda>vs.
     andthen (for_each (delete_credential S base seg) vs) (\<lambda>_.
     andthen (giving (member payload ''next'' JNull)) (\<lambda>nxt.
       give (next_paged_admin_url base nxt))))))))"

partial_function (option) delete_pages ::
  "services \<Rightarrow> string \<Rightarrow> string \<Rightarrow> string \<Rightarrow> 'b world_scheme \<Rightarrow> ((exn + unit) \<times> 'b world_scheme) option" where
  "delete_pages S base seg u w = (case delete_page S base seg u w of None \<Rightarrow> None
     | Some (r, w') \<Rightarrow> (case r of Inl e \<Rightarrow> Some (Inl e, w')
        | Inr nxt \<Rightarrow> (case nxt of None \<Rightarrow> Some (Inr (), w') | Some u' \<Rightarrow> delete_pages S base seg u' w')))"

declare delete_pages.simps [code]

definition delete_all_consumer_key_auths :: "services \<Rightarrow> string \<Rightarrow> string \<Rightarrow> ('b world_scheme, exn, unit) program" where
  "delete_all_consumer_key_auths S base seg = delete_pages S base seg (key_auth_url base seg)"

definition post_key_auth :: "services \<Rightarrow> string \<Rightarrow> string \<Rightarrow> string option \<Rightarrow> ('b world_scheme, exn, json) program" where
  "post_key_auth S base seg key =
     andthen (ask S ''POST'' (key_auth_url base seg) (Some (JObj (case key of None \<Rightarrow> [] | Some k \<Rightarrow> [(''key'', JStr k)])))) (\<lambda>posted.
     andthen (raise_for_status posted) (\<lambda>_. decode_body posted))"

definition resolve_consumer_id ::
  "services \<Rightarrow> string \<Rightarrow> string \<Rightarrow> json \<Rightarrow> ('b world_scheme, exn, json) program" where
  "resolve_consumer_id S base operator cid = (if \<not> json_falsy cid then give cid
     else andthen (ask S ''GET'' (consumer_url base (path_segment operator)) None) (\<lambda>meta.
       andthen (raise_for_status meta) (\<lambda>_. andthen (decode_body meta) (\<lambda>body. giving (member body ''id'' JNull)))))"

fun usable_key :: "json \<Rightarrow> string option" where
  "usable_key (JStr s) = (if s = [] then None else Some s)"
| "usable_key _ = None"

text \<open>\<open>secret\<close> is the random token drawn when Kong does not echo the key it made.\<close>

definition sync_key_auth ::
  "services \<Rightarrow> string \<Rightarrow> string \<Rightarrow> json \<Rightarrow> string option \<Rightarrow> string \<Rightarrow> ('b world_scheme, exn, string) program" where
  "sync_key_auth S secret base cid key operator =
     (let seg = path_segment (if json_falsy cid then operator else str_of S cid) in
      andthen (delete_all_consumer_key_auths S base seg) (\<lambda>_.
      andthen (post_key_auth S base seg key) (\<lambda>body.
      andthen (giving (member body ''key'' JNull)) (\<lambda>echoed.
      andthen (case usable_key echoed of Some k \<Rightarrow> give (k, body)
         | None \<Rightarrow> (case key of Some k \<Rightarrow> give (k, body)
            | None \<Rightarrow> andthen (delete_all_consumer_key_auths S base seg) (\<lambda>_.
                andthen (post_key_auth S base seg (Some secret)) (\<lambda>body.
                andthen (giving (member body ''key'' JNull)) (\<lambda>echoed.
                  give (case usable_key echoed of Some k \<Rightarrow> k | None \<Rightarrow> secret, body)))))) (\<lambda>(k, body).
      andthen (resolve_consumer_id S base operator cid) (\<lambda>_.
      andthen (giving (member body ''id'' JNull)) (\<lambda>_. give k)))))))"

definition create_or_update_api_key ::
  "services \<Rightarrow> string \<Rightarrow> json \<Rightarrow> string \<Rightarrow> string option \<Rightarrow> ('b world_scheme, exn, string) program" where
  "create_or_update_api_key S secret cid operator key = andthen (require_admin_base S) (\<lambda>base.
     sync_key_auth S secret base cid key operator)"

definition delete_consumer :: "services \<Rightarrow> string \<Rightarrow> ('b world_scheme, exn, unit) program" where
  "delete_consumer S operator = andthen (require_admin_base S) (\<lambda>base.
     andthen (delete_all_consumer_key_auths S base (path_segment operator)) (\<lambda>_.
     andthen (ask S ''DELETE'' (consumer_url base (path_segment operator)) None) (\<lambda>deleted.
       if fst deleted \<in> {200, 204, 404} then give () else raise_for_status deleted)))"

definition delete_api_key :: "services \<Rightarrow> string \<Rightarrow> ('b world_scheme, exn, unit) program" where
  "delete_api_key S operator = andthen (require_admin_base S) (\<lambda>base.
     delete_all_consumer_key_auths S base (path_segment operator))"

section \<open>Lemmas\<close>

text \<open>Calls change nothing but the list of requests.\<close>

definition blind :: "('b world_scheme \<Rightarrow> bool) \<Rightarrow> bool" where
  "blind I \<longleftrightarrow> (\<forall>w reqs. I w \<longrightarrow> I (w\<lparr>requests := reqs\<rparr>))"

lemma keeps_ask [keeps_rules]: "blind I \<Longrightarrow> keeps I (ask S how u body)"
  unfolding ask_def by (rule keeps_call) (simp add: blind_def)

lemma keeps_require_admin_base [keeps_rules]: "keeps I (require_admin_base S)"
  by (simp add: require_admin_base_def keeps_rules)

lemma keeps_id_of [keeps_rules]: "keeps I (id_of resp)"
  unfolding id_of_def by (intro keeps_rules)

lemma keeps_ensure_consumer [keeps_rules]: "blind I \<Longrightarrow> keeps I (ensure_consumer S operator mail)"
  unfolding ensure_consumer_def create_consumer_or_fetch_existing_def by (intro keeps_rules)

lemma keeps_delete_page: "blind I \<Longrightarrow> keeps I (delete_page S base seg u)"
  unfolding delete_page_def delete_credential_def by (intro keeps_rules)

lemma keeps_delete_pages [keeps_rules]:
  assumes "blind I"
  shows "keeps I (delete_pages S base seg u)"
proof -
  have "I w \<longrightarrow> I (snd y)" if "delete_pages S base seg u w = Some y" for w y
  proof (rule delete_pages.raw_induct [where P = "\<lambda>S base seg u w y. I w \<longrightarrow> I (snd y)", OF _ that], goal_cases)
    case (1 f S base seg u w y)
    then show ?case
      using keepsD [OF keeps_delete_page [OF assms], of w S base seg u]
      by (cases y) (auto split: option.splits sum.splits)
  qed
  then show ?thesis by (fastforce simp: keeps_def meets_def split: sum.split)
qed

lemma keeps_sync [keeps_rules]: "blind I \<Longrightarrow> keeps I (delete_all_consumer_key_auths S base seg)"
  "blind I \<Longrightarrow> keeps I (post_key_auth S base seg key)" "blind I \<Longrightarrow> keeps I (resolve_consumer_id S base operator cid)"
  unfolding delete_all_consumer_key_auths_def post_key_auth_def resolve_consumer_id_def by (intro keeps_rules; assumption)+

lemma keeps_kong [keeps_rules]:
  "blind I \<Longrightarrow> keeps I (create_or_update_api_key S secret cid operator key)"
  "blind I \<Longrightarrow> keeps I (delete_consumer S operator)" "blind I \<Longrightarrow> keeps I (delete_api_key S operator)"
proof -
  assume b: "blind I"
  show "keeps I (create_or_update_api_key S secret cid operator key)"
    unfolding create_or_update_api_key_def sync_key_auth_def Let_def
    using b by (auto intro!: keeps_rules split: option.split)
  show "keeps I (delete_consumer S operator)" "keeps I (delete_api_key S operator)"
    unfolding delete_consumer_def delete_api_key_def using b by (auto intro!: keeps_rules)
qed

text \<open>If every page leads to a page of lower rank, the listing ends and the loop returns.\<close>

definition pages_descend :: "services \<Rightarrow> (string \<Rightarrow> nat) \<Rightarrow> bool" where
  "pages_descend S rank \<longleftrightarrow> (\<forall>reqs u st kvs u'.
     replies S (reqs @ [\<lparr>verb = ''GET'', url = u, headers = admin_headers S, content = None\<rparr>]) = Answer st (Some (JObj kvs))
     \<longrightarrow> next_paged_admin_url (admin_base S) (case map_of kvs ''next'' of Some v \<Rightarrow> v | None \<Rightarrow> JNull) = Some u'
     \<longrightarrow> rank u' < rank u)"

lemma returns_ask [returns_rules]: "returns (ask S how u body)" "returns (require_admin_base S)" "returns (id_of resp)"
  unfolding ask_def require_admin_base_def id_of_def by (intro returns_rules)+

lemma returns_delete_page: "returns (delete_page S base seg u)"
  unfolding delete_page_def delete_credential_def by (intro returns_rules)

lemma delete_page_next:
  assumes "pages_descend S rank" and "delete_page S (admin_base S) seg u w = Some (Inr (Some u'), w')"
  shows "rank u' < rank u"
proof -
  let ?req = "\<lparr>verb = ''GET'', url = u, headers = admin_headers S, content = None\<rparr>"
  obtain st b where r: "replies S (requests w @ [?req]) = Answer st (Some b)"
    using assms(2) unfolding delete_page_def ask_def andthen_def call_simp
    by (auto simp: decode_body_def split: service_reply.splits option.splits sum.splits)
  have "\<exists>kvs. b = JObj kvs \<and> next_paged_admin_url (admin_base S) (case map_of kvs ''next'' of Some v \<Rightarrow> v | None \<Rightarrow> JNull) = Some u'"
    using assms(2) r unfolding delete_page_def ask_def andthen_def call_simp
    by (cases b) (auto simp: decode_body_def raise_for_status_def split: service_reply.splits option.splits sum.splits if_splits)
  then show ?thesis using assms(1) r unfolding pages_descend_def by blast
qed

lemma returns_delete_pages:
  assumes "pages_descend S rank"
  shows "returns (delete_pages S (admin_base S) seg u :: ('b world_scheme, exn, unit) program)"
proof -
  have "delete_pages S (admin_base S) seg u w \<noteq> None" for w :: "'b world_scheme"
  proof (induction "rank u" arbitrary: u w rule: less_induct)
    case less
    have step: "delete_page S (admin_base S) seg u w \<noteq> None"
      by (rule returns_delete_page [unfolded returns_def, rule_format])
    show ?case
      using less delete_page_next [OF assms, of seg u w] step
      by (subst delete_pages.simps) (auto split: option.split sum.split)
  qed
  then show ?thesis by (simp add: returns_def)
qed

end
