(* ===== verification/Grafana.thy ===== *)
theory Grafana
  imports Kong
begin

text \<open>
  \<open>src/src/integrations/grafana.py\<close>: a webhook contact point per operator and its route below the
  \<open>Send-Alert\<close> policy, edited in the decoded policy tree and put back as a whole.
\<close>

section \<open>Settings and names\<close>

definition setting_or :: "services \<Rightarrow> string \<Rightarrow> string" where
  "setting_or S k = (case settings S k of None \<Rightarrow> [] | Some v \<Rightarrow> v)"

definition contact_point_uid :: "services \<Rightarrow> string \<Rightarrow> string" where
  "contact_point_uid S operator = ''agw-'' @ take 16 (sha256_hex S operator)"

definition require_contact_point_settings :: "services \<Rightarrow> exn + (string \<times> string \<times> string)" where
  "require_contact_point_settings S =
     (let base = rstrip_slash (setting_or S ''GRAFANA_API_URL'');
          token = py_strip (setting_or S ''GRAFANA_API_TOKEN'');
          hook = py_strip (setting_or S ''ALERTS_TO_CONSOLE_URL'') in
      if base = [] then Inl (ValueError ''GRAFANA_API_URL is required'')
      else if token = [] then Inl (ValueError ''GRAFANA_API_TOKEN is required'')
      else if hook = [] then Inl (ValueError ''ALERTS_TO_CONSOLE_URL is required'')
      else Inr (base, token, hook))"

definition provisioning_auth_headers :: "string \<Rightarrow> (string \<times> string) list" where
  "provisioning_auth_headers token = [(''Accept'', ''application/json''), (''Content-Type'', ''application/json''),
     (''X-Disable-Provenance'', ''true''), (''Authorization'', ''Bearer '' @ token)]"

definition contact_point_list_url :: "string \<Rightarrow> string" where
  "contact_point_list_url base = rstrip_slash base @ ''/api/v1/provisioning/contact-points''"

definition policy_url :: "string \<Rightarrow> string" where
  "policy_url base = rstrip_slash base @ ''/api/v1/provisioning/policies''"

definition grafana_call ::
  "services \<Rightarrow> string \<Rightarrow> string \<Rightarrow> string \<Rightarrow> json option \<Rightarrow> ('b world_scheme, exn, nat \<times> json option) program" where
  "grafana_call S token how u body =
     call S \<lparr>verb = how, url = u, headers = provisioning_auth_headers token, content = body\<rparr>"

section \<open>Contact points\<close>

definition contact_point_name :: "string \<Rightarrow> string" where
  "contact_point_name operator = ''Appchi - '' @ operator"

definition build_contact_point_payload :: "string \<Rightarrow> string \<Rightarrow> string \<Rightarrow> string \<Rightarrow> json" where
  "build_contact_point_payload uid operator hook key = JObj [(''uid'', JStr uid), (''name'', JStr (contact_point_name operator)),
     (''type'', JStr ''webhook''),
     (''settings'', JObj [(''url'', JStr hook), (''httpMethod'', JStr ''POST''), (''authorization_scheme'', JStr '' ''),
        (''authorization_credentials'', JStr key)]),
     (''disableResolveMessage'', JBool False)]"

definition parse_contact_points_list :: "services \<Rightarrow> json \<Rightarrow> exn + json list" where
  "parse_contact_points_list S raw = (case raw of JList vs \<Rightarrow> Inr vs
     | _ \<Rightarrow> Inl (RuntimeError (''Unexpected Grafana contact points response (expected JSON array): '' @ text_of S raw)))"

definition member_is :: "string \<Rightarrow> string \<Rightarrow> json \<Rightarrow> bool" where
  "member_is k v cp = (case cp of JObj kvs \<Rightarrow> map_of kvs k = Some (JStr v) | _ \<Rightarrow> False)"

definition find_contact_point_by_uid :: "json list \<Rightarrow> string \<Rightarrow> json option" where
  "find_contact_point_by_uid cps uid = find (member_is ''uid'' uid) cps"

definition upper_ascii :: "string \<Rightarrow> string" where
  "upper_ascii = map (\<lambda>c. if of_char c \<in> {97..122::nat} then char_of (of_char c - 32 :: nat) else c)"

definition webhook_contact_point_unchanged :: "json \<Rightarrow> string \<Rightarrow> bool" where
  "webhook_contact_point_unchanged existing hook =
     (case member existing ''settings'' JNull of Inl _ \<Rightarrow> False
      | Inr v \<Rightarrow> (case either v (JObj []) of
          JObj kvs \<Rightarrow> (case either (case map_of kvs ''httpMethod'' of Some m \<Rightarrow> m | None \<Rightarrow> JNull) (JStr ''POST'') of
              JStr how \<Rightarrow> member_is ''type'' ''webhook'' existing \<and> map_of kvs ''url'' = Some (JStr hook) \<and> upper_ascii how = ''POST''
            | _ \<Rightarrow> False)
        | _ \<Rightarrow> False))"

definition provision_contact_point ::
  "services \<Rightarrow> string \<Rightarrow> string \<Rightarrow> string \<Rightarrow> string \<Rightarrow> json \<Rightarrow> ('b world_scheme, exn, string) program" where
  "provision_contact_point S token list_url uid hook payload =
     andthen (grafana_call S token ''GET'' list_url None) (\<lambda>listed.
     andthen (raise_for_status listed) (\<lambda>_.
     andthen (decode_body listed) (\<lambda>raw.
     andthen (giving (parse_contact_points_list S raw)) (\<lambda>cps.
       case find_contact_point_by_uid cps uid of
         Some existing \<Rightarrow>
           if webhook_contact_point_unchanged existing hook then give uid
           else andthen (grafana_call S token ''PUT'' (list_url @ ''/'' @ uid) (Some payload)) (\<lambda>put.
             andthen (raise_for_status put) (\<lambda>_. give uid))
       | None \<Rightarrow> andthen (grafana_call S token ''POST'' list_url (Some payload)) (\<lambda>post.
             andthen (raise_for_status post) (\<lambda>_. give uid))))))"

section \<open>The policy tree\<close>

definition build_sub_policy_data :: "services \<Rightarrow> string \<Rightarrow> json" where
  "build_sub_policy_data S name = JObj [(''receiver'', JStr name),
     (''object_matchers'', JList [JList [JStr name, JStr ''='', JStr ''true'']]), (''continue'', JBool True),
     (''repeat_interval'', JStr (case settings S ''GRAFANA_POLICY_REPEAT_INTERVAL'' of None \<Rightarrow> ''52w'' | Some v \<Rightarrow> v)),
     (''group_by'', JList [JStr ''...''])]"

definition send_alert :: json where
  "send_alert = JList [JStr ''Send-Alert'', JStr ''='', JStr ''true'']"

text \<open>Whether a route carries the matcher.\<close>

definition sends_alerts :: "json \<Rightarrow> exn + bool" where
  "sends_alerts route = rbind (member route ''object_matchers'' (JList [])) (\<lambda>ms.
     rbind (elements ms) (\<lambda>vs. Inr (send_alert \<in> set vs)))"

fun first_sending :: "json list \<Rightarrow> exn + json option" where
  "first_sending [] = Inr None"
| "first_sending (route # rest) = rbind (sends_alerts route) (\<lambda>b. if b then Inr (Some route) else first_sending rest)"

definition routes_of :: "json \<Rightarrow> exn + json list" where
  "routes_of tree = rbind (member tree ''routes'' (JList [])) elements"

definition find_policy_node :: "json \<Rightarrow> exn + json option" where
  "find_policy_node tree = rbind (routes_of tree) first_sending"

text \<open>The route's own sub-routes with the new one appended, in place in the tree; only a list can be appended to.\<close>

definition add_sub_policy_to_policy_routes :: "services \<Rightarrow> string \<Rightarrow> json \<Rightarrow> exn + json list" where
  "add_sub_policy_to_policy_routes S name route = rbind (member route ''routes'' (JList [])) (\<lambda>subs.
     case subs of JList vs \<Rightarrow> Inr (vs @ [build_sub_policy_data S name]) | _ \<Rightarrow> Inl AttributeError)"

fun set_member :: "string \<Rightarrow> json \<Rightarrow> json \<Rightarrow> json" where
  "set_member k v (JObj kvs) = JObj (dict_set k v kvs)"
| "set_member k v w = w"

definition edit_route :: "json list \<Rightarrow> json \<Rightarrow> exn + json" where
  "edit_route subs route = rbind (sends_alerts route) (\<lambda>b. Inr (if b then set_member ''routes'' (JList subs) route else route))"

definition edit_policy_tree :: "json list \<Rightarrow> json \<Rightarrow> exn + json" where
  "edit_policy_tree subs tree = rbind (routes_of tree) (\<lambda>routes.
     rbind (traverse (edit_route subs) routes) (\<lambda>routes'. Inr (set_member ''routes'' (JList routes') tree)))"

definition new_policy_tree :: "services \<Rightarrow> string \<Rightarrow> json \<Rightarrow> exn + json" where
  "new_policy_tree S name tree = rbind (find_policy_node tree) (\<lambda>node.
     case node of None \<Rightarrow> Inl (RuntimeError ''Could not find Send-Alert policy in Grafana'')
     | Some route \<Rightarrow> rbind (add_sub_policy_to_policy_routes S name route) (\<lambda>subs. edit_policy_tree subs tree))"

definition provision_sub_policy :: "services \<Rightarrow> string \<Rightarrow> string \<Rightarrow> string \<Rightarrow> ('b world_scheme, exn, string) program" where
  "provision_sub_policy S token base name = catching
     (andthen (grafana_call S token ''GET'' (policy_url base) None) (\<lambda>got.
      andthen (raise_for_status got) (\<lambda>_.
      andthen (decode_body got) (\<lambda>tree.
      andthen (giving (new_policy_tree S name tree)) (\<lambda>tree'.
      andthen (grafana_call S token ''PUT'' (policy_url base) (Some tree')) (\<lambda>put.
      andthen (raise_for_status put) (\<lambda>_. give name)))))))
     (\<lambda>e. throw (Sub_policy_failed e))"

section \<open>The integration\<close>

definition ensure_grafana_connections :: "services \<Rightarrow> string \<Rightarrow> string \<Rightarrow> ('b world_scheme, exn, string \<times> string) program" where
  "ensure_grafana_connections S operator key = andthen (giving (require_contact_point_settings S)) (\<lambda>(base, token, hook).
     let uid = contact_point_uid S operator; name = contact_point_name operator in
     andthen (provision_contact_point S token (contact_point_list_url base) uid hook
        (build_contact_point_payload uid operator hook key)) (\<lambda>_.
     andthen (provision_sub_policy S token base name) (\<lambda>policy. give (uid, policy))))"

definition delete_grafana_connections :: "services \<Rightarrow> string \<Rightarrow> ('b world_scheme, exn, unit) program" where
  "delete_grafana_connections S operator = catching
     (andthen (giving (require_contact_point_settings S)) (\<lambda>(base, token, hook).
      andthen (grafana_call S token ''DELETE'' (contact_point_list_url base @ ''/'' @ contact_point_uid S operator) None) (\<lambda>deleted.
        if fst deleted \<in> {204, 404} then give () else raise_for_status deleted)))
     (\<lambda>_. give ())"

section \<open>Lemmas\<close>

lemma keeps_grafana_call [keeps_rules]: "blind I \<Longrightarrow> keeps I (grafana_call S token how u body)"
  unfolding grafana_call_def by (rule keeps_call) (simp add: blind_def)

lemma returns_grafana_call [returns_rules]: "returns (grafana_call S token how u body)"
  unfolding grafana_call_def by (intro returns_rules)

lemma keeps_grafana [keeps_rules]:
  "blind I \<Longrightarrow> keeps I (ensure_grafana_connections S operator key)"
  "blind I \<Longrightarrow> keeps I (delete_grafana_connections S operator)"
proof -
  assume b: "blind I"
  show "keeps I (ensure_grafana_connections S operator key)"
    unfolding ensure_grafana_connections_def provision_contact_point_def provision_sub_policy_def Let_def
    using b by (auto intro!: keeps_rules split: option.split)
  show "keeps I (delete_grafana_connections S operator)"
    unfolding delete_grafana_connections_def using b by (auto intro!: keeps_rules)
qed

lemma returns_grafana [returns_rules]:
  "returns (ensure_grafana_connections S operator key)" "returns (delete_grafana_connections S operator)"
  unfolding ensure_grafana_connections_def provision_contact_point_def provision_sub_policy_def delete_grafana_connections_def Let_def
  by (auto intro!: returns_rules split: option.split)

text \<open>Editing a well-formed tree: only the sub-routes of the routes that send alerts change.\<close>

definition matchers_of :: "json \<Rightarrow> json list" where
  "matchers_of route = (case route of JObj kvs \<Rightarrow> (case map_of kvs ''object_matchers'' of Some (JList vs) \<Rightarrow> vs | _ \<Rightarrow> []) | _ \<Rightarrow> [])"

definition subs_of :: "json \<Rightarrow> json list" where
  "subs_of route = (case route of JObj kvs \<Rightarrow> (case map_of kvs ''routes'' of Some (JList vs) \<Rightarrow> vs | _ \<Rightarrow> []) | _ \<Rightarrow> [])"

definition route_ok :: "json \<Rightarrow> bool" where
  "route_ok route \<longleftrightarrow> (\<exists>kvs. route = JObj kvs \<and> dict_ok kvs
     \<and> (map_of kvs ''object_matchers'' = None \<or> (\<exists>vs. map_of kvs ''object_matchers'' = Some (JList vs)))
     \<and> (map_of kvs ''routes'' = None \<or> (\<exists>vs. map_of kvs ''routes'' = Some (JList vs))))"

lemma route_ok_sends: "route_ok route \<Longrightarrow> sends_alerts route = Inr (send_alert \<in> set (matchers_of route))"
  by (auto simp: route_ok_def sends_alerts_def matchers_of_def)

lemma first_sending_ok:
  "list_all route_ok routes \<Longrightarrow> first_sending routes = Inr (find (\<lambda>route. send_alert \<in> set (matchers_of route)) routes)"
  by (induction routes) (simp_all add: route_ok_sends)

lemma edit_routes_ok:
  "list_all route_ok routes \<Longrightarrow> traverse (edit_route subs) routes
     = Inr (map (\<lambda>route. if send_alert \<in> set (matchers_of route) then set_member ''routes'' (JList subs) route else route) routes)"
  by (induction routes) (simp_all add: edit_route_def route_ok_sends)

lemma add_sub_policy_ok:
  "route_ok route \<Longrightarrow> add_sub_policy_to_policy_routes S name route = Inr (subs_of route @ [build_sub_policy_data S name])"
  by (auto simp: route_ok_def add_sub_policy_to_policy_routes_def subs_of_def)

lemma subs_of_set: "route_ok route \<Longrightarrow> subs_of (set_member ''routes'' (JList subs) route) = subs"
  by (auto simp: route_ok_def subs_of_def dict_set_def update_conv')

lemma member_set: "member (JObj (dict_set k v kvs)) k' d = (if k' = k then Inr v else member (JObj kvs) k' d)"
  by (simp add: dict_set_def update_conv')

lemma route_member_set: "route_ok route \<Longrightarrow> k \<noteq> ''routes'' \<Longrightarrow>
    member (set_member ''routes'' v route) k d = member route k d"
  by (auto simp: route_ok_def member_set simp del: member.simps)

section \<open>Properties\<close>

text \<open>
  In a policy tree of well-formed routes exactly the routes that carry the \<open>Send-Alert\<close> matcher
  are edited, and of them nothing but the sub-routes: each gets those of the first of them with one
  more at the end, for the operator's contact point.  Every other route and member of the tree is put
  back as it was.  Without such a route nothing is put back.
\<close>

theorem policy_tree_is_edited_in_place:
  assumes "dict_ok kvs" and "map_of kvs ''routes'' = Some (JList routes)" and "list_all route_ok routes"
  shows "case find (\<lambda>route. send_alert \<in> set (matchers_of route)) routes of
       None \<Rightarrow> new_policy_tree S name (JObj kvs) = Inl (RuntimeError ''Could not find Send-Alert policy in Grafana'')
     | Some sending \<Rightarrow> \<exists>tree' routes'. new_policy_tree S name (JObj kvs) = Inr tree' \<and> routes_of tree' = Inr routes'
         \<and> (\<forall>k d. k \<noteq> ''routes'' \<longrightarrow> member tree' k d = member (JObj kvs) k d)
         \<and> list_all2 (\<lambda>route route'.
             if send_alert \<in> set (matchers_of route)
             then subs_of route' = subs_of sending @ [build_sub_policy_data S name]
               \<and> (\<forall>k d. k \<noteq> ''routes'' \<longrightarrow> member route' k d = member route k d)
             else route' = route) routes routes'"
proof (cases "find (\<lambda>route. send_alert \<in> set (matchers_of route)) routes")
  case None
  then show ?thesis using assms
    by (simp add: new_policy_tree_def find_policy_node_def routes_of_def first_sending_ok)
next
  case (Some sending)
  then have s: "route_ok sending" using assms(3) by (auto simp: find_Some_iff list_all_iff)
  let ?subs = "subs_of sending @ [build_sub_policy_data S name]"
  let ?edit = "\<lambda>route. if send_alert \<in> set (matchers_of route) then set_member ''routes'' (JList ?subs) route else route"
  have "new_policy_tree S name (JObj kvs) = Inr (JObj (dict_set ''routes'' (JList (map ?edit routes)) kvs))"
    using assms(2,3) Some s
    by (simp add: new_policy_tree_def find_policy_node_def edit_policy_tree_def routes_of_def first_sending_ok
      add_sub_policy_ok edit_routes_ok)
  moreover have "routes_of (JObj (dict_set ''routes'' (JList (map ?edit routes)) kvs)) = Inr (map ?edit routes)"
    by (simp add: routes_of_def dict_set_def update_conv')
  moreover have "list_all2 (\<lambda>route route'. if send_alert \<in> set (matchers_of route)
        then subs_of route' = ?subs \<and> (\<forall>k d. k \<noteq> ''routes'' \<longrightarrow> member route' k d = member route k d)
        else route' = route) routes (map ?edit routes)"
    using assms(3) by (auto simp: list_all2_conv_all_nth list_all_length subs_of_set route_member_set)
  ultimately show ?thesis using Some by (fastforce simp: member_set simp del: member.simps)
qed

definition bare_services :: services where
  "bare_services = \<lparr>settings = (\<lambda>_. None), replies = (\<lambda>_. No_answer []), text_of = (\<lambda>_. []), sha256_hex = id, message_of = (\<lambda>_. [])\<rparr>"

definition sending_route :: json where
  "sending_route = JObj [(''receiver'', JStr ''hub''), (''object_matchers'', JList [send_alert])]"

definition other_route :: json where
  "other_route = JObj [(''receiver'', JStr ''mail''), (''routes'', JList [JObj []])]"

theorem policy_tree_is_edited_in_place_witness:
  "\<exists>tree' route'. new_policy_tree bare_services ''noc'' (JObj [(''receiver'', JStr ''default''), (''routes'', JList [sending_route, other_route])]) = Inr tree'
     \<and> routes_of tree' = Inr [route', other_route] \<and> member tree' ''receiver'' JNull = Inr (JStr ''default'')
     \<and> subs_of route' = [build_sub_policy_data bare_services ''noc''] \<and> member route' ''receiver'' JNull = Inr (JStr ''hub'')"
proof -
  let ?kvs = "[(''receiver'', JStr ''default''), (''routes'', JList [sending_route, other_route])]"
  have m: "send_alert \<in> set (matchers_of sending_route)" "send_alert \<notin> set (matchers_of other_route)"
    "subs_of sending_route = []" "member sending_route ''receiver'' JNull = Inr (JStr ''hub'')"
    by (simp_all add: matchers_of_def subs_of_def sending_route_def other_route_def)
  have ok: "dict_ok ?kvs" "map_of ?kvs ''routes'' = Some (JList [sending_route, other_route])"
    "list_all route_ok [sending_route, other_route]"
    by (simp_all add: dict_ok_def route_ok_def sending_route_def other_route_def)
  have f: "find (\<lambda>route. send_alert \<in> set (matchers_of route)) [sending_route, other_route] = Some sending_route"
    using m by simp
  from policy_tree_is_edited_in_place [OF ok, of bare_services "''noc''", unfolded f option.case m(3) append_Nil]
  obtain tree' routes' where t: "new_policy_tree bare_services ''noc'' (JObj ?kvs) = Inr tree'" "routes_of tree' = Inr routes'"
    "\<forall>k d. k \<noteq> ''routes'' \<longrightarrow> member tree' k d = member (JObj ?kvs) k d"
    and rs: "list_all2 (\<lambda>route route'. if send_alert \<in> set (matchers_of route)
       then subs_of route' = [build_sub_policy_data bare_services ''noc''] \<and> (\<forall>k d. k \<noteq> ''routes'' \<longrightarrow> member route' k d = member route k d)
       else route' = route) [sending_route, other_route] routes'"
    by blast
  from rs m obtain route' where "routes' = [route', other_route]" "subs_of route' = [build_sub_policy_data bare_services ''noc'']"
    "member route' ''receiver'' JNull = Inr (JStr ''hub'')"
    by (auto simp: list_all2_Cons1)
  with t show ?thesis by auto
qed

text \<open>A contact point whose address is unchanged is left alone, whatever key it carries.\<close>

lemma stale_key_is_kept:
  assumes "replies S (requests w @ [\<lparr>verb = ''GET'', url = u, headers = provisioning_auth_headers token, content = None\<rparr>])
      = Answer 200 (Some (JList [JObj [(''uid'', JStr uid), (''type'', JStr ''webhook''),
          (''settings'', JObj [(''url'', JStr hook), (''authorization_credentials'', JStr old)])]]))"
  shows "\<exists>w'. provision_contact_point S token u uid hook (build_contact_point_payload uid operator hook key) w = Some (Inr uid, w')
     \<and> requests w' = requests w @ [\<lparr>verb = ''GET'', url = u, headers = provisioning_auth_headers token, content = None\<rparr>]"
  using assms by (simp add: provision_contact_point_def grafana_call_def andthen_def call_simp raise_for_status_def decode_body_def
    parse_contact_points_list_def find_contact_point_by_uid_def member_is_def webhook_contact_point_unchanged_def either_def upper_ascii_def)

end
