(* ===== verification/Tenants.thy ===== *)
theory Tenants
  imports Tenant_Access
begin

text \<open>
  The administration of tenants: \<open>src/src/routes/tenants.py\<close> and the functions of
  \<open>src/src/repositories/db.py\<close> it calls.  A registry holds the rows of the tables \<open>tenant\<close>,
  \<open>tenant_role_grant\<close> and \<open>operator\<close>.  A handler returns the refusal or its answer with the new
  registry, so that a refused request changes nothing by construction; the identifier a new row
  draws is an argument.  Foreign keys are not enforced here, as under SQLite.
\<close>

section \<open>Tables\<close>

record tenant_row =
  tn_id :: string
  tn_name :: string

record operator_row =
  op_id :: string
  op_name :: string
  op_group :: string
  op_tenant :: string
  op_apikey :: string

record registry =
  tenants :: "tenant_row list"
  role_grants :: grants
  operators :: "operator_row list"

record role_assignment =
  ra_subject :: string
  ra_subject_type :: string
  ra_role :: string

section \<open>Queries and updates\<close>

datatype tenant_error = TenantNameConflict string | TenantNotFound string

definition grant_of :: "string \<Rightarrow> role_assignment \<Rightarrow> tenant_role_grant" where
  "grant_of t m = \<lparr>grant_tenant = t, grant_subject = ra_subject m, grant_subject_type = ra_subject_type m,
     grant_role = ra_role m\<rparr>"

text \<open>One transaction: the tenant is flushed first, then come the grants; whatever key is violated, the
  name is blamed.\<close>

definition create_tenant_atomic ::
  "string \<Rightarrow> string \<Rightarrow> role_assignment list \<Rightarrow> registry \<Rightarrow> tenant_error + (tenant_row \<times> registry)" where
  "create_tenant_atomic fresh name mappings r =
     (let t = \<lparr>tn_id = fresh, tn_name = name\<rparr>; gs = role_grants r @ map (grant_of fresh) mappings in
      if name \<in> set (map tn_name (tenants r)) \<or> fresh \<in> set (map tn_id (tenants r)) then Inl (TenantNameConflict name)
      else if \<not> distinct (map grant_key gs) then Inl (TenantNameConflict name)
      else Inr (t, r\<lparr>tenants := tenants r @ [t], role_grants := gs\<rparr>))"

definition get_tenants :: "registry \<Rightarrow> tenant_row list" where
  "get_tenants r = tenants r"

definition get_tenant :: "registry \<Rightarrow> string \<Rightarrow> tenant_row option" where
  "get_tenant r t = find (\<lambda>row. tn_id row = t) (tenants r)"

definition get_tenants_for_subjects :: "registry \<Rightarrow> string list \<Rightarrow> tenant_row list" where
  "get_tenants_for_subjects r subjects =
     (if subjects = [] then []
      else let ids = map grant_tenant (filter (\<lambda>g. grant_subject g \<in> set subjects) (role_grants r)) in
           if ids = [] then [] else filter (\<lambda>row. tn_id row \<in> set ids) (tenants r))"

definition rename_row :: "string \<Rightarrow> string \<Rightarrow> tenant_row \<Rightarrow> tenant_row" where
  "rename_row t name row = (if tn_id row = t then row\<lparr>tn_name := name\<rparr> else row)"

definition update_tenant :: "string \<Rightarrow> string option \<Rightarrow> registry \<Rightarrow> tenant_error + (tenant_row \<times> registry)" where
  "update_tenant t name r = (case get_tenant r t of None \<Rightarrow> Inl (TenantNotFound t)
     | Some row \<Rightarrow> (case name of None \<Rightarrow> Inr (row, r)
        | Some n \<Rightarrow>
            if \<exists>other \<in> set (tenants r). tn_id other \<noteq> t \<and> tn_name other = n then Inl (TenantNameConflict n)
            else Inr (row\<lparr>tn_name := n\<rparr>, r\<lparr>tenants := map (rename_row t n) (tenants r)\<rparr>)))"

definition get_operators :: "registry \<Rightarrow> string option \<Rightarrow> operator_row list" where
  "get_operators r t = (case t of None \<Rightarrow> operators r | Some t \<Rightarrow> filter (\<lambda>o'. op_tenant o' = t) (operators r))"

section \<open>Handlers\<close>

definition VALID_SUBJECT_TYPES :: "string list" where
  "VALID_SUBJECT_TYPES = [''user'', ''group'']"

definition VALID_ROLES :: "string list" where
  "VALID_ROLES = [''admin'', ''editor'', ''viewer'']"

fun bad_mapping :: "role_assignment list \<Rightarrow> auth_error option" where
  "bad_mapping [] = None"
| "bad_mapping (m # ms) =
     (if ra_subject_type m \<notin> set VALID_SUBJECT_TYPES
      then Some (Http 400 (''Invalid subject_type '' @ [CHR 0x27] @ ra_subject_type m @ [CHR 0x27] @ '' (expected user/group)''))
      else if ra_role m \<notin> set VALID_ROLES
      then Some (Http 400 (''Invalid role '' @ [CHR 0x27] @ ra_role m @ [CHR 0x27] @ '' (expected admin/editor/viewer)''))
      else bad_mapping ms)"

definition validate_role_mappings :: "role_assignment list \<Rightarrow> auth_error + unit" where
  "validate_role_mappings ms = (case bad_mapping ms of Some e \<Rightarrow> Inl e
     | None \<Rightarrow> if \<not> distinct (map ra_subject ms) then Inl (Http 400 ''Duplicate subject in role_mappings'') else Inr ())"

definition guard_self_modification :: "token_entity \<Rightarrow> string \<Rightarrow> auth_error + unit" where
  "guard_self_modification e subject =
     (if \<not> is_superadmin e \<and> subject \<in> set (get_subjects e)
      then Inl (Http 400 ''You cannot modify your own permissions'') else Inr ())"

definition create_tenant_endpoint ::
  "string \<Rightarrow> string \<Rightarrow> role_assignment list \<Rightarrow> token_entity \<Rightarrow> registry
     \<Rightarrow> auth_error + ((tenant_row \<times> role_assignment list) \<times> registry)" where
  "create_tenant_endpoint fresh name mappings e r =
     (if \<not> is_superadmin e then Inl (Http 403 ''Only a superadmin can create a tenant'')
      else if name = [] \<or> py_strip name = [] then Inl (Http 400 ''Tenant name is required'')
      else rbind (validate_role_mappings mappings) (\<lambda>_.
        if \<not> list_ex (\<lambda>m. ra_role m = ''admin'') mappings then Inl (Http 400 ''At least one admin assignment is required'')
        else case create_tenant_atomic fresh (py_strip name) mappings r of
            Inl _ \<Rightarrow> Inl (Http 409 ''Tenant name already exists'')
          | Inr (t, r') \<Rightarrow> Inr ((t, mappings), r')))"

definition list_tenants_endpoint :: "token_entity \<Rightarrow> registry \<Rightarrow> tenant_row list" where
  "list_tenants_endpoint e r =
     (if is_superadmin e then get_tenants r else get_tenants_for_subjects r (get_subjects e))"

definition get_tenant_endpoint ::
  "string \<Rightarrow> token_entity \<Rightarrow> registry
     \<Rightarrow> auth_error + (tenant_row \<times> (string \<times> string \<times> string) list \<times> (string \<times> string \<times> string) list)" where
  "get_tenant_endpoint t e r = rbind (require_tenant ''viewer'' (role_grants r) t e) (\<lambda>_.
     case get_tenant r t of None \<Rightarrow> Inl (Http 404 ''Tenant not found'')
     | Some row \<Rightarrow> Inr (row,
         map (\<lambda>g. (grant_subject g, grant_subject_type g, grant_role g)) (list_grants (role_grants r) t),
         map (\<lambda>o'. (op_id o', op_name o', op_group o')) (get_operators r (Some t))))"

definition update_tenant_endpoint ::
  "string \<Rightarrow> string \<Rightarrow> token_entity \<Rightarrow> registry \<Rightarrow> auth_error + (tenant_row \<times> registry)" where
  "update_tenant_endpoint t name e r = rbind (require_tenant ''admin'' (role_grants r) t e) (\<lambda>_.
     if py_strip name = [] then Inl (Http 400 ''Tenant name cannot be empty'')
     else case update_tenant t (Some (py_strip name)) r of
         Inl (TenantNotFound _) \<Rightarrow> Inl (Http 404 ''Tenant not found'')
       | Inl (TenantNameConflict _) \<Rightarrow> Inl (Http 409 ''Tenant name already exists'')
       | Inr res \<Rightarrow> Inr res)"

definition add_role_endpoint ::
  "string \<Rightarrow> role_assignment \<Rightarrow> token_entity \<Rightarrow> registry \<Rightarrow> auth_error + (role_assignment \<times> registry)" where
  "add_role_endpoint t body e r = rbind (require_tenant ''admin'' (role_grants r) t e) (\<lambda>_.
     rbind (validate_role_mappings [body]) (\<lambda>_.
     rbind (guard_self_modification e (ra_subject body)) (\<lambda>_.
       Inr (body, r\<lparr>role_grants := add_grant t (ra_subject body) (ra_subject_type body) (ra_role body) (role_grants r)\<rparr>))))"

definition remove_role_endpoint ::
  "string \<Rightarrow> string \<Rightarrow> token_entity \<Rightarrow> registry \<Rightarrow> auth_error + registry" where
  "remove_role_endpoint t subject e r = rbind (require_tenant ''admin'' (role_grants r) t e) (\<lambda>_.
     rbind (guard_self_modification e subject) (\<lambda>_.
       case remove_grant t subject (role_grants r) of
         (removed, gs) \<Rightarrow> if \<not> removed then Inl (Http 404 ''Grant not found'') else Inr (r\<lparr>role_grants := gs\<rparr>)))"

section \<open>What administration can reach\<close>

inductive administered :: "registry \<Rightarrow> registry \<Rightarrow> bool" for r0 where
  start: "administered r0 r0"
| create: "administered r0 r \<Longrightarrow> create_tenant_endpoint fresh name ms e r = Inr (out, r') \<Longrightarrow> administered r0 r'"
| rename: "administered r0 r \<Longrightarrow> update_tenant_endpoint t name e r = Inr (row, r') \<Longrightarrow> administered r0 r'"
| grant: "administered r0 r \<Longrightarrow> add_role_endpoint t body e r = Inr (out', r') \<Longrightarrow> administered r0 r'"
| revoke: "administered r0 r \<Longrightarrow> remove_role_endpoint t subject e r = Inr r' \<Longrightarrow> administered r0 r'"

definition registry_ok :: "registry \<Rightarrow> bool" where
  "registry_ok r = (distinct (map tn_id (tenants r)) \<and> distinct (map tn_name (tenants r))
     \<and> grants_ok (role_grants r) \<and> known_roles (role_grants r))"

section \<open>Lemmas\<close>

lemma assert_admin_iff:
  assumes "known_roles gs" and "role_strength minimum = Some m"
  shows "is_ok (assert_tenant_role gs e t minimum)
     \<longleftrightarrow> is_superadmin e \<or> (\<exists>ro \<in> roles_held gs t (get_subjects e). m \<le> strength_or_0 ro)"
proof (cases "is_superadmin e")
  case True
  have "m \<le> 3" using assms(2) by (auto simp: role_strength_def split: if_splits)
  then show ?thesis
    using True assms(2) by (simp add: assert_tenant_role_def resolve_tenant_role_def role_strength_def)
next
  case False
  show ?thesis
  proof (cases "get_tenant_role_for_subjects gs t (get_subjects e)")
    case None
    then show ?thesis using False tenant_role_None [of gs t "get_subjects e"]
      by (simp add: assert_tenant_role_def resolve_tenant_role_def)
  next
    case (Some ro)
    note best = tenant_role_Some [OF Some]
    then obtain n where n: "role_strength ro = Some n" "strength_or_0 ro = n"
      using assms(1) by (auto simp: roles_held_def known_roles_def list_all_iff strength_or_0_def)
    have "is_ok (assert_tenant_role gs e t minimum) \<longleftrightarrow> m \<le> n"
      using False Some n assms(2) by (auto simp: assert_tenant_role_def resolve_tenant_role_def)
    then show ?thesis using False best n by (auto intro: order_trans)
  qed
qed

lemma create_tenant_ok:
  "create_tenant_atomic fresh name ms r = Inr (t, r') \<longleftrightarrow>
     name \<notin> set (map tn_name (tenants r)) \<and> fresh \<notin> set (map tn_id (tenants r))
     \<and> distinct (map grant_key (role_grants r @ map (grant_of fresh) ms))
     \<and> t = \<lparr>tn_id = fresh, tn_name = name\<rparr>
     \<and> r' = r\<lparr>tenants := tenants r @ [t], role_grants := role_grants r @ map (grant_of fresh) ms\<rparr>"
  unfolding create_tenant_atomic_def Let_def by auto

lemma bad_mapping_None: "bad_mapping ms = None \<longleftrightarrow>
    (\<forall>m \<in> set ms. ra_subject_type m \<in> set VALID_SUBJECT_TYPES \<and> ra_role m \<in> set VALID_ROLES)"
  by (induction ms) auto

lemma bad_mapping_400: "bad_mapping ms = Some e \<Longrightarrow> \<exists>d. e = Http 400 d"
  by (induction ms) (auto split: if_splits)

lemma mappings_valid: "validate_role_mappings ms = Inr u \<longleftrightarrow> distinct (map ra_subject ms)
    \<and> (\<forall>m \<in> set ms. ra_subject_type m \<in> set VALID_SUBJECT_TYPES \<and> ra_role m \<in> set VALID_ROLES)"
  unfolding validate_role_mappings_def using bad_mapping_None [of ms] by (auto split: option.splits)

lemma valid_role_known: "ra_role m \<in> set VALID_ROLES \<Longrightarrow> role_strength (ra_role m) \<noteq> None"
  by (auto simp: VALID_ROLES_def role_strength_def)

lemma guard_ok: "guard_self_modification e s = Inr u \<longleftrightarrow> is_superadmin e \<or> s \<notin> set (get_subjects e)"
  by (auto simp: guard_self_modification_def)

lemma require_ok: "require_tenant minimum gs t e = Inr e' \<longleftrightarrow> e' = e \<and> is_ok (assert_tenant_role gs e t minimum)"
  by (cases "assert_tenant_role gs e t minimum") (auto simp: require_tenant_def)

lemma known_roles_append: "known_roles (gs @ hs) \<longleftrightarrow> known_roles gs \<and> known_roles hs"
  by (simp add: known_roles_def)

lemma known_roles_add: "known_roles gs \<Longrightarrow> role_strength ro \<noteq> None \<Longrightarrow> known_roles (add_grant t s ty ro gs)"
  by (induction gs) (auto simp: known_roles_def)

lemma known_roles_remove: "known_roles gs \<Longrightarrow> known_roles (snd (remove_grant t s gs))"
  by (induction gs) (auto simp: known_roles_def)

lemma rename_ids: "map tn_id (map (rename_row t n) ts) = map tn_id ts"
  by (induction ts) (simp_all add: rename_row_def)

lemma rename_names:
  assumes "distinct (map tn_id ts)" and "distinct (map tn_name ts)"
    and "\<forall>other \<in> set ts. tn_id other \<noteq> t \<longrightarrow> tn_name other \<noteq> n"
  shows "distinct (map tn_name (map (rename_row t n) ts))"
  using assms
proof (induction ts)
  case (Cons a ts)
  have "tn_id a = t \<Longrightarrow> map (rename_row t n) ts = ts"
    using Cons.prems(1) by (auto simp: rename_row_def image_iff intro!: map_idI)
  then show ?case using Cons by (auto simp: rename_row_def image_iff split: if_splits)
qed simp

text \<open>Every handler that answers keeps the registry consistent.\<close>

lemma create_keeps:
  assumes "registry_ok r" and "create_tenant_endpoint fresh name ms e r = Inr (out, r')"
  shows "registry_ok r'"
proof -
  obtain t where t: "create_tenant_atomic fresh (py_strip name) ms r = Inr (t, r')" and v: "validate_role_mappings ms = Inr ()"
    using assms(2) unfolding create_tenant_endpoint_def
    by (cases "validate_role_mappings ms") (auto split: if_splits sum.splits)
  have "known_roles (map (grant_of fresh) ms)"
    using v valid_role_known unfolding mappings_valid known_roles_def by (auto simp: list_all_iff grant_of_def)
  then show ?thesis
    using assms(1) t unfolding create_tenant_ok registry_ok_def grants_ok_def by (auto simp: known_roles_append)
qed

lemma rename_keeps:
  assumes "registry_ok r" and "update_tenant_endpoint t name e r = Inr (row, r')"
  shows "registry_ok r'"
proof -
  have "update_tenant t (Some (py_strip name)) r = Inr (row, r')"
    using assms(2) unfolding update_tenant_endpoint_def
    by (cases "require_tenant ''admin'' (role_grants r) t e") (auto split: if_splits sum.splits tenant_error.splits)
  then have "r' = r\<lparr>tenants := map (rename_row t (py_strip name)) (tenants r)\<rparr>"
    and "\<forall>other \<in> set (tenants r). tn_id other \<noteq> t \<longrightarrow> tn_name other \<noteq> py_strip name"
    unfolding update_tenant_def by (auto split: option.splits if_splits)
  then show ?thesis using assms(1) rename_names unfolding registry_ok_def
    by (simp add: rename_ids del: map_map)
qed

lemma add_role_ok:
  "add_role_endpoint t body e r = Inr (out, r') \<longleftrightarrow>
     is_ok (assert_tenant_role (role_grants r) e t ''admin'') \<and> validate_role_mappings [body] = Inr ()
     \<and> guard_self_modification e (ra_subject body) = Inr () \<and> out = body
     \<and> r' = r\<lparr>role_grants := add_grant t (ra_subject body) (ra_subject_type body) (ra_role body) (role_grants r)\<rparr>"
  unfolding add_role_endpoint_def require_tenant_def
  by (cases "assert_tenant_role (role_grants r) e t ''admin''"; cases "validate_role_mappings [body]";
      cases "guard_self_modification e (ra_subject body)") auto

lemma remove_role_ok:
  "remove_role_endpoint t subject e r = Inr r' \<longleftrightarrow>
     is_ok (assert_tenant_role (role_grants r) e t ''admin'') \<and> guard_self_modification e subject = Inr ()
     \<and> fst (remove_grant t subject (role_grants r))
     \<and> r' = r\<lparr>role_grants := snd (remove_grant t subject (role_grants r))\<rparr>"
  unfolding remove_role_endpoint_def require_tenant_def
  by (cases "assert_tenant_role (role_grants r) e t ''admin''"; cases "guard_self_modification e subject";
      cases "remove_grant t subject (role_grants r)") auto

lemma grant_keeps:
  assumes "registry_ok r" and "add_role_endpoint t body e r = Inr (out, r')"
  shows "registry_ok r'"
proof -
  have "ra_role body \<in> set VALID_ROLES" using assms(2) unfolding add_role_ok mappings_valid by simp
  then show ?thesis
    using assms grant_effects(5) known_roles_add [OF _ valid_role_known] unfolding add_role_ok registry_ok_def by auto
qed

lemma revoke_keeps:
  assumes "registry_ok r" and "remove_role_endpoint t subject e r = Inr r'"
  shows "registry_ok r'"
  using assms grant_effects(5) known_roles_remove unfolding remove_role_ok registry_ok_def by auto

lemmas handlers_keep = create_keeps rename_keeps grant_keeps revoke_keeps

lemma administered_ok: "administered r0 r \<Longrightarrow> registry_ok r0 \<Longrightarrow> registry_ok r"
  by (induction rule: administered.induct) (blast intro: handlers_keep)+

text \<open>What a caller holds does not change with the grants of others.\<close>

lemma others_grants:
  assumes "registry_ok r" and "s \<notin> set (get_subjects e)"
  shows "roles_held (add_grant t s ty ro (role_grants r)) t' (get_subjects e) = roles_held (role_grants r) t' (get_subjects e)"
    and "roles_held (snd (remove_grant t s (role_grants r))) t' (get_subjects e) = roles_held (role_grants r) t' (get_subjects e)"
  using grant_effects(4) assms unfolding registry_ok_def by blast+

lemma check_follows_roles:
  assumes "known_roles gs" and "known_roles hs" and "roles_held gs t (get_subjects e) = roles_held hs t (get_subjects e)"
    and "role_strength minimum = Some m"
  shows "is_ok (assert_tenant_role gs e t minimum) \<longleftrightarrow> is_ok (assert_tenant_role hs e t minimum)"
  unfolding assert_admin_iff [OF assms(1,4)] assert_admin_iff [OF assms(2,4)] assms(3) by simp

text \<open>With known roles and a known minimum the check never fails with a key error.\<close>

lemma refusal_is_403:
  assumes "known_roles gs" and "minimum \<in> set VALID_ROLES" and "assert_tenant_role gs e t minimum = Inl err"
  shows "err = Http 403 (''Requires '' @ minimum @ '' role on this tenant'')"
proof -
  obtain m where m: "role_strength minimum = Some m"
    using assms(2) by (auto simp: VALID_ROLES_def role_strength_def)
  show ?thesis
  proof (cases "resolve_tenant_role gs e t")
    case None
    then show ?thesis using assms(3) by (simp add: assert_tenant_role_def)
  next
    case (Some ro)
    then have "role_strength ro \<noteq> None"
      using assms(1) tenant_role_Some [of gs t "get_subjects e" ro]
      by (auto simp: resolve_tenant_role_def known_roles_def list_all_iff roles_held_def role_strength_def split: if_splits)
    then show ?thesis using assms(3) Some m by (auto simp: assert_tenant_role_def split: if_splits)
  qed
qed

lemma new_tenant_grants:
  assumes "registry_ok r" and "fresh \<notin> grant_tenant ` set (role_grants r)" and "distinct (map ra_subject ms)"
  shows "grants_ok (role_grants r @ map (grant_of fresh) ms)"
    and "m \<in> set ms \<Longrightarrow>
      get_tenant_role_for_subjects (role_grants r @ map (grant_of fresh) ms) fresh [ra_subject m] = Some (ra_role m)"
    and "t \<noteq> fresh \<Longrightarrow> roles_held (role_grants r @ map (grant_of fresh) ms) t ss = roles_held (role_grants r) t ss"
proof -
  have k: "map grant_key (map (grant_of fresh) ms) = map (Pair fresh) (map ra_subject ms)"
    by (simp add: grant_key_def grant_of_def)
  have "distinct (map (Pair fresh) (map ra_subject ms))"
    using assms(3) by (subst distinct_map) (auto intro: inj_onI)
  then show ok: "grants_ok (role_grants r @ map (grant_of fresh) ms)"
    using assms(1,2) unfolding grants_ok_def map_append k registry_ok_def by (auto simp: grant_key_def grants_ok_def)
  show "get_tenant_role_for_subjects (role_grants r @ map (grant_of fresh) ms) fresh [ra_subject m] = Some (ra_role m)" if "m \<in> set ms"
    using held_one [OF ok, of "grant_of fresh m"] that by (simp add: grant_of_def)
  show "roles_held (role_grants r @ map (grant_of fresh) ms) t ss = roles_held (role_grants r) t ss" if "t \<noteq> fresh"
    using that by (auto simp: roles_held_def grant_of_def)
qed

lemma create_endpoint_ok:
  "create_tenant_endpoint fresh name ms e r = Inr (out, r') \<longleftrightarrow>
     is_superadmin e \<and> py_strip name \<noteq> [] \<and> name \<noteq> [] \<and> validate_role_mappings ms = Inr ()
     \<and> list_ex (\<lambda>m. ra_role m = ''admin'') ms
     \<and> create_tenant_atomic fresh (py_strip name) ms r = Inr (fst out, r') \<and> snd out = ms"
  unfolding create_tenant_endpoint_def
  by (cases "validate_role_mappings ms"; cases "create_tenant_atomic fresh (py_strip name) ms r"; cases out) auto

lemma members_see_their_tenants:
  "set (get_tenants_for_subjects r ss) = {row \<in> set (tenants r). roles_held (role_grants r) (tn_id row) ss \<noteq> {}}"
  by (force simp: get_tenants_for_subjects_def Let_def roles_held_def filter_empty_conv image_iff split: if_splits)

lemma find_fresh: "t \<notin> tn_id ` set ts \<Longrightarrow> find (\<lambda>row. tn_id row = t) (ts @ [\<lparr>tn_id = t, tn_name = n\<rparr>]) = Some \<lparr>tn_id = t, tn_name = n\<rparr>"
  by (induction ts) auto

section \<open>Properties\<close>

text \<open>
  Whatever the tenant routes do, with whatever callers and identifiers, tenants keep distinct
  identifiers and names, a subject holds one grant per tenant, and every grant has a known role: a
  caller who is refused on a tenant gets a 403 and never an error of the server.
\<close>

theorem tenants_stay_consistent:
  assumes "registry_ok r0" and "administered r0 r"
  shows "registry_ok r
     \<and> (\<forall>e t minimum. minimum \<in> set VALID_ROLES \<longrightarrow>
         (case assert_tenant_role (role_grants r) e t minimum of
            Inr ro \<Rightarrow> ro \<in> set VALID_ROLES
          | Inl err \<Rightarrow> err = Http 403 (''Requires '' @ minimum @ '' role on this tenant'')))"
proof (intro conjI allI impI)
  show ok: "registry_ok r" using administered_ok assms by blast
  fix e t minimum assume m: "minimum \<in> set VALID_ROLES"
  have k: "known_roles (role_grants r)" using ok by (simp add: registry_ok_def)
  have "role_strength ro \<noteq> None" if "assert_tenant_role (role_grants r) e t minimum = Inr ro" for ro
    using that by (auto simp: assert_tenant_role_def Let_def rbind_def option_res_def split: option.splits sum.splits if_splits)
  then show "case assert_tenant_role (role_grants r) e t minimum of Inr ro \<Rightarrow> ro \<in> set VALID_ROLES
      | Inl err \<Rightarrow> err = Http 403 (''Requires '' @ minimum @ '' role on this tenant'')"
    using refusal_is_403 [OF k m, of e t]
    by (auto simp: role_strength_def VALID_ROLES_def split: sum.split if_splits)
qed

text \<open>
  An admin who is no superadmin cannot touch a grant of their own, so a change of roles they
  make leaves what they may do on every tenant as it was: they are still an admin of the tenant
  they changed, which therefore never loses its last one this way.
\<close>

theorem admins_cannot_change_their_own_role:
  assumes "registry_ok r" and "\<not> is_superadmin e"
    and "add_role_endpoint t body e r = Inr (out, r') \<or> remove_role_endpoint t subject e r = Inr r'"
  shows "(\<forall>t' minimum. minimum \<in> set VALID_ROLES \<longrightarrow>
        is_ok (assert_tenant_role (role_grants r') e t' minimum) = is_ok (assert_tenant_role (role_grants r) e t' minimum))
     \<and> (\<exists>g \<in> set (role_grants r'). grant_tenant g = t \<and> grant_role g = ''admin'' \<and> grant_subject g \<in> set (get_subjects e))"
proof -
  have ok: "registry_ok r'" using assms(3) grant_keeps [OF assms(1)] revoke_keeps [OF assms(1)] by (elim disjE)
  have held: "roles_held (role_grants r') t' (get_subjects e) = roles_held (role_grants r) t' (get_subjects e)" for t'
    using assms(3) assms(2) others_grants [OF assms(1)] unfolding add_role_ok remove_role_ok guard_ok by auto
  have admin: "is_ok (assert_tenant_role (role_grants r) e t ''admin'')"
    using assms(3) unfolding add_role_ok remove_role_ok by blast
  have k: "known_roles (role_grants r)" "known_roles (role_grants r')" using assms(1) ok by (simp_all add: registry_ok_def)
  have three: "role_strength ''admin'' = Some 3" by (simp add: role_strength_def)
  obtain ro where "ro \<in> roles_held (role_grants r') t (get_subjects e)" "3 \<le> strength_or_0 ro"
    using admin assms(2) unfolding assert_admin_iff [OF k(1) three] held by blast
  then have "''admin'' \<in> roles_held (role_grants r') t (get_subjects e)"
    by (auto simp: strength_or_0_def role_strength_def split: if_splits)
  moreover have "is_ok (assert_tenant_role (role_grants r') e t' minimum) = is_ok (assert_tenant_role (role_grants r) e t' minimum)"
    if "minimum \<in> set VALID_ROLES" for t' minimum
    using check_follows_roles [OF k(2) k(1) held] that by (auto simp: VALID_ROLES_def role_strength_def)
  moreover obtain g where "g \<in> set (role_grants r')" "grant_tenant g = t" "grant_role g = ''admin''"
    "grant_subject g \<in> set (get_subjects e)"
    using calculation(1) unfolding roles_held_def by auto
  ultimately show ?thesis by auto
qed

definition sample_admin :: "string \<Rightarrow> token_entity" where
  "sample_admin em = \<lparr>tenant_id = ''keep'', email = em, api_key_name = None, role = Some ''viewer'',
     user_email = None, groups = None\<rparr>"

definition sample_superadmin :: token_entity where
  "sample_superadmin = (sample_admin ''root'')\<lparr>role := Some (role_name SuperAdmin)\<rparr>"

definition sample_assignment :: "string \<Rightarrow> string \<Rightarrow> role_assignment" where
  "sample_assignment s ro = \<lparr>ra_subject = s, ra_subject_type = ''user'', ra_role = ro\<rparr>"

definition sample_registry :: registry where
  "sample_registry = \<lparr>tenants = [\<lparr>tn_id = ''t1'', tn_name = ''noc''\<rparr>],
     role_grants = map (grant_of ''t1'') [sample_assignment ''ann'' ''admin'', sample_assignment ''bob'' ''viewer''],
     operators = []\<rparr>"

lemma sample_registry_ok: "registry_ok sample_registry"
  by code_simp

theorem tenants_stay_consistent_witness:
  "\<exists>r. administered sample_registry r \<and> registry_ok r \<and> map tn_name (tenants r) = [''noc'', ''soc'']
     \<and> grants_ok (role_grants r) \<and> length (role_grants r) = 2"
proof -
  let ?create = "create_tenant_endpoint ''t2'' '' soc '' [sample_assignment ''eve'' ''admin''] sample_superadmin sample_registry"
  let ?r1 = "snd (case ?create of Inr x \<Rightarrow> x)"
  have 1: "?create = Inr (fst (case ?create of Inr x \<Rightarrow> x), ?r1)" by code_simp
  have 2: "remove_role_endpoint ''t1'' ''bob'' (sample_admin ''ann'') ?r1 = Inr (case remove_role_endpoint ''t1'' ''bob'' (sample_admin ''ann'') ?r1 of Inr x \<Rightarrow> x)"
    by code_simp
  have s: "map tn_name (tenants (case remove_role_endpoint ''t1'' ''bob'' (sample_admin ''ann'') ?r1 of Inr x \<Rightarrow> x)) = [''noc'', ''soc'']"
    "length (role_grants (case remove_role_endpoint ''t1'' ''bob'' (sample_admin ''ann'') ?r1 of Inr x \<Rightarrow> x)) = 2"
    by code_simp+
  note a = administered.revoke [OF administered.create [OF administered.start 1] 2]
  show ?thesis
    using tenants_stay_consistent [OF sample_registry_ok a] a s unfolding registry_ok_def by (intro exI conjI) auto
qed

theorem admins_cannot_change_their_own_role_witness:
  "is_ok (add_role_endpoint ''t1'' (sample_assignment ''bob'' ''admin'') (sample_admin ''ann'') sample_registry)
   \<and> remove_role_endpoint ''t1'' ''ann'' (sample_admin ''ann'') sample_registry
       = Inl (Http 400 ''You cannot modify your own permissions'')
   \<and> (\<exists>g \<in> set (role_grants (case remove_role_endpoint ''t1'' ''bob'' (sample_admin ''ann'') sample_registry of Inr x \<Rightarrow> x)).
        grant_tenant g = ''t1'' \<and> grant_role g = ''admin'' \<and> grant_subject g \<in> set (get_subjects (sample_admin ''ann'')))"
proof -
  let ?after = "case remove_role_endpoint ''t1'' ''bob'' (sample_admin ''ann'') sample_registry of Inr x \<Rightarrow> x"
  have c: "is_ok (add_role_endpoint ''t1'' (sample_assignment ''bob'' ''admin'') (sample_admin ''ann'') sample_registry)"
    "remove_role_endpoint ''t1'' ''ann'' (sample_admin ''ann'') sample_registry
       = Inl (Http 400 ''You cannot modify your own permissions'')"
    "remove_role_endpoint ''t1'' ''bob'' (sample_admin ''ann'') sample_registry = Inr ?after"
    "\<not> is_superadmin (sample_admin ''ann'')"
    by code_simp+
  show ?thesis
    using c(1,2) admins_cannot_change_their_own_role [OF sample_registry_ok c(4) disjI2 [OF c(3)]] by blast
qed

text \<open>
  A tenant is created exactly for a superadmin, with a name no tenant has, valid assignments to
  distinct subjects and an admin among them.  It then has the name without the blanks around it,
  every subject named holds the role named and sees the tenant in their list, and what anyone holds
  on another tenant is unchanged.
\<close>

theorem tenants_are_created_whole:
  assumes "registry_ok r" and "fresh \<notin> tn_id ` set (tenants r)" and "fresh \<notin> grant_tenant ` set (role_grants r)"
  shows "(is_ok (create_tenant_endpoint fresh name ms e r) \<longleftrightarrow>
       is_superadmin e \<and> py_strip name \<noteq> [] \<and> name \<noteq> [] \<and> validate_role_mappings ms = Inr ()
       \<and> list_ex (\<lambda>m. ra_role m = ''admin'') ms \<and> py_strip name \<notin> tn_name ` set (tenants r))
     \<and> (\<forall>out r'. create_tenant_endpoint fresh name ms e r = Inr (out, r') \<longrightarrow>
       get_tenant r' fresh = Some \<lparr>tn_id = fresh, tn_name = py_strip name\<rparr>
       \<and> (\<forall>m \<in> set ms. get_tenant_role_for_subjects (role_grants r') fresh [ra_subject m] = Some (ra_role m)
            \<and> (\<forall>ss. ra_subject m \<in> set ss \<longrightarrow> \<lparr>tn_id = fresh, tn_name = py_strip name\<rparr> \<in> set (get_tenants_for_subjects r' ss)))
       \<and> (\<forall>t ss. t \<noteq> fresh \<longrightarrow> roles_held (role_grants r') t ss = roles_held (role_grants r) t ss))"
proof (intro conjI allI impI)
  let ?made = "\<lambda>out r'. create_tenant_endpoint fresh name ms e r = Inr (out, r')"
  have atomic: "is_ok (create_tenant_atomic fresh (py_strip name) ms r) \<longleftrightarrow> py_strip name \<notin> tn_name ` set (tenants r)"
    if "validate_role_mappings ms = Inr ()"
    using new_tenant_grants(1) [OF assms(1,3)] that assms(2)
    by (auto simp: create_tenant_atomic_def Let_def mappings_valid grants_ok_def)
  show "is_ok (create_tenant_endpoint fresh name ms e r) \<longleftrightarrow>
       is_superadmin e \<and> py_strip name \<noteq> [] \<and> name \<noteq> [] \<and> validate_role_mappings ms = Inr ()
       \<and> list_ex (\<lambda>m. ra_role m = ''admin'') ms \<and> py_strip name \<notin> tn_name ` set (tenants r)"
    using atomic unfolding create_tenant_endpoint_def
    by (cases "validate_role_mappings ms"; cases "create_tenant_atomic fresh (py_strip name) ms r") auto
  fix out r' assume made: "?made out r'"
  then have row: "r' = r\<lparr>tenants := tenants r @ [\<lparr>tn_id = fresh, tn_name = py_strip name\<rparr>],
      role_grants := role_grants r @ map (grant_of fresh) ms\<rparr>" and d: "distinct (map ra_subject ms)"
    unfolding create_endpoint_ok create_tenant_ok mappings_valid by simp_all
  note grants = new_tenant_grants [OF assms(1,3) d]
  show "get_tenant r' fresh = Some \<lparr>tn_id = fresh, tn_name = py_strip name\<rparr>"
    using assms(2) find_fresh [of fresh "tenants r"] by (simp add: row get_tenant_def)
  show "roles_held (role_grants r') t ss = roles_held (role_grants r) t ss" if "t \<noteq> fresh" for t ss
    using grants(3) [OF that] by (simp add: row)
  show "\<forall>m \<in> set ms. get_tenant_role_for_subjects (role_grants r') fresh [ra_subject m] = Some (ra_role m)
      \<and> (\<forall>ss. ra_subject m \<in> set ss \<longrightarrow> \<lparr>tn_id = fresh, tn_name = py_strip name\<rparr> \<in> set (get_tenants_for_subjects r' ss))"
  proof (intro ballI conjI allI impI)
    fix m ss assume m: "m \<in> set ms"
    show "get_tenant_role_for_subjects (role_grants r') fresh [ra_subject m] = Some (ra_role m)"
      using grants(2) [OF m] by (simp add: row)
    assume "ra_subject m \<in> set ss"
    then have "ra_role m \<in> roles_held (role_grants r') fresh ss"
      unfolding roles_held_def using m by (auto simp: row grant_of_def intro!: exI [of _ "grant_of fresh m"])
    then show "\<lparr>tn_id = fresh, tn_name = py_strip name\<rparr> \<in> set (get_tenants_for_subjects r' ss)"
      unfolding members_see_their_tenants by (auto simp: row)
  qed
qed

theorem tenants_are_created_whole_witness:
  "is_ok (create_tenant_endpoint ''t2'' '' soc '' [sample_assignment ''eve'' ''admin''] sample_superadmin sample_registry)
   \<and> \<not> is_ok (create_tenant_endpoint ''t2'' '' noc '' [sample_assignment ''eve'' ''admin''] sample_superadmin sample_registry)
   \<and> get_tenant (snd (case create_tenant_endpoint ''t2'' '' soc '' [sample_assignment ''eve'' ''admin''] sample_superadmin sample_registry of Inr x \<Rightarrow> x)) ''t2''
       = Some \<lparr>tn_id = ''t2'', tn_name = ''soc''\<rparr>"
proof -
  let ?make = "create_tenant_endpoint ''t2'' '' soc '' [sample_assignment ''eve'' ''admin''] sample_superadmin sample_registry"
  have new: "''t2'' \<notin> tn_id ` set (tenants sample_registry)" "''t2'' \<notin> grant_tenant ` set (role_grants sample_registry)"
    by code_simp+
  have conds: "is_superadmin sample_superadmin" "py_strip '' soc '' = ''soc''" "py_strip '' noc '' = ''noc''"
    "validate_role_mappings [sample_assignment ''eve'' ''admin''] = Inr ()"
    "list_ex (\<lambda>m. ra_role m = ''admin'') [sample_assignment ''eve'' ''admin'']"
    "''soc'' \<notin> tn_name ` set (tenants sample_registry)" "''noc'' \<in> tn_name ` set (tenants sample_registry)"
    by code_simp+
  have made: "?make = Inr (fst (case ?make of Inr x \<Rightarrow> x), snd (case ?make of Inr x \<Rightarrow> x))" by code_simp
  note whole = tenants_are_created_whole [OF sample_registry_ok new]
  have "is_ok ?make"
    using whole [of "'' soc ''" "[sample_assignment ''eve'' ''admin'']" sample_superadmin] conds by simp
  moreover have "\<not> is_ok (create_tenant_endpoint ''t2'' '' noc '' [sample_assignment ''eve'' ''admin''] sample_superadmin sample_registry)"
    using whole [of "'' noc ''" "[sample_assignment ''eve'' ''admin'']" sample_superadmin] conds by simp
  moreover have "get_tenant (snd (case ?make of Inr x \<Rightarrow> x)) ''t2'' = Some \<lparr>tn_id = ''t2'', tn_name = py_strip '' soc ''\<rparr>"
    using whole [of "'' soc ''" "[sample_assignment ''eve'' ''admin'']" sample_superadmin] made by blast
  ultimately show ?thesis using conds(2) by simp
qed

end
