(* ===== verification/Operators.thy ===== *)
theory Operators
  imports Grafana Tenants "HOL-Library.List_Lexorder" "HOL-Library.Char_ord"
begin

text \<open>
  Operators and their provisioning: \<open>src/src/services/operator_provisoioning.py\<close>,
  \<open>src/src/routes/operators.py\<close> and the operator functions of \<open>src/src/repositories/db.py\<close>.  The
  program state is the requests made, the registry of \<open>Tenants\<close> and the steps completed by the
  provisioning at hand; the identifier and the secret it draws are arguments.
\<close>

section \<open>The saga\<close>

datatype provisioning_step = KONG_CONSUMER | KONG_API_KEY | OPERATOR_ROW | GRAFANA

record saga = world +
  reg :: registry
  steps :: "provisioning_step list"

type_synonym 'a saga_program = "(saga, exn, 'a) program"

definition mark_step_complete :: "provisioning_step \<Rightarrow> unit saga_program" where
  "mark_step_complete st = changing (\<lambda>w. if st \<in> set (steps w) then w else w\<lparr>steps := steps w @ [st]\<rparr>)"

definition get_completed_steps_for_rollback :: "provisioning_step list saga_program" where
  "get_completed_steps_for_rollback = reading (\<lambda>w. rev (steps w))"

text \<open>The keys of the table \<open>operator\<close>; \<open>fk\<close> says whether the database enforces the reference to the tenant.\<close>

definition may_insert :: "bool \<Rightarrow> operator_row \<Rightarrow> registry \<Rightarrow> bool" where
  "may_insert fk row r \<longleftrightarrow> op_id row \<notin> set (map op_id (operators r)) \<and> op_name row \<notin> set (map op_name (operators r))
     \<and> op_group row \<notin> set (map op_group (operators r)) \<and> op_apikey row \<notin> set (map op_apikey (operators r))
     \<and> (fk \<longrightarrow> op_tenant row \<in> set (map tn_id (tenants r)))"

definition name_taken_error :: "string \<Rightarrow> string \<Rightarrow> registry \<Rightarrow> exn" where
  "name_taken_error name mail r =
     (if name \<in> set (map op_name (operators r)) then OperatorNameTaken name else OperatorGroupTaken mail)"

definition insert_operator :: "bool \<Rightarrow> operator_row \<Rightarrow> operator_row saga_program" where
  "insert_operator fk row = andthen (reading reg) (\<lambda>r.
     if may_insert fk row r
     then andthen (changing (\<lambda>w. w\<lparr>reg := r\<lparr>operators := operators r @ [row]\<rparr>\<rparr>)) (\<lambda>_. give row)
     else throw (name_taken_error (op_name row) (op_group row) r))"

fun without_named :: "string \<Rightarrow> operator_row list \<Rightarrow> operator_row list" where
  "without_named n [] = []"
| "without_named n (row # rows) = (if op_name row = n then rows else row # without_named n rows)"

definition delete_named :: "string \<Rightarrow> unit saga_program" where
  "delete_named n = changing (\<lambda>w. w\<lparr>reg := (reg w)\<lparr>operators := without_named n (operators (reg w))\<rparr>\<rparr>)"

fun rollback_step :: "services \<Rightarrow> string \<Rightarrow> provisioning_step \<Rightarrow> unit saga_program" where
  "rollback_step S n GRAFANA = delete_grafana_connections S n"
| "rollback_step S n OPERATOR_ROW = delete_named n"
| "rollback_step S n KONG_API_KEY = delete_api_key S n"
| "rollback_step S n KONG_CONSUMER = delete_consumer S n"

definition undo_step :: "services \<Rightarrow> string \<Rightarrow> provisioning_step \<Rightarrow> unit saga_program" where
  "undo_step S n st = catching (rollback_step S n st) (\<lambda>e. give ())"

definition rollback_provisioning :: "services \<Rightarrow> string \<Rightarrow> unit saga_program" where
  "rollback_provisioning S n = andthen get_completed_steps_for_rollback
     (for_each (undo_step S n))"

definition provision_steps ::
  "services \<Rightarrow> bool \<Rightarrow> string \<Rightarrow> string \<Rightarrow> string \<Rightarrow> string \<Rightarrow> string \<Rightarrow> operator_row saga_program" where
  "provision_steps S fk new_id secret n mail t =
     andthen (ensure_consumer S n mail) (\<lambda>cid.
     andthen (mark_step_complete KONG_CONSUMER) (\<lambda>_.
     andthen (create_or_update_api_key S secret cid n None) (\<lambda>key.
     andthen (mark_step_complete KONG_API_KEY) (\<lambda>_.
     andthen (insert_operator fk \<lparr>op_id = new_id, op_name = n, op_group = mail, op_tenant = t, op_apikey = key\<rparr>) (\<lambda>row.
     andthen (mark_step_complete OPERATOR_ROW) (\<lambda>_.
     andthen (ensure_grafana_connections S n key) (\<lambda>_.
     andthen (mark_step_complete GRAFANA) (\<lambda>_. give row))))))))"

definition provision_operator ::
  "services \<Rightarrow> bool \<Rightarrow> string \<Rightarrow> string \<Rightarrow> string \<Rightarrow> string \<Rightarrow> string \<Rightarrow> operator_row saga_program" where
  "provision_operator S fk new_id secret n mail t =
     andthen (changing (\<lambda>w. w\<lparr>steps := []\<rparr>)) (\<lambda>_.
     catching (provision_steps S fk new_id secret n mail t)
       (\<lambda>e. andthen (rollback_provisioning S n) (\<lambda>_. throw e)))"

definition create_operator ::
  "services \<Rightarrow> bool \<Rightarrow> string \<Rightarrow> string \<Rightarrow> string \<Rightarrow> string \<Rightarrow> string option \<Rightarrow> operator_row saga_program" where
  "create_operator S fk new_id secret mail t name =
     provision_operator S fk new_id secret (case name of Some n \<Rightarrow> if n = [] then mail else n | None \<Rightarrow> mail) mail t"

section \<open>Queries\<close>

definition get_operator :: "registry \<Rightarrow> string \<Rightarrow> operator_row option" where
  "get_operator r i = find (\<lambda>row. op_id row = i) (operators r)"

fun without_id :: "string \<Rightarrow> operator_row list \<Rightarrow> bool \<times> operator_row list" where
  "without_id i [] = (False, [])"
| "without_id i (row # rows) = (if op_id row = i then (True, rows) else apsnd (Cons row) (without_id i rows))"

definition delete_operator :: "string \<Rightarrow> registry \<Rightarrow> bool \<times> registry" where
  "delete_operator i r = (let (found, rows) = without_id i (operators r) in (found, r\<lparr>operators := rows\<rparr>))"

definition operator_groups_in_use :: "registry \<Rightarrow> string list" where
  "operator_groups_in_use r = remdups (map op_group (operators r))"

definition get_operator_by_name :: "registry \<Rightarrow> string \<Rightarrow> operator_row option" where
  "get_operator_by_name r n = find (\<lambda>row. op_name row = n) (operators r)"

section \<open>Handlers\<close>

record operator_request =
  rq_group :: string
  rq_tenant :: string
  rq_name :: "string option"

definition refusal_of :: "services \<Rightarrow> exn \<Rightarrow> auth_error" where
  "refusal_of S e = (case e of OperatorNameTaken _ \<Rightarrow> Http 409 ''operator name already exists''
     | OperatorGroupTaken _ \<Rightarrow> Http 409 ''group already has an operator''
     | ValueError _ \<Rightarrow> Http 503 (''Invalid kong/grafana data: '' @ message_of S e)
     | _ \<Rightarrow> Http 503 (''operator provisioning failed: '' @ message_of S e))"

definition create_operator_endpoint ::
  "services \<Rightarrow> bool \<Rightarrow> string \<Rightarrow> string \<Rightarrow> operator_request \<Rightarrow> token_entity \<Rightarrow> (saga, auth_error, operator_row) program" where
  "create_operator_endpoint S fk new_id secret body e = andthen (reading reg) (\<lambda>r.
     andthen (giving (assert_tenant_role (role_grants r) e (rq_tenant body) ''editor'')) (\<lambda>_.
     if \<not> is_superadmin e \<and> rq_group body \<notin> set (get_groups e) then throw (Http 400 ''group must be one of your groups'')
     else catching (create_operator S fk new_id secret (rq_group body) (rq_tenant body) (rq_name body))
       (\<lambda>x. throw (refusal_of S x))))"

definition list_operators_endpoint :: "string option \<Rightarrow> token_entity \<Rightarrow> registry \<Rightarrow> auth_error + operator_row list" where
  "list_operators_endpoint t e r = (case t of
     Some t \<Rightarrow> rbind (assert_tenant_role (role_grants r) e t ''viewer'') (\<lambda>_. Inr (get_operators r (Some t)))
   | None \<Rightarrow> if \<not> is_superadmin e then Inl (Http 400 ''tenant_id is required'') else Inr (get_operators r None))"

text \<open>\<open>found\<close> is what the identity manager answers to a search: the path, if any, and name of each group.\<close>

definition available_groups_endpoint ::
  "(string \<Rightarrow> (string option \<times> string) list) \<Rightarrow> string option \<Rightarrow> token_entity \<Rightarrow> registry \<Rightarrow> string list" where
  "available_groups_endpoint found search e r =
     (let blank = (case search of None \<Rightarrow> True | Some s \<Rightarrow> s = []) in
      if is_superadmin e \<and> blank then []
      else let candidate =
             (if is_superadmin e
              then map (\<lambda>(path, name). case path of Some p \<Rightarrow> if p = [] then CHR ''/'' # name else p | None \<Rightarrow> CHR ''/'' # name)
                     (found (case search of Some s \<Rightarrow> s | None \<Rightarrow> []))
              else if blank then get_groups e
              else filter (\<lambda>g. py_in (py_lower (case search of Some s \<Rightarrow> s | None \<Rightarrow> [])) (py_lower g)) (get_groups e)) in
           sort (remdups (filter (\<lambda>g. g \<noteq> [] \<and> g \<notin> set (operator_groups_in_use r)) candidate)))"

definition get_operator_endpoint :: "string \<Rightarrow> token_entity \<Rightarrow> registry \<Rightarrow> auth_error + operator_row" where
  "get_operator_endpoint i e r = (case get_operator r i of None \<Rightarrow> Inl (Http 404 ''Operator not found'')
     | Some row \<Rightarrow> rbind (assert_tenant_role (role_grants r) e (op_tenant row) ''viewer'') (\<lambda>_. Inr row))"

definition delete_operator_endpoint :: "string \<Rightarrow> token_entity \<Rightarrow> registry \<Rightarrow> auth_error + registry" where
  "delete_operator_endpoint i e r = (case get_operator r i of None \<Rightarrow> Inl (Http 404 ''Operator not found'')
     | Some row \<Rightarrow> rbind (assert_tenant_role (role_grants r) e (op_tenant row) ''admin'') (\<lambda>_. Inr (snd (delete_operator i r))))"

section \<open>Lemmas\<close>

definition operators_ok :: "registry \<Rightarrow> bool" where
  "operators_ok r \<longleftrightarrow> distinct (map op_id (operators r)) \<and> distinct (map op_name (operators r))
     \<and> distinct (map op_group (operators r)) \<and> distinct (map op_apikey (operators r))"

lemma blind_rest: "blind (\<lambda>w :: saga. P (reg w) (steps w))"
  by (simp add: blind_def)

lemma without_fresh: "n \<notin> set (map op_name rows) \<Longrightarrow> op_name row = n \<Longrightarrow> without_named n (rows @ [row]) = rows"
  by (induction rows) auto

lemma may_insert_ok: "may_insert fk row r \<Longrightarrow> operators_ok r \<Longrightarrow> operators_ok (r\<lparr>operators := operators r @ [row]\<rparr>)"
  by (auto simp: may_insert_def operators_ok_def)

text \<open>The registry a rollback starts from, before the steps still to undo.\<close>

definition undone :: "registry \<Rightarrow> operator_row \<Rightarrow> provisioning_step list \<Rightarrow> registry" where
  "undone r row ss = (if OPERATOR_ROW \<in> set ss then r\<lparr>operators := operators r @ [row]\<rparr> else r)"

lemma rollback_step_other:
  assumes "st \<noteq> OPERATOR_ROW" shows "keeps (\<lambda>w. reg w = r) (rollback_step S n st)"
proof -
  have b: "blind (\<lambda>w :: saga. reg w = r)" by (rule blind_rest)
  show ?thesis using assms b by (cases st) (auto intro: keeps_rules)
qed

lemma keeps_meets: "keeps I m \<Longrightarrow> meets I m (\<lambda>_. I) (\<lambda>_. I)"
  by (simp add: keeps_def)

lemma undone_rev: "undone r row (rev ss) = undone r row ss"
  by (simp add: undone_def)

lemma rollback_undoes:
  assumes "distinct ss" and "n \<notin> set (map op_name (operators r))" and "op_name row = n"
  shows "meets (\<lambda>w. reg w = undone r row ss)
     (for_each (undo_step S n) ss) (\<lambda>_ w. reg w = r) (\<lambda>_ w. reg w = r)"
  using assms(1)
proof (induction ss)
  case Nil
  show ?case unfolding for_each.simps by (rule meets_give) (simp add: undone_def)
next
  case (Cons st ss)
  have "meets (\<lambda>w. reg w = undone r row (st # ss)) (undo_step S n st)
      (\<lambda>_ w. reg w = undone r row ss) (\<lambda>_ w. reg w = r)"
  proof (cases "st = OPERATOR_ROW")
    case True
    then show ?thesis using Cons.prems without_fresh [OF assms(2,3)]
      by (auto simp: meets_def undone_def delete_named_def undo_step_def)
  next
    case False
    then have "undone r row (st # ss) = undone r row ss" by (auto simp: undone_def)
    then show ?thesis
      unfolding undo_step_def by (simp only:) (rule meets_catching [OF keeps_meets [OF rollback_step_other [OF False]] meets_give])
  qed
  then show ?case using Cons by (auto intro: meets_andthen)
qed

definition prov_failed :: "registry \<Rightarrow> string \<Rightarrow> saga \<Rightarrow> bool" where
  "prov_failed r n w \<longleftrightarrow> distinct (steps w) \<and> (\<exists>row. op_name row = n \<and> reg w = undone r row (steps w)
     \<and> (OPERATOR_ROW \<in> set (steps w) \<longrightarrow> n \<notin> set (map op_name (operators r))))"

lemma rollback_restores:
  "meets (prov_failed r n) (rollback_provisioning S n) (\<lambda>_ w. reg w = r) (\<lambda>_ w. reg w = r)"
proof -
  have "meets (\<lambda>w. w = w0) (rollback_provisioning S n) (\<lambda>_ w. reg w = r) (\<lambda>_ w. reg w = r)" if failed: "prov_failed r n w0" for w0
  proof -
    obtain row where row: "op_name row = n" "reg w0 = undone r row (rev (steps w0))" "distinct (rev (steps w0))"
      and new: "OPERATOR_ROW \<in> set (steps w0) \<longrightarrow> n \<notin> set (map op_name (operators r))"
      using failed unfolding prov_failed_def undone_rev distinct_rev by blast
    have "meets (\<lambda>w. reg w = undone r row (rev (steps w0)))
       (for_each (undo_step S n) (rev (steps w0))) (\<lambda>_ w. reg w = r) (\<lambda>_ w. reg w = r)"
    proof (cases "OPERATOR_ROW \<in> set (steps w0)")
      case True
      then show ?thesis using rollback_undoes row(1,3) new by blast
    next
      case False
      have b: "blind (\<lambda>w :: saga. reg w = r)" by (rule blind_rest)
      have "keeps (\<lambda>w. reg w = r) (for_each (undo_step S n) ss)"
        if "OPERATOR_ROW \<notin> set ss" for ss
        using that rollback_step_other unfolding undo_step_def by (induction ss) (auto intro!: keeps_rules)
      then show ?thesis using False unfolding undone_def keeps_def by simp
    qed
    note undo = this
    have eq: "rollback_provisioning S n w0 = for_each (undo_step S n) (rev (steps w0)) w0"
      by (simp add: rollback_provisioning_def get_completed_steps_for_rollback_def)
    show ?thesis unfolding meets_def
    proof (intro allI impI)
      fix w x w' assume "w = w0" "rollback_provisioning S n w = Some (x, w')"
      then have "for_each (undo_step S n) (rev (steps w0)) w0 = Some (x, w')" using eq by (simp only:)
      then show "case x of Inl e \<Rightarrow> reg w' = r | Inr u \<Rightarrow> reg w' = r" using undo row(2) unfolding meets_def by blast
    qed
  qed
  then show ?thesis unfolding meets_def by blast
qed

text \<open>Where provisioning is after its first steps, with the row not yet or already inserted.\<close>

definition before_row :: "registry \<Rightarrow> saga \<Rightarrow> bool" where
  "before_row r w \<longleftrightarrow> reg w = r \<and> distinct (steps w) \<and> OPERATOR_ROW \<notin> set (steps w)"

definition after_row :: "registry \<Rightarrow> operator_row \<Rightarrow> saga \<Rightarrow> bool" where
  "after_row r row w \<longleftrightarrow> reg w = r\<lparr>operators := operators r @ [row]\<rparr> \<and> distinct (steps w) \<and> OPERATOR_ROW \<in> set (steps w)
     \<and> op_name row \<notin> set (map op_name (operators r))"

lemma blind_rows: "blind (before_row r)" "blind (after_row r row)"
  by (simp_all add: blind_def before_row_def after_row_def)

lemma before_failed: "before_row r w \<Longrightarrow> prov_failed r n w"
proof -
  obtain row :: operator_row where "op_name row = n" by (meson operator_row.select_convs(2))
  then show "before_row r w \<Longrightarrow> prov_failed r n w" unfolding before_row_def prov_failed_def undone_def by auto
qed

lemma after_failed: "after_row r row w \<Longrightarrow> prov_failed r (op_name row) w"
  unfolding after_row_def prov_failed_def undone_def by auto

lemma mark_before: "st \<noteq> OPERATOR_ROW \<Longrightarrow> keeps (before_row r) (mark_step_complete st)"
  unfolding mark_step_complete_def by (rule keeps_changing) (auto simp: before_row_def)

lemma mark_after: "keeps (after_row r row) (mark_step_complete st)"
  unfolding mark_step_complete_def by (rule keeps_changing) (auto simp: after_row_def)

lemma insert_then_mark:
  "meets (before_row r) (andthen (insert_operator fk row) (\<lambda>row'. andthen (mark_step_complete OPERATOR_ROW) (\<lambda>_. f row')))
     (\<lambda>x w. Q x w) (\<lambda>e w. prov_failed r (op_name row) w)"
  if "may_insert fk row r \<Longrightarrow> meets (after_row r row) (f row) Q (\<lambda>e w. prov_failed r (op_name row) w)"
proof -
  have "after_row r row (w\<lparr>reg := r\<lparr>operators := operators r @ [row]\<rparr>, steps := steps w @ [OPERATOR_ROW]\<rparr>)"
    if "may_insert fk row r" "before_row r w" for w
    using that by (auto simp: after_row_def before_row_def may_insert_def)
  then show ?thesis
    using that before_failed [of r _ "op_name row"]
    by (auto simp: meets_def andthen_def insert_operator_def mark_step_complete_def before_row_def split: if_splits)
qed

text \<open>The whole of the forward path.\<close>

lemma provision_steps_meets:
  assumes "operators_ok r"
  shows "meets (before_row r) (provision_steps S fk new_id secret n mail t)
     (\<lambda>row w. reg w = r\<lparr>operators := operators r @ [row]\<rparr> \<and> may_insert fk row r
        \<and> op_id row = new_id \<and> op_name row = n \<and> op_group row = mail \<and> op_tenant row = t)
     (\<lambda>e w. prov_failed r n w)"
proof -
  let ?row = "\<lambda>key. \<lparr>op_id = new_id, op_name = n, op_group = mail, op_tenant = t, op_apikey = key\<rparr>"
  have fail: "meets (before_row r) m (\<lambda>_. before_row r) (\<lambda>e w. prov_failed r n w)" if "keeps (before_row r) m" for m :: "'x saga_program"
    using keeps_meets [OF that] by (rule meets_weaken) (auto intro: before_failed)
  have fail': "meets (after_row r (?row key)) m (\<lambda>_. after_row r (?row key)) (\<lambda>e w. prov_failed r n w)"
    if "keeps (after_row r (?row key)) m" for m :: "'x saga_program" and key
    using keeps_meets [OF that] by (rule meets_weaken) (auto dest: after_failed)
  show ?thesis
    unfolding provision_steps_def
    apply (rule meets_andthen [OF fail [OF keeps_ensure_consumer [OF blind_rows(1)]]])
    apply (rule meets_andthen [OF fail [OF mark_before]], simp)
    apply (rule meets_andthen [OF fail [OF keeps_kong(1) [OF blind_rows(1)]]])
    apply (rule meets_andthen [OF fail [OF mark_before]], simp)
    apply (rule insert_then_mark [where row = "?row _", simplified])
    apply (rule meets_andthen [OF fail' [OF keeps_grafana(1) [OF blind_rows(2)]]])
    apply (rule meets_andthen [OF fail' [OF mark_after]])
    apply (rule meets_give)
    apply (simp add: after_row_def)
    done
qed

lemma provision_operator_meets:
  assumes "operators_ok r"
  shows "meets (\<lambda>w. reg w = r) (provision_operator S fk new_id secret n mail t)
     (\<lambda>row w. reg w = r\<lparr>operators := operators r @ [row]\<rparr> \<and> may_insert fk row r
        \<and> op_id row = new_id \<and> op_name row = n \<and> op_group row = mail \<and> op_tenant row = t)
     (\<lambda>e w. reg w = r)"
proof -
  have "meets (\<lambda>w. reg w = r) (changing (\<lambda>w. w\<lparr>steps := []\<rparr>)) (\<lambda>_. before_row r) (\<lambda>e w. reg w = r)"
    by (auto simp: meets_def before_row_def)
  then show ?thesis unfolding provision_operator_def
    by (rule meets_andthen)
       (rule meets_catching [OF provision_steps_meets [OF assms] meets_andthen [OF rollback_restores meets_throw]])
qed

text \<open>Returning, if the listings of Kong end.\<close>

lemma returns_based: "returns (f (admin_base S)) \<Longrightarrow> returns (andthen (require_admin_base S) f)"
  by (auto simp: returns_def require_admin_base_def andthen_def)

lemma returns_kong:
  assumes "pages_descend S rank"
  shows "returns (ensure_consumer S n mail)" "returns (create_or_update_api_key S secret cid n key)"
    "returns (delete_consumer S n)" "returns (delete_api_key S n)"
proof -
  have d: "returns (delete_all_consumer_key_auths S (admin_base S) seg)" for seg
    unfolding delete_all_consumer_key_auths_def by (rule returns_delete_pages [OF assms])
  show "returns (ensure_consumer S n mail)"
    unfolding ensure_consumer_def create_consumer_or_fetch_existing_def by (intro returns_rules)
  show "returns (create_or_update_api_key S secret cid n key)"
    unfolding create_or_update_api_key_def sync_key_auth_def post_key_auth_def resolve_consumer_id_def Let_def
    by (rule returns_based) (auto intro!: returns_rules d split: option.split)
  show "returns (delete_consumer S n)" "returns (delete_api_key S n)"
    unfolding delete_consumer_def delete_api_key_def by (rule returns_based; auto intro!: returns_rules d)+
qed

lemma returns_local [returns_rules]: "returns (mark_step_complete st)" "returns (insert_operator fk row)"
  unfolding mark_step_complete_def insert_operator_def by (intro returns_rules)+

section \<open>Properties\<close>

text \<open>
  An operator is provisioned wholly or not at all, as far as the database goes: either its row,
  with the name, group and tenant asked for and the key Kong made, is the one new row and none of
  its keys was in use, or an exception is raised, whichever step failed and whether or not the
  clean-up of the other services worked, and the registry is what it was.
\<close>

theorem provisioning_is_all_or_nothing:
  assumes "operators_ok (reg w)" and "provision_operator S fk new_id secret n mail t w = Some (res, w')"
  shows "case res of
       Inr row \<Rightarrow> reg w' = (reg w)\<lparr>operators := operators (reg w) @ [row]\<rparr> \<and> may_insert fk row (reg w)
         \<and> operators_ok (reg w') \<and> op_id row = new_id \<and> op_name row = n \<and> op_group row = mail \<and> op_tenant row = t
     | Inl e \<Rightarrow> reg w' = reg w"
proof (cases res)
  case (Inl e)
  then show ?thesis using meetsD(2) [OF provision_operator_meets [OF assms(1)] refl] assms(2) by simp
next
  case (Inr row)
  note made = meetsD(1) [OF provision_operator_meets [OF assms(1)] refl assms(2) [unfolded Inr]]
  then have "operators_ok ((reg w)\<lparr>operators := operators (reg w) @ [row]\<rparr>)" using may_insert_ok assms(1) by blast
  then show ?thesis using made Inr by simp
qed

text \<open>
  Provisioning returns, with the operator or an exception, if every page of a listing of
  credentials leads to a page of lower rank.  Nothing bounds the number of pages otherwise.
\<close>

theorem provisioning_returns:
  assumes "pages_descend S rank"
  shows "\<exists>res w'. provision_operator S fk new_id secret n mail t w = Some (res, w')"
proof -
  have undo: "returns (undo_step S n st)" for st
    unfolding undo_step_def
    by (cases st; simp only: rollback_step.simps delete_named_def; intro returns_rules returns_kong [OF assms])
  have "returns (provision_steps S fk new_id secret n mail t)"
    unfolding provision_steps_def by (intro returns_rules returns_kong [OF assms])
  then have "returns (provision_operator S fk new_id secret n mail t)"
    unfolding provision_operator_def rollback_provisioning_def get_completed_steps_for_rollback_def
    by (intro returns_rules undo)
  then show ?thesis by (auto simp: returns_def)
qed

text \<open>Services for the witnesses: consumers exist if \<open>known\<close>, Grafana answers unless \<open>down\<close>.\<close>

definition sample_tree :: json where
  "sample_tree = JObj [(''receiver'', JStr ''default''), (''routes'', JList [
     JObj [(''receiver'', JStr ''mail''), (''object_matchers'', JList [])],
     JObj [(''object_matchers'', JList [send_alert]), (''routes'', JList [])]])]"

definition sample_reply :: "bool \<Rightarrow> bool \<Rightarrow> request \<Rightarrow> service_reply" where
  "sample_reply known down q =
     (if prefixed ''g/'' (url q) then
        (if down then No_answer ''refused''
         else if verb q = ''GET'' \<and> suffixed ''contact-points'' (url q) then Answer 200 (Some (JList []))
         else if verb q = ''GET'' then Answer 200 (Some sample_tree)
         else Answer 202 None)
      else if verb q = ''DELETE'' then Answer 204 None
      else if suffixed ''key-auth'' (url q)
        then (if verb q = ''GET'' then Answer 200 (Some (JObj [(''data'', JList [JObj [(''id'', JStr ''k1'')]]), (''next'', JNull)]))
              else Answer 201 (Some (JObj [(''id'', JStr ''k1''), (''key'', JStr ''secret'')])))
      else if verb q = ''GET'' \<and> \<not> known then Answer 404 None
      else Answer 200 (Some (JObj [(''id'', JStr ''c1'')])))"

definition sample_services :: "bool \<Rightarrow> bool \<Rightarrow> services" where
  "sample_services known down = \<lparr>settings = (\<lambda>k. if k = ''KONG_API_URL'' then Some ''k'' else if k = ''GRAFANA_API_URL'' then Some ''g/''
       else if k = ''GRAFANA_API_TOKEN'' then Some ''t'' else if k = ''ALERTS_TO_CONSOLE_URL'' then Some ''hook'' else None),
     replies = (\<lambda>reqs. sample_reply known down (last reqs)), text_of = (\<lambda>_. []), sha256_hex = (\<lambda>s. s), message_of = (\<lambda>_. [])\<rparr>"

definition sample_saga :: "operator_row list \<Rightarrow> saga" where
  "sample_saga rows = \<lparr>requests = [], reg = sample_registry\<lparr>operators := rows\<rparr>, steps = []\<rparr>"

definition sample_operator :: operator_row where
  "sample_operator = \<lparr>op_id = ''o1'', op_name = ''noc'', op_group = ''/noc'', op_tenant = ''t1'', op_apikey = ''old''\<rparr>"

theorem provisioning_is_all_or_nothing_witness:
  "(\<exists>w'. provision_operator (sample_services False False) True ''o2'' ''s'' ''soc'' ''/soc'' ''t1'' (sample_saga [sample_operator])
       = Some (Inr \<lparr>op_id = ''o2'', op_name = ''soc'', op_group = ''/soc'', op_tenant = ''t1'', op_apikey = ''secret''\<rparr>, w')
     \<and> operators_ok (reg w'))
   \<and> (\<exists>e w'. provision_operator (sample_services False True) True ''o2'' ''s'' ''soc'' ''/soc'' ''t1'' (sample_saga [sample_operator])
       = Some (Inl e, w') \<and> reg w' = reg (sample_saga [sample_operator]) \<and> 9 < length (requests w'))"
proof -
  let ?w = "sample_saga [sample_operator]"
  let ?run = "\<lambda>down. provision_operator (sample_services False down) True ''o2'' ''s'' ''soc'' ''/soc'' ''t1'' ?w"
  have ok: "operators_ok (reg ?w)" by code_simp
  have up: "map_option fst (?run False)
      = Some (Inr \<lparr>op_id = ''o2'', op_name = ''soc'', op_group = ''/soc'', op_tenant = ''t1'', op_apikey = ''secret''\<rparr>)"
    by code_simp
  have down: "map_option (\<lambda>(r, w'). (r, 9 < length (requests w'))) (?run True) = Some (Inl (TransportError ''refused''), True)"
    by code_simp
  obtain w1 where "?run False
      = Some (Inr \<lparr>op_id = ''o2'', op_name = ''soc'', op_group = ''/soc'', op_tenant = ''t1'', op_apikey = ''secret''\<rparr>, w1)"
    using up by auto
  moreover obtain w2 where "?run True = Some (Inl (TransportError ''refused''), w2)" "9 < length (requests w2)"
    using down by auto
  ultimately show ?thesis
    using provisioning_is_all_or_nothing [OF ok, of "sample_services False False" True "''o2''" "''s''" "''soc''" "''/soc''" "''t1''"]
      provisioning_is_all_or_nothing [OF ok, of "sample_services False True" True "''o2''" "''s''" "''soc''" "''/soc''" "''t1''"]
    by fastforce
qed

theorem provisioning_returns_witness:
  "\<exists>res w'. provision_operator (sample_services True True) False ''o'' ''s'' n mail t (sample_saga rows) = Some (res, w')"
proof -
  have "pages_descend (sample_services True True) (\<lambda>_. 0)"
    unfolding pages_descend_def
    by (auto simp: sample_services_def sample_reply_def next_paged_admin_url_def split: if_splits)
  then show ?thesis by (rule provisioning_returns)
qed

text \<open>What the next theorem relies on of Kong: it answers for the consumer of a name, lists one credential,
  deletes what it is asked to delete and echoes the key it makes.\<close>

definition admin_request :: "services \<Rightarrow> string \<Rightarrow> string \<Rightarrow> json option \<Rightarrow> request" where
  "admin_request S how u body = \<lparr>verb = how, url = u, headers = admin_headers S, content = body\<rparr>"

definition kong_serves :: "services \<Rightarrow> string \<Rightarrow> string \<Rightarrow> string \<Rightarrow> string \<Rightarrow> bool" where
  "kong_serves S n cid cred key \<longleftrightarrow> admin_base S \<noteq> [] \<and> cid \<noteq> [] \<and> cred \<noteq> [] \<and> key \<noteq> [] \<and> (\<forall>reqs seg.
       replies S (reqs @ [admin_request S ''GET'' (consumer_url (admin_base S) (path_segment n)) None])
         = Answer 200 (Some (JObj [(''id'', JStr cid)]))
     \<and> replies S (reqs @ [admin_request S ''GET'' (key_auth_url (admin_base S) seg) None])
         = Answer 200 (Some (JObj [(''data'', JList [JObj [(''id'', JStr cred)]]), (''next'', JNull)]))
     \<and> replies S (reqs @ [admin_request S ''DELETE'' (consumer_url (admin_base S) seg) None]) = Answer 204 None
     \<and> replies S (reqs @ [admin_request S ''POST'' (key_auth_url (admin_base S) seg) (Some (JObj []))])
         = Answer 201 (Some (JObj [(''id'', JStr cred), (''key'', JStr key)])))"

lemma kong_steps:
  assumes "kong_serves S n cid cred key"
  shows "ensure_consumer S n mail w = Some (Inr (JStr cid),
      w\<lparr>requests := requests w @ [admin_request S ''GET'' (consumer_url (admin_base S) (path_segment n)) None]\<rparr>)"
    and "delete_all_consumer_key_auths S (admin_base S) seg w = Some (Inr (),
      w\<lparr>requests := requests w @ [admin_request S ''GET'' (key_auth_url (admin_base S) seg) None,
         admin_request S ''DELETE'' (consumer_url (admin_base S) (seg @ ''/key-auth/'' @ path_segment cred)) None]\<rparr>)"
    and "post_key_auth S (admin_base S) seg None w = Some (Inr (JObj [(''id'', JStr cred), (''key'', JStr key)]),
      w\<lparr>requests := requests w @ [admin_request S ''POST'' (key_auth_url (admin_base S) seg) (Some (JObj []))]\<rparr>)"
    and "ask S ''DELETE'' (consumer_url (admin_base S) seg) None w = Some (Inr (204, None),
      w\<lparr>requests := requests w @ [admin_request S ''DELETE'' (consumer_url (admin_base S) seg) None]\<rparr>)"
proof -
  note k = assms [unfolded kong_serves_def]
  have req: "\<lparr>verb = how, url = u, headers = admin_headers S, content = b\<rparr> = admin_request S how u b" for how u b
    by (simp add: admin_request_def)
  have cred_url: "key_auth_url (admin_base S) seg @ ''/'' @ x = consumer_url (admin_base S) (seg @ ''/key-auth/'' @ x)" for x
    by (simp add: key_auth_url_def consumer_url_def)
  show "ensure_consumer S n mail w = Some (Inr (JStr cid),
      w\<lparr>requests := requests w @ [admin_request S ''GET'' (consumer_url (admin_base S) (path_segment n)) None]\<rparr>)"
    using k by (simp add: ensure_consumer_def require_admin_base_def ask_def andthen_def call_simp req id_of_def decode_body_def)
  show "delete_all_consumer_key_auths S (admin_base S) seg w = Some (Inr (),
      w\<lparr>requests := requests w @ [admin_request S ''GET'' (key_auth_url (admin_base S) seg) None,
         admin_request S ''DELETE'' (consumer_url (admin_base S) (seg @ ''/key-auth/'' @ path_segment cred)) None]\<rparr>)"
    using k unfolding delete_all_consumer_key_auths_def
    by (subst delete_pages.simps)
       (simp add: delete_page_def delete_credential_def ask_def andthen_def call_simp req decode_body_def raise_for_status_def
         either_def str_of_def next_paged_admin_url_def cred_url [simplified])
  show "post_key_auth S (admin_base S) seg None w = Some (Inr (JObj [(''id'', JStr cred), (''key'', JStr key)]),
      w\<lparr>requests := requests w @ [admin_request S ''POST'' (key_auth_url (admin_base S) seg) (Some (JObj []))]\<rparr>)"
    using k by (simp add: post_key_auth_def ask_def andthen_def call_simp req raise_for_status_def decode_body_def)
  show "ask S ''DELETE'' (consumer_url (admin_base S) seg) None w = Some (Inr (204, None),
      w\<lparr>requests := requests w @ [admin_request S ''DELETE'' (consumer_url (admin_base S) seg) None]\<rparr>)"
    using k by (simp add: ask_def call_simp req)
qed

text \<open>
  Claiming a name that is already an operator's costs that operator its consumer.  The request is
  refused and the table keeps the operator's row and key, but before the refusal the credentials of
  the consumer of that name were replaced, and the rollback deletes them and the consumer itself:
  the first request after the refused insertion lists the credentials and the last deletes the consumer.
\<close>

theorem taken_name_costs_the_consumer:
  assumes "kong_serves S n cid cred key" and "n \<in> set (map op_name (operators (reg w)))"
  shows "\<exists>w'. provision_operator S fk new_id secret n mail t w = Some (Inl (OperatorNameTaken n), w') \<and> reg w' = reg w
     \<and> map (\<lambda>q. (verb q, url q)) (drop (length (requests w)) (requests w')) =
       (let base = admin_base S; creds = (\<lambda>seg. [(''GET'', key_auth_url base seg),
            (''DELETE'', consumer_url base (seg @ ''/key-auth/'' @ path_segment cred))]) in
        [(''GET'', consumer_url base (path_segment n))] @ creds (path_segment cid) @ [(''POST'', key_auth_url base (path_segment cid))]
        @ creds (path_segment n) @ creds (path_segment n) @ [(''DELETE'', consumer_url base (path_segment n))])"
proof -
  note k = kong_steps [OF assms(1)]
  have base: "admin_base S \<noteq> []" "cid \<noteq> []" "key \<noteq> []" using assms(1) by (auto simp: kong_serves_def)
  have taken: "\<not> may_insert fk \<lparr>op_id = new_id, op_name = n, op_group = mail, op_tenant = t, op_apikey = key\<rparr> (reg w)"
    "name_taken_error n mail (reg w) = OperatorNameTaken n"
    using assms(2) by (simp_all add: may_insert_def name_taken_error_def)
  have keyed: "create_or_update_api_key S secret (JStr cid) n None v = Some (Inr key, v\<lparr>requests := requests v
      @ [admin_request S ''GET'' (key_auth_url (admin_base S) (path_segment cid)) None,
         admin_request S ''DELETE'' (consumer_url (admin_base S) (path_segment cid @ ''/key-auth/'' @ path_segment cred)) None,
         admin_request S ''POST'' (key_auth_url (admin_base S) (path_segment cid)) (Some (JObj []))]\<rparr>)" for v :: saga
    using base by (simp add: k(2,3) Let_def create_or_update_api_key_def sync_key_auth_def require_admin_base_def andthen_def str_of_def resolve_consumer_id_def)
  show ?thesis
    using base taken
    by (simp add: k(1,2,4) keyed Let_def provision_operator_def provision_steps_def andthen_def mark_step_complete_def insert_operator_def
      catching_def rollback_provisioning_def get_completed_steps_for_rollback_def undo_step_def delete_api_key_def
      delete_consumer_def require_admin_base_def admin_request_def)
qed

theorem taken_name_costs_the_consumer_witness:
  "\<exists>w'. provision_operator (sample_services True False) True ''o2'' ''s'' ''noc'' ''/other'' ''t2'' (sample_saga [sample_operator])
       = Some (Inl (OperatorNameTaken ''noc''), w') \<and> operators (reg w') = [sample_operator]
     \<and> last (map (\<lambda>q. (verb q, url q)) (requests w')) = (''DELETE'', ''k/consumers/noc'')"
proof -
  have base: "admin_base (sample_services True False) = ''k''" by code_simp
  have seg: "path_segment ''noc'' = ''noc''" by code_simp
  have "kong_serves (sample_services True False) ''noc'' ''c1'' ''k1'' ''secret''"
    unfolding kong_serves_def base seg
    by (auto simp: sample_services_def sample_reply_def admin_request_def key_auth_url_def consumer_url_def suffixed_def)
  then obtain w' where w': "provision_operator (sample_services True False) True ''o2'' ''s'' ''noc'' ''/other'' ''t2'' (sample_saga [sample_operator])
       = Some (Inl (OperatorNameTaken ''noc''), w')" "reg w' = reg (sample_saga [sample_operator])"
     "\<exists>qs. map (\<lambda>q. (verb q, url q)) (drop 0 (requests w')) = qs @ [(''DELETE'', consumer_url ''k'' (path_segment ''noc''))]"
    using taken_name_costs_the_consumer [of "sample_services True False" "''noc''" "''c1''" "''k1''" "''secret''"
      "sample_saga [sample_operator]" True "''o2''" "''s''" "''/other''" "''t2''"]
    by (auto simp: sample_saga_def sample_operator_def Let_def base)
  have "consumer_url ''k'' (path_segment ''noc'') = ''k/consumers/noc''" by code_simp
  then show ?thesis using w' by (auto simp: sample_saga_def)
qed

lemma find_row: "find P xs = Some x \<Longrightarrow> x \<in> set xs \<and> P x"
  by (auto simp: find_Some_iff)

lemma without_id_set: "distinct (map op_id rows) \<Longrightarrow> row \<in> set rows \<Longrightarrow> op_id row = i \<Longrightarrow>
    set (snd (without_id i rows)) = set rows - {row}"
  by (induction rows) (auto simp: image_iff)

lemma superadmin_passes: "is_superadmin e \<Longrightarrow> minimum \<in> set VALID_ROLES \<Longrightarrow> is_ok (assert_tenant_role gs e t minimum)"
  by (auto simp: assert_tenant_role_def resolve_tenant_role_def VALID_ROLES_def role_strength_def)

text \<open>
  Operators belong to their tenants.  A caller who is no editor of the tenant, or claims a
  group that is not theirs, is refused before any service is called or row written; what can be read
  or listed is of tenants the caller is a viewer of; only an admin of the operator's tenant deletes
  it, and exactly that row goes.  A group offered is free, and the caller's own unless a superadmin's.
\<close>

theorem operators_are_managed_by_their_tenants:
  assumes "registry_ok (reg w)" and "operators_ok (reg w)"
  shows "(\<not> is_ok (assert_tenant_role (role_grants (reg w)) e (rq_tenant body) ''editor'')
        \<or> \<not> is_superadmin e \<and> rq_group body \<notin> set (get_groups e) \<longrightarrow>
        (\<exists>code d. code \<in> {400, 403} \<and> create_operator_endpoint S fk new_id secret body e w = Some (Inl (Http code d), w)))
     \<and> (\<forall>i row. get_operator_endpoint i e (reg w) = Inr row \<longrightarrow> row \<in> set (operators (reg w)) \<and> op_id row = i
          \<and> is_ok (assert_tenant_role (role_grants (reg w)) e (op_tenant row) ''viewer''))
     \<and> (\<forall>t rows row. list_operators_endpoint t e (reg w) = Inr rows \<longrightarrow> row \<in> set rows \<longrightarrow>
          row \<in> set (operators (reg w)) \<and> is_ok (assert_tenant_role (role_grants (reg w)) e (op_tenant row) ''viewer''))
     \<and> (\<forall>i r'. delete_operator_endpoint i e (reg w) = Inr r' \<longrightarrow> (\<exists>row \<in> set (operators (reg w)). op_id row = i
          \<and> is_ok (assert_tenant_role (role_grants (reg w)) e (op_tenant row) ''admin'')
          \<and> set (operators r') = set (operators (reg w)) - {row} \<and> tenants r' = tenants (reg w) \<and> role_grants r' = role_grants (reg w)))
     \<and> (\<forall>found search g. g \<in> set (available_groups_endpoint found search e (reg w)) \<longrightarrow>
          g \<notin> op_group ` set (operators (reg w)) \<and> (is_superadmin e \<or> g \<in> set (get_groups e)))"
proof (intro conjI allI impI)
  have k: "known_roles (role_grants (reg w))" using assms(1) by (simp add: registry_ok_def)
  show "\<exists>code d. code \<in> {400, 403} \<and> create_operator_endpoint S fk new_id secret body e w = Some (Inl (Http code d), w)"
    if refused: "\<not> is_ok (assert_tenant_role (role_grants (reg w)) e (rq_tenant body) ''editor'')
      \<or> \<not> is_superadmin e \<and> rq_group body \<notin> set (get_groups e)"
  proof (cases "assert_tenant_role (role_grants (reg w)) e (rq_tenant body) ''editor''")
    case (Inl err)
    then show ?thesis using refusal_is_403 [OF k _ Inl] by (simp add: create_operator_endpoint_def VALID_ROLES_def)
  next
    case (Inr ro)
    then show ?thesis using refused by (auto simp: create_operator_endpoint_def)
  qed
next
  fix i row assume "get_operator_endpoint i e (reg w) = Inr row"
  then show "row \<in> set (operators (reg w))" "op_id row = i"
    "is_ok (assert_tenant_role (role_grants (reg w)) e (op_tenant row) ''viewer'')"
    by (auto simp: get_operator_endpoint_def get_operator_def rbind_def dest!: find_row split: option.splits sum.splits)
next
  fix t rows row assume "list_operators_endpoint t e (reg w) = Inr rows" "row \<in> set rows"
  then show "row \<in> set (operators (reg w))" "is_ok (assert_tenant_role (role_grants (reg w)) e (op_tenant row) ''viewer'')"
    using superadmin_passes [of e "''viewer''"]
    by (auto simp: list_operators_endpoint_def get_operators_def VALID_ROLES_def rbind_def split: option.splits sum.splits if_splits)
next
  fix i r' assume d: "delete_operator_endpoint i e (reg w) = Inr r'"
  obtain row where row: "get_operator (reg w) i = Some row" "is_ok (assert_tenant_role (role_grants (reg w)) e (op_tenant row) ''admin'')"
    "r' = snd (delete_operator i (reg w))"
    using d by (auto simp: delete_operator_endpoint_def rbind_def split: option.splits sum.splits)
  have r: "operators r' = snd (without_id i (operators (reg w)))" "tenants r' = tenants (reg w)" "role_grants r' = role_grants (reg w)"
    by (simp_all add: row(3) delete_operator_def case_prod_unfold Let_def)
  have in_table: "row \<in> set (operators (reg w))" "op_id row = i" using find_row [OF row(1) [unfolded get_operator_def]] by simp_all
  then have "set (operators r') = set (operators (reg w)) - {row}"
    using without_id_set [of "operators (reg w)" row i] assms(2) unfolding r(1) operators_ok_def by simp
  then show "\<exists>row \<in> set (operators (reg w)). op_id row = i
      \<and> is_ok (assert_tenant_role (role_grants (reg w)) e (op_tenant row) ''admin'')
      \<and> set (operators r') = set (operators (reg w)) - {row} \<and> tenants r' = tenants (reg w) \<and> role_grants r' = role_grants (reg w)"
    using in_table row(2) r(2,3) by blast
next
  fix found search g assume "g \<in> set (available_groups_endpoint found search e (reg w))"
  then show "g \<notin> op_group ` set (operators (reg w))" "is_superadmin e \<or> g \<in> set (get_groups e)"
    by (auto simp: available_groups_endpoint_def Let_def operator_groups_in_use_def split: if_splits)
qed

theorem operators_are_managed_by_their_tenants_witness:
  "create_operator_endpoint (sample_services False False) True ''o2'' ''s'' \<lparr>rq_group = ''/soc'', rq_tenant = ''t1'', rq_name = None\<rparr>
       (sample_admin ''bob'') (sample_saga [sample_operator])
     = Some (Inl (Http 403 ''Requires editor role on this tenant''), sample_saga [sample_operator])
   \<and> (\<exists>r'. delete_operator_endpoint ''o1'' (sample_admin ''ann'') (reg (sample_saga [sample_operator])) = Inr r' \<and> operators r' = [])
   \<and> (\<forall>found search. ''/noc'' \<notin> set (available_groups_endpoint found search sample_superadmin (reg (sample_saga [sample_operator]))))"
proof -
  let ?w = "sample_saga [sample_operator]"
  have ok: "registry_ok (reg ?w)" "operators_ok (reg ?w)" by code_simp+
  have "\<not> is_ok (assert_tenant_role (role_grants (reg ?w)) (sample_admin ''bob'') ''t1'' ''editor'')"
    "create_operator_endpoint (sample_services False False) True ''o2'' ''s'' \<lparr>rq_group = ''/soc'', rq_tenant = ''t1'', rq_name = None\<rparr>
       (sample_admin ''bob'') ?w = Some (Inl (Http 403 ''Requires editor role on this tenant''), ?w)"
    "delete_operator_endpoint ''o1'' (sample_admin ''ann'') (reg ?w) = Inr ((reg ?w)\<lparr>operators := []\<rparr>)"
    "''/noc'' \<in> op_group ` set (operators (reg ?w))"
    by code_simp+
  moreover have "operators ((reg ?w)\<lparr>operators := []\<rparr>) = []" by simp
  ultimately show ?thesis
    using operators_are_managed_by_their_tenants [OF ok, of sample_superadmin "\<lparr>rq_group = ''/soc'', rq_tenant = ''t1'', rq_name = None\<rparr>"
      "sample_services False False" True "''o2''" "''s''"] by blast
qed

end
