(* ===== verification/Alert_Ingestion.thy ===== *)
theory Alert_Ingestion
  imports Event_Producer Operators
begin

text \<open>
  The ingestion of alerts in \<open>src/src/routes/alerts.py\<close>: which tenant an event goes to, how it is
  handed to the producer and what the sender is told.  The handlers get the producer from outside, as
  in the code; the locale \<open>event_producer\<close> says what they rely on, and the Kafka producer provides it.
  A lookup by an operator that is no text is the database's affair, an argument of the model.
\<close>

section \<open>Routing\<close>




section \<open>Answers\<close>












section \<open>Handlers\<close>








text \<open>The challenge of Netdata reads the query of the class and not of the request, which fails whatever is sent.\<close>

definition webhook_challenge :: auth_error where
  "webhook_challenge = Http 400 ''Bad request: failed to get token''"

section \<open>What the handlers rely on\<close>



section \<open>Lemmas\<close>




section \<open>Properties\<close>







end
