(* ===== verification/Spec2Isabelle.thy ===== *)
theory Spec2Isabelle
  imports Cel_Validation Sse_Fanout Tenant_Access Deduplication_Stats Enrichment_Rules Incident_Tenants Alert_Dto
    Incident_Search Alert_Ingestion
begin

text \<open>
  A development beside the Keep API gateway (the code under \<open>src/src/\<close>), the service that stores
  and serves alerts and incidents.  It models the parts that carry logic of their own; every
  definition keeps the name of the function, method or class it translates.

  \<^bold>\<open>The program and the theories.\<close>

  \<^item> \<^bold>\<open>Filters.\<close>  Users write filters in CEL; \<open>repositories/cel_to_sql/\<close> compiles them to SQL for
    SQLite, MySQL and PostgreSQL.  \<open>Cel_Ast\<close> holds the nodes of \<open>ast_nodes.py\<close>; \<open>Cel_Converter\<close> the
    visitor of \<open>cel_ast_converter.py\<close> that turns the parser's tree into nodes over two stacks;
    \<open>Cel_Metadata\<close> the field configurations of \<open>properties_metadata.py\<close>; \<open>Cel_Mapper\<close> the rewriting of
    \<open>properties_mapper.py\<close> from fields to columns; \<open>Cel_Dialects\<close>, \<open>Cel_Sql\<close> and \<open>Cel_Providers\<close> the
    SQL builder of \<open>sql_providers/\<close>, where the methods a dialect overrides are a record of
    functions, and the driver \<open>convert_to_sql_str_v2\<close>.  \<open>Cel_Validation\<close> is
    \<open>services/cel_validation.py\<close> with the routes that answer its verdicts.
  \<^item> \<^bold>\<open>Notifications.\<close>  \<open>Sse_Broadcaster\<close> is \<open>services/sse.py\<close>: the streams of one process, one queue
    per open stream, under \<open>subscribe\<close>, \<open>notify\<close>, \<open>close_all\<close> and \<open>reopen\<close>.  \<open>Sse_Fanout\<close> is
    \<open>services/sse_fanout.py\<close>, which carries notifications between processes over a Redis channel,
    and the module functions that start it, notify through it and install signal handlers.
  \<^item> \<^bold>\<open>Access.\<close>  \<open>Access_Control\<close> is \<open>services/identity_manager/rbac.py\<close> and \<open>authverifierbase.py\<close> with
    the no-auth, database and OAuth2-proxy verifiers and the authorization of Keycloak's: how a request is
    authenticated and which scopes let it through.  \<open>Tenant_Access\<close> is \<open>tenant_access.py\<close> and the role
    grants of \<open>repositories/db.py\<close>; \<open>Tenants\<close> the routes of \<open>routes/tenants.py\<close> that administer both.
  \<^item> \<^bold>\<open>Operators.\<close>  An operator is a sender of alerts with a key of its own.  \<open>Operators\<close> is
    \<open>services/operator_provisoioning.py\<close> with \<open>routes/operators.py\<close>: it makes a consumer at Kong
    (\<open>Kong\<close>, \<open>integrations/kong.py\<close>), a row, and a contact point at Grafana (\<open>Grafana\<close>,
    \<open>integrations/grafana.py\<close>), and undoes them when a step fails.  \<open>Programs\<close> has the programs with
    exceptions they are written in, \<open>Service_Calls\<close> the requests.
  \<^item> \<^bold>\<open>Ingestion.\<close>  \<open>Event_Producer\<close> is \<open>services/producers/kafka_producer.py\<close>, \<open>Alert_Ingestion\<close> the
    routes of \<open>routes/alerts.py\<close> that take alerts, find the tenant of their operator and publish them.
  \<^item> \<^bold>\<open>Deduplication.\<close>  \<open>Alert_Deduplicator\<close> is how \<open>services/alert_deduplicator/\<close> hashes an alert without
    its ignored fields and compares it with the row of its fingerprint; \<open>Deduplication_Rules\<close> the
    creation, update, deletion and provisioning of rules with their routes and queries;
    \<open>Deduplication_Stats\<close> the list of rules with the statistics of their events.
  \<^item> \<^bold>\<open>Enrichment.\<close>  \<open>Alert_Enrichment\<close> is the part of \<open>repositories/db.py\<close> that writes what users and
    rules set on alerts and incidents, and what a new occurrence does to it.  \<open>Enrichments_Bl\<close> is the
    service over it (\<open>services/enrichments_bl.py\<close>), which also publishes and counts each write, with the
    handlers of \<open>routes/alerts.py\<close> that change alerts; \<open>Enrichment_Rules\<close> the mapping and extraction
    rules of the same service with \<open>routes/mapping.py\<close> and \<open>routes/extraction.py\<close>; \<open>Product_Metrics\<close>
    the counters of \<open>services/product_metrics.py\<close> and \<open>routes/ui_events.py\<close>.
    \<open>Alert_Dto\<close> is \<open>models/alert.py\<close> and \<open>utils/enrichment_helpers.py\<close>: what an alert a client sends
    becomes, and how a row is laid over an occurrence for clients to see.
  \<^item> \<^bold>\<open>Incidents.\<close>  \<open>Incidents\<close> has the rows of \<open>models/db/incident.py\<close>, the operations of
    \<open>repositories/db.py\<close> on them, the service \<open>services/incidents_bl.py\<close> and the handlers of
    \<open>routes/incidents.py\<close> that change incidents; \<open>Incident_Links\<close> proves what they do to the links between
    incidents and alerts, \<open>Incident_Tenants\<close> what they do across tenants, to numbers and to statuses.
  \<^item> \<^bold>\<open>Search.\<close>  \<open>Alert_Search\<close> is \<open>repositories/alerts.py\<close> with the query routes of \<open>routes/alerts.py\<close> and
    the text the search engine (\<open>services/search_engine.py\<close>) sends; \<open>Facets\<close> is \<open>repositories/facets.py\<close>, the
    builders of \<open>facets_query_builder/\<close> and \<open>routes/facets.py\<close>; \<open>Incident_Search\<close> is \<open>repositories/incidents.py\<close>
    with the routes that list incidents and their facets.  \<open>Paging\<close> states what the two lists share.
  \<^item> \<^bold>\<open>Shared.\<close>  \<open>Keep_Prelude\<close> has results with errors as values, Python's strings, numbers and dict;
    \<open>Py_Json\<close> has \<open>json.dumps\<close> and \<open>json.loads\<close>, \<open>Py_Uuid\<close> reading and printing UUIDs.

  How they interact: the validators call the compiler; the broadcaster is a parameter of the
  fan-out, whose lemmas need only the contract \<open>local_delivery\<close> of what a local notification does;
  the tenant check refines the entity a verifier let through; the deduplicator reads the hash that
  \<open>set_last_alert\<close> stored; the routes of alerts and incidents and the rules share the enrichment
  service.  The contract \<open>accounted_steps\<close> (what changes is logged) serves the alert routes, and
  \<open>confined_steps\<close> (a step touches the tenants it names) both the rules and the incidents.  The routes of
  ingestion need of the producer only the contract \<open>event_producer\<close>, which \<open>produce\<close> keeps.  The searches run
  filters the compiler produced over the rows of alerts and incidents, and both keep the contract
  \<open>paged_search\<close>: a page is a piece of one list, the total its length.

  \<^bold>\<open>How the code is represented.\<close>  A class is a record, an enumeration or union a datatype.  A raised
  exception is the \<open>Inl\<close> of a sum.  Mutable state is passed explicitly; the queues of the
  broadcaster are a store addressed by numbers.  Coroutines are cut at their suspension points:
  what the event loop, the clock, Redis, Kafka, Kong, Grafana, the database engine, the CEL parser or a
  hash gives is an argument of the definitions.  Within a handler nothing else runs, except where a
  theory says so: the notification services interleave.  Strings have code points up to 255; times are whole milliseconds
  or seconds; percentages are rationals where the code has floats; SHA-256, \<open>uuid5\<close>, Python's \<open>str\<close>
  of a foreign value, regular expressions, templates, the conditions of rules, what Pydantic makes of a value
  and what a column takes are parameters, and so is what the database makes of an SQL text in a row; joins,
  \<open>DISTINCT\<close>, \<open>GROUP BY\<close>, \<open>LIMIT\<close> and \<open>OFFSET\<close> are written out.  Log records and metrics that only observe are left out, except the counters and
  gauges of the notification services.

  \<^bold>\<open>What the lemmas show.\<close>

  \<^item> The converter yields the tree a denotation of the parse tree describes and fails on the rest;
    mapping preserves the meaning of a filter under any row; string constants of a filter never
    change the structure of the SQL where a doubled quote is the only escape (the lexer and \<open>same_shape\<close> of
    \<open>Cel_Shape\<close>, instantiated in \<open>Cel_Injection\<close>; the default lexing of MySQL is not of that kind, and there
    \<open>backslash_ends_the_literal_in_mysql\<close> shows a constant that escapes); supported filters always convert (\<open>Cel_Totality\<close>, \<open>Cel_Outcomes\<close>) and a
    rejection names its stage; the validators agree with the conversion on filters that are not blank.
  \<^item> The registry of streams stays consistent; a stream gets its tenant's notifications in order,
    once each, and an EventSource reads them back; shutdown ends every stream.  Across
    processes: a broadcast reaches the local streams or was published on a subscription held
    throughout, messages are read back as they were published, replicas deliver in the same order,
    a connection that falls silent ends within a bounded time, and the back-off of the subscriber loop is bounded.
  \<^item> Whoever is let through has every scope asked for, except with Keycloak's own permissions, where the
    first is checked; the tenant check decides by the strongest grant, and grants take effect at once.
    The tenant routes keep names, keys and roles consistent, and an admin cannot change their own role.
  \<^item> An operator is provisioned wholly or its row is gone again, provisioning returns if Kong's listings end,
    and operators are managed by their tenants.  The producer reports truthfully, what it accepts is on the
    topic it names, sends stay within their budget, and a sender who is told 202 has its alert on the main topic.
  \<^item> Repeated alerts are recognised whatever the order of their fields, the API never touches rules of
    other tenants or provisioned ones, provisioning reaches the configured rules and is idempotent,
    and every alert is counted once.  A status set by a user lasts until the occurrence that ends it,
    a note is not erased by accident, and what \<open>set_last_alert\<close> stores the deduplicator finds.
  \<^item> Every change of an alert through the routes leaves a record of who made it, the published event agrees
    with the row, and dismissing is undone by restoring.  A mapping rule takes the first row that matches.
    The product counters stay bounded whatever clients send.  Every alert gets its defaults, is shown as its
    row says, and its counters are functions of its history.
  \<^item> The number of alerts an incident shows follows its links through all requests that succeed (the relation
    \<open>served\<close>), merging moves every alert, requests touch only the tenants they name, numbers are unique and
    consecutive.
  \<^item> The pages of a search without ties together are its list, whose length is the total; a search shows rows of its tenant
    that satisfy the filter, within the cap, and a list of incidents exactly those that meet its conditions.
    A facet has the options it would have alone if the union keeps its values; the counts of fewer than fifty
    groups add up to the total of the same filter, and enumerations are listed in full; created facets are kept for their tenant.
  \<^item> Several theorems state where the code does not do what it means to: the lost disjunct, the
    unescaped JSON key, the malformed date, the frame that an event name can forge, the gauge
    left set, the last use written once, the impersonated role, the unknown granted role, the second
    deduplication rule, the reversed hours, the rule listed twice, the missing nested field, rules that raise
    when they match, the removal of alerts that fails halfway, the incident moved to another tenant, the
    alerts a resolved incident leaves as they are, the page beyond the cap, the tied rows that pages repeat, the colon
    that fails a search, the facet that is not there, the flag a united facet turns around, the candidates
    among the counts of incidents, the single scope Keycloak checks, the headers that stand in for a wrong key, the
    operator whose name another one claims, the producer that an outage of the dead letters stops.

  \<^bold>\<open>Bounds and fuel.\<close>  Recursion is structural or has a measure, except in
  \<open>delete_pages\<close> of \<open>Kong\<close>, which follows links of the server for ever if they never end; \<open>None\<close> is a call that
  does not return, and \<open>provisioning_returns\<close> says when the calls do.  \<open>scan_once\<close> takes fuel: the length of
  its text is enough, since each call consumes a character (\<open>json_reads_back\<close>).  Numerals of
  more than 4300 digits, which Python refuses, are refused by \<open>py_int\<close> and accepted by \<open>json_loads\<close>.

  \<^bold>\<open>Not modelled.\<close>  The CEL grammar and evaluation (packages), the SQL engines, Redis, JWT decoding and
  hashing are parameters.  Handlers that only read, providers, secret managers, the
  identity managers, start-up and the command line are clients and glue.  Of the producer the settings of TLS
  and the lock around connecting are left out.  The types of enrichment values other
  than \<open>NULL\<close> are left to the database.  Of incidents, those sent by providers or the assistant and
  resolution by the state of the alerts, which nothing calls, are left out; sessions write at their
  commits only.  Elastic, reports and metrics only pass queries on; the counts of presets evaluate CEL in
  the celpy package.
\<close>

end
